(* ===== verification/Emails_Prelude.thy ===== *)
theory Emails_Prelude
  imports Main "HOL-Library.List_Lexorder" "HOL-Library.Char_ord" "HOL-Library.Product_Lexorder"
begin

text \<open>
  Shared vocabulary of the development: JavaScript strings and the string operations
  the code uses, JSON values, and the two table operations every SQL statement of the
  self-hosted store is translated to (first matching row; conditional update that
  returns the row it wrote).

  Strings of the code are \<open>string\<close>, that is sequences of code units below 256; where a
  check inspects code units above that (surrogates), the value is a \<open>units\<close> list of
  natural numbers. White space and case folding are those of ECMAScript on that range.
\<close>

named_theorems row_simps "projections of table rows"
named_theorems op_defs "unfolding of store operations"

section \<open>Code units, white space, case\<close>

type_synonym units = "nat list"

definition is_ws_unit :: "nat \<Rightarrow> bool" where
  "is_ws_unit n \<longleftrightarrow>
     (9 \<le> n \<and> n \<le> 13) \<or> n = 32 \<or> n = 160 \<or> n = 0x1680 \<or> (0x2000 \<le> n \<and> n \<le> 0x200A)
     \<or> n = 0x2028 \<or> n = 0x2029 \<or> n = 0x202F \<or> n = 0x205F \<or> n = 0x3000 \<or> n = 0xFEFF"

definition trim_by :: "('a \<Rightarrow> bool) \<Rightarrow> 'a list \<Rightarrow> 'a list" where
  "trim_by ws xs = rev (dropWhile ws (rev (dropWhile ws xs)))"

abbreviation units_trim :: "units \<Rightarrow> units" where
  "units_trim \<equiv> trim_by is_ws_unit"

definition is_ws :: "char \<Rightarrow> bool" where
  "is_ws c \<longleftrightarrow> is_ws_unit (of_char c)"

abbreviation js_trim :: "string \<Rightarrow> string" where
  "js_trim \<equiv> trim_by is_ws"

definition lower_char :: "char \<Rightarrow> char" where
  "lower_char c =
     (let n = of_char c :: nat
      in if (65 \<le> n \<and> n \<le> 90) \<or> (192 \<le> n \<and> n \<le> 222 \<and> n \<noteq> 215) then char_of (n + 32) else c)"

definition js_lower :: "string \<Rightarrow> string" where
  "js_lower s = map lower_char s"

lemma trim_by_Nil [simp]: "trim_by ws [] = []"
  by (simp add: trim_by_def)

lemma set_trim_by: "set (trim_by ws xs) \<subseteq> set xs"
  unfolding trim_by_def by (metis set_dropWhileD set_rev subsetI)

lemma length_trim_by: "length (trim_by ws xs) \<le> length xs"
proof -
  have "length (trim_by ws xs) \<le> length (dropWhile ws xs)"
    by (simp add: trim_by_def) (metis length_dropWhile_le length_rev)
  also have "\<dots> \<le> length xs" by (rule length_dropWhile_le)
  finally show ?thesis .
qed

lemma dropWhile_id: "xs = [] \<or> \<not> ws (hd xs) \<Longrightarrow> dropWhile ws xs = xs"
  by (cases xs) auto

lemma hd_dropWhile_not: "dropWhile ws xs \<noteq> [] \<Longrightarrow> \<not> ws (hd (dropWhile ws xs))"
  by (induction xs) auto

lemma trim_by_ends:
  assumes "trim_by ws xs \<noteq> []"
  shows "\<not> ws (hd (trim_by ws xs)) \<and> \<not> ws (last (trim_by ws xs))"
proof -
  let ?d = "dropWhile ws xs" and ?t = "trim_by ws xs"
  have "dropWhile ws (rev ?d) \<noteq> []" using assms by (simp add: trim_by_def)
  then have l: "\<not> ws (last ?t)"
    by (simp add: trim_by_def last_rev hd_dropWhile_not)
  have "?d = ?t @ rev (takeWhile ws (rev ?d))"
    unfolding trim_by_def by (metis rev_append rev_rev_ident takeWhile_dropWhile_id)
  then have "hd ?t = hd ?d" and "?d \<noteq> []"
    using assms by (metis hd_append2, metis append_is_Nil_conv)
  with l show ?thesis by (simp add: hd_dropWhile_not)
qed

lemma trim_by_id_iff:
  "trim_by ws xs = xs \<longleftrightarrow> xs = [] \<or> (\<not> ws (hd xs) \<and> \<not> ws (last xs))"
proof
  assume "trim_by ws xs = xs"
  then show "xs = [] \<or> (\<not> ws (hd xs) \<and> \<not> ws (last xs))"
    by (metis trim_by_ends)
next
  assume "xs = [] \<or> (\<not> ws (hd xs) \<and> \<not> ws (last xs))"
  then show "trim_by ws xs = xs"
    by (auto simp: trim_by_def dropWhile_id hd_rev)
qed

lemma trim_by_idem [simp]: "trim_by ws (trim_by ws xs) = trim_by ws xs"
  using trim_by_ends trim_by_id_iff by blast

lemma lower_char_idem [simp]: "lower_char (lower_char c) = lower_char c"
proof -
  have "(of_char c :: nat) < 256" by simp
  then show ?thesis
    by (auto simp: lower_char_def Let_def)
qed

lemma js_lower_idem [simp]: "js_lower (js_lower s) = js_lower s"
  by (simp add: js_lower_def)

lemma length_js_lower [simp]: "length (js_lower s) = length s"
  by (simp add: js_lower_def)

lemma js_lower_append [simp]: "js_lower (a @ b) = js_lower a @ js_lower b"
  by (simp add: js_lower_def)

lemma js_lower_Nil_iff [simp]: "js_lower s = [] \<longleftrightarrow> s = []"
  by (simp add: js_lower_def)

section \<open>Searching and splitting\<close>

text \<open>\<open>indexOf\<close> and \<open>lastIndexOf\<close> of a character, \<open>None\<close> for -1; \<open>split\<close> on a character.\<close>

fun index_of :: "char \<Rightarrow> string \<Rightarrow> nat option" where
  "index_of c [] = None"
| "index_of c (x # xs) = (if x = c then Some 0 else map_option Suc (index_of c xs))"

definition last_index_of :: "char \<Rightarrow> string \<Rightarrow> nat option" where
  "last_index_of c s = map_option (\<lambda>i. length s - 1 - i) (index_of c (rev s))"

fun split_on :: "char \<Rightarrow> string \<Rightarrow> string list" where
  "split_on c [] = [[]]"
| "split_on c (x # xs) =
     (if x = c then [] # split_on c xs
      else (case split_on c xs of [] \<Rightarrow> [[x]] | p # ps \<Rightarrow> (x # p) # ps))"

lemma index_of_None_iff: "index_of c s = None \<longleftrightarrow> c \<notin> set s"
  by (induction s) auto

lemma index_of_SomeD:
  "index_of c s = Some i \<Longrightarrow> i < length s \<and> s ! i = c \<and> c \<notin> set (take i s)"
  by (induction s arbitrary: i) (auto split: if_splits)

lemma split_on_ne [simp]: "split_on c s \<noteq> []"
  by (induction s) (auto split: list.split)

lemma set_split_on: "p \<in> set (split_on c s) \<Longrightarrow> set p \<subseteq> set s - {c}"
proof (induction s arbitrary: p)
  case (Cons x xs)
  then show ?case by (cases "split_on c xs") (fastforce split: if_splits)+
qed simp

lemma split_on_chars: "x \<in> set s \<Longrightarrow> x \<noteq> c \<Longrightarrow> \<exists>p \<in> set (split_on c s). x \<in> set p"
proof (induction s)
  case (Cons y ys)
  show ?case
  proof (cases "x = y")
    case True
    with Cons.prems show ?thesis by (auto split: list.split)
  next
    case False
    with Cons obtain p where "p \<in> set (split_on c ys)" "x \<in> set p" by auto
    then show ?thesis by (cases "split_on c ys") auto
  qed
qed simp

lemma split_on_append:
  "c \<notin> set p \<Longrightarrow> split_on c (p @ c # rest) = p # split_on c rest"
  by (induction p) auto

lemma split_on_none: "c \<notin> set p \<Longrightarrow> split_on c p = [p]"
  by (induction p) auto

text \<open>\<open>x ?? d\<close>.\<close>

definition or_default :: "'a option \<Rightarrow> 'a \<Rightarrow> 'a" where
  "or_default x d = (case x of None \<Rightarrow> d | Some v \<Rightarrow> v)"

text \<open>\<open>[...new Set(xs)]\<close>: the first of equal elements stays.\<close>

definition js_unique :: "'a list \<Rightarrow> 'a list" where
  "js_unique xs = rev (remdups (rev xs))"

lemma set_js_unique [simp]: "set (js_unique xs) = set xs"
  by (simp add: js_unique_def)

lemma distinct_js_unique [simp]: "distinct (js_unique xs)"
  by (simp add: js_unique_def)

lemma js_unique_id: "distinct xs \<Longrightarrow> js_unique xs = xs"
  by (simp add: js_unique_def distinct_remdups_id)

lemma length_js_unique: "length (js_unique xs) = card (set xs)"
  by (metis distinct_card distinct_js_unique set_js_unique)

text \<open>
  A \<open>Map\<close> of the code keeps its keys in insertion order: the association list of its
  entries.  \<open>push_values k vs\<close> appends \<open>vs\<close> to the values of \<open>k\<close>.
\<close>

fun push_values :: "'k \<Rightarrow> 'v list \<Rightarrow> ('k \<times> 'v list) list \<Rightarrow> ('k \<times> 'v list) list" where
  "push_values k vs [] = [(k, vs)]"
| "push_values k vs ((k', ws) # r) =
     (if k' = k then (k', ws @ vs) # r else (k', ws) # push_values k vs r)"

lemma fst_push_values: "fst ` set (push_values k vs r) = insert k (fst ` set r)"
  by (induction k vs r rule: push_values.induct) auto

lemma distinct_push_values:
  "distinct (map fst r) \<Longrightarrow> distinct (map fst (push_values k vs r))"
proof (induction k vs r rule: push_values.induct)
  case (2 k vs k' ws r)
  have "k' \<noteq> k \<Longrightarrow> k' \<notin> fst ` set (push_values k vs r)" if "k' \<notin> fst ` set r"
    using that by (simp add: fst_push_values)
  with 2 show ?case by auto
qed simp

lemma in_push_values:
  "(\<exists>ws. (d, ws) \<in> set (push_values k vs r) \<and> x \<in> set ws) \<longleftrightarrow>
   (d = k \<and> x \<in> set vs) \<or> (\<exists>ws. (d, ws) \<in> set r \<and> x \<in> set ws)"
  by (induction k vs r rule: push_values.induct) auto

text \<open>Stable sorting by a comparison, as \<open>Array.prototype.sort\<close>.\<close>

fun insert_by :: "('a \<Rightarrow> 'a \<Rightarrow> bool) \<Rightarrow> 'a \<Rightarrow> 'a list \<Rightarrow> 'a list" where
  "insert_by le x [] = [x]"
| "insert_by le x (y # ys) = (if le x y then x # y # ys else y # insert_by le x ys)"

definition stable_sort :: "('a \<Rightarrow> 'a \<Rightarrow> bool) \<Rightarrow> 'a list \<Rightarrow> 'a list" where
  "stable_sort le xs = foldr (insert_by le) xs []"

lemma set_insert_by [simp]: "set (insert_by le x xs) = insert x (set xs)"
  by (induction xs) auto

lemma set_stable_sort [simp]: "set (stable_sort le xs) = set xs"
  unfolding stable_sort_def by (induction xs) simp_all

lemma length_insert_by [simp]: "length (insert_by le x xs) = Suc (length xs)"
  by (induction xs) auto

lemma length_stable_sort [simp]: "length (stable_sort le xs) = length xs"
  unfolding stable_sort_def by (induction xs) simp_all

lemma distinct_insert_by [simp]: "distinct (insert_by le x xs) \<longleftrightarrow> x \<notin> set xs \<and> distinct xs"
  by (induction xs) auto

lemma distinct_stable_sort [simp]: "distinct (stable_sort le xs) = distinct xs"
  by (metis card_distinct distinct_card length_stable_sort set_stable_sort)

lemma sorted_insert_by:
  assumes "transp le" and "totalp le" and "reflp le"
  shows "sorted_wrt le xs \<Longrightarrow> sorted_wrt le (insert_by le x xs)"
proof (induction xs)
  case (Cons y ys)
  have total: "le y x" if "\<not> le x y"
    using that assms by (metis reflpD totalpD)
  show ?case
  proof (cases "le x y")
    case True
    with Cons.prems assms(1) show ?thesis by (auto dest: transpD)
  qed (use Cons total in auto)
qed simp

lemma sorted_stable_sort:
  assumes "transp le" and "totalp le" and "reflp le"
  shows "sorted_wrt le (stable_sort le xs)"
  unfolding stable_sort_def by (induction xs) (simp_all add: sorted_insert_by assms)

section \<open>JSON values\<close>

text \<open>Numbers are integers: a number with a fraction is left out of the model.\<close>

datatype json =
    JNull
  | JBool bool
  | JNum int
  | JStr string
  | JArr "json list"
  | JObj "(string \<times> json) list"

section \<open>Table operations\<close>

text \<open>
  A table is the list of its rows. \<open>SELECT ... WHERE P LIMIT 1\<close> is \<open>find P\<close>;
  \<open>UPDATE ... SET f WHERE P RETURNING\<close> is \<open>sql_update\<close>, which gives the new table and
  the first row written, \<open>None\<close> when no row matched.
\<close>

definition sql_update :: "('r \<Rightarrow> bool) \<Rightarrow> ('r \<Rightarrow> 'r) \<Rightarrow> 'r list \<Rightarrow> 'r list \<times> 'r option" where
  "sql_update P f t = (map (\<lambda>r. if P r then f r else r) t, map_option f (find P t))"

lemma length_filter_mono:
  "(\<And>x. x \<in> set xs \<Longrightarrow> P x \<Longrightarrow> Q x) \<Longrightarrow> length (filter P xs) \<le> length (filter Q xs)"
  by (induction xs) auto

lemma find_None_iff_all: "find P xs = None \<longleftrightarrow> (\<forall>x \<in> set xs. \<not> P x)"
  by (auto simp: find_None_iff)

lemma find_SomeD: "find P xs = Some x \<Longrightarrow> x \<in> set xs \<and> P x"
  by (induction xs) (auto split: if_splits)

lemma find_map_same:
  assumes "\<And>x. P (f x) = P x"
  shows "find P (map (\<lambda>x. if P x then f x else x) xs) = map_option f (find P xs)"
  using assms by (induction xs) auto

lemma find_unique:
  "x \<in> set xs \<Longrightarrow> P x \<Longrightarrow> \<forall>y \<in> set xs. P y \<longrightarrow> y = x \<Longrightarrow> find P xs = Some x"
  by (metis find_SomeD find_None_iff not_None_eq)

lemma sql_update_miss:
  assumes "\<And>r. r \<in> set t \<Longrightarrow> \<not> P r"
  shows "sql_update P f t = (t, None)"
proof -
  have "map (\<lambda>r. if P r then f r else r) t = t" using assms by (induction t) auto
  moreover have "find P t = None" using assms by (auto simp: find_None_iff)
  ultimately show ?thesis by (simp add: sql_update_def)
qed

lemma sql_update_None_iff: "snd (sql_update P f t) = None \<longleftrightarrow> (\<forall>r \<in> set t. \<not> P r)"
  by (auto simp: sql_update_def find_None_iff)

lemma sql_update_SomeD:
  "snd (sql_update P f t) = Some r' \<Longrightarrow> \<exists>r \<in> set t. P r \<and> r' = f r"
  by (auto simp: sql_update_def dest!: find_SomeD)

lemma map_sql_update:
  "(\<And>r. P r \<Longrightarrow> k (f r) = k r) \<Longrightarrow> map k (fst (sql_update P f t)) = map k t"
  by (auto simp: sql_update_def)

section \<open>Reading results\<close>

text \<open>\<open>returns x\<close>: the call did not raise; \<open>returns_row x\<close>: it answered a row, not null.\<close>

definition returns :: "'s \<times> ('e + 'a) \<Rightarrow> bool" where
  "returns x \<longleftrightarrow> \<not> isl (snd x)"

definition returns_row :: "'s \<times> ('e + 'a option) \<Rightarrow> bool" where
  "returns_row x = (case snd x of Inl _ \<Rightarrow> False | Inr r \<Rightarrow> r \<noteq> None)"

lemma returns_obtain: "returns x \<Longrightarrow> \<exists>r. x = (fst x, Inr r)"
  by (cases x, cases "snd x") (auto simp: returns_def)

lemma returns_row_obtain: "returns_row x \<Longrightarrow> \<exists>r. x = (fst x, Inr (Some r))"
  by (cases x, cases "snd x") (auto simp: returns_row_def)

end
