(* ===== verification/Store_Schema.thy ===== *)
theory Store_Schema
  imports Emails_Prelude
begin

text \<open>
  The tables of the self-hosted store (src/server/self-hosted/store.ts and migrations.ts)
  that the modelled operations read or write, one record type per row type and one list
  per table.  Instants are milliseconds since the epoch.  Enumerated text columns whose
  every value the code writes is known are datatypes.
\<close>

section \<open>Send states and policy codes\<close>

datatype send_state =
    SS_none | SS_pending | SS_sending | SS_sent
  | SS_failed | SS_uncertain | SS_blocked | SS_cancelled

datatype policy_code =
    sender_not_registered | sender_inactive | sender_unverified | sender_not_ready
  | send_key_required | send_key_invalid | send_key_forbidden
  | recipient_suppressed | address_quota_exceeded | warming_limit_exceeded

fun policy_code_text :: "policy_code \<Rightarrow> string" where
  "policy_code_text sender_not_registered = ''sender_not_registered''"
| "policy_code_text sender_inactive = ''sender_inactive''"
| "policy_code_text sender_unverified = ''sender_unverified''"
| "policy_code_text sender_not_ready = ''sender_not_ready''"
| "policy_code_text send_key_required = ''send_key_required''"
| "policy_code_text send_key_invalid = ''send_key_invalid''"
| "policy_code_text send_key_forbidden = ''send_key_forbidden''"
| "policy_code_text recipient_suppressed = ''recipient_suppressed''"
| "policy_code_text address_quota_exceeded = ''address_quota_exceeded''"
| "policy_code_text warming_limit_exceeded = ''warming_limit_exceeded''"

section \<open>Messages\<close>

type_synonym headers = "string \<rightharpoonup> json"

record message =
  m_id :: string
  m_tenant :: string
  m_direction :: string
  m_from :: string
  m_to :: "string list"
  m_cc :: "string list"
  m_subject :: "string option"
  m_body_text :: "string option"
  m_body_html :: "string option"
  m_status :: string
  m_provider_message_id :: "string option"
  m_message_id :: "string option"
  m_in_reply_to :: "string option"
  m_received_at :: "int option"
  m_is_read :: bool
  m_is_starred :: bool
  m_labels :: "string list"
  m_headers :: headers
  m_attachments :: "json list"
  m_source_id :: "string option"
  m_key :: "units option"
  m_payload_hash :: "string option"
  m_send_state :: send_state
  m_send_started_at :: "int option"
  m_created_at :: int
  m_updated_at :: int

text \<open>
  \<open>MessageInput\<close>: an optional field is \<open>None\<close> when it is \<open>undefined\<close>; a field that may
  also be \<open>null\<close> is a nested option, \<open>Some None\<close> for \<open>null\<close>.
\<close>

record message_input =
  mi_from :: string
  mi_to :: "string list"
  mi_cc :: "string list option"
  mi_subject :: "string option option"
  mi_body_text :: "string option option"
  mi_body_html :: "string option option"
  mi_status :: "string option"
  mi_provider_message_id :: "string option option"
  mi_direction :: "string option"
  mi_message_id :: "string option option"
  mi_in_reply_to :: "string option option"
  mi_received_at :: "int option option"
  mi_is_read :: "bool option"
  mi_is_starred :: "bool option"
  mi_labels :: "string list option"
  mi_headers :: "headers option"
  mi_attachments :: "json list option"
  mi_source_id :: "string option"
  mi_key :: "units option"
  mi_payload_hash :: "string option"
  mi_send_state :: "send_state option"
  mi_send_started_at :: "int option option"

section \<open>Registry tables\<close>

record domain_row =
  d_id :: string
  d_tenant :: string
  d_domain :: string
  d_status :: string
  d_verified :: bool
  d_provisioning_status :: string

record address_row =
  a_id :: string
  a_tenant :: string
  a_email :: string
  a_domain :: "string option"
  a_status :: string
  a_verified :: bool
  a_daily_quota :: "int option"
  a_owner_id :: "string option"
  a_administrator_id :: "string option"
  a_domain_id :: "string option"
  a_provisioning_status :: string

record send_key_row =
  k_id :: string
  k_tenant :: string
  k_owner_id :: "string option"
  k_prefix :: "string option"
  k_label :: "string option"
  k_last_used_at :: "int option"
  k_revoked_at :: "int option"
  k_created_at :: int
  k_updated_at :: int

record send_key_secret =
  ks_id :: string
  ks_send_key_id :: string
  ks_key_hash :: string

record contact_row =
  c_tenant :: string
  c_email :: string
  c_suppressed :: bool

text \<open>
  A warming schedule's \<open>start_date\<close> is text: \<open>None\<close> is null or the empty string,
  \<open>Some None\<close> a text \<open>Date\<close> cannot parse, \<open>Some (Some t)\<close> a text that denotes instant \<open>t\<close>.
\<close>

record warming_row =
  w_tenant :: string
  w_domain :: string
  w_target :: int
  w_start_date :: "int option option"
  w_status :: string

record tenant_row =
  t_id :: string
  t_status :: string

record route_row =
  rt_domain :: string
  rt_tenant :: string

record quarantine_row =
  q_source_id :: string
  q_bucket :: string
  q_object_key :: string
  q_recipients :: "string list"
  q_reason :: string
  q_detail :: "string option"

section \<open>The store\<close>

record db =
  messages :: "message list"
  tombstones :: "(string \<times> string) list"
  domains :: "domain_row list"
  addresses :: "address_row list"
  owners :: "(string \<times> string) list"
  send_keys :: "send_key_row list"
  send_key_secrets :: "send_key_secret list"
  send_key_tenants :: "(string \<times> string) list"
  contacts :: "contact_row list"
  warming :: "warming_row list"
  tenants :: "tenant_row list"
  routes :: "route_row list"
  quarantine :: "quarantine_row list"

definition empty_db :: db where
  "empty_db = \<lparr> messages = [], tombstones = [], domains = [], addresses = [], owners = [], send_keys = [],
     send_key_secrets = [], send_key_tenants = [], contacts = [], warming = [], tenants = [],
     routes = [], quarantine = [] \<rparr>"

text \<open>
  What a \<open>TenantScopedStore\<close> is constructed with: its tenant, whether the client is a
  transactional pool, whether a test may run without one, and the SHA-256 of the platform
  (hexadecimal digest of the UTF-8 bytes of a string given by its code units).
\<close>

record scope =
  sc_tenant :: string
  sc_atomic :: bool
  sc_unsafe :: bool
  sc_sha256 :: "units \<Rightarrow> string"

abbreviation units_of :: "string \<Rightarrow> units" where
  "units_of s \<equiv> map of_char s"

datatype store_error =
    Range_Error string
  | Idempotency_Key_Conflict
  | Send_Intent_Tombstoned "message option"
  | Send_Intent_Atomicity_Unavailable
  | Send_Intent_Deletion_Forbidden message
  | Cross_Tenant_Reference string
  | Store_Error string

type_synonym 'a outcome = "db \<times> (store_error + 'a)"

text \<open>Generic updates of one message row.\<close>

definition update_message ::
    "(message \<Rightarrow> bool) \<Rightarrow> (message \<Rightarrow> message) \<Rightarrow> db \<Rightarrow> db \<times> message option" where
  "update_message P f s =
     (s\<lparr>messages := fst (sql_update P f (messages s))\<rparr>, snd (sql_update P f (messages s)))"

definition get_message :: "scope \<Rightarrow> string \<Rightarrow> db \<Rightarrow> message option" where
  "get_message sc i s = find (\<lambda>m. m_id m = i \<and> m_tenant m = sc_tenant sc) (messages s)"

text \<open>
  Integrity the schema enforces: the primary key of messages, and the partial unique
  indexes on (tenant, idempotency key) and (tenant, source id).
\<close>

definition ids_unique :: "db \<Rightarrow> bool" where
  "ids_unique s \<longleftrightarrow> distinct (map m_id (messages s))"

definition keys_unique :: "db \<Rightarrow> bool" where
  "keys_unique s \<longleftrightarrow> distinct (map (\<lambda>m. (m_tenant m, m_key m))
     (filter (\<lambda>m. m_key m \<noteq> None) (messages s)))"

definition schema_ok :: "db \<Rightarrow> bool" where
  "schema_ok s \<longleftrightarrow> ids_unique s \<and> keys_unique s"

lemma update_message_miss:
  "(\<And>m. m \<in> set (messages s) \<Longrightarrow> \<not> P m) \<Longrightarrow> update_message P f s = (s, None)"
  by (simp add: update_message_def sql_update_miss)

lemma update_message_SomeD:
  "update_message P f s = (s', Some r) \<Longrightarrow> \<exists>m \<in> set (messages s). P m \<and> r = f m"
  using sql_update_SomeD by (fastforce simp: update_message_def)

lemma update_message_tables [simp]:
  "messages (fst (update_message P f s)) = map (\<lambda>m. if P m then f m else m) (messages s)"
  "tombstones (fst (update_message P f s)) = tombstones s"
  by (simp_all add: update_message_def sql_update_def)

lemma update_message_schema:
  assumes "\<And>m. P m \<Longrightarrow> m_id (f m) = m_id m \<and> m_tenant (f m) = m_tenant m \<and> m_key (f m) = m_key m"
    and "schema_ok s"
  shows "schema_ok (fst (update_message P f s))"
proof -
  let ?g = "\<lambda>m. if P m then f m else m"
  have g: "m_id (?g m) = m_id m" "m_tenant (?g m) = m_tenant m" "m_key (?g m) = m_key m" for m
    using assms(1) by auto
  have "filter (\<lambda>m. m_key m \<noteq> None) (map ?g (messages s))
      = map ?g (filter (\<lambda>m. m_key m \<noteq> None) (messages s))"
    unfolding filter_map comp_def g ..
  with assms(2) show ?thesis
    by (simp add: schema_ok_def ids_unique_def keys_unique_def comp_def g)
qed

lemma schema_row_unique:
  "schema_ok s \<Longrightarrow> m \<in> set (messages s) \<Longrightarrow> m' \<in> set (messages s) \<Longrightarrow> m_id m = m_id m' \<Longrightarrow> m = m'"
  by (metis schema_ok_def ids_unique_def distinct_map inj_onD)

lemma get_message_SomeD:
  "get_message sc i s = Some m \<Longrightarrow> m \<in> set (messages s) \<and> m_id m = i \<and> m_tenant m = sc_tenant sc"
  by (auto simp: get_message_def dest!: find_SomeD)

lemma get_messageI:
  "schema_ok s \<Longrightarrow> m \<in> set (messages s) \<Longrightarrow> m_tenant m = sc_tenant sc \<Longrightarrow>
   get_message sc (m_id m) s = Some m"
  unfolding get_message_def by (rule find_unique) (auto dest: schema_row_unique)

end
