(* ===== verification/Email_Address.thy ===== *)
theory Email_Address
  imports Emails_Prelude
begin

text \<open>
  Strict sender parsing, src/lib/email-address.ts: \<open>canonicalSender\<close> extracts the single
  address of a From value, or refuses.  Also \<open>canonicalAddress\<close> of the self-hosted store,
  which maps a refusal to the empty string.
\<close>

section \<open>Character classes of the two regular expressions\<close>

definition is_alnum :: "char \<Rightarrow> bool" where
  "is_alnum c \<longleftrightarrow> (let n = of_char c :: nat in
     (48 \<le> n \<and> n \<le> 57) \<or> (65 \<le> n \<and> n \<le> 90) \<or> (97 \<le> n \<and> n \<le> 122))"

text \<open>The specials \<open>. ! # $ % & ' * + / = ? ^ _ ` { | } ~ -\<close> by code.\<close>

definition is_local_char :: "char \<Rightarrow> bool" where
  "is_local_char c \<longleftrightarrow> is_alnum c \<or> (of_char c :: nat) \<in>
     {46, 33, 35, 36, 37, 38, 39, 42, 43, 47, 61, 63, 94, 95, 96, 123, 124, 125, 126, 45}"

definition is_label :: "string \<Rightarrow> bool" where
  "is_label l \<longleftrightarrow> l \<noteq> [] \<and> length l \<le> 63 \<and> is_alnum (hd l) \<and> is_alnum (last l)
     \<and> (\<forall>c \<in> set l. is_alnum c \<or> c = CHR ''-'')"

fun has_dotdot :: "string \<Rightarrow> bool" where
  "has_dotdot (a # b # s) \<longleftrightarrow> (a = CHR ''.'' \<and> b = CHR ''.'') \<or> has_dotdot (b # s)"
| "has_dotdot _ \<longleftrightarrow> False"

section \<open>The parser\<close>

text \<open>The match of \<open>^[^<>]*<([^<>]+)>$\<close>: the text between the angle brackets.\<close>

definition angle_inner :: "string \<Rightarrow> string option" where
  "angle_inner v =
     (let pre = takeWhile (\<lambda>c. c \<noteq> CHR ''<'') v; rest = dropWhile (\<lambda>c. c \<noteq> CHR ''<'') v
      in if rest \<noteq> [] \<and> CHR ''>'' \<notin> set pre \<and> tl rest \<noteq> [] \<and> last (tl rest) = CHR ''>''
            \<and> butlast (tl rest) \<noteq> []
            \<and> (\<forall>c \<in> set (butlast (tl rest)). c \<noteq> CHR ''<'' \<and> c \<noteq> CHR ''>'')
         then Some (butlast (tl rest)) else None)"

definition addr_text :: "string \<Rightarrow> string option" where
  "addr_text value =
     (let lt = count_list value CHR ''<''; gt = count_list value CHR ''>''
      in if lt = 0 \<and> gt = 0 then (if \<exists>c \<in> set value. is_ws c then None else Some value)
         else if lt \<noteq> 1 \<or> gt \<noteq> 1 then None
         else map_option js_trim (angle_inner value))"

definition local_ok :: "string \<Rightarrow> bool" where
  "local_ok loc \<longleftrightarrow> length loc \<le> 64 \<and> hd loc \<noteq> CHR ''.'' \<and> last loc \<noteq> CHR ''.''
     \<and> \<not> has_dotdot loc \<and> (\<forall>c \<in> set loc. is_local_char c)"

definition domain_ok :: "string \<Rightarrow> bool" where
  "domain_ok d \<longleftrightarrow> length d \<le> 253 \<and> (\<forall>l \<in> set (split_on CHR ''.'' d). is_label l)"

definition check_addr :: "string \<Rightarrow> string option" where
  "check_addr addr =
     (case index_of CHR ''@'' addr of
        None \<Rightarrow> None
      | Some at \<Rightarrow>
          if at = 0 \<or> last_index_of CHR ''@'' addr \<noteq> Some at \<or> at = length addr - 1 then None
          else if \<exists>c \<in> set addr. is_ws c then None
          else if \<not> local_ok (take at addr) then None
          else if \<not> domain_ok (js_lower (drop (Suc at) addr)) then None
          else Some (js_lower addr))"

definition canonicalSender :: "string \<Rightarrow> string option" where
  "canonicalSender from =
     (let value = js_trim from
      in if value = [] then None
         else (case addr_text value of None \<Rightarrow> None | Some addr \<Rightarrow> check_addr addr))"

definition canonicalAddress :: "string \<Rightarrow> string" where
  "canonicalAddress from = (case canonicalSender from of None \<Rightarrow> [] | Some a \<Rightarrow> a)"

text \<open>\<open>split_part(s, '@', 2)\<close> of SQL: the second field, empty when there is none.\<close>

definition email_domain_part :: "string \<Rightarrow> string" where
  "email_domain_part s = (case split_on CHR ''@'' s of _ # d # _ \<Rightarrow> d | _ \<Rightarrow> [])"

lemmas parser_defs = canonicalSender_def addr_text_def angle_inner_def check_addr_def local_ok_def
  domain_ok_def is_label_def is_local_char_def is_alnum_def last_index_of_def
  trim_by_def is_ws_def is_ws_unit_def js_lower_def lower_char_def Let_def

section \<open>Lowering keeps the classes\<close>

abbreviation code_of :: "char \<Rightarrow> nat" where
  "code_of \<equiv> of_char"

lemma of_char_lower:
  "code_of (lower_char c) =
     (if (65 \<le> code_of c \<and> code_of c \<le> 90) \<or> (192 \<le> code_of c \<and> code_of c \<le> 222 \<and> code_of c \<noteq> 215)
      then code_of c + 32 else code_of c)"
  by (simp add: lower_char_def Let_def)

lemma lower_code_cases:
  obtains (up) "65 \<le> code_of c" "code_of c \<le> 90" "code_of (lower_char c) = code_of c + 32"
    | (latin) "192 \<le> code_of c" "code_of (lower_char c) = code_of c + 32"
    | (same) "lower_char c = c" "\<not> (65 \<le> code_of c \<and> code_of c \<le> 90)"
proof -
  consider "65 \<le> code_of c \<and> code_of c \<le> 90" | "192 \<le> code_of c \<and> code_of c \<le> 222 \<and> code_of c \<noteq> 215"
    | "\<not> (65 \<le> code_of c \<and> code_of c \<le> 90)" "\<not> (192 \<le> code_of c \<and> code_of c \<le> 222 \<and> code_of c \<noteq> 215)"
    by blast
  then show thesis
  proof cases
    case 1 then show ?thesis by (intro up) (simp_all add: of_char_lower)
  next
    case 2 then show ?thesis by (intro latin) (simp_all add: of_char_lower)
  next
    case 3
    have "lower_char c = c" using 3 by (auto simp: lower_char_def Let_def)
    then show ?thesis using 3(1) by (rule same)
  qed
qed

lemma char_eq_code: "c = d \<longleftrightarrow> code_of c = code_of d"
  by (simp add: of_char_eq_iff)

lemma is_alnum_lower [simp]: "is_alnum (lower_char c) = is_alnum c"
proof (cases c rule: lower_code_cases)
  case up then show ?thesis by (simp add: is_alnum_def)
next
  case latin then show ?thesis by (simp add: is_alnum_def)
qed simp

lemma lower_eq_special:
  assumes "code_of d < 65"
  shows "lower_char c = d \<longleftrightarrow> c = d"
proof (cases c rule: lower_code_cases)
  case up
  then have "lower_char c \<noteq> d" "c \<noteq> d" using assms by auto
  then show ?thesis by simp
next
  case latin
  then have "lower_char c \<noteq> d" "c \<noteq> d" using assms by auto
  then show ?thesis by simp
qed simp

lemma lower_eq_specials [simp]:
  "lower_char c = CHR ''@'' \<longleftrightarrow> c = CHR ''@''"
  "lower_char c = CHR ''.'' \<longleftrightarrow> c = CHR ''.''"
  "lower_char c = CHR ''-'' \<longleftrightarrow> c = CHR ''-''"
  by (rule lower_eq_special; simp)+

lemma is_local_char_lower: "is_local_char c \<Longrightarrow> is_local_char (lower_char c)"
proof (cases c rule: lower_code_cases)
  case up
  then have "is_alnum c" by (simp add: is_alnum_def)
  then show ?thesis by (simp add: is_local_char_def)
next
  case latin
  moreover assume "is_local_char c"
  ultimately have False by (auto simp: is_local_char_def is_alnum_def)
  then show ?thesis ..
qed simp

lemma is_ws_lower [simp]: "is_ws (lower_char c) = is_ws c"
proof (cases c rule: lower_code_cases)
  case up then show ?thesis by (simp add: is_ws_def is_ws_unit_def)
next
  case latin
  moreover have "\<not> is_ws_unit n" if "192 \<le> n" "n < 256" for n :: nat
    using that by (auto simp: is_ws_unit_def)
  moreover have "code_of c < 256" "code_of (lower_char c) < 256" by simp_all
  ultimately show ?thesis unfolding is_ws_def by (metis le_add1 le_trans)
qed simp

lemma index_of_lower [simp]: "index_of CHR ''@'' (js_lower s) = index_of CHR ''@'' s"
  by (induction s) (auto simp: js_lower_def)

lemma last_index_of_lower [simp]: "last_index_of CHR ''@'' (js_lower s) = last_index_of CHR ''@'' s"
  using index_of_lower [of "rev s"] by (simp add: last_index_of_def js_lower_def rev_map)

lemma has_dotdot_lower [simp]: "has_dotdot (js_lower s) = has_dotdot s"
  by (induction s rule: has_dotdot.induct) (auto simp: js_lower_def)

lemma local_ok_lower:
  assumes "local_ok s" "s \<noteq> []" shows "local_ok (js_lower s)"
proof -
  have "hd (js_lower s) = lower_char (hd s)" "last (js_lower s) = lower_char (last s)"
    using assms(2) by (simp_all add: js_lower_def hd_map last_map)
  with assms show ?thesis
    by (auto simp: local_ok_def is_local_char_lower) (auto simp: js_lower_def is_local_char_lower)
qed

lemma js_take: "take n (js_lower s) = js_lower (take n s)"
  by (simp add: js_lower_def take_map)

lemma js_drop: "drop n (js_lower s) = js_lower (drop n s)"
  by (simp add: js_lower_def drop_map)

section \<open>What an accepted address looks like\<close>

lemma check_addr_SomeD:
  assumes "check_addr addr = Some a"
  obtains at where "index_of CHR ''@'' addr = Some at" "at \<noteq> 0" "at \<noteq> length addr - 1"
    "last_index_of CHR ''@'' addr = Some at"
    "\<forall>c \<in> set addr. \<not> is_ws c" "local_ok (take at addr)"
    "domain_ok (js_lower (drop (Suc at) addr))" "a = js_lower addr"
  using assms that by (auto simp: check_addr_def split: option.splits if_splits)

lemma check_addr_lower:
  assumes "check_addr addr = Some a"
  shows "check_addr a = Some a"
  using assms
proof (rule check_addr_SomeD)
  fix at assume h: "index_of CHR ''@'' addr = Some at" "at \<noteq> 0" "at \<noteq> length addr - 1"
    "last_index_of CHR ''@'' addr = Some at" "\<forall>c \<in> set addr. \<not> is_ws c"
    "local_ok (take at addr)" "domain_ok (js_lower (drop (Suc at) addr))" "a = js_lower addr"
  have "take at addr \<noteq> []" using h(2) index_of_SomeD [OF h(1)] by auto
  then have "local_ok (js_lower (take at addr))" using h(6) local_ok_lower by blast
  moreover have "\<forall>c \<in> set a. \<not> is_ws c" using h(5,8) by (auto simp: js_lower_def)
  ultimately show "check_addr a = Some a"
    using h index_of_lower [of addr] last_index_of_lower [of addr] js_lower_idem [of addr]
    by (simp add: check_addr_def js_take js_drop)
qed

lemma special_local: "is_local_char CHR ''-''" "is_local_char CHR ''.''"
  "\<not> is_local_char CHR ''<''" "\<not> is_local_char CHR ''>''"
  by (simp_all add: is_local_char_def is_alnum_def)

lemma label_chars: "is_label l \<Longrightarrow> c \<in> set l \<Longrightarrow> is_local_char c"
  using special_local(1) unfolding is_label_def is_local_char_def by metis

lemma check_addr_chars:
  assumes "check_addr addr = Some a" "c \<in> set a"
  shows "is_local_char c \<or> c = CHR ''@''"
  using check_addr_lower [OF assms(1)]
proof (rule check_addr_SomeD)
  fix at assume h: "index_of CHR ''@'' a = Some at" "local_ok (take at a)"
    "domain_ok (js_lower (drop (Suc at) a))" "a = js_lower a"
  have i: "at < length a" "a ! at = CHR ''@''" using index_of_SomeD [OF h(1)] by auto
  then have "a = take at a @ CHR ''@'' # drop (Suc at) a" by (metis id_take_nth_drop)
  then consider "c \<in> set (take at a)" | "c = CHR ''@''" | "c \<in> set (drop (Suc at) a)"
    using assms(2) by (metis Un_iff set_ConsD set_append)
  then show ?thesis
  proof cases
    case 1 with h(2) show ?thesis by (simp add: local_ok_def)
  next
    case 3
    have "js_lower (drop (Suc at) a) = drop (Suc at) a" using h(4) by (metis js_lower_def drop_map)
    with h(3) have d: "\<forall>l \<in> set (split_on CHR ''.'' (drop (Suc at) a)). is_label l"
      by (simp add: domain_ok_def)
    show ?thesis
    proof (cases "c = CHR ''.''")
      case True then show ?thesis using special_local(2) by simp
    next
      case False
      with split_on_chars [OF 3] d label_chars show ?thesis by blast
    qed
  qed simp
qed

lemma canonicalSender_check:
  "canonicalSender x = Some a \<Longrightarrow> \<exists>addr. check_addr addr = Some a"
  by (auto simp: canonicalSender_def Let_def split: if_splits option.splits)

lemma check_addr_canonical:
  assumes "check_addr a = Some a" and chars: "\<forall>c \<in> set a. is_local_char c \<or> c = CHR ''@''"
  shows "canonicalSender a = Some a"
  using assms(1)
proof (rule check_addr_SomeD)
  fix at assume h: "index_of CHR ''@'' a = Some at" "\<forall>c \<in> set a. \<not> is_ws c"
  have lt: "CHR ''<'' \<notin> set a" "CHR ''>'' \<notin> set a" using special_local(3,4) chars by auto
  have ne: "a \<noteq> []" using index_of_SomeD [OF h(1)] by auto
  then have "js_trim a = a" using h(2) by (auto simp: trim_by_id_iff)
  then show "canonicalSender a = Some a"
    using ne lt h(2) assms(1) by (simp add: canonicalSender_def addr_text_def count_list_0_iff)
qed

lemma canonicalSender_addr:
  assumes "canonicalSender x = Some a"
  shows "check_addr a = Some a" "\<forall>c \<in> set a. is_local_char c \<or> c = CHR ''@''" "canonicalSender a = Some a"
proof -
  obtain addr where addr: "check_addr addr = Some a" using canonicalSender_check [OF assms] ..
  show a: "check_addr a = Some a" by (rule check_addr_lower [OF addr])
  show c: "\<forall>c \<in> set a. is_local_char c \<or> c = CHR ''@''" using check_addr_chars [OF addr] by blast
  show "canonicalSender a = Some a" by (rule check_addr_canonical [OF a c])
qed

lemma one_at:
  assumes "index_of CHR ''@'' a = Some at" "last_index_of CHR ''@'' a = Some at"
  shows "count_list a CHR ''@'' = 1"
proof -
  from index_of_SomeD [OF assms(1)] have i: "at < length a" "a ! at = CHR ''@''"
      "CHR ''@'' \<notin> set (take at a)" by auto
  obtain j where j: "index_of CHR ''@'' (rev a) = Some j" "at = length a - 1 - j"
    using assms(2) by (auto simp: last_index_of_def)
  from index_of_SomeD [OF j(1)] have "CHR ''@'' \<notin> set (take j (rev a))" "j < length a" by auto
  moreover have "length a - j = Suc at" using j(2) \<open>j < length a\<close> by simp
  ultimately have "CHR ''@'' \<notin> set (drop (Suc at) a)" by (simp add: take_rev)
  moreover have "a = take at a @ CHR ''@'' # drop (Suc at) a"
    using id_take_nth_drop [OF i(1)] i(2) by simp
  ultimately show ?thesis
    using i(3) by (metis count_list_append count_list.simps(2) count_notin add.right_neutral
        add.left_neutral)
qed

text \<open>
  Canonicalisation is idempotent: the address it returns is lower case, holds exactly
  one \<open>@\<close>, no white space and no angle bracket, and is returned unchanged when parsed again.
\<close>

theorem canonicalSender_canonical:
  assumes "canonicalSender x = Some a"
  shows "canonicalSender a = Some a \<and> js_lower a = a \<and> count_list a CHR ''@'' = 1
    \<and> (\<forall>c \<in> set a. is_local_char c \<or> c = CHR ''@'')"
  using canonicalSender_addr(1) [OF assms]
proof (rule check_addr_SomeD)
  fix at assume "index_of CHR ''@'' a = Some at" "last_index_of CHR ''@'' a = Some at" "a = js_lower a"
  with one_at canonicalSender_addr [OF assms] show ?thesis by simp
qed

lemma canonicalSender_canonical_witness:
  "canonicalSender ''B <Al@X.io>'' = Some ''al@x.io''
   \<and> canonicalSender ''al@x.io'' = Some ''al@x.io''"
proof -
  have "addr_text ''B <Al@X.io>'' = Some ''Al@X.io''"
    by (simp add: addr_text_def angle_inner_def trim_by_def is_ws_def is_ws_unit_def)
  moreover have "check_addr ''Al@X.io'' = Some ''al@x.io''"
    by (simp add: check_addr_def local_ok_def domain_ok_def is_label_def is_local_char_def
        is_alnum_def last_index_of_def is_ws_def is_ws_unit_def js_lower_def lower_char_def
        char_of_def bit_0)
  ultimately have "canonicalSender ''B <Al@X.io>'' = Some ''al@x.io''"
    by (simp add: canonicalSender_def trim_by_def is_ws_def is_ws_unit_def)
  with canonicalSender_canonical [OF this] show ?thesis by simp
qed

text \<open>
  Ambiguous senders are refused: a value with more than one opening or more than one
  closing angle bracket has no canonical address.
\<close>

theorem ambiguous_sender_refused:
  assumes "1 < count_list (js_trim x) CHR ''<'' \<or> 1 < count_list (js_trim x) CHR ''>''"
  shows "canonicalSender x = None"
  using assms by (auto simp: canonicalSender_def addr_text_def Let_def)

lemma ambiguous_sender_refused_witness:
  "canonicalSender ''x <a@evil.io> <ceo@corp.io>'' = None"
  by (rule ambiguous_sender_refused) (simp add: trim_by_def is_ws_def is_ws_unit_def)

end
