(* ===== verification/Strict_Base64.thy ===== *)
theory Strict_Base64
  imports Emails_Prelude
begin

text \<open>
  \<open>decodeStrictBase64\<close> of src/server/self-hosted/service.ts, the guard on inline attachment
  content: the platform's lenient decoder followed by a comparison of the re-encoded bytes
  with the input.  Bytes are natural numbers below 256.  The result: a value is accepted
  exactly when it is the canonical encoding of a non-empty byte sequence, and the bytes are
  those it encodes.
\<close>

section \<open>The platform's codec\<close>

definition alphabet :: string where
  "alphabet = ''ABCDEFGHIJKLMNOPQRSTUVWXYZabcdefghijklmnopqrstuvwxyz0123456789+/''"

definition sextet :: "char \<Rightarrow> nat option" where
  "sextet c = index_of c alphabet"

definition digit64 :: "nat \<Rightarrow> char" where
  "digit64 n = alphabet ! n"

fun encode64 :: "nat list \<Rightarrow> string" where
  "encode64 (x # y # z # bs) =
     digit64 (x div 4) # digit64 ((x mod 4) * 16 + y div 16) # digit64 ((y mod 16) * 4 + z div 64)
       # digit64 (z mod 64) # encode64 bs"
| "encode64 [x, y] = [digit64 (x div 4), digit64 ((x mod 4) * 16 + y div 16), digit64 ((y mod 16) * 4), CHR ''='']"
| "encode64 [x] = [digit64 (x div 4), digit64 ((x mod 4) * 16), CHR ''='', CHR ''='']"
| "encode64 [] = []"

text \<open>Bits left over after the last whole byte are dropped, as the platform does.\<close>

fun bytes_of :: "nat list \<Rightarrow> nat list" where
  "bytes_of (a # b # c # d # ss) =
     (a * 4 + b div 16) # ((b mod 16) * 16 + c div 4) # ((c mod 4) * 64 + d) # bytes_of ss"
| "bytes_of [a, b, c] = [a * 4 + b div 16, (b mod 16) * 16 + c div 4]"
| "bytes_of [a, b] = [a * 4 + b div 16]"
| "bytes_of _ = []"

definition decode64 :: "string \<Rightarrow> nat list" where
  "decode64 v = bytes_of (List.map_filter sextet v)"

section \<open>The guard\<close>

text \<open>\<open>^[A-Za-z0-9+/]*={0,2}$\<close>\<close>

definition base64_shape :: "string \<Rightarrow> bool" where
  "base64_shape v \<longleftrightarrow> (let pad = dropWhile (\<lambda>c. sextet c \<noteq> None) v
     in length pad \<le> 2 \<and> (\<forall>c \<in> set pad. c = CHR ''=''))"

definition decodeStrictBase64 :: "string \<Rightarrow> nat list option" where
  "decodeStrictBase64 v =
     (if v = [] \<or> length v mod 4 \<noteq> 0 \<or> \<not> base64_shape v then None
      else let decoded = decode64 v in if encode64 decoded \<noteq> v then None else Some decoded)"

section \<open>Decoding inverts encoding\<close>

lemma alphabet_length [simp]: "length alphabet = 64"
  by (simp add: alphabet_def)

lemma alphabet_distinct: "distinct alphabet"
  by (simp add: alphabet_def)

lemma index_of_nth: "distinct s \<Longrightarrow> i < length s \<Longrightarrow> index_of (s ! i) s = Some i"
  by (induction s arbitrary: i) (auto simp: nth_Cons split: nat.split)

lemma sextet_digit [simp]: "n < 64 \<Longrightarrow> sextet (digit64 n) = Some n"
  by (simp add: sextet_def digit64_def index_of_nth alphabet_distinct)

lemma sextet_pad [simp]: "sextet CHR ''='' = None"
  by (simp add: sextet_def index_of_None_iff alphabet_def)

lemma length_encode64: "length (encode64 bs) mod 4 = 0"
  by (induction bs rule: encode64.induct) (auto simp: mod_Suc)

lemma encode64_Nil_iff: "encode64 bs = [] \<longleftrightarrow> bs = []"
  by (cases bs rule: encode64.cases) simp_all

lemma digits_small:
  fixes x y z :: nat
  assumes "x < 256" "y < 256" "z < 256"
  shows "x div 4 < 64" "(x mod 4) * 16 + y div 16 < 64" "(y mod 16) * 4 + z div 64 < 64"
    "z mod 64 < 64" "(x mod 4) * 16 < 64" "(y mod 16) * 4 < 64"
proof -
  have "x mod 4 \<le> 3" "y div 16 \<le> 15" "y mod 16 \<le> 15" "z div 64 \<le> 3" "x div 4 \<le> 63"
    using assms by (simp_all add: less_Suc_eq_le [symmetric] div_less_iff_less_mult)
  then show "x div 4 < 64" "(x mod 4) * 16 + y div 16 < 64" "(y mod 16) * 4 + z div 64 < 64"
    "z mod 64 < 64" "(x mod 4) * 16 < 64" "(y mod 16) * 4 < 64"
    by simp_all
qed

lemma map_filter_Cons [simp]:
  "List.map_filter f (x # xs) = (case f x of None \<Rightarrow> List.map_filter f xs | Some y \<Rightarrow> y # List.map_filter f xs)"
  "List.map_filter f [] = []"
  by (auto simp: List.map_filter_def split: option.split)

lemma set_map_filter: "y \<in> set (List.map_filter f xs) \<longleftrightarrow> (\<exists>x \<in> set xs. f x = Some y)"
  by (induction xs) (auto split: option.split)

lemma div_mod_pack:
  fixes a b m :: nat
  assumes "b < m" shows "(a * m + b) div m = a" "(a * m + b) mod m = b"
  using assms by simp_all

lemma decode_encode: "\<forall>b \<in> set bs. b < 256 \<Longrightarrow> decode64 (encode64 bs) = bs"
proof (induction bs rule: encode64.induct)
  case (1 x y z bs)
  have b: "x < 256" "y < 256" "z < 256" using 1(2) by simp_all
  have q: "y div 16 < 16" "z div 64 < 4" using b by (simp_all add: div_less_iff_less_mult)
  have "(x div 4) * 4 + ((x mod 4) * 16 + y div 16) div 16 = x"
    by (simp add: div_mod_pack [OF q(1)])
  moreover have "((x mod 4) * 16 + y div 16) mod 16 * 16 + ((y mod 16) * 4 + z div 64) div 4 = y"
    by (simp only: div_mod_pack [OF q(1)] div_mod_pack [OF q(2)] div_mult_mod_eq)
  moreover have "((y mod 16) * 4 + z div 64) mod 4 * 64 + z mod 64 = z"
    by (simp only: div_mod_pack [OF q(2)] div_mult_mod_eq)
  moreover have "decode64 (encode64 bs) = bs" using 1 by simp
  ultimately show ?case using digits_small [OF b] by (simp add: decode64_def)
next
  case (2 x y)
  have b: "x < 256" "y < 256" using 2 by simp_all
  have q: "y div 16 < 16" using b by (simp add: div_less_iff_less_mult)
  have "(x div 4) * 4 + ((x mod 4) * 16 + y div 16) div 16 = x"
    by (simp add: div_mod_pack [OF q])
  moreover have "((x mod 4) * 16 + y div 16) mod 16 * 16 + ((y mod 16) * 4) div 4 = y"
    by (simp only: div_mod_pack [OF q]) simp
  ultimately show ?case using digits_small [of x y 0] b by (simp add: decode64_def)
next
  case (3 x)
  have b: "x < 256" using 3 by simp
  have "(x div 4) * 4 + ((x mod 4) * 16) div 16 = x" by simp
  then show ?case using digits_small [of x 0 0] b by (simp add: decode64_def)
qed (simp add: decode64_def)

lemma dropWhile_digits:
  "\<forall>b \<in> set bs. b < 256 \<Longrightarrow> dropWhile (\<lambda>c. sextet c \<noteq> None) (encode64 bs) \<in> {[], [CHR ''=''], [CHR ''='', CHR ''='']}"
proof (induction bs rule: encode64.induct)
  case (1 x y z bs)
  then show ?case using digits_small [of x y z] by simp
next
  case (2 x y)
  then show ?case using digits_small [of x y 0] by simp
next
  case (3 x)
  then show ?case using digits_small [of x 0 0] by simp
qed simp

lemma sextet_less: "sextet c = Some n \<Longrightarrow> n < 64"
  using index_of_SomeD [of c alphabet n] by (simp add: sextet_def)

lemma byte_bounds:
  fixes p q r s :: nat
  shows "p < 64 \<Longrightarrow> q < 64 \<Longrightarrow> p * 4 + q div 16 < 256"
    and "r < 64 \<Longrightarrow> (q mod 16) * 16 + r div 4 < 256"
    and "s < 64 \<Longrightarrow> (r mod 4) * 64 + s < 256"
proof -
  show "p < 64 \<Longrightarrow> q < 64 \<Longrightarrow> p * 4 + q div 16 < 256"
    using div_less_iff_less_mult [of 16 q 4] by linarith
  have "q mod 16 < 16" by simp
  moreover have "r < 64 \<Longrightarrow> r div 4 < 16" using div_less_iff_less_mult [of 4 r 16] by simp
  ultimately show "r < 64 \<Longrightarrow> (q mod 16) * 16 + r div 4 < 256" by linarith
  have "r mod 4 < 4" by simp
  then show "s < 64 \<Longrightarrow> (r mod 4) * 64 + s < 256" by linarith
qed

lemma bytes_of_small: "\<forall>s \<in> set ss. s < 64 \<Longrightarrow> \<forall>b \<in> set (bytes_of ss). b < 256"
  by (induction ss rule: bytes_of.induct) (simp_all add: byte_bounds)

lemma decode64_small: "b \<in> set (decode64 v) \<Longrightarrow> b < 256"
proof -
  have "\<forall>s \<in> set (List.map_filter sextet v). s < 64" by (auto simp: set_map_filter dest: sextet_less)
  then show "b \<in> set (decode64 v) \<Longrightarrow> b < 256" using bytes_of_small by (simp add: decode64_def)
qed

text \<open>
  The guard accepts exactly the canonical encodings: \<open>decodeStrictBase64 v\<close> is the byte
  sequence \<open>bs\<close> if and only if \<open>bs\<close> is a non-empty sequence of bytes whose encoding is \<open>v\<close>.
\<close>

theorem strict_base64_iff:
  "decodeStrictBase64 v = Some bs \<longleftrightarrow> bs \<noteq> [] \<and> (\<forall>b \<in> set bs. b < 256) \<and> v = encode64 bs"
proof
  assume a: "decodeStrictBase64 v = Some bs"
  then have v: "v \<noteq> []" "bs = decode64 v" "encode64 (decode64 v) = v"
    unfolding decodeStrictBase64_def Let_def by (auto split: if_splits)
  then have "encode64 bs = v" by simp
  with v(1) have "bs \<noteq> []" using encode64_Nil_iff by blast
  moreover have "\<forall>b \<in> set bs. b < 256" unfolding v(2) using decode64_small by blast
  ultimately show "bs \<noteq> [] \<and> (\<forall>b \<in> set bs. b < 256) \<and> v = encode64 bs"
    using \<open>encode64 bs = v\<close> by simp
next
  assume a: "bs \<noteq> [] \<and> (\<forall>b \<in> set bs. b < 256) \<and> v = encode64 bs"
  then have "dropWhile (\<lambda>c. sextet c \<noteq> None) v \<in> {[], [CHR ''=''], [CHR ''='', CHR ''='']}"
    using dropWhile_digits by blast
  moreover have "length pad \<le> 2 \<and> (\<forall>c \<in> set pad. c = CHR ''='')"
    if "pad \<in> {[], [CHR ''=''], [CHR ''='', CHR ''='']}" for pad :: string
    using that by auto
  ultimately have "base64_shape v" unfolding base64_shape_def Let_def by blast
  with a show "decodeStrictBase64 v = Some bs"
    using length_encode64 [of bs] encode64_Nil_iff [of bs] decode_encode [of bs]
    by (simp add: decodeStrictBase64_def)
qed

lemma strict_base64_iff_witness:
  "decodeStrictBase64 ''TQ=='' = Some [77] \<and> decodeStrictBase64 ''TR=='' = None"
proof
  have "''TQ=='' = encode64 [77]" by (simp add: digit64_def alphabet_def)
  then show "decodeStrictBase64 ''TQ=='' = Some [77]"
    using strict_base64_iff [of "''TQ==''" "[77]"] by simp
  show "decodeStrictBase64 ''TR=='' = None"
    by (simp add: decodeStrictBase64_def decode64_def sextet_def alphabet_def digit64_def Let_def)
qed

end
