(* ===== verification/Js_Text.thy ===== *)
theory Js_Text
  imports Emails_Prelude
begin

text \<open>How JavaScript prints values: decimal numerals and \<open>String\<close> of a JSON value.\<close>

fun nat_text :: "nat \<Rightarrow> string" where
  "nat_text n = (if n < 10 then [char_of (48 + n)] else nat_text (n div 10) @ [char_of (48 + n mod 10)])"

declare nat_text.simps [simp del]

definition int_text :: "int \<Rightarrow> string" where
  "int_text i = (if i < 0 then CHR ''-'' # nat_text (nat (- i)) else nat_text (nat i))"

text \<open>\<open>String(value)\<close>; inside an array, null prints as the empty text.\<close>

fun join_texts :: "string \<Rightarrow> string list \<Rightarrow> string" where
  "join_texts sep [] = []"
| "join_texts sep [x] = x"
| "join_texts sep (x # y # xs) = x @ sep @ join_texts sep (y # xs)"

fun js_String :: "json \<Rightarrow> string" where
  "js_String JNull = ''null''"
| "js_String (JBool b) = (if b then ''true'' else ''false'')"
| "js_String (JNum i) = int_text i"
| "js_String (JStr s) = s"
| "js_String (JArr xs) = join_texts '','' (map (\<lambda>x. if x = JNull then [] else js_String x) xs)"
| "js_String (JObj _) = ''[object Object]''"

section \<open>Reading numerals\<close>

definition is_digit :: "char \<Rightarrow> bool" where
  "is_digit c \<longleftrightarrow> of_char c \<in> {48 .. 57 :: nat}"

definition digits_value :: "string \<Rightarrow> int" where
  "digits_value ds = foldl (\<lambda>n c. 10 * n + (of_char c - 48)) 0 ds"

lemma nat_text_digits: "\<forall>c \<in> set (nat_text n). is_digit c"
proof (induction n rule: nat_text.induct)
  case (1 n)
  have "is_digit (char_of (48 + n mod 10))" by (simp add: is_digit_def)
  moreover have "n < 10 \<Longrightarrow> is_digit (char_of (48 + n))" by (simp add: is_digit_def)
  ultimately show ?case using 1 by (subst nat_text.simps) simp
qed

lemma digit_code: "n < 10 \<Longrightarrow> (of_char (char_of (48 + n :: nat)) :: int) = 48 + int n"
  by (subst of_nat_of_char [symmetric]) simp

lemma digits_value_snoc: "digits_value (ds @ [c]) = 10 * digits_value ds + (of_char c - 48)"
  by (simp add: digits_value_def)

lemma digits_value_text: "digits_value (nat_text n) = int n"
proof (induction n rule: nat_text.induct)
  case (1 n)
  show ?case
  proof (cases "n < 10")
    case True
    then show ?thesis by (subst nat_text.simps) (simp add: digits_value_def digit_code)
  next
    case False
    then have "digits_value (nat_text n) = 10 * int (n div 10) + int (n mod 10)"
      using 1 by (subst nat_text.simps) (simp add: digits_value_snoc digit_code)
    moreover have "10 * int (n div 10) + int (n mod 10) = int n"
      by (metis mult_div_mod_eq of_nat_add of_nat_mult of_nat_numeral)
    ultimately show ?thesis by simp
  qed
qed

lemma nat_text_lead: "n \<noteq> 0 \<Longrightarrow> nat_text n \<noteq> [] \<and> hd (nat_text n) \<noteq> CHR ''0''"
proof (induction n rule: nat_text.induct)
  case (1 n)
  have z: "char_of (48 + n) \<noteq> CHR ''0''" if "n < 10"
  proof
    assume "char_of (48 + n) = CHR ''0''"
    then have "(of_char (char_of (48 + n)) :: nat) = of_char (CHR ''0'')" by simp
    with that 1(2) show False by simp
  qed
  show ?case
  proof (cases "n < 10")
    case False
    then have "n div 10 \<noteq> 0" by simp
    with 1(1) False have "nat_text (n div 10) \<noteq> []" "hd (nat_text (n div 10)) \<noteq> CHR ''0''" by blast+
    with False show ?thesis by (subst (1 2) nat_text.simps) simp
  qed (use z in \<open>subst (1 2) nat_text.simps, simp\<close>)
qed

lemma nat_text_short: "n < 1000 \<Longrightarrow> length (nat_text n) \<le> 3"
proof -
  have one: "n < 10 \<Longrightarrow> length (nat_text n) \<le> 1" for n by (subst nat_text.simps) simp
  have two: "n < 100 \<Longrightarrow> length (nat_text n) \<le> 2" for n
    using one [of "n div 10"] one [of n] by (subst nat_text.simps) auto
  show "n < 1000 \<Longrightarrow> length (nat_text n) \<le> 3"
    using two [of "n div 10"] one [of n] by (subst nat_text.simps) auto
qed

end
