(* ===== verification/Send_Limits.thy ===== *)
theory Send_Limits
  imports Strict_Base64 Js_Text
begin

text \<open>
  Attachment limits: src/lib/send-attachment-limits.ts and \<open>evaluateAttachmentCaps\<close> of
  src/lib/send-preflight.ts.  Sizes are byte counts.  The results: the request-body budget
  derived from the limits holds every attachment set the limits admit, and the largest
  encoded message stays below the provider's ceiling.
\<close>

section \<open>Limits\<close>

record attachment_limits =
  maxFiles :: nat
  maxBytesPerFile :: nat
  maxTotalBytes :: nat

definition SELF_HOSTED_SEND_ATTACHMENT_LIMITS :: attachment_limits where
  "SELF_HOSTED_SEND_ATTACHMENT_LIMITS =
     \<lparr> maxFiles = 5, maxBytesPerFile = 10 * 1024 * 1024, maxTotalBytes = 20 * 1024 * 1024 \<rparr>"

definition LOCAL_SEND_ATTACHMENT_LIMITS :: attachment_limits where
  "LOCAL_SEND_ATTACHMENT_LIMITS =
     \<lparr> maxFiles = 10, maxBytesPerFile = 25 * 1024 * 1024, maxTotalBytes = 25 * 1024 * 1024 \<rparr>"

definition base64EncodedBytes :: "nat \<Rightarrow> nat" where
  "base64EncodedBytes raw = (raw + 2) div 3 * 4"

definition SEND_ENVELOPE_HEADROOM_BYTES :: nat where
  "SEND_ENVELOPE_HEADROOM_BYTES = 2 * 1024 * 1024"

definition requiredSendJsonBodyBytes :: "attachment_limits \<Rightarrow> nat" where
  "requiredSendJsonBodyBytes l = base64EncodedBytes (maxTotalBytes l) + SEND_ENVELOPE_HEADROOM_BYTES"

definition SES_MAX_MESSAGE_BYTES :: nat where
  "SES_MAX_MESSAGE_BYTES = 40000000"

definition mimeEncodedUpperBound :: "attachment_limits \<Rightarrow> nat" where
  "mimeEncodedUpperBound l =
     (base64EncodedBytes (maxTotalBytes l) * 78 + 75) div 76 + SEND_ENVELOPE_HEADROOM_BYTES"

text \<open>\<open>Math.round\<close> of a quotient.\<close>

definition humanLimitBytes :: "nat \<Rightarrow> string" where
  "humanLimitBytes bytes =
     (if 1024 * 1024 \<le> bytes then nat_text ((2 * bytes + 1024 * 1024) div (2 * (1024 * 1024))) @ ''MB''
      else nat_text ((2 * bytes + 1024) div (2 * 1024)) @ ''KiB'')"

definition describeSendAttachmentLimits :: "attachment_limits \<Rightarrow> string" where
  "describeSendAttachmentLimits l =
     nat_text (maxFiles l) @ '' files, '' @ humanLimitBytes (maxBytesPerFile l) @ '' each, ''
       @ humanLimitBytes (maxTotalBytes l) @ '' total''"

section \<open>The preview of the limits\<close>

datatype cap_rule = file_count | bytes_per_file string | total_bytes

text \<open>One finding per rule and file, in the order the code pushes them; the detail text is left out.\<close>

definition evaluateAttachmentCaps :: "(string \<times> nat) list \<Rightarrow> attachment_limits \<Rightarrow> cap_rule list" where
  "evaluateAttachmentCaps files l =
     (if maxFiles l < length files then [file_count] else [])
     @ map (\<lambda>f. bytes_per_file (fst f)) (filter (\<lambda>f. maxBytesPerFile l < snd f) files)
     @ (if maxTotalBytes l < sum_list (map snd files) then [total_bytes] else [])"

definition within_limits :: "attachment_limits \<Rightarrow> nat list \<Rightarrow> bool" where
  "within_limits l sizes \<longleftrightarrow> length sizes \<le> maxFiles l
     \<and> (\<forall>n \<in> set sizes. n \<le> maxBytesPerFile l) \<and> sum_list sizes \<le> maxTotalBytes l"

lemma caps_empty_iff: "evaluateAttachmentCaps files l = [] \<longleftrightarrow> within_limits l (map snd files)"
  by (auto simp: evaluateAttachmentCaps_def within_limits_def filter_empty_conv not_less)

section \<open>Encoded sizes\<close>

lemma length_encode64_bytes: "length (encode64 bs) = base64EncodedBytes (length bs)"
proof (induction bs rule: encode64.induct)
  case (1 x y z bs)
  have "(length bs + 3 + 2) div 3 = (length bs + 2) div 3 + 1" by presburger
  with 1 show ?case by (simp add: base64EncodedBytes_def add.commute)
qed (simp_all add: base64EncodedBytes_def)

lemma base64_le: "3 * base64EncodedBytes n \<le> 4 * n + 8"
proof -
  have "3 * ((n + 2) div 3) \<le> n + 2" by simp
  then show ?thesis by (simp add: base64EncodedBytes_def)
qed

lemma sum_base64_le:
  "3 * sum_list (map base64EncodedBytes sizes) \<le> 4 * sum_list sizes + 8 * length sizes"
proof (induction sizes)
  case (Cons n ns)
  with base64_le [of n] show ?case by simp
qed simp

text \<open>
  Every attachment set the route's limits admit fits, base64-encoded, into the body budget
  with all but 64 bytes of the envelope headroom to spare, and the MIME bound derived from
  the same limits is below the provider's maximum message size.
\<close>

theorem limits_are_reachable:
  assumes "within_limits SELF_HOSTED_SEND_ATTACHMENT_LIMITS (map length contents)"
  shows "sum_list (map (\<lambda>bs. length (encode64 bs)) contents) + SEND_ENVELOPE_HEADROOM_BYTES
      \<le> requiredSendJsonBodyBytes SELF_HOSTED_SEND_ATTACHMENT_LIMITS + 64
    \<and> mimeEncodedUpperBound SELF_HOSTED_SEND_ATTACHMENT_LIMITS \<le> SES_MAX_MESSAGE_BYTES"
proof
  let ?n = "sum_list (map length contents)"
  have "map (\<lambda>bs. length (encode64 bs)) contents = map base64EncodedBytes (map length contents)"
    by (simp add: length_encode64_bytes)
  then have "3 * sum_list (map (\<lambda>bs. length (encode64 bs)) contents) \<le> 4 * ?n + 8 * length contents"
    using sum_base64_le [of "map length contents"] by (simp only: length_map)
  moreover have "?n \<le> 20971520" "length contents \<le> 5"
    using assms by (auto simp: within_limits_def SELF_HOSTED_SEND_ATTACHMENT_LIMITS_def)
  ultimately show "sum_list (map (\<lambda>bs. length (encode64 bs)) contents) + SEND_ENVELOPE_HEADROOM_BYTES
      \<le> requiredSendJsonBodyBytes SELF_HOSTED_SEND_ATTACHMENT_LIMITS + 64"
    by (simp add: requiredSendJsonBodyBytes_def SELF_HOSTED_SEND_ATTACHMENT_LIMITS_def
        base64EncodedBytes_def SEND_ENVELOPE_HEADROOM_BYTES_def)
qed (simp add: mimeEncodedUpperBound_def SES_MAX_MESSAGE_BYTES_def base64EncodedBytes_def
       SEND_ENVELOPE_HEADROOM_BYTES_def SELF_HOSTED_SEND_ATTACHMENT_LIMITS_def)

lemma limits_are_reachable_witness:
  "length (encode64 [1, 2, 3, 4]) + SEND_ENVELOPE_HEADROOM_BYTES
     \<le> requiredSendJsonBodyBytes SELF_HOSTED_SEND_ATTACHMENT_LIMITS + 64"
  using limits_are_reachable [of "[[1, 2, 3, 4]]"]
  by (simp add: within_limits_def SELF_HOSTED_SEND_ATTACHMENT_LIMITS_def)

end
