(* ===== verification/Send_Request.thy ===== *)
theory Send_Request
  imports Store_Schema Email_Address Send_Limits
begin

text \<open>
  The request side of POST /v1/messages/send (src/server/self-hosted/service.ts): the
  coercions of JSON body fields, \<open>safeHeaderValue\<close>, \<open>parseIdempotencyKey\<close>, the validation
  of the body and of its inline attachments, and the payload hash.  A refused body is
  \<open>Inl\<close> of the error text of the 400 response; an accepted one is the record the handler
  works with.
\<close>

section \<open>Coercions\<close>

type_synonym body = "string \<rightharpoonup> json"

text \<open>\<open>String(body.f ?? d)\<close>, and \<open>typeof body.f === "string" ? body.f : null\<close>.\<close>

definition String_or :: "json option \<Rightarrow> string \<Rightarrow> string" where
  "String_or v d = (case v of None \<Rightarrow> d | Some JNull \<Rightarrow> d | Some j \<Rightarrow> js_String j)"

definition string_field :: "json option \<Rightarrow> string option" where
  "string_field v = (case v of Some (JStr s) \<Rightarrow> Some s | _ \<Rightarrow> None)"

definition asStringArray :: "json option \<Rightarrow> string list" where
  "asStringArray v =
     (case v of Some (JArr xs) \<Rightarrow> map js_String xs
      | Some (JStr s) \<Rightarrow> if js_trim s \<noteq> [] then [js_trim s] else []
      | _ \<Rightarrow> [])"

definition asArray :: "json option \<Rightarrow> json list option" where
  "asArray v = (case v of Some (JArr xs) \<Rightarrow> Some xs | _ \<Rightarrow> None)"

section \<open>Header values and idempotency keys\<close>

fun header_units_ok :: "units \<Rightarrow> bool" where
  "header_units_ok [] = True"
| "header_units_ok (c # cs) =
     (if 0xD800 \<le> c \<and> c \<le> 0xDBFF then
        (case cs of [] \<Rightarrow> False | d # ds \<Rightarrow> 0xDC00 \<le> d \<and> d \<le> 0xDFFF \<and> header_units_ok ds)
      else if 0xDC00 \<le> c \<and> c \<le> 0xDFFF then False
      else header_units_ok cs)"

definition control_unit :: "nat \<Rightarrow> bool" where
  "control_unit c \<longleftrightarrow> c \<le> 0x1F \<or> c = 0x7F"

definition safeHeaderValue :: "string \<Rightarrow> units \<Rightarrow> string + units" where
  "safeHeaderValue label v =
     (if \<exists>c \<in> set v. control_unit c then Inl (label @ '' contains forbidden control characters'')
      else if \<not> header_units_ok v then Inl (label @ '' contains non-well-formed Unicode'')
      else Inr v)"

definition parseIdempotencyKey :: "units option \<Rightarrow> string + units" where
  "parseIdempotencyKey v =
     (let key = units_trim (or_default v []) in
      if key = [] \<or> 200 < length key
      then Inl ''idempotency_key is required and must be at most 200 characters''
      else (case safeHeaderValue ''idempotency_key'' key of
              Inl _ \<Rightarrow> Inl ''idempotency_key contains unsafe characters''
            | Inr _ \<Rightarrow> Inr key))"

section \<open>Attachments\<close>

record attachment =
  at_filename :: string
  at_content :: string
  at_content_type :: string

definition mime_char :: "char \<Rightarrow> bool" where
  "mime_char c \<longleftrightarrow> is_alnum c \<or> c \<in> set ''!#$&^_.+~-''"

text \<open>\<open>MIME_TYPE_RE\<close>: two non-empty tokens around one slash.\<close>

definition mime_type_ok :: "string \<Rightarrow> bool" where
  "mime_type_ok s \<longleftrightarrow>
     (case split_on CHR ''/'' s of
        [t, u] \<Rightarrow> t \<noteq> [] \<and> u \<noteq> [] \<and> (\<forall>c \<in> set t. mime_char c) \<and> (\<forall>c \<in> set u. mime_char c)
      | _ \<Rightarrow> False)"

abbreviation limits :: attachment_limits where
  "limits \<equiv> SELF_HOSTED_SEND_ATTACHMENT_LIMITS"

definition attachment_names :: "nat \<Rightarrow> body \<Rightarrow> string \<Rightarrow> string + attachment" where
  "attachment_names index item content =
     (let filename = String_or (item ''filename'') (''attachment-'' @ nat_text (index + 1));
          ctype = String_or (item ''content_type'') ''application/octet-stream''
      in case safeHeaderValue ''attachment filename'' (units_of filename) of
           Inl e \<Rightarrow> Inl e
         | Inr _ \<Rightarrow>
             if js_trim filename = [] \<or> 255 < length filename
             then Inl (''attachment '' @ nat_text index @ '' filename must be 1-255 characters'')
             else (case safeHeaderValue ''attachment content_type'' (units_of ctype) of
                     Inl e \<Rightarrow> Inl e
                   | Inr _ \<Rightarrow>
                       if \<not> mime_type_ok ctype
                       then Inl (''attachment '' @ nat_text index @ '' content_type must be a safe type/subtype token'')
                       else Inr \<lparr> at_filename = filename, at_content = content, at_content_type = ctype \<rparr>))"

text \<open>One attachment, given its index and the bytes before it; the result carries the new total.\<close>

definition parse_attachment :: "nat \<Rightarrow> nat \<Rightarrow> json \<Rightarrow> string + nat \<times> attachment" where
  "parse_attachment index used v =
     (case v of
        JObj kvs \<Rightarrow>
          (let item = map_of kvs; content = or_default (string_field (item ''content'')) [] in
           case decodeStrictBase64 content of
             None \<Rightarrow> Inl ''attachment content must be canonical base64''
           | Some bytes \<Rightarrow>
               (let used' = used + length bytes in
                if content = [] \<or> maxBytesPerFile limits < length bytes
                then Inl (''attachment '' @ nat_text index @ '' requires base64 content no larger than ''
                          @ humanLimitBytes (maxBytesPerFile limits))
                else if maxTotalBytes limits < used'
                then Inl (''inline attachments may total at most '' @ humanLimitBytes (maxTotalBytes limits))
                else (case attachment_names index item content of
                        Inl e \<Rightarrow> Inl e | Inr a \<Rightarrow> Inr (used', a))))
      | _ \<Rightarrow> Inl (''attachment '' @ nat_text index @ '' must be an object''))"

fun parse_attachments :: "nat \<Rightarrow> nat \<Rightarrow> json list \<Rightarrow> string + attachment list" where
  "parse_attachments index used [] = Inr []"
| "parse_attachments index used (v # vs) =
     (case parse_attachment index used v of
        Inl e \<Rightarrow> Inl e
      | Inr (used', a) \<Rightarrow>
          (case parse_attachments (Suc index) used' vs of Inl e \<Rightarrow> Inl e | Inr as \<Rightarrow> Inr (a # as)))"

section \<open>The payload hash\<close>

definition hex_digit :: "nat \<Rightarrow> char" where
  "hex_digit n = (if n < 10 then char_of (48 + n) else char_of (87 + n))"

text \<open>\<open>JSON.stringify\<close>.\<close>

definition json_char :: "char \<Rightarrow> string" where
  "json_char c =
     (let n = of_char c :: nat in
      if n = 34 \<or> n = 92 then [char_of (92 :: nat), c]
      else if n = 8 then [char_of (92 :: nat), CHR ''b'']
      else if n = 9 then [char_of (92 :: nat), CHR ''t'']
      else if n = 10 then [char_of (92 :: nat), CHR ''n'']
      else if n = 12 then [char_of (92 :: nat), CHR ''f'']
      else if n = 13 then [char_of (92 :: nat), CHR ''r'']
      else if n < 32 then [char_of (92 :: nat), CHR ''u'', CHR ''0'', CHR ''0'', hex_digit (n div 16), hex_digit (n mod 16)]
      else [c])"

definition json_string :: "string \<Rightarrow> string" where
  "json_string s = [char_of (34 :: nat)] @ concat (map json_char s) @ [char_of (34 :: nat)]"

fun json_text :: "json \<Rightarrow> string" where
  "json_text JNull = ''null''"
| "json_text (JBool b) = (if b then ''true'' else ''false'')"
| "json_text (JNum i) = int_text i"
| "json_text (JStr s) = json_string s"
| "json_text (JArr xs) = ''['' @ join_texts '','' (map json_text xs) @ '']''"
| "json_text (JObj fs) = ''{'' @ join_texts '','' (map (\<lambda>f. json_string (fst f) @ '':'' @ json_text (snd f)) fs) @ ''}''"

definition sendPayloadHash :: "scope \<Rightarrow> json \<Rightarrow> string" where
  "sendPayloadHash sc v = sc_sha256 sc (units_of (json_text v))"

definition nullable :: "string option \<Rightarrow> json" where
  "nullable v = (case v of None \<Rightarrow> JNull | Some s \<Rightarrow> JStr s)"

section \<open>The request\<close>

record send_request =
  rq_from :: string
  rq_to :: "string list"
  rq_cc :: "string list"
  rq_bcc :: "string list"
  rq_subject :: string
  rq_key :: units
  rq_reply_to :: "string option"
  rq_text :: "string option"
  rq_html :: "string option"
  rq_attachments :: "attachment list"
  rq_send_key :: string
  rq_wide :: bool

definition payload_json :: "string \<Rightarrow> send_request \<Rightarrow> json" where
  "payload_json provider rq = JObj
     [(''from'', JStr (rq_from rq)), (''to'', JArr (map JStr (rq_to rq))),
      (''cc'', JArr (map JStr (rq_cc rq))), (''bcc'', JArr (map JStr (rq_bcc rq))),
      (''reply_to'', nullable (rq_reply_to rq)), (''subject'', JStr (rq_subject rq)),
      (''text'', nullable (rq_text rq)), (''html'', nullable (rq_html rq)),
      (''attachments'', JArr (map (\<lambda>a. JObj [(''filename'', JStr (at_filename a)),
          (''content'', JStr (at_content a)), (''content_type'', JStr (at_content_type a))])
          (rq_attachments rq))),
      (''provider'', JStr provider)]"

text \<open>The first failing header check, in the order of the code.\<close>

fun first_error :: "(string + 'a) list \<Rightarrow> string option" where
  "first_error [] = None"
| "first_error (Inl e # rs) = Some e"
| "first_error (Inr _ # rs) = first_error rs"

definition parse_mailboxes :: "body \<Rightarrow> string + string \<times> string list \<times> string list \<times> string list" where
  "parse_mailboxes b =
     (let rawFrom = js_trim (String_or (b ''from'') []); rawTo = asStringArray (b ''to'') in
      if rawFrom = [] then Inl ''from is required''
      else if rawTo = [] then Inl ''to is required''
      else let from = canonicalSender rawFrom; rawCc = asStringArray (b ''cc'');
               rawBcc = asStringArray (b ''bcc'');
               parsed = map canonicalSender (rawTo @ rawCc @ rawBcc) in
        if from = None \<or> None \<in> set parsed
        then Inl ''from, to, cc, and bcc must each contain one valid mailbox''
        else let rs = map the parsed; nt = length rawTo; nc = length rawCc in
          Inr (the from, take nt rs, take nc (drop nt rs), drop (nt + nc) rs))"

definition check_headers :: "string \<Rightarrow> string list \<Rightarrow> string \<Rightarrow> string option \<Rightarrow> string option" where
  "check_headers from rs subject reply_to = first_error
     (safeHeaderValue ''from'' (units_of from)
      # map (\<lambda>r. safeHeaderValue ''recipient address'' (units_of r)) rs
      @ [safeHeaderValue ''subject'' (units_of subject)]
      @ (case reply_to of None \<Rightarrow> [] | Some r \<Rightarrow> [safeHeaderValue ''reply_to'' (units_of r)]))"

definition parse_body_attachments :: "body \<Rightarrow> json list \<Rightarrow> string \<Rightarrow> string list \<Rightarrow> string \<Rightarrow> string + attachment list" where
  "parse_body_attachments b raw from rs subject =
     (if maxFiles limits < length raw
      then Inl (''at most '' @ nat_text (maxFiles limits) @ '' inline attachments are allowed'')
      else (case check_headers from rs subject (string_field (b ''reply_to'')) of
              Some e \<Rightarrow> Inl e
            | None \<Rightarrow> parse_attachments 0 0 raw))"

text \<open>
  \<open>wide\<close> is the tenant-wide send authority of the authenticated principal, \<open>header_key\<close> the
  x-emails-send-key header.
\<close>

definition parse_send :: "bool \<Rightarrow> string option \<Rightarrow> body \<Rightarrow> string + send_request" where
  "parse_send wide header_key b =
     (case parse_mailboxes b of
        Inl e \<Rightarrow> Inl e
      | Inr (from, to, cc, bcc) \<Rightarrow>
          (let subject = js_trim (String_or (b ''subject'') []) in
           if subject = [] then Inl ''subject is required''
           else case parseIdempotencyKey (map_option units_of (string_field (b ''idempotency_key''))) of
             Inl e \<Rightarrow> Inl e
           | Inr key \<Rightarrow>
               (case parse_body_attachments b (or_default (asArray (b ''attachments'')) []) from
                       (to @ cc @ bcc) subject of
                  Inl e \<Rightarrow> Inl e
                | Inr as \<Rightarrow> Inr
                    \<lparr> rq_from = from, rq_to = to, rq_cc = cc, rq_bcc = bcc, rq_subject = subject,
                      rq_key = key, rq_reply_to = string_field (b ''reply_to''),
                      rq_text = string_field (b ''text''), rq_html = string_field (b ''html''),
                      rq_attachments = as,
                      rq_send_key = (case string_field (b ''send_key'') of Some k \<Rightarrow> js_trim k
                         | None \<Rightarrow> (case header_key of Some k \<Rightarrow> js_trim k | None \<Rightarrow> [])),
                      rq_wide = wide \<rparr>)))"

end
