(* ===== verification/Send_Ledger.thy ===== *)
theory Send_Ledger
  imports Store_Schema
begin

text \<open>
  The durable send-intent ledger: the operations of \<open>TenantScopedStore\<close> in
  src/server/self-hosted/store.ts that reserve, claim, complete, fail, re-arm, park,
  reconcile, block, cancel, look up and delete send intents.  Each definition is one
  method, with its guards and its SQL; every statement that the code runs inside one
  transaction is one atomic function here, and a thrown error rolls the state back.
\<close>

section \<open>Idempotency keys\<close>

text \<open>\<open>assertSafeSendIntentKey\<close>: the loop that rejects unpaired surrogates, and the guard.\<close>

fun surrogates_paired :: "units \<Rightarrow> bool" where
  "surrogates_paired [] = True"
| "surrogates_paired (c # cs) =
     (if 0xD800 \<le> c \<and> c \<le> 0xDBFF then
        (case cs of [] \<Rightarrow> False | d # ds \<Rightarrow> 0xDC00 \<le> d \<and> d \<le> 0xDFFF \<and> surrogates_paired ds)
      else if 0xDC00 \<le> c \<and> c \<le> 0xDFFF then False
      else surrogates_paired cs)"

definition safe_send_intent_key :: "units \<Rightarrow> bool" where
  "safe_send_intent_key key \<longleftrightarrow>
     key \<noteq> [] \<and> length key \<le> 200 \<and> key = units_trim key
     \<and> (\<forall>c \<in> set key. \<not> (c \<le> 0x1F \<or> c = 0x7F))
     \<and> surrogates_paired key"

definition digest_input :: "string \<Rightarrow> units \<Rightarrow> units" where
  "digest_input tenant key =
     units_of ''emails:send-intent:v1'' @ [0] @ units_of tenant @ [0] @ key"

definition sendIntentKeyDigest :: "scope \<Rightarrow> units \<Rightarrow> string" where
  "sendIntentKeyDigest sc key = sc_sha256 sc (digest_input (sc_tenant sc) key)"

section \<open>Transactions and the key lock\<close>

definition transaction :: "(db \<Rightarrow> 'a outcome) \<Rightarrow> db \<Rightarrow> 'a outcome" where
  "transaction f s = (case f s of (_, Inl e) \<Rightarrow> (s, Inl e) | (s', Inr r) \<Rightarrow> (s', Inr r))"

definition atomically :: "scope \<Rightarrow> (db \<Rightarrow> 'a outcome) \<Rightarrow> db \<Rightarrow> 'a outcome" where
  "atomically sc f s =
     (if sc_atomic sc then transaction f s
      else if sc_unsafe sc then f s
      else (s, Inl Send_Intent_Atomicity_Unavailable))"

definition withSendIntentKeyLock ::
    "scope \<Rightarrow> units \<Rightarrow> (string \<Rightarrow> db \<Rightarrow> 'a outcome) \<Rightarrow> db \<Rightarrow> 'a outcome" where
  "withSendIntentKeyLock sc key action s =
     (if \<not> safe_send_intent_key key
      then (s, Inl (Range_Error ''idempotency key must be 1-200 safe characters''))
      else atomically sc (action (sendIntentKeyDigest sc key)) s)"

section \<open>Rows\<close>

definition message_of_input :: "string \<Rightarrow> int \<Rightarrow> string \<Rightarrow> message_input \<Rightarrow> message" where
  "message_of_input fresh now tenant i =
     \<lparr> m_id = fresh, m_tenant = tenant,
       m_direction = (let d = js_trim (or_default (mi_direction i) ''outbound'')
                      in if d = [] then ''outbound'' else d),
       m_from = js_trim (mi_from i), m_to = mi_to i, m_cc = or_default (mi_cc i) [],
       m_subject = or_default (mi_subject i) None,
       m_body_text = or_default (mi_body_text i) None,
       m_body_html = or_default (mi_body_html i) None,
       m_status = or_default (mi_status i) ''queued'',
       m_provider_message_id = or_default (mi_provider_message_id i) None,
       m_message_id = or_default (mi_message_id i) None,
       m_in_reply_to = or_default (mi_in_reply_to i) None,
       m_received_at = or_default (mi_received_at i) None,
       m_is_read = or_default (mi_is_read i) False,
       m_is_starred = or_default (mi_is_starred i) False,
       m_labels = or_default (mi_labels i) [],
       m_headers = or_default (mi_headers i) Map.empty,
       m_attachments = or_default (mi_attachments i) [],
       m_source_id = mi_source_id i, m_key = mi_key i,
       m_payload_hash = mi_payload_hash i,
       m_send_state = or_default (mi_send_state i) SS_none,
       m_send_started_at = or_default (mi_send_started_at i) None,
       m_created_at = now, m_updated_at = now \<rparr>"

definition requires_reconciliation :: "send_state \<Rightarrow> bool" where
  "requires_reconciliation st \<longleftrightarrow> st \<notin> {SS_cancelled, SS_blocked, SS_pending, SS_failed}"

abbreviation row_at :: "scope \<Rightarrow> string \<Rightarrow> send_state \<Rightarrow> message \<Rightarrow> bool" where
  "row_at sc i st m \<equiv> m_id m = i \<and> m_tenant m = sc_tenant sc \<and> m_send_state m = st"

abbreviation key_row :: "scope \<Rightarrow> units \<Rightarrow> message \<Rightarrow> bool" where
  "key_row sc key m \<equiv> m_key m = Some key \<and> m_tenant m = sc_tenant sc"

definition getSendIntentByIdempotencyKey :: "scope \<Rightarrow> units \<Rightarrow> db \<Rightarrow> message option" where
  "getSendIntentByIdempotencyKey sc key s = find (key_row sc key) (messages s)"

definition tombstoned :: "scope \<Rightarrow> string \<Rightarrow> db \<Rightarrow> bool" where
  "tombstoned sc digest s \<longleftrightarrow> (sc_tenant sc, digest) \<in> set (tombstones s)"

section \<open>Lookup and cancellation\<close>

record lookup_result =
  lr_found :: bool
  lr_tombstoned :: bool
  lr_reconciliation_required :: bool
  lr_message :: "message option"

definition lookupSendIntent :: "scope \<Rightarrow> units \<Rightarrow> db \<Rightarrow> lookup_result outcome" where
  "lookupSendIntent sc key = withSendIntentKeyLock sc key (\<lambda>digest s.
     let record = getSendIntentByIdempotencyKey sc key s in
     (s, Inr \<lparr> lr_found = (record \<noteq> None),
               lr_tombstoned = (tombstoned sc digest s
                  \<or> map_option m_send_state record = Some SS_cancelled),
               lr_reconciliation_required =
                  (case record of None \<Rightarrow> False
                   | Some m \<Rightarrow> requires_reconciliation (m_send_state m)),
               lr_message = record \<rparr>))"

datatype cancel_outcome = Tombstoned | Cancelled | Reconciliation_Required

record cancel_result =
  cr_outcome :: cancel_outcome
  cr_tombstoned :: bool
  cr_reconciliation_required :: bool
  cr_message :: "message option"

definition set_cancelled :: "int \<Rightarrow> message \<Rightarrow> message" where
  "set_cancelled now m =
     m\<lparr>m_send_state := SS_cancelled, m_status := ''cancelled'', m_updated_at := now\<rparr>"

definition cancel_row :: "scope \<Rightarrow> int \<Rightarrow> message \<Rightarrow> db \<Rightarrow> db \<times> message" where
  "cancel_row sc now existing s =
     (if m_send_state existing \<in> {SS_pending, SS_blocked, SS_failed}
      then (case update_message
              (\<lambda>m. m_id m = m_id existing \<and> m_tenant m = sc_tenant sc
                 \<and> m_send_state m \<in> {SS_pending, SS_blocked, SS_failed})
              (set_cancelled now) s of
              (s', r) \<Rightarrow> (s', or_default r existing))
      else (s, existing))"

definition cancel_report :: "message \<Rightarrow> cancel_result" where
  "cancel_report record =
     (let needs = requires_reconciliation (m_send_state record) in
      \<lparr> cr_outcome = (if needs then Reconciliation_Required else Cancelled),
        cr_tombstoned = True, cr_reconciliation_required = needs, cr_message = Some record \<rparr>)"

definition cancel_action ::
    "scope \<Rightarrow> int \<Rightarrow> units \<Rightarrow> string \<Rightarrow> db \<Rightarrow> cancel_result outcome" where
  "cancel_action sc now key digest s0 =
     (let s = s0\<lparr>tombstones := List.insert (sc_tenant sc, digest) (tombstones s0)\<rparr> in
      case getSendIntentByIdempotencyKey sc key s of
        None \<Rightarrow> (s, Inr \<lparr> cr_outcome = Tombstoned, cr_tombstoned = True,
                          cr_reconciliation_required = False, cr_message = None \<rparr>)
      | Some existing \<Rightarrow>
          (case cancel_row sc now existing s of (s', record) \<Rightarrow> (s', Inr (cancel_report record))))"

definition cancelSendIntent :: "scope \<Rightarrow> int \<Rightarrow> units \<Rightarrow> db \<Rightarrow> cancel_result outcome" where
  "cancelSendIntent sc now key = withSendIntentKeyLock sc key (cancel_action sc now key)"

section \<open>Reservation and claim\<close>

definition reserve_row :: "scope \<Rightarrow> int \<Rightarrow> string \<Rightarrow> message_input \<Rightarrow> units \<Rightarrow> string \<Rightarrow> message" where
  "reserve_row sc now fresh i key hash = message_of_input fresh now (sc_tenant sc)
     (i\<lparr>mi_direction := Some ''outbound'', mi_status := Some ''queued'',
        mi_send_state := Some SS_pending, mi_key := Some key, mi_payload_hash := Some hash\<rparr>)"

text \<open>The result is the record and whether this call created it.\<close>

definition reserve_action :: "scope \<Rightarrow> int \<Rightarrow> string \<Rightarrow> message_input \<Rightarrow> units \<Rightarrow> string
    \<Rightarrow> string \<Rightarrow> db \<Rightarrow> (message \<times> bool) outcome" where
  "reserve_action sc now fresh i key hash digest s =
     (if tombstoned sc digest s
      then (s, Inl (Send_Intent_Tombstoned (getSendIntentByIdempotencyKey sc key s)))
      else (case getSendIntentByIdempotencyKey sc key s of
         None \<Rightarrow> (let r = reserve_row sc now fresh i key hash
                  in (s\<lparr>messages := messages s @ [r]\<rparr>, Inr (r, True)))
       | Some record \<Rightarrow>
           if m_send_state record = SS_cancelled
           then (s, Inl (Send_Intent_Tombstoned (Some record)))
           else if m_payload_hash record \<noteq> Some hash then (s, Inl Idempotency_Key_Conflict)
           else (s, Inr (record, False))))"

definition reserveSendIntent ::
    "scope \<Rightarrow> int \<Rightarrow> string \<Rightarrow> message_input \<Rightarrow> units \<Rightarrow> string \<Rightarrow> db \<Rightarrow> (message \<times> bool) outcome" where
  "reserveSendIntent sc now fresh i key hash =
     withSendIntentKeyLock sc key (reserve_action sc now fresh i key hash)"

definition set_sending :: "int \<Rightarrow> message \<Rightarrow> message" where
  "set_sending now m =
     m\<lparr>m_send_state := SS_sending, m_send_started_at := Some now, m_updated_at := now\<rparr>"

text \<open>
  Between the two selects the code takes the advisory lock of the key; inside one
  transaction of the model they read the same row, and the comparison is kept.
\<close>

definition claim_action :: "scope \<Rightarrow> int \<Rightarrow> string \<Rightarrow> db \<Rightarrow> message option outcome" where
  "claim_action sc now i s =
     (case find (row_at sc i SS_pending) (messages s) of
       None \<Rightarrow> (s, Inr None)
     | Some pending \<Rightarrow>
        (case m_key pending of
           None \<Rightarrow> (s, Inr None)
         | Some key \<Rightarrow>
            if key = [] then (s, Inr None)
            else if map_option m_key (find (row_at sc i SS_pending) (messages s)) \<noteq> Some (Some key)
            then (s, Inr None)
            else if tombstoned sc (sendIntentKeyDigest sc key) s then (s, Inr None)
            else (case update_message (row_at sc i SS_pending) (set_sending now) s of
                    (s', r) \<Rightarrow> (s', Inr r))))"

definition claimSendIntent :: "scope \<Rightarrow> int \<Rightarrow> string \<Rightarrow> db \<Rightarrow> message option outcome" where
  "claimSendIntent sc now i = atomically sc (claim_action sc now i)"

section \<open>Outcomes\<close>

definition set_sent :: "int \<Rightarrow> string \<Rightarrow> message \<Rightarrow> message" where
  "set_sent now pid m = m\<lparr>m_send_state := SS_sent, m_status := ''sent'',
     m_provider_message_id := Some pid, m_updated_at := now\<rparr>"

definition completeSendIntent :: "scope \<Rightarrow> int \<Rightarrow> string \<Rightarrow> string \<Rightarrow> db \<Rightarrow> message outcome" where
  "completeSendIntent sc now i pid s =
     (case update_message (\<lambda>m. m_id m = i \<and> m_tenant m = sc_tenant sc) (set_sent now pid) s of
        (s', Some r) \<Rightarrow> (s', Inr r)
      | (s', None) \<Rightarrow> (s', Inl (Store_Error ''send intent disappeared during completion'')))"

definition set_failed :: "int \<Rightarrow> string \<Rightarrow> message \<Rightarrow> message" where
  "set_failed now reason m = m\<lparr>m_send_state := SS_failed, m_status := ''failed'',
     m_headers := (m_headers m)(''send_failure'' \<mapsto> JStr (take 600 reason)), m_updated_at := now\<rparr>"

definition markSendFailed :: "scope \<Rightarrow> int \<Rightarrow> string \<Rightarrow> string \<Rightarrow> db \<Rightarrow> db \<times> message option" where
  "markSendFailed sc now i reason s =
     update_message (row_at sc i SS_sending) (set_failed now reason) s"

definition set_rearmed :: "int \<Rightarrow> message \<Rightarrow> message" where
  "set_rearmed now m = m\<lparr>m_send_state := SS_pending, m_status := ''queued'',
     m_send_started_at := None, m_updated_at := now\<rparr>"

definition rearmFailedSendIntent :: "scope \<Rightarrow> int \<Rightarrow> string \<Rightarrow> db \<Rightarrow> db \<times> message option" where
  "rearmFailedSendIntent sc now i s = update_message (row_at sc i SS_failed) (set_rearmed now) s"

definition uncertain_reason :: string where
  "uncertain_reason = ''the provider ACCEPTED this message (provider_message_id is present, so it was sent) but the ledger write that records it failed; reconcile as sent''"

definition uncertain_evidence :: "string option \<Rightarrow> string option" where
  "uncertain_evidence pid = (case pid of None \<Rightarrow> None
     | Some p \<Rightarrow> if js_trim p = [] then None else Some (js_trim p))"

definition set_uncertain :: "int \<Rightarrow> string option \<Rightarrow> message \<Rightarrow> message" where
  "set_uncertain now evidence m = m\<lparr>m_send_state := SS_uncertain, m_status := ''uncertain'',
     m_provider_message_id := (case evidence of None \<Rightarrow> m_provider_message_id m | Some p \<Rightarrow> Some p),
     m_headers := (case evidence of None \<Rightarrow> m_headers m
        | Some _ \<Rightarrow> (m_headers m)(''send_uncertain_reason'' \<mapsto> JStr uncertain_reason)),
     m_updated_at := now\<rparr>"

definition markSendUncertain ::
    "scope \<Rightarrow> int \<Rightarrow> string \<Rightarrow> string option \<Rightarrow> db \<Rightarrow> db \<times> message option" where
  "markSendUncertain sc now i pid s =
     update_message (\<lambda>m. m_id m = i \<and> m_tenant m = sc_tenant sc \<and> m_send_state m \<noteq> SS_sent)
       (set_uncertain now (uncertain_evidence pid)) s"

definition set_blocked :: "int \<Rightarrow> policy_code \<Rightarrow> message \<Rightarrow> message" where
  "set_blocked now code m = m\<lparr>m_send_state := SS_blocked, m_status := ''blocked'',
     m_headers := (m_headers m)(''policy_denial'' \<mapsto> JStr (policy_code_text code)),
     m_updated_at := now\<rparr>"

definition markSendBlocked ::
    "scope \<Rightarrow> int \<Rightarrow> string \<Rightarrow> policy_code \<Rightarrow> db \<Rightarrow> db \<times> message option" where
  "markSendBlocked sc now i code s =
     update_message (row_at sc i SS_pending) (set_blocked now code) s"

section \<open>Reconciliation of uncertain intents\<close>

record resolution =
  rs_sent :: bool
  rs_provider_message_id :: "string option"
  rs_evidence :: string
  rs_resolved_by :: "string option"

definition reconciliation_json :: "string \<Rightarrow> string \<Rightarrow> int \<Rightarrow> string option \<Rightarrow> json" where
  "reconciliation_json outcome evidence at by =
     (let who = take 200 (or_default by []) in
      JObj [(''outcome'', JStr outcome), (''evidence'', JStr evidence), (''resolved_at'', JNum at),
            (''resolved_by'', if who = [] then JNull else JStr who)])"

definition set_reconciled_sent ::
    "int \<Rightarrow> string \<Rightarrow> string \<Rightarrow> string option \<Rightarrow> message \<Rightarrow> message" where
  "set_reconciled_sent now pid evidence by m =
     m\<lparr>m_send_state := SS_sent, m_status := ''sent'',
       m_provider_message_id := Some (take 998 pid),
       m_headers := (m_headers m)
         (''send_reconciliation'' \<mapsto> reconciliation_json ''sent'' evidence now by),
       m_updated_at := now\<rparr>"

definition set_reconciled_not_sent ::
    "int \<Rightarrow> string \<Rightarrow> string option \<Rightarrow> message \<Rightarrow> message" where
  "set_reconciled_not_sent now evidence by m =
     m\<lparr>m_send_state := SS_failed, m_status := ''failed'',
       m_headers := (m_headers m)
         (''send_failure'' \<mapsto> JStr ''reconciled_not_sent'',
          ''send_reconciliation'' \<mapsto> reconciliation_json ''not_sent'' evidence now by),
       m_updated_at := now\<rparr>"

definition reconcileUncertainSendIntent ::
    "scope \<Rightarrow> int \<Rightarrow> string \<Rightarrow> resolution \<Rightarrow> db \<Rightarrow> message option outcome" where
  "reconcileUncertainSendIntent sc now i res s =
     (let evidence = take 1000 (js_trim (rs_evidence res));
          by = rs_resolved_by res;
          pid = js_trim (or_default (rs_provider_message_id res) [])
      in if evidence = []
         then (s, Inl (Store_Error ''reconciliation requires a non-empty evidence note''))
         else if rs_sent res then
           (if pid = []
            then (s, Inl (Store_Error ''reconciling an uncertain intent as sent requires the provider message id that proves it''))
            else (case update_message (row_at sc i SS_uncertain)
                         (set_reconciled_sent now pid evidence by) s of
                    (s', r) \<Rightarrow> (s', Inr r)))
         else (case update_message (row_at sc i SS_uncertain)
                      (set_reconciled_not_sent now evidence by) s of
                 (s', r) \<Rightarrow> (s', Inr r)))"

definition clampLimit :: "int option \<Rightarrow> nat" where
  "clampLimit l = (case l of None \<Rightarrow> 100
     | Some n \<Rightarrow> if n = 0 then 100 else nat (min (max 1 n) 500))"

definition clampOffset :: "int option \<Rightarrow> nat" where
  "clampOffset l = (case l of None \<Rightarrow> 0
     | Some n \<Rightarrow> if n = 0 \<or> n < 0 then 0 else nat (min n 100000))"

definition listUncertainSendIntents ::
    "scope \<Rightarrow> int option \<Rightarrow> int option \<Rightarrow> db \<Rightarrow> message list" where
  "listUncertainSendIntents sc limit offset s =
     take (clampLimit limit) (drop (clampOffset offset)
       (sort_key (\<lambda>m. (m_created_at m, m_id m))
         (filter (\<lambda>m. m_tenant m = sc_tenant sc \<and> m_send_state m = SS_uncertain) (messages s))))"

section \<open>Deletion\<close>

text \<open>
  \<open>deleteMessage\<close>: a row that carries an idempotency key is never deleted.  The re-read
  after a delete that removed nothing is kept; in one atomic step it finds no key.
\<close>

definition deleteMessage :: "scope \<Rightarrow> string \<Rightarrow> db \<Rightarrow> bool outcome" where
  "deleteMessage sc i s =
     (case get_message sc i s of
        None \<Rightarrow> (s, Inr False)
      | Some current \<Rightarrow>
          if m_key current \<noteq> None \<and> m_key current \<noteq> Some []
          then (s, Inl (Send_Intent_Deletion_Forbidden current))
          else let gone = (\<lambda>m. m_id m = i \<and> m_tenant m = sc_tenant sc \<and> m_key m = None);
                   s' = s\<lparr>messages := filter (\<lambda>m. \<not> gone m) (messages s)\<rparr>
               in if \<exists>m \<in> set (messages s). gone m then (s', Inr True)
                  else (case get_message sc i s' of
                          None \<Rightarrow> (s', Inr False)
                        | Some raced \<Rightarrow>
                            if m_key raced \<noteq> None \<and> m_key raced \<noteq> Some []
                            then (s', Inl (Send_Intent_Deletion_Forbidden raced))
                            else (s', Inr False)))"

lemmas row_writers =
  set_cancelled_def set_sending_def set_sent_def set_failed_def set_rearmed_def
  set_uncertain_def set_blocked_def set_reconciled_sent_def set_reconciled_not_sent_def

lemmas lock_defs = withSendIntentKeyLock_def atomically_def transaction_def

end
