(* ===== verification/Warming.thy ===== *)
theory Warming
  imports Emails_Prelude
begin

text \<open>
  Domain warming: the ramp of the client (src/lib/warming.ts: \<open>generateWarmingPlan\<close>,
  \<open>warmingDayIndex\<close>, \<open>getTodayLimit\<close>, \<open>describeWarmingProgress\<close>) and the limit the server
  enforces (\<open>warmingLimit\<close> of src/server/self-hosted/store.ts).  Instants are milliseconds
  since the epoch; a start date is \<open>None\<close> when it is null or empty, \<open>Some None\<close> when it
  cannot be parsed, \<open>Some (Some t)\<close> when it denotes instant \<open>t\<close>.  The main result is that the
  two computations, written independently, give the same number for every active schedule.
\<close>

section \<open>UTC days\<close>

definition utc_day_start :: "int \<Rightarrow> int" where
  "utc_day_start t = t div 86400000 * 86400000"

definition day_index :: "int \<Rightarrow> int \<Rightarrow> int" where
  "day_index start now = (utc_day_start now - utc_day_start start) div 86400000 + 1"

lemma day_index_alt: "day_index start now = now div 86400000 - start div 86400000 + 1"
proof -
  have "utc_day_start now - utc_day_start start = (now div 86400000 - start div 86400000) * 86400000"
    by (simp add: utc_day_start_def algebra_simps)
  then show ?thesis by (simp add: day_index_def)
qed

section \<open>The server's limit\<close>

function warm_loop :: "int \<Rightarrow> int \<Rightarrow> int \<Rightarrow> int \<Rightarrow> int" where
  "warm_loop day target cd limit =
     (if cd < day \<and> limit < target
      then warm_loop day target (cd + 1) (if cd mod 2 = 0 then limit * 2 else limit)
      else limit)"
  by pat_completeness auto
termination by (relation "measure (\<lambda>(day, _, cd, _). nat (day - cd))") auto

declare warm_loop.simps [simp del]

definition warmingLimit :: "int \<Rightarrow> int option option \<Rightarrow> int \<Rightarrow> int option" where
  "warmingLimit target startDate now =
     (case startDate of
        None \<Rightarrow> None
      | Some parsed \<Rightarrow>
          if target < 0 then None
          else (case parsed of
             None \<Rightarrow> None
           | Some start \<Rightarrow>
               let day = day_index start now
               in if day < 1 then Some 0 else Some (min (warm_loop day target 1 50) target)))"

section \<open>The client's plan\<close>

function plan_loop :: "int \<Rightarrow> int \<Rightarrow> int \<Rightarrow> (int \<times> int) list" where
  "plan_loop target current day =
     (if current < target
      then (day, min current target) #
           (if 60 < day + 1 then [(day + 1, target)]
            else plan_loop target (if day mod 2 = 0 then current * 2 else current) (day + 1))
      else [(day, target)])"
  by pat_completeness auto
termination by (relation "measure (\<lambda>(_, _, day). nat (61 - day))") auto

declare plan_loop.simps [simp del]

definition generateWarmingPlan :: "int \<Rightarrow> (int \<times> int) list" where
  "generateWarmingPlan target = plan_loop target 50 1"

definition warmingDayIndex :: "int option option \<Rightarrow> int \<Rightarrow> int option" where
  "warmingDayIndex startDate now =
     (case startDate of Some (Some start) \<Rightarrow> Some (day_index start now) | _ \<Rightarrow> None)"

record warming_schedule =
  ws_target :: int
  ws_start_date :: "int option option"
  ws_status :: string

definition getTodayLimit :: "warming_schedule \<Rightarrow> int \<Rightarrow> int option" where
  "getTodayLimit ws now =
     (if ws_status ws \<noteq> ''active'' then None
      else (case warmingDayIndex (ws_start_date ws) now of
         None \<Rightarrow> Some 0
       | Some currentDay \<Rightarrow>
           if currentDay < 1 then Some 0
           else let plan = generateWarmingPlan (ws_target ws);
                    dayEntry = (case find (\<lambda>p. currentDay \<le> fst p) plan of
                                  Some e \<Rightarrow> e | None \<Rightarrow> last plan)
                in if fst (last plan) < currentDay then Some (ws_target ws)
                   else Some (snd dayEntry)))"

record warming_progress =
  wp_current_day :: int
  wp_total_days :: int
  wp_progress_percent :: int
  wp_today_limit :: "int option"
  wp_today_sent :: int

text \<open>
  \<open>Math.round(a / b)\<close> of two non-negative integers is the floor of \<open>a / b + 1/2\<close>.  The last
  day of a plan is odd (\<open>plan_last_odd\<close>), so the quotient rounded here is never half-way
  between two integers and the rounding of the floating-point quotient is the exact one.
\<close>

definition describeWarmingProgress :: "warming_schedule \<Rightarrow> int \<Rightarrow> int \<Rightarrow> warming_progress" where
  "describeWarmingProgress ws now todaySent =
     (let currentDay = max 1 (case warmingDayIndex (ws_start_date ws) now of None \<Rightarrow> 1 | Some d \<Rightarrow> d);
          totalDays = fst (last (generateWarmingPlan (ws_target ws)))
      in \<lparr> wp_current_day = currentDay, wp_total_days = totalDays,
           wp_progress_percent = min 100 ((2 * (currentDay * 100) + totalDays) div (2 * totalDays)),
           wp_today_limit = getTodayLimit ws now, wp_today_sent = todaySent \<rparr>)"

section \<open>Both are the same ramp\<close>

definition ramp :: "int \<Rightarrow> int" where
  "ramp d = 50 * 2 ^ nat ((d - 1) div 2)"

lemma ramp_1 [simp]: "ramp 1 = 50"
  by (simp add: ramp_def)

lemma ramp_Suc: "1 \<le> d \<Longrightarrow> ramp (d + 1) = (if d mod 2 = 0 then ramp d * 2 else ramp d)"
proof -
  assume d: "1 \<le> d"
  show ?thesis
  proof (cases "d mod 2 = 0")
    case True
    then have "d div 2 = (d - 1) div 2 + 1" by presburger
    moreover have "0 \<le> (d - 1) div 2" using d by simp
    ultimately show ?thesis using True by (simp add: ramp_def nat_add_distrib)
  next
    case False
    then have "d div 2 = (d - 1) div 2" by presburger
    with False show ?thesis by (simp add: ramp_def)
  qed
qed

lemma ramp_mono: "d \<le> e \<Longrightarrow> ramp d \<le> ramp e"
  unfolding ramp_def by (intro mult_left_mono power_increasing nat_mono zdiv_mono1) auto

lemma ramp_ge_50: "50 \<le> ramp d"
  by (simp add: ramp_def)

lemma warm_loop_ramp:
  "1 \<le> cd \<Longrightarrow> cd \<le> day \<Longrightarrow> min (warm_loop day target cd (ramp cd)) target = min (ramp day) target"
proof (induction "nat (day - cd)" arbitrary: cd)
  case 0
  then show ?case by (simp add: warm_loop.simps)
next
  case (Suc n)
  show ?case
  proof (cases "ramp cd < target")
    case True
    have "min (warm_loop day target (cd + 1) (ramp (cd + 1))) target = min (ramp day) target"
      using Suc by (intro Suc.hyps(1)) auto
    with True Suc show ?thesis
      by (simp add: warm_loop.simps [of day target cd] ramp_Suc)
  next
    case False
    with ramp_mono [OF Suc.prems(2)] show ?thesis
      by (simp add: warm_loop.simps [of day target cd])
  qed
qed

lemma plan_loop_ne [simp]: "plan_loop target current day \<noteq> []"
  by (simp add: plan_loop.simps [of target current day])

lemma last_plan_loop: "snd (last (plan_loop target current day)) = target"
proof (induction target current day rule: plan_loop.induct)
  case (1 target current day)
  show ?case
    by (subst plan_loop.simps) (use 1 in \<open>auto simp: last_ConsR\<close>)
qed

lemma last_plan_day:
  "day \<le> fst (last (plan_loop target current day))
   \<and> (\<forall>e \<in> set (plan_loop target current day). fst e \<le> fst (last (plan_loop target current day)))"
proof (induction target current day rule: plan_loop.induct)
  case (1 target current day)
  show ?case
    by (subst (1 2 3) plan_loop.simps) (use 1 in \<open>auto simp: last_ConsR\<close>)
qed

text \<open>The entry the plan holds for a day; 60 days are enough up to \<open>50 * 2^30\<close> messages.\<close>

lemma plan_lookup:
  assumes "1 \<le> day" "day \<le> 60" "day \<le> cd" "target \<le> 50 * 2 ^ 30"
  shows "(case find (\<lambda>p. cd \<le> fst p) (plan_loop target (ramp day) day) of
            Some e \<Rightarrow> snd e | None \<Rightarrow> target) = min (ramp cd) target"
  using assms
proof (induction "nat (60 - day)" arbitrary: day)
  case 0
  then have d: "day = 60" by simp
  have "cd = 60 \<or> ramp 61 \<le> ramp cd" using d 0 by (auto intro: ramp_mono)
  moreover have "target \<le> ramp 61" using assms(4) by (simp add: ramp_def)
  ultimately show ?case
    using d 0 ramp_mono [of 60 cd] by (auto simp: plan_loop.simps [of target "ramp 60" 60])
next
  case (Suc n)
  show ?case
  proof (cases "ramp day < target")
    case True
    show ?thesis
    proof (cases "cd = day")
      case True
      with \<open>ramp day < target\<close> show ?thesis by (simp add: plan_loop.simps [of target "ramp day"])
    next
      case False
      have "(case find (\<lambda>p. cd \<le> fst p) (plan_loop target (ramp (day + 1)) (day + 1)) of
            Some e \<Rightarrow> snd e | None \<Rightarrow> target) = min (ramp cd) target"
        using Suc False by (intro Suc.hyps(1)) auto
      moreover have "day < 60" using Suc.hyps(2) by linarith
      ultimately show ?thesis using True False Suc.prems
        by (simp add: plan_loop.simps [of target "ramp day" day] ramp_Suc)
    qed
  next
    case False
    with ramp_mono [OF Suc.prems(3)] show ?thesis
      by (simp add: plan_loop.simps [of target "ramp day" day])
  qed
qed

lemma plan_last_odd:
  assumes "1 \<le> day" "day \<le> 60" "odd day \<or> ramp day < target"
  shows "odd (fst (last (plan_loop target (ramp day) day)))"
  using assms
proof (induction "nat (60 - day)" arbitrary: day)
  case 0
  then have "day = 60" by simp
  with 0 show ?case by (simp add: plan_loop.simps [of target "ramp 60" 60])
next
  case (Suc n)
  then have d: "day < 60" by linarith
  show ?case
  proof (cases "ramp day < target")
    case True
    have "odd (day + 1) \<or> ramp (day + 1) < target"
      using True Suc.prems(1) by (cases "even day") (simp_all add: ramp_Suc odd_iff_mod_2_eq_one)
    then have "odd (fst (last (plan_loop target (ramp (day + 1)) (day + 1))))"
      using Suc d by (intro Suc.hyps(1)) auto
    with True d Suc.prems(1) show ?thesis
      by (simp add: plan_loop.simps [of target "ramp day" day] ramp_Suc)
  next
    case False
    with Suc.prems(3) show ?thesis by (simp add: plan_loop.simps [of target "ramp day" day])
  qed
qed

lemma server_limit:
  "0 \<le> target \<Longrightarrow> 1 \<le> day_index start now \<Longrightarrow>
   warmingLimit target (Some (Some start)) now = Some (min (ramp (day_index start now)) target)"
  using warm_loop_ramp [of 1 "day_index start now" target]
  by (simp add: warmingLimit_def)

text \<open>
  The limit the client shows and gates local sends on is the limit the server enforces:
  for an active schedule with a valid start date and a target between 0 and \<open>50 * 2^30\<close>
  messages a day, at every instant.
\<close>

theorem client_limit_is_server_limit:
  assumes "ws_status ws = ''active''" "ws_start_date ws = Some (Some start)"
    and "0 \<le> ws_target ws" "ws_target ws \<le> 50 * 2 ^ 30"
  shows "getTodayLimit ws now = warmingLimit (ws_target ws) (ws_start_date ws) now"
proof (cases "day_index start now < 1")
  case True
  with assms show ?thesis by (simp add: getTodayLimit_def warmingDayIndex_def warmingLimit_def)
next
  case False
  let ?d = "day_index start now" and ?t = "ws_target ws"
  have l: "(case find (\<lambda>p. ?d \<le> fst p) (plan_loop ?t 50 1) of
      Some e \<Rightarrow> snd e | None \<Rightarrow> ?t) = min (ramp ?d) ?t"
    using plan_lookup [of 1 ?d ?t] False assms(4) by simp
  have "getTodayLimit ws now = Some (min (ramp ?d) ?t)"
  proof (cases "find (\<lambda>p. ?d \<le> fst p) (plan_loop ?t 50 1)")
    case None
    then have "fst (last (plan_loop ?t 50 1)) < ?d"
      using last_in_set [of "plan_loop ?t 50 1"] by (auto simp: find_None_iff_all not_le)
    with None l False assms show ?thesis
      by (simp add: getTodayLimit_def warmingDayIndex_def generateWarmingPlan_def)
  next
    case (Some e)
    then have "\<not> fst (last (plan_loop ?t 50 1)) < ?d"
      using last_plan_day [where day = 1 and target = ?t and current = 50] find_SomeD [OF Some]
      by fastforce
    with Some l False assms show ?thesis
      by (simp add: getTodayLimit_def warmingDayIndex_def generateWarmingPlan_def)
  qed
  with False assms show ?thesis by (simp add: server_limit)
qed

lemma client_limit_is_server_limit_witness:
  "getTodayLimit \<lparr> ws_target = 5000, ws_start_date = Some (Some 0), ws_status = ''active'' \<rparr> 172800000
     = warmingLimit 5000 (Some (Some 0)) 172800000 \<and>
   warmingLimit 5000 (Some (Some 0)) 172800000 = Some 100"
  using client_limit_is_server_limit [of "\<lparr> ws_target = 5000, ws_start_date = Some (Some 0), ws_status = ''active'' \<rparr>" 0 172800000]
  by (simp add: server_limit day_index_alt ramp_def)

text \<open>
  The server's limit never exceeds the target, never shrinks from one instant to a later
  one, and is 0 before the start day.
\<close>

theorem warming_limit_ramp:
  assumes "0 \<le> target" "now \<le> later"
  shows "\<exists>a b. warmingLimit target (Some (Some start)) now = Some a
     \<and> warmingLimit target (Some (Some start)) later = Some b
     \<and> 0 \<le> a \<and> a \<le> b \<and> b \<le> target \<and> (now div 86400000 < start div 86400000 \<longrightarrow> a = 0)"
proof -
  let ?d = "day_index start now" and ?e = "day_index start later"
  have de: "?d \<le> ?e" using assms(2) by (simp add: day_index_alt zdiv_mono1)
  have early: "warmingLimit target (Some (Some start)) t = Some 0" if "day_index start t < 1" for t
    using that assms(1) by (simp add: warmingLimit_def)
  show ?thesis
  proof (cases "?d < 1")
    case True
    show ?thesis
    proof (cases "?e < 1")
      case True with \<open>?d < 1\<close> assms(1) show ?thesis by (simp add: early)
    next
      case False
      with True assms(1) ramp_ge_50 [of ?e] show ?thesis by (simp add: early server_limit)
    qed
  next
    case False
    then have "1 \<le> ?d" "1 \<le> ?e" "start div 86400000 \<le> now div 86400000"
      using de by (auto simp: day_index_alt)
    with assms(1) ramp_mono [OF de] ramp_ge_50 [of ?d] show ?thesis by (auto simp: server_limit)
  qed
qed

lemma warming_limit_ramp_witness:
  "\<exists>a b. warmingLimit 80 (Some (Some 0)) 5 = Some a \<and> warmingLimit 80 (Some (Some 0)) 172800000 = Some b
     \<and> a \<le> b \<and> b \<le> 80"
  using warming_limit_ramp [of 80 5 172800000 0] by auto

end
