(* ===== verification/Outbound_Policy.thy ===== *)
theory Outbound_Policy
  imports Store_Schema Email_Address Warming
begin

text \<open>
  The outbound policy gate: \<open>evaluateOutboundPolicy\<close>, the sender-scoped send keys
  (\<open>mintSendKey\<close>, \<open>verifySendKey\<close>, \<open>isOwnerAuthorizedFrom\<close>) of
  src/server/self-hosted/store.ts, and the client's preview of the gate
  (\<open>evaluateSenderPreflight\<close> of src/lib/send-preflight.ts).  The gate reads the registry and
  the ledger; its only write stamps the send key it verified.  Where a statement has no
  total order, the first row in table order is taken; the results hold for every order.
\<close>

section \<open>Send keys\<close>

definition verifySendKey :: "scope \<Rightarrow> int \<Rightarrow> string \<Rightarrow> db \<Rightarrow> db \<times> send_key_row option" where
  "verifySendKey sc now token s =
     (let v = js_trim token in
      if v = [] then (s, None)
      else (case find (\<lambda>x. ks_key_hash x = sc_sha256 sc (units_of v)) (send_key_secrets s) of
         None \<Rightarrow> (s, None)
       | Some secret \<Rightarrow>
          (case find (\<lambda>k. k_id k = ks_send_key_id secret \<and> k_tenant k = sc_tenant sc) (send_keys s) of
             None \<Rightarrow> (s, None)
           | Some key \<Rightarrow>
               if k_revoked_at key \<noteq> None then (s, None)
               else (let u = sql_update (\<lambda>k. k_id k = k_id key \<and> k_tenant k = sc_tenant sc)
                               (\<lambda>k. k\<lparr>k_last_used_at := Some now, k_updated_at := now\<rparr>) (send_keys s)
                     in (s\<lparr>send_keys := fst u\<rparr>, Some (or_default (snd u) key))))))"

text \<open>\<open>assertNotOtherTenant\<close> on the owners table: an unknown id is let through.\<close>

definition foreign_owner :: "scope \<Rightarrow> string \<Rightarrow> db \<Rightarrow> bool" where
  "foreign_owner sc i s \<longleftrightarrow> i \<noteq> [] \<and>
     (case find (\<lambda>x. fst x = i) (owners s) of None \<Rightarrow> False | Some x \<Rightarrow> snd x \<noteq> sc_tenant sc)"

text \<open>
  The random token and the two fresh row ids are arguments; the result is the key row, the
  token itself is the caller's.
\<close>

definition mintSendKey ::
    "scope \<Rightarrow> int \<Rightarrow> string \<Rightarrow> string \<Rightarrow> string \<Rightarrow> string \<Rightarrow> string option \<Rightarrow> db
      \<Rightarrow> (string \<times> send_key_row) outcome" where
  "mintSendKey sc now token i secret_id owner label s =
     (if foreign_owner sc owner s then (s, Inl (Cross_Tenant_Reference ''owner_id''))
      else let key = \<lparr> k_id = i, k_tenant = sc_tenant sc, k_owner_id = Some owner,
                       k_prefix = Some (take 12 token), k_label = label, k_last_used_at = None,
                       k_revoked_at = None, k_created_at = now, k_updated_at = now \<rparr>
           in (s\<lparr> send_keys := send_keys s @ [key],
                  send_key_secrets := send_key_secrets s @
                    [\<lparr> ks_id = secret_id, ks_send_key_id = i,
                       ks_key_hash = sc_sha256 sc (units_of token) \<rparr>],
                  send_key_tenants := (if i \<in> fst ` set (send_key_tenants s) then send_key_tenants s
                                       else send_key_tenants s @ [(i, sc_tenant sc)]) \<rparr>,
               Inr (token, key)))"

definition isOwnerAuthorizedFrom :: "scope \<Rightarrow> string \<Rightarrow> string \<Rightarrow> db \<Rightarrow> bool" where
  "isOwnerAuthorizedFrom sc owner fromEmail s \<longleftrightarrow> owner \<noteq> [] \<and>
     (let email = canonicalAddress fromEmail in email \<noteq> [] \<and>
        (\<exists>a \<in> set (addresses s). js_lower (a_email a) = email \<and> a_tenant a = sc_tenant sc
           \<and> (a_owner_id a = Some owner \<or> a_administrator_id a = Some owner)))"

section \<open>The sender row\<close>

type_synonym sender = "address_row \<times> domain_row option"

definition joins :: "address_row \<Rightarrow> domain_row \<Rightarrow> bool" where
  "joins a d \<longleftrightarrow> d_tenant d = a_tenant a \<and>
     (a_domain_id a = Some (d_id d)
      \<or> (a_domain_id a = None \<and> js_lower (d_domain d) = email_domain_part (js_lower (a_email a))))"

definition join_domain :: "domain_row list \<Rightarrow> address_row \<Rightarrow> sender list" where
  "join_domain ds a =
     (let hits = filter (joins a) ds in if hits = [] then [(a, None)] else map (\<lambda>d. (a, Some d)) hits)"

text \<open>\<open>ORDER BY (d.id::text = a.domain_id) DESC NULLS LAST\<close>: true, then false, then null.\<close>

fun join_rank :: "sender \<Rightarrow> nat" where
  "join_rank (a, Some d) =
     (case a_domain_id a of Some i \<Rightarrow> if i = d_id d then 0 else 1 | None \<Rightarrow> 2)"
| "join_rank (a, None) = 2"

definition sender_row :: "scope \<Rightarrow> string \<Rightarrow> db \<Rightarrow> sender option" where
  "sender_row sc from s =
     (case sort_key join_rank (concat (map (join_domain (domains s))
             (filter (\<lambda>a. js_lower (a_email a) = from \<and> a_tenant a = sc_tenant sc) (addresses s)))) of
        [] \<Rightarrow> None | r # _ \<Rightarrow> Some r)"

definition sender_domain :: "sender \<Rightarrow> string option" where
  "sender_domain r =
     (case a_domain (fst r) of Some d \<Rightarrow> Some d | None \<Rightarrow> map_option d_domain (snd r))"

definition outbound_ready :: "sender \<Rightarrow> bool" where
  "outbound_ready r \<longleftrightarrow>
     a_provisioning_status (fst r) \<in> {''ready'', ''active'', ''verified''}
     \<or> (case snd r of None \<Rightarrow> False
        | Some d \<Rightarrow> (d_verified d \<and> d_status d \<in> {''active'', ''verified'', ''ready''})
                 \<or> d_provisioning_status d \<in> {''ready'', ''active'', ''verified''})"

section \<open>The gate\<close>

datatype policy_decision = Allowed | Denied policy_code string nat

fun policy_message :: "policy_code \<Rightarrow> string" where
  "policy_message sender_not_registered = ''sender address is not registered''"
| "policy_message sender_inactive = ''sender address is not active''"
| "policy_message sender_unverified = ''sender address is not verified''"
| "policy_message sender_not_ready = ''sender domain is not ready for outbound mail''"
| "policy_message send_key_required = ''a sender-scoped send key is required''"
| "policy_message send_key_invalid = ''send key is invalid or revoked''"
| "policy_message send_key_forbidden = ''send key is not authorized for this sender''"
| "policy_message recipient_suppressed = ''one or more recipients are suppressed''"
| "policy_message address_quota_exceeded = ''sender daily quota has been reached''"
| "policy_message warming_limit_exceeded = ''domain warming limit has been reached''"

fun policy_status :: "policy_code \<Rightarrow> nat" where
  "policy_status recipient_suppressed = 409"
| "policy_status address_quota_exceeded = 429"
| "policy_status warming_limit_exceeded = 429"
| "policy_status _ = 403"

definition decide :: "policy_code option \<Rightarrow> policy_decision" where
  "decide c = (case c of None \<Rightarrow> Allowed
     | Some code \<Rightarrow> Denied code (policy_message code) (policy_status code))"

definition sender_gate :: "sender option \<Rightarrow> policy_code option" where
  "sender_gate row =
     (case row of None \<Rightarrow> Some sender_not_registered
      | Some r \<Rightarrow>
          if a_status (fst r) \<noteq> ''active'' then Some sender_inactive
          else if \<not> a_verified (fst r) then Some sender_unverified
          else if \<not> outbound_ready r then Some sender_not_ready
          else None)"

definition key_gate ::
    "scope \<Rightarrow> int \<Rightarrow> string option \<Rightarrow> bool \<Rightarrow> address_row \<Rightarrow> db \<Rightarrow> db \<times> policy_code option" where
  "key_gate sc now token wide a s =
     (if (token = None \<or> token = Some []) \<and> \<not> wide then (s, Some send_key_required)
      else if token = None \<or> token = Some [] then (s, None)
      else (case verifySendKey sc now (the token) s of
              (s', None) \<Rightarrow> (s', Some send_key_invalid)
            | (s', Some key) \<Rightarrow>
                (s', if k_owner_id key = None \<or> k_owner_id key = Some []
                        \<or> (k_owner_id key \<noteq> a_owner_id a \<and> k_owner_id key \<noteq> a_administrator_id a)
                     then Some send_key_forbidden else None)))"

definition suppressed_recipient :: "scope \<Rightarrow> string list \<Rightarrow> db \<Rightarrow> bool" where
  "suppressed_recipient sc recipients s =
     (let rs = remdups (filter (\<lambda>r. r \<noteq> []) (map canonicalAddress recipients))
      in rs \<noteq> [] \<and> (\<exists>c \<in> set (contacts s). c_tenant c = sc_tenant sc \<and> c_suppressed c
                        \<and> js_lower (c_email c) \<in> set rs))"

definition counted_today :: "scope \<Rightarrow> int \<Rightarrow> message \<Rightarrow> bool" where
  "counted_today sc now m \<longleftrightarrow> m_tenant m = sc_tenant sc \<and> m_direction m = ''outbound''
     \<and> m_send_state m \<in> {SS_pending, SS_sending, SS_sent} \<and> utc_day_start now \<le> m_created_at m"

definition address_count :: "scope \<Rightarrow> int \<Rightarrow> string \<Rightarrow> db \<Rightarrow> nat" where
  "address_count sc now from s =
     length (filter (\<lambda>m. counted_today sc now m \<and> js_lower (m_from m) = from) (messages s))"

definition domain_count :: "scope \<Rightarrow> int \<Rightarrow> string \<Rightarrow> db \<Rightarrow> nat" where
  "domain_count sc now domain s =
     length (filter (\<lambda>m. counted_today sc now m
       \<and> email_domain_part (js_lower (m_from m)) = domain) (messages s))"

definition warming_gate :: "scope \<Rightarrow> int \<Rightarrow> string option \<Rightarrow> nat \<Rightarrow> db \<Rightarrow> policy_code option" where
  "warming_gate sc now domain used s =
     (case domain of None \<Rightarrow> None
      | Some d \<Rightarrow>
          if d = [] then None
          else (case find (\<lambda>w. w_tenant w = sc_tenant sc \<and> js_lower (w_domain w) = js_lower d
                              \<and> w_status w = ''active'') (warming s) of
                  None \<Rightarrow> None
                | Some w \<Rightarrow>
                    (case warmingLimit (w_target w) (w_start_date w) now of
                       None \<Rightarrow> None
                     | Some limit \<Rightarrow> if limit < int used then Some warming_limit_exceeded else None)))"

definition volume_gate :: "scope \<Rightarrow> int \<Rightarrow> string \<Rightarrow> sender \<Rightarrow> db \<Rightarrow> policy_code option" where
  "volume_gate sc now from r s =
     (let used = address_count sc now from s;
          domain = or_default (sender_domain r) (email_domain_part from)
      in case a_daily_quota (fst r) of
           Some q \<Rightarrow> if q < int used then Some address_quota_exceeded
                     else warming_gate sc now (sender_domain r) (domain_count sc now domain s) s
         | None \<Rightarrow> warming_gate sc now (sender_domain r) (domain_count sc now domain s) s)"

definition evaluateOutboundPolicy ::
    "scope \<Rightarrow> int \<Rightarrow> string \<Rightarrow> string list \<Rightarrow> string option \<Rightarrow> bool \<Rightarrow> db \<Rightarrow> db \<times> policy_decision" where
  "evaluateOutboundPolicy sc now input_from recipients token wide s =
     (let from = canonicalAddress input_from; row = sender_row sc from s in
      case sender_gate row of
        Some c \<Rightarrow> (s, decide (Some c))
      | None \<Rightarrow>
         (case key_gate sc now token wide (fst (the row)) s of
            (s', Some c) \<Rightarrow> (s', decide (Some c))
          | (s', None) \<Rightarrow>
              if suppressed_recipient sc recipients s' then (s', decide (Some recipient_suppressed))
              else (s', decide (volume_gate sc now from (the row) s'))))"

section \<open>The preview\<close>

datatype preflight_code =
  pf_sender_not_registered | pf_sender_inactive | pf_sender_unverified | pf_sender_checks_passed

text \<open>The code of the preview; its \<open>ok\<close> flag is \<open>code = pf_sender_checks_passed\<close>, its message is text.\<close>

definition evaluateSenderPreflight :: "address_row option \<Rightarrow> preflight_code" where
  "evaluateSenderPreflight address =
     (case address of None \<Rightarrow> pf_sender_not_registered
      | Some a \<Rightarrow>
          if a_status a \<noteq> ''active'' then pf_sender_inactive
          else if \<not> a_verified a then pf_sender_unverified
          else pf_sender_checks_passed)"

fun preflight_policy_code :: "preflight_code \<Rightarrow> policy_code option" where
  "preflight_policy_code pf_sender_not_registered = Some sender_not_registered"
| "preflight_policy_code pf_sender_inactive = Some sender_inactive"
| "preflight_policy_code pf_sender_unverified = Some sender_unverified"
| "preflight_policy_code pf_sender_checks_passed = None"

end
