(* ===== verification/Send_Handler.thy ===== *)
theory Send_Handler
  imports Send_Request Send_Ledger Outbound_Policy
begin

text \<open>
  The handler of POST /v1/messages/send (src/server/self-hosted/service.ts) after the body
  was parsed, one step per awaited call, and \<open>classifyProviderSendError\<close> of
  src/server/self-hosted/sender.ts.  A step is a function of the program counter, the
  store and an environment that supplies the clock, a fresh row id, whether the awaited
  store call fails (before or after it took effect) and what the provider answers.  The
  provider itself is not code of the repository: its answer is part of the environment.
\<close>

section \<open>Provider errors\<close>

record provider_error =
  pe_is_error :: bool
  pe_name :: string
  pe_text :: string
  pe_metadata_code :: "int option"
  pe_status_code :: "int option"
  pe_status :: "int option"
  pe_fault :: "string option"

datatype outcome_kind = Rejected | Uncertain

record provider_outcome =
  po_kind :: outcome_kind
  po_error_name :: string
  po_detail :: string
  po_http_status :: "int option"

definition providerHttpStatus :: "provider_error \<Rightarrow> int option" where
  "providerHttpStatus e =
     (case pe_metadata_code e of Some c \<Rightarrow> Some c
      | None \<Rightarrow> (case pe_status_code e of Some c \<Rightarrow> Some c | None \<Rightarrow> pe_status e))"

definition classifyProviderSendError :: "provider_error \<Rightarrow> provider_outcome" where
  "classifyProviderSendError e =
     (let status = providerHttpStatus e;
          rejected = (case status of None \<Rightarrow> False
             | Some c \<Rightarrow> 400 \<le> c \<and> c < 500 \<and> pe_fault e \<noteq> Some ''server'')
      in \<lparr> po_kind = (if rejected then Rejected else Uncertain),
           po_error_name = (if pe_is_error e \<and> pe_name e \<noteq> [] then pe_name e else ''UnknownProviderError''),
           po_detail = take 600 (pe_text e), po_http_status = status \<rparr>)"

section \<open>Responses\<close>

text \<open>
  The JSON body of a response, one field per key; the constant \<open>provider\<close> key and the text
  of the warning are left out, and an em dash in a text is written as a hyphen.
\<close>

definition publicMessage :: "message \<Rightarrow> message" where
  "publicMessage m = m\<lparr>m_key := None, m_payload_hash := None\<rparr>"

record send_response =
  sr_status :: nat
  sr_error :: "string option"
  sr_reason :: "string option"
  sr_provider_error :: "string option"
  sr_sent :: "bool option option"
  sr_pid :: "string option"
  sr_message :: "message option"
  sr_intent :: "(string \<times> send_state) option"
  sr_retry_safe :: "bool option"
  sr_reconcile :: bool
  sr_in_progress :: bool
  sr_replay :: bool
  sr_tombstoned :: bool
  sr_warning :: bool

definition plain_response :: "nat \<Rightarrow> send_response" where
  "plain_response status = \<lparr> sr_status = status, sr_error = None, sr_reason = None, sr_provider_error = None,
     sr_sent = None, sr_pid = None, sr_message = None, sr_intent = None, sr_retry_safe = None,
     sr_reconcile = False, sr_in_progress = False, sr_replay = False, sr_tombstoned = False,
     sr_warning = False \<rparr>"

definition failure :: "nat \<Rightarrow> string \<Rightarrow> message \<Rightarrow> bool \<Rightarrow> send_response" where
  "failure status text m retry = (plain_response status)
     \<lparr>sr_error := Some text, sr_message := Some (publicMessage m), sr_retry_safe := Some retry\<rparr>"

definition internal_error :: send_response where
  "internal_error = (plain_response 500)\<lparr>sr_error := Some ''internal error''\<rparr>"

definition missingProviderProofResponse :: "message \<Rightarrow> send_response" where
  "missingProviderProofResponse m =
     (failure 409 ''the send ledger says sent but has no provider message id; reconcile provider evidence before treating it as delivered'' m False)
       \<lparr>sr_reason := Some ''provider_proof_missing'', sr_sent := Some None, sr_reconcile := True\<rparr>"

text \<open>A row that says sent: replayed with its provider id, or refused for want of one.\<close>

definition replay_response :: "message \<Rightarrow> send_response" where
  "replay_response m =
     (case m_provider_message_id m of
        Some p \<Rightarrow> if js_trim p = [] then missingProviderProofResponse m
                  else (plain_response 200)\<lparr>sr_message := Some (publicMessage m), sr_replay := True,
                          sr_sent := Some (Some True), sr_pid := Some p\<rparr>
      | None \<Rightarrow> missingProviderProofResponse m)"

definition in_progress_response :: "message \<Rightarrow> send_response" where
  "in_progress_response m = (plain_response 202)\<lparr>sr_message := Some (publicMessage m), sr_in_progress := True\<rparr>"

definition tombstoned_response :: "string \<Rightarrow> message option \<Rightarrow> send_response" where
  "tombstoned_response text m = (plain_response 409)\<lparr>sr_error := Some text, sr_tombstoned := True,
     sr_intent := map_option (\<lambda>r. (m_id r, m_send_state r)) m, sr_retry_safe := Some False\<rparr>"

section \<open>Steps\<close>

text \<open>The send lease of EMAILS_SEND_LEASE_SECONDS: \<open>None\<close> when it is not a finite number.\<close>

definition sendLeaseExpired :: "int option \<Rightarrow> message \<Rightarrow> int \<Rightarrow> bool" where
  "sendLeaseExpired configured m now =
     (let c = or_default configured 300; lease = (if 0 < c then c else 300) * 1000
      in case m_send_started_at m of None \<Rightarrow> False | Some started \<Rightarrow> lease \<le> now - started)"

datatype fault = No_fault | Fault_before | Fault_after

record env =
  ev_now :: int
  ev_fresh :: string
  ev_fault :: fault
  ev_provider :: "provider_error + string"

text \<open>A store call that may fail before it took effect, or after; a failure shows as \<open>None\<close>.\<close>

definition awaiting :: "env \<Rightarrow> (db \<Rightarrow> db \<times> 'a) \<Rightarrow> db \<Rightarrow> db \<times> 'a option" where
  "awaiting ev f s =
     (case ev_fault ev of
        No_fault \<Rightarrow> (fst (f s), Some (snd (f s)))
      | Fault_before \<Rightarrow> (s, None)
      | Fault_after \<Rightarrow> (fst (f s), None))"

datatype send_pc =
    PC_reserve
  | PC_expire message
  | PC_rearm message
  | PC_policy message
  | PC_block message policy_code string nat
  | PC_claim message
  | PC_latest message
  | PC_recover message "message option"
  | PC_send message
  | PC_rejected message provider_outcome
  | PC_unknown message provider_outcome
  | PC_complete message string
  | PC_park message string
  | PC_done send_response

record server =
  sv_scope :: scope
  sv_lease :: "int option"
  sv_provider :: string

definition reserve_input :: "server \<Rightarrow> send_request \<Rightarrow> message_input" where
  "reserve_input sv rq = \<lparr> mi_from = rq_from rq, mi_to = rq_to rq, mi_cc = Some (rq_cc rq),
     mi_subject = Some (Some (rq_subject rq)), mi_body_text = Some (rq_text rq),
     mi_body_html = Some (rq_html rq), mi_status = None, mi_provider_message_id = None,
     mi_direction = Some ''outbound'', mi_message_id = None, mi_in_reply_to = None,
     mi_received_at = None, mi_is_read = None, mi_is_starred = None, mi_labels = None,
     mi_headers = None,
     mi_attachments = Some (map (\<lambda>a. JObj [(''filename'', JStr (at_filename a)),
        (''content_type'', JStr (at_content_type a)),
        (''size'', JNum (int (length (decode64 (at_content a)))))]) (rq_attachments rq)),
     mi_source_id = None, mi_key = Some (rq_key rq),
     mi_payload_hash = Some (sendPayloadHash (sv_scope sv) (payload_json (sv_provider sv) rq)),
     mi_send_state = None, mi_send_started_at = None \<rparr>"

definition request_hash :: "server \<Rightarrow> send_request \<Rightarrow> string" where
  "request_hash sv rq = sendPayloadHash (sv_scope sv) (payload_json (sv_provider sv) rq)"

text \<open>What follows a reservation: a fresh row goes on to policy, an existing one by its state.\<close>

definition after_reserve :: "server \<Rightarrow> int \<Rightarrow> message \<Rightarrow> bool \<Rightarrow> send_pc" where
  "after_reserve sv now m created =
     (if created then PC_policy m
      else case m_send_state m of
        SS_sent \<Rightarrow> PC_done (replay_response m)
      | SS_sending \<Rightarrow> if sendLeaseExpired (sv_lease sv) m now then PC_expire m
                      else PC_done (in_progress_response m)
      | SS_blocked \<Rightarrow> PC_done ((failure 409 ''send was blocked by outbound policy'' m False)
           \<lparr>sr_reason := Some (case m_headers m ''policy_denial'' of None \<Rightarrow> ''policy_denied''
              | Some JNull \<Rightarrow> ''policy_denied'' | Some j \<Rightarrow> js_String j)\<rparr>)
      | SS_failed \<Rightarrow> PC_rearm m
      | SS_pending \<Rightarrow> PC_policy m
      | _ \<Rightarrow> PC_done (failure 409 ''send outcome is uncertain; reconcile the provider message before any retry'' m False))"

definition step_reserve :: "server \<Rightarrow> send_request \<Rightarrow> env \<Rightarrow> db \<Rightarrow> db \<times> send_pc" where
  "step_reserve sv rq ev s =
     (case awaiting ev (reserveSendIntent (sv_scope sv) (ev_now ev) (ev_fresh ev)
              (reserve_input sv rq) (rq_key rq) (request_hash sv rq)) s of
        (s', Some (Inr (m, created))) \<Rightarrow> (s', after_reserve sv (ev_now ev) m created)
      | (s', Some (Inl Idempotency_Key_Conflict)) \<Rightarrow>
          (s', PC_done ((plain_response 409)\<lparr>sr_error := Some ''idempotency key was already used for a different send payload'',
                          sr_retry_safe := Some False\<rparr>))
      | (s', Some (Inl (Send_Intent_Tombstoned m))) \<Rightarrow>
          (s', PC_done (tombstoned_response ''send intent is cancelled and cannot be sent'' m))
      | (s', _) \<Rightarrow> (s', PC_done internal_error))"

definition step_expire :: "server \<Rightarrow> env \<Rightarrow> message \<Rightarrow> db \<Rightarrow> db \<times> send_pc" where
  "step_expire sv ev m s =
     (case awaiting ev (markSendUncertain (sv_scope sv) (ev_now ev) (m_id m) None) s of
        (s', r) \<Rightarrow> (s', PC_done (failure 409
           ''send lease expired with an uncertain provider outcome; reconcile before retrying''
           (or_default (or_default r None) m) False)))"

definition step_rearm :: "server \<Rightarrow> env \<Rightarrow> message \<Rightarrow> db \<Rightarrow> db \<times> send_pc" where
  "step_rearm sv ev m s =
     (case awaiting ev (rearmFailedSendIntent (sv_scope sv) (ev_now ev) (m_id m)) s of
        (s', None) \<Rightarrow> (s', PC_done ((failure 503
           ''could not re-arm the previously rejected send intent; NOTHING was sent - retry later'' m True)
           \<lparr>sr_reason := Some ''rearm_failed'', sr_sent := Some (Some False)\<rparr>))
      | (s', Some r) \<Rightarrow>
          (let m' = or_default r m in
           (s', if m_send_state m' \<noteq> SS_pending
                then PC_done (failure 409 ''send outcome is uncertain; reconcile the provider message before any retry'' m' False)
                else PC_policy m')))"

definition step_policy :: "server \<Rightarrow> send_request \<Rightarrow> env \<Rightarrow> message \<Rightarrow> db \<Rightarrow> db \<times> send_pc" where
  "step_policy sv rq ev m s =
     (case awaiting ev (evaluateOutboundPolicy (sv_scope sv) (ev_now ev) (rq_from rq)
              (rq_to rq @ rq_cc rq @ rq_bcc rq)
              (if rq_send_key rq = [] then None else Some (rq_send_key rq)) (rq_wide rq)) s of
        (s', None) \<Rightarrow> (s', PC_done internal_error)
      | (s', Some Allowed) \<Rightarrow> (s', PC_claim m)
      | (s', Some (Denied c text status)) \<Rightarrow> (s', PC_block m c text status))"

definition step_block :: "server \<Rightarrow> env \<Rightarrow> message \<Rightarrow> policy_code \<Rightarrow> string \<Rightarrow> nat \<Rightarrow> db \<Rightarrow> db \<times> send_pc" where
  "step_block sv ev m c text status s =
     (case awaiting ev (markSendBlocked (sv_scope sv) (ev_now ev) (m_id m) c) s of
        (s', r) \<Rightarrow> (s', PC_done ((failure status text (or_default (or_default r None) m) False)
           \<lparr>sr_reason := Some (policy_code_text c)\<rparr>)))"

definition step_claim :: "server \<Rightarrow> env \<Rightarrow> message \<Rightarrow> db \<Rightarrow> db \<times> send_pc" where
  "step_claim sv ev m s =
     (case awaiting ev (claimSendIntent (sv_scope sv) (ev_now ev) (m_id m)) s of
        (s', Some (Inr (Some claimed))) \<Rightarrow> (s', PC_send claimed)
      | (s', Some (Inr None)) \<Rightarrow> (s', PC_latest m)
      | (s', _) \<Rightarrow> (s', PC_done internal_error))"

definition step_latest :: "server \<Rightarrow> env \<Rightarrow> message \<Rightarrow> db \<Rightarrow> db \<times> send_pc" where
  "step_latest sv ev m s =
     (case awaiting ev (\<lambda>s. (s, get_message (sv_scope sv) (m_id m) s)) s of
        (s', None) \<Rightarrow> (s', PC_done internal_error)
      | (s', Some latest) \<Rightarrow>
          (s', case latest of
                 Some l \<Rightarrow> if m_send_state l = SS_sent then PC_done (replay_response l)
                           else if m_send_state l = SS_cancelled
                           then PC_done (tombstoned_response ''send intent is cancelled and cannot be sent'' (Some l))
                           else PC_recover m latest
               | None \<Rightarrow> PC_recover m latest))"

definition step_recover :: "server \<Rightarrow> send_request \<Rightarrow> env \<Rightarrow> message \<Rightarrow> message option \<Rightarrow> db \<Rightarrow> db \<times> send_pc" where
  "step_recover sv rq ev m latest s =
     (case awaiting ev (lookupSendIntent (sv_scope sv) (rq_key rq)) s of
        (s', Some (Inr r)) \<Rightarrow>
          (s', PC_done (if lr_tombstoned r \<and> \<not> lr_reconciliation_required r
             then tombstoned_response ''send intent is cancelled and cannot be sent'' (lr_message r)
             else in_progress_response (or_default latest m)))
      | (s', _) \<Rightarrow> (s', PC_done internal_error))"

definition after_send :: "env \<Rightarrow> message \<Rightarrow> send_pc" where
  "after_send ev claimed =
     (case ev_provider ev of
        Inr pid \<Rightarrow> PC_complete claimed pid
      | Inl e \<Rightarrow> (let o' = classifyProviderSendError e in
          if po_kind o' = Rejected then PC_rejected claimed o' else PC_unknown claimed o'))"

definition step_rejected :: "server \<Rightarrow> env \<Rightarrow> message \<Rightarrow> provider_outcome \<Rightarrow> db \<Rightarrow> db \<times> send_pc" where
  "step_rejected sv ev m o' s =
     (case awaiting ev (markSendFailed (sv_scope sv) (ev_now ev) (m_id m) (po_error_name o')) s of
        (s', r) \<Rightarrow> (s', PC_done ((failure 422
           (''the provider rejected this message and NOTHING was sent - '' @ po_error_name o' @ '': '' @ po_detail o')
           (or_default (or_default r None) m) True)
           \<lparr>sr_reason := Some ''provider_rejected'', sr_provider_error := Some (po_error_name o'),
            sr_sent := Some (Some False)\<rparr>)))"

definition step_unknown :: "server \<Rightarrow> env \<Rightarrow> message \<Rightarrow> provider_outcome \<Rightarrow> db \<Rightarrow> db \<times> send_pc" where
  "step_unknown sv ev m o' s =
     (case awaiting ev (markSendUncertain (sv_scope sv) (ev_now ev) (m_id m) None) s of
        (s', r) \<Rightarrow> (s', PC_done ((failure 502
           (''the provider call failed without a definitive outcome ('' @ po_error_name o' @ '': '' @ po_detail o'
            @ ''); the message may or may not have been sent - reconcile the provider before retrying'')
           (or_default (or_default r None) m) False)
           \<lparr>sr_reason := Some ''provider_outcome_uncertain'', sr_provider_error := Some (po_error_name o'),
            sr_sent := Some None, sr_reconcile := True\<rparr>)))"

definition sent_response :: "message \<Rightarrow> string \<Rightarrow> send_response" where
  "sent_response m pid = (plain_response 202)\<lparr>sr_message := Some (publicMessage m), sr_sent := Some (Some True),
     sr_pid := Some pid\<rparr>"

definition step_complete :: "server \<Rightarrow> env \<Rightarrow> message \<Rightarrow> string \<Rightarrow> db \<Rightarrow> db \<times> send_pc" where
  "step_complete sv ev m pid s =
     (case awaiting ev (completeSendIntent (sv_scope sv) (ev_now ev) (m_id m) pid) s of
        (s', Some (Inr completed)) \<Rightarrow> (s', PC_done (sent_response completed pid))
      | (s', _) \<Rightarrow> (s', PC_park m pid))"

definition step_park :: "server \<Rightarrow> env \<Rightarrow> message \<Rightarrow> string \<Rightarrow> db \<Rightarrow> db \<times> send_pc" where
  "step_park sv ev m pid s =
     (case awaiting ev (markSendUncertain (sv_scope sv) (ev_now ev) (m_id m) (Some pid)) s of
        (s', r) \<Rightarrow> (s', PC_done ((sent_response (or_default (or_default r None) m) pid)
           \<lparr>sr_warning := True, sr_retry_safe := Some False\<rparr>)))"

fun send_step :: "server \<Rightarrow> send_request \<Rightarrow> env \<Rightarrow> send_pc \<Rightarrow> db \<Rightarrow> db \<times> send_pc" where
  "send_step sv rq ev PC_reserve s = step_reserve sv rq ev s"
| "send_step sv rq ev (PC_expire m) s = step_expire sv ev m s"
| "send_step sv rq ev (PC_rearm m) s = step_rearm sv ev m s"
| "send_step sv rq ev (PC_policy m) s = step_policy sv rq ev m s"
| "send_step sv rq ev (PC_block m c text st) s = step_block sv ev m c text st s"
| "send_step sv rq ev (PC_claim m) s = step_claim sv ev m s"
| "send_step sv rq ev (PC_latest m) s = step_latest sv ev m s"
| "send_step sv rq ev (PC_recover m latest) s = step_recover sv rq ev m latest s"
| "send_step sv rq ev (PC_send m) s = (s, after_send ev m)"
| "send_step sv rq ev (PC_rejected m o') s = step_rejected sv ev m o' s"
| "send_step sv rq ev (PC_unknown m o') s = step_unknown sv ev m o' s"
| "send_step sv rq ev (PC_complete m pid) s = step_complete sv ev m pid s"
| "send_step sv rq ev (PC_park m pid) s = step_park sv ev m pid s"
| "send_step sv rq ev (PC_done r) s = (s, PC_done r)"

end
