(* ===== verification/Send_Ledger_Facts.thy ===== *)
theory Send_Ledger_Facts
  imports Send_Ledger
begin

text \<open>
  Facts of the send-intent ledger: what one operation may do to the table (an abstract
  step relation every operation refines), and what holds over any sequence of
  operations of any tenants.
\<close>

section \<open>Operations as events\<close>

datatype ledger_op =
    Op_lookup units
  | Op_cancel units
  | Op_reserve message_input units string
  | Op_claim string
  | Op_complete string string
  | Op_fail string string
  | Op_rearm string
  | Op_uncertain string "string option"
  | Op_block string policy_code
  | Op_reconcile string resolution
  | Op_delete string

fun apply_op :: "scope \<Rightarrow> int \<Rightarrow> string \<Rightarrow> ledger_op \<Rightarrow> db \<Rightarrow> db" where
  "apply_op sc now fresh (Op_lookup k) s = fst (lookupSendIntent sc k s)"
| "apply_op sc now fresh (Op_cancel k) s = fst (cancelSendIntent sc now k s)"
| "apply_op sc now fresh (Op_reserve i k h) s = fst (reserveSendIntent sc now fresh i k h s)"
| "apply_op sc now fresh (Op_claim i) s = fst (claimSendIntent sc now i s)"
| "apply_op sc now fresh (Op_complete i p) s = fst (completeSendIntent sc now i p s)"
| "apply_op sc now fresh (Op_fail i r) s = fst (markSendFailed sc now i r s)"
| "apply_op sc now fresh (Op_rearm i) s = fst (rearmFailedSendIntent sc now i s)"
| "apply_op sc now fresh (Op_uncertain i p) s = fst (markSendUncertain sc now i p s)"
| "apply_op sc now fresh (Op_block i c) s = fst (markSendBlocked sc now i c s)"
| "apply_op sc now fresh (Op_reconcile i r) s = fst (reconcileUncertainSendIntent sc now i r s)"
| "apply_op sc now fresh (Op_delete i) s = fst (deleteMessage sc i s)"

section \<open>The transition graph of a send state\<close>

inductive edge :: "send_state \<Rightarrow> send_state \<Rightarrow> bool" where
  stay: "edge st st"
| claim: "edge SS_pending SS_sending"
| block: "edge SS_pending SS_blocked"
| fail: "edge SS_sending SS_failed"
| rearm: "edge SS_failed SS_pending"
| not_sent: "edge SS_uncertain SS_failed"
| park: "st \<noteq> SS_sent \<Longrightarrow> edge st SS_uncertain"
| complete: "edge st SS_sent"
| cancel: "st \<in> {SS_pending, SS_blocked, SS_failed} \<Longrightarrow> edge st SS_cancelled"

inductive_cases edge_from_sent: "edge SS_sent st"
inductive_cases edge_into_sending: "edge st SS_sending"
inductive_cases edge_into_pending: "edge st SS_pending"
inductive_simps edge_simps: "edge st st'"

section \<open>One abstract step\<close>

definition row_step :: "scope \<Rightarrow> message \<Rightarrow> message \<Rightarrow> bool" where
  "row_step sc m m' \<longleftrightarrow>
     m_id m' = m_id m \<and> m_tenant m' = m_tenant m \<and> m_key m' = m_key m
     \<and> m_payload_hash m' = m_payload_hash m
     \<and> (m_tenant m \<noteq> sc_tenant sc \<longrightarrow> m' = m)
     \<and> edge (m_send_state m) (m_send_state m')"

inductive ledger_step :: "scope \<Rightarrow> db \<Rightarrow> db \<Rightarrow> bool" for sc where
  upd: "messages s' = map g (messages s) \<Longrightarrow> (\<forall>m \<in> set (messages s). row_step sc m (g m)) \<Longrightarrow>
     set (tombstones s) \<subseteq> set (tombstones s') \<Longrightarrow>
     set (tombstones s') - set (tombstones s) \<subseteq> {sc_tenant sc} \<times> UNIV \<Longrightarrow> ledger_step sc s s'"
| ins: "messages s' = messages s @ [r] \<Longrightarrow> m_id r \<notin> m_id ` set (messages s) \<Longrightarrow>
     m_tenant r = sc_tenant sc \<Longrightarrow> m_key r = Some k \<Longrightarrow>
     (\<forall>m \<in> set (messages s). \<not> key_row sc k m) \<Longrightarrow> m_send_state r = SS_pending \<Longrightarrow>
     \<not> tombstoned sc (sendIntentKeyDigest sc k) s \<Longrightarrow>
     tombstones s' = tombstones s \<Longrightarrow> ledger_step sc s s'"
| del: "messages s' = filter keep (messages s) \<Longrightarrow>
     (\<forall>m \<in> set (messages s). \<not> keep m \<longrightarrow> m_key m = None \<and> m_tenant m = sc_tenant sc) \<Longrightarrow>
     tombstones s' = tombstones s \<Longrightarrow> ledger_step sc s s'"

lemma row_step_refl [simp]: "row_step sc m m"
  by (simp add: row_step_def edge.stay)

lemma ledger_step_refl [simp, intro]: "ledger_step sc s s"
  by (rule ledger_step.upd [where g = "\<lambda>m. m"]) auto

lemma ledger_step_update:
  assumes "\<And>m. m \<in> set (messages s) \<Longrightarrow> P m \<Longrightarrow> row_step sc m (f m)"
  shows "ledger_step sc s (fst (update_message P f s))"
  by (rule ledger_step.upd [where g = "\<lambda>m. if P m then f m else m"]) (use assms in auto)

lemma ledger_step_tombstone:
  "ledger_step sc s (s\<lparr>tombstones := List.insert (sc_tenant sc, d) (tombstones s)\<rparr>)"
  by (rule ledger_step.upd [where g = "\<lambda>m. m"]) auto

lemma ledger_step_tombstone_update:
  assumes "\<And>m. m \<in> set (messages s) \<Longrightarrow> P m \<Longrightarrow> row_step sc m (f m)"
  shows "ledger_step sc s
    (fst (update_message P f (s\<lparr>tombstones := List.insert (sc_tenant sc, d) (tombstones s)\<rparr>)))"
  by (rule ledger_step.upd [where g = "\<lambda>m. if P m then f m else m"]) (use assms in auto)

lemma atomically_step:
  assumes "ledger_step sc s (fst (f s))"
  shows "ledger_step sc s (fst (atomically sc f s))"
  using assms by (auto simp: atomically_def transaction_def split: prod.splits sum.splits)

lemma key_lock_step:
  assumes "\<And>d. d = sendIntentKeyDigest sc k \<Longrightarrow> ledger_step sc s (fst (f d s))"
  shows "ledger_step sc s (fst (withSendIntentKeyLock sc k f s))"
  using assms by (auto simp: withSendIntentKeyLock_def intro: atomically_step)

section \<open>Every operation is such a step\<close>

lemma row_step_writers:
  "row_at sc i SS_pending m \<Longrightarrow> row_step sc m (set_sending now m)"
  "m_tenant m = sc_tenant sc \<Longrightarrow> row_step sc m (set_sent now p m)"
  "row_at sc i SS_sending m \<Longrightarrow> row_step sc m (set_failed now r m)"
  "row_at sc i SS_failed m \<Longrightarrow> row_step sc m (set_rearmed now m)"
  "m_tenant m = sc_tenant sc \<Longrightarrow> m_send_state m \<noteq> SS_sent \<Longrightarrow> row_step sc m (set_uncertain now e m)"
  "row_at sc i SS_pending m \<Longrightarrow> row_step sc m (set_blocked now c m)"
  "row_at sc i SS_uncertain m \<Longrightarrow> row_step sc m (set_reconciled_sent now p ev w m)"
  "row_at sc i SS_uncertain m \<Longrightarrow> row_step sc m (set_reconciled_not_sent now ev w m)"
  "m_tenant m = sc_tenant sc \<Longrightarrow> m_send_state m \<in> {SS_pending, SS_blocked, SS_failed}
     \<Longrightarrow> row_step sc m (set_cancelled now m)"
  by (auto simp: row_step_def row_writers intro: edge.intros)

lemma cancel_row_step:
  "ledger_step sc s (fst (cancel_row sc now m (s\<lparr>tombstones := List.insert (sc_tenant sc, d) (tombstones s)\<rparr>)))"
proof -
  let ?P = "\<lambda>r. m_id r = m_id m \<and> m_tenant r = sc_tenant sc
      \<and> m_send_state r \<in> {SS_pending, SS_blocked, SS_failed}"
  have "ledger_step sc s (fst (update_message ?P (set_cancelled now)
      (s\<lparr>tombstones := List.insert (sc_tenant sc, d) (tombstones s)\<rparr>)))"
    by (rule ledger_step_tombstone_update) (blast intro: row_step_writers(9))
  then show ?thesis
    by (simp add: cancel_row_def case_prod_beta ledger_step_tombstone)
qed

lemma cancel_step: "ledger_step sc s (fst (cancelSendIntent sc now k s))"
  unfolding cancelSendIntent_def
  by (rule key_lock_step)
    (simp add: cancel_action_def Let_def case_prod_beta ledger_step_tombstone cancel_row_step
       split: option.split)

lemma reserve_step:
  assumes "fresh \<notin> m_id ` set (messages s)"
  shows "ledger_step sc s (fst (reserveSendIntent sc now fresh i k h s))"
  unfolding reserveSendIntent_def
proof (rule key_lock_step)
  fix d assume d: "d = sendIntentKeyDigest sc k"
  let ?r = "reserve_row sc now fresh i k h"
  have r: "m_id ?r = fresh" "m_tenant ?r = sc_tenant sc" "m_key ?r = Some k"
      "m_send_state ?r = SS_pending"
    by (simp_all add: reserve_row_def message_of_input_def or_default_def)
  have ins: "ledger_step sc s (s\<lparr>messages := messages s @ [?r]\<rparr>)"
    if "\<not> tombstoned sc d s" "getSendIntentByIdempotencyKey sc k s = None"
    by (rule ledger_step.ins [where r = ?r and k = k])
      (use assms that d r in \<open>simp_all add: getSendIntentByIdempotencyKey_def find_None_iff_all\<close>)
  then show "ledger_step sc s (fst (reserve_action sc now fresh i k h d s))"
    by (simp add: reserve_action_def Let_def split: option.split)
qed

lemma claim_step: "ledger_step sc s (fst (claimSendIntent sc now i s))"
  unfolding claimSendIntent_def
proof (rule atomically_step)
  have "ledger_step sc s (fst (update_message (row_at sc i SS_pending) (set_sending now) s))"
    by (rule ledger_step_update) (blast intro: row_step_writers(1))
  then show "ledger_step sc s (fst (claim_action sc now i s))"
    by (simp add: claim_action_def case_prod_beta split: option.split)
qed

lemma reconcile_step: "ledger_step sc s (fst (reconcileUncertainSendIntent sc now i r s))"
proof -
  have u: "ledger_step sc s (fst (update_message (row_at sc i SS_uncertain) f s))"
    if "\<And>m. row_at sc i SS_uncertain m \<Longrightarrow> row_step sc m (f m)" for f
    by (rule ledger_step_update) (use that in blast)
  show ?thesis
    unfolding reconcileUncertainSendIntent_def Let_def
    by (simp add: case_prod_beta u [OF row_step_writers(7)] u [OF row_step_writers(8)])
qed

lemma delete_step: "ledger_step sc s (fst (deleteMessage sc i s))"
proof -
  let ?gone = "\<lambda>m. m_id m = i \<and> m_tenant m = sc_tenant sc \<and> m_key m = None"
  have "ledger_step sc s (s\<lparr>messages := filter (\<lambda>m. \<not> ?gone m) (messages s)\<rparr>)"
    by (rule ledger_step.del [where keep = "\<lambda>m. \<not> ?gone m"]) simp_all
  then show ?thesis
    unfolding deleteMessage_def Let_def by (simp split: option.split)
qed

lemma apply_op_step:
  assumes "fresh \<notin> m_id ` set (messages s)"
  shows "ledger_step sc s (apply_op sc now fresh op s)"
proof (cases op)
  case (Op_lookup k)
  then show ?thesis
    by (simp add: lookupSendIntent_def Let_def key_lock_step)
next
  case (Op_complete i p)
  have "ledger_step sc s
      (fst (update_message (\<lambda>m. m_id m = i \<and> m_tenant m = sc_tenant sc) (set_sent now p) s))"
    by (rule ledger_step_update) (blast intro: row_step_writers(2))
  with Op_complete show ?thesis
    by (auto simp: completeSendIntent_def split: prod.splits option.splits)
next
  case (Op_uncertain i p)
  show ?thesis unfolding Op_uncertain apply_op.simps markSendUncertain_def
    by (rule ledger_step_update) (blast intro: row_step_writers(5))
next
  case (Op_fail i r)
  show ?thesis unfolding Op_fail apply_op.simps markSendFailed_def
    by (rule ledger_step_update) (rule row_step_writers(3))
next
  case (Op_rearm i)
  show ?thesis unfolding Op_rearm apply_op.simps rearmFailedSendIntent_def
    by (rule ledger_step_update) (rule row_step_writers(4))
next
  case (Op_block i c)
  show ?thesis unfolding Op_block apply_op.simps markSendBlocked_def
    by (rule ledger_step_update) (rule row_step_writers(6))
qed (use assms in \<open>simp_all add: cancel_step reserve_step claim_step reconcile_step delete_step\<close>)

section \<open>Sequences of operations\<close>

text \<open>An event: the scope that runs it, its instant, the id it may mint, the operation.\<close>

type_synonym ledger_event = "scope \<times> int \<times> string \<times> ledger_op"

fun run_ops :: "ledger_event list \<Rightarrow> db \<Rightarrow> db" where
  "run_ops [] s = s"
| "run_ops ((sc, now, fresh, op) # es) s = run_ops es (apply_op sc now fresh op s)"

text \<open>\<open>randomUUID()\<close> mints an id no row has.\<close>

fun fresh_ids :: "ledger_event list \<Rightarrow> db \<Rightarrow> bool" where
  "fresh_ids [] s = True"
| "fresh_ids ((sc, now, fresh, op) # es) s =
     (fresh \<notin> m_id ` set (messages s) \<and> fresh_ids es (apply_op sc now fresh op s))"

lemma run_ops_invariant:
  assumes step: "\<And>sc s s'. ledger_step sc s s' \<Longrightarrow> sc \<in> fst ` set es \<Longrightarrow> I s \<Longrightarrow> I s'"
    and "fresh_ids es s" "I s"
  shows "I (run_ops es s)"
proof -
  have "fresh_ids xs s \<Longrightarrow> I s \<Longrightarrow> set xs \<subseteq> set es \<Longrightarrow> I (run_ops xs s)" for xs
  proof (induction xs s rule: run_ops.induct)
    case (2 sc now fresh op xs s)
    have "ledger_step sc s (apply_op sc now fresh op s)"
      using "2.prems"(1) by (intro apply_op_step) simp
    then have "I (apply_op sc now fresh op s)"
      using step "2.prems"(2,3) by force
    with 2 show ?case by simp
  qed simp
  with assms(2,3) show ?thesis by blast
qed

lemma ledger_step_schema: "ledger_step sc s s' \<Longrightarrow> schema_ok s \<Longrightarrow> schema_ok s'"
proof (induction rule: ledger_step.induct)
  case (upd s' g s)
  let ?K = "\<lambda>m. m_key m \<noteq> None"
  have g: "m_id (g m) = m_id m" "m_tenant (g m) = m_tenant m" "m_key (g m) = m_key m"
    if "m \<in> set (messages s)" for m
    using upd(2) that by (auto simp: row_step_def)
  have "map m_id (messages s') = map m_id (messages s)"
    using g upd(1) by simp
  moreover have "filter ?K (map g ms) = map g (filter ?K ms)" if "set ms \<subseteq> set (messages s)" for ms
    using that g by (induction ms) auto
  then have "map (\<lambda>m. (m_tenant m, m_key m)) (filter ?K (messages s'))
      = map (\<lambda>m. (m_tenant m, m_key m)) (filter ?K (messages s))"
    using g upd(1) by (simp add: comp_def)
  ultimately show ?case
    using upd.prems by (simp add: schema_ok_def ids_unique_def keys_unique_def)
next
  case (ins s' s r k)
  then show ?case
    by (auto simp: schema_ok_def ids_unique_def keys_unique_def)
next
  case (del s' keep s)
  have "filter (\<lambda>m. m_key m \<noteq> None) (filter keep (messages s))
      = filter keep (filter (\<lambda>m. m_key m \<noteq> None) (messages s))"
    unfolding filter_filter by (rule filter_cong) auto
  then show ?case
    using del by (simp only: schema_ok_def ids_unique_def keys_unique_def distinct_map_filter)
qed

section \<open>What one step keeps of a fenced row and of another tenant\<close>

lemma ledger_step_keyed_row:
  assumes "ledger_step sc s s'" "m \<in> set (messages s)" "m_key m \<noteq> None"
  shows "\<exists>m' \<in> set (messages s'). m_id m' = m_id m \<and> m_tenant m' = m_tenant m \<and> m_key m' = m_key m
     \<and> m_payload_hash m' = m_payload_hash m \<and> edge (m_send_state m) (m_send_state m')"
  using assms
proof (cases rule: ledger_step.cases)
  case (upd g)
  then have "g m \<in> set (messages s')" "row_step sc m (g m)" using assms(2) by auto
  then show ?thesis by (auto simp: row_step_def)
next
  case (ins r k)
  then show ?thesis using assms(2) edge.stay by (intro bexI [of _ m]) auto
next
  case (del keep)
  then show ?thesis using assms(2,3) edge.stay by (intro bexI [of _ m]) auto
qed

lemma ledger_step_tombstones: "ledger_step sc s s' \<Longrightarrow> set (tombstones s) \<subseteq> set (tombstones s')"
  by (induction rule: ledger_step.induct) auto

lemma ledger_step_other_tenant:
  assumes "ledger_step sc s s'" "sc_tenant sc \<noteq> t"
  shows "filter (\<lambda>m. m_tenant m = t) (messages s') = filter (\<lambda>m. m_tenant m = t) (messages s)
     \<and> (\<forall>d. (t, d) \<in> set (tombstones s') \<longleftrightarrow> (t, d) \<in> set (tombstones s))"
  using assms(1)
proof (cases rule: ledger_step.cases)
  case (upd g)
  have "filter (\<lambda>m. m_tenant m = t) (map g ms) = filter (\<lambda>m. m_tenant m = t) ms"
    if "set ms \<subseteq> set (messages s)" for ms
    using that upd(2) assms(2) by (induction ms) (auto simp: row_step_def)
  then show ?thesis using upd assms(2) by auto
next
  case (ins r k)
  then show ?thesis using assms(2) by simp
next
  case (del keep)
  have "filter (\<lambda>m. m_tenant m = t) (filter keep (messages s)) = filter (\<lambda>m. m_tenant m = t) (messages s)"
    unfolding filter_filter by (rule filter_cong) (use del(2) assms(2) in auto)
  then show ?thesis using del by simp
qed

section \<open>What an operation answers\<close>

lemma update_message_returns:
  assumes "update_message P f s = (s', r)"
  shows "r = map_option f (find P (messages s))"
  using assms by (simp add: update_message_def sql_update_def)

lemma claim_returns_row:
  assumes "claimSendIntent sc now i s = (s', Inr (Some r))"
  obtains m key where "find (row_at sc i SS_pending) (messages s) = Some m" "m_key m = Some key"
    "key \<noteq> []" "\<not> tombstoned sc (sendIntentKeyDigest sc key) s" "r = set_sending now m"
    "s' = fst (update_message (row_at sc i SS_pending) (set_sending now) s)"
proof -
  have a: "claim_action sc now i s = (s', Inr (Some r))"
    using assms by (auto simp: claimSendIntent_def atomically_def transaction_def
        split: if_splits prod.splits sum.splits)
  obtain m where m: "find (row_at sc i SS_pending) (messages s) = Some m"
    using a by (auto simp: claim_action_def split: option.splits)
  obtain key where key: "m_key m = Some key"
    using a m by (auto simp: claim_action_def split: option.splits)
  show ?thesis
    using a m key that
    by (auto simp: claim_action_def split: if_splits prod.splits dest: update_message_returns)
qed

lemma reserve_cases:
  assumes "reserveSendIntent sc now fresh i k h s = (s', Inr (r, c))"
  obtains (created) "c" "getSendIntentByIdempotencyKey sc k s = None"
      "r = reserve_row sc now fresh i k h" "s' = s\<lparr>messages := messages s @ [r]\<rparr>"
      "\<not> tombstoned sc (sendIntentKeyDigest sc k) s"
    | (replay) "\<not> c" "getSendIntentByIdempotencyKey sc k s = Some r" "s' = s"
      "m_payload_hash r = Some h" "m_send_state r \<noteq> SS_cancelled"
      "\<not> tombstoned sc (sendIntentKeyDigest sc k) s"
proof -
  have "reserve_action sc now fresh i k h (sendIntentKeyDigest sc k) s = (s', Inr (r, c))"
    using assms by (auto simp: reserveSendIntent_def lock_defs
        split: if_splits prod.splits sum.splits)
  then show ?thesis
    using that by (auto simp: reserve_action_def Let_def split: if_splits option.splits)
qed

lemma key_lookup_SomeD:
  "getSendIntentByIdempotencyKey sc k s = Some m \<Longrightarrow>
     m \<in> set (messages s) \<and> m_key m = Some k \<and> m_tenant m = sc_tenant sc"
  by (auto simp: getSendIntentByIdempotencyKey_def dest!: find_SomeD)

lemma key_lookup_exists:
  "m \<in> set (messages s) \<Longrightarrow> key_row sc k m \<Longrightarrow> getSendIntentByIdempotencyKey sc k s \<noteq> None"
  by (auto simp: getSendIntentByIdempotencyKey_def find_None_iff)

lemma key_row_unique:
  assumes "schema_ok s" "m \<in> set (messages s)" "m' \<in> set (messages s)"
    "m_tenant m = m_tenant m'" "m_key m = Some k" "m_key m' = Some k"
  shows "m = m'"
proof -
  have "inj_on (\<lambda>m. (m_tenant m, m_key m)) (set (filter (\<lambda>m. m_key m \<noteq> None) (messages s)))"
    using assms(1) by (simp add: schema_ok_def keys_unique_def distinct_map)
  then show ?thesis
    using assms by (auto dest: inj_onD)
qed

section \<open>Properties of the ledger\<close>

text \<open>
  No sequence of ledger operations, of whatever tenants, breaks the schema: message
  ids stay unique and so does every (tenant, idempotency key) pair, so a key names at
  most one intent of a tenant.
\<close>

theorem ledger_schema_invariant:
  assumes "schema_ok s" "fresh_ids es s"
  shows "schema_ok (run_ops es s)"
  using assms(1) by (rule run_ops_invariant [OF _ assms(2), rotated]) (rule ledger_step_schema)

text \<open>
  Tenant isolation: a sequence of operations run under the scopes of other tenants
  leaves every message row and every tombstone of tenant \<open>t\<close> exactly as it was.
\<close>

theorem ledger_tenant_isolation:
  assumes "fresh_ids es s" "t \<notin> sc_tenant ` fst ` set es"
  shows "filter (\<lambda>m. m_tenant m = t) (messages (run_ops es s))
           = filter (\<lambda>m. m_tenant m = t) (messages s)
       \<and> (\<forall>d. (t, d) \<in> set (tombstones (run_ops es s)) \<longleftrightarrow> (t, d) \<in> set (tombstones s))"
proof (rule run_ops_invariant [OF _ assms(1)])
  fix sc a b
  assume "ledger_step sc a b" "sc \<in> fst ` set es"
    and I: "filter (\<lambda>m. m_tenant m = t) (messages a) = filter (\<lambda>m. m_tenant m = t) (messages s)
      \<and> (\<forall>d. (t, d) \<in> set (tombstones a) \<longleftrightarrow> (t, d) \<in> set (tombstones s))"
  moreover from \<open>sc \<in> fst ` set es\<close> have "sc_tenant sc \<noteq> t" using assms(2) by blast
  ultimately show "filter (\<lambda>m. m_tenant m = t) (messages b) = filter (\<lambda>m. m_tenant m = t) (messages s)
      \<and> (\<forall>d. (t, d) \<in> set (tombstones b) \<longleftrightarrow> (t, d) \<in> set (tombstones s))"
    using ledger_step_other_tenant by metis
qed simp

text \<open>
  A recorded send is final: once a fenced row says \<open>sent\<close>, it is still there and still
  says \<open>sent\<close> after any sequence of operations, with the same key and payload hash.
\<close>

theorem sent_is_final:
  assumes "fresh_ids es s" "m \<in> set (messages s)" "m_key m \<noteq> None" "m_send_state m = SS_sent"
  shows "\<exists>m' \<in> set (messages (run_ops es s)). m_id m' = m_id m \<and> m_tenant m' = m_tenant m
     \<and> m_key m' = m_key m \<and> m_payload_hash m' = m_payload_hash m \<and> m_send_state m' = SS_sent"
    (is "?I (run_ops es s)")
proof (rule run_ops_invariant [OF _ assms(1)])
  fix sc a b
  assume st: "ledger_step sc a b" and "?I a"
  then obtain r where r: "r \<in> set (messages a)" "m_id r = m_id m" "m_tenant r = m_tenant m"
      "m_key r = m_key m" "m_payload_hash r = m_payload_hash m" "m_send_state r = SS_sent"
    by blast
  from ledger_step_keyed_row [OF st r(1)] r assms(3) edge_from_sent show "?I b" by metis
qed (use assms in blast)

text \<open>
  The idempotency fence is durable.  After a reservation of key \<open>k\<close> succeeded, no
  later reservation of \<open>k\<close> by the tenant, after any operations in between, creates a second
  intent: it answers the same message id and only for the same payload hash.
\<close>

theorem reservation_fence:
  assumes first: "reserveSendIntent sc now fresh i k h s = (s1, Inr (r, c))"
    and wf: "schema_ok s" "fresh \<notin> m_id ` set (messages s)" "fresh_ids es s1"
    and again: "reserveSendIntent sc now' fresh' i' k h' (run_ops es s1) = (s2, Inr (r', c'))"
  shows "\<not> c' \<and> m_id r' = m_id r \<and> h' = h"
proof -
  let ?I = "\<lambda>a. schema_ok a \<and> (\<exists>m \<in> set (messages a). m_id m = m_id r \<and> m_tenant m = sc_tenant sc
      \<and> m_key m = Some k \<and> m_payload_hash m = Some h)"
  from first have "?I s1"
  proof (cases rule: reserve_cases)
    case created
    have "ledger_step sc s s1"
      using reserve_step [OF wf(2)] first by (metis fst_conv)
    then show ?thesis
      using created wf(1) by (auto intro: ledger_step_schema
          simp: reserve_row_def message_of_input_def or_default_def)
  next
    case replay
    then show ?thesis using key_lookup_SomeD wf(1) by fastforce
  qed
  then have "?I (run_ops es s1)"
  proof (rule run_ops_invariant [OF _ wf(3), rotated])
    fix x a b assume st: "ledger_step x a b" and "?I a"
    then obtain m where m: "schema_ok a" "m \<in> set (messages a)" "m_id m = m_id r"
        "m_tenant m = sc_tenant sc" "m_key m = Some k" "m_payload_hash m = Some h" by blast
    from ledger_step_keyed_row [OF st m(2)] m ledger_step_schema [OF st m(1)]
    show "?I b" by fastforce
  qed
  then obtain m where m: "schema_ok (run_ops es s1)" "m \<in> set (messages (run_ops es s1))"
      "m_id m = m_id r" "key_row sc k m" "m_payload_hash m = Some h" by blast
  from again show ?thesis
  proof (cases rule: reserve_cases)
    case created
    with key_lookup_exists [OF m(2,4)] show ?thesis by simp
  next
    case replay
    then have "r' = m"
      using key_lookup_SomeD key_row_unique [OF m(1)] m(2,4) by (metis (no_types, lifting))
    with replay m show ?thesis by simp
  qed
qed

text \<open>
  C19. Cancellation stops the send before it happens.  Once \<open>cancelSendIntent\<close> has returned
  for key \<open>k\<close>, then after any further operations every reservation of \<open>k\<close> by that tenant is
  refused and no claim ever hands out an intent of that key again.
\<close>

theorem cancelled_key_never_claimed:
  assumes "cancelSendIntent sc now k s = (s1, Inr res)" "fresh_ids es s1"
  shows "(\<nexists>r c. snd (reserveSendIntent sc now' fresh i k h (run_ops es s1)) = Inr (r, c))
    \<and> (\<nexists>r. snd (claimSendIntent sc now' j (run_ops es s1)) = Inr (Some r) \<and> m_key r = Some k)"
proof -
  let ?d = "sendIntentKeyDigest sc k"
  have "cancel_action sc now k ?d s = (s1, Inr res)"
    using assms(1) by (auto simp: cancelSendIntent_def lock_defs
        split: if_splits prod.splits sum.splits)
  then have "tombstoned sc ?d s1"
    by (auto simp: cancel_action_def cancel_row_def Let_def tombstoned_def update_message_def
        split: option.splits if_splits prod.splits)
  then have t: "tombstoned sc ?d (run_ops es s1)"
    by (rule run_ops_invariant [OF _ assms(2), rotated])
      (auto simp: tombstoned_def dest: ledger_step_tombstones)
  have "\<nexists>r c. snd (reserveSendIntent sc now' fresh i k h (run_ops es s1)) = Inr (r, c)"
    using t by (metis reserve_cases prod.collapse)
  moreover have "\<nexists>r. snd (claimSendIntent sc now' j (run_ops es s1)) = Inr (Some r) \<and> m_key r = Some k"
  proof clarify
    fix r
    assume "snd (claimSendIntent sc now' j (run_ops es s1)) = Inr (Some r)" "m_key r = Some k"
    then obtain m key where "m_key m = Some key" "r = set_sending now' m"
        "\<not> tombstoned sc (sendIntentKeyDigest sc key) (run_ops es s1)"
      by (metis claim_returns_row prod.collapse)
    with t \<open>m_key r = Some k\<close> show False by (simp add: set_sending_def)
  qed
  ultimately show ?thesis by blast
qed

section \<open>Concrete data for the witnesses\<close>

definition demo_scope :: "string \<Rightarrow> scope" where
  "demo_scope t = \<lparr> sc_tenant = t, sc_atomic = True, sc_unsafe = False, sc_sha256 = map char_of \<rparr>"

definition demo_input :: message_input where
  "demo_input = \<lparr> mi_from = ''a@x.io'', mi_to = [''b@y.io''], mi_cc = None, mi_subject = Some (Some ''hi''),
     mi_body_text = None, mi_body_html = None, mi_status = None, mi_provider_message_id = None,
     mi_direction = None, mi_message_id = None, mi_in_reply_to = None, mi_received_at = None,
     mi_is_read = None, mi_is_starred = None, mi_labels = None, mi_headers = None,
     mi_attachments = None, mi_source_id = None, mi_key = None, mi_payload_hash = None,
     mi_send_state = None, mi_send_started_at = None \<rparr>"

abbreviation "demo_key \<equiv> units_of ''k1''"

definition demo_row :: "send_state \<Rightarrow> message" where
  "demo_row st = (reserve_row (demo_scope ''t1'') 0 ''m1'' demo_input demo_key ''h'')
     \<lparr>m_send_state := st\<rparr>"

definition demo_db :: "send_state \<Rightarrow> db" where
  "demo_db st = empty_db\<lparr>messages := [demo_row st]\<rparr>"

lemmas demo_defs = demo_scope_def demo_input_def demo_row_def demo_db_def empty_db_def

lemmas ledger_eval = reserveSendIntent_def reserve_action_def claimSendIntent_def claim_action_def
  cancelSendIntent_def cancel_action_def cancel_row_def cancel_report_def
  completeSendIntent_def markSendFailed_def markSendUncertain_def rearmFailedSendIntent_def
  lock_defs safe_send_intent_key_def trim_by_def is_ws_unit_def
  tombstoned_def getSendIntentByIdempotencyKey_def update_message_def sql_update_def
  reserve_row_def message_of_input_def or_default_def row_writers

lemma ledger_schema_invariant_witness:
  "schema_ok (run_ops [(demo_scope ''t1'', 1, ''m2'', Op_reserve demo_input demo_key ''h''),
     (demo_scope ''t1'', 2, ''m3'', Op_claim ''m2'')] empty_db)"
  by (rule ledger_schema_invariant)
    (simp_all add: demo_defs ledger_eval schema_ok_def ids_unique_def keys_unique_def)

lemma ledger_tenant_isolation_witness:
  "filter (\<lambda>m. m_tenant m = ''t1'') (messages (run_ops
     [(demo_scope ''t2'', 1, ''m2'', Op_cancel demo_key), (demo_scope ''t2'', 1, ''m2'', Op_claim ''m1'')]
     (demo_db SS_pending))) = filter (\<lambda>m. m_tenant m = ''t1'') (messages (demo_db SS_pending))"
  by (rule ledger_tenant_isolation [THEN conjunct1])
    (simp_all add: demo_defs ledger_eval)

lemma sent_is_final_witness:
  "\<exists>m' \<in> set (messages (run_ops [(demo_scope ''t1'', 1, ''m2'', Op_uncertain ''m1'' None),
      (demo_scope ''t1'', 2, ''m2'', Op_cancel demo_key)] (demo_db SS_sent))).
     m_id m' = ''m1'' \<and> m_send_state m' = SS_sent"
  using sent_is_final [of "[(demo_scope ''t1'', 1, ''m2'', Op_uncertain ''m1'' None),
      (demo_scope ''t1'', 2, ''m2'', Op_cancel demo_key)]" "demo_db SS_sent" "demo_row SS_sent"]
  by (auto simp: demo_defs ledger_eval)

lemma reservation_fence_witness:
  "\<exists>s1 s2 r r'. reserveSendIntent (demo_scope ''t1'') 0 ''m1'' demo_input demo_key ''h'' empty_db = (s1, Inr (r, True))
     \<and> reserveSendIntent (demo_scope ''t1'') 9 ''m9'' demo_input demo_key ''h''
         (run_ops [(demo_scope ''t1'', 1, ''m2'', Op_claim ''m1'')] s1) = (s2, Inr (r', False))
     \<and> m_id r' = m_id r"
proof -
  define s1 where "s1 = fst (reserveSendIntent (demo_scope ''t1'') 0 ''m1'' demo_input demo_key ''h'' empty_db)"
  have first: "reserveSendIntent (demo_scope ''t1'') 0 ''m1'' demo_input demo_key ''h'' empty_db
      = (s1, Inr (demo_row SS_pending, True))"
    by (simp add: s1_def demo_defs ledger_eval)
  have "returns (reserveSendIntent (demo_scope ''t1'') 9 ''m9'' demo_input demo_key ''h''
      (run_ops [(demo_scope ''t1'', 1, ''m2'', Op_claim ''m1'')] s1))"
    by (simp add: returns_def s1_def demo_defs ledger_eval)
  then obtain s2 r' c' where a: "reserveSendIntent (demo_scope ''t1'') 9 ''m9'' demo_input demo_key ''h''
      (run_ops [(demo_scope ''t1'', 1, ''m2'', Op_claim ''m1'')] s1) = (s2, Inr (r', c'))"
    using returns_obtain by (metis prod.collapse)
  have "\<not> c' \<and> m_id r' = m_id (demo_row SS_pending) \<and> ''h'' = ''h''"
    by (rule reservation_fence [OF first _ _ _ a])
      (simp_all add: s1_def demo_defs ledger_eval schema_ok_def ids_unique_def keys_unique_def)
  then have "c' = False" "m_id r' = m_id (demo_row SS_pending)" by simp_all
  then show ?thesis using first a by metis
qed

lemma cancelled_key_never_claimed_witness:
  "\<exists>s1 res. cancelSendIntent (demo_scope ''t1'') 1 demo_key (demo_db SS_pending) = (s1, Inr res)
     \<and> (\<nexists>r. snd (claimSendIntent (demo_scope ''t1'') 3 ''m1''
           (run_ops [(demo_scope ''t1'', 2, ''m2'', Op_rearm ''m1'')] s1)) = Inr (Some r)
           \<and> m_key r = Some demo_key)"
proof -
  define s1 where "s1 = fst (cancelSendIntent (demo_scope ''t1'') 1 demo_key (demo_db SS_pending))"
  have "returns (cancelSendIntent (demo_scope ''t1'') 1 demo_key (demo_db SS_pending))"
    by (simp add: returns_def demo_defs ledger_eval)
  then obtain res where
    c: "cancelSendIntent (demo_scope ''t1'') 1 demo_key (demo_db SS_pending) = (s1, Inr res)"
    using returns_obtain s1_def by blast
  have f: "fresh_ids [(demo_scope ''t1'', 2, ''m2'', Op_rearm ''m1'')] s1"
    by (simp add: s1_def demo_defs ledger_eval)
  from cancelled_key_never_claimed [OF c f] c show ?thesis by blast
qed

section \<open>One claim per arming\<close>

definition not_pending :: "string \<Rightarrow> db \<Rightarrow> bool" where
  "not_pending i s \<longleftrightarrow> (\<forall>m \<in> set (messages s). m_id m = i \<longrightarrow> m_send_state m \<noteq> SS_pending)"

lemma not_pending_update:
  assumes "\<And>m. m_id m = i \<Longrightarrow> P m \<Longrightarrow> m_send_state (f m) \<noteq> SS_pending" "\<And>m. m_id (f m) = m_id m"
    and "not_pending i s"
  shows "not_pending i (fst (update_message P f s))"
  using assms by (auto simp: not_pending_def)

lemma not_pending_atomically:
  "not_pending i s \<Longrightarrow> not_pending i (fst (f s)) \<Longrightarrow> not_pending i (fst (atomically sc f s))"
  by (auto simp: atomically_def transaction_def split: prod.splits sum.splits)

lemma not_pending_key_lock:
  "not_pending i s \<Longrightarrow> (\<And>d. not_pending i (fst (f d s))) \<Longrightarrow>
     not_pending i (fst (withSendIntentKeyLock sc k f s))"
  by (simp add: withSendIntentKeyLock_def not_pending_atomically)

lemma not_pending_tombstones [simp]: "not_pending i (s\<lparr>tombstones := t\<rparr>) = not_pending i s"
  by (simp add: not_pending_def)

lemma writers_not_pending [simp]:
  "m_send_state (set_cancelled now m) \<noteq> SS_pending" "m_send_state (set_sending now m) \<noteq> SS_pending"
  "m_send_state (set_sent now p m) \<noteq> SS_pending" "m_send_state (set_failed now r m) \<noteq> SS_pending"
  "m_send_state (set_uncertain now e m) \<noteq> SS_pending" "m_send_state (set_blocked now c m) \<noteq> SS_pending"
  "m_send_state (set_reconciled_sent now p ev w m) \<noteq> SS_pending"
  "m_send_state (set_reconciled_not_sent now ev w m) \<noteq> SS_pending"
  by (simp_all add: row_writers)

lemma writers_id [simp]:
  "m_id (set_cancelled now m) = m_id m" "m_id (set_sending now m) = m_id m"
  "m_id (set_sent now p m) = m_id m" "m_id (set_failed now r m) = m_id m"
  "m_id (set_rearmed now m) = m_id m"
  "m_id (set_uncertain now e m) = m_id m" "m_id (set_blocked now c m) = m_id m"
  "m_id (set_reconciled_sent now p ev w m) = m_id m"
  "m_id (set_reconciled_not_sent now ev w m) = m_id m"
  by (simp_all add: row_writers)

lemma not_pending_apply_op:
  assumes "not_pending i s" "op \<noteq> Op_rearm i" "fresh \<noteq> i"
  shows "not_pending i (apply_op sc now fresh op s)"
proof (cases op)
  case (Op_cancel k)
  have "not_pending i (fst (cancel_action sc now k d s))" for d
    using assms(1)
    by (simp add: cancel_action_def cancel_row_def Let_def case_prod_beta not_pending_update
        split: option.split)
  with assms(1) Op_cancel show ?thesis
    by (simp add: cancelSendIntent_def not_pending_key_lock)
next
  case (Op_reserve inp k h)
  have "not_pending i (fst (reserve_action sc now fresh inp k h d s))" for d
    using assms(1,3)
    by (auto simp: reserve_action_def Let_def not_pending_def reserve_row_def message_of_input_def
        split: option.split)
  with assms(1) Op_reserve show ?thesis
    by (simp add: reserveSendIntent_def not_pending_key_lock)
next
  case (Op_claim j)
  have "not_pending i (fst (claim_action sc now j s))"
    using assms(1) by (simp add: claim_action_def case_prod_beta not_pending_update split: option.split)
  with assms(1) Op_claim show ?thesis
    by (simp add: claimSendIntent_def not_pending_atomically)
next
  case (Op_complete j p)
  have "fst (completeSendIntent sc now j p s)
      = fst (update_message (\<lambda>m. m_id m = j \<and> m_tenant m = sc_tenant sc) (set_sent now p) s)"
    by (simp add: completeSendIntent_def split: prod.split option.split)
  with assms(1) Op_complete show ?thesis by (simp add: not_pending_update)
next
  case (Op_rearm j)
  then have "j \<noteq> i" using assms(2) by blast
  show ?thesis unfolding Op_rearm apply_op.simps rearmFailedSendIntent_def
    by (rule not_pending_update) (use assms(1) \<open>j \<noteq> i\<close> in auto)
next
  case (Op_delete j)
  with assms(1) show ?thesis
    by (auto simp: deleteMessage_def Let_def not_pending_def split: option.splits)
qed (use assms(1) in \<open>simp_all add: lookupSendIntent_def not_pending_key_lock Let_def
      markSendFailed_def markSendUncertain_def markSendBlocked_def
      reconcileUncertainSendIntent_def case_prod_beta not_pending_update\<close>)

text \<open>
  Exclusive claim: after one claim handed out intent \<open>i\<close>, no later claim hands it out
  again unless a rearm of \<open>i\<close> came in between, whatever other operations ran.
\<close>

theorem claim_exclusive:
  assumes "schema_ok s" "claimSendIntent sc now i s = (s1, Inr (Some r))"
    and "fresh_ids es s1" "\<forall>(_, _, _, op) \<in> set es. op \<noteq> Op_rearm i"
  shows "\<nexists>r'. snd (claimSendIntent sc' now' i (run_ops es s1)) = Inr (Some r')"
proof -
  from assms(2) obtain m key where m: "find (row_at sc i SS_pending) (messages s) = Some m"
      and key: "m_key m = Some key"
      and s1: "s1 = fst (update_message (row_at sc i SS_pending) (set_sending now) s)"
    by (rule claim_returns_row)
  have np: "not_pending i s1"
    unfolding s1 not_pending_def using find_SomeD [OF m] schema_row_unique [OF assms(1)]
    by auto
  have "set_sending now m \<in> set (messages s1)"
    unfolding s1 using find_SomeD [OF m] by force
  then have "\<exists>m \<in> set (messages s1). m_id m = i \<and> m_key m \<noteq> None"
    using find_SomeD [OF m] key by (intro bexI [of _ "set_sending now m"]) (auto simp: set_sending_def)
  with np have "not_pending i (run_ops es s1)"
    using assms(3,4)
  proof (induction es arbitrary: s1)
    case (Cons e es)
    obtain sc1 now1 fresh op where e: "e = (sc1, now1, fresh, op)" by (cases e) auto
    let ?s = "apply_op sc1 now1 fresh op s1"
    have st: "ledger_step sc1 s1 ?s" using Cons.prems(3) e by (intro apply_op_step) simp
    have "fresh \<noteq> i" "op \<noteq> Op_rearm i" using Cons.prems(2-4) e by auto
    then have "not_pending i ?s" using Cons.prems(1) by (intro not_pending_apply_op)
    moreover have "\<exists>m \<in> set (messages ?s). m_id m = i \<and> m_key m \<noteq> None"
      using Cons.prems(2) ledger_step_keyed_row [OF st] by metis
    ultimately show ?case using Cons.IH Cons.prems(3,4) e by simp
  qed simp
  moreover have "\<exists>m \<in> set (messages a). m_id m = i \<and> m_send_state m = SS_pending"
    if "snd (claimSendIntent sc' now' i a) = Inr (Some r')" for r' a
  proof -
    from that have "claimSendIntent sc' now' i a
        = (fst (claimSendIntent sc' now' i a), Inr (Some r'))" by (metis prod.collapse)
    then obtain m where "find (row_at sc' i SS_pending) (messages a) = Some m"
      by (rule claim_returns_row)
    then show ?thesis using find_SomeD by fastforce
  qed
  ultimately show ?thesis unfolding not_pending_def by blast
qed

lemma claim_exclusive_witness:
  "\<exists>s1 r. claimSendIntent (demo_scope ''t1'') 1 ''m1'' (demo_db SS_pending) = (s1, Inr (Some r))
    \<and> (\<nexists>r'. snd (claimSendIntent (demo_scope ''t1'') 3 ''m1''
          (run_ops [(demo_scope ''t1'', 2, ''m2'', Op_uncertain ''m1'' None)] s1)) = Inr (Some r'))"
proof -
  define s1 where "s1 = fst (claimSendIntent (demo_scope ''t1'') 1 ''m1'' (demo_db SS_pending))"
  have "returns_row (claimSendIntent (demo_scope ''t1'') 1 ''m1'' (demo_db SS_pending))"
    by (simp add: returns_row_def demo_defs ledger_eval)
  then obtain r where
    c: "claimSendIntent (demo_scope ''t1'') 1 ''m1'' (demo_db SS_pending) = (s1, Inr (Some r))"
    using returns_row_obtain s1_def by blast
  have "schema_ok (demo_db SS_pending)"
    by (simp add: demo_defs ledger_eval schema_ok_def ids_unique_def keys_unique_def)
  moreover have "fresh_ids [(demo_scope ''t1'', 2, ''m2'', Op_uncertain ''m1'' None)] s1"
    by (simp add: s1_def demo_defs ledger_eval)
  ultimately show ?thesis using claim_exclusive [OF _ c] c by fastforce
qed

section \<open>Keys and digests\<close>

text \<open>
  The text that is hashed determines the tenant and the key, so under a hash without
  collisions two tenants, or two keys, never share a tombstone (tenant ids hold no NUL).
\<close>

theorem digest_input_injective:
  assumes "CHR 0x00 \<notin> set t" "CHR 0x00 \<notin> set t'" "(t, k) \<noteq> (t', k')"
  shows "digest_input t k \<noteq> digest_input t' k'"
proof
  assume "digest_input t k = digest_input t' k'"
  then have eq: "units_of t @ 0 # k = units_of t' @ 0 # k'"
    by (simp add: digest_input_def)
  have z: "0 \<notin> set (units_of x)" if "CHR 0x00 \<notin> set x" for x
  proof
    assume "0 \<in> set (units_of x)"
    then obtain c where "c \<in> set x" "(of_char c :: nat) = 0" by auto
    moreover have "(of_char (CHR 0x00) :: nat) = 0" by simp
    ultimately show False using that by (metis of_char_eq_iff)
  qed
  have "takeWhile (\<lambda>u. u \<noteq> 0) (units_of x @ 0 # y) = units_of x" if "CHR 0x00 \<notin> set x" for x y
    using z [OF that] by (subst takeWhile_append2) auto
  then have "units_of t = units_of t'" using eq assms(1,2) by metis
  then have "t = t'" by (simp add: inj_map_eq_map inj_of_char)
  with eq assms(3) show False by simp
qed

lemma digest_input_injective_witness:
  "digest_input ''t1'' demo_key \<noteq> digest_input ''t2'' demo_key"
  by (rule digest_input_injective) simp_all

text \<open>Reference for the surrogate scan: the code units of a sequence of Unicode scalars.\<close>

definition scalar :: "nat \<Rightarrow> bool" where
  "scalar c \<longleftrightarrow> c < 0x110000 \<and> \<not> (0xD800 \<le> c \<and> c \<le> 0xDFFF)"

definition utf16 :: "nat \<Rightarrow> units" where
  "utf16 c = (if c < 0x10000 then [c]
     else [0xD800 + (c - 0x10000) div 0x400, 0xDC00 + (c - 0x10000) mod 0x400])"

lemma utf16_scalar_app:
  assumes "scalar c" shows "surrogates_paired (utf16 c @ us) = surrogates_paired us"
proof (cases "c < 0x10000")
  case True
  with assms show ?thesis by (auto simp: utf16_def scalar_def)
next
  case False
  let ?h = "(c - 0x10000) div 0x400" and ?l = "(c - 0x10000) mod 0x400"
  have "?h \<le> 0x3FF" "?l \<le> 0x3FF"
    using assms False by (simp_all add: scalar_def)
  with False show ?thesis by (simp add: utf16_def)
qed

lemma utf16_pair:
  assumes "0xD800 \<le> h" "h \<le> 0xDBFF" "0xDC00 \<le> l" "l \<le> 0xDFFF"
  shows "\<exists>c. scalar c \<and> utf16 c = [h, l]"
proof (intro exI conjI)
  let ?c = "0x10000 + (h - 0xD800) * 0x400 + (l - 0xDC00)"
  have l: "l - 0xDC00 < 0x400" and h: "h - 0xD800 < 0x400" using assms by simp_all
  then show "scalar ?c" by (simp add: scalar_def)
  have "((h - 0xD800) * 0x400 + (l - 0xDC00)) div 0x400 = h - 0xD800"
       "((h - 0xD800) * 0x400 + (l - 0xDC00)) mod 0x400 = l - 0xDC00"
    using l by simp_all
  then show "utf16 ?c = [h, l]" using assms by (simp add: utf16_def)
qed

text \<open>
  The surrogate scan accepts exactly the well-formed UTF-16: a list of 16-bit code
  units passes iff it is the encoding of some sequence of Unicode scalar values.
\<close>

theorem surrogate_scan_is_utf16:
  assumes "\<forall>u \<in> set us. u < 0x10000"
  shows "surrogates_paired us \<longleftrightarrow> (\<exists>cs. (\<forall>c \<in> set cs. scalar c) \<and> us = concat (map utf16 cs))"
proof
  show "surrogates_paired us \<Longrightarrow> \<exists>cs. (\<forall>c \<in> set cs. scalar c) \<and> us = concat (map utf16 cs)"
    using assms
  proof (induction us rule: surrogates_paired.induct)
    case 1 show ?case by (rule exI [of _ "[]"]) simp
  next
    case (2 c cs)
    consider (pair) "0xD800 \<le> c \<and> c \<le> 0xDBFF" | (single) "\<not> (0xD800 \<le> c \<and> c \<le> 0xDFFF)"
      using "2.prems"(1) by (auto split: if_splits)
    then show ?case
    proof cases
      case pair
      then obtain d ds where d: "cs = d # ds" "0xDC00 \<le> d" "d \<le> 0xDFFF" "surrogates_paired ds"
        using "2.prems"(1) by (auto split: list.splits)
      then obtain xs where xs: "\<forall>x \<in> set xs. scalar x" "ds = concat (map utf16 xs)"
        using "2.IH"(1) [OF pair d(1)] "2.prems"(2) by auto
      obtain x where "scalar x" "utf16 x = [c, d]" using utf16_pair pair d(2,3) by blast
      with xs d(1) show ?thesis by (intro exI [of _ "x # xs"]) simp
    next
      case single
      then have "\<not> (0xD800 \<le> c \<and> c \<le> 0xDBFF)" "\<not> (0xDC00 \<le> c \<and> c \<le> 0xDFFF)" by auto
      then obtain xs where xs: "\<forall>x \<in> set xs. scalar x" "cs = concat (map utf16 xs)"
        using "2.IH"(2) "2.prems" by auto
      have "scalar c" "utf16 c = [c]"
        using single "2.prems"(2) by (auto simp: scalar_def utf16_def)
      with xs show ?thesis by (intro exI [of _ "c # xs"]) simp
    qed
  qed
next
  assume "\<exists>cs. (\<forall>c \<in> set cs. scalar c) \<and> us = concat (map utf16 cs)"
  then obtain cs where "\<forall>c \<in> set cs. scalar c" "us = concat (map utf16 cs)" by blast
  then show "surrogates_paired us"
    by (induction cs arbitrary: us) (auto simp: utf16_scalar_app)
qed

lemma surrogate_scan_is_utf16_witness:
  "surrogates_paired [97, 0xD83D, 0xDE00]
     \<longleftrightarrow> (\<exists>cs. (\<forall>c \<in> set cs. scalar c) \<and> [97, 0xD83D, 0xDE00] = concat (map utf16 cs))"
  by (rule surrogate_scan_is_utf16) simp

end
