(* ===== verification/Outbound_Policy_Facts.thy ===== *)
theory Outbound_Policy_Facts
  imports Outbound_Policy
begin

text \<open>
  What the outbound policy gate guarantees: what an allowed decision means in terms of the
  rows of the store, what the gate may write, which send keys are honoured, and that the
  client's preview names the code the gate would give.
\<close>

section \<open>Send keys\<close>

lemma verify_SomeD:
  assumes "verifySendKey sc now token s = (s', Some k)"
  obtains key secret where
    "secret \<in> set (send_key_secrets s)" "ks_key_hash secret = sc_sha256 sc (units_of (js_trim token))"
    "key \<in> set (send_keys s)" "k_id key = ks_send_key_id secret" "k_tenant key = sc_tenant sc"
    "k_revoked_at key = None" "k_owner_id k = k_owner_id key" "k_tenant k = k_tenant key"
    "k_id k = k_id key" "js_trim token \<noteq> []"
proof -
  let ?v = "js_trim token"
  from assms have v: "?v \<noteq> []" by (auto simp: verifySendKey_def)
  from assms v obtain secret where
      sec: "find (\<lambda>x. ks_key_hash x = sc_sha256 sc (units_of ?v)) (send_key_secrets s) = Some secret"
    by (auto simp: verifySendKey_def split: option.splits)
  let ?P = "\<lambda>k. k_id k = ks_send_key_id secret \<and> k_tenant k = sc_tenant sc"
  from assms v sec obtain key where key: "find ?P (send_keys s) = Some key"
      and live: "k_revoked_at key = None"
    by (auto simp: verifySendKey_def split: option.splits if_splits)
  from find_SomeD [OF key] have id: "k_id key = ks_send_key_id secret" and "key \<in> set (send_keys s)"
      and t: "k_tenant key = sc_tenant sc" by auto
  have "find (\<lambda>k. k_id k = k_id key \<and> k_tenant k = sc_tenant sc) (send_keys s) = Some key"
    using key id by simp
  with assms v sec key live have "k = key\<lparr>k_last_used_at := Some now, k_updated_at := now\<rparr>"
    by (simp add: verifySendKey_def sql_update_def or_default_def)
  then show thesis
    using find_SomeD [OF sec] find_SomeD [OF key] live v by (intro that [of secret key]) simp_all
qed

lemma verify_frame:
  "messages (fst (verifySendKey sc now token s)) = messages s"
  "addresses (fst (verifySendKey sc now token s)) = addresses s"
  "domains (fst (verifySendKey sc now token s)) = domains s"
  "contacts (fst (verifySendKey sc now token s)) = contacts s"
  "warming (fst (verifySendKey sc now token s)) = warming s"
  "tombstones (fst (verifySendKey sc now token s)) = tombstones s"
  "send_key_secrets (fst (verifySendKey sc now token s)) = send_key_secrets s"
  by (simp_all add: verifySendKey_def Let_def split: option.split)

lemma verify_keys:
  "map (\<lambda>k. (k_id k, k_tenant k, k_owner_id k, k_revoked_at k)) (send_keys (fst (verifySendKey sc now token s)))
     = map (\<lambda>k. (k_id k, k_tenant k, k_owner_id k, k_revoked_at k)) (send_keys s)"
  by (auto simp: verifySendKey_def Let_def map_sql_update split: option.split)

section \<open>Concrete data for the witnesses\<close>

definition key_scope :: "string \<Rightarrow> scope" where
  "key_scope t = \<lparr> sc_tenant = t, sc_atomic = True, sc_unsafe = False, sc_sha256 = map char_of \<rparr>"

definition gate_address :: address_row where
  "gate_address = \<lparr> a_id = ''a1'', a_tenant = ''t1'', a_email = ''Al@x.io'', a_domain = Some ''x.io'',
     a_status = ''active'', a_verified = True, a_daily_quota = Some 0, a_owner_id = Some ''o1'',
     a_administrator_id = None, a_domain_id = None, a_provisioning_status = ''ready'' \<rparr>"

definition gate_db :: db where
  "gate_db = empty_db\<lparr>addresses := [gate_address]\<rparr>"

lemma gate_db_tables [simp]:
  "addresses gate_db = [gate_address]" "domains gate_db = []" "contacts gate_db = []"
  "warming gate_db = []" "messages gate_db = []" "send_keys gate_db = []" "send_key_secrets gate_db = []"
  "owners gate_db = []"
  by (simp_all add: gate_db_def empty_db_def)

lemma gate_sender [simp]: "canonicalAddress ''al@x.io'' = ''al@x.io''"
proof -
  have "check_addr ''al@x.io'' = Some ''al@x.io''"
    by (simp add: check_addr_def local_ok_def domain_ok_def is_label_def is_local_char_def
        is_alnum_def last_index_of_def is_ws_def is_ws_unit_def js_lower_def lower_char_def
        char_of_def bit_0)
  then show ?thesis
    by (simp add: canonicalAddress_def canonicalSender_def addr_text_def trim_by_def is_ws_def is_ws_unit_def)
qed

lemma gate_email: "js_lower (a_email gate_address) = ''al@x.io''"
  by (simp add: gate_address_def js_lower_def lower_char_def char_of_def bit_0)

lemma gate_row: "sender_row (key_scope ''t1'') ''al@x.io'' gate_db = Some (gate_address, None)"
  using gate_email by (simp add: sender_row_def key_scope_def gate_address_def join_domain_def joins_def)

section \<open>Which keys are honoured\<close>

text \<open>
  A token is honoured only for an unrevoked key of the tenant the store is scoped to, and
  only when the stored hash is that of the presented token.
\<close>

theorem send_key_bound_to_tenant:
  assumes "verifySendKey sc now token s = (s', Some k)"
  shows "k_tenant k = sc_tenant sc
    \<and> (\<exists>key \<in> set (send_keys s). k_id key = k_id k \<and> k_tenant key = sc_tenant sc
          \<and> k_owner_id key = k_owner_id k \<and> k_revoked_at key = None)
    \<and> (\<exists>secret \<in> set (send_key_secrets s). ks_send_key_id secret = k_id k
          \<and> ks_key_hash secret = sc_sha256 sc (units_of (js_trim token)))"
  by (rule verify_SomeD [OF assms]) auto

lemma send_key_bound_to_tenant_witness:
  "\<exists>k. snd (verifySendKey (key_scope ''t1'') 9 ''esk_1''
       (fst (mintSendKey (key_scope ''t1'') 1 ''esk_1'' ''k1'' ''s1'' ''o1'' None gate_db))) = Some k
     \<and> k_tenant k = ''t1''"
proof -
  let ?s = "fst (mintSendKey (key_scope ''t1'') 1 ''esk_1'' ''k1'' ''s1'' ''o1'' None gate_db)"
  obtain k where "snd (verifySendKey (key_scope ''t1'') 9 ''esk_1'' ?s) = Some k"
    by (simp add: verifySendKey_def mintSendKey_def foreign_owner_def key_scope_def trim_by_def
        is_ws_def is_ws_unit_def Let_def)
  then have v: "verifySendKey (key_scope ''t1'') 9 ''esk_1'' ?s
      = (fst (verifySendKey (key_scope ''t1'') 9 ''esk_1'' ?s), Some k)"
    by (metis prod.collapse)
  from send_key_bound_to_tenant [OF v] have "k_tenant k = ''t1''" by (simp add: key_scope_def)
  with v show ?thesis by (metis snd_conv)
qed

text \<open>
  C39. Minting and verifying round-trip: the minted token resolves, in the tenant that minted
  it, to a key of the owner it was minted for, and in every other tenant to nothing.
\<close>

theorem mint_verify_roundtrip:
  assumes mint: "mintSendKey sc now token i sid owner label s = (s1, Inr (token', key))"
    and fresh: "i \<notin> k_id ` set (send_keys s)"
    and no_collision: "sc_sha256 sc (units_of token) \<notin> ks_key_hash ` set (send_key_secrets s)"
    and token: "js_trim token = token" "token \<noteq> []"
    and other: "sc_sha256 sc' = sc_sha256 sc" "sc_tenant sc' \<noteq> sc_tenant sc"
  shows "token' = token
    \<and> map_option (\<lambda>k. (k_id k, k_owner_id k, k_tenant k)) (snd (verifySendKey sc later token' s1))
        = Some (i, Some owner, sc_tenant sc)
    \<and> snd (verifySendKey sc' later token' s1) = None"
proof -
  let ?h = "sc_sha256 sc (units_of token)"
  from mint have s1: "s1 = fst (mintSendKey sc now token i sid owner label s)" and tk: "token' = token"
      and ok: "\<not> foreign_owner sc owner s"
    by (auto simp: mintSendKey_def Let_def split: if_splits)
  have sec: "find (\<lambda>x. ks_key_hash x = ?h) (send_key_secrets s1)
      = Some \<lparr> ks_id = sid, ks_send_key_id = i, ks_key_hash = ?h \<rparr>"
  proof -
    have "\<forall>y \<in> set (send_key_secrets s). ks_key_hash y \<noteq> ?h"
      using no_collision by (metis imageI)
    then show ?thesis using ok unfolding s1
      by (intro find_unique) (auto simp: mintSendKey_def Let_def)
  qed
  obtain k where keys: "send_keys s1 = send_keys s @ [k]" "k_id k = i" "k_tenant k = sc_tenant sc"
      "k_owner_id k = Some owner" "k_revoked_at k = None"
    using ok unfolding s1 by (auto simp: mintSendKey_def Let_def)
  have new: "\<forall>y \<in> set (send_keys s). k_id y \<noteq> i" using fresh by (metis imageI)
  have find_k: "find (\<lambda>k. k_id k = i \<and> k_tenant k = sc_tenant sc) (send_keys s1) = Some k"
    using new keys by (intro find_unique) auto
  have none: "find (\<lambda>k. k_id k = i \<and> k_tenant k = sc_tenant sc') (send_keys s1) = None"
    using new keys other(2) by (auto simp: find_None_iff_all)
  show ?thesis
    using tk token sec find_k none keys(2-5) other(1)
    by (simp add: verifySendKey_def sql_update_def or_default_def)
qed

lemma mint_verify_roundtrip_witness:
  "map_option k_owner_id (snd (verifySendKey (key_scope ''t1'') 9 ''esk_1''
       (fst (mintSendKey (key_scope ''t1'') 1 ''esk_1'' ''k1'' ''s1'' ''o1'' None gate_db)))) = Some (Some ''o1'')
   \<and> snd (verifySendKey (key_scope ''t2'') 9 ''esk_1''
       (fst (mintSendKey (key_scope ''t1'') 1 ''esk_1'' ''k1'' ''s1'' ''o1'' None gate_db))) = None"
proof -
  let ?m = "mintSendKey (key_scope ''t1'') 1 ''esk_1'' ''k1'' ''s1'' ''o1'' None gate_db"
  obtain key where m: "?m = (fst ?m, Inr (''esk_1'', key))"
    by (simp add: mintSendKey_def foreign_owner_def key_scope_def Let_def)
  have tr: "js_trim ''esk_1'' = ''esk_1''" by (simp add: trim_by_def is_ws_def is_ws_unit_def)
  have "map_option (\<lambda>k. (k_id k, k_owner_id k, k_tenant k))
          (snd (verifySendKey (key_scope ''t1'') 9 ''esk_1'' (fst ?m))) = Some (''k1'', Some ''o1'', ''t1'')
      \<and> snd (verifySendKey (key_scope ''t2'') 9 ''esk_1'' (fst ?m)) = None"
    using mint_verify_roundtrip [OF m, of "key_scope ''t2''" 9] tr by (simp add: key_scope_def)
  then show ?thesis by (auto simp: map_option_eq_Some)
qed

section \<open>The sender row\<close>

lemma join_domain_fst: "r \<in> set (join_domain ds a) \<Longrightarrow> fst r = a \<and> (\<forall>d. snd r = Some d \<longrightarrow> d \<in> set ds \<and> joins a d)"
  by (auto simp: join_domain_def Let_def split: if_splits)

lemma sender_row_SomeD:
  assumes "sender_row sc from s = Some r"
  shows "fst r \<in> set (addresses s) \<and> js_lower (a_email (fst r)) = from
    \<and> a_tenant (fst r) = sc_tenant sc
    \<and> (\<forall>d. snd r = Some d \<longrightarrow> d \<in> set (domains s) \<and> joins (fst r) d)"
proof -
  let ?c = "concat (map (join_domain (domains s))
     (filter (\<lambda>a. js_lower (a_email a) = from \<and> a_tenant a = sc_tenant sc) (addresses s)))"
  have "r \<in> set (sort_key join_rank ?c)"
  proof (cases "sort_key join_rank ?c")
    case Nil
    have False using assms unfolding sender_row_def Nil by simp
    then show ?thesis ..
  next
    case (Cons x rest)
    have "x = r" using assms unfolding sender_row_def Cons by simp
    then show ?thesis unfolding Cons by simp
  qed
  then have "r \<in> set ?c" by simp
  then obtain a where "a \<in> set (addresses s)" "js_lower (a_email a) = from" "a_tenant a = sc_tenant sc"
      "r \<in> set (join_domain (domains s) a)"
    by auto
  with join_domain_fst [of r "domains s" a] show ?thesis by auto
qed

lemma key_gate_None:
  assumes "key_gate sc now token wide a s = (s', None)"
  shows "(wide \<or> (token \<noteq> None \<and> token \<noteq> Some []))
    \<and> (\<forall>t. token = Some t \<and> t \<noteq> [] \<longrightarrow>
         (\<exists>key \<in> set (send_keys s). k_tenant key = sc_tenant sc \<and> k_revoked_at key = None
            \<and> k_owner_id key \<noteq> None
            \<and> (k_owner_id key = a_owner_id a \<or> k_owner_id key = a_administrator_id a)))"
proof (cases "token = None \<or> token = Some []")
  case True
  with assms show ?thesis by (auto simp: key_gate_def split: if_splits)
next
  case False
  then obtain t where t: "token = Some t" "t \<noteq> []" by auto
  with assms obtain k where v: "verifySendKey sc now t s = (s', Some k)"
      and o: "k_owner_id k \<noteq> None" "k_owner_id k = a_owner_id a \<or> k_owner_id k = a_administrator_id a"
    by (auto simp: key_gate_def split: prod.splits option.splits if_splits)
  from v obtain key where "key \<in> set (send_keys s)" "k_tenant key = sc_tenant sc"
      "k_revoked_at key = None" "k_owner_id k = k_owner_id key"
    by (rule verify_SomeD)
  with o t show ?thesis by auto
qed

lemma key_gate_frame:
  "messages (fst (key_gate sc now token wide a s)) = messages s"
  "addresses (fst (key_gate sc now token wide a s)) = addresses s"
  "domains (fst (key_gate sc now token wide a s)) = domains s"
  "contacts (fst (key_gate sc now token wide a s)) = contacts s"
  "warming (fst (key_gate sc now token wide a s)) = warming s"
  "tombstones (fst (key_gate sc now token wide a s)) = tombstones s"
  "map (\<lambda>k. (k_id k, k_tenant k, k_owner_id k, k_revoked_at k)) (send_keys (fst (key_gate sc now token wide a s)))
     = map (\<lambda>k. (k_id k, k_tenant k, k_owner_id k, k_revoked_at k)) (send_keys s)"
  using verify_frame [of sc now "the token" s] verify_keys [of sc now "the token" s]
  by (auto simp: key_gate_def split: prod.split option.split)

section \<open>The gate\<close>

lemma policy_store:
  "messages (fst (evaluateOutboundPolicy sc now f rs tok w s)) = messages s"
  "tombstones (fst (evaluateOutboundPolicy sc now f rs tok w s)) = tombstones s"
  by (auto simp: evaluateOutboundPolicy_def Let_def key_gate_frame split: option.split prod.split)
     (metis key_gate_frame(1,6) fst_conv)+

lemma decide_Allowed [simp]: "decide c = Allowed \<longleftrightarrow> c = None"
  by (simp add: decide_def split: option.split)

lemma policy_allowedD:
  assumes "evaluateOutboundPolicy sc now from recipients token wide s = (s', Allowed)"
  obtains r where "sender_row sc (canonicalAddress from) s = Some r"
    "sender_gate (Some r) = None" "key_gate sc now token wide (fst r) s = (s', None)"
    "\<not> suppressed_recipient sc recipients s'"
    "volume_gate sc now (canonicalAddress from) r s' = None"
proof (cases "sender_row sc (canonicalAddress from) s")
  case None
  with assms show thesis by (simp add: evaluateOutboundPolicy_def sender_gate_def Let_def)
next
  case (Some r)
  with assms that show thesis
    by (auto simp: evaluateOutboundPolicy_def Let_def split: option.splits prod.splits if_splits)
qed

lemma counted_messages_only:
  "messages s' = messages s \<Longrightarrow> address_count sc now from s' = address_count sc now from s"
  by (simp add: address_count_def)

text \<open>
  C26. An allowed send has a registered, active, verified sender row in the caller's tenant, on
  an address or a domain that is ready; it carries tenant-wide authority or an unrevoked
  key of this tenant whose owner owns or administers the address; no recipient is
  suppressed; and the sender's messages counted today do not exceed its quota.
\<close>

theorem policy_allowed_sound:
  assumes "evaluateOutboundPolicy sc now from recipients token wide s = (s', Allowed)"
  shows "\<exists>a \<in> set (addresses s). js_lower (a_email a) = canonicalAddress from
     \<and> a_tenant a = sc_tenant sc \<and> a_status a = ''active'' \<and> a_verified a
     \<and> (outbound_ready (a, None) \<or> (\<exists>d \<in> set (domains s). joins a d \<and> outbound_ready (a, Some d)))
     \<and> (wide \<or> (token \<noteq> None \<and> token \<noteq> Some []))
     \<and> (\<forall>t. token = Some t \<and> t \<noteq> [] \<longrightarrow>
          (\<exists>k \<in> set (send_keys s). k_tenant k = sc_tenant sc \<and> k_revoked_at k = None
             \<and> k_owner_id k \<noteq> None
             \<and> (k_owner_id k = a_owner_id a \<or> k_owner_id k = a_administrator_id a)))
     \<and> (\<forall>c \<in> set (contacts s). c_tenant c = sc_tenant sc \<and> c_suppressed c \<and> c_email c \<noteq> []
          \<longrightarrow> js_lower (c_email c) \<notin> canonicalAddress ` set recipients)
     \<and> (\<forall>q. a_daily_quota a = Some q \<longrightarrow>
          int (address_count sc now (canonicalAddress from) s) \<le> q)"
  using assms
proof (rule policy_allowedD)
  fix r
  assume r: "sender_row sc (canonicalAddress from) s = Some r"
    and sg: "sender_gate (Some r) = None"
    and kg: "key_gate sc now token wide (fst r) s = (s', None)"
    and sup: "\<not> suppressed_recipient sc recipients s'"
    and vol: "volume_gate sc now (canonicalAddress from) r s' = None"
  have fr: "messages s' = messages s" "contacts s' = contacts s"
    using key_gate_frame [of sc now token wide "fst r" s] kg by simp_all
  have act: "a_status (fst r) = ''active''" "a_verified (fst r)" "outbound_ready r"
    using sg by (auto simp: sender_gate_def split: if_splits)
  have rdy: "outbound_ready (fst r, None) \<or> (\<exists>d \<in> set (domains s). joins (fst r) d \<and> outbound_ready (fst r, Some d))"
    using act(3) sender_row_SomeD [OF r] by (cases r; cases "snd r") auto
  have sup': "\<forall>c \<in> set (contacts s). c_tenant c = sc_tenant sc \<and> c_suppressed c \<and> c_email c \<noteq> []
      \<longrightarrow> js_lower (c_email c) \<notin> canonicalAddress ` set recipients"
    using sup fr(2) by (fastforce simp: suppressed_recipient_def Let_def filter_empty_conv)
  have quota: "\<forall>q. a_daily_quota (fst r) = Some q \<longrightarrow> int (address_count sc now (canonicalAddress from) s) \<le> q"
    using vol counted_messages_only [OF fr(1)] by (auto simp: volume_gate_def Let_def split: if_splits)
  show ?thesis
    using sender_row_SomeD [OF r] act rdy key_gate_None [OF kg] sup' quota
    by (intro bexI [of _ "fst r"] conjI) (blast | simp)+
qed

lemma policy_allowed_sound_witness:
  "evaluateOutboundPolicy (key_scope ''t1'') 5 ''al@x.io'' [''al@x.io''] None True gate_db = (gate_db, Allowed)
   \<and> (\<exists>a \<in> set (addresses gate_db). js_lower (a_email a) = ''al@x.io'' \<and> a_verified a)"
proof -
  have e: "evaluateOutboundPolicy (key_scope ''t1'') 5 ''al@x.io'' [''al@x.io''] None True gate_db = (gate_db, Allowed)"
    by (simp add: evaluateOutboundPolicy_def gate_row sender_gate_def outbound_ready_def
        suppressed_recipient_def key_gate_def volume_gate_def warming_gate_def address_count_def
        sender_domain_def decide_def)
       (simp add: gate_address_def warming_gate_def sender_domain_def)
  from policy_allowed_sound [OF e] e show ?thesis by auto
qed

text \<open>
  The gate writes nothing but the last-use stamp of a send key: messages, tombstones,
  addresses, domains, contacts and warming schedules are untouched, and so is every
  identity, owner and revocation of a send key.
\<close>

theorem policy_frame:
  "let s' = fst (evaluateOutboundPolicy sc now from recipients token wide s) in
     messages s' = messages s \<and> tombstones s' = tombstones s \<and> addresses s' = addresses s
     \<and> domains s' = domains s \<and> contacts s' = contacts s \<and> warming s' = warming s
     \<and> map (\<lambda>k. (k_id k, k_tenant k, k_owner_id k, k_revoked_at k)) (send_keys s')
         = map (\<lambda>k. (k_id k, k_tenant k, k_owner_id k, k_revoked_at k)) (send_keys s)"
proof -
  have "fst (evaluateOutboundPolicy sc now from recipients token wide s)
      \<in> insert s (range (\<lambda>a. fst (key_gate sc now token wide a s)))"
    by (auto simp: evaluateOutboundPolicy_def Let_def image_iff split: option.split prod.split)
       (metis fst_conv)+
  then show ?thesis using key_gate_frame [of sc now token wide _ s] by (auto simp: Let_def)
qed

text \<open>
  The preview names the code the gate gives: on the address row the gate selects, a
  refusal of the preview is the gate's refusal with the same code, and when the preview
  passes, the gate's answer is none of the three codes the preview covers.
\<close>

theorem preflight_agrees:
  "case preflight_policy_code (evaluateSenderPreflight
       (map_option fst (sender_row sc (canonicalAddress from) s))) of
     Some c \<Rightarrow> snd (evaluateOutboundPolicy sc now from recipients token wide s) = decide (Some c)
   | None \<Rightarrow> snd (evaluateOutboundPolicy sc now from recipients token wide s)
       \<notin> {decide (Some sender_not_registered), decide (Some sender_inactive), decide (Some sender_unverified)}"
proof (cases "sender_row sc (canonicalAddress from) s")
  case None
  then show ?thesis by (simp add: evaluateOutboundPolicy_def evaluateSenderPreflight_def sender_gate_def)
next
  case (Some r)
  have k: "snd (key_gate sc now token wide (fst r) s) \<notin> {Some sender_not_registered, Some sender_inactive, Some sender_unverified}"
    by (auto simp: key_gate_def split: prod.split option.split)
  have w: "warming_gate sc now d u t \<notin> {Some sender_not_registered, Some sender_inactive, Some sender_unverified}" for d u t
    by (auto simp: warming_gate_def split: option.split)
  have v: "volume_gate sc now f r t \<notin> {Some sender_not_registered, Some sender_inactive, Some sender_unverified}" for f t
    using w by (auto simp: volume_gate_def Let_def split: option.split)
  show ?thesis
    using Some k v
    by (auto simp: evaluateOutboundPolicy_def evaluateSenderPreflight_def sender_gate_def decide_def Let_def
        split: option.split prod.split)
qed

end
