(* ===== verification/Send_Protocol.thy ===== *)
theory Send_Protocol
  imports Send_Handler Send_Ledger_Facts Outbound_Policy_Facts
begin

text \<open>
  The send path as a whole: any number of requests, of any tenants, each at some step of its
  handler, interleaved with each other, with process crashes and with the operator routes
  (lookup, cancel, reconcile, delete).  The provider may have accepted a message in three
  situations: it answered with an id, its answer was lost (an outcome classified
  uncertain), or the process died during the call; a refusal (4xx) delivers nothing.  The
  history of deliveries is kept beside the store.

  The abstract specification is a machine of attempts at one intent (\<open>attempt_step\<close>), which
  delivers at most once; the system is shown to refine it as long as no operator
  reconciles that intent as not sent.
\<close>

section \<open>Traces and simulation\<close>

inductive trace :: "('s \<Rightarrow> 'e \<Rightarrow> 's \<Rightarrow> bool) \<Rightarrow> 's \<Rightarrow> 'e list \<Rightarrow> 's \<Rightarrow> bool" for step where
  trace_Nil: "trace step s [] s"
| trace_Cons: "step s e s' \<Longrightarrow> trace step s' es s'' \<Longrightarrow> trace step s (e # es) s''"

inductive_cases trace_ConsE: "trace step s (e # es) s''"
inductive_simps trace_simps: "trace step s [] s'" "trace step s (e # es) s'"

text \<open>
  What a concrete system promises to an abstract one: its well-formedness is kept, and each
  allowed step is a step of the abstraction.
\<close>

locale simulation =
  fixes step :: "'s \<Rightarrow> 'e \<Rightarrow> 's \<Rightarrow> bool" and allowed :: "'e \<Rightarrow> bool" and ok :: "'s \<Rightarrow> bool"
    and view :: "'s \<Rightarrow> 'a" and astep :: "'a \<Rightarrow> 'a \<Rightarrow> bool"
  assumes ok_step: "step s e s' \<Longrightarrow> ok s \<Longrightarrow> ok s'"
    and sim_step: "step s e s' \<Longrightarrow> ok s \<Longrightarrow> allowed e \<Longrightarrow> astep (view s) (view s')"
begin

lemma trace_ok: "trace step s es s' \<Longrightarrow> ok s \<Longrightarrow> ok s'"
  by (induction rule: trace.induct) (auto dest: ok_step)

lemma trace_refines:
  "trace step s es s' \<Longrightarrow> ok s \<Longrightarrow> \<forall>e \<in> set es. allowed e \<Longrightarrow> astep\<^sup>*\<^sup>* (view s) (view s')"
proof (induction rule: trace.induct)
  case (trace_Cons s e s' es s'')
  then have "astep (view s) (view s')" and "astep\<^sup>*\<^sup>* (view s') (view s'')"
    using ok_step sim_step by auto
  then show ?case by (rule converse_rtranclp_into_rtranclp)
qed simp

lemma trace_invariant:
  assumes inv: "\<And>a b. astep a b \<Longrightarrow> I a \<Longrightarrow> I b"
    and "trace step s es s'" "ok s" "\<forall>e \<in> set es. allowed e" "I (view s)"
  shows "I (view s')"
proof -
  have "astep\<^sup>*\<^sup>* a b \<Longrightarrow> I a \<Longrightarrow> I b" for a b
    by (induction rule: rtranclp_induct) (auto dest: inv)
  with trace_refines [OF assms(2-4)] assms(5) show ?thesis by blast
qed

end

section \<open>The abstract machine of attempts at one intent\<close>

datatype phase = Idle | Calling | Refused | Settling

text \<open>Who is attempting, whether the row is shut against a new claim, how often it was delivered.\<close>

record attempts =
  at_phase :: "nat \<Rightarrow> phase"
  at_shut :: bool
  at_delivered :: nat

inductive attempt_step :: "attempts \<Rightarrow> attempts \<Rightarrow> bool" where
  claim: "at_phase a t = Idle \<Longrightarrow> \<not> at_shut a \<Longrightarrow>
     b = a\<lparr>at_phase := (at_phase a)(t := Calling), at_shut := True\<rparr> \<Longrightarrow> attempt_step a b"
| refuse: "at_phase a t = Calling \<Longrightarrow> b = a\<lparr>at_phase := (at_phase a)(t := Refused)\<rparr> \<Longrightarrow> attempt_step a b"
| settle: "at_phase a t = Calling \<Longrightarrow> p \<in> {Settling, Idle} \<Longrightarrow> d \<in> {at_delivered a, Suc (at_delivered a)} \<Longrightarrow>
     b = a\<lparr>at_phase := (at_phase a)(t := p), at_delivered := d\<rparr> \<Longrightarrow> attempt_step a b"
| release: "at_phase a t = Refused \<Longrightarrow>
     b = a\<lparr>at_phase := (at_phase a)(t := Idle), at_shut := h\<rparr> \<Longrightarrow> attempt_step a b"
| finish: "at_phase a t = Settling \<Longrightarrow> p \<in> {Settling, Idle} \<Longrightarrow> (at_shut a \<longrightarrow> h) \<Longrightarrow>
     b = a\<lparr>at_phase := (at_phase a)(t := p), at_shut := h\<rparr> \<Longrightarrow> attempt_step a b"
| outside: "(at_shut a \<longrightarrow> h) \<Longrightarrow> b = a\<lparr>at_shut := h\<rparr> \<Longrightarrow> attempt_step a b"

definition attempts_ok :: "attempts \<Rightarrow> bool" where
  "attempts_ok a \<longleftrightarrow>
     (\<forall>t u. at_phase a t \<noteq> Idle \<longrightarrow> at_phase a u \<noteq> Idle \<longrightarrow> t = u)
     \<and> (\<forall>t. at_phase a t \<noteq> Idle \<longrightarrow> at_shut a)
     \<and> (\<forall>t. at_phase a t \<in> {Calling, Refused} \<longrightarrow> at_delivered a = 0)
     \<and> at_delivered a \<le> 1 \<and> (0 < at_delivered a \<longrightarrow> at_shut a)"

lemma attempts_ok_step: "attempt_step a b \<Longrightarrow> attempts_ok a \<Longrightarrow> attempts_ok b"
proof (induction rule: attempt_step.induct)
  case (claim a t b)
  then show ?case unfolding attempts_ok_def by (auto split: if_splits)
next
  case (refuse a t b)
  then show ?case unfolding attempts_ok_def by (auto split: if_splits)
next
  case (settle a t p d b)
  then have "at_delivered a = 0" "at_shut a" unfolding attempts_ok_def by auto
  with settle show ?case unfolding attempts_ok_def
    by (auto split: if_splits)
next
  case (release a t b h)
  then have "at_delivered a = 0" unfolding attempts_ok_def by auto
  with release show ?case unfolding attempts_ok_def by (auto split: if_splits)
next
  case (finish a t p h b)
  then show ?case unfolding attempts_ok_def by (auto split: if_splits)
next
  case (outside a h b)
  then show ?case unfolding attempts_ok_def by auto
qed

section \<open>The system\<close>

record thread =
  th_server :: server
  th_request :: send_request
  th_pc :: send_pc

record sys =
  sy_db :: db
  sy_threads :: "nat \<Rightarrow> thread option"
  sy_log :: "(nat \<times> message) list"

datatype sys_event =
    Start nat server send_request
  | Run nat env bool
  | Crash nat bool
  | Operator scope int string ledger_op

text \<open>
  Whether a step may have delivered: the flag of the event counts only for a provider call,
  it must be set when the provider answered with an id and cleared when it refused.
\<close>

definition delivery_possible :: "send_pc \<Rightarrow> env \<Rightarrow> bool \<Rightarrow> bool" where
  "delivery_possible pc ev d \<longleftrightarrow>
     (case pc of
        PC_send m \<Rightarrow> (case ev_provider ev of
            Inr _ \<Rightarrow> d
          | Inl e \<Rightarrow> po_kind (classifyProviderSendError e) = Rejected \<longrightarrow> \<not> d)
      | _ \<Rightarrow> \<not> d)"

definition delivery :: "nat \<Rightarrow> send_pc \<Rightarrow> bool \<Rightarrow> (nat \<times> message) list" where
  "delivery t pc d = (case pc of PC_send m \<Rightarrow> if d then [(t, m)] else [] | _ \<Rightarrow> [])"

definition operator_op :: "ledger_op \<Rightarrow> bool" where
  "operator_op op \<longleftrightarrow> (case op of Op_lookup _ \<Rightarrow> True | Op_cancel _ \<Rightarrow> True
     | Op_reconcile _ _ \<Rightarrow> True | Op_delete _ \<Rightarrow> True | _ \<Rightarrow> False)"

inductive sys_step :: "sys \<Rightarrow> sys_event \<Rightarrow> sys \<Rightarrow> bool" where
  start: "sy_threads S t = None \<Longrightarrow>
     S' = S\<lparr>sy_threads := (sy_threads S)(t \<mapsto> \<lparr> th_server = sv, th_request = rq, th_pc = PC_reserve \<rparr>)\<rparr> \<Longrightarrow>
     sys_step S (Start t sv rq) S'"
| run: "sy_threads S t = Some th \<Longrightarrow> ev_fresh ev \<notin> m_id ` set (messages (sy_db S)) \<Longrightarrow>
     delivery_possible (th_pc th) ev d \<Longrightarrow>
     send_step (th_server th) (th_request th) ev (th_pc th) (sy_db S) = (s', pc') \<Longrightarrow>
     S' = S\<lparr>sy_db := s', sy_threads := (sy_threads S)(t \<mapsto> th\<lparr>th_pc := pc'\<rparr>),
            sy_log := delivery t (th_pc th) d @ sy_log S\<rparr> \<Longrightarrow>
     sys_step S (Run t ev d) S'"
| crash: "sy_threads S t = Some th \<Longrightarrow>
     S' = S\<lparr>sy_threads := (sy_threads S)(t \<mapsto> th\<lparr>th_pc := PC_done internal_error\<rparr>), sy_log := delivery t (th_pc th) d @ sy_log S\<rparr> \<Longrightarrow>
     sys_step S (Crash t d) S'"
| operator: "operator_op op \<Longrightarrow> fresh \<notin> m_id ` set (messages (sy_db S)) \<Longrightarrow>
     S' = S\<lparr>sy_db := apply_op sc now fresh op (sy_db S)\<rparr> \<Longrightarrow>
     sys_step S (Operator sc now fresh op) S'"

text \<open>A crashed request never answers; its thread is kept, ended, so that thread numbers are not reused.\<close>

text \<open>The system before any request: some store, nothing running, nothing delivered.\<close>

definition boot :: "db \<Rightarrow> sys" where
  "boot s = \<lparr> sy_db = s, sy_threads = (\<lambda>_. None), sy_log = [] \<rparr>"

definition deliveries :: "string \<Rightarrow> sys \<Rightarrow> nat" where
  "deliveries i S = length (filter (\<lambda>x. m_id (snd x) = i) (sy_log S))"

text \<open>The event that reopens intent \<open>i\<close>: an operator states that it was not sent.\<close>

definition reopens :: "string \<Rightarrow> sys_event \<Rightarrow> bool" where
  "reopens i e \<longleftrightarrow> (case e of Operator _ _ _ (Op_reconcile j r) \<Rightarrow> j = i \<and> \<not> rs_sent r | _ \<Rightarrow> False)"

end
