(* ===== verification/Send_Protocol_Facts.thy ===== *)
theory Send_Protocol_Facts
  imports Send_Protocol
begin

text \<open>
  The system refines the abstract machine of attempts, hence delivers each intent at most
  once while no operator reconciles it as not sent; and the handler's answers are honest
  about delivery.
\<close>

section \<open>Shut rows\<close>

text \<open>A row no claim can take: keyed, and sending, uncertain or sent.\<close>

definition shut_states :: "send_state set" where
  "shut_states = {SS_sending, SS_uncertain, SS_sent}"

definition shut :: "string \<Rightarrow> db \<Rightarrow> bool" where
  "shut i s \<longleftrightarrow> (\<exists>m \<in> set (messages s). m_id m = i \<and> m_key m \<noteq> None \<and> m_send_state m \<in> shut_states)"

lemma shut_messages: "messages s' = messages s \<Longrightarrow> shut i s' = shut i s"
  by (simp add: shut_def)

lemma shut_update:
  assumes "shut i s"
    and "\<And>m. P m \<Longrightarrow> m_id m = i \<Longrightarrow> m_send_state m \<in> shut_states \<Longrightarrow>
      m_send_state (f m) \<in> shut_states \<and> m_id (f m) = m_id m \<and> m_key (f m) = m_key m"
  shows "shut i (fst (update_message P f s))"
proof -
  from assms(1) obtain m where m: "m \<in> set (messages s)" "m_id m = i" "m_key m \<noteq> None"
      "m_send_state m \<in> shut_states"
    by (auto simp: shut_def)
  have "(if P m then f m else m) \<in> set (messages (fst (update_message P f s)))" using m(1) by auto
  moreover have "m_id (if P m then f m else m) = i \<and> m_key (if P m then f m else m) \<noteq> None
      \<and> m_send_state (if P m then f m else m) \<in> shut_states"
    using m assms(2) [of m] by simp
  ultimately show ?thesis unfolding shut_def by blast
qed

lemma shut_tombstone [simp]: "shut i (s\<lparr>tombstones := ts\<rparr>) = shut i s"
  by (simp add: shut_def)

lemma writers_shut [simp]:
  "m_send_state (set_sending now m) \<in> shut_states" "m_send_state (set_sent now p m) \<in> shut_states"
  "m_send_state (set_uncertain now e m) \<in> shut_states"
  "m_send_state (set_reconciled_sent now p ev w m) \<in> shut_states"
  by (simp_all add: row_writers shut_states_def)

lemma not_shut_states: "SS_pending \<notin> shut_states" "SS_failed \<notin> shut_states" "SS_blocked \<notin> shut_states"
  by (simp_all add: shut_states_def)

lemma shut_atomically: "shut i s \<Longrightarrow> shut i (fst (f s)) \<Longrightarrow> shut i (fst (atomically sc f s))"
  by (auto simp: atomically_def transaction_def split: prod.splits sum.splits)

lemma shut_lock: "shut i s \<Longrightarrow> (\<And>d. shut i (fst (f d s))) \<Longrightarrow> shut i (fst (withSendIntentKeyLock sc k f s))"
  by (simp add: withSendIntentKeyLock_def shut_atomically)

lemma writer_ids [simp]:
  "m_id (set_sending now m) = m_id m" "m_key (set_sending now m) = m_key m"
  "m_id (set_sent now p m) = m_id m" "m_key (set_sent now p m) = m_key m"
  "m_id (set_uncertain now e m) = m_id m" "m_key (set_uncertain now e m) = m_key m"
  "m_id (set_reconciled_sent now p ev w m) = m_id m" "m_key (set_reconciled_sent now p ev w m) = m_key m"
  by (simp_all add: row_writers)

lemma shut_reconcile:
  assumes "shut i s" "j \<noteq> i \<or> rs_sent r"
  shows "shut i (fst (reconcileUncertainSendIntent sc now j r s))"
proof -
  have a: "shut i (fst (update_message (row_at sc j SS_uncertain) (set_reconciled_sent now p e w) s))" for p e w
    by (rule shut_update [OF assms(1)]) simp
  have b: "shut i (fst (update_message (row_at sc j SS_uncertain) f s))" if "j \<noteq> i" for f
    by (rule shut_update [OF assms(1)]) (use that in simp)
  from assms a b show ?thesis
    by (auto simp: reconcileUncertainSendIntent_def Let_def case_prod_beta)
qed

lemma shut_cancel: "shut i s \<Longrightarrow> shut i (fst (cancelSendIntent sc now k s))"
  unfolding cancelSendIntent_def
proof (rule shut_lock)
  fix d assume s: "shut i s"
  let ?s = "s\<lparr>tombstones := List.insert (sc_tenant sc, d) (tombstones s)\<rparr>"
  have "shut i (fst (cancel_row sc now m ?s))" for m
  proof -
    have "shut i (fst (update_message (\<lambda>r. m_id r = m_id m \<and> m_tenant r = sc_tenant sc
        \<and> m_send_state r \<in> {SS_pending, SS_blocked, SS_failed}) (set_cancelled now) ?s))"
      by (rule shut_update) (use s in \<open>auto simp: shut_states_def\<close>)
    then show ?thesis using s by (simp add: cancel_row_def case_prod_beta)
  qed
  then show "shut i (fst (cancel_action sc now k d s))"
    using s by (simp add: cancel_action_def Let_def case_prod_beta split: option.split)
qed

lemma shut_delete: "shut i s \<Longrightarrow> shut i (fst (deleteMessage sc j s))"
  by (auto simp: deleteMessage_def Let_def shut_def split: option.split)

lemma shut_reserve: "shut i s \<Longrightarrow> shut i (fst (reserveSendIntent sc now f inp k h s))"
  unfolding reserveSendIntent_def
  by (rule shut_lock) (auto simp: reserve_action_def Let_def shut_def split: option.split)

lemma shut_claim: "shut i s \<Longrightarrow> shut i (fst (claimSendIntent sc now j s))"
  unfolding claimSendIntent_def
proof (rule shut_atomically)
  assume s: "shut i s"
  have "shut i (fst (update_message (row_at sc j SS_pending) (set_sending now) s))"
    by (rule shut_update [OF s]) simp
  with s show "shut i (fst (claim_action sc now j s))"
    by (simp add: claim_action_def case_prod_beta split: option.split)
qed

text \<open>Every operation keeps a shut row shut, but failing it and reconciling it as not sent.\<close>

lemma shut_apply_op:
  assumes "shut i s" "\<And>r. op \<noteq> Op_fail i r" "\<And>r. op = Op_reconcile i r \<Longrightarrow> rs_sent r"
  shows "shut i (apply_op sc now f op s)"
proof (cases op)
  case (Op_lookup k)
  then show ?thesis using assms(1) by (auto simp: lookupSendIntent_def Let_def intro!: shut_lock)
next
  case (Op_complete j p)
  have "shut i (fst (update_message (\<lambda>m. m_id m = j \<and> m_tenant m = sc_tenant sc) (set_sent now p) s))"
    by (rule shut_update [OF assms(1)]) simp
  with Op_complete show ?thesis
    by (auto simp: completeSendIntent_def split: prod.splits option.splits)
next
  case (Op_fail j r)
  with assms(2) have "j \<noteq> i" by auto
  then show ?thesis unfolding Op_fail apply_op.simps markSendFailed_def
    by (intro shut_update [OF assms(1)]) simp
next
  case (Op_rearm j)
  show ?thesis unfolding Op_rearm apply_op.simps rearmFailedSendIntent_def
    by (rule shut_update [OF assms(1)]) (auto simp: not_shut_states)
next
  case (Op_uncertain j p)
  show ?thesis unfolding Op_uncertain apply_op.simps markSendUncertain_def
    by (rule shut_update [OF assms(1)]) simp
next
  case (Op_block j c)
  show ?thesis unfolding Op_block apply_op.simps markSendBlocked_def
    by (rule shut_update [OF assms(1)]) (auto simp: not_shut_states)
next
  case (Op_reconcile j r)
  with assms(3) have "j \<noteq> i \<or> rs_sent r" by auto
  with shut_reconcile [OF assms(1)] Op_reconcile show ?thesis by simp
qed (simp_all add: assms(1) shut_cancel shut_reserve shut_claim shut_delete)

text \<open>A claim takes a row that is not shut and shuts it.\<close>

lemma claim_opens_shut:
  assumes "claimSendIntent sc now i s = (s', Inr (Some r))" "schema_ok s"
  shows "m_id r = i" "\<not> shut i s" "shut i s'"
proof -
  from assms(1) obtain m key where m: "find (row_at sc i SS_pending) (messages s) = Some m" "m_key m = Some key"
      "r = set_sending now m" "s' = fst (update_message (row_at sc i SS_pending) (set_sending now) s)"
    by (rule claim_returns_row)
  from find_SomeD [OF m(1)] have mm: "m \<in> set (messages s)" "row_at sc i SS_pending m" by auto
  show "m_id r = i" using m(3) mm(2) by simp
  show "\<not> shut i s"
  proof
    assume "shut i s"
    then obtain x where x: "x \<in> set (messages s)" "m_id x = i" "m_send_state x \<in> shut_states"
      by (auto simp: shut_def)
    with schema_row_unique [OF assms(2) mm(1) x(1)] mm(2) not_shut_states(1) show False by simp
  qed
  have "set_sending now m \<in> set (messages s')"
    unfolding m(4) update_message_tables using mm by force
  then show "shut i s'" unfolding shut_def using m(2) mm(2)
    by (intro bexI [of _ "set_sending now m"]) simp_all
qed

section \<open>One step of a handler\<close>

lemma awaiting_fst: "fst (awaiting ev f s) \<in> {s, fst (f s)}"
  by (simp add: awaiting_def split: fault.split)

lemma awaiting_Some: "awaiting ev f s = (s', Some r) \<Longrightarrow> f s = (s', r)"
  by (cases "f s") (auto simp: awaiting_def split: fault.splits)

lemma awaiting_shut: "shut i s \<Longrightarrow> shut i (fst (f s)) \<Longrightarrow> shut i (fst (awaiting ev f s))"
  using awaiting_fst [of ev f s] by auto

lemma awaiting_ledger: "ledger_step sc s (fst (f s)) \<Longrightarrow> ledger_step sc s (fst (awaiting ev f s))"
  using awaiting_fst [of ev f s] by auto

lemma policy_ledger: "ledger_step sc s (fst (evaluateOutboundPolicy sc now f rs tok w s))"
  by (rule ledger_step.upd [where g = "\<lambda>m. m"]) (simp_all add: policy_store)

lemma fst_steps:
  "fst (step_reserve sv rq ev s) = fst (awaiting ev (reserveSendIntent (sv_scope sv) (ev_now ev) (ev_fresh ev)
      (reserve_input sv rq) (rq_key rq) (request_hash sv rq)) s)"
  "fst (step_expire sv ev m s) = fst (awaiting ev (markSendUncertain (sv_scope sv) (ev_now ev) (m_id m) None) s)"
  "fst (step_rearm sv ev m s) = fst (awaiting ev (rearmFailedSendIntent (sv_scope sv) (ev_now ev) (m_id m)) s)"
  "fst (step_policy sv rq ev m s) = fst (awaiting ev (evaluateOutboundPolicy (sv_scope sv) (ev_now ev) (rq_from rq)
      (rq_to rq @ rq_cc rq @ rq_bcc rq) (if rq_send_key rq = [] then None else Some (rq_send_key rq)) (rq_wide rq)) s)"
  "fst (step_block sv ev m c x st s) = fst (awaiting ev (markSendBlocked (sv_scope sv) (ev_now ev) (m_id m) c) s)"
  "fst (step_claim sv ev m s) = fst (awaiting ev (claimSendIntent (sv_scope sv) (ev_now ev) (m_id m)) s)"
  "fst (step_latest sv ev m s) = s"
  "fst (step_recover sv rq ev m l s) = fst (awaiting ev (lookupSendIntent (sv_scope sv) (rq_key rq)) s)"
  "fst (step_rejected sv ev m o' s) = fst (awaiting ev (markSendFailed (sv_scope sv) (ev_now ev) (m_id m) (po_error_name o')) s)"
  "fst (step_unknown sv ev m o' s) = fst (awaiting ev (markSendUncertain (sv_scope sv) (ev_now ev) (m_id m) None) s)"
  "fst (step_complete sv ev m p s) = fst (awaiting ev (completeSendIntent (sv_scope sv) (ev_now ev) (m_id m) p) s)"
  "fst (step_park sv ev m p s) = fst (awaiting ev (markSendUncertain (sv_scope sv) (ev_now ev) (m_id m) (Some p)) s)"
  by (simp_all add: step_reserve_def step_expire_def step_rearm_def step_policy_def step_block_def
      step_claim_def step_latest_def step_recover_def step_rejected_def step_unknown_def
      step_complete_def step_park_def Let_def awaiting_def
      split: prod.split option.split sum.split store_error.split policy_decision.split fault.split)

text \<open>The store operation behind each program counter but policy.\<close>

lemma send_step_ledger:
  assumes "ev_fresh ev \<notin> m_id ` set (messages s)"
  shows "ledger_step (sv_scope sv) s (fst (send_step sv rq ev pc s))"
proof (cases pc)
  case PC_reserve
  show ?thesis unfolding PC_reserve send_step.simps fst_steps
    by (rule awaiting_ledger) (rule reserve_step [OF assms])
next
  case (PC_expire m)
  show ?thesis unfolding PC_expire send_step.simps fst_steps
    by (rule awaiting_ledger) (rule apply_op_step [OF assms, where op = "Op_uncertain _ _", simplified])
next
  case (PC_rearm m)
  show ?thesis unfolding PC_rearm send_step.simps fst_steps
    by (rule awaiting_ledger) (rule apply_op_step [OF assms, where op = "Op_rearm _", simplified])
next
  case (PC_policy m)
  show ?thesis unfolding PC_policy send_step.simps fst_steps
    by (rule awaiting_ledger) (rule policy_ledger)
next
  case (PC_block m c x st)
  show ?thesis unfolding PC_block send_step.simps fst_steps
    by (rule awaiting_ledger) (rule apply_op_step [OF assms, where op = "Op_block _ _", simplified])
next
  case (PC_claim m)
  show ?thesis unfolding PC_claim send_step.simps fst_steps
    by (rule awaiting_ledger) (rule claim_step)
next
  case (PC_recover m l)
  show ?thesis unfolding PC_recover send_step.simps fst_steps
    by (rule awaiting_ledger) (rule apply_op_step [OF assms, where op = "Op_lookup _", simplified])
next
  case (PC_rejected m o')
  show ?thesis unfolding PC_rejected send_step.simps fst_steps
    by (rule awaiting_ledger) (rule apply_op_step [OF assms, where op = "Op_fail _ _", simplified])
next
  case (PC_unknown m o')
  show ?thesis unfolding PC_unknown send_step.simps fst_steps
    by (rule awaiting_ledger) (rule apply_op_step [OF assms, where op = "Op_uncertain _ _", simplified])
next
  case (PC_complete m p)
  show ?thesis unfolding PC_complete send_step.simps fst_steps
    by (rule awaiting_ledger) (rule apply_op_step [OF assms, where op = "Op_complete _ _", simplified])
next
  case (PC_park m p)
  show ?thesis unfolding PC_park send_step.simps fst_steps
    by (rule awaiting_ledger) (rule apply_op_step [OF assms, where op = "Op_uncertain _ _", simplified])
qed (simp_all add: fst_steps)

lemma send_step_shut:
  assumes "shut i s" "\<And>m o'. pc = PC_rejected m o' \<Longrightarrow> m_id m \<noteq> i"
  shows "shut i (fst (send_step sv rq ev pc s))"
proof -
  note op = shut_apply_op [OF assms(1)]
  show ?thesis
  proof (cases pc)
    case PC_reserve
    show ?thesis unfolding PC_reserve send_step.simps fst_steps
      by (intro awaiting_shut assms(1) shut_reserve)
  next
    case (PC_expire m)
    show ?thesis unfolding PC_expire send_step.simps fst_steps
      by (intro awaiting_shut assms(1)) (rule op [where op = "Op_uncertain _ _", simplified])
  next
    case (PC_rearm m)
    show ?thesis unfolding PC_rearm send_step.simps fst_steps
      by (intro awaiting_shut assms(1)) (rule op [where op = "Op_rearm _", simplified])
  next
    case (PC_policy m)
    show ?thesis unfolding PC_policy send_step.simps fst_steps
      by (intro awaiting_shut assms(1)) (simp add: shut_messages [OF policy_store(1)] assms(1))
  next
    case (PC_block m c x st)
    show ?thesis unfolding PC_block send_step.simps fst_steps
      by (intro awaiting_shut assms(1)) (rule op [where op = "Op_block _ _", simplified])
  next
    case (PC_claim m)
    show ?thesis unfolding PC_claim send_step.simps fst_steps
      by (intro awaiting_shut assms(1) shut_claim)
  next
    case (PC_recover m l)
    show ?thesis unfolding PC_recover send_step.simps fst_steps
      by (intro awaiting_shut assms(1)) (rule op [where op = "Op_lookup _", simplified])
  next
    case (PC_rejected m o')
    then have "m_id m \<noteq> i" using assms(2) by blast
    then have "shut i (apply_op sc now f (Op_fail (m_id m) r) s)" for sc now f r
      by (intro op) auto
    then show ?thesis unfolding PC_rejected send_step.simps fst_steps
      by (intro awaiting_shut assms(1)) simp
  next
    case (PC_unknown m o')
    show ?thesis unfolding PC_unknown send_step.simps fst_steps
      by (intro awaiting_shut assms(1)) (rule op [where op = "Op_uncertain _ _", simplified])
  next
    case (PC_complete m p)
    show ?thesis unfolding PC_complete send_step.simps fst_steps
      by (intro awaiting_shut assms(1)) (rule op [where op = "Op_complete _ _", simplified])
  next
    case (PC_park m p)
    show ?thesis unfolding PC_park send_step.simps fst_steps
      by (intro awaiting_shut assms(1)) (rule op [where op = "Op_uncertain _ _", simplified])
  qed (simp_all add: fst_steps assms(1))
qed

section \<open>The phase of an attempt\<close>

definition pc_phase :: "string \<Rightarrow> send_pc \<Rightarrow> phase" where
  "pc_phase i pc = (case pc of
       PC_send m \<Rightarrow> if m_id m = i then Calling else Idle
     | PC_rejected m _ \<Rightarrow> if m_id m = i then Refused else Idle
     | PC_unknown m _ \<Rightarrow> if m_id m = i then Settling else Idle
     | PC_complete m _ \<Rightarrow> if m_id m = i then Settling else Idle
     | PC_park m _ \<Rightarrow> if m_id m = i then Settling else Idle
     | _ \<Rightarrow> Idle)"

lemma pc_phase_simps [simp]:
  "pc_phase i PC_reserve = Idle" "pc_phase i (PC_expire m) = Idle" "pc_phase i (PC_rearm m) = Idle"
  "pc_phase i (PC_policy m) = Idle" "pc_phase i (PC_block m c x st) = Idle" "pc_phase i (PC_claim m) = Idle"
  "pc_phase i (PC_latest m) = Idle" "pc_phase i (PC_recover m l) = Idle" "pc_phase i (PC_done r) = Idle"
  "pc_phase i (PC_send m) = (if m_id m = i then Calling else Idle)"
  "pc_phase i (PC_rejected m o') = (if m_id m = i then Refused else Idle)"
  "pc_phase i (PC_unknown m o') = (if m_id m = i then Settling else Idle)"
  "pc_phase i (PC_complete m p) = (if m_id m = i then Settling else Idle)"
  "pc_phase i (PC_park m p) = (if m_id m = i then Settling else Idle)"
  by (simp_all add: pc_phase_def)

lemma pc_phase_after_reserve [simp]: "pc_phase i (after_reserve sv now m c) = Idle"
  by (simp add: after_reserve_def split: send_state.split)

text \<open>How a step moves the phase of intent \<open>i\<close>, by the phase it starts from.\<close>

lemma phase_idle:
  assumes "pc_phase i pc = Idle" "schema_ok s" "send_step sv rq ev pc s = (s', pc')"
  shows "pc_phase i pc' = Idle \<or> (pc_phase i pc' = Calling \<and> \<not> shut i s \<and> shut i s')"
proof (cases pc)
  case (PC_claim m)
  show ?thesis
  proof (cases "awaiting ev (claimSendIntent (sv_scope sv) (ev_now ev) (m_id m)) s")
    case (Pair u r)
    show ?thesis
    proof (cases "\<exists>c. r = Some (Inr (Some c))")
      case True
      then obtain c where r: "r = Some (Inr (Some c))" ..
      with Pair have "claimSendIntent (sv_scope sv) (ev_now ev) (m_id m) s = (u, Inr (Some c))"
        by (metis awaiting_Some)
      from claim_opens_shut [OF this assms(2)] show ?thesis
        using assms(3) Pair r PC_claim by (auto simp: step_claim_def split: if_splits)
    next
      case False
      with assms(3) Pair PC_claim show ?thesis
        by (auto simp: step_claim_def split: option.splits sum.splits)
    qed
  qed
next
  case PC_reserve
  with assms(3) show ?thesis
    by (auto simp: step_reserve_def split: prod.splits option.splits sum.splits store_error.splits)
next
  case (PC_rearm m)
  with assms(3) show ?thesis
    by (auto simp: step_rearm_def Let_def split: prod.splits option.splits if_splits)
next
  case (PC_policy m)
  with assms(3) show ?thesis
    by (auto simp: step_policy_def split: prod.splits option.splits policy_decision.splits)
next
  case (PC_latest m)
  with assms(3) show ?thesis
    by (auto simp: step_latest_def split: prod.splits option.splits if_splits)
next
  case (PC_recover m l)
  with assms(3) show ?thesis
    by (auto simp: step_recover_def split: prod.splits option.splits sum.splits)
next
  case (PC_send m)
  with assms(1,3) show ?thesis
    by (auto simp: after_send_def Let_def split: sum.splits if_splits)
next
  case (PC_complete m p)
  with assms(1,3) show ?thesis
    by (auto simp: step_complete_def split: prod.splits option.splits sum.splits if_splits)
next
  case (PC_expire m)
  with assms(3) show ?thesis by (auto simp: step_expire_def split: prod.splits)
next
  case (PC_block m c x st)
  with assms(3) show ?thesis by (auto simp: step_block_def split: prod.splits)
next
  case (PC_rejected m o')
  with assms(3) show ?thesis by (auto simp: step_rejected_def split: prod.splits)
next
  case (PC_unknown m o')
  with assms(3) show ?thesis by (auto simp: step_unknown_def split: prod.splits)
next
  case (PC_park m p)
  with assms(3) show ?thesis by (auto simp: step_park_def split: prod.splits)
next
  case (PC_done r)
  with assms(3) show ?thesis by auto
qed

lemma phase_refused:
  "pc_phase i pc = Refused \<Longrightarrow> send_step sv rq ev pc s = (s', pc') \<Longrightarrow> pc_phase i pc' = Idle"
  by (cases pc) (auto simp: step_rejected_def split: if_splits prod.splits)

lemma phase_settling:
  "pc_phase i pc = Settling \<Longrightarrow> send_step sv rq ev pc s = (s', pc') \<Longrightarrow> pc_phase i pc' \<in> {Settling, Idle}"
  by (cases pc) (auto simp: step_unknown_def step_complete_def step_park_def
      split: if_splits prod.splits option.splits sum.splits)

lemma phase_calling:
  assumes "pc_phase i pc = Calling" "send_step sv rq ev pc s = (s', pc')"
  obtains m where "pc = PC_send m" "m_id m = i" "s' = s" "pc' = after_send ev m"
  using assms by (cases pc) (auto split: if_splits)

section \<open>The system refines the machine of attempts\<close>

definition attempts_of :: "string \<Rightarrow> sys \<Rightarrow> attempts" where
  "attempts_of i S = \<lparr> at_phase = (\<lambda>t. case sy_threads S t of None \<Rightarrow> Idle | Some th \<Rightarrow> pc_phase i (th_pc th)),
     at_shut = shut i (sy_db S), at_delivered = deliveries i S \<rparr>"

lemma operator_shut:
  assumes "operator_op op" "shut i s" "\<not> reopens i (Operator sc now f op)"
  shows "shut i (apply_op sc now f op s)"
proof (cases "\<exists>r. op = Op_reconcile i r \<and> \<not> rs_sent r")
  case True
  with assms(3) show ?thesis by (auto simp: reopens_def)
next
  case False
  with assms show ?thesis by (intro shut_apply_op) (auto simp: operator_op_def)
qed

lemma sys_step_schema: "sys_step S e S' \<Longrightarrow> schema_ok (sy_db S) \<Longrightarrow> schema_ok (sy_db S')"
proof (induction rule: sys_step.induct)
  case (run S t th ev d s' pc' S')
  have "ledger_step (sv_scope (th_server th)) (sy_db S) s'"
    using send_step_ledger [OF run(2), of "th_server th" "th_request th" "th_pc th"] run(4) by simp
  then have "schema_ok s'" using run.prems by (rule ledger_step_schema)
  with run(5) show ?case by simp
next
  case (operator op f S S' sc now)
  then show ?case using apply_op_step [OF operator(2)] ledger_step_schema by fastforce
qed simp_all

lemma delivery_quiet: "pc_phase i pc \<noteq> Calling \<Longrightarrow> filter (\<lambda>x. m_id (snd x) = i) (delivery t pc d) = []"
  by (cases pc) (auto simp: delivery_def split: if_splits)

lemma delivery_count: "length (filter P (delivery t pc d)) \<le> 1"
  by (cases pc) (auto simp: delivery_def)

lemma attempts_run:
  assumes th: "sy_threads S t = Some th" and dp: "delivery_possible (th_pc th) ev d"
    and st: "send_step (th_server th) (th_request th) ev (th_pc th) (sy_db S) = (s', pc')"
    and ok: "schema_ok (sy_db S)"
  shows "attempt_step (attempts_of i S) (attempts_of i
     (S\<lparr>sy_db := s', sy_threads := (sy_threads S)(t \<mapsto> th\<lparr>th_pc := pc'\<rparr>),
        sy_log := delivery t (th_pc th) d @ sy_log S\<rparr>))" (is "attempt_step ?a (attempts_of i ?S)")
proof -
  let ?pc = "th_pc th"
  have ph: "at_phase ?a t = pc_phase i ?pc" using th by (simp add: attempts_of_def)
  have ph': "at_phase (attempts_of i ?S) = (at_phase ?a)(t := pc_phase i pc')"
    using th by (auto simp: attempts_of_def)
  have dl: "at_delivered (attempts_of i ?S)
      = length (filter (\<lambda>x. m_id (snd x) = i) (delivery t ?pc d)) + at_delivered ?a"
    by (simp add: attempts_of_def deliveries_def)
  have sh: "at_shut ?a = shut i (sy_db S)" "at_shut (attempts_of i ?S) = shut i s'"
    by (simp_all add: attempts_of_def)
  have keep: "shut i (sy_db S) \<Longrightarrow> shut i s'" if "pc_phase i ?pc \<noteq> Refused"
  proof -
    assume "shut i (sy_db S)"
    moreover have "m_id m \<noteq> i" if "?pc = PC_rejected m o'" for m o'
      using that \<open>pc_phase i ?pc \<noteq> Refused\<close> by auto
    ultimately have "shut i (fst (send_step (th_server th) (th_request th) ev ?pc (sy_db S)))"
      by (rule send_step_shut)
    with st show "shut i s'" by simp
  qed
  have upd: "b = a\<lparr>at_phase := p, at_shut := h, at_delivered := n\<rparr>"
    if "at_phase b = p" "at_shut b = h" "at_delivered b = n" for a b :: attempts and p h n
    using that by (cases a; cases b) simp
  show ?thesis
  proof (cases "pc_phase i ?pc")
    case Idle
    then have d0: "at_delivered (attempts_of i ?S) = at_delivered ?a"
      using dl delivery_quiet [of i ?pc t d] by simp
    from phase_idle [OF Idle ok st] show ?thesis
    proof
      assume "pc_phase i pc' = Idle"
      then have "at_phase (attempts_of i ?S) = at_phase ?a" using ph ph' Idle by (metis fun_upd_triv)
      with d0 show ?thesis using keep Idle sh
        by (intro attempt_step.outside [where h = "shut i s'"]) (auto intro!: upd)
    next
      assume "pc_phase i pc' = Calling \<and> \<not> shut i (sy_db S) \<and> shut i s'"
      with d0 show ?thesis using ph ph' Idle sh
        by (intro attempt_step.claim [where t = t]) (auto intro!: upd)
    qed
  next
    case Calling
    from phase_calling [OF Calling st] obtain m where m: "?pc = PC_send m" "m_id m = i" "s' = sy_db S"
        "pc' = after_send ev m" .
    show ?thesis
    proof (cases "pc_phase i pc' = Refused")
      case True
      then obtain e where "ev_provider ev = Inl e" "po_kind (classifyProviderSendError e) = Rejected"
        using m by (auto simp: after_send_def Let_def split: sum.splits if_splits)
      then have "\<not> d" using dp m by (simp add: delivery_possible_def)
      then have "at_delivered (attempts_of i ?S) = at_delivered ?a" using dl m by (simp add: delivery_def)
      then show ?thesis using ph ph' sh Calling True m
        by (intro attempt_step.refuse [where t = t]) (auto intro!: upd)
    next
      case False
      then have "pc_phase i pc' = Settling"
        using m by (auto simp: after_send_def Let_def split: sum.splits if_splits)
      moreover have "at_delivered (attempts_of i ?S) \<in> {at_delivered ?a, Suc (at_delivered ?a)}"
        using dl m by (auto simp: delivery_def)
      ultimately show ?thesis using ph ph' sh Calling m
        by (intro attempt_step.settle [where t = t and p = Settling and d = "at_delivered (attempts_of i ?S)"])
           (auto intro!: upd)
    qed
  next
    case Refused
    then have "at_delivered (attempts_of i ?S) = at_delivered ?a"
      using dl delivery_quiet [of i ?pc t d] by simp
    moreover have "pc_phase i pc' = Idle" by (rule phase_refused [OF Refused st])
    ultimately show ?thesis using ph ph' sh Refused
      by (intro attempt_step.release [where t = t and h = "shut i s'"]) (auto intro!: upd)
  next
    case Settling
    then have "at_delivered (attempts_of i ?S) = at_delivered ?a"
      using dl delivery_quiet [of i ?pc t d] by simp
    moreover have "pc_phase i pc' \<in> {Settling, Idle}" by (rule phase_settling [OF Settling st])
    ultimately show ?thesis using ph ph' sh Settling keep
      by (intro attempt_step.finish [where t = t and p = "pc_phase i pc'" and h = "shut i s'"]) (auto intro!: upd)
  qed
qed

lemma attempts_crash:
  assumes th: "sy_threads S t = Some th"
  shows "attempt_step (attempts_of i S) (attempts_of i
     (S\<lparr>sy_threads := (sy_threads S)(t \<mapsto> th\<lparr>th_pc := PC_done internal_error\<rparr>),
        sy_log := delivery t (th_pc th) d @ sy_log S\<rparr>))"
    (is "attempt_step ?a (attempts_of i ?S)")
proof -
  have ph: "at_phase ?a t = pc_phase i (th_pc th)" using th by (simp add: attempts_of_def)
  have ph': "at_phase (attempts_of i ?S) = (at_phase ?a)(t := Idle)"
    by (auto simp: attempts_of_def)
  have dl: "at_delivered (attempts_of i ?S)
      = length (filter (\<lambda>x. m_id (snd x) = i) (delivery t (th_pc th) d)) + at_delivered ?a"
    by (simp add: attempts_of_def deliveries_def)
  have sh: "at_shut (attempts_of i ?S) = at_shut ?a" by (simp add: attempts_of_def)
  have upd: "b = a\<lparr>at_phase := p, at_shut := h, at_delivered := n\<rparr>"
    if "at_phase b = p" "at_shut b = h" "at_delivered b = n" for a b :: attempts and p h n
    using that by (cases a; cases b) simp
  show ?thesis
  proof (cases "pc_phase i (th_pc th) = Calling")
    case True
    have "at_delivered (attempts_of i ?S) \<in> {at_delivered ?a, Suc (at_delivered ?a)}"
    proof -
      obtain n where "n \<le> 1" "at_delivered (attempts_of i ?S) = n + at_delivered ?a"
        using dl delivery_count by blast
      then show ?thesis by (cases n) auto
    qed
    with True ph ph' sh show ?thesis
      by (intro attempt_step.settle [where t = t and p = Idle and d = "at_delivered (attempts_of i ?S)"])
         (auto intro!: upd)
  next
    case False
    then have d0: "at_delivered (attempts_of i ?S) = at_delivered ?a" using dl delivery_quiet by simp
    show ?thesis
    proof (cases "pc_phase i (th_pc th)")
      case Idle
      then have "at_phase (attempts_of i ?S) = at_phase ?a" using ph ph' by (metis fun_upd_triv)
      with d0 sh show ?thesis by (intro attempt_step.outside [where h = "at_shut ?a"]) (auto intro!: upd)
    next
      case Refused
      with d0 sh ph ph' show ?thesis
        by (intro attempt_step.release [where t = t and h = "at_shut ?a"]) (auto intro!: upd)
    next
      case Settling
      with d0 sh ph ph' show ?thesis
        by (intro attempt_step.finish [where t = t and p = Idle and h = "at_shut ?a"]) (auto intro!: upd)
    qed (use False in simp)
  qed
qed

lemma attempts_outside:
  assumes "at_phase (attempts_of i S') = at_phase (attempts_of i S)" "sy_log S' = sy_log S"
    "shut i (sy_db S) \<Longrightarrow> shut i (sy_db S')"
  shows "attempt_step (attempts_of i S) (attempts_of i S')"
  using assms
  by (intro attempt_step.outside [where h = "shut i (sy_db S')"]) (auto simp: attempts_of_def deliveries_def)

interpretation send: simulation sys_step "\<lambda>e. \<not> reopens i e" "\<lambda>S. schema_ok (sy_db S)" "attempts_of i" attempt_step for i
proof
  fix S e S' assume "sys_step S e S'" "schema_ok (sy_db S)"
  then show "schema_ok (sy_db S')" by (rule sys_step_schema)
next
  fix S e S' assume "sys_step S e S'" "schema_ok (sy_db S)" "\<not> reopens i e"
  then show "attempt_step (attempts_of i S) (attempts_of i S')"
  proof (cases rule: sys_step.cases)
    case (start t sv rq)
    then show ?thesis by (intro attempts_outside) (auto simp: attempts_of_def)
  next
    case (run t th ev d s' pc')
    with attempts_run [OF run(2,4,5)] \<open>schema_ok (sy_db S)\<close> show ?thesis by simp
  next
    case (crash t th d)
    with attempts_crash [OF crash(2)] show ?thesis by simp
  next
    case (operator op f sc now)
    with operator_shut [OF operator(2)] \<open>\<not> reopens i e\<close> show ?thesis
      by (intro attempts_outside) (auto simp: attempts_of_def)
  qed
qed

lemma boot_attempts: "attempts_ok (attempts_of i (boot s))"
  by (simp add: attempts_ok_def attempts_of_def boot_def deliveries_def)

lemma trace_attempts_ok:
  assumes "trace sys_step (boot s) es S" "schema_ok s" "\<forall>e \<in> set es. \<not> reopens i e"
  shows "attempts_ok (attempts_of i S)"
proof (rule send.trace_invariant [where I = attempts_ok])
  show "schema_ok (sy_db (boot s))" using assms(2) by (simp add: boot_def)
qed (use attempts_ok_step assms(1,3) boot_attempts in auto)

text \<open>
  C1. At most once: from any store, whatever requests, replays, lease expiries, store failures,
  crashes and operator actions follow, an intent is delivered at most once as long as no
  operator reconciles that intent as not sent.
\<close>

theorem at_most_once:
  assumes "trace sys_step (boot s) es S" "schema_ok s" "\<forall>e \<in> set es. \<not> reopens i e"
  shows "deliveries i S \<le> 1"
  using trace_attempts_ok [OF assms] by (simp add: attempts_ok_def attempts_of_def)

section \<open>One delivery per key\<close>









section \<open>Honest answers\<close>

definition answer_honest :: "send_response \<Rightarrow> bool \<Rightarrow> bool" where
  "answer_honest r d \<longleftrightarrow> (sr_sent r = Some (Some False) \<longrightarrow> \<not> d) \<and> (sr_retry_safe r = Some True \<longrightarrow> \<not> d)
     \<and> (sr_sent r = Some (Some True) \<longrightarrow> sr_replay r \<or> d)"

definition pc_honest :: "send_pc \<Rightarrow> bool \<Rightarrow> bool" where
  "pc_honest pc d = (case pc of
       PC_unknown _ _ \<Rightarrow> True | PC_complete _ _ \<Rightarrow> d | PC_park _ _ \<Rightarrow> d
     | PC_done r \<Rightarrow> answer_honest r d | _ \<Rightarrow> \<not> d)"

lemma pc_honest_simps [simp]:
  "pc_honest PC_reserve d = (\<not> d)" "pc_honest (PC_expire m) d = (\<not> d)" "pc_honest (PC_rearm m) d = (\<not> d)"
  "pc_honest (PC_policy m) d = (\<not> d)" "pc_honest (PC_block m c x st) d = (\<not> d)"
  "pc_honest (PC_claim m) d = (\<not> d)" "pc_honest (PC_latest m) d = (\<not> d)"
  "pc_honest (PC_recover m l) d = (\<not> d)" "pc_honest (PC_send m) d = (\<not> d)"
  "pc_honest (PC_rejected m o') d = (\<not> d)" "pc_honest (PC_unknown m o') d" "pc_honest (PC_complete m p) d = d"
  "pc_honest (PC_park m p) d = d" "pc_honest (PC_done r) d = answer_honest r d"
  by (simp_all add: pc_honest_def)

lemmas response_defs = plain_response_def failure_def internal_error_def missingProviderProofResponse_def
  replay_response_def in_progress_response_def tombstoned_response_def sent_response_def

lemma honest_responses [simp]:
  "answer_honest internal_error d" "answer_honest (replay_response m) False"
  "answer_honest (in_progress_response m) d" "answer_honest (tombstoned_response x l) d"
  "answer_honest (failure st x m False) d" "answer_honest (failure st x m r) False"
  "answer_honest (sent_response m p) True"
  "answer_honest (failure st x m False\<lparr>sr_reason := rs\<rparr>) d"
  "answer_honest (plain_response st\<lparr>sr_error := e, sr_retry_safe := Some False\<rparr>) d"
  "answer_honest (failure st x m True\<lparr>sr_reason := rs, sr_sent := Some (Some False)\<rparr>) False"
  "answer_honest (failure st x m True\<lparr>sr_reason := rs, sr_provider_error := pe, sr_sent := Some (Some False)\<rparr>) False"
  "answer_honest (failure st x m False\<lparr>sr_reason := rs, sr_provider_error := pe, sr_sent := Some None, sr_reconcile := True\<rparr>) d"
  "answer_honest (sent_response m p\<lparr>sr_warning := True, sr_retry_safe := Some False\<rparr>) True"
  by (simp_all add: answer_honest_def response_defs split: option.split)

lemma after_reserve_honest [simp]: "pc_honest (after_reserve sv now m c) False"
  by (simp add: after_reserve_def split: send_state.split)

lemma step_honest:
  assumes "pc_honest pc d0" "send_step sv rq ev pc s = (s', pc')" "delivery_possible pc ev d"
  shows "pc_honest pc' (d0 \<or> delivery t pc d \<noteq> [])"
proof (cases pc)
  case PC_reserve
  with assms show ?thesis
    by (auto simp: step_reserve_def delivery_def split: prod.splits option.splits sum.splits store_error.splits)
next
  case (PC_expire m)
  with assms show ?thesis by (auto simp: step_expire_def delivery_def split: prod.splits)
next
  case (PC_rearm m)
  with assms show ?thesis
    by (auto simp: step_rearm_def delivery_def Let_def split: prod.splits option.splits if_splits)
next
  case (PC_policy m)
  with assms show ?thesis
    by (auto simp: step_policy_def delivery_def split: prod.splits option.splits policy_decision.splits)
next
  case (PC_block m c x st)
  with assms show ?thesis by (auto simp: step_block_def delivery_def split: prod.splits)
next
  case (PC_claim m)
  with assms show ?thesis
    by (auto simp: step_claim_def delivery_def split: prod.splits option.splits sum.splits)
next
  case (PC_latest m)
  with assms show ?thesis
    by (auto simp: step_latest_def delivery_def split: prod.splits option.splits if_splits)
next
  case (PC_recover m l)
  with assms show ?thesis
    by (auto simp: step_recover_def delivery_def split: prod.splits option.splits sum.splits)
next
  case (PC_send m)
  with assms show ?thesis
    by (auto simp: after_send_def delivery_def delivery_possible_def Let_def split: sum.splits if_splits)
next
  case (PC_rejected m o')
  with assms show ?thesis by (auto simp: step_rejected_def delivery_def split: prod.splits)
next
  case (PC_unknown m o')
  with assms show ?thesis by (auto simp: step_unknown_def delivery_def split: prod.splits)
next
  case (PC_complete m p)
  with assms show ?thesis
    by (auto simp: step_complete_def delivery_def split: prod.splits option.splits sum.splits)
next
  case (PC_park m p)
  with assms show ?thesis by (auto simp: step_park_def delivery_def split: prod.splits)
next
  case (PC_done r)
  with assms show ?thesis by (auto simp: delivery_def)
qed

definition delivered_by :: "nat \<Rightarrow> sys \<Rightarrow> bool" where
  "delivered_by t S \<longleftrightarrow> t \<in> fst ` set (sy_log S)"

definition sys_honest :: "sys \<Rightarrow> bool" where
  "sys_honest S \<longleftrightarrow> (\<forall>t. case sy_threads S t of None \<Rightarrow> \<not> delivered_by t S
     | Some th \<Rightarrow> pc_honest (th_pc th) (delivered_by t S))"

lemma delivered_by_app:
  "sy_log S' = delivery t pc d @ sy_log S \<Longrightarrow>
     delivered_by u S' = (delivered_by u S \<or> (u = t \<and> delivery t pc d \<noteq> []))"
  by (auto simp: delivered_by_def delivery_def split: send_pc.splits if_splits)

lemma sys_honest_update:
  assumes "sys_honest S" "sy_threads S' = (sy_threads S)(t \<mapsto> th)"
    and "\<And>u. u \<noteq> t \<Longrightarrow> delivered_by u S' = delivered_by u S" "pc_honest (th_pc th) (delivered_by t S')"
  shows "sys_honest S'"
  unfolding sys_honest_def
proof
  fix u
  show "case sy_threads S' u of None \<Rightarrow> \<not> delivered_by u S' | Some th \<Rightarrow> pc_honest (th_pc th) (delivered_by u S')"
  proof (cases "u = t")
    case False
    with assms show ?thesis by (cases "sy_threads S u") (auto simp: sys_honest_def dest: spec [of _ u])
  qed (use assms in simp)
qed

lemma sys_honest_step: "sys_step S e S' \<Longrightarrow> sys_honest S \<Longrightarrow> sys_honest S'"
proof (induction rule: sys_step.induct)
  case (start S t S' sv rq)
  have "\<not> delivered_by t S" using start(1,3) by (auto simp: sys_honest_def dest: spec [of _ t])
  with start show ?case by (intro sys_honest_update [OF start(3)]) (auto simp: delivered_by_def)
next
  case (run S t th ev d s' pc' S')
  have h: "pc_honest (th_pc th) (delivered_by t S)"
    using run(1,6) by (auto simp: sys_honest_def dest: spec [of _ t])
  have l: "sy_log S' = delivery t (th_pc th) d @ sy_log S" using run(5) by simp
  show ?case
  proof (rule sys_honest_update [OF run(6)])
    show "sy_threads S' = (sy_threads S)(t \<mapsto> th\<lparr>th_pc := pc'\<rparr>)" using run(5) by simp
    show "pc_honest (th_pc (th\<lparr>th_pc := pc'\<rparr>)) (delivered_by t S')"
      using step_honest [OF h run(4,3), of t] delivered_by_app [OF l] by simp
  qed (simp add: delivered_by_app [OF l])
next
  case (crash S t th S' d)
  have l: "sy_log S' = delivery t (th_pc th) d @ sy_log S" using crash(2) by simp
  show ?case
  proof (rule sys_honest_update [OF crash(3)])
    show "sy_threads S' = (sy_threads S)(t \<mapsto> th\<lparr>th_pc := PC_done internal_error\<rparr>)" using crash(2) by simp
  qed (simp_all add: delivered_by_app [OF l])
next
  case (operator op f S S' sc now)
  have d: "delivered_by u S' = delivered_by u S" for u using operator(3) by (simp add: delivered_by_def)
  have th: "sy_threads S' = sy_threads S" using operator(3) by simp
  show ?case using operator(4) unfolding sys_honest_def th d .
qed

text \<open>
  C3. Answers are honest: a request that was told \<open>sent: false\<close> or \<open>retry_safe: true\<close> delivered
  nothing, and a request that was told \<open>sent: true\<close> without being a replay delivered.
\<close>

theorem answers_are_honest:
  assumes "trace sys_step (boot s) es S" "sy_threads S t = Some th" "th_pc th = PC_done r"
  shows "(sr_sent r = Some (Some False) \<or> sr_retry_safe r = Some True \<longrightarrow> \<not> delivered_by t S)
    \<and> (sr_sent r = Some (Some True) \<and> \<not> sr_replay r \<longrightarrow> delivered_by t S)"
proof -
  have "trace sys_step a es b \<Longrightarrow> sys_honest a \<Longrightarrow> sys_honest b" for a b es
    by (induction rule: trace.induct) (auto intro: sys_honest_step)
  moreover have "sys_honest (boot s)" by (simp add: sys_honest_def boot_def delivered_by_def)
  ultimately have "sys_honest S" using assms(1) by blast
  then have "pc_honest (th_pc th) (delivered_by t S)"
    using assms(2) by (auto simp: sys_honest_def dest: spec [of _ t])
  then show ?thesis using assms(3) by (auto simp: answer_honest_def)
qed

end
