(* ===== verification/Send_Handler_Facts.thy ===== *)
theory Send_Handler_Facts
  imports Send_Handler Send_Ledger_Facts Outbound_Policy_Facts
begin

text \<open>
  One request on its own: its handler ends after at most seven awaited calls whatever the
  environment does, and without faults a new intent that the policy gate allows is sent
  and recorded.  Also the reach of the daily quota.
\<close>

fun run_handler :: "server \<Rightarrow> send_request \<Rightarrow> env list \<Rightarrow> send_pc \<Rightarrow> db \<Rightarrow> db \<times> send_pc" where
  "run_handler sv rq [] pc s = (s, pc)"
| "run_handler sv rq (ev # evs) pc s =
     (case send_step sv rq ev pc s of (s', pc') \<Rightarrow> run_handler sv rq evs pc' s')"

section \<open>Termination\<close>

fun pc_rank :: "send_pc \<Rightarrow> nat" where
  "pc_rank PC_reserve = 7"
| "pc_rank (PC_rearm _) = 6"
| "pc_rank (PC_policy _) = 5"
| "pc_rank (PC_claim _) = 4"
| "pc_rank (PC_send _) = 3"
| "pc_rank (PC_latest _) = 2"
| "pc_rank (PC_complete _ _) = 2"
| "pc_rank (PC_done _) = 0"
| "pc_rank _ = 1"

lemma after_reserve_rank: "pc_rank (after_reserve sv now m c) \<le> 6"
  by (simp add: after_reserve_def split: send_state.split)

lemma step_rank: "send_step sv rq ev pc s = (s', pc') \<Longrightarrow> pc_rank pc' \<le> pc_rank pc - 1"
proof (cases pc)
  case PC_reserve
  moreover assume "send_step sv rq ev pc s = (s', pc')"
  ultimately show ?thesis using after_reserve_rank
    by (auto simp: step_reserve_def split: prod.splits option.splits sum.splits store_error.splits)
next
  case (PC_policy m)
  moreover assume "send_step sv rq ev pc s = (s', pc')"
  ultimately show ?thesis
    by (auto simp: step_policy_def split: prod.splits option.splits policy_decision.splits)
next
  case (PC_latest m)
  moreover assume "send_step sv rq ev pc s = (s', pc')"
  ultimately show ?thesis by (auto simp: step_latest_def split: prod.splits option.splits if_splits)
qed (auto simp: step_expire_def step_rearm_def step_block_def step_claim_def step_recover_def
      step_rejected_def step_unknown_def step_complete_def step_park_def after_send_def Let_def
      split: prod.splits option.splits sum.splits if_splits)

text \<open>The handler among others: before each of its steps they change the store as they like.\<close>

fun run_among :: "server \<Rightarrow> send_request \<Rightarrow> ((db \<Rightarrow> db) \<times> env) list \<Rightarrow> send_pc \<Rightarrow> db \<Rightarrow> send_pc" where
  "run_among sv rq [] pc s = pc"
| "run_among sv rq ((others, ev) # evs) pc s =
     (case send_step sv rq ev pc (others s) of (s', pc') \<Rightarrow> run_among sv rq evs pc' s')"

lemma run_rank: "pc_rank pc \<le> length evs \<Longrightarrow> pc_rank (run_among sv rq evs pc s) = 0"
proof (induction evs arbitrary: pc s)
  case (Cons e evs)
  obtain others ev where e: "e = (others, ev)" by (cases e)
  obtain s' pc' where st: "send_step sv rq ev pc (others s) = (s', pc')"
    by (cases "send_step sv rq ev pc (others s)")
  from step_rank [OF st] Cons.prems have "pc_rank pc' \<le> length evs" by simp
  from Cons.IH [OF this] st e show ?case by simp
qed simp

lemma rank_0: "pc_rank pc = 0 \<longleftrightarrow> (\<exists>r. pc = PC_done r)"
  by (cases pc) auto

text \<open>
  C37. The send handler always answers: after seven awaited calls, whatever each of them
  returned, whether it failed, and whatever other requests did to the store in between, the
  request has its response.
\<close>

theorem handler_answers:
  assumes "length evs = 7"
  shows "\<exists>r. run_among sv rq evs PC_reserve s = PC_done r"
  using run_rank [of PC_reserve evs sv rq s] assms by (simp add: rank_0)

lemma handler_answers_witness:
  "\<forall>sv rq ev. \<exists>r. run_among sv rq (replicate 7 (\<lambda>s. s\<lparr>messages := []\<rparr>, ev)) PC_reserve empty_db = PC_done r"
  by (intro allI handler_answers) simp

section \<open>The fault-free run of a new intent\<close>

lemma find_append_last: "\<forall>x \<in> set xs. \<not> P x \<Longrightarrow> P r \<Longrightarrow> find P (xs @ [r]) = Some r"
  by (induction xs) auto

lemma update_last:
  assumes "messages s = ms @ [r]" "\<forall>m \<in> set ms. \<not> P m" "P r"
  shows "messages (fst (update_message P f s)) = ms @ [f r]" "snd (update_message P f s) = Some (f r)"
proof -
  have "map (\<lambda>m. if P m then f m else m) ms = ms" using assms(2) by (induction ms) auto
  then show "messages (fst (update_message P f s)) = ms @ [f r]" using assms(1,3) by simp
  show "snd (update_message P f s) = Some (f r)"
    using assms find_append_last [of ms P r] by (simp add: update_message_def sql_update_def)
qed

lemma claim_last:
  assumes "sc_atomic sc" "messages s = ms @ [r]" "\<forall>m \<in> set ms. m_id m \<noteq> m_id r"
    and r: "m_tenant r = sc_tenant sc" "m_send_state r = SS_pending" "m_key r = Some key" "key \<noteq> []"
    and "\<not> tombstoned sc (sendIntentKeyDigest sc key) s"
  shows "\<exists>s'. claimSendIntent sc now (m_id r) s = (s', Inr (Some (set_sending now r)))
    \<and> messages s' = ms @ [set_sending now r]"
proof -
  let ?P = "row_at sc (m_id r) SS_pending"
  have f: "find ?P (messages s) = Some r"
    unfolding assms(2) by (rule find_append_last) (use assms(3) r in auto)
  have u: "messages (fst (update_message ?P (set_sending now) s)) = ms @ [set_sending now r]"
      "snd (update_message ?P (set_sending now) s) = Some (set_sending now r)"
    using update_last [OF assms(2), of ?P "set_sending now"] assms(3) r by auto
  then have "claimSendIntent sc now (m_id r) s = (fst (update_message ?P (set_sending now) s), Inr (Some (set_sending now r)))"
    using assms(1,8) f r(3,4)
    by (simp add: claimSendIntent_def atomically_def transaction_def claim_action_def case_prod_beta)
  with u(1) show ?thesis by blast
qed

text \<open>
  C36. A new intent is sent: with a transactional store, a key that was neither used nor
  cancelled, an allowing policy gate and no failure, five awaited calls end in the 202
  answer with the provider's id, and the row is in the ledger as sent with that id, the
  request's recipients and its payload hash.
\<close>

theorem new_intent_is_sent:
  fixes sv rq
  defines "sc \<equiv> sv_scope sv"
  assumes store: "sc_atomic sc" "safe_send_intent_key (rq_key rq)"
      "\<not> tombstoned sc (sendIntentKeyDigest sc (rq_key rq)) s" "getSendIntentByIdempotencyKey sc (rq_key rq) s = None"
      "ev_fresh e1 \<notin> m_id ` set (messages s)"
    and calm: "\<forall>e \<in> {e1, e2, e3, e5}. ev_fault e = No_fault" "ev_provider e4 = Inr pid"
    and allowed: "snd (evaluateOutboundPolicy sc (ev_now e2) (rq_from rq) (rq_to rq @ rq_cc rq @ rq_bcc rq)
      (if rq_send_key rq = [] then None else Some (rq_send_key rq)) (rq_wide rq)
      (s\<lparr>messages := messages s @ [reserve_row sc (ev_now e1) (ev_fresh e1) (reserve_input sv rq) (rq_key rq) (request_hash sv rq)]\<rparr>)) = Allowed"
  shows "\<exists>s' r m. run_handler sv rq [e1, e2, e3, e4, e5] PC_reserve s = (s', PC_done r)
    \<and> sr_status r = 202 \<and> sr_sent r = Some (Some True) \<and> sr_pid r = Some pid
    \<and> messages s' = messages s @ [m] \<and> m_id m = ev_fresh e1 \<and> m_key m = Some (rq_key rq) \<and> m_tenant m = sc_tenant sc
    \<and> m_send_state m = SS_sent \<and> m_provider_message_id m = Some pid \<and> m_to m = rq_to rq
    \<and> m_payload_hash m = Some (request_hash sv rq)"
proof -
  let ?r = "reserve_row sc (ev_now e1) (ev_fresh e1) (reserve_input sv rq) (rq_key rq) (request_hash sv rq)"
  let ?s1 = "s\<lparr>messages := messages s @ [?r]\<rparr>"
  have r: "m_id ?r = ev_fresh e1" "m_tenant ?r = sc_tenant sc" "m_key ?r = Some (rq_key rq)" "m_send_state ?r = SS_pending"
      "m_to ?r = rq_to rq" "m_payload_hash ?r = Some (request_hash sv rq)"
    by (simp_all add: reserve_row_def message_of_input_def or_default_def reserve_input_def)
  have aw: "awaiting e f x = (fst (f x), Some (snd (f x)))" if "e \<in> {e1, e2, e3, e5}" for e x and f :: "db \<Rightarrow> db \<times> 'a"
    using calm(1) that by (auto simp: awaiting_def)
  have new: "\<forall>m \<in> set (messages s). m_id m \<noteq> ev_fresh e1" using store(5) by (metis imageI)
  have "reserveSendIntent sc (ev_now e1) (ev_fresh e1) (reserve_input sv rq) (rq_key rq) (request_hash sv rq) s
      = (?s1, Inr (?r, True))"
    using store by (simp add: reserveSendIntent_def lock_defs reserve_action_def Let_def)
  then have 1: "send_step sv rq e1 PC_reserve s = (?s1, PC_policy ?r)"
    using calm(1) by (simp add: step_reserve_def awaiting_def sc_def after_reserve_def)
  let ?pol = "evaluateOutboundPolicy sc (ev_now e2) (rq_from rq) (rq_to rq @ rq_cc rq @ rq_bcc rq)
      (if rq_send_key rq = [] then None else Some (rq_send_key rq)) (rq_wide rq) ?s1"
  have 2: "send_step sv rq e2 (PC_policy ?r) ?s1 = (fst ?pol, PC_claim ?r)"
    using calm(1) allowed by (simp add: step_policy_def awaiting_def sc_def)
  have p: "messages (fst ?pol) = messages s @ [?r]" "tombstones (fst ?pol) = tombstones s"
    using policy_store by simp_all
  have k: "rq_key rq \<noteq> []" using store(2) by (simp add: safe_send_intent_key_def)
  have n: "\<forall>m \<in> set (messages s). m_id m \<noteq> m_id ?r" using new r(1) by simp
  have t: "\<not> tombstoned sc (sendIntentKeyDigest sc (rq_key rq)) (fst ?pol)"
    using store(3) p(2) by (simp add: tombstoned_def)
  obtain s3 where c: "claimSendIntent sc (ev_now e3) (ev_fresh e1) (fst ?pol) = (s3, Inr (Some (set_sending (ev_now e3) ?r)))"
      "messages s3 = messages s @ [set_sending (ev_now e3) ?r]"
    using claim_last [OF store(1) p(1) n r(2,4,3) k t, of "ev_now e3"] unfolding r(1) by blast
  then have 3: "send_step sv rq e3 (PC_claim ?r) (fst ?pol) = (s3, PC_send (set_sending (ev_now e3) ?r))"
    using calm(1) r(1) by (simp add: step_claim_def awaiting_def sc_def)
  have 4: "send_step sv rq e4 (PC_send (set_sending (ev_now e3) ?r)) s3 = (s3, PC_complete (set_sending (ev_now e3) ?r) pid)"
    using calm(2) by (simp add: after_send_def)
  let ?m = "set_sent (ev_now e5) pid (set_sending (ev_now e3) ?r)"
  have i: "m_id (set_sending (ev_now e3) ?r) = ev_fresh e1" "m_tenant (set_sending (ev_now e3) ?r) = sc_tenant sc"
    using r(1,2) by (simp_all add: row_writers)
  obtain s5 where d: "completeSendIntent sc (ev_now e5) (ev_fresh e1) pid s3 = (s5, Inr ?m)" "messages s5 = messages s @ [?m]"
    using update_last [OF c(2), of "\<lambda>m. m_id m = ev_fresh e1 \<and> m_tenant m = sc_tenant sc" "set_sent (ev_now e5) pid"] i new
    by (cases "update_message (\<lambda>m. m_id m = ev_fresh e1 \<and> m_tenant m = sc_tenant sc) (set_sent (ev_now e5) pid) s3")
       (auto simp: completeSendIntent_def)
  then have 5: "send_step sv rq e5 (PC_complete (set_sending (ev_now e3) ?r) pid) s3 = (s5, PC_done (sent_response ?m pid))"
    using calm(1) i(1) by (simp add: step_complete_def awaiting_def sc_def)
  have "run_handler sv rq [e1, e2, e3, e4, e5] PC_reserve s = (s5, PC_done (sent_response ?m pid))"
    by (simp only: run_handler.simps 1 2 3 4 5 prod.case)
  with d(2) r show ?thesis
    by (intro exI conjI) (assumption | simp add: sent_response_def plain_response_def row_writers)+
qed

end
