(* ===== verification/Send_Protocol_Trace.thy ===== *)
theory Send_Protocol_Trace
  imports Send_Protocol_Facts Send_Handler_Facts
begin

text \<open>
  Concrete runs of the send path: the run of a single request without faults, which
  delivers and records the send, and a run in which an intent is delivered twice although
  the one reconciliation in it was true.
\<close>

section \<open>A store with one sender and one intent\<close>

definition demo_sv :: server where
  "demo_sv = \<lparr> sv_scope = key_scope ''t1'', sv_lease = None, sv_provider = ''ses'' \<rparr>"

definition demo_rq :: send_request where
  "demo_rq = \<lparr> rq_from = ''al@x.io'', rq_to = [''al@x.io''], rq_cc = [], rq_bcc = [], rq_subject = ''hi'',
     rq_key = units_of ''k1'', rq_reply_to = None, rq_text = None, rq_html = None,
     rq_attachments = [], rq_send_key = [], rq_wide = True \<rparr>"

definition base :: db where
  "base = empty_db\<lparr>addresses := [gate_address\<lparr>a_daily_quota := None\<rparr>]\<rparr>"

definition single :: "message \<Rightarrow> db" where
  "single m = base\<lparr>messages := [m]\<rparr>"

definition demo_hash :: string where
  "demo_hash = request_hash demo_sv demo_rq"

definition fits :: "message \<Rightarrow> send_state \<Rightarrow> bool" where
  "fits m st \<longleftrightarrow> m_id m = ''i1'' \<and> m_tenant m = ''t1'' \<and> m_key m = Some (units_of ''k1'')
     \<and> m_payload_hash m = Some demo_hash \<and> m_send_state m = st"

lemma fitsD:
  assumes "fits m st"
  shows "m_id m = ''i1''" "m_tenant m = ''t1''" "m_key m = Some (units_of ''k1'')"
    "m_payload_hash m = Some demo_hash" "m_send_state m = st"
  using assms by (simp_all add: fits_def)

lemma fits_writers:
  "fits m st \<Longrightarrow> fits (set_sending now m) SS_sending" "fits m st \<Longrightarrow> fits (set_sent now p m) SS_sent"
  "fits m st \<Longrightarrow> fits (set_failed now r m) SS_failed" "fits m st \<Longrightarrow> fits (set_rearmed now m) SS_pending"
  "fits m st \<Longrightarrow> fits (set_uncertain now e m) SS_uncertain"
  "fits m st \<Longrightarrow> fits (set_reconciled_not_sent now ev w m) SS_failed"
  by (simp_all add: fits_def row_writers)

lemma base_tables [simp]:
  "messages base = []" "tombstones base = []" "domains base = []" "contacts base = []" "warming base = []"
  "addresses base = [gate_address\<lparr>a_daily_quota := None\<rparr>]"
  by (simp_all add: base_def empty_db_def)

lemma single_tables [simp]:
  "messages (single m) = [m]" "tombstones (single m) = []" "domains (single m) = []"
  "contacts (single m) = []" "warming (single m) = []"
  "addresses (single m) = [gate_address\<lparr>a_daily_quota := None\<rparr>]"
  by (simp_all add: single_def)

lemma single_update [simp]: "(single m)\<lparr>messages := [m']\<rparr> = single m'"
  by (simp add: single_def)

lemma base_append: "base\<lparr>messages := [m]\<rparr> = single m"
  by (simp add: single_def)

lemma update_single: "update_message P f (single m) = (if P m then (single (f m), Some (f m)) else (single m, None))"
  by (simp add: update_message_def sql_update_def)

lemma demo_scope_simps [simp]: "sc_tenant (key_scope t) = t" "sc_atomic (key_scope t)" "sv_scope demo_sv = key_scope ''t1''"
  "sv_lease demo_sv = None"
  by (simp_all add: key_scope_def demo_sv_def)

lemma demo_rq_simps [simp]: "rq_key demo_rq = units_of ''k1''" "rq_from demo_rq = ''al@x.io''"
  "rq_to demo_rq = [''al@x.io'']" "rq_cc demo_rq = []" "rq_bcc demo_rq = []" "rq_send_key demo_rq = []"
  "rq_wide demo_rq"
  by (simp_all add: demo_rq_def)

lemma demo_key_safe: "safe_send_intent_key (units_of ''k1'')"
  by (simp add: safe_send_intent_key_def trim_by_def is_ws_unit_def)

lemma sender_single: "sender_row (key_scope ''t1'') ''al@x.io'' (single m) = Some (gate_address\<lparr>a_daily_quota := None\<rparr>, None)"
  using gate_email by (simp add: sender_row_def gate_address_def join_domain_def joins_def)

section \<open>The steps on such a store\<close>

definition quiet :: "int \<Rightarrow> provider_error + string \<Rightarrow> env" where
  "quiet now p = \<lparr> ev_now = now, ev_fresh = ''i1'', ev_fault = No_fault, ev_provider = p \<rparr>"

definition later :: "int \<Rightarrow> provider_error + string \<Rightarrow> env" where
  "later now p = \<lparr> ev_now = now, ev_fresh = ''i2'', ev_fault = No_fault, ev_provider = p \<rparr>"

lemma env_simps [simp]:
  "awaiting (quiet now p) f s = (fst (f s), Some (snd (f s)))" "awaiting (later now p) f s = (fst (f s), Some (snd (f s)))"
  "ev_now (quiet now p) = now" "ev_now (later now p) = now" "ev_fresh (quiet now p) = ''i1''"
  "ev_fresh (later now p) = ''i2''" "ev_provider (quiet now p) = p" "ev_provider (later now p) = p"
  by (simp_all add: quiet_def later_def awaiting_def)

definition first_row :: "int \<Rightarrow> message" where
  "first_row now = reserve_row (key_scope ''t1'') now ''i1'' (reserve_input demo_sv demo_rq) (units_of ''k1'') demo_hash"

lemma fits_first: "fits (first_row now) SS_pending"
  by (simp add: fits_def first_row_def reserve_row_def message_of_input_def or_default_def)

lemma reserve_new:
  "send_step demo_sv demo_rq (quiet now p) PC_reserve base = (single (first_row now), PC_policy (first_row now))"
proof -
  have "reserveSendIntent (key_scope ''t1'') now ''i1'' (reserve_input demo_sv demo_rq) (units_of ''k1'')
      (request_hash demo_sv demo_rq) base = (single (first_row now), Inr (first_row now, True))"
    using demo_key_safe
    by (simp add: reserveSendIntent_def lock_defs reserve_action_def tombstoned_def
        getSendIntentByIdempotencyKey_def first_row_def demo_hash_def base_append Let_def)
  then show ?thesis by (simp add: step_reserve_def after_reserve_def)
qed

lemma reserve_old:
  assumes "fits m st" "st \<noteq> SS_cancelled"
  shows "send_step demo_sv demo_rq (later now p) PC_reserve (single m) = (single m, after_reserve demo_sv now m False)"
proof -
  have "reserveSendIntent (key_scope ''t1'') now ''i2'' (reserve_input demo_sv demo_rq) (units_of ''k1'')
      (request_hash demo_sv demo_rq) (single m) = (single m, Inr (m, False))"
    using demo_key_safe fitsD [OF assms(1)] assms(2)
    by (simp add: reserveSendIntent_def lock_defs reserve_action_def tombstoned_def
        getSendIntentByIdempotencyKey_def demo_hash_def)
  then show ?thesis by (simp add: step_reserve_def)
qed

lemma policy_passes:
  "snd (evaluateOutboundPolicy (key_scope ''t1'') now ''al@x.io'' [''al@x.io''] None True (single m)) = Allowed
   \<and> fst (evaluateOutboundPolicy (key_scope ''t1'') now ''al@x.io'' [''al@x.io''] None True (single m)) = single m"
  by (simp add: evaluateOutboundPolicy_def sender_single sender_gate_def outbound_ready_def
      suppressed_recipient_def key_gate_def volume_gate_def warming_gate_def sender_domain_def decide_def)
     (simp add: gate_address_def)

lemma policy_step:
  "send_step demo_sv demo_rq (later now p) (PC_policy m') (single m) = (single m, PC_claim m')"
  "send_step demo_sv demo_rq (quiet now p) (PC_policy m') (single m) = (single m, PC_claim m')"
  using policy_passes by (simp_all add: step_policy_def)

lemma claim_single:
  assumes "fits m SS_pending" "m_id m' = ''i1''"
  shows "send_step demo_sv demo_rq (later now p) (PC_claim m') (single m)
    = (single (set_sending now m), PC_send (set_sending now m))"
proof -
  have "claimSendIntent (key_scope ''t1'') now ''i1'' (single m) = (single (set_sending now m), Inr (Some (set_sending now m)))"
    using fitsD [OF assms(1)]
    by (simp add: claimSendIntent_def atomically_def transaction_def claim_action_def tombstoned_def update_single)
  then show ?thesis using assms(2) by (simp add: step_claim_def)
qed

lemma rearm_single:
  assumes "fits m SS_failed"
  shows "send_step demo_sv demo_rq (later now p) (PC_rearm m) (single m)
    = (single (set_rearmed now m), PC_policy (set_rearmed now m))"
proof -
  have "rearmFailedSendIntent (key_scope ''t1'') now ''i1'' (single m) = (single (set_rearmed now m), Some (set_rearmed now m))"
    using fitsD [OF assms] by (simp add: rearmFailedSendIntent_def update_single)
  moreover have "m_send_state (set_rearmed now m) = SS_pending" by (simp add: row_writers)
  ultimately show ?thesis using fitsD [OF assms] by (simp add: step_rearm_def or_default_def Let_def)
qed

lemma expire_single:
  assumes "fits m SS_sending"
  shows "\<exists>r. send_step demo_sv demo_rq (later now p) (PC_expire m) (single m) = (single (set_uncertain now None m), PC_done r)"
proof -
  have "markSendUncertain (key_scope ''t1'') now ''i1'' None (single m)
      = (single (set_uncertain now None m), Some (set_uncertain now None m))"
    using fitsD [OF assms] by (simp add: markSendUncertain_def update_single uncertain_evidence_def)
  then show ?thesis using fitsD [OF assms] by (simp add: step_expire_def)
qed

lemma reject_single:
  assumes "fits m SS_sending" "m_id m' = ''i1''"
  shows "\<exists>r. send_step demo_sv demo_rq (later now p) (PC_rejected m' o') (single m)
    = (single (set_failed now (po_error_name o') m), PC_done r)"
proof -
  have "markSendFailed (key_scope ''t1'') now ''i1'' (po_error_name o') (single m)
      = (single (set_failed now (po_error_name o') m), Some (set_failed now (po_error_name o') m))"
    using fitsD [OF assms(1)] by (simp add: markSendFailed_def update_single)
  then show ?thesis using assms(2) by (simp add: step_rejected_def)
qed

lemma complete_single:
  assumes "fits m st" "m_id m' = ''i1''"
  shows "send_step demo_sv demo_rq (later now p) (PC_complete m' pid) (single m)
    = (single (set_sent now pid m), PC_done (sent_response (set_sent now pid m) pid))"
proof -
  have "completeSendIntent (key_scope ''t1'') now ''i1'' pid (single m) = (single (set_sent now pid m), Inr (set_sent now pid m))"
    using fitsD [OF assms(1)] by (simp add: completeSendIntent_def update_single)
  then show ?thesis using assms(2) by (simp add: step_complete_def)
qed

section \<open>Four requests\<close>

definition at_pc :: "send_pc \<Rightarrow> thread option" where
  "at_pc pc = Some \<lparr> th_server = demo_sv, th_request = demo_rq, th_pc = pc \<rparr>"

definition four :: "thread option \<Rightarrow> thread option \<Rightarrow> thread option \<Rightarrow> thread option \<Rightarrow> nat \<Rightarrow> thread option" where
  "four a x b c = (\<lambda>t. if t = 0 then a else if t = 1 then x else if t = 2 then b else if t = 3 then c else None)"

lemma four_simps [simp]:
  "four a x b c 0 = a" "four a x b c 1 = x" "four a x b c (Suc 0) = x" "four a x b c 2 = b" "four a x b c 3 = c"
  "(four a x b c)(0 := v) = four v x b c" "(four a x b c)(1 := v) = four a v b c"
  "(four a x b c)(Suc 0 := v) = four a v b c"
  "(four a x b c)(2 := v) = four a x v c" "(four a x b c)(3 := v) = four a x b v"
  by (auto simp: four_def fun_eq_iff)

abbreviation state :: "db \<Rightarrow> (nat \<Rightarrow> thread option) \<Rightarrow> (nat \<times> message) list \<Rightarrow> sys" where
  "state s f l \<equiv> \<lparr> sy_db = s, sy_threads = f, sy_log = l \<rparr>"

lemma start_step:
  "f t = None \<Longrightarrow> sys_step (state s f l) (Start t demo_sv demo_rq) (state s (f(t := at_pc PC_reserve)) l)"
  by (rule sys_step.start) (simp_all add: at_pc_def)

lemma run_step:
  assumes "f t = at_pc pc" "send_step demo_sv demo_rq ev pc s = (s', pc')"
    "ev_fresh ev \<notin> m_id ` set (messages s)" "delivery_possible pc ev d"
  shows "sys_step (state s f l) (Run t ev d) (state s' (f(t := at_pc pc')) (delivery t pc d @ l))"
  by (rule sys_step.run [where th = "\<lparr> th_server = demo_sv, th_request = demo_rq, th_pc = pc \<rparr>"])
     (use assms in \<open>simp_all add: at_pc_def\<close>)

text \<open>A step that is not a provider call, on the store with the one row.\<close>

lemma quiet_run:
  assumes "f t = at_pc pc" "send_step demo_sv demo_rq (later now p) pc (single m) = (s', pc')"
    "fits m st" "\<forall>x. pc \<noteq> PC_send x"
  shows "sys_step (state (single m) f l) (Run t (later now p) False) (state s' (f(t := at_pc pc')) l)"
proof -
  have "delivery t pc False = []" "delivery_possible pc (later now p) False"
    using assms(4) by (auto simp: delivery_def delivery_possible_def split: send_pc.split)
  with run_step [where f = f and t = t and pc = pc and d = False and l = l, OF assms(1,2)] fitsD(1) [OF assms(3)] show ?thesis by simp
qed

lemma accept_run:
  assumes "f t = at_pc (PC_send x)" "fits m st"
  shows "sys_step (state (single m) f l) (Run t (later now (Inr pid)) True)
    (state (single m) (f(t := at_pc (PC_complete x pid))) ((t, x) # l))"
  using run_step [where f = f and t = t and pc = "PC_send x" and ev = "later now (Inr pid)" and s = "single m"
      and s' = "single m" and pc' = "PC_complete x pid" and d = True and l = l] assms(1) fitsD(1) [OF assms(2)]
  by (simp add: after_send_def delivery_def delivery_possible_def)

definition refusal :: provider_error where
  "refusal = \<lparr> pe_is_error = True, pe_name = ''MessageRejected'', pe_text = [], pe_metadata_code = Some 400,
     pe_status_code = None, pe_status = None, pe_fault = Some ''client'' \<rparr>"

definition refused_outcome :: provider_outcome where
  "refused_outcome = classifyProviderSendError refusal"

lemma refuse_run:
  assumes "f t = at_pc (PC_send x)" "fits m st"
  shows "sys_step (state (single m) f l) (Run t (later now (Inl refusal)) False)
    (state (single m) (f(t := at_pc (PC_rejected x refused_outcome))) l)"
proof -
  have "po_kind (classifyProviderSendError refusal) = Rejected"
    by (simp add: classifyProviderSendError_def providerHttpStatus_def refusal_def)
  then show ?thesis
    using run_step [where f = f and t = t and pc = "PC_send x" and ev = "later now (Inl refusal)" and s = "single m"
        and s' = "single m" and pc' = "PC_rejected x refused_outcome" and d = False and l = l]
      assms(1) fitsD(1) [OF assms(2)]
    by (simp add: after_send_def delivery_def delivery_possible_def refused_outcome_def)
qed

lemma trace_append: "trace step a xs b \<Longrightarrow> trace step b ys c \<Longrightarrow> trace step a (xs @ ys) c"
  by (induction rule: trace.induct) (auto intro: trace.intros)

lemma trace_snoc: "trace step a xs b \<Longrightarrow> step b e c \<Longrightarrow> trace step a (xs @ [e]) c"
  by (rule trace_append) (auto intro: trace.intros)

lemma trace_chain:
  assumes "trace step a xs b" "step b e c" "trace step c ys d" "step d f g" "step g h k"
  shows "trace step a ((((xs @ [e]) @ ys) @ [f]) @ [h]) k"
  using assms trace_snoc trace_append by metis

text \<open>Request \<open>t\<close> retries a failed intent up to its provider call.\<close>

lemma retry_run:
  assumes f: "f t = None" and m: "fits m SS_failed"
  shows "\<exists>es m'. trace sys_step (state (single m) f l) es
      (state (single m') (f(t := at_pc (PC_send m'))) l) \<and> fits m' SS_sending \<and> m_updated_at m' = now
      \<and> (\<forall>e \<in> set es. \<not> reopens i e)"
proof -
  let ?p = "Inr ''x'' :: provider_error + string"
  let ?r = "set_rearmed now m" and ?f = "\<lambda>pc. f(t := at_pc pc)"
  let ?c = "set_sending now ?r"
  have r: "fits ?r SS_pending" and c: "fits ?c SS_sending" using fits_writers(1,4) m by blast+
  have after: "after_reserve demo_sv now m False = PC_rearm m" using fitsD(5) [OF m] by (simp add: after_reserve_def)
  have "sys_step (state (single m) f l) (Start t demo_sv demo_rq) (state (single m) (?f PC_reserve) l)"
    using start_step f by simp
  moreover have "sys_step (state (single m) (?f PC_reserve) l) (Run t (later now ?p) False) (state (single m) (?f (PC_rearm m)) l)"
    using quiet_run [of "?f PC_reserve" t PC_reserve now ?p m "single m" "PC_rearm m" SS_failed l] reserve_old [OF m, of now ?p] m after by simp
  moreover have "sys_step (state (single m) (?f (PC_rearm m)) l) (Run t (later now ?p) False) (state (single ?r) (?f (PC_policy ?r)) l)"
    using quiet_run [of "?f (PC_rearm m)" t "PC_rearm m" now ?p m "single ?r" "PC_policy ?r" SS_failed l] rearm_single [OF m, of now ?p] m by simp
  moreover have "sys_step (state (single ?r) (?f (PC_policy ?r)) l) (Run t (later now ?p) False) (state (single ?r) (?f (PC_claim ?r)) l)"
    using quiet_run [of "?f (PC_policy ?r)" t "PC_policy ?r" now ?p ?r "single ?r" "PC_claim ?r" SS_pending l] policy_step(1) r by simp
  moreover have "sys_step (state (single ?r) (?f (PC_claim ?r)) l) (Run t (later now ?p) False) (state (single ?c) (?f (PC_send ?c)) l)"
    using quiet_run [of "?f (PC_claim ?r)" t "PC_claim ?r" now ?p ?r "single ?c" "PC_send ?c" SS_pending l]
      claim_single [OF r fitsD(1) [OF r], of now ?p] r by simp
  ultimately have "trace sys_step (state (single m) f l)
      [Start t demo_sv demo_rq, Run t (later now ?p) False, Run t (later now ?p) False, Run t (later now ?p) False,
       Run t (later now ?p) False] (state (single ?c) (?f (PC_send ?c)) l)"
    by - ((rule trace_Cons, assumption)+, rule trace_Nil)
  moreover have "m_updated_at ?c = now" by (simp add: row_writers)
  ultimately show ?thesis using c by (intro exI conjI) (auto simp: reopens_def)
qed

text \<open>Request 0 reserves the intent, passes the policy gate and claims it.\<close>

lemma claimed_part:
  "\<exists>es c. trace sys_step (boot base) es (state (single c) (four (at_pc (PC_send c)) None None None) [])
     \<and> fits c SS_sending \<and> m_send_started_at c = Some 1 \<and> (\<forall>e \<in> set es. \<forall>i. \<not> reopens i e)"
proof -
  let ?p = "Inr ''x'' :: provider_error + string"
  let ?m = "first_row 0"
  let ?c = "set_sending 1 ?m"
  have m: "fits ?m SS_pending" by (rule fits_first)
  then have c: "fits ?c SS_sending" by (rule fits_writers)
  have b: "boot base = state base (four None None None None) []" by (simp add: boot_def four_def fun_eq_iff)
  let ?f = "\<lambda>a. four (at_pc a) None None None"
  have "sys_step (state base (four None None None None) []) (Start 0 demo_sv demo_rq) (state base (?f PC_reserve) [])"
    using start_step [of "four None None None None" 0] by simp
  moreover have "sys_step (state base (?f PC_reserve) []) (Run 0 (quiet 0 ?p) False) (state (single ?m) (?f (PC_policy ?m)) [])"
    using run_step [where f = "?f PC_reserve" and t = 0 and pc = PC_reserve and ev = "quiet 0 ?p" and s = base
        and s' = "single ?m" and pc' = "PC_policy ?m" and d = False and l = "[]"] reserve_new
    by (simp add: delivery_def delivery_possible_def)
  moreover have "sys_step (state (single ?m) (?f (PC_policy ?m)) []) (Run 0 (later 1 ?p) False) (state (single ?m) (?f (PC_claim ?m)) [])"
    using quiet_run [of "?f (PC_policy ?m)" 0 "PC_policy ?m" 1 ?p ?m "single ?m" "PC_claim ?m" SS_pending "[]"] policy_step(1) m by simp
  moreover have "sys_step (state (single ?m) (?f (PC_claim ?m)) []) (Run 0 (later 1 ?p) False) (state (single ?c) (?f (PC_send ?c)) [])"
    using quiet_run [of "?f (PC_claim ?m)" 0 "PC_claim ?m" 1 ?p ?m "single ?c" "PC_send ?c" SS_pending "[]"]
      claim_single [OF m fitsD(1) [OF m], of 1 ?p] m by simp
  ultimately have "trace sys_step (boot base) [Start 0 demo_sv demo_rq, Run 0 (quiet 0 ?p) False, Run 0 (later 1 ?p) False,
      Run 0 (later 1 ?p) False] (state (single ?c) (?f (PC_send ?c)) [])"
    unfolding b by - ((rule trace_Cons, assumption)+, rule trace_Nil)
  with c show ?thesis by (intro exI conjI) (auto simp: reopens_def row_writers)
qed

text \<open>The provider accepts, and the send is recorded.\<close>

lemma delivered_part:
  "\<exists>es S c r. trace sys_step (boot base) es S \<and> (\<forall>e \<in> set es. \<forall>i. \<not> reopens i e) \<and> sy_log S = [(0, c)]
     \<and> fits c SS_sending \<and> sy_threads S 0 = at_pc (PC_done r) \<and> sr_sent r = Some (Some True) \<and> \<not> sr_replay r"
proof -
  obtain es c where e: "trace sys_step (boot base) es (state (single c) (four (at_pc (PC_send c)) None None None) [])"
      "fits c SS_sending" "\<forall>e \<in> set es. \<forall>i. \<not> reopens i e"
    using claimed_part by blast
  let ?f = "\<lambda>a. four (at_pc a) None None None"
  let ?r = "sent_response (set_sent 3 ''pid'' c) ''pid''"
  have "sys_step (state (single c) (?f (PC_send c)) []) (Run 0 (later 2 (Inr ''pid'')) True) (state (single c) (?f (PC_complete c ''pid'')) [(0, c)])"
    using accept_run [of "?f (PC_send c)" 0 c c SS_sending "[]" 2 "''pid''"] e(2) by simp
  with e(1) have "trace sys_step (boot base) (es @ [Run 0 (later 2 (Inr ''pid'')) True]) (state (single c) (?f (PC_complete c ''pid'')) [(0, c)])"
    by (rule trace_snoc)
  moreover have "sys_step (state (single c) (?f (PC_complete c ''pid'')) [(0, c)]) (Run 0 (later 3 (Inr ''pid'')) False)
      (state (single (set_sent 3 ''pid'' c)) (?f (PC_done ?r)) [(0, c)])"
    using quiet_run [of "?f (PC_complete c ''pid'')" 0 "PC_complete c ''pid''" 3 "Inr ''pid''" c _ "PC_done ?r" SS_sending "[(0, c)]"]
      complete_single [OF e(2) fitsD(1) [OF e(2)]] e(2) by simp
  ultimately have t: "trace sys_step (boot base) ((es @ [Run 0 (later 2 (Inr ''pid'')) True]) @ [Run 0 (later 3 (Inr ''pid'')) False])
      (state (single (set_sent 3 ''pid'' c)) (?f (PC_done ?r)) [(0, c)])"
    by (rule trace_snoc)
  have "\<not> reopens i (Run u ev d)" for i u ev d by (simp add: reopens_def)
  then have n: "\<forall>e \<in> set ((es @ [Run 0 (later 2 (Inr ''pid'')) True]) @ [Run 0 (later 3 (Inr ''pid'')) False]). \<forall>i. \<not> reopens i e"
    using e(3) by simp
  have "sr_sent ?r = Some (Some True)" "\<not> sr_replay ?r" by (simp_all add: sent_response_def plain_response_def)
  with t n e(2) show ?thesis
    by (intro exI conjI) (assumption | simp)+
qed

lemma base_schema: "schema_ok base"
  by (simp add: schema_ok_def ids_unique_def keys_unique_def)

lemma at_most_once_witness:
  "\<exists>es S. trace sys_step (boot base) es S \<and> deliveries ''i1'' S = 1"
proof -
  obtain es S c where s: "trace sys_step (boot base) es S" "\<forall>e \<in> set es. \<forall>i. \<not> reopens i e"
      "sy_log S = [(0, c)]" "fits c SS_sending"
    using delivered_part by blast
  have "deliveries ''i1'' S \<le> 1" using at_most_once [OF s(1) base_schema] s(2) by blast
  moreover have "0 < deliveries ''i1'' S" using s(3) fitsD(1) [OF s(4)] by (simp add: deliveries_def)
  ultimately have "deliveries ''i1'' S = 1" by simp
  with s(1) show ?thesis by blast
qed


lemma answers_are_honest_witness:
  "\<exists>es S r. trace sys_step (boot base) es S \<and> sy_threads S 0 = at_pc (PC_done r)
     \<and> sr_sent r = Some (Some True) \<and> delivered_by 0 S"
proof -
  obtain es S r where s: "trace sys_step (boot base) es S" "sy_threads S 0 = at_pc (PC_done r)"
      "sr_sent r = Some (Some True)" "\<not> sr_replay r"
    using delivered_part by blast
  have "delivered_by 0 S"
    using answers_are_honest [OF s(1) s(2) [unfolded at_pc_def], of r] s(3,4) by simp
  with s show ?thesis by blast
qed

section \<open>The run that delivers twice\<close>

text \<open>
  Request 0 claims the intent and is refused by the provider, but has not recorded the
  refusal yet.  Request 1, a replay, finds the lease expired and parks the intent as
  uncertain.
\<close>

lemma first_part:
  "\<exists>es m c r. trace sys_step (boot base) es
       (state (single m) (four (at_pc (PC_rejected c refused_outcome)) (at_pc (PC_done r)) None None) [])
     \<and> fits m SS_uncertain \<and> m_id c = ''i1''"
proof -
  let ?p = "Inr ''x'' :: provider_error + string"
  obtain es c where e: "trace sys_step (boot base) es (state (single c) (four (at_pc (PC_send c)) None None None) [])"
      "fits c SS_sending" "m_send_started_at c = Some 1"
    using claimed_part by blast
  let ?u = "set_uncertain 400000 None c"
  have u: "fits ?u SS_uncertain" using e(2) by (rule fits_writers)
  let ?f = "\<lambda>a x. four (at_pc a) x None None"
  have after: "after_reserve demo_sv 400000 c False = PC_expire c"
    by (simp add: after_reserve_def fitsD(5) [OF e(2)] sendLeaseExpired_def or_default_def e(3))
  obtain r where ex: "send_step demo_sv demo_rq (later 400000 ?p) (PC_expire c) (single c) = (single ?u, PC_done r)"
    using expire_single [OF e(2)] by blast
  have "sys_step (state (single c) (?f (PC_send c) None) []) (Run 0 (later 2 (Inl refusal)) False)
      (state (single c) (?f (PC_rejected c refused_outcome) None) [])"
    using refuse_run [of "?f (PC_send c) None" 0 c c SS_sending "[]" 2] e(2) by simp
  moreover have "sys_step (state (single c) (?f (PC_rejected c refused_outcome) None) []) (Start 1 demo_sv demo_rq)
      (state (single c) (?f (PC_rejected c refused_outcome) (at_pc PC_reserve)) [])"
    using start_step [of "?f (PC_rejected c refused_outcome) None" 1] by simp
  moreover have "sys_step (state (single c) (?f (PC_rejected c refused_outcome) (at_pc PC_reserve)) []) (Run 1 (later 400000 ?p) False)
      (state (single c) (?f (PC_rejected c refused_outcome) (at_pc (PC_expire c))) [])"
    using quiet_run [of "?f (PC_rejected c refused_outcome) (at_pc PC_reserve)" 1 PC_reserve 400000 ?p c "single c" "PC_expire c" SS_sending "[]"]
      reserve_old [OF e(2), of 400000 ?p] after e(2) by simp
  moreover have "sys_step (state (single c) (?f (PC_rejected c refused_outcome) (at_pc (PC_expire c))) []) (Run 1 (later 400000 ?p) False)
      (state (single ?u) (?f (PC_rejected c refused_outcome) (at_pc (PC_done r))) [])"
    using quiet_run [of "?f (PC_rejected c refused_outcome) (at_pc (PC_expire c))" 1 "PC_expire c" 400000 ?p c "single ?u" "PC_done r" SS_sending "[]"]
      ex e(2) by simp
  ultimately have "trace sys_step (state (single c) (?f (PC_send c) None) []) [Run 0 (later 2 (Inl refusal)) False,
      Start 1 demo_sv demo_rq, Run 1 (later 400000 ?p) False, Run 1 (later 400000 ?p) False]
      (state (single ?u) (?f (PC_rejected c refused_outcome) (at_pc (PC_done r))) [])"
    by - ((rule trace_Cons, assumption)+, rule trace_Nil)
  from trace_append [OF e(1) this] u fitsD(1) [OF e(2)] show ?thesis by blast
qed

definition true_note :: resolution where
  "true_note = \<lparr> rs_sent = False, rs_provider_message_id = None, rs_evidence = ''provider log'', rs_resolved_by = None \<rparr>"

lemma reconcile_single:
  assumes "fits m SS_uncertain"
  shows "\<exists>m'. apply_op (key_scope ''t1'') now f (Op_reconcile ''i1'' true_note) (single m) = single m' \<and> fits m' SS_failed"
proof -
  have "apply_op (key_scope ''t1'') now f (Op_reconcile ''i1'' true_note) (single m)
      = single (set_reconciled_not_sent now ''provider log'' None m)"
    using fitsD [OF assms]
    by (simp add: reconcileUncertainSendIntent_def true_note_def update_single trim_by_def is_ws_def is_ws_unit_def Let_def)
  with fits_writers(6) [OF assms] show ?thesis by blast
qed

text \<open>
  C25. The reconciliation was true, and yet the intent is delivered twice: when the operator
  states that intent \<open>i1\<close> was not sent, nothing has been delivered and no request is waiting
  for the provider.  The refusal recorded late by the first request then re-opens the
  intent while a retry of it is at the provider, because \<open>markSendFailed\<close> is fenced by the
  state of the row and not by the attempt.
\<close>

theorem delivered_twice_after_true_reconciliation:
  "\<exists>es1 S1 sc now f S2 es2 S. trace sys_step (boot base) es1 S1
     \<and> deliveries ''i1'' S1 = 0 \<and> Calling \<notin> range (at_phase (attempts_of ''i1'' S1))
     \<and> sys_step S1 (Operator sc now f (Op_reconcile ''i1'' true_note)) S2
     \<and> trace sys_step S2 es2 S \<and> filter (reopens ''i1'') es2 = [] \<and> deliveries ''i1'' S = 2"
proof -
  obtain es1 m c r where e: "trace sys_step (boot base) es1
       (state (single m) (four (at_pc (PC_rejected c refused_outcome)) (at_pc (PC_done r)) None None) [])"
      and m: "fits m SS_uncertain" and c: "m_id c = ''i1''"
    using first_part by blast
  let ?S1 = "state (single m) (four (at_pc (PC_rejected c refused_outcome)) (at_pc (PC_done r)) None None) []"
  obtain m1 where r1: "apply_op (key_scope ''t1'') 500000 ''i2'' (Op_reconcile ''i1'' true_note) (single m) = single m1"
      and m1: "fits m1 SS_failed"
    using reconcile_single [OF m] by blast
  let ?S2 = "state (single m1) (four (at_pc (PC_rejected c refused_outcome)) (at_pc (PC_done r)) None None) []"
  have op: "sys_step ?S1 (Operator (key_scope ''t1'') 500000 ''i2'' (Op_reconcile ''i1'' true_note)) ?S2"
    by (rule sys_step.operator) (use r1 fitsD(1) [OF m] in \<open>simp_all add: operator_op_def\<close>)
  obtain es2 m2 where t2: "trace sys_step ?S2 es2
       (state (single m2) (four (at_pc (PC_rejected c refused_outcome)) (at_pc (PC_done r)) (at_pc (PC_send m2)) None) [])"
      and m2: "fits m2 SS_sending" and n2: "\<forall>e \<in> set es2. \<not> reopens ''i1'' e"
    using retry_run [of "four (at_pc (PC_rejected c refused_outcome)) (at_pc (PC_done r)) None None" 2 m1 "[]" 600000 "''i1''"] m1 by auto
  obtain r' where "send_step demo_sv demo_rq (later 700000 (Inr [])) (PC_rejected c refused_outcome) (single m2)
      = (single (set_failed 700000 (po_error_name refused_outcome) m2), PC_done r')"
    using reject_single [OF m2 c] by blast
  then have t3: "sys_step (state (single m2) (four (at_pc (PC_rejected c refused_outcome)) (at_pc (PC_done r)) (at_pc (PC_send m2)) None) [])
      (Run 0 (later 700000 (Inr [])) False)
      (state (single (set_failed 700000 (po_error_name refused_outcome) m2)) (four (at_pc (PC_done r')) (at_pc (PC_done r)) (at_pc (PC_send m2)) None) [])"
    using quiet_run [of "four (at_pc (PC_rejected c refused_outcome)) (at_pc (PC_done r)) (at_pc (PC_send m2)) None" 0
        "PC_rejected c refused_outcome" 700000 "Inr []" m2 _ "PC_done r'" SS_sending "[]"] m2 by simp
  have m3: "fits (set_failed 700000 (po_error_name refused_outcome) m2) SS_failed" using m2 by (rule fits_writers)
  obtain es4 m4 where t4: "trace sys_step
      (state (single (set_failed 700000 (po_error_name refused_outcome) m2)) (four (at_pc (PC_done r')) (at_pc (PC_done r)) (at_pc (PC_send m2)) None) []) es4
      (state (single m4) (four (at_pc (PC_done r')) (at_pc (PC_done r)) (at_pc (PC_send m2)) (at_pc (PC_send m4))) [])"
      and m4: "fits m4 SS_sending" and n4: "\<forall>e \<in> set es4. \<not> reopens ''i1'' e"
    using retry_run [of "four (at_pc (PC_done r')) (at_pc (PC_done r)) (at_pc (PC_send m2)) None" 3 _ "[]" 800000 "''i1''", OF _ m3] by auto
  let ?S5 = "state (single m4) (four (at_pc (PC_done r')) (at_pc (PC_done r)) (at_pc (PC_complete m2 ''p2'')) (at_pc (PC_send m4))) [(2, m2)]"
  have t5: "sys_step (state (single m4) (four (at_pc (PC_done r')) (at_pc (PC_done r)) (at_pc (PC_send m2)) (at_pc (PC_send m4))) [])
      (Run 2 (later 900000 (Inr ''p2'')) True) ?S5"
    using accept_run [of "four (at_pc (PC_done r')) (at_pc (PC_done r)) (at_pc (PC_send m2)) (at_pc (PC_send m4))" 2 m2 m4 SS_sending "[]" 900000 "''p2''"] m4 by simp
  let ?S6 = "state (single m4) (four (at_pc (PC_done r')) (at_pc (PC_done r)) (at_pc (PC_complete m2 ''p2'')) (at_pc (PC_complete m4 ''p3''))) [(3, m4), (2, m2)]"
  have t6: "sys_step ?S5 (Run 3 (later 900000 (Inr ''p3'')) True) ?S6"
    using accept_run [of "four (at_pc (PC_done r')) (at_pc (PC_done r)) (at_pc (PC_complete m2 ''p2'')) (at_pc (PC_send m4))" 3 m4 m4 SS_sending "[(2, m2)]" 900000 "''p3''"] m4 by simp
  let ?es = "(((es2 @ [Run 0 (later 700000 (Inr [])) False]) @ es4) @ [Run 2 (later 900000 (Inr ''p2'')) True]) @ [Run 3 (later 900000 (Inr ''p3'')) True]"
  have "trace sys_step ?S2 ?es ?S6"
    by (rule trace_chain) (fact t2 t3 t4 t5 t6)+
  moreover have "filter (reopens ''i1'') ?es = []"
  proof -
    have "\<not> reopens ''i1'' (Run t ev d)" for t ev d by (simp add: reopens_def)
    moreover have "filter (reopens ''i1'') es2 = []" "filter (reopens ''i1'') es4 = []"
      using n2 n4 by (simp_all add: filter_empty_conv)
    ultimately show ?thesis by simp
  qed
  moreover have "deliveries ''i1'' ?S6 = 2" using fitsD(1) [OF m2] fitsD(1) [OF m4] by (simp add: deliveries_def)
  moreover have "deliveries ''i1'' ?S1 = 0" by (simp add: deliveries_def)
  moreover have "Calling \<notin> range (at_phase (attempts_of ''i1'' ?S1))"
    by (auto simp: attempts_of_def four_def at_pc_def pc_phase_def c split: if_splits option.splits)
  ultimately show ?thesis using e op by blast
qed

section \<open>A single request\<close>

lemma new_intent_is_sent_witness:
  "\<exists>s' r. run_handler demo_sv demo_rq (replicate 5 (quiet 0 (Inr ''p''))) PC_reserve base = (s', PC_done r)
     \<and> sr_sent r = Some (Some True) \<and> sr_pid r = Some ''p''"
proof -
  let ?e = "quiet 0 (Inr ''p'')"
  have "\<exists>s' r m. run_handler demo_sv demo_rq [?e, ?e, ?e, ?e, ?e] PC_reserve base = (s', PC_done r)
      \<and> sr_status r = 202 \<and> sr_sent r = Some (Some True) \<and> sr_pid r = Some ''p''
      \<and> messages s' = messages base @ [m] \<and> m_id m = ev_fresh ?e \<and> m_key m = Some (rq_key demo_rq)
      \<and> m_tenant m = sc_tenant (sv_scope demo_sv) \<and> m_send_state m = SS_sent
      \<and> m_provider_message_id m = Some ''p'' \<and> m_to m = rq_to demo_rq
      \<and> m_payload_hash m = Some (request_hash demo_sv demo_rq)"
  proof (rule new_intent_is_sent)
    show "safe_send_intent_key (rq_key demo_rq)" using demo_key_safe by simp
    show "snd (evaluateOutboundPolicy (sv_scope demo_sv) (ev_now ?e) (rq_from demo_rq)
        (rq_to demo_rq @ rq_cc demo_rq @ rq_bcc demo_rq)
        (if rq_send_key demo_rq = [] then None else Some (rq_send_key demo_rq)) (rq_wide demo_rq)
        (base\<lparr>messages := messages base @ [reserve_row (sv_scope demo_sv) (ev_now ?e) (ev_fresh ?e)
          (reserve_input demo_sv demo_rq) (rq_key demo_rq) (request_hash demo_sv demo_rq)]\<rparr>)) = Allowed"
      using policy_passes by (simp add: base_append)
  qed (simp_all add: tombstoned_def getSendIntentByIdempotencyKey_def, simp add: quiet_def)
  then show ?thesis by (simp add: numeral_eq_Suc) blast
qed

section \<open>The daily quota and retries\<close>

text \<open>
  The daily quota counts intents by the day they were created: on an address whose quota is
  0, a new intent is refused, but the retry of an intent reserved the day before, re-armed
  and pending like the new one, is allowed.
\<close>

theorem quota_misses_retry_of_older_intent:
  "snd (evaluateOutboundPolicy (key_scope ''t1'') 86400000 ''al@x.io'' [''al@x.io''] None True
      (gate_db\<lparr>messages := [first_row 86400000]\<rparr>)) = decide (Some address_quota_exceeded)
   \<and> snd (evaluateOutboundPolicy (key_scope ''t1'') 86400000 ''al@x.io'' [''al@x.io''] None True
      (gate_db\<lparr>messages := [set_rearmed 86400000 (first_row 0)]\<rparr>)) = Allowed"
proof -
  let ?s = "\<lambda>m. gate_db\<lparr>messages := [m]\<rparr>"
  have row: "sender_row (key_scope ''t1'') ''al@x.io'' (?s m) = Some (gate_address, None)" for m
    using gate_row by (simp add: sender_row_def)
  have fr: "js_lower (m_from (first_row n)) = ''al@x.io''" for n
    by (simp add: first_row_def reserve_row_def message_of_input_def reserve_input_def trim_by_def is_ws_def
        is_ws_unit_def js_lower_def lower_char_def)
  have f: "m_tenant (first_row n) = ''t1''" "m_direction (first_row n) = ''outbound''" "m_created_at (first_row n) = n"
      "m_send_state (first_row n) = SS_pending" for n
    by (simp_all add: first_row_def reserve_row_def message_of_input_def or_default_def trim_by_def is_ws_def is_ws_unit_def)
  have new: "address_count (key_scope ''t1'') 86400000 ''al@x.io'' (?s (first_row 86400000)) = 1"
    using fr f by (simp add: address_count_def counted_today_def utc_day_start_def)
  have old: "address_count (key_scope ''t1'') 86400000 ''al@x.io'' (?s (set_rearmed 86400000 (first_row 0))) = 0"
    using f by (simp add: address_count_def counted_today_def utc_day_start_def row_writers)
  show ?thesis
    by (simp add: evaluateOutboundPolicy_def row sender_gate_def outbound_ready_def suppressed_recipient_def
        key_gate_def volume_gate_def new old warming_gate_def sender_domain_def decide_def Let_def)
       (simp add: gate_address_def warming_gate_def sender_domain_def)
qed

end
