(* ===== verification/Send_Request_Facts.thy ===== *)
theory Send_Request_Facts
  imports Send_Request Send_Ledger
begin

text \<open>
  What an accepted send body guarantees to the steps after it: canonical mailboxes, a key
  the ledger's own guard accepts, attachments within the limits.
\<close>

lemma header_units_paired: "header_units_ok us = surrogates_paired us"
  by (induction us rule: header_units_ok.induct) (auto split: list.split)

lemma safe_header_Inr: "safeHeaderValue l v = Inr w \<Longrightarrow>
    w = v \<and> (\<forall>c \<in> set v. \<not> control_unit c) \<and> surrogates_paired v"
  by (auto simp: safeHeaderValue_def header_units_paired split: if_splits)

lemma parsed_key_safe:
  assumes "parseIdempotencyKey v = Inr key" shows "safe_send_intent_key key"
proof -
  let ?k = "units_trim (or_default v [])"
  from assms obtain w where "key = ?k" "?k \<noteq> []" "length ?k \<le> 200"
      "safeHeaderValue ''idempotency_key'' ?k = Inr w"
    by (auto simp: parseIdempotencyKey_def Let_def split: if_splits sum.splits)
  with safe_header_Inr show ?thesis
    by (fastforce simp: safe_send_intent_key_def control_unit_def)
qed

text \<open>
  The key guard of the route and the guard of the ledger agree: the route accepts a key
  text exactly when its trimmed form is a key the ledger accepts, and passes that form on.
\<close>

theorem route_key_guard_is_ledger_guard:
  "parseIdempotencyKey (Some v) = Inr key \<longleftrightarrow> key = units_trim v \<and> safe_send_intent_key (units_trim v)"
proof
  assume "parseIdempotencyKey (Some v) = Inr key"
  moreover from this have "key = units_trim v"
    by (auto simp: parseIdempotencyKey_def Let_def or_default_def split: if_splits sum.splits)
  ultimately show "key = units_trim v \<and> safe_send_intent_key (units_trim v)"
    using parsed_key_safe by blast
next
  assume "key = units_trim v \<and> safe_send_intent_key (units_trim v)"
  then show "parseIdempotencyKey (Some v) = Inr key"
    by (auto simp: parseIdempotencyKey_def Let_def or_default_def safe_send_intent_key_def
        safeHeaderValue_def header_units_paired control_unit_def)
qed

section \<open>Attachments\<close>

definition decoded_size :: "attachment \<Rightarrow> nat" where
  "decoded_size a = (case decodeStrictBase64 (at_content a) of None \<Rightarrow> 0 | Some bs \<Rightarrow> length bs)"

definition attachment_ok :: "attachment \<Rightarrow> bool" where
  "attachment_ok a \<longleftrightarrow> decodeStrictBase64 (at_content a) \<noteq> None
     \<and> decoded_size a \<le> maxBytesPerFile limits \<and> js_trim (at_filename a) \<noteq> []
     \<and> length (at_filename a) \<le> 255 \<and> mime_type_ok (at_content_type a)"

lemma attachment_names_Inr:
  "attachment_names i item content = Inr a \<Longrightarrow> at_content a = content
     \<and> js_trim (at_filename a) \<noteq> [] \<and> length (at_filename a) \<le> 255 \<and> mime_type_ok (at_content_type a)"
  by (auto simp: attachment_names_def Let_def split: sum.splits if_splits)

lemma parse_attachment_Inr:
  assumes "parse_attachment i used v = Inr (used', a)"
  shows "attachment_ok a \<and> used' = used + decoded_size a \<and> used' \<le> maxTotalBytes limits"
proof -
  from assms obtain kvs where v: "v = JObj kvs" by (cases v) (simp_all add: parse_attachment_def)
  let ?c = "or_default (string_field (map_of kvs ''content'')) []"
  from assms v obtain bs where bs: "decodeStrictBase64 ?c = Some bs"
    by (auto simp: parse_attachment_def Let_def split: option.splits)
  with assms v have u: "used' = used + length bs" "used' \<le> maxTotalBytes limits"
      "length bs \<le> maxBytesPerFile limits" "attachment_names i (map_of kvs) ?c = Inr a"
    by (auto simp: parse_attachment_def Let_def split: if_splits sum.splits)
  with attachment_names_Inr [OF u(4)] bs show ?thesis
    by (simp add: attachment_ok_def decoded_size_def)
qed

lemma parse_attachments_Inr:
  "parse_attachments i used vs = Inr as \<Longrightarrow> used \<le> maxTotalBytes limits \<Longrightarrow>
   length as = length vs \<and> (\<forall>a \<in> set as. attachment_ok a)
   \<and> used + sum_list (map decoded_size as) \<le> maxTotalBytes limits"
proof (induction i used vs arbitrary: as rule: parse_attachments.induct)
  case (2 i used v vs)
  from 2(2) obtain u a where p: "parse_attachment i used v = Inr (u, a)"
    by (auto split: sum.splits)
  with 2(2) obtain as' where q: "parse_attachments (Suc i) u vs = Inr as'" "as = a # as'"
    by (auto split: sum.splits)
  from parse_attachment_Inr [OF p] have "u \<le> maxTotalBytes limits" "u = used + decoded_size a" "attachment_ok a"
    by auto
  moreover from 2(1) [OF p refl q(1)] this have "length as' = length vs \<and> (\<forall>a \<in> set as'. attachment_ok a)
      \<and> u + sum_list (map decoded_size as') \<le> maxTotalBytes limits" by simp
  ultimately show ?case using q(2) by simp
qed simp

section \<open>Accepted bodies\<close>

lemma parse_mailboxes_Inr:
  assumes "parse_mailboxes b = Inr (f, to, cc, bcc)"
  shows "canonicalSender (js_trim (String_or (b ''from'') [])) = Some f \<and> to \<noteq> []
    \<and> (\<forall>r \<in> set (to @ cc @ bcc). canonicalSender r = Some r)"
proof -
  let ?to = "asStringArray (b ''to'')" and ?cc = "asStringArray (b ''cc'')"
  let ?rs = "?to @ ?cc @ asStringArray (b ''bcc'')"
  note d = assms [unfolded parse_mailboxes_def Let_def]
  have "?to \<noteq> []" using d by (cases "?to = []") (simp_all split: if_splits)
  have n: "None \<notin> set (map canonicalSender ?rs)"
    using d by (cases "None \<in> set (map canonicalSender ?rs)") (simp_all split: if_splits)
  have f: "canonicalSender (js_trim (String_or (b ''from'') [])) = Some f"
    using d by (cases "canonicalSender (js_trim (String_or (b ''from'') []))") (simp_all split: if_splits)
  have v: "to = map (the \<circ> canonicalSender) ?to" "cc = map (the \<circ> canonicalSender) ?cc"
      "bcc = map (the \<circ> canonicalSender) (asStringArray (b ''bcc''))"
    using d by (simp_all split: if_splits)
  have "canonicalSender r = Some r" if r: "r \<in> set (to @ cc @ bcc)" for r
  proof -
    from r v obtain x where "x \<in> set ?rs" "r = the (canonicalSender x)" by auto
    with n have "canonicalSender x = Some r" by (metis imageI list.set_map option.collapse)
    then show ?thesis by (rule canonicalSender_addr(3))
  qed
  moreover have "to \<noteq> []" using \<open>?to \<noteq> []\<close> unfolding v(1) by simp
  ultimately show ?thesis using f by blast
qed

text \<open>
  An accepted send body: the sender and every recipient are canonical addresses, there is
  at least one \<open>to\<close>, the key passes the ledger's guard, and the attachments decode, are named
  and typed, and stay within the count, per-file and total limits.
\<close>

theorem accepted_body_is_sendable:
  assumes "parse_send wide hk b = Inr rq"
  shows "canonicalSender (rq_from rq) = Some (rq_from rq) \<and> rq_to rq \<noteq> []
    \<and> (\<forall>r \<in> set (rq_to rq @ rq_cc rq @ rq_bcc rq). canonicalSender r = Some r)
    \<and> safe_send_intent_key (rq_key rq)
    \<and> within_limits limits (map decoded_size (rq_attachments rq))
    \<and> (\<forall>a \<in> set (rq_attachments rq). attachment_ok a)"
proof -
  from assms obtain m where m: "parse_mailboxes b = Inr m"
    by (auto simp: parse_send_def split: sum.splits)
  obtain f to cc bcc where mb: "m = (f, to, cc, bcc)" by (cases m)
  from assms m mb obtain key where key: "parseIdempotencyKey
      (map_option units_of (string_field (b ''idempotency_key''))) = Inr key"
    by (auto simp: parse_send_def Let_def split: sum.splits if_splits)
  let ?raw = "or_default (asArray (b ''attachments'')) []"
  from assms m mb key obtain as where as: "parse_body_attachments b ?raw f (to @ cc @ bcc)
      (js_trim (String_or (b ''subject'') [])) = Inr as"
    by (auto simp: parse_send_def Let_def split: sum.splits if_splits)
  from assms m mb key as have rq: "rq_from rq = f" "rq_to rq = to" "rq_cc rq = cc" "rq_bcc rq = bcc"
      "rq_key rq = key" "rq_attachments rq = as"
    by (auto simp: parse_send_def Let_def split: if_splits)
  from as have "length ?raw \<le> maxFiles limits" and pa: "parse_attachments 0 0 ?raw = Inr as"
    by (auto simp: parse_body_attachments_def split: if_splits option.splits)
  then have "length as \<le> maxFiles limits" "\<forall>a \<in> set as. attachment_ok a"
      "sum_list (map decoded_size as) \<le> maxTotalBytes limits"
    using parse_attachments_Inr [OF pa] by auto
  moreover note parse_mailboxes_Inr [OF m [unfolded mb]]
  ultimately show ?thesis
    using rq canonicalSender_addr(3) [of _ f] parsed_key_safe [OF key]
    by (auto simp: within_limits_def attachment_ok_def)
qed

definition demo_body :: body where
  "demo_body = [''from'' \<mapsto> JStr ''al@x.io'', ''to'' \<mapsto> JStr ''al@x.io'', ''subject'' \<mapsto> JStr ''hi'',
     ''idempotency_key'' \<mapsto> JStr '' k1 '']"

lemma demo_sender: "canonicalSender ''al@x.io'' = Some ''al@x.io''"
proof -
  have "check_addr ''al@x.io'' = Some ''al@x.io''"
    by (simp add: check_addr_def local_ok_def domain_ok_def is_label_def is_local_char_def
        is_alnum_def last_index_of_def is_ws_def is_ws_unit_def js_lower_def lower_char_def
        char_of_def bit_0)
  then show ?thesis
    by (simp add: canonicalSender_def addr_text_def trim_by_def is_ws_def is_ws_unit_def)
qed

lemma accepted_body_is_sendable_witness:
  "\<exists>rq. parse_send True None demo_body = Inr rq \<and> rq_to rq \<noteq> [] \<and> safe_send_intent_key (rq_key rq)"
proof -
  have "\<not> isl (parse_send True None demo_body)"
    by (simp add: parse_send_def parse_mailboxes_def demo_body_def String_or_def trim_by_def is_ws_def
        is_ws_unit_def asStringArray_def demo_sender parseIdempotencyKey_def string_field_def
        safeHeaderValue_def control_unit_def parse_body_attachments_def asArray_def or_default_def
        check_headers_def Let_def)
  then obtain rq where "parse_send True None demo_body = Inr rq" by (cases "parse_send True None demo_body") auto
  with accepted_body_is_sendable [OF this] show ?thesis by blast
qed

end
