(* ===== verification/Auth_Schema.thy ===== *)
theory Auth_Schema
  imports Emails_Prelude
begin

text \<open>
  The identity tables of the self-hosted server (src/server/self-hosted/migrations.ts,
  row types of src/server/self-hosted/auth/store.ts) and the small language the identity
  store's methods are written in: reads, conditional updates, deletes and inserts that fail
  when a unique index or a CHECK would be violated, sequenced so that an error stops the
  method, and a transaction that restores the tables when its body fails.  Email columns
  are CITEXT: they compare without case.  Instants are milliseconds; the clock of the
  process and that of the database are one.  Columns that are only ever defaulted and that
  no operation reads are left out.
\<close>

section \<open>Rows\<close>

datatype role = R_owner | R_admin | R_member | R_viewer

datatype global_role = G_user | G_super_admin

datatype principal_kind = PK_user | PK_service

record tenant_rec =
  tn_id :: string
  tn_slug :: string
  tn_name :: string
  tn_status :: string
  tn_created_at :: int

record user_rec =
  u_id :: string
  u_email :: string
  u_password_hash :: string
  u_name :: "string option"
  u_status :: string
  u_email_verified_at :: "int option"
  u_global_role :: global_role
  u_primary_super_admin :: bool
  u_failed_login_count :: nat
  u_locked_until :: "int option"
  u_created_at :: int
  u_updated_at :: int

record identity_rec =
  ei_id :: string
  ei_user :: string
  ei_email :: string
  ei_primary :: bool
  ei_verified_at :: "int option"
  ei_created_at :: int
  ei_updated_at :: int

record membership_rec =
  mb_id :: string
  mb_user :: string
  mb_tenant :: string
  mb_role :: role
  mb_status :: string
  mb_created_at :: int
  mb_updated_at :: int

record session_rec =
  se_id :: string
  se_user :: string
  se_tenant :: string
  se_token_hash :: string
  se_last_used_at :: "int option"
  se_expires_at :: int
  se_absolute_expires_at :: int
  se_revoked_at :: "int option"
  se_user_agent :: "string option"
  se_ip :: "string option"

record api_key_rec =
  ak_kid :: string
  ak_app :: string
  ak_agent :: "string option"
  ak_scopes :: "string list"
  ak_issued_at :: int
  ak_expires_at :: "int option"
  ak_revoked_at :: "int option"
  ak_revoked_reason :: "string option"
  ak_last_used_at :: "int option"

record key_tenant_rec =
  kt_kid :: string
  kt_tenant :: string
  kt_created_by :: "string option"

record invitation_rec =
  iv_id :: string
  iv_tenant :: string
  iv_email :: string
  iv_role :: role
  iv_token_hash :: string
  iv_invited_by :: "string option"
  iv_expires_at :: int
  iv_accepted_at :: "int option"
  iv_created_at :: int

record reset_token_rec =
  pr_id :: string
  pr_user :: string
  pr_token_hash :: string
  pr_expires_at :: int
  pr_used_at :: "int option"

record verify_token_rec =
  vt_id :: string
  vt_user :: string
  vt_email :: string
  vt_token_hash :: string
  vt_expires_at :: int
  vt_used_at :: "int option"

record idp_grant_rec =
  ig_sub :: string
  ig_tenant :: string
  ig_idp_tid :: "string option"
  ig_principal :: principal_kind
  ig_note :: "string option"
  ig_created_by :: "string option"
  ig_created_at :: int
  ig_revoked_at :: "int option"

record auth_db =
  orgs :: "tenant_rec list"
  users :: "user_rec list"
  identities :: "identity_rec list"
  memberships :: "membership_rec list"
  sessions :: "session_rec list"
  api_keys :: "api_key_rec list"
  key_tenants :: "key_tenant_rec list"
  invitations :: "invitation_rec list"
  reset_tokens :: "reset_token_rec list"
  verify_tokens :: "verify_token_rec list"
  idp_grants :: "idp_grant_rec list"
  bootstrap_audit :: "(string \<times> string \<times> string \<times> string \<times> string) list"
  agent_settings :: "(string \<times> string \<times> string) list"

definition no_accounts :: auth_db where
  "no_accounts = \<lparr> orgs = [], users = [], identities = [], memberships = [], sessions = [],
     api_keys = [], key_tenants = [], invitations = [], reset_tokens = [], verify_tokens = [],
     idp_grants = [], bootstrap_audit = [], agent_settings = [] \<rparr>"

definition ci_eq :: "string \<Rightarrow> string \<Rightarrow> bool" where
  "ci_eq a b \<longleftrightarrow> js_lower a = js_lower b"

lemma ci_eq_refl [simp]: "ci_eq a a"
  by (simp add: ci_eq_def)

lemma ci_eq_sym: "ci_eq a b \<longleftrightarrow> ci_eq b a"
  by (auto simp: ci_eq_def)

lemma ci_eq_trans: "ci_eq a b \<Longrightarrow> ci_eq b c \<Longrightarrow> ci_eq a c"
  by (simp add: ci_eq_def)

section \<open>Unique columns\<close>

definition keyed :: "('r \<Rightarrow> 'k) \<Rightarrow> 'r list \<Rightarrow> bool" where
  "keyed k t \<longleftrightarrow> distinct (map k t)"

lemma keyed_Nil [simp]: "keyed k []"
  by (simp add: keyed_def)

lemma keyed_snoc [simp]: "keyed k (t @ [r]) \<longleftrightarrow> keyed k t \<and> (\<forall>x \<in> set t. k x \<noteq> k r)"
  by (auto simp: keyed_def) (metis imageI)+

lemma keyed_map_where:
  assumes "\<And>r. k (f r) = k r"
  shows "keyed k (map (\<lambda>r. if P r then f r else r) t) \<longleftrightarrow> keyed k t"
proof -
  have "k \<circ> (\<lambda>r. if P r then f r else r) = k" using assms by auto
  then show ?thesis by (simp add: keyed_def)
qed

lemma keyed_filter: "keyed k t \<Longrightarrow> keyed k (filter P t)"
  by (auto simp: keyed_def distinct_map inj_on_def)

lemma keyed_same: "keyed k t \<Longrightarrow> x \<in> set t \<Longrightarrow> y \<in> set t \<Longrightarrow> k x = k y \<Longrightarrow> x = y"
  by (auto simp: keyed_def distinct_map inj_on_def)

section \<open>Statements\<close>

datatype auth_error =
    Last_Owner
  | Slug_Taken string
  | Email_Taken
  | Constraint_Violated string

type_synonym 'a tx = "auth_db \<Rightarrow> auth_db \<times> (auth_error + 'a)"

definition tx_ret :: "'a \<Rightarrow> 'a tx" where
  "tx_ret x s = (s, Inr x)"

definition tx_throw :: "auth_error \<Rightarrow> 'a tx" where
  "tx_throw e s = (s, Inl e)"

definition tx_bind :: "'a tx \<Rightarrow> ('a \<Rightarrow> 'b tx) \<Rightarrow> 'b tx" where
  "tx_bind m f s = (case m s of (s', Inl e) \<Rightarrow> (s', Inl e) | (s', Inr x) \<Rightarrow> f x s')"

definition tx_read :: "(auth_db \<Rightarrow> 'a) \<Rightarrow> 'a tx" where
  "tx_read f s = (s, Inr (f s))"

definition tx_write :: "(auth_db \<Rightarrow> auth_db) \<Rightarrow> unit tx" where
  "tx_write f s = (f s, Inr ())"

text \<open>\<open>transaction\<close>: COMMIT when the body returns, ROLLBACK when it throws.\<close>

definition tx_atomic :: "'a tx \<Rightarrow> 'a tx" where
  "tx_atomic m s = (case m s of (_, Inl e) \<Rightarrow> (s, Inl e) | (s', Inr x) \<Rightarrow> (s', Inr x))"

text \<open>
  INSERT of \<open>row\<close> into the table read by \<open>get\<close> and written by \<open>upd\<close>; \<open>clash\<close> holds of the
  rows that a unique index or CHECK lets no such row stand beside.
\<close>

definition tx_insert ::
    "(auth_db \<Rightarrow> 'r list) \<Rightarrow> (('r list \<Rightarrow> 'r list) \<Rightarrow> auth_db \<Rightarrow> auth_db) \<Rightarrow> ('r \<Rightarrow> bool) \<Rightarrow> 'r \<Rightarrow> 'r tx" where
  "tx_insert get upd clash row s =
     (if \<exists>r \<in> set (get s). clash r then (s, Inl (Constraint_Violated ''unique''))
      else (upd (\<lambda>t. t @ [row]) s, Inr row))"

text \<open>
  UPDATE with its RETURNING row (the first one written), and DELETE, which tells whether it
  removed a row.
\<close>

definition tx_update ::
    "(auth_db \<Rightarrow> 'r list) \<Rightarrow> (('r list \<Rightarrow> 'r list) \<Rightarrow> auth_db \<Rightarrow> auth_db)
      \<Rightarrow> ('r \<Rightarrow> bool) \<Rightarrow> ('r \<Rightarrow> 'r) \<Rightarrow> 'r option tx" where
  "tx_update get upd P f s =
     (upd (\<lambda>t. map (\<lambda>r. if P r then f r else r) t) s, Inr (map_option f (find P (get s))))"

definition tx_delete ::
    "(auth_db \<Rightarrow> 'r list) \<Rightarrow> (('r list \<Rightarrow> 'r list) \<Rightarrow> auth_db \<Rightarrow> auth_db) \<Rightarrow> ('r \<Rightarrow> bool) \<Rightarrow> bool tx" where
  "tx_delete get upd P s = (upd (filter (\<lambda>r. \<not> P r)) s, Inr (\<exists>r \<in> set (get s). P r))"

lemmas tx_defs = tx_ret_def tx_throw_def tx_bind_def tx_read_def tx_write_def tx_atomic_def

lemma tx_bind_ret [simp]: "tx_bind (tx_ret x) f = f x"
  by (rule ext) (simp add: tx_defs)

lemma tx_bind_read [simp]: "tx_bind (tx_read g) f s = f (g s) s"
  by (simp add: tx_defs)

lemma tx_bind_write [simp]: "tx_bind (tx_write g) f s = f () (g s)"
  by (simp add: tx_defs)

lemma tx_bind_update [simp]:
  "tx_bind (tx_update get upd P g) f s =
     f (map_option g (find P (get s))) (upd (\<lambda>t. map (\<lambda>r. if P r then g r else r) t) s)"
  by (simp add: tx_defs tx_update_def)

lemma tx_bind_delete [simp]:
  "tx_bind (tx_delete get upd P) f s = f (\<exists>r \<in> set (get s). P r) (upd (filter (\<lambda>r. \<not> P r)) s)"
  by (simp add: tx_defs tx_delete_def)

lemma tx_bind_Inr:
  "tx_bind m f s = (s', Inr y) \<longleftrightarrow> (\<exists>s1 x. m s = (s1, Inr x) \<and> f x s1 = (s', Inr y))"
  by (auto simp: tx_bind_def split: prod.splits sum.splits)

lemma tx_atomic_Inr: "tx_atomic m s = (s', Inr y) \<longleftrightarrow> m s = (s', Inr y)"
  by (auto simp: tx_atomic_def split: prod.splits sum.splits)

lemma tx_insert_Inr:
  "tx_insert get upd clash row s = (s', Inr y) \<longleftrightarrow>
     (\<forall>r \<in> set (get s). \<not> clash r) \<and> s' = upd (\<lambda>t. t @ [row]) s \<and> y = row"
  by (auto simp: tx_insert_def)

text \<open>The foreign keys to users and tenants, checked when a row is inserted.\<close>

definition known_user :: "string \<Rightarrow> auth_db \<Rightarrow> bool" where
  "known_user i s \<longleftrightarrow> (\<exists>u \<in> set (users s). u_id u = i)"

definition known_org :: "string \<Rightarrow> auth_db \<Rightarrow> bool" where
  "known_org i s \<longleftrightarrow> (\<exists>t \<in> set (orgs s). tn_id t = i)"

definition tx_references :: "(auth_db \<Rightarrow> bool) \<Rightarrow> 'a tx \<Rightarrow> 'a tx" where
  "tx_references known m s = (if known s then m s else (s, Inl (Constraint_Violated ''foreign key'')))"

lemma tx_references_Inr: "tx_references known m s = (s', Inr y) \<longleftrightarrow> known s \<and> m s = (s', Inr y)"
  by (simp add: tx_references_def)

section \<open>Relations every statement respects\<close>

text \<open>
  Most facts about the store have the form: whatever a method does, the tables before and
  after are related by \<open>R\<close>.  For a preorder \<open>R\<close> this follows the structure of the method, so
  it is proved once here and each relation only looks at the tables that matter to it.
\<close>

locale tx_relation =
  fixes R :: "auth_db \<Rightarrow> auth_db \<Rightarrow> bool"
  assumes R_refl: "R s s"
    and R_trans: "R s s' \<Longrightarrow> R s' s'' \<Longrightarrow> R s s''"
begin

definition keeps :: "'a tx \<Rightarrow> bool" where
  "keeps m \<longleftrightarrow> (\<forall>s. R s (fst (m s)))"

lemma keepsD: "keeps m \<Longrightarrow> m s = (s', r) \<Longrightarrow> R s s'"
  unfolding keeps_def by (metis fst_conv)

lemma keeps_ret: "keeps (tx_ret x)"
  by (simp add: keeps_def tx_ret_def R_refl)

lemma keeps_throw: "keeps (tx_throw e)"
  by (simp add: keeps_def tx_throw_def R_refl)

lemma keeps_read: "keeps (tx_read g)"
  by (simp add: keeps_def tx_read_def R_refl)

lemma keeps_write: "(\<And>s. R s (f s)) \<Longrightarrow> keeps (tx_write f)"
  by (simp add: keeps_def tx_write_def)

lemma keeps_bind: "keeps m \<Longrightarrow> (\<And>x. keeps (f x)) \<Longrightarrow> keeps (tx_bind m f)"
  unfolding keeps_def tx_bind_def
  by (auto split: prod.splits sum.splits intro: R_trans) (metis fst_conv R_trans)+

lemma keeps_atomic: "keeps m \<Longrightarrow> keeps (tx_atomic m)"
  unfolding keeps_def tx_atomic_def
  by (auto split: prod.splits sum.splits intro: R_refl) (metis fst_conv)

lemma keeps_insert:
  "(\<And>s. (\<forall>r \<in> set (get s). \<not> clash r) \<Longrightarrow> R s (upd (\<lambda>t. t @ [row]) s)) \<Longrightarrow>
   keeps (tx_insert get upd clash row)"
  by (auto simp: keeps_def tx_insert_def R_refl)

lemma keeps_update:
  "(\<And>s. R s (upd (\<lambda>t. map (\<lambda>r. if P r then f r else r) t) s)) \<Longrightarrow> keeps (tx_update get upd P f)"
  by (simp add: keeps_def tx_update_def)

lemma keeps_delete: "(\<And>s. R s (upd (filter (\<lambda>r. \<not> P r)) s)) \<Longrightarrow> keeps (tx_delete get upd P)"
  by (simp add: keeps_def tx_delete_def)

lemma keeps_references:
  "(\<And>s. known s \<Longrightarrow> \<forall>r \<in> set (get s). \<not> clash r \<Longrightarrow> R s (upd (\<lambda>t. t @ [row]) s)) \<Longrightarrow>
   keeps (tx_references known (tx_insert get upd clash row))"
  by (auto simp: keeps_def tx_references_def tx_insert_def R_refl)

lemma keeps_if: "(b \<Longrightarrow> keeps m) \<Longrightarrow> (\<not> b \<Longrightarrow> keeps n) \<Longrightarrow> keeps (if b then m else n)"
  by simp

lemma keeps_option: "keeps m \<Longrightarrow> (\<And>x. keeps (f x)) \<Longrightarrow> keeps (case v of None \<Rightarrow> m | Some x \<Rightarrow> f x)"
  by (cases v) auto

lemma keeps_prod: "(\<And>x y. keeps (f x y)) \<Longrightarrow> keeps (case v of (x, y) \<Rightarrow> f x y)"
  by (cases v) auto

lemmas keeps_rules =
  keeps_ret keeps_throw keeps_read keeps_write keeps_bind keeps_atomic keeps_insert
  keeps_update keeps_delete keeps_references
  keeps_if keeps_option keeps_prod

end

end
