(* ===== verification/Auth_Password.thy ===== *)
theory Auth_Password
  imports Js_Text
begin

text \<open>
  src/server/self-hosted/auth/password.ts: reading the cost parameters of a stored PHC
  string and deciding whether the hash is due for re-hashing.  The hash primitive itself
  (Bun.password) is not code of the repository: \<open>verifyPassword\<close> takes its verifier as an
  argument, \<open>None\<close> meaning that it threw.
\<close>

record argon2_params =
  memoryCost :: int
  timeCost :: int

definition DEFAULT_ARGON2ID_PARAMS :: argon2_params where
  "DEFAULT_ARGON2ID_PARAMS = \<lparr> memoryCost = 19456, timeCost = 2 \<rparr>"

record parsed_phc =
  phc_algorithm :: string
  phc_version :: "int option"
  phc_memory :: "int option"
  phc_time :: "int option"
  phc_parallelism :: "int option"

section \<open>\<open>parseInt\<close>\<close>

text \<open>\<open>Number.parseInt(s, 10)\<close>: white space, a sign, the longest run of digits; \<open>None\<close> is NaN.\<close>

definition js_parse_int :: "string \<Rightarrow> int option" where
  "js_parse_int s =
     (let t = dropWhile is_ws s;
          neg = (t \<noteq> [] \<and> hd t = CHR ''-'');
          u = (if t \<noteq> [] \<and> (hd t = CHR ''-'' \<or> hd t = CHR ''+'') then tl t else t);
          ds = takeWhile is_digit u
      in if ds = [] then None else Some (if neg then - digits_value ds else digits_value ds))"

section \<open>The parser\<close>

definition starts_with :: "string \<Rightarrow> string \<Rightarrow> bool" where
  "starts_with p s \<longleftrightarrow> take (length p) s = p"

text \<open>\<open>kv.split("=")\<close> gives the key and, when there is one, the text up to a second sign.\<close>

definition read_param :: "parsed_phc \<Rightarrow> string \<Rightarrow> parsed_phc" where
  "read_param p kv =
     (let parts = split_on CHR ''='' kv; key = hd parts;
          raw = (if 1 < length parts then parts ! 1 else [])
      in case js_parse_int raw of
           None \<Rightarrow> p
         | Some v \<Rightarrow>
             if key = ''m'' then p\<lparr>phc_memory := Some v\<rparr>
             else if key = ''t'' then p\<lparr>phc_time := Some v\<rparr>
             else if key = ''p'' then p\<lparr>phc_parallelism := Some v\<rparr>
             else p)"

definition parseArgon2Phc :: "string \<Rightarrow> parsed_phc option" where
  "parseArgon2Phc hash =
     (if hash = [] \<or> hd hash \<noteq> CHR ''$'' then None
      else let parts = split_on CHR ''$'' hash
      in if length parts < 4 then None
         else if parts ! 1 = [] then None
         else let versioned = starts_with ''v='' (parts ! 2);
                  version = (if versioned then js_parse_int (drop 2 (parts ! 2)) else None);
                  segment = (if versioned then parts ! 3 else parts ! 2);
                  p = \<lparr> phc_algorithm = parts ! 1, phc_version = version, phc_memory = None,
                        phc_time = None, phc_parallelism = None \<rparr>
              in Some (if segment \<noteq> [] \<and> CHR ''='' \<in> set segment
                       then foldl read_param p (split_on CHR '','' segment) else p))"

definition needsRehash :: "argon2_params \<Rightarrow> string \<Rightarrow> bool" where
  "needsRehash params hash =
     (case parseArgon2Phc hash of
        None \<Rightarrow> True
      | Some p \<Rightarrow> phc_algorithm p \<noteq> ''argon2id'' \<or> phc_memory p \<noteq> Some (memoryCost params)
                 \<or> phc_time p \<noteq> Some (timeCost params))"

section \<open>Verification\<close>

definition verifyPassword :: "(string \<Rightarrow> string \<Rightarrow> bool option) \<Rightarrow> string \<Rightarrow> string \<Rightarrow> bool" where
  "verifyPassword verify password hash \<longleftrightarrow> hash \<noteq> [] \<and> verify password hash = Some True"

text \<open>With no stored hash a verification against a dummy runs for its time; its result is dropped.\<close>

definition verifyPasswordOrEqualizeTiming ::
    "(string \<Rightarrow> string \<Rightarrow> bool option) \<Rightarrow> string \<Rightarrow> string option \<Rightarrow> bool" where
  "verifyPasswordOrEqualizeTiming verify password hash =
     (case hash of Some h \<Rightarrow> h \<noteq> [] \<and> verifyPassword verify password h | None \<Rightarrow> False)"

section \<open>A hash of the current policy is not re-hashed\<close>

text \<open>
  The PHC string that the hash primitive documents for the current parameters, whatever the
  salt and the digest: it is read back with exactly these parameters, so a login does not
  re-hash it again.  A hash with other costs is re-hashed.
\<close>

theorem current_hash_is_kept:
  assumes "CHR ''$'' \<notin> set salt" "CHR ''$'' \<notin> set digest"
  shows "\<not> needsRehash DEFAULT_ARGON2ID_PARAMS
      (''$argon2id$v=19$m=19456,t=2,p=1$'' @ salt @ ''$'' @ digest)
    \<and> needsRehash DEFAULT_ARGON2ID_PARAMS
      (''$argon2id$v=19$m=4096,t=2,p=1$'' @ salt @ ''$'' @ digest)"
proof -
  have parts: "split_on CHR ''$'' (''$argon2id$v=19$m='' @ m @ '',t=2,p=1$'' @ salt @ ''$'' @ digest)
      = [[], ''argon2id'', ''v=19'', ''m='' @ m @ '',t=2,p=1'', salt, digest]"
    if "CHR ''$'' \<notin> set m" for m
    using that assms split_on_append [of "CHR ''$''" m "[]"]
      split_on_append [of "CHR ''$''" "''m='' @ m @ '',t=2,p=1''" "salt @ ''$'' @ digest"]
      split_on_append [of "CHR ''$''" salt digest] split_on_none [of "CHR ''$''" digest]
    by simp
  have a: "parseArgon2Phc (''$argon2id$v=19$m=19456,t=2,p=1$'' @ salt @ ''$'' @ digest)
      = Some \<lparr> phc_algorithm = ''argon2id'', phc_version = Some 19, phc_memory = Some 19456,
               phc_time = Some 2, phc_parallelism = Some 1 \<rparr>"
    using parts [of "''19456''"]
    by (simp add: parseArgon2Phc_def starts_with_def js_parse_int_def is_digit_def digits_value_def
        is_ws_def is_ws_unit_def read_param_def Let_def)
  have b: "parseArgon2Phc (''$argon2id$v=19$m=4096,t=2,p=1$'' @ salt @ ''$'' @ digest)
      = Some \<lparr> phc_algorithm = ''argon2id'', phc_version = Some 19, phc_memory = Some 4096,
               phc_time = Some 2, phc_parallelism = Some 1 \<rparr>"
    using parts [of "''4096''"]
    by (simp add: parseArgon2Phc_def starts_with_def js_parse_int_def is_digit_def digits_value_def
        is_ws_def is_ws_unit_def read_param_def Let_def)
  show ?thesis unfolding needsRehash_def a b DEFAULT_ARGON2ID_PARAMS_def by simp
qed

lemma current_hash_is_kept_witness:
  "\<not> needsRehash DEFAULT_ARGON2ID_PARAMS ''$argon2id$v=19$m=19456,t=2,p=1$c2FsdA$ZGln''"
  using current_hash_is_kept [of "''c2FsdA''" "''ZGln''"] by simp

end
