(* ===== verification/Auth_Store.thy ===== *)
theory Auth_Store
  imports Auth_Schema Auth_Password
begin

text \<open>
  \<open>AuthStore\<close> of src/server/self-hosted/auth/store.ts and the tokens of auth/tokens.ts: one
  definition per method, in the order of the file.  What the platform supplies is an
  argument: the hash functions and the configured lifetimes (\<open>auth_cfg\<close>), and per call the
  clock, fresh row ids and random texts (\<open>moment\<close>).
\<close>

record auth_cfg =
  cf_idle_days :: "int option"
  cf_absolute_days :: "int option"
  cf_reset_minutes :: "int option"
  cf_invite_hours :: "int option"
  cf_verify_hours :: "int option"
  cf_sha256 :: "string \<Rightarrow> string"
  cf_hash :: "string \<Rightarrow> string \<Rightarrow> string"
  cf_verify :: "string \<Rightarrow> string \<Rightarrow> bool option"

record moment =
  mo_now :: int
  mo_id :: "nat \<Rightarrow> string"
  mo_secret :: string
  mo_salt :: string
  mo_suffix :: "nat \<Rightarrow> string"

text \<open>A lifetime of the environment: \<open>None\<close> when \<open>Number\<close> gives no finite number.\<close>

definition envInt :: "int option \<Rightarrow> int \<Rightarrow> int" where
  "envInt raw fallback = (case raw of Some n \<Rightarrow> if 0 < n then n else fallback | None \<Rightarrow> fallback)"

definition idleTtlMs :: "auth_cfg \<Rightarrow> int" where
  "idleTtlMs cf = envInt (cf_idle_days cf) 14 * 86400000"

definition absoluteTtlMs :: "auth_cfg \<Rightarrow> int" where
  "absoluteTtlMs cf = envInt (cf_absolute_days cf) 90 * 86400000"

definition resetTtlMs :: "auth_cfg \<Rightarrow> int" where
  "resetTtlMs cf = envInt (cf_reset_minutes cf) 60 * 60000"

definition inviteTtlMs :: "auth_cfg \<Rightarrow> int" where
  "inviteTtlMs cf = envInt (cf_invite_hours cf) 168 * 3600000"

definition verifyTtlMs :: "auth_cfg \<Rightarrow> int" where
  "verifyTtlMs cf = envInt (cf_verify_hours cf) 24 * 3600000"

section \<open>Tokens\<close>

definition hashToken :: "auth_cfg \<Rightarrow> string \<Rightarrow> string" where
  "hashToken cf token = cf_sha256 cf token"

definition mint_token :: "string \<Rightarrow> moment \<Rightarrow> string" where
  "mint_token prefix mo = prefix @ mo_secret mo"

definition mintSessionToken :: "moment \<Rightarrow> string" where
  "mintSessionToken mo = mint_token ''emss_'' mo"

definition mintResetToken :: "moment \<Rightarrow> string" where
  "mintResetToken mo = mint_token ''emrt_'' mo"

definition mintInviteToken :: "moment \<Rightarrow> string" where
  "mintInviteToken mo = mint_token ''emiv_'' mo"

definition mintEmailVerifyToken :: "moment \<Rightarrow> string" where
  "mintEmailVerifyToken mo = mint_token ''emev_'' mo"

section \<open>Slugs\<close>

definition slug_char :: "char \<Rightarrow> bool" where
  "slug_char c \<longleftrightarrow> of_char c \<in> {97 .. 122 :: nat} \<or> is_digit c"

text \<open>\<open>replace(/[^a-z0-9]+/g, "-")\<close>; the flag says that the run already gave its dash.\<close>

fun dash_runs :: "bool \<Rightarrow> string \<Rightarrow> string" where
  "dash_runs _ [] = []"
| "dash_runs in_run (c # cs) =
     (if slug_char c then c # dash_runs False cs
      else if in_run then dash_runs True cs else CHR ''-'' # dash_runs True cs)"

text \<open>\<open>replace(/-{2,}/g, "-")\<close>\<close>

fun collapse_dashes :: "string \<Rightarrow> string" where
  "collapse_dashes (a # b # cs) =
     (if a = CHR ''-'' \<and> b = CHR ''-'' then collapse_dashes (b # cs) else a # collapse_dashes (b # cs))"
| "collapse_dashes cs = cs"

definition slugify :: "moment \<Rightarrow> string \<Rightarrow> string" where
  "slugify mo input =
     (let base = take 48 (collapse_dashes (trim_by (\<lambda>c. c = CHR ''-'')
            (dash_runs False (js_lower (js_trim input)))))
      in if base \<noteq> [] then base else ''org-'' @ take 8 (mo_suffix mo 0))"

text \<open>The CHECK on the slug column.\<close>

definition slug_ok :: "string \<Rightarrow> bool" where
  "slug_ok s \<longleftrightarrow> s \<noteq> [] \<and> slug_char (hd s) \<and> (\<forall>c \<in> set s. slug_char c \<or> c = CHR ''-'')"

definition resolveFreeSlug :: "moment \<Rightarrow> string \<Rightarrow> string tx" where
  "resolveFreeSlug mo hint =
     (let base = slugify mo hint in
      tx_bind (tx_read (\<lambda>s. find (\<lambda>c. \<forall>t \<in> set (orgs s). tn_slug t \<noteq> c)
          (map (\<lambda>attempt. if attempt = 0 then base else base @ ''-'' @ take 8 (mo_suffix mo attempt)) [0..<5])))
        (\<lambda>free. case free of Some candidate \<Rightarrow> tx_ret candidate | None \<Rightarrow> tx_throw (Slug_Taken base)))"

section \<open>Inserts\<close>

definition insert_org :: "tenant_rec \<Rightarrow> tenant_rec tx" where
  "insert_org t = (if slug_ok (tn_slug t)
     then tx_insert orgs orgs_update (\<lambda>r. tn_id r = tn_id t \<or> tn_slug r = tn_slug t) t
     else tx_throw (Constraint_Violated ''slug''))"

definition insert_user :: "user_rec \<Rightarrow> user_rec tx" where
  "insert_user u = tx_insert users users_update (\<lambda>r. u_id r = u_id u \<or> ci_eq (u_email r) (u_email u)
     \<or> (u_primary_super_admin r \<and> u_primary_super_admin u)) u"

definition insert_identity :: "identity_rec \<Rightarrow> identity_rec tx" where
  "insert_identity i = tx_references (known_user (ei_user i)) (tx_insert identities identities_update
     (\<lambda>r. ei_id r = ei_id i \<or> ci_eq (ei_email r) (ei_email i)
        \<or> (ei_user r = ei_user i \<and> ei_primary r \<and> ei_primary i)) i)"

definition insert_membership :: "membership_rec \<Rightarrow> membership_rec tx" where
  "insert_membership m = tx_references (\<lambda>s. known_user (mb_user m) s \<and> known_org (mb_tenant m) s)
     (tx_insert memberships memberships_update
       (\<lambda>r. mb_id r = mb_id m \<or> (mb_user r = mb_user m \<and> mb_tenant r = mb_tenant m)) m)"

text \<open>\<open>INSERT ... ON CONFLICT (user_id, tenant_id) DO UPDATE SET role, status\<close>\<close>

definition upsert_membership :: "int \<Rightarrow> membership_rec \<Rightarrow> membership_rec tx" where
  "upsert_membership now m =
     tx_bind (tx_update memberships memberships_update (\<lambda>r. mb_user r = mb_user m \<and> mb_tenant r = mb_tenant m)
         (\<lambda>r. r\<lparr>mb_role := mb_role m, mb_status := ''active'', mb_updated_at := now\<rparr>))
       (\<lambda>r. case r of Some x \<Rightarrow> tx_ret x | None \<Rightarrow> insert_membership m)"

definition new_user :: "moment \<Rightarrow> nat \<Rightarrow> string \<Rightarrow> string \<Rightarrow> string option \<Rightarrow> int option \<Rightarrow> user_rec" where
  "new_user mo k email hash name verified =
     \<lparr> u_id = mo_id mo k, u_email = email, u_password_hash = hash, u_name = name,
       u_status = ''active'', u_email_verified_at = verified, u_global_role = G_user,
       u_primary_super_admin = False, u_failed_login_count = 0, u_locked_until = None,
       u_created_at = mo_now mo, u_updated_at = mo_now mo \<rparr>"

definition new_identity :: "moment \<Rightarrow> nat \<Rightarrow> string \<Rightarrow> string \<Rightarrow> bool \<Rightarrow> int option \<Rightarrow> identity_rec" where
  "new_identity mo k user email primary verified =
     \<lparr> ei_id = mo_id mo k, ei_user = user, ei_email = email, ei_primary = primary,
       ei_verified_at = verified, ei_created_at = mo_now mo, ei_updated_at = mo_now mo \<rparr>"

definition new_membership :: "moment \<Rightarrow> nat \<Rightarrow> string \<Rightarrow> string \<Rightarrow> role \<Rightarrow> membership_rec" where
  "new_membership mo k user tenant r =
     \<lparr> mb_id = mo_id mo k, mb_user = user, mb_tenant = tenant, mb_role = r, mb_status = ''active'',
       mb_created_at = mo_now mo, mb_updated_at = mo_now mo \<rparr>"

definition new_org :: "moment \<Rightarrow> nat \<Rightarrow> string \<Rightarrow> string \<Rightarrow> tenant_rec" where
  "new_org mo k slug name =
     \<lparr> tn_id = mo_id mo k, tn_slug = slug, tn_name = js_trim name, tn_status = ''active'',
       tn_created_at = mo_now mo \<rparr>"

section \<open>Which tenant a credential acts in\<close>

definition getApiKeyTenant :: "string \<Rightarrow> string option tx" where
  "getApiKeyTenant kid = tx_read (\<lambda>s. map_option kt_tenant
     (find (\<lambda>k. kt_kid k = kid \<and> (\<exists>t \<in> set (orgs s). tn_id t = kt_tenant k \<and> tn_status t = ''active''))
        (key_tenants s)))"

record idp_mapping =
  im_sub :: string
  im_tenant :: string
  im_idp_tid :: "string option"
  im_principal :: principal_kind
  im_revoked :: "int option"

definition mapping_of :: "idp_grant_rec \<Rightarrow> idp_mapping" where
  "mapping_of g = \<lparr> im_sub = ig_sub g, im_tenant = ig_tenant g, im_idp_tid = ig_idp_tid g,
     im_principal = ig_principal g, im_revoked = ig_revoked_at g \<rparr>"

definition listIdpPrincipalTenantsForSub :: "string \<Rightarrow> idp_mapping list tx" where
  "listIdpPrincipalTenantsForSub sub = tx_read (\<lambda>s. map mapping_of
     (sort_key (\<lambda>g. (ig_created_at g, ig_tenant g))
       (filter (\<lambda>g. ig_sub g = sub \<and> (\<exists>t \<in> set (orgs s). tn_id t = ig_tenant g \<and> tn_status t = ''active''))
          (idp_grants s))))"

definition listIdpPrincipalTenants :: "string \<Rightarrow> idp_grant_rec list tx" where
  "listIdpPrincipalTenants tenant = tx_read (\<lambda>s.
     sort_key (\<lambda>g. (ig_created_at g, ig_sub g)) (filter (\<lambda>g. ig_tenant g = tenant) (idp_grants s)))"

definition upsertIdpPrincipalTenant :: "moment \<Rightarrow> string \<Rightarrow> string \<Rightarrow> string option \<Rightarrow> principal_kind option
    \<Rightarrow> string option \<Rightarrow> string option \<Rightarrow> idp_mapping option tx" where
  "upsertIdpPrincipalTenant mo sub tenant tid kind note by =
     tx_bind (tx_update idp_grants idp_grants_update (\<lambda>g. ig_sub g = sub \<and> ig_tenant g = tenant)
         (\<lambda>g. g\<lparr>ig_idp_tid := tid, ig_principal := or_default kind PK_service, ig_note := note, ig_created_by := by\<rparr>))
       (\<lambda>r. case r of
          Some g \<Rightarrow> tx_ret (Some (mapping_of g))
        | None \<Rightarrow> tx_bind (tx_references (\<lambda>s. known_org tenant s \<and> (case by of None \<Rightarrow> True | Some u \<Rightarrow> known_user u s))
            (tx_insert idp_grants idp_grants_update
              (\<lambda>g. ig_sub g = sub \<and> ig_tenant g = tenant)
              \<lparr> ig_sub = sub, ig_tenant = tenant, ig_idp_tid = tid,
                ig_principal = or_default kind PK_service, ig_note = note, ig_created_by = by,
                ig_created_at = mo_now mo, ig_revoked_at = None \<rparr>))
            (\<lambda>g. tx_ret (Some (mapping_of g))))"

text \<open>An empty tenant text counts as none: every live grant of the principal is revoked.\<close>

definition revokeIdpPrincipalTenant :: "moment \<Rightarrow> string \<Rightarrow> string option \<Rightarrow> bool tx" where
  "revokeIdpPrincipalTenant mo sub tenant =
     tx_bind (tx_update idp_grants idp_grants_update
         (\<lambda>g. ig_sub g = sub \<and> (tenant = None \<or> tenant = Some [] \<or> tenant = Some (ig_tenant g)) \<and> ig_revoked_at g = None)
         (\<lambda>g. g\<lparr>ig_revoked_at := Some (mo_now mo)\<rparr>))
       (\<lambda>r. tx_ret (r \<noteq> None))"

definition restoreIdpPrincipalTenant :: "string \<Rightarrow> string \<Rightarrow> bool tx" where
  "restoreIdpPrincipalTenant sub tenant =
     tx_bind (tx_update idp_grants idp_grants_update
         (\<lambda>g. ig_sub g = sub \<and> ig_tenant g = tenant \<and> ig_revoked_at g \<noteq> None) (\<lambda>g. g\<lparr>ig_revoked_at := None\<rparr>))
       (\<lambda>r. tx_ret (r \<noteq> None))"

section \<open>Sessions\<close>

record session_ctx =
  sx_session :: string
  sx_user :: string
  sx_tenant :: string
  sx_role :: role
  sx_global_role :: global_role

type_synonym session_row = "session_rec \<times> user_rec \<times> tenant_rec \<times> membership_rec"

definition session_join :: "auth_db \<Rightarrow> session_row list" where
  "session_join s = [(e, u, t, m). e \<leftarrow> sessions s, u \<leftarrow> users s, u_id u = se_user e,
     t \<leftarrow> orgs s, tn_id t = se_tenant e,
     m \<leftarrow> memberships s, mb_user m = se_user e \<and> mb_tenant m = se_tenant e]"

definition live_row :: "auth_cfg \<Rightarrow> int \<Rightarrow> string \<Rightarrow> session_row \<Rightarrow> bool" where
  "live_row cf now token r = (case r of (e, u, t, m) \<Rightarrow>
     se_token_hash e = hashToken cf token \<and> se_revoked_at e = None
     \<and> now < se_expires_at e \<and> now < se_absolute_expires_at e
     \<and> u_status u = ''active'' \<and> tn_status t = ''active'' \<and> mb_status m = ''active'')"

definition resolveSession :: "auth_cfg \<Rightarrow> moment \<Rightarrow> string \<Rightarrow> session_ctx option tx" where
  "resolveSession cf mo token =
     tx_bind (tx_read (\<lambda>s. find (live_row cf (mo_now mo) token) (session_join s)))
       (\<lambda>row. case row of
          None \<Rightarrow> tx_ret None
        | Some (e, u, t, m) \<Rightarrow>
            tx_bind (tx_update sessions sessions_update (\<lambda>x. se_id x = se_id e)
                (\<lambda>x. x\<lparr>se_expires_at := min (mo_now mo + idleTtlMs cf) (se_absolute_expires_at e),
                       se_last_used_at := Some (mo_now mo)\<rparr>))
              (\<lambda>_. tx_ret (Some \<lparr> sx_session = se_id e, sx_user = se_user e, sx_tenant = se_tenant e,
                                    sx_role = mb_role m, sx_global_role = u_global_role u \<rparr>)))"

section \<open>Users\<close>

text \<open>The user an address belongs to, with the verification of that address.\<close>

definition identity_join :: "(string \<Rightarrow> bool) \<Rightarrow> auth_db \<Rightarrow> (user_rec \<times> int option) list" where
  "identity_join P s = [(u, ei_verified_at i). u \<leftarrow> users s, i \<leftarrow> identities s,
     ei_user i = u_id u \<and> P (ei_email i)]"

definition first_of :: "'a list \<Rightarrow> 'a option" where
  "first_of xs = (case xs of [] \<Rightarrow> None | x # _ \<Rightarrow> Some x)"

definition findUserByEmail :: "string \<Rightarrow> (user_rec \<times> int option) option tx" where
  "findUserByEmail email = tx_read (\<lambda>s. first_of (identity_join (ci_eq (js_trim email)) s))"

definition getUserById :: "string \<Rightarrow> user_rec option tx" where
  "getUserById i = tx_read (\<lambda>s. find (\<lambda>u. u_id u = i) (users s))"

definition update_user :: "string \<Rightarrow> (user_rec \<Rightarrow> user_rec) \<Rightarrow> user_rec option tx" where
  "update_user i f = tx_update users users_update (\<lambda>u. u_id u = i) f"

definition setPasswordHash :: "moment \<Rightarrow> string \<Rightarrow> string \<Rightarrow> unit tx" where
  "setPasswordHash mo i hash =
     tx_bind (update_user i (\<lambda>u. u\<lparr>u_password_hash := hash, u_updated_at := mo_now mo\<rparr>)) (\<lambda>_. tx_ret ())"

definition hashPassword :: "auth_cfg \<Rightarrow> moment \<Rightarrow> string \<Rightarrow> string" where
  "hashPassword cf mo password = cf_hash cf (mo_salt mo) password"

definition verifyLogin :: "auth_cfg \<Rightarrow> moment \<Rightarrow> string \<Rightarrow> string \<Rightarrow> user_rec option tx" where
  "verifyLogin cf mo email password =
     tx_bind (findUserByEmail email) (\<lambda>found.
       case found of
         None \<Rightarrow> tx_ret None
       | Some (user, _) \<Rightarrow>
           if \<not> verifyPasswordOrEqualizeTiming (cf_verify cf) password (Some (u_password_hash user)) then tx_ret None
           else if u_status user \<noteq> ''active'' then tx_ret None
           else if needsRehash DEFAULT_ARGON2ID_PARAMS (u_password_hash user)
           then tx_bind (setPasswordHash mo (u_id user) (hashPassword cf mo password)) (\<lambda>_. tx_ret (Some user))
           else tx_ret (Some user))"

definition isLocked :: "moment \<Rightarrow> user_rec \<Rightarrow> bool" where
  "isLocked mo u = (case u_locked_until u of None \<Rightarrow> False | Some t \<Rightarrow> mo_now mo < t)"

text \<open>Five strikes lock for five minutes; each further one doubles the time, up to an hour.\<close>

definition lock_minutes :: "nat \<Rightarrow> int" where
  "lock_minutes count = min 60 (5 * 2 ^ (count - 5))"

definition recordFailedLogin :: "moment \<Rightarrow> string \<Rightarrow> unit tx" where
  "recordFailedLogin mo i =
     tx_bind (getUserById i) (\<lambda>found.
       case found of
         None \<Rightarrow> tx_ret ()
       | Some user \<Rightarrow>
           let count = u_failed_login_count user + 1;
               until = (if 5 \<le> count then Some (mo_now mo + lock_minutes count * 60000) else None)
           in tx_bind (update_user i (\<lambda>u. u\<lparr>u_failed_login_count := count, u_locked_until := until,
                                           u_updated_at := mo_now mo\<rparr>)) (\<lambda>_. tx_ret ()))"

definition clearFailedLogins :: "moment \<Rightarrow> string \<Rightarrow> unit tx" where
  "clearFailedLogins mo i =
     tx_bind (update_user i (\<lambda>u. u\<lparr>u_failed_login_count := 0, u_locked_until := None, u_updated_at := mo_now mo\<rparr>))
       (\<lambda>_. tx_ret ())"

section \<open>Signup\<close>

definition createTenantWithOwner :: "moment \<Rightarrow> string \<Rightarrow> string \<Rightarrow> string option \<Rightarrow> string \<Rightarrow> string option
    \<Rightarrow> (tenant_rec \<times> user_rec \<times> membership_rec) tx" where
  "createTenantWithOwner mo raw_email hash name tenant_name tenant_slug =
     (let email = js_trim raw_email in
      tx_bind (resolveFreeSlug mo (or_default tenant_slug tenant_name)) (\<lambda>slug.
        tx_atomic (tx_bind (tx_read (\<lambda>s. \<exists>u \<in> set (users s). ci_eq (u_email u) email)) (\<lambda>existing.
          if existing then tx_throw Email_Taken
          else tx_bind (insert_org (new_org mo 0 slug tenant_name)) (\<lambda>tenant.
               tx_bind (insert_user (new_user mo 1 email hash name None)) (\<lambda>user.
               tx_bind (insert_identity (new_identity mo 2 (u_id user) email True None)) (\<lambda>_.
               tx_bind (insert_membership (new_membership mo 3 (u_id user) (tn_id tenant) R_owner)) (\<lambda>membership.
               tx_ret (tenant, user, membership)))))))))"

definition createTenantForUser :: "moment \<Rightarrow> string \<Rightarrow> string \<Rightarrow> string option \<Rightarrow> (tenant_rec \<times> membership_rec) tx" where
  "createTenantForUser mo user name slug_hint =
     tx_bind (resolveFreeSlug mo (or_default slug_hint name)) (\<lambda>slug.
       tx_atomic (tx_bind (insert_org (new_org mo 0 slug name)) (\<lambda>tenant.
         tx_bind (insert_membership (new_membership mo 3 user (tn_id tenant) R_owner)) (\<lambda>membership.
         tx_ret (tenant, membership)))))"

text \<open>Each default row is inserted in a transaction of its own; \<open>fails\<close> says which of them failed and was skipped.\<close>

definition seed_row :: "(string \<Rightarrow> bool) \<Rightarrow> string \<Rightarrow> string \<times> string \<Rightarrow> auth_db \<Rightarrow> auth_db" where
  "seed_row fails tenant d s =
     (if fails (fst d) \<or> (\<exists>r \<in> set (agent_settings s). fst r = tenant \<and> fst (snd r) = fst d) then s
      else s\<lparr>agent_settings := agent_settings s @ [(tenant, d)]\<rparr>)"

definition seedTenantAgentSettings :: "(string \<Rightarrow> bool) \<Rightarrow> string \<Rightarrow> unit tx" where
  "seedTenantAgentSettings fails tenant = tx_write (\<lambda>s. fold (seed_row fails tenant)
     [(''labeler'', ''gpt-4o-mini''), (''responder'', ''gpt-4o-mini''), (''summarizer'', ''gpt-4o-mini'')] s)"

section \<open>Tenants and memberships\<close>

definition getTenantById :: "string \<Rightarrow> tenant_rec option tx" where
  "getTenantById i = tx_read (\<lambda>s. find (\<lambda>t. tn_id t = i) (orgs s))"

definition getTenantBySlug :: "string \<Rightarrow> tenant_rec option tx" where
  "getTenantBySlug slug = tx_read (\<lambda>s. find (\<lambda>t. tn_slug t = js_lower (js_trim slug)) (orgs s))"

definition listTenantsForUser :: "string \<Rightarrow> (tenant_rec \<times> role) list tx" where
  "listTenantsForUser user = tx_read (\<lambda>s. sort_key (\<lambda>r. tn_created_at (fst r))
     [(t, mb_role m). t \<leftarrow> orgs s, m \<leftarrow> memberships s,
        mb_tenant m = tn_id t \<and> mb_user m = user \<and> mb_status m = ''active''])"

definition getMembership :: "string \<Rightarrow> string \<Rightarrow> membership_rec option tx" where
  "getMembership user tenant = tx_read (\<lambda>s.
     find (\<lambda>m. mb_user m = user \<and> mb_tenant m = tenant \<and> mb_status m = ''active'') (memberships s))"

definition getMembershipById :: "string \<Rightarrow> membership_rec option tx" where
  "getMembershipById i = tx_read (\<lambda>s. find (\<lambda>m. mb_id m = i) (memberships s))"

definition listMemberships :: "string \<Rightarrow> (membership_rec \<times> user_rec) list tx" where
  "listMemberships tenant = tx_read (\<lambda>s. sort_key (\<lambda>r. mb_created_at (fst r))
     [(m, u). m \<leftarrow> memberships s, mb_tenant m = tenant, u \<leftarrow> users s, u_id u = mb_user m])"

record tenant_patch =
  tp_name :: "string option"
  tp_slug :: "string option"
  tp_status :: "string option"

definition apply_patch :: "tenant_patch \<Rightarrow> string option \<Rightarrow> tenant_rec \<Rightarrow> tenant_rec" where
  "apply_patch p slug t = t\<lparr>tn_name := or_default (map_option js_trim (tp_name p)) (tn_name t),
     tn_slug := or_default slug (tn_slug t), tn_status := or_default (tp_status p) (tn_status t)\<rparr>"

definition updateTenant :: "moment \<Rightarrow> string \<Rightarrow> tenant_patch \<Rightarrow> tenant_rec option tx" where
  "updateTenant mo i patch =
     (let slug = map_option (slugify mo) (tp_slug patch) in
      tx_bind (tx_read (\<lambda>s. slug \<noteq> None \<and> (\<exists>t \<in> set (orgs s). tn_slug t = the slug \<and> tn_id t \<noteq> i))) (\<lambda>taken.
        if taken then tx_throw (Slug_Taken (the slug))
        else if tp_name patch = None \<and> slug = None \<and> tp_status patch = None then getTenantById i
        else if slug \<noteq> None \<and> \<not> slug_ok (the slug) then tx_throw (Constraint_Violated ''slug'')
        else tx_update orgs orgs_update (\<lambda>t. tn_id t = i) (apply_patch patch slug)))"

definition suspendTenant :: "string \<Rightarrow> bool tx" where
  "suspendTenant i = tx_bind (tx_update orgs orgs_update (\<lambda>t. tn_id t = i) (\<lambda>t. t\<lparr>tn_status := ''suspended''\<rparr>))
     (\<lambda>r. tx_ret (r \<noteq> None))"

definition active_owner :: "string \<Rightarrow> membership_rec \<Rightarrow> bool" where
  "active_owner tenant m \<longleftrightarrow> mb_tenant m = tenant \<and> mb_role m = R_owner \<and> mb_status m = ''active''"

definition countActiveOwners :: "string \<Rightarrow> nat tx" where
  "countActiveOwners tenant = tx_read (\<lambda>s. length (filter (active_owner tenant) (memberships s)))"

definition changeMembershipRole :: "moment \<Rightarrow> string \<Rightarrow> role \<Rightarrow> membership_rec option tx" where
  "changeMembershipRole mo i r =
     tx_atomic (tx_bind (getMembershipById i) (\<lambda>found.
       case found of
         None \<Rightarrow> tx_ret None
       | Some m \<Rightarrow>
           tx_bind (countActiveOwners (mb_tenant m)) (\<lambda>owners.
             if mb_role m = R_owner \<and> r \<noteq> R_owner \<and> owners \<le> 1 then tx_throw Last_Owner
             else tx_update memberships memberships_update (\<lambda>x. mb_id x = i)
                    (\<lambda>x. x\<lparr>mb_role := r, mb_updated_at := mo_now mo\<rparr>))))"

definition removeMembership :: "moment \<Rightarrow> string \<Rightarrow> bool tx" where
  "removeMembership mo i =
     tx_atomic (tx_bind (getMembershipById i) (\<lambda>found.
       case found of
         None \<Rightarrow> tx_ret False
       | Some m \<Rightarrow>
           tx_bind (countActiveOwners (mb_tenant m)) (\<lambda>owners.
             if mb_role m = R_owner \<and> owners \<le> 1 then tx_throw Last_Owner
             else tx_bind (tx_delete memberships memberships_update (\<lambda>x. mb_id x = i)) (\<lambda>_.
               tx_bind (tx_read (\<lambda>s. map kt_kid (filter (\<lambda>k. kt_tenant k = mb_tenant m \<and> kt_created_by k = Some (mb_user m)) (key_tenants s)))) (\<lambda>kids.
               tx_bind (tx_update api_keys api_keys_update (\<lambda>k. ak_revoked_at k = None \<and> ak_kid k \<in> set kids)
                   (\<lambda>k. k\<lparr>ak_revoked_at := Some (mo_now mo), ak_revoked_reason := Some ''membership removed''\<rparr>)) (\<lambda>_.
               tx_bind (tx_update sessions sessions_update
                   (\<lambda>e. se_user e = mb_user m \<and> se_tenant e = mb_tenant m \<and> se_revoked_at e = None)
                   (\<lambda>e. e\<lparr>se_revoked_at := Some (mo_now mo)\<rparr>)) (\<lambda>_.
               tx_ret True)))))))"

definition addMembership :: "moment \<Rightarrow> string \<Rightarrow> string \<Rightarrow> role \<Rightarrow> membership_rec tx" where
  "addMembership mo user tenant r = upsert_membership (mo_now mo) (new_membership mo 3 user tenant r)"

section \<open>Creating and revoking sessions\<close>

record created_session =
  cs_token :: string
  cs_id :: string
  cs_expires_at :: int
  cs_absolute_expires_at :: int

definition ip_char :: "char \<Rightarrow> bool" where
  "ip_char c \<longleftrightarrow> is_digit c \<or> of_char c \<in> {97 .. 102 :: nat} \<or> of_char c \<in> {65 .. 70 :: nat} \<or> c = CHR '':'' \<or> c = CHR ''.''"

definition ipOrNull :: "string option \<Rightarrow> string option" where
  "ipOrNull ip = (case ip of None \<Rightarrow> None
     | Some raw \<Rightarrow> let t = js_trim raw in
         if t \<noteq> [] \<and> list_all ip_char t \<and> length t \<le> 45 then Some t else None)"

definition createSession :: "auth_cfg \<Rightarrow> moment \<Rightarrow> string \<Rightarrow> string \<Rightarrow> string option \<Rightarrow> string option \<Rightarrow> created_session tx" where
  "createSession cf mo user tenant agent ip =
     (let token = mintSessionToken mo;
          row = \<lparr> se_id = mo_id mo 4, se_user = user, se_tenant = tenant, se_token_hash = hashToken cf token,
                  se_last_used_at = Some (mo_now mo), se_expires_at = mo_now mo + idleTtlMs cf,
                  se_absolute_expires_at = mo_now mo + absoluteTtlMs cf, se_revoked_at = None,
                  se_user_agent = agent, se_ip = ipOrNull ip \<rparr>
      in tx_bind (tx_references (\<lambda>s. known_user user s \<and> known_org tenant s) (tx_insert sessions sessions_update
             (\<lambda>e. se_id e = se_id row \<or> se_token_hash e = se_token_hash row) row))
           (\<lambda>e. tx_ret \<lparr> cs_token = token, cs_id = se_id e, cs_expires_at = se_expires_at row,
                           cs_absolute_expires_at = se_absolute_expires_at row \<rparr>))"

definition revoke_sessions :: "moment \<Rightarrow> (session_rec \<Rightarrow> bool) \<Rightarrow> unit tx" where
  "revoke_sessions mo P = tx_bind (tx_update sessions sessions_update (\<lambda>e. P e \<and> se_revoked_at e = None)
     (\<lambda>e. e\<lparr>se_revoked_at := Some (mo_now mo)\<rparr>)) (\<lambda>_. tx_ret ())"

definition revokeSession :: "moment \<Rightarrow> string \<Rightarrow> unit tx" where
  "revokeSession mo i = revoke_sessions mo (\<lambda>e. se_id e = i)"

definition revokeSessionByToken :: "auth_cfg \<Rightarrow> moment \<Rightarrow> string \<Rightarrow> unit tx" where
  "revokeSessionByToken cf mo token = revoke_sessions mo (\<lambda>e. se_token_hash e = hashToken cf token)"

definition revokeAllUserSessions :: "moment \<Rightarrow> string \<Rightarrow> unit tx" where
  "revokeAllUserSessions mo user = revoke_sessions mo (\<lambda>e. se_user e = user)"

section \<open>API keys of a tenant\<close>

definition bindApiKeyTenant :: "string \<Rightarrow> string \<Rightarrow> string option \<Rightarrow> unit tx" where
  "bindApiKeyTenant kid tenant by =
     tx_bind (tx_read (\<lambda>s. \<exists>k \<in> set (key_tenants s). kt_kid k = kid)) (\<lambda>bound.
       if bound then tx_ret ()
       else tx_bind (tx_references (\<lambda>s. known_org tenant s \<and> (case by of None \<Rightarrow> True | Some u \<Rightarrow> known_user u s))
              (tx_insert key_tenants key_tenants_update (\<lambda>k. kt_kid k = kid)
                \<lparr> kt_kid = kid, kt_tenant = tenant, kt_created_by = by \<rparr>)) (\<lambda>_. tx_ret ()))"

definition listApiKeyKidsForTenant :: "string \<Rightarrow> string list tx" where
  "listApiKeyKidsForTenant tenant = tx_read (\<lambda>s. map kt_kid (filter (\<lambda>k. kt_tenant k = tenant) (key_tenants s)))"

definition listApiKeysForTenant :: "string \<Rightarrow> (api_key_rec \<times> string option) list tx" where
  "listApiKeysForTenant tenant = tx_read (\<lambda>s. sort_key (\<lambda>r. - ak_issued_at (fst r))
     [(k, kt_created_by b). k \<leftarrow> api_keys s, b \<leftarrow> key_tenants s, kt_kid b = ak_kid k \<and> kt_tenant b = tenant])"

definition apiKeyBelongsToTenant :: "string \<Rightarrow> string \<Rightarrow> bool tx" where
  "apiKeyBelongsToTenant kid tenant = tx_read (\<lambda>s. \<exists>k \<in> set (key_tenants s). kt_kid k = kid \<and> kt_tenant k = tenant)"

section \<open>Email verification and identities\<close>

record minted =
  mt_token :: string
  mt_id :: string
  mt_expires_at :: int

definition createEmailVerification :: "auth_cfg \<Rightarrow> moment \<Rightarrow> string \<Rightarrow> string \<Rightarrow> minted tx" where
  "createEmailVerification cf mo user email =
     (let token = mintEmailVerifyToken mo;
          row = \<lparr> vt_id = mo_id mo 5, vt_user = user, vt_email = js_trim email,
                  vt_token_hash = hashToken cf token, vt_expires_at = mo_now mo + verifyTtlMs cf,
                  vt_used_at = None \<rparr>
      in tx_bind (tx_references (known_user user) (tx_insert verify_tokens verify_tokens_update
             (\<lambda>r. vt_id r = vt_id row \<or> vt_token_hash r = vt_token_hash row) row))
           (\<lambda>r. tx_ret \<lparr> mt_token = token, mt_id = vt_id r, mt_expires_at = vt_expires_at row \<rparr>))"

text \<open>\<open>COALESCE(x, now())\<close>\<close>

definition coalesce_now :: "moment \<Rightarrow> int option \<Rightarrow> int option" where
  "coalesce_now mo x = Some (or_default x (mo_now mo))"

definition consumeEmailVerification :: "auth_cfg \<Rightarrow> moment \<Rightarrow> string \<Rightarrow> user_rec option tx" where
  "consumeEmailVerification cf mo token =
     tx_atomic (tx_bind (tx_update verify_tokens verify_tokens_update
           (\<lambda>r. vt_token_hash r = hashToken cf token \<and> vt_used_at r = None \<and> mo_now mo < vt_expires_at r)
           (\<lambda>r. r\<lparr>vt_used_at := Some (mo_now mo)\<rparr>))
       (\<lambda>row. case row of
          None \<Rightarrow> tx_ret None
        | Some r \<Rightarrow>
            tx_bind (tx_update identities identities_update
                (\<lambda>i. ei_user i = vt_user r \<and> ci_eq (ei_email i) (vt_email r))
                (\<lambda>i. i\<lparr>ei_verified_at := coalesce_now mo (ei_verified_at i), ei_updated_at := mo_now mo\<rparr>))
              (\<lambda>_. update_user (vt_user r)
                (\<lambda>u. u\<lparr>u_email_verified_at := (if ci_eq (u_email u) (vt_email r)
                         then coalesce_now mo (u_email_verified_at u) else u_email_verified_at u),
                       u_updated_at := mo_now mo\<rparr>))))"

definition listUserEmailIdentities :: "string \<Rightarrow> identity_rec list tx" where
  "listUserEmailIdentities user = tx_read (\<lambda>s. sort_key (\<lambda>i. (if ei_primary i then 0::nat else 1, ei_created_at i))
     (filter (\<lambda>i. ei_user i = user) (identities s)))"

definition addUserEmailIdentity :: "moment \<Rightarrow> string \<Rightarrow> string \<Rightarrow> identity_rec tx" where
  "addUserEmailIdentity mo user email = insert_identity (new_identity mo 2 user (js_trim email) False None)"

definition makePrimaryEmailIdentity :: "moment \<Rightarrow> string \<Rightarrow> string \<Rightarrow> identity_rec option tx" where
  "makePrimaryEmailIdentity mo user i =
     tx_atomic (tx_bind (tx_read (\<lambda>s. find (\<lambda>r. ei_id r = i \<and> ei_user r = user) (identities s))) (\<lambda>found.
       case found of
         None \<Rightarrow> tx_ret None
       | Some identity \<Rightarrow>
           if ei_verified_at identity = None then tx_ret None
           else tx_bind (tx_update identities identities_update (\<lambda>r. ei_user r = user)
                    (\<lambda>r. r\<lparr>ei_primary := False, ei_updated_at := mo_now mo\<rparr>)) (\<lambda>_.
                tx_bind (tx_update identities identities_update (\<lambda>r. ei_id r = i \<and> ei_user r = user)
                    (\<lambda>r. r\<lparr>ei_primary := True, ei_updated_at := mo_now mo\<rparr>)) (\<lambda>updated.
                let primary = the updated in
                tx_bind (tx_read (\<lambda>s. \<exists>u \<in> set (users s). u_id u \<noteq> user \<and> ci_eq (u_email u) (ei_email primary))) (\<lambda>clash.
                if clash then tx_throw (Constraint_Violated ''email'')
                else tx_bind (update_user user (\<lambda>u. u\<lparr>u_email := ei_email primary,
                         u_email_verified_at := ei_verified_at primary, u_updated_at := mo_now mo\<rparr>)) (\<lambda>_.
                tx_ret (Some primary)))))))"

definition removeUserEmailIdentity :: "string \<Rightarrow> string \<Rightarrow> bool tx" where
  "removeUserEmailIdentity user i = tx_delete identities identities_update
     (\<lambda>r. ei_id r = i \<and> ei_user r = user \<and> \<not> ei_primary r)"

section \<open>Password reset\<close>

definition createPasswordReset :: "auth_cfg \<Rightarrow> moment \<Rightarrow> string \<Rightarrow> minted tx" where
  "createPasswordReset cf mo user =
     (let token = mintResetToken mo;
          row = \<lparr> pr_id = mo_id mo 6, pr_user = user, pr_token_hash = hashToken cf token,
                  pr_expires_at = mo_now mo + resetTtlMs cf, pr_used_at = None \<rparr>
      in tx_bind (tx_references (known_user user) (tx_insert reset_tokens reset_tokens_update
             (\<lambda>r. pr_id r = pr_id row \<or> pr_token_hash r = pr_token_hash row) row))
           (\<lambda>r. tx_ret \<lparr> mt_token = token, mt_id = pr_id r, mt_expires_at = pr_expires_at row \<rparr>))"

text \<open>The new hash is computed only when the token row was claimed; here it is the argument \<open>hash\<close>.\<close>

definition consumePasswordReset :: "auth_cfg \<Rightarrow> moment \<Rightarrow> string \<Rightarrow> string \<Rightarrow> bool tx" where
  "consumePasswordReset cf mo token hash =
     tx_atomic (tx_bind (tx_update reset_tokens reset_tokens_update
           (\<lambda>r. pr_token_hash r = hashToken cf token \<and> pr_used_at r = None \<and> mo_now mo < pr_expires_at r)
           (\<lambda>r. r\<lparr>pr_used_at := Some (mo_now mo)\<rparr>))
       (\<lambda>row. case row of
          None \<Rightarrow> tx_ret False
        | Some r \<Rightarrow>
            tx_bind (update_user (pr_user r) (\<lambda>u. u\<lparr>u_password_hash := hash, u_failed_login_count := 0,
                u_locked_until := None, u_updated_at := mo_now mo\<rparr>)) (\<lambda>_.
            tx_bind (revokeAllUserSessions mo (pr_user r)) (\<lambda>_. tx_ret True))))"

section \<open>Invitations\<close>

definition createInvitation :: "auth_cfg \<Rightarrow> moment \<Rightarrow> string \<Rightarrow> string \<Rightarrow> role \<Rightarrow> string option \<Rightarrow> minted tx" where
  "createInvitation cf mo tenant raw_email r by =
     (let token = mintInviteToken mo; email = js_trim raw_email;
          row = \<lparr> iv_id = mo_id mo 7, iv_tenant = tenant, iv_email = email, iv_role = r,
                  iv_token_hash = hashToken cf token, iv_invited_by = by,
                  iv_expires_at = mo_now mo + inviteTtlMs cf, iv_accepted_at = None, iv_created_at = mo_now mo \<rparr>
      in tx_bind (tx_atomic
             (tx_bind (tx_delete invitations invitations_update
                (\<lambda>v. iv_tenant v = tenant \<and> ci_eq (iv_email v) email \<and> iv_accepted_at v = None)) (\<lambda>_.
              if r = R_viewer then tx_throw (Constraint_Violated ''role'')
              else tx_references (\<lambda>s. known_org tenant s \<and> (case by of None \<Rightarrow> True | Some u \<Rightarrow> known_user u s))
                (tx_insert invitations invitations_update
                  (\<lambda>v. iv_id v = iv_id row \<or> iv_token_hash v = iv_token_hash row
                     \<or> (iv_tenant v = tenant \<and> ci_eq (iv_email v) email \<and> iv_accepted_at v = None)) row))))
           (\<lambda>v. tx_ret \<lparr> mt_token = token, mt_id = iv_id v, mt_expires_at = iv_expires_at row \<rparr>))"

definition open_invitation :: "auth_cfg \<Rightarrow> moment \<Rightarrow> string \<Rightarrow> invitation_rec \<Rightarrow> bool" where
  "open_invitation cf mo token v \<longleftrightarrow>
     iv_token_hash v = hashToken cf token \<and> iv_accepted_at v = None \<and> mo_now mo < iv_expires_at v"

definition resolveInvitation :: "auth_cfg \<Rightarrow> moment \<Rightarrow> string \<Rightarrow> invitation_rec option tx" where
  "resolveInvitation cf mo token = tx_read (\<lambda>s. find (open_invitation cf mo token) (invitations s))"

definition listInvitations :: "string \<Rightarrow> invitation_rec list tx" where
  "listInvitations tenant = tx_read (\<lambda>s. sort_key (\<lambda>v. - iv_created_at v)
     (filter (\<lambda>v. iv_tenant v = tenant) (invitations s)))"

datatype accept_result =
    Accepted user_rec string role
  | Invite_invalid
  | Needs_password

definition insert_verified_user :: "moment \<Rightarrow> string \<Rightarrow> string \<Rightarrow> string option \<Rightarrow> user_rec tx" where
  "insert_verified_user mo email hash name =
     tx_bind (insert_user (new_user mo 1 email hash name (Some (mo_now mo)))) (\<lambda>user.
     tx_bind (insert_identity (new_identity mo 2 (u_id user) email True (Some (mo_now mo)))) (\<lambda>_.
     tx_ret user))"

definition join_tenant :: "moment \<Rightarrow> invitation_rec \<Rightarrow> user_rec \<Rightarrow> accept_result tx" where
  "join_tenant mo v user =
     tx_bind (upsert_membership (mo_now mo) (new_membership mo 3 (u_id user) (iv_tenant v) (iv_role v))) (\<lambda>_.
     tx_bind (tx_update invitations invitations_update (\<lambda>x. iv_id x = iv_id v)
         (\<lambda>x. x\<lparr>iv_accepted_at := Some (mo_now mo)\<rparr>)) (\<lambda>_.
     tx_ret (Accepted user (iv_tenant v) (iv_role v))))"

definition acceptInvitation :: "auth_cfg \<Rightarrow> moment \<Rightarrow> string \<Rightarrow> string option \<Rightarrow> string option \<Rightarrow> accept_result tx" where
  "acceptInvitation cf mo token hash name =
     tx_atomic (tx_bind (resolveInvitation cf mo token) (\<lambda>found.
       case found of
         None \<Rightarrow> tx_ret Invite_invalid
       | Some v \<Rightarrow>
           tx_bind (tx_read (\<lambda>s. first_of (identity_join (ci_eq (iv_email v)) s))) (\<lambda>existing.
             case existing of
               Some (user, _) \<Rightarrow> join_tenant mo v user
             | None \<Rightarrow>
                 if hash = None \<or> hash = Some [] then tx_ret Needs_password
                 else tx_bind (insert_verified_user mo (iv_email v) (the hash) name) (join_tenant mo v))))"

section \<open>Bootstrap\<close>

datatype bootstrap_result = Boot_user user_rec | Owner_exists | Boot_email_taken

definition bootstrapOwner :: "moment \<Rightarrow> string \<Rightarrow> string \<Rightarrow> string \<Rightarrow> string option \<Rightarrow> bootstrap_result tx" where
  "bootstrapOwner mo tenant raw_email hash name =
     (let email = js_trim raw_email in
      tx_atomic (tx_bind (countActiveOwners tenant) (\<lambda>owners.
        if 0 < owners then tx_ret Owner_exists
        else tx_bind (tx_read (\<lambda>s. \<exists>u \<in> set (users s). ci_eq (u_email u) email)) (\<lambda>dup.
          if dup then tx_ret Boot_email_taken
          else tx_bind (insert_verified_user mo email hash name) (\<lambda>user.
               tx_bind (insert_membership (new_membership mo 3 (u_id user) tenant R_owner)) (\<lambda>_.
               tx_ret (Boot_user user)))))))"

definition insert_super_admin :: "moment \<Rightarrow> string \<Rightarrow> string \<Rightarrow> string option \<Rightarrow> user_rec tx" where
  "insert_super_admin mo email hash name =
     tx_bind (insert_user ((new_user mo 1 email hash name (Some (mo_now mo)))
         \<lparr>u_global_role := G_super_admin, u_primary_super_admin := True\<rparr>)) (\<lambda>user.
     tx_bind (insert_identity (new_identity mo 2 (u_id user) email True (Some (mo_now mo)))) (\<lambda>_.
     tx_ret user))"

definition promote_super_admin :: "moment \<Rightarrow> string \<Rightarrow> user_rec \<Rightarrow> user_rec tx" where
  "promote_super_admin mo email user =
     tx_bind (update_user (u_id user) (\<lambda>u. u\<lparr>u_global_role := G_super_admin, u_primary_super_admin := True,
         u_status := ''active'', u_email_verified_at := coalesce_now mo (u_email_verified_at u),
         u_updated_at := mo_now mo\<rparr>)) (\<lambda>updated.
     tx_bind (tx_update identities identities_update (\<lambda>i. ei_user i = u_id user \<and> ci_eq (ei_email i) email)
         (\<lambda>i. i\<lparr>ei_verified_at := coalesce_now mo (ei_verified_at i), ei_updated_at := mo_now mo\<rparr>)) (\<lambda>_.
     tx_ret (the updated)))"

definition audit_bootstrap :: "string \<Rightarrow> string \<Rightarrow> string \<Rightarrow> string \<Rightarrow> unit tx" where
  "audit_bootstrap tenant user email kid = tx_write (\<lambda>s.
     if \<exists>a \<in> set (bootstrap_audit s). fst a = ''primary_super_admin_bootstrap'' \<and> fst (snd a) = tenant \<and> fst (snd (snd a)) = user
     then s
     else s\<lparr>bootstrap_audit := bootstrap_audit s @ [(''primary_super_admin_bootstrap'', tenant, user, email, kid)]\<rparr>)"

text \<open>\<open>None\<close> when a different primary super-admin exists; else the user and whether it is new.\<close>

definition bootstrapPrimarySuperAdmin ::
    "moment \<Rightarrow> string \<Rightarrow> string \<Rightarrow> string \<Rightarrow> string \<Rightarrow> string option \<Rightarrow> (user_rec \<times> bool) option tx" where
  "bootstrapPrimarySuperAdmin mo tenant raw_email hash kid name =
     (let email = js_lower (js_trim raw_email) in
      tx_atomic (tx_bind (tx_read (\<lambda>s. find u_primary_super_admin (users s))) (\<lambda>incumbent.
        tx_bind (tx_read (\<lambda>s. map_option fst (first_of (identity_join (ci_eq email) s)))) (\<lambda>found.
          if incumbent \<noteq> None \<and> map_option u_id incumbent \<noteq> map_option u_id found then tx_ret None
          else tx_bind (case found of
                 None \<Rightarrow> insert_super_admin mo email hash name
               | Some user \<Rightarrow> promote_super_admin mo email user) (\<lambda>user.
               tx_bind (upsert_membership (mo_now mo) (new_membership mo 3 (u_id user) tenant R_owner)) (\<lambda>_.
               tx_bind (audit_bootstrap tenant (u_id user) email kid) (\<lambda>_.
               tx_ret (Some (user, found = None)))))))))"

end
