(* ===== verification/Rate_Limit.thy ===== *)
theory Rate_Limit
  imports Emails_Prelude
begin

text \<open>
  The in-process rate limiter of src/server/self-hosted/auth/rate-limit.ts: a map from
  bucket texts to the instants of the attempts that were let through, pruned when a bucket
  is read and swept once a minute.  The clock is an argument of each call, in milliseconds.
  The second half shows that pruning and sweeping are invisible: the limiter answers as a
  full log of the accepted attempts would, and no window holds more of them than the limit.
\<close>

section \<open>The limiter\<close>

record rate_rule =
  rr_limit :: nat
  rr_window :: int

record rate_decision =
  rd_ok :: bool
  rd_retry :: "int option"

text \<open>\<open>rd_retry = None\<close> is the NaN that a rule with limit 0 gives on an empty bucket.\<close>

definition DEFAULT_RATE_LIMITS :: "(string \<times> rate_rule) list" where
  "DEFAULT_RATE_LIMITS =
     [(''login'', \<lparr> rr_limit = 5, rr_window = 15 * 60000 \<rparr>),
      (''signup'', \<lparr> rr_limit = 3, rr_window = 60 * 60000 \<rparr>),
      (''forgot'', \<lparr> rr_limit = 3, rr_window = 60 * 60000 \<rparr>),
      (''verify-resend'', \<lparr> rr_limit = 3, rr_window = 60 * 60000 \<rparr>),
      (''reset'', \<lparr> rr_limit = 5, rr_window = 60 * 60000 \<rparr>),
      (''invite'', \<lparr> rr_limit = 20, rr_window = 60 * 60000 \<rparr>)]"

record limiter =
  rl_rules :: "(string \<times> rate_rule) list"
  rl_hits :: "string \<rightharpoonup> int list"
  rl_swept :: int

text \<open>The constructor: rules given override the defaults of the same route.\<close>

definition new_limiter :: "(string \<times> rate_rule) list \<Rightarrow> limiter" where
  "new_limiter rules = \<lparr> rl_rules = rules @ filter (\<lambda>d. fst d \<notin> fst ` set rules) DEFAULT_RATE_LIMITS,
     rl_hits = Map.empty, rl_swept = 0 \<rparr>"

definition bucket_key :: "string \<Rightarrow> string \<Rightarrow> string" where
  "bucket_key route key = route @ ''::'' @ key"

definition max_window :: "limiter \<Rightarrow> int" where
  "max_window rl = Max ((rr_window \<circ> snd) ` set (rl_rules rl))"

definition maybeSweep :: "int \<Rightarrow> limiter \<Rightarrow> limiter" where
  "maybeSweep now rl =
     (if now - rl_swept rl < 60000 then rl
      else let cutoff = now - max_window rl in
        rl\<lparr>rl_swept := now, rl_hits := (\<lambda>k. case rl_hits rl k of None \<Rightarrow> None
            | Some ts \<Rightarrow> let kept = filter (\<lambda>t. cutoff < t) ts in if kept = [] then None else Some kept)\<rparr>)"

definition bucket :: "limiter \<Rightarrow> string \<Rightarrow> int list" where
  "bucket rl k = or_default (rl_hits rl k) []"

definition check :: "int \<Rightarrow> string \<Rightarrow> string \<Rightarrow> limiter \<Rightarrow> limiter \<times> rate_decision" where
  "check now route key rl =
     (case map_of (rl_rules rl) route of
        None \<Rightarrow> (rl, \<lparr> rd_ok = True, rd_retry = Some 0 \<rparr>)
      | Some rule \<Rightarrow>
          let rl1 = maybeSweep now rl;
              k = bucket_key route key;
              ts = filter (\<lambda>t. now - rr_window rule < t) (bucket rl1 k)
          in if rr_limit rule \<le> length ts
             then (rl1\<lparr>rl_hits := (rl_hits rl1)(k \<mapsto> ts)\<rparr>,
                   \<lparr> rd_ok = False, rd_retry = (case ts of [] \<Rightarrow> None
                       | oldest # _ \<Rightarrow> Some (max 1 ((oldest + rr_window rule - now + 999) div 1000))) \<rparr>)
             else (rl1\<lparr>rl_hits := (rl_hits rl1)(k \<mapsto> ts @ [now])\<rparr>, \<lparr> rd_ok = True, rd_retry = Some 0 \<rparr>))"

text \<open>\<open>Math.max\<close> and \<open>>\<close> with NaN.\<close>

definition nan_max :: "int option \<Rightarrow> int option \<Rightarrow> int option" where
  "nan_max a b = (case (a, b) of (Some x, Some y) \<Rightarrow> Some (max x y) | _ \<Rightarrow> None)"

definition nan_gt :: "int option \<Rightarrow> int option \<Rightarrow> bool" where
  "nan_gt a b = (case (a, b) of (Some x, Some y) \<Rightarrow> y < x | _ \<Rightarrow> False)"

definition worse :: "rate_decision \<Rightarrow> rate_decision \<Rightarrow> rate_decision" where
  "worse worst d =
     (let w = (if \<not> rd_ok d \<and> nan_gt (rd_retry d) (rd_retry worst) then d else worst)
      in if \<not> rd_ok d then \<lparr> rd_ok = False, rd_retry = nan_max (rd_retry w) (rd_retry d) \<rparr> else w)"

primrec check_keys :: "int \<Rightarrow> string \<Rightarrow> string option list \<Rightarrow> rate_decision \<Rightarrow> limiter \<Rightarrow> limiter \<times> rate_decision" where
  "check_keys now route [] worst rl = (rl, worst)"
| "check_keys now route (k # ks) worst rl =
     (if k = None \<or> k = Some [] then check_keys now route ks worst rl
      else (case check now route (the k) rl of (rl', d) \<Rightarrow> check_keys now route ks (worse worst d) rl'))"

definition checkAll :: "int \<Rightarrow> string \<Rightarrow> string option list \<Rightarrow> limiter \<Rightarrow> limiter \<times> rate_decision" where
  "checkAll now route keys rl = check_keys now route keys \<lparr> rd_ok = True, rd_retry = Some 0 \<rparr> rl"

definition reset :: "string \<Rightarrow> string \<Rightarrow> limiter \<Rightarrow> limiter" where
  "reset route key rl = rl\<lparr>rl_hits := (rl_hits rl)(bucket_key route key := None)\<rparr>"

section \<open>The log it stands for\<close>

text \<open>
  The reference: every accepted attempt of a bucket is kept for ever, and an attempt is
  accepted when fewer than the limit lie in the window that ends now.
\<close>

datatype limit_event = Attempt int string string | Forgotten int string string

primrec event_time :: "limit_event \<Rightarrow> int" where
  "event_time (Attempt t _ _) = t"
| "event_time (Forgotten t _ _) = t"

primrec log_step :: "(string \<times> rate_rule) list \<Rightarrow> limit_event \<Rightarrow> (string \<Rightarrow> int list) \<Rightarrow> (string \<Rightarrow> int list) \<times> bool" where
  "log_step rules (Attempt now route key) log =
     (case map_of rules route of
        None \<Rightarrow> (log, True)
      | Some rule \<Rightarrow>
          let k = bucket_key route key
          in if length (filter (\<lambda>t. now - rr_window rule < t) (log k)) < rr_limit rule
             then (log(k := log k @ [now]), True) else (log, False))"
| "log_step rules (Forgotten now route key) log = (log(bucket_key route key := []), True)"

primrec limiter_step :: "limit_event \<Rightarrow> limiter \<Rightarrow> limiter \<times> bool" where
  "limiter_step (Attempt now route key) rl = (case check now route key rl of (rl', d) \<Rightarrow> (rl', rd_ok d))"
| "limiter_step (Forgotten now route key) rl = (reset route key rl, True)"

primrec run_events :: "('e \<Rightarrow> 's \<Rightarrow> 's \<times> bool) \<Rightarrow> 'e list \<Rightarrow> 's \<Rightarrow> 's \<times> bool list" where
  "run_events step [] s = (s, [])"
| "run_events step (e # es) s =
     (case step e s of (s', a) \<Rightarrow> (case run_events step es s' of (s'', as) \<Rightarrow> (s'', a # as)))"

definition plain_routes :: "(string \<times> rate_rule) list \<Rightarrow> bool" where
  "plain_routes rules \<longleftrightarrow> (\<forall>r \<in> set rules. CHR '':'' \<notin> set (fst r))"

lemma bucket_key_inj:
  assumes "CHR '':'' \<notin> set r" "CHR '':'' \<notin> set r'" "bucket_key r k = bucket_key r' k'"
  shows "r = r' \<and> k = k'"
proof -
  have t: "takeWhile (\<lambda>c. c \<noteq> CHR '':'') (bucket_key x y) = x" if "CHR '':'' \<notin> set x" for x y
    using that by (induction x) (auto simp: bucket_key_def)
  have "r = r'" using t [OF assms(1), of k] t [OF assms(2), of k'] assms(3) by simp
  with assms(3) show ?thesis by (simp add: bucket_key_def)
qed

text \<open>From \<open>now\<close> on, every bucket shows its rule's window as the log does.\<close>

definition shows_log :: "int \<Rightarrow> limiter \<Rightarrow> (string \<Rightarrow> int list) \<Rightarrow> bool" where
  "shows_log now rl log \<longleftrightarrow> (\<forall>route rule key now'. map_of (rl_rules rl) route = Some rule \<longrightarrow> now \<le> now' \<longrightarrow>
     filter (\<lambda>t. now' - rr_window rule < t) (bucket rl (bucket_key route key))
     = filter (\<lambda>t. now' - rr_window rule < t) (log (bucket_key route key)))"

lemma window_le_max: "map_of (rl_rules rl) route = Some rule \<Longrightarrow> rr_window rule \<le> max_window rl"
  unfolding max_window_def by (rule Max_ge) (auto dest!: map_of_SomeD simp: image_iff intro!: bexI)

lemma filter_filter_weaker:
  "(\<And>x. Q x \<Longrightarrow> P x) \<Longrightarrow> filter Q (filter P xs) = filter Q xs"
  by (induction xs) auto

lemma rules_maybeSweep [simp]: "rl_rules (maybeSweep now rl) = rl_rules rl"
  by (simp add: maybeSweep_def Let_def)

lemma bucket_maybeSweep:
  "bucket (maybeSweep now rl) k = bucket rl k
   \<or> bucket (maybeSweep now rl) k = filter (\<lambda>t. now - max_window rl < t) (bucket rl k)"
  by (auto simp: maybeSweep_def bucket_def or_default_def Let_def split: option.split)

lemma sweep_shows_log:
  assumes "shows_log now0 rl log" "now0 \<le> now"
  shows "shows_log now (maybeSweep now rl) log"
  unfolding shows_log_def rules_maybeSweep
proof (intro allI impI)
  fix route rule key now'
  assume r: "map_of (rl_rules rl) route = Some rule" and t: "now \<le> now'"
  let ?k = "bucket_key route key" and ?Q = "\<lambda>t. now' - rr_window rule < t"
  have "filter ?Q (bucket (maybeSweep now rl) ?k) = filter ?Q (bucket rl ?k)"
    using bucket_maybeSweep [of now rl ?k]
  proof
    assume "bucket (maybeSweep now rl) ?k = filter (\<lambda>t. now - max_window rl < t) (bucket rl ?k)"
    then show ?thesis using window_le_max [OF r] t by (simp only:) (rule filter_filter_weaker, linarith)
  qed simp
  also have "\<dots> = filter ?Q (log ?k)" using assms r t by (simp add: shows_log_def)
  finally show "filter ?Q (bucket (maybeSweep now rl) ?k) = filter ?Q (log ?k)" .
qed

lemma set_hits_bucket: "bucket (rl\<lparr>rl_hits := (rl_hits rl)(k := v)\<rparr>) k' = (if k' = k then or_default v [] else bucket rl k')"
  by (simp add: bucket_def)

lemma check_refines:
  assumes "shows_log now0 rl log" "now0 \<le> now" "plain_routes (rl_rules rl)"
    and "limiter_step (Attempt now route key) rl = (rl', a)" "log_step (rl_rules rl) (Attempt now route key) log = (log', b)"
  shows "a = b \<and> shows_log now rl' log' \<and> rl_rules rl' = rl_rules rl"
proof (cases "map_of (rl_rules rl) route")
  case None
  with assms show ?thesis by (auto simp: check_def shows_log_def)
next
  case (Some rule)
  let ?k = "bucket_key route key" and ?rl1 = "maybeSweep now rl"
  let ?Q = "\<lambda>t. now - rr_window rule < t"
  have s1: "shows_log now ?rl1 log" using assms(1,2) by (rule sweep_shows_log)
  then have same: "filter ?Q (bucket ?rl1 ?k) = filter ?Q (log ?k)" using Some by (simp add: shows_log_def)
  have put: "shows_log now (?rl1\<lparr>rl_hits := (rl_hits ?rl1)(?k \<mapsto> ts)\<rparr>) l"
    if "\<And>now'. now \<le> now' \<Longrightarrow> filter (\<lambda>t. now' - rr_window rule < t) ts = filter (\<lambda>t. now' - rr_window rule < t) (l ?k)"
      and "\<And>k. k \<noteq> ?k \<Longrightarrow> l k = log k" for ts l
    unfolding shows_log_def set_hits_bucket
  proof (intro allI impI)
    fix r' rule' key' now'
    assume r': "map_of (rl_rules (?rl1\<lparr>rl_hits := (rl_hits ?rl1)(?k \<mapsto> ts)\<rparr>)) r' = Some rule'" and t: "now \<le> now'"
    let ?lhs = "if bucket_key r' key' = ?k then or_default (Some ts) [] else bucket ?rl1 (bucket_key r' key')"
    show "filter (\<lambda>t. now' - rr_window rule' < t) ?lhs = filter (\<lambda>t. now' - rr_window rule' < t) (l (bucket_key r' key'))"
    proof (cases "bucket_key r' key' = ?k")
      case True
      have "(r', rule') \<in> set (rl_rules rl)" using r' by (simp add: map_of_SomeD)
      then have "CHR '':'' \<notin> set r'" "CHR '':'' \<notin> set route"
        using assms(3) map_of_SomeD [OF Some] by (auto simp: plain_routes_def)
      then have "r' = route" using bucket_key_inj True by blast
      with r' Some have "rule' = rule" by simp
      with True that(1) [OF t] show ?thesis by (simp add: or_default_def)
    next
      case False
      with s1 r' t that(2) show ?thesis by (simp add: shows_log_def)
    qed
  qed
  show ?thesis
  proof (cases "rr_limit rule \<le> length (filter ?Q (log ?k))")
    case True
    then have "rl' = ?rl1\<lparr>rl_hits := (rl_hits ?rl1)(?k \<mapsto> filter ?Q (log ?k))\<rparr>" "a = False" "log' = log" "b = False"
      using assms(4,5) Some same by (auto simp: check_def Let_def)
    moreover have "shows_log now (?rl1\<lparr>rl_hits := (rl_hits ?rl1)(?k \<mapsto> filter ?Q (log ?k))\<rparr>) log"
      by (rule put) (simp_all add: filter_filter_weaker del: filter_filter)
    ultimately show ?thesis by simp
  next
    case False
    then have "rl' = ?rl1\<lparr>rl_hits := (rl_hits ?rl1)(?k \<mapsto> filter ?Q (log ?k) @ [now])\<rparr>" "a = True"
        "log' = log(?k := log ?k @ [now])" "b = True"
      using assms(4,5) Some same by (auto simp: check_def Let_def)
    moreover have "shows_log now (?rl1\<lparr>rl_hits := (rl_hits ?rl1)(?k \<mapsto> filter ?Q (log ?k) @ [now])\<rparr>) (log(?k := log ?k @ [now]))"
      by (rule put) (simp_all add: filter_filter_weaker del: filter_filter)
    ultimately show ?thesis by simp
  qed
qed

lemma reset_refines:
  assumes "shows_log now0 rl log" "now0 \<le> now"
  shows "shows_log now (reset route key rl) (log(bucket_key route key := []))"
  using assms by (auto simp: shows_log_def reset_def set_hits_bucket or_default_def)

lemma step_refines:
  assumes "shows_log now0 rl log" "now0 \<le> event_time e" "plain_routes (rl_rules rl)"
    and "limiter_step e rl = (rl', a)" "log_step (rl_rules rl) e log = (log', b)"
  shows "a = b \<and> shows_log (event_time e) rl' log' \<and> rl_rules rl' = rl_rules rl"
proof (cases e)
  case (Attempt t r k)
  with assms show ?thesis using check_refines [OF assms(1) _ assms(3)] by simp
next
  case (Forgotten t r k)
  with assms reset_refines [OF assms(1)] show ?thesis by (auto simp: reset_def)
qed

lemma run_refines:
  "shows_log now0 rl log \<Longrightarrow> plain_routes (rl_rules rl) \<Longrightarrow> sorted (now0 # map event_time es) \<Longrightarrow>
   snd (run_events limiter_step es rl) = snd (run_events (log_step (rl_rules rl)) es log)"
proof (induction es arbitrary: now0 rl log)
  case (Cons e es)
  obtain rl' a log' b where s: "limiter_step e rl = (rl', a)" "log_step (rl_rules rl) e log = (log', b)"
    by (cases "limiter_step e rl", cases "log_step (rl_rules rl) e log")
  have "now0 \<le> event_time e" using Cons.prems(3) by simp
  from step_refines [OF Cons.prems(1) this Cons.prems(2) s]
  have r: "a = b" "shows_log (event_time e) rl' log'" "rl_rules rl' = rl_rules rl" by simp_all
  have "snd (run_events limiter_step es rl') = snd (run_events (log_step (rl_rules rl')) es log')"
    by (rule Cons.IH [OF r(2)]) (use Cons.prems(2,3) r(3) in simp_all)
  with s r show ?case by (simp add: case_prod_beta)
qed simp

text \<open>
  C34. The limiter is a refinement of the log: whatever attempts and resets come in, in the
  order of the clock, it accepts and refuses exactly the attempts the full log would;
  pruning a bucket when it is read and sweeping all of them once a minute change nothing.
\<close>

theorem limiter_refines_log:
  assumes "plain_routes rules" "sorted (map event_time es)"
  shows "snd (run_events limiter_step es (new_limiter rules))
    = snd (run_events (log_step (rl_rules (new_limiter rules))) es (\<lambda>_. []))"
proof (cases es)
  case (Cons e es')
  have "plain_routes (rl_rules (new_limiter rules))"
    using assms(1) by (auto simp: plain_routes_def new_limiter_def DEFAULT_RATE_LIMITS_def)
  moreover have "shows_log (event_time e) (new_limiter rules) (\<lambda>_. [])"
    by (simp add: shows_log_def bucket_def new_limiter_def or_default_def)
  ultimately show ?thesis using assms(2) Cons by (intro run_refines) auto
qed simp

lemma limiter_refines_log_witness:
  "snd (run_events limiter_step [Attempt 0 ''login'' ''a'', Attempt 5 ''login'' ''a''] (new_limiter [(''login'', \<lparr> rr_limit = 1, rr_window = 10 \<rparr>)]))
   = [True, False]"
  using limiter_refines_log [of "[(''login'', \<lparr> rr_limit = 1, rr_window = 10 \<rparr>)]"
      "[Attempt 0 ''login'' ''a'', Attempt 5 ''login'' ''a'']"]
  by (simp add: plain_routes_def new_limiter_def DEFAULT_RATE_LIMITS_def Let_def)

section \<open>No window holds more than the limit\<close>

text \<open>A bucket of the log that only grew by accepted attempts.\<close>

definition within :: "int \<Rightarrow> int \<Rightarrow> int list \<Rightarrow> int list" where
  "within w x ts = filter (\<lambda>t. x - w < t \<and> t \<le> x) ts"

definition paced :: "rate_rule \<Rightarrow> int list \<Rightarrow> bool" where
  "paced rule ts \<longleftrightarrow> sorted ts \<and> (\<forall>x. length (within (rr_window rule) x ts) \<le> rr_limit rule)"

lemma within_append: "within w x (ts @ us) = within w x ts @ within w x us"
  by (simp add: within_def)

lemma paced_snoc:
  assumes "paced rule ts" "\<forall>t \<in> set ts. t \<le> now" "length (filter (\<lambda>t. now - rr_window rule < t) ts) < rr_limit rule"
  shows "paced rule (ts @ [now])"
proof -
  let ?w = "rr_window rule"
  have "length (within ?w x (ts @ [now])) \<le> rr_limit rule" for x
  proof (cases "x - ?w < now \<and> now \<le> x")
    case True
    have "length (within ?w x ts) \<le> length (filter (\<lambda>t. now - ?w < t) ts)"
      unfolding within_def by (rule length_filter_mono) (use True in auto)
    with assms(3) show ?thesis by (auto simp: within_append within_def)
  next
    case False
    with assms(1) show ?thesis by (auto simp: paced_def within_append within_def)
  qed
  with assms(1,2) show ?thesis by (auto simp: paced_def sorted_append)
qed

text \<open>The event does not forget the bucket.\<close>

definition spares :: "string \<Rightarrow> limit_event \<Rightarrow> bool" where
  "spares b e \<longleftrightarrow> (case e of Attempt _ _ _ \<Rightarrow> True | Forgotten _ r k \<Rightarrow> bucket_key r k \<noteq> b)"

text \<open>The instants at which a run let an attempt of one bucket through.\<close>

fun let_through :: "string \<Rightarrow> string \<Rightarrow> limit_event list \<Rightarrow> bool list \<Rightarrow> int list" where
  "let_through route key (Attempt t r k # es) (a # as) =
     (if a \<and> r = route \<and> k = key then t # let_through route key es as else let_through route key es as)"
| "let_through route key (_ # es) (_ # as) = let_through route key es as"
| "let_through route key _ _ = []"

lemma log_step_paced:
  assumes "map_of rules route = Some rule" "plain_routes rules" "spares (bucket_key route key) e" "now0 \<le> event_time e"
    and "paced rule (log (bucket_key route key))" "\<forall>t \<in> set (log (bucket_key route key)). t \<le> now0"
    and s: "log_step rules e log = (log', a)"
  shows "paced rule (log' (bucket_key route key)) \<and> (\<forall>t \<in> set (log' (bucket_key route key)). t \<le> event_time e)
    \<and> log' (bucket_key route key) = log (bucket_key route key) @ let_through route key [e] [a]"
proof -
  let ?k = "bucket_key route key"
  have old: "\<forall>t \<in> set (log ?k). t \<le> event_time e" using assms(4,6) by fastforce
  show ?thesis
  proof (cases e)
    case (Forgotten t r k)
    with s assms(3,5) old show ?thesis by (auto simp: spares_def)
  next
    case (Attempt t r k)
    show ?thesis
    proof (cases "r = route \<and> k = key")
      case True
      show ?thesis
      proof (cases "length (filter (\<lambda>x. t - rr_window rule < x) (log ?k)) < rr_limit rule")
        case True
        with \<open>r = route \<and> k = key\<close> s Attempt assms(1) have "log' = log(?k := log ?k @ [t])" "a"
          by (auto simp: Let_def)
        with paced_snoc [OF assms(5) _ True] old Attempt \<open>r = route \<and> k = key\<close> show ?thesis by simp
      next
        case False
        with True s Attempt assms(1,5) old show ?thesis by simp
      qed
    next
      case False
      have "log' ?k = log ?k"
      proof (cases "map_of rules r")
        case (Some x)
        then have "CHR '':'' \<notin> set r" "CHR '':'' \<notin> set route"
          using assms(1,2) map_of_SomeD by (force simp: plain_routes_def)+
        with False have "bucket_key r k \<noteq> ?k" using bucket_key_inj by blast
        with s Attempt Some show ?thesis by (auto simp: Let_def split: if_splits)
      qed (use s Attempt in simp)
      with False Attempt assms(5) old show ?thesis by auto
    qed
  qed
qed

lemma let_through_Cons: "let_through route key (e # es) (a # as) = let_through route key [e] [a] @ let_through route key es as"
  by (cases e) auto

lemma log_run_paced:
  assumes "map_of rules route = Some rule" "plain_routes rules" "\<forall>e \<in> set es. spares (bucket_key route key) e"
    and "sorted (now0 # map event_time es)"
    and "paced rule (log (bucket_key route key))" "\<forall>t \<in> set (log (bucket_key route key)). t \<le> now0"
  shows "paced rule (log (bucket_key route key) @ let_through route key es (snd (run_events (log_step rules) es log)))"
  using assms(3-6)
proof (induction es arbitrary: now0 log)
  case (Cons e es)
  obtain log' a where s: "log_step rules e log = (log', a)" by (cases "log_step rules e log")
  have "spares (bucket_key route key) e" "now0 \<le> event_time e" using Cons.prems(1,2) by simp_all
  from log_step_paced [OF assms(1,2) this Cons.prems(3,4) s]
  have step: "paced rule (log' (bucket_key route key))" "\<forall>t \<in> set (log' (bucket_key route key)). t \<le> event_time e"
    "log' (bucket_key route key) = log (bucket_key route key) @ let_through route key [e] [a]" by blast+
  have "paced rule (log' (bucket_key route key) @ let_through route key es (snd (run_events (log_step rules) es log')))"
  proof (rule Cons.IH)
    show "sorted (event_time e # map event_time es)" using Cons.prems(2) by simp
  qed (use Cons.prems(1) step(1,2) in simp_all)
  with s step show ?case by (simp add: case_prod_beta let_through_Cons [of route key e es a])
qed simp

text \<open>
  The rate limit holds: of one address's or one client's attempts on a route, no more than
  the rule's limit are let through in any window of the rule's length, wherever the window
  starts, as long as the bucket is not reset.
\<close>

theorem rate_limit_holds:
  assumes "plain_routes rules" "map_of (rl_rules (new_limiter rules)) route = Some rule" "sorted (map event_time es)"
    and "\<forall>e \<in> set es. spares (bucket_key route key) e"
  shows "length (within (rr_window rule) x
      (let_through route key es (snd (run_events limiter_step es (new_limiter rules))))) \<le> rr_limit rule"
proof (cases es)
  case (Cons e es')
  let ?rules = "rl_rules (new_limiter rules)"
  have plain: "plain_routes ?rules"
    using assms(1) by (auto simp: plain_routes_def new_limiter_def DEFAULT_RATE_LIMITS_def)
  have "shows_log (event_time e) (new_limiter rules) (\<lambda>_. [])"
    by (simp add: shows_log_def bucket_def new_limiter_def or_default_def)
  then have "snd (run_events limiter_step es (new_limiter rules)) = snd (run_events (log_step ?rules) es (\<lambda>_. []))"
    using plain assms(3) Cons by (intro run_refines) auto
  moreover have "paced rule ((\<lambda>_. []) (bucket_key route key) @ let_through route key es (snd (run_events (log_step ?rules) es (\<lambda>_. []))))"
    by (rule log_run_paced [OF assms(2) plain assms(4), of "event_time e"])
       (use assms(3) Cons in \<open>auto simp: paced_def within_def\<close>)
  ultimately show ?thesis by (simp add: paced_def)
qed (simp add: within_def)

lemma rate_limit_holds_witness:
  "length (within 10 9 (let_through ''login'' ''a'' [Attempt 0 ''login'' ''a'', Attempt 5 ''login'' ''a'']
     (snd (run_events limiter_step [Attempt 0 ''login'' ''a'', Attempt 5 ''login'' ''a'']
        (new_limiter [(''login'', \<lparr> rr_limit = 1, rr_window = 10 \<rparr>)]))))) \<le> 1"
  using rate_limit_holds [of "[(''login'', \<lparr> rr_limit = 1, rr_window = 10 \<rparr>)]" "''login''" "\<lparr> rr_limit = 1, rr_window = 10 \<rparr>"
      "[Attempt 0 ''login'' ''a'', Attempt 5 ''login'' ''a'']" "''a''" 9]
  by (simp add: plain_routes_def new_limiter_def spares_def)

end
