(* ===== verification/Allowed_Email.thy ===== *)
theory Allowed_Email
  imports Emails_Prelude
begin

text \<open>
  src/server/self-hosted/auth/allowed-email.ts: the operator's list of domain globs and the
  one predicate that signup, login and invitations share.  The regular expressions are
  written out; the email and the globs are lower case when they are compared, so the \<open>i\<close>
  flag of the pattern has no effect on them.
\<close>

section \<open>The configured globs\<close>

fun split_by :: "('a \<Rightarrow> bool) \<Rightarrow> 'a list \<Rightarrow> 'a list list" where
  "split_by P [] = [[]]"
| "split_by P (x # xs) =
     (if P x then [] # split_by P xs
      else (case split_by P xs of [] \<Rightarrow> [[x]] | p # ps \<Rightarrow> (x # p) # ps))"

definition lower_alnum :: "char \<Rightarrow> bool" where
  "lower_alnum c \<longleftrightarrow> of_char c \<in> {97 .. 122 :: nat} \<or> of_char c \<in> {48 .. 57 :: nat}"

definition label_char :: "char \<Rightarrow> bool" where
  "label_char c \<longleftrightarrow> lower_alnum c \<or> c = CHR ''-''"

text \<open>One label of \<open>DOMAIN_GLOB_RE\<close>: letters, digits and stars, with hyphens inside.\<close>

definition glob_label :: "string \<Rightarrow> bool" where
  "glob_label l \<longleftrightarrow> (let ok = (\<lambda>c. lower_alnum c \<or> c = CHR ''*'')
     in l \<noteq> [] \<and> ok (hd l) \<and> ok (last l) \<and> (\<forall>c \<in> set l. ok c \<or> c = CHR ''-''))"

definition domain_glob :: "string \<Rightarrow> bool" where
  "domain_glob g \<longleftrightarrow> (let ls = split_on CHR ''.'' g in 2 \<le> length ls \<and> list_all glob_label ls)"

text \<open>\<open>None\<close>: an entry is not a domain glob and the parser throws.\<close>

definition parseAllowedDomains :: "string option \<Rightarrow> string list option" where
  "parseAllowedDomains raw =
     (let globs = filter (\<lambda>d. d \<noteq> []) (map js_trim
            (split_by (\<lambda>c. is_ws c \<or> c = CHR '','') (js_lower (js_trim (or_default raw [])))))
      in if list_all domain_glob globs then Some globs else None)"

section \<open>Matching\<close>

text \<open>A star stands for one or more characters of a DNS label.\<close>

fun glob_match :: "string \<Rightarrow> string \<Rightarrow> bool" where
  "glob_match [] s = (s = [])"
| "glob_match (g # gs) [] = False"
| "glob_match (g # gs) (c # cs) =
     (if g = CHR ''*'' then label_char c \<and> (glob_match gs cs \<or> glob_match (g # gs) cs)
      else c = g \<and> glob_match gs cs)"

definition matches_pattern :: "string list \<Rightarrow> string \<Rightarrow> bool" where
  "matches_pattern globs email \<longleftrightarrow>
     (let user = takeWhile (\<lambda>c. c \<noteq> CHR ''@'') email; rest = drop (length user) email
      in user \<noteq> [] \<and> \<not> list_ex is_ws user \<and> rest \<noteq> [] \<and> list_ex (\<lambda>g. glob_match g (tl rest)) globs)"

text \<open>\<open>None\<close>: the list is missing or malformed and building the pattern throws.\<close>

definition isAllowedSignupEmail :: "string option \<Rightarrow> string \<Rightarrow> bool option" where
  "isAllowedSignupEmail raw email =
     (case parseAllowedDomains raw of
        None \<Rightarrow> None
      | Some globs \<Rightarrow>
          if globs = [] then None
          else let normalized = js_lower (js_trim email)
               in Some (normalized \<noteq> [] \<and> length normalized \<le> 320 \<and> matches_pattern globs normalized))"

section \<open>A star stays inside its label\<close>

lemma split_on_dot_Cons:
  "split_on d (c # cs) = (if c = d then [] # split_on d cs else (c # hd (split_on d cs)) # tl (split_on d cs))"
  by (cases "split_on d cs") (use split_on_ne in auto)

lemma dot_facts: "\<not> label_char CHR ''.''" "CHR ''.'' \<noteq> CHR ''*''"
  by (simp_all add: label_char_def lower_alnum_def)

lemma glob_labelwise:
  "glob_match g s \<longleftrightarrow> list_all2 glob_match (split_on CHR ''.'' g) (split_on CHR ''.'' s)"
  supply split_on.simps(2) [simp del]
proof (induction g s rule: glob_match.induct)
  case (1 s)
  show ?case by (cases s) (auto simp: split_on_dot_Cons list_all2_Cons1)
next
  case (2 g gs)
  then show ?case by (auto simp: split_on_dot_Cons list_all2_Cons1)
next
  case (3 g gs c cs)
  let ?G = "split_on CHR ''.'' gs" and ?S = "split_on CHR ''.'' cs"
  have G: "?G = hd ?G # tl ?G" and S: "?S = hd ?S # tl ?S" by simp_all
  have IH: "glob_match gs cs \<longleftrightarrow> glob_match (hd ?G) (hd ?S) \<and> list_all2 glob_match (tl ?G) (tl ?S)"
    if "g = CHR ''*'' \<and> label_char c \<or> g \<noteq> CHR ''*'' \<and> c = g"
    using 3 that G S by (metis list_all2_Cons)
  show ?case
  proof (cases "g = CHR ''*''")
    case True
    then have star: "split_on CHR ''.'' (g # gs) = (g # hd ?G) # tl ?G" by (simp add: split_on_dot_Cons)
    show ?thesis
    proof (cases "label_char c")
      case lab: True
      then have c: "c \<noteq> CHR ''.''" using dot_facts(1) by blast
      have "glob_match (g # gs) cs \<longleftrightarrow> glob_match (g # hd ?G) (hd ?S) \<and> list_all2 glob_match (tl ?G) (tl ?S)"
        using 3(2) [OF True] star S by (metis list_all2_Cons)
      with IH True lab c show ?thesis by (auto simp: split_on_dot_Cons)
    next
      case False
      with True star show ?thesis by (auto simp: split_on_dot_Cons [of _ c])
    qed
  next
    case False
    show ?thesis
    proof (cases "c = g")
      case True
      with IH False have "glob_match (g # gs) (c # cs) \<longleftrightarrow> glob_match (hd ?G) (hd ?S) \<and> list_all2 glob_match (tl ?G) (tl ?S)"
        by simp
      also have "\<dots> \<longleftrightarrow> list_all2 glob_match (split_on CHR ''.'' (g # gs)) (split_on CHR ''.'' (c # cs))"
      proof (cases "g = CHR ''.''")
        case dot: True
        have "list_all2 glob_match ?G ?S \<longleftrightarrow> glob_match (hd ?G) (hd ?S) \<and> list_all2 glob_match (tl ?G) (tl ?S)"
          using G S by (metis list_all2_Cons)
        with dot True show ?thesis by (simp add: split_on_dot_Cons)
      qed (use False True in \<open>simp add: split_on_dot_Cons\<close>)
      finally show ?thesis .
    next
      case ne: False
      with False show ?thesis by (auto simp: split_on_dot_Cons list_all2_Cons1)
    qed
  qed
qed

lemma glob_match_no_at:
  "glob_match g s \<Longrightarrow> CHR ''@'' \<notin> set g \<Longrightarrow> CHR ''@'' \<notin> set s"
  by (induction g s rule: glob_match.induct) (auto simp: label_char_def lower_alnum_def split: if_splits)

lemma domain_glob_no_at: "domain_glob g \<Longrightarrow> CHR ''@'' \<notin> set g"
proof
  assume g: "domain_glob g" and at: "CHR ''@'' \<in> set g"
  from split_on_chars [OF at, of "CHR ''.''"] obtain l where l: "l \<in> set (split_on CHR ''.'' g)" "CHR ''@'' \<in> set l" by auto
  with g have "glob_label l" by (auto simp: domain_glob_def list_all_iff Let_def)
  with l(2) show False by (auto simp: glob_label_def lower_alnum_def Let_def)
qed

text \<open>
  An address that may sign up, log in or be invited has exactly one at sign, a user part
  without white space, and a domain that matches one of the operator's globs label by
  label: a star never reaches across a dot, so \<open>example.*\<close> does not admit a subdomain.
\<close>

theorem allowed_email_sound:
  assumes "isAllowedSignupEmail raw email = Some True"
  shows "\<exists>user domain globs g. js_lower (js_trim email) = user @ ''@'' @ domain
    \<and> user \<noteq> [] \<and> CHR ''@'' \<notin> set user \<and> CHR ''@'' \<notin> set domain \<and> (\<forall>c \<in> set user. \<not> is_ws c)
    \<and> parseAllowedDomains raw = Some globs \<and> g \<in> set globs
    \<and> 2 \<le> length (split_on CHR ''.'' domain)
    \<and> list_all2 glob_match (split_on CHR ''.'' g) (split_on CHR ''.'' domain)"
proof -
  let ?e = "js_lower (js_trim email)"
  let ?user = "takeWhile (\<lambda>c. c \<noteq> CHR ''@'') ?e"
  let ?rest = "drop (length ?user) ?e"
  obtain globs where g: "parseAllowedDomains raw = Some globs"
    and m: "matches_pattern globs ?e"
    using assms by (auto simp: isAllowedSignupEmail_def Let_def split: option.splits if_splits)
  then obtain g where gg: "g \<in> set globs" "glob_match g (tl ?rest)"
    and u: "?user \<noteq> []" "\<forall>c \<in> set ?user. \<not> is_ws c" "?rest \<noteq> []"
    by (auto simp: matches_pattern_def Let_def list_ex_iff)
  have r: "?rest = dropWhile (\<lambda>c. c \<noteq> CHR ''@'') ?e" by (simp add: dropWhile_eq_drop)
  then have hd: "hd ?rest = CHR ''@''" using hd_dropWhile [of "\<lambda>c. c \<noteq> CHR ''@''" ?e] u(3) by auto
  have "?e = ?user @ ?rest" using r by simp
  then have e: "?e = ?user @ ''@'' @ tl ?rest" using hd u(3) by (metis append_Cons append_Nil list.collapse)
  have "domain_glob g" using g gg(1)
    by (auto simp: parseAllowedDomains_def Let_def list_all_iff split: if_splits)
  then have no_at: "CHR ''@'' \<notin> set (tl ?rest)" and two: "2 \<le> length (split_on CHR ''.'' g)"
    using gg(2) glob_match_no_at domain_glob_no_at by (blast, simp add: domain_glob_def Let_def)
  have lab: "list_all2 glob_match (split_on CHR ''.'' g) (split_on CHR ''.'' (tl ?rest))"
    using gg(2) glob_labelwise by blast
  have "CHR ''@'' \<notin> set ?user" by (auto dest: set_takeWhileD)
  with e no_at two lab u g gg(1) list_all2_lengthD [OF lab] show ?thesis
    by (intro exI [of _ ?user] exI [of _ "tl ?rest"] exI [of _ globs] exI [of _ g] conjI) simp_all
qed

lemma allowed_email_sound_witness:
  "isAllowedSignupEmail (Some ''x.*'') ''a@x.io'' = Some True
   \<and> (\<exists>user domain globs g. ''a@x.io'' = user @ ''@'' @ domain \<and> CHR ''@'' \<notin> set user
        \<and> parseAllowedDomains (Some ''x.*'') = Some globs \<and> g \<in> set globs
        \<and> list_all2 glob_match (split_on CHR ''.'' g) (split_on CHR ''.'' domain))"
proof -
  have t: "js_trim ''x.*'' = ''x.*''" "js_trim ''a@x.io'' = ''a@x.io''"
    by (simp_all add: trim_by_def is_ws_def is_ws_unit_def)
  have l: "js_lower ''x.*'' = ''x.*''" "js_lower ''a@x.io'' = ''a@x.io''"
    by (simp_all add: js_lower_def lower_char_def)
  have s: "split_by (\<lambda>c. is_ws c \<or> c = CHR '','') ''x.*'' = [''x.*'']"
    by (simp add: is_ws_def is_ws_unit_def)
  have d: "domain_glob ''x.*''" by (simp add: domain_glob_def glob_label_def lower_alnum_def)
  have p: "parseAllowedDomains (Some ''x.*'') = Some [''x.*'']"
    unfolding parseAllowedDomains_def or_default_def Let_def option.case t l s by (simp add: t d)
  have "matches_pattern [''x.*''] ''a@x.io''"
    by (simp add: matches_pattern_def is_ws_def is_ws_unit_def label_char_def lower_alnum_def)
  then have ok: "isAllowedSignupEmail (Some ''x.*'') ''a@x.io'' = Some True"
    unfolding isAllowedSignupEmail_def p option.case Let_def t l by simp
  from allowed_email_sound [OF ok] show ?thesis unfolding t l using ok by blast
qed

end
