(* ===== verification/Client_Ip.thy ===== *)
theory Client_Ip
  imports Auth_Password
begin

text \<open>
  src/server/self-hosted/auth/client-ip.ts: which address the per-client rate limits are
  keyed on.  The header is one text, as \<open>Headers.get\<close> gives it: what the client wrote,
  followed by what each proxy appended, with commas between.
\<close>

section \<open>The resolver\<close>

definition MAX_SAFE_INTEGER :: int where
  "MAX_SAFE_INTEGER = 9007199254740991"

definition resolveTrustedProxyHops :: "string option \<Rightarrow> nat" where
  "resolveTrustedProxyHops env =
     (let raw = js_trim (or_default env []) in
      if raw = [] \<or> \<not> list_all is_digit raw then 0
      else let value = digits_value raw in if value \<le> MAX_SAFE_INTEGER then nat value else 0)"

definition digit_run :: "nat \<Rightarrow> nat \<Rightarrow> string \<Rightarrow> bool" where
  "digit_run lo hi s \<longleftrightarrow> lo \<le> length s \<and> length s \<le> hi \<and> list_all is_digit s"

definition dotted_quad :: "string \<Rightarrow> bool" where
  "dotted_quad s \<longleftrightarrow> (let os = split_on CHR ''.'' s in length os = 4 \<and> list_all (digit_run 1 3) os)"

text \<open>\<open>[address]\<close> with an optional port, and a dotted quad with a port.\<close>

definition bracketed :: "string \<Rightarrow> string option" where
  "bracketed s =
     (if s = [] \<or> hd s \<noteq> CHR ''['' then None
      else let inner = takeWhile (\<lambda>c. c \<noteq> CHR '']'') (tl s); rest = drop (length inner) (tl s)
      in if inner = [] \<or> rest = [] then None
         else if tl rest = [] \<or> (hd (tl rest) = CHR '':'' \<and> tl (tl rest) \<noteq> [] \<and> list_all is_digit (tl (tl rest)))
         then Some inner else None)"

definition quad_with_port :: "string \<Rightarrow> string option" where
  "quad_with_port s = (case split_on CHR '':'' s of
     [a, p] \<Rightarrow> if dotted_quad a \<and> p \<noteq> [] \<and> list_all is_digit p then Some a else None | _ \<Rightarrow> None)"

definition ipv6_char :: "char \<Rightarrow> bool" where
  "ipv6_char c \<longleftrightarrow> is_digit c \<or> of_char c \<in> {97 .. 102 :: nat} \<or> c = CHR '':''"

fun has_triple_colon :: "string \<Rightarrow> bool" where
  "has_triple_colon (a # b # c # cs) =
     ((a = CHR '':'' \<and> b = CHR '':'' \<and> c = CHR '':'') \<or> has_triple_colon (b # c # cs))"
| "has_triple_colon _ = False"

definition loose_ipv6 :: "string \<Rightarrow> bool" where
  "loose_ipv6 s \<longleftrightarrow> (case split_on CHR ''.'' s of
       [] \<Rightarrow> False
     | h # rest \<Rightarrow> h \<noteq> [] \<and> list_all ipv6_char h \<and> length rest \<le> 3 \<and> list_all (digit_run 1 3) rest)
     \<and> CHR '':'' \<in> set s \<and> \<not> has_triple_colon s"

definition octet_ok :: "string \<Rightarrow> bool" where
  "octet_ok d \<longleftrightarrow> digits_value d \<le> 255 \<and> \<not> (2 \<le> length d \<and> hd d = CHR ''0'')"

definition normalizeIp :: "string \<Rightarrow> string option" where
  "normalizeIp raw =
     (let v = js_trim raw in
      if v = [] then None
      else let v1 = (case bracketed v of Some i \<Rightarrow> i | None \<Rightarrow> or_default (quad_with_port v) v);
               w = js_lower (js_trim v1)
      in if w = [] \<or> 45 < length w then None
         else if dotted_quad w then (if list_all octet_ok (split_on CHR ''.'' w) then Some w else None)
         else if loose_ipv6 w then Some w else None)"

definition parseForwardedFor :: "string option \<Rightarrow> string list" where
  "parseForwardedFor header =
     (case header of None \<Rightarrow> []
      | Some h \<Rightarrow> if h = [] then [] else List.map_filter normalizeIp (split_on CHR '','' h))"

definition resolveClientIp :: "string option \<Rightarrow> string option \<Rightarrow> string option \<Rightarrow> string option" where
  "resolveClientIp forwarded_for socket_address hops_env =
     (let socket = (case socket_address of None \<Rightarrow> None | Some s \<Rightarrow> if s = [] then None else normalizeIp s);
          hops = resolveTrustedProxyHops hops_env
      in if hops = 0 then socket
         else let forwarded = parseForwardedFor forwarded_for
              in if hops \<le> length forwarded then Some (forwarded ! (length forwarded - hops)) else socket)"

section \<open>What the client writes does not matter\<close>

lemma split_on_join: "split_on c (a @ c # b) = split_on c a @ split_on c b"
proof (induction a)
  case (Cons x a)
  show ?case
  proof (cases "split_on c a")
    case Nil
    then show ?thesis using split_on_ne by blast
  qed (use Cons in auto)
qed simp

lemma parseForwardedFor_append:
  "b \<noteq> [] \<Longrightarrow> parseForwardedFor (Some (a @ '','' @ b)) = parseForwardedFor (Some a) @ parseForwardedFor (Some b)"
proof -
  have "normalizeIp [] = None" by (simp add: normalizeIp_def)
  then show "b \<noteq> [] \<Longrightarrow> ?thesis"
    by (simp add: parseForwardedFor_def split_on_join map_filter_def)
qed

text \<open>
  The rate-limit key is out of the client's reach: when the proxies' part of the header
  carries as many addresses as the operator configured, whatever the client put before it
  leaves the answer unchanged; and with no trusted proxy the header is not read at all.
\<close>

theorem client_cannot_choose_ip:
  assumes "proxies \<noteq> []" "resolveTrustedProxyHops env \<le> length (parseForwardedFor (Some proxies))"
  shows "resolveClientIp (Some (client @ '','' @ proxies)) socket env = resolveClientIp (Some proxies) socket env
    \<and> (resolveTrustedProxyHops env = 0 \<longrightarrow> (\<forall>h. resolveClientIp h socket env = resolveClientIp None socket env))"
  using assms(2) unfolding resolveClientIp_def parseForwardedFor_append [OF assms(1)]
  by (auto simp: Let_def nth_append)

lemma trim_examples:
  "js_trim ''1'' = ''1''" "js_trim ''10.0.0.7'' = ''10.0.0.7''" "js_trim ''6.6.6.6'' = ''6.6.6.6''" "js_trim ''unknown'' = ''unknown''"
  "js_lower ''10.0.0.7'' = ''10.0.0.7''" "js_lower ''6.6.6.6'' = ''6.6.6.6''" "js_lower ''unknown'' = ''unknown''"
  by (simp_all add: trim_by_def is_ws_def is_ws_unit_def js_lower_def lower_char_def)

lemma hop_one: "resolveTrustedProxyHops (Some ''1'') = 1"
  by (simp add: resolveTrustedProxyHops_def or_default_def trim_examples is_digit_def digits_value_def MAX_SAFE_INTEGER_def)

lemma ip_examples:
  "normalizeIp ''10.0.0.7'' = Some ''10.0.0.7''" "normalizeIp ''6.6.6.6'' = Some ''6.6.6.6''" "normalizeIp ''unknown'' = None"
  by (simp_all add: normalizeIp_def trim_examples Let_def bracketed_def quad_with_port_def dotted_quad_def digit_run_def is_digit_def octet_ok_def digits_value_def
      loose_ipv6_def ipv6_char_def or_default_def)

lemma forwarded_examples:
  "parseForwardedFor (Some ''10.0.0.7'') = [''10.0.0.7'']" "parseForwardedFor (Some ''6.6.6.6,unknown'') = [''6.6.6.6'']"
  by (simp_all add: parseForwardedFor_def map_filter_def ip_examples)

lemma client_cannot_choose_ip_witness:
  "resolveClientIp (Some ''6.6.6.6,10.0.0.7'') None (Some ''1'') = Some ''10.0.0.7''"
proof -
  have "resolveClientIp (Some ''10.0.0.7'') None (Some ''1'') = Some ''10.0.0.7''"
    by (simp add: resolveClientIp_def hop_one forwarded_examples)
  moreover have "''6.6.6.6,10.0.0.7'' = ''6.6.6.6'' @ '','' @ ''10.0.0.7''" by simp
  ultimately show ?thesis
    using client_cannot_choose_ip [of "''10.0.0.7''" "Some ''1''" "''6.6.6.6''" None]
    by (simp add: hop_one forwarded_examples)
qed

text \<open>
  Entries that are no address literal are dropped before the hops are counted from the
  right, so when the trusted proxy appends such an entry the client's own one is taken.
\<close>

theorem unparsable_hop_exposes_client_entry:
  "resolveClientIp (Some ''6.6.6.6,unknown'') (Some ''10.0.0.7'') (Some ''1'') = Some ''6.6.6.6''"
  by (simp add: resolveClientIp_def hop_one forwarded_examples ip_examples)

end
