(* ===== verification/Idp_Token.thy ===== *)
theory Idp_Token
  imports Auth_Schema
begin

text \<open>
  src/server/self-hosted/auth/idp-token.ts: the verification of an identity provider's
  access tokens and the cache of its published keys.  Decoding a token part (base64url and
  \<open>JSON.parse\<close>), the Ed25519 verification and the fetch of the key document belong to the
  platform: they are the arguments \<open>decode\<close>, \<open>ed_verify\<close> (\<open>None\<close>: it threw) and the
  fetched values of \<open>idp_input\<close>.  Numeric claims are integers.
\<close>

section \<open>Claims\<close>

record idp_claims =
  ic_sub :: string
  ic_tid :: string
  ic_jti :: string
  ic_pt :: principal_kind
  ic_scope :: "string list"

record idp_jwk =
  jk_x :: string
  jk_kid :: string

datatype verify_failure =
    Malformed | Unsupported_alg | Unsupported_typ | Missing_kid | Unknown_kid | Bad_signature
  | Issuer_mismatch | Audience_mismatch | Token_expired | Not_yet_valid | Invalid_claims

datatype idp_result = Idp_ok idp_claims string | Idp_refused verify_failure | Idp_throws

text \<open>Property reads: \<open>None\<close> is the TypeError on null; \<open>Some None\<close> is undefined.\<close>

definition js_prop :: "json \<Rightarrow> string \<Rightarrow> json option option" where
  "js_prop v k = (case v of JNull \<Rightarrow> None | JObj kvs \<Rightarrow> Some (map_of kvs k) | _ \<Rightarrow> Some None)"

definition js_prop_opt :: "json \<Rightarrow> string \<Rightarrow> json option" where
  "js_prop_opt v k = (case js_prop v k of None \<Rightarrow> None | Some x \<Rightarrow> x)"

fun truthy :: "json option \<Rightarrow> bool" where
  "truthy None = False"
| "truthy (Some JNull) = False"
| "truthy (Some (JBool b)) = b"
| "truthy (Some (JNum n)) = (n \<noteq> 0)"
| "truthy (Some (JStr s)) = (s \<noteq> [])"
| "truthy (Some _) = True"

definition looksLikeIdpToken :: "(string \<Rightarrow> json option) \<Rightarrow> string \<Rightarrow> bool" where
  "looksLikeIdpToken decode token =
     (let parts = split_on CHR ''.'' token in
      length parts = 3 \<and> (case decode (parts ! 0) of None \<Rightarrow> False
        | Some header \<Rightarrow> js_prop_opt header ''typ'' = Some (JStr ''at+jwt'')))"

definition nonempty_text :: "json option \<Rightarrow> string option" where
  "nonempty_text v = (case v of Some (JStr s) \<Rightarrow> if s = [] then None else Some s | _ \<Rightarrow> None)"

record idp_ids =
  ii_sub :: "string option"
  ii_tid :: "string option"
  ii_jti :: "string option"
  ii_kid :: "string option"

definition parseIdpClaimsUnverified :: "(string \<Rightarrow> json option) \<Rightarrow> string \<Rightarrow> idp_ids option" where
  "parseIdpClaimsUnverified decode token =
     (let parts = split_on CHR ''.'' token in
      if length parts \<noteq> 3 then None
      else (case (decode (parts ! 0), decode (parts ! 1)) of
          (Some header, Some claims) \<Rightarrow>
            (case (js_prop claims ''sub'', js_prop claims ''tid'', js_prop claims ''jti'', js_prop header ''kid'') of
               (Some s, Some t, Some j, Some k) \<Rightarrow> Some \<lparr> ii_sub = nonempty_text s, ii_tid = nonempty_text t,
                   ii_jti = nonempty_text j, ii_kid = nonempty_text k \<rparr>
             | _ \<Rightarrow> None)
        | _ \<Rightarrow> None))"

primrec text_of :: "json \<Rightarrow> string option" where
  "text_of (JStr s) = Some s"
| "text_of JNull = None"
| "text_of (JBool _) = None"
| "text_of (JNum _) = None"
| "text_of (JArr _) = None"
| "text_of (JObj _) = None"

text \<open>\<open>validClaims\<close>, with the claims it establishes the types of.\<close>

definition validClaims :: "json \<Rightarrow> idp_claims option" where
  "validClaims c =
     (case (js_prop_opt c ''sub'', js_prop_opt c ''tid'', js_prop_opt c ''jti'', js_prop_opt c ''pt'', js_prop_opt c ''scope'') of
        (Some (JStr sub), Some (JStr tid), Some (JStr jti), Some (JStr pt), Some (JArr scopes)) \<Rightarrow>
          if js_trim sub \<noteq> [] \<and> js_trim tid \<noteq> [] \<and> (pt = ''user'' \<or> pt = ''service'')
             \<and> list_all (\<lambda>s. text_of s \<noteq> None) scopes
          then Some \<lparr> ic_sub = sub, ic_tid = tid, ic_jti = jti,
                      ic_pt = (if pt = ''user'' then PK_user else PK_service),
                      ic_scope = List.map_filter text_of scopes \<rparr>
          else None
      | _ \<Rightarrow> None)"

section \<open>Verification\<close>

record idp_verify_options =
  vo_jwks :: "idp_jwk list"
  vo_audiences :: "string list"
  vo_leeway :: int
  vo_now_ms :: int

definition verify_times :: "idp_verify_options \<Rightarrow> json \<Rightarrow> verify_failure option" where
  "verify_times vo claims =
     (let now_sec = vo_now_ms vo div 1000; leeway = vo_leeway vo in
      if (case js_prop_opt claims ''exp'' of Some (JNum exp) \<Rightarrow> exp + leeway < now_sec | _ \<Rightarrow> True) then Some Token_expired
      else if (case js_prop_opt claims ''iat'' of Some (JNum iat) \<Rightarrow> now_sec < iat - leeway | _ \<Rightarrow> False) then Some Not_yet_valid
      else if (case js_prop_opt claims ''nbf'' of Some (JNum nbf) \<Rightarrow> now_sec < nbf - leeway | _ \<Rightarrow> False) then Some Not_yet_valid
      else None)"

definition verify_claims :: "idp_verify_options \<Rightarrow> string \<Rightarrow> json \<Rightarrow> idp_result" where
  "verify_claims vo kid claims =
     (case js_prop claims ''iss'' of
        None \<Rightarrow> Idp_throws
      | Some iss \<Rightarrow>
          if iss \<noteq> Some (JStr ''identities'') then Idp_refused Issuer_mismatch
          else if \<not> list_ex (\<lambda>a. js_prop_opt claims ''aud'' = Some (JStr a)) (vo_audiences vo)
          then Idp_refused Audience_mismatch
          else (case verify_times vo claims of
                  Some r \<Rightarrow> Idp_refused r
                | None \<Rightarrow> (case validClaims claims of None \<Rightarrow> Idp_refused Invalid_claims | Some c \<Rightarrow> Idp_ok c kid)))"

definition verifyIdpToken :: "(string \<Rightarrow> json option) \<Rightarrow> (idp_jwk \<Rightarrow> string \<Rightarrow> string \<Rightarrow> bool option)
    \<Rightarrow> idp_verify_options \<Rightarrow> string \<Rightarrow> idp_result" where
  "verifyIdpToken decode ed_verify vo token =
     (let parts = split_on CHR ''.'' token in
      if length parts \<noteq> 3 then Idp_refused Malformed
      else (case (decode (parts ! 0), decode (parts ! 1)) of
          (Some header, Some claims) \<Rightarrow>
            (case js_prop header ''alg'' of
               None \<Rightarrow> Idp_throws
             | Some alg \<Rightarrow>
                 if alg \<noteq> Some (JStr ''EdDSA'') then Idp_refused Unsupported_alg
                 else if js_prop_opt header ''typ'' \<noteq> Some (JStr ''at+jwt'') then Idp_refused Unsupported_typ
                 else if \<not> truthy (js_prop_opt header ''kid'') then Idp_refused Missing_kid
                 else (case find (\<lambda>k. js_prop_opt header ''kid'' = Some (JStr (jk_kid k))) (vo_jwks vo) of
                         None \<Rightarrow> Idp_refused Unknown_kid
                       | Some jwk \<Rightarrow>
                           if ed_verify jwk (parts ! 0 @ ''.'' @ parts ! 1) (parts ! 2) \<noteq> Some True
                           then Idp_refused Bad_signature
                           else verify_claims vo (jk_kid jwk) claims))
        | _ \<Rightarrow> Idp_refused Malformed))"

text \<open>\<open>normalizeIdpScopes\<close>: the wildcard and the alias application are renamed, foreign scopes dropped.\<close>

definition normalize_scope :: "string \<Rightarrow> string option" where
  "normalize_scope raw =
     (let scope = (if raw = ''*'' then ''emails:*'' else raw) in
      case index_of CHR '':'' scope of
        Some i \<Rightarrow>
          if 0 < i then
            (if take i scope = ''mailery'' then Some (''emails'' @ drop i scope)
             else if take i scope \<noteq> ''emails'' then None else Some scope)
          else if scope \<noteq> ''emails:*'' then None else Some scope
      | None \<Rightarrow> if scope \<noteq> ''emails:*'' then None else Some scope)"

fun normalizeIdpScopes :: "string list \<Rightarrow> string list \<Rightarrow> string list" where
  "normalizeIdpScopes out [] = out"
| "normalizeIdpScopes out (raw # rest) =
     (case normalize_scope raw of
        None \<Rightarrow> normalizeIdpScopes out rest
      | Some scope \<Rightarrow> normalizeIdpScopes (if scope \<in> set out then out else out @ [scope]) rest)"

section \<open>The key cache\<close>

datatype jwks_event = Keys_refreshed "idp_jwk list" | Fetch_failed | Keys_expired

record key_cache =
  kc_keys :: "idp_jwk list option"
  kc_fetched_at :: int
  kc_events :: "jwks_event list"

definition empty_cache :: key_cache where
  "empty_cache = \<lparr> kc_keys = None, kc_fetched_at = 0, kc_events = [] \<rparr>"

record authenticator =
  au_audiences :: "string list"
  au_cache_ms :: int
  au_max_stale_ms :: int
  au_leeway :: int
  au_decode :: "string \<Rightarrow> json option"
  au_ed_verify :: "idp_jwk \<Rightarrow> string \<Rightarrow> string \<Rightarrow> bool option"

text \<open>The constructor: the staleness ceiling never undercuts the lifetime of the cache.\<close>

definition new_authenticator :: "string list \<Rightarrow> int option \<Rightarrow> int option \<Rightarrow> int option \<Rightarrow> (string \<Rightarrow> json option)
    \<Rightarrow> (idp_jwk \<Rightarrow> string \<Rightarrow> string \<Rightarrow> bool option) \<Rightarrow> authenticator" where
  "new_authenticator auds cache_seconds max_stale_seconds leeway decode ed =
     (let cache_ms = or_default cache_seconds 300 * 1000 in
      \<lparr> au_audiences = auds, au_cache_ms = cache_ms,
        au_max_stale_ms = max (or_default max_stale_seconds 3600 * 1000) cache_ms,
        au_leeway = or_default leeway 0, au_decode = decode, au_ed_verify = ed \<rparr>)"

definition parse_jwk :: "json \<Rightarrow> idp_jwk option" where
  "parse_jwk entry =
     (case entry of
        JObj kvs \<Rightarrow>
          (case (map_of kvs ''x'', map_of kvs ''kid'') of
             (Some (JStr x), Some (JStr kid)) \<Rightarrow>
               if map_of kvs ''kty'' = Some (JStr ''OKP'') \<and> map_of kvs ''crv'' = Some (JStr ''Ed25519'')
               then Some \<lparr> jk_x = x, jk_kid = kid \<rparr> else None
           | _ \<Rightarrow> None)
      | _ \<Rightarrow> None)"

definition parseJwksDocument :: "json \<Rightarrow> idp_jwk list option" where
  "parseJwksDocument v =
     (case v of
        JObj kvs \<Rightarrow> (case map_of kvs ''keys'' of Some (JArr keys) \<Rightarrow> Some (List.map_filter parse_jwk keys) | _ \<Rightarrow> None)
      | _ \<Rightarrow> None)"

text \<open>One fetch: \<open>None\<close> when it failed.\<close>

definition refresh :: "int \<Rightarrow> json option \<Rightarrow> key_cache \<Rightarrow> key_cache" where
  "refresh now fetched c =
     (case (case fetched of None \<Rightarrow> None | Some doc \<Rightarrow> parseJwksDocument doc) of
        Some keys \<Rightarrow> c\<lparr>kc_keys := Some keys, kc_fetched_at := now, kc_events := kc_events c @ [Keys_refreshed keys]\<rparr>
      | None \<Rightarrow> c\<lparr>kc_events := kc_events c @ [Fetch_failed]\<rparr>)"

definition enforceStalenessCeiling :: "authenticator \<Rightarrow> int \<Rightarrow> key_cache \<Rightarrow> key_cache" where
  "enforceStalenessCeiling au now c =
     (if kc_keys c \<noteq> None \<and> au_max_stale_ms au \<le> now - kc_fetched_at c
      then c\<lparr>kc_keys := None, kc_events := kc_events c @ [Keys_expired]\<rparr> else c)"

text \<open>What one call sees: the clock at its reads, and what its two possible fetches give.\<close>

record idp_input =
  in_clock :: "nat \<Rightarrow> int"
  in_fetch1 :: "json option"
  in_fetch2 :: "json option"

definition currentKeys :: "authenticator \<Rightarrow> idp_input \<Rightarrow> key_cache \<Rightarrow> key_cache" where
  "currentKeys au i c =
     (let fresh = (kc_keys c \<noteq> None \<and> in_clock i 0 - kc_fetched_at c < au_cache_ms au);
          c1 = (if fresh then c else refresh (in_clock i 1) (in_fetch1 i) c)
      in enforceStalenessCeiling au (in_clock i 2) c1)"

datatype auth_outcome = Authenticated idp_claims string | Refused_401 verify_failure | Jwks_unavailable | Auth_throws

definition outcome_of :: "idp_result \<Rightarrow> auth_outcome" where
  "outcome_of r = (case r of Idp_ok c k \<Rightarrow> Authenticated c k | Idp_refused f \<Rightarrow> Refused_401 f | Idp_throws \<Rightarrow> Auth_throws)"

definition verify_with :: "authenticator \<Rightarrow> idp_jwk list \<Rightarrow> int \<Rightarrow> string \<Rightarrow> idp_result" where
  "verify_with au keys now token = verifyIdpToken (au_decode au) (au_ed_verify au)
     \<lparr> vo_jwks = keys, vo_audiences = au_audiences au, vo_leeway = au_leeway au, vo_now_ms = now \<rparr> token"

definition authenticate :: "authenticator \<Rightarrow> idp_input \<Rightarrow> string \<Rightarrow> key_cache \<Rightarrow> key_cache \<times> auth_outcome" where
  "authenticate au i token c =
     (let c1 = currentKeys au i c in
      case kc_keys c1 of
        None \<Rightarrow> (c1, Jwks_unavailable)
      | Some keys \<Rightarrow>
          let r = verify_with au keys (in_clock i 3) token in
          if r \<noteq> Idp_refused Unknown_kid then (c1, outcome_of r)
          else let c2 = enforceStalenessCeiling au (in_clock i 5) (refresh (in_clock i 4) (in_fetch2 i) c1) in
            (case kc_keys c2 of
               None \<Rightarrow> (c2, Jwks_unavailable)
             | Some keys2 \<Rightarrow> (c2, outcome_of (verify_with au keys2 (in_clock i 6) token))))"

section \<open>What an accepted token proves\<close>

lemma length3: "length xs = 3 \<Longrightarrow> \<exists>a b c. xs = [a, b, c]"
  by (auto simp: numeral_3_eq_3 length_Suc_conv)

lemma verify_claims_ok:
  assumes "verify_claims vo kid claims = Idp_ok c kid'"
  shows "kid' = kid \<and> js_prop_opt claims ''iss'' = Some (JStr ''identities'')
    \<and> (\<exists>a \<in> set (vo_audiences vo). js_prop_opt claims ''aud'' = Some (JStr a))
    \<and> (\<exists>exp. js_prop_opt claims ''exp'' = Some (JNum exp) \<and> vo_now_ms vo div 1000 \<le> exp + vo_leeway vo)
    \<and> validClaims claims = Some c"
  using assms
  by (auto simp: verify_claims_def verify_times_def Let_def list_ex_iff js_prop_opt_def
      split: option.splits if_splits json.splits)

lemma validClaims_sub: "validClaims claims = Some c \<Longrightarrow> js_prop_opt claims ''sub'' = Some (JStr (ic_sub c)) \<and> js_trim (ic_sub c) \<noteq> []"
  by (auto simp: validClaims_def split: option.splits json.splits if_splits)

lemma verifyIdpToken_ok:
  assumes "verifyIdpToken decode ed_verify vo token = Idp_ok c kid"
  obtains h p sig header claims jwk where "split_on CHR ''.'' token = [h, p, sig]" "decode h = Some header" "decode p = Some claims"
    "js_prop_opt header ''alg'' = Some (JStr ''EdDSA'')" "js_prop_opt header ''typ'' = Some (JStr ''at+jwt'')"
    "jwk \<in> set (vo_jwks vo)" "js_prop_opt header ''kid'' = Some (JStr (jk_kid jwk))"
    "ed_verify jwk (h @ ''.'' @ p) sig = Some True" "verify_claims vo (jk_kid jwk) claims = Idp_ok c kid"
proof -
  let ?parts = "split_on CHR ''.'' token"
  have "length ?parts = 3" using assms by (auto simp: verifyIdpToken_def Let_def split: if_splits)
  then obtain h p sig where parts: "?parts = [h, p, sig]" using length3 by blast
  obtain header claims where d: "decode h = Some header" "decode p = Some claims"
    using assms parts by (auto simp: verifyIdpToken_def Let_def split: option.splits)
  obtain alg where alg: "js_prop header ''alg'' = Some alg"
    using assms parts d by (auto simp: verifyIdpToken_def Let_def split: option.splits)
  have pins: "alg = Some (JStr ''EdDSA'')" "js_prop_opt header ''typ'' = Some (JStr ''at+jwt'')"
    using assms parts d alg by (auto simp: verifyIdpToken_def Let_def split: if_splits)
  obtain jwk where jwk: "find (\<lambda>k. js_prop_opt header ''kid'' = Some (JStr (jk_kid k))) (vo_jwks vo) = Some jwk"
    and sig: "ed_verify jwk (h @ ''.'' @ p) sig = Some True" and vc: "verify_claims vo (jk_kid jwk) claims = Idp_ok c kid"
    using assms parts d alg pins by (auto simp: verifyIdpToken_def Let_def split: if_splits option.splits)
  have "js_prop_opt header ''alg'' = Some (JStr ''EdDSA'')" using alg pins by (simp add: js_prop_opt_def)
  with that [OF parts d] pins(2) sig vc find_SomeD [OF jwk] show thesis by blast
qed

text \<open>
  C35. An accepted token is an access token the identity provider signed: one of the published
  keys, named by the header, verifies the signature over the very bytes whose claims are
  used; algorithm, type and issuer are the pinned ones, the audience is one of ours, and
  the token has not expired.
\<close>

theorem idp_token_sound:
  assumes "verifyIdpToken decode ed_verify vo token = Idp_ok c kid"
  shows "\<exists>h p sig header claims jwk. split_on CHR ''.'' token = [h, p, sig] \<and> decode h = Some header \<and> decode p = Some claims
    \<and> jwk \<in> set (vo_jwks vo) \<and> jk_kid jwk = kid \<and> js_prop_opt header ''kid'' = Some (JStr kid)
    \<and> js_prop_opt header ''alg'' = Some (JStr ''EdDSA'') \<and> js_prop_opt header ''typ'' = Some (JStr ''at+jwt'')
    \<and> ed_verify jwk (h @ ''.'' @ p) sig = Some True
    \<and> js_prop_opt claims ''iss'' = Some (JStr ''identities'')
    \<and> (\<exists>a \<in> set (vo_audiences vo). js_prop_opt claims ''aud'' = Some (JStr a))
    \<and> (\<exists>exp. js_prop_opt claims ''exp'' = Some (JNum exp) \<and> vo_now_ms vo div 1000 \<le> exp + vo_leeway vo)
    \<and> js_prop_opt claims ''sub'' = Some (JStr (ic_sub c)) \<and> js_trim (ic_sub c) \<noteq> []"
proof -
  obtain h p sig header claims jwk where *: "split_on CHR ''.'' token = [h, p, sig]" "decode h = Some header" "decode p = Some claims"
    "js_prop_opt header ''alg'' = Some (JStr ''EdDSA'')" "js_prop_opt header ''typ'' = Some (JStr ''at+jwt'')"
    "jwk \<in> set (vo_jwks vo)" "js_prop_opt header ''kid'' = Some (JStr (jk_kid jwk))"
    "ed_verify jwk (h @ ''.'' @ p) sig = Some True" "verify_claims vo (jk_kid jwk) claims = Idp_ok c kid"
    using verifyIdpToken_ok [OF assms] .
  with verify_claims_ok [OF *(9)] validClaims_sub [of claims c] show ?thesis
    by (intro exI [of _ h] exI [of _ p] exI [of _ sig] exI [of _ header] exI [of _ claims] exI [of _ jwk]) simp
qed

definition demo_decode :: "string \<Rightarrow> json option" where
  "demo_decode s =
     (if s = ''h'' then Some (JObj [(''alg'', JStr ''EdDSA''), (''typ'', JStr ''at+jwt''), (''kid'', JStr ''k'')])
      else if s = ''p'' then Some (JObj [(''iss'', JStr ''identities''), (''aud'', JStr ''emails''), (''sub'', JStr ''svc''),
         (''tid'', JStr ''t''), (''pt'', JStr ''service''), (''scope'', JArr [JStr ''*'']), (''iat'', JNum 0), (''exp'', JNum 10), (''jti'', JStr ''j'')])
      else None)"

definition demo_ed :: "idp_jwk \<Rightarrow> string \<Rightarrow> string \<Rightarrow> bool option" where
  "demo_ed jwk signed sig = Some (jk_x jwk = ''x'' \<and> signed = ''h.p'' \<and> sig = ''s'')"

definition demo_claims :: idp_claims where
  "demo_claims = \<lparr> ic_sub = ''svc'', ic_tid = ''t'', ic_jti = ''j'', ic_pt = PK_service, ic_scope = [''*''] \<rparr>"

lemma demo_token_ok:
  "verifyIdpToken demo_decode demo_ed \<lparr> vo_jwks = [\<lparr> jk_x = ''x'', jk_kid = ''k'' \<rparr>], vo_audiences = [''emails''], vo_leeway = 0, vo_now_ms = 9000 \<rparr> ''h.p.s''
   = Idp_ok demo_claims ''k''"
proof -
  have t: "js_trim ''svc'' = ''svc''" "js_trim ''t'' = ''t''" by (simp_all add: trim_by_def is_ws_def is_ws_unit_def)
  show ?thesis
    by (simp add: verifyIdpToken_def demo_decode_def js_prop_def js_prop_opt_def demo_ed_def verify_claims_def
        verify_times_def validClaims_def t map_filter_def demo_claims_def Let_def)
qed

lemma idp_token_sound_witness:
  "\<exists>jwk. jwk \<in> {\<lparr> jk_x = ''x'', jk_kid = ''k'' \<rparr>} \<and> jk_kid jwk = ''k'' \<and> demo_ed jwk ''h.p'' ''s'' = Some True"
  using idp_token_sound [OF demo_token_ok] by auto

section \<open>Which keys are trusted\<close>

text \<open>The key set of the newest well-formed document fetched.\<close>

definition newest :: "jwks_event list \<Rightarrow> idp_jwk list option" where
  "newest es = foldl (\<lambda>a e. case e of Keys_refreshed ks \<Rightarrow> Some ks | _ \<Rightarrow> a) None es"

lemma newest_snoc [simp]:
  "newest (es @ [Keys_refreshed ks]) = Some ks" "newest (es @ [Fetch_failed]) = newest es" "newest (es @ [Keys_expired]) = newest es"
  by (simp_all add: newest_def)

definition cache_ok :: "key_cache \<Rightarrow> bool" where
  "cache_ok c \<longleftrightarrow> (\<forall>ks. kc_keys c = Some ks \<longrightarrow> newest (kc_events c) = Some ks)"

lemma cache_ok_refresh: "cache_ok c \<Longrightarrow> cache_ok (refresh now f c)"
  by (auto simp: cache_ok_def refresh_def split: option.splits)

lemma cache_ok_ceiling: "cache_ok c \<Longrightarrow> cache_ok (enforceStalenessCeiling au now c)"
  by (auto simp: cache_ok_def enforceStalenessCeiling_def)

lemma ceiling_young: "kc_keys (enforceStalenessCeiling au now c) = Some ks \<Longrightarrow>
  now - kc_fetched_at (enforceStalenessCeiling au now c) < au_max_stale_ms au"
  by (auto simp: enforceStalenessCeiling_def split: if_splits)

lemma cache_ok_current: "cache_ok c \<Longrightarrow> cache_ok (currentKeys au i c)"
  by (simp add: currentKeys_def Let_def cache_ok_ceiling cache_ok_refresh)

lemma cache_ok_authenticate: "cache_ok c \<Longrightarrow> cache_ok (fst (authenticate au i token c))"
  by (auto simp: authenticate_def Let_def cache_ok_current cache_ok_ceiling cache_ok_refresh split: option.split)

primrec serve :: "authenticator \<Rightarrow> (idp_input \<times> string) list \<Rightarrow> key_cache \<Rightarrow> key_cache" where
  "serve au [] c = c"
| "serve au (q # qs) c = serve au qs (fst (authenticate au (fst q) (snd q) c))"

lemma cache_ok_serve: "cache_ok c \<Longrightarrow> cache_ok (serve au qs c)"
  by (induction qs arbitrary: c) (auto simp: cache_ok_authenticate)

lemma verify_with_kid:
  "outcome_of (verify_with au keys now token) = Authenticated cl kid \<Longrightarrow> kid \<in> jk_kid ` set keys"
  by (auto simp: outcome_of_def verify_with_def split: idp_result.splits elim!: verifyIdpToken_ok dest: verify_claims_ok)

text \<open>
  Whatever requests came before, a token is accepted only under a key of the newest key
  document that was fetched and well formed, and only while that document is younger than
  the staleness ceiling: a key the provider has removed from its document, all of them by
  publishing an empty one, stops working at the next fetch that succeeds, and a provider
  that cannot be reached for the length of the ceiling authenticates nobody.
\<close>

theorem accepted_key_is_current:
  assumes "authenticate au i token (serve au calls empty_cache) = (c, Authenticated cl kid)"
  shows "\<exists>keys. newest (kc_events c) = Some keys \<and> kid \<in> jk_kid ` set keys
    \<and> (in_clock i 2 - kc_fetched_at c < au_max_stale_ms au \<or> in_clock i 5 - kc_fetched_at c < au_max_stale_ms au)"
proof -
  let ?c0 = "serve au calls empty_cache"
  let ?c1 = "currentKeys au i ?c0"
  let ?c2 = "enforceStalenessCeiling au (in_clock i 5) (refresh (in_clock i 4) (in_fetch2 i) ?c1)"
  have ok: "cache_ok ?c0" by (rule cache_ok_serve) (simp add: cache_ok_def empty_cache_def)
  have ok1: "cache_ok ?c1" using ok by (rule cache_ok_current)
  have ok2: "cache_ok ?c2" using ok1 by (intro cache_ok_ceiling cache_ok_refresh)
  obtain keys where k: "kc_keys ?c1 = Some keys"
    using assms by (auto simp: authenticate_def Let_def split: option.splits)
  have young: "in_clock i 2 - kc_fetched_at ?c1 < au_max_stale_ms au"
    using k unfolding currentKeys_def Let_def by (rule ceiling_young)
  show ?thesis
  proof (cases "verify_with au keys (in_clock i 3) token = Idp_refused Unknown_kid")
    case False
    with assms k have "c = ?c1" "outcome_of (verify_with au keys (in_clock i 3) token) = Authenticated cl kid"
      by (simp_all add: authenticate_def Let_def)
    with young ok1 k verify_with_kid show ?thesis by (auto simp: cache_ok_def)
  next
    case True
    with assms k obtain keys2 where k2: "kc_keys ?c2 = Some keys2" and c: "c = ?c2"
        and o: "outcome_of (verify_with au keys2 (in_clock i 6) token) = Authenticated cl kid"
      by (auto simp: authenticate_def Let_def split: option.splits)
    have "in_clock i 5 - kc_fetched_at ?c2 < au_max_stale_ms au" using k2 by (rule ceiling_young)
    with ok2 k2 c verify_with_kid [OF o] show ?thesis by (auto simp: cache_ok_def)
  qed
qed

definition demo_authenticator :: authenticator where
  "demo_authenticator = new_authenticator [''emails''] None None None demo_decode demo_ed"

definition demo_document :: json where
  "demo_document = JObj [(''keys'', JArr [JObj [(''kty'', JStr ''OKP''), (''crv'', JStr ''Ed25519''), (''x'', JStr ''x''), (''kid'', JStr ''k'')]])]"

definition demo_input :: "int \<Rightarrow> json option \<Rightarrow> idp_input" where
  "demo_input now f = \<lparr> in_clock = (\<lambda>_. now), in_fetch1 = f, in_fetch2 = None \<rparr>"

lemma accepted_key_is_current_witness:
  "\<exists>c. authenticate demo_authenticator (demo_input 9000 None) ''h.p.s''
         (serve demo_authenticator [(demo_input 8000 (Some demo_document), ''z'')] empty_cache)
       = (c, Authenticated demo_claims ''k'')
     \<and> newest (kc_events c) = Some [\<lparr> jk_x = ''x'', jk_kid = ''k'' \<rparr>]"
proof -
  let ?s = "serve demo_authenticator [(demo_input 8000 (Some demo_document), ''z'')] empty_cache"
  let ?a = "authenticate demo_authenticator (demo_input 9000 None) ''h.p.s'' ?s"
  have doc: "parseJwksDocument demo_document = Some [\<lparr> jk_x = ''x'', jk_kid = ''k'' \<rparr>]"
    by (simp add: parseJwksDocument_def demo_document_def parse_jwk_def map_filter_def)
  have s: "?s = \<lparr> kc_keys = Some [\<lparr> jk_x = ''x'', jk_kid = ''k'' \<rparr>], kc_fetched_at = 8000, kc_events = [Keys_refreshed [\<lparr> jk_x = ''x'', jk_kid = ''k'' \<rparr>]] \<rparr>"
    by (simp add: authenticate_def currentKeys_def empty_cache_def demo_input_def refresh_def doc enforceStalenessCeiling_def
        demo_authenticator_def new_authenticator_def or_default_def verify_with_def verifyIdpToken_def Let_def outcome_of_def)
  have a: "?a = (?s, Authenticated demo_claims ''k'')"
    unfolding s by (simp add: authenticate_def currentKeys_def demo_input_def enforceStalenessCeiling_def
        demo_authenticator_def new_authenticator_def or_default_def verify_with_def demo_token_ok Let_def outcome_of_def)
  from accepted_key_is_current [OF a] have "newest (kc_events ?s) \<noteq> None" by auto
  with a show ?thesis unfolding s by (simp add: newest_def)
qed

end
