(* ===== verification/Auth_Context.thy ===== *)
theory Auth_Context
  imports Auth_Store Js_Text Rate_Limit Allowed_Email Client_Ip Idp_Token
begin

text \<open>
  The first half of src/server/self-hosted/auth/service.ts: the state the identity service
  works on, the actions its handlers are composed of, and \<open>resolveRequestContext\<close>, which
  turns a credential into a principal of one tenant.

  A handler is an action: it may change the state, and it returns a response or throws.
  What @hasna/contracts supplies (reading the bearer token, verifying and minting API keys,
  comparing scopes and tenant ids) is an argument, as are percent-decoding and the
  platform's clock, ids and random texts.  The calls of one handler run here without other
  requests in between; what holds for any interleaving of the store's methods is stated
  over their histories.
\<close>

section \<open>Requests and responses\<close>

datatype body_text = Blank | Not_json | Json json

record request =
  rq_method :: string
  rq_path :: string
  rq_headers :: "string \<rightharpoonup> string"
  rq_query :: "string \<rightharpoonup> string"
  rq_content_length :: "int option"
  rq_chunks :: "nat list"
  rq_text :: body_text

text \<open>\<open>method.toUpperCase() === name\<close>, for the ASCII names of methods.\<close>

definition method_is :: "request \<Rightarrow> string \<Rightarrow> bool" where
  "method_is rq name \<longleftrightarrow> js_lower (rq_method rq) = js_lower name"

record response =
  rs_status :: nat
  rs_body :: json
  rs_retry_after :: "int option option"

definition reply :: "nat \<Rightarrow> (string \<times> json) list \<Rightarrow> response" where
  "reply status kvs = \<lparr> rs_status = status, rs_body = JObj kvs, rs_retry_after = None \<rparr>"

text \<open>\<open>json(status, { error })\<close> and \<open>json(status, { error, reason })\<close>.\<close>

definition refuse :: "nat \<Rightarrow> string \<Rightarrow> response" where
  "refuse status message = reply status [(''error'', JStr message)]"

definition fail :: "nat \<Rightarrow> string \<Rightarrow> string \<Rightarrow> response" where
  "fail status message reason = reply status [(''error'', JStr message), (''reason'', JStr reason)]"

definition opt_num :: "int option \<Rightarrow> json" where
  "opt_num n = (case n of None \<Rightarrow> JNull | Some i \<Rightarrow> JNum i)"

definition opt_str :: "string option \<Rightarrow> json" where
  "opt_str s = (case s of None \<Rightarrow> JNull | Some x \<Rightarrow> JStr x)"

definition retryLater :: "int option \<Rightarrow> response" where
  "retryLater seconds = (reply 429 [(''error'', JStr ''too many requests''), (''reason'', JStr ''rate_limited''),
     (''retry_after'', opt_num seconds)])\<lparr>rs_retry_after := Some seconds\<rparr>"

section \<open>What the service is given\<close>

record auth_env =
  ev_allowed_domains :: "string option"
  ev_proxy_hops :: "string option"
  ev_super_admin_email :: "string option"
  ev_super_admin_kid :: "string option"

datatype api_decision =
    Api_denied nat string string
  | Api_principal string "string list" "string option"

record minted_key =
  mk_kid :: string
  mk_token :: string
  mk_app :: string
  mk_scopes :: "string list"
  mk_agent :: "string option"
  mk_exp :: "int option"

record svc_deps =
  sd_cfg :: auth_cfg
  sd_env :: auth_env
  sd_extract_token :: "(string \<rightharpoonup> string) \<Rightarrow> string option"
  sd_verify_api_key :: "moment \<Rightarrow> request \<Rightarrow> string list \<Rightarrow> api_decision tx"
  sd_same_tenant_id :: "string \<Rightarrow> string \<Rightarrow> bool"
  sd_has_scopes :: "string list \<Rightarrow> string list \<Rightarrow> bool"
  sd_mint_key :: "moment \<Rightarrow> string \<Rightarrow> string list \<Rightarrow> int option \<Rightarrow> string option \<Rightarrow> minted_key"
  sd_insert_minted :: "minted_key \<Rightarrow> string \<Rightarrow> unit tx"
  sd_revoke_key :: "moment \<Rightarrow> string \<Rightarrow> string \<Rightarrow> bool tx"
  sd_authenticator :: "authenticator option"
  sd_decode :: "string \<Rightarrow> json option"
  sd_decode_uri :: "string \<Rightarrow> string option"
  sd_seed_fails :: "string \<Rightarrow> bool"

text \<open>One request as it arrives: its socket, and what the platform will give its calls, in order.\<close>

record arrival =
  ar_request :: request
  ar_socket :: "string option"
  ar_at :: "nat \<Rightarrow> moment"
  ar_idp :: idp_input

section \<open>State and actions\<close>

datatype mail_kind = Verification_mail | Reset_mail | Invitation_mail string

record auth_mail =
  ml_kind :: mail_kind
  ml_to :: string
  ml_token :: string

record idp_audit =
  ia_allow :: bool
  ia_status :: nat
  ia_reason :: "string option"
  ia_sub :: "string option"
  ia_tid :: "string option"
  ia_jti :: "string option"
  ia_kid :: "string option"
  ia_scopes_required :: "string list"
  ia_method :: string
  ia_path :: string

record svc =
  sv_db :: auth_db
  sv_limits :: limiter
  sv_keys :: key_cache
  sv_mails :: "auth_mail list"
  sv_audit :: "idp_audit list"

datatype exn =
    Syntax_error
  | Body_too_large
  | Body_not_object
  | Key_error string
  | Store_error auth_error
  | Other_error

type_synonym 'a act = "svc \<Rightarrow> svc \<times> (exn + 'a)"

definition ac_ret :: "'a \<Rightarrow> 'a act" where
  "ac_ret x s = (s, Inr x)"

definition ac_throw :: "exn \<Rightarrow> 'a act" where
  "ac_throw e s = (s, Inl e)"

definition ac_bind :: "'a act \<Rightarrow> ('a \<Rightarrow> 'b act) \<Rightarrow> 'b act" where
  "ac_bind m f s = (case m s of (s', Inl e) \<Rightarrow> (s', Inl e) | (s', Inr x) \<Rightarrow> f x s')"

text \<open>\<open>try\<close>: the exception as a value.\<close>

definition ac_try :: "'a act \<Rightarrow> (exn + 'a) act" where
  "ac_try m s = (case m s of (s', r) \<Rightarrow> (s', Inr r))"

definition call :: "'a tx \<Rightarrow> 'a act" where
  "call m s = (case m (sv_db s) of
      (d, Inl e) \<Rightarrow> (s\<lparr>sv_db := d\<rparr>, Inl (Store_error e))
    | (d, Inr x) \<Rightarrow> (s\<lparr>sv_db := d\<rparr>, Inr x))"

definition limit_all :: "int \<Rightarrow> string \<Rightarrow> string option list \<Rightarrow> rate_decision act" where
  "limit_all now route keys s = (case checkAll now route keys (sv_limits s) of
     (rl, d) \<Rightarrow> (s\<lparr>sv_limits := rl\<rparr>, Inr d))"

definition limit_reset :: "string \<Rightarrow> string \<Rightarrow> unit act" where
  "limit_reset route key s = (s\<lparr>sv_limits := reset route key (sv_limits s)\<rparr>, Inr ())"

text \<open>Best effort: a mail that cannot be sent changes nothing else and never throws.\<close>

definition send_mail :: "mail_kind \<Rightarrow> string \<Rightarrow> string \<Rightarrow> unit act" where
  "send_mail kind to_address token s =
     (s\<lparr>sv_mails := sv_mails s @ [\<lparr> ml_kind = kind, ml_to = to_address, ml_token = token \<rparr>]\<rparr>, Inr ())"

definition audit :: "request \<Rightarrow> string list \<Rightarrow> bool \<Rightarrow> nat \<Rightarrow> string option \<Rightarrow> idp_ids \<Rightarrow> unit act" where
  "audit rq required allow status reason ids s =
     (s\<lparr>sv_audit := sv_audit s @ [\<lparr> ia_allow = allow, ia_status = status, ia_reason = reason,
        ia_sub = ii_sub ids, ia_tid = ii_tid ids, ia_jti = ii_jti ids, ia_kid = ii_kid ids,
        ia_scopes_required = required, ia_method = rq_method rq, ia_path = rq_path rq \<rparr>]\<rparr>, Inr ())"

section \<open>Reading the request\<close>

definition MAX_AUTH_BODY_BYTES :: nat where
  "MAX_AUTH_BODY_BYTES = 64 * 1024"

text \<open>The chunks are counted as they arrive; the first one over the cap ends the reading.\<close>

fun drain :: "nat \<Rightarrow> nat list \<Rightarrow> nat option" where
  "drain n [] = Some n"
| "drain n (c # cs) = (if MAX_AUTH_BODY_BYTES < n + c then None else drain (n + c) cs)"

type_synonym body_fields = "string \<rightharpoonup> json"

definition readJsonBody :: "request \<Rightarrow> body_fields act" where
  "readJsonBody rq =
     (if (case rq_content_length rq of Some n \<Rightarrow> int MAX_AUTH_BODY_BYTES < n | None \<Rightarrow> False) then ac_throw Body_too_large
      else if drain 0 (rq_chunks rq) = None then ac_throw Body_too_large
      else (case rq_text rq of
              Blank \<Rightarrow> ac_ret Map.empty
            | Not_json \<Rightarrow> ac_throw Syntax_error
            | Json (JObj kvs) \<Rightarrow> ac_ret (map_of kvs)
            | Json _ \<Rightarrow> ac_throw Body_not_object))"

definition clientIp :: "svc_deps \<Rightarrow> arrival \<Rightarrow> string option" where
  "clientIp dp a = resolveClientIp (rq_headers (ar_request a) ''x-forwarded-for'') (ar_socket a) (ev_proxy_hops (sd_env dp))"

definition str :: "json option \<Rightarrow> string" where
  "str v = (case v of Some (JStr s) \<Rightarrow> js_trim s | _ \<Rightarrow> [])"

text \<open>\<open>x || null\<close> on a text.\<close>

definition or_null :: "string \<Rightarrow> string option" where
  "or_null s = (if s = [] then None else Some s)"

definition validatePassword :: "json option \<Rightarrow> string + string" where
  "validatePassword v =
     (case v of
        Some (JStr p) \<Rightarrow>
          if length p < 8 then Inl ''password must be at least 8 characters''
          else if 200 < length p then Inl ''password must be at most 200 characters''
          else Inr p
      | _ \<Rightarrow> Inl ''password must be at least 8 characters'')"

section \<open>The request context\<close>

datatype principal_type = P_user | P_apikey | P_idp

record request_ctx =
  cx_tenant :: string
  cx_principal :: principal_type
  cx_user :: "string option"
  cx_role :: "role option"
  cx_global_role :: "global_role option"
  cx_kid :: "string option"
  cx_sub :: "string option"
  cx_scopes :: "string list"

datatype resolve_result = Resolved request_ctx | Denied response

primrec scopesForRole :: "role \<Rightarrow> string list" where
  "scopesForRole R_owner = [''emails:read'', ''emails:write'']"
| "scopesForRole R_admin = [''emails:read'', ''emails:write'']"
| "scopesForRole R_member = [''emails:read'', ''emails:write'']"
| "scopesForRole R_viewer = [''emails:read'']"

definition isTenantOperator :: "request_ctx \<Rightarrow> bool" where
  "isTenantOperator cx \<longleftrightarrow>
     (if cx_principal cx = P_user then cx_role cx = Some R_owner \<or> cx_role cx = Some R_admin
      else ''emails:*'' \<in> set (cx_scopes cx))"

definition resolve_api_key :: "svc_deps \<Rightarrow> arrival \<Rightarrow> string list \<Rightarrow> resolve_result act" where
  "resolve_api_key dp a required =
     ac_bind (call (sd_verify_api_key dp (ar_at a 0) (ar_request a) required)) (\<lambda>decision.
       case decision of
         Api_denied status message reason \<Rightarrow> ac_ret (Denied (fail status message reason))
       | Api_principal kid scopes tid \<Rightarrow>
           ac_bind (call (getApiKeyTenant kid)) (\<lambda>found.
             case found of
               None \<Rightarrow> ac_ret (Denied (fail 403 ''api key is not bound to a tenant'' ''no_tenant''))
             | Some tenant \<Rightarrow>
                 if tenant = [] then ac_ret (Denied (fail 403 ''api key is not bound to a tenant'' ''no_tenant''))
                 else if (case tid of None \<Rightarrow> False | Some t \<Rightarrow> t \<noteq> [] \<and> \<not> sd_same_tenant_id dp t tenant)
                 then ac_ret (Denied (fail 403 ''api key's signed tenant does not match its local tenant binding'' ''tenant_mismatch''))
                 else ac_ret (Resolved \<lparr> cx_tenant = tenant, cx_principal = P_apikey, cx_user = None, cx_role = None,
                        cx_global_role = None, cx_kid = Some kid, cx_sub = None, cx_scopes = scopes \<rparr>)))"

definition resolve_session :: "svc_deps \<Rightarrow> arrival \<Rightarrow> string \<Rightarrow> string list \<Rightarrow> resolve_result act" where
  "resolve_session dp a token required =
     ac_bind (call (resolveSession (sd_cfg dp) (ar_at a 0) token)) (\<lambda>found.
       case found of
         None \<Rightarrow> ac_ret (Denied (fail 401 ''session is invalid or expired'' ''reauthenticate''))
       | Some session \<Rightarrow>
           let scopes = scopesForRole (sx_role session) in
           if \<not> set required \<subseteq> set scopes
           then ac_ret (Denied (fail 403 ''insufficient scope for this operation'' ''insufficient_scope''))
           else ac_ret (Resolved \<lparr> cx_tenant = sx_tenant session, cx_principal = P_user, cx_user = Some (sx_user session),
                  cx_role = Some (sx_role session), cx_global_role = Some (sx_global_role session),
                  cx_kid = None, cx_sub = None, cx_scopes = scopes \<rparr>))"

definition no_ids :: idp_ids where
  "no_ids = \<lparr> ii_sub = None, ii_tid = None, ii_jti = None, ii_kid = None \<rparr>"

definition failure_text :: "verify_failure \<Rightarrow> string" where
  "failure_text f = (case f of Malformed \<Rightarrow> ''malformed'' | Unsupported_alg \<Rightarrow> ''unsupported_alg''
     | Unsupported_typ \<Rightarrow> ''unsupported_typ'' | Missing_kid \<Rightarrow> ''missing_kid'' | Unknown_kid \<Rightarrow> ''unknown_kid''
     | Bad_signature \<Rightarrow> ''bad_signature'' | Issuer_mismatch \<Rightarrow> ''issuer_mismatch''
     | Audience_mismatch \<Rightarrow> ''audience_mismatch'' | Token_expired \<Rightarrow> ''expired''
     | Not_yet_valid \<Rightarrow> ''not_yet_valid'' | Invalid_claims \<Rightarrow> ''invalid_claims'')"

definition deny :: "arrival \<Rightarrow> string list \<Rightarrow> idp_ids \<Rightarrow> nat \<Rightarrow> string \<Rightarrow> string \<Rightarrow> resolve_result act" where
  "deny a required ids status message reason =
     ac_bind (audit (ar_request a) required False status (Some reason) ids) (\<lambda>_.
       ac_ret (Denied (fail status message reason)))"

text \<open>From verified claims to a tenant: the grants of the subject, the most specific refusal first.\<close>

definition idp_mapping_context :: "svc_deps \<Rightarrow> arrival \<Rightarrow> string list \<Rightarrow> idp_ids \<Rightarrow> idp_claims \<Rightarrow> idp_mapping list
    \<Rightarrow> resolve_result act" where
  "idp_mapping_context dp a required ids claims mappings =
     (let matched = filter (\<lambda>m. im_idp_tid m = None \<or> im_idp_tid m = Some [] \<or> im_idp_tid m = Some (ic_tid claims)) mappings;
          live = filter (\<lambda>m. im_revoked m = None) matched;
          scopes = normalizeIdpScopes [] (ic_scope claims)
      in if mappings = [] then deny a required ids 403 ''idp principal is not mapped to a tenant'' ''no_tenant''
         else if matched = [] then deny a required ids 403 ''idp token tenant does not match the granted mapping'' ''idp_tenant_mismatch''
         else if live = [] then deny a required ids 403 ''idp principal access has been revoked'' ''idp_principal_revoked''
         else if 1 < length live then deny a required ids 403
            ''idp principal holds more than one live tenant grant; revoke all but one for this IdP tenant'' ''idp_grant_ambiguous''
         else if im_principal (hd live) \<noteq> ic_pt claims then deny a required ids 403
            ''idp token principal type does not match the granted mapping'' ''idp_principal_type_mismatch''
         else if \<not> sd_has_scopes dp scopes required then deny a required ids 403
            ''insufficient scope for this operation'' ''insufficient_scope''
         else ac_bind (audit (ar_request a) required True 200 None ids) (\<lambda>_.
           ac_ret (Resolved \<lparr> cx_tenant = im_tenant (hd live), cx_principal = P_idp, cx_user = None, cx_role = None,
             cx_global_role = None, cx_kid = None, cx_sub = Some (ic_sub claims), cx_scopes = scopes \<rparr>)))"

definition authenticate_idp :: "authenticator \<Rightarrow> arrival \<Rightarrow> string \<Rightarrow> auth_outcome act" where
  "authenticate_idp au a token s =
     (case authenticate au (ar_idp a) token (sv_keys s) of
        (c, Auth_throws) \<Rightarrow> (s\<lparr>sv_keys := c\<rparr>, Inl Other_error)
      | (c, r) \<Rightarrow> (s\<lparr>sv_keys := c\<rparr>, Inr r))"

definition resolveIdpContext :: "svc_deps \<Rightarrow> arrival \<Rightarrow> string list \<Rightarrow> string \<Rightarrow> resolve_result act" where
  "resolveIdpContext dp a required token =
     (let unverified = or_default (parseIdpClaimsUnverified (sd_decode dp) token) no_ids in
      case sd_authenticator dp of
        None \<Rightarrow> deny a required unverified 401
          ''idp tokens are not accepted by this deployment (no idp JWKS configured)'' ''idp_not_configured''
      | Some au \<Rightarrow>
          ac_bind (authenticate_idp au a token) (\<lambda>outcome.
            case outcome of
              Refused_401 f \<Rightarrow> deny a required unverified 401 ''idp token was refused'' (failure_text f)
            | Authenticated claims kid \<Rightarrow>
                ac_bind (call (listIdpPrincipalTenantsForSub (ic_sub claims))) (\<lambda>mappings.
                  idp_mapping_context dp a required \<lparr> ii_sub = Some (ic_sub claims), ii_tid = Some (ic_tid claims),
                    ii_jti = Some (ic_jti claims), ii_kid = Some kid \<rparr> claims mappings)
            | _ \<Rightarrow> deny a required unverified 503
                ''idp auth is temporarily unavailable (JWKS could not be fetched)'' ''jwks_unavailable''))"

definition resolveRequestContext :: "svc_deps \<Rightarrow> arrival \<Rightarrow> string list \<Rightarrow> resolve_result act" where
  "resolveRequestContext dp a required =
     (let token = or_default (sd_extract_token dp (rq_headers (ar_request a))) [] in
      if token = [] then ac_ret (Denied (fail 401 ''authentication required'' ''missing_token''))
      else if starts_with ''hasna_'' token then resolve_api_key dp a required
      else if starts_with ''emss_'' token then resolve_session dp a token required
      else if looksLikeIdpToken (sd_decode dp) token then resolveIdpContext dp a required token
      else ac_ret (Denied (fail 401 ''unrecognized credential'' ''malformed'')))"

end
