(* ===== verification/Auth_Service.thy ===== *)
theory Auth_Service
  imports Auth_Context
begin

text \<open>
  The handlers of src/server/self-hosted/auth/service.ts, one definition each, in the order
  of the file, and the public projections of rows they answer with.  Instants stand in
  response bodies as their milliseconds.
\<close>

section \<open>Projections\<close>

definition role_text :: "role \<Rightarrow> string" where
  "role_text r = (case r of R_owner \<Rightarrow> ''owner'' | R_admin \<Rightarrow> ''admin'' | R_member \<Rightarrow> ''member'' | R_viewer \<Rightarrow> ''viewer'')"

text \<open>\<open>isRole\<close>: the role a text names.\<close>

definition role_of :: "string \<Rightarrow> role option" where
  "role_of s = (if s = ''owner'' then Some R_owner else if s = ''admin'' then Some R_admin
     else if s = ''member'' then Some R_member else if s = ''viewer'' then Some R_viewer else None)"

definition toPublicUser :: "user_rec \<Rightarrow> json" where
  "toPublicUser u = JObj [(''id'', JStr (u_id u)), (''email'', JStr (u_email u)), (''name'', opt_str (u_name u)),
     (''status'', JStr (u_status u)), (''email_verified'', JBool (u_email_verified_at u \<noteq> None)),
     (''global_role'', JStr (if u_global_role u = G_user then ''user'' else ''super_admin'')),
     (''is_primary_super_admin'', JBool (u_primary_super_admin u)), (''created_at'', JNum (u_created_at u))]"

definition toPublicTenant :: "tenant_rec \<Rightarrow> json" where
  "toPublicTenant t = JObj [(''id'', JStr (tn_id t)), (''slug'', JStr (tn_slug t)), (''name'', JStr (tn_name t)),
     (''status'', JStr (tn_status t))]"

definition tenant_or :: "json \<Rightarrow> tenant_rec option \<Rightarrow> json" where
  "tenant_or d t = (case t of None \<Rightarrow> d | Some x \<Rightarrow> toPublicTenant x)"

section \<open>Shared guards\<close>

definition read_body :: "arrival \<Rightarrow> body_fields act" where
  "read_body a = readJsonBody (ar_request a)"

definition limited :: "arrival \<Rightarrow> string \<Rightarrow> string option list \<Rightarrow> response act \<Rightarrow> response act" where
  "limited a route keys k =
     ac_bind (limit_all (mo_now (ar_at a 0)) route keys) (\<lambda>rl.
       if rd_ok rl then k else ac_ret (retryLater (rd_retry rl)))"

text \<open>\<open>!email || !isAllowedSignupEmail(email, env)\<close>\<close>

definition email_refused :: "svc_deps \<Rightarrow> string \<Rightarrow> bool act" where
  "email_refused dp email =
     (if email = [] then ac_ret True
      else (case isAllowedSignupEmail (ev_allowed_domains (sd_env dp)) email of
              None \<Rightarrow> ac_throw Other_error
            | Some ok \<Rightarrow> ac_ret (\<not> ok)))"

definition with_ctx :: "svc_deps \<Rightarrow> arrival \<Rightarrow> string list \<Rightarrow> (request_ctx \<Rightarrow> response act) \<Rightarrow> response act" where
  "with_ctx dp a required k =
     ac_bind (resolveRequestContext dp a required) (\<lambda>r.
       case r of Denied resp \<Rightarrow> ac_ret resp | Resolved cx \<Rightarrow> k cx)"

text \<open>The user of a session principal; \<open>None\<close> for the other principals.\<close>

definition session_user :: "request_ctx \<Rightarrow> string option" where
  "session_user cx = (if cx_principal cx = P_user \<and> cx_user cx \<noteq> Some [] then cx_user cx else None)"

section \<open>Signup, login, verification, reset\<close>

definition signup_generic :: "string \<Rightarrow> response" where
  "signup_generic email = reply 200 [(''status'', JStr ''verification_required''), (''email'', JStr email),
     (''verification_required'', JBool True)]"

definition signup_create :: "svc_deps \<Rightarrow> arrival \<Rightarrow> body_fields \<Rightarrow> string \<Rightarrow> string \<Rightarrow> string \<Rightarrow> response act" where
  "signup_create dp a body email pw tenant_name =
     ac_bind (ac_try (call (createTenantWithOwner (ar_at a 1) email (hashPassword (sd_cfg dp) (ar_at a 1) pw)
         (or_null (str (body ''name''))) tenant_name (or_null (str (body ''tenant_slug'')))))) (\<lambda>created.
       case created of
         Inl e \<Rightarrow> if e = Store_error Email_Taken then ac_ret (signup_generic email) else ac_throw e
       | Inr (tenant, user, _) \<Rightarrow>
           ac_bind (call (seedTenantAgentSettings (sd_seed_fails dp) (tn_id tenant))) (\<lambda>_.
           ac_bind (call (createEmailVerification (sd_cfg dp) (ar_at a 2) (u_id user) email)) (\<lambda>v.
           ac_bind (send_mail Verification_mail email (mt_token v)) (\<lambda>_.
           ac_ret (signup_generic email)))))"

definition handleSignup :: "svc_deps \<Rightarrow> arrival \<Rightarrow> response act" where
  "handleSignup dp a =
     ac_bind (read_body a) (\<lambda>body.
       let email = js_lower (str (body ''email'')) in
       limited a ''signup'' [clientIp dp a, Some email] (
         ac_bind (email_refused dp email) (\<lambda>refused.
           if refused then ac_ret (fail 403 ''signups are restricted'' ''email_not_allowed'')
           else (case validatePassword (body ''password'') of
               Inl e \<Rightarrow> ac_ret (refuse 400 e)
             | Inr pw \<Rightarrow>
                 let tenant_name = str (body ''tenant_name'') in
                 if tenant_name = [] then ac_ret (refuse 400 ''tenant_name is required'')
                 else ac_bind (call (findUserByEmail email)) (\<lambda>existing.
                   if existing \<noteq> None then ac_ret (signup_generic email)
                   else signup_create dp a body email pw tenant_name)))))"

definition login_session :: "svc_deps \<Rightarrow> arrival \<Rightarrow> user_rec \<Rightarrow> tenant_rec \<times> role \<Rightarrow> response act" where
  "login_session dp a user chosen =
     ac_bind (call (createSession (sd_cfg dp) (ar_at a 3) (u_id user) (tn_id (fst chosen))
         (rq_headers (ar_request a) ''user-agent'') (clientIp dp a))) (\<lambda>session.
       ac_ret (reply 200 [(''session_token'', JStr (cs_token session)), (''expires_at'', JNum (cs_expires_at session)),
         (''user'', toPublicUser user), (''tenant'', toPublicTenant (fst chosen)), (''role'', JStr (role_text (snd chosen)))]))"

definition login_choose :: "svc_deps \<Rightarrow> arrival \<Rightarrow> body_fields \<Rightarrow> user_rec \<Rightarrow> response act" where
  "login_choose dp a body user =
     ac_bind (call (listTenantsForUser (u_id user))) (\<lambda>memberships.
       let slug = js_lower (str (body ''tenant_slug'')) in
       if memberships = [] then ac_ret (fail 403 ''your account is not a member of any organization'' ''no_tenant'')
       else if slug \<noteq> [] then
         (case find (\<lambda>m. tn_slug (fst m) = slug) memberships of
            None \<Rightarrow> ac_ret (fail 403 ''you are not a member of that organization'' ''not_a_member'')
          | Some chosen \<Rightarrow> login_session dp a user chosen)
       else if 1 < length memberships then
         ac_ret (reply 200 [(''needs_tenant'', JBool True), (''tenants'', JArr (map (\<lambda>m. JObj
           [(''slug'', JStr (tn_slug (fst m))), (''name'', JStr (tn_name (fst m))), (''role'', JStr (role_text (snd m)))]) memberships))])
       else login_session dp a user (hd memberships))"

definition login_verified :: "svc_deps \<Rightarrow> arrival \<Rightarrow> body_fields \<Rightarrow> string \<Rightarrow> string \<Rightarrow> user_rec \<Rightarrow> int option \<Rightarrow> response act" where
  "login_verified dp a body email password user verified_at =
     ac_bind (if needsRehash DEFAULT_ARGON2ID_PARAMS (u_password_hash user)
              then call (setPasswordHash (ar_at a 1) (u_id user) (hashPassword (sd_cfg dp) (ar_at a 1) password))
              else ac_ret ()) (\<lambda>_.
       if verified_at = None then ac_ret (fail 403 ''email is not verified'' ''email_unverified'')
       else ac_bind (call (clearFailedLogins (ar_at a 2) (u_id user))) (\<lambda>_.
            ac_bind (limit_reset ''login'' email) (\<lambda>_.
            login_choose dp a body user)))"

definition login_found :: "svc_deps \<Rightarrow> arrival \<Rightarrow> body_fields \<Rightarrow> string \<Rightarrow> string \<Rightarrow> (user_rec \<times> int option) option \<Rightarrow> response act" where
  "login_found dp a body email password found =
     (case found of
        None \<Rightarrow> ac_ret (fail 401 ''invalid email or password'' ''invalid_credentials'')
      | Some (user, verified_at) \<Rightarrow>
          if isLocked (ar_at a 0) user then ac_ret (fail 429 ''too many attempts; try again later'' ''locked'')
          else if \<not> verifyPasswordOrEqualizeTiming (cf_verify (sd_cfg dp)) password (Some (u_password_hash user))
                  \<or> u_status user \<noteq> ''active''
          then ac_bind (call (recordFailedLogin (ar_at a 1) (u_id user))) (\<lambda>_.
                 ac_ret (fail 401 ''invalid email or password'' ''invalid_credentials''))
          else login_verified dp a body email password user verified_at)"

definition body_password :: "body_fields \<Rightarrow> string" where
  "body_password body = (case body ''password'' of Some (JStr p) \<Rightarrow> p | _ \<Rightarrow> [])"

definition handleLogin :: "svc_deps \<Rightarrow> arrival \<Rightarrow> response act" where
  "handleLogin dp a =
     ac_bind (read_body a) (\<lambda>body.
       let email = js_lower (str (body ''email'')) in
       limited a ''login'' [clientIp dp a, Some email] (
         ac_bind (email_refused dp email) (\<lambda>refused.
           if refused then ac_ret (fail 403 ''login is restricted'' ''email_not_allowed'')
           else ac_bind (call (findUserByEmail email)) (login_found dp a body email (body_password body)))))"

definition handleVerifyEmail :: "svc_deps \<Rightarrow> arrival \<Rightarrow> response act" where
  "handleVerifyEmail dp a =
     ac_bind (if method_is (ar_request a) ''GET''
              then ac_ret (str (map_option JStr (rq_query (ar_request a) ''token'')))
              else ac_bind (read_body a) (\<lambda>body. ac_ret (str (body ''token'')))) (\<lambda>token.
       if token = [] then ac_ret (refuse 400 ''token is required'')
       else ac_bind (call (consumeEmailVerification (sd_cfg dp) (ar_at a 0) token)) (\<lambda>user.
         case user of
           None \<Rightarrow> ac_ret (fail 400 ''verification link is invalid or expired'' ''invalid_token'')
         | Some u \<Rightarrow> ac_ret (reply 200 [(''verified'', JBool True), (''user'', toPublicUser u)])))"

definition resend_generic :: response where
  "resend_generic = reply 200 [(''status'', JStr ''verification_required''), (''verification_required'', JBool True)]"

definition handleVerifyResend :: "svc_deps \<Rightarrow> arrival \<Rightarrow> response act" where
  "handleVerifyResend dp a =
     ac_bind (read_body a) (\<lambda>body.
       let email = js_lower (str (body ''email'')) in
       limited a ''verify-resend'' [clientIp dp a, Some email] (
         ac_bind (email_refused dp email) (\<lambda>refused.
           if refused then ac_ret resend_generic
           else ac_bind (call (findUserByEmail email)) (\<lambda>found.
             case found of
               Some (user, None) \<Rightarrow>
                 ac_bind (call (createEmailVerification (sd_cfg dp) (ar_at a 1) (u_id user) email)) (\<lambda>v.
                 ac_bind (send_mail Verification_mail email (mt_token v)) (\<lambda>_.
                 ac_ret resend_generic))
             | _ \<Rightarrow> ac_ret resend_generic))))"

definition forgot_generic :: response where
  "forgot_generic = reply 200 [(''status'', JStr ''reset_requested'')]"

definition handleForgot :: "svc_deps \<Rightarrow> arrival \<Rightarrow> response act" where
  "handleForgot dp a =
     ac_bind (read_body a) (\<lambda>body.
       let email = js_lower (str (body ''email'')) in
       limited a ''forgot'' [clientIp dp a, Some email] (
         ac_bind (email_refused dp email) (\<lambda>refused.
           if refused then ac_ret forgot_generic
           else ac_bind (call (findUserByEmail email)) (\<lambda>found.
             case found of
               Some (user, Some _) \<Rightarrow>
                 if u_status user = ''active''
                 then ac_bind (call (createPasswordReset (sd_cfg dp) (ar_at a 1) (u_id user))) (\<lambda>r.
                      ac_bind (send_mail Reset_mail email (mt_token r)) (\<lambda>_.
                      ac_ret forgot_generic))
                 else ac_ret forgot_generic
             | _ \<Rightarrow> ac_ret forgot_generic))))"

definition handleReset :: "svc_deps \<Rightarrow> arrival \<Rightarrow> response act" where
  "handleReset dp a =
     ac_bind (read_body a) (\<lambda>body.
       let token = str (body ''token'') in
       limited a ''reset'' [clientIp dp a] (
         if token = [] then ac_ret (refuse 400 ''token is required'')
         else (case validatePassword (body ''new_password'') of
             Inl e \<Rightarrow> ac_ret (refuse 400 e)
           | Inr pw \<Rightarrow>
               ac_bind (call (consumePasswordReset (sd_cfg dp) (ar_at a 1) token (hashPassword (sd_cfg dp) (ar_at a 1) pw))) (\<lambda>done.
                 if done then ac_ret (reply 200 [(''reset'', JBool True)])
                 else ac_ret (fail 400 ''reset link is invalid or expired'' ''invalid_token'')))))"

definition accept_and_join :: "svc_deps \<Rightarrow> arrival \<Rightarrow> body_fields \<Rightarrow> string \<Rightarrow> string option \<Rightarrow> response act" where
  "accept_and_join dp a body token hash =
     ac_bind (call (acceptInvitation (sd_cfg dp) (ar_at a 1) token hash (or_null (str (body ''name''))))) (\<lambda>result.
       case result of
         Needs_password \<Rightarrow> ac_ret (fail 400 ''a password is required'' ''needs_password'')
       | Invite_invalid \<Rightarrow> ac_ret (fail 400 ''invitation is invalid or expired'' ''invalid_token'')
       | Accepted user tenant_id r \<Rightarrow>
           ac_bind (call (getTenantById tenant_id)) (\<lambda>tenant.
           ac_bind (call (createSession (sd_cfg dp) (ar_at a 2) (u_id user) tenant_id
               (rq_headers (ar_request a) ''user-agent'') (clientIp dp a))) (\<lambda>session.
           ac_ret (reply 200 [(''session_token'', JStr (cs_token session)), (''expires_at'', JNum (cs_expires_at session)),
             (''user'', toPublicUser user), (''tenant'', tenant_or JNull tenant), (''role'', JStr (role_text r))]))))"

definition handleAcceptInvite :: "svc_deps \<Rightarrow> arrival \<Rightarrow> response act" where
  "handleAcceptInvite dp a =
     ac_bind (read_body a) (\<lambda>body.
       let token = str (body ''token'') in
       if token = [] then ac_ret (refuse 400 ''token is required'')
       else ac_bind (call (resolveInvitation (sd_cfg dp) (ar_at a 0) token)) (\<lambda>invite.
         case invite of
           None \<Rightarrow> ac_ret (fail 400 ''invitation is invalid or expired'' ''invalid_token'')
         | Some v \<Rightarrow>
             ac_bind (call (findUserByEmail (iv_email v))) (\<lambda>existing.
               if existing \<noteq> None then accept_and_join dp a body token None
               else (case validatePassword (body ''password'') of
                   Inl e \<Rightarrow> ac_ret (fail 400 e ''needs_password'')
                 | Inr pw \<Rightarrow> accept_and_join dp a body token (Some (hashPassword (sd_cfg dp) (ar_at a 1) pw))))))"

section \<open>Bootstrap\<close>

definition handleBootstrapOwner :: "svc_deps \<Rightarrow> arrival \<Rightarrow> response act" where
  "handleBootstrapOwner dp a = with_ctx dp a [''emails:write''] (\<lambda>cx.
     if cx_principal cx \<noteq> P_apikey then ac_ret (fail 403 ''bootstrap requires an api key'' ''apikey_required'')
     else ac_bind (read_body a) (\<lambda>body.
       let email = js_lower (str (body ''email'')) in
       ac_bind (email_refused dp email) (\<lambda>refused.
         if refused then ac_ret (fail 403 ''owner email is restricted'' ''email_not_allowed'')
         else (case validatePassword (body ''password'') of
             Inl e \<Rightarrow> ac_ret (refuse 400 e)
           | Inr pw \<Rightarrow>
               ac_bind (call (bootstrapOwner (ar_at a 1) (cx_tenant cx) email (hashPassword (sd_cfg dp) (ar_at a 1) pw)
                   (or_null (str (body ''name''))))) (\<lambda>result.
                 case result of
                   Owner_exists \<Rightarrow> ac_ret (fail 409 ''this tenant already has an owner'' ''owner_exists'')
                 | Boot_email_taken \<Rightarrow> ac_ret (fail 409 ''an account with that email already exists'' ''email_taken'')
                 | Boot_user user \<Rightarrow>
                     ac_bind (call (getTenantById (cx_tenant cx))) (\<lambda>tenant.
                     ac_bind (call (seedTenantAgentSettings (sd_seed_fails dp) (cx_tenant cx))) (\<lambda>_.
                     ac_ret (reply 201 [(''user'', toPublicUser user), (''tenant'', tenant_or JNull tenant)]))))))))"

text \<open>\<open>/^[^@\s]+@[^@\s]+$/\<close>\<close>

definition plain_address :: "string \<Rightarrow> bool" where
  "plain_address s \<longleftrightarrow> (case split_on CHR ''@'' s of
     [u, d] \<Rightarrow> u \<noteq> [] \<and> d \<noteq> [] \<and> \<not> list_ex is_ws s | _ \<Rightarrow> False)"

definition configuredPrimarySuperAdminEmail :: "auth_env \<Rightarrow> string option" where
  "configuredPrimarySuperAdminEmail ev =
     (let v = js_lower (js_trim (or_default (ev_super_admin_email ev) [])) in
      if v \<noteq> [] \<and> plain_address v then Some v else None)"

definition configuredPrimarySuperAdminBootstrapKid :: "auth_env \<Rightarrow> string option" where
  "configuredPrimarySuperAdminBootstrapKid ev = or_null (js_trim (or_default (ev_super_admin_kid ev) []))"

definition super_admin_answer :: "svc_deps \<Rightarrow> string \<Rightarrow> (user_rec \<times> bool) option \<Rightarrow> response act" where
  "super_admin_answer dp tenant_id result =
     (case result of
        None \<Rightarrow> ac_ret (fail 409 ''a different primary super-admin already exists'' ''primary_exists'')
      | Some (user, created) \<Rightarrow>
          ac_bind (call (getTenantById tenant_id)) (\<lambda>tenant.
          ac_bind (call (seedTenantAgentSettings (sd_seed_fails dp) tenant_id)) (\<lambda>_.
          ac_ret (reply (if created then 201 else 200) [(''created'', JBool created),
            (''user'', toPublicUser user), (''tenant'', tenant_or JNull tenant)]))))"

definition handleBootstrapSuperAdmin :: "svc_deps \<Rightarrow> arrival \<Rightarrow> response act" where
  "handleBootstrapSuperAdmin dp a = with_ctx dp a [''emails:write''] (\<lambda>cx.
     if cx_principal cx \<noteq> P_apikey \<or> cx_kid cx = None \<or> cx_kid cx = Some []
     then ac_ret (fail 403 ''bootstrap requires an operator api key'' ''apikey_required'')
     else (case (configuredPrimarySuperAdminEmail (sd_env dp), configuredPrimarySuperAdminBootstrapKid (sd_env dp)) of
         (Some email, Some kid) \<Rightarrow>
           if cx_kid cx \<noteq> Some kid then ac_ret (fail 403 ''api key is not authorized for primary bootstrap'' ''bootstrap_key_forbidden'')
           else ac_bind (read_body a) (\<lambda>body.
             let requested = js_lower (str (body ''email'')) in
             if requested \<noteq> [] \<and> requested \<noteq> email
             then ac_ret (fail 403 ''bootstrap email does not match operator configuration'' ''email_mismatch'')
             else (case validatePassword (body ''password'') of
                 Inl e \<Rightarrow> ac_ret (refuse 400 e)
               | Inr pw \<Rightarrow>
                   ac_bind (call (bootstrapPrimarySuperAdmin (ar_at a 1) (cx_tenant cx) email
                       (hashPassword (sd_cfg dp) (ar_at a 1) pw) kid (or_null (str (body ''name''))))) (super_admin_answer dp (cx_tenant cx))))
       | _ \<Rightarrow> ac_ret (fail 503 ''primary super-admin bootstrap is not configured'' ''bootstrap_not_configured'')))"

section \<open>Session lifecycle and the signed-in user\<close>

definition bearer :: "svc_deps \<Rightarrow> arrival \<Rightarrow> string" where
  "bearer dp a = or_default (sd_extract_token dp (rq_headers (ar_request a))) []"

text \<open>\<open>if (token) await revokeSessionByToken(token)\<close>\<close>

definition revoke_bearer :: "svc_deps \<Rightarrow> arrival \<Rightarrow> unit act" where
  "revoke_bearer dp a =
     (if bearer dp a = [] then ac_ret ()
      else call (revokeSessionByToken (sd_cfg dp) (ar_at a 1) (bearer dp a)))"

definition handleLogout :: "svc_deps \<Rightarrow> arrival \<Rightarrow> response act" where
  "handleLogout dp a = with_ctx dp a [] (\<lambda>cx.
     if cx_principal cx \<noteq> P_user then ac_ret (fail 400 ''not a session'' ''not_session'')
     else ac_bind (revoke_bearer dp a) (\<lambda>_. ac_ret (reply 200 [(''logged_out'', JBool True)])))"

definition handleLogoutAll :: "svc_deps \<Rightarrow> arrival \<Rightarrow> response act" where
  "handleLogoutAll dp a = with_ctx dp a [] (\<lambda>cx.
     case session_user cx of
       None \<Rightarrow> ac_ret (fail 400 ''not a session'' ''not_session'')
     | Some user \<Rightarrow> ac_bind (call (revokeAllUserSessions (ar_at a 1) user)) (\<lambda>_.
         ac_ret (reply 200 [(''logged_out'', JBool True)])))"

definition texts :: "string list \<Rightarrow> json" where
  "texts ss = JArr (map JStr ss)"

definition membership_json :: "tenant_rec \<times> role \<Rightarrow> json" where
  "membership_json m = JObj [(''tenant_id'', JStr (tn_id (fst m))), (''slug'', JStr (tn_slug (fst m))),
     (''name'', JStr (tn_name (fst m))), (''role'', JStr (role_text (snd m)))]"

definition identity_fields :: "identity_rec \<Rightarrow> (string \<times> json) list" where
  "identity_fields i = [(''id'', JStr (ei_id i)), (''email'', JStr (ei_email i)), (''is_primary'', JBool (ei_primary i)),
     (''verified'', JBool (ei_verified_at i \<noteq> None))]"

definition user_me :: "request_ctx \<Rightarrow> json \<Rightarrow> response act" where
  "user_me cx tenant =
     ac_bind (case session_user cx of None \<Rightarrow> ac_ret None | Some u \<Rightarrow> call (getUserById u)) (\<lambda>user.
     ac_bind (case session_user cx of None \<Rightarrow> ac_ret [] | Some u \<Rightarrow> call (listTenantsForUser u)) (\<lambda>memberships.
     ac_bind (case session_user cx of None \<Rightarrow> ac_ret [] | Some u \<Rightarrow> call (listUserEmailIdentities u)) (\<lambda>emails.
     ac_ret (reply 200 [(''principal_type'', JStr ''user''),
       (''user'', case user of None \<Rightarrow> JNull | Some u \<Rightarrow> toPublicUser u), (''tenant'', tenant),
       (''role'', opt_str (map_option role_text (cx_role cx))), (''scopes'', texts (cx_scopes cx)),
       (''memberships'', JArr (map membership_json memberships)),
       (''email_identities'', JArr (map (JObj \<circ> identity_fields) emails))]))))"

definition handleMe :: "svc_deps \<Rightarrow> arrival \<Rightarrow> response act" where
  "handleMe dp a = with_ctx dp a [''emails:read''] (\<lambda>cx.
     ac_bind (call (getTenantById (cx_tenant cx))) (\<lambda>found.
       let tenant = tenant_or (JObj [(''id'', JStr (cx_tenant cx))]) found in
       case cx_principal cx of
         P_idp \<Rightarrow> ac_ret (reply 200 [(''principal_type'', JStr ''idp''), (''sub'', opt_str (cx_sub cx)),
           (''tenant'', tenant), (''scopes'', texts (cx_scopes cx))])
       | P_apikey \<Rightarrow> ac_ret (reply 200 [(''principal_type'', JStr ''apikey''), (''kid'', opt_str (cx_kid cx)),
           (''tenant'', tenant), (''scopes'', texts (cx_scopes cx))])
       | P_user \<Rightarrow> user_me cx tenant))"

definition requireUserSession :: "svc_deps \<Rightarrow> arrival \<Rightarrow> bool \<Rightarrow> (string \<Rightarrow> response act) \<Rightarrow> response act" where
  "requireUserSession dp a write k = with_ctx dp a [if write then ''emails:write'' else ''emails:read''] (\<lambda>cx.
     case session_user cx of
       None \<Rightarrow> ac_ret (fail 403 ''session required'' ''session_required'')
     | Some user \<Rightarrow> k user)"

definition handleListEmailIdentities :: "svc_deps \<Rightarrow> arrival \<Rightarrow> response act" where
  "handleListEmailIdentities dp a = requireUserSession dp a False (\<lambda>user.
     ac_bind (call (listUserEmailIdentities user)) (\<lambda>is.
       ac_ret (reply 200 [(''email_identities'',
         JArr (map (\<lambda>i. JObj (identity_fields i @ [(''created_at'', JNum (ei_created_at i))])) is))])))"

definition handleAddEmailIdentity :: "svc_deps \<Rightarrow> arrival \<Rightarrow> response act" where
  "handleAddEmailIdentity dp a = requireUserSession dp a True (\<lambda>user.
     ac_bind (read_body a) (\<lambda>body.
       let email = js_lower (str (body ''email'')) in
       ac_bind (email_refused dp email) (\<lambda>refused.
         if refused then ac_ret (fail 403 ''that email domain is not allowed'' ''email_not_allowed'')
         else ac_bind (call (findUserByEmail email)) (\<lambda>existing.
           if existing \<noteq> None then ac_ret (fail 409 ''email identity is already registered'' ''email_taken'')
           else ac_bind (call (addUserEmailIdentity (ar_at a 1) user email)) (\<lambda>i.
                ac_bind (call (createEmailVerification (sd_cfg dp) (ar_at a 2) user email)) (\<lambda>v.
                ac_bind (send_mail Verification_mail email (mt_token v)) (\<lambda>_.
                ac_ret (reply 201 [(''email_identity'', JObj [(''id'', JStr (ei_id i)), (''email'', JStr (ei_email i)),
                    (''is_primary'', JBool False), (''verified'', JBool False)]),
                  (''verification_required'', JBool True)]))))))))"

definition handleMakePrimaryEmailIdentity :: "svc_deps \<Rightarrow> arrival \<Rightarrow> string \<Rightarrow> response act" where
  "handleMakePrimaryEmailIdentity dp a identity_id = requireUserSession dp a True (\<lambda>user.
     ac_bind (call (makePrimaryEmailIdentity (ar_at a 1) user identity_id)) (\<lambda>found.
       case found of
         None \<Rightarrow> ac_ret (fail 409 ''email identity must exist and be verified'' ''identity_unverified'')
       | Some i \<Rightarrow> ac_ret (reply 200 [(''email_identity'', JObj [(''id'', JStr (ei_id i)), (''email'', JStr (ei_email i)),
           (''is_primary'', JBool True), (''verified'', JBool True)])])))"

definition handleDeleteEmailIdentity :: "svc_deps \<Rightarrow> arrival \<Rightarrow> string \<Rightarrow> response act" where
  "handleDeleteEmailIdentity dp a identity_id = requireUserSession dp a True (\<lambda>user.
     ac_bind (call (removeUserEmailIdentity user identity_id)) (\<lambda>removed.
       if removed then ac_ret (reply 200 [(''removed'', JBool True), (''id'', JStr identity_id)])
       else ac_ret (fail 409 ''primary or unknown email identity cannot be removed'' ''identity_not_removable'')))"

definition handleSwitchTenant :: "svc_deps \<Rightarrow> arrival \<Rightarrow> response act" where
  "handleSwitchTenant dp a = with_ctx dp a [''emails:read''] (\<lambda>cx.
     case session_user cx of
       None \<Rightarrow> ac_ret (fail 400 ''not a session'' ''not_session'')
     | Some user \<Rightarrow> ac_bind (read_body a) (\<lambda>body.
         let slug = js_lower (str (body ''tenant_slug'')) in
         if slug = [] then ac_ret (refuse 400 ''tenant_slug is required'')
         else ac_bind (call (getTenantBySlug slug)) (\<lambda>found.
           case found of
             None \<Rightarrow> ac_ret (fail 404 ''organization not found'' ''not_found'')
           | Some tenant \<Rightarrow>
               if tn_status tenant \<noteq> ''active'' then ac_ret (fail 404 ''organization not found'' ''not_found'')
               else ac_bind (call (getMembership user (tn_id tenant))) (\<lambda>membership.
                 case membership of
                   None \<Rightarrow> ac_ret (fail 403 ''you are not a member of that organization'' ''not_a_member'')
                 | Some m \<Rightarrow>
                     ac_bind (revoke_bearer dp a) (\<lambda>_.
                     ac_bind (call (createSession (sd_cfg dp) (ar_at a 2) user (tn_id tenant)
                         (rq_headers (ar_request a) ''user-agent'') (clientIp dp a))) (\<lambda>session.
                     ac_ret (reply 200 [(''session_token'', JStr (cs_token session)), (''expires_at'', JNum (cs_expires_at session)),
                       (''tenant'', toPublicTenant tenant), (''role'', JStr (role_text (mb_role m)))])))))))"

section \<open>Tenants and memberships\<close>

definition callerMembership :: "request_ctx \<Rightarrow> string \<Rightarrow> membership_rec option act" where
  "callerMembership cx tenant_id =
     (case session_user cx of None \<Rightarrow> ac_ret None | Some user \<Rightarrow> call (getMembership user tenant_id))"

definition manages :: "membership_rec option \<Rightarrow> bool" where
  "manages m \<longleftrightarrow> (case m of None \<Rightarrow> False | Some x \<Rightarrow> mb_role x = R_owner \<or> mb_role x = R_admin)"

definition owns :: "membership_rec option \<Rightarrow> bool" where
  "owns m \<longleftrightarrow> (case m of None \<Rightarrow> False | Some x \<Rightarrow> mb_role x = R_owner)"

definition handleListTenants :: "svc_deps \<Rightarrow> arrival \<Rightarrow> response act" where
  "handleListTenants dp a = with_ctx dp a [''emails:read''] (\<lambda>cx.
     case session_user cx of
       None \<Rightarrow> ac_ret (fail 403 ''session required'' ''session_required'')
     | Some user \<Rightarrow> ac_bind (call (listTenantsForUser user)) (\<lambda>ts.
         ac_ret (reply 200 [(''tenants'', JArr (map (\<lambda>t. JObj [(''id'', JStr (tn_id (fst t))), (''slug'', JStr (tn_slug (fst t))),
           (''name'', JStr (tn_name (fst t))), (''status'', JStr (tn_status (fst t))), (''role'', JStr (role_text (snd t)))]) ts))])))"

definition handleCreateTenant :: "svc_deps \<Rightarrow> arrival \<Rightarrow> response act" where
  "handleCreateTenant dp a = with_ctx dp a [''emails:write''] (\<lambda>cx.
     case session_user cx of
       None \<Rightarrow> ac_ret (fail 403 ''only a user can create an organization'' ''session_required'')
     | Some user \<Rightarrow> ac_bind (read_body a) (\<lambda>body.
         let name = str (body ''name'') in
         if name = [] then ac_ret (refuse 400 ''name is required'')
         else ac_bind (call (createTenantForUser (ar_at a 1) user name (or_null (str (body ''slug''))))) (\<lambda>(tenant, m).
              ac_bind (call (seedTenantAgentSettings (sd_seed_fails dp) (tn_id tenant))) (\<lambda>_.
              ac_ret (reply 201 [(''tenant'', toPublicTenant tenant), (''role'', JStr (role_text (mb_role m)))])))))"

definition handleGetTenant :: "svc_deps \<Rightarrow> arrival \<Rightarrow> string \<Rightarrow> response act" where
  "handleGetTenant dp a tenant_id = with_ctx dp a [''emails:read''] (\<lambda>cx.
     ac_bind (callerMembership cx tenant_id) (\<lambda>membership.
       let principal_owns = (cx_principal cx \<noteq> P_user \<and> cx_tenant cx = tenant_id) in
       if membership = None \<and> \<not> principal_owns then ac_ret (fail 404 ''organization not found'' ''not_found'')
       else ac_bind (call (getTenantById tenant_id)) (\<lambda>found.
         case found of
           None \<Rightarrow> ac_ret (fail 404 ''organization not found'' ''not_found'')
         | Some tenant \<Rightarrow> ac_ret (reply 200 ((''tenant'', toPublicTenant tenant)
             # (case membership of None \<Rightarrow> [] | Some m \<Rightarrow> [(''role'', JStr (role_text (mb_role m)))]))))))"

definition text_field :: "json option \<Rightarrow> string option" where
  "text_field v = (case v of Some (JStr s) \<Rightarrow> Some s | _ \<Rightarrow> None)"

definition handleUpdateTenant :: "svc_deps \<Rightarrow> arrival \<Rightarrow> string \<Rightarrow> response act" where
  "handleUpdateTenant dp a tenant_id = with_ctx dp a [''emails:write''] (\<lambda>cx.
     ac_bind (callerMembership cx tenant_id) (\<lambda>membership.
       if \<not> manages membership then ac_ret (fail 403 ''owner or admin required'' ''forbidden'')
       else ac_bind (read_body a) (\<lambda>body.
         if text_field (body ''status'') \<noteq> None \<and> \<not> owns membership
         then ac_ret (fail 403 ''owner required to change status'' ''forbidden'')
         else ac_bind (call (updateTenant (ar_at a 1) tenant_id \<lparr> tp_name = text_field (body ''name''),
                  tp_slug = text_field (body ''slug''), tp_status = text_field (body ''status'') \<rparr>)) (\<lambda>found.
           case found of
             None \<Rightarrow> ac_ret (refuse 404 ''organization not found'')
           | Some tenant \<Rightarrow> ac_ret (reply 200 [(''tenant'', toPublicTenant tenant)])))))"

definition handleDeleteTenant :: "svc_deps \<Rightarrow> arrival \<Rightarrow> string \<Rightarrow> response act" where
  "handleDeleteTenant dp a tenant_id = with_ctx dp a [''emails:write''] (\<lambda>cx.
     ac_bind (callerMembership cx tenant_id) (\<lambda>membership.
       if \<not> owns membership then ac_ret (fail 403 ''owner required'' ''forbidden'')
       else ac_bind (call (suspendTenant tenant_id)) (\<lambda>done.
         if done then ac_ret (reply 200 [(''suspended'', JBool True), (''id'', JStr tenant_id)])
         else ac_ret (refuse 404 ''organization not found''))))"

definition handleListMembers :: "svc_deps \<Rightarrow> arrival \<Rightarrow> string \<Rightarrow> response act" where
  "handleListMembers dp a tenant_id = with_ctx dp a [''emails:read''] (\<lambda>cx.
     ac_bind (callerMembership cx tenant_id) (\<lambda>membership.
       if \<not> manages membership then ac_ret (fail 403 ''owner or admin required'' ''forbidden'')
       else ac_bind (call (listMemberships tenant_id)) (\<lambda>ms.
         ac_ret (reply 200 [(''members'', JArr (map (\<lambda>(m, u). JObj [(''id'', JStr (mb_id m)), (''user_id'', JStr (mb_user m)),
           (''email'', JStr (u_email u)), (''name'', opt_str (u_name u)), (''role'', JStr (role_text (mb_role m))),
           (''status'', JStr (mb_status m)), (''created_at'', JNum (mb_created_at m))]) ms))]))))"

text \<open>\<open>str(body.role) || "member"\<close>: the roles an invitation may carry.\<close>

definition invited_role :: "string \<Rightarrow> role option" where
  "invited_role raw = (if raw = [] then Some R_member else if raw = ''viewer'' then None else role_of raw)"

definition handleCreateInvite :: "svc_deps \<Rightarrow> arrival \<Rightarrow> string \<Rightarrow> response act" where
  "handleCreateInvite dp a tenant_id = with_ctx dp a [''emails:write''] (\<lambda>cx.
     ac_bind (callerMembership cx tenant_id) (\<lambda>membership.
       if \<not> manages membership then ac_ret (fail 403 ''owner or admin required'' ''forbidden'')
       else ac_bind (read_body a) (\<lambda>body.
         let email = js_lower (str (body ''email'')) in
         if email = [] then ac_ret (refuse 400 ''email is required'')
         else ac_bind (email_refused dp email) (\<lambda>refused.
           if refused then ac_ret (fail 403 ''that email domain is not allowed'' ''email_not_allowed'')
           else (case invited_role (str (body ''role'')) of
               None \<Rightarrow> ac_ret (refuse 400 ''invalid role; must be owner, admin, or member'')
             | Some r \<Rightarrow>
                 if r = R_owner \<and> \<not> owns membership
                 then ac_ret (fail 403 ''only an owner can invite an owner'' ''forbidden'')
                 else limited a ''invite'' [Some tenant_id] (
                   ac_bind (call (createInvitation (sd_cfg dp) (ar_at a 1) tenant_id email r (cx_user cx))) (\<lambda>invite.
                   ac_bind (call (getTenantById tenant_id)) (\<lambda>tenant.
                   ac_bind (send_mail (Invitation_mail (case tenant of None \<Rightarrow> ''your organization'' | Some t \<Rightarrow> tn_name t))
                       email (mt_token invite)) (\<lambda>_.
                   ac_ret (reply 201 [(''invited'', JBool True), (''email'', JStr email), (''role'', JStr (role_text r)),
                     (''expires_at'', JNum (mt_expires_at invite))]))))))))))"

definition handleListInvites :: "svc_deps \<Rightarrow> arrival \<Rightarrow> string \<Rightarrow> response act" where
  "handleListInvites dp a tenant_id = with_ctx dp a [''emails:read''] (\<lambda>cx.
     ac_bind (callerMembership cx tenant_id) (\<lambda>membership.
       if \<not> manages membership then ac_ret (fail 403 ''owner or admin required'' ''forbidden'')
       else ac_bind (call (listInvitations tenant_id)) (\<lambda>vs.
         ac_ret (reply 200 [(''invites'', JArr (map (\<lambda>v. JObj [(''id'', JStr (iv_id v)), (''email'', JStr (iv_email v)),
           (''role'', JStr (role_text (iv_role v))), (''expires_at'', JNum (iv_expires_at v)),
           (''accepted_at'', opt_num (iv_accepted_at v)), (''created_at'', JNum (iv_created_at v))]) vs))]))))"

definition with_target :: "svc_deps \<Rightarrow> arrival \<Rightarrow> string \<Rightarrow>
    (membership_rec \<Rightarrow> membership_rec option \<Rightarrow> response act) \<Rightarrow> response act" where
  "with_target dp a membership_id k = with_ctx dp a [''emails:write''] (\<lambda>cx.
     ac_bind (call (getMembershipById membership_id)) (\<lambda>found.
       case found of
         None \<Rightarrow> ac_ret (fail 404 ''membership not found'' ''not_found'')
       | Some target \<Rightarrow>
           ac_bind (callerMembership cx (mb_tenant target)) (\<lambda>membership.
             if \<not> manages membership then ac_ret (fail 403 ''owner or admin required'' ''forbidden'')
             else k target membership)))"

definition handleUpdateMembership :: "svc_deps \<Rightarrow> arrival \<Rightarrow> string \<Rightarrow> response act" where
  "handleUpdateMembership dp a membership_id = with_target dp a membership_id (\<lambda>target membership.
     ac_bind (read_body a) (\<lambda>body.
       case role_of (str (body ''role'')) of
         None \<Rightarrow> ac_ret (refuse 400 ''invalid role'')
       | Some r \<Rightarrow>
           if (r = R_owner \<or> mb_role target = R_owner) \<and> \<not> owns membership
           then ac_ret (fail 403 ''only an owner can grant or modify the owner role'' ''forbidden'')
           else ac_bind (call (changeMembershipRole (ar_at a 1) membership_id r)) (\<lambda>updated.
             case updated of
               None \<Rightarrow> ac_ret (refuse 404 ''membership not found'')
             | Some m \<Rightarrow> ac_ret (reply 200 [(''membership'', JObj [(''id'', JStr (mb_id m)),
                 (''role'', JStr (role_text (mb_role m))), (''status'', JStr (mb_status m))])]))))"

definition handleRemoveMembership :: "svc_deps \<Rightarrow> arrival \<Rightarrow> string \<Rightarrow> response act" where
  "handleRemoveMembership dp a membership_id = with_target dp a membership_id (\<lambda>target membership.
     if mb_role target = R_owner \<and> \<not> owns membership
     then ac_ret (fail 403 ''only an owner can remove an owner'' ''forbidden'')
     else ac_bind (call (removeMembership (ar_at a 1) membership_id)) (\<lambda>removed.
       if removed then ac_ret (reply 200 [(''removed'', JBool True), (''id'', JStr membership_id)])
       else ac_ret (refuse 404 ''membership not found'')))"

section \<open>API keys of a tenant\<close>

text \<open>\<open>validateEmailsScopes\<close> and \<open>issueSelfHostedApiKey\<close> of src/server/self-hosted/keys.ts.\<close>

definition valid_scopes :: "string list \<Rightarrow> bool" where
  "valid_scopes scopes \<longleftrightarrow> scopes \<noteq> [] \<and> list_all (\<lambda>s. s \<in> {''emails:read'', ''emails:write'', ''emails:*''}) scopes"

text \<open>The lifetime in days: absent, explicitly none, or a number.\<close>

datatype ttl_days = Ttl_absent | Ttl_none | Ttl_days int

definition issueSelfHostedApiKey :: "svc_deps \<Rightarrow> moment \<Rightarrow> string list option \<Rightarrow> ttl_days \<Rightarrow> string option \<Rightarrow> string \<Rightarrow> minted_key act" where
  "issueSelfHostedApiKey dp mo scopes ttl agent created_by =
     (let ss = js_unique (or_default scopes [''emails:*'']);
          days = (case ttl of Ttl_absent \<Rightarrow> Some 90 | Ttl_none \<Rightarrow> None | Ttl_days n \<Rightarrow> Some n)
      in if \<not> valid_scopes ss then ac_throw (Key_error ''Scopes must be one or more of emails:read, emails:write, or emails:*.'')
         else if (case days of None \<Rightarrow> False | Some n \<Rightarrow> n \<le> 0) then ac_throw (Key_error ''ttlDays must be a positive number or null.'')
         else let minted = sd_mint_key dp mo ''emails'' ss (map_option (\<lambda>n. n * 86400) days) agent
              in ac_bind (call (sd_insert_minted dp minted created_by)) (\<lambda>_. ac_ret minted))"

definition revokeSelfHostedApiKey :: "svc_deps \<Rightarrow> moment \<Rightarrow> string \<Rightarrow> string \<Rightarrow> bool act" where
  "revokeSelfHostedApiKey dp mo kid reason =
     (let normalized = js_trim kid in
      if normalized = [] then ac_throw (Key_error ''A key id is required.'')
      else call (sd_revoke_key dp mo normalized reason))"

definition admin_session :: "request_ctx \<Rightarrow> bool" where
  "admin_session cx \<longleftrightarrow> cx_principal cx = P_user \<and> (cx_role cx = Some R_owner \<or> cx_role cx = Some R_admin)"

text \<open>\<open>err.message\<close> of what minting can throw; the text of a database error is not modelled.\<close>

definition error_text :: "exn \<Rightarrow> string" where
  "error_text e = (case e of Key_error m \<Rightarrow> m | _ \<Rightarrow> ''could not mint key'')"

definition handleCreateKey :: "svc_deps \<Rightarrow> arrival \<Rightarrow> response act" where
  "handleCreateKey dp a = with_ctx dp a [''emails:write''] (\<lambda>cx.
     if session_user cx = None \<or> \<not> admin_session cx then ac_ret (fail 403 ''owner or admin required'' ''forbidden'')
     else ac_bind (read_body a) (\<lambda>body.
       let scopes = (case body ''scopes'' of Some (JArr ss) \<Rightarrow> Some (map js_String ss) | _ \<Rightarrow> None);
           ttl = (case body ''ttl_days'' of Some JNull \<Rightarrow> Ttl_none | Some (JNum n) \<Rightarrow> Ttl_days n | _ \<Rightarrow> Ttl_absent)
       in ac_bind (ac_try (issueSelfHostedApiKey dp (ar_at a 1) scopes ttl (Some (cx_tenant cx)) (the (session_user cx)))) (\<lambda>r.
         case r of
           Inl e \<Rightarrow> ac_ret (refuse 400 (error_text e))
         | Inr minted \<Rightarrow>
             ac_bind (call (bindApiKeyTenant (mk_kid minted) (cx_tenant cx) (session_user cx))) (\<lambda>_.
             ac_ret (reply 201 [(''token'', JStr (mk_token minted)), (''kid'', JStr (mk_kid minted)),
               (''scopes'', texts (mk_scopes minted)),
               (''expires_at'', case mk_exp minted of None \<Rightarrow> JNull | Some e \<Rightarrow> if e = 0 then JNull else JNum (e * 1000))])))))"

definition key_json :: "api_key_rec \<times> string option \<Rightarrow> json" where
  "key_json k = JObj [(''kid'', JStr (ak_kid (fst k))), (''app'', JStr (ak_app (fst k))), (''agent'', opt_str (ak_agent (fst k))),
     (''scopes'', texts (ak_scopes (fst k))), (''issued_at'', JNum (ak_issued_at (fst k))),
     (''expires_at'', opt_num (ak_expires_at (fst k))), (''revoked_at'', opt_num (ak_revoked_at (fst k))),
     (''last_used_at'', opt_num (ak_last_used_at (fst k))), (''created_by_user_id'', opt_str (snd k))]"

definition handleListKeys :: "svc_deps \<Rightarrow> arrival \<Rightarrow> response act" where
  "handleListKeys dp a = with_ctx dp a [''emails:read''] (\<lambda>cx.
     if \<not> admin_session cx then ac_ret (fail 403 ''owner or admin required'' ''forbidden'')
     else ac_bind (call (listApiKeysForTenant (cx_tenant cx))) (\<lambda>keys.
       ac_ret (reply 200 [(''keys'', JArr (map key_json keys))])))"

definition handleRevokeKey :: "svc_deps \<Rightarrow> arrival \<Rightarrow> string \<Rightarrow> response act" where
  "handleRevokeKey dp a kid = with_ctx dp a [''emails:write''] (\<lambda>cx.
     if \<not> admin_session cx then ac_ret (fail 403 ''owner or admin required'' ''forbidden'')
     else ac_bind (call (apiKeyBelongsToTenant kid (cx_tenant cx))) (\<lambda>mine.
       if \<not> mine then ac_ret (fail 404 ''key not found'' ''not_found'')
       else ac_bind (revokeSelfHostedApiKey dp (ar_at a 1) kid ''revoked by tenant admin'') (\<lambda>done.
         if done then ac_ret (reply 200 [(''revoked'', JBool True), (''kid'', JStr kid)])
         else ac_ret (refuse 404 ''key not found''))))"

section \<open>Grants of external principals\<close>

definition requireIdpPrincipalOperator :: "svc_deps \<Rightarrow> arrival \<Rightarrow> bool \<Rightarrow> (request_ctx \<Rightarrow> response act) \<Rightarrow> response act" where
  "requireIdpPrincipalOperator dp a write k = with_ctx dp a [if write then ''emails:write'' else ''emails:read''] (\<lambda>cx.
     if \<not> isTenantOperator cx
     then ac_ret (fail 403 ''managing idp principals requires a tenant owner, admin, or operator API key'' ''operator_required'')
     else k cx)"

definition kind_text :: "principal_kind \<Rightarrow> string" where
  "kind_text k = (case k of PK_user \<Rightarrow> ''user'' | PK_service \<Rightarrow> ''service'')"

definition handleListIdpPrincipals :: "svc_deps \<Rightarrow> arrival \<Rightarrow> response act" where
  "handleListIdpPrincipals dp a = requireIdpPrincipalOperator dp a False (\<lambda>cx.
     ac_bind (call (listIdpPrincipalTenants (cx_tenant cx))) (\<lambda>gs.
       ac_ret (reply 200 [(''idp_principals'', JArr (map (\<lambda>g. JObj [(''sub'', JStr (ig_sub g)),
         (''tenant_id'', JStr (ig_tenant g)), (''idp_tid'', opt_str (ig_idp_tid g)),
         (''principal_type'', JStr (kind_text (ig_principal g))), (''note'', opt_str (ig_note g)),
         (''created_at'', JNum (ig_created_at g)), (''revoked_at'', opt_num (ig_revoked_at g))]) gs))])))"

definition bad_principal_type :: string where
  "bad_principal_type = ''principal_type must be 'user' or 'service'' @ [CHR 0x27]"

definition handleGrantIdpPrincipal :: "svc_deps \<Rightarrow> arrival \<Rightarrow> response act" where
  "handleGrantIdpPrincipal dp a = requireIdpPrincipalOperator dp a True (\<lambda>cx.
     ac_bind (read_body a) (\<lambda>body.
       let sub = str (body ''sub''); raw = str (body ''principal_type''); kind = (if raw = [] then ''service'' else raw) in
       if sub = [] \<or> 200 < length sub
       then ac_ret (refuse 400 ''sub is required (the IdP principal id, at most 200 characters)'')
       else if kind \<noteq> ''user'' \<and> kind \<noteq> ''service'' then ac_ret (refuse 400 bad_principal_type)
       else ac_bind (call (upsertIdpPrincipalTenant (ar_at a 1) sub (cx_tenant cx) (or_null (str (body ''idp_tid'')))
              (Some (if kind = ''user'' then PK_user else PK_service)) (or_null (str (body ''note''))) (cx_user cx))) (\<lambda>granted.
         case granted of
           None \<Rightarrow> ac_ret (refuse 500 ''the grant could not be persisted'')
         | Some g \<Rightarrow> ac_ret (reply 201 ((''grant'', JObj [(''sub'', JStr (im_sub g)), (''tenant_id'', JStr (im_tenant g)),
             (''idp_tid'', opt_str (im_idp_tid g)), (''principal_type'', JStr (kind_text (im_principal g))),
             (''revoked_at'', opt_num (im_revoked g))])
             # (if im_revoked g = None then [] else [(''warning'',
                 JStr ''this grant is revoked; POST /v1/idp-principals/{sub}/restore to deliberately lift the kill switch'')]))))))"

definition handleRevokeIdpPrincipal :: "svc_deps \<Rightarrow> arrival \<Rightarrow> string \<Rightarrow> response act" where
  "handleRevokeIdpPrincipal dp a sub = requireIdpPrincipalOperator dp a True (\<lambda>cx.
     ac_bind (call (revokeIdpPrincipalTenant (ar_at a 1) sub (Some (cx_tenant cx)))) (\<lambda>revoked.
       if revoked then ac_ret (reply 200 [(''revoked'', JBool True), (''sub'', JStr sub)])
       else ac_ret (fail 404 ''no live idp principal grant for that sub in this organization'' ''not_found'')))"

definition handleRestoreIdpPrincipal :: "svc_deps \<Rightarrow> arrival \<Rightarrow> string \<Rightarrow> response act" where
  "handleRestoreIdpPrincipal dp a sub = requireIdpPrincipalOperator dp a True (\<lambda>cx.
     ac_bind (call (restoreIdpPrincipalTenant sub (cx_tenant cx))) (\<lambda>restored.
       if restored then ac_ret (reply 200 [(''restored'', JBool True), (''sub'', JStr sub)])
       else ac_ret (fail 404 ''no revoked idp principal grant for that sub in this organization'' ''not_found'')))"

end
