(* ===== verification/Auth_Routes.thy ===== *)
theory Auth_Routes
  imports Auth_Service
begin

text \<open>
  \<open>handleAuthRoutes\<close> of src/server/self-hosted/auth/service.ts: which handler a path and a
  method reach, and what a thrown error is answered with.  A path is taken apart at its
  slashes; a segment that stood for an id is percent-decoded, which may throw.
\<close>

section \<open>Paths\<close>

text \<open>\<open>pathname.replace(/\/+$/, "") || "/"\<close>\<close>

definition strip_slashes :: "string \<Rightarrow> string" where
  "strip_slashes p = (let q = rev (dropWhile (\<lambda>c. c = CHR ''/'') (rev p)) in if q = [] then ''/'' else q)"

definition starts :: "string \<Rightarrow> string \<Rightarrow> bool" where
  "starts p s \<longleftrightarrow> starts_with p s"

definition is_auth_path :: "string \<Rightarrow> bool" where
  "is_auth_path path \<longleftrightarrow>
     path = ''/v1/me'' \<or> starts ''/v1/me/'' path \<or> path = ''/v1/auth'' \<or> starts ''/v1/auth/'' path
     \<or> path = ''/v1/tenants'' \<or> starts ''/v1/tenants/'' path \<or> starts ''/v1/memberships/'' path
     \<or> path = ''/v1/invites/accept'' \<or> path = ''/v1/keys'' \<or> starts ''/v1/keys/'' path
     \<or> path = ''/v1/idp-principals'' \<or> starts ''/v1/idp-principals/'' path"

definition not_allowed :: "response act" where
  "not_allowed = ac_ret (refuse 405 ''method not allowed'')"

text \<open>The id in a path; a malformed escape throws.\<close>

definition decoded :: "svc_deps \<Rightarrow> string \<Rightarrow> (string \<Rightarrow> response act) \<Rightarrow> response act" where
  "decoded dp raw k = (case sd_decode_uri dp raw of None \<Rightarrow> ac_throw Other_error | Some x \<Rightarrow> k x)"

section \<open>Dispatch\<close>

text \<open>The endpoints named by a whole path; \<open>None\<close> goes on to the paths with an id.\<close>

definition fixed_route :: "svc_deps \<Rightarrow> arrival \<Rightarrow> string \<Rightarrow> response act option" where
  "fixed_route dp a path =
     (let is = method_is (ar_request a) in
      if path = ''/v1/auth/providers'' \<and> is ''GET''
      then Some (ac_ret (reply 200 [(''google'', JBool False), (''device'', JBool False)]))
      else if path = ''/v1/auth/signup'' \<and> is ''POST'' then Some (handleSignup dp a)
      else if path = ''/v1/auth/login'' \<and> is ''POST'' then Some (handleLogin dp a)
      else if path = ''/v1/auth/verify-email'' \<and> (is ''POST'' \<or> is ''GET'') then Some (handleVerifyEmail dp a)
      else if path = ''/v1/auth/verify-email/resend'' \<and> is ''POST'' then Some (handleVerifyResend dp a)
      else if path = ''/v1/auth/password/forgot'' \<and> is ''POST'' then Some (handleForgot dp a)
      else if path = ''/v1/auth/password/reset'' \<and> is ''POST'' then Some (handleReset dp a)
      else if path = ''/v1/invites/accept'' \<and> is ''POST'' then Some (handleAcceptInvite dp a)
      else if path = ''/v1/auth/bootstrap-owner'' \<and> is ''POST'' then Some (handleBootstrapOwner dp a)
      else if path = ''/v1/auth/bootstrap-super-admin'' \<and> is ''POST'' then Some (handleBootstrapSuperAdmin dp a)
      else if path = ''/v1/me'' \<and> is ''GET'' then Some (handleMe dp a)
      else if path = ''/v1/me/email-identities'' \<and> is ''GET'' then Some (handleListEmailIdentities dp a)
      else if path = ''/v1/me/email-identities'' \<and> is ''POST'' then Some (handleAddEmailIdentity dp a)
      else if path = ''/v1/auth/logout'' \<and> is ''POST'' then Some (handleLogout dp a)
      else if path = ''/v1/auth/logout-all'' \<and> is ''POST'' then Some (handleLogoutAll dp a)
      else if path = ''/v1/auth/switch-tenant'' \<and> is ''POST'' then Some (handleSwitchTenant dp a)
      else if path = ''/v1/tenants'' then
        Some (if is ''GET'' then handleListTenants dp a else if is ''POST'' then handleCreateTenant dp a else not_allowed)
      else if path = ''/v1/keys'' then
        Some (if is ''GET'' then handleListKeys dp a else if is ''POST'' then handleCreateKey dp a else not_allowed)
      else if path = ''/v1/idp-principals'' then
        Some (if is ''GET'' then handleListIdpPrincipals dp a else if is ''POST'' then handleGrantIdpPrincipal dp a else not_allowed)
      else None)"

text \<open>The endpoints with an id, by the segments behind \<open>/v1/\<close>; an empty segment is no id.\<close>

definition tenant_route :: "svc_deps \<Rightarrow> arrival \<Rightarrow> string list \<Rightarrow> response act" where
  "tenant_route dp a segs =
     (let is = method_is (ar_request a) in
      case segs of
        [i, what] \<Rightarrow>
          if i = [] then ac_ret (refuse 404 ''not found'')
          else if what = ''members'' then
            (if is ''GET'' then decoded dp i (handleListMembers dp a) else not_allowed)
          else if what = ''invites'' then decoded dp i (\<lambda>tenant_id.
            if is ''POST'' then handleCreateInvite dp a tenant_id
            else if is ''GET'' then handleListInvites dp a tenant_id else not_allowed)
          else ac_ret (refuse 404 ''not found'')
      | [i] \<Rightarrow>
          if i = [] then ac_ret (refuse 404 ''not found'')
          else decoded dp i (\<lambda>tenant_id.
            if is ''GET'' then handleGetTenant dp a tenant_id
            else if is ''PATCH'' \<or> is ''PUT'' then handleUpdateTenant dp a tenant_id
            else if is ''DELETE'' then handleDeleteTenant dp a tenant_id else not_allowed)
      | _ \<Rightarrow> ac_ret (refuse 404 ''not found''))"

definition membership_route :: "svc_deps \<Rightarrow> arrival \<Rightarrow> string list \<Rightarrow> response act" where
  "membership_route dp a segs =
     (let is = method_is (ar_request a) in
      case segs of
        [i] \<Rightarrow>
          if i = [] then ac_ret (refuse 404 ''not found'')
          else decoded dp i (\<lambda>membership_id.
            if is ''PATCH'' \<or> is ''PUT'' then handleUpdateMembership dp a membership_id
            else if is ''DELETE'' then handleRemoveMembership dp a membership_id else not_allowed)
      | _ \<Rightarrow> ac_ret (refuse 404 ''not found''))"

definition key_route :: "svc_deps \<Rightarrow> arrival \<Rightarrow> string list \<Rightarrow> response act" where
  "key_route dp a segs =
     (let is = method_is (ar_request a) in
      case segs of
        [i, what] \<Rightarrow>
          if i = [] \<or> what \<noteq> ''revoke'' then ac_ret (refuse 404 ''not found'')
          else if is ''POST'' then decoded dp i (handleRevokeKey dp a) else not_allowed
      | [i] \<Rightarrow>
          if i = [] then ac_ret (refuse 404 ''not found'')
          else if is ''DELETE'' then decoded dp i (handleRevokeKey dp a) else not_allowed
      | _ \<Rightarrow> ac_ret (refuse 404 ''not found''))"

definition idp_route :: "svc_deps \<Rightarrow> arrival \<Rightarrow> string list \<Rightarrow> response act" where
  "idp_route dp a segs =
     (let is = method_is (ar_request a) in
      case segs of
        [i, what] \<Rightarrow>
          if i = [] then ac_ret (refuse 404 ''not found'')
          else if what = ''revoke'' then
            (if is ''POST'' then decoded dp i (handleRevokeIdpPrincipal dp a) else not_allowed)
          else if what = ''restore'' then
            (if is ''POST'' then decoded dp i (handleRestoreIdpPrincipal dp a) else not_allowed)
          else ac_ret (refuse 404 ''not found'')
      | [i] \<Rightarrow>
          if i = [] then ac_ret (refuse 404 ''not found'')
          else if is ''DELETE'' then decoded dp i (handleRevokeIdpPrincipal dp a) else not_allowed
      | _ \<Rightarrow> ac_ret (refuse 404 ''not found''))"

definition identity_route :: "svc_deps \<Rightarrow> arrival \<Rightarrow> string list \<Rightarrow> response act" where
  "identity_route dp a segs =
     (let is = method_is (ar_request a) in
      case segs of
        [i, what] \<Rightarrow>
          if i \<noteq> [] \<and> what = ''primary'' \<and> is ''POST'' then decoded dp i (handleMakePrimaryEmailIdentity dp a)
          else ac_ret (refuse 404 ''not found'')
      | [i] \<Rightarrow>
          if i \<noteq> [] \<and> is ''DELETE'' then decoded dp i (handleDeleteEmailIdentity dp a)
          else ac_ret (refuse 404 ''not found'')
      | _ \<Rightarrow> ac_ret (refuse 404 ''not found''))"

definition id_route :: "svc_deps \<Rightarrow> arrival \<Rightarrow> string \<Rightarrow> response act" where
  "id_route dp a path =
     (case split_on CHR ''/'' path of
        e # v # what # rest \<Rightarrow>
          if e \<noteq> [] \<or> v \<noteq> ''v1'' then ac_ret (refuse 404 ''not found'')
          else if what = ''tenants'' then tenant_route dp a rest
          else if what = ''memberships'' then membership_route dp a rest
          else if what = ''keys'' then key_route dp a rest
          else if what = ''idp-principals'' then idp_route dp a rest
          else if what = ''me'' then
            (case rest of ids # rest' \<Rightarrow>
               if ids = ''email-identities'' then identity_route dp a rest' else ac_ret (refuse 404 ''not found'')
             | [] \<Rightarrow> ac_ret (refuse 404 ''not found''))
          else ac_ret (refuse 404 ''not found'')
      | _ \<Rightarrow> ac_ret (refuse 404 ''not found''))"

section \<open>Errors\<close>

definition error_response :: "exn \<Rightarrow> response" where
  "error_response e =
     (case e of
        Syntax_error \<Rightarrow> refuse 400 ''invalid request body''
      | Body_not_object \<Rightarrow> refuse 400 ''invalid request body''
      | Body_too_large \<Rightarrow> refuse 413 ''request body too large''
      | Store_error Last_Owner \<Rightarrow> fail 409 ''a tenant must always retain at least one active owner'' ''last_owner''
      | Store_error (Slug_Taken slug) \<Rightarrow> fail 409 (''tenant slug '' @ [CHR 0x27] @ slug @ [CHR 0x27] @ '' is already taken'') ''slug_taken''
      | Store_error Email_Taken \<Rightarrow> fail 409 ''an account with that email already exists'' ''email_taken''
      | _ \<Rightarrow> refuse 500 ''internal error'')"

definition catching :: "response act \<Rightarrow> response act" where
  "catching m s = (case m s of (s', Inl e) \<Rightarrow> (s', Inr (error_response e)) | (s', Inr r) \<Rightarrow> (s', Inr r))"

text \<open>\<open>None\<close>: the path belongs to another router.\<close>

definition handleAuthRoutes :: "svc_deps \<Rightarrow> arrival \<Rightarrow> response option act" where
  "handleAuthRoutes dp a =
     (let path = strip_slashes (rq_path (ar_request a)) in
      if \<not> is_auth_path path then ac_ret None
      else ac_bind (catching (case fixed_route dp a path of Some h \<Rightarrow> h | None \<Rightarrow> id_route dp a path)) (\<lambda>r. ac_ret (Some r)))"

end
