(* ===== verification/Auth_Store_Facts.thy ===== *)
theory Auth_Store_Facts
  imports Auth_Store
begin

text \<open>
  What the identity store guarantees whatever order its methods are called in.  A call of
  any method that writes is an \<open>auth_op\<close>; \<open>history\<close> is any sequence of such calls, made by
  any number of requests, at any instants and with any random values.
\<close>

section \<open>Histories\<close>

datatype auth_op =
    Do_upsertIdp string string "string option" "principal_kind option" "string option" "string option"
  | Do_revokeIdp string "string option"
  | Do_restoreIdp string string
  | Do_resolveSession string
  | Do_verifyLogin string string
  | Do_recordFailedLogin string
  | Do_clearFailedLogins string
  | Do_setPasswordHash string string
  | Do_createTenantWithOwner string string "string option" string "string option"
  | Do_createTenantForUser string string "string option"
  | Do_seedSettings "string \<Rightarrow> bool" string
  | Do_updateTenant string tenant_patch
  | Do_suspendTenant string
  | Do_changeRole string role
  | Do_removeMembership string
  | Do_addMembership string string role
  | Do_createSession string string "string option" "string option"
  | Do_revokeSession string
  | Do_revokeSessionByToken string
  | Do_revokeAllUserSessions string
  | Do_bindApiKey string string "string option"
  | Do_createVerification string string
  | Do_consumeVerification string
  | Do_addIdentity string string
  | Do_makePrimary string string
  | Do_removeIdentity string string
  | Do_createReset string
  | Do_consumeReset string string
  | Do_createInvitation string string role "string option"
  | Do_acceptInvitation string "string option" "string option"
  | Do_bootstrapOwner string string string "string option"
  | Do_bootstrapPrimary string string string string "string option"

definition forget :: "'a tx \<Rightarrow> unit tx" where
  "forget m = tx_bind m (\<lambda>_. tx_ret ())"

primrec exec :: "auth_cfg \<Rightarrow> moment \<Rightarrow> auth_op \<Rightarrow> unit tx" where
  "exec cf mo (Do_upsertIdp sub t tid k note by) = forget (upsertIdpPrincipalTenant mo sub t tid k note by)"
| "exec cf mo (Do_revokeIdp sub t) = forget (revokeIdpPrincipalTenant mo sub t)"
| "exec cf mo (Do_restoreIdp sub t) = forget (restoreIdpPrincipalTenant sub t)"
| "exec cf mo (Do_resolveSession tok) = forget (resolveSession cf mo tok)"
| "exec cf mo (Do_verifyLogin e p) = forget (verifyLogin cf mo e p)"
| "exec cf mo (Do_recordFailedLogin u) = forget (recordFailedLogin mo u)"
| "exec cf mo (Do_clearFailedLogins u) = forget (clearFailedLogins mo u)"
| "exec cf mo (Do_setPasswordHash u h) = forget (setPasswordHash mo u h)"
| "exec cf mo (Do_createTenantWithOwner e h n tn ts) = forget (createTenantWithOwner mo e h n tn ts)"
| "exec cf mo (Do_createTenantForUser u n sl) = forget (createTenantForUser mo u n sl)"
| "exec cf mo (Do_seedSettings f t) = forget (seedTenantAgentSettings f t)"
| "exec cf mo (Do_updateTenant t p) = forget (updateTenant mo t p)"
| "exec cf mo (Do_suspendTenant t) = forget (suspendTenant t)"
| "exec cf mo (Do_changeRole m r) = forget (changeMembershipRole mo m r)"
| "exec cf mo (Do_removeMembership m) = forget (removeMembership mo m)"
| "exec cf mo (Do_addMembership u t r) = forget (addMembership mo u t r)"
| "exec cf mo (Do_createSession u t a ip) = forget (createSession cf mo u t a ip)"
| "exec cf mo (Do_revokeSession i) = forget (revokeSession mo i)"
| "exec cf mo (Do_revokeSessionByToken tok) = forget (revokeSessionByToken cf mo tok)"
| "exec cf mo (Do_revokeAllUserSessions u) = forget (revokeAllUserSessions mo u)"
| "exec cf mo (Do_bindApiKey k t by) = forget (bindApiKeyTenant k t by)"
| "exec cf mo (Do_createVerification u e) = forget (createEmailVerification cf mo u e)"
| "exec cf mo (Do_consumeVerification tok) = forget (consumeEmailVerification cf mo tok)"
| "exec cf mo (Do_addIdentity u e) = forget (addUserEmailIdentity mo u e)"
| "exec cf mo (Do_makePrimary u i) = forget (makePrimaryEmailIdentity mo u i)"
| "exec cf mo (Do_removeIdentity u i) = forget (removeUserEmailIdentity u i)"
| "exec cf mo (Do_createReset u) = forget (createPasswordReset cf mo u)"
| "exec cf mo (Do_consumeReset tok h) = forget (consumePasswordReset cf mo tok h)"
| "exec cf mo (Do_createInvitation t e r by) = forget (createInvitation cf mo t e r by)"
| "exec cf mo (Do_acceptInvitation tok h n) = forget (acceptInvitation cf mo tok h n)"
| "exec cf mo (Do_bootstrapOwner t e h n) = forget (bootstrapOwner mo t e h n)"
| "exec cf mo (Do_bootstrapPrimary t e h k n) = forget (bootstrapPrimarySuperAdmin mo t e h k n)"

fun history :: "auth_cfg \<Rightarrow> (moment \<times> auth_op) list \<Rightarrow> auth_db \<Rightarrow> auth_db" where
  "history cf [] s = s"
| "history cf ((mo, op) # ops) s = history cf ops (fst (exec cf mo op s))"

lemma history_append: "history cf (as @ bs) s = history cf bs (history cf as s)"
  by (induction cf as s rule: history.induct) auto

lemma history_exec: "history cf [(mo, op)] s = fst (exec cf mo op s)"
  by simp

lemma forget_state: "fst (forget m s) = fst (m s)"
  by (simp add: forget_def tx_bind_def tx_ret_def split: prod.split sum.split)

text \<open>The methods, unfolded down to statements.\<close>

lemmas method_defs =
  upsertIdpPrincipalTenant_def revokeIdpPrincipalTenant_def restoreIdpPrincipalTenant_def
  resolveSession_def verifyLogin_def recordFailedLogin_def clearFailedLogins_def setPasswordHash_def
  createTenantWithOwner_def createTenantForUser_def seedTenantAgentSettings_def updateTenant_def
  suspendTenant_def changeMembershipRole_def removeMembership_def addMembership_def createSession_def
  revokeSession_def revokeSessionByToken_def revokeAllUserSessions_def revoke_sessions_def bindApiKeyTenant_def
  createEmailVerification_def consumeEmailVerification_def addUserEmailIdentity_def
  makePrimaryEmailIdentity_def removeUserEmailIdentity_def createPasswordReset_def
  consumePasswordReset_def createInvitation_def acceptInvitation_def bootstrapOwner_def
  bootstrapPrimarySuperAdmin_def resolveFreeSlug_def findUserByEmail_def getUserById_def
  getTenantById_def getMembershipById_def countActiveOwners_def resolveInvitation_def join_tenant_def
  insert_verified_user_def insert_super_admin_def promote_super_admin_def audit_bootstrap_def
  insert_org_def insert_user_def insert_identity_def insert_membership_def
  upsert_membership_def update_user_def Let_def

context tx_relation
begin

lemma keeps_forget: "keeps m \<Longrightarrow> keeps (forget m)"
  by (simp add: keeps_def forget_state)

lemma history_keeps: "(\<And>op. op \<in> snd ` set ops \<Longrightarrow> (\<And>mo. keeps (exec cf mo op))) \<Longrightarrow> R s (history cf ops s)"
proof (induction cf ops s rule: history.induct)
  case (2 cf mo op ops s)
  from 2(2) [of op mo] have "R s (fst (exec cf mo op s))" by (simp add: keeps_def)
  moreover from 2 have "R (fst (exec cf mo op s)) (history cf ops (fst (exec cf mo op s)))" by auto
  ultimately show ?case using R_trans by fastforce
qed (simp add: R_refl)

end

section \<open>Spent tokens stay spent\<close>

text \<open>
  A token is spent when a row with its hash exists and every such row is marked: a session
  revoked, a reset or verification token used, an invitation accepted.
\<close>

definition spent :: "('r \<Rightarrow> 'k) \<Rightarrow> ('r \<Rightarrow> int option) \<Rightarrow> 'k \<Rightarrow> 'r list \<Rightarrow> bool" where
  "spent key mark h t \<longleftrightarrow> (\<exists>r \<in> set t. key r = h) \<and> (\<forall>r \<in> set t. key r = h \<longrightarrow> mark r \<noteq> None)"

lemma spent_map_any:
  "(\<And>r. key (g r) = key r) \<Longrightarrow> (\<And>r. mark r \<noteq> None \<Longrightarrow> mark (g r) \<noteq> None) \<Longrightarrow> spent key mark h t \<Longrightarrow>
   spent key mark h (map g t)"
  by (auto simp: spent_def)

lemma spent_map:
  assumes "\<And>r. key (f r) = key r" "\<And>r. mark r \<noteq> None \<Longrightarrow> mark (f r) \<noteq> None" "spent key mark h t"
  shows "spent key mark h (map (\<lambda>r. if P r then f r else r) t)"
  by (rule spent_map_any [OF _ _ assms(3)]) (use assms(1,2) in auto)

lemma spent_snoc: "\<forall>r \<in> set t. key r \<noteq> key row \<Longrightarrow> spent key mark h t \<Longrightarrow> spent key mark h (t @ [row])"
  by (auto simp: spent_def)

lemma spent_filter:
  assumes "\<And>r. \<not> P r \<Longrightarrow> mark r = None" "spent key mark h t"
  shows "spent key mark h (filter P t)"
proof -
  from assms(2) obtain r where r: "r \<in> set t" "key r = h" "mark r \<noteq> None" unfolding spent_def by blast
  have "P r" using r(3) assms(1) [of r] by (cases "P r") simp_all
  with r assms(2) show ?thesis by (auto simp: spent_def)
qed

lemma spentD: "spent key mark h t \<Longrightarrow> r \<in> set t \<Longrightarrow> key r = h \<Longrightarrow> mark r \<noteq> None"
  by (simp add: spent_def)

text \<open>With unique hashes, one marked row suffices.\<close>

lemma spentI: "keyed key t \<Longrightarrow> r \<in> set t \<Longrightarrow> mark r \<noteq> None \<Longrightarrow> spent key mark (key r) t"
  by (auto simp: spent_def dest: keyed_same)

definition tokens_fade :: "auth_db \<Rightarrow> auth_db \<Rightarrow> bool" where
  "tokens_fade s s' \<longleftrightarrow> (\<forall>h.
     (spent se_token_hash se_revoked_at h (sessions s) \<longrightarrow> spent se_token_hash se_revoked_at h (sessions s'))
     \<and> (spent pr_token_hash pr_used_at h (reset_tokens s) \<longrightarrow> spent pr_token_hash pr_used_at h (reset_tokens s'))
     \<and> (spent vt_token_hash vt_used_at h (verify_tokens s) \<longrightarrow> spent vt_token_hash vt_used_at h (verify_tokens s'))
     \<and> (spent iv_token_hash iv_accepted_at h (invitations s) \<longrightarrow> spent iv_token_hash iv_accepted_at h (invitations s')))"

interpretation fade: tx_relation tokens_fade
  by unfold_locales (auto simp: tokens_fade_def)

lemma fade_other: "sessions s' = sessions s \<Longrightarrow> reset_tokens s' = reset_tokens s \<Longrightarrow>
  verify_tokens s' = verify_tokens s \<Longrightarrow> invitations s' = invitations s \<Longrightarrow> tokens_fade s s'"
  by (simp add: tokens_fade_def)

lemma fade_rules:
  "(\<And>r. se_token_hash (f1 r) = se_token_hash r) \<Longrightarrow> (\<And>r. se_revoked_at r \<noteq> None \<Longrightarrow> se_revoked_at (f1 r) \<noteq> None) \<Longrightarrow>
     tokens_fade s (sessions_update (map (\<lambda>r. if P1 r then f1 r else r)) s)"
  "(\<And>r. pr_token_hash (f2 r) = pr_token_hash r) \<Longrightarrow> (\<And>r. pr_used_at r \<noteq> None \<Longrightarrow> pr_used_at (f2 r) \<noteq> None) \<Longrightarrow>
     tokens_fade s (reset_tokens_update (map (\<lambda>r. if P2 r then f2 r else r)) s)"
  "(\<And>r. vt_token_hash (f3 r) = vt_token_hash r) \<Longrightarrow> (\<And>r. vt_used_at r \<noteq> None \<Longrightarrow> vt_used_at (f3 r) \<noteq> None) \<Longrightarrow>
     tokens_fade s (verify_tokens_update (map (\<lambda>r. if P3 r then f3 r else r)) s)"
  "(\<And>r. iv_token_hash (f4 r) = iv_token_hash r) \<Longrightarrow> (\<And>r. iv_accepted_at r \<noteq> None \<Longrightarrow> iv_accepted_at (f4 r) \<noteq> None) \<Longrightarrow>
     tokens_fade s (invitations_update (map (\<lambda>r. if P4 r then f4 r else r)) s)"
  "\<forall>r \<in> set (sessions s). se_token_hash r \<noteq> se_token_hash r1 \<Longrightarrow> tokens_fade s (sessions_update (\<lambda>t. t @ [r1]) s)"
  "\<forall>r \<in> set (reset_tokens s). pr_token_hash r \<noteq> pr_token_hash r2 \<Longrightarrow> tokens_fade s (reset_tokens_update (\<lambda>t. t @ [r2]) s)"
  "\<forall>r \<in> set (verify_tokens s). vt_token_hash r \<noteq> vt_token_hash r3 \<Longrightarrow> tokens_fade s (verify_tokens_update (\<lambda>t. t @ [r3]) s)"
  "\<forall>r \<in> set (invitations s). iv_token_hash r \<noteq> iv_token_hash r4 \<Longrightarrow> tokens_fade s (invitations_update (\<lambda>t. t @ [r4]) s)"
  "(\<And>r. \<not> Q r \<Longrightarrow> iv_accepted_at r = None) \<Longrightarrow> tokens_fade s (invitations_update (filter Q) s)"
  by (simp_all add: tokens_fade_def spent_map spent_snoc spent_filter del: not_None_eq)

lemma seed_row_tables [simp]:
  "sessions (seed_row fails t d s) = sessions s" "users (seed_row fails t d s) = users s"
  "identities (seed_row fails t d s) = identities s" "orgs (seed_row fails t d s) = orgs s"
  "memberships (seed_row fails t d s) = memberships s" "invitations (seed_row fails t d s) = invitations s"
  "reset_tokens (seed_row fails t d s) = reset_tokens s" "verify_tokens (seed_row fails t d s) = verify_tokens s"
  "idp_grants (seed_row fails t d s) = idp_grants s" "key_tenants (seed_row fails t d s) = key_tenants s"
  by (simp_all add: seed_row_def)

lemma exec_fades: "fade.keeps (exec cf mo op)"
  by (cases op) (auto simp: method_defs fade_other
      intro!: fade.keeps_rules fade.keeps_forget fade_rules)

lemma history_fades: "tokens_fade s (history cf ops s)"
  by (rule fade.history_keeps) (rule exec_fades)

lemma session_join_iff:
  "(e, u, t, m) \<in> set (session_join s) \<longleftrightarrow>
     e \<in> set (sessions s) \<and> u \<in> set (users s) \<and> t \<in> set (orgs s) \<and> m \<in> set (memberships s)
     \<and> u_id u = se_user e \<and> tn_id t = se_tenant e \<and> mb_user m = se_user e \<and> mb_tenant m = se_tenant e"
  by (auto simp: session_join_def)

lemma resolveSession_cases:
  obtains (dead) "resolveSession cf mo tok s = (s, Inr None)"
    "\<forall>r \<in> set (session_join s). \<not> live_row cf (mo_now mo) tok r"
  | (live) e u t m where "(e, u, t, m) \<in> set (session_join s)" "live_row cf (mo_now mo) tok (e, u, t, m)"
    "resolveSession cf mo tok s =
      (sessions_update (map (\<lambda>x. if se_id x = se_id e
          then x\<lparr>se_expires_at := min (mo_now mo + idleTtlMs cf) (se_absolute_expires_at e),
                 se_last_used_at := Some (mo_now mo)\<rparr> else x)) s,
       Inr (Some \<lparr> sx_session = se_id e, sx_user = se_user e, sx_tenant = se_tenant e,
                   sx_role = mb_role m, sx_global_role = u_global_role u \<rparr>))"
proof (cases "find (live_row cf (mo_now mo) tok) (session_join s)")
  case None
  then have "resolveSession cf mo tok s = (s, Inr None)" by (simp add: resolveSession_def tx_ret_def)
  with None show thesis by (intro dead) (auto simp: find_None_iff)
next
  case (Some r)
  then obtain e u t m where "r = (e, u, t, m)" by (cases r)
  with Some find_SomeD [OF Some] show thesis
    by (intro live) (auto simp: resolveSession_def tx_ret_def)
qed

lemma dead_unresolved:
  "spent se_token_hash se_revoked_at (hashToken cf tok) (sessions s) \<Longrightarrow> snd (resolveSession cf mo tok s) = Inr None"
  by (cases rule: resolveSession_cases [of cf mo tok s])
     (auto simp: session_join_iff live_row_def dest: spentD)

lemma history_dead:
  "spent se_token_hash se_revoked_at (hashToken cf tok) (sessions s) \<Longrightarrow>
   snd (resolveSession cf mo tok (history cf ops s)) = Inr None"
  using history_fades [of s cf ops] by (intro dead_unresolved) (simp add: tokens_fade_def)

section \<open>The schema\<close>

text \<open>The unique columns of the tables whose keys no update touches.\<close>

definition simple_keys :: "auth_db \<Rightarrow> bool" where
  "simple_keys s \<longleftrightarrow> keyed se_token_hash (sessions s) \<and> keyed mb_id (memberships s)
     \<and> keyed (\<lambda>m. (mb_user m, mb_tenant m)) (memberships s) \<and> keyed iv_token_hash (invitations s)
     \<and> keyed iv_id (invitations s) \<and> keyed pr_token_hash (reset_tokens s) \<and> keyed vt_token_hash (verify_tokens s)
     \<and> keyed (\<lambda>g. (ig_sub g, ig_tenant g)) (idp_grants s) \<and> keyed kt_kid (key_tenants s)
     \<and> keyed u_id (users s) \<and> keyed ei_id (identities s) \<and> keyed tn_id (orgs s)
     \<and> keyed (\<lambda>i. js_lower (ei_email i)) (identities s)
     \<and> (\<forall>i \<in> set (identities s). known_user (ei_user i) s)"

definition keys_kept :: "auth_db \<Rightarrow> auth_db \<Rightarrow> bool" where
  "keys_kept s s' \<longleftrightarrow> (simple_keys s \<longrightarrow> simple_keys s')"

interpretation keys: tx_relation keys_kept
  by unfold_locales (auto simp: keys_kept_def)

lemma known_user_map:
  "(\<And>u. u_id (f u) = u_id u) \<Longrightarrow>
   known_user i (users_update (map (\<lambda>u. if P u then f u else u)) s) = known_user i s"
  by (auto simp: known_user_def)

lemma known_user_simps [simp]:
  "known_user i (sessions_update f1 s) = known_user i s" "known_user i (memberships_update f2 s) = known_user i s"
  "known_user i (invitations_update f3 s) = known_user i s" "known_user i (reset_tokens_update f4 s) = known_user i s"
  "known_user i (verify_tokens_update f5 s) = known_user i s" "known_user i (idp_grants_update f6 s) = known_user i s"
  "known_user i (key_tenants_update f7 s) = known_user i s" "known_user i (identities_update f8 s) = known_user i s"
  "known_user i (orgs_update f9 s) = known_user i s"
  by (simp_all add: known_user_def)

lemma keys_other:
  "sessions s' = sessions s \<Longrightarrow> memberships s' = memberships s \<Longrightarrow> invitations s' = invitations s \<Longrightarrow>
   reset_tokens s' = reset_tokens s \<Longrightarrow> verify_tokens s' = verify_tokens s \<Longrightarrow> idp_grants s' = idp_grants s \<Longrightarrow>
   key_tenants s' = key_tenants s \<Longrightarrow> users s' = users s \<Longrightarrow> identities s' = identities s \<Longrightarrow> orgs s' = orgs s \<Longrightarrow>
   keys_kept s s'"
  by (simp add: keys_kept_def simple_keys_def known_user_def)

lemma keys_maps:
  "(\<And>r. se_token_hash (f1 r) = se_token_hash r) \<Longrightarrow>
     keys_kept s (sessions_update (map (\<lambda>r. if P1 r then f1 r else r)) s)"
  "(\<And>r. mb_id (f2 r) = mb_id r \<and> mb_user (f2 r) = mb_user r \<and> mb_tenant (f2 r) = mb_tenant r) \<Longrightarrow>
     keys_kept s (memberships_update (map (\<lambda>r. if P2 r then f2 r else r)) s)"
  "(\<And>r. iv_id (f3 r) = iv_id r \<and> iv_token_hash (f3 r) = iv_token_hash r) \<Longrightarrow>
     keys_kept s (invitations_update (map (\<lambda>r. if P3 r then f3 r else r)) s)"
  "(\<And>r. pr_token_hash (f4 r) = pr_token_hash r) \<Longrightarrow>
     keys_kept s (reset_tokens_update (map (\<lambda>r. if P4 r then f4 r else r)) s)"
  "(\<And>r. vt_token_hash (f5 r) = vt_token_hash r) \<Longrightarrow>
     keys_kept s (verify_tokens_update (map (\<lambda>r. if P5 r then f5 r else r)) s)"
  "(\<And>r. ig_sub (f6 r) = ig_sub r \<and> ig_tenant (f6 r) = ig_tenant r) \<Longrightarrow>
     keys_kept s (idp_grants_update (map (\<lambda>r. if P6 r then f6 r else r)) s)"
  "(\<And>r. u_id (f7 r) = u_id r) \<Longrightarrow> keys_kept s (users_update (map (\<lambda>r. if P7 r then f7 r else r)) s)"
  "(\<And>r. ei_id (f8 r) = ei_id r \<and> ei_email (f8 r) = ei_email r \<and> ei_user (f8 r) = ei_user r) \<Longrightarrow>
     keys_kept s (identities_update (map (\<lambda>r. if P8 r then f8 r else r)) s)"
  "(\<And>r. tn_id (f9 r) = tn_id r) \<Longrightarrow> keys_kept s (orgs_update (map (\<lambda>r. if P9 r then f9 r else r)) s)"
  by (auto simp: keys_kept_def simple_keys_def keyed_map_where known_user_map)

lemma keys_adds:
  "\<forall>r \<in> set (sessions s). se_token_hash r \<noteq> se_token_hash r1 \<Longrightarrow> keys_kept s (sessions_update (\<lambda>t. t @ [r1]) s)"
  "\<forall>r \<in> set (memberships s). mb_id r \<noteq> mb_id r2 \<and> (mb_user r = mb_user r2 \<longrightarrow> mb_tenant r \<noteq> mb_tenant r2) \<Longrightarrow>
     keys_kept s (memberships_update (\<lambda>t. t @ [r2]) s)"
  "\<forall>r \<in> set (invitations s). iv_id r \<noteq> iv_id r3 \<and> iv_token_hash r \<noteq> iv_token_hash r3 \<Longrightarrow>
     keys_kept s (invitations_update (\<lambda>t. t @ [r3]) s)"
  "\<forall>r \<in> set (reset_tokens s). pr_token_hash r \<noteq> pr_token_hash r4 \<Longrightarrow> keys_kept s (reset_tokens_update (\<lambda>t. t @ [r4]) s)"
  "\<forall>r \<in> set (verify_tokens s). vt_token_hash r \<noteq> vt_token_hash r5 \<Longrightarrow> keys_kept s (verify_tokens_update (\<lambda>t. t @ [r5]) s)"
  "\<forall>r \<in> set (idp_grants s). ig_sub r = ig_sub r6 \<longrightarrow> ig_tenant r \<noteq> ig_tenant r6 \<Longrightarrow>
     keys_kept s (idp_grants_update (\<lambda>t. t @ [r6]) s)"
  "\<forall>r \<in> set (key_tenants s). kt_kid r \<noteq> kt_kid r7 \<Longrightarrow> keys_kept s (key_tenants_update (\<lambda>t. t @ [r7]) s)"
  "\<forall>r \<in> set (users s). u_id r \<noteq> u_id r8 \<Longrightarrow> keys_kept s (users_update (\<lambda>t. t @ [r8]) s)"
  "\<forall>r \<in> set (identities s). ei_id r \<noteq> ei_id r9 \<and> \<not> ci_eq (ei_email r) (ei_email r9) \<Longrightarrow> known_user (ei_user r9) s \<Longrightarrow>
     keys_kept s (identities_update (\<lambda>t. t @ [r9]) s)"
  "\<forall>r \<in> set (orgs s). tn_id r \<noteq> tn_id r10 \<Longrightarrow> keys_kept s (orgs_update (\<lambda>t. t @ [r10]) s)"
  by (auto simp: keys_kept_def simple_keys_def known_user_def ci_eq_def)

lemma keys_filters:
  "keys_kept s (memberships_update (filter P) s)" "keys_kept s (invitations_update (filter Q) s)"
  "keys_kept s (identities_update (filter T) s)"
  by (auto simp: keys_kept_def simple_keys_def known_user_def keyed_filter)

lemmas keys_rules = keys_maps keys_adds keys_filters

lemma exec_keys: "keys.keeps (exec cf mo op)"
  by (cases op) (auto simp: method_defs keys_other apply_patch_def
      intro!: keys.keeps_rules keys.keeps_forget keys_rules)

end
