(* ===== verification/Auth_Accounts.thy ===== *)
theory Auth_Accounts
  imports Auth_Store_Facts
begin

text \<open>
  The accounts invariant of the identity store: unique addresses, one primary identity per
  user, the mirror of the primary address in the users table, at most one primary platform
  administrator, and tenant slugs that are unique and of the form the schema demands.
\<close>

definition addresses_unique :: "auth_db \<Rightarrow> bool" where
  "addresses_unique s \<longleftrightarrow> keyed (\<lambda>u. js_lower (u_email u)) (users s)
     \<and> keyed (\<lambda>i. js_lower (ei_email i)) (identities s)"

definition one_primary :: "auth_db \<Rightarrow> bool" where
  "one_primary s \<longleftrightarrow> keyed ei_user (filter ei_primary (identities s))"

definition mirror :: "auth_db \<Rightarrow> bool" where
  "mirror s \<longleftrightarrow> (\<forall>i \<in> set (identities s). \<forall>u \<in> set (users s).
     ei_primary i \<and> ei_user i = u_id u \<longrightarrow> u_email u = ei_email i)"

definition one_super_admin :: "auth_db \<Rightarrow> bool" where
  "one_super_admin s \<longleftrightarrow> length (filter u_primary_super_admin (users s)) \<le> 1"

definition slugs_ok :: "auth_db \<Rightarrow> bool" where
  "slugs_ok s \<longleftrightarrow> keyed tn_slug (orgs s) \<and> (\<forall>t \<in> set (orgs s). slug_ok (tn_slug t))"

definition accounts_ok :: "auth_db \<Rightarrow> bool" where
  "accounts_ok s \<longleftrightarrow> simple_keys s \<and> addresses_unique s \<and> one_primary s \<and> mirror s
     \<and> one_super_admin s \<and> slugs_ok s"

lemmas accounts_defs = addresses_unique_def one_primary_def mirror_def one_super_admin_def slugs_ok_def

definition accounts_kept :: "auth_db \<Rightarrow> auth_db \<Rightarrow> bool" where
  "accounts_kept s s' \<longleftrightarrow> (accounts_ok s \<longrightarrow> accounts_ok s')"

interpretation acc: tx_relation accounts_kept
  by unfold_locales (auto simp: accounts_kept_def)

lemma mirrorI:
  "(\<And>i u. i \<in> set (identities s) \<Longrightarrow> u \<in> set (users s) \<Longrightarrow> ei_primary i \<Longrightarrow> ei_user i = u_id u \<Longrightarrow>
     u_email u = ei_email i) \<Longrightarrow> mirror s"
  unfolding mirror_def by blast

lemma mirrorD:
  "mirror s \<Longrightarrow> i \<in> set (identities s) \<Longrightarrow> u \<in> set (users s) \<Longrightarrow> ei_primary i \<Longrightarrow> ei_user i = u_id u \<Longrightarrow>
   u_email u = ei_email i"
  unfolding mirror_def by blast

text \<open>Which tables each part looks at.\<close>

lemma addresses_cong: "users s' = users s \<Longrightarrow> identities s' = identities s \<Longrightarrow> addresses_unique s' = addresses_unique s"
  unfolding addresses_unique_def by simp

lemma one_primary_cong: "identities s' = identities s \<Longrightarrow> one_primary s' = one_primary s"
  unfolding one_primary_def by simp

lemma mirror_cong: "users s' = users s \<Longrightarrow> identities s' = identities s \<Longrightarrow> mirror s' = mirror s"
  unfolding mirror_def by simp

lemma super_cong: "users s' = users s \<Longrightarrow> one_super_admin s' = one_super_admin s"
  unfolding one_super_admin_def by simp

lemma slugs_cong: "orgs s' = orgs s \<Longrightarrow> slugs_ok s' = slugs_ok s"
  unfolding slugs_ok_def by simp

lemmas parts_cong = addresses_cong one_primary_cong mirror_cong super_cong slugs_cong

lemma accounts_keptI:
  assumes "keys_kept s s'" "accounts_ok s \<Longrightarrow> addresses_unique s'" "accounts_ok s \<Longrightarrow> one_primary s'"
    "accounts_ok s \<Longrightarrow> mirror s'" "accounts_ok s \<Longrightarrow> one_super_admin s'" "accounts_ok s \<Longrightarrow> slugs_ok s'"
  shows "accounts_kept s s'"
  using assms unfolding accounts_kept_def keys_kept_def accounts_ok_def by blast

lemma accounts_okD:
  "accounts_ok s \<Longrightarrow> addresses_unique s" "accounts_ok s \<Longrightarrow> one_primary s" "accounts_ok s \<Longrightarrow> mirror s"
  "accounts_ok s \<Longrightarrow> one_super_admin s" "accounts_ok s \<Longrightarrow> slugs_ok s" "accounts_ok s \<Longrightarrow> simple_keys s"
  unfolding accounts_ok_def by simp_all

lemma accounts_other:
  assumes "keys_kept s s'" "users s' = users s" "identities s' = identities s" "orgs s' = orgs s"
  shows "accounts_kept s s'"
  using assms(1) by (rule accounts_keptI) (simp_all add: accounts_okD addresses_cong [OF assms(2,3)]
    mirror_cong [OF assms(2,3)] one_primary_cong [OF assms(3)] super_cong [OF assms(2)] slugs_cong [OF assms(4)])

lemma filter_map_where:
  "(\<And>r. p (f r) = p r) \<Longrightarrow> filter p (map (\<lambda>r. if P r then f r else r) t)
     = map (\<lambda>r. if P r then f r else r) (filter p t)"
  by (induction t) auto

text \<open>Updates of columns no part of the invariant looks at.\<close>

lemma accounts_users:
  assumes "\<And>u. u_id (f u) = u_id u \<and> u_email (f u) = u_email u \<and> u_primary_super_admin (f u) = u_primary_super_admin u"
  shows "accounts_kept s (users_update (map (\<lambda>u. if P u then f u else u)) s)"
proof (rule accounts_keptI)
  let ?g = "\<lambda>u. if P u then f u else u"
  have g: "u_id (?g u) = u_id u" "u_email (?g u) = u_email u"
      "u_primary_super_admin (?g u) = u_primary_super_admin u" for u
    using assms by auto
  show "keys_kept s (users_update (map ?g) s)" using assms by (intro keys_maps(7)) simp
  have "(\<lambda>u. js_lower (u_email u)) \<circ> ?g = (\<lambda>u. js_lower (u_email u))" by (auto simp: g)
  then have "addresses_unique (users_update (map ?g) s) = addresses_unique s"
    unfolding addresses_unique_def keyed_def by simp
  then show "accounts_ok s \<Longrightarrow> addresses_unique (users_update (map ?g) s)" by (simp only: accounts_okD)
  show "one_primary (users_update (map ?g) s)" if "accounts_ok s"
    using accounts_okD(2) [OF that] by (simp add: one_primary_def)
  show "mirror (users_update (map ?g) s)" if ok: "accounts_ok s"
  proof (rule mirrorI)
    fix i u assume a: "i \<in> set (identities (users_update (map ?g) s))" "u \<in> set (users (users_update (map ?g) s))"
      "ei_primary i" "ei_user i = u_id u"
    then obtain v where "v \<in> set (users s)" "u = ?g v" by auto
    with a show "u_email u = ei_email i" using mirrorD [OF accounts_okD(3) [OF ok], of i v] g by simp
  qed
  have "filter u_primary_super_admin (map ?g (users s)) = map ?g (filter u_primary_super_admin (users s))"
    using assms by (intro filter_map_where) simp
  then have "one_super_admin (users_update (map ?g) s) = one_super_admin s"
    unfolding one_super_admin_def by simp
  then show "accounts_ok s \<Longrightarrow> one_super_admin (users_update (map ?g) s)" by (simp only: accounts_okD)
  show "slugs_ok (users_update (map ?g) s)" if "accounts_ok s"
    using accounts_okD(5) [OF that] by (simp add: slugs_ok_def)
qed

lemma accounts_identities:
  assumes "\<And>i. ei_id (f i) = ei_id i \<and> ei_email (f i) = ei_email i \<and> ei_user (f i) = ei_user i \<and> ei_primary (f i) = ei_primary i"
  shows "accounts_kept s (identities_update (map (\<lambda>i. if P i then f i else i)) s)"
proof (rule accounts_keptI)
  let ?g = "\<lambda>i. if P i then f i else i"
  have g: "ei_email (?g i) = ei_email i" "ei_user (?g i) = ei_user i" "ei_primary (?g i) = ei_primary i" for i
    using assms by auto
  show "keys_kept s (identities_update (map ?g) s)" using assms by (intro keys_maps(8)) simp
  have "(\<lambda>i. js_lower (ei_email i)) \<circ> ?g = (\<lambda>i. js_lower (ei_email i))" by (auto simp: g)
  then have "addresses_unique (identities_update (map ?g) s) = addresses_unique s"
    unfolding addresses_unique_def keyed_def by simp
  then show "accounts_ok s \<Longrightarrow> addresses_unique (identities_update (map ?g) s)" by (simp only: accounts_okD)
  have "filter ei_primary (map ?g (identities s)) = map ?g (filter ei_primary (identities s))"
    using assms by (intro filter_map_where) simp
  moreover have "ei_user \<circ> ?g = ei_user" by (auto simp: g)
  ultimately have "one_primary (identities_update (map ?g) s) = one_primary s"
    unfolding one_primary_def keyed_def by simp
  then show "accounts_ok s \<Longrightarrow> one_primary (identities_update (map ?g) s)" by (simp only: accounts_okD)
  show "mirror (identities_update (map ?g) s)" if ok: "accounts_ok s"
  proof (rule mirrorI)
    fix i u assume a: "i \<in> set (identities (identities_update (map ?g) s))"
      "u \<in> set (users (identities_update (map ?g) s))" "ei_primary i" "ei_user i = u_id u"
    then obtain j where "j \<in> set (identities s)" "i = ?g j" by auto
    with a show "u_email u = ei_email i" using mirrorD [OF accounts_okD(3) [OF ok], of j u] g by simp
  qed
  show "one_super_admin (identities_update (map ?g) s)" if "accounts_ok s"
    using accounts_okD(4) [OF that] by (simp add: one_super_admin_def)
  show "slugs_ok (identities_update (map ?g) s)" if "accounts_ok s"
    using accounts_okD(5) [OF that] by (simp add: slugs_ok_def)
qed

lemma accounts_secondary:
  assumes "\<forall>r \<in> set (identities s). ei_id r \<noteq> ei_id i \<and> \<not> ci_eq (ei_email r) (ei_email i)"
    and "known_user (ei_user i) s" "\<not> ei_primary i"
  shows "accounts_kept s (identities_update (\<lambda>t. t @ [i]) s)"
proof (rule accounts_keptI [OF keys_adds(9) [OF assms(1,2)]])
  assume ok: "accounts_ok s"
  show "addresses_unique (identities_update (\<lambda>t. t @ [i]) s)"
    using accounts_okD(1) [OF ok] assms(1) by (simp add: addresses_unique_def ci_eq_def)
  show "one_primary (identities_update (\<lambda>t. t @ [i]) s)"
    using accounts_okD(2) [OF ok] assms(3) by (simp add: one_primary_def)
  show "mirror (identities_update (\<lambda>t. t @ [i]) s)"
    by (rule mirrorI) (use mirrorD [OF accounts_okD(3) [OF ok]] assms(3) in auto)
  show "one_super_admin (identities_update (\<lambda>t. t @ [i]) s)"
    using accounts_okD(4) [OF ok] by (simp add: one_super_admin_def)
  show "slugs_ok (identities_update (\<lambda>t. t @ [i]) s)"
    using accounts_okD(5) [OF ok] by (simp add: slugs_ok_def)
qed

lemma accounts_drop: "accounts_kept s (identities_update (filter P) s)"
proof (rule accounts_keptI [OF keys_filters(3)])
  assume ok: "accounts_ok s"
  show "addresses_unique (identities_update (filter P) s)"
    using accounts_okD(1) [OF ok] by (simp add: addresses_unique_def keyed_filter)
  have "filter ei_primary (filter P (identities s)) = filter P (filter ei_primary (identities s))"
    by (simp add: conj_commute)
  then show "one_primary (identities_update (filter P) s)"
    using accounts_okD(2) [OF ok] keyed_filter unfolding one_primary_def by fastforce
  show "mirror (identities_update (filter P) s)"
    by (rule mirrorI) (use mirrorD [OF accounts_okD(3) [OF ok]] in auto)
  show "one_super_admin (identities_update (filter P) s)"
    using accounts_okD(4) [OF ok] by (simp add: one_super_admin_def)
  show "slugs_ok (identities_update (filter P) s)"
    using accounts_okD(5) [OF ok] by (simp add: slugs_ok_def)
qed

lemma accounts_orgs:
  assumes "keys_kept s s'" "users s' = users s" "identities s' = identities s" "accounts_ok s \<Longrightarrow> slugs_ok s'"
  shows "accounts_kept s s'"
  using assms(1) by (rule accounts_keptI) (simp_all add: accounts_okD assms(4) addresses_cong [OF assms(2,3)]
    mirror_cong [OF assms(2,3)] one_primary_cong [OF assms(3)] super_cong [OF assms(2)])

lemma accounts_new_org:
  assumes "\<forall>r \<in> set (orgs s). tn_id r \<noteq> tn_id t \<and> tn_slug r \<noteq> tn_slug t" "slug_ok (tn_slug t)"
  shows "accounts_kept s (orgs_update (\<lambda>x. x @ [t]) s)"
  using assms by (intro accounts_orgs keys_adds(10)) (auto simp: slugs_ok_def dest!: accounts_okD(5))

lemma accounts_org_status:
  assumes "\<And>t. tn_id (f t) = tn_id t \<and> tn_slug (f t) = tn_slug t"
  shows "accounts_kept s (orgs_update (map (\<lambda>t. if P t then f t else t)) s)"
  using assms by (intro accounts_orgs keys_maps(9)) (auto simp: slugs_ok_def keyed_map_where dest!: accounts_okD(5))

lemma keyed_update_one:
  assumes "keyed idf t" "keyed k t"
    and "\<And>r r'. r \<in> set t \<Longrightarrow> r' \<in> set t \<Longrightarrow> idf r = i \<Longrightarrow> idf r' \<noteq> i \<Longrightarrow> k (f r) \<noteq> k r'"
  shows "keyed k (map (\<lambda>r. if idf r = i then f r else r) t)"
proof -
  let ?g = "\<lambda>r. if idf r = i then f r else r"
  have "inj_on (k \<circ> ?g) (set t)"
  proof (rule inj_onI)
    fix x y assume a: "x \<in> set t" "y \<in> set t" "(k \<circ> ?g) x = (k \<circ> ?g) y"
    show "x = y"
    proof (cases "(idf x = i) = (idf y = i)")
      case True
      with a(3) show ?thesis
        using keyed_same [OF assms(1) a(1,2)] keyed_same [OF assms(2) a(1,2)] by (cases "idf x = i") simp_all
    next
      case False
      then show ?thesis
        using a(3) assms(3) [OF a(1,2)] assms(3) [OF a(2,1)] by (cases "idf x = i") simp_all
    qed
  qed
  moreover have "distinct t" using assms(1) by (simp add: keyed_def distinct_map)
  ultimately show ?thesis by (simp add: keyed_def distinct_map)
qed

section \<open>Methods whose statements depend on each other\<close>

lemma accounts_new_user:
  assumes "\<forall>r \<in> set (users s). u_id r \<noteq> u_id u \<and> \<not> ci_eq (u_email r) (u_email u)
     \<and> \<not> (u_primary_super_admin r \<and> u_primary_super_admin u)"
  shows "accounts_kept s (users_update (\<lambda>t. t @ [u]) s)"
proof (rule accounts_keptI)
  show "keys_kept s (users_update (\<lambda>t. t @ [u]) s)" using assms by (intro keys_adds(8)) simp
  assume ok: "accounts_ok s"
  show "addresses_unique (users_update (\<lambda>t. t @ [u]) s)"
    using accounts_okD(1) [OF ok] assms by (simp add: addresses_unique_def ci_eq_def)
  show "one_primary (users_update (\<lambda>t. t @ [u]) s)"
    using accounts_okD(2) [OF ok] by (simp add: one_primary_def)
  have "\<forall>i \<in> set (identities s). ei_user i \<noteq> u_id u"
    using accounts_okD(6) [OF ok] assms by (auto simp: simple_keys_def known_user_def)
  then show "mirror (users_update (\<lambda>t. t @ [u]) s)"
    by (intro mirrorI) (use mirrorD [OF accounts_okD(3) [OF ok]] in auto)
  have "u_primary_super_admin u \<Longrightarrow> filter u_primary_super_admin (users s) = []"
    using assms by (auto simp: filter_empty_conv)
  then show "one_super_admin (users_update (\<lambda>t. t @ [u]) s)"
    using accounts_okD(4) [OF ok] by (auto simp: one_super_admin_def)
  show "slugs_ok (users_update (\<lambda>t. t @ [u]) s)"
    using accounts_okD(5) [OF ok] by (simp add: slugs_ok_def)
qed

lemma accounts_primary_identity:
  assumes "\<forall>r \<in> set (identities s). ei_id r \<noteq> ei_id i \<and> \<not> ci_eq (ei_email r) (ei_email i)
      \<and> \<not> (ei_user r = ei_user i \<and> ei_primary r \<and> ei_primary i)"
    and "known_user (ei_user i) s"
    and "\<And>u. u \<in> set (users s) \<Longrightarrow> u_id u = ei_user i \<Longrightarrow> u_email u = ei_email i"
  shows "accounts_kept s (identities_update (\<lambda>t. t @ [i]) s)"
proof (rule accounts_keptI)
  show "keys_kept s (identities_update (\<lambda>t. t @ [i]) s)" using assms by (intro keys_adds(9)) auto
  assume ok: "accounts_ok s"
  show "addresses_unique (identities_update (\<lambda>t. t @ [i]) s)"
    using accounts_okD(1) [OF ok] assms(1) by (simp add: addresses_unique_def ci_eq_def)
  show "one_primary (identities_update (\<lambda>t. t @ [i]) s)"
    using accounts_okD(2) [OF ok] assms(1) by (auto simp: one_primary_def)
  show "mirror (identities_update (\<lambda>t. t @ [i]) s)"
    by (rule mirrorI) (use mirrorD [OF accounts_okD(3) [OF ok]] assms(3) in auto)
  show "one_super_admin (identities_update (\<lambda>t. t @ [i]) s)"
    using accounts_okD(4) [OF ok] by (simp add: one_super_admin_def)
  show "slugs_ok (identities_update (\<lambda>t. t @ [i]) s)"
    using accounts_okD(5) [OF ok] by (simp add: slugs_ok_def)
qed

text \<open>A new user and the identity that is its primary address.\<close>

lemma accounts_new_account:
  assumes "ei_user (i u) = u_id u" "ei_email (i u) = u_email u" "\<And>x. acc.keeps (f x)"
  shows "acc.keeps (tx_bind (insert_user u) (\<lambda>v. tx_bind (insert_identity (i v)) (\<lambda>_. f v)))"
  unfolding acc.keeps_def
proof
  fix s
  let ?clash = "\<lambda>r. u_id r = u_id u \<or> ci_eq (u_email r) (u_email u) \<or> (u_primary_super_admin r \<and> u_primary_super_admin u)"
  let ?m = "tx_bind (insert_user u) (\<lambda>v. tx_bind (insert_identity (i v)) (\<lambda>_. f v))"
  show "accounts_kept s (fst (?m s))"
  proof (cases "\<exists>r \<in> set (users s). ?clash r")
    case True
    then show ?thesis by (simp add: insert_user_def tx_insert_def tx_bind_def acc.R_refl)
  next
    case False
    let ?s1 = "users_update (\<lambda>t. t @ [u]) s" and ?n = "tx_bind (insert_identity (i u)) (\<lambda>_. f u)"
    have "insert_user u s = (?s1, Inr u)"
      unfolding insert_user_def tx_insert_def using False by (rule if_not_P)
    then have m: "?m s = ?n ?s1" by (simp add: tx_bind_def)
    have kept: "accounts_kept s ?s1" using False by (intro accounts_new_user) blast
    have mail: "v \<in> set (users ?s1) \<Longrightarrow> u_id v = ei_user (i u) \<Longrightarrow> u_email v = ei_email (i u)" for v
      using False assms(1,2) by auto
    have "acc.keeps (f u)" by (rule assms(3))
    then have step: "accounts_kept t (fst (f u t))" for t by (simp add: acc.keeps_def)
    show ?thesis
    proof (cases "insert_identity (i u) ?s1")
      case (Pair s2 r)
      have "accounts_kept ?s1 s2"
        using Pair mail accounts_primary_identity [of ?s1 "i u"]
        by (auto simp: insert_identity_def tx_references_def tx_insert_def acc.R_refl split: if_splits)
      moreover have "fst (?n ?s1) = (case r of Inl e \<Rightarrow> s2 | Inr _ \<Rightarrow> fst (f u s2))"
        using Pair by (simp add: tx_bind_def split: sum.split)
      ultimately show ?thesis
        using kept step [of s2] unfolding m by (cases r) (auto intro: acc.R_trans)
    qed
  qed
qed

lemma accounts_insert_org: "acc.keeps (insert_org t)"
  unfolding insert_org_def by (intro acc.keeps_rules accounts_new_org) auto

lemma accounts_update_tenant: "acc.keeps (updateTenant mo i p)"
  unfolding acc.keeps_def
proof
  fix s :: auth_db
  let ?slug = "map_option (slugify mo) (tp_slug p)" and ?f = "apply_patch p (map_option (slugify mo) (tp_slug p))"
  let ?taken = "?slug \<noteq> None \<and> (\<exists>t \<in> set (orgs s). tn_slug t = the ?slug \<and> tn_id t \<noteq> i)"
  show "accounts_kept s (fst (updateTenant mo i p s))"
  proof (cases "?taken \<or> (tp_name p = None \<and> ?slug = None \<and> tp_status p = None) \<or> (?slug \<noteq> None \<and> \<not> slug_ok (the ?slug))")
    case True
    then have "fst (updateTenant mo i p s) = s"
      by (auto simp: updateTenant_def Let_def tx_throw_def getTenantById_def tx_read_def)
    then show ?thesis by (simp add: acc.R_refl)
  next
    case False
    let ?g = "\<lambda>t. if tn_id t = i then ?f t else t"
    have st: "fst (updateTenant mo i p s) = orgs_update (map ?g) s"
      using False by (auto simp: updateTenant_def Let_def tx_update_def)
    have id: "tn_id (?f t) = tn_id t" for t by (simp add: apply_patch_def)
    show ?thesis unfolding st
    proof (rule accounts_orgs)
      show "keys_kept s (orgs_update (map ?g) s)" using id by (intro keys_maps(9)) simp
      assume ok: "accounts_ok s"
      note k = accounts_okD(5) [OF ok, unfolded slugs_ok_def]
      have free: "tn_slug (?f r) \<noteq> tn_slug r' \<or> tn_slug (?f r) = tn_slug r"
        if "r' \<in> set (orgs s)" "tn_id r' \<noteq> i" for r r'
        using False that by (cases "tp_slug p"; force simp: apply_patch_def or_default_def)
      have "keyed tn_slug (map ?g (orgs s))"
      proof (rule keyed_update_one)
        show "keyed tn_id (orgs s)" using accounts_okD(6) [OF ok] by (simp add: simple_keys_def)
        show "keyed tn_slug (orgs s)" using k by simp
        show "tn_slug (?f r) \<noteq> tn_slug r'" if "r \<in> set (orgs s)" "r' \<in> set (orgs s)" "tn_id r = i" "tn_id r' \<noteq> i" for r r'
          using free [of r' r] that keyed_same [of tn_slug "orgs s" r r'] k by metis
      qed
      moreover have "slug_ok (tn_slug (?g t))" if "t \<in> set (orgs s)" for t
        using False k that by (cases "tp_slug p"; cases "tn_id t = i") (auto simp: apply_patch_def or_default_def)
      then have "\<forall>t \<in> set (map ?g (orgs s)). slug_ok (tn_slug t)" unfolding list.set_map by blast
      ultimately show "slugs_ok (orgs_update (map ?g) s)" by (simp add: slugs_ok_def)
    qed simp_all
  qed
qed

text \<open>The new primary address: all identities lose the flag, one regains it, the mirror follows.\<close>

lemma find_map_inv: "(\<And>x. P (f x) = P x) \<Longrightarrow> find P (map f xs) = map_option f (find P xs)"
  by (induction xs) auto

lemma keyedI:
  "distinct t \<Longrightarrow> (\<And>x y. x \<in> set t \<Longrightarrow> y \<in> set t \<Longrightarrow> k x = k y \<Longrightarrow> x = y) \<Longrightarrow> keyed k t"
  by (auto simp: keyed_def distinct_map inj_on_def)

definition flag_primary :: "int \<Rightarrow> string \<Rightarrow> string \<Rightarrow> identity_rec \<Rightarrow> identity_rec" where
  "flag_primary now user i r = (if ei_user r = user
     then r\<lparr>ei_primary := ei_id r = i, ei_updated_at := now\<rparr> else r)"

lemma flag_primary_same [simp]:
  "ei_id (flag_primary now user i r) = ei_id r" "ei_user (flag_primary now user i r) = ei_user r"
  "ei_email (flag_primary now user i r) = ei_email r" "ei_verified_at (flag_primary now user i r) = ei_verified_at r"
  "ei_primary (flag_primary now user i r) = (if ei_user r = user then ei_id r = i else ei_primary r)"
  by (simp_all add: flag_primary_def)

lemma make_primary_state:
  obtains "fst (makePrimaryEmailIdentity mo user i s) = s"
  | r where "r \<in> set (identities s)" "ei_id r = i" "ei_user r = user"
    "\<forall>u \<in> set (users s). u_id u \<noteq> user \<longrightarrow> \<not> ci_eq (u_email u) (ei_email r)"
    "fst (makePrimaryEmailIdentity mo user i s) =
       users_update (map (\<lambda>u. if u_id u = user then u\<lparr>u_email := ei_email r, u_email_verified_at := ei_verified_at r,
           u_updated_at := mo_now mo\<rparr> else u))
         (identities_update (map (flag_primary (mo_now mo) user i)) s)"
proof (cases "find (\<lambda>r. ei_id r = i \<and> ei_user r = user) (identities s)")
  case None
  then show thesis by (intro that(1)) (simp add: makePrimaryEmailIdentity_def tx_atomic_def tx_ret_def)
next
  case (Some r)
  let ?p = "\<lambda>r. ei_id r = i \<and> ei_user r = user"
  let ?off = "\<lambda>r. if ei_user r = user then r\<lparr>ei_primary := False, ei_updated_at := mo_now mo\<rparr> else r"
  let ?on = "\<lambda>r. if ?p r then r\<lparr>ei_primary := True, ei_updated_at := mo_now mo\<rparr> else r"
  have r: "r \<in> set (identities s)" "ei_id r = i" "ei_user r = user" using find_SomeD [OF Some] by auto
  have f: "find ?p (map ?off (identities s)) = Some (?off r)"
    using Some find_map_inv [of ?p ?off "identities s"] by simp
  have c: "?on \<circ> ?off = flag_primary (mo_now mo) user i" by (rule ext) (simp add: flag_primary_def)
  let ?clash = "\<exists>u \<in> set (users s). u_id u \<noteq> user \<and> ci_eq (u_email u) (ei_email r)"
  show thesis
  proof (cases "ei_verified_at r = None \<or> ?clash")
    case True
    then show thesis
      using Some f r by (intro that(1)) (auto simp: makePrimaryEmailIdentity_def tx_atomic_def tx_ret_def tx_throw_def Let_def)
  next
    case False
    have "identities_update (map ?on) (identities_update (map ?off) s) = identities_update (map (flag_primary (mo_now mo) user i)) s"
      by (simp add: c)
    then show thesis
      using False Some f r
      by (intro that(2) [OF r]) (auto simp: makePrimaryEmailIdentity_def tx_atomic_def tx_ret_def update_user_def Let_def c)
  qed
qed

lemma flag_one_primary:
  assumes ids: "keyed ei_id t" and one: "keyed ei_user (filter ei_primary t)"
  shows "keyed ei_user (filter ei_primary (map (flag_primary now user i) t))"
proof (rule keyedI)
  let ?h = "flag_primary now user i"
  have "keyed ei_id (map ?h t)" using ids by (simp add: keyed_def comp_def)
  then have "distinct (map ?h t)" using distinct_map [of ei_id "map ?h t"] by (simp only: keyed_def)
  then show "distinct (filter ei_primary (map ?h t))" by (rule distinct_filter)
  fix x y assume xy: "x \<in> set (filter ei_primary (map ?h t))" "y \<in> set (filter ei_primary (map ?h t))"
    "ei_user x = ei_user y"
  then obtain a b where ab: "a \<in> set t" "b \<in> set t" "x = ?h a" "y = ?h b" by auto
  show "x = y"
  proof (cases "ei_user a = user")
    case True
    with xy ab have "ei_id a = ei_id b" by simp
    with ab keyed_same [OF ids] show ?thesis by blast
  next
    case False
    with xy ab have "ei_primary a" "ei_primary b" "ei_user a = ei_user b" by (auto split: if_splits)
    with ab one have "a = b" by (intro keyed_same [of ei_user "filter ei_primary t"]) auto
    with ab show ?thesis by simp
  qed
qed

lemma accounts_make_primary: "acc.keeps (makePrimaryEmailIdentity mo user i)"
  unfolding acc.keeps_def
proof
  fix s :: auth_db
  let ?h = "flag_primary (mo_now mo) user i"
  consider "fst (makePrimaryEmailIdentity mo user i s) = s"
    | r where "r \<in> set (identities s)" "ei_id r = i" "ei_user r = user"
      "\<forall>u \<in> set (users s). u_id u \<noteq> user \<longrightarrow> \<not> ci_eq (u_email u) (ei_email r)"
      "fst (makePrimaryEmailIdentity mo user i s) =
         users_update (map (\<lambda>u. if u_id u = user then u\<lparr>u_email := ei_email r, u_email_verified_at := ei_verified_at r,
             u_updated_at := mo_now mo\<rparr> else u)) (identities_update (map ?h) s)"
    by (rule make_primary_state [of mo user i s])
  then show "accounts_kept s (fst (makePrimaryEmailIdentity mo user i s))"
  proof cases
    case 1
    then show ?thesis by (simp add: acc.R_refl)
  next
    case (2 r)
    let ?f = "\<lambda>u. u\<lparr>u_email := ei_email r, u_email_verified_at := ei_verified_at r, u_updated_at := mo_now mo\<rparr>"
    let ?g = "\<lambda>u. if u_id u = user then ?f u else u"
    let ?s1 = "identities_update (map ?h) s" and ?s2 = "users_update (map ?g) (identities_update (map ?h) s)"
    have "?h = (\<lambda>r. if ei_user r = user then r\<lparr>ei_primary := ei_id r = i, ei_updated_at := mo_now mo\<rparr> else r)"
      by (rule ext) (simp add: flag_primary_def)
    then have k1: "keys_kept s ?s1"
      using keys_maps(8) [of "\<lambda>r. r\<lparr>ei_primary := ei_id r = i, ei_updated_at := mo_now mo\<rparr>" s "\<lambda>r. ei_user r = user"]
      by simp
    have k2: "keys_kept ?s1 ?s2" by (rule keys_maps(7)) simp
    show ?thesis unfolding 2(5)
    proof (rule accounts_keptI [OF keys.R_trans [OF k1 k2]])
      assume ok: "accounts_ok s"
      have sk: "simple_keys s" "simple_keys ?s1" using accounts_okD(6) [OF ok] k1 by (simp_all add: keys_kept_def)
      have ids: "keyed ei_id (identities s)" "keyed u_id (users s)" using sk(1) by (simp_all add: simple_keys_def)
      have "keyed (\<lambda>u. js_lower (u_email u)) (map ?g (users s))"
        using accounts_okD(1) [OF ok] ids 2(4)
        by (intro keyed_update_one) (auto simp: addresses_unique_def ci_eq_def)
      then show "addresses_unique ?s2"
        using accounts_okD(1) [OF ok] by (simp add: addresses_unique_def keyed_def comp_def)
      have "keyed ei_user (filter ei_primary (map ?h (identities s)))"
        using ids(1) accounts_okD(2) [OF ok, unfolded one_primary_def] by (rule flag_one_primary)
      then show "one_primary ?s2" by (simp add: one_primary_def)
      show "mirror ?s2"
      proof (rule mirrorI)
        fix j v assume a: "j \<in> set (identities ?s2)" "v \<in> set (users ?s2)" "ei_primary j" "ei_user j = u_id v"
        then obtain j0 v0 where j: "j0 \<in> set (identities s)" "j = ?h j0" and v: "v0 \<in> set (users s)" "v = ?g v0" by auto
        have vid: "u_id v = u_id v0" using v(2) by simp
        show "u_email v = ei_email j"
        proof (cases "ei_user j0 = user")
          case True
          with a(3) j(2) 2(2) have "ei_id j0 = ei_id r" by simp
          with keyed_same [OF ids(1) j(1) 2(1)] have "j0 = r" by blast
          moreover have "u_id v0 = user" using True a(4) j(2) vid by simp
          ultimately show ?thesis using j(2) v(2) by simp
        next
          case False
          then have "ei_primary j0" "ei_user j0 = u_id v0" "u_id v0 \<noteq> user" using a(3,4) j(2) vid by simp_all
          with mirrorD [OF accounts_okD(3) [OF ok] j(1) v(1)] show ?thesis using j(2) v(2) by simp
        qed
      qed
      have "filter u_primary_super_admin (map ?g (users s)) = map ?g (filter u_primary_super_admin (users s))"
        by (rule filter_map_where) simp
      then have "one_super_admin ?s2 = one_super_admin s" by (simp add: one_super_admin_def)
      with accounts_okD(4) [OF ok] show "one_super_admin ?s2" by simp
      show "slugs_ok ?s2" using accounts_okD(5) [OF ok] by (simp add: slugs_ok_def)
    qed
  qed
qed

text \<open>Promotion happens only when nobody else is the primary platform administrator.\<close>

lemma super_update_one:
  assumes "keyed u_id us" "\<forall>u \<in> set us. u_primary_super_admin u \<longrightarrow> u_id u = i"
    and "length (filter u_primary_super_admin us) \<le> 1" "\<And>u. u_id (f u) = u_id u"
  shows "length (filter u_primary_super_admin (map (\<lambda>u. if u_id u = i then f u else u) us)) \<le> 1"
proof -
  let ?g = "\<lambda>u. if u_id u = i then f u else u"
  have "length (filter u_primary_super_admin (map ?g us)) \<le> length (filter (\<lambda>u. u_id u = i) us)"
    using assms(2) by (auto simp: filter_map intro!: length_filter_mono split: if_splits)
  also have "\<dots> \<le> 1"
    using assms(1) by (induction us) (auto simp: keyed_def filter_empty_conv image_iff)
  finally show ?thesis .
qed

lemma accounts_promote_user:
  assumes "\<forall>u \<in> set (users s). u_primary_super_admin u \<longrightarrow> u_id u = i"
    and "\<And>u. u_id (f u) = u_id u \<and> u_email (f u) = u_email u"
  shows "accounts_kept s (users_update (map (\<lambda>u. if u_id u = i then f u else u)) s)"
proof (rule accounts_keptI)
  let ?g = "\<lambda>u. if u_id u = i then f u else u"
  have g: "u_id (?g u) = u_id u" "u_email (?g u) = u_email u" for u using assms(2) by auto
  show "keys_kept s (users_update (map ?g) s)" using assms(2) by (intro keys_maps(7)) simp
  assume ok: "accounts_ok s"
  have "keyed (\<lambda>u. js_lower (u_email u)) (map ?g (users s)) = keyed (\<lambda>u. js_lower (u_email u)) (users s)"
    using assms(2) by (intro keyed_map_where) simp
  then show "addresses_unique (users_update (map ?g) s)"
    using accounts_okD(1) [OF ok] by (simp add: addresses_unique_def)
  show "one_primary (users_update (map ?g) s)" using accounts_okD(2) [OF ok] by (simp add: one_primary_def)
  show "mirror (users_update (map ?g) s)"
  proof (rule mirrorI)
    fix j u assume a: "j \<in> set (identities (users_update (map ?g) s))" "u \<in> set (users (users_update (map ?g) s))"
      "ei_primary j" "ei_user j = u_id u"
    then obtain v where "v \<in> set (users s)" "u = ?g v" by auto
    with a show "u_email u = ei_email j" using mirrorD [OF accounts_okD(3) [OF ok], of j v] g by simp
  qed
  show "one_super_admin (users_update (map ?g) s)"
    using super_update_one [of "users s" i f] accounts_okD(4,6) [OF ok] assms
    by (simp add: one_super_admin_def simple_keys_def)
  show "slugs_ok (users_update (map ?g) s)" using accounts_okD(5) [OF ok] by (simp add: slugs_ok_def)
qed

lemma first_of_mem: "first_of xs = Some x \<Longrightarrow> x \<in> set xs"
  by (cases xs) (auto simp: first_of_def)

lemma identity_join_mem: "(u, v) \<in> set (identity_join P s) \<Longrightarrow>
   u \<in> set (users s) \<and> (\<exists>i \<in> set (identities s). ei_user i = u_id u \<and> P (ei_email i) \<and> v = ei_verified_at i)"
  by (auto simp: identity_join_def split: if_splits)

lemma keeps_bind_at:
  "accounts_kept s (fst (m s)) \<Longrightarrow> (\<And>x. acc.keeps (f x)) \<Longrightarrow> accounts_kept s (fst (tx_bind m f s))"
  unfolding acc.keeps_def tx_bind_def
  by (auto split: prod.splits sum.splits intro: acc.R_trans)

lemma accounts_promote:
  assumes "\<forall>u \<in> set (users s). u_primary_super_admin u \<longrightarrow> u_id u = u_id user"
  shows "accounts_kept s (fst (promote_super_admin mo email user s))"
  unfolding promote_super_admin_def update_user_def
  by (rule keeps_bind_at)
     (auto simp: tx_update_def intro!: accounts_promote_user assms acc.keeps_rules accounts_identities)

lemma accounts_memberships:
  "keys_kept s (memberships_update f s) \<Longrightarrow> accounts_kept s (memberships_update f s)"
  by (rule accounts_other) simp_all

lemma accounts_upsert: "acc.keeps (upsert_membership now m)"
  unfolding upsert_membership_def insert_membership_def
  by (intro acc.keeps_rules accounts_memberships keys_maps keys_adds) auto

lemma only_super:
  assumes "one_super_admin s" "find u_primary_super_admin (users s) = Some v"
    and "u \<in> set (users s)" "u_primary_super_admin u"
  shows "v = u"
proof -
  have "u \<in> set (filter u_primary_super_admin (users s))" "v \<in> set (filter u_primary_super_admin (users s))"
    using assms find_SomeD [OF assms(2)] by auto
  moreover have "length (filter u_primary_super_admin (users s)) \<le> 1" using assms(1) by (simp add: one_super_admin_def)
  ultimately show ?thesis by (cases "filter u_primary_super_admin (users s)") auto
qed

lemma accounts_bootstrap_primary: "acc.keeps (bootstrapPrimarySuperAdmin mo t e h k n)"
  unfolding bootstrapPrimarySuperAdmin_def Let_def
proof (rule acc.keeps_atomic, unfold acc.keeps_def, rule)
  fix s :: auth_db
  let ?e = "js_lower (js_trim e)"
  let ?inc = "find u_primary_super_admin (users s)" and ?found = "map_option fst (first_of (identity_join (ci_eq ?e) s))"
  let ?rest = "\<lambda>user. tx_bind (upsert_membership (mo_now mo) (new_membership mo 3 (u_id user) t R_owner)) (\<lambda>_.
     tx_bind (audit_bootstrap t (u_id user) ?e k) (\<lambda>_. tx_ret (Some (user, ?found = None))))"
  let ?pick = "case ?found of None \<Rightarrow> insert_super_admin mo ?e h n | Some user \<Rightarrow> promote_super_admin mo ?e user"
  have rest: "acc.keeps (?rest user)" for user
    unfolding audit_bootstrap_def by (intro acc.keeps_rules accounts_upsert accounts_other keys_other) auto
  have "accounts_kept s (fst (tx_bind ?pick ?rest s))"
    if "\<not> (?inc \<noteq> None \<and> map_option u_id ?inc \<noteq> map_option u_id ?found)"
  proof (rule keeps_bind_at [OF _ rest])
    show "accounts_kept s (fst (?pick s))"
    proof (cases ?found)
      case None
      have "acc.keeps (insert_super_admin mo ?e h n)"
        unfolding insert_super_admin_def
        by (rule accounts_new_account) (auto simp: new_identity_def new_user_def intro: acc.keeps_ret)
      then show ?thesis using None by (simp add: acc.keeps_def)
    next
      case (Some user)
      have "accounts_kept s (fst (promote_super_admin mo ?e user s))"
      proof (cases "accounts_ok s")
        case True
        have "u_id u = u_id user" if "u \<in> set (users s)" "u_primary_super_admin u" for u
        proof -
          have "?inc \<noteq> None" using that by (auto simp: find_None_iff)
          then obtain v where v: "?inc = Some v" by blast
          with only_super [OF accounts_okD(4) [OF True] v] that have "v = u" by simp
          moreover have "map_option u_id ?inc = map_option u_id ?found"
            using \<open>\<not> (?inc \<noteq> None \<and> map_option u_id ?inc \<noteq> map_option u_id ?found)\<close> v by blast
          then have "u_id v = u_id user" unfolding v Some by simp
          ultimately show ?thesis by simp
        qed
        then show ?thesis by (intro accounts_promote) blast
      qed (simp add: accounts_kept_def)
      then show ?thesis unfolding Some by simp
    qed
  qed
  then show "accounts_kept s (fst (tx_bind (tx_read (\<lambda>s. find u_primary_super_admin (users s))) (\<lambda>incumbent.
        tx_bind (tx_read (\<lambda>s. map_option fst (first_of (identity_join (ci_eq ?e) s)))) (\<lambda>found.
          if incumbent \<noteq> None \<and> map_option u_id incumbent \<noteq> map_option u_id found then tx_ret None
          else tx_bind (case found of None \<Rightarrow> insert_super_admin mo ?e h n
               | Some user \<Rightarrow> promote_super_admin mo ?e user) (\<lambda>user.
               tx_bind (upsert_membership (mo_now mo) (new_membership mo 3 (u_id user) t R_owner)) (\<lambda>_.
               tx_bind (audit_bootstrap t (u_id user) ?e k) (\<lambda>_.
               tx_ret (Some (user, found = None))))))) s))"
    by (auto simp: tx_ret_def acc.R_refl)
qed

section \<open>Every history\<close>

lemma accounts_keys: "keys_kept s (sessions_update f1 s) \<Longrightarrow> accounts_kept s (sessions_update f1 s)"
  "keys_kept s (invitations_update f2 s) \<Longrightarrow> accounts_kept s (invitations_update f2 s)"
  "keys_kept s (reset_tokens_update f3 s) \<Longrightarrow> accounts_kept s (reset_tokens_update f3 s)"
  "keys_kept s (verify_tokens_update f4 s) \<Longrightarrow> accounts_kept s (verify_tokens_update f4 s)"
  "keys_kept s (idp_grants_update f5 s) \<Longrightarrow> accounts_kept s (idp_grants_update f5 s)"
  "keys_kept s (key_tenants_update f6 s) \<Longrightarrow> accounts_kept s (key_tenants_update f6 s)"
  "keys_kept s (memberships_update f7 s) \<Longrightarrow> accounts_kept s (memberships_update f7 s)"
  "accounts_kept s (api_keys_update f8 s)"
  by (rule accounts_other; simp add: keys_other)+

lemma accounts_secondary_identity: "acc.keeps (addUserEmailIdentity mo user e)"
  unfolding addUserEmailIdentity_def insert_identity_def
  by (intro acc.keeps_rules accounts_secondary) (auto simp: new_identity_def)

lemma accounts_verified_user: "acc.keeps (insert_verified_user mo e h n)"
  unfolding insert_verified_user_def
  by (rule accounts_new_account) (auto simp: new_identity_def new_user_def intro: acc.keeps_ret)

lemma accounts_signup: "acc.keeps (createTenantWithOwner mo e h n tn ts)"
  unfolding createTenantWithOwner_def Let_def resolveFreeSlug_def insert_membership_def
  by (intro acc.keeps_rules accounts_insert_org accounts_new_account accounts_keys keys_adds)
     (auto simp: new_identity_def new_user_def)

lemmas accounts_units =
  accounts_make_primary accounts_bootstrap_primary accounts_update_tenant accounts_secondary_identity
  accounts_verified_user accounts_signup accounts_insert_org accounts_upsert

lemmas method_defs' =
  upsertIdpPrincipalTenant_def revokeIdpPrincipalTenant_def restoreIdpPrincipalTenant_def
  resolveSession_def verifyLogin_def recordFailedLogin_def clearFailedLogins_def setPasswordHash_def
  createTenantForUser_def seedTenantAgentSettings_def
  suspendTenant_def changeMembershipRole_def removeMembership_def addMembership_def createSession_def
  revokeSession_def revokeSessionByToken_def revokeAllUserSessions_def revoke_sessions_def bindApiKeyTenant_def
  createEmailVerification_def consumeEmailVerification_def
  removeUserEmailIdentity_def createPasswordReset_def
  consumePasswordReset_def createInvitation_def acceptInvitation_def bootstrapOwner_def
  resolveFreeSlug_def findUserByEmail_def getUserById_def
  getTenantById_def getMembershipById_def countActiveOwners_def resolveInvitation_def join_tenant_def
  insert_membership_def update_user_def Let_def

lemma exec_accounts: "acc.keeps (exec cf mo op)"
  by (cases op) (auto simp: method_defs' accounts_other keys_other
      intro!: acc.keeps_rules acc.keeps_forget accounts_units accounts_users accounts_identities accounts_drop
        accounts_org_status accounts_keys keys_rules)

lemma history_accounts: "accounts_ok s \<Longrightarrow> accounts_ok (history cf ops s)"
  using acc.history_keeps [of ops cf s] exec_accounts unfolding accounts_kept_def by blast

text \<open>
  The accounts invariant holds in every reachable state of the identity store: whatever
  methods are called, in whatever order, with whatever arguments and random values, ids,
  token hashes, addresses and slugs stay unique, identities belong to known users, each
  user has at most one primary identity and \<open>users.email\<close> is its address, and there is at
  most one primary platform administrator.
\<close>

theorem accounts_invariant:
  assumes "accounts_ok s"
  shows "accounts_ok (history cf ops s)"
  using assms by (rule history_accounts)

definition demo_cfg :: auth_cfg where
  "demo_cfg = \<lparr> cf_idle_days = None, cf_absolute_days = None, cf_reset_minutes = None, cf_invite_hours = None,
     cf_verify_hours = None, cf_sha256 = (\<lambda>t. ''h'' @ t), cf_hash = (\<lambda>salt p. salt @ p),
     cf_verify = (\<lambda>p h. Some (h = p)) \<rparr>"

definition demo_moment :: "int \<Rightarrow> string \<Rightarrow> moment" where
  "demo_moment now x = \<lparr> mo_now = now, mo_id = (\<lambda>k. x @ replicate k CHR ''i''), mo_secret = x, mo_salt = [],
     mo_suffix = (\<lambda>k. replicate k CHR ''z'') \<rparr>"

lemma no_accounts_ok: "accounts_ok no_accounts"
  by (simp add: accounts_ok_def simple_keys_def accounts_defs no_accounts_def)

definition demo_signup :: auth_op where
  "demo_signup = Do_createTenantWithOwner ''al@x.io'' ''pw'' None ''acme'' None"

lemma demo_slug: "slugify (demo_moment now x) ''acme'' = ''acme''"
  by (simp add: slugify_def Let_def trim_by_def is_ws_def is_ws_unit_def js_lower_def lower_char_def
      slug_char_def is_digit_def)

lemma acme_ok: "slug_ok ''acme''"
  by (simp add: slug_ok_def slug_char_def is_digit_def)

lemma demo_trim: "js_trim ''al@x.io'' = ''al@x.io''" "js_trim ''acme'' = ''acme''"
  by (simp_all add: trim_by_def is_ws_def is_ws_unit_def)

lemma demo_moment_simps [simp]:
  "mo_now (demo_moment now x) = now" "mo_id (demo_moment now x) k = x @ replicate k CHR ''i''"
  "mo_secret (demo_moment now x) = x" "mo_salt (demo_moment now x) = []"
  "mo_suffix (demo_moment now x) k = replicate k CHR ''z''"
  by (simp_all add: demo_moment_def)

lemmas new_row_defs = new_org_def new_user_def new_identity_def new_membership_def

lemmas insert_defs = insert_org_def insert_user_def insert_identity_def insert_membership_def
  tx_insert_def tx_references_def known_user_def known_org_def

lemma demo_signup_state:
  "history demo_cfg [(demo_moment 0 ''a'', demo_signup)] no_accounts = no_accounts
     \<lparr> orgs := [new_org (demo_moment 0 ''a'') 0 ''acme'' ''acme''],
       users := [new_user (demo_moment 0 ''a'') 1 ''al@x.io'' ''pw'' None None],
       identities := [new_identity (demo_moment 0 ''a'') 2 ''ai'' ''al@x.io'' True None],
       memberships := [new_membership (demo_moment 0 ''a'') 3 ''ai'' ''a'' R_owner] \<rparr>"
  by (simp add: demo_signup_def forget_def createTenantWithOwner_def resolveFreeSlug_def Let_def demo_slug acme_ok
      demo_trim insert_defs tx_atomic_def tx_bind_def tx_read_def tx_ret_def no_accounts_def new_row_defs
      or_default_def upt_rec)

lemma accounts_invariant_witness:
  "accounts_ok (history demo_cfg [(demo_moment 0 ''a'', demo_signup)] no_accounts)
   \<and> length (users (history demo_cfg [(demo_moment 0 ''a'', demo_signup)] no_accounts)) = 1"
proof
  show "accounts_ok (history demo_cfg [(demo_moment 0 ''a'', demo_signup)] no_accounts)"
    using no_accounts_ok by (rule accounts_invariant)
  show "length (users (history demo_cfg [(demo_moment 0 ''a'', demo_signup)] no_accounts)) = 1"
    unfolding demo_signup_state by simp
qed

end
