(* ===== verification/Auth_Lifecycle.thy ===== *)
theory Auth_Lifecycle
  imports Auth_Accounts
begin

text \<open>
  What happens to credentials over time: password reset, single-use tokens, the session
  cap, the federation kill switch, lockout, and who owns a tenant.
\<close>

section \<open>Password reset\<close>

lemma spent_marked:
  assumes "keyed key t" "r \<in> set t" "\<And>x. key (f x) = key x" "if P r then mark (f r) \<noteq> None else mark r \<noteq> None"
  shows "spent key mark (key r) (map (\<lambda>x. if P x then f x else x) t)"
proof -
  let ?g = "\<lambda>x. if P x then f x else x"
  have k: "key (?g r) = key r" using assms(3) by simp
  have "spent key mark (key (?g r)) (map ?g t)"
  proof (rule spentI)
    show "keyed key (map ?g t)" using assms(1,3) by (simp add: keyed_map_where)
    show "?g r \<in> set (map ?g t)" unfolding list.set_map using assms(2) by (rule imageI)
    show "mark (?g r) \<noteq> None" using assms(4) by (cases "P r") simp_all
  qed
  then show ?thesis unfolding k .
qed

abbreviation session_spent :: "auth_cfg \<Rightarrow> string \<Rightarrow> auth_db \<Rightarrow> bool" where
  "session_spent cf tok s \<equiv> spent se_token_hash se_revoked_at (hashToken cf tok) (sessions s)"

lemma consumePasswordReset_cases:
  obtains (no) "consumePasswordReset cf mo tok h s = (reset_tokens_update (map (\<lambda>r.
       if pr_token_hash r = hashToken cf tok \<and> pr_used_at r = None \<and> mo_now mo < pr_expires_at r
       then r\<lparr>pr_used_at := Some (mo_now mo)\<rparr> else r)) s, Inr False)"
    "\<forall>r \<in> set (reset_tokens s). \<not> (pr_token_hash r = hashToken cf tok \<and> pr_used_at r = None \<and> mo_now mo < pr_expires_at r)"
  | (yes) r where "r \<in> set (reset_tokens s)" "pr_token_hash r = hashToken cf tok" "pr_used_at r = None"
    "mo_now mo < pr_expires_at r"
    "consumePasswordReset cf mo tok h s =
      (sessions_update (map (\<lambda>e. if se_user e = pr_user r \<and> se_revoked_at e = None then e\<lparr>se_revoked_at := Some (mo_now mo)\<rparr> else e))
        (users_update (map (\<lambda>u. if u_id u = pr_user r then u\<lparr>u_password_hash := h, u_failed_login_count := 0,
            u_locked_until := None, u_updated_at := mo_now mo\<rparr> else u))
          (reset_tokens_update (map (\<lambda>r. if pr_token_hash r = hashToken cf tok \<and> pr_used_at r = None \<and> mo_now mo < pr_expires_at r
            then r\<lparr>pr_used_at := Some (mo_now mo)\<rparr> else r)) s)), Inr True)"
proof (cases "find (\<lambda>r. pr_token_hash r = hashToken cf tok \<and> pr_used_at r = None \<and> mo_now mo < pr_expires_at r) (reset_tokens s)")
  case None
  then have "\<forall>r \<in> set (reset_tokens s). \<not> (pr_token_hash r = hashToken cf tok \<and> pr_used_at r = None \<and> mo_now mo < pr_expires_at r)"
    unfolding find_None_iff by blast
  then show thesis using None
    by (intro no) (simp_all add: consumePasswordReset_def tx_atomic_def tx_ret_def del: not_None_eq)
next
  case (Some r)
  with find_SomeD [OF Some] show thesis
    by (intro yes) (auto simp: consumePasswordReset_def tx_atomic_def tx_ret_def update_user_def
      revokeAllUserSessions_def revoke_sessions_def tx_bind_def tx_update_def)
qed

text \<open>
  C30. A password reset locks everybody else out: the new hash is the only one, the failure
  counter and the lock are cleared, every session the user had is dead for good, and the
  reset token never works again.
\<close>

theorem password_reset_ends_sessions:
  assumes ok: "accounts_ok s" and reset: "consumePasswordReset cf mo tok h s = (s', Inr True)"
  shows "\<exists>r \<in> set (reset_tokens s). pr_token_hash r = hashToken cf tok \<and> mo_now mo < pr_expires_at r
    \<and> (\<forall>u \<in> set (users s'). u_id u = pr_user r \<longrightarrow> u_password_hash u = h \<and> u_locked_until u = None)
    \<and> (\<forall>e \<in> set (sessions s). \<forall>t ops mo'. se_user e = pr_user r \<and> hashToken cf t = se_token_hash e \<longrightarrow>
         snd (resolveSession cf mo' t (history cf ops s')) = Inr None)
    \<and> (\<forall>ops mo' h'. snd (consumePasswordReset cf mo' tok h' (history cf ops s')) = Inr False)"
proof (cases rule: consumePasswordReset_cases [of cf mo tok h s])
  case no
  with reset show ?thesis by simp
next
  case (yes r)
  have keys: "keyed se_token_hash (sessions s)" "keyed pr_token_hash (reset_tokens s)"
    using accounts_okD(6) [OF ok] by (simp_all add: simple_keys_def)
  have s': "s' = fst (consumePasswordReset cf mo tok h s)" using reset by simp
  let ?g = "\<lambda>e. if se_user e = pr_user r \<and> se_revoked_at e = None then e\<lparr>se_revoked_at := Some (mo_now mo)\<rparr> else e"
  have sess: "sessions s' = map ?g (sessions s)" unfolding s' yes(5) by simp
  have "snd (resolveSession cf mo' t (history cf ops s')) = Inr None"
    if e: "e \<in> set (sessions s)" "se_user e = pr_user r" "hashToken cf t = se_token_hash e" for e t ops mo'
  proof (rule history_dead)
    show "session_spent cf t s'" unfolding sess e(3) by (rule spent_marked [OF keys(1) e(1)]) (use e(2) in auto)
  qed
  moreover have "snd (consumePasswordReset cf mo' tok h' (history cf ops s')) = Inr False" for ops mo' h'
  proof -
    have "spent pr_token_hash pr_used_at (pr_token_hash r) (reset_tokens s')"
      unfolding s' yes(5) by (simp del: not_None_eq) (rule spent_marked [OF keys(2) yes(1)], use yes in auto)
    then have "spent pr_token_hash pr_used_at (hashToken cf tok) (reset_tokens (history cf ops s'))"
      using history_fades [of s' cf ops] yes(2) by (simp add: tokens_fade_def)
    then show ?thesis
      by (cases rule: consumePasswordReset_cases [of cf mo' tok h' "history cf ops s'"]) (auto dest: spentD)
  qed
  moreover have "u_password_hash u = h \<and> u_locked_until u = None" if "u \<in> set (users s')" "u_id u = pr_user r" for u
    using that unfolding s' yes(5) by auto
  ultimately show ?thesis using yes(1,2,4) by blast
qed

text \<open>A small world: one tenant with its owner, a session and an open reset token.\<close>

definition demo_world :: auth_db where
  "demo_world = no_accounts
     \<lparr> orgs := [new_org (demo_moment 0 ''a'') 0 ''acme'' ''acme''],
       users := [new_user (demo_moment 0 ''a'') 1 ''al@x.io'' ''pw'' None None],
       identities := [new_identity (demo_moment 0 ''a'') 2 ''ai'' ''al@x.io'' True None],
       memberships := [new_membership (demo_moment 0 ''a'') 3 ''ai'' ''a'' R_owner],
       sessions := [\<lparr> se_id = ''biiii'', se_user = ''ai'', se_tenant = ''a'', se_token_hash = ''hemss_b'',
         se_last_used_at = Some 1, se_expires_at = 1209600001, se_absolute_expires_at = 7776000001,
         se_revoked_at = None, se_user_agent = None, se_ip = None \<rparr>],
       reset_tokens := [\<lparr> pr_id = ''ciiiiii'', pr_user = ''ai'', pr_token_hash = ''hemrt_c'', pr_expires_at = 3600002,
         pr_used_at = None \<rparr>] \<rparr>"

definition demo_ops :: "(moment \<times> auth_op) list" where
  "demo_ops = [(demo_moment 0 ''a'', demo_signup), (demo_moment 1 ''b'', Do_createSession ''ai'' ''a'' None None),
     (demo_moment 2 ''c'', Do_createReset ''ai'')]"

lemma demo_ttl [simp]:
  "idleTtlMs demo_cfg = 1209600000" "absoluteTtlMs demo_cfg = 7776000000" "resetTtlMs demo_cfg = 3600000"
  "inviteTtlMs demo_cfg = 604800000" "verifyTtlMs demo_cfg = 86400000" "hashToken demo_cfg t = ''h'' @ t"
  by (simp_all add: idleTtlMs_def absoluteTtlMs_def resetTtlMs_def inviteTtlMs_def verifyTtlMs_def envInt_def
      demo_cfg_def hashToken_def)

lemma demo_world_reached: "history demo_cfg demo_ops no_accounts = demo_world"
proof -
  have "history demo_cfg demo_ops no_accounts
      = history demo_cfg (tl demo_ops) (history demo_cfg [(demo_moment 0 ''a'', demo_signup)] no_accounts)"
    by (simp add: demo_ops_def)
  also have "\<dots> = demo_world"
    unfolding demo_signup_state
    by (simp add: demo_ops_def forget_def createSession_def createPasswordReset_def Let_def tx_bind_def tx_ret_def
        tx_insert_def tx_references_def known_user_def known_org_def no_accounts_def new_row_defs
        mintSessionToken_def mintResetToken_def mint_token_def ipOrNull_def demo_world_def numeral_eq_Suc)
  finally show ?thesis .
qed

lemma demo_world_ok: "accounts_ok demo_world"
  using history_accounts [OF no_accounts_ok, of demo_cfg demo_ops] by (simp only: demo_world_reached)

lemma password_reset_ends_sessions_witness:
  "\<exists>s'. consumePasswordReset demo_cfg (demo_moment 3 ''d'') ''emrt_c'' ''new'' demo_world = (s', Inr True)
    \<and> (\<forall>mo. snd (resolveSession demo_cfg mo ''emss_b'' s') = Inr None)"
proof -
  let ?c = "consumePasswordReset demo_cfg (demo_moment 3 ''d'') ''emrt_c'' ''new'' demo_world"
  have "snd ?c = Inr True"
    by (simp add: consumePasswordReset_def tx_atomic_def tx_bind_def tx_update_def tx_ret_def update_user_def
        revokeAllUserSessions_def revoke_sessions_def demo_world_def no_accounts_def)
  then have "?c = (fst ?c, Inr True)" by (metis prod.collapse)
  from password_reset_ends_sessions [OF demo_world_ok this]
  obtain r where r: "r \<in> set (reset_tokens demo_world)"
    and dead: "\<forall>e \<in> set (sessions demo_world). \<forall>t ops mo'. se_user e = pr_user r \<and> hashToken demo_cfg t = se_token_hash e \<longrightarrow>
         snd (resolveSession demo_cfg mo' t (history demo_cfg ops (fst ?c))) = Inr None"
    by blast
  let ?e = "hd (sessions demo_world)"
  have "?e \<in> set (sessions demo_world)" "se_user ?e = pr_user r" "hashToken demo_cfg ''emss_b'' = se_token_hash ?e"
    using r by (simp_all add: demo_world_def)
  with dead have "snd (resolveSession demo_cfg mo ''emss_b'' (history demo_cfg [] (fst ?c))) = Inr None" for mo by blast
  then have "\<forall>mo. snd (resolveSession demo_cfg mo ''emss_b'' (fst ?c)) = Inr None" by (simp only: history.simps(1)) simp
  then show ?thesis using \<open>?c = (fst ?c, Inr True)\<close> by blast
qed

section \<open>Invitations are used once\<close>

lemma upsert_membership_state:
  assumes "upsert_membership now m s = (s', Inr x)"
  shows "invitations s' = invitations s"
    "\<exists>r \<in> set (memberships s'). mb_user r = mb_user m \<and> mb_tenant r = mb_tenant m \<and> mb_role r = mb_role m
       \<and> (mb_status m = ''active'' \<longrightarrow> mb_status r = ''active'')"
proof -
  let ?p = "\<lambda>r. mb_user r = mb_user m \<and> mb_tenant r = mb_tenant m"
  let ?f = "\<lambda>r. r\<lparr>mb_role := mb_role m, mb_status := ''active'', mb_updated_at := now\<rparr>"
  have "invitations s' = invitations s \<and> (\<exists>r \<in> set (memberships s'). ?p r \<and> mb_role r = mb_role m
      \<and> (mb_status m = ''active'' \<longrightarrow> mb_status r = ''active''))"
  proof (cases "find ?p (memberships s)")
    case None
    let ?s1 = "memberships_update (map (\<lambda>r. if ?p r then ?f r else r)) s"
    have "upsert_membership now m s = insert_membership m ?s1" using None by (simp add: upsert_membership_def)
    with assms have "insert_membership m ?s1 = (s', Inr x)" by (simp only:)
    then have "s' = memberships_update (\<lambda>t. t @ [m]) ?s1"
      unfolding insert_membership_def tx_references_Inr tx_insert_Inr by blast
    then have "invitations s' = invitations s" "m \<in> set (memberships s')" by simp_all
    then show ?thesis by (intro conjI bexI [of _ m]) simp_all
  next
    case (Some r)
    then have "s' = memberships_update (map (\<lambda>r. if ?p r then ?f r else r)) s"
      using assms by (simp add: upsert_membership_def tx_ret_def)
    moreover have "?f r \<in> (\<lambda>r. if ?p r then ?f r else r) ` set (memberships s)"
      using find_SomeD [OF Some] by (intro image_eqI [of _ _ r]) simp_all
    ultimately have "?f r \<in> set (memberships s')" "invitations s' = invitations s" by simp_all
    then show ?thesis using find_SomeD [OF Some] by (intro conjI bexI [of _ "?f r"]) simp_all
  qed
  then show "invitations s' = invitations s"
    "\<exists>r \<in> set (memberships s'). mb_user r = mb_user m \<and> mb_tenant r = mb_tenant m \<and> mb_role r = mb_role m
       \<and> (mb_status m = ''active'' \<longrightarrow> mb_status r = ''active'')"
    by auto
qed

lemma join_tenant_state:
  assumes "join_tenant mo v u s = (s', Inr a)"
  shows "a = Accepted u (iv_tenant v) (iv_role v)"
    "invitations s' = map (\<lambda>x. if iv_id x = iv_id v then x\<lparr>iv_accepted_at := Some (mo_now mo)\<rparr> else x) (invitations s)"
    "\<exists>m \<in> set (memberships s'). mb_user m = u_id u \<and> mb_tenant m = iv_tenant v \<and> mb_role m = iv_role v \<and> mb_status m = ''active''"
proof -
  from assms obtain s1 x where up: "upsert_membership (mo_now mo) (new_membership mo 3 (u_id u) (iv_tenant v) (iv_role v)) s = (s1, Inr x)"
    and a: "a = Accepted u (iv_tenant v) (iv_role v)"
    and s': "s' = invitations_update (map (\<lambda>x. if iv_id x = iv_id v then x\<lparr>iv_accepted_at := Some (mo_now mo)\<rparr> else x)) s1"
    unfolding join_tenant_def tx_bind_Inr by (auto simp: tx_update_def tx_ret_def)
  show "a = Accepted u (iv_tenant v) (iv_role v)" by (rule a)
  show "invitations s' = map (\<lambda>x. if iv_id x = iv_id v then x\<lparr>iv_accepted_at := Some (mo_now mo)\<rparr> else x) (invitations s)"
    using s' upsert_membership_state(1) [OF up] by simp
  show "\<exists>m \<in> set (memberships s'). mb_user m = u_id u \<and> mb_tenant m = iv_tenant v \<and> mb_role m = iv_role v \<and> mb_status m = ''active''"
    using s' upsert_membership_state(2) [OF up] by (simp add: new_membership_def)
qed

lemma insert_verified_user_state:
  "insert_verified_user mo e h n s = (s', Inr u) \<Longrightarrow> invitations s' = invitations s \<and> u = new_user mo 1 e h n (Some (mo_now mo))"
  by (auto simp: insert_verified_user_def insert_user_def insert_identity_def tx_bind_Inr tx_insert_Inr
      tx_references_Inr tx_ret_def)

text \<open>An accepted invitation: what the call found and what it wrote.\<close>

lemma acceptInvitation_Accepted:
  assumes "acceptInvitation cf mo tok h n s = (s', Inr (Accepted u t r))"
  shows "\<exists>v \<in> set (invitations s). open_invitation cf mo tok v \<and> t = iv_tenant v \<and> r = iv_role v
    \<and> invitations s' = map (\<lambda>x. if iv_id x = iv_id v then x\<lparr>iv_accepted_at := Some (mo_now mo)\<rparr> else x) (invitations s)
    \<and> (\<exists>m \<in> set (memberships s'). mb_user m = u_id u \<and> mb_tenant m = t \<and> mb_role m = r \<and> mb_status m = ''active'')"
proof (cases "find (open_invitation cf mo tok) (invitations s)")
  case None
  with assms show ?thesis by (simp add: acceptInvitation_def resolveInvitation_def tx_atomic_Inr tx_ret_def)
next
  case (Some v)
  let ?join = "\<exists>s1. invitations s1 = invitations s \<and> join_tenant mo v u s1 = (s', Inr (Accepted u t r))"
  have ?join
  proof (cases "first_of (identity_join (ci_eq (iv_email v)) s)")
    case None
    then obtain s1 w where "insert_verified_user mo (iv_email v) (the h) n s = (s1, Inr w)"
        "join_tenant mo v w s1 = (s', Inr (Accepted u t r))"
      using assms Some by (auto simp: acceptInvitation_def resolveInvitation_def tx_atomic_Inr tx_bind_Inr tx_read_def
          tx_ret_def split: if_splits)
    then show ?thesis
      using insert_verified_user_state join_tenant_state(1) by fastforce
  next
    case (Some p)
    with assms \<open>find _ _ = Some v\<close> have "join_tenant mo v (fst p) s = (s', Inr (Accepted u t r))"
      by (cases p) (simp add: acceptInvitation_def resolveInvitation_def tx_atomic_Inr)
    then show ?thesis using join_tenant_state(1) by fastforce
  qed
  then obtain s1 where s1: "invitations s1 = invitations s" "join_tenant mo v u s1 = (s', Inr (Accepted u t r))" by blast
  then show ?thesis using join_tenant_state [OF s1(2)] find_SomeD [OF Some] by auto
qed

text \<open>
  An invitation is accepted once: it gives the invited role in the inviting tenant, and
  afterwards the same link is refused whatever happened in between.
\<close>

theorem invitation_single_use:
  assumes "accounts_ok s" "acceptInvitation cf mo tok h n s = (s', Inr (Accepted u t r))"
  shows "(\<exists>v \<in> set (invitations s). open_invitation cf mo tok v \<and> iv_tenant v = t \<and> iv_role v = r)
    \<and> (\<exists>m \<in> set (memberships s'). mb_user m = u_id u \<and> mb_tenant m = t \<and> mb_role m = r \<and> mb_status m = ''active'')
    \<and> (\<forall>ops mo' h' n'. snd (acceptInvitation cf mo' tok h' n' (history cf ops s')) = Inr Invite_invalid)"
proof -
  from acceptInvitation_Accepted [OF assms(2)] obtain v where v: "v \<in> set (invitations s)" "open_invitation cf mo tok v"
      "t = iv_tenant v" "r = iv_role v"
      "invitations s' = map (\<lambda>x. if iv_id x = iv_id v then x\<lparr>iv_accepted_at := Some (mo_now mo)\<rparr> else x) (invitations s)"
    and m: "\<exists>m \<in> set (memberships s'). mb_user m = u_id u \<and> mb_tenant m = t \<and> mb_role m = r \<and> mb_status m = ''active''"
    by blast
  have "keyed iv_token_hash (invitations s)" using accounts_okD(6) [OF assms(1)] by (simp add: simple_keys_def)
  then have "spent iv_token_hash iv_accepted_at (iv_token_hash v) (invitations s')"
    unfolding v(5) using v(1) by (rule spent_marked) simp_all
  then have gone: "spent iv_token_hash iv_accepted_at (hashToken cf tok) (invitations (history cf ops s'))" for ops
    using history_fades [of s' cf ops] v(2) by (simp add: tokens_fade_def open_invitation_def)
  have "snd (acceptInvitation cf mo' tok h' n' (history cf ops s')) = Inr Invite_invalid" for ops mo' h' n'
  proof -
    have "find (open_invitation cf mo' tok) (invitations (history cf ops s')) = None"
      using spentD [OF gone] unfolding find_None_iff open_invitation_def by blast
    then show ?thesis
      by (simp add: acceptInvitation_def resolveInvitation_def tx_atomic_def tx_ret_def)
  qed
  then show ?thesis using v m by (intro conjI allI bexI [of _ v]) simp_all
qed

lemma demo_addresses [simp]:
  "js_trim ''bo@x.io'' = ''bo@x.io''" "js_lower ''bo@x.io'' = ''bo@x.io''" "js_lower ''al@x.io'' = ''al@x.io''"
  by (simp_all add: trim_by_def is_ws_def is_ws_unit_def js_lower_def lower_char_def)

lemma invitation_single_use_witness:
  "\<exists>s'. acceptInvitation demo_cfg (demo_moment 4 ''e'') ''emiv_d'' (Some ''pw'') None
      (history demo_cfg [(demo_moment 3 ''d'', Do_createInvitation ''a'' ''bo@x.io'' R_member (Some ''ai''))] demo_world)
      = (s', Inr (Accepted (new_user (demo_moment 4 ''e'') 1 ''bo@x.io'' ''pw'' None (Some 4)) ''a'' R_member))
    \<and> snd (acceptInvitation demo_cfg (demo_moment 5 ''f'') ''emiv_d'' (Some ''pw'') None s') = Inr Invite_invalid"
proof -
  let ?w = "history demo_cfg [(demo_moment 3 ''d'', Do_createInvitation ''a'' ''bo@x.io'' R_member (Some ''ai''))] demo_world"
  let ?u = "new_user (demo_moment 4 ''e'') 1 ''bo@x.io'' ''pw'' None (Some 4)"
  let ?a = "acceptInvitation demo_cfg (demo_moment 4 ''e'') ''emiv_d'' (Some ''pw'') None ?w"
  have w: "?w = demo_world\<lparr>invitations := [\<lparr> iv_id = ''diiiiiii'', iv_tenant = ''a'', iv_email = ''bo@x.io'',
      iv_role = R_member, iv_token_hash = ''hemiv_d'', iv_invited_by = Some ''ai'', iv_expires_at = 604800003,
      iv_accepted_at = None, iv_created_at = 3 \<rparr>]\<rparr>"
    by (simp add: forget_def createInvitation_def Let_def tx_atomic_def tx_bind_def tx_ret_def tx_delete_def
        tx_insert_def tx_references_def known_org_def known_user_def mintInviteToken_def mint_token_def
        demo_world_def new_row_defs no_accounts_def numeral_eq_Suc)
  have "snd ?a = Inr (Accepted ?u ''a'' R_member)"
    unfolding w
    by (simp add: acceptInvitation_def resolveInvitation_def open_invitation_def tx_atomic_def tx_bind_def tx_ret_def
        tx_read_def tx_update_def tx_insert_def tx_references_def identity_join_def first_of_def ci_eq_def
        insert_verified_user_def insert_user_def insert_identity_def join_tenant_def upsert_membership_def
        insert_membership_def known_org_def known_user_def demo_world_def new_row_defs no_accounts_def
        numeral_eq_Suc)
  then have a: "?a = (fst ?a, Inr (Accepted ?u ''a'' R_member))" by (metis prod.collapse)
  have "accounts_ok ?w" using demo_world_ok by (rule history_accounts)
  note invitation_single_use [OF this a]
  then have "snd (acceptInvitation demo_cfg (demo_moment 5 ''f'') ''emiv_d'' (Some ''pw'') None (history demo_cfg [] (fst ?a)))
      = Inr Invite_invalid" by blast
  then have "snd (acceptInvitation demo_cfg (demo_moment 5 ''f'') ''emiv_d'' (Some ''pw'') None (fst ?a)) = Inr Invite_invalid"
    by (simp only: history.simps(1))
  with a show ?thesis by blast
qed

section \<open>The session cap\<close>

definition capped :: "string \<Rightarrow> int \<Rightarrow> auth_db \<Rightarrow> bool" where
  "capped h cap s \<longleftrightarrow> (\<exists>e \<in> set (sessions s). se_token_hash e = h)
     \<and> (\<forall>e \<in> set (sessions s). se_token_hash e = h \<longrightarrow> se_absolute_expires_at e \<le> cap)"

definition caps_kept :: "auth_db \<Rightarrow> auth_db \<Rightarrow> bool" where
  "caps_kept s s' \<longleftrightarrow> (\<forall>h cap. capped h cap s \<longrightarrow> capped h cap s')"

interpretation caps: tx_relation caps_kept
  by unfold_locales (auto simp: caps_kept_def)

lemma caps_other: "sessions s' = sessions s \<Longrightarrow> caps_kept s s'"
  by (simp add: caps_kept_def capped_def)

lemma caps_map_any:
  assumes "\<And>e. se_token_hash (g e) = se_token_hash e \<and> se_absolute_expires_at (g e) = se_absolute_expires_at e"
  shows "caps_kept s (sessions_update (map g) s)"
  using assms by (auto simp: caps_kept_def capped_def)

lemma caps_map:
  assumes "\<And>e. se_token_hash (f e) = se_token_hash e \<and> se_absolute_expires_at (f e) = se_absolute_expires_at e"
  shows "caps_kept s (sessions_update (map (\<lambda>e. if P e then f e else e)) s)"
  by (rule caps_map_any) (use assms in auto)

lemma caps_snoc:
  "\<forall>e \<in> set (sessions s). se_token_hash e \<noteq> se_token_hash row \<Longrightarrow> caps_kept s (sessions_update (\<lambda>t. t @ [row]) s)"
  by (auto simp: caps_kept_def capped_def)

lemma exec_caps: "caps.keeps (exec cf mo op)"
  by (cases op) (auto simp: method_defs caps_other
      intro!: caps.keeps_rules caps.keeps_forget caps_map caps_snoc)

text \<open>
  No session outlives its absolute limit: however often the idle window slides, the token
  of a new session stops working when the absolute lifetime is over.
\<close>

theorem session_ends_at_cap:
  assumes "createSession cf mo user tenant agent ip s = (s', Inr c)" "mo_now mo + absoluteTtlMs cf \<le> mo_now mo'"
  shows "snd (resolveSession cf mo' (cs_token c) (history cf ops s')) = Inr None"
proof -
  let ?t = "history cf ops s'" and ?cap = "mo_now mo + absoluteTtlMs cf"
  have "capped (hashToken cf (cs_token c)) ?cap s'"
    using assms(1) by (auto simp: createSession_def Let_def tx_bind_Inr tx_references_Inr tx_insert_Inr tx_ret_def capped_def)
  moreover have "caps_kept s' ?t" by (rule caps.history_keeps) (rule exec_caps)
  ultimately have cap: "capped (hashToken cf (cs_token c)) ?cap ?t" by (simp add: caps_kept_def)
  show ?thesis
  proof (cases rule: resolveSession_cases [of cf mo' "cs_token c" ?t])
    case (live e u t m)
    then have "mo_now mo' < se_absolute_expires_at e" "se_absolute_expires_at e \<le> ?cap"
      using cap by (auto simp: live_row_def session_join_iff capped_def)
    with assms(2) show ?thesis by simp
  qed simp
qed

lemma session_ends_at_cap_witness:
  "\<exists>s'. (\<exists>c. createSession demo_cfg (demo_moment 3 ''d'') ''ai'' ''a'' None None demo_world = (s', Inr c) \<and> cs_token c = ''emss_d'')
    \<and> snd (resolveSession demo_cfg (demo_moment 7776000003 ''e'') ''emss_d'' s') = Inr None"
proof -
  let ?c = "createSession demo_cfg (demo_moment 3 ''d'') ''ai'' ''a'' None None demo_world"
  have "\<exists>c. snd ?c = Inr c \<and> cs_token c = ''emss_d''"
    by (simp add: createSession_def Let_def tx_bind_def tx_references_def tx_insert_def tx_ret_def known_user_def
        known_org_def mintSessionToken_def mint_token_def demo_world_def new_row_defs no_accounts_def numeral_eq_Suc)
  then obtain c where c: "?c = (fst ?c, Inr c)" "cs_token c = ''emss_d''" by (metis prod.collapse)
  have "snd (resolveSession demo_cfg (demo_moment 7776000003 ''e'') (cs_token c) (history demo_cfg [] (fst ?c))) = Inr None"
    by (rule session_ends_at_cap [OF c(1)]) simp
  with c show ?thesis by auto
qed

end
