(* ===== verification/Auth_Ownership.thy ===== *)
theory Auth_Ownership
  imports Auth_Lifecycle
begin

text \<open>
  Who owns a tenant, who may act for it through the identity provider, and how long a
  locked account stays locked.
\<close>

section \<open>The last owner\<close>

definition owner_count :: "string \<Rightarrow> auth_db \<Rightarrow> nat" where
  "owner_count t s = length (filter (active_owner t) (memberships s))"

text \<open>The two methods that overwrite the role of an existing membership without the owner guard.\<close>

definition overwrites_role :: "auth_op \<Rightarrow> bool" where
  "overwrites_role op \<longleftrightarrow> (case op of Do_acceptInvitation _ _ _ \<Rightarrow> True | Do_addMembership _ _ _ \<Rightarrow> True | _ \<Rightarrow> False)"

definition owned :: "string \<Rightarrow> auth_db \<Rightarrow> bool" where
  "owned t s \<longleftrightarrow> simple_keys s \<and> 0 < owner_count t s"

definition stays_owned :: "string \<Rightarrow> auth_db \<Rightarrow> auth_db \<Rightarrow> bool" where
  "stays_owned t s s' \<longleftrightarrow> (owned t s \<longrightarrow> owned t s')"

interpretation own: tx_relation "stays_owned t" for t
  by unfold_locales (auto simp: stays_owned_def)

lemma owned_other: "keys_kept s s' \<Longrightarrow> memberships s' = memberships s \<Longrightarrow> stays_owned t s s'"
  by (simp add: stays_owned_def owned_def keys_kept_def owner_count_def)

lemma owned_mono: "keys_kept s s' \<Longrightarrow> owner_count t s \<le> owner_count t s' \<Longrightarrow> stays_owned t s s'"
  by (simp add: stays_owned_def owned_def keys_kept_def)

lemma owned_insert: "stays_owned t s (fst (insert_membership m s))"
proof (cases "insert_membership m s")
  case (Pair s' r)
  have "keys_kept s s'" if "r = Inr x" for x
    using Pair that by (auto simp: insert_membership_def tx_references_Inr tx_insert_Inr intro!: keys_adds)
  moreover have "owner_count t s \<le> owner_count t s'" if "r = Inr x" for x
    using Pair that by (auto simp: insert_membership_def tx_references_Inr tx_insert_Inr owner_count_def)
  moreover have "s' = s" if "r = Inl e" for e
    using Pair that by (auto simp: insert_membership_def tx_references_def tx_insert_def split: if_splits)
  ultimately show ?thesis
    using Pair by (cases r) (auto intro: owned_mono own.R_refl)
qed

lemma filter_map_mono:
  assumes "\<And>x. x \<in> set xs \<Longrightarrow> P x \<Longrightarrow> P (g x)"
  shows "length (filter P xs) \<le> length (filter P (map g xs))"
  using assms by (induction xs) auto

lemma owner_count_map:
  assumes "\<And>x. x \<in> set (memberships s) \<Longrightarrow> active_owner t x \<Longrightarrow> active_owner t (g x)"
  shows "owner_count t s \<le> owner_count t (memberships_update (map g) s)"
  using filter_map_mono [of "memberships s" "active_owner t" g] assms by (simp add: owner_count_def)

lemma owned_upsert_owner:
  assumes "mb_role m = R_owner" "mb_status m = ''active''"
  shows "own.keeps t (upsert_membership now m)"
  unfolding upsert_membership_def
proof (rule own.keeps_bind)
  let ?p = "\<lambda>r. mb_user r = mb_user m \<and> mb_tenant r = mb_tenant m"
  let ?f = "\<lambda>r. r\<lparr>mb_role := mb_role m, mb_status := ''active'', mb_updated_at := now\<rparr>"
  let ?g = "\<lambda>r. if ?p r then ?f r else r"
  have g: "active_owner t r \<Longrightarrow> active_owner t (?g r)" for r
    using assms by (simp add: active_owner_def)
  have "owner_count t s \<le> owner_count t (memberships_update (map ?g) s)" for s
    by (rule owner_count_map) (rule g)
  then show "own.keeps t (tx_update memberships memberships_update ?p ?f)"
    by (intro own.keeps_update owned_mono keys_maps) simp_all
  show "own.keeps t (case r of None \<Rightarrow> insert_membership m | Some x \<Rightarrow> tx_ret x)" for r
    by (cases r) (simp_all add: own.keeps_def tx_ret_def own.R_refl owned_insert)
qed

text \<open>Dropping or rewriting one row takes at most one owner away, and none unless that row was one.\<close>

lemma filter_drop_one:
  assumes "keyed idf t" "m \<in> set t" "idf m = i"
  shows "length (filter P (filter (\<lambda>x. idf x \<noteq> i) t)) = length (filter P t) - (if P m then 1 else 0)"
  using assms
proof (induction t)
  case (Cons x xs)
  show ?case
  proof (cases "x = m")
    case True
    with Cons.prems have "filter (\<lambda>x. idf x \<noteq> i) xs = xs" by (auto simp: keyed_def filter_id_conv image_iff)
    with True Cons.prems(3) show ?thesis by simp
  next
    case False
    with Cons.prems have "idf x \<noteq> i" by (auto simp: keyed_def image_iff)
    moreover have "P m \<Longrightarrow> 0 < length (filter P xs)" using False Cons.prems by (auto simp: filter_empty_conv)
    ultimately show ?thesis using Cons False by (auto simp: keyed_def)
  qed
qed simp

lemma map_where_count:
  "length (filter P (filter (\<lambda>x. idf x \<noteq> i) t)) \<le> length (filter P (map (\<lambda>x. if idf x = i then f x else x) t))"
  by (induction t) auto

definition guard_open :: "string \<Rightarrow> membership_rec \<Rightarrow> auth_db \<Rightarrow> bool" where
  "guard_open t m s \<longleftrightarrow> (active_owner t m \<longrightarrow> 1 < owner_count t s)"

lemma owned_after_drop:
  assumes "m \<in> set (memberships s)" "mb_id m = i" "guard_open t m s" "owned t s"
    and "keys_kept s s'" "length (filter (active_owner t) (filter (\<lambda>x. mb_id x \<noteq> i) (memberships s))) \<le> owner_count t s'"
  shows "owned t s'"
proof -
  have "keyed mb_id (memberships s)" using assms(4) by (simp add: owned_def simple_keys_def)
  from filter_drop_one [OF this assms(1,2), of "active_owner t"] assms(3,4,6) have "0 < owner_count t s'"
    by (auto simp: owner_count_def guard_open_def owned_def split: if_splits)
  with assms(4,5) show ?thesis by (simp add: owned_def keys_kept_def)
qed

lemma owned_change_role: "own.keeps t (changeMembershipRole mo i r)"
  unfolding own.keeps_def
proof
  fix s :: auth_db
  let ?f = "\<lambda>x. x\<lparr>mb_role := r, mb_updated_at := mo_now mo\<rparr>"
  let ?s' = "memberships_update (map (\<lambda>x. if mb_id x = i then ?f x else x)) s"
  show "stays_owned t s (fst (changeMembershipRole mo i r s))"
  proof (cases "find (\<lambda>m. mb_id m = i) (memberships s)")
    case None
    then show ?thesis
      by (simp add: changeMembershipRole_def getMembershipById_def tx_atomic_def tx_ret_def own.R_refl)
  next
    case (Some m)
    then have m: "m \<in> set (memberships s)" "mb_id m = i" using find_SomeD [OF Some] by auto
    let ?n = "length (filter (active_owner (mb_tenant m)) (memberships s))"
    have st: "fst (changeMembershipRole mo i r s) = (if mb_role m = R_owner \<and> r \<noteq> R_owner \<and> ?n \<le> 1 then s else ?s')"
      using Some by (auto simp: changeMembershipRole_def getMembershipById_def countActiveOwners_def tx_atomic_def
          tx_throw_def tx_update_def)
    have keys: "keys_kept s ?s'" by (rule keys_maps) simp
    show ?thesis
    proof (cases "r = R_owner \<or> mb_role m \<noteq> R_owner")
      case True
      let ?g = "\<lambda>x. if mb_id x = i then ?f x else x"
      have g: "active_owner t x \<Longrightarrow> active_owner t (?g x)"
        if "x \<in> set (memberships s)" "keyed mb_id (memberships s)" for x
        using True keyed_same [OF that(2,1) m(1)] m(2) by (auto simp: active_owner_def)
      have "keyed mb_id (memberships s) \<Longrightarrow> owner_count t s \<le> owner_count t ?s'"
        by (rule owner_count_map) (rule g)
      then have "stays_owned t s ?s'" using keys
        by (auto simp: stays_owned_def owned_def keys_kept_def simple_keys_def)
      with True show ?thesis unfolding st by auto
    next
      case False
      have "stays_owned t s ?s'" if "1 < ?n"
        unfolding stays_owned_def
      proof
        assume o: "owned t s"
        show "owned t ?s'"
        proof (rule owned_after_drop [OF m _ o keys])
          show "guard_open t m s" using that by (auto simp: guard_open_def active_owner_def owner_count_def)
          show "length (filter (active_owner t) (filter (\<lambda>x. mb_id x \<noteq> i) (memberships s))) \<le> owner_count t ?s'"
            using map_where_count [of "active_owner t" mb_id i "memberships s" ?f] by (simp add: owner_count_def)
        qed
      qed
      with False show ?thesis unfolding st by (auto simp: own.R_refl)
    qed
  qed
qed

lemma owned_remove: "own.keeps t (removeMembership mo i)"
  unfolding own.keeps_def
proof
  fix s :: auth_db
  show "stays_owned t s (fst (removeMembership mo i s))"
  proof (cases "find (\<lambda>m. mb_id m = i) (memberships s)")
    case None
    then show ?thesis
      by (simp add: removeMembership_def getMembershipById_def tx_atomic_def tx_ret_def own.R_refl)
  next
    case (Some m)
    then have m: "m \<in> set (memberships s)" "mb_id m = i" using find_SomeD [OF Some] by auto
    let ?n = "length (filter (active_owner (mb_tenant m)) (memberships s))"
    let ?s1 = "memberships_update (filter (\<lambda>x. mb_id x \<noteq> i)) s"
    obtain s' where st: "fst (removeMembership mo i s) = (if mb_role m = R_owner \<and> ?n \<le> 1 then s else s')"
      and mem: "memberships s' = memberships ?s1" and keys: "keys_kept s s'"
    proof
      let ?s2 = "api_keys_update (map (\<lambda>k. if ak_revoked_at k = None \<and> ak_kid k \<in> set (map kt_kid
           (filter (\<lambda>k. kt_tenant k = mb_tenant m \<and> kt_created_by k = Some (mb_user m)) (key_tenants s)))
         then k\<lparr>ak_revoked_at := Some (mo_now mo), ak_revoked_reason := Some ''membership removed''\<rparr> else k)) ?s1"
      let ?s' = "sessions_update (map (\<lambda>e. if se_user e = mb_user m \<and> se_tenant e = mb_tenant m \<and> se_revoked_at e = None
         then e\<lparr>se_revoked_at := Some (mo_now mo)\<rparr> else e)) ?s2"
      show "fst (removeMembership mo i s) = (if mb_role m = R_owner \<and> ?n \<le> 1 then s else ?s')"
        using Some by (simp add: removeMembership_def getMembershipById_def countActiveOwners_def tx_atomic_def
            tx_throw_def tx_ret_def)
      show "memberships ?s' = memberships ?s1" by simp
      have "keys_kept s ?s1" "keys_kept ?s1 ?s2" "keys_kept ?s2 ?s'"
        by (rule keys_filters keys_other keys_maps; simp)+
      then show "keys_kept s ?s'" by (blast intro: keys.R_trans)
    qed
    have "stays_owned t s s'" if "mb_role m = R_owner \<Longrightarrow> 1 < ?n"
      unfolding stays_owned_def
    proof
      assume o: "owned t s"
      show "owned t s'"
        by (rule owned_after_drop [OF m _ o keys]) (use that mem in \<open>auto simp: guard_open_def active_owner_def owner_count_def\<close>)
    qed
    then show ?thesis unfolding st by (auto simp: own.R_refl)
  qed
qed

text \<open>The methods that take a membership through \<open>insert_membership\<close> or \<open>upsert_membership\<close>, or leave memberships alone.\<close>

lemma owned_insert_membership: "own.keeps t (insert_membership m)"
  by (simp add: own.keeps_def owned_insert)

lemma owned_audit: "own.keeps t (audit_bootstrap te u e k)"
  unfolding audit_bootstrap_def by (rule own.keeps_write) (simp add: own.R_refl owned_other keys_other)

lemma owned_bootstrap: "own.keeps t (bootstrapPrimarySuperAdmin mo te e h k n)"
  unfolding bootstrapPrimarySuperAdmin_def insert_super_admin_def promote_super_admin_def
    insert_user_def insert_identity_def update_user_def Let_def
  by (auto simp: keys_other intro!: own.keeps_rules owned_upsert_owner owned_audit owned_other keys_rules
      simp: new_membership_def)

lemma owned_creates:
  "own.keeps t (createTenantWithOwner mo e h n tn ts)" "own.keeps t (createTenantForUser mo u tn ts)"
  "own.keeps t (bootstrapOwner mo te e h n)"
  unfolding createTenantWithOwner_def createTenantForUser_def bootstrapOwner_def resolveFreeSlug_def
    countActiveOwners_def insert_verified_user_def insert_org_def insert_user_def insert_identity_def Let_def
  by (auto intro!: own.keeps_rules owned_insert_membership owned_other keys_rules)

lemma exec_owned: "\<not> overwrites_role op \<Longrightarrow> own.keeps t (exec cf mo op)"
proof (cases op)
  case (Do_changeRole m r)
  then show ?thesis by (simp add: own.keeps_forget owned_change_role)
next
  case (Do_removeMembership m)
  then show ?thesis by (simp add: own.keeps_forget owned_remove)
next
  case (Do_bootstrapPrimary te e h k n)
  then show ?thesis by (simp add: own.keeps_forget owned_bootstrap)
next
  case (Do_createTenantWithOwner e h n tn ts)
  then show ?thesis by (simp add: own.keeps_forget owned_creates)
next
  case (Do_createTenantForUser u n sl)
  then show ?thesis by (simp add: own.keeps_forget owned_creates)
next
  case (Do_bootstrapOwner te e h n)
  then show ?thesis by (simp add: own.keeps_forget owned_creates)
qed (auto simp: overwrites_role_def method_defs keys_other apply_patch_def
      intro!: own.keeps_rules own.keeps_forget owned_other keys_rules)

text \<open>
  C31. A tenant that has an active owner keeps one, through any sequence of calls of the
  store's methods other than the two that overwrite an existing membership's role.
\<close>

theorem last_owner_kept:
  assumes "accounts_ok s" "0 < owner_count t s" "\<forall>(mo, op) \<in> set ops. \<not> overwrites_role op"
  shows "0 < owner_count t (history cf ops s)"
proof -
  have "stays_owned t s (history cf ops s)"
    using assms(3) by (intro own.history_keeps exec_owned) auto
  then show ?thesis
    using assms(1,2) accounts_okD(6) [OF assms(1)] by (simp add: stays_owned_def owned_def)
qed

lemma demo_world_owner: "owner_count ''a'' demo_world = 1"
  by (simp add: owner_count_def active_owner_def demo_world_def new_membership_def)

lemma last_owner_kept_witness:
  "0 < owner_count ''a'' (history demo_cfg [(demo_moment 3 ''d'', Do_changeRole ''mi'' R_admin),
      (demo_moment 4 ''e'', Do_removeMembership ''mi'')] demo_world)"
  by (rule last_owner_kept [OF demo_world_ok]) (simp_all add: demo_world_owner overwrites_role_def)

text \<open>
  C32. Accepting an invitation does overwrite the role: the sole owner of a tenant who is sent
  an invitation to the same tenant as a member, and opens it, leaves the tenant without an
  owner, past the guard every other path has.
\<close>

theorem accept_demotes_last_owner:
  "\<exists>inv_moment accept_moment.
     let s = history demo_cfg [(inv_moment, Do_createInvitation ''a'' ''al@x.io'' R_member None)] demo_world
     in 0 < owner_count ''a'' s
        \<and> owner_count ''a'' (history demo_cfg [(accept_moment, Do_acceptInvitation ''emiv_d'' None None)] s) = 0"
proof (intro exI)
  let ?s = "history demo_cfg [(demo_moment 3 ''d'', Do_createInvitation ''a'' ''al@x.io'' R_member None)] demo_world"
  show "let s = ?s in 0 < owner_count ''a'' s
        \<and> owner_count ''a'' (history demo_cfg [(demo_moment 4 ''e'', Do_acceptInvitation ''emiv_d'' None None)] s) = 0"
    by (simp add: forget_def createInvitation_def Let_def tx_atomic_def tx_bind_def tx_ret_def tx_delete_def
        tx_insert_def tx_references_def known_org_def mintInviteToken_def mint_token_def
        demo_world_def new_row_defs no_accounts_def acceptInvitation_def resolveInvitation_def open_invitation_def
        tx_read_def tx_update_def identity_join_def first_of_def ci_eq_def join_tenant_def
        upsert_membership_def owner_count_def active_owner_def demo_trim)
qed

lemma join_tenant_joins:
  assumes "known_user (u_id u) s" and "known_org (iv_tenant v) s" and "mo_id mo 3 \<notin> mb_id ` set (memberships s)"
  shows "\<exists>s'. join_tenant mo v u s = (s', Inr (Accepted u (iv_tenant v) (iv_role v)))
    \<and> users s' = users s \<and> identities s' = identities s"
proof -
  let ?m = "new_membership mo 3 (u_id u) (iv_tenant v) (iv_role v)"
  have "\<exists>s1 x. upsert_membership (mo_now mo) ?m s = (s1, Inr x) \<and> users s1 = users s \<and> identities s1 = identities s"
  proof (cases "find (\<lambda>r. mb_user r = mb_user ?m \<and> mb_tenant r = mb_tenant ?m) (memberships s)")
    case (Some r)
    then show ?thesis by (simp add: upsert_membership_def tx_bind_def tx_update_def tx_ret_def)
  next
    case None
    let ?p = "\<lambda>r. mb_user r = mb_user ?m \<and> mb_tenant r = mb_tenant ?m"
    let ?f = "\<lambda>r. r\<lparr>mb_role := mb_role ?m, mb_status := ''active'', mb_updated_at := mo_now mo\<rparr>"
    let ?s1 = "memberships_update (map (\<lambda>r. if ?p r then ?f r else r)) s"
    have "upsert_membership (mo_now mo) ?m s = insert_membership ?m ?s1" using None by (simp add: upsert_membership_def)
    moreover have no: "\<forall>r \<in> set (memberships s). \<not> ?p r" using None by (simp only: find_None_iff) blast
    then have "map (\<lambda>r. if ?p r then ?f r else r) (memberships s) = memberships s" by (intro map_idI) (meson)
    then have "memberships ?s1 = memberships s" by simp
    moreover have "mb_id r \<noteq> mb_id ?m" if "r \<in> set (memberships s)" for r
      using assms(3) imageI [OF that, of mb_id] by (auto simp: new_membership_def simp del: image_eqI)
    ultimately have clash: "\<not> (\<exists>r \<in> set (memberships ?s1). mb_id r = mb_id ?m \<or> ?p r)"
      and up: "upsert_membership (mo_now mo) ?m s = insert_membership ?m ?s1" using no by auto
    have known: "known_user (mb_user ?m) ?s1 \<and> known_org (mb_tenant ?m) ?s1"
      using assms(1,2) by (simp add: known_user_def known_org_def new_membership_def)
    have "upsert_membership (mo_now mo) ?m s = (memberships_update (\<lambda>t. t @ [?m]) ?s1, Inr ?m)"
      by (simp only: up insert_membership_def tx_references_def tx_insert_def known clash if_True if_False simp_thms)
    then show ?thesis by simp
  qed
  then show ?thesis by (auto simp: join_tenant_def tx_bind_def tx_update_def tx_ret_def)
qed

lemma open_invitation_found:
  assumes "keyed iv_token_hash (invitations s)" and "v \<in> set (invitations s)" and "open_invitation cf mo tok v"
  shows "find (open_invitation cf mo tok) (invitations s) = Some v"
proof (cases "find (open_invitation cf mo tok) (invitations s)")
  case None
  with assms(2,3) show ?thesis by (simp add: find_None_iff)
next
  case (Some w)
  then have "w \<in> set (invitations s)" "iv_token_hash w = iv_token_hash v"
    using find_SomeD [OF Some] assms(3) by (simp_all add: open_invitation_def)
  with Some show ?thesis using keyed_same [OF assms(1) _ assms(2)] by simp
qed

lemma identity_join_found:
  assumes "simple_keys s" and "i \<in> set (identities s)" and "ci_eq e (ei_email i)"
  shows "\<exists>u \<in> set (users s). u_id u = ei_user i \<and> first_of (identity_join (ci_eq e) s) = Some (u, ei_verified_at i)"
proof -
  have keys: "keyed (\<lambda>i. js_lower (ei_email i)) (identities s)" "known_user (ei_user i) s"
    using assms(1,2) by (simp_all add: simple_keys_def)
  then obtain u where u: "u \<in> set (users s)" "u_id u = ei_user i" by (auto simp: known_user_def)
  then have "(u, ei_verified_at i) \<in> set (identity_join (ci_eq e) s)" using assms(2,3) by (force simp: identity_join_def)
  then obtain p ps where p: "identity_join (ci_eq e) s = p # ps" by (cases "identity_join (ci_eq e) s") auto
  then have "p \<in> set (identity_join (ci_eq e) s)" by simp
  then obtain w j where w: "w \<in> set (users s)" "j \<in> set (identities s)" "ei_user j = u_id w" "ci_eq e (ei_email j)"
      "p = (w, ei_verified_at j)" by (auto simp: identity_join_def)
  have "j = i" using keyed_same [OF keys(1) w(2) assms(2)] w(4) assms(3) by (simp add: ci_eq_def)
  with w p show ?thesis by (intro bexI [of _ w]) (simp_all add: first_of_def)
qed

text \<open>
  C33. An open invitation is accepted into whichever account claims the invited address as one
  of its identities, verified or not: the answer names that account, the account becomes an
  active member of the inviting tenant with the invited role, and neither its password nor
  the verification of the identity is touched, whatever password the request brings.
\<close>

theorem accept_joins_unverified_claim:
  assumes "accounts_ok s" and "v \<in> set (invitations s)" and "open_invitation cf mo tok v" and "known_org (iv_tenant v) s"
    and "i \<in> set (identities s)" and "ci_eq (iv_email v) (ei_email i)" and "mo_id mo 3 \<notin> mb_id ` set (memberships s)"
  shows "\<exists>u s'. u \<in> set (users s) \<and> u_id u = ei_user i
    \<and> acceptInvitation cf mo tok hash name s = (s', Inr (Accepted u (iv_tenant v) (iv_role v)))
    \<and> users s' = users s \<and> identities s' = identities s
    \<and> (\<exists>m \<in> set (memberships s'). mb_user m = u_id u \<and> mb_tenant m = iv_tenant v \<and> mb_role m = iv_role v \<and> mb_status m = ''active'')"
proof -
  have keys: "simple_keys s" using assms(1) by (simp add: accounts_ok_def)
  then have "keyed iv_token_hash (invitations s)" by (simp add: simple_keys_def)
  then have v: "find (open_invitation cf mo tok) (invitations s) = Some v" by (rule open_invitation_found [OF _ assms(2,3)])
  obtain u where u: "u \<in> set (users s)" "u_id u = ei_user i"
      "first_of (identity_join (ci_eq (iv_email v)) s) = Some (u, ei_verified_at i)"
    using identity_join_found [OF keys assms(5,6)] by blast
  have "known_user (u_id u) s" using u(1) by (auto simp: known_user_def)
  from join_tenant_joins [OF this assms(4,7)] obtain s' where
      s': "join_tenant mo v u s = (s', Inr (Accepted u (iv_tenant v) (iv_role v)))" "users s' = users s" "identities s' = identities s"
    by blast
  have "acceptInvitation cf mo tok hash name s = (s', Inr (Accepted u (iv_tenant v) (iv_role v)))"
    unfolding acceptInvitation_def tx_atomic_Inr by (simp add: tx_bind_def resolveInvitation_def tx_read_def v u(3) s'(1))
  with u(1,2) s' join_tenant_state(3) [OF s'(1)] show ?thesis by blast
qed

text \<open>
  Al adds Bo's address as an identity without ever verifying it, and the tenant then invites
  Bo as an administrator: Al's account joins.
\<close>

lemma accept_joins_unverified_claim_witness:
  "let s = history demo_cfg [(demo_moment 3 ''d'', Do_addIdentity ''ai'' ''bo@x.io''),
         (demo_moment 4 ''e'', Do_createInvitation ''a'' ''bo@x.io'' R_admin None)] demo_world
   in (\<exists>i \<in> set (identities s). ei_user i = ''ai'' \<and> ei_email i = ''bo@x.io'' \<and> ei_verified_at i = None)
    \<and> (\<exists>u s'. acceptInvitation demo_cfg (demo_moment 5 ''f'') ''emiv_e'' (Some ''pw2'') None s = (s', Inr (Accepted u ''a'' R_admin))
        \<and> u_id u = ''ai'' \<and> u_password_hash u = ''pw'' \<and> users s' = users s)"
proof -
  let ?s = "history demo_cfg [(demo_moment 3 ''d'', Do_addIdentity ''ai'' ''bo@x.io''),
         (demo_moment 4 ''e'', Do_createInvitation ''a'' ''bo@x.io'' R_admin None)] demo_world"
  let ?v = "\<lparr> iv_id = ''eiiiiiii'', iv_tenant = ''a'', iv_email = ''bo@x.io'', iv_role = R_admin, iv_token_hash = ''hemiv_e'',
      iv_invited_by = None, iv_expires_at = 604800004, iv_accepted_at = None, iv_created_at = 4 \<rparr>"
  let ?i = "new_identity (demo_moment 3 ''d'') 2 ''ai'' ''bo@x.io'' False None"
  have s: "?s = demo_world\<lparr>identities := identities demo_world @ [?i], invitations := [?v]\<rparr>"
    by (simp add: forget_def createInvitation_def Let_def tx_atomic_def tx_bind_def tx_ret_def tx_delete_def
        tx_insert_def tx_references_def known_org_def known_user_def mintInviteToken_def mint_token_def
        addUserEmailIdentity_def insert_identity_def demo_world_def new_row_defs no_accounts_def ci_eq_def numeral_eq_Suc)
  have "accounts_ok ?s" using demo_world_ok by (rule history_accounts)
  moreover have "?v \<in> set (invitations ?s)" "?i \<in> set (identities ?s)" unfolding s by simp_all
  moreover have "open_invitation demo_cfg (demo_moment 5 ''f'') ''emiv_e'' ?v" by (simp add: open_invitation_def)
  moreover have "known_org (iv_tenant ?v) ?s" unfolding s by (simp add: known_org_def demo_world_def new_row_defs)
  moreover have "ci_eq (iv_email ?v) (ei_email ?i)" by (simp add: new_identity_def)
  moreover have "mo_id (demo_moment 5 ''f'') 3 \<notin> mb_id ` set (memberships ?s)"
    unfolding s by (simp add: demo_world_def new_row_defs)
  ultimately obtain u s' where u: "u \<in> set (users ?s)" "u_id u = ei_user ?i"
      "acceptInvitation demo_cfg (demo_moment 5 ''f'') ''emiv_e'' (Some ''pw2'') None ?s
         = (s', Inr (Accepted u (iv_tenant ?v) (iv_role ?v)))" "users s' = users ?s"
    using accept_joins_unverified_claim [of ?s ?v demo_cfg "demo_moment 5 ''f''" "''emiv_e''" ?i "Some ''pw2''" None] by blast
  have "u_password_hash u = ''pw''" using u(1) unfolding s by (simp add: demo_world_def new_user_def)
  moreover have "\<exists>i \<in> set (identities ?s). ei_user i = ''ai'' \<and> ei_email i = ''bo@x.io'' \<and> ei_verified_at i = None"
    unfolding s by (simp add: new_identity_def)
  ultimately show ?thesis using u unfolding Let_def by (simp add: new_identity_def del: history.simps)
qed

section \<open>Revoked principals\<close>

definition grant_key :: "idp_grant_rec \<Rightarrow> string \<times> string" where
  "grant_key g = (ig_sub g, ig_tenant g)"

definition stays_revoked :: "string \<times> string \<Rightarrow> auth_db \<Rightarrow> auth_db \<Rightarrow> bool" where
  "stays_revoked k s s' \<longleftrightarrow>
     (spent grant_key ig_revoked_at k (idp_grants s) \<longrightarrow> spent grant_key ig_revoked_at k (idp_grants s'))"

interpretation revoked: tx_relation "stays_revoked k" for k
  by unfold_locales (auto simp: stays_revoked_def)

lemma revoked_other: "idp_grants s' = idp_grants s \<Longrightarrow> stays_revoked k s s'"
  by (simp add: stays_revoked_def)

lemma revoked_map_any:
  assumes "\<And>g. grant_key (f g) = grant_key g"
    and "\<And>g. grant_key g = k \<Longrightarrow> ig_revoked_at g \<noteq> None \<Longrightarrow> ig_revoked_at (f g) \<noteq> None"
  shows "stays_revoked k s (idp_grants_update (map f) s)"
  using assms by (auto simp: stays_revoked_def spent_def simp del: not_None_eq)

lemma spent_map_all:
  "(\<And>g. key (f g) = key g) \<Longrightarrow> (\<And>g. key g = h \<Longrightarrow> mark (f g) \<noteq> None) \<Longrightarrow> g \<in> set t \<Longrightarrow> key g = h \<Longrightarrow>
   spent key mark h (map f t)"
  by (auto simp: spent_def)

lemma revoked_map:
  assumes "\<And>g. grant_key (f g) = grant_key g"
    and "\<And>g. P g \<Longrightarrow> grant_key g = k \<Longrightarrow> ig_revoked_at g \<noteq> None \<Longrightarrow> ig_revoked_at (f g) \<noteq> None"
  shows "stays_revoked k s (idp_grants_update (map (\<lambda>g. if P g then f g else g)) s)"
  by (rule revoked_map_any) (use assms in auto)

lemma revoked_snoc:
  "\<forall>g \<in> set (idp_grants s). grant_key g \<noteq> grant_key row \<Longrightarrow> stays_revoked k s (idp_grants_update (\<lambda>t. t @ [row]) s)"
  by (auto simp: stays_revoked_def intro!: spent_snoc)

definition restores :: "string \<times> string \<Rightarrow> auth_op \<Rightarrow> bool" where
  "restores k op \<longleftrightarrow> (case op of Do_restoreIdp sub t \<Rightarrow> (sub, t) = k | _ \<Rightarrow> False)"

lemma exec_revoked: "\<not> restores k op \<Longrightarrow> revoked.keeps k (exec cf mo op)"
  by (cases op) (auto simp: restores_def method_defs revoked_other grant_key_def
      intro!: revoked.keeps_rules revoked.keeps_forget revoked_map revoked_snoc)

text \<open>
  Revoking an external principal's access to a tenant is a kill switch: until the same
  grant is restored by name, no later call, a renewed grant included, shows it live.
\<close>

theorem idp_revocation_sticks:
  assumes "revokeIdpPrincipalTenant mo sub (Some t) s = (s', Inr True)" "t \<noteq> []"
    and "\<forall>(mo, op) \<in> set ops. \<not> restores (sub, t) op"
    and "snd (listIdpPrincipalTenantsForSub sub (history cf ops s')) = Inr ms" "m \<in> set ms" "im_tenant m = t"
  shows "im_revoked m \<noteq> None"
proof -
  let ?P = "\<lambda>g. ig_sub g = sub \<and> ig_tenant g = t \<and> ig_revoked_at g = None"
  let ?f = "\<lambda>g. if ?P g then g\<lparr>ig_revoked_at := Some (mo_now mo)\<rparr> else g"
  have s': "s' = idp_grants_update (map ?f) s" and live: "find ?P (idp_grants s) \<noteq> None"
    using assms(1,2) by (auto simp: revokeIdpPrincipalTenant_def tx_ret_def eq_commute [of t])
  from live obtain g where "g \<in> set (idp_grants s)" "grant_key g = (sub, t)"
    by (auto simp: find_None_iff grant_key_def)
  then have "spent grant_key ig_revoked_at (sub, t) (map ?f (idp_grants s))"
    by (intro spent_map_all) (auto simp: grant_key_def)
  then have "spent grant_key ig_revoked_at (sub, t) (idp_grants s')" by (simp add: s')
  moreover have "stays_revoked (sub, t) s' (history cf ops s')"
    using assms(3) by (intro revoked.history_keeps exec_revoked) auto
  ultimately have "spent grant_key ig_revoked_at (sub, t) (idp_grants (history cf ops s'))"
    by (simp add: stays_revoked_def)
  with assms(4-6) show ?thesis
    by (auto simp: listIdpPrincipalTenantsForSub_def tx_read_def mapping_of_def grant_key_def spent_def)
qed

lemma idp_revocation_sticks_witness:
  "\<exists>s' ms. revokeIdpPrincipalTenant (demo_moment 4 ''e'') ''svc'' (Some ''a'') (history demo_cfg
       [(demo_moment 3 ''d'', Do_upsertIdp ''svc'' ''a'' None None None None)] demo_world) = (s', Inr True)
     \<and> snd (listIdpPrincipalTenantsForSub ''svc'' (history demo_cfg
       [(demo_moment 5 ''f'', Do_upsertIdp ''svc'' ''a'' None None None None)] s')) = Inr ms
     \<and> ms \<noteq> [] \<and> im_revoked (hd ms) \<noteq> None"
proof -
  let ?w = "history demo_cfg [(demo_moment 3 ''d'', Do_upsertIdp ''svc'' ''a'' None None None None)] demo_world"
  let ?r = "revokeIdpPrincipalTenant (demo_moment 4 ''e'') ''svc'' (Some ''a'') ?w"
  let ?ops = "[(demo_moment 5 ''f'', Do_upsertIdp ''svc'' ''a'' None None None None)]"
  let ?l = "listIdpPrincipalTenantsForSub ''svc'' (history demo_cfg ?ops (fst ?r))"
  have r: "?r = (fst ?r, Inr True)"
    by (simp add: forget_def upsertIdpPrincipalTenant_def tx_bind_def tx_update_def tx_references_def known_org_def
        tx_insert_def tx_ret_def revokeIdpPrincipalTenant_def demo_world_def new_row_defs no_accounts_def)
  have l: "\<exists>m. snd ?l = Inr [m] \<and> im_tenant m = ''a''"
    by (simp add: forget_def upsertIdpPrincipalTenant_def tx_bind_def tx_update_def tx_references_def known_org_def
        tx_insert_def tx_ret_def tx_read_def revokeIdpPrincipalTenant_def listIdpPrincipalTenantsForSub_def
        mapping_of_def demo_world_def new_row_defs no_accounts_def)
  then obtain m where m: "snd ?l = Inr [m]" "im_tenant m = ''a''" by blast
  have "im_revoked m \<noteq> None"
    by (rule idp_revocation_sticks [OF r _ _ m(1) _ m(2)]) (simp_all add: restores_def)
  with r m(1) show ?thesis by (metis list.sel(1) list.distinct(1))
qed

section \<open>The lockout ladder\<close>

text \<open>Consecutive failures of one account, at any instants.\<close>

definition failures :: "string \<Rightarrow> moment list \<Rightarrow> (moment \<times> auth_op) list" where
  "failures i mos = map (\<lambda>mo. (mo, Do_recordFailedLogin i)) mos"

lemma recordFailedLogin_user:
  assumes "find (\<lambda>u. u_id u = i) (users s) = Some u"
  shows "find (\<lambda>u. u_id u = i) (users (fst (exec cf mo (Do_recordFailedLogin i) s)))
    = Some (u\<lparr>u_failed_login_count := u_failed_login_count u + 1,
         u_locked_until := (if 5 \<le> u_failed_login_count u + 1
            then Some (mo_now mo + lock_minutes (u_failed_login_count u + 1) * 60000) else None),
         u_updated_at := mo_now mo\<rparr>)"
  using assms by (simp add: forget_state recordFailedLogin_def getUserById_def update_user_def Let_def tx_ret_def find_map_same)

lemma failures_count:
  assumes "find (\<lambda>u. u_id u = i) (users s) = Some u" "mos \<noteq> []"
  shows "\<exists>u'. find (\<lambda>u. u_id u = i) (users (history cf (failures i mos) s)) = Some u'
     \<and> u_failed_login_count u' = u_failed_login_count u + length mos
     \<and> u_locked_until u' = (if 5 \<le> u_failed_login_count u'
          then Some (mo_now (last mos) + lock_minutes (u_failed_login_count u') * 60000) else None)"
  using assms(2)
proof (induction mos rule: rev_nonempty_induct)
  case (single mo)
  then show ?case using recordFailedLogin_user [OF assms(1), of cf mo] by (simp add: failures_def)
next
  case (snoc mo mos)
  then obtain u' where "find (\<lambda>u. u_id u = i) (users (history cf (failures i mos) s)) = Some u'"
    "u_failed_login_count u' = u_failed_login_count u + length mos" by blast
  then show ?case
    using recordFailedLogin_user [of i "history cf (failures i mos) s" u' cf mo] by (simp add: failures_def history_append)
qed

text \<open>
  The lockout ladder: an account with a clean slate is not locked by up to four consecutive
  failures; after the fifth it is locked for five minutes from the last one, every further
  failure doubles the time, and no lock is longer than an hour.
\<close>

theorem lockout_ladder:
  assumes "find (\<lambda>u. u_id u = i) (users s) = Some u" "u_failed_login_count u = 0" "mos \<noteq> []"
  shows "\<exists>u'. find (\<lambda>u. u_id u = i) (users (history cf (failures i mos) s)) = Some u'
     \<and> (\<forall>mo. isLocked mo u' = (5 \<le> length mos \<and>
          mo_now mo < mo_now (last mos) + min 3600000 (300000 * 2 ^ (length mos - 5))))"
  using failures_count [OF assms(1,3), of cf] assms(2)
  by (auto simp: isLocked_def lock_minutes_def min_def)

lemma lockout_ladder_witness:
  "\<exists>u'. find (\<lambda>u. u_id u = ''ai'') (users (history demo_cfg (failures ''ai'' (replicate 6 (demo_moment 3 ''d''))) demo_world)) = Some u'
     \<and> isLocked (demo_moment 600002 ''e'') u' \<and> \<not> isLocked (demo_moment 600003 ''e'') u'"
proof -
  have u: "find (\<lambda>u. u_id u = ''ai'') (users demo_world) = Some (new_user (demo_moment 0 ''a'') 1 ''al@x.io'' ''pw'' None None)"
    by (simp add: demo_world_def new_user_def)
  have "replicate 6 (demo_moment 3 ''d'') \<noteq> []" "last (replicate 6 (demo_moment 3 ''d'')) = demo_moment 3 ''d''" by simp_all
  then show ?thesis
    using lockout_ladder [OF u, of "replicate 6 (demo_moment 3 ''d'')" demo_cfg] by (auto simp: new_user_def)
qed

end
