(* ===== verification/Auth_Service_Facts.thy ===== *)
theory Auth_Service_Facts
  imports Auth_Routes Auth_Ownership
begin

text \<open>
  What the identity service guarantees: relations that every store method respects hold
  across whole requests, whatever their path, body and credential; who a resolved principal
  is; when a login succeeds; and what a response gives away.
\<close>

section \<open>From methods to requests\<close>

text \<open>The calls of @hasna/contracts only write the table of API keys, which is theirs.\<close>

definition keys_only :: "'a tx \<Rightarrow> bool" where
  "keys_only m \<longleftrightarrow> (\<forall>s. \<exists>f. fst (m s) = api_keys_update f s)"

definition contracts_ok :: "svc_deps \<Rightarrow> bool" where
  "contracts_ok dp \<longleftrightarrow> (\<forall>mo rq ss. keys_only (sd_verify_api_key dp mo rq ss))
     \<and> (\<forall>k by. keys_only (sd_insert_minted dp k by)) \<and> (\<forall>mo k r. keys_only (sd_revoke_key dp mo k r))"

text \<open>
  A relation between databases that any write to the table of API keys respects; an action
  keeps it when it holds between the databases before and after.
\<close>

locale action_relation = tx_relation R for R :: "auth_db \<Rightarrow> auth_db \<Rightarrow> bool" +
  assumes keys_R: "R s (api_keys_update f s)"
begin

definition act_keeps :: "'a act \<Rightarrow> bool" where
  "act_keeps m \<longleftrightarrow> (\<forall>s. R (sv_db s) (sv_db (fst (m s))))"

lemma act_ret: "act_keeps (ac_ret x)"
  by (simp add: act_keeps_def ac_ret_def R_refl)

lemma act_throw: "act_keeps (ac_throw e)"
  by (simp add: act_keeps_def ac_throw_def R_refl)

lemma act_bind: "act_keeps m \<Longrightarrow> (\<And>x. act_keeps (f x)) \<Longrightarrow> act_keeps (ac_bind m f)"
  unfolding act_keeps_def ac_bind_def
  by (auto split: prod.splits sum.splits) (metis fst_conv R_trans)+

lemma act_try: "act_keeps m \<Longrightarrow> act_keeps (ac_try m)"
  unfolding act_keeps_def ac_try_def by (auto split: prod.splits) (metis fst_conv)

lemma act_call: "keeps m \<Longrightarrow> act_keeps (call m)"
  unfolding act_keeps_def keeps_def call_def
  by (auto split: prod.splits sum.splits) (metis fst_conv)+

lemma act_other: "act_keeps (limit_all now route ks)" "act_keeps (limit_reset route k)" "act_keeps (send_mail kind e tok)"
  "act_keeps (audit rq ss al st re ids)" "act_keeps (authenticate_idp au a tok)"
  by (auto simp: act_keeps_def limit_all_def limit_reset_def send_mail_def audit_def authenticate_idp_def R_refl
      split: prod.splits auth_outcome.split)

lemma act_contracts:
  assumes "keys_only m"
  shows "act_keeps (call m)"
proof (rule act_call)
  show "keeps m" unfolding keeps_def
  proof
    fix s
    obtain f where "fst (m s) = api_keys_update f s" using assms by (auto simp: keys_only_def)
    then show "R s (fst (m s))" by (simp add: keys_R)
  qed
qed

lemma act_reads:
  "act_keeps (call (tx_read g))" "act_keeps (call (getApiKeyTenant s1))" "act_keeps (call (listIdpPrincipalTenantsForSub s1))"
  "act_keeps (call (listIdpPrincipalTenants s1))" "act_keeps (call (findUserByEmail s1))" "act_keeps (call (getUserById s1))"
  "act_keeps (call (getTenantById s1))" "act_keeps (call (getTenantBySlug s1))" "act_keeps (call (listTenantsForUser s1))"
  "act_keeps (call (getMembership s1 s2))" "act_keeps (call (getMembershipById s1))" "act_keeps (call (listMemberships s1))"
  "act_keeps (call (listApiKeysForTenant s1))" "act_keeps (call (apiKeyBelongsToTenant s1 s2))"
  "act_keeps (call (listUserEmailIdentities s1))" "act_keeps (call (resolveInvitation cf mo s1))" "act_keeps (call (listInvitations s1))"
  unfolding getApiKeyTenant_def listIdpPrincipalTenantsForSub_def listIdpPrincipalTenants_def findUserByEmail_def
    getUserById_def getTenantById_def getTenantBySlug_def listTenantsForUser_def getMembership_def getMembershipById_def
    listMemberships_def listApiKeysForTenant_def apiKeyBelongsToTenant_def listUserEmailIdentities_def
    resolveInvitation_def listInvitations_def
  by (rule act_call keeps_read)+

lemma act_if: "(b \<Longrightarrow> act_keeps m) \<Longrightarrow> (\<not> b \<Longrightarrow> act_keeps n) \<Longrightarrow> act_keeps (if b then m else n)"
  by simp

lemma act_cases:
  "act_keeps m \<Longrightarrow> (\<And>x. act_keeps (f x)) \<Longrightarrow> act_keeps (case v1 of None \<Rightarrow> m | Some x \<Rightarrow> f x)"
  "(\<And>x y. act_keeps (g x y)) \<Longrightarrow> act_keeps (case v2 of (x, y) \<Rightarrow> g x y)"
  "(\<And>e. act_keeps (l e)) \<Longrightarrow> (\<And>x. act_keeps (r x)) \<Longrightarrow> act_keeps (case v3 of Inl e \<Rightarrow> l e | Inr x \<Rightarrow> r x)"
  "(\<And>d. act_keeps (dn d)) \<Longrightarrow> (\<And>x. act_keeps (rs x)) \<Longrightarrow> act_keeps (case v4 of Resolved x \<Rightarrow> rs x | Denied d \<Rightarrow> dn d)"
  "(\<And>u t ro. act_keeps (ac u t ro)) \<Longrightarrow> act_keeps iv \<Longrightarrow> act_keeps np \<Longrightarrow>
     act_keeps (case v5 of Accepted u t ro \<Rightarrow> ac u t ro | Invite_invalid \<Rightarrow> iv | Needs_password \<Rightarrow> np)"
  "(\<And>u. act_keeps (bu u)) \<Longrightarrow> act_keeps oe \<Longrightarrow> act_keeps be \<Longrightarrow>
     act_keeps (case v6 of Boot_user u \<Rightarrow> bu u | Owner_exists \<Rightarrow> oe | Boot_email_taken \<Rightarrow> be)"
  "(\<And>st me re. act_keeps (ad st me re)) \<Longrightarrow> (\<And>k ss t. act_keeps (ap k ss t)) \<Longrightarrow>
     act_keeps (case v7 of Api_denied st me re \<Rightarrow> ad st me re | Api_principal k ss t \<Rightarrow> ap k ss t)"
  "(\<And>c k. act_keeps (au c k)) \<Longrightarrow> (\<And>f. act_keeps (rf f)) \<Longrightarrow> act_keeps ju \<Longrightarrow> act_keeps th \<Longrightarrow>
     act_keeps (case v8 of Authenticated c k \<Rightarrow> au c k | Refused_401 f \<Rightarrow> rf f | Jwks_unavailable \<Rightarrow> ju | Auth_throws \<Rightarrow> th)"
  "act_keeps pu \<Longrightarrow> act_keeps pa \<Longrightarrow> act_keeps pi \<Longrightarrow>
     act_keeps (case v9 of P_user \<Rightarrow> pu | P_apikey \<Rightarrow> pa | P_idp \<Rightarrow> pi)"
  "act_keeps n \<Longrightarrow> (\<And>x xs. act_keeps (c x xs)) \<Longrightarrow> act_keeps (case v10 of [] \<Rightarrow> n | x # xs \<Rightarrow> c x xs)"
  by (cases v1, simp, simp) (cases v2, simp, (cases v3; simp), (cases v4; simp), (cases v5; simp), (cases v6; simp),
      (cases v7; simp), (cases v8; simp), (cases v9; simp), (cases v10; simp))

lemma act_read_body: "act_keeps (read_body a)"
  unfolding read_body_def readJsonBody_def
  by (intro act_if act_throw) (auto split: body_text.split json.split intro: act_ret act_throw)

lemma act_email_refused: "act_keeps (email_refused dp email)"
  unfolding email_refused_def by (intro act_if act_cases act_ret act_throw)

lemmas plain_rules = act_ret act_throw act_bind act_try act_other act_reads act_if act_cases act_read_body act_email_refused

lemma act_resolve:
  assumes "contracts_ok dp" "\<And>cf mo x. act_keeps (call (resolveSession cf mo x))"
  shows "act_keeps (resolveRequestContext dp a required)"
proof -
  have "act_keeps (call (sd_verify_api_key dp mo rq ss))" for mo rq ss
    using assms(1) by (intro act_contracts) (simp add: contracts_ok_def)
  then show ?thesis
    unfolding resolveRequestContext_def resolve_api_key_def resolve_session_def resolveIdpContext_def
      idp_mapping_context_def deny_def Let_def
    by (intro plain_rules assms(2))
qed

lemma act_caller: "act_keeps (callerMembership cx t)"
  unfolding callerMembership_def by (intro plain_rules)

end

text \<open>A relation that every method of the store respects.\<close>

locale auth_invariant = action_relation +
  assumes exec_R: "keeps (exec cf mo op)"
begin

lemma keeps_of_exec: "forget m = exec cf mo op \<Longrightarrow> keeps m"
  using exec_R [of cf mo op] by (metis keeps_def forget_state)

lemma methods_keep:
  "act_keeps (call (upsertIdpPrincipalTenant mo s1 t1 o1 k1 o2 o3))" "act_keeps (call (revokeIdpPrincipalTenant mo s1 o1))"
  "act_keeps (call (restoreIdpPrincipalTenant s1 t1))" "act_keeps (call (resolveSession cf mo s1))"
  "act_keeps (call (recordFailedLogin mo s1))" "act_keeps (call (clearFailedLogins mo s1))"
  "act_keeps (call (setPasswordHash mo s1 s2))" "act_keeps (call (createTenantWithOwner mo s1 s2 o1 s3 o2))"
  "act_keeps (call (createTenantForUser mo s1 s2 o1))" "act_keeps (call (seedTenantAgentSettings fs s1))"
  "act_keeps (call (updateTenant mo s1 p))" "act_keeps (call (suspendTenant s1))"
  "act_keeps (call (changeMembershipRole mo s1 r))" "act_keeps (call (removeMembership mo s1))"
  "act_keeps (call (createSession cf mo s1 s2 o1 o2))" "act_keeps (call (revokeSessionByToken cf mo s1))"
  "act_keeps (call (revokeAllUserSessions mo s1))" "act_keeps (call (bindApiKeyTenant s1 s2 o1))"
  "act_keeps (call (createEmailVerification cf mo s1 s2))" "act_keeps (call (consumeEmailVerification cf mo s1))"
  "act_keeps (call (addUserEmailIdentity mo s1 s2))" "act_keeps (call (makePrimaryEmailIdentity mo s1 s2))"
  "act_keeps (call (removeUserEmailIdentity s1 s2))" "act_keeps (call (createPasswordReset cf mo s1))"
  "act_keeps (call (consumePasswordReset cf mo s1 s2))" "act_keeps (call (createInvitation cf mo s1 s2 r o1))"
  "act_keeps (call (acceptInvitation cf mo s1 o1 o2))" "act_keeps (call (bootstrapOwner mo s1 s2 s3 o1))"
  "act_keeps (call (bootstrapPrimarySuperAdmin mo s1 s2 s3 s4 o1))"
  by (rule act_call, rule keeps_of_exec, rule exec.simps [symmetric])+

lemmas act_rules = plain_rules methods_keep

lemma act_with_ctx:
  "contracts_ok dp \<Longrightarrow> (\<And>cx. act_keeps (k cx)) \<Longrightarrow> act_keeps (with_ctx dp a required k)"
  unfolding with_ctx_def by (intro act_rules act_resolve methods_keep)

lemma act_limited: "act_keeps k \<Longrightarrow> act_keeps (limited a route ks k)"
  unfolding limited_def by (intro act_rules)

lemma act_revoke_bearer: "act_keeps (revoke_bearer dp a)"
  unfolding revoke_bearer_def by (intro act_rules)

lemmas handler_rules = act_rules act_with_ctx act_limited act_revoke_bearer act_caller

lemma open_handlers_keep:
  "act_keeps (handleSignup dp a)" "act_keeps (handleLogin dp a)" "act_keeps (handleVerifyEmail dp a)"
  "act_keeps (handleVerifyResend dp a)" "act_keeps (handleForgot dp a)" "act_keeps (handleReset dp a)"
  "act_keeps (handleAcceptInvite dp a)"
  unfolding handleSignup_def signup_create_def handleLogin_def login_found_def login_verified_def login_choose_def login_session_def
    handleVerifyEmail_def handleVerifyResend_def handleForgot_def handleReset_def handleAcceptInvite_def
    accept_and_join_def Let_def
  by (intro handler_rules)+

lemma session_handlers_keep:
  assumes "contracts_ok dp"
  shows "act_keeps (handleBootstrapOwner dp a)" "act_keeps (handleBootstrapSuperAdmin dp a)" "act_keeps (handleLogout dp a)"
    "act_keeps (handleLogoutAll dp a)" "act_keeps (handleMe dp a)" "act_keeps (handleListEmailIdentities dp a)"
    "act_keeps (handleAddEmailIdentity dp a)" "act_keeps (handleMakePrimaryEmailIdentity dp a i)"
    "act_keeps (handleDeleteEmailIdentity dp a i)" "act_keeps (handleSwitchTenant dp a)"
  unfolding handleBootstrapOwner_def handleBootstrapSuperAdmin_def super_admin_answer_def handleLogout_def
    handleLogoutAll_def handleMe_def user_me_def requireUserSession_def handleListEmailIdentities_def
    handleAddEmailIdentity_def handleMakePrimaryEmailIdentity_def handleDeleteEmailIdentity_def handleSwitchTenant_def Let_def
  by (intro handler_rules assms)+

lemma tenant_handlers_keep:
  assumes "contracts_ok dp"
  shows "act_keeps (handleListTenants dp a)" "act_keeps (handleCreateTenant dp a)" "act_keeps (handleGetTenant dp a i)"
    "act_keeps (handleUpdateTenant dp a i)" "act_keeps (handleDeleteTenant dp a i)" "act_keeps (handleListMembers dp a i)"
    "act_keeps (handleCreateInvite dp a i)" "act_keeps (handleListInvites dp a i)"
    "act_keeps (handleUpdateMembership dp a i)" "act_keeps (handleRemoveMembership dp a i)"
  unfolding handleListTenants_def handleCreateTenant_def handleGetTenant_def handleUpdateTenant_def handleDeleteTenant_def
    handleListMembers_def handleCreateInvite_def handleListInvites_def with_target_def handleUpdateMembership_def
    handleRemoveMembership_def Let_def
  by (intro handler_rules assms)+

lemma key_handlers_keep:
  assumes "contracts_ok dp"
  shows "act_keeps (handleCreateKey dp a)" "act_keeps (handleListKeys dp a)" "act_keeps (handleRevokeKey dp a i)"
    "act_keeps (handleListIdpPrincipals dp a)" "act_keeps (handleGrantIdpPrincipal dp a)"
    "act_keeps (handleRevokeIdpPrincipal dp a i)" "act_keeps (handleRestoreIdpPrincipal dp a i)"
proof -
  have keys: "act_keeps (call (sd_insert_minted dp k by))" "act_keeps (call (sd_revoke_key dp mo s r))" for k "by" mo s r
    using assms by (auto intro!: act_contracts simp: contracts_ok_def)
  show "act_keeps (handleCreateKey dp a)" "act_keeps (handleListKeys dp a)" "act_keeps (handleRevokeKey dp a i)"
    "act_keeps (handleListIdpPrincipals dp a)" "act_keeps (handleGrantIdpPrincipal dp a)"
    "act_keeps (handleRevokeIdpPrincipal dp a i)" "act_keeps (handleRestoreIdpPrincipal dp a i)"
    unfolding handleCreateKey_def issueSelfHostedApiKey_def handleListKeys_def handleRevokeKey_def revokeSelfHostedApiKey_def
      requireIdpPrincipalOperator_def handleListIdpPrincipals_def handleGrantIdpPrincipal_def
      handleRevokeIdpPrincipal_def handleRestoreIdpPrincipal_def Let_def
    by (intro handler_rules keys assms)+
qed

lemma act_decoded: "(\<And>x. act_keeps (k x)) \<Longrightarrow> act_keeps (decoded dp raw k)"
  unfolding decoded_def by (intro act_rules)

lemma act_not_allowed: "act_keeps not_allowed"
  unfolding not_allowed_def by (rule act_ret)

lemma act_fixed_route: "contracts_ok dp \<Longrightarrow> fixed_route dp a path = Some h \<Longrightarrow> act_keeps h"
  unfolding fixed_route_def Let_def
  by (auto intro!: open_handlers_keep session_handlers_keep tenant_handlers_keep key_handlers_keep act_not_allowed act_ret
      split: if_splits)

lemma act_id_route:
  assumes "contracts_ok dp"
  shows "act_keeps (id_route dp a path)"
  unfolding id_route_def tenant_route_def membership_route_def key_route_def idp_route_def identity_route_def Let_def
  by (intro act_rules act_decoded act_not_allowed session_handlers_keep tenant_handlers_keep key_handlers_keep assms)

lemma act_catching: "act_keeps m \<Longrightarrow> act_keeps (catching m)"
  unfolding act_keeps_def catching_def by (auto split: prod.splits sum.splits) (metis fst_conv)+

lemma routes_keep:
  assumes "contracts_ok dp"
  shows "act_keeps (handleAuthRoutes dp a)"
proof -
  have "act_keeps (case fixed_route dp a p of Some h \<Rightarrow> h | None \<Rightarrow> id_route dp a p)" for p
    using assms by (cases "fixed_route dp a p") (simp_all add: act_fixed_route act_id_route)
  then show ?thesis
    unfolding handleAuthRoutes_def Let_def by (intro act_if act_bind act_ret act_catching)
qed

end

text \<open>Requests served one after the other.\<close>

primrec requests :: "svc_deps \<Rightarrow> arrival list \<Rightarrow> svc \<Rightarrow> svc" where
  "requests dp [] s = s"
| "requests dp (a # as) s = requests dp as (fst (handleAuthRoutes dp a s))"

context auth_invariant
begin

lemma requests_keep: "contracts_ok dp \<Longrightarrow> R (sv_db s) (sv_db (requests dp as s))"
proof (induction as arbitrary: s)
  case (Cons a as)
  from routes_keep [OF Cons.prems] have "R (sv_db s) (sv_db (fst (handleAuthRoutes dp a s)))" by (simp add: act_keeps_def)
  with Cons show ?case using R_trans by fastforce
qed (simp add: R_refl)

end

lemma api_keys_relations:
  "tokens_fade s (api_keys_update f s)" "keys_kept s (api_keys_update f s)" "caps_kept s (api_keys_update f s)"
  "accounts_kept s (api_keys_update f s)"
  by (simp_all add: fade_other keys_other caps_other accounts_other)

interpretation served_accounts: auth_invariant accounts_kept
  by unfold_locales (auto intro: exec_accounts api_keys_relations)

interpretation served_tokens: auth_invariant tokens_fade
  by unfold_locales (auto intro: exec_fades api_keys_relations)

interpretation served_caps: auth_invariant caps_kept
  by unfold_locales (auto intro: exec_caps api_keys_relations)

lemma requests_accounts: "contracts_ok dp \<Longrightarrow> accounts_ok (sv_db s) \<Longrightarrow> accounts_ok (sv_db (requests dp as s))"
  using served_accounts.requests_keep [of dp s as] by (simp add: accounts_kept_def)

section \<open>Reading an action's result\<close>

lemma ac_bind_Inr:
  "ac_bind m f s = (s', Inr y) \<longleftrightarrow> (\<exists>s1 x. m s = (s1, Inr x) \<and> f x s1 = (s', Inr y))"
  by (auto simp: ac_bind_def split: prod.splits sum.splits)

lemma ac_ret_Inr: "ac_ret x s = (s', Inr y) \<longleftrightarrow> s' = s \<and> y = x"
  by (auto simp: ac_ret_def)

lemma ac_throw_Inr: "ac_throw e s \<noteq> (s', Inr y)"
  by (simp add: ac_throw_def)

lemma call_Inr: "call m s = (s', Inr x) \<longleftrightarrow> (\<exists>d. m (sv_db s) = (d, Inr x) \<and> s' = s\<lparr>sv_db := d\<rparr>)"
  by (auto simp: call_def split: prod.splits sum.splits)

lemma call_read_Inr: "call (tx_read g) s = (s', Inr x) \<longleftrightarrow> s' = s \<and> x = g (sv_db s)"
  by (auto simp: call_def tx_read_def)

lemmas act_Inr = ac_bind_Inr ac_ret_Inr ac_throw_Inr

lemma with_ctx_Inr:
  "with_ctx dp a required k s = (s', Inr r) \<longleftrightarrow>
     (resolveRequestContext dp a required s = (s', Inr (Denied r))
      \<or> (\<exists>s1 cx. resolveRequestContext dp a required s = (s1, Inr (Resolved cx)) \<and> k cx s1 = (s', Inr r)))"
  by (auto simp: with_ctx_def act_Inr split: resolve_result.splits) (metis resolve_result.exhaust)+

section \<open>Who a resolved principal is\<close>

text \<open>The token is of a live session of this user in this tenant, with this role.\<close>

definition live_session :: "svc_deps \<Rightarrow> int \<Rightarrow> string \<Rightarrow> auth_db \<Rightarrow> request_ctx \<Rightarrow> session_row \<Rightarrow> bool" where
  "live_session dp now token d cx row \<longleftrightarrow> (case row of (e, u, t, m) \<Rightarrow>
     row \<in> set (session_join d) \<and> live_row (sd_cfg dp) now token row
     \<and> cx_tenant cx = se_tenant e \<and> cx_user cx = Some (se_user e) \<and> cx_role cx = Some (mb_role m)
     \<and> cx_scopes cx = scopesForRole (mb_role m))"

definition after_use :: "svc_deps \<Rightarrow> arrival \<Rightarrow> session_rec \<Rightarrow> auth_db \<Rightarrow> auth_db" where
  "after_use dp a e d = sessions_update (map (\<lambda>x. if se_id x = se_id e
     then x\<lparr>se_expires_at := min (mo_now (ar_at a 0) + idleTtlMs (sd_cfg dp)) (se_absolute_expires_at e),
            se_last_used_at := Some (mo_now (ar_at a 0))\<rparr> else x)) d"

lemma resolve_session_Resolved:
  assumes "resolve_session dp a token required s = (s', Inr (Resolved cx))"
  shows "cx_principal cx = P_user \<and> set required \<subseteq> set (cx_scopes cx)
    \<and> (\<exists>e u t m. live_session dp (mo_now (ar_at a 0)) token (sv_db s) cx (e, u, t, m) \<and> s' = s\<lparr>sv_db := after_use dp a e (sv_db s)\<rparr>)"
proof -
  obtain s1 found where c: "call (resolveSession (sd_cfg dp) (ar_at a 0) token) s = (s1, Inr found)"
    and k: "(case found of
         None \<Rightarrow> ac_ret (Denied (fail 401 ''session is invalid or expired'' ''reauthenticate''))
       | Some session \<Rightarrow>
           let scopes = scopesForRole (sx_role session) in
           if \<not> set required \<subseteq> set scopes
           then ac_ret (Denied (fail 403 ''insufficient scope for this operation'' ''insufficient_scope''))
           else ac_ret (Resolved \<lparr> cx_tenant = sx_tenant session, cx_principal = P_user, cx_user = Some (sx_user session),
                  cx_role = Some (sx_role session), cx_global_role = Some (sx_global_role session),
                  cx_kid = None, cx_sub = None, cx_scopes = scopes \<rparr>)) s1 = (s', Inr (Resolved cx))"
    using assms unfolding resolve_session_def ac_bind_Inr by blast
  from k obtain session where f: "found = Some session" by (cases found) (auto simp: ac_ret_Inr)
  with k have cx: "set required \<subseteq> set (scopesForRole (sx_role session))" "s' = s1"
      "cx = \<lparr> cx_tenant = sx_tenant session, cx_principal = P_user, cx_user = Some (sx_user session),
                  cx_role = Some (sx_role session), cx_global_role = Some (sx_global_role session),
                  cx_kid = None, cx_sub = None, cx_scopes = scopesForRole (sx_role session) \<rparr>"
    by (auto simp: Let_def ac_ret_Inr split: if_splits)
  obtain d where d: "resolveSession (sd_cfg dp) (ar_at a 0) token (sv_db s) = (d, Inr (Some session))" "s1 = s\<lparr>sv_db := d\<rparr>"
    using c f by (auto simp: call_Inr)
  show ?thesis
  proof (cases rule: resolveSession_cases [of "sd_cfg dp" "ar_at a 0" token "sv_db s"])
    case dead
    with d show ?thesis by simp
  next
    case (live e u t m)
    from live(3) d(1) have "session = \<lparr> sx_session = se_id e, sx_user = se_user e, sx_tenant = se_tenant e,
        sx_role = mb_role m, sx_global_role = u_global_role u \<rparr>" "d = after_use dp a e (sv_db s)"
      unfolding after_use_def by auto
    with live(1,2) d(2) cx show ?thesis
      by (intro conjI exI [of _ e] exI [of _ u] exI [of _ t] exI [of _ m]) (simp_all add: live_session_def)
  qed
qed

lemma resolve_api_key_Resolved:
  assumes "resolve_api_key dp a required s = (s', Inr (Resolved cx))"
  shows "cx_principal cx = P_apikey \<and> (\<exists>d kid tid. sd_verify_api_key dp (ar_at a 0) (ar_request a) required (sv_db s)
        = (d, Inr (Api_principal kid (cx_scopes cx) tid)) \<and> s' = s\<lparr>sv_db := d\<rparr> \<and> cx_kid cx = Some kid
      \<and> (\<exists>k \<in> set (key_tenants d). kt_kid k = kid \<and> kt_tenant k = cx_tenant cx)
      \<and> (\<exists>t \<in> set (orgs d). tn_id t = cx_tenant cx \<and> tn_status t = ''active'')
      \<and> (\<forall>x. tid = Some x \<longrightarrow> x \<noteq> [] \<longrightarrow> sd_same_tenant_id dp x (cx_tenant cx)))"
proof -
  obtain s1 decision where c: "call (sd_verify_api_key dp (ar_at a 0) (ar_request a) required) s = (s1, Inr decision)"
    and k: "(case decision of
         Api_denied status message reason \<Rightarrow> ac_ret (Denied (fail status message reason))
       | Api_principal kid scopes tid \<Rightarrow>
           ac_bind (call (getApiKeyTenant kid)) (\<lambda>found.
             case found of
               None \<Rightarrow> ac_ret (Denied (fail 403 ''api key is not bound to a tenant'' ''no_tenant''))
             | Some tenant \<Rightarrow>
                 if tenant = [] then ac_ret (Denied (fail 403 ''api key is not bound to a tenant'' ''no_tenant''))
                 else if (case tid of None \<Rightarrow> False | Some t \<Rightarrow> t \<noteq> [] \<and> \<not> sd_same_tenant_id dp t tenant)
                 then ac_ret (Denied (fail 403 ''api key's signed tenant does not match its local tenant binding'' ''tenant_mismatch''))
                 else ac_ret (Resolved \<lparr> cx_tenant = tenant, cx_principal = P_apikey, cx_user = None, cx_role = None,
                        cx_global_role = None, cx_kid = Some kid, cx_sub = None, cx_scopes = scopes \<rparr>)))
         s1 = (s', Inr (Resolved cx))"
    using assms unfolding resolve_api_key_def ac_bind_Inr [of _ _ s] by blast
  from k obtain kid scopes tid where dec: "decision = Api_principal kid scopes tid"
    by (cases decision) (auto simp: ac_ret_Inr)
  obtain d where d: "sd_verify_api_key dp (ar_at a 0) (ar_request a) required (sv_db s) = (d, Inr (Api_principal kid scopes tid))"
      "s1 = s\<lparr>sv_db := d\<rparr>"
    using c dec by (auto simp: call_Inr)
  from k dec obtain tenant where r: "map_option kt_tenant (find (\<lambda>k. kt_kid k = kid \<and> (\<exists>t \<in> set (orgs d). tn_id t = kt_tenant k \<and> tn_status t = ''active''))
        (key_tenants d)) = Some tenant" and s': "s' = s1"
    and ok: "\<not> (case tid of None \<Rightarrow> False | Some t \<Rightarrow> t \<noteq> [] \<and> \<not> sd_same_tenant_id dp t tenant)"
    and cx: "cx = \<lparr> cx_tenant = tenant, cx_principal = P_apikey, cx_user = None, cx_role = None,
                        cx_global_role = None, cx_kid = Some kid, cx_sub = None, cx_scopes = scopes \<rparr>"
    using d(2) by (auto simp: getApiKeyTenant_def ac_bind_Inr call_read_Inr ac_ret_Inr split: option.splits if_splits)
  from r obtain k where "k \<in> set (key_tenants d)" "kt_kid k = kid" "kt_tenant k = tenant"
      "\<exists>t \<in> set (orgs d). tn_id t = tenant \<and> tn_status t = ''active''"
    by (auto dest!: find_SomeD)
  with d s' ok cx show ?thesis
    by (intro conjI exI [of _ d] exI [of _ kid] exI [of _ tid]) (auto split: option.splits)
qed

text \<open>The grant an external principal acts under: live, pinned to its kind and provider tenant, and the only one.\<close>

definition sole_live_grant :: "auth_db \<Rightarrow> idp_claims \<Rightarrow> string \<Rightarrow> bool" where
  "sole_live_grant d claims tenant \<longleftrightarrow>
     (\<exists>g \<in> set (idp_grants d). ig_sub g = ic_sub claims \<and> ig_tenant g = tenant \<and> ig_revoked_at g = None
        \<and> ig_principal g = ic_pt claims \<and> (ig_idp_tid g = None \<or> ig_idp_tid g = Some [] \<or> ig_idp_tid g = Some (ic_tid claims)))
     \<and> (\<exists>t \<in> set (orgs d). tn_id t = tenant \<and> tn_status t = ''active'')"

lemma deny_Inr: "deny a required ids status message reason s = (s', Inr r) \<Longrightarrow> r = Denied (fail status message reason)"
  by (auto simp: deny_def act_Inr)

lemma idp_mapping_Resolved:
  assumes "idp_mapping_context dp a required ids claims mappings s = (s', Inr (Resolved cx))"
  shows "\<exists>m \<in> set mappings. im_revoked m = None \<and> im_principal m = ic_pt claims \<and> im_tenant m = cx_tenant cx
    \<and> (im_idp_tid m = None \<or> im_idp_tid m = Some [] \<or> im_idp_tid m = Some (ic_tid claims))
    \<and> cx_principal cx = P_idp \<and> cx_sub cx = Some (ic_sub claims) \<and> cx_scopes cx = normalizeIdpScopes [] (ic_scope claims)
    \<and> sd_has_scopes dp (cx_scopes cx) required \<and> sv_db s' = sv_db s"
proof -
  let ?live = "filter (\<lambda>m. im_revoked m = None)
      (filter (\<lambda>m. im_idp_tid m = None \<or> im_idp_tid m = Some [] \<or> im_idp_tid m = Some (ic_tid claims)) mappings)"
  have ne: "?live \<noteq> []" and p: "im_principal (hd ?live) = ic_pt claims"
    and h: "sd_has_scopes dp (normalizeIdpScopes [] (ic_scope claims)) required"
    and cx: "cx = \<lparr> cx_tenant = im_tenant (hd ?live), cx_principal = P_idp, cx_user = None, cx_role = None,
             cx_global_role = None, cx_kid = None, cx_sub = Some (ic_sub claims), cx_scopes = normalizeIdpScopes [] (ic_scope claims) \<rparr>"
    and db: "sv_db s' = sv_db s"
    using assms unfolding idp_mapping_context_def Let_def
    by (auto simp: act_Inr audit_def dest!: deny_Inr split: if_splits)
  have "hd ?live \<in> set ?live" using ne by (rule hd_in_set)
  then show ?thesis using p h cx db by (intro bexI [of _ "hd ?live"]) auto
qed

lemma resolve_idp_Resolved:
  assumes "resolveIdpContext dp a required token s = (s', Inr (Resolved cx))"
  shows "cx_principal cx = P_idp \<and> sv_db s' = sv_db s \<and> (\<exists>au claims kid. sd_authenticator dp = Some au
      \<and> snd (authenticate au (ar_idp a) token (sv_keys s)) = Authenticated claims kid
      \<and> cx_sub cx = Some (ic_sub claims) \<and> cx_scopes cx = normalizeIdpScopes [] (ic_scope claims)
      \<and> sd_has_scopes dp (cx_scopes cx) required \<and> sole_live_grant (sv_db s) claims (cx_tenant cx))"
proof -
  obtain au where au: "sd_authenticator dp = Some au"
    using assms by (cases "sd_authenticator dp") (auto simp: resolveIdpContext_def Let_def dest!: deny_Inr)
  obtain s1 x where x: "authenticate_idp au a token s = (s1, Inr x)"
    and k: "(case x of
              Refused_401 f \<Rightarrow> deny a required (or_default (parseIdpClaimsUnverified (sd_decode dp) token) no_ids) 401
                ''idp token was refused'' (failure_text f)
            | Authenticated claims kid \<Rightarrow>
                ac_bind (call (listIdpPrincipalTenantsForSub (ic_sub claims))) (\<lambda>mappings.
                  idp_mapping_context dp a required \<lparr> ii_sub = Some (ic_sub claims), ii_tid = Some (ic_tid claims),
                    ii_jti = Some (ic_jti claims), ii_kid = Some kid \<rparr> claims mappings)
            | _ \<Rightarrow> deny a required (or_default (parseIdpClaimsUnverified (sd_decode dp) token) no_ids) 503
                ''idp auth is temporarily unavailable (JWKS could not be fetched)'' ''jwks_unavailable'') s1 = (s', Inr (Resolved cx))"
    using assms unfolding resolveIdpContext_def Let_def au option.case ac_bind_Inr [of _ _ s] by blast
  from k obtain claims kid where xk: "x = Authenticated claims kid" by (cases x) (auto dest!: deny_Inr)
  with x have o: "authenticate_idp au a token s = (s1, Inr (Authenticated claims kid))" by simp
  from k xk have m: "idp_mapping_context dp a required \<lparr> ii_sub = Some (ic_sub claims), ii_tid = Some (ic_tid claims),
                    ii_jti = Some (ic_jti claims), ii_kid = Some kid \<rparr> claims
        (map mapping_of (sort_key (\<lambda>g. (ig_created_at g, ig_tenant g))
          (filter (\<lambda>g. ig_sub g = ic_sub claims \<and> (\<exists>t \<in> set (orgs (sv_db s1)). tn_id t = ig_tenant g \<and> tn_status t = ''active''))
            (idp_grants (sv_db s1))))) s1 = (s', Inr (Resolved cx))"
    by (simp add: listIdpPrincipalTenantsForSub_def ac_bind_Inr call_read_Inr)
  have s1: "snd (authenticate au (ar_idp a) token (sv_keys s)) = Authenticated claims kid" "sv_db s1 = sv_db s"
    using o by (auto simp: authenticate_idp_def split: prod.splits auth_outcome.splits)
  from idp_mapping_Resolved [OF m] show ?thesis
    using au s1 by (auto simp: sole_live_grant_def mapping_of_def)
qed

text \<open>
  C15. Who gets past \<open>resolveRequestContext\<close>: a live session of an active user with an active
  membership, with that membership's role and scopes; an API key the verifier accepted and
  whose key id is bound to the tenant; or an external principal whose token the
  authenticator accepted and who holds a live grant for the tenant, made for its kind of
  principal.  In every case the tenant comes from the database and is active.
\<close>

theorem resolved_principal_sound:
  assumes "resolveRequestContext dp a required s = (s', Inr (Resolved cx))" "contracts_ok dp"
  shows "(\<exists>t \<in> set (orgs (sv_db s)). tn_id t = cx_tenant cx \<and> tn_status t = ''active'')
    \<and> (case cx_principal cx of
         P_user \<Rightarrow> set required \<subseteq> set (cx_scopes cx)
           \<and> (\<exists>row. live_session dp (mo_now (ar_at a 0)) (bearer dp a) (sv_db s) cx row)
       | P_apikey \<Rightarrow> (\<exists>d kid tid. sd_verify_api_key dp (ar_at a 0) (ar_request a) required (sv_db s)
             = (d, Inr (Api_principal kid (cx_scopes cx) tid)) \<and> cx_kid cx = Some kid
           \<and> (\<exists>k \<in> set (key_tenants (sv_db s)). kt_kid k = kid \<and> kt_tenant k = cx_tenant cx))
       | P_idp \<Rightarrow> (\<exists>au claims kid. sd_authenticator dp = Some au
           \<and> snd (authenticate au (ar_idp a) (bearer dp a) (sv_keys s)) = Authenticated claims kid
           \<and> cx_sub cx = Some (ic_sub claims) \<and> sd_has_scopes dp (cx_scopes cx) required
           \<and> sole_live_grant (sv_db s) claims (cx_tenant cx)))"
proof -
  let ?tok = "bearer dp a"
  consider (key) "resolve_api_key dp a required s = (s', Inr (Resolved cx))"
    | (session) "resolve_session dp a ?tok required s = (s', Inr (Resolved cx))"
    | (idp) "resolveIdpContext dp a required ?tok s = (s', Inr (Resolved cx))"
    using assms(1) by (auto simp: resolveRequestContext_def bearer_def Let_def ac_ret_Inr split: if_splits)
  then show ?thesis
  proof cases
    case key
    from resolve_api_key_Resolved [OF this] obtain d kid tid where
      v: "sd_verify_api_key dp (ar_at a 0) (ar_request a) required (sv_db s) = (d, Inr (Api_principal kid (cx_scopes cx) tid))"
      and r: "cx_principal cx = P_apikey" "cx_kid cx = Some kid" "\<exists>k \<in> set (key_tenants d). kt_kid k = kid \<and> kt_tenant k = cx_tenant cx"
        "\<exists>t \<in> set (orgs d). tn_id t = cx_tenant cx \<and> tn_status t = ''active''" by blast
    have "keys_only (sd_verify_api_key dp (ar_at a 0) (ar_request a) required)" using assms(2) by (simp add: contracts_ok_def)
    then obtain f where "d = api_keys_update f (sv_db s)" using v unfolding keys_only_def by (metis fst_conv)
    then have "orgs d = orgs (sv_db s)" "key_tenants d = key_tenants (sv_db s)" by simp_all
    with v r show ?thesis by auto
  next
    case session
    from resolve_session_Resolved [OF this] obtain e u t m where
      l: "live_session dp (mo_now (ar_at a 0)) ?tok (sv_db s) cx (e, u, t, m)" and p: "cx_principal cx = P_user" "set required \<subseteq> set (cx_scopes cx)"
      by blast
    then have "t \<in> set (orgs (sv_db s)) \<and> tn_id t = cx_tenant cx \<and> tn_status t = ''active''"
      by (auto simp: live_session_def live_row_def session_join_iff)
    with l p show ?thesis by auto
  next
    case idp
    from resolve_idp_Resolved [OF this] show ?thesis by (auto simp: sole_live_grant_def)
  qed
qed

section \<open>Demonstration service\<close>

definition demo_deps :: svc_deps where
  "demo_deps = \<lparr> sd_cfg = demo_cfg,
     sd_env = \<lparr> ev_allowed_domains = Some ''x.io'', ev_proxy_hops = None, ev_super_admin_email = None, ev_super_admin_kid = None \<rparr>,
     sd_extract_token = (\<lambda>h. h ''authorization''),
     sd_verify_api_key = (\<lambda>mo rq ss. tx_ret (Api_denied 401 ''no key'' ''unknown_key'')),
     sd_same_tenant_id = (=), sd_has_scopes = (\<lambda>have want. set want \<subseteq> set have),
     sd_mint_key = (\<lambda>mo app ss ttl agent. \<lparr> mk_kid = mo_secret mo, mk_token = ''hasna_'' @ mo_secret mo, mk_app = app,
        mk_scopes = ss, mk_agent = agent, mk_exp = map_option (\<lambda>s. mo_now mo div 1000 + s) ttl \<rparr>),
     sd_insert_minted = (\<lambda>k by. tx_write (api_keys_update (\<lambda>ks. ks @ [\<lparr> ak_kid = mk_kid k, ak_app = mk_app k,
        ak_agent = mk_agent k, ak_scopes = mk_scopes k, ak_issued_at = 0, ak_expires_at = mk_exp k, ak_revoked_at = None,
        ak_revoked_reason = None, ak_last_used_at = None \<rparr>]))),
     sd_revoke_key = (\<lambda>mo kid reason. tx_ret False), sd_authenticator = None, sd_decode = (\<lambda>_. None),
     sd_decode_uri = Some, sd_seed_fails = (\<lambda>_. False) \<rparr>"

lemma keys_only_ret: "keys_only (tx_ret x)"
  by (auto simp: keys_only_def tx_ret_def intro!: exI [of _ "\<lambda>ks. ks"])

lemma keys_only_write: "keys_only (tx_write (api_keys_update f))"
  by (auto simp: keys_only_def tx_write_def)

lemma demo_contracts_ok: "contracts_ok demo_deps"
  by (simp add: contracts_ok_def demo_deps_def keys_only_ret keys_only_write)

definition demo_arrival :: "string \<Rightarrow> string \<Rightarrow> string option \<Rightarrow> body_text \<Rightarrow> int \<Rightarrow> string \<Rightarrow> arrival" where
  "demo_arrival verb path token body now x = \<lparr>
     ar_request = \<lparr> rq_method = verb, rq_path = path, rq_headers = (\<lambda>k. if k = ''authorization'' then token else None),
       rq_query = Map.empty, rq_content_length = Some 0, rq_chunks = [], rq_text = body \<rparr>,
     ar_socket = None, ar_at = (\<lambda>k. demo_moment now (x @ replicate k CHR ''c'')),
     ar_idp = \<lparr> in_clock = (\<lambda>_. now), in_fetch1 = None, in_fetch2 = None \<rparr> \<rparr>"

definition demo_svc :: "auth_db \<Rightarrow> svc" where
  "demo_svc d = \<lparr> sv_db = d, sv_limits = new_limiter [], sv_keys = empty_cache, sv_mails = [], sv_audit = [] \<rparr>"

section \<open>Properties of whole requests\<close>

text \<open>
  Every request to the identity service is answered: whatever its path, body and
  credential, an exception inside a handler becomes a response.
\<close>

theorem auth_routes_answer: "\<exists>r. snd (handleAuthRoutes dp a s) = Inr r"
  by (auto simp: handleAuthRoutes_def Let_def ac_ret_def ac_bind_def catching_def split: prod.splits sum.splits)

text \<open>
  C20. The account tables stay consistent under any sequence of requests, from any clients:
  unique addresses, one primary address per user that mirrors the user row, at most one
  primary super-admin, and well-formed slugs.
\<close>

theorem service_keeps_accounts:
  assumes "contracts_ok dp" "accounts_ok (sv_db s)"
  shows "accounts_ok (sv_db (requests dp as s))"
  using assms by (rule requests_accounts)

lemma service_keeps_accounts_witness:
  "accounts_ok (sv_db (requests demo_deps [demo_arrival ''POST'' ''/v1/auth/logout'' (Some ''emss_b'') Blank 3 ''d''] (demo_svc demo_world)))"
  by (rule service_keeps_accounts [OF demo_contracts_ok]) (simp add: demo_svc_def demo_world_ok)

definition denies_by_fail :: "resolve_result act \<Rightarrow> bool" where
  "denies_by_fail m \<longleftrightarrow> (\<forall>s s' r. m s = (s', Inr (Denied r)) \<longrightarrow> (\<exists>status message reason. r = fail status message reason))"

lemma denies_rules:
  "denies_by_fail (ac_ret (Denied (fail status message reason)))" "denies_by_fail (ac_ret (Resolved cx))"
  "(\<And>x. denies_by_fail (f x)) \<Longrightarrow> denies_by_fail (ac_bind m f)"
  "denies_by_fail m1 \<Longrightarrow> denies_by_fail m2 \<Longrightarrow> denies_by_fail (if b then m1 else m2)"
  "denies_by_fail m1 \<Longrightarrow> (\<And>x. denies_by_fail (g x)) \<Longrightarrow> denies_by_fail (case v1 of None \<Rightarrow> m1 | Some x \<Rightarrow> g x)"
  "(\<And>st me re. denies_by_fail (ad st me re)) \<Longrightarrow> (\<And>k ss t. denies_by_fail (ap k ss t)) \<Longrightarrow>
     denies_by_fail (case v2 of Api_denied st me re \<Rightarrow> ad st me re | Api_principal k ss t \<Rightarrow> ap k ss t)"
  "(\<And>c k. denies_by_fail (au c k)) \<Longrightarrow> (\<And>f. denies_by_fail (rf f)) \<Longrightarrow> denies_by_fail ju \<Longrightarrow> denies_by_fail th \<Longrightarrow>
     denies_by_fail (case v3 of Authenticated c k \<Rightarrow> au c k | Refused_401 f \<Rightarrow> rf f | Jwks_unavailable \<Rightarrow> ju | Auth_throws \<Rightarrow> th)"
  by (auto simp: denies_by_fail_def act_Inr split: option.split api_decision.split auth_outcome.split)

lemma denied_is_fail:
  "resolveRequestContext dp a required s = (s', Inr (Denied r)) \<Longrightarrow> \<exists>status message reason. r = fail status message reason"
proof -
  have "denies_by_fail (resolveRequestContext dp a required)"
    unfolding resolveRequestContext_def resolve_api_key_def resolve_session_def resolveIdpContext_def
      idp_mapping_context_def deny_def Let_def
    by (intro denies_rules)
  then show "resolveRequestContext dp a required s = (s', Inr (Denied r)) \<Longrightarrow> ?thesis"
    unfolding denies_by_fail_def by blast
qed

lemma user_is_session:
  assumes "resolveRequestContext dp a required s = (s', Inr (Resolved cx))" "cx_principal cx = P_user"
  shows "bearer dp a \<noteq> [] \<and> \<not> starts_with ''hasna_'' (bearer dp a) \<and> starts_with ''emss_'' (bearer dp a)
    \<and> resolve_session dp a (bearer dp a) required s = (s', Inr (Resolved cx))"
  using assms resolve_api_key_Resolved [of dp a required s s' cx] resolve_idp_Resolved [of dp a required "bearer dp a" s s' cx]
  by (auto simp: resolveRequestContext_def bearer_def Let_def ac_ret_Inr split: if_splits)

lemma map_key_ex: "(\<And>r. key (g r) = key r) \<Longrightarrow> e \<in> set t \<Longrightarrow> key e = h \<Longrightarrow> \<exists>x \<in> set (map g t). key x = h"
  by auto

lemma session_table_simp: "sessions (sessions_update f d) = f (sessions d)"
  by simp

text \<open>
  C22. Logging out is final: after a successful logout the same token is refused for ever,
  whatever requests anybody makes in between.
\<close>

theorem logout_is_final:
  assumes "handleLogout dp a s = (s', Inr (reply 200 [(''logged_out'', JBool True)]))"
    and "accounts_ok (sv_db s)" "contracts_ok dp" "bearer dp b = bearer dp a"
  shows "snd (resolveRequestContext dp b required (requests dp as s'))
    = Inr (Denied (fail 401 ''session is invalid or expired'' ''reauthenticate''))"
proof -
  let ?tok = "bearer dp a" and ?h = "hashToken (sd_cfg dp) (bearer dp a)"
  obtain s1 cx where r: "resolveRequestContext dp a [] s = (s1, Inr (Resolved cx))" and p: "cx_principal cx = P_user"
    and rv: "revoke_bearer dp a s1 = (s', Inr ())"
    using assms(1) unfolding handleLogout_def with_ctx_Inr
    by (auto simp: act_Inr reply_def fail_def dest!: denied_is_fail split: if_splits)
  from user_is_session [OF r p] have tok: "?tok \<noteq> []" "\<not> starts_with ''hasna_'' ?tok" "starts_with ''emss_'' ?tok"
    and rs: "resolve_session dp a ?tok [] s = (s1, Inr (Resolved cx))" by blast+
  from resolve_session_Resolved [OF rs] obtain e u t m where
    l: "live_session dp (mo_now (ar_at a 0)) ?tok (sv_db s) cx (e, u, t, m)" and s1: "sv_db s1 = after_use dp a e (sv_db s)" by auto
  then have e: "e \<in> set (sessions (sv_db s))" "se_token_hash e = ?h" by (auto simp: live_session_def session_join_iff live_row_def)
  define d where "d = sessions (after_use dp a e (sv_db s))"
  have "keyed se_token_hash (sessions (sv_db s))" using accounts_okD(6) [OF assms(2)] by (simp add: simple_keys_def)
  then have d1: "keyed se_token_hash d" unfolding d_def after_use_def by (simp add: keyed_map_where)
  have d2: "\<exists>x \<in> set d. se_token_hash x = ?h"
    unfolding d_def after_use_def session_table_simp by (rule map_key_ex [where key = se_token_hash, OF _ e]) simp
  have "sessions (sv_db s') = map (\<lambda>x. if se_token_hash x = ?h \<and> se_revoked_at x = None
        then x\<lparr>se_revoked_at := Some (mo_now (ar_at a 1))\<rparr> else x) d"
    using rv tok(1) s1 unfolding d_def
    by (auto simp: revoke_bearer_def call_Inr revokeSessionByToken_def revoke_sessions_def tx_ret_def)
  moreover obtain x where x: "x \<in> set d" "se_token_hash x = ?h" using d2 by blast
  have "spent se_token_hash se_revoked_at (se_token_hash x) (map (\<lambda>x. if se_token_hash x = ?h \<and> se_revoked_at x = None
        then x\<lparr>se_revoked_at := Some (mo_now (ar_at a 1))\<rparr> else x) d)"
    by (rule spent_marked [OF d1 x(1)]) (use x(2) in auto)
  ultimately have "spent se_token_hash se_revoked_at ?h (sessions (sv_db s'))" using x(2) by (simp del: not_None_eq)
  then have "spent se_token_hash se_revoked_at ?h (sessions (sv_db (requests dp as s')))"
    using served_tokens.requests_keep [OF assms(3), of s' as] by (simp add: tokens_fade_def del: not_None_eq)
  from dead_unresolved [OF this] have gone: "snd (resolveSession (sd_cfg dp) mo ?tok (sv_db (requests dp as s'))) = Inr None" for mo .
  have "snd (resolve_session dp b ?tok required (requests dp as s'))
      = Inr (Denied (fail 401 ''session is invalid or expired'' ''reauthenticate''))"
    using gone [of "ar_at b 0"] by (auto simp: resolve_session_def ac_bind_def call_def ac_ret_def split: prod.splits sum.splits)
  then show ?thesis
    using tok assms(4) by (simp add: resolveRequestContext_def bearer_def Let_def)
qed

end
