(* ===== verification/Auth_Guards.thy ===== *)
theory Auth_Guards
  imports Auth_Service_Facts
begin

text \<open>
  What the guards of single handlers guarantee: when a login opens a session, what the
  answers to unauthenticated callers give away, and who can change the owners of a tenant.
\<close>

section \<open>Witnesses on the demonstration service\<close>

definition demo_logout :: arrival where
  "demo_logout = demo_arrival ''POST'' ''/v1/auth/logout'' (Some ''emss_b'') Blank 3 ''d''"

lemma demo_bearer: "bearer demo_deps demo_logout = ''emss_b''"
  by (simp add: bearer_def demo_deps_def demo_logout_def demo_arrival_def or_default_def)

lemma demo_parts: "mo_now (ar_at demo_logout 0) = 3" "sv_db (demo_svc d) = d"
  by (simp_all add: demo_logout_def demo_arrival_def demo_moment_def demo_svc_def)

lemma demo_join: "session_join demo_world = [(hd (sessions demo_world), hd (users demo_world), hd (orgs demo_world), hd (memberships demo_world))]"
  by (simp add: session_join_def demo_world_def new_row_defs no_accounts_def)

lemma demo_live: "live_row demo_cfg 3 ''emss_b'' (hd (session_join demo_world))"
  unfolding demo_join by (simp add: live_row_def demo_world_def new_row_defs no_accounts_def)

lemma demo_resolve_session:
  "\<exists>d sx. resolveSession demo_cfg mo ''emss_b'' demo_world = (d, Inr (Some sx))" if "mo_now mo = 3"
  using demo_live that by (auto simp: resolveSession_def tx_bind_def tx_read_def demo_join tx_ret_def tx_update_def)

lemma demo_session_resolves:
  "\<exists>s' cx. resolveRequestContext demo_deps demo_logout [] (demo_svc demo_world) = (s', Inr (Resolved cx)) \<and> cx_principal cx = P_user"
proof -
  obtain d sx where r: "resolveSession demo_cfg (ar_at demo_logout 0) ''emss_b'' demo_world = (d, Inr (Some sx))"
    using demo_resolve_session [OF demo_parts(1)] by blast
  have cfg: "sd_cfg demo_deps = demo_cfg" by (simp add: demo_deps_def)
  have "resolve_session demo_deps demo_logout ''emss_b'' [] (demo_svc demo_world) = ((demo_svc demo_world)\<lparr>sv_db := d\<rparr>,
      Inr (Resolved \<lparr> cx_tenant = sx_tenant sx, cx_principal = P_user, cx_user = Some (sx_user sx),
        cx_role = Some (sx_role sx), cx_global_role = Some (sx_global_role sx), cx_kid = None, cx_sub = None,
        cx_scopes = scopesForRole (sx_role sx) \<rparr>))"
    using r by (simp add: resolve_session_def ac_bind_def call_def ac_ret_def cfg demo_svc_def)
  then show ?thesis
    using demo_bearer by (simp add: resolveRequestContext_def bearer_def Let_def starts_with_def)
qed

lemma resolved_principal_sound_witness:
  "\<exists>s' cx row. resolveRequestContext demo_deps demo_logout [] (demo_svc demo_world) = (s', Inr (Resolved cx))
     \<and> live_session demo_deps 3 ''emss_b'' demo_world cx row"
proof -
  obtain s' cx where r: "resolveRequestContext demo_deps demo_logout [] (demo_svc demo_world) = (s', Inr (Resolved cx))"
      "cx_principal cx = P_user"
    using demo_session_resolves by blast
  from resolved_principal_sound [OF r(1) demo_contracts_ok] show ?thesis
    using r by (auto simp: demo_bearer demo_parts)
qed

lemma demo_logs_out:
  "\<exists>s'. handleLogout demo_deps demo_logout (demo_svc demo_world) = (s', Inr (reply 200 [(''logged_out'', JBool True)]))"
proof -
  obtain s1 cx where r: "resolveRequestContext demo_deps demo_logout [] (demo_svc demo_world) = (s1, Inr (Resolved cx))"
      "cx_principal cx = P_user"
    using demo_session_resolves by blast
  then show ?thesis
    by (simp add: handleLogout_def with_ctx_def ac_bind_def ac_ret_def revoke_bearer_def demo_bearer call_def
        revokeSessionByToken_def revoke_sessions_def tx_bind_def tx_update_def tx_ret_def)
qed

lemma logout_is_final_witness:
  "\<exists>s'. handleLogout demo_deps demo_logout (demo_svc demo_world) = (s', Inr (reply 200 [(''logged_out'', JBool True)]))
   \<and> snd (resolveRequestContext demo_deps demo_logout [] (requests demo_deps [demo_logout] s'))
     = Inr (Denied (fail 401 ''session is invalid or expired'' ''reauthenticate''))"
proof -
  obtain s' where s': "handleLogout demo_deps demo_logout (demo_svc demo_world) = (s', Inr (reply 200 [(''logged_out'', JBool True)]))"
    using demo_logs_out by blast
  have "accounts_ok (sv_db (demo_svc demo_world))" by (simp add: demo_parts demo_world_ok)
  from logout_is_final [OF s' this demo_contracts_ok refl] s' show ?thesis by blast
qed

section \<open>When a login opens a session\<close>

lemma limited_Inr:
  "limited a route ks k s = (s', Inr r) \<Longrightarrow>
     \<not> rd_ok (snd (checkAll (mo_now (ar_at a 0)) route ks (sv_limits s))) \<and> (\<exists>n. r = retryLater n)
     \<or> rd_ok (snd (checkAll (mo_now (ar_at a 0)) route ks (sv_limits s)))
       \<and> k (s\<lparr>sv_limits := fst (checkAll (mo_now (ar_at a 0)) route ks (sv_limits s))\<rparr>) = (s', Inr r)"
  by (auto simp: limited_def ac_bind_def limit_all_def ac_ret_def split: prod.splits if_splits)

lemma email_refused_Inr:
  "email_refused dp email s = (s', Inr refused) \<longleftrightarrow> s' = s
     \<and> (email = [] \<and> refused \<or> email \<noteq> [] \<and> isAllowedSignupEmail (ev_allowed_domains (sd_env dp)) email = Some (\<not> refused))"
  by (auto simp: email_refused_def ac_ret_def ac_throw_def split: option.splits)

lemma readJsonBody_state: "fst (readJsonBody rq s) = s"
  by (auto simp: readJsonBody_def ac_ret_def ac_throw_def split: body_text.split json.split)

lemma read_body_Inr: "read_body a s = (s', Inr body) \<Longrightarrow> s' = s"
  using readJsonBody_state [of "ar_request a" s] by (simp add: read_body_def)

text \<open>The new session of a token: the user's, in this tenant, and not there before.\<close>

definition opens_session :: "svc_deps \<Rightarrow> json \<Rightarrow> user_rec \<Rightarrow> string \<Rightarrow> auth_db \<Rightarrow> auth_db \<Rightarrow> bool" where
  "opens_session dp token u tenant d d' \<longleftrightarrow> (\<exists>e tok. token = JStr tok \<and> sessions d' = sessions d @ [e]
     \<and> se_token_hash e = hashToken (sd_cfg dp) tok \<and> se_user e = u_id u \<and> se_tenant e = tenant \<and> se_revoked_at e = None)"

definition tells_token :: "response \<Rightarrow> json \<Rightarrow> bool" where
  "tells_token r token \<longleftrightarrow> (\<exists>kvs. rs_body r = JObj kvs \<and> (''session_token'', token) \<in> set kvs)"

lemma no_token:
  "\<not> tells_token (fail status message reason) token" "\<not> tells_token (refuse status message) token" "\<not> tells_token (retryLater n) token"
  by (auto simp: tells_token_def fail_def refuse_def retryLater_def reply_def)

lemma tells_token_reply: "tells_token (reply status kvs) token \<longleftrightarrow> (''session_token'', token) \<in> set kvs"
  by (simp add: tells_token_def reply_def)

lemma login_session_Inr:
  assumes "login_session dp a u chosen s = (s', Inr r)" "tells_token r token"
  shows "opens_session dp token u (tn_id (fst chosen)) (sv_db s) (sv_db s')"
  using assms
  by (auto simp: login_session_def act_Inr call_Inr createSession_def Let_def tx_bind_Inr tx_references_Inr tx_insert_Inr
      tx_ret_def opens_session_def tells_token_def reply_def)

text \<open>An active membership of the user in a tenant.\<close>

definition member_of :: "auth_db \<Rightarrow> user_rec \<Rightarrow> tenant_rec \<times> role \<Rightarrow> bool" where
  "member_of d u c \<longleftrightarrow> fst c \<in> set (orgs d) \<and> (\<exists>m \<in> set (memberships d). mb_tenant m = tn_id (fst c) \<and> mb_user m = u_id u
     \<and> mb_status m = ''active'' \<and> mb_role m = snd c)"

lemma listed_Inr: "call (listTenantsForUser (u_id u)) s = (s', Inr ms) \<Longrightarrow> s' = s \<and> (\<forall>c \<in> set ms. member_of (sv_db s) u c)"
  by (auto simp: listTenantsForUser_def call_read_Inr member_of_def split: if_splits)

lemma login_choose_Inr:
  assumes "login_choose dp a body u s = (s', Inr r)" "tells_token r token"
  shows "\<exists>c. member_of (sv_db s) u c \<and> opens_session dp token u (tn_id (fst c)) (sv_db s) (sv_db s')"
proof -
  obtain s1 ms where ms: "call (listTenantsForUser (u_id u)) s = (s1, Inr ms)"
    and k: "(let slug = js_lower (str (body ''tenant_slug'')) in
       if ms = [] then ac_ret (fail 403 ''your account is not a member of any organization'' ''no_tenant'')
       else if slug \<noteq> [] then
         (case find (\<lambda>m. tn_slug (fst m) = slug) ms of
            None \<Rightarrow> ac_ret (fail 403 ''you are not a member of that organization'' ''not_a_member'')
          | Some chosen \<Rightarrow> login_session dp a u chosen)
       else if 1 < length ms then
         ac_ret (reply 200 [(''needs_tenant'', JBool True), (''tenants'', JArr (map (\<lambda>m. JObj
           [(''slug'', JStr (tn_slug (fst m))), (''name'', JStr (tn_name (fst m))), (''role'', JStr (role_text (snd m)))]) ms))])
       else login_session dp a u (hd ms)) s1 = (s', Inr r)"
    using assms(1) unfolding login_choose_def ac_bind_Inr [of _ _ s] by blast
  have "\<exists>c \<in> set ms. login_session dp a u c s1 = (s', Inr r)"
    using k assms(2)
    by (auto simp: Let_def ac_ret_Inr no_token tells_token_reply dest: find_SomeD
        split: if_splits option.splits)
  with listed_Inr [OF ms] show ?thesis using login_session_Inr assms(2) by blast
qed

text \<open>Writes to the user rows that leave ids, organizations, memberships and sessions as they are.\<close>

definition touches_users :: "auth_db \<Rightarrow> auth_db \<Rightarrow> bool" where
  "touches_users d d' \<longleftrightarrow> orgs d' = orgs d \<and> memberships d' = memberships d \<and> sessions d' = sessions d"

lemma touching_calls:
  "call (setPasswordHash mo i h) s = (s', Inr x) \<Longrightarrow> touches_users (sv_db s) (sv_db s')"
  "call (clearFailedLogins mo i) s = (s', Inr x) \<Longrightarrow> touches_users (sv_db s) (sv_db s')"
  by (auto simp: call_Inr setPasswordHash_def clearFailedLogins_def update_user_def tx_update_def tx_bind_def tx_ret_def
      touches_users_def Let_def split: prod.splits sum.splits if_splits)

lemma login_verified_Inr:
  assumes "login_verified dp a body email pw u v s = (s', Inr r)" "tells_token r token"
  shows "v \<noteq> None \<and> (\<exists>c. member_of (sv_db s) u c \<and> opens_session dp token u (tn_id (fst c)) (sv_db s) (sv_db s'))"
proof -
  obtain s1 where s1: "(if needsRehash DEFAULT_ARGON2ID_PARAMS (u_password_hash u)
              then call (setPasswordHash (ar_at a 1) (u_id u) (hashPassword (sd_cfg dp) (ar_at a 1) pw))
              else ac_ret ()) s = (s1, Inr ())"
    and k1: "(if v = None then ac_ret (fail 403 ''email is not verified'' ''email_unverified'')
       else ac_bind (call (clearFailedLogins (ar_at a 2) (u_id u))) (\<lambda>_.
            ac_bind (limit_reset ''login'' email) (\<lambda>_.
            login_choose dp a body u))) s1 = (s', Inr r)"
    using assms(1) unfolding login_verified_def ac_bind_Inr [of _ _ s] by auto
  from k1 assms(2) have v: "v \<noteq> None" by (auto simp: ac_ret_Inr no_token split: if_splits)
  with k1 obtain s2 s3 x where s2: "call (clearFailedLogins (ar_at a 2) (u_id u)) s1 = (s2, Inr x)"
    and s3: "limit_reset ''login'' email s2 = (s3, Inr ())" and ch: "login_choose dp a body u s3 = (s', Inr r)"
    by (auto simp: ac_bind_Inr)
  have "touches_users (sv_db s) (sv_db s1)"
    using s1 touching_calls(1) by (auto simp: ac_ret_Inr touches_users_def split: if_splits)
  moreover have "touches_users (sv_db s1) (sv_db s2)" using s2 by (rule touching_calls)
  moreover have "sv_db s3 = sv_db s2" using s3 by (auto simp: limit_reset_def)
  ultimately have "touches_users (sv_db s) (sv_db s3)" by (simp add: touches_users_def)
  then show ?thesis
    using login_choose_Inr [OF ch assms(2)] v by (auto simp: touches_users_def member_of_def opens_session_def)
qed

lemma login_found_Inr:
  assumes "login_found dp a body email pw found s = (s', Inr r)" "tells_token r token"
  shows "\<exists>u v c. found = Some (u, Some v) \<and> \<not> isLocked (ar_at a 0) u \<and> u_status u = ''active''
    \<and> verifyPasswordOrEqualizeTiming (cf_verify (sd_cfg dp)) pw (Some (u_password_hash u))
    \<and> member_of (sv_db s) u c \<and> opens_session dp token u (tn_id (fst c)) (sv_db s) (sv_db s')"
proof -
  obtain u v where u: "found = Some (u, v)" "\<not> isLocked (ar_at a 0) u" "u_status u = ''active''"
      "verifyPasswordOrEqualizeTiming (cf_verify (sd_cfg dp)) pw (Some (u_password_hash u))"
    and lv: "login_verified dp a body email pw u v s = (s', Inr r)"
    using assms by (cases found) (auto simp: login_found_def ac_ret_Inr ac_bind_Inr no_token split: if_splits)
  from login_verified_Inr [OF lv assms(2)] u show ?thesis by blast
qed

text \<open>
  C18. A login hands out a session token only to an address the domain list allows, whose rate
  limits admit the attempt, that belongs to an active account which is not locked, whose
  stored hash the password matches and whose address is verified; and the session is a new
  one, for that user, in an organization the user is an active member of.
\<close>

theorem login_sound:
  assumes "handleLogin dp a s = (s', Inr r)" "tells_token r token"
  shows "\<exists>body email u v c. read_body a s = (s, Inr body) \<and> email = js_lower (str (body ''email''))
    \<and> isAllowedSignupEmail (ev_allowed_domains (sd_env dp)) email = Some True
    \<and> rd_ok (snd (checkAll (mo_now (ar_at a 0)) ''login'' [clientIp dp a, Some email] (sv_limits s)))
    \<and> snd (findUserByEmail email (sv_db s)) = Inr (Some (u, Some v))
    \<and> u_status u = ''active'' \<and> \<not> isLocked (ar_at a 0) u
    \<and> verifyPasswordOrEqualizeTiming (cf_verify (sd_cfg dp)) (body_password body) (Some (u_password_hash u))
    \<and> member_of (sv_db s) u c \<and> opens_session dp token u (tn_id (fst c)) (sv_db s) (sv_db s')"
proof -
  obtain s0 body where b: "read_body a s = (s0, Inr body)"
    and lim: "limited a ''login'' [clientIp dp a, Some (js_lower (str (body ''email'')))] (
         ac_bind (email_refused dp (js_lower (str (body ''email'')))) (\<lambda>refused.
           if refused then ac_ret (fail 403 ''login is restricted'' ''email_not_allowed'')
           else ac_bind (call (findUserByEmail (js_lower (str (body ''email'')))))
                  (login_found dp a body (js_lower (str (body ''email''))) (body_password body)))) s0 = (s', Inr r)"
    using assms(1) unfolding handleLogin_def Let_def ac_bind_Inr [of _ _ s] by blast
  let ?email = "js_lower (str (body ''email''))"
  let ?rl = "checkAll (mo_now (ar_at a 0)) ''login'' [clientIp dp a, Some ?email] (sv_limits s)"
  have s0: "s0 = s" using b by (rule read_body_Inr)
  from limited_Inr [OF lim] assms(2) have ok: "rd_ok (snd ?rl)" by (auto simp: s0 no_token)
  from limited_Inr [OF lim] ok obtain refused s1 where
    rf: "email_refused dp ?email (s\<lparr>sv_limits := fst ?rl\<rparr>) = (s1, Inr refused)"
    and k: "(if refused then ac_ret (fail 403 ''login is restricted'' ''email_not_allowed'')
           else ac_bind (call (findUserByEmail ?email)) (login_found dp a body ?email (body_password body))) s1 = (s', Inr r)"
    unfolding s0 ac_bind_Inr [of _ _ "s\<lparr>sv_limits := fst _\<rparr>"] by blast
  have allowed: "\<not> refused" using k assms(2) by (auto simp: ac_ret_Inr no_token split: if_splits)
  then have al: "isAllowedSignupEmail (ev_allowed_domains (sd_env dp)) ?email = Some True" and s1: "sv_db s1 = sv_db s"
    using rf by (auto simp: email_refused_Inr)
  from k allowed obtain s2 found where f: "call (findUserByEmail ?email) s1 = (s2, Inr found)"
    and k2: "login_found dp a body ?email (body_password body) found s2 = (s', Inr r)"
    by (auto simp: ac_bind_Inr [of _ _ s1])
  from login_found_Inr [OF k2 assms(2)] obtain u v c where u: "found = Some (u, Some v)" "\<not> isLocked (ar_at a 0) u"
      "u_status u = ''active''" "verifyPasswordOrEqualizeTiming (cf_verify (sd_cfg dp)) (body_password body) (Some (u_password_hash u))"
      "member_of (sv_db s2) u c" "opens_session dp token u (tn_id (fst c)) (sv_db s2) (sv_db s')" by blast
  have "sv_db s2 = sv_db s" "snd (findUserByEmail ?email (sv_db s)) = Inr (Some (u, Some v))"
    using f s1 u(1) by (auto simp: findUserByEmail_def call_read_Inr) (simp add: tx_read_def)
  then show ?thesis using b s0 al ok u by metis
qed

subsection \<open>A login on the demonstration service\<close>

definition demo_login :: "string \<Rightarrow> arrival" where
  "demo_login pw = demo_arrival ''POST'' ''/v1/auth/login'' None
     (Json (JObj [(''email'', JStr ''al@x.io''), (''password'', JStr pw)])) 3 ''d''"

definition verified_world :: auth_db where
  "verified_world = demo_world\<lparr>identities := [new_identity (demo_moment 0 ''a'') 2 ''ai'' ''al@x.io'' True (Some 1)]\<rparr>"

definition locked_world :: auth_db where
  "locked_world = verified_world\<lparr>users := [(new_user (demo_moment 0 ''a'') 1 ''al@x.io'' ''pw'' None None)\<lparr>u_locked_until := Some 9\<rparr>]\<rparr>"

definition demo_fields :: "string \<Rightarrow> body_fields" where
  "demo_fields pw = map_of [(''email'', JStr ''al@x.io''), (''password'', JStr pw)]"

lemma demo_read: "read_body (demo_login pw) s = (s, Inr (demo_fields pw))"
  by (simp add: read_body_def readJsonBody_def demo_login_def demo_arrival_def ac_ret_def demo_fields_def MAX_AUTH_BODY_BYTES_def)

lemma demo_email: "js_trim ''al@x.io'' = ''al@x.io''" "js_lower ''al@x.io'' = ''al@x.io''" "js_trim ''x.io'' = ''x.io''" "js_lower ''x.io'' = ''x.io''"
  by (simp_all add: trim_by_def is_ws_def is_ws_unit_def) (simp_all add: js_lower_def lower_char_def)

lemma demo_field: "js_lower (str (demo_fields pw ''email'')) = ''al@x.io''" "body_password (demo_fields pw) = pw"
  "demo_fields pw ''tenant_slug'' = None"
  by (simp_all add: demo_fields_def str_def demo_email body_password_def)

lemma demo_ip: "clientIp demo_deps (demo_login pw) = None"
  by (simp add: clientIp_def demo_deps_def demo_login_def demo_arrival_def resolveClientIp_def parseForwardedFor_def Let_def)

lemma demo_first_attempt:
  "limited (demo_login pw) ''login'' [None, Some e] k (demo_svc d)
     = k ((demo_svc d)\<lparr>sv_limits := (new_limiter [])\<lparr>rl_hits := [''login::'' @ e \<mapsto> [3]]\<rparr>\<rparr>)" if "e \<noteq> []"
  using that
  by (simp add: limited_def ac_bind_def limit_all_def demo_login_def demo_arrival_def demo_moment_def demo_svc_def checkAll_def
      check_def new_limiter_def DEFAULT_RATE_LIMITS_def maybeSweep_def bucket_def or_default_def bucket_key_def worse_def Let_def)

lemma demo_allowed: "email_refused demo_deps ''al@x.io'' s = (s, Inr False)"
proof -
  have "split_by (\<lambda>c. is_ws c \<or> c = CHR '','') ''x.io'' = [''x.io'']"
    by (simp add: is_ws_def is_ws_unit_def)
  moreover have "domain_glob ''x.io''" by (simp add: domain_glob_def glob_label_def lower_alnum_def)
  ultimately have "parseAllowedDomains (Some ''x.io'') = Some [''x.io'']"
    by (simp add: parseAllowedDomains_def or_default_def demo_email)
  moreover have "matches_pattern [''x.io''] ''al@x.io''"
    by (simp add: matches_pattern_def is_ws_def is_ws_unit_def label_char_def lower_alnum_def)
  ultimately have "isAllowedSignupEmail (Some ''x.io'') ''al@x.io'' = Some True"
    by (simp add: isAllowedSignupEmail_def demo_email)
  then show ?thesis by (simp add: email_refused_def demo_deps_def ac_ret_def)
qed

lemma demo_find:
  "findUserByEmail ''al@x.io'' verified_world = (verified_world, Inr (Some (hd (users verified_world), Some 1)))"
  "findUserByEmail ''al@x.io'' locked_world = (locked_world, Inr (Some (hd (users locked_world), Some 1)))"
  "findUserByEmail ''al@x.io'' no_accounts = (no_accounts, Inr None)"
  by (simp_all add: findUserByEmail_def tx_read_def identity_join_def first_of_def verified_world_def locked_world_def
      demo_world_def no_accounts_def new_row_defs demo_email)

lemma demo_handle_login:
  "handleLogin demo_deps (demo_login pw) (demo_svc d)
     = ac_bind (call (findUserByEmail ''al@x.io'')) (login_found demo_deps (demo_login pw) (demo_fields pw) ''al@x.io'' pw)
         ((demo_svc d)\<lparr>sv_limits := (new_limiter [])\<lparr>rl_hits := [''login::al@x.io'' \<mapsto> [3]]\<rparr>\<rparr>)"
  unfolding handleLogin_def ac_bind_def [of "read_body _"] demo_read prod.case sum.case Let_def demo_field demo_ip
  by (simp add: demo_first_attempt ac_bind_def [of "email_refused _ _"] demo_allowed)

lemma demo_user:
  "u_password_hash (hd (users verified_world)) = ''pw''" "u_id (hd (users verified_world)) = ''ai''"
  "u_status (hd (users verified_world)) = ''active''" "\<not> isLocked (ar_at (demo_login ''pw'') 0) (hd (users verified_world))"
  "verifyPasswordOrEqualizeTiming (cf_verify (sd_cfg demo_deps)) ''pw'' (Some ''pw'')"
  by (simp_all add: verified_world_def demo_world_def new_row_defs isLocked_def verifyPasswordOrEqualizeTiming_def
      verifyPassword_def demo_deps_def demo_cfg_def)

lemma demo_rehash: "needsRehash DEFAULT_ARGON2ID_PARAMS ''pw''"
  by (simp add: needsRehash_def parseArgon2Phc_def)

lemma demo_at: "ar_at (demo_login pw) k = demo_moment 3 (''d'' @ replicate k CHR ''c'')" "rq_headers (ar_request (demo_login pw)) ''user-agent'' = None"
  by (simp_all add: demo_login_def demo_arrival_def)

lemma demo_memberships:
  "orgs d = orgs verified_world \<Longrightarrow> memberships d = memberships verified_world \<Longrightarrow>
   listTenantsForUser ''ai'' d = (d, Inr [(hd (orgs verified_world), R_owner)])"
  by (simp add: listTenantsForUser_def tx_read_def verified_world_def demo_world_def new_row_defs)

lemma demo_opens:
  assumes "orgs d = orgs verified_world" "sessions d = sessions verified_world" "known_user ''ai'' d"
  shows "\<exists>d'. createSession demo_cfg (demo_moment 3 ''dccc'') ''ai'' (tn_id (hd (orgs verified_world))) None None d
    = (d', Inr \<lparr> cs_token = ''emss_dccc'', cs_id = ''dccciiii'', cs_expires_at = 1209600003, cs_absolute_expires_at = 7776000003 \<rparr>)"
  using assms
  by (simp add: createSession_def Let_def tx_bind_def tx_references_def tx_insert_def tx_ret_def known_org_def
      mintSessionToken_def mint_token_def verified_world_def demo_world_def new_row_defs no_accounts_def numeral_eq_Suc)

lemma demo_login_choose:
  assumes "orgs (sv_db s) = orgs verified_world" "memberships (sv_db s) = memberships verified_world"
    "sessions (sv_db s) = sessions verified_world" "known_user ''ai'' (sv_db s)"
  shows "\<exists>s' r. login_choose demo_deps (demo_login ''pw'') (demo_fields ''pw'') (hd (users verified_world)) s = (s', Inr r)
    \<and> tells_token r (JStr ''emss_dccc'')"
proof -
  have at3: "ar_at (demo_login ''pw'') 3 = demo_moment 3 ''dccc''" by (simp add: demo_at numeral_eq_Suc)
  have slug: "js_lower (str None) = []" by (simp add: str_def js_lower_def)
  from demo_opens [OF assms(1,3,4)] show ?thesis
    unfolding login_choose_def login_session_def at3 demo_ip demo_user(2) demo_field(3) slug
    by (auto simp: ac_bind_def call_def demo_memberships [OF assms(1,2)] demo_at(2) demo_deps_def ac_ret_def tells_token_reply)
qed

lemma demo_login_verified:
  "\<exists>s' r. login_verified demo_deps (demo_login ''pw'') (demo_fields ''pw'') ''al@x.io'' ''pw'' (hd (users verified_world)) (Some 1)
      \<lparr> sv_db = verified_world, sv_limits = rl, sv_keys = ks, sv_mails = ms, sv_audit = au \<rparr> = (s', Inr r)
    \<and> tells_token r (JStr ''emss_dccc'')"
  unfolding login_verified_def demo_user(1) if_P [OF demo_rehash]
  by (simp add: demo_user(2) ac_bind_def call_def setPasswordHash_def clearFailedLogins_def update_user_def tx_update_def
      tx_bind_def tx_ret_def limit_reset_def)
    (rule demo_login_choose, simp_all add: known_user_def verified_world_def demo_world_def new_row_defs)

lemma demo_session_opens:
  "\<exists>s' r. handleLogin demo_deps (demo_login ''pw'') (demo_svc verified_world) = (s', Inr r) \<and> tells_token r (JStr ''emss_dccc'')"
  unfolding demo_handle_login
  by (simp add: ac_bind_def call_def demo_svc_def demo_find login_found_def demo_user demo_login_verified)

lemma login_sound_witness:
  "\<exists>s' r c u. handleLogin demo_deps (demo_login ''pw'') (demo_svc verified_world) = (s', Inr r)
    \<and> tells_token r (JStr ''emss_dccc'') \<and> member_of verified_world u c
    \<and> opens_session demo_deps (JStr ''emss_dccc'') u (tn_id (fst c)) verified_world (sv_db s')"
proof -
  obtain s' r where l: "handleLogin demo_deps (demo_login ''pw'') (demo_svc verified_world) = (s', Inr r)"
      "tells_token r (JStr ''emss_dccc'')"
    using demo_session_opens by blast
  from login_sound [OF l] l show ?thesis unfolding demo_parts by blast
qed

text \<open>
  The answers to an unauthenticated login do tell accounts apart: with the same wrong
  password a locked account is answered 429 with the reason \<open>locked\<close>, an address without
  an account 401.
\<close>

theorem lockout_reveals_account:
  "snd (handleLogin demo_deps (demo_login ''no'') (demo_svc locked_world))
     = Inr (fail 429 ''too many attempts; try again later'' ''locked'')
   \<and> snd (handleLogin demo_deps (demo_login ''no'') (demo_svc no_accounts))
     = Inr (fail 401 ''invalid email or password'' ''invalid_credentials'')"
proof -
  have "isLocked (ar_at (demo_login ''no'') 0) (hd (users locked_world))"
    by (simp add: locked_world_def isLocked_def demo_at)
  then show ?thesis
    unfolding demo_handle_login
    by (simp add: ac_bind_def call_def demo_svc_def demo_find login_found_def ac_ret_def)
qed

section \<open>Answers that hide whether an account exists\<close>

definition answers :: "response act \<Rightarrow> response \<Rightarrow> bool" where
  "answers m r \<longleftrightarrow> (\<forall>s s' r'. m s = (s', Inr r') \<longrightarrow> r' = r)"

lemma answers_rules:
  "answers (ac_ret r) r"
  "answers (ac_throw e) r"
  "(\<And>x. answers (f x) r) \<Longrightarrow> answers (ac_bind m f) r"
  "(b \<Longrightarrow> answers m1 r) \<Longrightarrow> (\<not> b \<Longrightarrow> answers m2 r) \<Longrightarrow> answers (if b then m1 else m2) r"
  "answers m0 r \<Longrightarrow> (\<And>x. answers (g x) r) \<Longrightarrow> answers (case v1 of None \<Rightarrow> m0 | Some x \<Rightarrow> g x) r"
  "(\<And>e. answers (l e) r) \<Longrightarrow> (\<And>x. answers (g' x) r) \<Longrightarrow> answers (case v2 of Inl e \<Rightarrow> l e | Inr x \<Rightarrow> g' x) r"
  "(\<And>x y. answers (h x y) r) \<Longrightarrow> answers (case v3 of (x, y) \<Rightarrow> h x y) r"
  by (auto simp: answers_def act_Inr split: option.split sum.split prod.split)

text \<open>Two states with the same rate limits are told the same, whatever their databases.\<close>

definition uniform :: "response act \<Rightarrow> bool" where
  "uniform m \<longleftrightarrow> (\<forall>s1 s2 s1' s2' r1 r2. sv_limits s1 = sv_limits s2 \<longrightarrow> m s1 = (s1', Inr r1) \<longrightarrow> m s2 = (s2', Inr r2) \<longrightarrow> r1 = r2)"

lemma uniform_answers: "answers m r \<Longrightarrow> uniform m"
  unfolding uniform_def answers_def by blast

lemma uniform_read:
  assumes "\<And>s1 s2. snd (m s1) = snd (m s2)" "\<And>s. fst (m s) = s" "\<And>x. uniform (f x)"
  shows "uniform (ac_bind m f)"
  unfolding uniform_def
proof (intro allI impI)
  fix s1 s2 s1' s2' r1 r2
  assume l: "sv_limits s1 = sv_limits s2" and r: "ac_bind m f s1 = (s1', Inr r1)" "ac_bind m f s2 = (s2', Inr r2)"
  obtain x where "m s1 = (s1, Inr x)" "m s2 = (s2, Inr x)" "f x s1 = (s1', Inr r1)" "f x s2 = (s2', Inr r2)"
    using r assms(1) [of s1 s2] assms(2) [of s1] assms(2) [of s2] unfolding ac_bind_Inr by (metis Inr_inject fst_conv snd_conv)
  with assms(3) [of x] l show "r1 = r2" unfolding uniform_def by blast
qed

lemma uniform_body: "(\<And>body. uniform (f body)) \<Longrightarrow> uniform (ac_bind (read_body a) f)"
  by (rule uniform_read)
     (auto simp: read_body_def readJsonBody_def ac_ret_def ac_throw_def split: body_text.split json.split)

lemma uniform_allowed: "(\<And>b. uniform (f b)) \<Longrightarrow> uniform (ac_bind (email_refused dp email) f)"
  by (rule uniform_read) (auto simp: email_refused_def ac_ret_def ac_throw_def split: option.split)

lemma uniform_limited:
  assumes "uniform k"
  shows "uniform (limited a route ks k)"
  unfolding uniform_def
proof (intro allI impI)
  fix s1 s2 s1' s2' r1 r2
  assume l: "sv_limits s1 = sv_limits s2" and r: "limited a route ks k s1 = (s1', Inr r1)" "limited a route ks k s2 = (s2', Inr r2)"
  obtain rl d where c: "checkAll (mo_now (ar_at a 0)) route ks (sv_limits s1) = (rl, d)" by fastforce
  show "r1 = r2"
  proof (cases "rd_ok d")
    case True
    with r c l have "k (s1\<lparr>sv_limits := rl\<rparr>) = (s1', Inr r1)" "k (s2\<lparr>sv_limits := rl\<rparr>) = (s2', Inr r2)"
      by (auto simp: limited_def ac_bind_def limit_all_def)
    with assms show ?thesis unfolding uniform_def by (metis svc.select_convs(2) svc.surjective svc.update_convs(2))
  next
    case False
    with r c l show ?thesis by (auto simp: limited_def ac_bind_def limit_all_def ac_ret_def)
  qed
qed

lemmas uniform_rules = uniform_body uniform_limited uniform_allowed

lemma uniform_forgot: "uniform (handleForgot dp a)"
  unfolding handleForgot_def Let_def
  by (intro uniform_rules uniform_answers [where r = forgot_generic] answers_rules)

lemma uniform_resend: "uniform (handleVerifyResend dp a)"
  unfolding handleVerifyResend_def Let_def
  by (intro uniform_rules uniform_answers [where r = resend_generic] answers_rules)

lemma uniform_if: "(b \<Longrightarrow> uniform m) \<Longrightarrow> (\<not> b \<Longrightarrow> uniform n) \<Longrightarrow> uniform (if b then m else n)"
  by simp

lemma uniform_sum: "(\<And>e. uniform (l e)) \<Longrightarrow> (\<And>x. uniform (g x)) \<Longrightarrow> uniform (case v of Inl e \<Rightarrow> l e | Inr x \<Rightarrow> g x)"
  by (cases v) simp_all

lemma uniform_ret: "uniform (ac_ret r)"
  by (auto simp: uniform_def ac_ret_def)

lemma signup_answers: "answers (signup_create dp a body email pw tenant_name) (signup_generic email)"
  unfolding signup_create_def Let_def by (intro answers_rules)

lemma uniform_signup: "uniform (handleSignup dp a)"
  unfolding handleSignup_def Let_def
  by (intro uniform_rules uniform_if uniform_sum uniform_ret)
     (rule uniform_answers, rule answers_rules, rule answers_rules, rule answers_rules, rule signup_answers)

text \<open>
  Signing up, asking for the verification mail again and asking for a password reset say
  nothing about the accounts of the database: two databases behind the same rate limits
  answer the same request alike.  (A database error becomes an exception instead.)
\<close>

theorem open_answers_hide_accounts:
  assumes "h = handleSignup \<or> h = handleVerifyResend \<or> h = handleForgot" "sv_limits s1 = sv_limits s2"
    and "h dp a s1 = (s1', Inr r1)" "h dp a s2 = (s2', Inr r2)"
  shows "r1 = r2"
  using assms uniform_signup [of dp a] uniform_resend [of dp a] uniform_forgot [of dp a] unfolding uniform_def by blast

lemma demo_forgot_attempt:
  "limited (demo_login pw) ''forgot'' [None, Some ''al@x.io''] k (demo_svc d)
     = k ((demo_svc d)\<lparr>sv_limits := (new_limiter [])\<lparr>rl_hits := [''forgot::al@x.io'' \<mapsto> [3]]\<rparr>\<rparr>)"
  by (simp add: limited_def ac_bind_def limit_all_def demo_login_def demo_arrival_def demo_moment_def demo_svc_def checkAll_def
      check_def new_limiter_def DEFAULT_RATE_LIMITS_def maybeSweep_def bucket_def or_default_def bucket_key_def worse_def Let_def)

lemma demo_reset_minted:
  "\<exists>d m. createPasswordReset (sd_cfg demo_deps) (demo_moment 3 ''dc'') ''ai'' verified_world = (d, Inr m)"
  by (simp add: createPasswordReset_def tx_bind_def tx_references_def tx_insert_def tx_ret_def Let_def known_user_def
      verified_world_def demo_world_def no_accounts_def new_row_defs mintResetToken_def mint_token_def demo_deps_def numeral_eq_Suc)

lemma demo_forgot:
  "\<exists>s'. handleForgot demo_deps (demo_login pw) (demo_svc verified_world) = (s', Inr forgot_generic)
     \<and> map ml_to (sv_mails s') = [''al@x.io'']"
  "\<exists>s'. handleForgot demo_deps (demo_login pw) (demo_svc no_accounts) = (s', Inr forgot_generic)"
  unfolding handleForgot_def ac_bind_def [of "read_body _"] demo_read prod.case sum.case Let_def demo_field demo_ip demo_forgot_attempt
  using demo_reset_minted
  by (auto simp: ac_bind_def demo_allowed call_def demo_svc_def demo_find demo_user demo_at ac_ret_def send_mail_def)

lemma open_answers_hide_accounts_witness:
  "\<exists>s1 s2 r. handleForgot demo_deps (demo_login ''pw'') (demo_svc verified_world) = (s1, Inr r)
     \<and> handleForgot demo_deps (demo_login ''pw'') (demo_svc no_accounts) = (s2, Inr r) \<and> map ml_to (sv_mails s1) = [''al@x.io'']"
proof -
  obtain s1 where s1: "handleForgot demo_deps (demo_login ''pw'') (demo_svc verified_world) = (s1, Inr forgot_generic)"
      "map ml_to (sv_mails s1) = [''al@x.io'']"
    using demo_forgot(1) [of "''pw''"] by (elim exE conjE) (rule that; assumption)
  obtain s2 where s2: "handleForgot demo_deps (demo_login ''pw'') (demo_svc no_accounts) = (s2, Inr forgot_generic)"
    using demo_forgot(2) [of "''pw''"] by (elim exE) (rule that; assumption)
  have "sv_limits (demo_svc verified_world) = sv_limits (demo_svc no_accounts)" by (simp add: demo_svc_def)
  from open_answers_hide_accounts [where h = handleForgot, OF _ this s1(1) s2] s1 s2 show ?thesis by (intro exI conjI)
qed

section \<open>Who changes the owners of a tenant\<close>

definition owner_ids :: "string \<Rightarrow> auth_db \<Rightarrow> string list" where
  "owner_ids t d = map mb_id (filter (active_owner t) (memberships d))"

definition same_members :: "auth_db \<Rightarrow> auth_db \<Rightarrow> bool" where
  "same_members d d' \<longleftrightarrow> memberships d' = memberships d"

interpretation members: action_relation same_members
  by unfold_locales (auto simp: same_members_def)

lemma resolve_same_members: "contracts_ok dp \<Longrightarrow> members.act_keeps (resolveRequestContext dp a required)"
proof (rule members.act_resolve)
  show "members.act_keeps (call (resolveSession cf mo x))" for cf mo x
    by (rule members.act_call) (auto simp: members.keeps_def same_members_def
        resolveSession_def tx_bind_def tx_read_def tx_update_def tx_ret_def split: option.split)
qed

text \<open>The caller of a request is a session user who owns the tenant.\<close>

definition called_by_owner :: "svc_deps \<Rightarrow> arrival \<Rightarrow> string \<Rightarrow> auth_db \<Rightarrow> bool" where
  "called_by_owner dp a t d \<longleftrightarrow> (\<exists>cx row m. live_session dp (mo_now (ar_at a 0)) (bearer dp a) d cx row
     \<and> m \<in> set (memberships d) \<and> active_owner t m \<and> cx_user cx = Some (mb_user m))"

text \<open>A change of one membership that is of another tenant, or never an active owner, leaves the owners as they are.\<close>

lemma owners_of_map:
  assumes "keyed mb_id ms" "target \<in> set ms" "\<not> active_owner t target" "\<not> active_owner t (g target)" "mb_id target = i"
  shows "map mb_id (filter (active_owner t) (map (\<lambda>x. if mb_id x = i then g x else x) ms)) = map mb_id (filter (active_owner t) ms)"
proof -
  have f: "map mb_id (filter (active_owner t) (map (\<lambda>x. if mb_id x = i then g x else x) ns)) = map mb_id (filter (active_owner t) ns)"
    if "\<And>x. x \<in> set ns \<Longrightarrow> mb_id x = i \<Longrightarrow> \<not> active_owner t x \<and> \<not> active_owner t (g x)" for ns
    using that by (induction ns) auto
  have "x = target" if "x \<in> set ms" "mb_id x = i" for x using assms that by (auto intro: keyed_same)
  then show ?thesis using assms by (intro f) auto
qed

lemma owners_of_filter:
  assumes "keyed mb_id ms" "target \<in> set ms" "\<not> active_owner t target" "mb_id target = i"
  shows "filter (active_owner t) (filter (\<lambda>x. mb_id x \<noteq> i) ms) = filter (active_owner t) ms"
proof -
  have "x = target" if "x \<in> set ms" "mb_id x = i" for x using assms that by (auto intro: keyed_same)
  then show ?thesis using assms(3) by (auto simp: filter_filter intro!: filter_cong)
qed

lemma role_change_frame:
  assumes "keyed mb_id (memberships d)" "target \<in> set (memberships d)" "mb_id target = i"
    "mb_tenant target \<noteq> t \<or> (mb_role target \<noteq> R_owner \<and> r \<noteq> R_owner)"
  shows "owner_ids t (fst (changeMembershipRole mo i r d)) = owner_ids t d"
proof -
  have "map mb_id (filter (active_owner t) (map (\<lambda>x. if mb_id x = i then x\<lparr>mb_role := r, mb_updated_at := mo_now mo\<rparr> else x) (memberships d)))
      = map mb_id (filter (active_owner t) (memberships d))"
    by (rule owners_of_map [OF assms(1,2) _ _ assms(3)]) (use assms(4) in \<open>auto simp: active_owner_def\<close>)
  then show ?thesis
    unfolding owner_ids_def changeMembershipRole_def
    by (auto simp: tx_atomic_def tx_bind_def getMembershipById_def tx_read_def countActiveOwners_def tx_throw_def tx_ret_def
        tx_update_def split: option.split prod.split sum.split)
qed

lemma removal_frame:
  assumes "keyed mb_id (memberships d)" "target \<in> set (memberships d)" "mb_id target = i"
    "mb_tenant target \<noteq> t \<or> mb_role target \<noteq> R_owner"
  shows "owner_ids t (fst (removeMembership mo i d)) = owner_ids t d"
proof -
  have "filter (active_owner t) (filter (\<lambda>x. mb_id x \<noteq> i) (memberships d)) = filter (active_owner t) (memberships d)"
    by (rule owners_of_filter [OF assms(1,2) _ assms(3)]) (use assms(4) in \<open>auto simp: active_owner_def\<close>)
  then show ?thesis
    unfolding owner_ids_def removeMembership_def
    by (auto simp: tx_atomic_def tx_bind_def getMembershipById_def tx_read_def countActiveOwners_def tx_throw_def tx_ret_def
        tx_update_def tx_delete_def split: option.split prod.split sum.split)
qed

lemma caller_owns:
  assumes "resolveRequestContext dp a required s = (s1, Inr (Resolved cx))" "callerMembership cx t s1 = (s2, Inr m)" "owns m"
    "memberships (sv_db s1) = memberships (sv_db s)"
  shows "called_by_owner dp a t (sv_db s)"
proof -
  obtain u where u: "session_user cx = Some u" "call (getMembership u t) s1 = (s2, Inr m)"
    using assms(2,3) by (cases "session_user cx") (auto simp: callerMembership_def ac_ret_def owns_def)
  obtain x where x: "m = Some x" "mb_role x = R_owner" using assms(3) by (auto simp: owns_def split: option.splits)
  with u(2) have "find (\<lambda>y. mb_user y = u \<and> mb_tenant y = t \<and> mb_status y = ''active'') (memberships (sv_db s1)) = Some x"
    by (auto simp: getMembership_def call_read_Inr)
  then have m: "x \<in> set (memberships (sv_db s))" "active_owner t x" "mb_user x = u"
    using find_SomeD x(2) assms(4) by (fastforce simp: active_owner_def)+
  have p: "cx_principal cx = P_user" "cx_user cx = Some u" using u(1) by (auto simp: session_user_def split: if_splits)
  have "resolve_session dp a (bearer dp a) required s = (s1, Inr (Resolved cx))"
    using user_is_session [OF assms(1) p(1)] by simp
  from resolve_session_Resolved [OF this] obtain row where "live_session dp (mo_now (ar_at a 0)) (bearer dp a) (sv_db s) cx row" by blast
  with m p(2) show ?thesis unfolding called_by_owner_def by blast
qed

lemma with_target_changes:
  assumes "owner_ids t (sv_db (fst (with_target dp a i k s))) \<noteq> owner_ids t (sv_db s)" "contracts_ok dp"
  obtains s1 cx target m where "resolveRequestContext dp a [''emails:write''] s = (s1, Inr (Resolved cx))"
    "memberships (sv_db s1) = memberships (sv_db s)" "target \<in> set (memberships (sv_db s))" "mb_id target = i"
    "callerMembership cx (mb_tenant target) s1 = (s1, Inr m)"
    "owner_ids t (sv_db (fst (k target m s1))) \<noteq> owner_ids t (sv_db s1)"
proof -
  obtain s1 rr where rr: "resolveRequestContext dp a [''emails:write''] s = (s1, rr)" by fastforce
  have same: "memberships (sv_db s1) = memberships (sv_db s)"
    using resolve_same_members [OF assms(2), of a "[''emails:write'']"] rr
    by (auto simp: members.act_keeps_def same_members_def dest: spec [of _ s])
  obtain cx where cx: "rr = Inr (Resolved cx)"
    using assms(1) rr same unfolding with_target_def with_ctx_def
    by (cases rr) (auto simp: ac_bind_def ac_ret_def owner_ids_def split: resolve_result.splits)
  obtain target where t: "find (\<lambda>m. mb_id m = i) (memberships (sv_db s1)) = Some target"
    using assms(1) rr same cx unfolding with_target_def with_ctx_def
    by (cases "find (\<lambda>m. mb_id m = i) (memberships (sv_db s1))")
       (auto simp: ac_bind_def ac_ret_def call_def tx_read_def getMembershipById_def owner_ids_def)
  obtain m where m: "callerMembership cx (mb_tenant target) s1 = (s1, Inr m)"
    by (cases "session_user cx") (auto simp: callerMembership_def ac_ret_def call_def getMembership_def tx_read_def)
  have "owner_ids t (sv_db (fst (k target m s1))) \<noteq> owner_ids t (sv_db s1)"
    using assms(1) rr same cx t m unfolding with_target_def with_ctx_def
    by (auto simp: ac_bind_def ac_ret_def call_def tx_read_def getMembershipById_def owner_ids_def split: if_splits)
  with that rr cx same t m find_SomeD [OF t] show thesis by metis
qed

lemma call_fst:
  assumes "\<And>x. \<exists>y. f x = ac_ret y"
  shows "sv_db (fst (ac_bind (call m) f s)) = fst (m (sv_db s))"
proof (cases "m (sv_db s)")
  case (Pair d r)
  show ?thesis
  proof (cases r)
    case (Inr x)
    obtain y where "f x = ac_ret y" using assms by blast
    with Pair Inr show ?thesis by (simp add: ac_bind_def call_def ac_ret_def)
  qed (simp add: Pair ac_bind_def call_def)
qed

lemma body_then_state:
  "owner_ids t (sv_db (fst (ac_bind (read_body a) f s))) \<noteq> owner_ids t (sv_db s) \<Longrightarrow>
     \<exists>body. owner_ids t (sv_db (fst (f body s))) \<noteq> owner_ids t (sv_db s)"
  by (auto simp: ac_bind_def split: prod.splits sum.splits dest: read_body_Inr)
     (metis fst_conv readJsonBody_state read_body_def)

lemma role_update_needs_owner:
  assumes "contracts_ok dp" "keyed mb_id (memberships (sv_db s))"
    and "owner_ids t (sv_db (fst (handleUpdateMembership dp a i s))) \<noteq> owner_ids t (sv_db s)"
  shows "called_by_owner dp a t (sv_db s)"
proof (rule with_target_changes [OF assms(3) [unfolded handleUpdateMembership_def] assms(1)])
  fix s1 cx target m
  let ?upd = "\<lambda>r. call (changeMembershipRole (ar_at a 1) i r)"
  let ?answer = "\<lambda>updated. case updated of
               None \<Rightarrow> ac_ret (refuse 404 ''membership not found'')
             | Some m \<Rightarrow> ac_ret (reply 200 [(''membership'', JObj [(''id'', JStr (mb_id m)),
                 (''role'', JStr (role_text (mb_role m))), (''status'', JStr (mb_status m))])])"
  assume r: "resolveRequestContext dp a [''emails:write''] s = (s1, Inr (Resolved cx))"
    and same: "memberships (sv_db s1) = memberships (sv_db s)" and target: "target \<in> set (memberships (sv_db s))" "mb_id target = i"
    and c: "callerMembership cx (mb_tenant target) s1 = (s1, Inr m)"
    and ch: "owner_ids t (sv_db (fst (ac_bind (read_body a) (\<lambda>body.
       case role_of (str (body ''role'')) of
         None \<Rightarrow> ac_ret (refuse 400 ''invalid role'')
       | Some r \<Rightarrow>
           if (r = R_owner \<or> mb_role target = R_owner) \<and> \<not> owns m
           then ac_ret (fail 403 ''only an owner can grant or modify the owner role'' ''forbidden'')
           else ac_bind (?upd r) ?answer) s1))) \<noteq> owner_ids t (sv_db s1)"
  from body_then_state [OF ch] obtain body where b: "owner_ids t (sv_db (fst ((case role_of (str (body ''role'')) of
         None \<Rightarrow> ac_ret (refuse 400 ''invalid role'')
       | Some r \<Rightarrow>
           if (r = R_owner \<or> mb_role target = R_owner) \<and> \<not> owns m
           then ac_ret (fail 403 ''only an owner can grant or modify the owner role'' ''forbidden'')
           else ac_bind (?upd r) ?answer) s1))) \<noteq> owner_ids t (sv_db s1)" ..
  then obtain role where role: "role_of (str (body ''role'')) = Some role"
    by (cases "role_of (str (body ''role''))") (simp_all add: ac_ret_def)
  from b have g: "\<not> ((role = R_owner \<or> mb_role target = R_owner) \<and> \<not> owns m)"
    unfolding role option.case by (auto simp: ac_ret_def)
  have "sv_db (fst (ac_bind (?upd role) ?answer s1)) = fst (changeMembershipRole (ar_at a 1) i role (sv_db s1))"
    by (rule call_fst) (auto split: option.split)
  with b g have w: "owner_ids t (fst (changeMembershipRole (ar_at a 1) i role (sv_db s1))) \<noteq> owner_ids t (sv_db s1)"
    unfolding role option.case by (simp only: if_False not_False_eq_True simp_thms)
  have "mb_tenant target = t \<and> (mb_role target = R_owner \<or> role = R_owner)"
    using role_change_frame [of "sv_db s1" target i t role] assms(2) same target w by auto
  with g r c same show ?thesis by (auto intro: caller_owns)
qed

lemma removal_needs_owner:
  assumes "contracts_ok dp" "keyed mb_id (memberships (sv_db s))"
    and "owner_ids t (sv_db (fst (handleRemoveMembership dp a i s))) \<noteq> owner_ids t (sv_db s)"
  shows "called_by_owner dp a t (sv_db s)"
proof (rule with_target_changes [OF assms(3) [unfolded handleRemoveMembership_def] assms(1)])
  fix s1 cx target m
  assume r: "resolveRequestContext dp a [''emails:write''] s = (s1, Inr (Resolved cx))"
    and same: "memberships (sv_db s1) = memberships (sv_db s)" and target: "target \<in> set (memberships (sv_db s))" "mb_id target = i"
    and c: "callerMembership cx (mb_tenant target) s1 = (s1, Inr m)"
    and ch: "owner_ids t (sv_db (fst ((if mb_role target = R_owner \<and> \<not> owns m
       then ac_ret (fail 403 ''only an owner can remove an owner'' ''forbidden'')
       else ac_bind (call (removeMembership (ar_at a 1) i)) (\<lambda>removed.
         if removed then ac_ret (reply 200 [(''removed'', JBool True), (''id'', JStr i)])
         else ac_ret (refuse 404 ''membership not found''))) s1))) \<noteq> owner_ids t (sv_db s1)"
  from ch have g: "\<not> (mb_role target = R_owner \<and> \<not> owns m)"
    and w: "owner_ids t (fst (removeMembership (ar_at a 1) i (sv_db s1))) \<noteq> owner_ids t (sv_db s1)"
    by (auto simp: ac_bind_def ac_ret_def call_def split: prod.splits sum.splits if_splits)
  have "mb_tenant target = t \<and> mb_role target = R_owner"
    using removal_frame [of "sv_db s1" target i t] assms(2) same target w by auto
  with g r c same show ?thesis by (auto intro: caller_owns)
qed

text \<open>
  C21. The owners of a tenant change through the membership routes only when an active owner of
  that tenant asks: promoting to owner, demoting an owner and removing one are all refused
  to admins, members and API keys, and the memberships of other tenants are out of reach.
\<close>

theorem owner_changes_need_an_owner:
  assumes "h = handleUpdateMembership \<or> h = handleRemoveMembership" "contracts_ok dp" "accounts_ok (sv_db s)"
    and "owner_ids t (sv_db (fst (h dp a i s))) \<noteq> owner_ids t (sv_db s)"
  shows "called_by_owner dp a t (sv_db s)"
proof -
  have "keyed mb_id (memberships (sv_db s))" using accounts_okD(6) [OF assms(3)] by (simp add: simple_keys_def)
  with assms show ?thesis by (auto intro: role_update_needs_owner removal_needs_owner)
qed

definition two_owners :: auth_db where
  "two_owners = demo_world\<lparr>memberships := memberships demo_world @ [new_membership (demo_moment 0 ''b'') 3 ''bo'' ''a'' R_owner]\<rparr>"

definition demo_remove :: arrival where
  "demo_remove = demo_arrival ''DELETE'' ''/v1/memberships/biii'' (Some ''emss_b'') Blank 3 ''d''"

lemma two_owners_ok: "accounts_ok two_owners"
  using demo_world_ok
  by (simp add: accounts_ok_def simple_keys_def accounts_defs two_owners_def) (simp add: demo_world_def new_row_defs)

lemma two_join: "session_join two_owners = [(hd (sessions demo_world), hd (users demo_world), hd (orgs demo_world), hd (memberships demo_world))]"
  by (simp add: session_join_def two_owners_def demo_world_def new_row_defs no_accounts_def)

lemma two_session:
  "\<exists>d. resolveSession demo_cfg (demo_moment 3 ''d'') ''emss_b'' two_owners = (d, Inr (Some \<lparr> sx_session = ''biiii'',
      sx_user = ''ai'', sx_tenant = ''a'', sx_role = R_owner, sx_global_role = G_user \<rparr>)) \<and> memberships d = memberships two_owners"
proof -
  have "live_row demo_cfg 3 ''emss_b'' (hd (sessions demo_world), hd (users demo_world), hd (orgs demo_world), hd (memberships demo_world))"
    using demo_live by (simp add: demo_join)
  then show ?thesis
    unfolding resolveSession_def tx_bind_def tx_read_def two_join
    by (simp add: tx_update_def tx_ret_def) (simp add: two_owners_def demo_world_def new_row_defs)
qed

lemma demo_remove_resolves:
  "\<exists>s1 cx. resolveRequestContext demo_deps demo_remove [''emails:write''] (demo_svc two_owners) = (s1, Inr (Resolved cx))
     \<and> memberships (sv_db s1) = memberships two_owners \<and> session_user cx = Some ''ai''"
proof -
  obtain d where d: "resolveSession demo_cfg (demo_moment 3 ''d'') ''emss_b'' two_owners = (d, Inr (Some \<lparr> sx_session = ''biiii'',
      sx_user = ''ai'', sx_tenant = ''a'', sx_role = R_owner, sx_global_role = G_user \<rparr>))" "memberships d = memberships two_owners"
    using two_session by blast
  have "sd_extract_token demo_deps (rq_headers (ar_request demo_remove)) = Some ''emss_b''" "sd_cfg demo_deps = demo_cfg"
      "ar_at demo_remove 0 = demo_moment 3 ''d''"
    by (simp_all add: demo_deps_def demo_remove_def demo_arrival_def)
  with d show ?thesis
    by (simp add: resolveRequestContext_def Let_def starts_with_def or_default_def resolve_session_def ac_bind_def call_def
        ac_ret_def demo_parts session_user_def)
qed

lemma demo_removes:
  "owner_ids ''a'' (sv_db (fst (handleRemoveMembership demo_deps demo_remove ''biii'' (demo_svc two_owners)))) = [''aiii'']"
proof -
  obtain s1 cx where r: "resolveRequestContext demo_deps demo_remove [''emails:write''] (demo_svc two_owners) = (s1, Inr (Resolved cx))"
      "memberships (sv_db s1) = memberships two_owners" "session_user cx = Some ''ai''"
    using demo_remove_resolves by blast
  let ?al = "new_membership (demo_moment 0 ''a'') 3 ''ai'' ''a'' R_owner"
  let ?bo = "new_membership (demo_moment 0 ''b'') 3 ''bo'' ''a'' R_owner"
  have ms: "memberships two_owners = [?al, ?bo]" by (simp add: two_owners_def demo_world_def)
  have m: "mb_id ?al = ''aiii''" "mb_id ?bo = ''biii''" "mb_user ?al = ''ai''" "mb_tenant ?al = ''a''" "mb_tenant ?bo = ''a''"
      "mb_role ?al = R_owner" "mb_role ?bo = R_owner" "mb_status ?al = ''active''" "mb_status ?bo = ''active''"
    by (simp_all add: new_membership_def numeral_eq_Suc)
  show ?thesis
    by (simp add: handleRemoveMembership_def with_target_def with_ctx_def ac_bind_def r ac_ret_def call_def getMembershipById_def
        tx_read_def ms m callerMembership_def getMembership_def manages_def owns_def removeMembership_def tx_atomic_def
        tx_bind_def countActiveOwners_def active_owner_def tx_delete_def tx_update_def tx_ret_def owner_ids_def)
qed

lemma owner_changes_need_an_owner_witness:
  "owner_ids ''a'' (sv_db (fst (handleRemoveMembership demo_deps demo_remove ''biii'' (demo_svc two_owners)))) \<noteq> owner_ids ''a'' two_owners
   \<and> called_by_owner demo_deps demo_remove ''a'' two_owners"
proof
  have "owner_ids ''a'' two_owners = [''aiii'', ''biii'']"
    by (simp add: owner_ids_def two_owners_def demo_world_def new_row_defs active_owner_def numeral_eq_Suc)
  then show n: "owner_ids ''a'' (sv_db (fst (handleRemoveMembership demo_deps demo_remove ''biii'' (demo_svc two_owners)))) \<noteq> owner_ids ''a'' two_owners"
    unfolding demo_removes by simp
  have "accounts_ok (sv_db (demo_svc two_owners))" by (simp add: demo_parts two_owners_ok)
  from owner_changes_need_an_owner [where h = handleRemoveMembership, OF _ demo_contracts_ok this] n
  show "called_by_owner demo_deps demo_remove ''a'' two_owners" unfolding demo_parts by blast
qed

end
