(* ===== verification/Await.thy ===== *)
theory Await
  imports Emails_Prelude
begin

text \<open>
  Asynchronous functions as resumptions.  A worker of the code is a sequence of store
  calls and fetches with an \<open>await\<close> at each; between two awaits any other worker may run.
  \<open>Await g\<close> is one such call: it reads the shared state, writes it back in one atomic
  step and says how the function goes on.  \<open>run_alone\<close> executes a function alone, \<open>execs E\<close>
  executes it with steps of its environment \<open>E\<close> interleaved at every await; an invariant
  that every call and every environment step keeps holds along every interleaving.
\<close>

datatype ('s, 'e, 'a) prog =
    Return 'a
  | Raise 'e
  | Await "'s \<Rightarrow> 's \<times> ('s, 'e, 'a) prog"

primrec bind :: "('s, 'e, 'a) prog \<Rightarrow> ('a \<Rightarrow> ('s, 'e, 'b) prog) \<Rightarrow> ('s, 'e, 'b) prog" where
  "bind (Return a) f = f a"
| "bind (Raise e) f = Raise e"
| "bind (Await g) f = Await (\<lambda>s. map_prod id (\<lambda>p. bind p f) (g s))"

text \<open>\<open>try { return await p } catch\<close>: the outcome of \<open>p\<close> as a value.\<close>

primrec attempt :: "('s, 'e, 'a) prog \<Rightarrow> ('s, 'f, 'e + 'a) prog" where
  "attempt (Return a) = Return (Inr a)"
| "attempt (Raise e) = Return (Inl e)"
| "attempt (Await g) = Await (\<lambda>s. map_prod id attempt (g s))"

text \<open>An awaited store call whose outcome is given to a handler, and one that must not raise.\<close>

definition call_with :: "('s \<Rightarrow> 's \<times> 'r) \<Rightarrow> ('r \<Rightarrow> ('s, 'e, 'a) prog) \<Rightarrow> ('s, 'e, 'a) prog" where
  "call_with f k = Await (\<lambda>s. case f s of (s', r) \<Rightarrow> (s', k r))"

definition call :: "('s \<Rightarrow> 's \<times> ('e + 'r)) \<Rightarrow> ('s, 'e, 'r) prog" where
  "call f = call_with f (\<lambda>r. case r of Inl e \<Rightarrow> Raise e | Inr v \<Rightarrow> Return v)"

primrec run_alone :: "('s, 'e, 'a) prog \<Rightarrow> 's \<Rightarrow> 's \<times> ('e + 'a)" where
  "run_alone (Return a) = (\<lambda>s. (s, Inr a))"
| "run_alone (Raise e) = (\<lambda>s. (s, Inl e))"
| "run_alone (Await g) = (\<lambda>s. case map_prod id run_alone (g s) of (s', h) \<Rightarrow> h s')"

inductive execs :: "('s \<Rightarrow> 's \<Rightarrow> bool) \<Rightarrow> ('s, 'e, 'a) prog \<Rightarrow> 's \<Rightarrow> 'e + 'a \<Rightarrow> 's \<Rightarrow> bool"
  for E :: "'s \<Rightarrow> 's \<Rightarrow> bool" where
  returned: "execs E (Return a) s (Inr a) s"
| raised: "execs E (Raise e) s (Inl e) s"
| other: "E s s1 \<Longrightarrow> execs E p s1 r s' \<Longrightarrow> execs E p s r s'"
| own: "g s = (s1, p) \<Longrightarrow> execs E p s1 r s' \<Longrightarrow> execs E (Await g) s r s'"

text \<open>Every call of a function keeps \<open>R\<close>, whatever state it finds.\<close>

inductive keeps :: "('s \<Rightarrow> 's \<Rightarrow> bool) \<Rightarrow> ('s, 'e, 'a) prog \<Rightarrow> bool" for R where
  keeps_return: "keeps R (Return a)"
| keeps_raise: "keeps R (Raise e)"
| keeps_await: "(\<And>s. R s (fst (g s)) \<and> keeps R (snd (g s))) \<Longrightarrow> keeps R (Await g)"

inductive_cases keeps_AwaitE: "keeps R (Await g)"
inductive_simps keeps_simps [simp]: "keeps R (Return a)" "keeps R (Raise e)"

lemma bind_Await: "bind (Await g) f = Await (\<lambda>s. (fst (g s), bind (snd (g s)) f))"
  by (simp add: map_prod_def case_prod_beta)

lemma attempt_Await: "attempt (Await g) = Await (\<lambda>s. (fst (g s), attempt (snd (g s))))"
  by (simp add: map_prod_def case_prod_beta)

lemma run_Await: "run_alone (Await g) s = run_alone (snd (g s)) (fst (g s))"
  by (simp add: map_prod_def case_prod_beta)

declare bind.simps(3) [simp del] attempt.simps(3) [simp del] run_alone.simps(3) [simp del]
declare bind_Await [simp] attempt_Await [simp] run_Await [simp]

lemma prog_induct:
  assumes "\<And>a. P (Return a)" and "\<And>e. P (Raise e)"
    and "\<And>g. (\<And>s. P (snd (g s))) \<Longrightarrow> P (Await g)"
  shows "P p"
  using assms(1,2)
proof (induction p)
  case (Await g)
  have "P (snd (g s))" for s
    by (rule Await.IH [of "g s"]) (simp_all add: Await.prems prod_set_defs)
  then show ?case by (rule assms(3))
qed

lemma run_call_with [simp]: "run_alone (call_with f k) s = run_alone (k (snd (f s))) (fst (f s))"
  by (simp add: call_with_def case_prod_beta)

lemma run_call [simp]: "run_alone (call f) s = f s"
  by (cases "f s"; cases "snd (f s)") (simp_all add: call_def)

lemma run_bind:
  "run_alone (bind p f) s = (case run_alone p s of (s', Inl e) \<Rightarrow> (s', Inl e) | (s', Inr a) \<Rightarrow> run_alone (f a) s')"
  by (induction p arbitrary: s rule: prog_induct) simp_all

lemma bind_Return [simp]: "bind p Return = p"
  by (induction p rule: prog_induct) simp_all

lemma bind_assoc: "bind (bind p f) h = bind p (\<lambda>a. bind (f a) h)"
  by (induction p rule: prog_induct) simp_all

lemma bind_call_with: "bind (call_with f k) h = call_with f (\<lambda>r. bind (k r) h)"
  by (simp add: call_with_def case_prod_beta)

lemma bind_call: "bind (call f) h = call_with f (\<lambda>r. case r of Inl e \<Rightarrow> Raise e | Inr v \<Rightarrow> h v)"
  unfolding call_def bind_call_with by (rule arg_cong [of _ _ "call_with f"]) (auto split: sum.split)

section \<open>Running alone is one of the executions\<close>

lemma execs_run: "execs E p s (snd (run_alone p s)) (fst (run_alone p s))"
  by (induction p arbitrary: s rule: prog_induct) (auto intro: execs.intros surjective_pairing)

lemma execs_alone:
  assumes "execs (\<lambda>_ _. False) p s r s'"
  shows "run_alone p s = (s', r)"
  using assms by induction simp_all

section \<open>Preservation under interleaving\<close>

lemma execs_keeps:
  assumes "execs E p s r s'" and "keeps R p"
    and "\<And>s1 s2. E s1 s2 \<Longrightarrow> R s1 s2" and "\<And>s1. R s1 s1"
    and "\<And>s1 s2 s3. R s1 s2 \<Longrightarrow> R s2 s3 \<Longrightarrow> R s1 s3"
  shows "R s s'"
  using assms(1,2)
proof induction
  case (own g s s1 p r s')
  have "R s (fst (g s)) \<and> keeps R (snd (g s))"
    using own.prems by (rule keeps_AwaitE) simp
  with own.IH own.hyps show ?case using assms(5) by force
qed (use assms in blast)+

lemma keeps_sequence:
  assumes "keeps R p" and "\<And>a. keeps R (f a)"
  shows "keeps R (bind p f)"
  using assms(1) by induction (simp_all add: assms(2) keeps_await)

lemma keeps_mono: "keeps Q p \<Longrightarrow> (\<And>s s'. Q s s' \<Longrightarrow> R s s') \<Longrightarrow> keeps R p"
  by (induction rule: keeps.induct) (auto intro: keeps_await)

lemma keeps_attempt: "keeps R p \<Longrightarrow> keeps R (attempt p)"
  by (induction rule: keeps.induct) (simp_all add: keeps_await)

lemma keeps_call_with:
  "(\<And>s. R s (fst (f s))) \<Longrightarrow> (\<And>r. keeps R (k r)) \<Longrightarrow> keeps R (call_with f k)"
  unfolding call_with_def by (rule keeps_await) (simp add: case_prod_beta)

lemma keeps_call: "(\<And>s. R s (fst (f s))) \<Longrightarrow> keeps R (call f)"
  unfolding call_def by (rule keeps_call_with) (auto split: sum.split)

section \<open>Assertions that the environment keeps\<close>

text \<open>
  \<open>holds E P p Q\<close>: started where \<open>P\<close> holds, every interleaved execution of \<open>p\<close> ends where
  \<open>Q\<close> holds of its outcome.  \<open>P\<close> must survive the steps of the environment.
\<close>

definition stable :: "('s \<Rightarrow> 's \<Rightarrow> bool) \<Rightarrow> ('s \<Rightarrow> bool) \<Rightarrow> bool" where
  "stable E P \<longleftrightarrow> (\<forall>s s'. P s \<longrightarrow> E s s' \<longrightarrow> P s')"

definition holds :: "('s \<Rightarrow> 's \<Rightarrow> bool) \<Rightarrow> ('s \<Rightarrow> bool) \<Rightarrow> ('s, 'e, 'a) prog
    \<Rightarrow> ('e + 'a \<Rightarrow> 's \<Rightarrow> bool) \<Rightarrow> bool" where
  "holds E P p Q \<longleftrightarrow> (\<forall>s r s'. P s \<longrightarrow> execs E p s r s' \<longrightarrow> Q r s')"

lemma holdsD: "holds E P p Q \<Longrightarrow> P s \<Longrightarrow> execs E p s r s' \<Longrightarrow> Q r s'"
  by (auto simp: holds_def)

lemma holds_weaken:
  "holds E P' p Q' \<Longrightarrow> (\<And>s. P s \<Longrightarrow> P' s) \<Longrightarrow> (\<And>r s. Q' r s \<Longrightarrow> Q r s) \<Longrightarrow> holds E P p Q"
  unfolding holds_def by meson

lemma stable_conj: "stable E P \<Longrightarrow> stable E Q \<Longrightarrow> stable E (\<lambda>s. P s \<and> Q s)"
  by (auto simp: stable_def)

lemma stable_all: "(\<And>x. stable E (P x)) \<Longrightarrow> stable E (\<lambda>s. \<forall>x. P x s)"
  by (auto simp: stable_def)

lemma stable_ball: "(\<And>x. x \<in> X \<Longrightarrow> stable E (P x)) \<Longrightarrow> stable E (\<lambda>s. \<forall>x \<in> X. P x s)"
  by (auto simp: stable_def)

lemma stable_const [simp]: "stable E (\<lambda>s. c)"
  by (simp add: stable_def)

lemma stable_imp: "(c \<Longrightarrow> stable E P) \<Longrightarrow> stable E (\<lambda>s. c \<longrightarrow> P s)"
  by (auto simp: stable_def)

lemma holds_Return: "stable E P \<Longrightarrow> (\<And>s. P s \<Longrightarrow> Q (Inr a) s) \<Longrightarrow> holds E P (Return a) Q"
proof -
  assume P: "stable E P" and Q: "\<And>s. P s \<Longrightarrow> Q (Inr a) s"
  have "execs E p s r s' \<Longrightarrow> p = Return a \<Longrightarrow> P s \<Longrightarrow> Q r s'" for p s r s'
    by (induction rule: execs.induct) (use P Q in \<open>auto simp: stable_def\<close>)
  then show ?thesis by (simp add: holds_def)
qed

lemma holds_Raise: "stable E P \<Longrightarrow> (\<And>s. P s \<Longrightarrow> Q (Inl e) s) \<Longrightarrow> holds E P (Raise e) Q"
proof -
  assume P: "stable E P" and Q: "\<And>s. P s \<Longrightarrow> Q (Inl e) s"
  have "execs E p s r s' \<Longrightarrow> p = Raise e \<Longrightarrow> P s \<Longrightarrow> Q r s'" for p s r s'
    by (induction rule: execs.induct) (use P Q in \<open>auto simp: stable_def\<close>)
  then show ?thesis by (simp add: holds_def)
qed

lemma holds_Await:
  assumes "stable E P" and "\<And>s. P s \<Longrightarrow> holds E (\<lambda>s'. R s s') (snd (g s)) Q"
    and "\<And>s. P s \<Longrightarrow> R s (fst (g s))"
  shows "holds E P (Await g) Q"
proof -
  have "execs E p s r s' \<Longrightarrow> p = Await g \<Longrightarrow> P s \<Longrightarrow> Q r s'" for p s r s'
  proof (induction rule: execs.induct)
    case (own h s s1 p r s')
    then have "h = g" by simp
    with own assms(2) [of s] assms(3) [of s] show ?case by (auto simp: holds_def)
  qed (use assms in \<open>auto simp: stable_def\<close>)
  then show ?thesis by (simp add: holds_def)
qed

lemma holds_call_with:
  assumes "stable E P" and "\<And>s. P s \<Longrightarrow> R (snd (f s)) (fst (f s))"
    and "\<And>r. holds E (R r) (k r) Q"
  shows "holds E P (call_with f k) Q"
  unfolding call_with_def
  by (rule holds_Await [where R = "\<lambda>s. R (snd (f s))"]) (use assms in \<open>auto simp: case_prod_beta\<close>)

lemma execs_bindD:
  assumes "execs E (bind p f) s r s'"
  shows "\<exists>ra s1. execs E p s ra s1 \<and>
    (case ra of Inl e \<Rightarrow> r = Inl e \<and> s' = s1 | Inr a \<Rightarrow> execs E (f a) s1 r s')"
proof -
  have "execs E q s r s' \<Longrightarrow> q = bind p f \<Longrightarrow> \<exists>ra s1. execs E p s ra s1 \<and>
    (case ra of Inl e \<Rightarrow> r = Inl e \<and> s' = s1 | Inr a \<Rightarrow> execs E (f a) s1 r s')" for q
  proof (induction arbitrary: p rule: execs.induct)
    case (returned a s)
    then obtain b where b: "p = Return b" by (cases p) auto
    with returned have "f b = Return a" by simp
    with b show ?case by (intro exI [of _ "Inr b"] exI [of _ s]) (simp add: execs.returned)
  next
    case (raised e s)
    show ?case
    proof (cases p)
      case (Return b)
      with raised have "f b = Raise e" by simp
      with Return show ?thesis by (intro exI [of _ "Inr b"] exI [of _ s]) (simp add: execs.returned execs.raised)
    next
      case (Raise d)
      with raised show ?thesis by (intro exI [of _ "Inl e"] exI [of _ s]) (simp add: execs.raised)
    qed (use raised in simp)
  next
    case (other s s1 q r s')
    from other.IH [OF other.prems] obtain ra s2 where "execs E p s1 ra s2"
      "case ra of Inl e \<Rightarrow> r = Inl e \<and> s' = s2 | Inr a \<Rightarrow> execs E (f a) s2 r s'" by (elim exE conjE)
    with other.hyps(1) show ?case by (intro exI [of _ ra] exI [of _ s2]) (simp add: execs.other)
  next
    case (own g s s1 q r s')
    show ?case
    proof (cases p)
      case (Await h)
      with own.prems have g: "g = (\<lambda>s. (fst (h s), bind (snd (h s)) f))" by simp
      with own.hyps(1) have s1: "fst (h s) = s1" and q: "q = bind (snd (h s)) f" by auto
      from own.IH [OF q] obtain ra s2 where x: "execs E (snd (h s)) s1 ra s2"
        "case ra of Inl e \<Rightarrow> r = Inl e \<and> s' = s2 | Inr a \<Rightarrow> execs E (f a) s2 r s'" by (elim exE conjE)
      from s1 have "h s = (s1, snd (h s))" by (simp add: prod_eq_iff)
      then have "execs E (Await h) s ra s2" using x(1) by (rule execs.own)
      with x(2) Await show ?thesis by (intro exI [of _ ra] exI [of _ s2]) simp
    next
      case (Return b)
      with own have "execs E (f b) s r s'" using execs.own [of g s s1 q E r s'] by simp
      with Return show ?thesis by (intro exI [of _ "Inr b"] exI [of _ s]) (simp add: execs.returned)
    qed (use own in simp)
  qed
  with assms show ?thesis by blast
qed

lemma holds_bind:
  assumes "holds E P p R" and "\<And>e s. R (Inl e) s \<Longrightarrow> Q (Inl e) s"
    and "\<And>a. holds E (R (Inr a)) (f a) Q"
  shows "holds E P (bind p f) Q"
  unfolding holds_def
proof (intro allI impI)
  fix s r s' assume P: "P s" and "execs E (bind p f) s r s'"
  then obtain ra s1 where x: "execs E p s ra s1"
    "case ra of Inl e \<Rightarrow> r = Inl e \<and> s' = s1 | Inr a \<Rightarrow> execs E (f a) s1 r s'"
    using execs_bindD [of E p f s r s'] by metis
  with assms(1) P have "R ra s1" by (blast dest: holdsD)
  with x(2) show "Q r s'" using assms(2,3) by (cases ra) (auto dest: holdsD)
qed

end
