(* ===== verification/Canonical_Json.thy ===== *)
theory Canonical_Json
  imports Send_Request
begin

text \<open>
  \<open>canonicalJson\<close> and \<open>attachmentMetadataOnly\<close> of src/server/self-hosted/store.ts, which
  give JSON values one text for hashing and comparison, and the equality of the jsonb
  columns they are stored in.  The collation behind \<open>localeCompare\<close> belongs to the
  platform and is the parameter \<open>le\<close> (\<open>le a b\<close> for \<open>a.localeCompare(b) <= 0\<close>).
\<close>

fun canonicalJson :: "(string \<Rightarrow> string \<Rightarrow> bool) \<Rightarrow> json \<Rightarrow> string" where
  "canonicalJson le (JArr xs) = ''['' @ join_texts '','' (map (canonicalJson le) xs) @ '']''"
| "canonicalJson le (JObj fs) =
     ''{'' @ join_texts '','' (map (\<lambda>f. json_string (fst f) @ '':'' @ snd f)
        (stable_sort (\<lambda>a b. le (fst a) (fst b)) (map (\<lambda>f. (fst f, canonicalJson le (snd f))) fs))) @ ''}''"
| "canonicalJson le JNull = json_text JNull"
| "canonicalJson le (JBool b) = json_text (JBool b)"
| "canonicalJson le (JNum i) = json_text (JNum i)"
| "canonicalJson le (JStr s) = json_text (JStr s)"

fun attachmentMetadataOnly :: "json \<Rightarrow> json" where
  "attachmentMetadataOnly (JArr xs) = JArr (map attachmentMetadataOnly xs)"
| "attachmentMetadataOnly (JObj fs) =
     JObj (map (\<lambda>f. (fst f, attachmentMetadataOnly (snd f)))
       (filter (\<lambda>f. fst f \<noteq> ''content_base64'') fs))"
| "attachmentMetadataOnly JNull = JNull"
| "attachmentMetadataOnly (JBool b) = JBool b"
| "attachmentMetadataOnly (JNum i) = JNum i"
| "attachmentMetadataOnly (JStr s) = JStr s"

text \<open>
  The normal form of jsonb: the keys of an object are unique (the last value wins) and
  their order is not kept.  Two jsonb values are equal when their normal forms are.
\<close>

fun put_key :: "string \<Rightarrow> json \<Rightarrow> (string \<times> json) list \<Rightarrow> (string \<times> json) list" where
  "put_key k v [] = [(k, v)]"
| "put_key k v ((k', w) # r) =
     (if k = k' then (k, v) # r
      else if k < k' then (k, v) # (k', w) # r
      else (k', w) # put_key k v r)"

fun jsonb :: "json \<Rightarrow> json" where
  "jsonb (JArr xs) = JArr (map jsonb xs)"
| "jsonb (JObj fs) = JObj (foldl (\<lambda>r f. put_key (fst f) (snd f) r) [] (map (\<lambda>f. (fst f, jsonb (snd f))) fs))"
| "jsonb JNull = JNull"
| "jsonb (JBool b) = JBool b"
| "jsonb (JNum i) = JNum i"
| "jsonb (JStr s) = JStr s"

definition jsonb_eq :: "json \<Rightarrow> json \<Rightarrow> bool" where
  "jsonb_eq a b \<longleftrightarrow> jsonb a = jsonb b"

lemma jsonb_eq_refl [simp]: "jsonb_eq a a"
  by (simp add: jsonb_eq_def)

text \<open>Reading a key of an object.\<close>

definition json_key :: "json \<Rightarrow> string \<Rightarrow> json option" where
  "json_key v k = (case v of JObj fs \<Rightarrow> map_of (rev fs) k | _ \<Rightarrow> None)"

lemma map_of_put_key: "map_of (put_key k v r) = (map_of r)(k \<mapsto> v)"
  by (induction k v r rule: put_key.induct) auto

lemma map_of_jsonb_fold:
  "map_of (foldl (\<lambda>r f. put_key (fst f) (snd f) r) acc fs) = map_of acc ++ map_of (rev fs)"
  by (induction fs arbitrary: acc) (auto simp: map_of_put_key map_add_def split: option.splits)

lemma map_of_rev_id: "distinct (map fst r) \<Longrightarrow> map_of (rev r) = map_of r"
proof (induction r)
  case (Cons a r)
  then have "map_of r (fst a) = None" by (simp add: map_of_eq_None_iff)
  with Cons show ?case by (cases a) (auto simp: map_of_append fun_eq_iff map_add_def split: option.splits)
qed simp

lemma fst_put_key: "set (map fst (put_key k v r)) = insert k (set (map fst r))"
  by (induction k v r rule: put_key.induct) auto

lemma put_key_sorted:
  "distinct (map fst r) \<and> sorted (map fst r) \<Longrightarrow>
   distinct (map fst (put_key k v r)) \<and> sorted (map fst (put_key k v r))"
proof (induction k v r rule: put_key.induct)
  case (2 k v k' w r)
  then show ?case using fst_put_key [of k v r] by (auto simp: less_imp_le not_less)
qed simp

lemma put_keys_sorted:
  "distinct (map fst r) \<and> sorted (map fst r) \<Longrightarrow>
   distinct (map fst (foldl (\<lambda>r f. put_key (fst f) (snd f) r) r fs))"
  by (induction fs arbitrary: r) (use put_key_sorted in \<open>auto simp del: sorted_wrt_map\<close>)

lemma map_of_map_snd: "map_of (map (\<lambda>f. (fst f, h (snd f))) fs) k = map_option h (map_of fs k)"
  by (induction fs) auto

lemma json_key_jsonb: "json_key (jsonb v) k = map_option jsonb (json_key v k)"
proof (cases v)
  case (JObj fs)
  let ?g = "foldl (\<lambda>r f. put_key (fst f) (snd f) r) [] (map (\<lambda>f. (fst f, jsonb (snd f))) fs)"
  have "map_of (rev ?g) = map_of ?g"
    by (rule map_of_rev_id) (simp add: put_keys_sorted)
  also have "\<dots> = map_of (rev (map (\<lambda>f. (fst f, jsonb (snd f))) fs))"
    by (simp only: map_of_jsonb_fold) simp
  finally have "map_of (rev ?g) k = map_option jsonb (map_of (rev fs) k)"
    by (simp add: rev_map map_of_map_snd)
  then show ?thesis by (simp add: JObj json_key_def)
qed (simp_all add: json_key_def)

lemma json_key_metadata_only:
  "json_key (attachmentMetadataOnly v) k =
     (if k = ''content_base64'' then None else map_option attachmentMetadataOnly (json_key v k))"
proof (cases v)
  case (JObj fs)
  have "map_of (map (\<lambda>f. (fst f, attachmentMetadataOnly (snd f))) (filter (\<lambda>f. fst f \<noteq> ''content_base64'') fs)) k
    = (if k = ''content_base64'' then None else map_option attachmentMetadataOnly (map_of fs k))" for fs
    by (induction fs) auto
  from this [of "rev fs"] show ?thesis by (simp add: JObj json_key_def rev_map rev_filter)
qed (simp_all add: json_key_def)

lemma attachmentMetadataOnly_idem [simp]:
  "attachmentMetadataOnly (attachmentMetadataOnly v) = attachmentMetadataOnly v"
  by (induction v rule: attachmentMetadataOnly.induct) (auto simp: filter_map comp_def)

end
