(* ===== verification/Inbound_Store.thy ===== *)
theory Inbound_Store
  imports Send_Ledger Canonical_Json Email_Address
begin

text \<open>
  The inbound half of the self-hosted store (src/server/self-hosted/store.ts): routing of
  envelope recipients through the global domain map, the quarantine, immutable source
  provenance, the atomic insertion of an inbound message, the bindings of one stored
  object, and the compare-and-swap of attachment payloads.  The state is the store's
  tables together with \<open>inbound_message_sources\<close> (migration 0017).
\<close>

section \<open>State\<close>

datatype established_via = normal_ingest | canonical_replay

record provenance =
  pv_tenant :: string
  pv_message :: string
  pv_bucket :: string
  pv_object_key :: string
  pv_raw_sha256 :: string
  pv_established_via :: established_via

record mail_store =
  ms_db :: db
  ms_sources :: "provenance list"

type_synonym 'a mail_outcome = "mail_store \<times> (store_error + 'a)"

definition mail_transaction :: "(mail_store \<Rightarrow> 'a mail_outcome) \<Rightarrow> mail_store \<Rightarrow> 'a mail_outcome" where
  "mail_transaction f s = (case f s of (_, Inl e) \<Rightarrow> (s, Inl e) | (s', Inr r) \<Rightarrow> (s', Inr r))"

text \<open>\<open>/^[0-9a-f]{64}$/\<close>.\<close>

definition hex64 :: "string \<Rightarrow> bool" where
  "hex64 s \<longleftrightarrow> length s = 64 \<and> (\<forall>c \<in> set s. c \<in> set ''0123456789abcdef'')"

text \<open>
  \<open>forTenant\<close>: the same client, scoped to one tenant.  The code throws on an empty id, which
  neither a routed group nor a request's tenant has.
\<close>

definition forTenant :: "scope \<Rightarrow> string \<Rightarrow> scope" where
  "forTenant sc tenant = sc\<lparr>sc_tenant := tenant\<rparr>"

section \<open>Routing\<close>

record route_group =
  rg_tenant :: string
  rg_recipients :: "string list"

record route_resolution =
  rr_groups :: "route_group list"
  rr_unresolved :: "string list"

text \<open>The domain of a recipient: after the last at sign, neither part empty.\<close>

definition recipient_domain :: "string \<Rightarrow> string option" where
  "recipient_domain r =
     (case last_index_of CHR ''@'' r of
        None \<Rightarrow> None
      | Some i \<Rightarrow> if i = 0 \<or> i = length r - 1 then None else Some (drop (i + 1) r))"

definition by_domain :: "string list \<Rightarrow> (string \<times> string list) list \<times> string list" where
  "by_domain rs = fold (\<lambda>r (grouped, unresolved).
     case recipient_domain r of
       None \<Rightarrow> (grouped, unresolved @ [r])
     | Some d \<Rightarrow> (push_values d [r] grouped, unresolved)) rs ([], [])"

definition active_routes :: "db \<Rightarrow> string list \<Rightarrow> route_row list" where
  "active_routes s ds = filter (\<lambda>r. js_lower (rt_domain r) \<in> set ds
     \<and> (\<exists>t \<in> set (tenants s). t_id t = rt_tenant r \<and> t_status t = ''active'')) (routes s)"

definition route_of :: "route_row list \<Rightarrow> string \<Rightarrow> string option" where
  "route_of rows d = map_of (rev (map (\<lambda>r. (js_lower (rt_domain r), rt_tenant r)) rows)) d"

definition by_tenant :: "(string \<Rightarrow> string option) \<Rightarrow> (string \<times> string list) list
    \<Rightarrow> string list \<Rightarrow> (string \<times> string list) list \<times> string list" where
  "by_tenant route ds unresolved0 = fold (\<lambda>(d, rs) (grouped, unresolved).
     case route d of
       None \<Rightarrow> (grouped, unresolved @ rs)
     | Some tenant \<Rightarrow>
         if tenant = [] then (grouped, unresolved @ rs)
         else (push_values tenant rs grouped, unresolved)) ds ([], unresolved0)"

definition resolveInboundRecipients :: "db \<Rightarrow> string list \<Rightarrow> route_resolution" where
  "resolveInboundRecipients s envelope =
     (let normalized = js_unique (filter (\<lambda>r. r \<noteq> []) (map canonicalAddress envelope));
          (domains, unresolved) = by_domain normalized;
          routes = active_routes s (map fst domains);
          (grouped, unresolved') = by_tenant (route_of routes) domains unresolved
      in \<lparr> rr_groups = map (\<lambda>(t, rs). \<lparr> rg_tenant = t, rg_recipients = rs \<rparr>) grouped,
           rr_unresolved = unresolved' \<rparr>)"

section \<open>Quarantine\<close>

definition quarantineInbound :: "quarantine_row \<Rightarrow> mail_store \<Rightarrow> mail_store" where
  "quarantineInbound q s =
     (let rows = quarantine (ms_db s) in
      s\<lparr>ms_db := (ms_db s)\<lparr>quarantine :=
        (if \<exists>r \<in> set rows. q_source_id r = q_source_id q
         then map (\<lambda>r. if q_source_id r = q_source_id q
                        then r\<lparr>q_recipients := q_recipients q, q_reason := q_reason q, q_detail := q_detail q\<rparr>
                        else r) rows
         else rows @ [q])\<rparr>\<rparr>)"

section \<open>Provenance\<close>

abbreviation source_matches :: "string \<Rightarrow> message \<Rightarrow> bool" where
  "source_matches key m \<equiv> m_source_id m = Some key \<or> m_message_id m = Some key"

definition source_row :: "string \<Rightarrow> string \<Rightarrow> provenance \<Rightarrow> bool" where
  "source_row tenant i p \<longleftrightarrow> pv_tenant p = tenant \<and> pv_message p = i"

text \<open>\<open>ON CONFLICT DO NOTHING\<close> against the primary key and the unique object key.\<close>

definition source_conflict :: "provenance \<Rightarrow> provenance \<Rightarrow> bool" where
  "source_conflict p q \<longleftrightarrow> pv_tenant p = pv_tenant q
     \<and> (pv_message p = pv_message q
        \<or> (pv_bucket p = pv_bucket q \<and> pv_object_key p = pv_object_key q))"

definition insert_source :: "provenance \<Rightarrow> mail_store \<Rightarrow> mail_store \<times> provenance option" where
  "insert_source p s =
     (if \<exists>q \<in> set (ms_sources s). source_conflict p q then (s, None)
      else (s\<lparr>ms_sources := ms_sources s @ [p]\<rparr>, Some p))"

definition getInboundSourceProvenance :: "scope \<Rightarrow> string \<Rightarrow> mail_store \<Rightarrow> provenance option" where
  "getInboundSourceProvenance sc i s =
     (if i = [] then None else find (source_row (sc_tenant sc) i) (ms_sources s))"

definition findMessageIdByKey :: "scope \<Rightarrow> string \<Rightarrow> mail_store \<Rightarrow> string option" where
  "findMessageIdByKey sc key s =
     (if key = [] then None
      else map_option m_id (find (\<lambda>m. source_matches key m \<and> m_tenant m = sc_tenant sc) (messages (ms_db s))))"

datatype record_result = recorded | existing_match | conflict | not_found

definition same_object :: "string \<Rightarrow> string \<Rightarrow> string \<Rightarrow> provenance \<Rightarrow> bool" where
  "same_object bucket key sha p \<longleftrightarrow> pv_bucket p = bucket \<and> pv_object_key p = key \<and> pv_raw_sha256 p = sha"

definition recordInboundSourceProvenance :: "scope \<Rightarrow> string \<Rightarrow> string \<Rightarrow> string \<Rightarrow> string
    \<Rightarrow> established_via \<Rightarrow> mail_store \<Rightarrow> mail_store \<times> record_result" where
  "recordInboundSourceProvenance sc i bucket key sha via s =
     (if i = [] \<or> bucket = [] \<or> key = [] \<or> \<not> hex64 sha then (s, not_found)
      else
        (let bound = (\<exists>m \<in> set (messages (ms_db s)). m_tenant m = sc_tenant sc \<and> m_id m = i \<and> source_matches key m);
             p = \<lparr> pv_tenant = sc_tenant sc, pv_message = i, pv_bucket = bucket, pv_object_key = key,
                   pv_raw_sha256 = sha, pv_established_via = via \<rparr>;
             (s', inserted) = (if bound then insert_source p s else (s, None))
         in if inserted \<noteq> None then (s', recorded)
            else (case getInboundSourceProvenance sc i s' of
                    None \<Rightarrow> (s', not_found)
                  | Some e \<Rightarrow> (s', if same_object bucket key sha e then existing_match else conflict))))"

section \<open>Insertion of inbound messages\<close>

text \<open>The unique indexes of messages that an \<open>INSERT\<close> may violate.\<close>

definition row_violates :: "message \<Rightarrow> message list \<Rightarrow> bool" where
  "row_violates r M \<longleftrightarrow> (\<exists>m \<in> set M. m_id m = m_id r
     \<or> (m_tenant m = m_tenant r \<and> m_key r \<noteq> None \<and> m_key m = m_key r))"

definition source_taken :: "message \<Rightarrow> message list \<Rightarrow> bool" where
  "source_taken r M \<longleftrightarrow>
     (\<exists>m \<in> set M. m_tenant m = m_tenant r \<and> m_source_id r \<noteq> None \<and> m_source_id m = m_source_id r)"

definition createMessage :: "scope \<Rightarrow> int \<Rightarrow> string \<Rightarrow> message_input \<Rightarrow> mail_store \<Rightarrow> message mail_outcome" where
  "createMessage sc now fresh i s =
     (let r = message_of_input fresh now (sc_tenant sc) i; M = messages (ms_db s) in
      if row_violates r M \<or> source_taken r M then (s, Inl (Store_Error ''duplicate key value''))
      else (s\<lparr>ms_db := (ms_db s)\<lparr>messages := M @ [r]\<rparr>\<rparr>, Inr r))"

record inbound_insert =
  in_record :: message
  in_inserted :: bool
  in_provenance :: record_result

definition bind_source :: "provenance \<Rightarrow> message \<Rightarrow> bool \<Rightarrow> mail_store \<Rightarrow> inbound_insert mail_outcome" where
  "bind_source p row inserted s =
     (case insert_source p s of
        (s', Some _) \<Rightarrow>
          (s', Inr \<lparr> in_record = row, in_inserted = inserted, in_provenance = recorded \<rparr>)
      | (s', None) \<Rightarrow>
          (case find (source_row (pv_tenant p) (pv_message p)) (ms_sources s') of
             None \<Rightarrow> (s', Inl (Store_Error ''inbound source provenance conflicts with the exact object''))
           | Some e \<Rightarrow>
               if same_object (pv_bucket p) (pv_object_key p) (pv_raw_sha256 p) e
               then (s', Inr \<lparr> in_record = row, in_inserted = inserted, in_provenance = existing_match \<rparr>)
               else (s', Inl (Store_Error ''inbound source provenance conflicts with the exact object''))))"

definition insert_inbound_row :: "scope \<Rightarrow> int \<Rightarrow> string \<Rightarrow> message_input \<Rightarrow> mail_store
    \<Rightarrow> (message option) mail_outcome" where
  "insert_inbound_row sc now fresh i s =
     (let r = message_of_input fresh now (sc_tenant sc) i; M = messages (ms_db s) in
      if source_taken r M then (s, Inr None)
      else if row_violates r M then (s, Inl (Store_Error ''duplicate key value''))
      else (s\<lparr>ms_db := (ms_db s)\<lparr>messages := M @ [r]\<rparr>\<rparr>, Inr (Some r)))"

definition inbound_action :: "scope \<Rightarrow> int \<Rightarrow> string \<Rightarrow> message_input \<Rightarrow> string \<Rightarrow> string \<Rightarrow> string
    \<Rightarrow> mail_store \<Rightarrow> inbound_insert mail_outcome" where
  "inbound_action sc now fresh i bucket key sha s =
     (case insert_inbound_row sc now fresh i s of
        (s', Inl e) \<Rightarrow> (s', Inl e)
      | (s', Inr inserted) \<Rightarrow>
          (case (case inserted of Some r \<Rightarrow> Some r
                 | None \<Rightarrow> find (\<lambda>m. m_tenant m = sc_tenant sc \<and> m_source_id m = Some key) (messages (ms_db s'))) of
             None \<Rightarrow> (s', Inl (Store_Error ''could not bind inbound message to the exact source object''))
           | Some row \<Rightarrow>
               if \<not> source_matches key row
               then (s', Inl (Store_Error ''could not bind inbound message to the exact source object''))
               else bind_source \<lparr> pv_tenant = sc_tenant sc, pv_message = m_id row, pv_bucket = bucket,
                       pv_object_key = key, pv_raw_sha256 = sha, pv_established_via = normal_ingest \<rparr>
                      row (inserted \<noteq> None) s'))"

definition createInboundMessageWithProvenance :: "scope \<Rightarrow> int \<Rightarrow> string \<Rightarrow> message_input \<Rightarrow> string
    \<Rightarrow> string \<Rightarrow> string \<Rightarrow> mail_store \<Rightarrow> inbound_insert mail_outcome" where
  "createInboundMessageWithProvenance sc now fresh i bucket key sha s =
     (if or_default (mi_source_id i) [] = [] \<or> mi_source_id i \<noteq> Some key \<or> bucket = [] \<or> \<not> hex64 sha
         \<or> \<not> sc_atomic sc
      then (s, Inl (Store_Error ''atomic inbound message provenance requires an exact source and transactional store''))
      else mail_transaction (inbound_action sc now fresh i bucket key sha) s)"

end
