(* ===== verification/Inbound_Ingest.thy ===== *)
theory Inbound_Ingest
  imports Await Inbound_Store Js_Text
begin

text \<open>
  The SES-inbound ingestion worker, src/server/self-hosted/ingest-worker.ts, with the
  notification parser of src/lib/inbound-realtime.ts: the deployment's prefix map, the
  routing of one stored object, its atomic insertion per tenant, and the decision to delete
  the queue message.  S3, the MIME parser, SHA-256 of bytes, \<open>JSON.parse\<close>,
  \<open>decodeURIComponent\<close>, the collation and the cast of a timestamp text are parameters; each
  store call of the worker is one atomic step (an \<open>Await\<close>).
\<close>

section \<open>The prefix map\<close>

record prefix_mapping =
  pm_prefix :: string
  pm_domain :: string

definition INBOUND_PREFIX_DOMAIN_MAP_MAX_BYTES :: nat where
  "INBOUND_PREFIX_DOMAIN_MAP_MAX_BYTES = 16384"

definition utf8_bytes :: "string \<Rightarrow> nat" where
  "utf8_bytes s = sum_list (map (\<lambda>c. if (of_char c :: nat) < 128 then 1 else 2) s)"

definition control_char :: "char \<Rightarrow> bool" where
  "control_char c \<longleftrightarrow> (of_char c :: nat) \<le> 31 \<or> (of_char c :: nat) = 127"

definition domain_alnum :: "char \<Rightarrow> bool" where
  "domain_alnum c \<longleftrightarrow> (let n = of_char c :: nat in (48 \<le> n \<and> n \<le> 57) \<or> (97 \<le> n \<and> n \<le> 122))"

definition inbound_label :: "string \<Rightarrow> bool" where
  "inbound_label l \<longleftrightarrow> l \<noteq> [] \<and> length l \<le> 63 \<and> domain_alnum (hd l) \<and> domain_alnum (last l)
     \<and> (\<forall>c \<in> set l. domain_alnum c \<or> c = CHR ''-'')"

text \<open>\<open>INBOUND_DOMAIN_RE\<close>.\<close>

definition inbound_domain :: "string \<Rightarrow> bool" where
  "inbound_domain d \<longleftrightarrow> d \<noteq> [] \<and> length d \<le> 253
     \<and> (let ls = split_on CHR ''.'' d in 2 \<le> length ls \<and> (\<forall>l \<in> set ls. inbound_label l))"

definition starts_with_text :: "string \<Rightarrow> string \<Rightarrow> bool" where
  "starts_with_text s p \<longleftrightarrow> take (length p) s = p"

definition prefix_ok :: "string \<Rightarrow> bool" where
  "prefix_ok p \<longleftrightarrow> p \<noteq> [] \<and> p = js_trim p \<and> hd p \<noteq> CHR ''/'' \<and> last p = CHR ''/''
     \<and> \<not> (\<exists>c \<in> set p. control_char c) \<and> \<not> (\<exists>x \<in> set (split_on CHR ''/'' p). x = ''.'' \<or> x = ''..'')"

text \<open>\<open>Object.entries\<close> of a parsed object: one entry per key, the last value of a repeated key.\<close>

definition object_entries :: "(string \<times> json) list \<Rightarrow> (string \<times> json) list" where
  "object_entries fs = map (\<lambda>k. (k, the (map_of (rev fs) k))) (js_unique (map fst fs))"

definition prefix_mapping_of :: "string \<times> json \<Rightarrow> string + prefix_mapping" where
  "prefix_mapping_of f =
     (case snd f of
        JStr d \<Rightarrow>
          if \<not> prefix_ok (fst f) then Inl ''EMAILS_INGEST_PREFIX_DOMAIN_MAP contains an invalid S3 prefix''
          else if d \<noteq> js_lower (js_trim d) \<or> \<not> inbound_domain d
          then Inl ''EMAILS_INGEST_PREFIX_DOMAIN_MAP contains a non-canonical domain''
          else Inr \<lparr> pm_prefix = fst f, pm_domain = d \<rparr>
      | _ \<Rightarrow> Inl ''EMAILS_INGEST_PREFIX_DOMAIN_MAP domains must be strings'')"

fun mappings_of :: "(string \<times> json) list \<Rightarrow> string + prefix_mapping list" where
  "mappings_of [] = Inr []"
| "mappings_of (f # fs) =
     (case prefix_mapping_of f of Inl e \<Rightarrow> Inl e
      | Inr m \<Rightarrow> (case mappings_of fs of Inl e \<Rightarrow> Inl e | Inr ms \<Rightarrow> Inr (m # ms)))"

fun adjacent_overlap :: "prefix_mapping list \<Rightarrow> bool" where
  "adjacent_overlap (a # b # ms) \<longleftrightarrow> starts_with_text (pm_prefix b) (pm_prefix a) \<or> adjacent_overlap (b # ms)"
| "adjacent_overlap _ \<longleftrightarrow> False"

text \<open>\<open>parse\<close> is \<open>JSON.parse\<close>, \<open>None\<close> when it throws; \<open>le a b\<close> is \<open>a.localeCompare(b) <= 0\<close>.\<close>

definition parseInboundPrefixDomainMap :: "(string \<Rightarrow> string \<Rightarrow> bool) \<Rightarrow> (string \<Rightarrow> json option)
    \<Rightarrow> string option \<Rightarrow> string + prefix_mapping list" where
  "parseInboundPrefixDomainMap le parse raw =
     (case raw of
        None \<Rightarrow> Inr []
      | Some text \<Rightarrow>
          if INBOUND_PREFIX_DOMAIN_MAP_MAX_BYTES < utf8_bytes text
          then Inl ''EMAILS_INGEST_PREFIX_DOMAIN_MAP exceeds its bounded size''
          else if js_trim text = [] then Inr []
          else (case parse text of
             Some (JObj fs) \<Rightarrow>
               (case mappings_of (object_entries fs) of
                  Inl e \<Rightarrow> Inl e
                | Inr ms \<Rightarrow>
                    (let sorted = stable_sort (\<lambda>a b. le (pm_prefix a) (pm_prefix b)) ms in
                     if adjacent_overlap sorted
                     then Inl ''EMAILS_INGEST_PREFIX_DOMAIN_MAP contains overlapping ambiguous prefixes''
                     else Inr sorted))
           | _ \<Rightarrow> Inl ''EMAILS_INGEST_PREFIX_DOMAIN_MAP must be a JSON object''))"

definition deriveKeyPathRecipients :: "string \<Rightarrow> prefix_mapping list \<Rightarrow> string list" where
  "deriveKeyPathRecipients key ms =
     (if key = [] \<or> (\<exists>c \<in> set key. control_char c) then []
      else (case find (\<lambda>m. starts_with_text key (pm_prefix m) \<and> length (pm_prefix m) < length key) ms of
              None \<Rightarrow> []
            | Some m \<Rightarrow> [''catchall@'' @ pm_domain m]))"

section \<open>Notifications\<close>

record notification =
  nt_message_id :: "string option"
  nt_bucket :: "string option"
  nt_object_key :: "string option"
  nt_recipients :: "string list option"
  nt_timestamp :: "string option"

text \<open>
  Property access on a parsed value that is not null; it is \<open>None\<close> where the property is
  undefined.  On null the access throws a \<open>Type_Error\<close>.  \<open>prop_or_empty\<close> is \<open>v[k] ?? {}\<close>.
\<close>

datatype type_error = Type_Error | Uri_Error

definition prop_or_empty :: "json \<Rightarrow> string \<Rightarrow> json" where
  "prop_or_empty v k = (case json_key v k of None \<Rightarrow> JObj [] | Some JNull \<Rightarrow> JObj [] | Some w \<Rightarrow> w)"

definition text_prop :: "json \<Rightarrow> string \<Rightarrow> string option" where
  "text_prop v k = (case json_key v k of Some (JStr s) \<Rightarrow> Some s | _ \<Rightarrow> None)"

fun json_truthy :: "json option \<Rightarrow> bool" where
  "json_truthy (Some JNull) = False"
| "json_truthy (Some (JBool b)) = b"
| "json_truthy (Some (JNum n)) = (n \<noteq> 0)"
| "json_truthy (Some (JStr s)) = (s \<noteq> [])"
| "json_truthy (Some _) = True"
| "json_truthy None = False"

text \<open>
  A recipient that is not text is no address to any reader of the list; it is kept as the
  empty text, which \<open>canonicalAddress\<close> maps to the empty address as it does a non-text.
\<close>

definition recipient_text :: "json \<Rightarrow> string" where
  "recipient_text v = (case v of JStr s \<Rightarrow> s | _ \<Rightarrow> [])"

definition ses_notification :: "json \<Rightarrow> notification option" where
  "ses_notification obj =
     (let mail = prop_or_empty obj ''mail''; receipt = prop_or_empty obj ''receipt'';
          act = prop_or_empty receipt ''action'';
          out = \<lparr> nt_message_id = text_prop mail ''messageId'', nt_bucket = text_prop act ''bucketName'',
                  nt_object_key = text_prop act ''objectKey'',
                  nt_recipients = (case json_key receipt ''recipients'' of
                     Some (JArr rs) \<Rightarrow> Some (map recipient_text rs) | _ \<Rightarrow> None),
                  nt_timestamp = text_prop mail ''timestamp'' \<rparr>
      in if \<not> (json_key obj ''notificationType'' = Some (JStr ''Received'')
               \<or> json_truthy (json_key obj ''mail'') \<or> json_truthy (json_key obj ''receipt'')) then None
         else if or_default (nt_message_id out) [] \<noteq> [] \<or> or_default (nt_bucket out) [] \<noteq> []
              \<or> or_default (nt_object_key out) [] \<noteq> [] \<or> nt_recipients out \<noteq> None
         then Some out else None)"

text \<open>\<open>decode\<close> is \<open>decodeURIComponent\<close>, \<open>None\<close> when it throws.\<close>

definition plus_to_space :: "string \<Rightarrow> string" where
  "plus_to_space s = map (\<lambda>c. if c = CHR ''+'' then CHR '' '' else c) s"

definition s3_notification :: "(string \<Rightarrow> string option) \<Rightarrow> json \<Rightarrow> type_error + notification option" where
  "s3_notification decode obj =
     (case json_key obj ''Records'' of
        Some (JArr (r0 # _)) \<Rightarrow>
          if r0 = JNull then Inl Type_Error
          else
            (let s3 = prop_or_empty r0 ''s3''; bucket = prop_or_empty s3 ''bucket'';
                 object = prop_or_empty s3 ''object'';
                 note = (\<lambda>key. \<lparr> nt_message_id = None, nt_bucket = text_prop bucket ''name'', nt_object_key = key,
                           nt_recipients = None, nt_timestamp = None \<rparr>)
             in case (text_prop bucket ''name'', text_prop object ''key'') of
                  (None, None) \<Rightarrow> Inr None
                | (_, None) \<Rightarrow> Inr (Some (note None))
                | (_, Some k) \<Rightarrow> (case decode (plus_to_space k) of
                     None \<Rightarrow> Inl Uri_Error | Some d \<Rightarrow> Inr (Some (note (Some d)))))
      | _ \<Rightarrow> Inr None)"

text \<open>
  The SNS envelope nests a notification text inside a notification text; \<open>fuel\<close> bounds the
  nesting, and \<open>parseSesNotification\<close> starts with more than the length of the body.
\<close>

fun parse_notification :: "(string \<Rightarrow> json option) \<Rightarrow> (string \<Rightarrow> string option) \<Rightarrow> nat \<Rightarrow> string
    \<Rightarrow> type_error + notification option" where
  "parse_notification parse decode 0 body = Inr None"
| "parse_notification parse decode (Suc fuel) body =
     (case parse body of
        None \<Rightarrow> Inr None
      | Some obj \<Rightarrow>
          if obj = JNull then Inl Type_Error
          else
            (let rest = (case ses_notification obj of
                    Some note \<Rightarrow> Inr (Some note) | None \<Rightarrow> s3_notification decode obj)
             in case (text_prop obj ''Type'', text_prop obj ''Message'') of
                  (Some _, Some message) \<Rightarrow>
                    (case parse_notification parse decode fuel message of
                       Inl e \<Rightarrow> Inl e
                     | Inr (Some inner) \<Rightarrow> Inr (Some inner)
                     | Inr None \<Rightarrow> rest)
                | _ \<Rightarrow> rest))"

definition parseSesNotification :: "(string \<Rightarrow> json option) \<Rightarrow> (string \<Rightarrow> string option) \<Rightarrow> string
    \<Rightarrow> type_error + notification option" where
  "parseSesNotification parse decode body = parse_notification parse decode (Suc (length body)) body"

section \<open>Results and the environment\<close>

datatype ingest_status = ingested | duplicate | quarantined | ingest_error

record ingest_result =
  ig_status :: ingest_status
  ig_key :: "string option"
  ig_id :: "string option"
  ig_inserted :: "bool option"
  ig_tenants :: "string list option"
  ig_quarantined :: "string list option"
  ig_reason :: "string option"
  ig_error :: "string option"

record parsed_mail =
  pa_from :: string
  pa_subject :: string
  pa_text :: "string option"
  pa_html :: "string option"
  pa_headers :: headers
  pa_in_reply_to :: "string option"
  pa_received_at :: "int option"
  pa_attachments :: "json list"

record ingest_env =
  ie_scope :: scope
  ie_fetch :: "string \<Rightarrow> string \<Rightarrow> string + nat list"
  ie_mime :: "nat list \<Rightarrow> string + parsed_mail"
  ie_sha :: "nat list \<Rightarrow> string"
  ie_instant :: "string \<Rightarrow> int option"
  ie_now :: int
  ie_uuid :: "nat \<Rightarrow> string"
  ie_prefixes :: "prefix_mapping list"

definition ingest_outcome :: "ingest_status \<Rightarrow> string option \<Rightarrow> ingest_result" where
  "ingest_outcome st key = \<lparr> ig_status = st, ig_key = key, ig_id = None, ig_inserted = None, ig_tenants = None,
     ig_quarantined = None, ig_reason = None, ig_error = None \<rparr>"

definition ingest_failure :: "string option \<Rightarrow> string \<Rightarrow> string \<Rightarrow> ingest_result" where
  "ingest_failure key reason text = (ingest_outcome ingest_error key)\<lparr>ig_reason := Some reason, ig_error := Some text\<rparr>"

definition ingest_error_text :: "store_error \<Rightarrow> string" where
  "ingest_error_text e = (case e of Store_Error t \<Rightarrow> t | Range_Error t \<Rightarrow> t | _ \<Rightarrow> ''store error'')"

definition record_text :: "record_result \<Rightarrow> string" where
  "record_text r = (case r of recorded \<Rightarrow> ''recorded'' | existing_match \<Rightarrow> ''existing_match''
     | conflict \<Rightarrow> ''conflict'' | not_found \<Rightarrow> ''not_found'')"

section \<open>One stored object\<close>

type_synonym 'a ingest_prog = "(mail_store, store_error, 'a) prog"

record ingest_target =
  tg_tenant :: string
  tg_recipients :: "string list"
  tg_existing :: "string option"
  tg_provenance :: "provenance option"

text \<open>The route, and the envelope it was resolved from.\<close>

definition resolve_route :: "ingest_env \<Rightarrow> string \<Rightarrow> string list
    \<Rightarrow> (route_resolution \<Rightarrow> string list \<Rightarrow> 'a ingest_prog) \<Rightarrow> 'a ingest_prog" where
  "resolve_route env key envelope k =
     call_with (\<lambda>s. (s, resolveInboundRecipients (ms_db s) envelope)) (\<lambda>route.
       if envelope = [] \<and> rr_groups route = [] then
         (let derived = deriveKeyPathRecipients key (ie_prefixes env) in
          if derived = [] then k route envelope
          else call_with (\<lambda>s. (s, resolveInboundRecipients (ms_db s) derived)) (\<lambda>derivedRoute.
            if rr_groups derivedRoute = [] then k route envelope else k derivedRoute derived))
       else k route envelope)"

definition quarantine_entry :: "string \<Rightarrow> string \<Rightarrow> route_resolution \<Rightarrow> string list \<Rightarrow> quarantine_row" where
  "quarantine_entry bucket key route routed =
     \<lparr> q_source_id = key, q_bucket = bucket, q_object_key = key, q_recipients = routed,
       q_reason = (if rr_groups route = [] then ''no_tenant_route'' else ''partial_tenant_route''),
       q_detail = Some (if rr_unresolved route \<noteq> []
          then nat_text (length (rr_unresolved route)) @ '' unresolved envelope recipient(s)''
          else ''empty envelope recipients'') \<rparr>"

definition quarantine_unrouted :: "string \<Rightarrow> string \<Rightarrow> route_resolution \<Rightarrow> string list
    \<Rightarrow> 'a ingest_prog \<Rightarrow> 'a ingest_prog" where
  "quarantine_unrouted bucket key route routed k =
     (if rr_unresolved route \<noteq> [] \<or> rr_groups route = []
      then call_with (\<lambda>s. (quarantineInbound (quarantine_entry bucket key route routed) s, ())) (\<lambda>_. k)
      else k)"

text \<open>The lookups of every routed tenant; an empty id is falsy and has no provenance lookup.\<close>

primrec load_targets :: "ingest_env \<Rightarrow> string \<Rightarrow> route_group list \<Rightarrow> ingest_target list
    \<Rightarrow> (ingest_target list \<Rightarrow> 'a ingest_prog) \<Rightarrow> 'a ingest_prog" where
  "load_targets env key [] acc k = k acc"
| "load_targets env key (g # gs) acc k =
     (let sc = forTenant (ie_scope env) (rg_tenant g);
          target = (\<lambda>existing prov. \<lparr> tg_tenant = rg_tenant g, tg_recipients = rg_recipients g,
                      tg_existing = existing, tg_provenance = prov \<rparr>)
      in call_with (\<lambda>s. (s, findMessageIdByKey sc key s)) (\<lambda>existing.
           if or_default existing [] = [] then load_targets env key gs (acc @ [target existing None]) k
           else call_with (\<lambda>s. (s, getInboundSourceProvenance sc (the existing) s)) (\<lambda>prov.
             load_targets env key gs (acc @ [target existing prov]) k)))"

definition record_target :: "ingest_env \<Rightarrow> string \<Rightarrow> string \<Rightarrow> string \<Rightarrow> ingest_target
    \<Rightarrow> 'a ingest_prog \<Rightarrow> 'a ingest_prog" where
  "record_target env bucket key sha t k =
     call_with (recordInboundSourceProvenance (forTenant (ie_scope env) (tg_tenant t))
       (the (tg_existing t)) bucket key sha canonical_replay) (\<lambda>r.
         if r = recorded \<or> r = existing_match then k
         else Raise (Store_Error (''could not establish immutable legacy source provenance ('' @ record_text r @ '')'')))"

primrec record_targets :: "ingest_env \<Rightarrow> string \<Rightarrow> string \<Rightarrow> string \<Rightarrow> ingest_target list
    \<Rightarrow> 'a ingest_prog \<Rightarrow> 'a ingest_prog" where
  "record_targets env bucket key sha [] k = k"
| "record_targets env bucket key sha (t # ts) k =
     record_target env bucket key sha t (record_targets env bucket key sha ts k)"

definition inbound_input :: "string \<Rightarrow> parsed_mail \<Rightarrow> string list \<Rightarrow> int option \<Rightarrow> message_input" where
  "inbound_input key p recipients received =
     \<lparr> mi_from = (if pa_from p = [] then ''(unknown sender)'' else pa_from p), mi_to = recipients, mi_cc = Some [],
       mi_subject = Some (if pa_subject p = [] then None else Some (pa_subject p)),
       mi_body_text = Some (pa_text p), mi_body_html = Some (pa_html p), mi_status = Some ''received'',
       mi_provider_message_id = None, mi_direction = Some ''inbound'', mi_message_id = Some (Some key),
       mi_in_reply_to = Some (pa_in_reply_to p), mi_received_at = Some received, mi_is_read = Some False,
       mi_is_starred = None, mi_labels = None, mi_headers = Some (pa_headers p),
       mi_attachments = Some (pa_attachments p), mi_source_id = Some key, mi_key = None,
       mi_payload_hash = None, mi_send_state = None, mi_send_started_at = None \<rparr>"

text \<open>
  \<open>parsed.received_at ?? note.timestamp ?? now\<close>: \<open>None\<close> for a notification time that the
  database cannot read, on which the insertion fails.
\<close>

definition received_at :: "ingest_env \<Rightarrow> parsed_mail \<Rightarrow> string option \<Rightarrow> int option" where
  "received_at env p timestamp =
     (case pa_received_at p of
        Some t \<Rightarrow> Some t
      | None \<Rightarrow> (case timestamp of Some text \<Rightarrow> ie_instant env text | None \<Rightarrow> Some (ie_now env)))"

definition insert_target :: "ingest_env \<Rightarrow> string \<Rightarrow> string \<Rightarrow> string \<Rightarrow> parsed_mail \<Rightarrow> string option
    \<Rightarrow> nat \<Rightarrow> ingest_target \<Rightarrow> inbound_insert ingest_prog" where
  "insert_target env bucket key sha p timestamp n t =
     (case received_at env p timestamp of
        None \<Rightarrow> call (\<lambda>s. (s, Inl (Store_Error ''invalid input syntax for type timestamp with time zone'')))
      | Some received \<Rightarrow>
          call (createInboundMessageWithProvenance (forTenant (ie_scope env) (tg_tenant t)) (ie_now env) (ie_uuid env n)
            (inbound_input key p (tg_recipients t) (Some received)) bucket key sha))"

text \<open>The loop over the targets: the ids so far, and whether a row was inserted.\<close>

primrec store_targets :: "ingest_env \<Rightarrow> string \<Rightarrow> string \<Rightarrow> string \<Rightarrow> parsed_mail \<Rightarrow> string option
    \<Rightarrow> ingest_target list \<Rightarrow> nat \<Rightarrow> string list \<Rightarrow> bool \<Rightarrow> (string list \<times> bool) ingest_prog" where
  "store_targets env bucket key sha p timestamp [] n ids ins = Return (ids, ins)"
| "store_targets env bucket key sha p timestamp (t # ts) n ids ins =
     (if or_default (tg_existing t) [] \<noteq> []
      then record_target env bucket key sha t
             (store_targets env bucket key sha p timestamp ts n (ids @ [the (tg_existing t)]) ins)
      else bind (insert_target env bucket key sha p timestamp n t) (\<lambda>a.
             store_targets env bucket key sha p timestamp ts (Suc n) (ids @ [m_id (in_record a)])
               (ins \<or> in_inserted a)))"

definition duplicate_result :: "string \<Rightarrow> ingest_target list \<Rightarrow> ingest_result" where
  "duplicate_result key ts = (ingest_outcome duplicate (Some key))\<lparr>
     ig_id := (case ts of [] \<Rightarrow> None | t # _ \<Rightarrow> tg_existing t), ig_inserted := Some False,
     ig_tenants := Some (map tg_tenant ts)\<rparr>"

definition source_conflicts :: "string \<Rightarrow> string \<Rightarrow> ingest_target \<Rightarrow> bool" where
  "source_conflicts bucket key t \<longleftrightarrow>
     (case tg_provenance t of None \<Rightarrow> False | Some p \<Rightarrow> pv_bucket p \<noteq> bucket \<or> pv_object_key p \<noteq> key)"

definition hash_conflicts :: "string \<Rightarrow> ingest_target \<Rightarrow> bool" where
  "hash_conflicts sha t \<longleftrightarrow> (case tg_provenance t of None \<Rightarrow> False | Some p \<Rightarrow> pv_raw_sha256 p \<noteq> sha)"

definition ingest_raw :: "ingest_env \<Rightarrow> string \<Rightarrow> string \<Rightarrow> string option \<Rightarrow> route_resolution
    \<Rightarrow> ingest_target list \<Rightarrow> nat list \<Rightarrow> ingest_result ingest_prog" where
  "ingest_raw env bucket key timestamp route ts raw =
     (let sha = ie_sha env raw in
      if \<exists>t \<in> set ts. hash_conflicts sha t
      then Return (ingest_failure (Some key) ''provenance_hash_mismatch''
             ''canonical source bytes no longer match immutable provenance'')
      else if \<forall>t \<in> set ts. tg_existing t \<noteq> None \<and> tg_provenance t \<noteq> None then Return (duplicate_result key ts)
      else if \<forall>t \<in> set ts. tg_existing t \<noteq> None
      then record_targets env bucket key sha ts (Return (duplicate_result key ts))
      else call_with (\<lambda>s. (s, ie_mime env raw)) (\<lambda>m. case m of
             Inl e \<Rightarrow> Raise (Store_Error e)
           | Inr p \<Rightarrow> bind (store_targets env bucket key sha p timestamp ts 0 [] False) (\<lambda>(ids, ins).
               Return ((ingest_outcome (if ins then ingested else duplicate) (Some key))\<lparr>
                 ig_id := (case ids of [] \<Rightarrow> None | i # _ \<Rightarrow> Some i), ig_inserted := Some ins,
                 ig_tenants := Some (map tg_tenant ts),
                 ig_quarantined := (if rr_unresolved route \<noteq> [] then Some (rr_unresolved route) else None)\<rparr>))))"

definition ingest_targets :: "ingest_env \<Rightarrow> string \<Rightarrow> string \<Rightarrow> string option \<Rightarrow> route_resolution
    \<Rightarrow> ingest_target list \<Rightarrow> ingest_result ingest_prog" where
  "ingest_targets env bucket key timestamp route ts =
     (if \<exists>t \<in> set ts. source_conflicts bucket key t
      then Return (ingest_failure (Some key) ''provenance_conflict''
             ''existing source provenance conflicts with the configured canonical source'')
      else call_with (\<lambda>s. (s, ie_fetch env bucket key)) (\<lambda>f. case f of
             Inl e \<Rightarrow> Raise (Store_Error e)
           | Inr raw \<Rightarrow> ingest_raw env bucket key timestamp route ts raw))"

definition ingest_routed :: "ingest_env \<Rightarrow> string \<Rightarrow> string \<Rightarrow> string option \<Rightarrow> route_resolution
    \<Rightarrow> string list \<Rightarrow> ingest_result ingest_prog" where
  "ingest_routed env bucket key timestamp route routed =
     quarantine_unrouted bucket key route routed
       (if rr_groups route = []
        then Return ((ingest_outcome quarantined (Some key))\<lparr>ig_reason := Some ''no_tenant_route'',
               ig_quarantined := Some (rr_unresolved route)\<rparr>)
        else load_targets env key (rr_groups route) [] (ingest_targets env bucket key timestamp route))"

definition ingestS3Object :: "ingest_env \<Rightarrow> string \<Rightarrow> string \<Rightarrow> string list option \<Rightarrow> string option
    \<Rightarrow> (mail_store, type_error, ingest_result) prog" where
  "ingestS3Object env bucket key recipients timestamp =
     (if bucket = [] then Return (ingest_failure (Some key) ''no_bucket'' ''worker has no configured inbound bucket'')
      else bind (attempt (resolve_route env key (or_default recipients []) (ingest_routed env bucket key timestamp)))
        (\<lambda>r. case r of
           Inl e \<Rightarrow> Return ((ingest_outcome ingest_error (Some key))\<lparr>ig_error := Some (ingest_error_text e)\<rparr>)
         | Inr result \<Rightarrow> Return result))"

section \<open>One queue message\<close>

definition processInboundNotification :: "(string \<Rightarrow> json option) \<Rightarrow> (string \<Rightarrow> string option) \<Rightarrow> ingest_env
    \<Rightarrow> string \<Rightarrow> string option \<Rightarrow> (mail_store, type_error, ingest_result) prog" where
  "processInboundNotification parse decode env body bucket =
     (case parseSesNotification parse decode body of
        Inl e \<Rightarrow> Raise e
      | Inr None \<Rightarrow> Return (ingest_failure None ''no_object_key'' ''notification has no S3 object key'')
      | Inr (Some note) \<Rightarrow>
          if or_default (nt_object_key note) [] = []
          then Return (ingest_failure None ''no_object_key'' ''notification has no S3 object key'')
          else if or_default bucket [] = []
          then Return (ingest_failure None ''no_bucket'' ''worker has no configured inbound bucket'')
          else ingestS3Object env (the bucket) (the (nt_object_key note)) (nt_recipients note) (nt_timestamp note))"

definition validateIngestWorkerConfig :: "string option \<Rightarrow> string option \<Rightarrow> string option \<Rightarrow> string + unit" where
  "validateIngestWorkerConfig queueUrl bucket databaseUrl =
     (if or_default queueUrl [] = [] then Inl ''ingest worker requires EMAILS_INGEST_QUEUE_URL''
      else if or_default bucket [] = [] then Inl ''ingest worker requires EMAILS_INGEST_S3_BUCKET''
      else if or_default databaseUrl [] = [] then Inl ''ingest worker requires EMAILS_DATABASE_URL''
      else Inr ())"

definition shouldDeleteIngestResult :: "ingest_result \<Rightarrow> bool" where
  "shouldDeleteIngestResult r \<longleftrightarrow> ig_status r = ingested \<or> ig_status r = duplicate \<or> ig_status r = quarantined"

end
