(* ===== verification/Inbound_Routes.thy ===== *)
theory Inbound_Routes
  imports Inbound_Ingest
begin

text \<open>
  Which tenant an envelope recipient reaches, and the prefix map.  Routing partitions the
  readable recipients: each goes to the tenant of the active route of its domain or is
  unresolved.  The overlap check of the prefix map looks at neighbours of the sorted list
  only; the contract \<open>prefix_order\<close> says of which orders that is enough.
\<close>

section \<open>Routing partitions the recipients\<close>

text \<open>The tenant of a domain: the last active route row of that domain.\<close>

definition tenant_for :: "db \<Rightarrow> string \<Rightarrow> string option" where
  "tenant_for s d = route_of (filter (\<lambda>r. \<exists>t \<in> set (tenants s). t_id t = rt_tenant r \<and> t_status t = ''active'') (routes s)) d"

definition recipient_tenant :: "db \<Rightarrow> string \<Rightarrow> string option" where
  "recipient_tenant s r =
     (case recipient_domain r of None \<Rightarrow> None
      | Some d \<Rightarrow> (case tenant_for s d of None \<Rightarrow> None | Some t \<Rightarrow> if t = [] then None else Some t))"

definition readable :: "string list \<Rightarrow> string set" where
  "readable envelope = canonicalAddress ` set envelope - {[]}"

lemma map_of_filter_keep:
  "(\<And>x. x \<in> set xs \<Longrightarrow> fst x = d \<Longrightarrow> P x) \<Longrightarrow> map_of (filter P xs) d = map_of xs d"
  by (induction xs) auto

lemma route_of_active: "d \<in> set ds \<Longrightarrow> route_of (active_routes s ds) d = tenant_for s d"
proof -
  assume d: "d \<in> set ds"
  let ?A = "\<lambda>r. \<exists>t \<in> set (tenants s). t_id t = rt_tenant r \<and> t_status t = ''active''"
  let ?h = "\<lambda>r. (js_lower (rt_domain r), rt_tenant r)"
  have e: "rev (map ?h (active_routes s ds)) = filter (\<lambda>x. fst x \<in> set ds) (rev (map ?h (filter ?A (routes s))))"
    by (simp add: active_routes_def filter_map rev_filter rev_map comp_def conj_commute)
  show ?thesis unfolding route_of_def tenant_for_def e
    by (rule map_of_filter_keep) (use d in auto)
qed

lemma by_domain_facts:
  assumes "by_domain rs = (grouped, unresolved)"
  shows "(\<exists>ws. (d, ws) \<in> set grouped \<and> x \<in> set ws) \<longleftrightarrow> x \<in> set rs \<and> recipient_domain x = Some d"
    and "set unresolved = {x \<in> set rs. recipient_domain x = None}"
    and "distinct (map fst grouped)" and "\<forall>(d, ws) \<in> set grouped. ws \<noteq> []"
proof -
  let ?f = "\<lambda>r (grouped, unresolved). case recipient_domain r of
      None \<Rightarrow> (grouped, unresolved @ [r]) | Some d \<Rightarrow> (push_values d [r] grouped, unresolved)"
  let ?I = "\<lambda>seen (g, u). (\<forall>d x. (\<exists>ws. (d, ws) \<in> set g \<and> x \<in> set ws) \<longleftrightarrow> x \<in> set seen \<and> recipient_domain x = Some d)
      \<and> set u = {x \<in> set seen. recipient_domain x = None} \<and> distinct (map fst g) \<and> (\<forall>(d, ws) \<in> set g. ws \<noteq> [])"
  have ne: "\<forall>(d, ws) \<in> set g. ws \<noteq> [] \<Longrightarrow> \<forall>(d, ws) \<in> set (push_values k [r] g). ws \<noteq> []" for k and r :: string and g
    by (induction k "[r]" g rule: push_values.induct) auto
  have step: "?I seen acc \<Longrightarrow> ?I (seen @ [r]) (?f r acc)" for seen acc r
    by (cases acc; cases "recipient_domain r") (auto simp: in_push_values distinct_push_values dest: ne)
  have "?I seen acc \<Longrightarrow> ?I (seen @ rs) (fold ?f rs acc)" for seen acc
  proof (induction rs arbitrary: seen acc)
    case (Cons r rs)
    from Cons.IH [OF step [OF Cons.prems]] show ?case by simp
  qed simp
  from this [of "[]" "([], [])"] assms show
    "(\<exists>ws. (d, ws) \<in> set grouped \<and> x \<in> set ws) \<longleftrightarrow> x \<in> set rs \<and> recipient_domain x = Some d"
    "set unresolved = {x \<in> set rs. recipient_domain x = None}"
    "distinct (map fst grouped)" "\<forall>(d, ws) \<in> set grouped. ws \<noteq> []"
    by (simp_all add: by_domain_def)
qed

lemma by_tenant_facts:
  assumes "by_tenant route ds u0 = (grouped, unresolved)"
  shows "(\<exists>ws. (t, ws) \<in> set grouped \<and> x \<in> set ws)
      \<longleftrightarrow> (\<exists>d rs. (d, rs) \<in> set ds \<and> x \<in> set rs \<and> route d = Some t \<and> t \<noteq> [])"
    and "x \<in> set unresolved \<longleftrightarrow> x \<in> set u0 \<or> (\<exists>d rs. (d, rs) \<in> set ds \<and> x \<in> set rs \<and> (route d = None \<or> route d = Some []))"
    and "distinct (map fst grouped)"
proof -
  let ?f = "\<lambda>(d, rs) (grouped, unresolved). case route d of None \<Rightarrow> (grouped, unresolved @ rs)
     | Some tenant \<Rightarrow> if tenant = [] then (grouped, unresolved @ rs) else (push_values tenant rs grouped, unresolved)"
  let ?I = "\<lambda>seen (g, u). (\<forall>t x. (\<exists>ws. (t, ws) \<in> set g \<and> x \<in> set ws)
        \<longleftrightarrow> (\<exists>d rs. (d, rs) \<in> set seen \<and> x \<in> set rs \<and> route d = Some t \<and> t \<noteq> []))
      \<and> (\<forall>x. x \<in> set u \<longleftrightarrow> x \<in> set u0 \<or> (\<exists>d rs. (d, rs) \<in> set seen \<and> x \<in> set rs \<and> (route d = None \<or> route d = Some [])))
      \<and> distinct (map fst g)"
  have step: "?I seen acc \<Longrightarrow> ?I (seen @ [p]) (?f p acc)" for seen acc p
  proof (cases acc; cases p; cases "route (fst p)")
    fix g u d rs tenant
    assume "?I seen acc" "acc = (g, u)" "p = (d, rs)" "route (fst p) = Some tenant"
    then show "?I (seen @ [p]) (?f p acc)"
      by (cases "tenant = []") (auto simp: in_push_values distinct_push_values)
  qed auto
  have "?I seen acc \<Longrightarrow> ?I (seen @ ds) (fold ?f ds acc)" for seen acc
  proof (induction ds arbitrary: seen acc)
    case (Cons p ds)
    from Cons.IH [OF step [OF Cons.prems]] show ?case by simp
  qed simp
  from this [of "[]" "([], u0)"] assms show
    "(\<exists>ws. (t, ws) \<in> set grouped \<and> x \<in> set ws)
      \<longleftrightarrow> (\<exists>d rs. (d, rs) \<in> set ds \<and> x \<in> set rs \<and> route d = Some t \<and> t \<noteq> [])"
    "x \<in> set unresolved \<longleftrightarrow> x \<in> set u0 \<or> (\<exists>d rs. (d, rs) \<in> set ds \<and> x \<in> set rs \<and> (route d = None \<or> route d = Some []))"
    "distinct (map fst grouped)"
    by (simp_all add: by_tenant_def)
qed

lemma by_tenant_ne:
  assumes "by_tenant route ds u0 = (grouped, unresolved)" and "\<forall>(d, rs) \<in> set ds. rs \<noteq> []"
  shows "\<forall>(t, ws) \<in> set grouped. ws \<noteq> []"
proof -
  let ?f = "\<lambda>(d, rs) (grouped, unresolved). case route d of None \<Rightarrow> (grouped, unresolved @ rs)
     | Some tenant \<Rightarrow> if tenant = [] then (grouped, unresolved @ rs) else (push_values tenant rs grouped, unresolved)"
  have push: "\<forall>(t, ws) \<in> set g. ws \<noteq> [] \<Longrightarrow> rs \<noteq> [] \<Longrightarrow> \<forall>(t, ws) \<in> set (push_values k rs g). ws \<noteq> []" for k g and rs :: "string list"
    by (induction k rs g rule: push_values.induct) auto
  have "\<forall>(t, ws) \<in> set (fst acc). ws \<noteq> [] \<Longrightarrow> \<forall>(t, ws) \<in> set (fst (fold ?f ds acc)). ws \<noteq> []" for acc
    using assms(2)
  proof (induction ds arbitrary: acc)
    case (Cons p ds)
    have "\<forall>(t, ws) \<in> set (fst (?f p acc)). ws \<noteq> []"
      using Cons.prems push [of "fst acc" "snd p"]
      by (cases acc; cases p) (auto split: option.split)
    then show ?case using Cons.IH [of "?f p acc"] Cons.prems(2) by simp
  qed simp
  from this [of "([], u0)"] assms(1) show ?thesis by (simp add: by_tenant_def)
qed

lemma resolve_facts:
  fixes s envelope
  defines "route \<equiv> resolveInboundRecipients s envelope"
  shows resolve_groups: "(\<exists>g \<in> set (rr_groups route). rg_tenant g = t \<and> r \<in> set (rg_recipients g))
           \<longleftrightarrow> r \<in> readable envelope \<and> recipient_tenant s r = Some t"
    and resolve_unresolved: "r \<in> set (rr_unresolved route) \<longleftrightarrow> r \<in> readable envelope \<and> recipient_tenant s r = None"
    and resolve_distinct: "distinct (map rg_tenant (rr_groups route))"
proof -
  let ?rs = "js_unique (filter (\<lambda>r. r \<noteq> []) (map canonicalAddress envelope))"
  obtain ds u where d: "by_domain ?rs = (ds, u)" by fastforce
  let ?route = "route_of (active_routes s (map fst ds))"
  obtain g u' where g: "by_tenant ?route ds u = (g, u')" by fastforce
  have rt: "rr_groups route = map (\<lambda>(t, rs). \<lparr> rg_tenant = t, rg_recipients = rs \<rparr>) g" "rr_unresolved route = u'"
    by (simp_all add: route_def resolveInboundRecipients_def Let_def d g)
  have rs: "x \<in> set ?rs \<longleftrightarrow> x \<in> readable envelope" for x by (auto simp: readable_def)
  have dom: "(d, ws) \<in> set ds \<Longrightarrow> ?route d = tenant_for s d" for d ws
    by (rule route_of_active) force
  have in_ds: "(\<exists>d ws. (d, ws) \<in> set ds \<and> x \<in> set ws \<and> P (?route d))
      \<longleftrightarrow> (\<exists>d. x \<in> readable envelope \<and> recipient_domain x = Some d \<and> P (tenant_for s d))" for x P
    using by_domain_facts(1) [OF d, of _ x] rs dom by metis
  have G: "(\<exists>g \<in> set (rr_groups route). rg_tenant g = t \<and> r \<in> set (rg_recipients g)) \<longleftrightarrow> (\<exists>ws. (t, ws) \<in> set g \<and> r \<in> set ws)"
    unfolding rt by force
  show "(\<exists>g \<in> set (rr_groups route). rg_tenant g = t \<and> r \<in> set (rg_recipients g))
           \<longleftrightarrow> r \<in> readable envelope \<and> recipient_tenant s r = Some t"
    unfolding G by_tenant_facts(1) [OF g] using in_ds [of r "\<lambda>v. v = Some t \<and> t \<noteq> []"]
    by (auto simp: recipient_tenant_def split: option.splits)
  have un: "x \<in> set u \<longleftrightarrow> x \<in> readable envelope \<and> recipient_domain x = None" for x
    using by_domain_facts(2) [OF d] rs by auto
  show "r \<in> set (rr_unresolved route) \<longleftrightarrow> r \<in> readable envelope \<and> recipient_tenant s r = None"
    unfolding rt by_tenant_facts(2) [OF g] un using in_ds [of r "\<lambda>v. v = None \<or> v = Some []"]
    by (auto simp: recipient_tenant_def split: option.splits)
  show "distinct (map rg_tenant (rr_groups route))"
    unfolding rt using by_tenant_facts(3) [OF g] by (simp add: comp_def case_prod_beta)
qed

lemma resolve_group_ne: "g \<in> set (rr_groups (resolveInboundRecipients s envelope)) \<Longrightarrow> rg_recipients g \<noteq> []"
  unfolding resolveInboundRecipients_def Let_def
  by (auto split: prod.splits dest!: by_tenant_ne by_domain_facts(4))

text \<open>Routing reads two tables only.\<close>

lemma resolve_cong:
  "routes s = routes s' \<Longrightarrow> tenants s = tenants s' \<Longrightarrow> resolveInboundRecipients s = resolveInboundRecipients s'"
  by (simp add: resolveInboundRecipients_def active_routes_def fun_eq_iff)

lemma resolve_Nil [simp]: "resolveInboundRecipients s [] = \<lparr> rr_groups = [], rr_unresolved = [] \<rparr>"
  by (simp add: resolveInboundRecipients_def js_unique_def by_domain_def by_tenant_def)

text \<open>One active tenant with one domain.\<close>

lemma demo_resolves:
  assumes "tenants d = [\<lparr> t_id = ''t'', t_status = ''active'' \<rparr>]" and "routes d = [\<lparr> rt_domain = ''c.d'', rt_tenant = ''t'' \<rparr>]"
  shows "resolveInboundRecipients d [''r@c.d'']
    = \<lparr> rr_groups = [\<lparr> rg_tenant = ''t'', rg_recipients = [''r@c.d''] \<rparr>], rr_unresolved = [] \<rparr>"
proof -
  have l: "js_lower ''c.d'' = ''c.d''" by (simp add: js_lower_def lower_char_def)
  have c: "canonicalAddress ''r@c.d'' = ''r@c.d''"
  proof -
    have "check_addr ''r@c.d'' = Some ''r@c.d''"
      by (simp add: check_addr_def local_ok_def domain_ok_def is_label_def is_local_char_def
        is_alnum_def last_index_of_def is_ws_def is_ws_unit_def js_lower_def lower_char_def
        char_of_def bit_0)
    then show ?thesis
      by (simp add: canonicalAddress_def canonicalSender_def addr_text_def trim_by_def is_ws_def is_ws_unit_def)
  qed
  show ?thesis
    by (simp add: resolveInboundRecipients_def c js_unique_def by_domain_def recipient_domain_def last_index_of_def
        active_routes_def route_of_def by_tenant_def l Let_def assms)
qed

section \<open>The prefix map\<close>

lemma distinct_map_insert_by: "distinct (map f (insert_by le x xs)) \<longleftrightarrow> f x \<notin> f ` set xs \<and> distinct (map f xs)"
  by (induction xs) auto

lemma distinct_map_stable_sort: "distinct (map f (stable_sort le xs)) \<longleftrightarrow> distinct (map f xs)"
proof (induction xs)
  case (Cons x xs)
  have "stable_sort le (x # xs) = insert_by le x (stable_sort le xs)" by (simp add: stable_sort_def)
  with Cons show ?case by (simp add: distinct_map_insert_by)
qed (simp add: stable_sort_def)

lemma mappings_prefixes: "mappings_of fs = Inr ms \<Longrightarrow> map pm_prefix ms = map fst fs"
  by (induction fs arbitrary: ms) (auto simp: prefix_mapping_of_def split: sum.splits json.splits if_splits)

lemma distinct_entries [simp]: "distinct (map fst (object_entries fs))"
  by (simp add: object_entries_def comp_def)

lemma starts_chain: "starts_with_text k p \<Longrightarrow> starts_with_text k q \<Longrightarrow> starts_with_text q p \<or> starts_with_text p q"
  unfolding starts_with_text_def by (metis min.commute take_take linear min_absorb1)

lemma text_le_append: "p \<le> p @ (x :: string)"
  by (induction p) auto

lemma text_between: "p \<le> r \<Longrightarrow> r \<le> p @ x \<Longrightarrow> starts_with_text r (p :: string)"
proof (induction p arbitrary: r)
  case (Cons c p)
  then show ?case by (cases r) (auto simp: starts_with_text_def)
qed (simp add: starts_with_text_def)

text \<open>
  The orders on which a comparison of neighbours finds every overlap: the strings between a
  prefix and one of its extensions are extensions of it, too.
\<close>

locale prefix_order =
  fixes le :: "string \<Rightarrow> string \<Rightarrow> bool"
  assumes refl: "reflp le" and trans: "transp le" and tot: "totalp le" and antisym: "antisymp le"
    and prefix_le: "le p (p @ x)"
    and between: "le p r \<Longrightarrow> le r (p @ x) \<Longrightarrow> starts_with_text r p"
begin

lemma starts_le: "starts_with_text q p \<Longrightarrow> le p q"
  unfolding starts_with_text_def by (metis append_take_drop_id prefix_le)

lemma starts_between: "starts_with_text q p \<Longrightarrow> le p r \<Longrightarrow> le r q \<Longrightarrow> starts_with_text r p"
  unfolding starts_with_text_def by (metis append_take_drop_id between starts_with_text_def)

lemma no_overlap:
  assumes "sorted_wrt (\<lambda>a b. le (pm_prefix a) (pm_prefix b)) ms" and "distinct (map pm_prefix ms)"
    and "\<not> adjacent_overlap ms" and "a \<in> set ms" and "b \<in> set ms"
    and "starts_with_text (pm_prefix b) (pm_prefix a)"
  shows "a = b"
  using assms
proof (induction ms rule: adjacent_overlap.induct)
  case (1 x y ms)
  have x: "z = x" if z: "z \<in> set (x # y # ms)" "starts_with_text (pm_prefix z) (pm_prefix x)" for z
  proof (rule ccontr)
    assume "z \<noteq> x"
    with z(1) 1(2) have "le (pm_prefix x) (pm_prefix y)" "le (pm_prefix y) (pm_prefix z)"
      using refl by (auto dest: reflpD)
    with z(2) have "starts_with_text (pm_prefix y) (pm_prefix x)" by (rule starts_between)
    with 1(4) show False by simp
  qed
  show ?case
  proof (cases "a = x \<or> b = x")
    case True
    then show ?thesis
    proof
      assume b: "b = x"
      show ?thesis
      proof (rule ccontr)
        assume "a \<noteq> b"
        with 1(2,5) b have "le (pm_prefix x) (pm_prefix a)" by auto
        with starts_le [OF 1(7)] b have "pm_prefix a = pm_prefix x" using antisym by (auto dest: antisympD)
        with 1(3,5) \<open>a \<noteq> b\<close> b show False by (auto simp: image_iff)
      qed
    qed (use x 1(6,7) in auto)
  qed (use 1 in auto)
qed auto

lemma sorted_mappings: "sorted_wrt (\<lambda>a b. le (pm_prefix a) (pm_prefix b)) (stable_sort (\<lambda>a b. le (pm_prefix a) (pm_prefix b)) ms)"
proof (rule sorted_stable_sort)
  show "totalp (\<lambda>a b. le (pm_prefix a) (pm_prefix b))"
    using tot refl by (metis (mono_tags, lifting) reflpD totalpD totalpI)
qed (use trans refl in \<open>auto intro!: transpI reflpI dest: transpD reflpD\<close>)

lemma parsed_unambiguous:
  assumes "parseInboundPrefixDomainMap le parse raw = Inr ms" and "a \<in> set ms" and "b \<in> set ms"
    and "starts_with_text key (pm_prefix a)" and "starts_with_text key (pm_prefix b)"
  shows "a = b"
proof -
  obtain fs ms0 where ms: "mappings_of (object_entries fs) = Inr ms0"
      "ms = stable_sort (\<lambda>a b. le (pm_prefix a) (pm_prefix b)) ms0" "\<not> adjacent_overlap ms"
    using assms(1,2) by (auto simp: parseInboundPrefixDomainMap_def Let_def
        split: option.splits if_splits json.splits sum.splits)
  have d: "distinct (map pm_prefix ms)"
    unfolding ms(2) distinct_map_stable_sort mappings_prefixes [OF ms(1)] by simp
  note n = no_overlap [OF sorted_mappings [of ms0, folded ms(2)] d ms(3)]
  from starts_chain [OF assms(4,5)] show ?thesis
    using n [OF assms(2,3)] n [OF assms(3,2)] by auto
qed

end

section \<open>Two orders\<close>

interpretation code_units: prefix_order "\<lambda>a b. a \<le> b"
proof
  show "reflp (\<lambda>a b :: string. a \<le> b)" "transp (\<lambda>a b :: string. a \<le> b)" "totalp (\<lambda>a b :: string. a \<le> b)"
    "antisymp (\<lambda>a b :: string. a \<le> b)"
    by (auto intro: reflpI transpI antisympI simp: totalp_on_def)
  show "p \<le> p @ x" for p x :: string by (rule text_le_append)
  show "p \<le> r \<Longrightarrow> r \<le> p @ x \<Longrightarrow> starts_with_text r p" for p r x :: string
    by (rule text_between)
qed

text \<open>
  An order that looks at letters without their case first, as the collations behind
  \<open>localeCompare\<close> do; ties are broken by code units.
\<close>

definition folded_le :: "string \<Rightarrow> string \<Rightarrow> bool" where
  "folded_le a b \<longleftrightarrow> js_lower a < js_lower b \<or> (js_lower a = js_lower b \<and> a \<le> b)"

definition three_entries :: "(string \<times> json) list" where
  "three_entries = [(''a/'', JStr ''x.io''), (''A/x/'', JStr ''y.io''), (''a/y/'', JStr ''z.io'')]"

definition three_mappings :: "prefix_mapping list" where
  "three_mappings = [\<lparr> pm_prefix = ''a/'', pm_domain = ''x.io'' \<rparr>, \<lparr> pm_prefix = ''A/x/'', pm_domain = ''y.io'' \<rparr>,
     \<lparr> pm_prefix = ''a/y/'', pm_domain = ''z.io'' \<rparr>]"

lemma three_accepted:
  "parseInboundPrefixDomainMap folded_le (\<lambda>_. Some (JObj three_entries)) (Some ''{}'') = Inr three_mappings"
proof -
  have t: "js_trim ''a/'' = ''a/''" "js_trim ''A/x/'' = ''A/x/''" "js_trim ''a/y/'' = ''a/y/''"
    "js_trim ''x.io'' = ''x.io''" "js_trim ''y.io'' = ''y.io''" "js_trim ''z.io'' = ''z.io''" "js_trim ''{}'' = ''{}''"
    by (simp_all add: trim_by_def is_ws_def is_ws_unit_def)
  have e: "object_entries three_entries = three_entries"
    by (simp add: object_entries_def js_unique_def three_entries_def)
  have m: "mappings_of three_entries = Inr three_mappings"
    by (simp add: three_entries_def prefix_mapping_of_def t prefix_ok_def control_char_def inbound_domain_def inbound_label_def domain_alnum_def
        js_lower_def lower_char_def three_mappings_def)
  have l: "js_lower ''a/'' = ''a/''" "js_lower ''A/x/'' = ''a/x/''" "js_lower ''a/y/'' = ''a/y/''"
    by (simp_all add: js_lower_def lower_char_def char_of_def bit_0)
  have s: "stable_sort (\<lambda>a b. folded_le (pm_prefix a) (pm_prefix b)) three_mappings = three_mappings"
    by (simp add: three_mappings_def stable_sort_def folded_le_def l)
  have o: "\<not> adjacent_overlap three_mappings"
    by (simp add: three_mappings_def starts_with_text_def)
  show ?thesis
    by (simp add: parseInboundPrefixDomainMap_def utf8_bytes_def INBOUND_PREFIX_DOMAIN_MAP_MAX_BYTES_def t
        e m s o)
qed

section \<open>Properties\<close>

text \<open>
  Routing is a partition by active routes: a tenant's group holds exactly the readable
  envelope recipients whose domain has an active route to it, every other readable
  recipient is unresolved, and no tenant has two groups.
\<close>

theorem routing_partitions:
  "(\<exists>g \<in> set (rr_groups (resolveInboundRecipients s envelope)). rg_tenant g = t \<and> r \<in> set (rg_recipients g))
     = (r \<in> readable envelope \<and> recipient_tenant s r = Some t)
   \<and> (r \<in> set (rr_unresolved (resolveInboundRecipients s envelope)))
     = (r \<in> readable envelope \<and> recipient_tenant s r = None)
   \<and> distinct (map rg_tenant (rr_groups (resolveInboundRecipients s envelope)))"
  using resolve_groups resolve_unresolved resolve_distinct by simp

text \<open>
  Under an order that sorts every extension of a prefix next to it, as code units do, an
  accepted prefix map is overlap free: an object key selects at most one mapping.
\<close>

theorem prefix_map_unambiguous:
  "prefix_order le \<Longrightarrow> parseInboundPrefixDomainMap le parse raw = Inr ms \<Longrightarrow> a \<in> set ms \<Longrightarrow> b \<in> set ms
   \<Longrightarrow> starts_with_text key (pm_prefix a) \<Longrightarrow> starts_with_text key (pm_prefix b) \<Longrightarrow> a = b"
  by (rule prefix_order.parsed_unambiguous)

lemma prefix_map_unambiguous_witness:
  "\<exists>ms. parseInboundPrefixDomainMap (\<lambda>a b. a \<le> b) (\<lambda>_. Some (JObj [(''a/'', JStr ''x.io'')])) (Some ''{}'') = Inr ms
     \<and> ms ! 0 = \<lparr> pm_prefix = ''a/'', pm_domain = ''x.io'' \<rparr> \<and> starts_with_text ''a/k'' (pm_prefix (ms ! 0))"
proof -
  have t: "js_trim ''a/'' = ''a/''" "js_trim ''x.io'' = ''x.io''" "js_trim ''{}'' = ''{}''"
    by (simp_all add: trim_by_def is_ws_def is_ws_unit_def)
  let ?m = "\<lparr> pm_prefix = ''a/'', pm_domain = ''x.io'' \<rparr>"
  have p: "parseInboundPrefixDomainMap (\<lambda>a b. a \<le> b) (\<lambda>_. Some (JObj [(''a/'', JStr ''x.io'')])) (Some ''{}'') = Inr [?m]"
    by (simp add: parseInboundPrefixDomainMap_def utf8_bytes_def INBOUND_PREFIX_DOMAIN_MAP_MAX_BYTES_def t
        object_entries_def js_unique_def prefix_mapping_of_def prefix_ok_def control_char_def inbound_domain_def
        inbound_label_def domain_alnum_def js_lower_def lower_char_def stable_sort_def)
  have k: "starts_with_text ''a/k'' (pm_prefix ?m)" by (simp add: starts_with_text_def)
  have "?m = ?m"
    by (rule prefix_map_unambiguous [OF code_units.prefix_order_axioms p _ _ k k]) simp_all
  with p k show ?thesis by auto
qed

text \<open>
  With the collation of the code the overlap check is not enough: an order that compares
  letters without their case accepts a map in which a key selects two domains, and the
  recovery of the recipient silently takes the first.
\<close>

theorem prefix_map_overlap_accepted:
  "\<exists>parse ms a b. parseInboundPrefixDomainMap folded_le parse (Some ''{}'') = Inr ms \<and> a \<in> set ms \<and> b \<in> set ms
     \<and> pm_domain a \<noteq> pm_domain b \<and> starts_with_text ''a/y/k'' (pm_prefix a) \<and> starts_with_text ''a/y/k'' (pm_prefix b)
     \<and> deriveKeyPathRecipients ''a/y/k'' ms = [''catchall@'' @ pm_domain a]"
proof (intro exI conjI)
  show "parseInboundPrefixDomainMap folded_le (\<lambda>_. Some (JObj three_entries)) (Some ''{}'') = Inr three_mappings"
    by (rule three_accepted)
  show "three_mappings ! 0 \<in> set three_mappings" "three_mappings ! 2 \<in> set three_mappings"
    "pm_domain (three_mappings ! 0) \<noteq> pm_domain (three_mappings ! 2)"
    "starts_with_text ''a/y/k'' (pm_prefix (three_mappings ! 0))" "starts_with_text ''a/y/k'' (pm_prefix (three_mappings ! 2))"
    "deriveKeyPathRecipients ''a/y/k'' three_mappings = [''catchall@'' @ pm_domain (three_mappings ! 0)]"
    by (simp_all add: three_mappings_def starts_with_text_def deriveKeyPathRecipients_def control_char_def)
qed

end
