(* ===== verification/Inbound_Facts.thy ===== *)
theory Inbound_Facts
  imports Inbound_Routes
begin

text \<open>
  The ingestion worker among other workers.  \<open>extends\<close> is what the steps of the mailbox may
  do while it runs: rows are added, and rows are updated in place without touching the
  columns that identify them.  Every store call of the worker is such a step, so several
  workers are each other's environment.
\<close>

section \<open>Growth of the mailbox\<close>

definition same_ident :: "message \<Rightarrow> message \<Rightarrow> bool" where
  "same_ident m m' \<longleftrightarrow> m_id m' = m_id m \<and> m_tenant m' = m_tenant m \<and> m_source_id m' = m_source_id m
     \<and> m_message_id m' = m_message_id m"

definition extends :: "mail_store \<Rightarrow> mail_store \<Rightarrow> bool" where
  "extends s s' \<longleftrightarrow> routes (ms_db s') = routes (ms_db s) \<and> tenants (ms_db s') = tenants (ms_db s)
     \<and> (\<exists>M N. messages (ms_db s') = M @ N \<and> list_all2 same_ident (messages (ms_db s)) M)
     \<and> (\<exists>N. ms_sources s' = ms_sources s @ N)
     \<and> q_source_id ` set (quarantine (ms_db s)) \<subseteq> q_source_id ` set (quarantine (ms_db s'))"

lemma same_ident_refl [simp]: "same_ident m m"
  by (simp add: same_ident_def)

lemma extends_append:
  assumes "messages (ms_db s') = messages (ms_db s) @ N" and "ms_sources s' = ms_sources s @ V"
    and "routes (ms_db s') = routes (ms_db s)" and "tenants (ms_db s') = tenants (ms_db s)"
    and "q_source_id ` set (quarantine (ms_db s)) \<subseteq> q_source_id ` set (quarantine (ms_db s'))"
  shows "extends s s'"
  unfolding extends_def using assms
  by (intro conjI exI [of _ "messages (ms_db s)"] exI [of _ N] exI [of _ V]) (auto intro: list.rel_refl_strong)

lemma extends_refl [simp]: "extends s s"
  by (rule extends_append [of _ _ "[]" "[]"]) simp_all

lemma extends_trans: "extends a b \<Longrightarrow> extends b c \<Longrightarrow> extends a c"
proof -
  assume ab: "extends a b" and bc: "extends b c"
  obtain M N where b: "messages (ms_db b) = M @ N" "list_all2 same_ident (messages (ms_db a)) M"
    using ab by (auto simp: extends_def)
  obtain M' N' where c: "messages (ms_db c) = M' @ N'" "list_all2 same_ident (M @ N) M'"
    using bc b(1) by (auto simp: extends_def)
  obtain U V where u: "M' = U @ V" "list_all2 same_ident M U"
    using c(2) by (auto simp: list_all2_append1)
  have "list_all2 same_ident (messages (ms_db a)) U"
    by (rule list_all2_trans [OF _ b(2) u(2)]) (auto simp: same_ident_def)
  then have "\<exists>M N. messages (ms_db c) = M @ N \<and> list_all2 same_ident (messages (ms_db a)) M"
    by (intro exI [of _ U] exI [of _ "V @ N'"]) (simp add: c(1) u(1))
  with ab bc show ?thesis unfolding extends_def by (auto simp: subset_iff image_iff)
qed

lemma extends_message:
  "extends s s' \<Longrightarrow> m \<in> set (messages (ms_db s)) \<Longrightarrow> \<exists>m' \<in> set (messages (ms_db s')). same_ident m m'"
  unfolding extends_def by (metis in_set_conv_nth list_all2_conv_all_nth Un_iff set_append)

lemma extends_source: "extends s s' \<Longrightarrow> p \<in> set (ms_sources s) \<Longrightarrow> p \<in> set (ms_sources s')"
  by (auto simp: extends_def)

lemma find_same_ident:
  assumes "list_all2 same_ident xs ys" and "\<And>m m'. same_ident m m' \<Longrightarrow> P m' = P m"
  shows "map_option m_id (find P ys) = map_option m_id (find P xs)"
  using assms(1)
proof induction
  case (Cons x xs y ys)
  then show ?case using assms(2) [of x y] by (auto simp: same_ident_def)
qed simp

lemma find_append: "find P (xs @ ys) = (case find P xs of None \<Rightarrow> find P ys | Some x \<Rightarrow> Some x)"
  by (induction xs) auto

lemma extends_find_message:
  "extends s s' \<Longrightarrow> findMessageIdByKey sc key s = Some i \<Longrightarrow> findMessageIdByKey sc key s' = Some i"
proof -
  assume e: "extends s s'" and f: "findMessageIdByKey sc key s = Some i"
  let ?P = "\<lambda>m. source_matches key m \<and> m_tenant m = sc_tenant sc"
  obtain M N where m: "messages (ms_db s') = M @ N" "list_all2 same_ident (messages (ms_db s)) M"
    using e by (auto simp: extends_def)
  have "map_option m_id (find ?P M) = map_option m_id (find ?P (messages (ms_db s)))"
    by (rule find_same_ident [OF m(2)]) (auto simp: same_ident_def)
  with f have "map_option m_id (find ?P M) = Some i" "key \<noteq> []" by (auto simp: findMessageIdByKey_def split: if_splits)
  then show ?thesis by (auto simp: findMessageIdByKey_def m(1) find_append)
qed

lemma extends_find_source:
  "extends s s' \<Longrightarrow> find P (ms_sources s) = Some p \<Longrightarrow> find P (ms_sources s') = Some p"
  by (auto simp: extends_def find_append)

section \<open>The worker's store calls\<close>

lemma extends_quarantine: "extends s (quarantineInbound q s)"
proof (rule extends_append [of _ _ "[]" "[]"])
  show "q_source_id ` set (quarantine (ms_db s)) \<subseteq> q_source_id ` set (quarantine (ms_db (quarantineInbound q s)))"
    unfolding quarantineInbound_def Let_def set_map [symmetric] by (auto simp: comp_def if_distrib cong: if_cong)
qed (simp_all add: quarantineInbound_def Let_def)

lemma extends_insert_source: "insert_source p s = (s', r) \<Longrightarrow> extends s s'"
  by (rule extends_append [of _ _ "[]" "if r = None then [] else [p]"]) (auto simp: insert_source_def split: if_splits)

lemma extends_record: "extends s (fst (recordInboundSourceProvenance sc i bucket key sha via s))"
  unfolding recordInboundSourceProvenance_def Let_def
  by (auto dest: extends_insert_source split: prod.splits option.splits)

lemma insert_inbound_cases:
  assumes "insert_inbound_row sc now fresh i s = (s', Inr r)"
  shows "(r = None \<and> s' = s \<and> source_taken (message_of_input fresh now (sc_tenant sc) i) (messages (ms_db s)))
    \<or> (r = Some (message_of_input fresh now (sc_tenant sc) i)
        \<and> s' = s\<lparr>ms_db := (ms_db s)\<lparr>messages := messages (ms_db s) @ [message_of_input fresh now (sc_tenant sc) i]\<rparr>\<rparr>
        \<and> \<not> source_taken (message_of_input fresh now (sc_tenant sc) i) (messages (ms_db s))
        \<and> \<not> row_violates (message_of_input fresh now (sc_tenant sc) i) (messages (ms_db s)))"
  using assms by (auto simp: insert_inbound_row_def Let_def split: if_splits)

lemma find_new_source:
  "\<not> (\<exists>q \<in> set qs. source_conflict p q) \<Longrightarrow> find (source_row (pv_tenant p) (pv_message p)) (qs @ [p]) = Some p"
  by (auto simp: find_append source_row_def source_conflict_def find_None_iff split: option.split dest!: find_SomeD)

lemma bind_source_facts:
  assumes "bind_source p row ins s = (s', Inr a)"
  shows "in_record a = row \<and> in_inserted a = ins \<and> ms_db s' = ms_db s \<and> extends s s'
    \<and> (\<exists>q. find (source_row (pv_tenant p) (pv_message p)) (ms_sources s') = Some q
          \<and> same_object (pv_bucket p) (pv_object_key p) (pv_raw_sha256 p) q)"
  using assms extends_insert_source [of p s]
  by (auto simp: bind_source_def insert_source_def find_new_source same_object_def split: if_splits option.splits)

text \<open>What a successful atomic insertion has done.\<close>

lemma create_inbound_facts:
  assumes "createInboundMessageWithProvenance sc now fresh i bucket key sha s = (s', Inr a)"
  shows "extends s s' \<and> in_record a \<in> set (messages (ms_db s')) \<and> m_tenant (in_record a) = sc_tenant sc
     \<and> source_matches key (in_record a) \<and> quarantine (ms_db s') = quarantine (ms_db s)
     \<and> (\<exists>q. find (source_row (sc_tenant sc) (m_id (in_record a))) (ms_sources s') = Some q \<and> same_object bucket key sha q)
     \<and> (if in_inserted a then in_record a = message_of_input fresh now (sc_tenant sc) i
            \<and> messages (ms_db s') = messages (ms_db s) @ [in_record a]
        else messages (ms_db s') = messages (ms_db s))"
proof -
  have k: "mi_source_id i = Some key"
    and act: "inbound_action sc now fresh i bucket key sha s = (s', Inr a)"
    using assms by (auto simp: createInboundMessageWithProvenance_def mail_transaction_def split: if_splits prod.splits sum.splits)
  obtain s1 r row where one: "insert_inbound_row sc now fresh i s = (s1, Inr r)"
    and row: "(case r of Some r \<Rightarrow> Some r
        | None \<Rightarrow> find (\<lambda>m. m_tenant m = sc_tenant sc \<and> m_source_id m = Some key) (messages (ms_db s1))) = Some row"
    and m: "source_matches key row"
    and b: "bind_source \<lparr> pv_tenant = sc_tenant sc, pv_message = m_id row, pv_bucket = bucket,
                       pv_object_key = key, pv_raw_sha256 = sha, pv_established_via = normal_ingest \<rparr>
                      row (r \<noteq> None) s1 = (s', Inr a)"
    using act by (auto simp: inbound_action_def split: prod.splits sum.splits option.splits if_splits)
  note f = bind_source_facts [OF b]
  note c = insert_inbound_cases [OF one]
  have e: "extends s s1" using c by (auto intro!: extends_append [where V = "[]"])
  have "row \<in> set (messages (ms_db s1)) \<and> m_tenant row = sc_tenant sc"
    using c row by (auto simp: message_of_input_def dest!: find_SomeD)
  with f c row m extends_trans [OF e] show ?thesis by (auto split: option.splits)
qed

lemma create_inbound_fails:
  "createInboundMessageWithProvenance sc now fresh i bucket key sha s = (s', Inl e) \<Longrightarrow> s' = s"
  by (auto simp: createInboundMessageWithProvenance_def mail_transaction_def split: if_splits prod.splits sum.splits)

lemma extends_create: "extends s (fst (createInboundMessageWithProvenance sc now fresh i bucket key sha s))"
  by (cases "createInboundMessageWithProvenance sc now fresh i bucket key sha s"; cases "snd (createInboundMessageWithProvenance sc now fresh i bucket key sha s)")
     (auto dest: create_inbound_facts create_inbound_fails)


section \<open>What every step of the worker keeps\<close>

text \<open>
  The contract of the store behind the worker: a relation that its writes keep is kept by
  every step of the worker.  \<open>target_writes\<close> is for the part after the quarantine.
\<close>

lemma load_targets_keeps: "(\<And>ts. keeps R (k ts)) \<Longrightarrow> (\<And>s. R s s) \<Longrightarrow> keeps R (load_targets env key gs acc k)"
  by (induction gs arbitrary: acc) (auto simp: Let_def intro!: keeps_call_with)

lemma resolve_route_keeps: "(\<And>r e. keeps R (k r e)) \<Longrightarrow> (\<And>s. R s s) \<Longrightarrow> keeps R (resolve_route env key envelope k)"
  unfolding resolve_route_def Let_def by (auto intro!: keeps_call_with)

locale target_writes =
  fixes R :: "mail_store \<Rightarrow> mail_store \<Rightarrow> bool"
  assumes same: "R s s"
    and record_R: "R s (fst (recordInboundSourceProvenance sc i bucket key sha via s))"
    and create_R: "R s (fst (createInboundMessageWithProvenance sc now fresh input bucket key sha s))"
begin

lemma record_target_keeps: "keeps R k \<Longrightarrow> keeps R (record_target env bucket key sha t k)"
  unfolding record_target_def by (rule keeps_call_with) (auto intro: record_R)

lemma record_targets_keeps: "keeps R k \<Longrightarrow> keeps R (record_targets env bucket key sha ts k)"
  by (induction ts) (simp_all add: record_target_keeps)

lemma store_targets_keeps: "keeps R (store_targets env bucket key sha p timestamp ts n ids ins)"
proof (induction ts arbitrary: n ids ins)
  case (Cons t ts)
  have "keeps R (insert_target env bucket key sha p timestamp n t)"
    unfolding insert_target_def by (auto intro!: keeps_call create_R same split: option.split)
  with Cons show ?case by (auto intro!: record_target_keeps keeps_sequence)
qed simp

lemma targets_keeps: "keeps R (ingest_targets env bucket key timestamp route ts)"
  unfolding ingest_targets_def ingest_raw_def Let_def
  by (auto intro!: keeps_call_with keeps_sequence store_targets_keeps record_targets_keeps same split: sum.split)

lemma load_keeps: "keeps R (load_targets env key gs acc (ingest_targets env bucket key timestamp route))"
  by (intro load_targets_keeps targets_keeps same)

end

locale mailbox_writes = target_writes +
  assumes quarantine_R: "R s (quarantineInbound q s)"
begin

lemma routed_keeps: "keeps R (ingest_routed env bucket key timestamp route routed)"
  unfolding ingest_routed_def quarantine_unrouted_def
  by (auto intro!: keeps_call_with quarantine_R load_keeps)

lemma ingest_keeps: "keeps R (ingestS3Object env bucket key recipients timestamp)"
  unfolding ingestS3Object_def
  by (auto intro!: keeps_sequence keeps_attempt resolve_route_keeps routed_keeps same split: sum.split)

end

interpretation growth: mailbox_writes extends
  by unfold_locales (simp_all add: extends_record extends_create extends_quarantine)

text \<open>The writes after the quarantine leave it as it is.\<close>

definition same_quarantine :: "mail_store \<Rightarrow> mail_store \<Rightarrow> bool" where
  "same_quarantine s s' \<longleftrightarrow> quarantine (ms_db s') = quarantine (ms_db s)"

lemma record_db [simp]: "ms_db (fst (recordInboundSourceProvenance sc i bucket key sha via s)) = ms_db s"
  by (auto simp: recordInboundSourceProvenance_def Let_def insert_source_def split: option.splits)

interpretation quarantine_frame: target_writes same_quarantine
proof
  show "same_quarantine s (fst (createInboundMessageWithProvenance sc now fresh input bucket key sha s))"
    for s sc now fresh input bucket key sha
    by (cases "createInboundMessageWithProvenance sc now fresh input bucket key sha s";
        cases "snd (createInboundMessageWithProvenance sc now fresh input bucket key sha s)")
      (auto simp: same_quarantine_def dest: create_inbound_facts create_inbound_fails)
qed (simp_all add: same_quarantine_def)

end
