(* ===== verification/Inbound_Delivery.thy ===== *)
theory Inbound_Delivery
  imports Inbound_Facts
begin

text \<open>
  What the deletion of a queue message rests on: the assertion that holds when the worker
  answers a terminal result, whatever growing steps other workers take at its awaits.
\<close>

section \<open>Assertions that growth keeps\<close>

definition delivered :: "string \<Rightarrow> string \<Rightarrow> string \<Rightarrow> string \<Rightarrow> mail_store \<Rightarrow> bool" where
  "delivered tenant bucket key sha s \<longleftrightarrow>
     (\<exists>m \<in> set (messages (ms_db s)). \<exists>p \<in> set (ms_sources s). m_tenant m = tenant \<and> source_matches key m
        \<and> source_row tenant (m_id m) p \<and> same_object bucket key sha p)"

definition present :: "string \<Rightarrow> string \<Rightarrow> string \<Rightarrow> mail_store \<Rightarrow> bool" where
  "present tenant i key s \<longleftrightarrow>
     (\<exists>m \<in> set (messages (ms_db s)). m_id m = i \<and> m_tenant m = tenant \<and> source_matches key m)"

definition target_ok :: "string \<Rightarrow> ingest_target \<Rightarrow> mail_store \<Rightarrow> bool" where
  "target_ok key t s \<longleftrightarrow>
     (\<forall>i. tg_existing t = Some i \<longrightarrow> i \<noteq> [] \<longrightarrow> present (tg_tenant t) i key s)
     \<and> (\<forall>p. tg_provenance t = Some p \<longrightarrow> (\<exists>i. tg_existing t = Some i \<and> i \<noteq> []
          \<and> p \<in> set (ms_sources s) \<and> source_row (tg_tenant t) i p))"

lemma present_mono: "extends s s' \<Longrightarrow> present t i key s \<Longrightarrow> present t i key s'"
  unfolding present_def by (auto dest!: extends_message simp: same_ident_def)

lemma delivered_mono: "extends s s' \<Longrightarrow> delivered t bucket key sha s \<Longrightarrow> delivered t bucket key sha s'"
proof -
  assume e: "extends s s'" and d: "delivered t bucket key sha s"
  obtain m p where m: "m \<in> set (messages (ms_db s))" "p \<in> set (ms_sources s)" "m_tenant m = t" "source_matches key m"
      "source_row t (m_id m) p" "same_object bucket key sha p"
    using d by (auto simp: delivered_def)
  obtain m' where m': "m' \<in> set (messages (ms_db s'))" "same_ident m m'" using extends_message [OF e m(1)] by blast
  with m extends_source [OF e m(2)] show ?thesis
    unfolding delivered_def by (intro bexI [of _ m'] bexI [of _ p]) (auto simp: same_ident_def)
qed

lemma target_ok_mono: "extends s s' \<Longrightarrow> target_ok key t s \<Longrightarrow> target_ok key t s'"
  unfolding target_ok_def by (blast intro: present_mono extends_source)

lemma stable_marks [intro]:
  "stable extends (delivered t bucket key sha)" "stable extends (target_ok key t')"
  "stable extends (\<lambda>s. x \<in> q_source_id ` set (quarantine (ms_db s)))"
  "stable extends (\<lambda>s. routes (ms_db s) = rt \<and> tenants (ms_db s) = tn)"
  by (auto simp: stable_def intro: delivered_mono target_ok_mono) (auto simp: extends_def image_iff subset_iff)

lemma holds_grow:
  assumes "stable extends P" and "\<And>s. extends s (fst (f s))"
    and "\<And>s. P s \<Longrightarrow> R (snd (f s)) (fst (f s))"
    and "\<And>r. holds extends (\<lambda>s. P s \<and> R r s) (k r) Q"
  shows "holds extends P (call_with f k) Q"
  by (rule holds_call_with [where R = "\<lambda>r s. P s \<and> R r s"])
     (use assms in \<open>auto simp: stable_def\<close>)

lemma holds_pre: "holds E P p Q \<Longrightarrow> (\<And>s. P' s \<Longrightarrow> P s) \<Longrightarrow> holds E P' p Q"
  by (auto simp: holds_def)

section \<open>The worker's steps\<close>

lemma find_key_present:
  "findMessageIdByKey (forTenant sc t) key s = Some i \<Longrightarrow> present t i key s"
  by (auto simp: findMessageIdByKey_def present_def forTenant_def split: if_splits dest!: find_SomeD)

lemma load_targets_holds:
  assumes "stable extends P"
    and "\<And>ts. map tg_tenant ts = map tg_tenant acc @ map rg_tenant gs
          \<Longrightarrow> holds extends (\<lambda>s. P s \<and> (\<forall>t \<in> set ts. target_ok key t s)) (k ts) Q"
  shows "holds extends (\<lambda>s. P s \<and> (\<forall>t \<in> set acc. target_ok key t s)) (load_targets env key gs acc k) Q"
  using assms(2)
proof (induction gs arbitrary: acc)
  case (Cons g gs)
  let ?P = "\<lambda>s. P s \<and> (\<forall>t \<in> set acc. target_ok key t s)"
  let ?sc = "forTenant (ie_scope env) (rg_tenant g)"
  let ?t = "\<lambda>e p. \<lparr> tg_tenant = rg_tenant g, tg_recipients = rg_recipients g, tg_existing = e, tg_provenance = p \<rparr>"
  have stP: "stable extends ?P" by (intro stable_conj assms(1) stable_ball stable_marks(2))
  have next_holds: "holds extends (\<lambda>s. ?P s \<and> target_ok key (?t e p) s) (load_targets env key gs (acc @ [?t e p]) k) Q" for e p
    by (rule holds_weaken [OF Cons.IH]) (use Cons.prems in auto)
  show ?case unfolding load_targets.simps Let_def
  proof (rule holds_grow [OF stP, where R = "\<lambda>e s. \<forall>i. e = Some i \<longrightarrow> present (rg_tenant g) i key s"], goal_cases)
    case (3 e)
    show ?case
    proof (cases "or_default e [] = []")
      case True
      then show ?thesis using next_holds [of e None]
        by (auto simp: target_ok_def or_default_def elim!: holds_weaken split: option.splits)
    next
      case False
      then obtain i where e: "e = Some i" "i \<noteq> []" by (auto simp: or_default_def split: option.splits)
      have stR: "stable extends (\<lambda>s. ?P s \<and> (\<forall>i. e = Some i \<longrightarrow> present (rg_tenant g) i key s))"
        by (intro stable_conj stP) (auto simp: stable_def intro: present_mono)
      have "holds extends (\<lambda>s. ?P s \<and> (\<forall>i. e = Some i \<longrightarrow> present (rg_tenant g) i key s))
          (call_with (\<lambda>s. (s, getInboundSourceProvenance ?sc (the e) s)) (\<lambda>prov. load_targets env key gs (acc @ [?t e prov]) k)) Q"
      proof (rule holds_grow [OF stR, where R = "\<lambda>pr s. \<forall>p. pr = Some p \<longrightarrow> p \<in> set (ms_sources s) \<and> source_row (rg_tenant g) i p"], goal_cases)
        case (2 s)
        show ?case by (auto simp: e getInboundSourceProvenance_def forTenant_def split: if_splits dest!: find_SomeD)
      next
        case (3 pr)
        show ?case by (rule holds_weaken [OF next_holds [of e pr]]) (auto simp: target_ok_def e)
      qed simp
      with False show ?thesis by simp
    qed
  qed (auto intro: find_key_present)
qed simp

lemma record_delivers:
  assumes "recordInboundSourceProvenance (forTenant sc (tg_tenant t)) (the (tg_existing t)) bucket key sha via s = (s', r)"
    and "target_ok key t s" and "tg_existing t \<noteq> None" and "r = recorded \<or> r = existing_match"
  shows "delivered (tg_tenant t) bucket key sha s'"
proof -
  obtain i where i: "tg_existing t = Some i" using assms(3) by auto
  have ne: "i \<noteq> []" using assms(1,4) by (auto simp: recordInboundSourceProvenance_def i split: if_splits)
  then obtain m where m: "m \<in> set (messages (ms_db s))" "m_id m = i" "m_tenant m = tg_tenant t" "source_matches key m"
    using assms(2) i by (auto simp: target_ok_def present_def)
  have e: "extends s s'" using extends_record assms(1) by (metis fst_conv)
  then obtain m' where m': "m' \<in> set (messages (ms_db s'))" "same_ident m m'" using extends_message m(1) by blast
  have "\<exists>p \<in> set (ms_sources s'). source_row (tg_tenant t) i p \<and> same_object bucket key sha p"
    using assms(1,4)
    by (auto simp: recordInboundSourceProvenance_def Let_def i insert_source_def source_row_def same_object_def
        getInboundSourceProvenance_def forTenant_def split: if_splits option.splits dest!: find_SomeD)
  with m m' show ?thesis unfolding delivered_def by (intro bexI [of _ m']) (auto simp: same_ident_def)
qed

lemma record_target_holds:
  assumes "stable extends P" and "tg_existing t \<noteq> None" and "\<And>s. P s \<Longrightarrow> target_ok key t s"
    and "holds extends (\<lambda>s. P s \<and> delivered (tg_tenant t) bucket key sha s) k Q" and "\<And>e s. Q (Inl e) s"
  shows "holds extends P (record_target env bucket key sha t k) Q"
  unfolding record_target_def
proof (rule holds_grow [OF assms(1), where R = "\<lambda>r s. r = recorded \<or> r = existing_match \<longrightarrow> delivered (tg_tenant t) bucket key sha s"], goal_cases)
  case (2 s)
  then show ?case using record_delivers [OF surjective_pairing assms(3) assms(2)] by auto
next
  case (3 r)
  have "stable extends (\<lambda>s. P s \<and> (r = recorded \<or> r = existing_match \<longrightarrow> delivered (tg_tenant t) bucket key sha s))"
    by (intro stable_conj assms(1) stable_imp stable_marks(1))
  then show ?case using assms(4,5)
    by (auto intro: holds_Raise elim!: holds_weaken)
qed (rule extends_record)

lemma record_targets_holds:
  assumes "stable extends P" and "\<forall>t \<in> set ts. tg_existing t \<noteq> None" and "\<And>s t. P s \<Longrightarrow> t \<in> set ts \<Longrightarrow> target_ok key t s"
    and "holds extends (\<lambda>s. P s \<and> (\<forall>t \<in> set ts. delivered (tg_tenant t) bucket key sha s)) k Q" and "\<And>e s. Q (Inl e) s"
  shows "holds extends P (record_targets env bucket key sha ts k) Q"
  using assms(1-4)
proof (induction ts arbitrary: P)
  case (Cons t ts)
  have "holds extends (\<lambda>s. P s \<and> delivered (tg_tenant t) bucket key sha s) (record_targets env bucket key sha ts k) Q"
    by (rule Cons.IH) (use Cons.prems in \<open>auto intro: stable_conj elim!: holds_weaken\<close>)
  with Cons.prems show ?case by (auto intro!: record_target_holds assms(5))
qed simp

lemma create_delivers:
  "createInboundMessageWithProvenance (forTenant sc t) now fresh i bucket key sha s = (s', Inr a)
   \<Longrightarrow> delivered t bucket key sha s'"
  by (drule create_inbound_facts) (auto simp: delivered_def forTenant_def dest!: find_SomeD)

lemma insert_target_holds:
  assumes "stable extends P"
  shows "holds extends P (insert_target env bucket key sha p timestamp n t)
     (\<lambda>r s. (case r of Inl e \<Rightarrow> True | Inr _ \<Rightarrow> P s \<and> delivered (tg_tenant t) bucket key sha s))"
proof -
  have ret: "holds extends (\<lambda>s. P s \<and> (\<forall>a. r = Inr a \<longrightarrow> delivered (tg_tenant t) bucket key sha s))
      (case r of Inl e \<Rightarrow> Raise e | Inr v \<Rightarrow> Return v)
      (\<lambda>r s. (case r of Inl e \<Rightarrow> True | Inr _ \<Rightarrow> P s \<and> delivered (tg_tenant t) bucket key sha s))"
    for r :: "store_error + inbound_insert"
    by (cases r) (auto intro!: holds_Raise holds_Return stable_conj assms stable_marks(1) stable_imp)
  have one: "holds extends P (call f)
      (\<lambda>r s. (case r of Inl e \<Rightarrow> True | Inr _ \<Rightarrow> P s \<and> delivered (tg_tenant t) bucket key sha s))"
    if "\<And>s. extends s (fst (f s))" and "\<And>s s' a. f s = (s', Inr a) \<Longrightarrow> delivered (tg_tenant t) bucket key sha s'"
    for f :: "mail_store \<Rightarrow> inbound_insert mail_outcome"
    unfolding call_def
    by (rule holds_grow [OF assms that(1) _ ret]) (metis prod.collapse that(2))
  show ?thesis unfolding insert_target_def
    by (auto split: option.split intro!: one extends_create elim: create_delivers)
qed

lemma store_targets_holds:
  assumes "stable extends P" and "\<And>s t. P s \<Longrightarrow> t \<in> set ts \<Longrightarrow> target_ok key t s"
  shows "holds extends P (store_targets env bucket key sha p timestamp ts n ids ins)
    (\<lambda>r s. (case r of Inl e \<Rightarrow> True | Inr _ \<Rightarrow> P s \<and> (\<forall>t \<in> set ts. delivered (tg_tenant t) bucket key sha s)))"
  using assms
proof (induction ts arbitrary: P n ids ins)
  case (Cons t ts)
  let ?P = "\<lambda>s. P s \<and> delivered (tg_tenant t) bucket key sha s"
  have st: "stable extends ?P" by (intro stable_conj Cons.prems(1) stable_marks(1))
  have rest: "holds extends ?P (store_targets env bucket key sha p timestamp ts n ids ins)
    (\<lambda>r s. (case r of Inl e \<Rightarrow> True | Inr _ \<Rightarrow> P s \<and> (\<forall>t \<in> set (t # ts). delivered (tg_tenant t) bucket key sha s)))"
    for n ids ins
    by (rule holds_weaken [OF Cons.IH [OF st]]) (use Cons.prems(2) in \<open>auto split: sum.splits\<close>)
  show ?case
  proof (cases "or_default (tg_existing t) [] = []")
    case True
    then show ?thesis
      by (auto intro!: holds_bind [OF insert_target_holds [OF Cons.prems(1)]] rest [THEN holds_weaken])
  next
    case False
    then have "tg_existing t \<noteq> None" by (auto simp: or_default_def split: option.splits)
    with False show ?thesis
      by (auto intro!: record_target_holds Cons.prems rest [simplified])
  qed
qed (auto intro: holds_Return)

text \<open>The answer of the worker for one object, by the assertion at its end.\<close>

definition all_delivered :: "ingest_env \<Rightarrow> string \<Rightarrow> string \<Rightarrow> string list \<Rightarrow> mail_store \<Rightarrow> bool" where
  "all_delivered env bucket key tns s \<longleftrightarrow>
     tns = [] \<or> (\<exists>raw. ie_fetch env bucket key = Inr raw \<and> (\<forall>t \<in> set tns. delivered t bucket key (ie_sha env raw) s))"

definition answered :: "ingest_env \<Rightarrow> string \<Rightarrow> string \<Rightarrow> string list \<Rightarrow> (mail_store \<Rightarrow> bool)
    \<Rightarrow> store_error + ingest_result \<Rightarrow> mail_store \<Rightarrow> bool" where
  "answered env bucket key tns P r s \<longleftrightarrow>
     (case r of Inl _ \<Rightarrow> True | Inr res \<Rightarrow> shouldDeleteIngestResult res \<longrightarrow> P s \<and> all_delivered env bucket key tns s)"

lemma known_delivered:
  assumes "target_ok key t s" and "tg_provenance t = Some p" and "\<not> source_conflicts bucket key t" and "\<not> hash_conflicts sha t"
  shows "delivered (tg_tenant t) bucket key sha s"
proof -
  obtain i where i: "tg_existing t = Some i" "i \<noteq> []" "p \<in> set (ms_sources s)" "source_row (tg_tenant t) i p"
    using assms(1,2) by (auto simp: target_ok_def)
  then obtain m where "m \<in> set (messages (ms_db s))" "m_id m = i" "m_tenant m = tg_tenant t" "source_matches key m"
    using assms(1) by (auto simp: target_ok_def present_def)
  with i assms(2-4) show ?thesis unfolding delivered_def
    by (intro bexI [of _ m] bexI [of _ p]) (auto simp: source_conflicts_def hash_conflicts_def same_object_def)
qed

lemma ingest_raw_holds:
  assumes P: "stable extends P" and ok: "\<And>s t. P s \<Longrightarrow> t \<in> set ts \<Longrightarrow> target_ok key t s"
    and f: "ie_fetch env bucket key = Inr raw" and c: "\<not> (\<exists>t \<in> set ts. source_conflicts bucket key t)"
  shows "holds extends P (ingest_raw env bucket key timestamp route ts raw) (answered env bucket key (map tg_tenant ts) P)"
proof -
  let ?sha = "ie_sha env raw" and ?Q = "answered env bucket key (map tg_tenant ts) P"
  have Q: "?Q (Inr res) s" if "P s" and "\<forall>t \<in> set ts. delivered (tg_tenant t) bucket key ?sha s" for res s
    using that f by (auto simp: answered_def all_delivered_def)
  have err: "?Q (Inl e) s" for e s by (simp add: answered_def)
  have ret: "holds extends (\<lambda>s. P s \<and> (\<forall>t \<in> set ts. delivered (tg_tenant t) bucket key ?sha s)) (Return res) ?Q" for res
    by (intro holds_Return stable_conj P stable_ball stable_marks(1)) (blast intro: Q)
  have failed: "holds extends P (Return (ingest_failure k why what)) ?Q" for k why what
    by (intro holds_Return P) (simp add: answered_def shouldDeleteIngestResult_def ingest_failure_def ingest_outcome_def)
  consider (hash) "\<exists>t \<in> set ts. hash_conflicts ?sha t"
    | (known) "\<not> (\<exists>t \<in> set ts. hash_conflicts ?sha t)" "\<forall>t \<in> set ts. tg_existing t \<noteq> None \<and> tg_provenance t \<noteq> None"
    | (legacy) "\<not> (\<exists>t \<in> set ts. hash_conflicts ?sha t)" "\<not> (\<forall>t \<in> set ts. tg_existing t \<noteq> None \<and> tg_provenance t \<noteq> None)"
        "\<forall>t \<in> set ts. tg_existing t \<noteq> None"
    | (fresh) "\<not> (\<exists>t \<in> set ts. hash_conflicts ?sha t)" "\<not> (\<forall>t \<in> set ts. tg_existing t \<noteq> None \<and> tg_provenance t \<noteq> None)"
        "\<not> (\<forall>t \<in> set ts. tg_existing t \<noteq> None)"
    by blast
  then show ?thesis
  proof cases
    case hash
    then show ?thesis using failed by (simp add: ingest_raw_def Let_def)
  next
    case known
    have "delivered (tg_tenant t) bucket key ?sha s" if "P s" "t \<in> set ts" for s t
      using known_delivered [OF ok [OF that]] known c that(2) by blast
    with known holds_weaken [OF ret] show ?thesis by (simp add: ingest_raw_def Let_def)
  next
    case legacy
    have "holds extends P (record_targets env bucket key ?sha ts (Return (duplicate_result key ts))) ?Q"
      by (rule record_targets_holds [OF P legacy(3) ok ret err])
    with legacy show ?thesis by (auto simp: ingest_raw_def Let_def)
  next
    case fresh
    have "holds extends P (call_with (\<lambda>s. (s, ie_mime env raw)) k) ?Q"
      if "\<And>e. ie_mime env raw = Inl e \<Longrightarrow> k (Inl e) = Raise (Store_Error e)"
        and "\<And>m. holds extends P (k (Inr m)) ?Q" for k
    proof (rule holds_grow [OF P, where R = "\<lambda>r s. r = ie_mime env raw"], goal_cases)
      case (3 r)
      show ?case
      proof (cases "r = ie_mime env raw")
        case True
        have "holds extends P (k r) ?Q"
        proof (cases r)
          case (Inl e)
          with True that(1) [of e] have "k r = Raise (Store_Error e)" by simp
          then show ?thesis by (simp only:) (intro holds_Raise P err)
        qed (simp add: that(2))
        then show ?thesis by (rule holds_weaken) simp_all
      qed (simp add: holds_def)
    qed simp_all
    note mime = this
    have "holds extends P (call_with (\<lambda>s. (s, ie_mime env raw)) (\<lambda>m. case m of
             Inl e \<Rightarrow> Raise (Store_Error e)
           | Inr p \<Rightarrow> bind (store_targets env bucket key ?sha p timestamp ts 0 [] False) (\<lambda>(ids, ins). Return (f ids ins)))) ?Q"
      for f
      by (rule mime) (auto intro!: holds_bind [OF store_targets_holds [OF P ok]] ret err)
    then show ?thesis by (simp only: ingest_raw_def Let_def fresh if_False simp_thms)
  qed
qed

lemma ingest_targets_holds:
  assumes P: "stable extends P" and ok: "\<And>s t. P s \<Longrightarrow> t \<in> set ts \<Longrightarrow> target_ok key t s"
  shows "holds extends P (ingest_targets env bucket key timestamp route ts) (answered env bucket key (map tg_tenant ts) P)"
proof (cases "\<exists>t \<in> set ts. source_conflicts bucket key t")
  case True
  have "holds extends P (Return (ingest_failure k why what)) (answered env bucket key (map tg_tenant ts) P)" for k why what
    by (intro holds_Return P) (simp add: answered_def shouldDeleteIngestResult_def ingest_failure_def ingest_outcome_def)
  with True show ?thesis by (simp add: ingest_targets_def)
next
  case False
  have "holds extends P (call_with (\<lambda>s. (s, ie_fetch env bucket key)) (\<lambda>f. case f of
      Inl e \<Rightarrow> Raise (Store_Error e) | Inr raw \<Rightarrow> ingest_raw env bucket key timestamp route ts raw))
    (answered env bucket key (map tg_tenant ts) P)"
  proof (rule holds_grow [OF P, where R = "\<lambda>f s. f = ie_fetch env bucket key"], goal_cases)
    case (3 f)
    show ?case
    proof (cases "f = ie_fetch env bucket key")
      case True
      show ?thesis
      proof (cases f)
        case (Inr raw)
        with True have "ie_fetch env bucket key = Inr raw" by simp
        note raw = ingest_raw_holds [OF P ok this False]
        show ?thesis unfolding Inr sum.case by (rule holds_pre [OF raw]) simp_all
      qed (auto intro!: holds_Raise stable_conj P simp: answered_def)
    qed (simp add: holds_def)
  qed simp_all
  with False show ?thesis by (simp add: ingest_targets_def)
qed

section \<open>The whole worker\<close>

text \<open>The route is settled, and what it leaves unrouted is in the quarantine.\<close>

definition settled :: "string \<Rightarrow> (mail_store \<Rightarrow> bool) \<Rightarrow> route_resolution \<Rightarrow> mail_store \<Rightarrow> bool" where
  "settled key P route s \<longleftrightarrow> P s
     \<and> (rr_unresolved route \<noteq> [] \<or> rr_groups route = [] \<longrightarrow> key \<in> q_source_id ` set (quarantine (ms_db s)))"

lemma quarantined_key: "key \<in> q_source_id ` set (quarantine (ms_db (quarantineInbound (quarantine_entry bucket key route routed) s)))"
proof -
  have "key \<in> set (map q_source_id (quarantine (ms_db (quarantineInbound q s))))" if "q_source_id q = key" for q
    using that by (auto simp: quarantineInbound_def Let_def comp_def if_distrib cong: if_cong) (metis imageI)
  then show ?thesis by (simp add: quarantine_entry_def)
qed

lemma ingest_routed_holds:
  assumes P: "stable extends P"
  shows "holds extends P (ingest_routed env bucket key timestamp route routed)
    (answered env bucket key (map rg_tenant (rr_groups route)) (settled key P route))"
proof -
  let ?S = "settled key P route" and ?Q = "answered env bucket key (map rg_tenant (rr_groups route)) (settled key P route)"
  have S: "stable extends ?S" unfolding settled_def by (intro stable_conj P stable_imp stable_marks(3))
  have rest: "holds extends ?S (if rr_groups route = []
        then Return ((ingest_outcome quarantined (Some key))\<lparr>ig_reason := Some ''no_tenant_route'',
               ig_quarantined := Some (rr_unresolved route)\<rparr>)
        else load_targets env key (rr_groups route) [] (ingest_targets env bucket key timestamp route)) ?Q"
  proof (cases "rr_groups route = []")
    case True
    then show ?thesis by (auto intro!: holds_Return S simp: answered_def all_delivered_def)
  next
    case False
    have "holds extends (\<lambda>s. ?S s \<and> (\<forall>t \<in> set ts. target_ok key t s)) (ingest_targets env bucket key timestamp route ts) ?Q"
      if "map tg_tenant ts = map rg_tenant (rr_groups route)" for ts
      by (rule holds_weaken [OF ingest_targets_holds [where P = "\<lambda>s. ?S s \<and> (\<forall>t \<in> set ts. target_ok key t s)"]])
         (use that in \<open>auto intro!: stable_conj S stable_ball stable_marks(2) simp: answered_def split: sum.splits\<close>)
    then have "holds extends (\<lambda>s. ?S s \<and> (\<forall>t \<in> set []. target_ok key t s))
        (load_targets env key (rr_groups route) [] (ingest_targets env bucket key timestamp route)) ?Q"
      by (intro load_targets_holds S) simp
    with False show ?thesis by simp
  qed
  show ?thesis
  proof (cases "rr_unresolved route \<noteq> [] \<or> rr_groups route = []")
    case True
    have "holds extends P (call_with (\<lambda>s. (quarantineInbound (quarantine_entry bucket key route routed) s, ())) (\<lambda>_. k)) Q"
      if k: "holds extends ?S k Q" for k Q
    proof (rule holds_grow [OF P, where R = "\<lambda>_ s. key \<in> q_source_id ` set (quarantine (ms_db s))"], goal_cases)
      case 2
      show ?case using quarantined_key by simp
    next
      case 3
      show ?case by (rule holds_pre [OF k]) (simp add: settled_def)
    qed (simp add: extends_quarantine)
    from this [OF rest] True show ?thesis unfolding ingest_routed_def quarantine_unrouted_def
      by (simp only: if_True)
  next
    case False
    have "holds extends P k Q" if k: "holds extends ?S k Q" for k Q
      by (rule holds_pre [OF k]) (use False in \<open>simp add: settled_def\<close>)
    from this [OF rest] False show ?thesis unfolding ingest_routed_def quarantine_unrouted_def
      by (simp only: if_False)
  qed
qed

text \<open>
  The envelope the worker routes by: that of the notification, or the catch-all of the
  prefix map for a notification without recipients, when that one has a route.
\<close>

definition routing_envelope :: "ingest_env \<Rightarrow> db \<Rightarrow> string \<Rightarrow> string list \<Rightarrow> string list" where
  "routing_envelope env s key envelope =
     (let derived = deriveKeyPathRecipients key (ie_prefixes env) in
      if envelope = [] \<and> rr_groups (resolveInboundRecipients s derived) \<noteq> [] then derived else envelope)"

abbreviation same_routing :: "db \<Rightarrow> mail_store \<Rightarrow> bool" where
  "same_routing d s \<equiv> routes (ms_db s) = routes d \<and> tenants (ms_db s) = tenants d"

lemma resolve_route_holds:
  assumes "holds extends (same_routing d)
     (k (resolveInboundRecipients d (routing_envelope env d key envelope)) (routing_envelope env d key envelope)) Q"
  shows "holds extends (same_routing d) (resolve_route env key envelope k) Q"
proof -
  have st: "stable extends (same_routing d)" by (rule stable_marks(4))
  have look: "holds extends (same_routing d) (call_with (\<lambda>s. (s, resolveInboundRecipients (ms_db s) e)) h) Q"
    if "holds extends (same_routing d) (h (resolveInboundRecipients d e)) Q" for e h
  proof (rule holds_grow [OF st, where R = "\<lambda>r s. r = resolveInboundRecipients d e"], goal_cases)
    case (2 s)
    then show ?case using resolve_cong [of "ms_db s" d] by simp
  next
    case (3 r)
    show ?case by (cases "r = resolveInboundRecipients d e") (use that in \<open>auto simp: holds_def\<close>)
  qed simp
  have d: "routing_envelope env d key envelope =
      (if envelope = [] \<and> rr_groups (resolveInboundRecipients d (deriveKeyPathRecipients key (ie_prefixes env))) \<noteq> []
       then deriveKeyPathRecipients key (ie_prefixes env) else envelope)"
    by (simp add: routing_envelope_def Let_def)
  show ?thesis unfolding resolve_route_def Let_def
    by (rule look) (use assms d in \<open>auto intro!: look split: if_splits\<close>)
qed

section \<open>Deleted notifications lose nothing\<close>

lemma stable_answered:
  assumes "stable extends P"
  shows "stable extends (answered env bucket key tns P r)"
proof -
  have "stable extends (all_delivered env bucket key tns)"
    unfolding all_delivered_def stable_def by (blast intro: delivered_mono)
  with assms show ?thesis unfolding answered_def
    by (cases r) (auto intro!: stable_imp stable_conj)
qed

lemma attempt_holds:
  assumes "holds E P p Q"
  shows "holds E P (attempt p) (\<lambda>r s. \<exists>x. r = Inr x \<and> Q x s)"
proof -
  have "execs E q s r s' \<Longrightarrow> q = attempt p \<Longrightarrow> \<exists>x. r = Inr x \<and> execs E p s x s'" for p q s r s'
  proof (induction arbitrary: p rule: execs.induct)
    case (returned a s)
    then show ?case by (cases p) (auto intro: execs.intros)
  next
    case (raised e s)
    then show ?case by (cases p) auto
  next
    case (other s s1 q r s')
    then show ?case by (blast intro: execs.other)
  next
    case (own g s s1 q r s')
    then obtain h where h: "p = Await h" "g = (\<lambda>s. (fst (h s), attempt (snd (h s))))" by (cases p) auto
    with own.hyps(1) have "h s = (s1, snd (h s))" "q = attempt (snd (h s))" by auto
    with own.IH h(1) show ?case by (metis execs.own)
  qed
  with assms show ?thesis unfolding holds_def by blast
qed

text \<open>
  \<open>safe_to_delete\<close>: every tenant with an active route for a readable recipient of the
  routing envelope has the message, bound to the exact object and digest, and the object is
  in the quarantine when a readable recipient has no route or there is none.
\<close>

definition safe_to_delete :: "ingest_env \<Rightarrow> string \<Rightarrow> string \<Rightarrow> string list \<Rightarrow> mail_store \<Rightarrow> bool" where
  "safe_to_delete env bucket key envelope s \<longleftrightarrow>
     (let rs = routing_envelope env (ms_db s) key envelope in
      (\<forall>r t. r \<in> readable rs \<longrightarrow> recipient_tenant (ms_db s) r = Some t \<longrightarrow>
         (\<exists>raw. ie_fetch env bucket key = Inr raw \<and> delivered t bucket key (ie_sha env raw) s))
      \<and> (readable rs = {} \<or> (\<exists>r \<in> readable rs. recipient_tenant (ms_db s) r = None) \<longrightarrow>
         key \<in> q_source_id ` set (quarantine (ms_db s))))"

lemma routing_cong:
  "routes s = routes d \<Longrightarrow> tenants s = tenants d \<Longrightarrow>
   routing_envelope env s key e = routing_envelope env d key e \<and> recipient_tenant s = recipient_tenant d"
proof -
  assume a: "routes s = routes d" "tenants s = tenants d"
  have "tenant_for s = tenant_for d" unfolding tenant_for_def [abs_def] by (simp only: a)
  then have "recipient_tenant s = recipient_tenant d" by (intro ext) (simp add: recipient_tenant_def split: option.split)
  with resolve_cong [OF a] show ?thesis by (simp add: routing_envelope_def)
qed

lemma settled_safe:
  fixes d env key envelope
  defines "rs \<equiv> routing_envelope env d key envelope"
  assumes "settled key (same_routing d) (resolveInboundRecipients d rs) s"
    and "all_delivered env bucket key (map rg_tenant (rr_groups (resolveInboundRecipients d rs))) s"
  shows "safe_to_delete env bucket key envelope s"
proof -
  have sr: "routes (ms_db s) = routes d" "tenants (ms_db s) = tenants d" using assms(2) by (auto simp: settled_def)
  note c = routing_cong [OF sr, of env key envelope]
  have del: "\<exists>raw. ie_fetch env bucket key = Inr raw \<and> delivered t bucket key (ie_sha env raw) s"
    if "r \<in> readable rs" "recipient_tenant d r = Some t" for r t
  proof -
    have "\<exists>g \<in> set (rr_groups (resolveInboundRecipients d rs)). rg_tenant g = t"
      using resolve_groups [of d rs t r] that by blast
    with assms(3) show ?thesis by (fastforce simp: all_delivered_def)
  qed
  have "key \<in> q_source_id ` set (quarantine (ms_db s))"
    if q: "readable rs = {} \<or> (\<exists>r \<in> readable rs. recipient_tenant d r = None)"
  proof (cases "\<exists>r \<in> readable rs. recipient_tenant d r = None")
    case True
    then have "rr_unresolved (resolveInboundRecipients d rs) \<noteq> []"
      using resolve_unresolved [of _ d rs] by (metis empty_iff list.set(1))
    with assms(2) show ?thesis by (simp add: settled_def)
  next
    case False
    with q have e: "readable rs = {}" by blast
    have "rg_recipients g = []" if "g \<in> set (rr_groups (resolveInboundRecipients d rs))" for g
      using resolve_groups [of d rs "rg_tenant g"] that e by (metis empty_iff list.set_intros(1) neq_Nil_conv)
    then have "rr_groups (resolveInboundRecipients d rs) = []"
      by (metis list.set_intros(1) neq_Nil_conv resolve_group_ne)
    with assms(2) show ?thesis by (simp add: settled_def)
  qed
  with del c show ?thesis by (simp add: safe_to_delete_def Let_def rs_def)
qed

lemma ingest_holds:
  "holds extends (same_routing d) (ingestS3Object env bucket key recipients timestamp)
     (\<lambda>r s. case r of Inl _ \<Rightarrow> True | Inr result \<Rightarrow>
        shouldDeleteIngestResult result \<longrightarrow> safe_to_delete env bucket key (or_default recipients []) s)"
proof -
  let ?env = "or_default recipients []"
  let ?rs = "routing_envelope env d key ?env"
  let ?route = "resolveInboundRecipients d ?rs"
  let ?A = "answered env bucket key (map rg_tenant (rr_groups ?route)) (settled key (same_routing d) ?route)"
  have body: "holds extends (same_routing d) (resolve_route env key ?env (ingest_routed env bucket key timestamp)) ?A"
    by (rule resolve_route_holds) (rule ingest_routed_holds [OF stable_marks(4)])
  have st: "stable extends (?A x)" for x
    by (rule stable_answered) (unfold settled_def, intro stable_conj stable_imp stable_marks)
  show ?thesis
  proof (cases "bucket = []")
    case True
    then show ?thesis unfolding ingestS3Object_def
      by (auto intro!: holds_Return stable_marks(4) simp: shouldDeleteIngestResult_def ingest_failure_def ingest_outcome_def)
  next
    case False
    have fin: "holds extends (\<lambda>s. \<exists>y. x = y \<and> ?A y s) (case x of
           Inl e \<Rightarrow> Return ((ingest_outcome ingest_error (Some key))\<lparr>ig_error := Some (ingest_error_text e)\<rparr>)
         | Inr result \<Rightarrow> Return result)
      (\<lambda>r s. case r of Inl _ \<Rightarrow> True | Inr result \<Rightarrow> shouldDeleteIngestResult result \<longrightarrow> safe_to_delete env bucket key ?env s)" for x
    proof (rule holds_pre [where P = "?A x"])
      show "holds extends (?A x) (case x of
           Inl e \<Rightarrow> Return ((ingest_outcome ingest_error (Some key))\<lparr>ig_error := Some (ingest_error_text e)\<rparr>)
         | Inr result \<Rightarrow> Return result)
      (\<lambda>r s. case r of Inl _ \<Rightarrow> True | Inr result \<Rightarrow> shouldDeleteIngestResult result \<longrightarrow> safe_to_delete env bucket key ?env s)"
      proof (cases x)
        case (Inl e)
        then show ?thesis unfolding Inl sum.case
          by (intro holds_Return st) (simp add: shouldDeleteIngestResult_def ingest_outcome_def)
      next
        case (Inr result)
        then show ?thesis unfolding Inr sum.case
          by (intro holds_Return st) (auto simp: answered_def dest: settled_safe)
      qed
    qed blast
    show ?thesis unfolding ingestS3Object_def
      using False by (simp del: split_paired_All) (rule holds_bind [OF attempt_holds [OF body]]; use fin in force)
  qed
qed

text \<open>
  C16. A notification the worker deletes loses nothing, whatever other workers do at its
  awaits: when its result is one on which the queue message is deleted, then in the mailbox
  at that moment every tenant routed by the envelope holds a message of that object whose
  provenance names the object and the digest of the fetched bytes, and an object with an
  unroutable (or no) readable recipient is in the quarantine.
\<close>

theorem deleted_notification_is_stored:
  assumes "execs extends (ingestS3Object env bucket key recipients timestamp) s r s'"
    and "r = Inr result" and "shouldDeleteIngestResult result"
  shows "safe_to_delete env bucket key (or_default recipients []) s'"
  using ingest_holds [of "ms_db s" env bucket key recipients timestamp] assms by (auto dest!: holdsD)

end
