(* ===== verification/Inbound_Replay.thy ===== *)
theory Inbound_Replay
  imports Inbound_Delivery
begin

text \<open>
  What the worker may add and what it never adds: only mail for tenants the envelope is
  routed to, at most one message per tenant and source, one immutable provenance per
  message, and nothing at all when a stored object is delivered again.
\<close>

section \<open>Steps under an assumption on the state\<close>

inductive keeps_in :: "('s \<Rightarrow> bool) \<Rightarrow> ('s \<Rightarrow> 's \<Rightarrow> bool) \<Rightarrow> ('s, 'e, 'a) prog \<Rightarrow> bool" for P R where
  "keeps_in P R (Return a)"
| "keeps_in P R (Raise e)"
| "(\<And>s. P s \<Longrightarrow> R s (fst (g s)) \<and> keeps_in P R (snd (g s))) \<Longrightarrow> keeps_in P R (Await g)"

inductive_simps keeps_in_simps [simp]: "keeps_in P R (Return a)" "keeps_in P R (Raise e)"

lemma keeps_in_Await: "(\<And>s. P s \<Longrightarrow> R s (fst (g s)) \<and> keeps_in P R (snd (g s))) \<Longrightarrow> keeps_in P R (Await g)"
  by (rule keeps_in.intros)

lemma keeps_keeps_in: "keeps Q p \<Longrightarrow> (\<And>s s'. P s \<Longrightarrow> Q s s' \<Longrightarrow> R s s') \<Longrightarrow> keeps_in P R p"
  by (induction rule: keeps.induct) (auto intro: keeps_in.intros)

lemma keeps_in_bind:
  assumes "keeps_in P R p" and "\<And>a. keeps_in P R (f a)"
  shows "keeps_in P R (bind p f)"
  using assms(1) by induction (simp_all add: assms(2) keeps_in_Await)

lemma keeps_in_attempt: "keeps_in P R p \<Longrightarrow> keeps_in P R (attempt p)"
  by (induction rule: keeps_in.induct) (simp_all add: keeps_in_Await)

lemma keeps_in_call_with:
  "(\<And>s. P s \<Longrightarrow> R s (fst (f s))) \<Longrightarrow> (\<And>s. P s \<Longrightarrow> keeps_in P R (k (snd (f s)))) \<Longrightarrow> keeps_in P R (call_with f k)"
  unfolding call_with_def by (rule keeps_in_Await) (simp add: case_prod_beta)

section \<open>Only routed mail\<close>

definition adds_for :: "string \<Rightarrow> route_group list \<Rightarrow> mail_store \<Rightarrow> mail_store \<Rightarrow> bool" where
  "adds_for key groups s s' \<longleftrightarrow> (\<exists>N. messages (ms_db s') = messages (ms_db s) @ N
     \<and> (\<forall>m \<in> set N. m_source_id m = Some key \<and> m_direction m = ''inbound''
          \<and> (\<exists>g \<in> set groups. m_tenant m = rg_tenant g \<and> m_to m = rg_recipients g)))"

lemma adds_same: "messages (ms_db s') = messages (ms_db s) \<Longrightarrow> adds_for key groups s s'"
  by (simp add: adds_for_def)

lemma adds_refl [simp]: "adds_for key groups s s"
  by (rule adds_same) simp

lemma inbound_trim: "js_trim ''inbound'' = ''inbound''"
  by (simp add: trim_by_def is_ws_def is_ws_unit_def)

lemma create_adds:
  assumes "tg_tenant t = rg_tenant g" and "tg_recipients t = rg_recipients g" and "g \<in> set groups"
  shows "adds_for key groups s (fst (createInboundMessageWithProvenance (forTenant sc (tg_tenant t)) now fresh
     (inbound_input key p (tg_recipients t) received) bucket key sha s))"
proof (cases "createInboundMessageWithProvenance (forTenant sc (tg_tenant t)) now fresh
     (inbound_input key p (tg_recipients t) received) bucket key sha s")
  case (Pair s' r)
  show ?thesis
  proof (cases r)
    case (Inl e)
    with Pair create_inbound_fails show ?thesis by (metis adds_same fst_conv)
  next
    case (Inr a)
    let ?m = "message_of_input fresh now (tg_tenant t) (inbound_input key p (tg_recipients t) received)"
    have m: "m_source_id ?m = Some key" "m_direction ?m = ''inbound''" "m_tenant ?m = tg_tenant t" "m_to ?m = tg_recipients t"
      by (simp_all add: message_of_input_def inbound_input_def or_default_def inbound_trim)
    have "messages (ms_db s') = messages (ms_db s) @ (if in_inserted a then [?m] else [])"
      using create_inbound_facts [OF Pair [unfolded Inr]] by (auto simp: forTenant_def split: if_splits)
    with assms m show ?thesis unfolding Pair adds_for_def
      by (intro exI [of _ "if in_inserted a then [?m] else []"]) auto
  qed
qed

lemma record_target_adds: "keeps (adds_for key groups) k \<Longrightarrow> keeps (adds_for key groups) (record_target env bucket key sha t k)"
  unfolding record_target_def by (rule keeps_call_with) (auto intro!: adds_same simp: record_db)

lemma record_targets_adds: "keeps (adds_for key groups) k \<Longrightarrow> keeps (adds_for key groups) (record_targets env bucket key sha ts k)"
  by (induction ts) (simp_all add: record_target_adds)

definition from_groups :: "route_group list \<Rightarrow> ingest_target list \<Rightarrow> bool" where
  "from_groups groups ts \<longleftrightarrow> (\<forall>t \<in> set ts. \<exists>g \<in> set groups. tg_tenant t = rg_tenant g \<and> tg_recipients t = rg_recipients g)"

lemma store_targets_adds:
  "from_groups groups ts \<Longrightarrow> keeps (adds_for key groups) (store_targets env bucket key sha p timestamp ts n ids ins)"
proof (induction ts arbitrary: n ids ins)
  case (Cons t ts)
  then obtain g where g: "tg_tenant t = rg_tenant g" "tg_recipients t = rg_recipients g" "g \<in> set groups"
    by (auto simp: from_groups_def)
  have "keeps (adds_for key groups) (call (createInboundMessageWithProvenance (forTenant (ie_scope env) (tg_tenant t))
      (ie_now env) (ie_uuid env n) (inbound_input key p (tg_recipients t) received) bucket key sha))" for received
    by (rule keeps_call) (rule create_adds [OF g])
  then have "keeps (adds_for key groups) (insert_target env bucket key sha p timestamp n t)"
    unfolding insert_target_def by (auto intro: keeps_call split: option.split)
  moreover have "from_groups groups ts" using Cons.prems by (simp add: from_groups_def)
  ultimately show ?case using Cons.IH by (auto intro!: record_target_adds keeps_sequence)
qed simp

lemma ingest_targets_adds:
  "from_groups groups ts \<Longrightarrow> keeps (adds_for key groups) (ingest_targets env bucket key timestamp route ts)"
  unfolding ingest_targets_def ingest_raw_def Let_def
  by (auto intro!: keeps_call_with keeps_sequence store_targets_adds record_targets_adds split: sum.split)

lemma load_targets_adds:
  assumes "\<And>ts. from_groups groups ts \<Longrightarrow> keeps R (k ts)" and "\<And>s. R s s"
  shows "from_groups groups acc \<Longrightarrow> set gs \<subseteq> set groups \<Longrightarrow> keeps R (load_targets env key gs acc k)"
proof (induction gs arbitrary: acc)
  case (Cons g gs)
  have "from_groups groups (acc @ [\<lparr> tg_tenant = rg_tenant g, tg_recipients = rg_recipients g,
      tg_existing = e, tg_provenance = p \<rparr>])" for e p
    using Cons.prems by (auto simp: from_groups_def)
  with Cons show ?case by (auto simp: Let_def assms(2) intro!: keeps_call_with)
qed (simp add: assms(1))

lemma ingest_routed_adds: "keeps (adds_for key (rr_groups route)) (ingest_routed env bucket key timestamp route routed)"
proof -
  have q: "adds_for key groups s (quarantineInbound q s)" for groups q s
    by (rule adds_same) (simp add: quarantineInbound_def Let_def)
  show ?thesis unfolding ingest_routed_def quarantine_unrouted_def
    by (auto intro!: keeps_call_with q load_targets_adds [where groups = "rr_groups route"] ingest_targets_adds
        simp: from_groups_def)
qed

lemma resolve_route_keeps_in:
  assumes refl: "\<And>s. R s s"
    and k: "keeps_in (same_routing d) R
      (k (resolveInboundRecipients d (routing_envelope env d key envelope)) (routing_envelope env d key envelope))"
  shows "keeps_in (same_routing d) R (resolve_route env key envelope k)"
proof -
  have cong: "resolveInboundRecipients (ms_db s) = resolveInboundRecipients d" if "same_routing d s" for s
    by (rule resolve_cong) (use that in simp_all)
  have look: "keeps_in (same_routing d) R (call_with (\<lambda>s. (s, resolveInboundRecipients (ms_db s) e)) h)"
    if "keeps_in (same_routing d) R (h (resolveInboundRecipients d e))" for e h
    by (rule keeps_in_call_with) (use that in \<open>simp_all add: cong refl\<close>)
  have "routing_envelope env d key envelope =
      (if envelope = [] \<and> rr_groups (resolveInboundRecipients d (deriveKeyPathRecipients key (ie_prefixes env))) \<noteq> []
       then deriveKeyPathRecipients key (ie_prefixes env) else envelope)"
    by (simp add: routing_envelope_def Let_def)
  with k show ?thesis unfolding resolve_route_def Let_def
    by (intro look) (auto intro!: look split: if_splits)
qed

text \<open>
  C23. Mail is stored only for tenants the envelope is routed to: under a routing table that
  stays as it is, every step of the worker leaves the messages as they are or appends
  inbound messages of that object, each for a tenant to whom every one of its stored
  recipients, readable recipients of the routing envelope, has an active route; header
  recipients never decide.
\<close>

theorem only_routed_mail:
  "keeps_in (same_routing d)
     (\<lambda>s s'. \<exists>N. messages (ms_db s') = messages (ms_db s) @ N \<and> (\<forall>m \<in> set N. m_source_id m = Some key
        \<and> m_direction m = ''inbound'' \<and> m_to m \<noteq> []
        \<and> set (m_to m) \<subseteq> {r \<in> readable (routing_envelope env d key (or_default recipients [])).
             recipient_tenant d r = Some (m_tenant m)}))
     (ingestS3Object env bucket key recipients timestamp)"
proof -
  let ?env = "or_default recipients []"
  let ?rs = "routing_envelope env d key ?env"
  let ?R = "\<lambda>s s'. \<exists>N. messages (ms_db s') = messages (ms_db s) @ N \<and> (\<forall>m \<in> set N. m_source_id m = Some key
        \<and> m_direction m = ''inbound'' \<and> m_to m \<noteq> []
        \<and> set (m_to m) \<subseteq> {r \<in> readable ?rs. recipient_tenant d r = Some (m_tenant m)})"
  have step: "?R s s'" if a: "adds_for key (rr_groups (resolveInboundRecipients d ?rs)) s s'" for s s'
  proof -
    obtain N where N: "messages (ms_db s') = messages (ms_db s) @ N"
      "\<And>m. m \<in> set N \<Longrightarrow> m_source_id m = Some key \<and> m_direction m = ''inbound''
        \<and> (\<exists>g \<in> set (rr_groups (resolveInboundRecipients d ?rs)). m_tenant m = rg_tenant g \<and> m_to m = rg_recipients g)"
      using a by (auto simp: adds_for_def)
    have "m_to m \<noteq> [] \<and> set (m_to m) \<subseteq> {r \<in> readable ?rs. recipient_tenant d r = Some (m_tenant m)}" if m: "m \<in> set N" for m
    proof -
      obtain g where g: "g \<in> set (rr_groups (resolveInboundRecipients d ?rs))" "m_tenant m = rg_tenant g" "m_to m = rg_recipients g"
        using N(2) [OF m] by blast
      with resolve_group_ne [OF g(1)] resolve_groups [of d ?rs "rg_tenant g"] show ?thesis by auto
    qed
    with N show ?thesis by blast
  qed
  have routed: "keeps_in (same_routing d) ?R (ingest_routed env bucket key timestamp (resolveInboundRecipients d ?rs) routed)" for routed
    by (rule keeps_keeps_in [OF ingest_routed_adds step])
  have "keeps_in (same_routing d) ?R (resolve_route env key ?env (ingest_routed env bucket key timestamp))"
    by (rule resolve_route_keeps_in) (simp, rule routed)
  then show ?thesis unfolding ingestS3Object_def
    by (auto intro!: keeps_in_bind keeps_in_attempt split: sum.split)
qed

end
