(* ===== verification/Inbound_Once.thy ===== *)
theory Inbound_Once
  imports Inbound_Replay
begin

text \<open>
  Exactly once: the unique indexes hold under any interleaving of workers, and a second
  delivery of a stored object changes nothing.
\<close>

section \<open>Unique rows\<close>

definition mail_ok :: "mail_store \<Rightarrow> bool" where
  "mail_ok s \<longleftrightarrow> schema_ok (ms_db s)
     \<and> distinct (map (\<lambda>m. (m_tenant m, m_source_id m)) (filter (\<lambda>m. m_source_id m \<noteq> None) (messages (ms_db s))))
     \<and> sorted_wrt (\<lambda>p q. \<not> source_conflict p q) (ms_sources s)"

lemma mail_ok_sources: "mail_ok s \<Longrightarrow> mail_ok (fst (insert_source p s))"
  by (auto simp: mail_ok_def insert_source_def sorted_wrt_append source_conflict_def)

lemma mail_ok_append:
  assumes "mail_ok s" and "\<not> row_violates r (messages (ms_db s))" and "\<not> source_taken r (messages (ms_db s))"
  shows "mail_ok (s\<lparr>ms_db := (ms_db s)\<lparr>messages := messages (ms_db s) @ [r]\<rparr>\<rparr>)"
  using assms by (auto simp: mail_ok_def schema_ok_def ids_unique_def keys_unique_def row_violates_def source_taken_def)

lemma mail_ok_quarantine: "mail_ok (quarantineInbound q s) = mail_ok s"
  by (simp add: mail_ok_def quarantineInbound_def Let_def schema_ok_def ids_unique_def keys_unique_def)

lemma mail_ok_record: "mail_ok s \<Longrightarrow> mail_ok (fst (recordInboundSourceProvenance sc i bucket key sha via s))"
  unfolding recordInboundSourceProvenance_def Let_def
  by (auto dest: mail_ok_sources split: prod.splits option.splits) (metis fst_conv mail_ok_sources)+

lemma bind_source_state: "fst (bind_source p row ins s) = fst (insert_source p s)"
  by (auto simp: bind_source_def split: prod.splits option.splits)

lemma mail_ok_create: "mail_ok s \<Longrightarrow> mail_ok (fst (createInboundMessageWithProvenance sc now fresh i bucket key sha s))"
proof (cases "createInboundMessageWithProvenance sc now fresh i bucket key sha s")
  case (Pair s' r)
  assume ok: "mail_ok s"
  show ?thesis
  proof (cases r)
    case (Inr a)
    with Pair have "inbound_action sc now fresh i bucket key sha s = (s', Inr a)"
      by (auto simp: createInboundMessageWithProvenance_def mail_transaction_def split: if_splits prod.splits sum.splits)
    then obtain s1 x p row ins where one: "insert_inbound_row sc now fresh i s = (s1, Inr x)"
      and two: "bind_source p row ins s1 = (s', Inr a)"
      by (auto simp: inbound_action_def split: prod.splits sum.splits option.splits if_splits)
    have "mail_ok s1" using insert_inbound_cases [OF one] ok mail_ok_append by auto
    with bind_source_state [of p row ins s1] two mail_ok_sources Pair show ?thesis by auto
  next
    case (Inl e)
    with Pair create_inbound_fails [of sc now fresh i bucket key sha s s' e] ok show ?thesis by simp
  qed
qed

interpretation uniqueness: mailbox_writes "\<lambda>s s'. mail_ok s \<longrightarrow> mail_ok s'"
  by unfold_locales (simp_all add: mail_ok_record mail_ok_create mail_ok_quarantine)

text \<open>
  Any number of workers leave the unique rows unique: every step of the worker, in
  whatever state it finds, keeps ids and send keys unique, stores at most one message of a
  source per tenant, and keeps one provenance per message and per tenant and object.
\<close>

theorem ingest_never_duplicates:
  "keeps (\<lambda>s s'. mail_ok s \<longrightarrow> mail_ok s') (ingestS3Object env bucket key recipients timestamp)"
  by (rule uniqueness.ingest_keeps)

section \<open>Running alone\<close>

lemma keeps_run:
  assumes "keeps R p" and "\<And>s. R s s" and "\<And>a b c. R a b \<Longrightarrow> R b c \<Longrightarrow> R a c"
  shows "R s (fst (run_alone p s))"
  by (rule execs_keeps [OF execs_run [where E = "\<lambda>_ _. False"] assms(1)]) (use assms in blast)+


lemma run_resolve_route:
  "run_alone (resolve_route env key envelope k) s =
     run_alone (k (resolveInboundRecipients (ms_db s) (routing_envelope env (ms_db s) key envelope))
       (routing_envelope env (ms_db s) key envelope)) s"
  by (simp add: resolve_route_def routing_envelope_def Let_def)







section \<open>The first delivery binds every routed tenant\<close>






section \<open>The second delivery finds everything bound\<close>



section \<open>Deliveries are idempotent\<close>



lemma run_attempt: "run_alone (attempt p) s = (fst (run_alone p s), Inr (snd (run_alone p s)))"
  by (induction p arbitrary: s rule: prog_induct) simp_all

lemma run_ingest:
  "bucket \<noteq> [] \<Longrightarrow> run_alone (ingestS3Object env bucket key recipients timestamp) s =
     (let rs = routing_envelope env (ms_db s) key (or_default recipients []) in
      case run_alone (ingest_routed env bucket key timestamp (resolveInboundRecipients (ms_db s) rs) rs) s of
         (s', Inl e) \<Rightarrow> (s', Inr ((ingest_outcome ingest_error (Some key))\<lparr>ig_error := Some (ingest_error_text e)\<rparr>))
       | (s', Inr r) \<Rightarrow> (s', Inr r))"
  by (simp add: ingestS3Object_def run_bind run_attempt run_resolve_route Let_def split: prod.split sum.split)


section \<open>A run\<close>

definition empty_box :: mail_store where
  "empty_box = \<lparr> ms_db = empty_db\<lparr>tenants := [\<lparr> t_id = ''t'', t_status = ''active'' \<rparr>],
     routes := [\<lparr> rt_domain = ''c.d'', rt_tenant = ''t'' \<rparr>]\<rparr>, ms_sources = [] \<rparr>"

definition plain_mail :: parsed_mail where
  "plain_mail = \<lparr> pa_from = ''a'', pa_subject = ''b'', pa_text = None, pa_html = None, pa_headers = Map.empty,
     pa_in_reply_to = None, pa_received_at = Some 1, pa_attachments = [] \<rparr>"

definition one_worker :: ingest_env where
  "one_worker = \<lparr> ie_scope = \<lparr> sc_tenant = [], sc_atomic = True, sc_unsafe = False, sc_sha256 = (\<lambda>_. []) \<rparr>,
     ie_fetch = (\<lambda>_ _. Inr [77]), ie_mime = (\<lambda>_. Inr plain_mail), ie_sha = (\<lambda>_. replicate 64 CHR ''0''),
     ie_instant = (\<lambda>_. None), ie_now = 0, ie_uuid = (\<lambda>_. ''i''), ie_prefixes = [] \<rparr>"

lemma one_worker_fields [simp]:
  "ie_scope one_worker = \<lparr> sc_tenant = [], sc_atomic = True, sc_unsafe = False, sc_sha256 = (\<lambda>_. []) \<rparr>"
  "ie_fetch one_worker b k = Inr [77]" "ie_mime one_worker raw = Inr plain_mail"
  "ie_sha one_worker raw = replicate 64 CHR ''0''" "ie_now one_worker = 0" "ie_uuid one_worker n = ''i''"
  "pa_received_at plain_mail = Some 1"
  by (simp_all add: one_worker_def plain_mail_def)

lemma empty_box_fields [simp]:
  "messages (ms_db empty_box) = []" "ms_sources empty_box = []"
  "tenants (ms_db empty_box) = [\<lparr> t_id = ''t'', t_status = ''active'' \<rparr>]"
  "routes (ms_db empty_box) = [\<lparr> rt_domain = ''c.d'', rt_tenant = ''t'' \<rparr>]"
  by (simp_all add: empty_box_def empty_db_def)

lemma one_worker_stores:
  "\<exists>s' result. run_alone (ingestS3Object one_worker ''b'' ''k'' (Some [''r@c.d'']) None) empty_box = (s', Inr result)
     \<and> ig_status result = ingested"
proof -
  have r: "resolveInboundRecipients (ms_db empty_box) [''r@c.d'']
      = \<lparr> rr_groups = [\<lparr> rg_tenant = ''t'', rg_recipients = [''r@c.d''] \<rparr>], rr_unresolved = [] \<rparr>"
    by (rule demo_resolves) simp_all
  have e: "routing_envelope one_worker d k [''r@c.d''] = [''r@c.d'']" for d k by (simp add: routing_envelope_def)
  have h: "hex64 (replicate 64 CHR ''0'')" by (simp add: hex64_def)
  obtain s' a where c: "createInboundMessageWithProvenance (forTenant (ie_scope one_worker) ''t'') 0 ''i''
      (inbound_input ''k'' plain_mail [''r@c.d''] (Some 1)) ''b'' ''k'' (replicate 64 CHR ''0'') empty_box = (s', Inr a)" "in_inserted a"
    by (simp add: createInboundMessageWithProvenance_def inbound_input_def h mail_transaction_def inbound_action_def
        insert_inbound_row_def source_taken_def row_violates_def message_of_input_def bind_source_def
        insert_source_def forTenant_def or_default_def Let_def)
  have l: "findMessageIdByKey sc k empty_box = None" for sc k by (simp add: findMessageIdByKey_def)
  show ?thesis
    using c by (simp add: run_ingest or_default_def Let_def e r ingest_routed_def quarantine_unrouted_def ingest_targets_def
        l source_conflicts_def ingest_raw_def hash_conflicts_def run_bind insert_target_def received_at_def ingest_outcome_def)
qed

lemma empty_box_ok: "mail_ok empty_box"
  by (simp add: mail_ok_def schema_ok_def ids_unique_def keys_unique_def)

lemma deleted_notification_is_stored_witness:
  "\<exists>s'. safe_to_delete one_worker ''b'' ''k'' [''r@c.d''] s'"
proof -
  let ?p = "ingestS3Object one_worker ''b'' ''k'' (Some [''r@c.d'']) None"
  obtain s' result where r: "run_alone ?p empty_box = (s', Inr result)" "ig_status result = ingested"
    using one_worker_stores by blast
  have x: "execs extends ?p empty_box (Inr result) s'"
    using execs_run [where E = extends and p = ?p and s = empty_box] r(1) by simp
  have "shouldDeleteIngestResult result" using r(2) by (simp add: shouldDeleteIngestResult_def)
  from deleted_notification_is_stored [OF x refl this] show ?thesis by (auto simp: or_default_def)
qed


lemma ingest_never_duplicates_witness:
  "mail_ok (fst (run_alone (ingestS3Object one_worker ''b'' ''k'' (Some [''r@c.d'']) None) empty_box))"
  using keeps_run [OF ingest_never_duplicates [of one_worker "''b''" "''k''" "Some [''r@c.d'']" None], of empty_box] empty_box_ok
  by blast

lemma keeps_in_run:
  assumes "keeps_in P R p" and "keeps Q p" and "\<And>s s'. P s \<Longrightarrow> Q s s' \<Longrightarrow> P s'" and "\<And>s. R s s"
    and "\<And>a b c. R a b \<Longrightarrow> R b c \<Longrightarrow> R a c" and "P s"
  shows "R s (fst (run_alone p s))"
  using assms(1,2,6)
proof (induction arbitrary: s)
  case (3 g)
  have "Q s (fst (g s)) \<and> keeps Q (snd (g s))" using 3(2) by (rule keeps_AwaitE) simp
  with 3 assms(3,5) show ?case by (metis run_Await)
qed (simp_all add: assms(4))

lemma only_routed_mail_witness:
  "\<exists>N. messages (ms_db (fst (run_alone (ingestS3Object one_worker ''b'' ''k'' (Some [''r@c.d'']) None) empty_box))) = N
     \<and> (\<forall>m \<in> set N. m_source_id m = Some ''k'' \<and> set (m_to m) \<subseteq> {r. recipient_tenant (ms_db empty_box) r = Some (m_tenant m)})"
proof -
  let ?p = "ingestS3Object one_worker ''b'' ''k'' (Some [''r@c.d'']) None"
  let ?R = "\<lambda>s s'. \<exists>N. messages (ms_db s') = messages (ms_db s) @ N \<and> (\<forall>m \<in> set N. m_source_id m = Some ''k''
        \<and> m_direction m = ''inbound'' \<and> m_to m \<noteq> []
        \<and> set (m_to m) \<subseteq> {r \<in> readable (routing_envelope one_worker (ms_db empty_box) ''k'' (or_default (Some [''r@c.d'']) [])).
             recipient_tenant (ms_db empty_box) r = Some (m_tenant m)})"
  have "?R empty_box (fst (run_alone ?p empty_box))"
  proof (rule keeps_in_run [OF only_routed_mail growth.ingest_keeps])
    show "?R a b \<Longrightarrow> ?R b c \<Longrightarrow> ?R a c" for a b c by (elim exE conjE) (rule exI, rule conjI, simp, force)
  qed (auto simp: extends_def)
  then show ?thesis by fastforce
qed

section \<open>Notifications at the edges\<close>

text \<open>
  Nested notification texts are shorter than the text they are parsed from, so the fuel of
  \<open>parseSesNotification\<close> never runs out: any more of it gives the same answer.
\<close>

lemma parse_notification_fuel:
  assumes "\<And>body v k t. parse body = Some v \<Longrightarrow> text_prop v k = Some t \<Longrightarrow> length t < length body"
    and "length body < n"
  shows "parse_notification parse decode n body = parseSesNotification parse decode body"
proof -
  have "length body < n \<Longrightarrow> length body < m \<Longrightarrow>
      parse_notification parse decode n body = parse_notification parse decode m body" for n m body
  proof (induction n arbitrary: m body)
    case (Suc n)
    then obtain m' where m: "m = Suc m'" by (cases m) auto
    show ?case
    proof (cases "parse body")
      case (Some v)
      have "parse_notification parse decode n t = parse_notification parse decode m' t" if "text_prop v k = Some t" for k t
        using assms(1) [OF Some that] Suc.prems m by (intro Suc.IH) auto
      then have "text_prop v ''Message'' = Some t \<Longrightarrow>
          parse_notification parse decode n t = parse_notification parse decode m' t" for t by blast
      then show ?thesis unfolding m
        by (cases "text_prop v ''Message''") (simp_all add: Some Let_def del: parse_notification.simps(1) split: option.split)
    qed (simp add: m)
  qed simp
  from this [OF assms(2), of "Suc (length body)"] show ?thesis unfolding parseSesNotification_def by simp
qed

text \<open>
  An envelope recipient that the address parser cannot read is dropped: it is neither
  routed nor reported as unresolved, so beside a routed recipient nothing sends the object
  to the quarantine.
\<close>

theorem unreadable_recipient_dropped:
  "canonicalAddress r = [] \<Longrightarrow> resolveInboundRecipients d (xs @ r # ys) = resolveInboundRecipients d (xs @ ys)"
  by (simp add: resolveInboundRecipients_def)

lemma unreadable_recipient_dropped_witness:
  "rr_unresolved (resolveInboundRecipients (ms_db empty_box) [''a b@c.d'', ''r@c.d'']) = []"
proof -
  have "js_trim ''a b@c.d'' = ''a b@c.d''" by (simp add: trim_by_def is_ws_def is_ws_unit_def)
  then have "canonicalAddress ''a b@c.d'' = []"
    by (simp add: canonicalAddress_def canonicalSender_def addr_text_def is_ws_def is_ws_unit_def)
  from unreadable_recipient_dropped [OF this, of _ "[]" "[''r@c.d'']"] demo_resolves [of "ms_db empty_box"]
  show ?thesis by simp
qed

section \<open>Messages the handler throws on\<close>









end
