(* ===== verification/Repair_Store.thy ===== *)
theory Repair_Store
  imports Inbound_Store
begin

text \<open>
  Attachment repair in the store (src/server/self-hosted/store.ts): the complete set of
  persisted bindings of one stored object, its snapshot text, the compare-and-swap of the
  attachment JSON of one row and of a whole binding set in one serializable transaction,
  the provenance audit, and the repair state of one message.  \<open>le\<close> is the collation of
  \<open>localeCompare\<close>.
\<close>

section \<open>Bindings\<close>

record repair_binding =
  rb_tenant :: string
  rb_message :: string
  rb_attachments :: "json list"
  rb_provenance :: provenance

record repair_update =
  ru_tenant :: string
  ru_message :: string
  ru_expected :: "json list"
  ru_replacement :: "json list"

definition text_le :: "string \<Rightarrow> string \<Rightarrow> bool" where
  "text_le a b \<longleftrightarrow> a \<le> b"

definition object_rows :: "string \<Rightarrow> string \<Rightarrow> mail_store \<Rightarrow> message list" where
  "object_rows tenant key s = stable_sort (\<lambda>a b. text_le (m_id a) (m_id b))
     (filter (\<lambda>m. m_tenant m = tenant \<and> source_matches key m) (messages (ms_db s)))"

definition binding_of_row :: "string \<Rightarrow> string \<Rightarrow> mail_store \<Rightarrow> message \<Rightarrow> repair_binding option" where
  "binding_of_row bucket key s m =
     (case find (source_row (m_tenant m) (m_id m)) (ms_sources s) of
        None \<Rightarrow> None
      | Some p \<Rightarrow>
          if pv_bucket p = bucket \<and> pv_object_key p = key \<and> hex64 (pv_raw_sha256 p)
          then Some \<lparr> rb_tenant = m_tenant m, rb_message = m_id m, rb_attachments = m_attachments m,
                      rb_provenance = p \<rparr>
          else None)"

definition all_some :: "'a option list \<Rightarrow> 'a list option" where
  "all_some xs = (if None \<in> set xs then None else Some (map the xs))"

abbreviation incomplete_bindings :: store_error where
  "incomplete_bindings \<equiv> Store_Error
     ''attachment repair complete binding provenance is missing or conflicts with the canonical object''"

definition listAttachmentRepairBindingsInTransaction ::
    "string \<Rightarrow> string \<Rightarrow> mail_store \<Rightarrow> store_error + repair_binding list" where
  "listAttachmentRepairBindingsInTransaction bucket key s =
     (let ids = stable_sort text_le (map t_id (tenants (ms_db s)));
          rows = concat (map (\<lambda>t. object_rows t key s) ids)
      in case all_some (map (binding_of_row bucket key s) rows) of
           None \<Rightarrow> Inl incomplete_bindings
         | Some bs \<Rightarrow> Inr bs)"

definition listAttachmentRepairBindings ::
    "scope \<Rightarrow> string \<Rightarrow> string \<Rightarrow> mail_store \<Rightarrow> store_error + repair_binding list" where
  "listAttachmentRepairBindings sc bucket key s =
     (if bucket = [] \<or> key = [] \<or> \<not> sc_atomic sc
      then Inl (Store_Error ''global attachment binding discovery requires a transactional store'')
      else listAttachmentRepairBindingsInTransaction bucket key s)"

section \<open>Snapshots\<close>

fun established_via_text :: "established_via \<Rightarrow> string" where
  "established_via_text normal_ingest = ''normal_ingest''"
| "established_via_text canonical_replay = ''canonical_replay''"

definition provenance_json :: "provenance \<Rightarrow> json" where
  "provenance_json p = JObj
     [(''tenant_id'', JStr (pv_tenant p)), (''message_id'', JStr (pv_message p)),
      (''bucket'', JStr (pv_bucket p)), (''object_key'', JStr (pv_object_key p)),
      (''raw_sha256'', JStr (pv_raw_sha256 p)),
      (''established_via'', JStr (established_via_text (pv_established_via p)))]"

definition identity_text :: "string \<Rightarrow> string \<Rightarrow> string" where
  "identity_text tenant i = tenant @ [char_of (0 :: nat)] @ i"

definition binding_identity :: "repair_binding \<Rightarrow> string" where
  "binding_identity b = identity_text (rb_tenant b) (rb_message b)"

definition repairBindingSnapshot :: "(string \<Rightarrow> string \<Rightarrow> bool) \<Rightarrow> repair_binding list \<Rightarrow> string" where
  "repairBindingSnapshot le bs = canonicalJson le (JArr (map (\<lambda>b. JObj
     [(''tenantId'', JStr (rb_tenant b)), (''messageId'', JStr (rb_message b)),
      (''attachments'', JArr (rb_attachments b)), (''provenance'', provenance_json (rb_provenance b))])
     (stable_sort (\<lambda>a b. le (binding_identity a) (binding_identity b)) bs)))"

section \<open>Compare-and-swap\<close>

text \<open>
  The \<open>UPDATE\<close> of one row: it matches by id, tenant and object key, only where the source
  row names the same object and digest and the attachments are still the expected ones;
  nothing but the attachments is written.
\<close>

definition swap_matches :: "string \<Rightarrow> string \<Rightarrow> string \<Rightarrow> string \<Rightarrow> string \<Rightarrow> json list
    \<Rightarrow> mail_store \<Rightarrow> message \<Rightarrow> bool" where
  "swap_matches tenant i key bucket sha expected s m \<longleftrightarrow>
     m_id m = i \<and> m_tenant m = tenant \<and> source_matches key m
     \<and> (\<exists>p \<in> set (ms_sources s). source_row tenant i p \<and> same_object bucket key sha p)
     \<and> jsonb_eq (JArr (m_attachments m)) (JArr expected)"

definition swap_attachments :: "(message \<Rightarrow> bool) \<Rightarrow> json list \<Rightarrow> mail_store \<Rightarrow> mail_store" where
  "swap_attachments P replacement s =
     s\<lparr>ms_db := fst (update_message P (\<lambda>m. m\<lparr>m_attachments := replacement\<rparr>) (ms_db s))\<rparr>"

definition replaceAttachmentPayload :: "scope \<Rightarrow> string \<Rightarrow> string \<Rightarrow> provenance \<Rightarrow> json list
    \<Rightarrow> json list \<Rightarrow> mail_store \<Rightarrow> mail_store \<times> bool" where
  "replaceAttachmentPayload sc i key p expected replacement s =
     (if i = [] \<or> key = [] then (s, False)
      else
        (let P = swap_matches (sc_tenant sc) i key (pv_bucket p) (pv_raw_sha256 p) expected s
         in (swap_attachments P replacement s, \<exists>m \<in> set (messages (ms_db s)). P m)))"

text \<open>
  The loop over the updates of one transaction: \<open>Inr False\<close> when a row changed
  concurrently, \<open>Inl\<close> for an error that is thrown on.
\<close>

definition apply_update :: "(string \<Rightarrow> string \<Rightarrow> bool) \<Rightarrow> repair_binding list \<Rightarrow> string
    \<Rightarrow> repair_update \<Rightarrow> mail_store \<Rightarrow> bool mail_outcome" where
  "apply_update le expected key u s =
     (case find (\<lambda>b. rb_tenant b = ru_tenant u \<and> rb_message b = ru_message u) expected of
        None \<Rightarrow> (s, Inl (Store_Error ''attachment repair update is outside the expected binding set''))
      | Some b \<Rightarrow>
          if canonicalJson le (JArr (ru_expected u)) = canonicalJson le (JArr (ru_replacement u))
          then (s, Inr True)
          else
            (let P = swap_matches (ru_tenant u) (ru_message u) key (pv_bucket (rb_provenance b))
                       (pv_raw_sha256 (rb_provenance b)) (ru_expected u) s
             in if length (filter P (messages (ms_db s))) \<noteq> 1 then (s, Inr False)
                else (swap_attachments P (ru_replacement u) s, Inr True)))"

fun apply_updates :: "(string \<Rightarrow> string \<Rightarrow> bool) \<Rightarrow> repair_binding list \<Rightarrow> string
    \<Rightarrow> repair_update list \<Rightarrow> mail_store \<Rightarrow> bool mail_outcome" where
  "apply_updates le expected key [] s = (s, Inr True)"
| "apply_updates le expected key (u # us) s =
     (case apply_update le expected key u s of
        (s', Inr True) \<Rightarrow> apply_updates le expected key us s'
      | r \<Rightarrow> r)"

definition replace_action :: "(string \<Rightarrow> string \<Rightarrow> bool) \<Rightarrow> repair_binding list \<Rightarrow> repair_update list
    \<Rightarrow> string \<Rightarrow> string \<Rightarrow> mail_store \<Rightarrow> bool mail_outcome" where
  "replace_action le expected updates bucket key s =
     (case listAttachmentRepairBindingsInTransaction bucket key s of
        Inl e \<Rightarrow> (s, Inl e)
      | Inr current \<Rightarrow>
          if repairBindingSnapshot le current \<noteq> repairBindingSnapshot le expected then (s, Inr False)
          else apply_updates le expected key updates s)"

definition update_identity :: "repair_update \<Rightarrow> string" where
  "update_identity u = identity_text (ru_tenant u) (ru_message u)"

definition updates_fit :: "repair_binding list \<Rightarrow> repair_update list \<Rightarrow> string \<Rightarrow> string \<Rightarrow> bool" where
  "updates_fit expected updates bucket key \<longleftrightarrow>
     distinct (map binding_identity expected)
     \<and> (\<forall>b \<in> set expected. pv_object_key (rb_provenance b) = key)
     \<and> (\<forall>b \<in> set expected. pv_bucket (rb_provenance b) = bucket)
     \<and> distinct (map update_identity updates)
     \<and> length updates = length expected
     \<and> (\<forall>b \<in> set expected. binding_identity b \<in> set (map update_identity updates))"

text \<open>
  \<open>aborts\<close>: PostgreSQL ends the serializable transaction with code 40001.  The thrown
  change error and that abort both roll back and answer false.
\<close>

definition replaceAttachmentPayloadsAtomically :: "scope \<Rightarrow> (string \<Rightarrow> string \<Rightarrow> bool) \<Rightarrow> bool
    \<Rightarrow> repair_binding list \<Rightarrow> repair_update list \<Rightarrow> mail_store \<Rightarrow> bool mail_outcome" where
  "replaceAttachmentPayloadsAtomically sc le aborts expected updates s =
     (case expected of
        [] \<Rightarrow> (s, Inr False)
      | b # _ \<Rightarrow>
          if \<not> sc_atomic sc then (s, Inr False)
          else
            (let key = pv_object_key (rb_provenance b); bucket = pv_bucket (rb_provenance b) in
             if \<not> updates_fit expected updates bucket key \<or> aborts then (s, Inr False)
             else (case replace_action le expected updates bucket key s of
                     (s', Inr True) \<Rightarrow> (s', Inr True)
                   | (s', Inr False) \<Rightarrow> (s, Inr False)
                   | (s', Inl e) \<Rightarrow> (s, Inl e))))"

section \<open>Repair state and audit\<close>

definition getAttachmentRepairState :: "scope \<Rightarrow> string \<Rightarrow> string \<Rightarrow> mail_store
    \<Rightarrow> (json list \<times> provenance option) option" where
  "getAttachmentRepairState sc i key s =
     (if i = [] \<or> key = [] then None
      else map_option (\<lambda>m. (m_attachments m,
             (case find (source_row (sc_tenant sc) i) (ms_sources s) of
                Some p \<Rightarrow> if pv_tenant p \<noteq> [] \<and> pv_bucket p \<noteq> [] \<and> pv_object_key p \<noteq> [] \<and> pv_raw_sha256 p \<noteq> []
                          then Some p else None
              | None \<Rightarrow> None)))
           (find (\<lambda>m. m_id m = i \<and> m_tenant m = sc_tenant sc \<and> source_matches key m) (messages (ms_db s))))"

record audit_result =
  au_since :: int
  au_tenants_scanned :: nat
  au_candidate_messages :: nat
  au_valid_provenance :: nat
  au_missing_provenance :: nat
  au_invalid_provenance :: nat

definition audit_candidate :: "int \<Rightarrow> string \<Rightarrow> message \<Rightarrow> bool" where
  "audit_candidate since tenant m \<longleftrightarrow>
     m_tenant m = tenant \<and> js_lower (m_direction m) \<noteq> ''outbound''
     \<and> m_source_id m \<noteq> None \<and> m_source_id m \<noteq> Some [] \<and> m_message_id m = m_source_id m
     \<and> since \<le> m_created_at m"

definition audit_source :: "mail_store \<Rightarrow> message \<Rightarrow> provenance option" where
  "audit_source s m = find (source_row (m_tenant m) (m_id m)) (ms_sources s)"

definition audit_valid :: "string \<Rightarrow> message \<Rightarrow> provenance \<Rightarrow> bool" where
  "audit_valid bucket m p \<longleftrightarrow>
     pv_bucket p = bucket \<and> Some (pv_object_key p) = m_source_id m \<and> hex64 (pv_raw_sha256 p)"

text \<open>\<open>since\<close> is the parsed cutoff, \<open>None\<close> when \<open>Date\<close> cannot read it.\<close>

definition auditInboundSourceProvenance :: "scope \<Rightarrow> int option \<Rightarrow> string \<Rightarrow> mail_store
    \<Rightarrow> store_error + audit_result" where
  "auditInboundSourceProvenance sc since bucket s =
     (case since of
        None \<Rightarrow> Inl (Store_Error ''inbound provenance audit requires a valid cutoff and canonical bucket'')
      | Some cutoff \<Rightarrow>
          if bucket = [] then Inl (Store_Error ''inbound provenance audit requires a valid cutoff and canonical bucket'')
          else if \<not> sc_atomic sc
          then Inl (Store_Error ''all-tenant inbound provenance audit requires a transactional store'')
          else
            (let ids = map t_id (tenants (ms_db s));
                 cands = concat (map (\<lambda>t. filter (audit_candidate cutoff t) (messages (ms_db s))) ids)
             in Inr \<lparr> au_since = cutoff, au_tenants_scanned = length ids,
                      au_candidate_messages = length cands,
                      au_valid_provenance = length (filter (\<lambda>m. case audit_source s m of
                         None \<Rightarrow> False | Some p \<Rightarrow> audit_valid bucket m p) cands),
                      au_missing_provenance = length (filter (\<lambda>m. audit_source s m = None) cands),
                      au_invalid_provenance = length (filter (\<lambda>m. case audit_source s m of
                         None \<Rightarrow> False | Some p \<Rightarrow> \<not> audit_valid bucket m p) cands) \<rparr>))"

end
