(* ===== verification/Repair_Manifest.thy ===== *)
theory Repair_Manifest
  imports Repair_Store
begin

text \<open>
  The manifest of an attachment-repair run (src/server/self-hosted/store.ts): the repair
  policy, the normalisation of the entries a caller submits, the inventory of repairable
  attachments read from the tenant's rows, the snapshot of the canaries and the hash that
  identifies a request.
\<close>

section \<open>Constants, policy and errors\<close>

definition MAX_ATTACHMENT_REPAIR_MANIFEST_ITEMS :: nat where
  "MAX_ATTACHMENT_REPAIR_MANIFEST_ITEMS = 200"

definition MAX_ATTACHMENT_REPAIR_PAGE_ITEMS :: nat where
  "MAX_ATTACHMENT_REPAIR_PAGE_ITEMS = 25"

definition MAX_ATTACHMENT_REPAIR_ATTEMPTS :: nat where
  "MAX_ATTACHMENT_REPAIR_ATTEMPTS = 3"

definition MAX_ATTACHMENT_REPAIR_SOURCE_BYTES :: int where
  "MAX_ATTACHMENT_REPAIR_SOURCE_BYTES = 128 * 1024 * 1024"

definition ATTACHMENT_REPAIR_LEASE_MS :: int where
  "ATTACHMENT_REPAIR_LEASE_MS = 15 * 60 * 1000"

definition ATTACHMENT_REPAIR_RETRY_BASE_MS :: int where
  "ATTACHMENT_REPAIR_RETRY_BASE_MS = 5000"

definition ATTACHMENT_REPAIR_RETRY_MAX_MS :: int where
  "ATTACHMENT_REPAIR_RETRY_MAX_MS = 5 * 60 * 1000"

datatype quota_code = active_runs | ledger_runs | ledger_entries

datatype repair_error =
    RE_Range string
  | RE_Review_Mismatch
  | RE_Idempotency_Conflict
  | RE_Quota quota_code bool
  | RE_Error string

record repair_policy =
  rp_maxActiveRunsPerTenant :: int
  rp_maxLedgerRunsPerTenant :: int
  rp_maxLedgerEntriesPerTenant :: int
  rp_runByteBudget :: int
  rp_runTimeBudgetMs :: int

definition DEFAULT_ATTACHMENT_REPAIR_POLICY :: repair_policy where
  "DEFAULT_ATTACHMENT_REPAIR_POLICY = \<lparr> rp_maxActiveRunsPerTenant = 2, rp_maxLedgerRunsPerTenant = 100,
     rp_maxLedgerEntriesPerTenant = 20000, rp_runByteBudget = 512 * 1024 * 1024,
     rp_runTimeBudgetMs = 60 * 60 * 1000 \<rparr>"

definition safe_integer :: "int \<Rightarrow> bool" where
  "safe_integer v \<longleftrightarrow> - 9007199254740991 \<le> v \<and> v \<le> 9007199254740991"

text \<open>The overrides are the values given by name; the last of equal names counts.\<close>

definition policy_fields :: "repair_policy \<Rightarrow> (string \<times> int) list" where
  "policy_fields p = [(''maxActiveRunsPerTenant'', rp_maxActiveRunsPerTenant p),
     (''maxLedgerRunsPerTenant'', rp_maxLedgerRunsPerTenant p),
     (''maxLedgerEntriesPerTenant'', rp_maxLedgerEntriesPerTenant p),
     (''runByteBudget'', rp_runByteBudget p), (''runTimeBudgetMs'', rp_runTimeBudgetMs p)]"

definition override :: "(string \<Rightarrow> int option) \<Rightarrow> repair_policy \<Rightarrow> repair_policy" where
  "override given p =
     \<lparr> rp_maxActiveRunsPerTenant = or_default (given ''maxActiveRunsPerTenant'') (rp_maxActiveRunsPerTenant p),
       rp_maxLedgerRunsPerTenant = or_default (given ''maxLedgerRunsPerTenant'') (rp_maxLedgerRunsPerTenant p),
       rp_maxLedgerEntriesPerTenant = or_default (given ''maxLedgerEntriesPerTenant'') (rp_maxLedgerEntriesPerTenant p),
       rp_runByteBudget = or_default (given ''runByteBudget'') (rp_runByteBudget p),
       rp_runTimeBudgetMs = or_default (given ''runTimeBudgetMs'') (rp_runTimeBudgetMs p) \<rparr>"

definition attachmentRepairPolicy :: "(string \<Rightarrow> int option) \<Rightarrow> repair_error + repair_policy" where
  "attachmentRepairPolicy overrides =
     (let policy = override overrides DEFAULT_ATTACHMENT_REPAIR_POLICY in
      case find (\<lambda>(k, v). \<not> safe_integer v \<or> v \<le> 0) (policy_fields policy) of
        Some (k, v) \<Rightarrow> Inl (RE_Range (''attachment repair policy '' @ k @ '' must be a positive safe integer''))
      | None \<Rightarrow>
          if rp_maxLedgerRunsPerTenant policy < rp_maxActiveRunsPerTenant policy
          then Inl (RE_Range ''attachment repair active-run quota cannot exceed the run-ledger quota'')
          else Inr policy)"

section \<open>Normalising the entries\<close>

record manifest_entry =
  me_object_key :: string
  me_recipients :: "string list"
  me_canary_message_ids :: "string list"

definition json_keys :: "json \<Rightarrow> string list" where
  "json_keys v = (case v of JObj fs \<Rightarrow> js_unique (map fst fs) | JArr xs \<Rightarrow> map nat_text [0..<length xs] | _ \<Rightarrow> [])"

definition is_object :: "json \<Rightarrow> bool" where
  "is_object v \<longleftrightarrow> (case v of JObj _ \<Rightarrow> True | JArr _ \<Rightarrow> True | _ \<Rightarrow> False)"

text \<open>The texts of an array that holds only non-blank strings, \<open>None\<close> otherwise.\<close>

definition non_blank_texts :: "json option \<Rightarrow> string list option" where
  "non_blank_texts v =
     (case v of
        Some (JArr xs) \<Rightarrow> all_some (map (\<lambda>x. case x of JStr s \<Rightarrow> if js_trim s = [] then None else Some s | _ \<Rightarrow> None) xs)
      | _ \<Rightarrow> None)"

definition manifest_entry_of :: "json \<Rightarrow> repair_error + manifest_entry" where
  "manifest_entry_of v =
     (let unsupported = filter (\<lambda>k. k \<notin> {''object_key'', ''recipients'', ''canary_message_ids''}) (json_keys v) in
      if \<not> is_object v then Inl (RE_Range ''attachment repair manifest entries must be objects'')
      else if unsupported \<noteq> []
      then Inl (RE_Range (''attachment repair manifest contains unsupported fields: '' @ join_texts '', '' unsupported))
      else
        (case non_blank_texts (json_key v ''recipients'') of
           None \<Rightarrow> Inl (RE_Range ''attachment repair recipients must contain only non-empty strings'')
         | Some recipients \<Rightarrow>
             (case non_blank_texts (json_key v ''canary_message_ids'') of
                None \<Rightarrow> Inl (RE_Range ''attachment repair canary_message_ids must contain only non-empty strings'')
              | Some canaries \<Rightarrow>
                  (let key = (case json_key v ''object_key'' of Some (JStr s) \<Rightarrow> js_trim s | _ \<Rightarrow> []);
                       rs = js_unique (map js_trim recipients);
                       cs = map js_trim canaries
                   in if key = [] \<or> rs = [] \<or> cs = []
                      then Inl (RE_Range ''each attachment repair entry requires an object_key, recipients, and canary_message_ids'')
                      else Inr \<lparr> me_object_key = key, me_recipients = rs, me_canary_message_ids = cs \<rparr>))))"

fun normalize_entries :: "string list \<Rightarrow> string list \<Rightarrow> json list \<Rightarrow> repair_error + manifest_entry list" where
  "normalize_entries keys ids [] = Inr []"
| "normalize_entries keys ids (v # vs) =
     (case manifest_entry_of v of
        Inl e \<Rightarrow> Inl e
      | Inr e \<Rightarrow>
          if me_object_key e \<in> set keys
          then Inl (RE_Range ''attachment repair manifest rejects duplicate object_key values'')
          else if \<not> distinct (me_canary_message_ids e) \<or> set (me_canary_message_ids e) \<inter> set ids \<noteq> {}
          then Inl (RE_Range ''attachment repair manifest rejects duplicate canary message ids'')
          else (case normalize_entries (me_object_key e # keys) (me_canary_message_ids e @ ids) vs of
                  Inl x \<Rightarrow> Inl x | Inr es \<Rightarrow> Inr (e # es)))"

definition normalizeAttachmentRepairManifestEntries :: "json list \<Rightarrow> repair_error + manifest_entry list" where
  "normalizeAttachmentRepairManifestEntries vs =
     (if vs = [] \<or> MAX_ATTACHMENT_REPAIR_MANIFEST_ITEMS < length vs
      then Inl (RE_Range (''attachment repair manifest must contain 1-''
                 @ nat_text MAX_ATTACHMENT_REPAIR_MANIFEST_ITEMS @ '' entries''))
      else normalize_entries [] [] vs)"

section \<open>Inventory of the tenant's rows\<close>

text \<open>\<open>jsonb_typeof(v -> k)\<close> is \<open>'string'\<close>; the size check of the metadata.\<close>

definition text_key :: "json \<Rightarrow> string \<Rightarrow> bool" where
  "text_key v k \<longleftrightarrow> (case json_key v k of Some (JStr _) \<Rightarrow> True | _ \<Rightarrow> False)"

definition size_key_ok :: "json \<Rightarrow> bool" where
  "size_key_ok v \<longleftrightarrow> (case json_key v ''size'' of Some (JNum n) \<Rightarrow> 0 \<le> n \<and> n \<le> 9007199254740991 | _ \<Rightarrow> False)"

definition metadata_row_valid :: "json \<Rightarrow> bool" where
  "metadata_row_valid v \<longleftrightarrow>
     (case v of JObj _ \<Rightarrow> text_key v ''filename'' \<and> text_key v ''content_type'' \<and> size_key_ok v | _ \<Rightarrow> False)"

definition without_content :: "json \<Rightarrow> json" where
  "without_content v = (case v of JObj fs \<Rightarrow> JObj (filter (\<lambda>f. fst f \<noteq> ''content_base64'') fs) | _ \<Rightarrow> v)"

definition payload_missing :: "json \<Rightarrow> bool" where
  "payload_missing v \<longleftrightarrow> \<not> text_key v ''content_base64''"

record inventory_row =
  iv_id :: string
  iv_object_key :: string
  iv_state :: "json list"
  iv_attachment_count :: nat
  iv_metadata_valid :: bool
  iv_repairable :: bool

definition inventory_of :: "string \<Rightarrow> message \<Rightarrow> inventory_row" where
  "inventory_of key m =
     \<lparr> iv_id = m_id m, iv_object_key = key,
       iv_state = map without_content (m_attachments m),
       iv_attachment_count = length (filter payload_missing (m_attachments m)),
       iv_metadata_valid = (m_attachments m \<noteq> [] \<and> (\<forall>v \<in> set (m_attachments m). metadata_row_valid v)),
       iv_repairable = (\<exists>v \<in> set (m_attachments m). payload_missing v) \<rparr>"

definition inventory_rows :: "scope \<Rightarrow> string \<Rightarrow> string list \<Rightarrow> mail_store \<Rightarrow> inventory_row list" where
  "inventory_rows sc bucket keys s =
     concat (map (\<lambda>m. map (\<lambda>p. inventory_of (pv_object_key p) m)
         (filter (\<lambda>p. source_row (m_tenant m) (m_id m) p \<and> pv_bucket p = bucket \<and> pv_object_key p \<in> set keys)
            (ms_sources s)))
       (filter (\<lambda>m. m_tenant m = sc_tenant sc) (messages (ms_db s))))"

record ledger_entry =
  le_entry :: manifest_entry
  le_position :: nat
  le_attachment_count :: nat

record canary_snapshot =
  cs_tenant_id :: string
  cs_message_id :: string
  cs_object_key :: string
  cs_attachments :: "json list"

abbreviation canary_mismatch :: repair_error where
  "canary_mismatch \<equiv> RE_Range ''attachment repair canaries must exactly match tenant-scoped canonical object bindings''"

abbreviation not_repairable :: repair_error where
  "not_repairable \<equiv> RE_Range ''each attachment repair canary must have a repairable attachment inventory''"

definition prepare_entry :: "inventory_row list \<Rightarrow> nat \<Rightarrow> manifest_entry \<Rightarrow> repair_error + ledger_entry" where
  "prepare_entry inventory position e =
     (let rows = filter (\<lambda>r. iv_object_key r = me_object_key e) inventory;
          actual = js_unique (map iv_id rows)
      in if \<not> (length actual = length rows \<and> length actual = length (me_canary_message_ids e)
                \<and> (\<forall>i \<in> set (me_canary_message_ids e). i \<in> set actual))
         then Inl canary_mismatch
         else if \<exists>r \<in> set rows. iv_attachment_count r = 0 \<or> \<not> iv_metadata_valid r \<or> \<not> iv_repairable r
         then Inl not_repairable
         else Inr \<lparr> le_entry = e, le_position = position,
                    le_attachment_count = sum_list (map iv_attachment_count rows) \<rparr>)"

fun prepare_entries :: "inventory_row list \<Rightarrow> nat \<Rightarrow> manifest_entry list \<Rightarrow> repair_error + ledger_entry list" where
  "prepare_entries inventory position [] = Inr []"
| "prepare_entries inventory position (e # es) =
     (case prepare_entry inventory position e of
        Inl x \<Rightarrow> Inl x
      | Inr l \<Rightarrow> (case prepare_entries inventory (Suc position) es of Inl x \<Rightarrow> Inl x | Inr ls \<Rightarrow> Inr (l # ls)))"

definition snapshot_of :: "scope \<Rightarrow> inventory_row list \<Rightarrow> manifest_entry \<Rightarrow> string \<Rightarrow> canary_snapshot option" where
  "snapshot_of sc inventory e i =
     map_option (\<lambda>r. \<lparr> cs_tenant_id = sc_tenant sc, cs_message_id = i, cs_object_key = me_object_key e,
                      cs_attachments = iv_state r \<rparr>)
       (find (\<lambda>r. identity_text (iv_object_key r) (iv_id r) = identity_text (me_object_key e) i) (rev inventory))"

definition prepareAttachmentRepairManifest :: "scope \<Rightarrow> string \<Rightarrow> manifest_entry list \<Rightarrow> mail_store
    \<Rightarrow> repair_error + ledger_entry list \<times> canary_snapshot list" where
  "prepareAttachmentRepairManifest sc bucket entries s =
     (let inventory = inventory_rows sc bucket (map me_object_key entries) s in
      case prepare_entries inventory 0 entries of
        Inl x \<Rightarrow> Inl x
      | Inr ls \<Rightarrow>
          (case all_some (concat (map (\<lambda>e. map (snapshot_of sc inventory e) (me_canary_message_ids e)) entries)) of
             None \<Rightarrow> Inl canary_mismatch
           | Some snaps \<Rightarrow> Inr (ls, snaps)))"

section \<open>The request hash\<close>

definition manifest_entry_json :: "manifest_entry \<Rightarrow> json" where
  "manifest_entry_json e = JObj
     [(''object_key'', JStr (me_object_key e)), (''recipients'', JArr (map JStr (me_recipients e))),
      (''canary_message_ids'', JArr (map JStr (me_canary_message_ids e)))]"

definition snapshot_json :: "canary_snapshot \<Rightarrow> json" where
  "snapshot_json c = JObj
     [(''tenant_id'', JStr (cs_tenant_id c)), (''message_id'', JStr (cs_message_id c)),
      (''object_key'', JStr (cs_object_key c)),
      (''attachments'', JArr (map (\<lambda>(i, a). JObj [(''attachment_index'', JNum (int i)),
          (''metadata'', attachmentMetadataOnly a)]) (enumerate 0 (cs_attachments c))))]"

definition attachmentRepairRequestHash :: "scope \<Rightarrow> (string \<Rightarrow> string \<Rightarrow> bool) \<Rightarrow> string
    \<Rightarrow> manifest_entry list \<Rightarrow> bool \<Rightarrow> canary_snapshot list \<Rightarrow> string" where
  "attachmentRepairRequestHash sc le bucket entries app snaps =
     sc_sha256 sc (units_of (canonicalJson le (JObj
       [(''apply'', JBool app), (''canonical_bucket'', JStr bucket),
        (''entries'', JArr (map manifest_entry_json entries)),
        (''canary_attachment_state'', JArr (map snapshot_json snaps))])))"

end
