(* ===== verification/Repair_Ledger.thy ===== *)
theory Repair_Ledger
  imports Repair_Manifest
begin

text \<open>
  The attachment-repair ledger (src/server/self-hosted/store.ts, tables of migration
  0020): runs, their entries and the idempotency keys bound to them; creating a run or
  finding its replay, leasing an entry, recording its outcome, and the reconciliation of a
  run's totals.  Each method runs in one transaction under advisory locks of the tenant
  and is one atomic function here.  \<open>now\<close> is the clock of the database, \<open>wall\<close> that of
  the worker; fresh UUIDs are arguments.
\<close>

section \<open>Tables\<close>

datatype run_state = run_pending | run_completed
datatype entry_status = es_pending | es_would_repair | es_repaired | es_unavailable

record repair_run =
  run_tenant :: string
  run_id :: string
  run_key_hash :: string
  run_request_hash :: string
  run_apply :: bool
  run_status :: run_state
  run_entry_total :: nat
  run_inventory_total :: nat
  run_repaired :: nat
  run_would_repair :: nat
  run_unavailable :: nat
  run_operator_action :: nat
  run_pending_total :: nat
  run_retrying :: nat
  run_entry_repaired :: nat
  run_entry_would_repair :: nat
  run_entry_unavailable :: nat
  run_entry_operator_action :: nat
  run_entry_pending :: nat
  run_entry_retrying :: nat
  run_attempts :: nat
  run_checkpoint :: nat
  run_byte_budget :: int
  run_bytes_consumed :: int
  run_time_budget_ms :: int
  run_deadline_at :: int
  run_created_at :: int
  run_updated_at :: int
  run_completed_at :: "int option"

record repair_entry =
  re_tenant :: string
  re_run :: string
  re_position :: nat
  re_object_key :: string
  re_recipients :: "string list"
  re_canary_message_ids :: "string list"
  re_attachment_count :: nat
  re_status :: entry_status
  re_operator_action :: bool
  re_attempts :: nat
  re_last_error_code :: "string option"
  re_last_attempt_at :: "int option"
  re_next_attempt_at :: int
  re_claim_token :: "string option"
  re_lease_expires_at :: "int option"
  re_reserved_bytes :: int
  re_updated_at :: int

record repair_alias =
  ra_tenant :: string
  ra_key_hash :: string
  ra_request_hash :: string
  ra_run :: string

record repair_ledger =
  lg_runs :: "repair_run list"
  lg_aliases :: "repair_alias list"
  lg_entries :: "repair_entry list"

type_synonym 'a ledger_outcome = "repair_ledger \<times> (repair_error + 'a)"

abbreviation run_row :: "string \<Rightarrow> string \<Rightarrow> repair_run \<Rightarrow> bool" where
  "run_row tenant i r \<equiv> run_tenant r = tenant \<and> run_id r = i"

abbreviation entry_row :: "string \<Rightarrow> string \<Rightarrow> repair_entry \<Rightarrow> bool" where
  "entry_row tenant i e \<equiv> re_tenant e = tenant \<and> re_run e = i"

definition run_entries :: "string \<Rightarrow> string \<Rightarrow> repair_ledger \<Rightarrow> repair_entry list" where
  "run_entries tenant i L = filter (entry_row tenant i) (lg_entries L)"

definition update_runs :: "(repair_run \<Rightarrow> bool) \<Rightarrow> (repair_run \<Rightarrow> repair_run) \<Rightarrow> repair_ledger \<Rightarrow> repair_ledger" where
  "update_runs P f L = L\<lparr>lg_runs := map (\<lambda>r. if P r then f r else r) (lg_runs L)\<rparr>"

definition update_entries :: "(repair_entry \<Rightarrow> bool) \<Rightarrow> (repair_entry \<Rightarrow> repair_entry)
    \<Rightarrow> repair_ledger \<Rightarrow> repair_ledger" where
  "update_entries P f L = L\<lparr>lg_entries := map (\<lambda>e. if P e then f e else e) (lg_entries L)\<rparr>"

section \<open>Transactions\<close>

definition ledger_transaction :: "(repair_ledger \<Rightarrow> 'a ledger_outcome) \<Rightarrow> repair_ledger \<Rightarrow> 'a ledger_outcome" where
  "ledger_transaction f L = (case f L of (_, Inl e) \<Rightarrow> (L, Inl e) | (L', Inr r) \<Rightarrow> (L', Inr r))"

definition withAttachmentRepairLedgerLock ::
    "scope \<Rightarrow> (repair_ledger \<Rightarrow> 'a ledger_outcome) \<Rightarrow> repair_ledger \<Rightarrow> 'a ledger_outcome" where
  "withAttachmentRepairLedgerLock sc action L =
     (if sc_atomic sc then ledger_transaction action L
      else if sc_unsafe sc then action L
      else (L, Inl (RE_Error ''attachment repair ledger requires a transactional store'')))"

section \<open>Reconciliation of the totals\<close>

definition items :: "(repair_entry \<Rightarrow> bool) \<Rightarrow> repair_entry list \<Rightarrow> nat" where
  "items P es = sum_list (map re_attachment_count (filter P es))"

definition rows :: "(repair_entry \<Rightarrow> bool) \<Rightarrow> repair_entry list \<Rightarrow> nat" where
  "rows P es = length (filter P es)"

abbreviation has_status :: "entry_status \<Rightarrow> repair_entry \<Rightarrow> bool" where
  "has_status st e \<equiv> re_status e = st"

abbreviation retrying :: "repair_entry \<Rightarrow> bool" where
  "retrying e \<equiv> re_status e = es_pending \<and> 0 < re_attempts e"

definition first_pending :: "repair_entry list \<Rightarrow> nat option" where
  "first_pending es =
     (case map re_position (filter (has_status es_pending) es) of [] \<Rightarrow> None | p # ps \<Rightarrow> Some (foldl min p ps))"

definition reconciled :: "int \<Rightarrow> repair_entry list \<Rightarrow> repair_run \<Rightarrow> repair_run" where
  "reconciled now es r =
     r\<lparr>run_repaired := items (has_status es_repaired) es,
       run_would_repair := items (has_status es_would_repair) es,
       run_unavailable := items (has_status es_unavailable) es,
       run_operator_action := items re_operator_action es,
       run_pending_total := items (has_status es_pending) es,
       run_retrying := items retrying es,
       run_entry_repaired := rows (has_status es_repaired) es,
       run_entry_would_repair := rows (has_status es_would_repair) es,
       run_entry_unavailable := rows (has_status es_unavailable) es,
       run_entry_operator_action := rows re_operator_action es,
       run_entry_pending := rows (has_status es_pending) es,
       run_entry_retrying := rows retrying es,
       run_attempts := sum_list (map re_attempts es),
       run_checkpoint := or_default (first_pending es) (run_entry_total r),
       run_status := (if rows (has_status es_pending) es = 0 then run_completed else run_pending),
       run_completed_at := (if rows (has_status es_pending) es = 0
                            then Some (or_default (run_completed_at r) now) else None),
       run_updated_at := now\<rparr>"

definition reconcileAttachmentRepairRun :: "string \<Rightarrow> string \<Rightarrow> int \<Rightarrow> repair_ledger \<Rightarrow> repair_ledger" where
  "reconcileAttachmentRepairRun tenant i now L =
     update_runs (run_row tenant i) (reconciled now (run_entries tenant i L)) L"

section \<open>Entries nobody works on\<close>

text \<open>\<open>claim_token IS NULL OR lease_expires_at <= now()\<close>.\<close>

definition unleased :: "int \<Rightarrow> repair_entry \<Rightarrow> bool" where
  "unleased now e \<longleftrightarrow> re_claim_token e = None
     \<or> (case re_lease_expires_at e of None \<Rightarrow> False | Some t \<Rightarrow> t \<le> now)"

definition set_unavailable :: "int \<Rightarrow> string \<Rightarrow> repair_entry \<Rightarrow> repair_entry" where
  "set_unavailable now reason e =
     e\<lparr>re_status := es_unavailable, re_operator_action := True, re_last_error_code := Some reason,
       re_claim_token := None, re_lease_expires_at := None, re_reserved_bytes := 0, re_updated_at := now\<rparr>"

definition give_up :: "string \<Rightarrow> string \<Rightarrow> int \<Rightarrow> string \<Rightarrow> (repair_entry \<Rightarrow> bool) \<Rightarrow> repair_ledger \<Rightarrow> repair_ledger" where
  "give_up tenant i now reason P =
     update_entries (\<lambda>e. entry_row tenant i e \<and> re_status e = es_pending \<and> P e \<and> unleased now e)
       (set_unavailable now reason)"

definition give_up_all :: "string \<Rightarrow> string \<Rightarrow> int \<Rightarrow> string \<Rightarrow> repair_ledger \<Rightarrow> repair_ledger" where
  "give_up_all tenant i now reason L =
     reconcileAttachmentRepairRun tenant i now (give_up tenant i now reason (\<lambda>_. True) L)"

section \<open>Creating a run\<close>

definition repair_key_digest :: "scope \<Rightarrow> units \<Rightarrow> string" where
  "repair_key_digest sc key = sc_sha256 sc
     (units_of ''emails:attachment-repair:idempotency:v1'' @ [0] @ units_of (sc_tenant sc) @ [0] @ key)"

definition bind_alias :: "scope \<Rightarrow> string \<Rightarrow> string \<Rightarrow> string \<Rightarrow> repair_ledger \<Rightarrow> unit ledger_outcome" where
  "bind_alias sc digest i hash L =
     (case find (\<lambda>a. ra_tenant a = sc_tenant sc \<and> ra_key_hash a = digest) (lg_aliases L) of
        None \<Rightarrow> (L\<lparr>lg_aliases := lg_aliases L @ [\<lparr> ra_tenant = sc_tenant sc, ra_key_hash = digest,
                    ra_request_hash = hash, ra_run = i \<rparr>]\<rparr>, Inr ())
      | Some a \<Rightarrow> if ra_request_hash a = hash \<and> ra_run a = i then (L, Inr ())
                  else (L, Inl RE_Idempotency_Conflict))"

definition bound_run :: "scope \<Rightarrow> string \<Rightarrow> repair_run \<Rightarrow> repair_ledger \<Rightarrow> repair_run ledger_outcome" where
  "bound_run sc digest r L =
     (case bind_alias sc digest (run_id r) (run_request_hash r) L of
        (L', Inl e) \<Rightarrow> (L', Inl e) | (L', Inr _) \<Rightarrow> (L', Inr r))"

definition expired_runs :: "string \<Rightarrow> int \<Rightarrow> repair_ledger \<Rightarrow> string list" where
  "expired_runs tenant now L = map run_id (filter (\<lambda>r. run_tenant r = tenant
     \<and> run_status r = run_pending \<and> run_deadline_at r \<le> now) (lg_runs L))"

definition expire_runs :: "string \<Rightarrow> int \<Rightarrow> repair_ledger \<Rightarrow> repair_ledger" where
  "expire_runs tenant now L =
     fold (\<lambda>i. give_up_all tenant i now ''run_time_budget_exhausted'') (expired_runs tenant now L) L"

definition quota_error :: "scope \<Rightarrow> repair_policy \<Rightarrow> nat \<Rightarrow> repair_ledger \<Rightarrow> repair_error option" where
  "quota_error sc policy n L =
     (let own = filter (\<lambda>r. run_tenant r = sc_tenant sc) (lg_runs L) in
      if rp_maxActiveRunsPerTenant policy \<le> int (length (filter (\<lambda>r. run_status r = run_pending) own))
      then Some (RE_Quota active_runs True)
      else if rp_maxLedgerRunsPerTenant policy \<le> int (length own)
      then Some (RE_Quota ledger_runs False)
      else if rp_maxLedgerEntriesPerTenant policy < int (sum_list (map run_entry_total own) + n)
      then Some (RE_Quota ledger_entries False)
      else None)"

definition new_run :: "scope \<Rightarrow> repair_policy \<Rightarrow> int \<Rightarrow> string \<Rightarrow> string \<Rightarrow> string \<Rightarrow> bool
    \<Rightarrow> ledger_entry list \<Rightarrow> repair_run" where
  "new_run sc policy now fresh digest hash app ls =
     (let inventory = sum_list (map le_attachment_count ls) in
      \<lparr> run_tenant = sc_tenant sc, run_id = fresh, run_key_hash = digest, run_request_hash = hash,
        run_apply = app, run_status = run_pending, run_entry_total = length ls,
        run_inventory_total = inventory, run_repaired = 0, run_would_repair = 0, run_unavailable = 0,
        run_operator_action = 0, run_pending_total = inventory, run_retrying = 0,
        run_entry_repaired = 0, run_entry_would_repair = 0, run_entry_unavailable = 0,
        run_entry_operator_action = 0, run_entry_pending = length ls, run_entry_retrying = 0,
        run_attempts = 0, run_checkpoint = 0, run_byte_budget = rp_runByteBudget policy,
        run_bytes_consumed = 0, run_time_budget_ms = rp_runTimeBudgetMs policy,
        run_deadline_at = now + rp_runTimeBudgetMs policy, run_created_at = now,
        run_updated_at = now, run_completed_at = None \<rparr>)"

definition new_entry :: "scope \<Rightarrow> int \<Rightarrow> string \<Rightarrow> ledger_entry \<Rightarrow> repair_entry" where
  "new_entry sc now fresh l =
     \<lparr> re_tenant = sc_tenant sc, re_run = fresh, re_position = le_position l,
       re_object_key = me_object_key (le_entry l), re_recipients = me_recipients (le_entry l),
       re_canary_message_ids = me_canary_message_ids (le_entry l),
       re_attachment_count = le_attachment_count l, re_status = es_pending,
       re_operator_action = False, re_attempts = 0, re_last_error_code = None,
       re_last_attempt_at = None, re_next_attempt_at = now, re_claim_token = None,
       re_lease_expires_at = None, re_reserved_bytes = 0, re_updated_at = now \<rparr>"

text \<open>\<open>INSERT ... ON CONFLICT DO NOTHING\<close> of the run, its entries, and the raced branch.\<close>

definition run_conflict :: "repair_run \<Rightarrow> repair_run \<Rightarrow> bool" where
  "run_conflict r q \<longleftrightarrow> run_tenant q = run_tenant r
     \<and> (run_id q = run_id r \<or> run_key_hash q = run_key_hash r \<or> run_request_hash q = run_request_hash r)"

definition insert_run :: "scope \<Rightarrow> int \<Rightarrow> string \<Rightarrow> repair_run \<Rightarrow> ledger_entry list
    \<Rightarrow> repair_ledger \<Rightarrow> repair_run ledger_outcome" where
  "insert_run sc now digest r ls L =
     (if \<exists>q \<in> set (lg_runs L). run_conflict r q
      then (case find (\<lambda>q. run_tenant q = sc_tenant sc
                \<and> (run_key_hash q = digest \<or> run_request_hash q = run_request_hash r))
              (stable_sort (\<lambda>a b. run_request_hash a = run_request_hash r \<or> run_request_hash b \<noteq> run_request_hash r)
                 (lg_runs L)) of
              None \<Rightarrow> (L, Inl RE_Idempotency_Conflict)
            | Some raced \<Rightarrow> if run_request_hash raced \<noteq> run_request_hash r then (L, Inl RE_Idempotency_Conflict)
                             else bound_run sc digest raced L)
      else (case bound_run sc digest r (L\<lparr>lg_runs := lg_runs L @ [r]\<rparr>) of
              (L', Inl e) \<Rightarrow> (L', Inl e)
            | (L', Inr _) \<Rightarrow> (L'\<lparr>lg_entries := lg_entries L' @ map (new_entry sc now (run_id r)) ls\<rparr>, Inr r)))"

definition reviewed_ok :: "scope \<Rightarrow> string option \<Rightarrow> string \<Rightarrow> repair_ledger \<Rightarrow> bool" where
  "reviewed_ok sc reviewed hash L \<longleftrightarrow> (\<exists>r \<in> set (lg_runs L). run_tenant r = sc_tenant sc
     \<and> Some (run_id r) = reviewed \<and> run_request_hash r = hash \<and> \<not> run_apply r \<and> run_status r = run_completed)"

text \<open>
  What an earlier call left for this key or this request: \<open>Some\<close> result, or \<open>None\<close> when
  the run is new.  The last case of the alias is a key whose run no longer answers to it.
\<close>

definition earlier_run :: "scope \<Rightarrow> string \<Rightarrow> string \<Rightarrow> repair_ledger \<Rightarrow> (repair_run ledger_outcome) option" where
  "earlier_run sc digest hash L =
     (let alias = find (\<lambda>a. ra_tenant a = sc_tenant sc \<and> ra_key_hash a = digest) (lg_aliases L);
          from_alias = (case alias of None \<Rightarrow> None
             | Some a \<Rightarrow> find (run_row (sc_tenant sc) (ra_run a)) (lg_runs L));
          existing = find (\<lambda>r. run_tenant r = sc_tenant sc \<and> run_key_hash r = digest) (lg_runs L);
          duplicate = find (\<lambda>r. run_tenant r = sc_tenant sc \<and> run_request_hash r = hash) (lg_runs L)
      in if (case alias of None \<Rightarrow> False | Some a \<Rightarrow> ra_request_hash a \<noteq> hash)
         then Some (L, Inl RE_Idempotency_Conflict)
         else if (case from_alias of None \<Rightarrow> False | Some r \<Rightarrow> run_request_hash r = hash)
         then Some (L, Inr (the from_alias))
         else (case existing of
                 Some r \<Rightarrow> Some (if run_request_hash r \<noteq> hash then (L, Inl RE_Idempotency_Conflict)
                                 else bound_run sc digest r L)
               | None \<Rightarrow> map_option (\<lambda>r. bound_run sc digest r L) duplicate))"

record run_request =
  rr_key :: units
  rr_bucket :: string
  rr_apply :: bool
  rr_reviewed :: "string option"
  rr_entries :: "json list"

definition create_action :: "scope \<Rightarrow> (string \<Rightarrow> string \<Rightarrow> bool) \<Rightarrow> repair_policy \<Rightarrow> mail_store \<Rightarrow> int
    \<Rightarrow> string \<Rightarrow> string \<Rightarrow> manifest_entry list \<Rightarrow> bool \<Rightarrow> string option \<Rightarrow> string
    \<Rightarrow> repair_ledger \<Rightarrow> repair_run ledger_outcome" where
  "create_action sc le policy s now fresh bucket entries app reviewed digest L =
     (case prepareAttachmentRepairManifest sc bucket entries s of
        Inl e \<Rightarrow> (L, Inl e)
      | Inr (ls, snaps) \<Rightarrow>
          (let hash = attachmentRepairRequestHash sc le bucket entries app snaps in
           if app \<and> \<not> reviewed_ok sc reviewed (attachmentRepairRequestHash sc le bucket entries False snaps) L
           then (L, Inl RE_Review_Mismatch)
           else (case earlier_run sc digest hash L of
                   Some r \<Rightarrow> r
                 | None \<Rightarrow>
                     (let L' = expire_runs (sc_tenant sc) now L in
                      case quota_error sc policy (length entries) L' of
                        Some e \<Rightarrow> (L', Inl e)
                      | None \<Rightarrow> insert_run sc now digest (new_run sc policy now fresh digest hash app ls) ls L'))))"

definition createOrGetAttachmentRepairRun :: "scope \<Rightarrow> (string \<Rightarrow> string \<Rightarrow> bool) \<Rightarrow> repair_policy
    \<Rightarrow> mail_store \<Rightarrow> int \<Rightarrow> string \<Rightarrow> run_request \<Rightarrow> repair_ledger \<Rightarrow> repair_run ledger_outcome" where
  "createOrGetAttachmentRepairRun sc le policy s now fresh rq L =
     (let bucket = js_trim (rr_bucket rq);
          reviewed = map_option (\<lambda>t. js_lower (js_trim t)) (rr_reviewed rq)
      in if \<not> safe_send_intent_key (rr_key rq)
         then (L, Inl (RE_Range ''idempotency key must be 1-200 safe characters''))
         else if bucket = []
         then (L, Inl (RE_Range ''attachment repair requires the deployment canonical bucket''))
         else (case normalizeAttachmentRepairManifestEntries (rr_entries rq) of
                 Inl e \<Rightarrow> (L, Inl e)
               | Inr entries \<Rightarrow>
                   if rr_apply rq \<and> or_default reviewed [] = [] then (L, Inl RE_Review_Mismatch)
                   else withAttachmentRepairLedgerLock sc
                     (create_action sc le policy s now fresh bucket entries (rr_apply rq) reviewed
                        (repair_key_digest sc (rr_key rq))) L))"

definition attachmentRepairRunMatchesManifest :: "scope \<Rightarrow> (string \<Rightarrow> string \<Rightarrow> bool) \<Rightarrow> mail_store
    \<Rightarrow> string \<Rightarrow> string \<Rightarrow> bool \<Rightarrow> json list \<Rightarrow> repair_ledger \<Rightarrow> repair_error + bool" where
  "attachmentRepairRunMatchesManifest sc le s i bucket0 app vs L =
     (let bucket = js_trim bucket0 in
      if bucket = [] then Inl (RE_Range ''attachment repair requires the deployment canonical bucket'')
      else (case normalizeAttachmentRepairManifestEntries vs of
              Inl e \<Rightarrow> Inl e
            | Inr entries \<Rightarrow> snd (withAttachmentRepairLedgerLock sc (\<lambda>L.
                (L, case prepareAttachmentRepairManifest sc bucket entries s of
                      Inl (RE_Range _) \<Rightarrow> Inr False
                    | Inl e \<Rightarrow> Inl e
                    | Inr (_, snaps) \<Rightarrow> Inr (\<exists>r \<in> set (lg_runs L). run_row (sc_tenant sc) i r
                        \<and> run_request_hash r = attachmentRepairRequestHash sc le bucket entries app snaps
                        \<and> run_apply r = app))) L)))"

section \<open>Reading\<close>

definition getAttachmentRepairRun :: "scope \<Rightarrow> string \<Rightarrow> repair_ledger \<Rightarrow> repair_run option" where
  "getAttachmentRepairRun sc i L = find (run_row (sc_tenant sc) i) (lg_runs L)"

text \<open>\<open>ORDER BY next_attempt_at ASC, attempts ASC, position ASC\<close>.\<close>

definition entry_order :: "repair_entry \<Rightarrow> repair_entry \<Rightarrow> bool" where
  "entry_order a b \<longleftrightarrow>
     (re_next_attempt_at a, re_attempts a, re_position a) \<le> (re_next_attempt_at b, re_attempts b, re_position b)"

definition listPendingAttachmentRepairEntries :: "scope \<Rightarrow> string \<Rightarrow> int \<Rightarrow> repair_ledger
    \<Rightarrow> repair_error + repair_entry list" where
  "listPendingAttachmentRepairEntries sc i limit L =
     (if \<not> safe_integer limit \<or> limit \<le> 0 \<or> int MAX_ATTACHMENT_REPAIR_PAGE_ITEMS < limit
      then Inl (RE_Range (''attachment repair page limit must be between 1 and ''
                 @ nat_text MAX_ATTACHMENT_REPAIR_PAGE_ITEMS))
      else Inr (take (nat limit) (stable_sort entry_order
             (filter (has_status es_pending) (run_entries (sc_tenant sc) i L)))))"

section \<open>Leasing an entry\<close>

definition claimable :: "string \<Rightarrow> string \<Rightarrow> int \<Rightarrow> repair_entry \<Rightarrow> bool" where
  "claimable tenant i now e \<longleftrightarrow> entry_row tenant i e \<and> re_status e = es_pending
     \<and> re_attempts e < MAX_ATTACHMENT_REPAIR_ATTEMPTS \<and> re_next_attempt_at e \<le> now \<and> unleased now e"

definition set_claimed :: "int \<Rightarrow> string \<Rightarrow> int \<Rightarrow> int \<Rightarrow> repair_entry \<Rightarrow> repair_entry" where
  "set_claimed now token leaseMs reservation e =
     e\<lparr>re_attempts := re_attempts e + 1, re_last_attempt_at := Some now, re_claim_token := Some token,
       re_lease_expires_at := Some (now + leaseMs), re_reserved_bytes := reservation, re_updated_at := now\<rparr>"

definition charge :: "string \<Rightarrow> string \<Rightarrow> int \<Rightarrow> int \<Rightarrow> repair_ledger \<Rightarrow> repair_ledger" where
  "charge tenant i now reservation =
     update_runs (\<lambda>r. run_row tenant i r \<and> run_bytes_consumed r + reservation \<le> run_byte_budget r)
       (\<lambda>r. r\<lparr>run_bytes_consumed := run_bytes_consumed r + reservation, run_updated_at := now\<rparr>)"

definition claim_selected :: "scope \<Rightarrow> string \<Rightarrow> int \<Rightarrow> int \<Rightarrow> string \<Rightarrow> int \<Rightarrow> nat
    \<Rightarrow> repair_ledger \<Rightarrow> (repair_entry option) ledger_outcome" where
  "claim_selected sc i now leaseMs token reservation position L =
     (let tenant = sc_tenant sc;
          P = (\<lambda>e. entry_row tenant i e \<and> re_position e = position);
          L1 = charge tenant i now reservation L;
          L2 = update_entries P (set_claimed now token leaseMs reservation) L1
      in (reconcileAttachmentRepairRun tenant i now L2, Inr (find P (lg_entries L2))))"

definition claim_entry :: "scope \<Rightarrow> string \<Rightarrow> int \<Rightarrow> int \<Rightarrow> string \<Rightarrow> int
    \<Rightarrow> repair_ledger \<Rightarrow> (repair_entry option) ledger_outcome" where
  "claim_entry sc i now leaseMs token remaining L0 =
     (let tenant = sc_tenant sc;
          L = give_up tenant i now ''retry_exhausted''
                (\<lambda>e. MAX_ATTACHMENT_REPAIR_ATTEMPTS \<le> re_attempts e) L0
      in if \<not> safe_integer remaining \<or> remaining \<le> 0
         then (give_up_all tenant i now ''run_byte_budget_exhausted'' L, Inr None)
         else (case stable_sort entry_order (filter (claimable tenant i now) (lg_entries L)) of
                 [] \<Rightarrow> (reconcileAttachmentRepairRun tenant i now L, Inr None)
               | selected # _ \<Rightarrow> claim_selected sc i now leaseMs token
                   (min MAX_ATTACHMENT_REPAIR_SOURCE_BYTES remaining) (re_position selected) L))"

definition claim_run :: "scope \<Rightarrow> string \<Rightarrow> int \<Rightarrow> int \<Rightarrow> int \<Rightarrow> string
    \<Rightarrow> repair_ledger \<Rightarrow> (repair_entry option) ledger_outcome" where
  "claim_run sc i leaseMs now wall token L =
     (case find (run_row (sc_tenant sc) i) (lg_runs L) of
        None \<Rightarrow> (L, Inr None)
      | Some run \<Rightarrow>
          if run_status run = run_completed then (L, Inr None)
          else if run_deadline_at run \<le> wall
          then (give_up_all (sc_tenant sc) i now ''run_time_budget_exhausted'' L, Inr None)
          else claim_entry sc i now leaseMs token (run_byte_budget run - run_bytes_consumed run) L)"

definition claimAttachmentRepairEntry :: "scope \<Rightarrow> string \<Rightarrow> int \<Rightarrow> int \<Rightarrow> int \<Rightarrow> string
    \<Rightarrow> repair_ledger \<Rightarrow> (repair_entry option) ledger_outcome" where
  "claimAttachmentRepairEntry sc i leaseMs now wall token L =
     (if \<not> safe_integer leaseMs \<or> leaseMs \<le> 0 \<or> 24 * 60 * 60 * 1000 < leaseMs
      then (L, Inl (RE_Range ''attachment repair lease must be between 1 millisecond and 24 hours''))
      else withAttachmentRepairLedgerLock sc (claim_run sc i leaseMs now wall token) L)"

section \<open>Recording an outcome\<close>

definition error_code_ok :: "string \<Rightarrow> bool" where
  "error_code_ok s \<longleftrightarrow>
     (case s of [] \<Rightarrow> False
      | c # cs \<Rightarrow> c \<in> set ''abcdefghijklmnopqrstuvwxyz'' \<and> length cs \<le> 63
          \<and> (\<forall>d \<in> set cs. d \<in> set ''abcdefghijklmnopqrstuvwxyz0123456789_''))"

text \<open>\<open>/^[0-9a-f]{8}-(?:[0-9a-f]{4}-){3}[0-9a-f]{12}$/i\<close>.\<close>

definition uuid_text :: "string \<Rightarrow> bool" where
  "uuid_text s \<longleftrightarrow> map length (split_on CHR ''-'' s) = [8, 4, 4, 4, 12]
     \<and> (\<forall>p \<in> set (split_on CHR ''-'' s). \<forall>c \<in> set p. c \<in> set ''0123456789abcdefABCDEF'')"

record recorded_outcome =
  ro_status :: entry_status
  ro_error :: "string option"
  ro_operator_action :: bool
  ro_refund :: int
  ro_retry_delay :: int

definition final_outcome :: "int \<Rightarrow> repair_run \<Rightarrow> repair_entry \<Rightarrow> entry_status \<Rightarrow> string option
    \<Rightarrow> int option \<Rightarrow> recorded_outcome" where
  "final_outcome wall run entry status code sourceBytes =
     (let reserved = re_reserved_bytes entry;
          valid = (case sourceBytes of None \<Rightarrow> True | Some b \<Rightarrow> safe_integer b \<and> 0 \<le> b \<and> b \<le> reserved);
          accounted = (if sourceBytes = None \<or> \<not> valid then reserved else the sourceBytes);
          expired = (run_deadline_at run \<le> wall);
          exhausted = (\<not> expired \<and> valid \<and> status = es_pending
                       \<and> MAX_ATTACHMENT_REPAIR_ATTEMPTS \<le> re_attempts entry);
          final_code = (if \<not> valid then Some ''invalid_source_byte_accounting''
                        else if expired then Some ''run_time_budget_exhausted''
                        else if exhausted then Some ''retry_exhausted'' else code)
      in \<lparr> ro_status = (if \<not> valid \<or> expired \<or> exhausted then es_unavailable else status),
           ro_error = final_code,
           ro_operator_action = (\<not> valid \<or> expired \<or> exhausted
              \<or> final_code = Some ''run_byte_budget_exhausted'' \<or> final_code = Some ''run_time_budget_exhausted''),
           ro_refund = reserved - accounted,
           ro_retry_delay = min ATTACHMENT_REPAIR_RETRY_MAX_MS
              (ATTACHMENT_REPAIR_RETRY_BASE_MS * 2 ^ (re_attempts entry - 1)) \<rparr>)"

definition set_outcome :: "int \<Rightarrow> recorded_outcome \<Rightarrow> repair_entry \<Rightarrow> repair_entry" where
  "set_outcome now o' e =
     e\<lparr>re_status := ro_status o', re_operator_action := ro_operator_action o',
       re_last_error_code := ro_error o',
       re_next_attempt_at := (if ro_status o' = es_pending then now + ro_retry_delay o' else re_next_attempt_at e),
       re_claim_token := None, re_lease_expires_at := None, re_reserved_bytes := 0, re_updated_at := now\<rparr>"

definition refund :: "string \<Rightarrow> string \<Rightarrow> int \<Rightarrow> int \<Rightarrow> repair_ledger \<Rightarrow> repair_ledger" where
  "refund tenant i now b L =
     (if 0 < b then update_runs (run_row tenant i)
        (\<lambda>r. r\<lparr>run_bytes_consumed := max 0 (run_bytes_consumed r - b), run_updated_at := now\<rparr>) L
      else L)"

definition record_outcome :: "scope \<Rightarrow> string \<Rightarrow> nat \<Rightarrow> string \<Rightarrow> entry_status \<Rightarrow> string option
    \<Rightarrow> int option \<Rightarrow> int \<Rightarrow> int \<Rightarrow> repair_ledger \<Rightarrow> unit ledger_outcome" where
  "record_outcome sc i position token status code sourceBytes now wall L =
     (let tenant = sc_tenant sc in
      case find (run_row tenant i) (lg_runs L) of
        None \<Rightarrow> (L, Inr ())
      | Some run \<Rightarrow>
          (case find (\<lambda>e. entry_row tenant i e \<and> re_position e = position) (lg_entries L) of
             None \<Rightarrow> (L, Inr ())
           | Some entry \<Rightarrow>
               if re_status entry \<noteq> es_pending \<or> re_claim_token entry \<noteq> Some token then (L, Inr ())
               else
                 (let o' = final_outcome wall run entry status code sourceBytes;
                      L1 = refund tenant i now (ro_refund o') L;
                      L2 = update_entries (\<lambda>e. entry_row tenant i e \<and> re_position e = position
                             \<and> re_claim_token e = Some token) (set_outcome now o') L1
                  in if ro_operator_action o' \<and> ro_status o' \<noteq> es_unavailable
                     then (L1, Inl (RE_Error ''check constraint: operator_action only on unavailable entries''))
                     else (reconcileAttachmentRepairRun tenant i now L2, Inr ()))))"

definition recordAttachmentRepairEntryOutcome :: "scope \<Rightarrow> string \<Rightarrow> int \<Rightarrow> string \<Rightarrow> entry_status
    \<Rightarrow> string option \<Rightarrow> int option \<Rightarrow> int \<Rightarrow> int \<Rightarrow> repair_ledger \<Rightarrow> unit ledger_outcome" where
  "recordAttachmentRepairEntryOutcome sc i position token status code sourceBytes now wall L =
     (if \<not> safe_integer position \<or> position < 0
      then (L, Inl (RE_Range ''attachment repair position must be a non-negative integer''))
      else if code \<noteq> None \<and> \<not> error_code_ok (the code)
      then (L, Inl (RE_Range ''invalid attachment repair error code''))
      else if status = es_pending \<and> code = None
      then (L, Inl (RE_Range ''retryable attachment repair outcomes require an error code''))
      else if \<not> uuid_text token
      then (L, Inl (RE_Range ''attachment repair claim token must be a UUID''))
      else withAttachmentRepairLedgerLock sc
        (record_outcome sc i (nat position) token status code sourceBytes now wall) L)"

end
