(* ===== verification/Attachment_Download.thy ===== *)
theory Attachment_Download
  imports Strict_Base64 Canonical_Json
begin

text \<open>
  Validation of attachment payloads, src/lib/attachment-download.ts: well-formed text,
  metadata, canonical base64 content and \<open>decodeAttachmentPayload\<close>, the one predicate by
  which the repair decides that a stored attachment can be served.  A thrown error is
  \<open>Inl\<close> of its message; SHA-256 of bytes is the parameter \<open>sha\<close>.
\<close>

definition MAX_ATTACHMENT_DOWNLOAD_BYTES :: int where
  "MAX_ATTACHMENT_DOWNLOAD_BYTES = 25 * 1024 * 1024"

datatype attachment_content =
    Available string string int string "nat list"
  | Content_Unavailable string string "int option"
  | Content_Not_Found

definition json_object :: "json option \<Rightarrow> string \<Rightarrow> string + json" where
  "json_object v label = (case v of Some (JObj fs) \<Rightarrow> Inr (JObj fs) | _ \<Rightarrow> Inl (label @ '' must be an object''))"

definition normalizeAttachmentByteLimit :: "int option \<Rightarrow> string + int" where
  "normalizeAttachmentByteLimit v =
     (let limit = or_default v MAX_ATTACHMENT_DOWNLOAD_BYTES in
      if limit \<le> 0 \<or> MAX_ATTACHMENT_DOWNLOAD_BYTES < limit
      then Inl (''attachment byte limit must be between 1 and '' @ int_text MAX_ATTACHMENT_DOWNLOAD_BYTES)
      else Inr limit)"

definition unsafe_unit :: "nat \<Rightarrow> bool" where
  "unsafe_unit c \<longleftrightarrow> c \<le> 0x1F \<or> (0x7F \<le> c \<and> c \<le> 0x9F) \<or> c = 0x61C \<or> c = 0x200E \<or> c = 0x200F
     \<or> (0x202A \<le> c \<and> c \<le> 0x202E) \<or> (0x2066 \<le> c \<and> c \<le> 0x2069)"

definition wellFormedText :: "json option \<Rightarrow> string \<Rightarrow> nat \<Rightarrow> string + string" where
  "wellFormedText v label maxLength =
     (case v of
        Some (JStr s) \<Rightarrow>
          if s = [] \<or> maxLength < length s
          then Inl (label @ '' must be a non-empty string of at most '' @ nat_text maxLength @ '' characters'')
          else if (\<exists>c \<in> set (units_of s). unsafe_unit c) \<or> \<not> header_units_ok (units_of s)
          then Inl (label @ '' contains unsafe characters'')
          else Inr s
      | _ \<Rightarrow> Inl (label @ '' must be a non-empty string of at most '' @ nat_text maxLength @ '' characters''))"

definition validateAttachmentFilename :: "json option \<Rightarrow> string + string" where
  "validateAttachmentFilename v = wellFormedText v ''attachment filename'' 1024"

definition token_char :: "char \<Rightarrow> bool" where
  "token_char c \<longleftrightarrow> is_alnum c \<or> c \<in> set ''!#$%&*+.^_|~-'' \<or> c = CHR 0x27 \<or> c = CHR 0x60"

text \<open>\<open>MIME_TYPE_RE\<close>.\<close>

definition download_type_ok :: "string \<Rightarrow> bool" where
  "download_type_ok s \<longleftrightarrow>
     (case split_on CHR ''/'' s of
        [t, u] \<Rightarrow> t \<noteq> [] \<and> u \<noteq> [] \<and> (\<forall>c \<in> set t. token_char c) \<and> (\<forall>c \<in> set u. token_char c)
      | _ \<Rightarrow> False)"

record attachment_meta =
  mt_filename :: string
  mt_content_type :: string
  mt_size :: "int option"

definition validateAttachmentMetadata :: "json option \<Rightarrow> bool \<Rightarrow> string + attachment_meta" where
  "validateAttachmentMetadata v allowNullSize =
     (case json_object v ''attachment'' of
        Inl e \<Rightarrow> Inl e
      | Inr a \<Rightarrow>
          (case validateAttachmentFilename (json_key a ''filename'') of
             Inl e \<Rightarrow> Inl e
           | Inr filename \<Rightarrow>
               (case wellFormedText (json_key a ''content_type'') ''attachment content type'' 255 of
                  Inl e \<Rightarrow> Inl e
                | Inr ctype \<Rightarrow>
                    if \<not> download_type_ok ctype then Inl ''attachment content type must be a valid MIME type''
                    else
                      (case json_key a ''size'' of
                         Some JNull \<Rightarrow>
                           if allowNullSize
                           then Inr \<lparr> mt_filename = filename, mt_content_type = ctype, mt_size = None \<rparr>
                           else Inl ''attachment size must be a non-negative integer''
                       | Some (JNum n) \<Rightarrow>
                           if 0 \<le> n \<and> n \<le> 9007199254740991
                           then Inr \<lparr> mt_filename = filename, mt_content_type = ctype, mt_size = Some n \<rparr>
                           else Inl ''attachment size must be a non-negative integer''
                       | _ \<Rightarrow> Inl ''attachment size must be a non-negative integer''))))"

text \<open>
  The regular expression asks for whole groups of four with at most two pad characters in
  the last one, which is the shape test on a length divisible by four.
\<close>

definition decodeCanonicalBase64 :: "json option \<Rightarrow> int \<Rightarrow> int \<Rightarrow> string + nat list" where
  "decodeCanonicalBase64 v declaredSize maxBytes =
     (case v of
        Some (JStr s) \<Rightarrow>
          if length s mod 4 \<noteq> 0 \<or> \<not> base64_shape s then Inl ''attachment content must be canonical base64''
          else if maxBytes < declaredSize \<or> (maxBytes + 2) div 3 * 4 < int (length s)
          then Inl (''attachment exceeds byte limit '' @ int_text maxBytes)
          else
            (let decoded = decode64 s in
             if encode64 decoded \<noteq> s then Inl ''attachment content must be canonical base64''
             else if int (length decoded) \<noteq> declaredSize
             then Inl (''attachment size mismatch: declared '' @ int_text declaredSize @ '', decoded ''
                       @ nat_text (length decoded))
             else if maxBytes < int (length decoded) then Inl (''attachment exceeds byte limit '' @ int_text maxBytes)
             else Inr decoded)
      | _ \<Rightarrow> Inl ''attachment content must be canonical base64'')"

definition decode_available :: "(nat list \<Rightarrow> string) \<Rightarrow> json \<Rightarrow> int \<Rightarrow> string + attachment_content" where
  "decode_available sha a limit =
     (case validateAttachmentMetadata (Some a) False of
        Inl e \<Rightarrow> Inl e
      | Inr m \<Rightarrow>
          (case mt_size m of
             None \<Rightarrow> Inl ''attachment size must be a non-negative integer''
           | Some n \<Rightarrow>
               (case decodeCanonicalBase64 (json_key a ''content_base64'') n limit of
                  Inl e \<Rightarrow> Inl e
                | Inr data \<Rightarrow> Inr (Available (mt_filename m) (mt_content_type m) (int (length data)) (sha data) data))))"

definition decodeAttachmentPayload :: "(nat list \<Rightarrow> string) \<Rightarrow> json \<Rightarrow> int option \<Rightarrow> string + attachment_content" where
  "decodeAttachmentPayload sha payload maxBytes =
     (case normalizeAttachmentByteLimit maxBytes of
        Inl e \<Rightarrow> Inl e
      | Inr limit \<Rightarrow>
          (case json_object (Some payload) ''attachment response'' of
             Inl e \<Rightarrow> Inl e
           | Inr wrapper \<Rightarrow>
               if json_key wrapper ''code'' = Some (JStr ''attachment_not_found'') then Inr Content_Not_Found
               else
                 (case json_object (json_key wrapper ''attachment'') ''attachment'' of
                    Inl e \<Rightarrow> Inl e
                  | Inr a \<Rightarrow>
                      if json_key wrapper ''code'' = Some (JStr ''attachment_content_unavailable'')
                      then (case validateAttachmentMetadata (Some a) True of
                              Inl e \<Rightarrow> Inl e
                            | Inr m \<Rightarrow>
                                if (case mt_size m of None \<Rightarrow> False | Some n \<Rightarrow> limit < n)
                                then Inl (''attachment exceeds byte limit '' @ int_text limit)
                                else Inr (Content_Unavailable (mt_filename m) (mt_content_type m) (mt_size m)))
                      else decode_available sha a limit)))"

text \<open>
  What an available payload is: the bytes are those the stored base64 text encodes, as many
  as the metadata declares, and within the limit.
\<close>

lemma decodeCanonicalBase64_sound:
  "decodeCanonicalBase64 v n limit = Inr data \<Longrightarrow>
   v = Some (JStr (encode64 data)) \<and> int (length data) = n \<and> int (length data) \<le> limit"
  by (auto simp: decodeCanonicalBase64_def Let_def split: option.splits json.splits if_splits)

lemma available_sound:
  assumes "decodeAttachmentPayload sha (JObj [(''attachment'', a)]) limit = Inr (Available f t n d data)"
  shows "json_key a ''content_base64'' = Some (JStr (encode64 data)) \<and> json_key a ''size'' = Some (JNum (int (length data)))
    \<and> json_key a ''filename'' = Some (JStr f) \<and> json_key a ''content_type'' = Some (JStr t)
    \<and> n = int (length data) \<and> d = sha data"
proof -
  obtain l where l: "normalizeAttachmentByteLimit limit = Inr l" "decode_available sha a l = Inr (Available f t n d data)"
    using assms by (auto simp: decodeAttachmentPayload_def json_object_def json_key_def split: sum.splits json.splits if_splits)
  then obtain m k where m: "validateAttachmentMetadata (Some a) False = Inr m" "mt_size m = Some k"
      "decodeCanonicalBase64 (json_key a ''content_base64'') k l = Inr data"
      "mt_filename m = f" "mt_content_type m = t" "n = int (length data)" "d = sha data"
    by (auto simp: decode_available_def split: sum.splits option.splits)
  have "json_key a ''filename'' = Some (JStr f) \<and> json_key a ''content_type'' = Some (JStr t)
      \<and> json_key a ''size'' = Some (JNum k)"
    using m(1,2,4,5)
    by (auto simp: validateAttachmentMetadata_def validateAttachmentFilename_def wellFormedText_def json_object_def
        split: sum.splits option.splits json.splits if_splits)
  with decodeCanonicalBase64_sound [OF m(3)] m(6,7) show ?thesis by simp
qed

end
