(* ===== verification/Attachment_Repair.thy ===== *)
theory Attachment_Repair
  imports Await Repair_Ledger Attachment_Download
begin

text \<open>
  The attachment repair worker, src/server/self-hosted/attachment-repair.ts: the decisions
  about one stored object, the asynchronous repair of its attachments, the classification
  of its result for the ledger and the page loop.  S3, MIME parsing, SHA-256 of bytes and
  the collation are the fields of \<open>repair_env\<close>; a dependency that throws is \<open>Inl\<close>.
\<close>

section \<open>Inputs and results\<close>

datatype source_code = source_unavailable | source_byte_limit

text \<open>An error of the source: an \<open>AttachmentRepairTerminalSourceError\<close> has a code.\<close>

record source_error =
  se_code :: "source_code option"
  se_name :: string
  se_message :: string
  se_status :: "int option"

record repair_env =
  rv_scope :: scope
  rv_le :: "string \<Rightarrow> string \<Rightarrow> bool"
  rv_bucket :: string
  rv_fetch :: "string \<Rightarrow> string \<Rightarrow> int \<Rightarrow> source_error + nat list"
  rv_parse :: "nat list \<Rightarrow> string + json list"
  rv_sha :: "nat list \<Rightarrow> string"
  rv_aborts :: bool

record repair_input =
  ri_key :: string
  ri_recipients :: "string list"
  ri_canary_message_ids :: "string list"
  ri_allowed_tenant :: "string option"
  ri_apply :: bool
  ri_max_raw_bytes :: "int option"

datatype item_status =
    would_repair | repaired | already_complete | item_not_found | not_in_canary
  | ambiguous_binding | metadata_mismatch | concurrent_change | item_error

record repair_item =
  it_tenant :: string
  it_message :: "string option"
  it_status :: item_status
  it_attachments :: "nat option"
  it_reason :: "string option"
  it_retryable :: "bool option"

record repair_result =
  rs_key :: string
  rs_apply :: bool
  rs_items :: "repair_item list"
  rs_source_bytes :: "int option"
  rs_source_limit_exhausted :: bool

definition resolveAttachmentRepairCanonicalBucket :: "string option \<Rightarrow> string option" where
  "resolveAttachmentRepairCanonicalBucket v =
     (let b = js_trim (or_default v []) in if b = [] then None else Some b)"

definition terminalAttachmentSourceFailure :: "source_error \<Rightarrow> bool" where
  "terminalAttachmentSourceFailure e \<longleftrightarrow>
     se_code e \<noteq> None
     \<or> se_name e \<in> {''NoSuchKey'', ''NoSuchBucket'', ''NotFound''} \<or> se_status e = Some 404
     \<or> se_message e = ''S3 object has no body''"

definition normalizeAttachmentRepairCanaryMessageIds :: "string list \<Rightarrow> string + string list" where
  "normalizeAttachmentRepairCanaryMessageIds values =
     (let normalized = filter (\<lambda>v. v \<noteq> []) (map js_trim values) in
      if distinct normalized then Inr normalized
      else Inl ''attachment repair rejects duplicate normalized canary message-id values'')"

section \<open>Attachments\<close>

definition metadata :: "json \<Rightarrow> (string \<times> string \<times> int) option" where
  "metadata v =
     (case (json_key v ''filename'', json_key v ''content_type'', json_key v ''size'') of
        (Some (JStr f), Some (JStr t), Some (JNum n)) \<Rightarrow>
          if 0 \<le> n \<and> n \<le> 9007199254740991 then Some (f, t, n) else None
      | _ \<Rightarrow> None)"

definition sameMetadata :: "json list \<Rightarrow> json list \<Rightarrow> bool" where
  "sameMetadata left right \<longleftrightarrow> length left = length right \<and> left \<noteq> []
     \<and> list_all2 (\<lambda>a b. metadata a \<noteq> None \<and> metadata a = metadata b) left right"

datatype content_state = content_complete | content_missing | content_invalid

definition is_available :: "string + attachment_content \<Rightarrow> bool" where
  "is_available r \<longleftrightarrow> (case r of Inr (Available _ _ _ _ _) \<Rightarrow> True | _ \<Rightarrow> False)"

definition decode_item :: "(nat list \<Rightarrow> string) \<Rightarrow> json \<Rightarrow> string + attachment_content" where
  "decode_item sha a = decodeAttachmentPayload sha (JObj [(''attachment'', a)]) (Some MAX_ATTACHMENT_DOWNLOAD_BYTES)"

definition is_record :: "json \<Rightarrow> bool" where
  "is_record v \<longleftrightarrow> (case v of JObj _ \<Rightarrow> True | _ \<Rightarrow> False)"

fun content_scan :: "(nat list \<Rightarrow> string) \<Rightarrow> bool \<Rightarrow> json list \<Rightarrow> content_state" where
  "content_scan sha missing [] = (if missing then content_missing else content_complete)"
| "content_scan sha missing (a # as) =
     (if \<not> is_record a \<or> metadata a = None then content_invalid
      else if \<not> text_key a ''content_base64'' then content_scan sha True as
      else if is_available (decode_item sha a) then content_scan sha missing as
      else content_invalid)"

definition contentState :: "(nat list \<Rightarrow> string) \<Rightarrow> json list \<Rightarrow> content_state" where
  "contentState sha as = (if as = [] then content_invalid else content_scan sha False as)"

definition missingAttachmentPayloadCount :: "json list \<Rightarrow> nat" where
  "missingAttachmentPayloadCount as = length (filter (\<lambda>a. is_record a \<and> \<not> text_key a ''content_base64'') as)"

text \<open>\<open>{ ...oldRecord, content_base64: x }\<close>.\<close>

definition with_content :: "json \<Rightarrow> json \<Rightarrow> json" where
  "with_content a x = (case a of
     JObj fs \<Rightarrow> JObj (filter (\<lambda>f. fst f \<noteq> ''content_base64'') fs @ [(''content_base64'', x)]) | _ \<Rightarrow> a)"

definition content_sha :: "string + attachment_content \<Rightarrow> string option" where
  "content_sha r = (case r of Inr (Available _ _ _ d _) \<Rightarrow> Some d | _ \<Rightarrow> None)"

definition replace_one :: "(nat list \<Rightarrow> string) \<Rightarrow> json \<Rightarrow> json \<Rightarrow> json option" where
  "replace_one sha old parsed =
     (if \<not> is_record old \<or> \<not> is_record parsed \<or> \<not> text_key parsed ''content_base64'' then None
      else if \<not> is_available (decode_item sha parsed) then None
      else if text_key old ''content_base64''
           \<and> (\<not> is_available (decode_item sha old)
              \<or> content_sha (decode_item sha old) \<noteq> content_sha (decode_item sha parsed)) then None
      else Some (with_content old (the (json_key parsed ''content_base64''))))"

definition replacementPayload :: "(nat list \<Rightarrow> string) \<Rightarrow> json list \<Rightarrow> json list \<Rightarrow> json list option" where
  "replacementPayload sha existing parsed =
     (if \<not> sameMetadata existing parsed then None
      else all_some (map (\<lambda>(a, b). replace_one sha a b) (zip existing parsed)))"

section \<open>Decisions about the bindings\<close>

definition item :: "repair_binding \<Rightarrow> item_status \<Rightarrow> repair_item" where
  "item b st = \<lparr> it_tenant = rb_tenant b, it_message = Some (rb_message b), it_status = st,
     it_attachments = None, it_reason = None, it_retryable = None \<rparr>"

definition items_all :: "repair_binding list \<Rightarrow> item_status \<Rightarrow> string \<Rightarrow> bool option \<Rightarrow> repair_item list" where
  "items_all bs st reason retry = map (\<lambda>b. (item b st)\<lparr>it_reason := Some reason, it_retryable := retry\<rparr>) bs"

definition unresolved_item :: "string \<Rightarrow> bool \<Rightarrow> repair_item" where
  "unresolved_item reason retry = \<lparr> it_tenant = ''unresolved'', it_message = None, it_status = item_error,
     it_attachments = None, it_reason = Some reason, it_retryable = Some retry \<rparr>"

definition exact_route :: "route_resolution \<Rightarrow> repair_binding list \<Rightarrow> bool" where
  "exact_route route bs \<longleftrightarrow>
     (let rs = js_unique (map rg_tenant (rr_groups route)); ts = js_unique (map rb_tenant bs)
      in length rs = length ts \<and> (\<forall>t \<in> set rs. t \<in> set ts))"

definition exact_canary :: "string list \<Rightarrow> repair_binding list \<Rightarrow> bool" where
  "exact_canary canaries bs \<longleftrightarrow>
     (let is = js_unique (map rb_message bs)
      in length is = length bs \<and> length is = length canaries \<and> (\<forall>i \<in> set canaries. i \<in> set is))"

definition valid_bindings :: "string \<Rightarrow> string \<Rightarrow> repair_binding list \<Rightarrow> bool" where
  "valid_bindings bucket key bs \<longleftrightarrow>
     (case bs of [] \<Rightarrow> True
      | b0 # _ \<Rightarrow> \<forall>b \<in> set bs.
          pv_tenant (rb_provenance b) = rb_tenant b \<and> pv_message (rb_provenance b) = rb_message b
          \<and> pv_object_key (rb_provenance b) = key \<and> pv_bucket (rb_provenance b) = bucket
          \<and> pv_bucket (rb_provenance b) = pv_bucket (rb_provenance b0)
          \<and> pv_raw_sha256 (rb_provenance b) = pv_raw_sha256 (rb_provenance b0)
          \<and> hex64 (pv_raw_sha256 (rb_provenance b)))"

definition state_item :: "(nat list \<Rightarrow> string) \<Rightarrow> repair_binding \<Rightarrow> repair_item" where
  "state_item sha b =
     (case contentState sha (rb_attachments b) of
        content_invalid \<Rightarrow> (item b item_error)\<lparr>it_attachments := Some (length (rb_attachments b)),
            it_reason := Some ''existing attachment metadata is invalid'', it_retryable := Some False\<rparr>
      | content_complete \<Rightarrow> (item b already_complete)\<lparr>it_attachments := Some (length (rb_attachments b)),
            it_retryable := Some False\<rparr>
      | content_missing \<Rightarrow> (item b item_error)\<lparr>it_attachments := Some (length (rb_attachments b)),
            it_retryable := Some False\<rparr>)"

definition complete_item :: "repair_binding \<Rightarrow> repair_item" where
  "complete_item b = (item b already_complete)\<lparr>it_attachments := Some (length (rb_attachments b))\<rparr>"

text \<open>The items of every return before the source is fetched, \<open>None\<close> to go on.\<close>

definition judge_bindings :: "repair_env \<Rightarrow> repair_input \<Rightarrow> string list \<Rightarrow> route_resolution
    \<Rightarrow> repair_binding list \<Rightarrow> repair_item list option" where
  "judge_bindings env inp canaries route bs =
     (let states = map (\<lambda>b. contentState (rv_sha env) (rb_attachments b)) bs in
      if bs = []
      then Some (map (\<lambda>g. \<lparr> it_tenant = rg_tenant g, it_message = None, it_status = item_not_found,
                    it_attachments = None, it_reason = None, it_retryable = None \<rparr>) (rr_groups route))
      else if or_default (ri_allowed_tenant inp) [] \<noteq> [] \<and> (\<exists>b \<in> set bs. Some (rb_tenant b) \<noteq> ri_allowed_tenant inp)
      then Some [\<lparr> it_tenant = the (ri_allowed_tenant inp), it_message = None, it_status = ambiguous_binding,
                   it_attachments = None,
                   it_reason = Some ''persisted object bindings fall outside the authenticated tenant'',
                   it_retryable = None \<rparr>]
      else if \<not> exact_route route bs
      then Some (items_all bs ambiguous_binding
             ''trusted recipient routes do not equal the complete persisted object binding set'' None)
      else if \<not> exact_canary canaries bs
      then Some (items_all bs not_in_canary
             ''the canary does not equal the complete persisted object binding set'' None)
      else if \<not> valid_bindings (rv_bucket env) (ri_key inp) bs
      then Some (items_all bs ambiguous_binding
             ''persisted rows do not bind to one immutable object and byte digest'' None)
      else if content_invalid \<in> set states then Some (map (state_item (rv_sha env)) bs)
      else if content_missing \<notin> set states then Some (map complete_item bs)
      else None)"

section \<open>Decisions about the source\<close>

definition source_failure :: "repair_env \<Rightarrow> int \<Rightarrow> string \<Rightarrow> nat list \<Rightarrow> string option" where
  "source_failure env limit sha raw =
     (if raw = [] then Some ''S3 object is empty''
      else if limit < int (length raw)
      then Some (''S3 object exceeds attachment repair source byte limit '' @ int_text limit)
      else if rv_sha env raw \<noteq> sha
      then Some ''S3 object bytes do not match immutable canonical source provenance''
      else None)"

definition plan_update :: "repair_env \<Rightarrow> json list \<Rightarrow> repair_binding \<Rightarrow> repair_update option" where
  "plan_update env parsed b =
     map_option (\<lambda>r. \<lparr> ru_tenant = rb_tenant b, ru_message = rb_message b,
                      ru_expected = rb_attachments b, ru_replacement = r \<rparr>)
       (if contentState (rv_sha env) (rb_attachments b) = content_complete then Some (rb_attachments b)
        else replacementPayload (rv_sha env) (rb_attachments b) parsed)"

definition outcome_item :: "repair_env \<Rightarrow> item_status \<Rightarrow> repair_binding \<Rightarrow> repair_item" where
  "outcome_item env st b =
     (if contentState (rv_sha env) (rb_attachments b) = content_complete then complete_item b
      else (item b st)\<lparr>it_attachments := Some (missingAttachmentPayloadCount (rb_attachments b))\<rparr>)"

section \<open>The repair of one object\<close>

type_synonym 'a repair_prog = "(mail_store, store_error, 'a) prog"

abbreviation throw :: "string \<Rightarrow> 'a repair_prog" where
  "throw t \<equiv> Raise (Store_Error t)"

definition result_of :: "repair_input \<Rightarrow> repair_item list \<Rightarrow> int \<Rightarrow> bool \<Rightarrow> repair_result" where
  "result_of inp its bytes exhausted = \<lparr> rs_key = ri_key inp, rs_apply = ri_apply inp, rs_items = its,
     rs_source_bytes = Some bytes, rs_source_limit_exhausted = exhausted \<rparr>"

definition store_error_text :: "store_error \<Rightarrow> string" where
  "store_error_text e = (case e of Store_Error t \<Rightarrow> t | Range_Error t \<Rightarrow> t
     | _ \<Rightarrow> ''persisted object bindings could not be read'')"

definition repair_apply :: "repair_env \<Rightarrow> repair_input \<Rightarrow> repair_binding list \<Rightarrow> repair_update list \<Rightarrow> int
    \<Rightarrow> repair_result repair_prog" where
  "repair_apply env inp bs updates bytes =
     bind (call (replaceAttachmentPayloadsAtomically (rv_scope env) (rv_le env) (rv_aborts env) bs updates))
       (\<lambda>updated. Return (result_of inp
          (map (outcome_item env (if updated then repaired else concurrent_change)) bs) bytes False))"

definition repair_with_source :: "repair_env \<Rightarrow> repair_input \<Rightarrow> int \<Rightarrow> repair_binding list \<Rightarrow> nat list
    \<Rightarrow> repair_result repair_prog" where
  "repair_with_source env inp limit bs raw =
     (let bytes = int (length raw) in
      case source_failure env limit (pv_raw_sha256 (rb_provenance (hd bs))) raw of
        Some reason \<Rightarrow> Return (result_of inp (items_all bs item_error reason (Some False)) bytes (limit < bytes))
      | None \<Rightarrow>
          call_with (\<lambda>s. (s, rv_parse env raw)) (\<lambda>parsed.
            case parsed of
              Inl reason \<Rightarrow> Return (result_of inp (items_all bs item_error reason (Some False)) bytes False)
            | Inr as \<Rightarrow>
                (case all_some (map (plan_update env as) bs) of
                   None \<Rightarrow> Return (result_of inp (items_all bs metadata_mismatch
                     ''parsed attachment count/order/metadata/content does not match every stored row'' None) bytes False)
                 | Some updates \<Rightarrow>
                     if \<not> ri_apply inp
                     then Return (result_of inp (map (outcome_item env would_repair) bs) bytes False)
                     else repair_apply env inp bs updates bytes)))"

definition repair_source :: "repair_env \<Rightarrow> repair_input \<Rightarrow> int \<Rightarrow> repair_binding list \<Rightarrow> repair_result repair_prog" where
  "repair_source env inp limit bs =
     (let p = rb_provenance (hd bs) in
      call_with (\<lambda>s. (s, rv_fetch env (pv_bucket p) (pv_object_key p) limit)) (\<lambda>r.
        case r of
          Inl e \<Rightarrow> Return (result_of inp (items_all bs item_error (se_message e)
                     (Some (\<not> terminalAttachmentSourceFailure e))) limit (se_code e = Some source_byte_limit))
        | Inr raw \<Rightarrow> repair_with_source env inp limit bs raw))"

definition repair_bindings :: "repair_env \<Rightarrow> repair_input \<Rightarrow> string list \<Rightarrow> int \<Rightarrow> route_resolution
    \<Rightarrow> repair_result repair_prog" where
  "repair_bindings env inp canaries limit route =
     call_with (\<lambda>s. (s, listAttachmentRepairBindings (rv_scope env) (rv_bucket env) (ri_key inp) s)) (\<lambda>r.
       case r of
         Inl e \<Rightarrow> Return (result_of inp [unresolved_item (store_error_text e) True] 0 False)
       | Inr bs0 \<Rightarrow>
           (let bs = stable_sort (\<lambda>a b. rv_le env (binding_identity a) (binding_identity b)) bs0 in
            case judge_bindings env inp canaries route bs of
              Some its \<Rightarrow> Return (result_of inp its 0 False)
            | None \<Rightarrow> repair_source env inp limit bs))"

definition repairExistingS3ObjectAttachments :: "repair_env \<Rightarrow> repair_input \<Rightarrow> repair_result repair_prog" where
  "repairExistingS3ObjectAttachments env inp =
     (let limit = or_default (ri_max_raw_bytes inp) MAX_ATTACHMENT_REPAIR_SOURCE_BYTES in
      if js_trim (ri_key inp) = [] then throw ''attachment repair requires an exact object key''
      else if js_trim (rv_bucket env) = [] then throw ''attachment repair requires the deployment canonical bucket''
      else (case normalizeAttachmentRepairCanaryMessageIds (ri_canary_message_ids inp) of
        Inl e \<Rightarrow> throw e
      | Inr canaries \<Rightarrow>
          if canaries = [] then throw ''attachment repair requires at least one exact canary message id''
          else if limit \<le> 0 \<or> MAX_ATTACHMENT_REPAIR_SOURCE_BYTES < limit
          then throw (''attachment repair source byte limit must be between 1 and ''
                      @ int_text MAX_ATTACHMENT_REPAIR_SOURCE_BYTES)
          else call_with (\<lambda>s. (s, resolveInboundRecipients (ms_db s) (ri_recipients inp))) (\<lambda>route.
            if rr_unresolved route \<noteq> [] \<or> rr_groups route = []
            then Return (result_of inp [unresolved_item ''recipient route is incomplete'' False] 0 False)
            else repair_bindings env inp canaries limit route)))"

section \<open>Classification and the page loop\<close>

definition classifyLedgerOutcome :: "repair_entry \<Rightarrow> repair_result \<Rightarrow> bool \<Rightarrow> entry_status \<times> string option" where
  "classifyLedgerOutcome entry result app =
     (let its = rs_items result; sts = map it_status its;
          ids = List.map_filter it_message its;
          failures = filter (\<lambda>i. it_status i = item_error) its
      in if rs_key result \<noteq> re_object_key entry \<or> rs_apply result \<noteq> app \<or> its = []
         then (es_unavailable, Some ''invalid_repair_result'')
         else if \<exists>i \<in> set its. it_tenant i \<noteq> re_tenant entry then (es_unavailable, Some ''invalid_repair_tenant'')
         else if \<not> (length ids = length its
                     \<and> card (set ids) = card (set (re_canary_message_ids entry))
                     \<and> set ids \<subseteq> set (re_canary_message_ids entry))
         then (es_unavailable, Some ''invalid_repair_canary'')
         else if concurrent_change \<in> set sts then (es_pending, Some ''concurrent_change'')
         else if failures \<noteq> []
         then (if \<forall>i \<in> set failures. it_retryable i \<noteq> Some False
               then (es_pending, Some ''retryable_repair_error'')
               else (es_unavailable, Some ''terminal_repair_error''))
         else if app
         then (if \<forall>s \<in> set sts. s = repaired \<or> s = already_complete then (es_repaired, None)
               else (es_unavailable, Some ''terminal_repair_outcome''))
         else if \<forall>s \<in> set sts. s = already_complete then (es_repaired, None)
         else if \<forall>s \<in> set sts. s = would_repair \<or> s = already_complete then (es_would_repair, None)
         else (es_unavailable, Some ''terminal_repair_outcome''))"

text \<open>The bytes a page reports for an attempt, and the outcome it records.\<close>

definition attempt_outcome :: "repair_entry \<Rightarrow> bool \<Rightarrow> 'e + repair_result
    \<Rightarrow> (entry_status \<times> string option) \<times> int" where
  "attempt_outcome entry app r =
     (case r of
        Inl _ \<Rightarrow> ((es_pending, Some ''repair_exception''), re_reserved_bytes entry)
      | Inr result \<Rightarrow>
          (if rs_source_limit_exhausted result then (es_unavailable, Some ''run_byte_budget_exhausted'')
           else classifyLedgerOutcome entry result app,
           case rs_source_bytes result of
             None \<Rightarrow> re_reserved_bytes entry
           | Some b \<Rightarrow> if safe_integer b \<and> 0 \<le> b \<and> b \<le> re_reserved_bytes entry then b
                       else re_reserved_bytes entry))"

text \<open>The store a page works on: the three operations of \<open>AttachmentRepairLedgerStore\<close>.\<close>

record 'w ledger_store =
  ls_get :: "string \<Rightarrow> 'w \<Rightarrow> repair_run option"
  ls_claim :: "string \<Rightarrow> int \<Rightarrow> 'w \<Rightarrow> 'w \<times> (repair_error + repair_entry option)"
  ls_record :: "string \<Rightarrow> int \<Rightarrow> string \<Rightarrow> entry_status \<Rightarrow> string option \<Rightarrow> int option \<Rightarrow> 'w
     \<Rightarrow> 'w \<times> (repair_error + unit)"

definition page_step :: "'w ledger_store \<Rightarrow> (repair_entry \<Rightarrow> bool \<Rightarrow> ('w, store_error, repair_result) prog)
    \<Rightarrow> repair_run \<Rightarrow> repair_entry \<Rightarrow> ('w, repair_error, unit) prog" where
  "page_step st repair run entry =
     (case re_claim_token entry of
        None \<Rightarrow> Raise (RE_Error ''attachment repair claim did not return a claim token'')
      | Some token \<Rightarrow>
          bind (attempt (repair entry (run_apply run))) (\<lambda>r.
            case attempt_outcome entry (run_apply run) r of
              ((status, code), bytes) \<Rightarrow>
                call (ls_record st (run_id run) (int (re_position entry)) token status code (Some bytes))))"

primrec page_loop :: "'w ledger_store \<Rightarrow> (repair_entry \<Rightarrow> bool \<Rightarrow> ('w, store_error, repair_result) prog)
    \<Rightarrow> repair_run \<Rightarrow> string \<Rightarrow> nat \<Rightarrow> ('w, repair_error, unit) prog" where
  "page_loop st repair run i 0 = Return ()"
| "page_loop st repair run i (Suc n) =
     bind (call (ls_claim st i ATTACHMENT_REPAIR_LEASE_MS)) (\<lambda>claimed.
       case claimed of
         None \<Rightarrow> Return ()
       | Some entry \<Rightarrow> bind (page_step st repair run entry) (\<lambda>_. page_loop st repair run i n))"

definition processAttachmentRepairPage :: "'w ledger_store
    \<Rightarrow> (repair_entry \<Rightarrow> bool \<Rightarrow> ('w, store_error, repair_result) prog)
    \<Rightarrow> string \<Rightarrow> int option \<Rightarrow> ('w, repair_error, repair_run) prog" where
  "processAttachmentRepairPage st repair i limit0 =
     (let limit = or_default limit0 (int MAX_ATTACHMENT_REPAIR_PAGE_ITEMS) in
      if \<not> safe_integer limit \<or> limit \<le> 0 \<or> int MAX_ATTACHMENT_REPAIR_PAGE_ITEMS < limit
      then Raise (RE_Range (''attachment repair page limit must be between 1 and ''
                   @ nat_text MAX_ATTACHMENT_REPAIR_PAGE_ITEMS))
      else call_with (\<lambda>w. (w, ls_get st i w)) (\<lambda>r. case r of
             None \<Rightarrow> Raise (RE_Error ''attachment repair run not found'')
           | Some run \<Rightarrow>
               if run_status run = run_completed then Return run
               else bind (page_loop st repair run i (nat limit)) (\<lambda>_.
                 call_with (\<lambda>w. (w, ls_get st (run_id run) w)) (\<lambda>u. case u of
                   None \<Rightarrow> Raise (RE_Error ''attachment repair run disappeared'')
                 | Some updated \<Rightarrow> Return updated))))"

section \<open>The production adapter\<close>

text \<open>
  The world of a page: the mailbox, the ledger, the two clocks, and the UUIDs that
  \<open>randomUUID\<close> will draw.
\<close>

record repair_world =
  rw_store :: mail_store
  rw_ledger :: repair_ledger
  rw_now :: int
  rw_wall :: int
  rw_uuid :: "nat \<Rightarrow> string"
  rw_draws :: nat

definition tenant_ledger :: "scope \<Rightarrow> repair_world ledger_store" where
  "tenant_ledger sc =
     \<lparr> ls_get = (\<lambda>i w. getAttachmentRepairRun sc i (rw_ledger w)),
       ls_claim = (\<lambda>i leaseMs w. case claimAttachmentRepairEntry sc i leaseMs (rw_now w) (rw_wall w)
            (rw_uuid w (rw_draws w)) (rw_ledger w) of
          (L, r) \<Rightarrow> (w\<lparr>rw_ledger := L, rw_draws := Suc (rw_draws w)\<rparr>, r)),
       ls_record = (\<lambda>i position token status code bytes w.
          case recordAttachmentRepairEntryOutcome sc i position token status code bytes (rw_now w) (rw_wall w)
            (rw_ledger w) of (L, r) \<Rightarrow> (w\<lparr>rw_ledger := L\<rparr>, r)) \<rparr>"

text \<open>A function of the mailbox as a function of the world.\<close>

primrec lift_store :: "(mail_store, 'e, 'a) prog \<Rightarrow> (repair_world, 'e, 'a) prog" where
  "lift_store (Return a) = Return a"
| "lift_store (Raise e) = Raise e"
| "lift_store (Await g) = Await (\<lambda>w. case map_prod id lift_store (g (rw_store w)) of
     (s, p) \<Rightarrow> (w\<lparr>rw_store := s\<rparr>, p))"

definition entry_input :: "repair_entry \<Rightarrow> bool \<Rightarrow> repair_input" where
  "entry_input entry app =
     \<lparr> ri_key = re_object_key entry, ri_recipients = re_recipients entry,
       ri_canary_message_ids = re_canary_message_ids entry, ri_allowed_tenant = Some (re_tenant entry),
       ri_apply = app, ri_max_raw_bytes = Some (re_reserved_bytes entry) \<rparr>"

definition processCanonicalS3AttachmentRepairPage :: "repair_env \<Rightarrow> string option \<Rightarrow> scope \<Rightarrow> string \<Rightarrow> int
    \<Rightarrow> (repair_world, repair_error, repair_run) prog" where
  "processCanonicalS3AttachmentRepairPage env bucket sc i limit =
     (case resolveAttachmentRepairCanonicalBucket bucket of
        None \<Rightarrow> Raise (RE_Error ''attachment repair requires EMAILS_INGEST_S3_BUCKET as the canonical source'')
      | Some b \<Rightarrow> processAttachmentRepairPage (tenant_ledger sc)
          (\<lambda>entry app. lift_store (repairExistingS3ObjectAttachments (env\<lparr>rv_bucket := b\<rparr>) (entry_input entry app)))
          i (Some limit))"

end
