(* ===== verification/Attachment_Repair_Facts.thy ===== *)
theory Attachment_Repair_Facts
  imports Attachment_Repair
begin

text \<open>
  What an attachment repair may do to the mailbox, under any interleaving with other
  workers: a dry run nothing; an apply run only fills payloads, row by row, of messages
  whose source bytes it has fetched and verified against their provenance.
\<close>

section \<open>One payload\<close>

text \<open>
  \<open>a'\<close> is \<open>a\<close> with its payload: every other key keeps its value, the content encodes as many
  bytes as \<open>a\<close> declares, and a content that was already there had the same digest.
\<close>

definition filled :: "(nat list \<Rightarrow> string) \<Rightarrow> json \<Rightarrow> json \<Rightarrow> bool" where
  "filled sha a a' \<longleftrightarrow>
     (\<forall>k. k \<noteq> ''content_base64'' \<longrightarrow> map_option jsonb (json_key a' k) = map_option jsonb (json_key a k))
     \<and> (\<exists>data. (\<forall>b \<in> set data. b < 256) \<and> json_key a' ''content_base64'' = Some (JStr (encode64 data))
          \<and> json_key a ''size'' = Some (JNum (int (length data)))
          \<and> (\<forall>t. json_key a ''content_base64'' = Some (JStr t) \<longrightarrow> (\<exists>old. (\<forall>b \<in> set old. b < 256) \<and> t = encode64 old \<and> sha old = sha data)))"

lemma jsonb_scalar [simp]: "jsonb v = JStr s \<longleftrightarrow> v = JStr s" "jsonb v = JNum n \<longleftrightarrow> v = JNum n"
  by (cases v; simp)+

lemma jsonb_eq_key: "jsonb_eq a b \<Longrightarrow> map_option jsonb (json_key a k) = map_option jsonb (json_key b k)"
  by (metis json_key_jsonb jsonb_eq_def)

lemma jsonb_eq_scalar:
  assumes "jsonb_eq a b"
  shows "json_key a k = Some (JStr t) \<longleftrightarrow> json_key b k = Some (JStr t)"
    and "json_key a k = Some (JNum n) \<longleftrightarrow> json_key b k = Some (JNum n)"
proof -
  have s: "json_key v k = Some (JStr t) \<longleftrightarrow> map_option jsonb (json_key v k) = Some (JStr t)"
    "json_key v k = Some (JNum n) \<longleftrightarrow> map_option jsonb (json_key v k) = Some (JNum n)" for v
    by (cases "json_key v k"; simp)+
  show "json_key a k = Some (JStr t) \<longleftrightarrow> json_key b k = Some (JStr t)"
    unfolding s by (simp add: jsonb_eq_key [OF assms])
  show "json_key a k = Some (JNum n) \<longleftrightarrow> json_key b k = Some (JNum n)"
    unfolding s by (simp add: jsonb_eq_key [OF assms])
qed

lemma filled_cong: "jsonb_eq a b \<Longrightarrow> filled sha b c \<Longrightarrow> filled sha a c"
  by (simp add: filled_def jsonb_eq_key jsonb_eq_scalar)

lemma jsonb_eq_array: "jsonb_eq (JArr xs) (JArr ys) \<Longrightarrow> list_all2 jsonb_eq xs ys"
  by (auto simp: jsonb_eq_def list_all2_conv_all_nth list_eq_iff_nth_eq)

lemma filled_list_cong:
  assumes "jsonb_eq (JArr xs) (JArr ys)" and "list_all2 (filled sha) ys zs"
  shows "list_all2 (filled sha) xs zs"
  by (rule list_all2_trans [OF _ jsonb_eq_array [OF assms(1)] assms(2)]) (rule filled_cong)

lemma available_bytes:
  assumes "decodeAttachmentPayload sha payload limit = Inr (Available f t n d data)"
  shows "\<forall>b \<in> set data. b < 256"
proof -
  have "decodeCanonicalBase64 v n' l = Inr data \<Longrightarrow> \<forall>b \<in> set data. b < 256" for v n' l
    using decode64_small [of _ "encode64 data"]
    by (auto simp: decodeCanonicalBase64_def Let_def split: option.splits json.splits if_splits)
  with assms show ?thesis
    by (auto simp: decodeAttachmentPayload_def decode_available_def split: sum.splits option.splits if_splits)
qed

lemma is_available_obtain:
  assumes "is_available (decode_item sha a)"
  obtains f t n data where "decode_item sha a = Inr (Available f t n (sha data) data)"
    and "json_key a ''content_base64'' = Some (JStr (encode64 data))"
    and "json_key a ''size'' = Some (JNum (int (length data)))"
    and "\<forall>b \<in> set data. b < 256"
proof -
  from assms obtain f t n d data where x: "decode_item sha a = Inr (Available f t n d data)"
    by (auto simp: is_available_def split: sum.splits attachment_content.splits)
  note s = available_sound [OF x [unfolded decode_item_def]] available_bytes [OF x [unfolded decode_item_def]]
  show ?thesis by (rule that [of f t n data]) (use x s in simp_all)
qed

lemma text_key_iff: "text_key a k \<longleftrightarrow> (\<exists>t. json_key a k = Some (JStr t))"
  by (auto simp: text_key_def split: option.splits json.splits)

lemma filled_self: "is_available (decode_item sha a) \<Longrightarrow> filled sha a a"
  by (erule is_available_obtain) (auto simp: filled_def)

lemma map_of_filter_key:
  "map_of (filter (\<lambda>f. fst f \<noteq> c) fs) k = (if k = c then None else map_of fs k)"
  by (induction fs) auto

lemma json_key_with_content:
  "is_record a \<Longrightarrow> json_key (with_content a x) k = (if k = ''content_base64'' then Some x else json_key a k)"
  by (cases a) (simp_all add: is_record_def with_content_def json_key_def rev_filter map_of_filter_key)

lemma metadata_size: "metadata a \<noteq> None \<Longrightarrow> metadata a = metadata b \<Longrightarrow> json_key a ''size'' = json_key b ''size''"
  by (auto simp: metadata_def split: option.splits json.splits if_splits)

lemma replace_one_filled:
  assumes "replace_one sha old parsed = Some new" and "metadata old \<noteq> None" "metadata old = metadata parsed"
  shows "filled sha old new"
proof -
  from assms(1) have c: "is_record old" "is_available (decode_item sha parsed)"
    "text_key old ''content_base64'' \<Longrightarrow> is_available (decode_item sha old)
       \<and> content_sha (decode_item sha old) = content_sha (decode_item sha parsed)"
    and new: "new = with_content old (the (json_key parsed ''content_base64''))"
    by (auto simp: replace_one_def split: if_splits)
  obtain f t n data where d: "decode_item sha parsed = Inr (Available f t n (sha data) data)"
      "json_key parsed ''content_base64'' = Some (JStr (encode64 data))"
      "json_key parsed ''size'' = Some (JNum (int (length data)))" "\<forall>b \<in> set data. b < 256"
    by (rule is_available_obtain [OF c(2)])
  have old: "\<exists>o'. (\<forall>b \<in> set o'. b < 256) \<and> u = encode64 o' \<and> sha o' = sha data" if u: "json_key old ''content_base64'' = Some (JStr u)" for u
  proof -
    have k: "is_available (decode_item sha old)" "content_sha (decode_item sha old) = Some (sha data)"
      using c(3) u d(1) by (auto simp: text_key_iff content_sha_def)
    obtain f' t' n' o' where "decode_item sha old = Inr (Available f' t' n' (sha o') o')"
      "json_key old ''content_base64'' = Some (JStr (encode64 o'))" "\<forall>b \<in> set o'. b < 256" by (rule is_available_obtain [OF k(1)])
    with k(2) u show ?thesis by (auto simp: content_sha_def)
  qed
  have "json_key old ''size'' = Some (JNum (int (length data)))"
    using metadata_size [OF assms(2,3)] d(3) by simp
  with old d(4) show ?thesis unfolding filled_def new json_key_with_content [OF c(1)] d(2) by auto
qed

lemma all_some_Some: "all_some xs = Some ys \<longleftrightarrow> xs = map Some ys"
proof -
  have "None \<notin> set xs \<Longrightarrow> map (Some \<circ> the) xs = xs"
    by (rule map_idI) (metis comp_apply option.exhaust_sel)
  then have "None \<notin> set xs \<Longrightarrow> map Some (map the xs) = xs" by simp
  then show ?thesis by (auto simp: all_some_def comp_def)
qed

lemma replacement_filled:
  assumes "replacementPayload sha xs parsed = Some ys"
  shows "list_all2 (filled sha) xs ys"
proof -
  have sm: "sameMetadata xs parsed" and a: "map (\<lambda>(a, b). replace_one sha a b) (zip xs parsed) = map Some ys"
    using assms by (auto simp: replacementPayload_def all_some_Some split: if_splits)
  have len: "length xs = length parsed" using sm by (simp add: sameMetadata_def)
  with a have leny: "length ys = length xs" by (metis length_map length_zip min.idem)
  have "filled sha (xs ! j) (ys ! j)" if j: "j < length xs" for j
  proof (rule replace_one_filled)
    show "replace_one sha (xs ! j) (parsed ! j) = Some (ys ! j)"
      using arg_cong [OF a, of "\<lambda>z. z ! j"] j len leny by simp
    have "list_all2 (\<lambda>a b. metadata a \<noteq> None \<and> metadata a = metadata b) xs parsed"
      using sm by (simp add: sameMetadata_def)
    from list_all2_nthD [OF this j] show "metadata (xs ! j) \<noteq> None" "metadata (xs ! j) = metadata (parsed ! j)"
      by blast+
  qed
  with leny show ?thesis by (simp add: list_all2_conv_all_nth)
qed

lemma content_scan_missing: "content_scan sha True as \<noteq> content_complete"
  by (induction as) simp_all

lemma content_scan_complete:
  "content_scan sha missing as = content_complete \<Longrightarrow> \<forall>a \<in> set as. is_available (decode_item sha a)"
  by (induction as arbitrary: missing) (auto simp: content_scan_missing split: if_splits)

lemma contentState_complete: "contentState sha as = content_complete \<Longrightarrow> list_all2 (filled sha) as as"
  unfolding contentState_def
  by (rule list.rel_refl_strong) (auto dest: content_scan_complete intro: filled_self split: if_splits)

lemma filled_trans:
  assumes ab: "filled sha a b" and bc: "filled sha b c"
  shows "filled sha a c"
proof -
  obtain d where d: "\<forall>x \<in> set d. x < 256" "json_key b ''content_base64'' = Some (JStr (encode64 d))"
      "json_key a ''size'' = Some (JNum (int (length d)))"
      "\<forall>t. json_key a ''content_base64'' = Some (JStr t) \<longrightarrow> (\<exists>old. (\<forall>b \<in> set old. b < 256) \<and> t = encode64 old \<and> sha old = sha d)"
    using ab unfolding filled_def by blast
  obtain e where e: "\<forall>x \<in> set e. x < 256" "json_key c ''content_base64'' = Some (JStr (encode64 e))"
      "json_key b ''size'' = Some (JNum (int (length e)))" "\<exists>old. (\<forall>b \<in> set old. b < 256) \<and> encode64 d = encode64 old \<and> sha old = sha e"
    using bc d(2) unfolding filled_def by blast
  have "sha d = sha e" using e(4) decode_encode [OF d(1)] by (metis decode_encode)
  moreover have "map_option jsonb (json_key b ''size'') = map_option jsonb (json_key a ''size'')"
    using ab unfolding filled_def by simp
  then have "int (length e) = int (length d)" using d(3) e(3) by simp
  moreover have "\<forall>k. k \<noteq> ''content_base64'' \<longrightarrow> map_option jsonb (json_key c k) = map_option jsonb (json_key a k)"
    using ab bc unfolding filled_def by simp
  ultimately show ?thesis unfolding filled_def
    by (intro conjI exI [of _ e]) (use d e in auto)
qed

section \<open>The mailbox under repair\<close>

definition verified :: "repair_env \<Rightarrow> provenance \<Rightarrow> bool" where
  "verified env p \<longleftrightarrow> (\<exists>limit raw. rv_fetch env (pv_bucket p) (pv_object_key p) limit = Inr raw
     \<and> raw \<noteq> [] \<and> rv_sha env raw = pv_raw_sha256 p)"

definition fills_row :: "repair_env \<Rightarrow> provenance list \<Rightarrow> message \<Rightarrow> message \<Rightarrow> bool" where
  "fills_row env ps m m' \<longleftrightarrow> m' = m
     \<or> (\<exists>p as. p \<in> set ps \<and> source_row (m_tenant m) (m_id m) p \<and> source_matches (pv_object_key p) m
          \<and> verified env p \<and> list_all2 (filled (rv_sha env)) (m_attachments m) as \<and> m' = m\<lparr>m_attachments := as\<rparr>)"

definition fills :: "repair_env \<Rightarrow> mail_store \<Rightarrow> mail_store \<Rightarrow> bool" where
  "fills env s s' \<longleftrightarrow> (\<exists>M. s' = s\<lparr>ms_db := (ms_db s)\<lparr>messages := M\<rparr>\<rparr>
     \<and> list_all2 (fills_row env (ms_sources s)) (messages (ms_db s)) M)"

lemma fills_refl [simp]: "fills env s s"
  unfolding fills_def
  by (rule exI [of _ "messages (ms_db s)"]) (auto simp: fills_row_def intro: list.rel_refl_strong)

lemma fills_row_trans:
  assumes ab: "fills_row env ps a b" and bc: "fills_row env ps b c"
  shows "fills_row env ps a c"
proof (cases "b = a \<or> c = b")
  case False
  then obtain p as bs where x: "p \<in> set ps" "source_row (m_tenant a) (m_id a) p"
      "source_matches (pv_object_key p) a" "verified env p"
    and l: "list_all2 (filled (rv_sha env)) (m_attachments a) as" "b = a\<lparr>m_attachments := as\<rparr>"
      "list_all2 (filled (rv_sha env)) (m_attachments b) bs" "c = b\<lparr>m_attachments := bs\<rparr>"
    using ab bc by (auto simp: fills_row_def)
  have "list_all2 (filled (rv_sha env)) (m_attachments a) bs"
    by (rule list_all2_trans [OF _ l(1)]) (use l in \<open>auto intro: filled_trans\<close>)
  with x l show ?thesis unfolding fills_row_def by (intro disjI2 exI [of _ p] exI [of _ bs]) simp
qed (use ab bc in auto)

lemma fills_trans: "fills env a b \<Longrightarrow> fills env b c \<Longrightarrow> fills env a c"
  unfolding fills_def
proof (elim exE conjE)
  fix M N assume x: "b = a\<lparr>ms_db := (ms_db a)\<lparr>messages := M\<rparr>\<rparr>"
    "list_all2 (fills_row env (ms_sources a)) (messages (ms_db a)) M"
    "c = b\<lparr>ms_db := (ms_db b)\<lparr>messages := N\<rparr>\<rparr>" "list_all2 (fills_row env (ms_sources b)) (messages (ms_db b)) N"
  have "list_all2 (fills_row env (ms_sources a)) (messages (ms_db a)) N"
    by (rule list_all2_trans [OF fills_row_trans x(2)]) (use x in simp_all)
  with x show "\<exists>M. c = a\<lparr>ms_db := (ms_db a)\<lparr>messages := M\<rparr>\<rparr> \<and> list_all2 (fills_row env (ms_sources a)) (messages (ms_db a)) M"
    by (intro exI [of _ N]) simp
qed

text \<open>One compare-and-swap is a fill, when the object of its binding verifies.\<close>

lemma swap_fills:
  assumes "\<And>q. same_object bucket key digest q \<Longrightarrow> verified env q"
    and "list_all2 (filled (rv_sha env)) expected replacement"
  shows "fills env s (swap_attachments (swap_matches t i key bucket digest expected s) replacement s)"
proof -
  let ?P = "swap_matches t i key bucket digest expected s"
  have "fills_row env (ms_sources s) m (if ?P m then m\<lparr>m_attachments := replacement\<rparr> else m)" for m
  proof (cases "?P m")
    case True
    then obtain p where p: "p \<in> set (ms_sources s)" "source_row (m_tenant m) (m_id m) p" "same_object bucket key digest p"
        "source_matches key m" "jsonb_eq (JArr (m_attachments m)) (JArr expected)"
      by (auto simp: swap_matches_def)
    have "list_all2 (filled (rv_sha env)) (m_attachments m) replacement"
      by (rule filled_list_cong [OF p(5) assms(2)])
    with True p assms(1) [OF p(3)] show ?thesis
      unfolding fills_row_def by (auto simp: same_object_def)
  qed (simp add: fills_row_def)
  then show ?thesis unfolding fills_def swap_attachments_def update_message_def
    by (auto simp: sql_update_def list_all2_conv_all_nth)
qed

section \<open>The calls of the worker are fills\<close>

lemma plan_update_filled:
  "plan_update env parsed b = Some u \<Longrightarrow>
   ru_tenant u = rb_tenant b \<and> ru_message u = rb_message b
   \<and> list_all2 (filled (rv_sha env)) (ru_expected u) (ru_replacement u)"
  by (auto simp: plan_update_def contentState_complete replacement_filled split: if_splits)

lemma apply_update_fills:
  assumes "apply_update le bs key u s = (s', r)"
    and "\<And>b q. b \<in> set bs \<Longrightarrow> same_object (pv_bucket (rb_provenance b)) key (pv_raw_sha256 (rb_provenance b)) q
            \<Longrightarrow> verified env q"
    and "list_all2 (filled (rv_sha env)) (ru_expected u) (ru_replacement u)"
  shows "fills env s s'"
proof (cases "find (\<lambda>b. rb_tenant b = ru_tenant u \<and> rb_message b = ru_message u) bs")
  case (Some b)
  then have b: "b \<in> set bs" by (auto simp: find_Some_iff)
  note f = swap_fills [OF assms(2) [OF b] assms(3)]
  from assms(1) Some show ?thesis
    by (auto simp: apply_update_def Let_def f split: if_splits)
qed (use assms(1) in \<open>simp add: apply_update_def\<close>)

lemma apply_updates_fills:
  assumes "apply_updates le bs key us s = (s', r)"
    and "\<And>b q. b \<in> set bs \<Longrightarrow> same_object (pv_bucket (rb_provenance b)) key (pv_raw_sha256 (rb_provenance b)) q
            \<Longrightarrow> verified env q"
    and "\<And>u. u \<in> set us \<Longrightarrow> list_all2 (filled (rv_sha env)) (ru_expected u) (ru_replacement u)"
  shows "fills env s s'"
  using assms(1,3)
proof (induction us arbitrary: s)
  case (Cons u us)
  obtain s1 r1 where one: "apply_update le bs key u s = (s1, r1)" by (cases "apply_update le bs key u s")
  have f: "fills env s s1" by (rule apply_update_fills [OF one assms(2)]) (use Cons.prems(2) in simp_all)
  show ?case
  proof (cases "r1 = Inr True")
    case True
    with Cons.prems(1) one have "apply_updates le bs key us s1 = (s', r)" by simp
    then have "fills env s1 s'" by (rule Cons.IH) (use Cons.prems(2) in simp)
    with f show ?thesis by (rule fills_trans)
  next
    case False
    with Cons.prems(1) one have "s' = s1" by (auto split: sum.splits bool.splits)
    with f show ?thesis by simp
  qed
qed simp

lemma replace_fills:
  assumes "\<And>b q. b \<in> set bs \<Longrightarrow> same_object (pv_bucket (rb_provenance b)) (pv_object_key (rb_provenance (hd bs)))
      (pv_raw_sha256 (rb_provenance b)) q \<Longrightarrow> verified env q"
    and "\<And>u. u \<in> set us \<Longrightarrow> list_all2 (filled (rv_sha env)) (ru_expected u) (ru_replacement u)"
  shows "fills env s (fst (replaceAttachmentPayloadsAtomically sc le aborts bs us s))"
proof -
  have "replace_action le bs us bucket (pv_object_key (rb_provenance (hd bs))) s = (s', r) \<Longrightarrow> fills env s s'"
    for bucket s' r
    by (auto simp: replace_action_def intro: apply_updates_fills [OF _ assms] split: sum.splits if_splits)
  then show ?thesis
    by (cases bs) (auto simp: replaceAttachmentPayloadsAtomically_def Let_def
        split: prod.split sum.split bool.split)
qed

lemma source_ok:
  assumes "source_failure env limit (pv_raw_sha256 p) raw = None"
    and "rv_fetch env (pv_bucket p) (pv_object_key p) limit = Inr raw"
    and "same_object (pv_bucket p) (pv_object_key p) (pv_raw_sha256 p) q"
  shows "verified env q"
  using assms by (auto simp: source_failure_def verified_def same_object_def split: if_splits)

lemma repair_with_source_keeps:
  assumes "rv_fetch env (pv_bucket (rb_provenance (hd bs))) (pv_object_key (rb_provenance (hd bs))) limit = Inr raw"
    and "valid_bindings bucket key bs" and "bs \<noteq> []"
  shows "keeps (\<lambda>s s'. fills env s s' \<and> (\<not> ri_apply inp \<longrightarrow> s' = s)) (repair_with_source env inp limit bs raw)"
proof (cases "source_failure env limit (pv_raw_sha256 (rb_provenance (hd bs))) raw")
  case None
  have v: "verified env q" if "b \<in> set bs" "same_object (pv_bucket (rb_provenance b))
      (pv_object_key (rb_provenance (hd bs))) (pv_raw_sha256 (rb_provenance b)) q" for b q
  proof (rule source_ok [OF None assms(1)])
    obtain b0 r where bs: "bs = b0 # r" using assms(3) by (cases bs) auto
    have "pv_bucket (rb_provenance b) = pv_bucket (rb_provenance b0)"
      "pv_raw_sha256 (rb_provenance b) = pv_raw_sha256 (rb_provenance b0)"
      using assms(2) that(1) unfolding valid_bindings_def bs by auto
    with that(2) show "same_object (pv_bucket (rb_provenance (hd bs))) (pv_object_key (rb_provenance (hd bs)))
      (pv_raw_sha256 (rb_provenance (hd bs))) q" by (simp add: bs)
  qed
  have "keeps (\<lambda>s s'. fills env s s' \<and> (\<not> ri_apply inp \<longrightarrow> s' = s)) (repair_apply env inp bs us bytes)"
    if us: "all_some (map (plan_update env as) bs) = Some us" and "ri_apply inp" for as us bytes
  proof -
    have "list_all2 (filled (rv_sha env)) (ru_expected u) (ru_replacement u)" if "u \<in> set us" for u
    proof -
      have "Some u \<in> set (map (plan_update env as) bs)" using us that by (auto simp: all_some_Some)
      then show ?thesis using plan_update_filled [of env as] by auto
    qed
    with v \<open>ri_apply inp\<close> show ?thesis
      unfolding repair_apply_def by (intro keeps_sequence keeps_call) (auto intro: replace_fills)
  qed
  with None show ?thesis unfolding repair_with_source_def Let_def
    by (auto intro!: keeps_call_with split: sum.split option.split)
qed (simp add: repair_with_source_def Let_def)

lemma repair_keeps:
  "keeps (\<lambda>s s'. fills env s s' \<and> (\<not> ri_apply inp \<longrightarrow> s' = s)) (repairExistingS3ObjectAttachments env inp)"
proof -
  let ?R = "\<lambda>s s'. fills env s s' \<and> (\<not> ri_apply inp \<longrightarrow> s' = s)"
  have src: "keeps ?R (repair_source env inp limit bs)"
    if j: "judge_bindings env inp canaries route bs = None" for limit canaries route bs
  proof -
    have v: "bs \<noteq> []" "valid_bindings (rv_bucket env) (ri_key inp) bs"
      using j by (auto simp: judge_bindings_def Let_def split: if_splits)
    show ?thesis unfolding repair_source_def Let_def call_with_def
      by (rule keeps_await) (auto split: sum.split intro: repair_with_source_keeps [OF _ v(2) v(1)])
  qed
  have "keeps ?R (repair_bindings env inp canaries limit route)" for canaries limit route
    unfolding repair_bindings_def Let_def
    by (rule keeps_call_with) (auto split: sum.split option.split intro: src)
  then show ?thesis unfolding repairExistingS3ObjectAttachments_def Let_def
    by (auto split: sum.split intro!: keeps_call_with)
qed

end
