(* ===== verification/Repair_Ledger_Facts.thy ===== *)
theory Repair_Ledger_Facts
  imports Repair_Ledger
begin

text \<open>
  The integrity of the attachment-repair ledger: the CHECK constraints and keys of
  migration 0020 together with what the totals and the byte account mean, kept by every
  operation; leases, attempts and terminal entries; what makes a run complete.
\<close>

section \<open>The invariant\<close>

definition entry_ok :: "repair_entry \<Rightarrow> bool" where
  "entry_ok e \<longleftrightarrow>
     (re_claim_token e = None \<longleftrightarrow> re_lease_expires_at e = None)
     \<and> (re_claim_token e = None \<longleftrightarrow> re_reserved_bytes e = 0)
     \<and> 0 \<le> re_reserved_bytes e
     \<and> (re_status e \<noteq> es_pending \<longrightarrow> re_claim_token e = None)
     \<and> (re_operator_action e \<longrightarrow> re_status e = es_unavailable)
     \<and> 0 < re_attachment_count e
     \<and> re_attempts e \<le> MAX_ATTACHMENT_REPAIR_ATTEMPTS"

definition reserved :: "repair_entry list \<Rightarrow> int" where
  "reserved es = sum_list (map re_reserved_bytes es)"

text \<open>What a run promises of its size and its bytes; \<open>k\<close> bytes are charged but not yet reserved.\<close>

definition run_fits :: "int \<Rightarrow> repair_entry list \<Rightarrow> repair_run \<Rightarrow> bool" where
  "run_fits k es r \<longleftrightarrow>
     es \<noteq> [] \<and> run_entry_total r = length es \<and> run_inventory_total r = items (\<lambda>_. True) es
     \<and> 0 \<le> run_bytes_consumed r \<and> run_bytes_consumed r \<le> run_byte_budget r
     \<and> reserved es + k \<le> run_bytes_consumed r"

definition totals_ok :: "repair_entry list \<Rightarrow> repair_run \<Rightarrow> bool" where
  "totals_ok es r \<longleftrightarrow>
     run_repaired r + run_would_repair r + run_unavailable r + run_pending_total r = run_inventory_total r
     \<and> run_entry_repaired r + run_entry_would_repair r + run_entry_unavailable r + run_entry_pending r
         = run_entry_total r
     \<and> run_operator_action r \<le> run_unavailable r \<and> run_entry_operator_action r \<le> run_entry_unavailable r
     \<and> run_retrying r \<le> run_pending_total r \<and> run_entry_retrying r \<le> run_entry_pending r
     \<and> run_checkpoint r \<le> run_entry_total r
     \<and> run_entry_pending r = rows (has_status es_pending) es
     \<and> run_pending_total r = items (has_status es_pending) es
     \<and> run_repaired r = items (has_status es_repaired) es
     \<and> run_attempts r = sum_list (map re_attempts es)
     \<and> (run_status r = run_completed \<longleftrightarrow> run_entry_pending r = 0)
     \<and> (run_status r = run_completed \<longleftrightarrow> run_completed_at r \<noteq> None)"

definition run_key :: "repair_run \<Rightarrow> string \<times> string" where
  "run_key r = (run_tenant r, run_id r)"

definition entry_key :: "repair_entry \<Rightarrow> (string \<times> string) \<times> nat" where
  "entry_key e = ((re_tenant e, re_run e), re_position e)"

abbreviation entries_of :: "repair_run \<Rightarrow> repair_ledger \<Rightarrow> repair_entry list" where
  "entries_of r L \<equiv> run_entries (run_tenant r) (run_id r) L"

text \<open>
  \<open>ledger_but k t i\<close>: everything holds except that the totals of run \<open>(t, i)\<close> may be out of
  date, and that \<open>k\<close> bytes of that run are charged but not reserved.
\<close>

definition positions_fit :: "repair_entry list \<Rightarrow> bool" where
  "positions_fit es \<longleftrightarrow> (\<forall>e \<in> set es. re_position e < length es)"

definition ledger_but :: "int \<Rightarrow> string \<Rightarrow> string \<Rightarrow> repair_ledger \<Rightarrow> bool" where
  "ledger_but k t i L \<longleftrightarrow>
     distinct (map run_key (lg_runs L)) \<and> distinct (map entry_key (lg_entries L))
     \<and> (\<forall>e \<in> set (lg_entries L). entry_ok e)
     \<and> fst ` entry_key ` set (lg_entries L) \<subseteq> run_key ` set (lg_runs L)
     \<and> (\<forall>r \<in> set (lg_runs L). positions_fit (entries_of r L)
          \<and> run_fits (if run_key r = (t, i) then k else 0) (entries_of r L) r
          \<and> (run_key r \<noteq> (t, i) \<longrightarrow> totals_ok (entries_of r L) r))"

definition ledger_ok :: "repair_ledger \<Rightarrow> bool" where
  "ledger_ok L \<longleftrightarrow>
     distinct (map run_key (lg_runs L)) \<and> distinct (map entry_key (lg_entries L))
     \<and> (\<forall>e \<in> set (lg_entries L). entry_ok e)
     \<and> fst ` entry_key ` set (lg_entries L) \<subseteq> run_key ` set (lg_runs L)
     \<and> (\<forall>r \<in> set (lg_runs L). positions_fit (entries_of r L)
          \<and> run_fits 0 (entries_of r L) r \<and> totals_ok (entries_of r L) r)"

lemma ledger_ok_but: "ledger_ok L \<Longrightarrow> ledger_but 0 t i L"
  by (auto simp: ledger_ok_def ledger_but_def)

lemma ledger_ok_init: "ledger_ok \<lparr> lg_runs = [], lg_aliases = [], lg_entries = [] \<rparr>"
  by (simp add: ledger_ok_def)

section \<open>Counting\<close>

lemma items_Nil [simp]: "items P [] = 0" and rows_Nil [simp]: "rows P [] = 0"
  by (simp_all add: items_def rows_def)

lemma items_Cons [simp]: "items P (e # es) = (if P e then re_attachment_count e else 0) + items P es"
  by (simp add: items_def)

lemma rows_Cons [simp]: "rows P (e # es) = (if P e then 1 else 0) + rows P es"
  by (simp add: rows_def)

lemma reserved_simps [simp]: "reserved [] = 0" "reserved (e # es) = re_reserved_bytes e + reserved es"
  by (simp_all add: reserved_def)

lemma items_split:
  "items (has_status es_repaired) es + items (has_status es_would_repair) es
   + items (has_status es_unavailable) es + items (has_status es_pending) es = items (\<lambda>_. True) es"
proof (induction es)
  case (Cons e es)
  then show ?case by (cases "re_status e") simp_all
qed simp

lemma rows_split:
  "rows (has_status es_repaired) es + rows (has_status es_would_repair) es
   + rows (has_status es_unavailable) es + rows (has_status es_pending) es = length es"
proof (induction es)
  case (Cons e es)
  then show ?case by (cases "re_status e") simp_all
qed simp

lemma items_mono: "(\<And>e. e \<in> set es \<Longrightarrow> P e \<Longrightarrow> Q e) \<Longrightarrow> items P es \<le> items Q es"
  by (induction es) (auto intro!: add_mono trans_le_add2)

lemma rows_mono: "(\<And>e. e \<in> set es \<Longrightarrow> P e \<Longrightarrow> Q e) \<Longrightarrow> rows P es \<le> rows Q es"
  by (induction es) (auto intro!: le_SucI)

lemma first_pending_le:
  assumes "positions_fit es"
  shows "or_default (first_pending es) (length es) \<le> length es"
proof (cases "map re_position (filter (has_status es_pending) es)")
  case (Cons p ps)
  have "foldl min p ps \<le> p" for p :: nat and ps
  proof (induction ps arbitrary: p)
    case (Cons q qs)
    from this [of "min p q"] show ?case by simp
  qed simp
  moreover have "p \<in> re_position ` set es" using Cons by (metis (no_types, lifting) filter_is_subset image_mono list.set_intros(1) list.set_map subsetD)
  then have "p < length es" using assms by (auto simp: positions_fit_def)
  ultimately show ?thesis using Cons by (simp add: first_pending_def or_default_def) (meson le_trans less_imp_le)
qed (simp add: first_pending_def or_default_def)

lemma reconciled_totals:
  assumes "\<And>e. e \<in> set es \<Longrightarrow> entry_ok e" and "run_fits k es r" and "positions_fit es"
  shows "totals_ok es (reconciled now es r)"
proof -
  have op: "e \<in> set es \<Longrightarrow> re_operator_action e \<Longrightarrow> has_status es_unavailable e" for e
    using assms(1) by (auto simp: entry_ok_def)
  have "items re_operator_action es \<le> items (has_status es_unavailable) es"
    "rows re_operator_action es \<le> rows (has_status es_unavailable) es"
    "items retrying es \<le> items (has_status es_pending) es"
    "rows retrying es \<le> rows (has_status es_pending) es"
    by (intro items_mono rows_mono; use op in blast)+
  with assms(2) items_split [of es] rows_split [of es] first_pending_le [OF assms(3)]
  show ?thesis by (auto simp: totals_ok_def reconciled_def run_fits_def)
qed

section \<open>Updates of one run\<close>

lemma update_runs_sel [simp]:
  "lg_entries (update_runs P f L) = lg_entries L" "lg_aliases (update_runs P f L) = lg_aliases L"
  "run_entries t i (update_runs P f L) = run_entries t i L"
  by (simp_all add: update_runs_def run_entries_def)

lemma update_entries_sel [simp]:
  "lg_runs (update_entries P f L) = lg_runs L" "lg_aliases (update_entries P f L) = lg_aliases L"
  by (simp_all add: update_entries_def)

lemma run_entries_update:
  assumes "\<And>e. re_tenant (f e) = re_tenant e \<and> re_run (f e) = re_run e"
  shows "run_entries t i (update_entries P f L) = map (\<lambda>e. if P e then f e else e) (run_entries t i L)"
proof -
  have "entry_row t i (if P e then f e else e) = entry_row t i e" for e using assms [of e] by simp
  then show ?thesis
    unfolding run_entries_def update_entries_def by (simp add: filter_map comp_def)
qed

lemma run_entries_other:
  assumes "\<And>e. re_tenant (f e) = re_tenant e \<and> re_run (f e) = re_run e"
    and "\<And>e. P e \<Longrightarrow> entry_row t i e" and "(t', i') \<noteq> (t, i)"
  shows "run_entries t' i' (update_entries P f L) = run_entries t' i' L"
proof -
  have "(if P e then f e else e) = e" if "e \<in> set (run_entries t' i' L)" for e
    using that assms(2) [of e] assms(3) by (auto simp: run_entries_def)
  then show ?thesis unfolding run_entries_update [OF assms(1)] by (simp add: map_idI)
qed

text \<open>An update that keeps the identity and the size of an entry.\<close>

definition keeps_entry :: "(repair_entry \<Rightarrow> repair_entry) \<Rightarrow> bool" where
  "keeps_entry f \<longleftrightarrow> (\<forall>e. re_tenant (f e) = re_tenant e \<and> re_run (f e) = re_run e
     \<and> re_position (f e) = re_position e \<and> re_attachment_count (f e) = re_attachment_count e)"

lemma items_all_map:
  "keeps_entry f \<Longrightarrow> items (\<lambda>_. True) (map (\<lambda>e. if P e then f e else e) es) = items (\<lambda>_. True) es"
  by (induction es) (auto simp: keeps_entry_def)

lemma ledger_but_update_entries:
  assumes L: "ledger_but k t i L" and f: "keeps_entry f"
    and P: "\<And>e. P e \<Longrightarrow> entry_row t i e"
    and ok: "\<And>e. e \<in> set (lg_entries L) \<Longrightarrow> P e \<Longrightarrow> entry_ok (f e)"
    and bytes: "reserved (map (\<lambda>e. if P e then f e else e) (run_entries t i L)) + k'
      \<le> reserved (run_entries t i L) + k"
  shows "ledger_but k' t i (update_entries P f L)"
proof -
  let ?L = "update_entries P f L" and ?g = "\<lambda>e. if P e then f e else e"
  have tr: "re_tenant (f e) = re_tenant e \<and> re_run (f e) = re_run e" for e
    using f by (simp add: keeps_entry_def)
  have key: "entry_key (?g e) = entry_key e" for e using f by (simp add: entry_key_def keeps_entry_def)
  have entries: "lg_entries ?L = map ?g (lg_entries L)" by (simp add: update_entries_def)
  have keys: "map entry_key (lg_entries ?L) = map entry_key (lg_entries L)"
    unfolding entries map_map by (rule map_cong [OF refl]) (simp only: comp_apply key)
  have same: "run_entries (run_tenant r) (run_id r) ?L = run_entries (run_tenant r) (run_id r) L"
    if "run_key r \<noteq> (t, i)" for r
    by (rule run_entries_other [OF tr P]) (use that in \<open>simp_all add: run_key_def\<close>)
  have own: "run_entries t i ?L = map ?g (run_entries t i L)" by (rule run_entries_update [OF tr])
  have pos: "re_position (?g e) = re_position e" for e using f by (simp add: keeps_entry_def)
  have "positions_fit (run_entries t i L) \<Longrightarrow> positions_fit (run_entries t i ?L)"
    unfolding own positions_fit_def set_map length_map by (simp only: ball_simps(9) pos)
  moreover have "run_fits k (run_entries t i L) r \<Longrightarrow> run_fits k' (run_entries t i ?L) r" for r
    using bytes unfolding own run_fits_def by (auto simp: items_all_map [OF f])
  moreover have "fst ` entry_key ` set (lg_entries ?L) = fst ` entry_key ` set (lg_entries L)"
    by (metis keys list.set_map)
  moreover have "\<forall>e \<in> set (lg_entries ?L). entry_ok e"
    using L ok by (auto simp: entries ledger_but_def)
  ultimately show ?thesis using L same unfolding ledger_but_def keys
    by (auto simp: run_key_def split: if_splits)
qed

text \<open>An update that keeps everything of a run but its bytes and its totals.\<close>

definition keeps_run :: "(repair_run \<Rightarrow> repair_run) \<Rightarrow> bool" where
  "keeps_run f \<longleftrightarrow> (\<forall>r. run_tenant (f r) = run_tenant r \<and> run_id (f r) = run_id r
     \<and> run_entry_total (f r) = run_entry_total r \<and> run_inventory_total (f r) = run_inventory_total r
     \<and> run_byte_budget (f r) = run_byte_budget r)"

lemma ledger_but_update_runs:
  assumes L: "ledger_but k t i L" and f: "keeps_run f"
    and P: "\<And>r. P r \<Longrightarrow> run_row t i r"
    and bytes: "\<And>r. r \<in> set (lg_runs L) \<Longrightarrow> run_row t i r \<Longrightarrow> run_fits k (run_entries t i L) r \<Longrightarrow>
      run_fits k' (run_entries t i L) (if P r then f r else r)"
  shows "ledger_but k' t i (update_runs P f L)"
proof -
  let ?L = "update_runs P f L" and ?g = "\<lambda>r. if P r then f r else r"
  have key: "run_key (?g r) = run_key r" for r using f by (simp add: run_key_def keeps_run_def)
  have runs: "lg_runs ?L = map ?g (lg_runs L)" by (simp add: update_runs_def)
  have keys: "map run_key (lg_runs ?L) = map run_key (lg_runs L)"
    unfolding runs map_map by (rule map_cong [OF refl]) (simp only: comp_apply key)
  have keyset: "run_key ` set (lg_runs ?L) = run_key ` set (lg_runs L)" by (metis keys list.set_map)
  have other: "?g r = r" if "run_key r \<noteq> (t, i)" for r
    using that P [of r] by (auto simp: run_key_def)
  have es: "run_entries (run_tenant (?g r)) (run_id (?g r)) ?L = run_entries (run_tenant r) (run_id r) L" for r
    using f by (simp add: keeps_run_def)
  have "positions_fit (entries_of (?g r) ?L)
      \<and> run_fits (if run_key (?g r) = (t, i) then k' else 0) (entries_of (?g r) ?L) (?g r)
      \<and> (run_key (?g r) \<noteq> (t, i) \<longrightarrow> totals_ok (entries_of (?g r) ?L) (?g r))"
    if r: "r \<in> set (lg_runs L)" for r
  proof (cases "run_key r = (t, i)")
    case True
    then have "run_row t i r" by (simp add: run_key_def)
    with L r bytes [OF r] True show ?thesis unfolding es key by (auto simp: ledger_but_def)
  next
    case False
    with L r show ?thesis unfolding es key other [OF False] by (auto simp: ledger_but_def)
  qed
  then have all: "\<forall>r \<in> set (lg_runs ?L). positions_fit (entries_of r ?L)
      \<and> run_fits (if run_key r = (t, i) then k' else 0) (entries_of r ?L) r
      \<and> (run_key r \<noteq> (t, i) \<longrightarrow> totals_ok (entries_of r ?L) r)"
    unfolding runs set_map ball_simps(9) by (rule ballI)
  have "distinct (map run_key (lg_runs L)) \<and> distinct (map entry_key (lg_entries L))
      \<and> (\<forall>e \<in> set (lg_entries L). entry_ok e)
      \<and> fst ` entry_key ` set (lg_entries L) \<subseteq> run_key ` set (lg_runs L)"
    using L by (simp add: ledger_but_def)
  with all show ?thesis unfolding ledger_but_def keys keyset update_runs_sel(1) by blast
qed

lemma reconcile_ok:
  assumes L: "ledger_but 0 t i L"
  shows "ledger_ok (reconcileAttachmentRepairRun t i now L)"
proof -
  let ?es = "run_entries t i L"
  let ?L = "reconcileAttachmentRepairRun t i now L"
  have f: "keeps_run (reconciled now ?es)" by (simp add: keeps_run_def reconciled_def)
  have "ledger_but 0 t i ?L"
    unfolding reconcileAttachmentRepairRun_def
    by (rule ledger_but_update_runs [OF L f]) (auto simp: run_fits_def reconciled_def)
  moreover have "totals_ok (entries_of r ?L) r" if "r \<in> set (lg_runs ?L)" "run_key r = (t, i)" for r
  proof -
    have "lg_runs ?L = map (\<lambda>q. if run_row t i q then reconciled now ?es q else q) (lg_runs L)"
      by (simp add: reconcileAttachmentRepairRun_def update_runs_def)
    with that(1) have "r \<in> (\<lambda>q. if run_row t i q then reconciled now ?es q else q) ` set (lg_runs L)"
      by (simp only: set_map)
    then obtain q where q: "q \<in> set (lg_runs L)" "r = (if run_row t i q then reconciled now ?es q else q)"
      by (rule imageE)
    with that(2) f have row: "run_row t i q" by (auto simp: keeps_run_def run_key_def split: if_splits)
    then have k: "run_key q = (t, i)" by (simp add: run_key_def)
    have "totals_ok ?es (reconciled now ?es q)"
      using L q(1) k row
      by (intro reconciled_totals [where k = 0]) (auto simp: ledger_but_def run_entries_def)
    then show ?thesis using q(2) row f
      by (simp add: reconcileAttachmentRepairRun_def keeps_run_def)
  qed
  ultimately show ?thesis by (auto simp: ledger_ok_def ledger_but_def split: if_splits)
qed

section \<open>Leasing and recording keep the invariant\<close>

lemma reserved_map_le:
  "(\<And>e. e \<in> set es \<Longrightarrow> P e \<Longrightarrow> re_reserved_bytes (f e) \<le> re_reserved_bytes e) \<Longrightarrow>
   reserved (map (\<lambda>e. if P e then f e else e) es) \<le> reserved es"
proof (induction es)
  case (Cons e es)
  then have "reserved (map (\<lambda>e. if P e then f e else e) es) \<le> reserved es" by simp
  with Cons.prems [of e] show ?case by auto
qed simp

lemma reserved_map_one:
  assumes "distinct (map re_position es)" and "\<And>e. e \<in> set es \<Longrightarrow> P e \<Longrightarrow> re_position e = p"
    and "\<And>e. e \<in> set es \<Longrightarrow> P e \<Longrightarrow> re_reserved_bytes (f e) \<le> re_reserved_bytes e + b" and "0 \<le> b"
  shows "reserved (map (\<lambda>e. if P e then f e else e) es) \<le> reserved es + b"
  using assms(1-3)
proof (induction es)
  case (Cons e es)
  show ?case
  proof (cases "P e")
    case True
    have "\<not> P e'" if "e' \<in> set es" for e'
    proof
      assume "P e'"
      then have "re_position e' = re_position e" using Cons.prems(2) True that by simp
      with Cons.prems(1) that show False by (metis distinct.simps(2) imageI list.set_map list.simps(9))
    qed
    then have "map (\<lambda>e. if P e then f e else e) es = es" by (simp add: map_idI)
    with Cons.prems(3) [of e] True show ?thesis by simp
  qed (use Cons in simp)
qed (use assms(4) in simp)

lemma run_entries_distinct:
  "distinct (map entry_key (lg_entries L)) \<Longrightarrow> distinct (map re_position (run_entries t i L))"
  unfolding run_entries_def
proof (induction "lg_entries L" arbitrary: L)
  case (Cons e es)
  let ?L = "L\<lparr>lg_entries := es\<rparr>"
  from Cons.hyps(2) [symmetric] Cons.prems have d: "distinct (map entry_key es)" "entry_key e \<notin> entry_key ` set es"
    by auto
  from Cons.hyps(1) [of ?L] d have "distinct (map re_position (filter (entry_row t i) es))" by simp
  moreover have "entry_row t i e \<Longrightarrow> re_position e \<notin> re_position ` set (filter (entry_row t i) es)"
    using d(2) by (auto simp: entry_key_def image_iff)
  ultimately show ?case unfolding Cons.hyps(2) [symmetric] by auto
qed simp

lemma give_up_but:
  assumes "ledger_but 0 t i L"
  shows "ledger_but 0 t i (give_up t i now reason P L)"
  unfolding give_up_def
proof (rule ledger_but_update_entries [OF assms])
  show "keeps_entry (set_unavailable now reason)" by (simp add: keeps_entry_def set_unavailable_def)
  show "entry_ok (set_unavailable now reason e)" if "e \<in> set (lg_entries L)" for e
    using assms that by (auto simp: ledger_but_def entry_ok_def set_unavailable_def)
  have "0 \<le> re_reserved_bytes e" if "e \<in> set (run_entries t i L)" for e
    using assms that by (auto simp: ledger_but_def entry_ok_def run_entries_def)
  then show "reserved (map (\<lambda>e. if entry_row t i e \<and> re_status e = es_pending \<and> P e \<and> unleased now e
        then set_unavailable now reason e else e) (run_entries t i L)) + 0 \<le> reserved (run_entries t i L) + 0"
    using reserved_map_le [of "run_entries t i L"
      "\<lambda>e. entry_row t i e \<and> re_status e = es_pending \<and> P e \<and> unleased now e" "set_unavailable now reason"]
    by (simp add: set_unavailable_def)
qed auto

lemma give_up_all_ok: "ledger_but 0 t i L \<Longrightarrow> ledger_ok (give_up_all t i now reason L)"
  unfolding give_up_all_def by (intro reconcile_ok give_up_but)

lemma charge_but:
  assumes "ledger_but 0 t i L" and "0 \<le> b"
    and "\<And>r. r \<in> set (lg_runs L) \<Longrightarrow> run_row t i r \<Longrightarrow> run_bytes_consumed r + b \<le> run_byte_budget r"
  shows "ledger_but b t i (charge t i now b L)"
  unfolding charge_def
  by (rule ledger_but_update_runs [OF assms(1)])
    (use assms(2,3) in \<open>auto simp: keeps_run_def run_fits_def\<close>)

lemma claim_selected_ok:
  assumes L: "ledger_but 0 (sc_tenant sc) i L" and b: "0 < b"
    and room: "\<And>r. r \<in> set (lg_runs L) \<Longrightarrow> run_row (sc_tenant sc) i r \<Longrightarrow> run_bytes_consumed r + b \<le> run_byte_budget r"
    and e: "e \<in> set (lg_entries L)" "claimable (sc_tenant sc) i now e"
  shows "ledger_ok (fst (claim_selected sc i now leaseMs token b (re_position e) L))"
proof -
  let ?t = "sc_tenant sc" and ?P = "\<lambda>x. entry_row (sc_tenant sc) i x \<and> re_position x = re_position e"
  let ?L = "charge ?t i now b L"
  have entries: "lg_entries ?L = lg_entries L" "run_entries ?t i ?L = run_entries ?t i L"
    by (simp_all add: charge_def)
  have ch: "ledger_but b ?t i ?L" by (rule charge_but [OF L]) (use b room in auto)
  have dist: "distinct (map entry_key (lg_entries L))" using L by (simp add: ledger_but_def)
  have one: "x = e" if "x \<in> set (lg_entries L)" "?P x" for x
    using that e dist by (auto simp: claimable_def entry_key_def distinct_map inj_on_def)
  have "ledger_but 0 ?t i (update_entries ?P (set_claimed now token leaseMs b) ?L)"
  proof (rule ledger_but_update_entries [OF ch])
    show "entry_ok (set_claimed now token leaseMs b x)" if "x \<in> set (lg_entries ?L)" "?P x" for x
      using one [of x] that e L b
      by (auto simp: entries ledger_but_def entry_ok_def set_claimed_def claimable_def)
    have "0 \<le> re_reserved_bytes x" if "x \<in> set (run_entries ?t i L)" for x
      using L that by (auto simp: ledger_but_def entry_ok_def run_entries_def)
    then have "reserved (map (\<lambda>x. if ?P x then set_claimed now token leaseMs b x else x) (run_entries ?t i L))
        \<le> reserved (run_entries ?t i L) + b"
      by (intro reserved_map_one [where p = "re_position e"] run_entries_distinct dist)
        (use b in \<open>auto simp: set_claimed_def\<close>)
    then show "reserved (map (\<lambda>x. if ?P x then set_claimed now token leaseMs b x else x) (run_entries ?t i ?L)) + 0
        \<le> reserved (run_entries ?t i ?L) + b" by (simp add: entries)
  qed (auto simp: keeps_entry_def set_claimed_def)
  then show ?thesis unfolding claim_selected_def Let_def fst_conv by (rule reconcile_ok)
qed

lemma stable_sort_hd:
  assumes "stable_sort le xs = y # ys"
  shows "y \<in> set xs"
  by (metis assms list.set_intros(1) set_stable_sort)

lemma give_up_runs [simp]: "lg_runs (give_up t i now reason P L) = lg_runs L"
  by (simp add: give_up_def)

lemma claim_entry_ok:
  assumes L: "ledger_but 0 (sc_tenant sc) i L"
    and room: "\<And>r. r \<in> set (lg_runs L) \<Longrightarrow> run_row (sc_tenant sc) i r \<Longrightarrow>
      run_byte_budget r - run_bytes_consumed r = remaining"
  shows "ledger_ok (fst (claim_entry sc i now leaseMs token remaining L))"
proof -
  let ?t = "sc_tenant sc"
  let ?L = "give_up ?t i now ''retry_exhausted'' (\<lambda>e. MAX_ATTACHMENT_REPAIR_ATTEMPTS \<le> re_attempts e) L"
  have g: "ledger_but 0 ?t i ?L" by (rule give_up_but [OF L])
  show ?thesis
  proof (cases "\<not> safe_integer remaining \<or> remaining \<le> 0")
    case True
    then show ?thesis unfolding claim_entry_def Let_def if_P [OF True] fst_conv by (intro give_up_all_ok g)
  next
    case False
    show ?thesis
    proof (cases "stable_sort entry_order (filter (claimable ?t i now) (lg_entries ?L))")
      case Nil
      with False show ?thesis by (simp add: claim_entry_def Let_def reconcile_ok [OF g])
    next
      case (Cons e es)
      have "e \<in> set (lg_entries ?L) \<and> claimable ?t i now e" using stable_sort_hd [OF Cons] by simp
      then have "ledger_ok (fst (claim_selected sc i now leaseMs token
          (min MAX_ATTACHMENT_REPAIR_SOURCE_BYTES remaining) (re_position e) ?L))"
        using False room
        by (intro claim_selected_ok [OF g]) (fastforce simp: MAX_ATTACHMENT_REPAIR_SOURCE_BYTES_def)+
      with Cons False show ?thesis by (simp add: claim_entry_def Let_def)
    qed
  qed
qed

lemma runs_unique:
  "distinct (map run_key (lg_runs L)) \<Longrightarrow> find (run_row t i) (lg_runs L) = Some r \<Longrightarrow>
   q \<in> set (lg_runs L) \<Longrightarrow> run_row t i q \<Longrightarrow> q = r"
  by (auto dest!: find_SomeD simp: distinct_map inj_on_def run_key_def)

lemma claim_run_ok:
  assumes "ledger_ok L"
  shows "ledger_ok (fst (claim_run sc i leaseMs now wall token L))"
proof (cases "find (run_row (sc_tenant sc) i) (lg_runs L)")
  case (Some r)
  note but = ledger_ok_but [OF assms, of "sc_tenant sc" i]
  have "q = r" if "q \<in> set (lg_runs L)" "run_row (sc_tenant sc) i q" for q
    using assms Some that by (intro runs_unique) (auto simp: ledger_ok_def)
  then have "ledger_ok (fst (claim_entry sc i now leaseMs token (run_byte_budget r - run_bytes_consumed r) L))"
    by (intro claim_entry_ok [OF but]) auto
  then show ?thesis using assms but Some by (auto simp: claim_run_def give_up_all_ok)
qed (use assms in \<open>simp add: claim_run_def\<close>)

lemma ledger_lock_keeps:
  assumes "P L" and "P (fst (action L))"
  shows "P (fst (withAttachmentRepairLedgerLock sc action L))"
  using assms by (auto simp: withAttachmentRepairLedgerLock_def ledger_transaction_def
      split: prod.split sum.split)

lemma claim_keeps_ok:
  "ledger_ok L \<Longrightarrow> ledger_ok (fst (claimAttachmentRepairEntry sc i leaseMs now wall token L))"
  by (auto simp: claimAttachmentRepairEntry_def intro: ledger_lock_keeps [where P = ledger_ok] claim_run_ok)

lemma refund_but:
  assumes L: "ledger_but 0 t i L" and "0 \<le> b" and "b \<le> reserved (run_entries t i L)"
  shows "ledger_but (- b) t i (refund t i now b L)"
proof (cases "0 < b")
  case True
  then show ?thesis unfolding refund_def if_P [OF True]
    by (intro ledger_but_update_runs [OF L]) (use assms(3) in \<open>auto simp: keeps_run_def run_fits_def\<close>)
qed (use L assms(2) in \<open>simp add: refund_def\<close>)

lemma refund_entries [simp]:
  "lg_entries (refund t i now b L) = lg_entries L" "run_entries t' i' (refund t i now b L) = run_entries t' i' L"
  by (simp_all add: refund_def)

lemma final_outcome_facts:
  assumes "entry_ok e"
  shows "0 \<le> ro_refund (final_outcome wall run e status code b)"
    and "ro_refund (final_outcome wall run e status code b) \<le> re_reserved_bytes e"
  using assms by (auto simp: final_outcome_def entry_ok_def Let_def split: option.splits)

lemma reserved_ge:
  "(\<And>e. e \<in> set es \<Longrightarrow> 0 \<le> re_reserved_bytes e) \<Longrightarrow> e \<in> set es \<Longrightarrow> re_reserved_bytes e \<le> reserved es"
proof (induction es)
  case (Cons x es)
  have "0 \<le> reserved es" using Cons.prems(1) unfolding reserved_def by (intro sum_list_nonneg) auto
  moreover have "e \<in> set es \<Longrightarrow> re_reserved_bytes e \<le> reserved es" using Cons by simp
  moreover have "0 \<le> re_reserved_bytes x" using Cons.prems(1) by simp
  ultimately show ?case using Cons.prems(2) by auto
qed simp

lemma reserved_map_release:
  assumes "\<And>e. e \<in> set es \<Longrightarrow> 0 \<le> re_reserved_bytes e" and "e \<in> set es" and "P e"
    and "\<And>x. re_reserved_bytes (f x) = 0"
  shows "reserved (map (\<lambda>x. if P x then f x else x) es) + re_reserved_bytes e \<le> reserved es"
  using assms(1,2)
proof (induction es)
  case (Cons x es)
  let ?m = "\<lambda>es. reserved (map (\<lambda>x. if P x then f x else x) es)"
  have "?m es \<le> reserved es" by (rule reserved_map_le) (use Cons.prems(1) assms(4) in simp)
  moreover have "e \<in> set es \<Longrightarrow> ?m es + re_reserved_bytes e \<le> reserved es" using Cons by simp
  moreover have "0 \<le> re_reserved_bytes x" using Cons.prems(1) by simp
  ultimately show ?case using Cons.prems(2) assms(3,4) by (cases "P x") auto
qed simp

lemma record_outcome_cases:
  obtains (skip) "record_outcome sc i position token status code b now wall L = (L, Inr ())"
  | (own) run e where "find (run_row (sc_tenant sc) i) (lg_runs L) = Some run"
      "find (\<lambda>e. entry_row (sc_tenant sc) i e \<and> re_position e = position) (lg_entries L) = Some e"
      "re_status e = es_pending" "re_claim_token e = Some token"
proof (cases "find (run_row (sc_tenant sc) i) (lg_runs L)")
  case None
  then show ?thesis by (intro skip) (simp add: record_outcome_def Let_def)
next
  case (Some run)
  show ?thesis
  proof (cases "find (\<lambda>e. entry_row (sc_tenant sc) i e \<and> re_position e = position) (lg_entries L)")
    case None
    with Some show ?thesis by (intro skip) (simp add: record_outcome_def Let_def)
  next
    case e: (Some e)
    show ?thesis
    proof (cases "re_status e = es_pending \<and> re_claim_token e = Some token")
      case True
      then show ?thesis using own [OF Some e] by simp
    qed (use Some e in \<open>intro skip; auto simp: record_outcome_def Let_def\<close>)
  qed
qed

lemma record_outcome_ok:
  assumes L: "ledger_ok L"
  shows "case record_outcome sc i position token status code b now wall L of
    (L', r) \<Rightarrow> (\<exists>e. r = Inl e) \<or> ledger_ok L'"
proof -
  let ?t = "sc_tenant sc"
  let ?row = "\<lambda>e. entry_row ?t i e \<and> re_position e = position"
  show ?thesis
  proof (cases rule: record_outcome_cases [of sc i position token status code b now wall L])
    case skip
    with L show ?thesis by simp
  next
    case (own run e)
    let ?o = "final_outcome wall run e status code b"
    let ?L = "refund ?t i now (ro_refund ?o) L"
    let ?P = "\<lambda>x. ?row x \<and> re_claim_token x = Some token"
    have e: "e \<in> set (lg_entries L)" "?row e" using own(2) by (auto dest: find_SomeD)
    have nonneg: "0 \<le> re_reserved_bytes x" if "x \<in> set (run_entries ?t i L)" for x
      using L that by (auto simp: ledger_ok_def entry_ok_def run_entries_def)
    have ok: "entry_ok e" and mem: "e \<in> set (run_entries ?t i L)"
      using e L by (auto simp: ledger_ok_def run_entries_def)
    have but: "ledger_but (- ro_refund ?o) ?t i ?L"
      by (rule refund_but [OF ledger_ok_but [OF L] final_outcome_facts(1) [OF ok]])
        (rule order_trans [OF final_outcome_facts(2) [OF ok] reserved_ge [OF nonneg mem]])
    show ?thesis
    proof (cases "ro_operator_action ?o \<and> ro_status ?o \<noteq> es_unavailable")
      case False
      have "ledger_but 0 ?t i (update_entries ?P (set_outcome now ?o) ?L)"
      proof (rule ledger_but_update_entries [OF but])
        show "entry_ok (set_outcome now ?o x)" if "x \<in> set (lg_entries ?L)" for x
          using that L False by (auto simp: ledger_ok_def entry_ok_def set_outcome_def)
        have "reserved (map (\<lambda>x. if ?P x then set_outcome now ?o x else x) (run_entries ?t i L))
            + re_reserved_bytes e \<le> reserved (run_entries ?t i L)"
          using own e by (intro reserved_map_release nonneg mem) (auto simp: set_outcome_def)
        then show "reserved (map (\<lambda>x. if ?P x then set_outcome now ?o x else x) (run_entries ?t i ?L)) + 0
            \<le> reserved (run_entries ?t i ?L) + - ro_refund ?o"
          using final_outcome_facts(2) [OF ok, of wall run status code b] by simp
      qed (auto simp: keeps_entry_def set_outcome_def)
      from reconcile_ok [OF this, of now] False own show ?thesis
        by (simp add: record_outcome_def Let_def)
    qed (use own in \<open>auto simp: record_outcome_def Let_def\<close>)
  qed
qed

text \<open>A refused call leaves the ledger as it was; that needs the transaction.\<close>

lemma ledger_lock_atomic:
  assumes "sc_atomic sc" and "P L" and "case action L of (L', r) \<Rightarrow> (\<exists>e. r = Inl e) \<or> P L'"
  shows "P (fst (withAttachmentRepairLedgerLock sc action L))"
  using assms by (auto simp: withAttachmentRepairLedgerLock_def ledger_transaction_def
      split: prod.splits sum.splits)

lemma record_keeps_ok:
  "sc_atomic sc \<Longrightarrow> ledger_ok L \<Longrightarrow>
   ledger_ok (fst (recordAttachmentRepairEntryOutcome sc i position token status code b now wall L))"
  using ledger_lock_atomic [of sc ledger_ok L, OF _ _ record_outcome_ok]
  by (simp add: recordAttachmentRepairEntryOutcome_def)

section \<open>Creating a run keeps the invariant\<close>

lemma prepare_entries_facts:
  "prepare_entries ivs p es = Inr ls \<Longrightarrow> (\<And>e. e \<in> set es \<Longrightarrow> me_canary_message_ids e \<noteq> []) \<Longrightarrow>
   map le_entry ls = es \<and> map le_position ls = [p..<p + length es] \<and> (\<forall>l \<in> set ls. 0 < le_attachment_count l)"
proof (induction es arbitrary: p ls)
  case (Cons e es)
  from Cons.prems(1) obtain l ks where l: "prepare_entry ivs p e = Inr l" and
    ks: "prepare_entries ivs (Suc p) es = Inr ks" and ls: "ls = l # ks"
    by (auto split: sum.splits)
  let ?rows = "filter (\<lambda>r. iv_object_key r = me_object_key e) ivs"
  from l have lf: "le_entry l = e" "le_position l = p" "le_attachment_count l = sum_list (map iv_attachment_count ?rows)"
    "length ?rows = length (me_canary_message_ids e)" "\<forall>r \<in> set ?rows. 0 < iv_attachment_count r"
    by (auto simp: prepare_entry_def Let_def split: if_splits)
  moreover from lf(4) Cons.prems(2) [of e] obtain r rs where "?rows = r # rs" by (cases ?rows) auto
  then have "0 < sum_list (map iv_attachment_count ?rows)" using lf(5) by simp
  ultimately show ?case using Cons.IH [OF ks] Cons.prems(2) by (auto simp: ls upt_rec)
qed simp

lemma manifest_entry_of_canaries:
  "manifest_entry_of v = Inr e \<Longrightarrow> me_canary_message_ids e \<noteq> []"
  by (auto simp: manifest_entry_of_def Let_def split: if_splits option.splits)

lemma normalize_entries_facts:
  "normalize_entries keys ids vs = Inr es \<Longrightarrow>
   length es = length vs \<and> (\<forall>e \<in> set es. me_canary_message_ids e \<noteq> [])
   \<and> distinct (map me_object_key es) \<and> set (map me_object_key es) \<inter> set keys = {}
   \<and> distinct (concat (map me_canary_message_ids es))
   \<and> set (concat (map me_canary_message_ids es)) \<inter> set ids = {}"
proof (induction vs arbitrary: keys ids es)
  case (Cons v vs)
  from Cons.prems obtain e fs where e: "manifest_entry_of v = Inr e"
    "normalize_entries (me_object_key e # keys) (me_canary_message_ids e @ ids) vs = Inr fs" "es = e # fs"
    "me_object_key e \<notin> set keys" "distinct (me_canary_message_ids e)"
    "set (me_canary_message_ids e) \<inter> set ids = {}"
    by (auto split: sum.splits if_splits)
  from Cons.IH [OF e(2)] manifest_entry_of_canaries [OF e(1)] e(3-) show ?case by auto
qed simp

lemma bind_alias_sel:
  "lg_runs (fst (bind_alias sc d i h L)) = lg_runs L" "lg_entries (fst (bind_alias sc d i h L)) = lg_entries L"
  by (auto simp: bind_alias_def split: option.split)

lemma bound_run_sel:
  "lg_runs (fst (bound_run sc d r L)) = lg_runs L" "lg_entries (fst (bound_run sc d r L)) = lg_entries L"
  by (auto simp: bound_run_def bind_alias_sel split: prod.split sum.split)
    (metis bind_alias_sel fst_conv)+

lemma ledger_ok_cong:
  "lg_runs L' = lg_runs L \<Longrightarrow> lg_entries L' = lg_entries L \<Longrightarrow> ledger_ok L' = ledger_ok L"
  by (simp add: ledger_ok_def run_entries_def)

lemma expire_runs_ok: "ledger_ok L \<Longrightarrow> ledger_ok (expire_runs t now L)"
proof -
  assume L: "ledger_ok L"
  have "ledger_ok (fold (\<lambda>i. give_up_all t i now reason) is L)" for "is" reason
    using L by (induction "is" arbitrary: L) (simp_all add: give_up_all_ok ledger_ok_but)
  then show ?thesis by (simp add: expire_runs_def)
qed

lemma new_entries_facts:
  shows "items (\<lambda>_. True) (map (new_entry sc now fresh) ls) = sum_list (map le_attachment_count ls)"
    and "items (has_status es_pending) (map (new_entry sc now fresh) ls) = sum_list (map le_attachment_count ls)"
    and "items (has_status es_repaired) (map (new_entry sc now fresh) ls) = 0"
    and "rows (has_status es_pending) (map (new_entry sc now fresh) ls) = length ls"
    and "reserved (map (new_entry sc now fresh) ls) = 0"
    and "sum_list (map re_attempts (map (new_entry sc now fresh) ls)) = 0"
  by (induction ls) (auto simp: new_entry_def)

lemma insert_new_run_ok:
  assumes L: "ledger_ok L" and fresh: "\<not> (\<exists>q \<in> set (lg_runs L). run_conflict r q)"
    and r: "r = new_run sc policy now fresh digest hash app ls"
    and budget: "0 < rp_runByteBudget policy"
    and ls: "ls \<noteq> []" "map le_position ls = [0..<length ls]" "\<forall>l \<in> set ls. 0 < le_attachment_count l"
    and L': "lg_runs L' = lg_runs L @ [r]" "lg_entries L' = lg_entries L @ map (new_entry sc now fresh) ls"
  shows "ledger_ok L'"
proof -
  let ?new = "map (new_entry sc now fresh) ls" and ?t = "sc_tenant sc"
  have rk: "run_key r = (?t, fresh)" by (simp add: r run_key_def new_run_def Let_def)
  have notin: "run_key r \<notin> run_key ` set (lg_runs L)"
    using fresh by (auto simp: run_conflict_def run_key_def)
  have none: "run_entries ?t fresh L = []"
    using L notin rk by (force simp: run_entries_def filter_empty_conv ledger_ok_def entry_key_def)
  have newrow: "e \<in> set ?new \<Longrightarrow> fst (entry_key e) = (?t, fresh)" for e
    by (auto simp: new_entry_def entry_key_def)
  have es: "run_entries ?t fresh L' = ?new"
  proof -
    have "filter (entry_row ?t fresh) ?new = ?new" by (simp add: filter_id_conv new_entry_def)
    with none show ?thesis by (simp add: run_entries_def L')
  qed
  have other: "run_entries t i L' = run_entries t i L" if "(t, i) \<noteq> (?t, fresh)" for t i
    using that by (auto simp: run_entries_def L' filter_empty_conv new_entry_def)
  have keys: "map entry_key ?new = map (\<lambda>p. ((?t, fresh), p)) [0..<length ls]"
    unfolding ls(2) [symmetric] by (simp add: entry_key_def new_entry_def)
  have ni: "entry_key e \<notin> entry_key ` set (lg_entries L)" if "e \<in> set ?new" for e
    using L newrow [OF that] notin rk by (auto simp: ledger_ok_def) (metis imageI image_eqI subsetD)
  have "set (map entry_key (lg_entries L)) \<inter> set (map entry_key ?new) = {}"
  proof (rule equals0I)
    fix k assume "k \<in> set (map entry_key (lg_entries L)) \<inter> set (map entry_key ?new)"
    then have "k \<in> entry_key ` set (lg_entries L)" "k \<in> entry_key ` set ?new" by (simp_all only: Int_iff set_map)
    then obtain e where "e \<in> set ?new" "entry_key e \<in> entry_key ` set (lg_entries L)" by (elim imageE) simp
    with ni show False by blast
  qed
  moreover have "distinct (map entry_key ?new)" unfolding keys by (simp add: distinct_map inj_on_def)
  ultimately have d: "distinct (map entry_key (lg_entries L'))"
    using L unfolding L' map_append distinct_append ledger_ok_def by blast
  have "le_position l < length ls" if "l \<in> set ls" for l
    using that ls(2) by (metis atLeastLessThan_iff imageI list.set_map set_upt)
  then have "positions_fit ?new" by (auto simp: positions_fit_def new_entry_def)
  then have new_ok: "positions_fit ?new \<and> run_fits 0 ?new r \<and> totals_ok ?new r"
    using ls(1) budget new_entries_facts [where ls = ls and sc = sc and now = now and fresh = fresh]
    by (simp add: run_fits_def totals_ok_def r new_run_def Let_def comp_def)
  have "\<forall>e \<in> set ?new. entry_ok e"
    using ls(3) by (auto simp: entry_ok_def new_entry_def)
  then have eok: "\<forall>e \<in> set (lg_entries L'). entry_ok e" using L by (auto simp: L' ledger_ok_def)
  have own: "fst ` entry_key ` set (lg_entries L') \<subseteq> run_key ` set (lg_runs L')"
    using L newrow rk unfolding L' set_append image_Un ledger_ok_def by fastforce
  have old: "positions_fit (entries_of q L') \<and> run_fits 0 (entries_of q L') q \<and> totals_ok (entries_of q L') q"
    if "q \<in> set (lg_runs L)" for q
  proof -
    have "(run_tenant q, run_id q) \<noteq> (?t, fresh)" using that notin rk by (force simp: run_key_def)
    from other [OF this] that L show ?thesis by (simp add: ledger_ok_def)
  qed
  have "entries_of r L' = ?new" using es rk by (simp add: run_key_def)
  with old new_ok have runs: "\<forall>q \<in> set (lg_runs L'). positions_fit (entries_of q L')
      \<and> run_fits 0 (entries_of q L') q \<and> totals_ok (entries_of q L') q"
    unfolding L'(1) by simp
  have "distinct (map run_key (lg_runs L'))" using L notin by (simp add: L' ledger_ok_def)
  with d eok own runs show ?thesis by (simp add: ledger_ok_def)
qed

lemma insert_run_ok:
  assumes L: "ledger_ok L" and r: "r = new_run sc policy now fresh digest hash app ls"
    and budget: "0 < rp_runByteBudget policy"
    and ls: "ls \<noteq> []" "map le_position ls = [0..<length ls]" "\<forall>l \<in> set ls. 0 < le_attachment_count l"
  shows "case insert_run sc now digest r ls L of (L', x) \<Rightarrow> (\<exists>e. x = Inl e) \<or> ledger_ok L'"
proof (cases "\<exists>q \<in> set (lg_runs L). run_conflict r q")
  case True
  have "ledger_ok (fst (bound_run sc digest q L))" for q
    using L ledger_ok_cong bound_run_sel by blast
  then show ?thesis using L True by (auto simp: insert_run_def case_prod_beta split: option.split)
next
  case False
  let ?L = "L\<lparr>lg_runs := lg_runs L @ [r]\<rparr>"
  obtain L1 x where b: "bound_run sc digest r ?L = (L1, x)" by fastforce
  have sel: "lg_runs L1 = lg_runs L @ [r]" "lg_entries L1 = lg_entries L"
    using bound_run_sel [of sc digest r ?L] b by simp_all
  have id: "run_id r = fresh" by (simp add: r new_run_def Let_def)
  have "ledger_ok (L1\<lparr>lg_entries := lg_entries L1 @ map (new_entry sc now fresh) ls\<rparr>)"
    by (rule insert_new_run_ok [OF L False r budget ls]) (simp_all add: sel)
  with False b id show ?thesis by (auto simp: insert_run_def split: sum.split)
qed

lemma earlier_run_ok:
  assumes L: "ledger_ok L" and e: "earlier_run sc digest hash L = Some x"
  shows "ledger_ok (fst x)"
proof -
  have b: "ledger_ok (fst (bound_run sc digest q L))" for q
    using L ledger_ok_cong [OF bound_run_sel] by simp
  from e show ?thesis unfolding earlier_run_def Let_def
    by (auto simp: L b split: if_split_asm option.split_asm)
qed

definition entries_fit :: "manifest_entry list \<Rightarrow> bool" where
  "entries_fit es \<longleftrightarrow> es \<noteq> [] \<and> length es \<le> MAX_ATTACHMENT_REPAIR_MANIFEST_ITEMS
     \<and> (\<forall>e \<in> set es. me_canary_message_ids e \<noteq> [])"

lemma prepared_facts:
  assumes "prepareAttachmentRepairManifest sc bucket es s = Inr (ls, snaps)" and "entries_fit es"
  shows "ls \<noteq> []" "map le_position ls = [0..<length ls]" "\<forall>l \<in> set ls. 0 < le_attachment_count l"
    "length ls = length es"
proof -
  have "prepare_entries (inventory_rows sc bucket (map me_object_key es) s) 0 es = Inr ls"
    using assms(1) by (auto simp: prepareAttachmentRepairManifest_def Let_def split: sum.splits option.splits)
  note f = prepare_entries_facts [OF this]
  have "map le_entry ls = es" "map le_position ls = [0..<length es]" "\<forall>l \<in> set ls. 0 < le_attachment_count l"
    using f assms(2) by (auto simp: entries_fit_def)
  then show "ls \<noteq> []" "map le_position ls = [0..<length ls]" "\<forall>l \<in> set ls. 0 < le_attachment_count l"
    "length ls = length es" using assms(2) by (auto simp: entries_fit_def)
qed

lemma create_action_ok:
  assumes L: "ledger_ok L" and "0 < rp_runByteBudget policy" and "entries_fit entries"
  shows "case create_action sc le policy s now fresh bucket entries app reviewed digest L of
    (L', x) \<Rightarrow> (\<exists>e. x = Inl e) \<or> ledger_ok L'"
proof (cases "prepareAttachmentRepairManifest sc bucket entries s")
  case (Inr p)
  obtain ls snaps where p: "p = (ls, snaps)" by fastforce
  let ?hash = "attachmentRepairRequestHash sc le bucket entries app snaps"
  note facts = prepared_facts [OF Inr [unfolded p] assms(3)]
  have ins: "case insert_run sc now digest (new_run sc policy now fresh digest ?hash app ls) ls
      (expire_runs (sc_tenant sc) now L) of (L', x) \<Rightarrow> (\<exists>e. x = Inl e) \<or> ledger_ok L'"
    by (rule insert_run_ok [OF expire_runs_ok [OF L] refl assms(2) facts(1-3)])
  show ?thesis
  proof (cases "earlier_run sc digest ?hash L")
    case None
    with ins show ?thesis by (auto simp: create_action_def Inr p Let_def split: option.split)
  next
    case (Some x)
    with earlier_run_ok [OF L Some] show ?thesis
      by (auto simp: create_action_def Inr p Let_def split: prod.split)
  qed
qed (simp add: create_action_def)

lemma normalized_fit:
  "normalizeAttachmentRepairManifestEntries vs = Inr es \<Longrightarrow> entries_fit es"
  using normalize_entries_facts [of "[]" "[]" vs es]
  by (auto simp: normalizeAttachmentRepairManifestEntries_def entries_fit_def split: if_splits)

lemma create_keeps_ok:
  assumes "sc_atomic sc" and "ledger_ok L" and "0 < rp_runByteBudget policy"
  shows "ledger_ok (fst (createOrGetAttachmentRepairRun sc le policy s now fresh rq L))"
proof (cases "normalizeAttachmentRepairManifestEntries (rr_entries rq)")
  case (Inr entries)
  have "ledger_ok (fst (withAttachmentRepairLedgerLock sc
      (create_action sc le policy s now fresh bucket entries app reviewed digest) L))" for bucket app reviewed digest
    by (rule ledger_lock_atomic [where P = ledger_ok])
      (rule assms create_action_ok normalized_fit [OF Inr])+
  then show ?thesis using assms(2) by (simp add: createOrGetAttachmentRepairRun_def Let_def Inr)
qed (use assms(2) in \<open>simp add: createOrGetAttachmentRepairRun_def Let_def\<close>)

end
