(* ===== verification/Repair_Ledger_Trace.thy ===== *)
theory Repair_Ledger_Trace
  imports Repair_Ledger_Facts
begin

text \<open>
  The attachment-repair ledger under any interleaving of its callers: the step relation of
  the ledger, what one step may do to an entry, terminal entries and leases, and the log of
  granted and settled attempts against which the attempt and byte limits are stated.
\<close>

section \<open>Steps\<close>

text \<open>\<open>ledger_step now tok\<close>: one call at database time \<open>now\<close>; \<open>tok\<close> is the claim token of a record.\<close>

inductive ledger_step :: "int \<Rightarrow> string option \<Rightarrow> repair_ledger \<Rightarrow> repair_ledger \<Rightarrow> bool" where
  step_create: "sc_atomic sc \<Longrightarrow> 0 < rp_runByteBudget policy \<Longrightarrow>
     ledger_step now None L (fst (createOrGetAttachmentRepairRun sc le policy s now fresh rq L))"
| step_claim: "sc_atomic sc \<Longrightarrow>
     ledger_step now None L (fst (claimAttachmentRepairEntry sc i leaseMs now wall token L))"
| step_record: "sc_atomic sc \<Longrightarrow>
     ledger_step now (Some token) L
       (fst (recordAttachmentRepairEntryOutcome sc i position token status code b now wall L))"

definition ledger_next :: "repair_ledger \<Rightarrow> repair_ledger \<Rightarrow> bool" where
  "ledger_next L L' \<longleftrightarrow> (\<exists>now tok. ledger_step now tok L L')"

definition empty_ledger :: repair_ledger where
  "empty_ledger = \<lparr> lg_runs = [], lg_aliases = [], lg_entries = [] \<rparr>"

lemma ledger_step_ok: "ledger_step now tok L L' \<Longrightarrow> ledger_ok L \<Longrightarrow> ledger_ok L'"
  by (induction rule: ledger_step.induct) (simp_all add: create_keeps_ok claim_keeps_ok record_keeps_ok)

lemma ledger_steps_ok: "ledger_next\<^sup>*\<^sup>* L L' \<Longrightarrow> ledger_ok L \<Longrightarrow> ledger_ok L'"
  by (induction rule: rtranclp_induct) (auto simp: ledger_next_def dest: ledger_step_ok)

lemma empty_ledger_ok: "ledger_ok empty_ledger"
  by (simp add: empty_ledger_def ledger_ok_init)

section \<open>What a step does to an entry\<close>

inductive entry_step :: "int \<Rightarrow> string option \<Rightarrow> repair_entry \<Rightarrow> repair_entry \<Rightarrow> bool" for now tok where
  abandoned: "re_status e = es_pending \<Longrightarrow> unleased now e \<Longrightarrow> entry_step now tok e (set_unavailable now reason e)"
| claimed: "re_status e = es_pending \<Longrightarrow> unleased now e \<Longrightarrow> re_attempts e < MAX_ATTACHMENT_REPAIR_ATTEMPTS \<Longrightarrow>
     re_next_attempt_at e \<le> now \<Longrightarrow> entry_step now tok e (set_claimed now token leaseMs b e)"
| settled: "re_status e = es_pending \<Longrightarrow> re_claim_token e = tok \<Longrightarrow> tok \<noteq> None \<Longrightarrow>
     entry_step now tok e (set_outcome now o' e)"

definition evolves :: "int \<Rightarrow> string option \<Rightarrow> repair_ledger \<Rightarrow> repair_ledger \<Rightarrow> bool" where
  "evolves now tok L L' \<longleftrightarrow> (\<forall>e \<in> set (lg_entries L). \<exists>e' \<in> set (lg_entries L'). (entry_step now tok)\<^sup>*\<^sup>* e e')"

lemma evolves_same: "set (lg_entries L) \<subseteq> set (lg_entries L') \<Longrightarrow> evolves now tok L L'"
  by (auto simp: evolves_def)

lemma evolves_trans: "evolves now tok L L' \<Longrightarrow> evolves now tok L' L'' \<Longrightarrow> evolves now tok L L''"
  unfolding evolves_def by (meson rtranclp_trans)

lemma evolves_update:
  assumes "\<And>e. e \<in> set (lg_entries L) \<Longrightarrow> P e \<Longrightarrow> entry_step now tok e (f e)"
  shows "evolves now tok L (update_entries P f L)"
  unfolding evolves_def
proof
  fix e assume e: "e \<in> set (lg_entries L)"
  let ?e = "if P e then f e else e"
  have "(entry_step now tok)\<^sup>*\<^sup>* e ?e" using assms [OF e] by auto
  moreover have "?e \<in> set (lg_entries (update_entries P f L))" using e by (simp add: update_entries_def)
  ultimately show "\<exists>e' \<in> set (lg_entries (update_entries P f L)). (entry_step now tok)\<^sup>*\<^sup>* e e'" by blast
qed

lemma evolves_give_up: "evolves now tok L (give_up t i now reason P L)"
  unfolding give_up_def by (rule evolves_update) (auto intro: abandoned)

lemma evolves_reconcile: "evolves now tok L (reconcileAttachmentRepairRun t i n L)"
  by (simp add: evolves_same reconcileAttachmentRepairRun_def)

lemma evolves_give_up_all: "evolves now tok L (give_up_all t i now reason L)"
  unfolding give_up_all_def by (rule evolves_trans [OF evolves_give_up evolves_reconcile])

lemma evolves_expire: "evolves now tok L (expire_runs t now L)"
proof -
  have "evolves now tok L (fold (\<lambda>i. give_up_all t i now reason) is L)" for reason "is"
  proof (induction "is" arbitrary: L)
    case (Cons i "is")
    have "evolves now tok (give_up_all t i now reason L)
        (fold (\<lambda>i. give_up_all t i now reason) is (give_up_all t i now reason L))" by (rule Cons.IH)
    then show ?case by (simp add: evolves_trans [OF evolves_give_up_all])
  qed (simp add: evolves_same)
  then show ?thesis by (simp add: expire_runs_def)
qed

lemma evolves_lock:
  assumes "evolves now tok L (fst (action L))"
  shows "evolves now tok L (fst (withAttachmentRepairLedgerLock sc action L))"
  using assms evolves_same [of L L now tok]
  by (auto simp: withAttachmentRepairLedgerLock_def ledger_transaction_def split: prod.split sum.split)

lemma evolves_claim_selected:
  assumes "distinct (map entry_key (lg_entries L))"
    and "e \<in> set (lg_entries L)" "claimable (sc_tenant sc) i now e"
  shows "evolves now tok L (fst (claim_selected sc i now leaseMs token b (re_position e) L))"
proof -
  let ?P = "\<lambda>x. entry_row (sc_tenant sc) i x \<and> re_position x = re_position e"
  let ?L = "charge (sc_tenant sc) i now b L"
  have ent: "lg_entries ?L = lg_entries L" by (simp add: charge_def)
  have "x = e" if "x \<in> set (lg_entries L)" "?P x" for x
    using that assms by (auto simp: claimable_def entry_key_def distinct_map inj_on_def)
  then have "evolves now tok ?L (update_entries ?P (set_claimed now token leaseMs b) ?L)"
    using assms(3) by (intro evolves_update) (auto simp: ent claimable_def intro: claimed)
  then have "evolves now tok L (update_entries ?P (set_claimed now token leaseMs b) ?L)"
    by (simp add: evolves_def ent)
  then show ?thesis unfolding claim_selected_def Let_def fst_conv
    by (rule evolves_trans [OF _ evolves_reconcile])
qed

lemma give_up_keys [simp]: "map entry_key (lg_entries (give_up t i now reason P L)) = map entry_key (lg_entries L)"
  by (auto simp: give_up_def update_entries_def entry_key_def set_unavailable_def)

lemma evolves_claim_entry:
  assumes "distinct (map entry_key (lg_entries L))"
  shows "evolves now tok L (fst (claim_entry sc i now leaseMs token remaining L))"
proof -
  let ?t = "sc_tenant sc"
  let ?L = "give_up ?t i now ''retry_exhausted'' (\<lambda>e. MAX_ATTACHMENT_REPAIR_ATTEMPTS \<le> re_attempts e) L"
  have "evolves now tok ?L (fst (claim_entry sc i now leaseMs token remaining L))"
  proof (cases "stable_sort entry_order (filter (claimable ?t i now) (lg_entries ?L))")
    case Nil
    then show ?thesis by (simp add: claim_entry_def Let_def evolves_give_up_all evolves_reconcile)
  next
    case (Cons e es)
    have "e \<in> set (lg_entries ?L)" "claimable ?t i now e" using stable_sort_hd [OF Cons] by simp_all
    from evolves_claim_selected [OF _ this] assms Cons show ?thesis
      by (simp add: claim_entry_def Let_def evolves_give_up_all)
  qed
  then show ?thesis by (rule evolves_trans [OF evolves_give_up])
qed

lemma evolves_claim:
  assumes "distinct (map entry_key (lg_entries L))"
  shows "evolves now tok L (fst (claimAttachmentRepairEntry sc i leaseMs now wall token L))"
proof -
  have "evolves now tok L (fst (claim_run sc i leaseMs now wall token L))"
    using evolves_claim_entry [OF assms]
    by (simp add: claim_run_def evolves_same evolves_give_up_all split: option.split)
  then show ?thesis by (simp add: claimAttachmentRepairEntry_def evolves_lock evolves_same)
qed

lemma evolves_record:
  assumes "distinct (map entry_key (lg_entries L))"
  shows "evolves now (Some token) L
    (fst (recordAttachmentRepairEntryOutcome sc i position token status code b now wall L))"
proof -
  have "evolves now (Some token) L (fst (record_outcome sc i p token status code b now wall L))" for p
  proof (cases rule: record_outcome_cases [of sc i p token status code b now wall L])
    case (own run e)
    let ?o = "final_outcome wall run e status code b"
    let ?L = "refund (sc_tenant sc) i now (ro_refund ?o) L"
    let ?P = "\<lambda>x. entry_row (sc_tenant sc) i x \<and> re_position x = p \<and> re_claim_token x = Some token"
    have "x = e" if "x \<in> set (lg_entries L)" "?P x" for x
      using that assms own(2) by (auto simp: entry_key_def distinct_map inj_on_def dest!: find_SomeD)
    then have "evolves now (Some token) ?L (update_entries ?P (set_outcome now ?o) ?L)"
      using own(3) by (intro evolves_update) (auto intro: settled)
    then have "evolves now (Some token) L (update_entries ?P (set_outcome now ?o) ?L)" by (simp add: evolves_def)
    then have "evolves now (Some token) L
        (reconcileAttachmentRepairRun (sc_tenant sc) i now (update_entries ?P (set_outcome now ?o) ?L))"
      by (rule evolves_trans [OF _ evolves_reconcile])
    with own show ?thesis by (simp add: record_outcome_def Let_def evolves_same)
  qed (simp add: evolves_same)
  then have "evolves now (Some token) L (fst (withAttachmentRepairLedgerLock sc
      (record_outcome sc i (nat position) token status code b now wall) L))" by (rule evolves_lock)
  then show ?thesis unfolding recordAttachmentRepairEntryOutcome_def by (auto simp: evolves_same)
qed

lemma evolves_create:
  "evolves now tok L (fst (createOrGetAttachmentRepairRun sc le policy s now fresh rq L))"
proof -
  have ins: "set (lg_entries K) \<subseteq> set (lg_entries (fst (insert_run sc now digest r ls K)))" for digest r ls K
    using bound_run_sel(2) by (auto simp: insert_run_def case_prod_beta split: option.split sum.split)
  have early: "set (lg_entries L) \<subseteq> set (lg_entries (fst x))" if "earlier_run sc digest hash L = Some x" for digest hash x
    using that by (auto simp: earlier_run_def Let_def bound_run_sel split: if_split_asm option.split_asm)
  have "evolves now tok L (fst (create_action sc le policy s now fresh bucket entries app reviewed digest L))"
    for bucket entries app reviewed digest
    using evolves_trans [OF evolves_expire evolves_same [OF ins]] evolves_expire early
    by (auto simp: create_action_def Let_def evolves_same split: sum.split option.split)
  then show ?thesis
    by (simp add: createOrGetAttachmentRepairRun_def Let_def evolves_lock evolves_same split: sum.split)
qed

lemma step_evolves:
  assumes "ledger_step now tok L L'" and "ledger_ok L"
  shows "evolves now tok L L'"
proof -
  have "distinct (map entry_key (lg_entries L))" using assms(2) by (simp add: ledger_ok_def)
  with assms(1) show ?thesis
    by (induction rule: ledger_step.induct) (simp_all add: evolves_create evolves_claim evolves_record)
qed

section \<open>Terminal entries and leases\<close>

lemma terminal_stuck: "re_status e \<noteq> es_pending \<Longrightarrow> (entry_step now tok)\<^sup>*\<^sup>* e e' \<Longrightarrow> e' = e"
  by (erule converse_rtranclpE) (auto elim: entry_step.cases)

lemma terminal_step:
  assumes "ledger_step now tok L L'" "ledger_ok L" "e \<in> set (lg_entries L)" "re_status e \<noteq> es_pending"
  shows "e \<in> set (lg_entries L')"
  using step_evolves [OF assms(1,2)] assms(3,4) terminal_stuck [of e] by (force simp: evolves_def)

text \<open>While its lease runs, an entry changes only by a record that carries its token.\<close>

lemma leased_stuck:
  assumes "\<not> unleased now e" and "re_claim_token e \<noteq> tok" and "(entry_step now tok)\<^sup>*\<^sup>* e e'"
  shows "e' = e"
  using assms(3) by (rule converse_rtranclpE) (use assms(1,2) in \<open>auto elim: entry_step.cases\<close>)

lemma leased_step:
  assumes "ledger_step now tok L L'" "ledger_ok L" "e \<in> set (lg_entries L)"
    and "\<not> unleased now e" "re_claim_token e \<noteq> tok"
  shows "e \<in> set (lg_entries L')"
  using step_evolves [OF assms(1,2)] assms(3) leased_stuck [OF assms(4,5)] by (force simp: evolves_def)

inductive quiet :: "int \<Rightarrow> string \<Rightarrow> repair_ledger \<Rightarrow> repair_ledger \<Rightarrow> bool" for until token where
  quiet_refl: "quiet until token L L"
| quiet_step: "quiet until token L L' \<Longrightarrow> ledger_step now tok L' L'' \<Longrightarrow> now < until \<Longrightarrow> tok \<noteq> Some token
     \<Longrightarrow> quiet until token L L''"

lemma quiet_ok: "quiet until token L L' \<Longrightarrow> ledger_ok L \<Longrightarrow> ledger_ok L'"
  by (induction rule: quiet.induct) (auto dest: ledger_step_ok)

lemma lease_quiet:
  assumes "quiet until token L L'" and "ledger_ok L" and "e \<in> set (lg_entries L)"
    and "re_claim_token e = Some token" and "re_lease_expires_at e = Some until"
  shows "e \<in> set (lg_entries L')"
  using assms(1-3)
proof induction
  case (quiet_step L L' now tok L'')
  have "\<not> unleased now e" using assms(4,5) quiet_step.hyps(3) by (simp add: unleased_def)
  moreover have "re_claim_token e \<noteq> tok" using assms(4) quiet_step.hyps(4) by simp
  moreover have "ledger_ok L'" by (rule quiet_ok [OF quiet_step.hyps(1) quiet_step.prems(1)])
  ultimately show ?case using leased_step [OF quiet_step.hyps(2)] quiet_step.IH quiet_step.prems by simp
qed

section \<open>What a claim grants\<close>

lemma find_update_entries:
  assumes "find P es = Some e" and "\<And>x. P (f x) = P x"
  shows "find P (map (\<lambda>x. if P x then f x else x) es) = Some (f e)"
  using assms by (induction es) (auto split: if_splits)

lemma claim_selected_grants:
  assumes "distinct (map entry_key (lg_entries L))"
    and "e \<in> set (lg_entries L)" "claimable (sc_tenant sc) i now e"
  shows "snd (claim_selected sc i now leaseMs token b (re_position e) L) = Inr (Some (set_claimed now token leaseMs b e))"
    and "set_claimed now token leaseMs b e
      \<in> set (lg_entries (fst (claim_selected sc i now leaseMs token b (re_position e) L)))"
proof -
  let ?P = "\<lambda>x. entry_row (sc_tenant sc) i x \<and> re_position x = re_position e"
  have row: "?P e" using assms(3) by (simp add: claimable_def)
  have "x = e" if "x \<in> set (lg_entries L)" "?P x" for x
    using that assms(1,2) row by (auto simp: entry_key_def distinct_map inj_on_def)
  then have "find ?P (lg_entries L) = Some e" using assms(2) row by (intro find_unique) auto
  then have "find ?P (map (\<lambda>x. if ?P x then set_claimed now token leaseMs b x else x) (lg_entries L))
      = Some (set_claimed now token leaseMs b e)"
    by (rule find_update_entries) (simp add: set_claimed_def)
  then show "snd (claim_selected sc i now leaseMs token b (re_position e) L)
      = Inr (Some (set_claimed now token leaseMs b e))"
    by (simp add: claim_selected_def Let_def update_entries_def charge_def update_runs_def)
  show "set_claimed now token leaseMs b e
      \<in> set (lg_entries (fst (claim_selected sc i now leaseMs token b (re_position e) L)))"
    using assms(2) row
    by (auto simp: claim_selected_def Let_def update_entries_def charge_def reconcileAttachmentRepairRun_def
        update_runs_def image_iff)
qed

text \<open>
  The grant of a claim: the pending, unleased entry it was made from, the run with the
  bytes that were left, and the state of both afterwards.
\<close>

definition granted :: "scope \<Rightarrow> string \<Rightarrow> int \<Rightarrow> int \<Rightarrow> int \<Rightarrow> string \<Rightarrow> repair_ledger
    \<Rightarrow> repair_entry \<Rightarrow> repair_entry \<Rightarrow> repair_run \<Rightarrow> bool" where
  "granted sc i leaseMs now wall token L e0 e run \<longleftrightarrow>
     find (run_row (sc_tenant sc) i) (lg_runs L) = Some run
     \<and> run_status run = run_pending \<and> wall < run_deadline_at run
     \<and> e0 \<in> set (lg_entries L) \<and> claimable (sc_tenant sc) i now e0
     \<and> e = set_claimed now token leaseMs
             (min MAX_ATTACHMENT_REPAIR_SOURCE_BYTES (run_byte_budget run - run_bytes_consumed run)) e0
     \<and> 0 < run_byte_budget run - run_bytes_consumed run"

lemma give_up_claimable:
  assumes "e \<in> set (lg_entries (give_up t i now reason (\<lambda>e. MAX_ATTACHMENT_REPAIR_ATTEMPTS \<le> re_attempts e) L))"
    and "claimable t' i' now' e"
  shows "e \<in> set (lg_entries L)"
  using assms by (auto simp: give_up_def update_entries_def claimable_def set_unavailable_def)

lemma claim_entry_grants:
  assumes d: "distinct (map entry_key (lg_entries L))"
    and "claim_entry sc i now leaseMs token remaining L = (L', Inr (Some e))"
  shows "\<exists>e0 \<in> set (lg_entries L). claimable (sc_tenant sc) i now e0 \<and> 0 < remaining
    \<and> e = set_claimed now token leaseMs (min MAX_ATTACHMENT_REPAIR_SOURCE_BYTES remaining) e0
    \<and> e \<in> set (lg_entries L')"
proof -
  let ?t = "sc_tenant sc"
  let ?L = "give_up ?t i now ''retry_exhausted'' (\<lambda>e. MAX_ATTACHMENT_REPAIR_ATTEMPTS \<le> re_attempts e) L"
  obtain e0 es where c: "stable_sort entry_order (filter (claimable ?t i now) (lg_entries ?L)) = e0 # es"
    and r: "claim_selected sc i now leaseMs token (min MAX_ATTACHMENT_REPAIR_SOURCE_BYTES remaining)
       (re_position e0) ?L = (L', Inr (Some e))" and pos: "0 < remaining"
    using assms(2) by (auto simp: claim_entry_def Let_def split: if_splits list.splits)
  have e0: "e0 \<in> set (lg_entries ?L)" "claimable ?t i now e0" using stable_sort_hd [OF c] by simp_all
  from claim_selected_grants [OF _ e0, where leaseMs = leaseMs and token = token
      and b = "min MAX_ATTACHMENT_REPAIR_SOURCE_BYTES remaining"] d r
  have "e = set_claimed now token leaseMs (min MAX_ATTACHMENT_REPAIR_SOURCE_BYTES remaining) e0
      \<and> e \<in> set (lg_entries L')" by simp
  with pos e0 give_up_claimable [OF e0] show ?thesis by blast
qed

lemma claim_grants:
  assumes "sc_atomic sc" and "ledger_ok L"
    and "claimAttachmentRepairEntry sc i leaseMs now wall token L = (L', Inr (Some e))"
  shows "0 < leaseMs \<and> e \<in> set (lg_entries L') \<and> (\<exists>e0 run. granted sc i leaseMs now wall token L e0 e run)"
proof -
  have d: "distinct (map entry_key (lg_entries L))" using assms(2) by (simp add: ledger_ok_def)
  have lease: "0 < leaseMs" and c: "claim_run sc i leaseMs now wall token L = (L', Inr (Some e))"
    using assms(1,3) by (auto simp: claimAttachmentRepairEntry_def withAttachmentRepairLedgerLock_def
        ledger_transaction_def split: if_splits prod.splits sum.splits)
  then obtain run where run: "find (run_row (sc_tenant sc) i) (lg_runs L) = Some run" "run_status run \<noteq> run_completed"
      "wall < run_deadline_at run"
    and ce: "claim_entry sc i now leaseMs token (run_byte_budget run - run_bytes_consumed run) L = (L', Inr (Some e))"
    by (auto simp: claim_run_def split: option.splits if_splits)
  have st: "run_status run = run_pending" using run(2) by (cases "run_status run") auto
  from claim_entry_grants [OF d ce] show ?thesis
    unfolding granted_def using lease run(1,3) st by blast
qed

section \<open>The log of granted attempts\<close>

text \<open>Every grant of any claim since the ledger was empty, by the key of its entry.\<close>

inductive grants_log :: "((string \<times> string) \<times> nat) list \<Rightarrow> repair_ledger \<Rightarrow> bool" where
  log_empty: "grants_log [] empty_ledger"
| log_create: "grants_log ks L \<Longrightarrow> sc_atomic sc \<Longrightarrow> 0 < rp_runByteBudget policy \<Longrightarrow>
     grants_log ks (fst (createOrGetAttachmentRepairRun sc le policy s now fresh rq L))"
| log_grant: "grants_log ks L \<Longrightarrow> sc_atomic sc \<Longrightarrow>
     claimAttachmentRepairEntry sc i leaseMs now wall token L = (L', Inr (Some e)) \<Longrightarrow>
     grants_log (entry_key e # ks) L'"
| log_refuse: "grants_log ks L \<Longrightarrow> sc_atomic sc \<Longrightarrow>
     claimAttachmentRepairEntry sc i leaseMs now wall token L = (L', r) \<Longrightarrow> \<forall>e. r \<noteq> Inr (Some e) \<Longrightarrow>
     grants_log ks L'"
| log_record: "grants_log ks L \<Longrightarrow> sc_atomic sc \<Longrightarrow>
     grants_log ks (fst (recordAttachmentRepairEntryOutcome sc i position token status code b now wall L))"

definition tried :: "repair_ledger \<Rightarrow> (((string \<times> string) \<times> nat) \<times> nat) list" where
  "tried L = map (\<lambda>e. (entry_key e, re_attempts e)) (lg_entries L)"

lemma tried_update:
  assumes "\<And>e. entry_key (f e) = entry_key e \<and> re_attempts (f e) = re_attempts e"
  shows "tried (update_entries P f L) = tried L"
  using assms by (simp add: tried_def update_entries_def)

lemma tried_simps [simp]:
  "tried (reconcileAttachmentRepairRun t i now L) = tried L" "tried (give_up t i now reason P L) = tried L"
  "tried (give_up_all t i now reason L) = tried L" "tried (charge t i now b L) = tried L"
  "tried (refund t i now b L) = tried L"
proof -
  have g: "tried (give_up t i now reason P L) = tried L" for P
    unfolding give_up_def by (rule tried_update) (simp add: set_unavailable_def entry_key_def)
  have r: "tried (reconcileAttachmentRepairRun t i now L) = tried L" for L
    by (simp add: reconcileAttachmentRepairRun_def tried_def)
  show "tried (reconcileAttachmentRepairRun t i now L) = tried L" "tried (give_up t i now reason P L) = tried L"
    "tried (give_up_all t i now reason L) = tried L" "tried (charge t i now b L) = tried L"
    "tried (refund t i now b L) = tried L"
    using g r by (simp_all add: give_up_all_def charge_def refund_def) (simp_all add: tried_def)
qed

lemma tried_expire [simp]: "tried (expire_runs t now L) = tried L"
proof -
  have "tried (fold (\<lambda>i. give_up_all t i now reason) is L) = tried L" for reason "is"
    by (induction "is" arbitrary: L) simp_all
  then show ?thesis by (simp add: expire_runs_def)
qed

definition bump :: "(string \<times> string) \<times> nat \<Rightarrow> ((string \<times> string) \<times> nat) \<times> nat \<Rightarrow> ((string \<times> string) \<times> nat) \<times> nat" where
  "bump k ka = (fst ka, if fst ka = k then Suc (snd ka) else snd ka)"

lemma tried_claim_selected:
  "tried (fst (claim_selected sc i now leaseMs token b p L)) = map (bump ((sc_tenant sc, i), p)) (tried L)"
  by (auto simp: claim_selected_def Let_def tried_def update_entries_def bump_def entry_key_def set_claimed_def
      charge_def reconcileAttachmentRepairRun_def)

lemma tried_claim_entry:
  assumes d: "distinct (map entry_key (lg_entries L))"
  shows "case claim_entry sc i now leaseMs token remaining L of
     (L', Inr (Some e)) \<Rightarrow> tried L' = map (bump (entry_key e)) (tried L)
   | (L', r) \<Rightarrow> tried L' = tried L"
proof -
  let ?t = "sc_tenant sc" and ?b = "min MAX_ATTACHMENT_REPAIR_SOURCE_BYTES remaining"
  let ?L = "give_up ?t i now ''retry_exhausted'' (\<lambda>e. MAX_ATTACHMENT_REPAIR_ATTEMPTS \<le> re_attempts e) L"
  show ?thesis
  proof (cases "stable_sort entry_order (filter (claimable ?t i now) (lg_entries ?L))")
    case Nil
    then show ?thesis by (simp add: claim_entry_def Let_def)
  next
    case (Cons e0 es)
    have e0: "e0 \<in> set (lg_entries ?L)" "claimable ?t i now e0" using stable_sort_hd [OF Cons] by simp_all
    have key: "entry_key (set_claimed now token leaseMs ?b e0) = ((?t, i), re_position e0)"
      using e0(2) by (simp add: entry_key_def set_claimed_def claimable_def)
    have d': "distinct (map entry_key (lg_entries ?L))" using d by simp
    obtain L' where c: "claim_selected sc i now leaseMs token ?b (re_position e0) ?L
        = (L', Inr (Some (set_claimed now token leaseMs ?b e0)))"
      using claim_selected_grants(1) [OF d' e0] by (metis prod.collapse)
    have "tried L' = map (bump ((?t, i), re_position e0)) (tried ?L)"
      using tried_claim_selected c by (metis fst_conv)
    with c key Cons show ?thesis by (simp add: claim_entry_def Let_def)
  qed
qed

lemma tried_claim:
  assumes "sc_atomic sc" and "ledger_ok L"
  shows "case claimAttachmentRepairEntry sc i leaseMs now wall token L of
     (L', Inr (Some e)) \<Rightarrow> tried L' = map (bump (entry_key e)) (tried L)
   | (L', r) \<Rightarrow> tried L' = tried L"
proof -
  have d: "distinct (map entry_key (lg_entries L))" using assms(2) by (simp add: ledger_ok_def)
  have "case claim_run sc i leaseMs now wall token L of
     (L', Inr (Some e)) \<Rightarrow> tried L' = map (bump (entry_key e)) (tried L) | (L', r) \<Rightarrow> tried L' = tried L"
    using tried_claim_entry [OF d] by (simp add: claim_run_def split: option.split)
  then show ?thesis using assms(1)
    by (auto simp: claimAttachmentRepairEntry_def withAttachmentRepairLedgerLock_def ledger_transaction_def
        split: prod.splits sum.splits)
qed

lemma tried_record:
  "tried (fst (recordAttachmentRepairEntryOutcome sc i position token status code b now wall L)) = tried L"
proof -
  have u: "tried (update_entries P (set_outcome now o') K) = tried K" for P o' K
    by (rule tried_update) (simp add: set_outcome_def entry_key_def)
  have "tried (fst (record_outcome sc i p token status code b now wall L)) = tried L" for p
    by (simp add: record_outcome_def Let_def u split: option.split)
  then have "tried (fst (withAttachmentRepairLedgerLock sc
      (record_outcome sc i (nat position) token status code b now wall) L)) = tried L"
    by (intro ledger_lock_keeps [where P = "\<lambda>K. tried K = tried L"]) simp_all
  then show ?thesis unfolding recordAttachmentRepairEntryOutcome_def by auto
qed

definition fresh_tries :: "repair_ledger \<Rightarrow> repair_ledger \<Rightarrow> bool" where
  "fresh_tries L L' \<longleftrightarrow> (\<exists>zs. tried L' = tried L @ zs \<and> (\<forall>z \<in> set zs. snd z = 0))"

lemma fresh_same: "tried L' = tried L \<Longrightarrow> fresh_tries L L'"
  by (simp add: fresh_tries_def)

lemma tried_bound_run [simp]: "tried (fst (bound_run sc d r L)) = tried L"
  by (simp add: tried_def bound_run_sel)

lemma tried_insert_run: "fresh_tries L (fst (insert_run sc now digest r ls L))"
proof (cases "\<exists>q \<in> set (lg_runs L). run_conflict r q")
  case True
  then show ?thesis by (auto intro: fresh_same simp: insert_run_def split: option.split)
next
  case False
  let ?L = "L\<lparr>lg_runs := lg_runs L @ [r]\<rparr>"
  obtain L1 x where b: "bound_run sc digest r ?L = (L1, x)" by fastforce
  then have "lg_entries L1 = lg_entries L" using bound_run_sel(2) [of sc digest r ?L] by simp
  with False b show ?thesis
    by (auto simp: insert_run_def fresh_tries_def tried_def new_entry_def split: sum.split)
qed

lemma tried_create:
  "fresh_tries L (fst (createOrGetAttachmentRepairRun sc le policy s now fresh rq L))"
proof -
  have early: "tried (fst x) = tried L" if "earlier_run sc digest hash L = Some x" for digest hash x
    using that by (auto simp: earlier_run_def Let_def split: if_split_asm option.split_asm)
  have ins: "fresh_tries L (fst (insert_run sc now digest r ls (expire_runs t now L)))" for digest r ls t
    using tried_insert_run [of "expire_runs t now L"] by (simp add: fresh_tries_def)
  have "fresh_tries L (fst (create_action sc le policy s now fresh bucket entries app reviewed digest L))"
    for bucket entries app reviewed digest
    using early ins by (auto intro: fresh_same simp: create_action_def Let_def split: sum.split option.split)
  then have "fresh_tries L (fst (withAttachmentRepairLedgerLock sc
      (create_action sc le policy s now fresh bucket entries app reviewed digest) L))"
    for bucket entries app reviewed digest
    by (intro ledger_lock_keeps [where P = "fresh_tries L"]) (simp_all add: fresh_same)
  then show ?thesis
    by (simp add: createOrGetAttachmentRepairRun_def Let_def fresh_same split: sum.split)
qed

definition counted :: "((string \<times> string) \<times> nat) list \<Rightarrow> repair_ledger \<Rightarrow> bool" where
  "counted ks L \<longleftrightarrow> ledger_ok L \<and> (\<forall>z \<in> set (tried L). count_list ks (fst z) = snd z)
     \<and> set ks \<subseteq> entry_key ` set (lg_entries L)"

lemma tried_keys: "map fst (tried L) = map entry_key (lg_entries L)"
  by (simp add: tried_def)

lemma counted_same:
  assumes "counted ks L" and "tried L' = tried L" and "ledger_ok L'"
  shows "counted ks L'"
proof -
  have "map entry_key (lg_entries L') = map entry_key (lg_entries L)"
    unfolding tried_keys [symmetric] assms(2) ..
  then have "entry_key ` set (lg_entries L') = entry_key ` set (lg_entries L)" by (metis list.set_map)
  with assms show ?thesis by (simp add: counted_def)
qed

lemma counted_fresh:
  assumes c: "counted ks L" and f: "fresh_tries L L'" and ok: "ledger_ok L'"
  shows "counted ks L'"
proof -
  obtain zs where z: "tried L' = tried L @ zs" "\<forall>z \<in> set zs. snd z = 0" using f by (auto simp: fresh_tries_def)
  have keys: "map entry_key (lg_entries L') = map entry_key (lg_entries L) @ map fst zs"
    unfolding tried_keys [symmetric] z(1) by simp
  have "distinct (map entry_key (lg_entries L'))" using ok by (simp add: ledger_ok_def)
  then have "set (map entry_key (lg_entries L)) \<inter> set (map fst zs) = {}" unfolding keys by simp
  moreover have "set ks \<subseteq> set (map entry_key (lg_entries L))" using c by (simp add: counted_def)
  ultimately have "count_list ks (fst x) = snd x" if "x \<in> set zs" for x
    using that z(2) by (auto simp: count_list_0_iff)
  moreover have "entry_key ` set (lg_entries L) \<subseteq> entry_key ` set (lg_entries L')"
    using keys by (metis list.set_map set_append sup_ge1)
  ultimately show ?thesis using c ok z(1) by (auto simp: counted_def)
qed

lemma counted_grant:
  assumes c: "counted ks L" and t: "tried L' = map (bump k) (tried L)" and ok: "ledger_ok L'"
    and k: "k \<in> entry_key ` set (lg_entries L')"
  shows "counted (k # ks) L'"
proof -
  have "map entry_key (lg_entries L') = map entry_key (lg_entries L)"
    unfolding tried_keys [symmetric] t by (simp add: bump_def)
  then have "entry_key ` set (lg_entries L') = entry_key ` set (lg_entries L)" by (metis list.set_map)
  with c k ok t show ?thesis by (auto simp: counted_def bump_def)
qed

lemma grants_log_counted: "grants_log ks L \<Longrightarrow> counted ks L"
proof (induction rule: grants_log.induct)
  case log_empty
  then show ?case by (simp add: counted_def empty_ledger_ok) (simp add: tried_def empty_ledger_def)
next
  case (log_create ks L sc policy le s now fresh rq)
  then show ?case using tried_create create_keeps_ok counted_fresh by (metis counted_def)
next
  case (log_grant ks L sc i leaseMs now wall token L' e)
  then have ok: "ledger_ok L" by (simp add: counted_def)
  have ok': "ledger_ok L'" using claim_keeps_ok [OF ok] log_grant.hyps(3) by (metis fst_conv)
  have "e \<in> set (lg_entries L')" using claim_grants [OF log_grant.hyps(2) ok log_grant.hyps(3)] by blast
  then show ?case
    using tried_claim [OF log_grant.hyps(2) ok, of i leaseMs now wall token] log_grant.hyps(3)
    by (intro counted_grant [OF log_grant.IH _ ok']) auto
next
  case (log_refuse ks L sc i leaseMs now wall token L' r)
  then have ok: "ledger_ok L" by (simp add: counted_def)
  have ok': "ledger_ok L'" using claim_keeps_ok [OF ok] log_refuse.hyps(3) by (metis fst_conv)
  have "tried L' = tried L"
    using tried_claim [OF log_refuse.hyps(2) ok, of i leaseMs now wall token] log_refuse.hyps(3,4)
    by (auto split: sum.splits option.splits)
  then show ?case by (rule counted_same [OF log_refuse.IH _ ok'])
next
  case (log_record ks L sc i position token status code b now wall)
  then show ?case using tried_record record_keeps_ok counted_same by (metis counted_def)
qed

end
