(* ===== verification/Repair_Runs.thy ===== *)
theory Repair_Runs
  imports Repair_Ledger_Trace
begin

text \<open>
  What the attachment-repair ledger promises its operators: the totals and the byte
  account of every reachable run, leases that exclude each other, at most three attempts
  for an object, outcomes that stay, runs that end at their deadline, replays that find
  their run, and apply runs that a completed dry run of the same manifest precedes.
\<close>

section \<open>Reading the invariant\<close>

lemma rows_zero_iff: "rows P es = 0 \<longleftrightarrow> (\<forall>e \<in> set es. \<not> P e)"
  by (simp add: rows_def filter_empty_conv)

lemma reachable_ok: "ledger_next\<^sup>*\<^sup>* empty_ledger L \<Longrightarrow> ledger_ok L"
  by (rule ledger_steps_ok [OF _ empty_ledger_ok])

section \<open>The charge of a claim\<close>

lemma find_map_cong:
  "(\<And>x. P (g x) = P x) \<Longrightarrow> find P (map g xs) = map_option g (find P xs)"
  by (induction xs) auto

lemma find_reconciled:
  "find (run_row t i) (lg_runs (reconcileAttachmentRepairRun t i now L))
   = map_option (reconciled now (run_entries t i L)) (find (run_row t i) (lg_runs L))"
proof -
  let ?g = "\<lambda>r. if run_row t i r then reconciled now (run_entries t i L) r else r"
  have "find (run_row t i) (map ?g (lg_runs L)) = map_option ?g (find (run_row t i) (lg_runs L))"
    by (rule find_map_cong) (simp add: reconciled_def)
  also have "\<dots> = map_option (reconciled now (run_entries t i L)) (find (run_row t i) (lg_runs L))"
    by (cases "find (run_row t i) (lg_runs L)") (auto dest: find_SomeD)
  finally show ?thesis by (simp add: reconcileAttachmentRepairRun_def update_runs_def)
qed

lemma find_charged:
  assumes "find (run_row t i) (lg_runs L) = Some run" and "run_bytes_consumed run + b \<le> run_byte_budget run"
  shows "find (run_row t i) (lg_runs (charge t i now b L))
    = Some (run\<lparr>run_bytes_consumed := run_bytes_consumed run + b, run_updated_at := now\<rparr>)"
proof -
  let ?P = "\<lambda>r. run_row t i r \<and> run_bytes_consumed r + b \<le> run_byte_budget r"
  let ?g = "\<lambda>r. if ?P r then r\<lparr>run_bytes_consumed := run_bytes_consumed r + b, run_updated_at := now\<rparr> else r"
  have "find (run_row t i) (map ?g (lg_runs L)) = map_option ?g (find (run_row t i) (lg_runs L))"
    by (rule find_map_cong) simp
  with assms show ?thesis by (auto simp: charge_def update_runs_def dest: find_SomeD)
qed

lemma claim_charges:
  assumes "sc_atomic sc" and "ledger_ok L"
    and "claimAttachmentRepairEntry sc i leaseMs now wall token L = (L', Inr (Some e))"
  shows "\<exists>run run'. getAttachmentRepairRun sc i L = Some run \<and> getAttachmentRepairRun sc i L' = Some run'
    \<and> run_bytes_consumed run' = run_bytes_consumed run + re_reserved_bytes e
    \<and> 0 < re_reserved_bytes e \<and> re_reserved_bytes e \<le> MAX_ATTACHMENT_REPAIR_SOURCE_BYTES"
proof -
  let ?t = "sc_tenant sc"
  have "claim_run sc i leaseMs now wall token L = (L', Inr (Some e))"
    using assms(1,3) by (auto simp: claimAttachmentRepairEntry_def withAttachmentRepairLedgerLock_def
        ledger_transaction_def split: if_splits prod.splits sum.splits)
  then obtain run where run: "find (run_row ?t i) (lg_runs L) = Some run"
    and ce: "claim_entry sc i now leaseMs token (run_byte_budget run - run_bytes_consumed run) L = (L', Inr (Some e))"
    by (auto simp: claim_run_def split: option.splits if_splits)
  let ?rem = "run_byte_budget run - run_bytes_consumed run"
  let ?b = "min MAX_ATTACHMENT_REPAIR_SOURCE_BYTES ?rem"
  let ?L = "give_up ?t i now ''retry_exhausted'' (\<lambda>e. MAX_ATTACHMENT_REPAIR_ATTEMPTS \<le> re_attempts e) L"
  obtain e0 es where "stable_sort entry_order (filter (claimable ?t i now) (lg_entries ?L)) = e0 # es"
    and r: "claim_selected sc i now leaseMs token ?b (re_position e0) ?L = (L', Inr (Some e))" and pos: "0 < ?rem"
    using ce by (auto simp: claim_entry_def Let_def split: if_splits list.splits)
  have "\<exists>e0. e = set_claimed now token leaseMs ?b e0"
    using assms(2) claim_entry_grants [OF _ ce] by (auto simp: ledger_ok_def)
  then have e: "re_reserved_bytes e = ?b" by (auto simp: set_claimed_def)
  have "find (run_row ?t i) (lg_runs ?L) = Some run" using run by simp
  from find_charged [OF this, of ?b now] have ch: "find (run_row ?t i) (lg_runs (charge ?t i now ?b ?L))
      = Some (run\<lparr>run_bytes_consumed := run_bytes_consumed run + ?b, run_updated_at := now\<rparr>)" by simp
  have "\<exists>run'. find (run_row ?t i) (lg_runs L') = Some run' \<and> run_bytes_consumed run' = run_bytes_consumed run + ?b"
    using r ch by (auto simp: claim_selected_def Let_def find_reconciled reconciled_def)
  with run e pos show ?thesis
    by (auto simp: getAttachmentRepairRun_def MAX_ATTACHMENT_REPAIR_SOURCE_BYTES_def)
qed

section \<open>The deadline\<close>

lemma give_up_all_completes:
  assumes run: "find (run_row t i) (lg_runs L) = Some run" and free: "\<forall>e \<in> set (run_entries t i L). unleased now e"
  shows "\<exists>run'. find (run_row t i) (lg_runs (give_up_all t i now reason L)) = Some run'
    \<and> run_status run' = run_completed"
proof -
  let ?K = "give_up t i now reason (\<lambda>_. True) L"
  have es: "run_entries t i ?K = map (\<lambda>e. if entry_row t i e \<and> re_status e = es_pending \<and> True \<and> unleased now e
      then set_unavailable now reason e else e) (run_entries t i L)"
    unfolding give_up_def by (rule run_entries_update) (simp add: set_unavailable_def)
  have "rows (has_status es_pending) (run_entries t i ?K) = 0"
    unfolding es rows_zero_iff using free by (auto simp: run_entries_def set_unavailable_def)
  then show ?thesis using run by (simp add: give_up_all_def find_reconciled reconciled_def)
qed

section \<open>Replays\<close>

lemma find_append_miss: "find P xs = None \<Longrightarrow> find P (xs @ ys) = find P ys"
  by (induction xs) (auto split: if_splits)

text \<open>The key is bound to a run of the tenant that has this request hash.\<close>

definition key_bound :: "scope \<Rightarrow> string \<Rightarrow> string \<Rightarrow> string \<Rightarrow> repair_ledger \<Rightarrow> bool" where
  "key_bound sc digest hash i L \<longleftrightarrow>
     (\<exists>a r. find (\<lambda>a. ra_tenant a = sc_tenant sc \<and> ra_key_hash a = digest) (lg_aliases L) = Some a
        \<and> ra_request_hash a = hash \<and> ra_run a = i
        \<and> find (run_row (sc_tenant sc) i) (lg_runs L) = Some r \<and> run_request_hash r = hash)"

lemma key_bound_replay:
  "key_bound sc digest hash i L \<Longrightarrow>
   \<exists>r. earlier_run sc digest hash L = Some (L, Inr r) \<and> run_id r = i \<and> r \<in> set (lg_runs L)"
  by (auto simp: key_bound_def earlier_run_def Let_def dest: find_SomeD)

lemma bind_alias_bound:
  assumes "bind_alias sc digest i hash L = (L', Inr u)"
  shows "find (\<lambda>a. ra_tenant a = sc_tenant sc \<and> ra_key_hash a = digest) (lg_aliases L')
     = Some \<lparr> ra_tenant = sc_tenant sc, ra_key_hash = digest, ra_request_hash = hash, ra_run = i \<rparr>"
proof (cases "find (\<lambda>a. ra_tenant a = sc_tenant sc \<and> ra_key_hash a = digest) (lg_aliases L)")
  case None
  from find_append_miss [OF this] assms None show ?thesis by (auto simp: bind_alias_def)
next
  case (Some a)
  with assms have "L' = L" "ra_request_hash a = hash" "ra_run a = i" by (auto simp: bind_alias_def split: if_splits)
  with Some find_SomeD [OF Some] show ?thesis by (cases a) auto
qed

lemma bound_run_bound:
  assumes "bound_run sc digest r L = (L', Inr r')" and "find (run_row (sc_tenant sc) (run_id r)) (lg_runs L) = Some r"
  shows "r' = r \<and> key_bound sc digest (run_request_hash r) (run_id r) L'"
proof -
  from assms(1) obtain u where u: "bind_alias sc digest (run_id r) (run_request_hash r) L = (L', Inr u)" "r' = r"
    by (auto simp: bound_run_def split: prod.splits sum.splits)
  from bind_alias_bound [OF u(1)] bind_alias_sel(1) [of sc digest "run_id r" "run_request_hash r" L] assms(2) u
  show ?thesis by (simp add: key_bound_def)
qed

lemma find_own_run:
  assumes "distinct (map run_key (lg_runs L))" and "r \<in> set (lg_runs L)" and "run_tenant r = t"
  shows "find (run_row t (run_id r)) (lg_runs L) = Some r"
  using assms by (intro find_unique) (auto simp: distinct_map inj_on_def run_key_def)

lemma earlier_run_bound:
  assumes d: "distinct (map run_key (lg_runs L))" and e: "earlier_run sc digest hash L = Some (L', Inr r)"
  shows "key_bound sc digest hash (run_id r) L'"
proof -
  let ?t = "sc_tenant sc"
  let ?al = "find (\<lambda>a. ra_tenant a = ?t \<and> ra_key_hash a = digest) (lg_aliases L)"
  let ?ex = "find (\<lambda>r. run_tenant r = ?t \<and> run_key_hash r = digest) (lg_runs L)"
  let ?du = "find (\<lambda>r. run_tenant r = ?t \<and> run_request_hash r = hash) (lg_runs L)"
  have bound: "key_bound sc digest hash (run_id r) L'"
    if "bound_run sc digest q L = (L', Inr r)" "q \<in> set (lg_runs L)" "run_tenant q = ?t" "run_request_hash q = hash" for q
    using bound_run_bound [OF that(1) find_own_run [OF d that(2,3)]] that(4) by simp
  have later: "key_bound sc digest hash (run_id r) L'"
    if "(case ?ex of Some r \<Rightarrow> Some (if run_request_hash r \<noteq> hash then (L, Inl RE_Idempotency_Conflict)
          else bound_run sc digest r L) | None \<Rightarrow> map_option (\<lambda>r. bound_run sc digest r L) ?du) = Some (L', Inr r)"
  proof (cases ?ex)
    case None
    with that obtain q where "?du = Some q" "bound_run sc digest q L = (L', Inr r)" by auto
    with find_SomeD [of _ "lg_runs L" q] show ?thesis by (intro bound) auto
  next
    case (Some q)
    with that have "run_request_hash q = hash" "bound_run sc digest q L = (L', Inr r)" by (auto split: if_splits)
    with find_SomeD [OF Some] show ?thesis by (intro bound) auto
  qed
  show ?thesis
  proof (cases "?al")
    case None
    with e later show ?thesis by (simp add: earlier_run_def Let_def)
  next
    case (Some a)
    show ?thesis
    proof (cases "ra_request_hash a = hash \<and> (case find (run_row ?t (ra_run a)) (lg_runs L) of
        None \<Rightarrow> False | Some r \<Rightarrow> run_request_hash r = hash)")
      case True
      then obtain q where q: "find (run_row ?t (ra_run a)) (lg_runs L) = Some q" "run_request_hash q = hash"
        by (auto split: option.splits)
      with e Some True have "L' = L" "r = q" by (auto simp: earlier_run_def Let_def)
      with q Some True find_SomeD [OF q(1)] show ?thesis by (simp add: key_bound_def)
    next
      case False
      with e Some later show ?thesis by (auto simp: earlier_run_def Let_def split: if_splits)
    qed
  qed
qed

lemma insert_run_bound:
  assumes d: "distinct (map run_key (lg_runs L))" and r: "run_tenant r = sc_tenant sc"
    and i: "insert_run sc now digest r ls L = (L', Inr r')"
  shows "key_bound sc digest (run_request_hash r) (run_id r') L'"
proof (cases "\<exists>q \<in> set (lg_runs L). run_conflict r q")
  case True
  with i obtain q where q: "bound_run sc digest q L = (L', Inr r')" "q \<in> set (lg_runs L)"
      "run_tenant q = sc_tenant sc" "run_request_hash q = run_request_hash r"
    by (auto simp: insert_run_def split: option.splits if_splits dest!: find_SomeD)
  from bound_run_bound [OF q(1) find_own_run [OF d q(2,3)]] q(4) show ?thesis by simp
next
  case False
  let ?L = "L\<lparr>lg_runs := lg_runs L @ [r]\<rparr>"
  from i False obtain L1 x where b: "bound_run sc digest r ?L = (L1, Inr x)" and r': "r' = r"
    and L': "L' = L1\<lparr>lg_entries := lg_entries L1 @ map (new_entry sc now (run_id r)) ls\<rparr>"
    by (auto simp: insert_run_def split: prod.splits sum.splits)
  have "run_key r \<notin> run_key ` set (lg_runs L)" using False by (auto simp: run_conflict_def run_key_def)
  then have "find (run_row (sc_tenant sc) (run_id r)) (lg_runs ?L) = Some r"
    using d r by (intro find_own_run) simp_all
  from bound_run_bound [OF b this] show ?thesis by (simp add: key_bound_def L' r')
qed

text \<open>A completed run is untouched when the pending runs past their deadline are given up.\<close>

lemma give_up_all_other:
  assumes "r \<in> set (lg_runs L)" and "\<not> run_row t i r"
  shows "r \<in> set (lg_runs (give_up_all t i now reason L))"
  using assms by (auto simp: give_up_all_def reconcileAttachmentRepairRun_def update_runs_def)

lemma expire_runs_other:
  assumes d: "distinct (map run_key (lg_runs L))" and r: "r \<in> set (lg_runs L)" and "run_status r = run_completed"
  shows "r \<in> set (lg_runs (expire_runs t now L))"
proof -
  have "i \<in> set (expired_runs t now L) \<Longrightarrow> \<not> run_row t i r" for i
    using d r assms(3) by (auto simp: expired_runs_def distinct_map inj_on_def run_key_def)
  moreover have "(\<And>i. i \<in> set is \<Longrightarrow> \<not> run_row t i r) \<Longrightarrow> r \<in> set (lg_runs K) \<Longrightarrow>
      r \<in> set (lg_runs (fold (\<lambda>i. give_up_all t i now reason) is K))" for "is" K reason
    by (induction "is" arbitrary: K) (simp_all add: give_up_all_other)
  ultimately show ?thesis using r by (simp add: expire_runs_def)
qed

lemma reviewed_ok_mono:
  "reviewed_ok sc reviewed hash L \<Longrightarrow> (\<And>r. r \<in> set (lg_runs L) \<Longrightarrow> run_status r = run_completed \<Longrightarrow>
     r \<in> set (lg_runs L')) \<Longrightarrow> reviewed_ok sc reviewed hash L'"
  by (auto simp: reviewed_ok_def)

lemma insert_run_runs:
  "set (lg_runs L) \<subseteq> set (lg_runs (fst (insert_run sc now digest r ls L)))"
proof (cases "\<exists>q \<in> set (lg_runs L). run_conflict r q")
  case True
  then show ?thesis by (auto simp: insert_run_def bound_run_sel split: option.split)
next
  case False
  let ?L = "L\<lparr>lg_runs := lg_runs L @ [r]\<rparr>"
  obtain L1 x where b: "bound_run sc digest r ?L = (L1, x)" by fastforce
  then have "lg_runs L1 = lg_runs L @ [r]" using bound_run_sel(1) [of sc digest r ?L] by simp
  with False b show ?thesis by (auto simp: insert_run_def split: sum.split)
qed

text \<open>A creation that answered a run: the same call afterwards finds it, and changes nothing.\<close>

lemma create_action_replay:
  assumes L: "ledger_ok L" and fit: "entries_fit entries" and pol: "0 < rp_runByteBudget policy"
    and c: "create_action sc le policy s now fresh bucket entries app reviewed digest L = (L', Inr r)"
  shows "\<exists>r'. create_action sc le policy' s now' fresh' bucket entries app reviewed digest L' = (L', Inr r')
    \<and> run_id r' = run_id r \<and> r' \<in> set (lg_runs L')"
proof -
  obtain ls snaps where p: "prepareAttachmentRepairManifest sc bucket entries s = Inr (ls, snaps)"
    using c by (auto simp: create_action_def split: sum.splits)
  let ?hash = "\<lambda>app. attachmentRepairRequestHash sc le bucket entries app snaps"
  let ?L = "expire_runs (sc_tenant sc) now L"
  have d: "distinct (map run_key (lg_runs L))" using L by (simp add: ledger_ok_def)
  have dx: "distinct (map run_key (lg_runs ?L))" using expire_runs_ok [OF L] by (simp add: ledger_ok_def)
  have rev: "app \<Longrightarrow> reviewed_ok sc reviewed (?hash False) L"
    using c by (auto simp: create_action_def p Let_def split: if_splits)
  have "key_bound sc digest (?hash app) (run_id r) L'
      \<and> (\<forall>q \<in> set (lg_runs L). run_status q = run_completed \<longrightarrow> q \<in> set (lg_runs L'))"
  proof (cases "earlier_run sc digest (?hash app) L")
    case (Some x)
    then have x: "x = (L', Inr r)" using c rev by (auto simp: create_action_def p Let_def split: if_splits)
    have "lg_runs L' = lg_runs L" using Some x
      by (auto simp: earlier_run_def Let_def split: if_split_asm option.split_asm)
        (metis bound_run_sel(1) fst_conv)+
    with earlier_run_bound [OF d Some [unfolded x]] show ?thesis by simp
  next
    case None
    then have i: "insert_run sc now digest (new_run sc policy now fresh digest (?hash app) app ls) ls ?L = (L', Inr r)"
      using c rev by (auto simp: create_action_def p Let_def split: if_splits option.splits)
    have "run_tenant (new_run sc policy now fresh digest (?hash app) app ls) = sc_tenant sc"
      "run_request_hash (new_run sc policy now fresh digest (?hash app) app ls) = ?hash app"
      by (simp_all add: new_run_def Let_def)
    with insert_run_bound [OF dx _ i] have "key_bound sc digest (?hash app) (run_id r) L'" by simp
    with expire_runs_other [OF d] insert_run_runs [of ?L sc now digest
        "new_run sc policy now fresh digest (?hash app) app ls" ls] i
    show ?thesis by fastforce
  qed
  then have kb: "key_bound sc digest (?hash app) (run_id r) L'" and
    mono: "\<And>q. q \<in> set (lg_runs L) \<Longrightarrow> run_status q = run_completed \<Longrightarrow> q \<in> set (lg_runs L')" by auto
  obtain r' where r': "earlier_run sc digest (?hash app) L' = Some (L', Inr r')" "run_id r' = run_id r"
      "r' \<in> set (lg_runs L')" using key_bound_replay [OF kb] by blast
  have "\<not> (app \<and> \<not> reviewed_ok sc reviewed (?hash False) L')"
    using rev reviewed_ok_mono [OF _ mono] by blast
  with r' show ?thesis by (simp add: create_action_def p Let_def)
qed

lemma lock_result:
  assumes "sc_atomic sc" and "withAttachmentRepairLedgerLock sc action L = (L', Inr r)"
  shows "action L = (L', Inr r)"
  using assms by (auto simp: withAttachmentRepairLedgerLock_def ledger_transaction_def split: prod.splits sum.splits)

lemma lock_commits:
  assumes "sc_atomic sc" and "action L = (L', Inr r)"
  shows "withAttachmentRepairLedgerLock sc action L = (L', Inr r)"
  using assms by (simp add: withAttachmentRepairLedgerLock_def ledger_transaction_def)

lemma created:
  assumes "sc_atomic sc" and "createOrGetAttachmentRepairRun sc le policy s now fresh rq L = (L', Inr r)"
  obtains entries where "normalizeAttachmentRepairManifestEntries (rr_entries rq) = Inr entries"
    and "safe_send_intent_key (rr_key rq)" and "js_trim (rr_bucket rq) \<noteq> []"
    and "\<not> (rr_apply rq \<and> or_default (map_option (\<lambda>t. js_lower (js_trim t)) (rr_reviewed rq)) [] = [])"
    and "create_action sc le policy s now fresh (js_trim (rr_bucket rq)) entries (rr_apply rq)
      (map_option (\<lambda>t. js_lower (js_trim t)) (rr_reviewed rq)) (repair_key_digest sc (rr_key rq)) L = (L', Inr r)"
proof -
  let ?rev = "map_option (\<lambda>t. js_lower (js_trim t)) (rr_reviewed rq)"
  from assms(2) obtain entries where e: "normalizeAttachmentRepairManifestEntries (rr_entries rq) = Inr entries"
      "safe_send_intent_key (rr_key rq)" "js_trim (rr_bucket rq) \<noteq> []" "\<not> (rr_apply rq \<and> or_default ?rev [] = [])"
    and w: "withAttachmentRepairLedgerLock sc (create_action sc le policy s now fresh (js_trim (rr_bucket rq)) entries
        (rr_apply rq) ?rev (repair_key_digest sc (rr_key rq))) L = (L', Inr r)"
    by (auto simp: createOrGetAttachmentRepairRun_def Let_def split: if_split_asm sum.split_asm)
  show thesis by (rule that [OF e lock_result [OF assms(1) w]])
qed

lemma createOrGet_replay:
  assumes "sc_atomic sc" and "ledger_ok L" and "0 < rp_runByteBudget policy"
    and "createOrGetAttachmentRepairRun sc le policy s now fresh rq L = (L', Inr r)"
  shows "\<exists>r'. createOrGetAttachmentRepairRun sc le policy' s now' fresh' rq L' = (L', Inr r')
    \<and> run_id r' = run_id r \<and> r' \<in> set (lg_runs L')"
proof -
  obtain entries where e: "normalizeAttachmentRepairManifestEntries (rr_entries rq) = Inr entries"
      "safe_send_intent_key (rr_key rq)" "js_trim (rr_bucket rq) \<noteq> []"
      "\<not> (rr_apply rq \<and> or_default (map_option (\<lambda>t. js_lower (js_trim t)) (rr_reviewed rq)) [] = [])"
    and c: "create_action sc le policy s now fresh (js_trim (rr_bucket rq)) entries (rr_apply rq)
      (map_option (\<lambda>t. js_lower (js_trim t)) (rr_reviewed rq)) (repair_key_digest sc (rr_key rq)) L = (L', Inr r)"
    using created [OF assms(1,4)] by blast
  from create_action_replay [OF assms(2) normalized_fit [OF e(1)] assms(3) c, of policy' now' fresh'] obtain r' where
    r': "create_action sc le policy' s now' fresh' (js_trim (rr_bucket rq)) entries (rr_apply rq)
      (map_option (\<lambda>t. js_lower (js_trim t)) (rr_reviewed rq)) (repair_key_digest sc (rr_key rq)) L' = (L', Inr r')"
      "run_id r' = run_id r" "r' \<in> set (lg_runs L')" by blast
  let ?act = "create_action sc le policy' s now' fresh' (js_trim (rr_bucket rq)) entries (rr_apply rq)
      (map_option (\<lambda>t. js_lower (js_trim t)) (rr_reviewed rq)) (repair_key_digest sc (rr_key rq))"
  have "withAttachmentRepairLedgerLock sc ?act L' = (L', Inr r')"
    by (rule lock_commits [where action = ?act, OF assms(1)]) (rule r'(1))
  with e r'(2,3) show ?thesis by (auto simp: createOrGetAttachmentRepairRun_def Let_def)
qed

section \<open>Inventories without work\<close>

lemma prepare_refused:
  assumes "m \<in> set (messages (ms_db s))" "m_tenant m = sc_tenant sc" "p \<in> set (ms_sources s)"
    and "source_row (m_tenant m) (m_id m) p" "pv_bucket p = bucket" "e \<in> set entries"
    and "pv_object_key p = me_object_key e" "\<forall>v \<in> set (m_attachments m). \<not> payload_missing v"
  shows "\<exists>x. prepareAttachmentRepairManifest sc bucket entries s = Inl (RE_Range x)"
proof -
  let ?ivs = "inventory_rows sc bucket (map me_object_key entries) s"
  have row: "inventory_of (me_object_key e) m \<in> set ?ivs"
  proof -
    let ?g = "\<lambda>m. map (\<lambda>p. inventory_of (pv_object_key p) m)
      (filter (\<lambda>p. source_row (m_tenant m) (m_id m) p \<and> pv_bucket p = bucket
        \<and> pv_object_key p \<in> set (map me_object_key entries)) (ms_sources s))"
    have "me_object_key e \<in> set (map me_object_key entries)" using assms(6) by simp
    then have "inventory_of (me_object_key e) m \<in> set (?g m)"
      using assms(3-5,7) by (simp add: image_iff) metis
    then show ?thesis using assms(1,2) by (simp add: inventory_rows_def) blast
  qed
  have bad: "iv_attachment_count (inventory_of (me_object_key e) m) = 0"
    using assms(8) by (simp add: inventory_of_def)
  have one: "\<exists>x. prepare_entry ?ivs q e = Inl (RE_Range x)" for q
  proof -
    have "iv_object_key (inventory_of (me_object_key e) m) = me_object_key e" by (simp add: inventory_of_def)
    with row bad have "\<exists>r \<in> set (filter (\<lambda>r. iv_object_key r = me_object_key e) ?ivs). iv_attachment_count r = 0
        \<or> \<not> iv_metadata_valid r \<or> \<not> iv_repairable r" by auto
    then show ?thesis unfolding prepare_entry_def Let_def by simp
  qed
  have any: "prepare_entry ?ivs q f = Inl y \<Longrightarrow> \<exists>x. y = RE_Range x" for q f y
    by (auto simp: prepare_entry_def Let_def split: if_splits)
  have "e \<in> set es \<Longrightarrow> \<exists>x. prepare_entries ?ivs q es = Inl (RE_Range x)" for es q
  proof (induction es arbitrary: q)
    case (Cons f fs)
    show ?case
    proof (cases "prepare_entry ?ivs q f")
      case (Inl y)
      then show ?thesis using any [OF Inl] by auto
    next
      case (Inr l)
      then have "f \<noteq> e" using one [of q] by auto
      with Cons.IH [of "Suc q"] Cons.prems Inr show ?thesis by auto
    qed
  qed simp
  from this [OF assms(6), of 0] show ?thesis by (auto simp: prepareAttachmentRepairManifest_def Let_def)
qed

end
