(* ===== verification/Repair_Promises.thy ===== *)
theory Repair_Promises
  imports Repair_Runs
begin

text \<open>
  The promises of the attachment-repair ledger, each with a run of the model at a concrete
  tenant, message and manifest on which its hypotheses hold.
\<close>

section \<open>A small mailbox and its ledger\<close>

definition pdf :: json where
  "pdf = JObj [(''filename'', JStr ''a''), (''content_type'', JStr ''x/y''), (''size'', JNum 3)]"

definition letter :: "json list \<Rightarrow> message" where
  "letter as = \<lparr> m_id = ''m'', m_tenant = ''t'', m_direction = ''inbound'', m_from = ''f'', m_to = [], m_cc = [],
     m_subject = None, m_body_text = None, m_body_html = None, m_status = ''received'',
     m_provider_message_id = None, m_message_id = Some ''k'', m_in_reply_to = None, m_received_at = None,
     m_is_read = False, m_is_starred = False, m_labels = [], m_headers = Map.empty, m_attachments = as,
     m_source_id = Some ''k'', m_key = None, m_payload_hash = None, m_send_state = SS_none,
     m_send_started_at = None, m_created_at = 0, m_updated_at = 0 \<rparr>"

definition letter_source :: provenance where
  "letter_source = \<lparr> pv_tenant = ''t'', pv_message = ''m'', pv_bucket = ''b'', pv_object_key = ''k'',
     pv_raw_sha256 = replicate 64 CHR ''0'', pv_established_via = normal_ingest \<rparr>"

definition mailbox :: "json list \<Rightarrow> mail_store" where
  "mailbox as = \<lparr> ms_db = empty_db\<lparr>messages := [letter as]\<rparr>, ms_sources = [letter_source] \<rparr>"

definition operator :: scope where
  "operator = \<lparr> sc_tenant = ''t'', sc_atomic = True, sc_unsafe = False, sc_sha256 = (\<lambda>_. ''h'') \<rparr>"

definition one_object :: run_request where
  "one_object = \<lparr> rr_key = [65], rr_bucket = ''b'', rr_apply = False, rr_reviewed = None,
     rr_entries = [JObj [(''object_key'', JStr ''k''), (''recipients'', JArr [JStr ''r'']),
                         (''canary_message_ids'', JArr [JStr ''m''])]] \<rparr>"

abbreviation any_order :: "string \<Rightarrow> string \<Rightarrow> bool" where
  "any_order \<equiv> \<lambda>_ _. True"

definition open_entry :: repair_entry where
  "open_entry = \<lparr> re_tenant = ''t'', re_run = ''u'', re_position = 0, re_object_key = ''k'',
     re_recipients = [''r''], re_canary_message_ids = [''m''], re_attachment_count = 1,
     re_status = es_pending, re_operator_action = False, re_attempts = 0, re_last_error_code = None,
     re_last_attempt_at = None, re_next_attempt_at = 0, re_claim_token = None,
     re_lease_expires_at = None, re_reserved_bytes = 0, re_updated_at = 0 \<rparr>"

definition open_run :: repair_run where
  "open_run = new_run operator DEFAULT_ATTACHMENT_REPAIR_POLICY 0 ''u'' ''h'' ''h'' False
     [\<lparr> le_entry = \<lparr> me_object_key = ''k'', me_recipients = [''r''], me_canary_message_ids = [''m''] \<rparr>,
        le_position = 0, le_attachment_count = 1 \<rparr>]"

definition open_ledger :: repair_ledger where
  "open_ledger = \<lparr> lg_runs = [open_run],
     lg_aliases = [\<lparr> ra_tenant = ''t'', ra_key_hash = ''h'', ra_request_hash = ''h'', ra_run = ''u'' \<rparr>],
     lg_entries = [open_entry] \<rparr>"

lemma trims [simp]:
  "js_trim ''b'' = ''b''" "js_trim ''k'' = ''k''" "js_trim ''r'' = ''r''" "js_trim ''m'' = ''m''"
  by (simp_all add: trim_by_def is_ws_def is_ws_unit_def)

lemma one_object_normal:
  "normalizeAttachmentRepairManifestEntries (rr_entries one_object)
   = Inr [\<lparr> me_object_key = ''k'', me_recipients = [''r''], me_canary_message_ids = [''m''] \<rparr>]"
  by (simp add: normalizeAttachmentRepairManifestEntries_def one_object_def manifest_entry_of_def
      json_keys_def is_object_def non_blank_texts_def json_key_def js_unique_def all_some_def
      MAX_ATTACHMENT_REPAIR_MANIFEST_ITEMS_def)

lemma key_ok: "safe_send_intent_key [65]"
  by (simp add: safe_send_intent_key_def trim_by_def is_ws_unit_def)

definition letter_inventory :: inventory_row where
  "letter_inventory = \<lparr> iv_id = ''m'', iv_object_key = ''k'', iv_state = [pdf], iv_attachment_count = 1,
     iv_metadata_valid = True, iv_repairable = True \<rparr>"

lemma letter_inventory_rows: "inventory_rows operator ''b'' [''k''] (mailbox [pdf]) = [letter_inventory]"
  by (simp add: inventory_rows_def mailbox_def letter_def letter_source_def operator_def source_row_def
      inventory_of_def pdf_def payload_missing_def text_key_def json_key_def metadata_row_valid_def
      size_key_ok_def letter_inventory_def without_content_def)

lemma one_object_prepared:
  "\<exists>snaps. prepareAttachmentRepairManifest operator ''b''
     [\<lparr> me_object_key = ''k'', me_recipients = [''r''], me_canary_message_ids = [''m''] \<rparr>] (mailbox [pdf])
   = Inr ([\<lparr> le_entry = \<lparr> me_object_key = ''k'', me_recipients = [''r''], me_canary_message_ids = [''m''] \<rparr>,
        le_position = 0, le_attachment_count = 1 \<rparr>], snaps)"
  by (simp add: prepareAttachmentRepairManifest_def letter_inventory_rows prepare_entry_def Let_def
      js_unique_def snapshot_of_def all_some_def letter_inventory_def image_iff)

lemma open_created:
  "createOrGetAttachmentRepairRun operator any_order DEFAULT_ATTACHMENT_REPAIR_POLICY (mailbox [pdf]) 0 ''u''
     one_object empty_ledger = (open_ledger, Inr open_run)"
proof -
  obtain snaps where p: "prepareAttachmentRepairManifest operator ''b''
     [\<lparr> me_object_key = ''k'', me_recipients = [''r''], me_canary_message_ids = [''m''] \<rparr>] (mailbox [pdf])
   = Inr ([\<lparr> le_entry = \<lparr> me_object_key = ''k'', me_recipients = [''r''], me_canary_message_ids = [''m''] \<rparr>,
        le_position = 0, le_attachment_count = 1 \<rparr>], snaps)"
    using one_object_prepared by blast
  have f: "rr_key one_object = [65]" "rr_bucket one_object = ''b''" "rr_apply one_object = False"
    "rr_reviewed one_object = None" by (simp_all add: one_object_def)
  have h: "attachmentRepairRequestHash operator le bucket es app sn = ''h''" "repair_key_digest operator key = ''h''"
    for le bucket es app sn key
    by (simp_all add: attachmentRepairRequestHash_def repair_key_digest_def operator_def)
  have o: "sc_atomic operator" "sc_tenant operator = ''t''" by (simp_all add: operator_def)
  show ?thesis unfolding createOrGetAttachmentRepairRun_def Let_def one_object_normal f
    by (simp add: Let_def key_ok withAttachmentRepairLedgerLock_def o ledger_transaction_def create_action_def p h
        earlier_run_def empty_ledger_def expire_runs_def expired_runs_def quota_error_def
        DEFAULT_ATTACHMENT_REPAIR_POLICY_def insert_run_def bound_run_def bind_alias_def open_ledger_def
        open_run_def new_run_def new_entry_def open_entry_def)
qed

definition demo_token :: string where
  "demo_token = ''00000000-0000-0000-0000-000000000001''"

definition held_entry :: repair_entry where
  "held_entry = set_claimed 1 demo_token 1000 MAX_ATTACHMENT_REPAIR_SOURCE_BYTES open_entry"

definition held_ledger :: repair_ledger where
  "held_ledger = fst (claimAttachmentRepairEntry operator ''u'' 1000 1 1 demo_token open_ledger)"

lemma open_run_fields [simp]:
  "run_tenant open_run = ''t''" "run_id open_run = ''u''" "run_status open_run = run_pending"
  "run_deadline_at open_run = 3600000" "run_byte_budget open_run = 536870912" "run_bytes_consumed open_run = 0"
  by (simp_all add: open_run_def new_run_def Let_def operator_def DEFAULT_ATTACHMENT_REPAIR_POLICY_def)

lemma operator_fields [simp]: "sc_tenant operator = ''t''" "sc_atomic operator"
  by (simp_all add: operator_def)

lemma open_ok: "ledger_next\<^sup>*\<^sup>* empty_ledger open_ledger" "ledger_ok open_ledger"
proof -
  have "ledger_step 0 None empty_ledger open_ledger"
    using step_create [of operator DEFAULT_ATTACHMENT_REPAIR_POLICY 0 empty_ledger any_order "mailbox [pdf]" "''u''" one_object]
    unfolding open_created by (simp add: DEFAULT_ATTACHMENT_REPAIR_POLICY_def)
  then show *: "ledger_next\<^sup>*\<^sup>* empty_ledger open_ledger"
    by (intro r_into_rtranclp) (auto simp: ledger_next_def)
  show "ledger_ok open_ledger" by (rule reachable_ok [OF *])
qed

lemma open_claim:
  "claimAttachmentRepairEntry operator ''u'' 1000 1 1 demo_token open_ledger = (held_ledger, Inr (Some held_entry))"
proof -
  have "snd (claimAttachmentRepairEntry operator ''u'' 1000 1 1 demo_token open_ledger) = Inr (Some held_entry)"
    by (simp add: claimAttachmentRepairEntry_def withAttachmentRepairLedgerLock_def ledger_transaction_def
        safe_integer_def claim_run_def open_ledger_def claim_entry_def Let_def give_up_def update_entries_def
        stable_sort_def claimable_def open_entry_def unleased_def MAX_ATTACHMENT_REPAIR_ATTEMPTS_def
        MAX_ATTACHMENT_REPAIR_SOURCE_BYTES_def claim_selected_def charge_def update_runs_def held_entry_def set_claimed_def)
  then show ?thesis by (simp add: held_ledger_def prod_eq_iff)
qed

lemma held_ok: "ledger_ok held_ledger" "held_entry \<in> set (lg_entries held_ledger)"
  using claim_keeps_ok [OF open_ok(2), of operator "''u''" 1000 1 1 demo_token]
    claim_grants [OF operator_fields(2) open_ok(2) open_claim]
  by (simp_all add: open_claim)

section \<open>Totals and bytes\<close>

text \<open>
  C27. After any sequence of calls, the totals of every run add up to its inventory, a run
  is completed exactly when no entry is pending, the bytes charged never exceed its budget
  and cover every reservation that is still held.\<close>

theorem repair_totals_and_bytes:
  assumes "ledger_next\<^sup>*\<^sup>* empty_ledger L" and "r \<in> set (lg_runs L)"
  shows "run_repaired r + run_would_repair r + run_unavailable r + run_pending_total r = run_inventory_total r
    \<and> (run_status r = run_completed \<longleftrightarrow> (\<forall>e \<in> set (entries_of r L). re_status e \<noteq> es_pending))
    \<and> reserved (entries_of r L) \<le> run_bytes_consumed r \<and> run_bytes_consumed r \<le> run_byte_budget r"
  using reachable_ok [OF assms(1)] assms(2)
  by (auto simp: ledger_ok_def totals_ok_def run_fits_def rows_zero_iff)

theorem repair_totals_and_bytes_witness:
  "run_pending_total open_run = 1 \<and> run_repaired open_run + run_would_repair open_run + run_unavailable open_run
     + run_pending_total open_run = run_inventory_total open_run"
  using repair_totals_and_bytes [OF open_ok(1), of open_run]
  by (simp add: open_ledger_def) (simp add: open_run_def new_run_def Let_def)

section \<open>Leases and attempts\<close>

text \<open>
  C28. Once a worker holds an entry, no claim before its lease expires grants that entry
  again, whatever other workers do in between, as long as none of them presents its token.\<close>

theorem repair_lease_exclusive:
  assumes "sc_atomic sc" "ledger_ok L"
    and "claimAttachmentRepairEntry sc i leaseMs now wall token L = (L1, Inr (Some e))"
    and "quiet (now + leaseMs) token L1 L2" and "now2 < now + leaseMs" "sc_atomic sc2"
    and "claimAttachmentRepairEntry sc2 i2 leaseMs2 now2 wall2 token2 L2 = (L3, Inr (Some e2))"
  shows "entry_key e2 \<noteq> entry_key e"
proof
  assume same: "entry_key e2 = entry_key e"
  have e: "e \<in> set (lg_entries L1)" "re_claim_token e = Some token" "re_lease_expires_at e = Some (now + leaseMs)"
    using claim_grants [OF assms(1-3)] by (auto simp: granted_def set_claimed_def)
  have ok1: "ledger_ok L1" using claim_keeps_ok [OF assms(2)] assms(3) by (metis fst_conv)
  have ok2: "ledger_ok L2" by (rule quiet_ok [OF assms(4) ok1])
  have "e \<in> set (lg_entries L2)" by (rule lease_quiet [OF assms(4) ok1 e])
  moreover obtain e0 run where "granted sc2 i2 leaseMs2 now2 wall2 token2 L2 e0 e2 run"
    using claim_grants [OF assms(6) ok2 assms(7)] by blast
  then have "e0 \<in> set (lg_entries L2)" "unleased now2 e0" "entry_key e0 = entry_key e2"
    by (auto simp: granted_def claimable_def set_claimed_def entry_key_def)
  ultimately have "e0 = e" using ok2 same by (auto simp: ledger_ok_def distinct_map inj_on_def)
  with \<open>unleased now2 e0\<close> e(2,3) assms(5) show False by (simp add: unleased_def)
qed

text \<open>Two entries of one run, for the second worker.\<close>

theorem repair_lease_exclusive_witness:
  "\<not> (\<exists>L3 e2. claimAttachmentRepairEntry operator ''u'' 1000 500 500 demo_token held_ledger = (L3, Inr (Some e2))
      \<and> entry_key e2 = entry_key held_entry)"
proof -
  have "quiet (1 + 1000) demo_token held_ledger held_ledger" by (rule quiet_refl)
  from repair_lease_exclusive [OF operator_fields(2) open_ok(2) open_claim this, of 500 operator "''u''" 1000 500 demo_token]
  show ?thesis by auto
qed

text \<open>
  C38. Over the whole life of the ledger, at most three attempts are granted for an entry.\<close>

theorem repair_three_attempts:
  assumes "grants_log ks L"
  shows "count_list ks k \<le> 3"
proof (cases "k \<in> set ks")
  case True
  have c: "counted ks L" by (rule grants_log_counted [OF assms])
  with True obtain e where e: "e \<in> set (lg_entries L)" "k = entry_key e" by (auto simp: counted_def)
  then have "(k, re_attempts e) \<in> set (tried L)" by (auto simp: tried_def)
  with c have "count_list ks k = re_attempts e" by (auto simp: counted_def)
  moreover have "re_attempts e \<le> 3"
    using c e(1) by (simp add: counted_def ledger_ok_def entry_ok_def MAX_ATTACHMENT_REPAIR_ATTEMPTS_def)
  ultimately show ?thesis by simp
qed (simp add: count_list_0_iff)

lemma open_log: "grants_log [entry_key held_entry] held_ledger"
proof -
  have "grants_log [] open_ledger"
    using log_create [OF log_empty, of operator DEFAULT_ATTACHMENT_REPAIR_POLICY any_order "mailbox [pdf]" 0 "''u''" one_object]
    unfolding open_created by (simp add: DEFAULT_ATTACHMENT_REPAIR_POLICY_def)
  from log_grant [OF this operator_fields(2) open_claim] show ?thesis .
qed

theorem repair_three_attempts_witness:
  "grants_log [entry_key held_entry] held_ledger \<and> count_list [entry_key held_entry] (entry_key held_entry) = 1
   \<and> count_list [entry_key held_entry] (entry_key held_entry) \<le> 3"
  using open_log repair_three_attempts [OF open_log] by simp

text \<open>A granted attempt is charged in full before any byte of the source is read: the run's
  consumed bytes grow by exactly the reservation, which is positive, at most 128 MiB, and
  leaves the run within its budget.\<close>

theorem repair_claim_charged:
  assumes "sc_atomic sc" and "ledger_ok L"
    and "claimAttachmentRepairEntry sc i leaseMs now wall token L = (L', Inr (Some e))"
  shows "\<exists>run run'. getAttachmentRepairRun sc i L = Some run \<and> getAttachmentRepairRun sc i L' = Some run'
    \<and> run_bytes_consumed run' = run_bytes_consumed run + re_reserved_bytes e
    \<and> run_bytes_consumed run' \<le> run_byte_budget run'
    \<and> 0 < re_reserved_bytes e \<and> re_reserved_bytes e \<le> MAX_ATTACHMENT_REPAIR_SOURCE_BYTES"
proof -
  have "ledger_ok L'" using claim_keeps_ok [OF assms(2)] assms(3) by (metis fst_conv)
  then have "r \<in> set (lg_runs L') \<Longrightarrow> run_bytes_consumed r \<le> run_byte_budget r" for r
    by (auto simp: ledger_ok_def run_fits_def)
  then have "getAttachmentRepairRun sc i L' = Some r \<Longrightarrow> run_bytes_consumed r \<le> run_byte_budget r" for r
    by (auto simp: getAttachmentRepairRun_def dest: find_SomeD)
  with claim_charges [OF assms] show ?thesis by blast
qed

theorem repair_claim_charged_witness:
  "\<exists>run'. getAttachmentRepairRun operator ''u'' held_ledger = Some run'
     \<and> run_bytes_consumed run' = 134217728 \<and> run_bytes_consumed run' \<le> run_byte_budget run'"
  using repair_claim_charged [OF operator_fields(2) open_ok(2) open_claim]
  by (auto simp: getAttachmentRepairRun_def open_ledger_def held_entry_def set_claimed_def
      MAX_ATTACHMENT_REPAIR_SOURCE_BYTES_def)

section \<open>Outcomes\<close>

text \<open>A terminal outcome is never changed: an entry that is not pending stays in the ledger
  as it is through every later call of any worker.\<close>

theorem repair_outcome_final:
  assumes "ledger_next\<^sup>*\<^sup>* L L'" and "ledger_ok L" and "e \<in> set (lg_entries L)" and "re_status e \<noteq> es_pending"
  shows "e \<in> set (lg_entries L')"
  using assms(1)
proof induction
  case (step L' L'')
  then show ?case
    using terminal_step ledger_steps_ok [OF step.hyps(1) assms(2)] assms(4) by (auto simp: ledger_next_def)
qed (use assms(3) in simp)

definition ended_ledger :: repair_ledger where
  "ended_ledger = fst (claimAttachmentRepairEntry operator ''u'' 1000 4000000 4000000 demo_token open_ledger)"

lemma ended_entry:
  "set_unavailable 4000000 ''run_time_budget_exhausted'' open_entry \<in> set (lg_entries ended_ledger)" "ledger_ok ended_ledger"
proof -
  show "set_unavailable 4000000 ''run_time_budget_exhausted'' open_entry \<in> set (lg_entries ended_ledger)"
    by (simp add: ended_ledger_def claimAttachmentRepairEntry_def withAttachmentRepairLedgerLock_def
        ledger_transaction_def safe_integer_def claim_run_def open_ledger_def give_up_all_def give_up_def
        update_entries_def reconcileAttachmentRepairRun_def update_runs_def open_entry_def unleased_def)
  show "ledger_ok ended_ledger" unfolding ended_ledger_def by (rule claim_keeps_ok [OF open_ok(2)])
qed

theorem repair_outcome_final_witness:
  "set_unavailable 4000000 ''run_time_budget_exhausted'' open_entry
     \<in> set (lg_entries (fst (claimAttachmentRepairEntry operator ''u'' 1000 5000000 5000000 demo_token ended_ledger)))"
proof (rule repair_outcome_final [OF _ ended_entry(2,1)])
  show "ledger_next\<^sup>*\<^sup>* ended_ledger
      (fst (claimAttachmentRepairEntry operator ''u'' 1000 5000000 5000000 demo_token ended_ledger))"
    unfolding ledger_next_def using step_claim [OF operator_fields(2)] by (intro r_into_rtranclp) blast
qed (simp add: set_unavailable_def)

text \<open>A worker whose claim was taken over or ended cannot change the ledger: a record that does
  not carry the entry's current token leaves everything as it is.\<close>

theorem repair_stale_record_ignored:
  assumes "find (\<lambda>e. entry_row (sc_tenant sc) i e \<and> re_position e = nat position) (lg_entries L) = Some e"
    and "re_claim_token e \<noteq> Some token"
  shows "fst (recordAttachmentRepairEntryOutcome sc i position token status code b now wall L) = L"
proof -
  have r: "record_outcome sc i (nat position) token status code b now wall L = (L, Inr ())"
    using assms by (simp add: record_outcome_def Let_def split: option.split)
  have "fst (withAttachmentRepairLedgerLock sc (record_outcome sc i (nat position) token status code b now wall) L) = L"
    by (simp add: withAttachmentRepairLedgerLock_def ledger_transaction_def r)
  then show ?thesis unfolding recordAttachmentRepairEntryOutcome_def by auto
qed

theorem repair_stale_record_ignored_witness:
  "fst (recordAttachmentRepairEntryOutcome operator ''u'' 0 demo_token es_repaired None None 5 5 open_ledger) = open_ledger"
  by (rule repair_stale_record_ignored [where e = open_entry]) (simp_all add: open_ledger_def open_entry_def)

section \<open>The end of a run\<close>

text \<open>
  Every run ends: once its deadline has passed and no lease runs any more, the next claim
  grants nothing and leaves the run completed.\<close>

theorem repair_deadline_completes:
  assumes "sc_atomic sc" and "0 < leaseMs" "leaseMs \<le> 86400000"
    and "getAttachmentRepairRun sc i L = Some run" and "run_deadline_at run \<le> wall"
    and "\<forall>e \<in> set (run_entries (sc_tenant sc) i L). unleased now e"
  shows "\<exists>run'. snd (claimAttachmentRepairEntry sc i leaseMs now wall token L) = Inr None
    \<and> getAttachmentRepairRun sc i (fst (claimAttachmentRepairEntry sc i leaseMs now wall token L)) = Some run'
    \<and> run_status run' = run_completed"
proof -
  have run: "find (run_row (sc_tenant sc) i) (lg_runs L) = Some run"
    using assms(4) by (simp add: getAttachmentRepairRun_def)
  have c: "claimAttachmentRepairEntry sc i leaseMs now wall token L = claim_run sc i leaseMs now wall token L"
    if "claim_run sc i leaseMs now wall token L = (L', Inr None)" for L'
    using assms(1-3) that
    by (simp add: claimAttachmentRepairEntry_def withAttachmentRepairLedgerLock_def ledger_transaction_def safe_integer_def)
  show ?thesis
  proof (cases "run_status run = run_completed")
    case True
    with run have "claim_run sc i leaseMs now wall token L = (L, Inr None)" by (simp add: claim_run_def)
    with c True run show ?thesis by (simp add: getAttachmentRepairRun_def)
  next
    case False
    with run assms(5) have "claim_run sc i leaseMs now wall token L
        = (give_up_all (sc_tenant sc) i now ''run_time_budget_exhausted'' L, Inr None)"
      by (simp add: claim_run_def)
    with c give_up_all_completes [OF run assms(6)] show ?thesis by (simp add: getAttachmentRepairRun_def)
  qed
qed

theorem repair_deadline_completes_witness:
  "\<exists>run'. getAttachmentRepairRun operator ''u'' ended_ledger = Some run' \<and> run_status run' = run_completed"
proof -
  have "getAttachmentRepairRun operator ''u'' open_ledger = Some open_run"
    by (simp add: getAttachmentRepairRun_def open_ledger_def)
  moreover have "\<forall>e \<in> set (run_entries (sc_tenant operator) ''u'' open_ledger). unleased 4000000 e"
    by (simp add: run_entries_def open_ledger_def open_entry_def unleased_def)
  ultimately show ?thesis
    using repair_deadline_completes [of operator 1000 "''u''" open_ledger open_run 4000000 4000000 demo_token]
    unfolding ended_ledger_def by simp
qed

lemma in_map_map: "x \<in> set xs \<Longrightarrow> f (g x) \<in> set (map f (map g xs))"
  by simp

text \<open>
  Reservations alone can end a run: when the whole budget is reserved by entries that other
  workers hold, a claim makes every entry that nobody holds unavailable, although the reserved
  bytes may all be given back.\<close>

theorem repair_reservations_end_entries:
  assumes "sc_atomic sc" and "0 < leaseMs" "leaseMs \<le> 86400000"
    and "getAttachmentRepairRun sc i L = Some run" "run_status run = run_pending" "wall < run_deadline_at run"
    and "run_bytes_consumed run = run_byte_budget run"
    and "e \<in> set (lg_entries L)" "entry_row (sc_tenant sc) i e" "re_status e = es_pending" "re_claim_token e = None"
  shows "\<exists>e' \<in> set (lg_entries (fst (claimAttachmentRepairEntry sc i leaseMs now wall token L))).
    entry_key e' = entry_key e \<and> re_status e' = es_unavailable"
proof -
  let ?t = "sc_tenant sc"
  let ?P = "\<lambda>e. MAX_ATTACHMENT_REPAIR_ATTEMPTS \<le> re_attempts e"
  let ?L = "give_up ?t i now ''retry_exhausted'' ?P L"
  have "claim_run sc i leaseMs now wall token L = (give_up_all ?t i now ''run_byte_budget_exhausted'' ?L, Inr None)"
    using assms(4-7) by (simp add: claim_run_def claim_entry_def Let_def getAttachmentRepairRun_def)
  then have c: "fst (claimAttachmentRepairEntry sc i leaseMs now wall token L)
      = give_up_all ?t i now ''run_byte_budget_exhausted'' ?L"
    using assms(1-3)
    by (simp add: claimAttachmentRepairEntry_def withAttachmentRepairLedgerLock_def ledger_transaction_def safe_integer_def)
  let ?g = "\<lambda>P reason e. if entry_row ?t i e \<and> re_status e = es_pending \<and> P e \<and> unleased now e
      then set_unavailable now reason e else e"
  have entries: "lg_entries (give_up_all ?t i now ''run_byte_budget_exhausted'' ?L)
      = map (?g (\<lambda>_. True) ''run_byte_budget_exhausted'') (map (?g ?P ''retry_exhausted'') (lg_entries L))"
    by (simp add: give_up_all_def reconcileAttachmentRepairRun_def give_up_def update_entries_def)
  have "?g (\<lambda>_. True) ''run_byte_budget_exhausted'' (?g ?P ''retry_exhausted'' e)
      \<in> set (lg_entries (give_up_all ?t i now ''run_byte_budget_exhausted'' ?L))"
    unfolding entries by (rule in_map_map [OF assms(8)])
  then show ?thesis unfolding c using assms(9-11)
    by (auto simp: unleased_def set_unavailable_def entry_key_def split: if_splits intro: bexI [rotated])
qed

definition crowded_run :: repair_run where
  "crowded_run = open_run\<lparr>run_entry_total := 2, run_bytes_consumed := 536870912\<rparr>"

definition crowded_ledger :: repair_ledger where
  "crowded_ledger = \<lparr> lg_runs = [crowded_run], lg_aliases = [],
     lg_entries = [open_entry\<lparr>re_claim_token := Some demo_token, re_lease_expires_at := Some 1000,
       re_reserved_bytes := 536870912, re_attempts := 1\<rparr>, open_entry\<lparr>re_position := 1\<rparr>] \<rparr>"

theorem repair_reservations_end_entries_witness:
  "\<exists>e' \<in> set (lg_entries (fst (claimAttachmentRepairEntry operator ''u'' 1000 5 5 demo_token crowded_ledger))).
     entry_key e' = ((''t'', ''u''), 1) \<and> re_status e' = es_unavailable"
proof -
  have "getAttachmentRepairRun operator ''u'' crowded_ledger = Some crowded_run"
    by (simp add: getAttachmentRepairRun_def crowded_ledger_def crowded_run_def)
  from repair_reservations_end_entries [OF operator_fields(2) _ _ this, of 1000 5 "open_entry\<lparr>re_position := 1\<rparr>" 5 demo_token]
  show ?thesis by (simp add: crowded_run_def crowded_ledger_def open_entry_def entry_key_def)
qed

section \<open>Replays and reviews\<close>

text \<open>
  Creating a run is idempotent: the same request against the same mailbox, at any later time
  and under any policy, finds the run the first call answered and changes nothing.\<close>

theorem repair_replay_same_run:
  assumes "sc_atomic sc" and "ledger_ok L" and "0 < rp_runByteBudget policy"
    and "createOrGetAttachmentRepairRun sc le policy s now fresh rq L = (L', Inr r)"
  shows "\<exists>r'. createOrGetAttachmentRepairRun sc le policy' s now' fresh' rq L' = (L', Inr r')
    \<and> run_id r' = run_id r \<and> r' \<in> set (lg_runs L')"
  by (rule createOrGet_replay [OF assms])

theorem repair_replay_same_run_witness:
  "\<exists>r'. createOrGetAttachmentRepairRun operator any_order DEFAULT_ATTACHMENT_REPAIR_POLICY (mailbox [pdf]) 9 ''v''
     one_object open_ledger = (open_ledger, Inr r') \<and> run_id r' = ''u''"
  using repair_replay_same_run [OF operator_fields(2) empty_ledger_ok _ open_created,
      of DEFAULT_ATTACHMENT_REPAIR_POLICY 9 "''v''"]
  by (auto simp: DEFAULT_ATTACHMENT_REPAIR_POLICY_def)

text \<open>
  An apply run exists only after its review: whenever a call with apply answers a run, the
  tenant has a completed dry run, the one the caller names, whose request hash is the hash of
  the same bucket, entries and attachment state with apply off.\<close>

theorem repair_apply_needs_review:
  assumes "sc_atomic sc" and "rr_apply rq"
    and "createOrGetAttachmentRepairRun sc le policy s now fresh rq L = (L', Inr r)"
  shows "\<exists>d \<in> set (lg_runs L). \<exists>entries ls snaps.
    normalizeAttachmentRepairManifestEntries (rr_entries rq) = Inr entries
    \<and> prepareAttachmentRepairManifest sc (js_trim (rr_bucket rq)) entries s = Inr (ls, snaps)
    \<and> run_tenant d = sc_tenant sc \<and> Some (run_id d) = map_option (\<lambda>t. js_lower (js_trim t)) (rr_reviewed rq)
    \<and> \<not> run_apply d \<and> run_status d = run_completed
    \<and> run_request_hash d = attachmentRepairRequestHash sc le (js_trim (rr_bucket rq)) entries False snaps"
proof -
  obtain entries where e: "normalizeAttachmentRepairManifestEntries (rr_entries rq) = Inr entries"
    and c: "create_action sc le policy s now fresh (js_trim (rr_bucket rq)) entries (rr_apply rq)
      (map_option (\<lambda>t. js_lower (js_trim t)) (rr_reviewed rq)) (repair_key_digest sc (rr_key rq)) L = (L', Inr r)"
    using created [OF assms(1,3)] by blast
  obtain ls snaps where p: "prepareAttachmentRepairManifest sc (js_trim (rr_bucket rq)) entries s = Inr (ls, snaps)"
    using c by (auto simp: create_action_def split: sum.splits)
  have "reviewed_ok sc (map_option (\<lambda>t. js_lower (js_trim t)) (rr_reviewed rq))
      (attachmentRepairRequestHash sc le (js_trim (rr_bucket rq)) entries False snaps) L"
    using c assms(2) by (auto simp: create_action_def p Let_def split: if_splits)
  with e p show ?thesis unfolding reviewed_ok_def by blast
qed

definition approver :: scope where
  "approver = operator\<lparr>sc_sha256 := (\<lambda>u. if u ! 9 = 116 then ''a'' else ''h'')\<rparr>"

definition reviewed_ledger :: repair_ledger where
  "reviewed_ledger = \<lparr> lg_runs = [open_run\<lparr>run_status := run_completed\<rparr>], lg_aliases = [], lg_entries = [] \<rparr>"

definition apply_object :: run_request where
  "apply_object = one_object\<lparr>rr_apply := True, rr_reviewed := Some ''u''\<rparr>"

lemma u_text [simp]: "js_lower (js_trim ''u'') = ''u''"
  by (simp add: trim_by_def is_ws_def is_ws_unit_def js_lower_def lower_char_def)

lemma approver_hash:
  "attachmentRepairRequestHash approver any_order bucket es True snaps = ''a''"
  "attachmentRepairRequestHash approver any_order bucket es False snaps = ''h''"
  "repair_key_digest approver key = ''a''"
  by (simp_all add: attachmentRepairRequestHash_def repair_key_digest_def approver_def stable_sort_def
      json_string_def json_char_def)

lemma apply_created:
  "\<exists>L' r. createOrGetAttachmentRepairRun approver any_order DEFAULT_ATTACHMENT_REPAIR_POLICY (mailbox [pdf]) 0 ''w''
     apply_object reviewed_ledger = (L', Inr r)"
proof -
  have p: "prepareAttachmentRepairManifest approver b es s = prepareAttachmentRepairManifest operator b es s" for b es s
  proof -
    have "snapshot_of approver = snapshot_of operator" "inventory_rows approver = inventory_rows operator"
      by (simp_all add: fun_eq_iff snapshot_of_def inventory_rows_def approver_def)
    then show ?thesis by (simp only: prepareAttachmentRepairManifest_def)
  qed
  obtain snaps where q: "prepareAttachmentRepairManifest operator ''b''
     [\<lparr> me_object_key = ''k'', me_recipients = [''r''], me_canary_message_ids = [''m''] \<rparr>] (mailbox [pdf])
   = Inr ([\<lparr> le_entry = \<lparr> me_object_key = ''k'', me_recipients = [''r''], me_canary_message_ids = [''m''] \<rparr>,
        le_position = 0, le_attachment_count = 1 \<rparr>], snaps)"
    using one_object_prepared by blast
  have f: "rr_key apply_object = [65]" "rr_bucket apply_object = ''b''" "rr_apply apply_object = True"
    "rr_reviewed apply_object = Some ''u''" "rr_entries apply_object = rr_entries one_object"
    by (simp_all add: apply_object_def one_object_def)
  have o: "sc_atomic approver" "sc_tenant approver = ''t''" by (simp_all add: approver_def)
  have h: "run_request_hash open_run = ''h''" "run_key_hash open_run = ''h''" "\<not> run_apply open_run"
    "run_entry_total open_run = 1" by (simp_all add: open_run_def new_run_def Let_def)
  show ?thesis unfolding createOrGetAttachmentRepairRun_def Let_def f one_object_normal
    by (simp add: Let_def key_ok or_default_def withAttachmentRepairLedgerLock_def o ledger_transaction_def
        create_action_def p q approver_hash reviewed_ok_def reviewed_ledger_def h earlier_run_def expire_runs_def
        expired_runs_def quota_error_def DEFAULT_ATTACHMENT_REPAIR_POLICY_def insert_run_def bound_run_def
        bind_alias_def new_run_def run_conflict_def)
qed

theorem repair_apply_needs_review_witness:
  "\<exists>d \<in> set (lg_runs reviewed_ledger). run_status d = run_completed
     \<and> Some (run_id d) = map_option (\<lambda>t. js_lower (js_trim t)) (rr_reviewed apply_object)"
proof -
  obtain L' r where c: "createOrGetAttachmentRepairRun approver any_order DEFAULT_ATTACHMENT_REPAIR_POLICY
     (mailbox [pdf]) 0 ''w'' apply_object reviewed_ledger = (L', Inr r)" using apply_created by blast
  have "sc_atomic approver" "rr_apply apply_object" by (simp_all add: approver_def apply_object_def)
  from repair_apply_needs_review [OF this c] show ?thesis by blast
qed

text \<open>
  A finished repair cannot be replayed: once a bound message has all its payloads, the same
  create request that started the run answers a range error, whatever the ledger holds for
  its key.\<close>

theorem repair_finished_replay_refused:
  assumes "normalizeAttachmentRepairManifestEntries (rr_entries rq) = Inr entries"
    and "sc_atomic sc" "safe_send_intent_key (rr_key rq)" "js_trim (rr_bucket rq) \<noteq> []"
    and "\<not> (rr_apply rq \<and> or_default (map_option (\<lambda>t. js_lower (js_trim t)) (rr_reviewed rq)) [] = [])"
    and "m \<in> set (messages (ms_db s))" "m_tenant m = sc_tenant sc" "p \<in> set (ms_sources s)"
    and "source_row (m_tenant m) (m_id m) p" "pv_bucket p = js_trim (rr_bucket rq)" "e \<in> set entries"
    and "pv_object_key p = me_object_key e" "\<forall>v \<in> set (m_attachments m). \<not> payload_missing v"
  shows "\<exists>x. createOrGetAttachmentRepairRun sc le policy s now fresh rq L = (L, Inl (RE_Range x))"
proof -
  obtain x where "prepareAttachmentRepairManifest sc (js_trim (rr_bucket rq)) entries s = Inl (RE_Range x)"
    using prepare_refused [OF assms(6-13)] by blast
  with assms(1-5) show ?thesis
    by (auto simp: createOrGetAttachmentRepairRun_def Let_def withAttachmentRepairLedgerLock_def
        ledger_transaction_def create_action_def)
qed

theorem repair_finished_replay_refused_witness:
  "\<exists>x. createOrGetAttachmentRepairRun operator any_order DEFAULT_ATTACHMENT_REPAIR_POLICY
     (mailbox [JObj [(''content_base64'', JStr ''AAAA'')]]) 9 ''v'' one_object open_ledger = (open_ledger, Inl (RE_Range x))"
  by (rule repair_finished_replay_refused [OF one_object_normal,
        where m = "letter [JObj [(''content_base64'', JStr ''AAAA'')]]" and p = letter_source
          and e = "\<lparr> me_object_key = ''k'', me_recipients = [''r''], me_canary_message_ids = [''m''] \<rparr>"])
    (simp_all add: one_object_def key_ok mailbox_def letter_def letter_source_def source_row_def
      payload_missing_def text_key_def json_key_def)

end
