(* ===== verification/Attachment_Page.thy ===== *)
theory Attachment_Page
  imports Attachment_Repair_Facts Repair_Promises Inbound_Routes
begin

text \<open>
  The page worker under interleaving.  The page loop is proved once for every ledger store
  that meets the contract \<open>ledger_client\<close>, and the production adapter meets it: whatever
  other workers do between its awaits, a page takes only steps of the ledger and only fills
  payloads of messages whose source bytes it verified.
\<close>

section \<open>The contract of the page loop\<close>

text \<open>
  \<open>R\<close> is what a page may do to its world: the store's claim and record and the repair of an
  entry keep it, in whatever state they find.
\<close>

locale ledger_client =
  fixes st :: "'w ledger_store"
    and repair :: "repair_entry \<Rightarrow> bool \<Rightarrow> ('w, store_error, repair_result) prog"
    and R :: "'w \<Rightarrow> 'w \<Rightarrow> bool"
  assumes claim_R: "R w (fst (ls_claim st i leaseMs w))"
    and record_R: "R w (fst (ls_record st i position token status code bytes w))"
    and repair_R: "keeps R (repair entry app)"
    and refl_R: "R w w"
    and trans_R: "R w w1 \<Longrightarrow> R w1 w2 \<Longrightarrow> R w w2"
begin

lemma step_keeps: "keeps R (page_step st repair run entry)"
  unfolding page_step_def
  by (auto split: option.split prod.split intro!: keeps_sequence keeps_attempt keeps_call record_R repair_R)

lemma loop_keeps: "keeps R (page_loop st repair run i n)"
  by (induction n) (auto split: option.split intro!: keeps_sequence keeps_call claim_R step_keeps)

lemma page_keeps: "keeps R (processAttachmentRepairPage st repair i limit)"
  unfolding processAttachmentRepairPage_def Let_def
  by (auto split: option.split intro!: keeps_call_with keeps_sequence refl_R loop_keeps)

lemma page_interleaved:
  assumes "execs E (processAttachmentRepairPage st repair i limit) w r w'"
    and "\<And>w1 w2. E w1 w2 \<Longrightarrow> R w1 w2"
  shows "R w w'"
  by (rule execs_keeps [OF assms(1) page_keeps assms(2) refl_R trans_R])

end

section \<open>The production adapter\<close>

definition page_next :: "scope \<Rightarrow> repair_env \<Rightarrow> repair_world \<Rightarrow> repair_world \<Rightarrow> bool" where
  "page_next sc env w w' \<longleftrightarrow>
     (sc_atomic sc \<longrightarrow> ledger_next\<^sup>*\<^sup>* (rw_ledger w) (rw_ledger w')) \<and> fills env (rw_store w) (rw_store w')"

definition entry_repair :: "repair_env \<Rightarrow> repair_entry \<Rightarrow> bool
    \<Rightarrow> (repair_world, store_error, repair_result) prog" where
  "entry_repair env entry app = lift_store (repairExistingS3ObjectAttachments env (entry_input entry app))"

lemma lift_store_keeps:
  "keeps Q p \<Longrightarrow> keeps (\<lambda>w w'. Q (rw_store w) (rw_store w') \<and> rw_ledger w' = rw_ledger w) (lift_store p)"
  by (induction rule: keeps.induct) (auto intro!: keeps_await simp: case_prod_beta map_prod_def)

lemma ledger_nextI: "ledger_step now tok L L' \<Longrightarrow> ledger_next\<^sup>*\<^sup>* L L'"
  by (rule r_into_rtranclp) (auto simp: ledger_next_def)

interpretation tenant_page: ledger_client "tenant_ledger sc" "entry_repair env" "page_next sc env" for sc env
proof
  show "page_next sc env w (fst (ls_claim (tenant_ledger sc) i leaseMs w))" for w i leaseMs
    using ledger_nextI [OF step_claim [of sc]]
    by (auto simp: page_next_def tenant_ledger_def case_prod_beta)
  show "page_next sc env w (fst (ls_record (tenant_ledger sc) i position token status code bytes w))"
    for w i position token status code bytes
    using ledger_nextI [OF step_record [of sc]]
    by (auto simp: page_next_def tenant_ledger_def case_prod_beta)
  show "keeps (page_next sc env) (entry_repair env entry app)" for entry app
    unfolding entry_repair_def
    by (rule keeps_mono [OF lift_store_keeps [OF repair_keeps]]) (auto simp: page_next_def)
  show "page_next sc env w w" for w by (simp add: page_next_def)
  show "page_next sc env w w1 \<Longrightarrow> page_next sc env w1 w2 \<Longrightarrow> page_next sc env w w2" for w w1 w2
    by (auto simp: page_next_def intro: fills_trans)
qed

lemma page_canonical:
  "processCanonicalS3AttachmentRepairPage env (Some b) sc i limit =
     (if js_trim b = [] then Raise (RE_Error ''attachment repair requires EMAILS_INGEST_S3_BUCKET as the canonical source'')
      else processAttachmentRepairPage (tenant_ledger sc) (entry_repair (env\<lparr>rv_bucket := js_trim b\<rparr>)) i (Some limit))"
  by (simp add: processCanonicalS3AttachmentRepairPage_def resolveAttachmentRepairCanonicalBucket_def Let_def
      entry_repair_def [abs_def] or_default_def)

lemma fills_row_bucket [simp]: "fills_row (env\<lparr>rv_bucket := b\<rparr>) = fills_row env"
  by (simp add: fills_row_def verified_def fun_eq_iff)

lemma fills_bucket [simp]: "fills (env\<lparr>rv_bucket := b\<rparr>) = fills env"
  by (simp add: fills_def fun_eq_iff)

lemma page_next_bucket [simp]: "page_next sc (env\<lparr>rv_bucket := b\<rparr>) = page_next sc env"
  by (simp add: page_next_def fun_eq_iff)

section \<open>All rows or none\<close>

definition update_key :: "repair_update \<Rightarrow> string \<times> string" where
  "update_key u = (ru_tenant u, ru_message u)"

lemma apply_update_other:
  assumes "apply_update le bs key u s = (s', r)" and "m \<in> set (messages (ms_db s))"
    and "(m_tenant m, m_id m) \<noteq> update_key u"
  shows "m \<in> set (messages (ms_db s'))"
  using assms by (auto simp: apply_update_def swap_attachments_def swap_matches_def update_key_def Let_def
      image_iff split: option.splits if_splits)

lemma apply_updates_other:
  assumes "apply_updates le bs key us s = (s', r)" and "m \<in> set (messages (ms_db s))"
    and "(m_tenant m, m_id m) \<notin> set (map update_key us)"
  shows "m \<in> set (messages (ms_db s'))"
  using assms
proof (induction us arbitrary: s)
  case (Cons u us)
  obtain s1 r1 where one: "apply_update le bs key u s = (s1, r1)" by (cases "apply_update le bs key u s")
  have m: "m \<in> set (messages (ms_db s1))" by (rule apply_update_other [OF one]) (use Cons.prems in auto)
  with Cons.prems one show ?case
    by (cases "r1 = Inr True") (auto intro: Cons.IH split: sum.splits bool.splits)
qed simp

definition installed :: "(string \<Rightarrow> string \<Rightarrow> bool) \<Rightarrow> mail_store \<Rightarrow> repair_update \<Rightarrow> bool" where
  "installed le s u \<longleftrightarrow>
     canonicalJson le (JArr (ru_expected u)) = canonicalJson le (JArr (ru_replacement u))
     \<or> (\<exists>m \<in> set (messages (ms_db s)). m_tenant m = ru_tenant u \<and> m_id m = ru_message u
          \<and> m_attachments m = ru_replacement u)"

lemma apply_update_installed:
  assumes "apply_update le bs key u s = (s', Inr True)"
  shows "installed le s' u"
proof -
  have "\<exists>m \<in> set (messages (ms_db (swap_attachments P new s))). m_tenant m = t \<and> m_id m = i \<and> m_attachments m = new"
    if "length (filter P (messages (ms_db s))) = 1" and "\<And>m. P m \<Longrightarrow> m_tenant m = t \<and> m_id m = i" for P new t i
  proof -
    from that(1) have "\<exists>m. filter P (messages (ms_db s)) = [m]" by (simp add: length_Suc_conv)
    then obtain m where "filter P (messages (ms_db s)) = [m]" ..
    then have "m \<in> set (filter P (messages (ms_db s)))" by simp
    then have "m \<in> set (messages (ms_db s))" "P m" by simp_all
    then have "m\<lparr>m_attachments := new\<rparr> \<in> set (messages (ms_db (swap_attachments P new s)))"
      unfolding swap_attachments_def by (auto simp: image_iff)
    with that(2) [OF \<open>P m\<close>] show ?thesis
      by (intro bexI [of _ "m\<lparr>m_attachments := new\<rparr>"]) simp_all
  qed
  note w = this
  show ?thesis
    using assms unfolding apply_update_def Let_def installed_def
    by (auto split: option.splits if_splits intro!: w simp: swap_matches_def)
qed

lemma apply_updates_installed:
  assumes "apply_updates le bs key us s = (s', Inr True)" and "distinct (map update_key us)" and "u \<in> set us"
  shows "installed le s' u"
  using assms
proof (induction us arbitrary: s)
  case (Cons v us)
  obtain s1 where one: "apply_update le bs key v s = (s1, Inr True)" and rest: "apply_updates le bs key us s1 = (s', Inr True)"
    using Cons.prems(1) by (auto split: prod.splits sum.splits bool.splits)
  show ?case
  proof (cases "u = v")
    case True
    from apply_update_installed [OF one] show ?thesis
      unfolding installed_def True
      using apply_updates_other [OF rest] Cons.prems(2) by (fastforce simp: update_key_def)
  qed (use Cons rest in auto)
qed simp

lemma updates_keys_distinct: "updates_fit bs us bucket key \<Longrightarrow> distinct (map update_key us)"
  unfolding updates_fit_def update_identity_def update_key_def
  by (auto simp: distinct_map inj_on_def)

lemma replace_installs:
  assumes "replaceAttachmentPayloadsAtomically sc le aborts bs us s = (s', Inr True)"
  shows "(\<exists>current. listAttachmentRepairBindingsInTransaction (pv_bucket (rb_provenance (hd bs)))
            (pv_object_key (rb_provenance (hd bs))) s = Inr current
            \<and> repairBindingSnapshot le current = repairBindingSnapshot le bs)
         \<and> (\<forall>u \<in> set us. installed le s' u)"
proof -
  obtain b r where bs: "bs = b # r" using assms by (cases bs) (auto simp: replaceAttachmentPayloadsAtomically_def)
  have fit: "updates_fit bs us (pv_bucket (rb_provenance b)) (pv_object_key (rb_provenance b))"
    and act: "replace_action le bs us (pv_bucket (rb_provenance b)) (pv_object_key (rb_provenance b)) s = (s', Inr True)"
    using assms by (auto simp: replaceAttachmentPayloadsAtomically_def Let_def bs
        split: if_splits prod.splits sum.splits bool.splits)
  then show ?thesis
    by (auto simp: replace_action_def bs split: sum.splits if_splits
        intro: apply_updates_installed [OF _ updates_keys_distinct])
qed

lemma replace_rolls_back:
  "replaceAttachmentPayloadsAtomically sc le aborts bs us s = (s', r) \<Longrightarrow> r \<noteq> Inr True \<Longrightarrow> s' = s"
  by (auto simp: replaceAttachmentPayloadsAtomically_def Let_def
      split: list.splits if_splits prod.splits sum.splits bool.splits)

section \<open>A run on a small mailbox\<close>

definition full_pdf :: json where
  "full_pdf = JObj [(''filename'', JStr ''a''), (''content_type'', JStr ''x/y''), (''size'', JNum 3),
     (''content_base64'', JStr ''AQID'')]"

definition demo_env :: repair_env where
  "demo_env = \<lparr> rv_scope = operator, rv_le = any_order, rv_bucket = ''b'', rv_fetch = (\<lambda>_ _ _. Inr [77]),
     rv_parse = (\<lambda>_. Inr [full_pdf]), rv_sha = (\<lambda>_. replicate 64 CHR ''0''), rv_aborts = False \<rparr>"

definition letter_binding :: repair_binding where
  "letter_binding = \<lparr> rb_tenant = ''t'', rb_message = ''m'', rb_attachments = [pdf], rb_provenance = letter_source \<rparr>"

definition letter_update :: repair_update where
  "letter_update = \<lparr> ru_tenant = ''t'', ru_message = ''m'', ru_expected = [pdf], ru_replacement = [full_pdf] \<rparr>"

definition one_tenant :: "json list \<Rightarrow> mail_store" where
  "one_tenant as = (mailbox as)\<lparr>ms_db := (ms_db (mailbox as))\<lparr>
     tenants := [\<lparr> t_id = ''t'', t_status = ''active'' \<rparr>],
     routes := [\<lparr> rt_domain = ''c.d'', rt_tenant = ''t'' \<rparr>]\<rparr>\<rparr>"

lemma hex_source [simp]: "hex64 (replicate 64 CHR ''0'')"
  by (simp add: hex64_def)

lemma demo_fields [simp]:
  "m_id (letter as) = ''m''" "m_tenant (letter as) = ''t''" "m_source_id (letter as) = Some ''k''"
  "m_attachments (letter as) = as" "(letter as)\<lparr>m_attachments := bs\<rparr> = letter bs"
  "pv_tenant letter_source = ''t''" "pv_message letter_source = ''m''" "pv_bucket letter_source = ''b''"
  "pv_object_key letter_source = ''k''" "hex64 (pv_raw_sha256 letter_source)"
  "pv_raw_sha256 letter_source = replicate 64 CHR ''0''"
  by (simp_all add: letter_def letter_source_def)

lemma one_tenant_fields [simp]:
  "messages (ms_db (one_tenant as)) = [letter as]" "ms_sources (one_tenant as) = [letter_source]"
  "tenants (ms_db (one_tenant as)) = [\<lparr> t_id = ''t'', t_status = ''active'' \<rparr>]"
  "routes (ms_db (one_tenant as)) = [\<lparr> rt_domain = ''c.d'', rt_tenant = ''t'' \<rparr>]"
  "(one_tenant as)\<lparr>ms_db := (ms_db (one_tenant as))\<lparr>messages := [letter bs]\<rparr>\<rparr> = one_tenant bs"
  by (simp_all add: one_tenant_def mailbox_def)

lemma binding_fields [simp]:
  "rb_tenant letter_binding = ''t''" "rb_message letter_binding = ''m''"
  "rb_attachments letter_binding = [pdf]" "rb_provenance letter_binding = letter_source"
  "ru_tenant letter_update = ''t''" "ru_message letter_update = ''m''"
  "ru_expected letter_update = [pdf]" "ru_replacement letter_update = [full_pdf]"
  by (simp_all add: letter_binding_def letter_update_def)

lemma demo_bindings: "listAttachmentRepairBindingsInTransaction ''b'' ''k'' (one_tenant [pdf]) = Inr [letter_binding]"
  by (simp add: listAttachmentRepairBindingsInTransaction_def object_rows_def stable_sort_def binding_of_row_def
      source_row_def all_some_def letter_binding_def Let_def)

lemma demo_texts: "canonicalJson any_order (JArr [pdf]) \<noteq> canonicalJson any_order (JArr [full_pdf])"
  by (simp add: pdf_def full_pdf_def stable_sort_def)

lemma demo_replaced:
  "replaceAttachmentPayloadsAtomically operator any_order False [letter_binding] [letter_update] (one_tenant [pdf])
   = (one_tenant [full_pdf], Inr True)"
  using demo_bindings demo_texts
  by (simp add: replaceAttachmentPayloadsAtomically_def updates_fit_def binding_identity_def update_identity_def
     replace_action_def apply_update_def Let_def swap_matches_def source_row_def same_object_def
     swap_attachments_def update_message_def sql_update_def del: canonicalJson.simps)

definition demo_input :: repair_input where
  "demo_input = \<lparr> ri_key = ''k'', ri_recipients = [''r@c.d''], ri_canary_message_ids = [''m''],
     ri_allowed_tenant = Some ''t'', ri_apply = True, ri_max_raw_bytes = None \<rparr>"

lemma demo_route: "resolveInboundRecipients (ms_db (one_tenant as)) [''r@c.d'']
    = \<lparr> rr_groups = [\<lparr> rg_tenant = ''t'', rg_recipients = [''r@c.d''] \<rparr>], rr_unresolved = [] \<rparr>"
  by (rule demo_resolves) simp_all

lemma full_pdf_available: "is_available (decode_item (\<lambda>_. d) full_pdf)"
proof -
  have b: "base64_shape ''AQID''" "decode64 ''AQID'' = [1, 2, 3]" "encode64 [1, 2, 3] = ''AQID''"
    by (simp_all add: base64_shape_def decode64_def sextet_def digit64_def alphabet_def)
  show ?thesis
    by (simp add: is_available_def decode_item_def decodeAttachmentPayload_def full_pdf_def json_object_def json_key_def
        normalizeAttachmentByteLimit_def or_default_def MAX_ATTACHMENT_DOWNLOAD_BYTES_def decode_available_def
        validateAttachmentMetadata_def validateAttachmentFilename_def wellFormedText_def download_type_ok_def
        token_char_def is_alnum_def decodeCanonicalBase64_def b digit64_def alphabet_def Let_def unsafe_unit_def)
qed

lemma demo_repair:
  "run_alone (repairExistingS3ObjectAttachments demo_env demo_input) (one_tenant [pdf])
   = (one_tenant [full_pdf], Inr (result_of demo_input
       [(item letter_binding repaired)\<lparr>it_attachments := Some 1\<rparr>] 1 False))"
proof -
  have e [simp]: "rv_scope demo_env = operator" "rv_le demo_env = any_order" "rv_bucket demo_env = ''b''"
    "rv_fetch demo_env b k l = Inr [77]" "rv_parse demo_env raw = Inr [full_pdf]"
    "rv_sha demo_env = (\<lambda>_. replicate 64 CHR ''0'')" "rv_aborts demo_env = False" for b k l raw
    by (simp_all add: demo_env_def)
  have i [simp]: "ri_key demo_input = ''k''" "ri_recipients demo_input = [''r@c.d'']"
    "ri_canary_message_ids demo_input = [''m'']" "ri_allowed_tenant demo_input = Some ''t''"
    "ri_apply demo_input" "ri_max_raw_bytes demo_input = None"
    by (simp_all add: demo_input_def)
  have m: "contentState (\<lambda>_. d) [pdf] = content_missing" for d :: string
    by (simp add: contentState_def pdf_def is_record_def metadata_def json_key_def text_key_def)
  have r: "replacementPayload (\<lambda>_. replicate 64 CHR ''0'') [pdf] [full_pdf] = Some [full_pdf]"
    using full_pdf_available [of "replicate 64 CHR ''0''", unfolded full_pdf_def decode_item_def]
    by (simp add: replacementPayload_def sameMetadata_def pdf_def full_pdf_def metadata_def json_key_def
        replace_one_def is_record_def text_key_def decode_item_def with_content_def all_some_def)
  have c: "missingAttachmentPayloadCount [pdf] = 1"
    by (simp add: missingAttachmentPayloadCount_def pdf_def is_record_def text_key_def json_key_def)
  have n: "normalizeAttachmentRepairCanaryMessageIds [''m''] = Inr [''m'']"
    by (simp add: normalizeAttachmentRepairCanaryMessageIds_def Let_def)
  have l: "listAttachmentRepairBindings operator ''b'' ''k'' (one_tenant [pdf]) = Inr [letter_binding]"
    by (simp add: listAttachmentRepairBindings_def demo_bindings)
  have j: "judge_bindings demo_env demo_input [''m''] \<lparr> rr_groups = [\<lparr> rg_tenant = ''t'', rg_recipients = [''r@c.d''] \<rparr>], rr_unresolved = [] \<rparr>
      [letter_binding] = None"
    by (simp add: judge_bindings_def or_default_def exact_route_def exact_canary_def valid_bindings_def js_unique_def m Let_def)
  have p: "plan_update demo_env [full_pdf] letter_binding = Some letter_update"
    by (simp add: plan_update_def m r letter_update_def)
  show ?thesis
    by (simp add: repairExistingS3ObjectAttachments_def demo_route n or_default_def
        repair_bindings_def l j repair_source_def repair_with_source_def repair_apply_def source_failure_def
        all_some_def p demo_replaced run_bind outcome_item_def m c Let_def stable_sort_def
        MAX_ATTACHMENT_REPAIR_SOURCE_BYTES_def)
qed

section \<open>What the repair of one object may write\<close>

text \<open>
  C17. Whatever else runs between its awaits, the repair of a stored object changes the
  mailbox only by filling payloads: every store call it makes, in whatever state it finds,
  leaves all messages as they are except that a message may get its attachment list with
  every payload present, where a provenance row binds that message to an object whose
  fetched bytes are not empty and have exactly the recorded digest; metadata stay equal,
  each payload has the declared length, and a payload that was there keeps its digest.
\<close>

theorem repair_only_fills: "keeps (fills env) (repairExistingS3ObjectAttachments env inp)"
  by (rule keeps_mono [OF repair_keeps]) simp

text \<open>
  A repair whose input does not ask to apply writes nothing: none of its store calls
  changes the mailbox, in whatever state it finds it.
\<close>

theorem dry_run_writes_nothing:
  "keeps (=) (repairExistingS3ObjectAttachments env (inp\<lparr>ri_apply := False\<rparr>))"
  by (rule keeps_mono [OF repair_keeps]) simp

text \<open>
  The replacement of the payloads of one object is all or nothing: either it answers
  true, and then the persisted bindings of that object were exactly the expected snapshot
  and every message of the update set carries its replacement (or needed none), or the
  mailbox is as it was, whatever the error, the change by another writer or the abort.
\<close>

theorem replace_all_or_none:
  "case replaceAttachmentPayloadsAtomically sc le aborts bs us s of
     (s', Inr True) \<Rightarrow> (\<exists>current. listAttachmentRepairBindingsInTransaction (pv_bucket (rb_provenance (hd bs)))
            (pv_object_key (rb_provenance (hd bs))) s = Inr current
            \<and> repairBindingSnapshot le current = repairBindingSnapshot le bs) \<and> list_all (installed le s') us
   | (s', _) \<Rightarrow> s' = s"
proof (cases "replaceAttachmentPayloadsAtomically sc le aborts bs us s")
  case (Pair s' r)
  then show ?thesis using replace_installs [of sc le aborts bs us s s'] replace_rolls_back [of sc le aborts bs us s s' r]
    by (cases "r = Inr True") (auto simp: list_all_iff split: sum.split bool.split)
qed

lemma replace_all_or_none_witness:
  "list_all (installed any_order (one_tenant [full_pdf])) [letter_update]"
  using replace_all_or_none [where sc = operator and le = any_order and aborts = False
    and bs = "[letter_binding]" and us = "[letter_update]" and s = "one_tenant [pdf]"]
  by (simp only: demo_replaced prod.case sum.case bool.case)

text \<open>
  C29. A page of the repair worker, run among other workers that themselves only take steps
  of the ledger and fill verified payloads, leaves a ledger that the empty one reaches by
  calls of its operations and a mailbox that differs from the first only by such fills.
\<close>

theorem page_under_interleaving:
  assumes "sc_atomic sc" and "ledger_next\<^sup>*\<^sup>* empty_ledger (rw_ledger w)"
    and "execs E (processCanonicalS3AttachmentRepairPage env bucket sc i limit) w r w'"
    and "\<And>w1 w2. E w1 w2 \<Longrightarrow> page_next sc env w1 w2"
  shows "ledger_next\<^sup>*\<^sup>* empty_ledger (rw_ledger w') \<and> fills env (rw_store w) (rw_store w')"
proof -
  have "keeps (page_next sc env) (processCanonicalS3AttachmentRepairPage env bucket sc i limit)"
  proof (cases bucket)
    case (Some b)
    then show ?thesis using tenant_page.page_keeps [of sc "env\<lparr>rv_bucket := js_trim b\<rparr>" i "Some limit"]
      by (simp add: page_canonical)
  qed (simp add: processCanonicalS3AttachmentRepairPage_def resolveAttachmentRepairCanonicalBucket_def or_default_def)
  with assms(3) have "page_next sc env w w'"
    using assms(4) tenant_page.refl_R tenant_page.trans_R by (rule execs_keeps)
  with assms(1,2) show ?thesis by (auto simp: page_next_def)
qed

definition demo_world :: repair_world where
  "demo_world = \<lparr> rw_store = one_tenant [pdf], rw_ledger = open_ledger, rw_now = 0, rw_wall = 0,
     rw_uuid = (\<lambda>_. demo_token), rw_draws = 0 \<rparr>"

lemma page_under_interleaving_witness:
  "\<exists>w r. execs (page_next operator demo_env)
       (processCanonicalS3AttachmentRepairPage demo_env (Some ''b'') operator ''u'' 1) demo_world r w
     \<and> ledger_next\<^sup>*\<^sup>* empty_ledger (rw_ledger w) \<and> fills demo_env (one_tenant [pdf]) (rw_store w)"
proof -
  let ?p = "processCanonicalS3AttachmentRepairPage demo_env (Some ''b'') operator ''u'' 1"
  have x: "execs (page_next operator demo_env) ?p demo_world (snd (run_alone ?p demo_world)) (fst (run_alone ?p demo_world))"
    by (rule execs_run)
  have "ledger_step 0 None empty_ledger open_ledger"
    using step_create [of operator DEFAULT_ATTACHMENT_REPAIR_POLICY 0 empty_ledger any_order "mailbox [pdf]" "''u''" one_object]
    unfolding open_created by (simp add: operator_def DEFAULT_ATTACHMENT_REPAIR_POLICY_def)
  then have "sc_atomic operator" "ledger_next\<^sup>*\<^sup>* empty_ledger (rw_ledger demo_world)"
    using ledger_nextI by (simp_all add: operator_def demo_world_def)
  from page_under_interleaving [OF this x] x show ?thesis
    unfolding demo_world_def by (auto simp del: execs.simps)
qed

end
