(* ===== verification/Webhook_Events.thy ===== *)
theory Webhook_Events
  imports Auth_Password Inbound_Ingest
begin

text \<open>
  Who may speak through a webhook and what an event says: src/lib/webhook-events.ts,
  src/lib/sns-signature.ts and src/lib/resend-inbound.ts.  HMAC and RSA of the platform, its
  URL parser and the network are parameters.  Headers are a map from their lower-case
  names; a JSON value that the code reads a property of is any \<open>json\<close>.
\<close>

section \<open>Reading values\<close>

text \<open>\<open>v?.k\<close>, \<open>v ?? d\<close>, and a falsy value replaced.\<close>

definition opt_prop :: "json option \<Rightarrow> string \<Rightarrow> json option" where
  "opt_prop v k = (case v of None \<Rightarrow> None | Some w \<Rightarrow> json_key w k)"

definition nullish_or :: "json option \<Rightarrow> json \<Rightarrow> json" where
  "nullish_or v d = (case v of None \<Rightarrow> d | Some JNull \<Rightarrow> d | Some w \<Rightarrow> w)"

definition truthy_or :: "json option \<Rightarrow> json \<Rightarrow> json" where
  "truthy_or v d = (if json_truthy v then the v else d)"

text \<open>\<open>v[0]\<close> of a value that is not nullish.\<close>

definition first_element :: "json \<Rightarrow> json option" where
  "first_element v =
     (case v of JArr (x # _) \<Rightarrow> Some x | JStr (c # _) \<Rightarrow> Some (JStr [c]) | JObj _ \<Rightarrow> json_key v ''0'' | _ \<Rightarrow> None)"

section \<open>Svix signatures\<close>

definition header_text :: "(string \<Rightarrow> string option) \<Rightarrow> string \<Rightarrow> string" where
  "header_text headers k = or_default (headers k) []"

text \<open>
  \<open>mac secret content\<close> is the base64 HMAC-SHA256 under the base64 key \<open>secret\<close>, \<open>None\<close> when
  the key cannot be imported; \<open>now\<close> is in milliseconds.  A timestamp that is no number
  passes the freshness check, as NaN compares.
\<close>

definition svix_fresh :: "int \<Rightarrow> string \<Rightarrow> bool" where
  "svix_fresh now timestamp =
     (case js_parse_int timestamp of None \<Rightarrow> True | Some ts \<Rightarrow> \<bar>now - 1000 * ts\<bar> \<le> 300000)"

definition svix_secret :: "string \<Rightarrow> string" where
  "svix_secret secret = (if starts_with_text secret ''whsec_'' then drop 6 secret else secret)"

definition verifyResendSignature :: "(string \<Rightarrow> string \<Rightarrow> string option) \<Rightarrow> int \<Rightarrow> string
    \<Rightarrow> (string \<Rightarrow> string option) \<Rightarrow> string \<Rightarrow> bool" where
  "verifyResendSignature mac now body headers secret =
     (let svixId = header_text headers ''svix-id''; svixTimestamp = header_text headers ''svix-timestamp'';
          svixSignature = header_text headers ''svix-signature''
      in if svixId = [] \<or> svixTimestamp = [] \<or> svixSignature = [] then False
         else if \<not> svix_fresh now svixTimestamp then False
         else (case mac (svix_secret secret) (svixId @ ''.'' @ svixTimestamp @ ''.'' @ body) of
                 None \<Rightarrow> False
               | Some sig \<Rightarrow> (\<exists>s \<in> set (split_on CHR '' '' svixSignature). s = ''v1,'' @ sig)))"

section \<open>SNS messages\<close>

text \<open>\<open>Inl Type_Error\<close>: \<open>startsWith\<close> of a truthy \<open>TopicArn\<close> that is no text.\<close>

definition verifySnsStructure :: "json \<Rightarrow> type_error + bool" where
  "verifySnsStructure body =
     (if json_truthy (json_key body ''Type'') \<and> json_key body ''Type'' \<noteq> Some (JStr ''Notification'')
         \<and> json_key body ''Type'' \<noteq> Some (JStr ''SubscriptionConfirmation'') then Inr False
      else if \<not> json_truthy (json_key body ''TopicArn'') then Inr True
      else (case json_key body ''TopicArn'' of
              Some (JStr t) \<Rightarrow> Inr (starts_with_text t ''arn:aws'')
            | _ \<Rightarrow> Inl Type_Error))"

text \<open>What \<open>new URL\<close> gives for a text it can parse.\<close>

record url =
  url_protocol :: string
  url_username :: string
  url_password :: string
  url_port :: string
  url_search :: string
  url_hash :: string
  url_hostname :: string
  url_pathname :: string
  url_href :: string

text \<open>\<open>/^sns\.[a-z0-9-]+\.amazonaws\.com$/\<close> and \<open>/^\/SimpleNotificationService-[A-Za-z0-9_-]+\.pem$/\<close>.\<close>

definition sns_host :: "string \<Rightarrow> bool" where
  "sns_host h \<longleftrightarrow>
     (case split_on CHR ''.'' h of
        [a, region, c, d] \<Rightarrow> a = ''sns'' \<and> c = ''amazonaws'' \<and> d = ''com'' \<and> region \<noteq> []
          \<and> (\<forall>x \<in> set region. domain_alnum x \<or> x = CHR ''-'')
      | _ \<Rightarrow> False)"

definition pem_char :: "char \<Rightarrow> bool" where
  "pem_char c \<longleftrightarrow> domain_alnum (lower_char c) \<or> c = CHR ''_'' \<or> c = CHR ''-''"

definition sns_pem_path :: "string \<Rightarrow> bool" where
  "sns_pem_path p \<longleftrightarrow> starts_with_text p ''/SimpleNotificationService-''
     \<and> (let r = drop (length ''/SimpleNotificationService-'') p; n = length r - 4 in
        4 < length r \<and> drop n r = ''.pem'' \<and> (\<forall>c \<in> set (take n r). pem_char c))"

definition canonicalSnsCertificateUrl :: "(string \<Rightarrow> url option) \<Rightarrow> string \<Rightarrow> string option" where
  "canonicalSnsCertificateUrl parse value =
     (case parse value of
        None \<Rightarrow> None
      | Some u \<Rightarrow>
          if url_protocol u \<noteq> ''https:'' \<or> url_username u \<noteq> [] \<or> url_password u \<noteq> []
             \<or> (url_port u \<noteq> [] \<and> url_port u \<noteq> ''443'') \<or> url_search u \<noteq> [] \<or> url_hash u \<noteq> []
             \<or> \<not> sns_host (url_hostname u) \<or> \<not> sns_pem_path (url_pathname u) then None
          else Some (url_href u))"

text \<open>True only for genuine AWS SNS HTTPS endpoints.\<close>

definition isAwsSnsUrl :: "(string \<Rightarrow> url option) \<Rightarrow> string \<Rightarrow> bool" where
  "isAwsSnsUrl parse value =
     (case parse value of None \<Rightarrow> False
      | Some u \<Rightarrow> url_protocol u = ''https:'' \<and> sns_host (url_hostname u))"

definition sns_fields :: "json \<Rightarrow> string list option" where
  "sns_fields m =
     (case json_key m ''Type'' of
        Some (JStr t) \<Rightarrow>
          if t = ''Notification''
          then Some ([''Message'', ''MessageId''] @ (if json_key m ''Subject'' = None then [] else [''Subject''])
                     @ [''Timestamp'', ''TopicArn'', ''Type''])
          else if t = ''SubscriptionConfirmation'' \<or> t = ''UnsubscribeConfirmation''
          then Some [''Message'', ''MessageId'', ''SubscribeURL'', ''Timestamp'', ''Token'', ''TopicArn'', ''Type'']
          else None
      | _ \<Rightarrow> None)"

fun canonical_fields :: "json \<Rightarrow> string list \<Rightarrow> string option" where
  "canonical_fields m [] = Some []"
| "canonical_fields m (f # fs) =
     (case (text_prop m f, canonical_fields m fs) of
        (Some v, Some rest) \<Rightarrow> Some (f @ [CHR 0x0A] @ v @ [CHR 0x0A] @ rest) | _ \<Rightarrow> None)"

definition canonicalSnsMessage :: "json \<Rightarrow> string option" where
  "canonicalSnsMessage m = (case sns_fields m of None \<Rightarrow> None | Some fs \<Rightarrow> canonical_fields m fs)"

record sns_policy =
  sp_topicArns :: "string list"
  sp_accountIds :: "string list"

definition env_items :: "string option \<Rightarrow> string option \<Rightarrow> string list" where
  "env_items plural single =
     js_unique (filter (\<lambda>v. v \<noteq> []) (map js_trim (split_on CHR '','' (or_default plural (or_default single [])))))"

definition snsPolicyFromEnv :: "(string \<Rightarrow> string option) \<Rightarrow> string + sns_policy" where
  "snsPolicyFromEnv env =
     (let topics = env_items (env ''EMAILS_SNS_TOPIC_ARNS'') (env ''EMAILS_SNS_TOPIC_ARN'');
          accounts = env_items (env ''EMAILS_AWS_ACCOUNT_IDS'') (env ''EMAILS_AWS_ACCOUNT_ID'')
      in if topics = [] then Inl ''EMAILS_SNS_TOPIC_ARNS is required for the SES inbound webhook''
         else if accounts = [] then Inl ''EMAILS_AWS_ACCOUNT_IDS is required for the SES inbound webhook''
         else Inr \<lparr> sp_topicArns = topics, sp_accountIds = accounts \<rparr>)"

definition snsMessageAllowed :: "json \<Rightarrow> sns_policy \<Rightarrow> bool" where
  "snsMessageAllowed m policy =
     (let topic = or_default (text_prop m ''TopicArn'') []; parts = split_on CHR '':'' topic;
          account = (if 4 < length parts then parts ! 4 else [])
      in topic \<in> set (sp_topicArns policy) \<and> account \<in> set (sp_accountIds policy))"

section \<open>The certificate cache\<close>

text \<open>A JavaScript Map in insertion order, which the code keeps as its LRU order.\<close>

record cached_certificate =
  cc_url :: string
  cc_certificate :: string
  cc_expires_at :: int

definition without_url :: "string \<Rightarrow> cached_certificate list \<Rightarrow> cached_certificate list" where
  "without_url u cache = filter (\<lambda>c. cc_url c \<noteq> u) cache"

definition getCachedCertificate :: "string \<Rightarrow> int \<Rightarrow> cached_certificate list
    \<Rightarrow> cached_certificate list \<times> string option" where
  "getCachedCertificate u now cache =
     (case find (\<lambda>c. cc_url c = u) cache of
        None \<Rightarrow> (cache, None)
      | Some c \<Rightarrow>
          if cc_expires_at c \<le> now then (without_url u cache, None)
          else (without_url u cache @ [c], Some (cc_certificate c)))"

definition cacheCertificate :: "string \<Rightarrow> string \<Rightarrow> int \<Rightarrow> nat \<Rightarrow> cached_certificate list
    \<Rightarrow> cached_certificate list" where
  "cacheCertificate u cert expires maxEntries cache =
     (let rest = without_url u cache in
      drop (length rest + 1 - maxEntries) rest
        @ [\<lparr> cc_url = u, cc_certificate = cert, cc_expires_at = expires \<rparr>])"

definition DEFAULT_CERTIFICATE_CACHE_TTL_MS :: int where
  "DEFAULT_CERTIFICATE_CACHE_TTL_MS = 6 * 60 * 60 * 1000"

definition DEFAULT_CERTIFICATE_CACHE_MAX_ENTRIES :: nat where
  "DEFAULT_CERTIFICATE_CACHE_MAX_ENTRIES = 32"

text \<open>
  \<open>rsa version certificate text signature\<close> is the verifier of the platform, \<open>None\<close> when it
  throws; \<open>fetched\<close> says that the certificate came from the network.  Only a certificate
  that verified a message enters the cache.
\<close>

record sns_verifier =
  sv_parse_url :: "string \<Rightarrow> url option"
  sv_rsa :: "string \<Rightarrow> string \<Rightarrow> string \<Rightarrow> string \<Rightarrow> bool option"
  sv_fetch :: "string \<Rightarrow> string option"
  sv_now :: int

definition sns_envelope :: "sns_verifier \<Rightarrow> json \<Rightarrow> (string \<times> string \<times> string \<times> string) option" where
  "sns_envelope v m =
     (case (canonicalSnsMessage m,
            canonicalSnsCertificateUrl (sv_parse_url v) (or_default (text_prop m ''SigningCertURL'') []),
            or_default (text_prop m ''Signature'') [], text_prop m ''SignatureVersion'') of
        (Some canonical, Some u, signature, Some version) \<Rightarrow>
          if canonical = [] \<or> signature = [] \<or> u = [] \<or> version \<noteq> ''1'' \<and> version \<noteq> ''2'' then None
          else Some (canonical, u, signature, version)
      | _ \<Rightarrow> None)"

definition check_signature :: "sns_verifier \<Rightarrow> string \<times> string \<times> string \<times> string \<Rightarrow> bool \<Rightarrow> string
    \<Rightarrow> cached_certificate list \<Rightarrow> cached_certificate list \<times> bool" where
  "check_signature v e fetched cert cache =
     (case e of (canonical, u, signature, version) \<Rightarrow>
        (case sv_rsa v version cert canonical signature of
           None \<Rightarrow> (cache, False)
         | Some valid \<Rightarrow>
             (if valid \<and> fetched
              then cacheCertificate u cert (sv_now v + DEFAULT_CERTIFICATE_CACHE_TTL_MS)
                     DEFAULT_CERTIFICATE_CACHE_MAX_ENTRIES cache
              else cache, valid)))"

definition fetched_certificate :: "sns_verifier \<Rightarrow> string \<Rightarrow> string option" where
  "fetched_certificate v u =
     (case sv_fetch v u of None \<Rightarrow> None | Some c \<Rightarrow> if 64 * 1024 < length c then None else Some c)"

text \<open>
  \<open>verifyAwsSnsSignature(body).catch(() => false)\<close>: the cached certificate answers at once;
  otherwise the fetch is an await, after which the cache is written.
\<close>

definition verifyAwsSnsSignature :: "sns_verifier \<Rightarrow> json \<Rightarrow> (cached_certificate list, 'e, bool) prog" where
  "verifyAwsSnsSignature v m =
     (case sns_envelope v m of
        None \<Rightarrow> Return False
      | Some e \<Rightarrow>
          call_with (getCachedCertificate (fst (snd e)) (sv_now v)) (\<lambda>cached.
            if or_default cached [] \<noteq> []
            then call_with (check_signature v e False (the cached)) Return
            else (case fetched_certificate v (fst (snd e)) of
                    None \<Rightarrow> Return False
                  | Some cert \<Rightarrow> call_with (check_signature v e True cert) Return)))"

section \<open>Delivery events\<close>

datatype event_type = delivered_event | bounced | complained | opened | clicked

record webhook_event =
  we_provider_event_id :: json
  we_type :: event_type
  we_recipient :: "json option"
  we_provider_message_id :: "json option"
  we_occurred_at :: json
  we_metadata :: json

definition resend_type :: "json option \<Rightarrow> event_type option" where
  "resend_type v = (case v of
     Some (JStr t) \<Rightarrow> map_of [(''email.delivered'', delivered_event), (''email.bounced'', bounced),
       (''email.complained'', complained), (''email.opened'', opened), (''email.clicked'', clicked)] t
   | _ \<Rightarrow> None)"

definition ses_type :: "json option \<Rightarrow> event_type option" where
  "ses_type v = (case v of
     Some (JStr t) \<Rightarrow> map_of [(''Delivery'', delivered_event), (''Bounce'', bounced), (''Complaint'', complained)] t
   | _ \<Rightarrow> None)"

text \<open>\<open>now\<close> is the text of \<open>new Date().toISOString()\<close>.\<close>

definition parseResendWebhook :: "string \<Rightarrow> json \<Rightarrow> string \<Rightarrow> webhook_event option" where
  "parseResendWebhook now body signedEnvelopeId =
     (let data = json_key body ''data''; email = opt_prop data ''email_id'';
          to' = opt_prop data ''to'';
          i = (if signedEnvelopeId \<noteq> [] then Some (JStr signedEnvelopeId) else email)
      in case resend_type (json_key body ''type'') of
           None \<Rightarrow> None
         | Some t \<Rightarrow>
             if \<not> json_truthy i then None
             else Some \<lparr> we_provider_event_id = the i, we_type = t,
                 we_recipient = (case to' of Some (JArr xs) \<Rightarrow> first_element (JArr xs) | _ \<Rightarrow> to'),
                 we_provider_message_id = email,
                 we_occurred_at = truthy_or (opt_prop data ''created_at'') (JStr now),
                 we_metadata = truthy_or data (JObj []) \<rparr>)"

definition parseSesWebhook :: "string \<Rightarrow> json \<Rightarrow> string \<Rightarrow> webhook_event option" where
  "parseSesWebhook now body signedEnvelopeId =
     (let mail = json_key body ''mail''; messageId = opt_prop mail ''messageId'';
          i = (if signedEnvelopeId \<noteq> [] then Some (JStr signedEnvelopeId) else messageId)
      in case ses_type (json_key body ''notificationType'') of
           None \<Rightarrow> None
         | Some t \<Rightarrow>
             if \<not> json_truthy i then None
             else Some \<lparr> we_provider_event_id = the i, we_type = t,
                 we_recipient = first_element (truthy_or (opt_prop mail ''destination'') (JArr [])),
                 we_provider_message_id = messageId,
                 we_occurred_at = truthy_or (opt_prop mail ''timestamp'') (JStr now),
                 we_metadata = body \<rparr>)"

section \<open>Inbound mail of Resend\<close>

record parsed_inbound =
  pi_provider_message_id :: json
  pi_from :: json
  pi_to :: "json list"
  pi_cc :: "json list"
  pi_subject :: json
  pi_text :: "json option"
  pi_html :: "json option"
  pi_headers :: json
  pi_received_at :: json

definition isResendInboundEvent :: "json \<Rightarrow> bool" where
  "isResendInboundEvent event \<longleftrightarrow> json_key event ''type'' = Some (JStr ''email.received'')
     \<or> json_key event ''type'' = Some (JStr ''inbound.email.received'')"

definition resend_array :: "json option \<Rightarrow> json list" where
  "resend_array v = (if \<not> json_truthy v then [] else case v of Some (JArr xs) \<Rightarrow> xs | _ \<Rightarrow> [the v])"

definition nullish_option :: "json option \<Rightarrow> json option" where
  "nullish_option v = (if v = Some JNull then None else v)"

definition parseResendInboundEvent :: "string \<Rightarrow> json \<Rightarrow> parsed_inbound" where
  "parseResendInboundEvent now event =
     (let d = nullish_or (json_key event ''data'') (JObj []) in
      \<lparr> pi_provider_message_id = nullish_or (json_key d ''email_id'') (JStr []),
        pi_from = nullish_or (json_key d ''from'') (JStr []),
        pi_to = resend_array (json_key d ''to''), pi_cc = resend_array (json_key d ''cc''),
        pi_subject = nullish_or (json_key d ''subject'') (JStr ''(no subject)''),
        pi_text = nullish_option (json_key d ''text''), pi_html = nullish_option (json_key d ''html''),
        pi_headers = nullish_or (json_key d ''headers'') (JObj []),
        pi_received_at = nullish_or (json_key event ''created_at'') (JStr now) \<rparr>)"

end
