(* ===== verification/Webhook_Store.thy ===== *)
theory Webhook_Store
  imports Webhook_Events
begin

text \<open>
  The tables behind the webhooks (src/server/self-hosted/store.ts and migrations.ts): the
  delivery events, the receipts that make an event idempotent, and the upsert of an inbound
  message by its source.  The world of a webhook request is the mailbox with these tables
  and the certificate cache of the process.  Parameters of SQL texts that the driver makes
  of JSON values are given as texts.
\<close>

section \<open>Tables\<close>

record event_row =
  ev_id :: string
  ev_tenant :: string
  ev_email_id :: "string option"
  ev_provider_event_id :: "string option"
  ev_type :: event_type
  ev_recipient :: "string option"
  ev_metadata :: json
  ev_occurred_at :: int

record receipt_row =
  wr_id :: string
  wr_tenant :: string
  wr_provider :: string
  wr_event_id :: string
  wr_resource_id :: "string option"

record hook_world =
  hw_mail :: mail_store
  hw_events :: "event_row list"
  hw_receipts :: "receipt_row list"
  hw_certs :: "cached_certificate list"

section \<open>Receipts\<close>

definition receipt_at :: "string \<Rightarrow> string \<Rightarrow> string \<Rightarrow> receipt_row \<Rightarrow> bool" where
  "receipt_at tenant provider eventId r \<longleftrightarrow>
     wr_tenant r = tenant \<and> wr_provider r = provider \<and> wr_event_id r = eventId"

text \<open>\<open>listResource(WEBHOOK_RECEIPTS_SPEC, { limit: 1, filters: { provider, event_id } })\<close>.\<close>

definition find_receipt :: "string \<Rightarrow> string \<Rightarrow> string \<Rightarrow> hook_world \<Rightarrow> receipt_row option" where
  "find_receipt tenant provider eventId w = find (receipt_at tenant provider eventId) (hw_receipts w)"

text \<open>\<open>createResource(WEBHOOK_RECEIPTS_SPEC, ...)\<close> under the primary key and the unique index.\<close>

definition create_receipt :: "string \<Rightarrow> string \<Rightarrow> string \<Rightarrow> string \<Rightarrow> string option \<Rightarrow> hook_world
    \<Rightarrow> hook_world \<times> (store_error + unit)" where
  "create_receipt fresh tenant provider eventId resource w =
     (if \<exists>r \<in> set (hw_receipts w). wr_id r = fresh \<or> receipt_at tenant provider eventId r
      then (w, Inl (Store_Error ''duplicate key value''))
      else (w\<lparr>hw_receipts := hw_receipts w @ [\<lparr> wr_id = fresh, wr_tenant = tenant, wr_provider = provider,
                wr_event_id = eventId, wr_resource_id = resource \<rparr>]\<rparr>, Inr ()))"

section \<open>Delivery events\<close>

text \<open>\<open>wi_occurred_at\<close> is \<open>None\<close> for a value the database cannot read as an instant.\<close>

record delivery_input =
  wi_email_id :: "string option"
  wi_type :: event_type
  wi_recipient :: "string option"
  wi_metadata :: json
  wi_occurred_at :: "int option"

definition event_at :: "string \<Rightarrow> string \<Rightarrow> event_row \<Rightarrow> bool" where
  "event_at tenant eventId e \<longleftrightarrow> ev_tenant e = tenant \<and> ev_provider_event_id e = Some eventId"

definition insert_event :: "string \<Rightarrow> string \<Rightarrow> string \<Rightarrow> delivery_input \<Rightarrow> hook_world
    \<Rightarrow> hook_world \<times> (store_error + string)" where
  "insert_event fresh tenant eventId inp w =
     (case wi_occurred_at inp of
        None \<Rightarrow> (w, Inl (Store_Error ''invalid input syntax for type timestamp with time zone''))
      | Some occurred \<Rightarrow>
          (case find (event_at tenant eventId) (hw_events w) of
             Some e \<Rightarrow> (w, Inr (ev_id e))
           | None \<Rightarrow>
               if \<exists>e \<in> set (hw_events w). ev_id e = fresh then (w, Inl (Store_Error ''duplicate key value''))
               else (w\<lparr>hw_events := hw_events w @ [\<lparr> ev_id = fresh, ev_tenant = tenant,
                        ev_email_id = wi_email_id inp, ev_provider_event_id = Some eventId,
                        ev_type = wi_type inp, ev_recipient = wi_recipient inp,
                        ev_metadata = wi_metadata inp, ev_occurred_at = occurred \<rparr>]\<rparr>, Inr fresh)))"

definition ensure_receipt :: "string \<Rightarrow> string \<Rightarrow> string \<Rightarrow> string \<Rightarrow> string option \<Rightarrow> hook_world
    \<Rightarrow> hook_world \<times> (store_error + unit)" where
  "ensure_receipt fresh tenant provider eventId resource w =
     (if \<exists>r \<in> set (hw_receipts w). receipt_at tenant provider eventId r then (w, Inr ())
      else create_receipt fresh tenant provider eventId resource w)"

text \<open>One transaction: the event (or the row that won the race) and its receipt, or neither.\<close>

definition createWebhookDeliveryEvent :: "scope \<Rightarrow> string \<Rightarrow> string \<Rightarrow> string \<Rightarrow> string \<Rightarrow> delivery_input
    \<Rightarrow> hook_world \<Rightarrow> hook_world \<times> (store_error + string)" where
  "createWebhookDeliveryEvent sc fresh1 fresh2 provider eventId inp w =
     (if \<not> sc_atomic sc
      then (w, Inl (Store_Error ''webhook delivery-event persistence requires a transactional store''))
      else (case insert_event fresh1 (sc_tenant sc) eventId inp w of
              (_, Inl e) \<Rightarrow> (w, Inl e)
            | (w1, Inr i) \<Rightarrow>
                (case ensure_receipt fresh2 (sc_tenant sc) provider eventId (Some i) w1 of
                   (_, Inl e) \<Rightarrow> (w, Inl e)
                 | (w2, Inr _) \<Rightarrow> (w2, Inr i))))"

section \<open>Upserting a message\<close>

text \<open>
  \<open>messageUpsertAssignments\<close>: a replay writes the columns that the input names, from the
  row \<open>e\<close> that the insertion would have made.
\<close>

definition given :: "'a option \<Rightarrow> 'b \<Rightarrow> 'b \<Rightarrow> 'b" where
  "given x new old = (if x = None then old else new)"

definition messageUpsertAssignments :: "int \<Rightarrow> message_input \<Rightarrow> message \<Rightarrow> message \<Rightarrow> message" where
  "messageUpsertAssignments now i e r =
     r\<lparr>m_from := m_from e, m_to := m_to e,
       m_direction := given (mi_direction i) (m_direction e) (m_direction r),
       m_cc := given (mi_cc i) (m_cc e) (m_cc r),
       m_subject := given (mi_subject i) (m_subject e) (m_subject r),
       m_body_text := given (mi_body_text i) (m_body_text e) (m_body_text r),
       m_body_html := given (mi_body_html i) (m_body_html e) (m_body_html r),
       m_status := given (mi_status i) (m_status e) (m_status r),
       m_provider_message_id := given (mi_provider_message_id i) (m_provider_message_id e) (m_provider_message_id r),
       m_message_id := given (mi_message_id i) (m_message_id e) (m_message_id r),
       m_in_reply_to := given (mi_in_reply_to i) (m_in_reply_to e) (m_in_reply_to r),
       m_received_at := given (mi_received_at i) (m_received_at e) (m_received_at r),
       m_is_read := given (mi_is_read i) (m_is_read e) (m_is_read r),
       m_is_starred := given (mi_is_starred i) (m_is_starred e) (m_is_starred r),
       m_labels := given (mi_labels i) (m_labels e) (m_labels r),
       m_headers := given (mi_headers i) (m_headers e) (m_headers r),
       m_attachments := given (mi_attachments i) (m_attachments e) (m_attachments r),
       m_updated_at := now\<rparr>"

definition upsertMessage :: "scope \<Rightarrow> int \<Rightarrow> string \<Rightarrow> message_input \<Rightarrow> mail_store
    \<Rightarrow> mail_store \<times> (store_error + message \<times> bool)" where
  "upsertMessage sc now fresh i s =
     (let e = message_of_input fresh now (sc_tenant sc) i; M = messages (ms_db s);
          P = (\<lambda>m. m_tenant m = sc_tenant sc \<and> m_source_id m = mi_source_id i)
      in if or_default (mi_source_id i) [] = [] then (s, Inl (Store_Error ''upsertMessage requires a source_id''))
         else (case find P M of
                 Some r \<Rightarrow> (s\<lparr>ms_db := fst (update_message P (messageUpsertAssignments now i e) (ms_db s))\<rparr>,
                            Inr (messageUpsertAssignments now i e r, False))
               | None \<Rightarrow> if row_violates e M then (s, Inl (Store_Error ''duplicate key value''))
                         else (s\<lparr>ms_db := (ms_db s)\<lparr>messages := M @ [e]\<rparr>\<rparr>, Inr (e, True))))"

end
