(* ===== verification/Webhook_Receivers.thy ===== *)
theory Webhook_Receivers
  imports Webhook_Store
begin

text \<open>
  The provider webhook receivers, src/server/webhooks/receivers.ts: one function for SES
  through SNS, one for Resend, over an injected ledger, injected sinks and an injected
  signature check.  They are programs that suspend at each awaited call of what is injected.
  \<open>wl_open\<close> is the first use of the ledger in a request, which resolves the addresses and
  caches the result \<open>'c\<close>; every later use of the request reads that cache.
\<close>

section \<open>Requests and replies\<close>

text \<open>
  \<open>hq_declared\<close> is the declared length, \<open>None\<close> when it is no finite number; \<open>hq_bytes\<close> the
  length of the body and \<open>hq_text\<close> its decoded text.  Header names are lower case.
\<close>

record hook_request =
  hq_declared :: "int option"
  hq_bytes :: nat
  hq_text :: string
  hq_header :: "string \<Rightarrow> string option"

record hook_reply =
  rp_status :: nat
  rp_body :: json

definition hook_json :: "nat \<Rightarrow> (string \<times> json) list \<Rightarrow> hook_reply" where
  "hook_json status fs = \<lparr> rp_status = status, rp_body = JObj fs \<rparr>"

definition hook_error_reply :: "nat \<Rightarrow> string \<Rightarrow> hook_reply" where
  "hook_error_reply status text = hook_json status [(''error'', JStr text)]"

definition ok_reply :: "(string \<times> json) list \<Rightarrow> hook_reply" where
  "ok_reply fs = hook_json 200 ((''ok'', JBool True) # fs)"

text \<open>A field whose value is \<open>undefined\<close> is left out of the text; \<open>v ?? null\<close>.\<close>

definition opt_field :: "string \<Rightarrow> json option \<Rightarrow> (string \<times> json) list" where
  "opt_field k v = (case v of None \<Rightarrow> [] | Some x \<Rightarrow> [(k, x)])"

definition text_or_null :: "string option \<Rightarrow> json" where
  "text_or_null v = (case v of None \<Rightarrow> JNull | Some t \<Rightarrow> JStr t)"

definition ignored_reply :: "string \<Rightarrow> (string \<times> json) list \<Rightarrow> hook_reply" where
  "ignored_reply reason fs = ok_reply ((''ignored'', JStr reason) # fs)"

datatype hook_error = Hook_Store store_error | Hook_Type type_error

abbreviation hook_failure :: "string \<Rightarrow> hook_error" where
  "hook_failure t \<equiv> Hook_Store (Store_Error t)"

section \<open>What is injected\<close>

record ('w, 'c) hook_ledger =
  wl_open :: "string list \<Rightarrow> ('w, hook_error, 'c) prog"
  wl_find :: "'c \<Rightarrow> string \<Rightarrow> string \<Rightarrow> ('w, hook_error, string option option) prog"
  wl_record :: "'c \<Rightarrow> string \<Rightarrow> string \<Rightarrow> string option \<Rightarrow> ('w, hook_error, unit) prog"

record persist_outcome =
  wp_id :: string
  wp_receipt_recorded :: bool

record inbound_source =
  is_bucket :: "string option"
  is_prefix :: "string option"
  is_region :: "string option"

record ses_request =
  sr_bucket :: string
  sr_prefix :: "string option"
  sr_region :: "string option"
  sr_object_key :: "string option"
  sr_message_id :: "string option"
  sr_recipients :: "string list"
  sr_timestamp :: "string option"
  sr_event_id :: string

record ses_result =
  se_synced :: nat
  se_resource_id :: "string option"
  se_ignored :: "string option"
  se_receipt_recorded :: bool
  se_errors :: "string list"

record ('w, 'c) ses_deps =
  sd_ledger :: "('w, 'c) hook_ledger"
  sd_source :: inbound_source
  sd_ingest :: "'c \<Rightarrow> ses_request \<Rightarrow> ('w, hook_error, ses_result) prog"
  sd_event :: "'c \<Rightarrow> webhook_event \<Rightarrow> string \<Rightarrow> ('w, hook_error, persist_outcome option) prog"
  sd_secret :: "string option"
  sd_require_secret :: bool
  sd_fetch_url :: "string \<Rightarrow> ('w, hook_error, unit) prog"
  sd_verify :: "json \<Rightarrow> ('w, hook_error, bool) prog"

record ('w, 'c) resend_deps =
  rd_ledger :: "('w, 'c) hook_ledger"
  rd_secret :: "string option"
  rd_inbound :: "'c \<Rightarrow> parsed_inbound \<Rightarrow> string \<Rightarrow> ('w, hook_error, persist_outcome option) prog"
  rd_event :: "'c \<Rightarrow> webhook_event \<Rightarrow> string \<Rightarrow> ('w, hook_error, persist_outcome option) prog"

text \<open>The platform of a request: \<open>JSON.parse\<close>, percent decoding, the environment variables, HMAC, URLs and the clock.\<close>

record hook_platform =
  hp_parse :: "string \<Rightarrow> json option"
  hp_decode :: "string \<Rightarrow> string option"
  hp_vars :: "string \<Rightarrow> string option"
  hp_mac :: "string \<Rightarrow> string \<Rightarrow> string option"
  hp_url :: "string \<Rightarrow> url option"
  hp_now :: int
  hp_now_text :: string

section \<open>Reading the request\<close>

definition readJsonObject :: "hook_platform \<Rightarrow> hook_request \<Rightarrow> hook_reply + json" where
  "readJsonObject pf rq =
     (if (case hq_declared rq of None \<Rightarrow> False | Some d \<Rightarrow> 1024 * 1024 < d) \<or> 1024 * 1024 < hq_bytes rq
      then Inl (hook_error_reply 413 ''Request body too large'')
      else (case hp_parse pf (hq_text rq) of
              None \<Rightarrow> Inl (hook_error_reply 400 ''Invalid JSON'')
            | Some (JObj fs) \<Rightarrow> Inr (JObj fs)
            | Some _ \<Rightarrow> Inl (hook_error_reply 400 ''Invalid JSON object'')))"

text \<open>\<open>/^Bearer\s+(.+)$/i\<close> on a header value, which has no white space at its ends.\<close>

definition bearer_secret :: "string \<Rightarrow> string option" where
  "bearer_secret auth =
     (let r = drop 6 auth; token = dropWhile is_ws r in
      if js_lower (take 6 auth) = ''bearer'' \<and> token \<noteq> [] \<and> is_ws (hd r) then Some token else None)"

definition requestWebhookSecret :: "hook_request \<Rightarrow> string option" where
  "requestWebhookSecret rq =
     (let direct = header_text (hq_header rq) ''x-emails-webhook-secret'' in
      if direct \<noteq> [] then Some direct
      else bearer_secret (header_text (hq_header rq) ''authorization''))"

definition innerSesNotification :: "hook_platform \<Rightarrow> json \<Rightarrow> json" where
  "innerSesNotification pf body =
     (case text_prop body ''Message'' of
        None \<Rightarrow> body
      | Some raw \<Rightarrow> (case hp_parse pf raw of Some (JObj fs) \<Rightarrow> JObj fs | _ \<Rightarrow> JObj []))"

section \<open>SES\<close>

text \<open>The checks before the signature: \<open>Inr None\<close> to go on.\<close>

definition ses_gate :: "('w, 'c) ses_deps \<Rightarrow> hook_platform \<Rightarrow> hook_request \<Rightarrow> json
    \<Rightarrow> type_error + hook_reply option" where
  "ses_gate deps pf rq body =
     (let secret = or_default (sd_secret deps) [] in
      if secret = [] \<and> sd_require_secret deps
      then Inr (Some (hook_error_reply 503 ''SES inbound webhook secret is required but not configured''))
      else if secret \<noteq> [] \<and> requestWebhookSecret rq \<noteq> Some secret
      then Inr (Some (hook_error_reply 401 ''Invalid webhook secret''))
      else (case verifySnsStructure body of
              Inl e \<Rightarrow> Inl e
            | Inr False \<Rightarrow> Inr (Some (hook_error_reply 400 ''Invalid SNS payload''))
            | Inr True \<Rightarrow>
                (case snsPolicyFromEnv (hp_vars pf) of
                   Inl e \<Rightarrow> Inr (Some (hook_error_reply 503 e))
                 | Inr policy \<Rightarrow>
                     if snsMessageAllowed body policy then Inr None
                     else Inr (Some (hook_error_reply 401 ''SNS topic or account is not allowed'')))))"

definition duplicate_reply :: "string \<Rightarrow> hook_reply" where
  "duplicate_reply eventId = ok_reply [(''duplicate'', JBool True), (''message_id'', JStr eventId)]"

definition event_type_text :: "event_type \<Rightarrow> string" where
  "event_type_text t = (case t of delivered_event \<Rightarrow> ''delivered'' | bounced \<Rightarrow> ''bounced''
     | complained \<Rightarrow> ''complained'' | opened \<Rightarrow> ''opened'' | clicked \<Rightarrow> ''clicked'')"

definition event_reply :: "webhook_event \<Rightarrow> string \<Rightarrow> hook_reply" where
  "event_reply event i = ok_reply [(''event_id'', JStr i), (''type'', JStr (event_type_text (we_type event))),
     (''message_id'', nullish_or (we_provider_message_id event) JNull)]"

definition unscoped_reply :: "string \<Rightarrow> webhook_event \<Rightarrow> hook_reply" where
  "unscoped_reply what event = ignored_reply (''no destination scope for delivery '' @ what)
     [(''message_id'', nullish_or (we_provider_message_id event) JNull)]"

text \<open>Confirming a subscription: only a genuine AWS URL is fetched.\<close>

definition ses_confirm :: "('w, 'c) ses_deps \<Rightarrow> hook_platform \<Rightarrow> json \<Rightarrow> string \<Rightarrow> string
    \<Rightarrow> ('w, hook_error, hook_reply) prog" where
  "ses_confirm deps pf body eventId u =
     (if \<not> isAwsSnsUrl (hp_url pf) u
      then Return (hook_error_reply 400 ''SubscribeURL is not a valid AWS SNS endpoint'')
      else bind (wl_open (sd_ledger deps) []) (\<lambda>c.
        bind (wl_find (sd_ledger deps) c ''sns'' eventId) (\<lambda>found.
          if found \<noteq> None then Return (duplicate_reply eventId)
          else bind (sd_fetch_url deps u) (\<lambda>_.
            bind (wl_record (sd_ledger deps) c ''sns'' eventId
                   (Some (js_String (nullish_or (json_key body ''TopicArn'') (JStr [])))))
              (\<lambda>_. Return (ok_reply [(''confirmed'', JBool True)]))))))"

definition record_unless :: "('w, 'c) hook_ledger \<Rightarrow> bool \<Rightarrow> 'c \<Rightarrow> string \<Rightarrow> string \<Rightarrow> string option
    \<Rightarrow> hook_reply \<Rightarrow> ('w, hook_error, hook_reply) prog" where
  "record_unless L has_receipt c provider eventId resource reply =
     (if has_receipt then Return reply
      else bind (wl_record L c provider eventId resource) (\<lambda>_. Return reply))"

definition ses_delivery :: "('w, 'c) ses_deps \<Rightarrow> hook_platform \<Rightarrow> json \<Rightarrow> string
    \<Rightarrow> ('w, hook_error, hook_reply) prog" where
  "ses_delivery deps pf inner eventId =
     (let mail = nullish_or (json_key inner ''mail'') (JObj []);
          sender = or_default (text_prop mail ''source'') []
      in bind (wl_open (sd_ledger deps) (if sender \<noteq> [] then [sender] else [])) (\<lambda>c.
           bind (wl_find (sd_ledger deps) c ''sns'' eventId) (\<lambda>found.
             if found \<noteq> None then Return (duplicate_reply eventId)
             else (case parseSesWebhook (hp_now_text pf) inner eventId of
                     None \<Rightarrow> Return (ignored_reply ''unrecognized delivery notification'' [])
                   | Some event \<Rightarrow>
                       bind (sd_event deps c event eventId) (\<lambda>stored.
                         case stored of
                           None \<Rightarrow> Return (unscoped_reply ''notification'' event)
                         | Some o' \<Rightarrow> record_unless (sd_ledger deps) (wp_receipt_recorded o') c ''sns'' eventId
                             (Some (wp_id o')) (event_reply event (wp_id o')))))))"

text \<open>After the ingest: failures are thrown, what was ignored gets no receipt.\<close>

definition ses_finish :: "('w, 'c) ses_deps \<Rightarrow> notification \<Rightarrow> string option \<Rightarrow> 'c \<Rightarrow> string \<Rightarrow> ses_result
    \<Rightarrow> ('w, hook_error, hook_reply) prog" where
  "ses_finish deps note objectKey c eventId result =
     (let ids = opt_field ''message_id'' (map_option JStr (nt_message_id note))
                  @ [(''object_key'', text_or_null objectKey)]
      in if se_errors result \<noteq> []
         then Raise (hook_failure (''inbound ingest failed for '' @ nat_text (length (se_errors result))
                @ '' object(s): '' @ join_texts ''; '' (se_errors result)))
         else if or_default (se_ignored result) [] \<noteq> []
         then Return (ignored_reply (the (se_ignored result)) ids)
         else record_unless (sd_ledger deps) (se_receipt_recorded result) c ''sns'' eventId (se_resource_id result)
                (ok_reply ((''synced'', JNum (int (se_synced result))) # ids)))"

definition ses_inbound :: "('w, 'c) ses_deps \<Rightarrow> notification \<Rightarrow> string \<Rightarrow> ('w, hook_error, hook_reply) prog" where
  "ses_inbound deps note eventId =
     (let source = sd_source deps; bucket = or_default (is_bucket source) [];
          prefix = or_default (is_prefix source) [];
          objectKey = map_option (dropWhile (\<lambda>x. x = CHR ''/'')) (nt_object_key note);
          key = or_default objectKey []; recipients = or_default (nt_recipients note) []
      in bind (wl_open (sd_ledger deps) recipients) (\<lambda>c.
           bind (wl_find (sd_ledger deps) c ''sns'' eventId) (\<lambda>found.
             if found \<noteq> None then Return (duplicate_reply eventId)
             else if bucket = [] then Return (ignored_reply ''no bucket configured'' [])
             else if key \<noteq> [] \<and> prefix \<noteq> [] \<and> \<not> starts_with_text key prefix
             then Return (ignored_reply ''notification object key outside configured prefix''
                    (opt_field ''message_id'' (map_option JStr (nt_message_id note)) @ [(''object_key'', JStr key)]))
             else bind (sd_ingest deps c \<lparr> sr_bucket = bucket, sr_prefix = is_prefix source,
                          sr_region = is_region source, sr_object_key = objectKey,
                          sr_message_id = nt_message_id note, sr_recipients = recipients,
                          sr_timestamp = nt_timestamp note, sr_event_id = eventId \<rparr>)
                    (ses_finish deps note objectKey c eventId))))"

text \<open>A verified message, by its type.\<close>

definition ses_message_type :: "hook_request \<Rightarrow> json \<Rightarrow> json option" where
  "ses_message_type rq body =
     (case json_key body ''Type'' of
        Some JNull \<Rightarrow> map_option JStr (hq_header rq ''x-amz-sns-message-type'')
      | None \<Rightarrow> map_option JStr (hq_header rq ''x-amz-sns-message-type'')
      | t \<Rightarrow> t)"

definition ses_verified :: "('w, 'c) ses_deps \<Rightarrow> hook_platform \<Rightarrow> hook_request \<Rightarrow> json
    \<Rightarrow> ('w, hook_error, hook_reply) prog" where
  "ses_verified deps pf rq body =
     (let eventId = or_default (text_prop body ''MessageId'') []; type = ses_message_type rq body;
          inner = innerSesNotification pf body;
          ntype = or_default (text_prop inner ''notificationType'') []
      in if eventId = [] then Return (hook_error_reply 400 ''SNS MessageId is required'')
         else if type = Some (JStr ''SubscriptionConfirmation'') \<and> text_prop body ''SubscribeURL'' \<noteq> None
         then ses_confirm deps pf body eventId (the (text_prop body ''SubscribeURL''))
         else if ntype \<in> {''Bounce'', ''Complaint'', ''Delivery''} then ses_delivery deps pf inner eventId
         else if type = Some (JStr ''Notification'') \<or> json_key body ''notificationType'' = Some (JStr ''Received'')
              \<or> json_truthy (json_key body ''Records'')
         then (case parseSesNotification (hp_parse pf) (hp_decode pf)
                      (or_default (text_prop body ''Message'') (json_text body)) of
                 Inl e \<Rightarrow> Raise (Hook_Type e)
               | Inr None \<Rightarrow> Return (ignored_reply ''unrecognized notification'' [])
               | Inr (Some note) \<Rightarrow> ses_inbound deps note eventId)
         else Return (ignored_reply ''unhandled message type'' []))"

definition receiveSesNotification :: "('w, 'c) ses_deps \<Rightarrow> hook_platform \<Rightarrow> hook_request
    \<Rightarrow> ('w, hook_error, hook_reply) prog" where
  "receiveSesNotification deps pf rq =
     (case readJsonObject pf rq of
        Inl reply \<Rightarrow> Return reply
      | Inr body \<Rightarrow>
          (case ses_gate deps pf rq body of
             Inl e \<Rightarrow> Raise (Hook_Type e)
           | Inr (Some reply) \<Rightarrow> Return reply
           | Inr None \<Rightarrow>
               bind (sd_verify deps body) (\<lambda>valid.
                 if valid then ses_verified deps pf rq body
                 else Return (hook_error_reply 401 ''Invalid SNS signature''))))"

section \<open>Resend\<close>

text \<open>
  \<open>svixId ?? fallback\<close>: a verified request has the header, so the fallback, which may be any
  value, is read as a text.
\<close>

definition resend_event_id :: "hook_request \<Rightarrow> json \<Rightarrow> string" where
  "resend_event_id rq fallback =
     (case hq_header rq ''svix-id'' of Some i \<Rightarrow> i | None \<Rightarrow> (case fallback of JStr i \<Rightarrow> i | _ \<Rightarrow> []))"

definition found_reply :: "string option \<Rightarrow> (string \<times> json) list \<Rightarrow> hook_reply" where
  "found_reply i fs = ok_reply ([(''duplicate'', JBool True), (''id'', text_or_null i)] @ fs)"

definition resend_delivery :: "('w, 'c) resend_deps \<Rightarrow> hook_platform \<Rightarrow> hook_request \<Rightarrow> json
    \<Rightarrow> ('w, hook_error, hook_reply) prog" where
  "resend_delivery deps pf rq event =
     (case parseResendWebhook (hp_now_text pf) event (header_text (hq_header rq) ''svix-id'') of
        None \<Rightarrow> Return (ignored_reply (''not an inbound event ('' @ js_String (nullish_or (json_key event ''type'') (JStr ''?''))
                  @ '')'') [])
      | Some delivery \<Rightarrow>
          (let data = opt_prop (json_key event ''data'') ''from'';
               sender = (case data of Some (JStr t) \<Rightarrow> t | _ \<Rightarrow> []);
               eventId = resend_event_id rq (we_provider_event_id delivery)
           in if eventId = [] then Return (hook_error_reply 400 ''Resend webhook has no stable event id'')
              else bind (wl_open (rd_ledger deps) (if sender \<noteq> [] then [sender] else [])) (\<lambda>c.
                bind (wl_find (rd_ledger deps) c ''resend'' eventId) (\<lambda>found. case found of
                  Some i \<Rightarrow> Return (found_reply i [])
                | None \<Rightarrow>
                    bind (rd_event deps c delivery eventId) (\<lambda>stored. case stored of
                      None \<Rightarrow> Return (unscoped_reply ''event'' delivery)
                    | Some o' \<Rightarrow> record_unless (rd_ledger deps) (wp_receipt_recorded o') c ''resend'' eventId
                        (Some (wp_id o')) (event_reply delivery (wp_id o')))))))"

definition resend_inbound :: "('w, 'c) resend_deps \<Rightarrow> hook_platform \<Rightarrow> hook_request \<Rightarrow> json
    \<Rightarrow> ('w, hook_error, hook_reply) prog" where
  "resend_inbound deps pf rq event =
     (let parsed = parseResendInboundEvent (hp_now_text pf) event;
          mid = [(''message_id'', pi_provider_message_id parsed)];
          eventId = resend_event_id rq (pi_provider_message_id parsed)
      in if eventId = [] then Return (hook_error_reply 400 ''Resend webhook has no stable event id'')
         else bind (wl_open (rd_ledger deps) (map recipient_text (pi_to parsed))) (\<lambda>c.
           bind (wl_find (rd_ledger deps) c ''resend'' eventId) (\<lambda>found. case found of
             Some i \<Rightarrow> Return (found_reply i mid)
           | None \<Rightarrow>
               bind (rd_inbound deps c parsed eventId) (\<lambda>stored. case stored of
                 None \<Rightarrow> Return (ignored_reply ''no destination scope for inbound recipients'' mid)
               | Some o' \<Rightarrow> record_unless (rd_ledger deps) (wp_receipt_recorded o') c ''resend'' eventId
                   (Some (wp_id o')) (ok_reply ((''id'', JStr (wp_id o')) # mid))))))"

definition receiveResendEvent :: "('w, 'c) resend_deps \<Rightarrow> hook_platform \<Rightarrow> hook_request
    \<Rightarrow> ('w, hook_error, hook_reply) prog" where
  "receiveResendEvent deps pf rq =
     (case readJsonObject pf rq of
        Inl reply \<Rightarrow> Return reply
      | Inr event \<Rightarrow>
          (let secret = or_default (rd_secret deps) [] in
           if secret = [] then Return (hook_error_reply 503 ''Resend webhook secret is not configured'')
           else if \<not> verifyResendSignature (hp_mac pf) (hp_now pf) (hq_text rq) (hq_header rq) secret
           then Return (hook_error_reply 401 ''Invalid signature'')
           else if isResendInboundEvent event then resend_inbound deps pf rq event
           else resend_delivery deps pf rq event))"

end
