(* ===== verification/Webhook_Mount.thy ===== *)
theory Webhook_Mount
  imports Webhook_Receivers
begin

text \<open>
  The self-hosted mount of the receivers, src/server/self-hosted/webhooks.ts, and its route
  in src/server/self-hosted/service.ts: tenants from envelope addresses, the tenant-scoped
  receipt ledger, the sinks into the operator's tables, and SES ingest through the worker's
  \<open>ingestS3Object\<close>.
\<close>

section \<open>The environment of a request\<close>

text \<open>
  \<open>hm_text\<close> and \<open>hm_instant\<close> are what the database driver makes of a JSON value in a text
  and in an instant column; \<open>hm_uuid\<close> and \<open>hm_receipt_uuid\<close> are the fresh ids by the position
  of the scope; \<open>hm_fetch_url\<close> is \<open>None\<close> when the fetch throws.
\<close>

record hook_mount =
  hm_scope :: scope
  hm_platform :: hook_platform
  hm_sns :: sns_verifier
  hm_ingest :: ingest_env
  hm_le :: "string \<Rightarrow> string \<Rightarrow> bool"
  hm_text :: "json \<Rightarrow> string"
  hm_instant :: "json \<Rightarrow> int option"
  hm_uuid :: "nat \<Rightarrow> string"
  hm_receipt_uuid :: "nat \<Rightarrow> string"
  hm_fetch_url :: "string \<Rightarrow> unit option"

text \<open>A function of a part of the state as a function of the whole, its errors renamed.\<close>

primrec embed :: "('t \<Rightarrow> 's) \<Rightarrow> ('s \<Rightarrow> 't \<Rightarrow> 't) \<Rightarrow> ('d \<Rightarrow> 'e) \<Rightarrow> ('s, 'd, 'a) prog \<Rightarrow> ('t, 'e, 'a) prog" where
  "embed get put h (Return a) = Return a"
| "embed get put h (Raise e) = Raise (h e)"
| "embed get put h (Await g) = Await (\<lambda>w. case map_prod id (embed get put h) (g (get w)) of
     (s, p) \<Rightarrow> (put s w, p))"

abbreviation in_mail :: "(mail_store, 'd, 'a) prog \<Rightarrow> ('d \<Rightarrow> hook_error) \<Rightarrow> (hook_world, hook_error, 'a) prog" where
  "in_mail p h \<equiv> embed hw_mail (\<lambda>s w. w\<lparr>hw_mail := s\<rparr>) h p"

definition store_call :: "(hook_world \<Rightarrow> hook_world \<times> (store_error + 'a)) \<Rightarrow> (hook_world, hook_error, 'a) prog" where
  "store_call f = call (\<lambda>w. case f w of (w', Inl e) \<Rightarrow> (w', Inl (Hook_Store e)) | (w', Inr a) \<Rightarrow> (w', Inr a))"

section \<open>The receipt ledger\<close>

definition resolveScopes :: "string list \<Rightarrow> hook_world \<Rightarrow> string list" where
  "resolveScopes addrs w = map rg_tenant (rr_groups (resolveInboundRecipients (ms_db (hw_mail w)) addrs))"

definition scopesFor :: "string list \<Rightarrow> (hook_world, hook_error, string list) prog" where
  "scopesFor addrs =
     (if addrs = [] then Return [] else call_with (\<lambda>w. (w, resolveScopes addrs w)) Return)"

primrec find_loop :: "string \<Rightarrow> string \<Rightarrow> string option \<Rightarrow> string list
    \<Rightarrow> (hook_world, hook_error, string option option) prog" where
  "find_loop provider eventId first [] = Return (Some first)"
| "find_loop provider eventId first (t # ts) =
     call_with (\<lambda>w. (w, find_receipt t provider eventId w)) (\<lambda>row. case row of
       None \<Rightarrow> Return None
     | Some r \<Rightarrow> find_loop provider eventId (if first = None then wr_resource_id r else first) ts)"

definition ledger_find :: "string list \<Rightarrow> string \<Rightarrow> string \<Rightarrow> (hook_world, hook_error, string option option) prog" where
  "ledger_find scopes provider eventId =
     (if scopes = [] then Return None else find_loop provider eventId None scopes)"

primrec record_loop :: "hook_mount \<Rightarrow> string \<Rightarrow> string \<Rightarrow> string option \<Rightarrow> nat \<Rightarrow> string list
    \<Rightarrow> (hook_world, hook_error, unit) prog" where
  "record_loop hm provider eventId resource n [] = Return ()"
| "record_loop hm provider eventId resource n (t # ts) =
     call_with (\<lambda>w. (w, find_receipt t provider eventId w)) (\<lambda>row.
       if row \<noteq> None then record_loop hm provider eventId resource (Suc n) ts
       else bind (store_call (create_receipt (hm_receipt_uuid hm n) t provider eventId resource)) (\<lambda>_.
         record_loop hm provider eventId resource (Suc n) ts))"

definition receipt_ledger :: "hook_mount \<Rightarrow> (hook_world, string list) hook_ledger" where
  "receipt_ledger hm = \<lparr> wl_open = scopesFor, wl_find = ledger_find,
     wl_record = (\<lambda>scopes provider eventId resource. record_loop hm provider eventId resource 0 scopes) \<rparr>"

section \<open>The sinks\<close>

text \<open>The own enumerable properties that \<open>{ ...v }\<close> copies.\<close>

definition spread :: "json \<Rightarrow> (string \<times> json) list" where
  "spread v = (case v of
     JObj fs \<Rightarrow> fs
   | JArr xs \<Rightarrow> map (\<lambda>(n, x). (nat_text n, x)) (enumerate 0 xs)
   | JStr s \<Rightarrow> map (\<lambda>(n, c). (nat_text n, JStr [c])) (enumerate 0 s)
   | _ \<Rightarrow> [])"

definition event_input :: "hook_mount \<Rightarrow> webhook_event \<Rightarrow> string option \<Rightarrow> delivery_input" where
  "event_input hm event emailId =
     (let pmid = we_provider_message_id event in
      \<lparr> wi_email_id = emailId, wi_type = we_type event,
        wi_recipient = map_option (hm_text hm) (nullish_option (we_recipient event)),
        wi_metadata = JObj (spread (we_metadata event)
          @ (if json_truthy pmid then [(''provider_message_id'', the pmid)] else [])),
        wi_occurred_at = hm_instant hm (we_occurred_at event) \<rparr>)"

primrec event_loop :: "hook_mount \<Rightarrow> string \<Rightarrow> webhook_event \<Rightarrow> string \<Rightarrow> nat \<Rightarrow> string option \<Rightarrow> string list
    \<Rightarrow> (hook_world, hook_error, string option) prog" where
  "event_loop hm provider event eventId n first [] = Return first"
| "event_loop hm provider event eventId n first (t # ts) =
     (let sc = forTenant (hm_scope hm) t; pmid = we_provider_message_id event in
      call_with (\<lambda>w. (w, if json_truthy pmid then findMessageIdByKey sc (hm_text hm (the pmid)) (hw_mail w) else None))
        (\<lambda>emailId.
          bind (store_call (createWebhookDeliveryEvent sc (hm_uuid hm n) (hm_receipt_uuid hm n) provider eventId
                  (event_input hm event emailId)))
            (\<lambda>i. event_loop hm provider event eventId (Suc n) (if first = None then Some i else first) ts)))"

definition persisted :: "bool \<Rightarrow> string option \<Rightarrow> persist_outcome option" where
  "persisted r first = (if or_default first [] = [] then None
     else Some \<lparr> wp_id = the first, wp_receipt_recorded = r \<rparr>)"

definition selfHostedDeliveryEventSink :: "hook_mount \<Rightarrow> string \<Rightarrow> string list \<Rightarrow> webhook_event \<Rightarrow> string
    \<Rightarrow> (hook_world, hook_error, persist_outcome option) prog" where
  "selfHostedDeliveryEventSink hm provider scopes event eventId =
     (if scopes = [] then Return None
      else bind (event_loop hm provider event eventId 0 None scopes) (\<lambda>first. Return (persisted True first)))"

text \<open>A truthy value as a nullable text column; headers that are no object read back as none.\<close>

definition text_column :: "hook_mount \<Rightarrow> json \<Rightarrow> string option" where
  "text_column hm v = (if json_truthy (Some v) then Some (hm_text hm v) else None)"

definition headers_of :: "json \<Rightarrow> headers" where
  "headers_of v = (case v of JObj fs \<Rightarrow> map_of (rev fs) | _ \<Rightarrow> Map.empty)"

text \<open>
  The input of the upsert, and the row's \<open>from_addr.trim()\<close>, which throws on a truthy
  sender that is no text.  Copied recipients are read back as texts.
\<close>

definition resend_sender :: "parsed_inbound \<Rightarrow> type_error + string" where
  "resend_sender p =
     (if \<not> json_truthy (Some (pi_from p)) then Inr ''(unknown sender)''
      else (case pi_from p of JStr s \<Rightarrow> Inr s | _ \<Rightarrow> Inl Type_Error))"

definition resend_input :: "hook_mount \<Rightarrow> parsed_inbound \<Rightarrow> string \<Rightarrow> string list \<Rightarrow> int \<Rightarrow> message_input" where
  "resend_input hm p sender recipients received =
     \<lparr> mi_from = sender, mi_to = recipients, mi_cc = Some (map js_String (pi_cc p)),
       mi_subject = Some (text_column hm (pi_subject p)),
       mi_body_text = Some (map_option (hm_text hm) (pi_text p)),
       mi_body_html = Some (map_option (hm_text hm) (pi_html p)), mi_status = Some ''received'',
       mi_provider_message_id = Some (text_column hm (pi_provider_message_id p)),
       mi_direction = Some ''inbound'', mi_message_id = Some (text_column hm (pi_provider_message_id p)),
       mi_in_reply_to = None, mi_received_at = Some (Some received), mi_is_read = None,
       mi_is_starred = None, mi_labels = None, mi_headers = Some (headers_of (pi_headers p)),
       mi_attachments = Some [], mi_source_id = Some (''resend:'' @ js_String (pi_provider_message_id p)),
       mi_key = None, mi_payload_hash = None, mi_send_state = None, mi_send_started_at = None \<rparr>"

definition resend_upsert :: "hook_mount \<Rightarrow> parsed_inbound \<Rightarrow> nat \<Rightarrow> route_group \<Rightarrow> (hook_world, hook_error, string) prog" where
  "resend_upsert hm p n g =
     (case resend_sender p of
        Inl e \<Rightarrow> Raise (Hook_Type e)
      | Inr sender \<Rightarrow>
          (case hm_instant hm (pi_received_at p) of
             None \<Rightarrow> store_call (\<lambda>w. (w, Inl (Store_Error ''invalid input syntax for type timestamp with time zone'')))
           | Some received \<Rightarrow>
               bind (in_mail (call (upsertMessage (forTenant (hm_scope hm) (rg_tenant g)) (hp_now (hm_platform hm))
                       (hm_uuid hm n) (resend_input hm p sender (rg_recipients g) received))) Hook_Store)
                 (\<lambda>r. Return (m_id (fst r)))))"

primrec resend_loop :: "hook_mount \<Rightarrow> parsed_inbound \<Rightarrow> nat \<Rightarrow> string option \<Rightarrow> route_group list
    \<Rightarrow> (hook_world, hook_error, string option) prog" where
  "resend_loop hm p n first [] = Return first"
| "resend_loop hm p n first (g # gs) =
     bind (resend_upsert hm p n g) (\<lambda>i. resend_loop hm p (Suc n) (if first = None then Some i else first) gs)"

definition selfHostedResendInboundSink :: "hook_mount \<Rightarrow> string list \<Rightarrow> parsed_inbound \<Rightarrow> string
    \<Rightarrow> (hook_world, hook_error, persist_outcome option) prog" where
  "selfHostedResendInboundSink hm scopes p eventId =
     (if scopes = [] then Return None
      else call_with (\<lambda>w. (w, resolveInboundRecipients (ms_db (hw_mail w)) (map recipient_text (pi_to p)))) (\<lambda>route.
        bind (resend_loop hm p 0 None (rr_groups route)) (\<lambda>first. Return (persisted False first))))"

text \<open>SES ingest through the worker's function: an error result is thrown.\<close>

definition ingest_answer :: "ingest_result \<Rightarrow> hook_error + ses_result" where
  "ingest_answer r =
     (if ig_status r = ingest_error then Inl (hook_failure (or_default (ig_error r) ''inbound ingest failed''))
      else Inr \<lparr> se_synced = (if ig_status r \<noteq> quarantined \<and> ig_inserted r = Some True then 1 else 0),
         se_resource_id = (if ig_status r = quarantined then None else ig_id r),
         se_ignored = (if ig_status r = quarantined then Some (or_default (ig_reason r) ''quarantined'') else None),
         se_receipt_recorded = False, se_errors = [] \<rparr>)"

definition selfHostedSesIngest :: "hook_mount \<Rightarrow> prefix_mapping list \<Rightarrow> string list \<Rightarrow> ses_request
    \<Rightarrow> (hook_world, hook_error, ses_result) prog" where
  "selfHostedSesIngest hm mappings scopes rq =
     (if or_default (sr_object_key rq) [] = []
      then Return \<lparr> se_synced = 0, se_resource_id = None, se_ignored = Some ''notification has no S3 object key'',
             se_receipt_recorded = False, se_errors = [] \<rparr>
      else bind (in_mail (ingestS3Object ((hm_ingest hm)\<lparr>ie_prefixes := mappings\<rparr>) (sr_bucket rq)
                  (the (sr_object_key rq)) (Some (sr_recipients rq)) (sr_timestamp rq)) Hook_Type)
             (\<lambda>r. case ingest_answer r of Inl e \<Rightarrow> Raise e | Inr a \<Rightarrow> Return a))"

section \<open>Handlers\<close>

text \<open>Empty text of \<open>EMAILS_INGEST_S3_PREFIX\<close> is no prefix; the region has a default.\<close>

definition selfHostedInboundSource :: "(string \<Rightarrow> string option) \<Rightarrow> inbound_source" where
  "selfHostedInboundSource vars =
     \<lparr> is_bucket = vars ''EMAILS_INGEST_S3_BUCKET'',
       is_prefix = (if vars ''EMAILS_INGEST_S3_PREFIX'' = Some [] then None else vars ''EMAILS_INGEST_S3_PREFIX''),
       is_region = Some (or_default (vars ''AWS_REGION'') ''us-east-1'') \<rparr>"

definition sns_check :: "hook_mount \<Rightarrow> json \<Rightarrow> (hook_world, hook_error, bool) prog" where
  "sns_check hm body = embed hw_certs (\<lambda>s w. w\<lparr>hw_certs := s\<rparr>) id (verifyAwsSnsSignature (hm_sns hm) body)"

definition mounted_ses :: "hook_mount \<Rightarrow> prefix_mapping list \<Rightarrow> (hook_world, string list) ses_deps" where
  "mounted_ses hm mappings =
     \<lparr> sd_ledger = receipt_ledger hm, sd_source = selfHostedInboundSource (hp_vars (hm_platform hm)),
       sd_ingest = selfHostedSesIngest hm mappings, sd_event = selfHostedDeliveryEventSink hm ''sns'',
       sd_secret = None, sd_require_secret = False,
       sd_fetch_url = (\<lambda>u. call_with (\<lambda>w. (w, hm_fetch_url hm u)) (\<lambda>r.
         if r = None then Raise (hook_failure ''fetch failed'') else Return ())),
       sd_verify = sns_check hm \<rparr>"

definition handleSelfHostedSesWebhook :: "hook_mount \<Rightarrow> hook_request \<Rightarrow> (hook_world, hook_error, hook_reply) prog" where
  "handleSelfHostedSesWebhook hm rq =
     (case parseInboundPrefixDomainMap (hm_le hm) (hp_parse (hm_platform hm))
             (hp_vars (hm_platform hm) ''EMAILS_INGEST_PREFIX_DOMAIN_MAP'') of
        Inl e \<Rightarrow> Return (hook_error_reply 503 e)
      | Inr mappings \<Rightarrow> receiveSesNotification (mounted_ses hm mappings) (hm_platform hm) rq)"

definition mounted_resend :: "hook_mount \<Rightarrow> (hook_world, string list) resend_deps" where
  "mounted_resend hm =
     \<lparr> rd_ledger = receipt_ledger hm, rd_secret = hp_vars (hm_platform hm) ''RESEND_WEBHOOK_SECRET'',
       rd_inbound = selfHostedResendInboundSink hm, rd_event = selfHostedDeliveryEventSink hm ''resend'' \<rparr>"

definition handleSelfHostedResendWebhook :: "hook_mount \<Rightarrow> hook_request \<Rightarrow> (hook_world, hook_error, hook_reply) prog" where
  "handleSelfHostedResendWebhook hm rq = receiveResendEvent (mounted_resend hm) (hm_platform hm) rq"

section \<open>The route\<close>

text \<open>
  The catch of the service for what a webhook handler may throw: an error whose message
  contains JSON is answered 400, any other 500.
\<close>

definition has_infix :: "string \<Rightarrow> string \<Rightarrow> bool" where
  "has_infix p s \<longleftrightarrow> (\<exists>n \<in> {0 .. length s}. starts_with_text (drop n s) p)"

definition thrown_reply :: "hook_error \<Rightarrow> hook_reply" where
  "thrown_reply e =
     (case e of
        Hook_Store (Store_Error t) \<Rightarrow>
          if has_infix ''JSON'' t then hook_error_reply 400 (''invalid request body: '' @ t)
          else hook_error_reply 500 ''internal error''
      | _ \<Rightarrow> hook_error_reply 500 ''internal error'')"

definition SES_INBOUND_V1_WEBHOOK_PATH :: string where
  "SES_INBOUND_V1_WEBHOOK_PATH = ''/v1/webhooks/ses-inbound''"

definition RESEND_INBOUND_V1_WEBHOOK_PATH :: string where
  "RESEND_INBOUND_V1_WEBHOOK_PATH = ''/v1/webhooks/resend-inbound''"

definition webhook_route :: "hook_mount \<Rightarrow> string \<Rightarrow> string \<Rightarrow> hook_request
    \<Rightarrow> (hook_world, hook_error, hook_reply) prog option" where
  "webhook_route hm path verb rq =
     (if path \<noteq> SES_INBOUND_V1_WEBHOOK_PATH \<and> path \<noteq> RESEND_INBOUND_V1_WEBHOOK_PATH then None
      else if verb \<noteq> ''POST'' then Some (Return (hook_error_reply 405 ''method not allowed''))
      else Some (bind (attempt (if path = SES_INBOUND_V1_WEBHOOK_PATH then handleSelfHostedSesWebhook hm rq
                         else handleSelfHostedResendWebhook hm rq))
             (\<lambda>r. case r of Inl e \<Rightarrow> Return (thrown_reply e) | Inr reply \<Rightarrow> Return reply)))"

end
