(* ===== verification/Webhook_Facts.thy ===== *)
theory Webhook_Facts
  imports Webhook_Mount Inbound_Once
begin

text \<open>
  What every awaited step of a webhook request does to the state, whatever runs between two
  of them: the unique indexes hold, and a request without a valid signature writes nothing.
  The receivers are reasoned about once, over what is injected (\<open>ses_steps\<close> and
  \<open>resend_steps\<close>), and then for the self-hosted mount.
\<close>

section \<open>Functions of a part of the state\<close>

lemma embed_Await: "embed get put h (Await g) = Await (\<lambda>w. (put (fst (g (get w))) w, embed get put h (snd (g (get w)))))"
  by (simp add: map_prod_def case_prod_beta)

declare embed.simps(3) [simp del] embed_Await [simp]

lemma embed_call_with:
  "embed get put h (call_with f k) = call_with (\<lambda>w. (put (fst (f (get w))) w, snd (f (get w)))) (\<lambda>r. embed get put h (k r))"
  by (simp add: call_with_def case_prod_beta)

lemma embed_keeps:
  assumes "keeps Q p" and "\<And>w s. Q (get w) s \<Longrightarrow> R w (put s w)"
  shows "keeps R (embed get put h p)"
  using assms(1) by induction (simp_all add: assms(2) keeps_await)

lemma embed_execs:
  assumes "execs E' (embed get put h p) w r w'"
    and "\<And>w w'. E' w w' \<Longrightarrow> E (get w) (get w')" and "\<And>s w. get (put s w) = s"
  shows "\<exists>q. execs E p (get w) q (get w') \<and> r = map_sum h id q"
proof -
  have "execs E' x w r w' \<Longrightarrow> x = embed get put h p \<Longrightarrow> \<exists>q. execs E p (get w) q (get w') \<and> r = map_sum h id q" for x
  proof (induction arbitrary: p rule: execs.induct)
    case (returned a s)
    then show ?case by (cases p) (auto intro!: exI [of _ "Inr a"] execs.returned)
  next
    case (raised e s)
    show ?case using raised by (cases p) (auto intro: execs.raised exI [where x = "Inl _"])
  next
    case (other s s1 q r s')
    from other.IH [OF other.prems] assms(2) [OF other.hyps(1)] show ?case by (blast intro: execs.other)
  next
    case (own g s s1 q r s')
    then obtain f where p: "p = Await f" by (cases p) auto
    with own.prems own.hyps(1) have q: "q = embed get put h (snd (f (get s)))" and s1: "get s1 = fst (f (get s))"
      by (auto simp: assms(3))
    from own.IH [OF q] show ?case unfolding p s1 by (metis execs.own prod.collapse)
  qed
  with assms(1) show ?thesis by blast
qed

lemma embed_holds:
  assumes "holds E P p Q" and "\<And>w w'. E' w w' \<Longrightarrow> E (get w) (get w')" and "\<And>s w. get (put s w) = s"
  shows "holds E' (\<lambda>w. P (get w)) (embed get put h p) (\<lambda>r w. \<exists>q. r = map_sum h id q \<and> Q q (get w))"
  unfolding holds_def using assms(1) embed_execs [of E' get put h p _ _ _ E] assms(2,3) by (blast dest: holdsD)

lemma keeps_store_call: "(\<And>w. R w (fst (f w))) \<Longrightarrow> keeps R (store_call f)"
  unfolding store_call_def by (rule keeps_call) (force split: prod.split sum.split simp: prod_eq_iff)

section \<open>The receivers over any ledger and sinks\<close>

locale ledger_steps =
  fixes R :: "'w \<Rightarrow> 'w \<Rightarrow> bool" and L :: "('w, 'c) hook_ledger"
  assumes open_R: "keeps R (wl_open L addrs)"
    and find_R: "keeps R (wl_find L c provider eventId)"
    and record_R: "keeps R (wl_record L c provider eventId resource)"
begin

lemma record_unless_keeps: "keeps R (record_unless L b c provider eventId resource reply)"
  unfolding record_unless_def by (auto intro!: keeps_sequence record_R)

end

locale ses_steps = ledger_steps R "sd_ledger deps" for R :: "'w \<Rightarrow> 'w \<Rightarrow> bool" and deps :: "('w, 'c) ses_deps" +
  assumes ingest_R: "keeps R (sd_ingest deps c r)" and event_R: "keeps R (sd_event deps c e i)"
    and fetch_R: "keeps R (sd_fetch_url deps u)" and verify_R: "keeps R (sd_verify deps body)"
begin

lemma confirm_keeps: "keeps R (ses_confirm deps pf body eventId u)"
  unfolding ses_confirm_def by (auto intro!: keeps_sequence open_R find_R fetch_R record_R)

lemma delivery_keeps: "keeps R (ses_delivery deps pf inner eventId)"
  unfolding ses_delivery_def Let_def
  by (auto intro!: keeps_sequence open_R find_R event_R record_unless_keeps split: option.split)

lemma inbound_keeps: "keeps R (ses_inbound deps note eventId)"
  unfolding ses_inbound_def ses_finish_def Let_def
  by (auto intro!: keeps_sequence open_R find_R ingest_R record_unless_keeps)

lemma verified_keeps: "keeps R (ses_verified deps pf rq body)"
  unfolding ses_verified_def Let_def
  by (auto simp: confirm_keeps delivery_keeps inbound_keeps split: sum.split option.split)

lemma receive_keeps: "keeps R (receiveSesNotification deps pf rq)"
  unfolding receiveSesNotification_def
  by (auto intro!: keeps_sequence verify_R verified_keeps split: sum.split option.split)

end

locale resend_steps = ledger_steps R "rd_ledger deps" for R :: "'w \<Rightarrow> 'w \<Rightarrow> bool" and deps :: "('w, 'c) resend_deps" +
  assumes inbound_R: "keeps R (rd_inbound deps c p i)" and event_R: "keeps R (rd_event deps c e i)"
begin

lemma receive_keeps: "keeps R (receiveResendEvent deps pf rq)"
  unfolding receiveResendEvent_def resend_inbound_def resend_delivery_def Let_def
  by (auto intro!: keeps_sequence open_R find_R inbound_R event_R record_unless_keeps split: sum.split option.split)

end

section \<open>The mount\<close>

text \<open>A relation that holds of the five kinds of write of a webhook request.\<close>

locale hook_writes =
  fixes R :: "hook_world \<Rightarrow> hook_world \<Rightarrow> bool"
  assumes same_R: "R w w" and receipt_R: "R w (fst (create_receipt fresh t provider eventId resource w))"
    and event_R: "R w (fst (createWebhookDeliveryEvent sc f1 f2 provider eventId inp w))"
    and mail_R: "keeps (\<lambda>s s'. \<forall>w. hw_mail w = s \<longrightarrow> R w (w\<lparr>hw_mail := s'\<rparr>)) (ingestS3Object env bucket key recipients timestamp)"
    and certs_R: "R w (w\<lparr>hw_certs := cs\<rparr>)"
begin

lemma scopes_keeps: "keeps R (scopesFor addrs)"
  unfolding scopesFor_def by (auto intro!: keeps_call_with same_R)

lemma find_loop_keeps: "keeps R (find_loop provider eventId first ts)"
  by (induction ts arbitrary: first) (auto intro!: keeps_call_with same_R split: option.split)

lemma find_keeps: "keeps R (ledger_find c provider eventId)"
  by (simp add: ledger_find_def find_loop_keeps)

lemma record_keeps: "keeps R (record_loop hm provider eventId resource n ts)"
  by (induction ts arbitrary: n) (auto intro!: keeps_call_with keeps_sequence keeps_store_call same_R receipt_R)

lemma event_loop_keeps: "keeps R (event_loop hm provider event eventId n first ts)"
  by (induction ts arbitrary: n first)
    (auto simp: Let_def intro!: keeps_call_with keeps_sequence keeps_store_call same_R event_R)

lemma sink_keeps: "keeps R (selfHostedDeliveryEventSink hm provider scopes event eventId)"
  unfolding selfHostedDeliveryEventSink_def by (auto intro!: keeps_sequence event_loop_keeps)

lemma ingest_keeps: "keeps R (selfHostedSesIngest hm mappings scopes r)"
  unfolding selfHostedSesIngest_def
  by (auto intro!: keeps_sequence embed_keeps [OF mail_R] split: sum.split)

lemma verify_keeps: "keeps R (sns_check hm body)"
proof -
  have "keeps (\<lambda>_ _. True) (verifyAwsSnsSignature (hm_sns hm) body)"
    unfolding verifyAwsSnsSignature_def by (auto intro!: keeps_call_with split: option.split)
  then show ?thesis unfolding sns_check_def by (rule embed_keeps) (rule certs_R)
qed

end

sublocale hook_writes \<subseteq> mount: ledger_steps R "receipt_ledger hm" for hm
  by unfold_locales (simp_all add: receipt_ledger_def scopes_keeps find_keeps record_keeps)

sublocale hook_writes \<subseteq> ses: ses_steps R "mounted_ses hm mappings" for hm mappings
  by unfold_locales
    (auto simp: mounted_ses_def receipt_ledger_def scopes_keeps find_keeps record_keeps ingest_keeps sink_keeps verify_keeps
      intro!: keeps_call_with same_R)

context hook_writes begin

lemma ses_handler_keeps: "keeps R (handleSelfHostedSesWebhook hm rq)"
  unfolding handleSelfHostedSesWebhook_def by (auto simp: ses.receive_keeps split: sum.split)

end

text \<open>Resend mail is upserted.\<close>

locale upsert_writes = hook_writes +
  assumes upsert_R: "R w (w\<lparr>hw_mail := fst (upsertMessage sc now fresh i (hw_mail w))\<rparr>)"
begin

lemma upsert_keeps: "keeps R (resend_upsert hm p n g)"
proof -
  let ?f = "\<lambda>received sender. upsertMessage (forTenant (hm_scope hm) (rg_tenant g)) (hp_now (hm_platform hm)) (hm_uuid hm n)
     (resend_input hm p sender (rg_recipients g) received)"
  have "keeps (\<lambda>s s'. \<forall>w. hw_mail w = s \<longrightarrow> R w (w\<lparr>hw_mail := s'\<rparr>)) (call (?f received sender))" for received sender
    by (rule keeps_call) (use upsert_R in blast)
  then have "keeps R (in_mail (call (?f received sender)) Hook_Store)" for received sender by (rule embed_keeps) simp
  then show ?thesis unfolding resend_upsert_def
    by (auto intro!: keeps_sequence keeps_store_call same_R split: sum.split option.split)
qed

lemma resend_loop_keeps: "keeps R (resend_loop hm p n first gs)"
  by (induction gs arbitrary: n first) (auto intro!: keeps_sequence upsert_keeps)

lemma inbound_keeps: "keeps R (selfHostedResendInboundSink hm scopes p eventId)"
  unfolding selfHostedResendInboundSink_def by (auto intro!: keeps_sequence keeps_call_with same_R resend_loop_keeps)

end

sublocale upsert_writes \<subseteq> resend: resend_steps R "mounted_resend hm" for hm
  by unfold_locales
    (auto simp: mounted_resend_def receipt_ledger_def scopes_keeps find_keeps record_keeps inbound_keeps sink_keeps)

context upsert_writes begin

lemma resend_handler_keeps: "keeps R (handleSelfHostedResendWebhook hm rq)"
  unfolding handleSelfHostedResendWebhook_def by (rule resend.receive_keeps)

end

section \<open>Unique rows\<close>

definition hook_ok :: "hook_world \<Rightarrow> bool" where
  "hook_ok w \<longleftrightarrow> mail_ok (hw_mail w) \<and> distinct (map wr_id (hw_receipts w))
     \<and> distinct (map (\<lambda>r. (wr_tenant r, wr_provider r, wr_event_id r)) (hw_receipts w))
     \<and> distinct (map ev_id (hw_events w))
     \<and> distinct (map (\<lambda>e. (ev_tenant e, ev_provider_event_id e)) (filter (\<lambda>e. ev_provider_event_id e \<noteq> None) (hw_events w)))"

lemma hook_ok_receipt: "hook_ok w \<Longrightarrow> hook_ok (fst (create_receipt fresh t provider eventId resource w))"
  by (auto simp: hook_ok_def create_receipt_def receipt_at_def)

lemma hook_ok_event: "hook_ok w \<Longrightarrow> hook_ok (fst (insert_event fresh t eventId inp w))"
  by (auto simp: hook_ok_def insert_event_def event_at_def find_None_iff split: option.split)

lemma create_delivery_cases:
  "(\<exists>e. createWebhookDeliveryEvent sc f1 f2 provider eventId inp w = (w, Inl e))
   \<or> (\<exists>w1 w2 i. insert_event f1 (sc_tenant sc) eventId inp w = (w1, Inr i)
        \<and> ensure_receipt f2 (sc_tenant sc) provider eventId (Some i) w1 = (w2, Inr ())
        \<and> createWebhookDeliveryEvent sc f1 f2 provider eventId inp w = (w2, Inr i))"
  unfolding createWebhookDeliveryEvent_def by (auto split: prod.split sum.split)

lemma hook_ok_delivery: "hook_ok w \<Longrightarrow> hook_ok (fst (createWebhookDeliveryEvent sc f1 f2 provider eventId inp w))"
proof -
  assume w: "hook_ok w"
  consider (failed) e where "createWebhookDeliveryEvent sc f1 f2 provider eventId inp w = (w, Inl e)"
    | (stored) w1 w2 i where "insert_event f1 (sc_tenant sc) eventId inp w = (w1, Inr i)"
        "ensure_receipt f2 (sc_tenant sc) provider eventId (Some i) w1 = (w2, Inr ())"
        "createWebhookDeliveryEvent sc f1 f2 provider eventId inp w = (w2, Inr i)"
    using create_delivery_cases [of sc f1 f2 provider eventId inp w] by blast
  then show ?thesis
  proof cases
    case stored
    have "hook_ok w1" using hook_ok_event [OF w, of f1 "sc_tenant sc" eventId inp] stored(1) by simp
    then have "hook_ok (fst (ensure_receipt f2 (sc_tenant sc) provider eventId (Some i) w1))"
      by (simp add: ensure_receipt_def hook_ok_receipt)
    with stored show ?thesis by simp
  qed (use w in simp)
qed

lemma mail_ok_update:
  assumes "mail_ok s" and "\<And>m. m_id (f m) = m_id m \<and> m_tenant (f m) = m_tenant m \<and> m_source_id (f m) = m_source_id m \<and> m_key (f m) = m_key m"
  shows "mail_ok (s\<lparr>ms_db := fst (update_message P f (ms_db s))\<rparr>)"
proof -
  let ?g = "\<lambda>m. if P m then f m else m"
  have g: "m_id (?g m) = m_id m" "m_tenant (?g m) = m_tenant m" "m_source_id (?g m) = m_source_id m" "m_key (?g m) = m_key m" for m
    using assms(2) by simp_all
  show ?thesis using assms(1)
    by (simp add: mail_ok_def schema_ok_def ids_unique_def keys_unique_def filter_map comp_def g)
qed

lemma mail_ok_upsert: "mail_ok s \<Longrightarrow> mail_ok (fst (upsertMessage sc now fresh i s))"
proof -
  assume s: "mail_ok s"
  let ?e = "message_of_input fresh now (sc_tenant sc) i"
  let ?P = "\<lambda>m. m_tenant m = sc_tenant sc \<and> m_source_id m = mi_source_id i"
  have u: "mail_ok (s\<lparr>ms_db := fst (update_message ?P (messageUpsertAssignments now i ?e) (ms_db s))\<rparr>)"
    by (rule mail_ok_update [OF s]) (simp add: messageUpsertAssignments_def)
  have a: "mail_ok (s\<lparr>ms_db := (ms_db s)\<lparr>messages := messages (ms_db s) @ [?e]\<rparr>\<rparr>)"
    if "find ?P (messages (ms_db s)) = None" "\<not> row_violates ?e (messages (ms_db s))"
    by (rule mail_ok_append [OF s that(2)])
      (use that(1) in \<open>auto simp: find_None_iff source_taken_def message_of_input_def\<close>)
  show ?thesis using s u a by (auto simp: upsertMessage_def Let_def split: option.split)
qed

lemma hook_ok_mail: "hook_ok w \<Longrightarrow> (mail_ok (hw_mail w) \<Longrightarrow> mail_ok s) \<Longrightarrow> hook_ok (w\<lparr>hw_mail := s\<rparr>)"
  by (simp add: hook_ok_def)

interpretation unique_hooks: upsert_writes "\<lambda>w w'. hook_ok w \<longrightarrow> hook_ok w'"
proof unfold_locales
  fix env bucket key recipients timestamp
  show "keeps (\<lambda>s s'. \<forall>w. hw_mail w = s \<longrightarrow> hook_ok w \<longrightarrow> hook_ok (w\<lparr>hw_mail := s'\<rparr>))
      (ingestS3Object env bucket key recipients timestamp)"
    by (rule keeps_mono [OF uniqueness.ingest_keeps]) (auto intro: hook_ok_mail)
qed (auto simp: hook_ok_receipt hook_ok_delivery intro: hook_ok_mail mail_ok_upsert, simp_all add: hook_ok_def)

text \<open>
  C8. Concurrent and repeated webhook requests leave the unique rows unique: every awaited
  step of both receivers, in whatever state it finds, keeps one receipt per tenant, provider
  and event, one delivery event per tenant and event, at most one message of a source per
  tenant, and all ids distinct.
\<close>

theorem webhooks_never_duplicate:
  "keeps (\<lambda>w w'. hook_ok w \<longrightarrow> hook_ok w') (handleSelfHostedSesWebhook hm rq)
   \<and> keeps (\<lambda>w w'. hook_ok w \<longrightarrow> hook_ok w') (handleSelfHostedResendWebhook hm rq)"
  using unique_hooks.ses_handler_keeps unique_hooks.resend_handler_keeps by blast

end
