(* ===== verification/Webhook_Trust.thy ===== *)
theory Webhook_Trust
  imports Webhook_Facts
begin

text \<open>
  Nobody without a valid signature writes anything through a webhook.  The certificates that
  the SNS check may use are those a predicate \<open>T\<close> of address and certificate trusts: what
  the network gives for a genuine AWS address, and what the cache holds.
\<close>

section \<open>Trusted certificates\<close>

definition trusted_cache :: "(string \<Rightarrow> string \<Rightarrow> bool) \<Rightarrow> hook_world \<Rightarrow> bool" where
  "trusted_cache T w \<longleftrightarrow> (\<forall>c \<in> set (hw_certs w). T (cc_url c) (cc_certificate c))"

definition trusted_fetch :: "(string \<Rightarrow> string \<Rightarrow> bool) \<Rightarrow> sns_verifier \<Rightarrow> bool" where
  "trusted_fetch T v \<longleftrightarrow> (\<forall>x u c. canonicalSnsCertificateUrl (sv_parse_url v) x = Some u \<longrightarrow> sv_fetch v u = Some c \<longrightarrow> T u c)"

definition hook_tables :: "hook_world \<Rightarrow> mail_store \<times> event_row list \<times> receipt_row list" where
  "hook_tables w = (hw_mail w, hw_events w, hw_receipts w)"

text \<open>No trusted certificate verifies the message.\<close>

definition unsigned :: "(string \<Rightarrow> string \<Rightarrow> bool) \<Rightarrow> sns_verifier \<Rightarrow> json \<Rightarrow> bool" where
  "unsigned T v body \<longleftrightarrow> (\<forall>canonical u signature version cert.
     sns_envelope v body = Some (canonical, u, signature, version) \<longrightarrow> T u cert
     \<longrightarrow> sv_rsa v version cert canonical signature \<noteq> Some True)"

definition ses_forged :: "(string \<Rightarrow> string \<Rightarrow> bool) \<Rightarrow> hook_mount \<Rightarrow> hook_request \<Rightarrow> bool" where
  "ses_forged T hm rq \<longleftrightarrow> (\<forall>body policy. readJsonObject (hm_platform hm) rq = Inr body
     \<longrightarrow> snsPolicyFromEnv (hp_vars (hm_platform hm)) = Inr policy \<longrightarrow> snsMessageAllowed body policy
     \<longrightarrow> unsigned T (hm_sns hm) body)"

definition resend_forged :: "hook_mount \<Rightarrow> hook_request \<Rightarrow> bool" where
  "resend_forged hm rq \<longleftrightarrow> \<not> verifyResendSignature (hp_mac (hm_platform hm)) (hp_now (hm_platform hm)) (hq_text rq)
     (hq_header rq) (or_default (hp_vars (hm_platform hm) ''RESEND_WEBHOOK_SECRET'') [])"

lemma envelope_address: "sns_envelope v m = Some e \<Longrightarrow> \<exists>x. canonicalSnsCertificateUrl (sv_parse_url v) x = Some (fst (snd e))"
  by (auto simp: sns_envelope_def split: option.splits if_splits)

text \<open>Reading the cache hands out a trusted certificate and leaves trusted ones.\<close>

lemma cached_trusted:
  assumes "\<forall>c \<in> set cache. T (cc_url c) (cc_certificate c)"
  shows "\<forall>c \<in> set (fst (getCachedCertificate u now cache)). T (cc_url c) (cc_certificate c)"
    and "snd (getCachedCertificate u now cache) = Some cert \<Longrightarrow> T u cert"
  using assms by (auto simp: getCachedCertificate_def without_url_def split: option.splits if_splits dest!: find_SomeD)

lemma unsigned_fails:
  assumes "unsigned T v body" and "sns_envelope v body = Some e" and "T (fst (snd e)) cert"
  shows "check_signature v e fetched cert cache = (cache, False)"
  using assms by (cases e) (auto simp: check_signature_def unsigned_def split: option.split)

section \<open>Steps and outcomes\<close>

text \<open>
  Every step of a program keeps \<open>R\<close> when it finds \<open>P\<close>, and along such steps the outcome is
  in \<open>V\<close>.
\<close>

inductive ends_in :: "('s \<Rightarrow> bool) \<Rightarrow> ('s \<Rightarrow> 's \<Rightarrow> bool) \<Rightarrow> ('e + 'a \<Rightarrow> bool) \<Rightarrow> ('s, 'e, 'a) prog \<Rightarrow> bool" for P R V where
  ends_return: "V (Inr a) \<Longrightarrow> ends_in P R V (Return a)"
| ends_raise: "V (Inl e) \<Longrightarrow> ends_in P R V (Raise e)"
| ends_await: "(\<And>s. P s \<Longrightarrow> R s (fst (g s)) \<and> ends_in P R V (snd (g s))) \<Longrightarrow> ends_in P R V (Await g)"

inductive_simps ends_simps [simp]: "ends_in P R V (Return a)" "ends_in P R V (Raise e)"
inductive_cases ends_AwaitE: "ends_in P R V (Await g)"

lemma ends_keeps_in: "ends_in P R V p \<Longrightarrow> keeps_in P R p"
  by (induction rule: ends_in.induct) (auto intro: keeps_in.intros)

lemma ends_call_with:
  "(\<And>s. P s \<Longrightarrow> R s (fst (f s))) \<Longrightarrow> (\<And>s. P s \<Longrightarrow> ends_in P R V (k (snd (f s)))) \<Longrightarrow> ends_in P R V (call_with f k)"
  unfolding call_with_def by (rule ends_await) (simp add: case_prod_beta)

lemma ends_attempt:
  "ends_in P R V p \<Longrightarrow> (\<And>x. V x \<Longrightarrow> W (Inr x)) \<Longrightarrow> ends_in P R W (attempt p)"
  by (induction rule: ends_in.induct) (simp_all add: ends_await)

lemma ends_bind:
  assumes "ends_in P R V p" and "\<And>e. V (Inl e) \<Longrightarrow> W (Inl e)" and "\<And>a. V (Inr a) \<Longrightarrow> ends_in P R W (f a)"
  shows "ends_in P R W (bind p f)"
  using assms(1) by induction (simp_all add: assms(2,3) ends_await)

lemma ends_execs:
  assumes "execs E p s r s'" and "ends_in P R V p" and "P s"
    and "\<And>s1 s2. E s1 s2 \<Longrightarrow> P s1 \<Longrightarrow> P s2" and "\<And>s1 s2. R s1 s2 \<Longrightarrow> P s1 \<Longrightarrow> P s2"
  shows "V r"
  using assms(1-3)
proof induction
  case (own g s s1 p r s')
  have "R s (fst (g s)) \<and> ends_in P R V (snd (g s))"
    using own.prems(1) by (rule ends_AwaitE) (use own.prems(2) in simp)
  with own assms(5) show ?case by force
qed (use assms(4) in auto)

text \<open>What follows the check runs with its refusal.\<close>

lemma check_then:
  assumes "unsigned T (hm_sns hm) body" and "trusted_fetch T (hm_sns hm)"
    and k: "ends_in (trusted_cache T) R V (k False)"
    and R: "\<And>w cs. trusted_cache T w \<Longrightarrow> trusted_cache T (w\<lparr>hw_certs := cs\<rparr>) \<Longrightarrow> R w (w\<lparr>hw_certs := cs\<rparr>)"
  shows "ends_in (trusted_cache T) R V (bind (sns_check hm body) k)"
proof (cases "sns_envelope (hm_sns hm) body")
  case None
  then show ?thesis using k by (simp add: sns_check_def verifyAwsSnsSignature_def)
next
  case (Some e)
  let ?v = "hm_sns hm"
  have same: "R w w" if "trusted_cache T w" for w using R [of w "hw_certs w"] that by simp
  have check: "ends_in (trusted_cache T) R V (bind (embed hw_certs (\<lambda>s w. w\<lparr>hw_certs := s\<rparr>) id
      (call_with (check_signature ?v e fetched cert) Return)) k)" if "T (fst (snd e)) cert" for fetched cert
    unfolding embed_call_with bind_call_with unsigned_fails [OF assms(1) Some that] fst_conv snd_conv
    by (rule ends_call_with) (simp_all add: k same)
  have fetched: "T (fst (snd e)) cert" if "fetched_certificate ?v (fst (snd e)) = Some cert" for cert
    using that envelope_address [OF Some] assms(2)
    by (auto simp: fetched_certificate_def trusted_fetch_def split: option.splits if_splits)
  show ?thesis
    unfolding sns_check_def verifyAwsSnsSignature_def Some option.case embed_call_with bind_call_with
  proof (rule ends_call_with, goal_cases)
    case (1 w)
    then show ?case unfolding fst_conv
      by (intro R) (use cached_trusted(1) [of "hw_certs w" T] in \<open>auto simp: trusted_cache_def\<close>)
  next
    case (2 w)
    then show ?case using cached_trusted(2) [of "hw_certs w" T "fst (snd e)" "sv_now ?v"] k fetched
      by (auto simp: trusted_cache_def or_default_def intro!: check split: option.splits)
  qed
qed

section \<open>Refusals\<close>

abbreviation idle :: "(string \<Rightarrow> string \<Rightarrow> bool) \<Rightarrow> hook_world \<Rightarrow> hook_world \<Rightarrow> bool" where
  "idle T w w' \<equiv> hook_tables w' = hook_tables w \<and> trusted_cache T w'"

abbreviation refused :: "hook_error + hook_reply \<Rightarrow> bool" where
  "refused r \<equiv> (\<forall>reply. r = Inr reply \<longrightarrow> 400 \<le> rp_status reply)"

lemma error_status [simp]: "rp_status (hook_error_reply n t) = n"
  by (simp add: hook_error_reply_def hook_json_def)

lemma read_refused: "readJsonObject pf rq = Inl reply \<Longrightarrow> 400 \<le> rp_status reply"
  by (auto simp: readJsonObject_def split: if_splits option.splits json.splits)

lemma gate_refused: "ses_gate deps pf rq body = Inr (Some reply) \<Longrightarrow> 400 \<le> rp_status reply"
  by (auto simp: ses_gate_def Let_def split: if_splits sum.splits bool.splits)

lemma gate_policy: "ses_gate deps pf rq body = Inr None \<Longrightarrow> \<exists>policy. snsPolicyFromEnv (hp_vars pf) = Inr policy \<and> snsMessageAllowed body policy"
  by (auto simp: ses_gate_def Let_def split: if_splits sum.splits bool.splits)

lemma thrown_refused: "400 \<le> rp_status (thrown_reply e)"
  by (auto simp: thrown_reply_def split: hook_error.split store_error.split)

lemma forged_ses_ends:
  assumes "ses_forged T hm rq" and "trusted_fetch T (hm_sns hm)"
  shows "ends_in (trusted_cache T) (idle T) refused (handleSelfHostedSesWebhook hm rq)"
proof -
  have "ends_in (trusted_cache T) (idle T) refused (receiveSesNotification (mounted_ses hm mappings) (hm_platform hm) rq)" for mappings
  proof -
    have "ends_in (trusted_cache T) (idle T) refused
        (bind (sns_check hm body) (\<lambda>valid. if valid then k valid else Return (hook_error_reply 401 what)))"
      if "readJsonObject (hm_platform hm) rq = Inr body" "ses_gate (mounted_ses hm mappings) (hm_platform hm) rq body = Inr None" for body k what
      by (rule check_then) (use assms that gate_policy [OF that(2)] in \<open>auto simp: ses_forged_def hook_tables_def\<close>)
    then show ?thesis unfolding receiveSesNotification_def
      by (auto simp: mounted_ses_def read_refused gate_refused split: sum.split option.split)
  qed
  then show ?thesis unfolding handleSelfHostedSesWebhook_def by (auto split: sum.split)
qed

lemma forged_resend_ends: "resend_forged hm rq \<Longrightarrow> ends_in P R refused (handleSelfHostedResendWebhook hm rq)"
  unfolding handleSelfHostedResendWebhook_def receiveResendEvent_def mounted_resend_def
  by (auto simp: resend_forged_def read_refused Let_def split: sum.split)

text \<open>
  C4. A webhook request without a valid signature changes nothing and is refused.  When no
  trusted certificate verifies the SNS message, or its topic or account is not on the list,
  or the Svix signature is not the HMAC of the body under the configured secret, no awaited
  step writes the mailbox, the events or the receipts, the certificate cache keeps trusted
  certificates only, and the answer is 400 or above, whatever else runs meanwhile.
\<close>

theorem forged_webhook_changes_nothing:
  assumes "webhook_route hm path verb rq = Some p"
    and "path = SES_INBOUND_V1_WEBHOOK_PATH \<Longrightarrow> ses_forged T hm rq \<and> trusted_fetch T (hm_sns hm)"
    and "path = RESEND_INBOUND_V1_WEBHOOK_PATH \<Longrightarrow> resend_forged hm rq"
  shows "keeps_in (trusted_cache T) (\<lambda>w w'. hook_tables w' = hook_tables w \<and> trusted_cache T w') p
    \<and> (\<forall>E w r w'. (\<forall>w1 w2. E w1 w2 \<longrightarrow> trusted_cache T w1 \<longrightarrow> trusted_cache T w2) \<longrightarrow> trusted_cache T w
        \<longrightarrow> execs E p w r w' \<longrightarrow> (\<forall>reply. r = Inr reply \<longrightarrow> 400 \<le> rp_status reply))"
proof -
  have paths: "SES_INBOUND_V1_WEBHOOK_PATH \<noteq> RESEND_INBOUND_V1_WEBHOOK_PATH"
    by (simp add: SES_INBOUND_V1_WEBHOOK_PATH_def RESEND_INBOUND_V1_WEBHOOK_PATH_def)
  let ?h = "if path = SES_INBOUND_V1_WEBHOOK_PATH then handleSelfHostedSesWebhook hm rq else handleSelfHostedResendWebhook hm rq"
  have h: "ends_in (trusted_cache T) (idle T) refused ?h" if "path \<in> {SES_INBOUND_V1_WEBHOOK_PATH, RESEND_INBOUND_V1_WEBHOOK_PATH}"
    using that assms(2,3) paths forged_ses_ends forged_resend_ends by auto
  have "ends_in (trusted_cache T) (idle T) refused
      (bind (attempt ?h) (\<lambda>r. case r of Inl e \<Rightarrow> Return (thrown_reply e) | Inr reply \<Rightarrow> Return reply))"
    if "path \<in> {SES_INBOUND_V1_WEBHOOK_PATH, RESEND_INBOUND_V1_WEBHOOK_PATH}"
    by (rule ends_bind [OF ends_attempt [OF h [OF that], where W = "\<lambda>x. \<forall>y. x = Inr y \<longrightarrow> refused y"]])
      (auto simp: thrown_refused split: sum.split)
  then have "ends_in (trusted_cache T) (idle T) refused p"
    using assms(1) by (auto simp: webhook_route_def split: if_splits)
  then show ?thesis using ends_keeps_in ends_execs [where P = "trusted_cache T" and R = "idle T" and V = refused] by blast
qed

end
