(* ===== verification/Webhook_Contract.thy ===== *)
theory Webhook_Contract
  imports Webhook_Trust
begin

text \<open>
  What the receivers promise over any ledger and sinks that keep their contracts: an event
  that is acknowledged, and not declared ignored, has its receipt in the cached scopes of its
  envelope, and unless it is answered as a duplicate its data is stored.  \<open>E\<close> is what
  other requests may do meanwhile.
\<close>

section \<open>Assertions along a sequence\<close>

lemma execs_keeps_stable:
  assumes "execs E p s r s'" and "keeps E p" and "stable E J" and "J s"
  shows "J s'"
proof -
  have "J s \<longrightarrow> J s'"
    by (rule execs_keeps [OF assms(1), where R = "\<lambda>s s'. J s \<longrightarrow> J s'"])
      (use assms in \<open>auto simp: stable_def intro: keeps_mono\<close>)
  with assms(4) show ?thesis by simp
qed

lemma holds_frame:
  assumes "holds E I p Q" and "keeps E p" and "stable E J" and "\<And>s. J s \<Longrightarrow> I s"
  shows "holds E J p (\<lambda>r s. J s \<and> Q r s)"
  unfolding holds_def
proof (intro allI impI)
  fix s r s' assume "J s" and x: "execs E p s r s'"
  with execs_keeps_stable [OF x assms(2,3)] holdsD [OF assms(1) _ x] assms(4) show "J s' \<and> Q r s'" by simp
qed

lemma holds_seq:
  assumes "holds E I p Q" and "keeps E p" and "stable E J" and "\<And>s. J s \<Longrightarrow> I s"
    and "\<And>e s. W (Inl e) s" and "\<And>a. holds E (\<lambda>s. J s \<and> Q (Inr a) s) (f a) W"
  shows "holds E J (bind p f) W"
  by (rule holds_bind [OF holds_frame [OF assms(1-4)]]) (use assms(5,6) in auto)

lemma holds_error: "stable E J \<Longrightarrow> (\<And>s. W (Inl e) s) \<Longrightarrow> holds E J (Raise e) W"
  by (rule holds_Raise)

section \<open>Acknowledgements\<close>

definition acknowledged :: "hook_reply \<Rightarrow> bool" where
  "acknowledged reply \<longleftrightarrow> rp_status reply = 200 \<and> json_key (rp_body reply) ''ignored'' = None"

definition is_duplicate :: "hook_reply \<Rightarrow> bool" where
  "is_duplicate reply \<longleftrightarrow> json_key (rp_body reply) ''duplicate'' \<noteq> None"

lemma refused_unacknowledged: "400 \<le> rp_status reply \<Longrightarrow> \<not> acknowledged reply"
  by (simp add: acknowledged_def)

lemma reply_marks [simp]:
  "acknowledged (ignored_reply why fs) = False" "acknowledged (unscoped_reply what event) = False"
  "is_duplicate (duplicate_reply i)" "is_duplicate (found_reply i' fs)"
  by (auto simp: acknowledged_def is_duplicate_def ignored_reply_def unscoped_reply_def duplicate_reply_def
      found_reply_def ok_reply_def hook_json_def json_key_def map_add_def split: option.split)

text \<open>The scopes are marked, and the data is there unless the event was seen before.\<close>

abbreviation done_reply :: "('w \<Rightarrow> bool) \<Rightarrow> ('w \<Rightarrow> bool) \<Rightarrow> hook_error + hook_reply \<Rightarrow> 'w \<Rightarrow> bool" where
  "done_reply M S r w \<equiv> (\<forall>reply. r = Inr reply \<longrightarrow> acknowledged reply \<longrightarrow> M w \<and> S w)"

locale ledger_contract = ledger_steps E L for E :: "'w \<Rightarrow> 'w \<Rightarrow> bool" and L :: "('w, 'c) hook_ledger" +
  fixes I :: "'w \<Rightarrow> bool" and opened :: "string list \<Rightarrow> 'c \<Rightarrow> bool"
    and marked :: "'c \<Rightarrow> string \<Rightarrow> string \<Rightarrow> 'w \<Rightarrow> bool" and live :: "'c \<Rightarrow> bool"
  assumes I_stable: "stable E I" and marked_stable: "stable E (marked c provider i)"
    and open_law: "holds E I (wl_open L addrs) (\<lambda>r w. \<forall>c. r = Inr c \<longrightarrow> opened addrs c)"
    and find_law: "holds E I (wl_find L c provider i) (\<lambda>r w. \<forall>x. r = Inr (Some x) \<longrightarrow> live c \<and> marked c provider i w)"
    and record_law: "holds E I (wl_record L c provider i resource) (\<lambda>r w. \<forall>x. r = Inr x \<longrightarrow> marked c provider i w)"
begin

lemma open_find_holds:
  assumes "\<And>c found. opened addrs c \<Longrightarrow> (found \<noteq> None \<Longrightarrow> live c) \<Longrightarrow> holds E (\<lambda>w. I w \<and> (found \<noteq> None \<longrightarrow> marked c provider i w)) (k c found) W"
    and "\<And>e w. W (Inl e) w"
  shows "holds E I (bind (wl_open L addrs) (\<lambda>c. bind (wl_find L c provider i) (k c))) W"
proof (rule holds_seq [OF open_law open_R I_stable])
  fix c
  show "holds E (\<lambda>w. I w \<and> (\<forall>c'. Inr c = Inr c' \<longrightarrow> opened addrs c')) (bind (wl_find L c provider i) (k c)) W"
  proof (cases "opened addrs c")
    case True
    have "holds E (\<lambda>w. I w \<and> (\<forall>x. Inr found = Inr (Some x) \<longrightarrow> live c \<and> marked c provider i w)) (k c found) W" for found
    proof (cases "found \<noteq> None \<longrightarrow> live c")
      case live: True
      show ?thesis by (rule holds_pre [OF assms(1) [OF True]]) (use live in auto)
    qed (auto simp: holds_def)
    then have "holds E I (bind (wl_find L c provider i) (k c)) W"
      by (intro holds_seq [OF find_law find_R I_stable]) (simp_all add: assms(2))
    then show ?thesis by (rule holds_pre) simp
  qed (simp add: holds_def)
qed (simp_all add: assms(2))

lemma record_unless_holds:
  assumes "stable E J" and "\<And>w. J w \<Longrightarrow> I w" and "\<And>w. J w \<Longrightarrow> S w" and "\<And>w. J w \<Longrightarrow> b \<Longrightarrow> marked c provider i w"
  shows "holds E J (record_unless L b c provider i resource reply) (done_reply (marked c provider i) S)"
proof (cases b)
  case True
  then show ?thesis using assms by (auto simp: record_unless_def intro!: holds_Return)
next
  case False
  have "holds E J (bind (wl_record L c provider i resource) (\<lambda>_. Return reply)) (done_reply (marked c provider i) S)"
  proof (rule holds_seq [OF record_law record_R assms(1,2)], simp_all)
    show "holds E (\<lambda>s. J s \<and> marked c provider i s) (Return reply) (done_reply (marked c provider i) S)"
      by (rule holds_Return) (auto simp: assms(3) intro: stable_conj assms(1) marked_stable)
  qed
  with False show ?thesis by (simp add: record_unless_def)
qed

text \<open>What a sink's outcome is answered with.\<close>

lemma outcome_holds:
  assumes "stable E S" and "\<not> acknowledged none"
  shows "holds E (\<lambda>w. I w \<and> (\<forall>o'. stored = Some o' \<longrightarrow> S w \<and> (wp_receipt_recorded o' \<longrightarrow> marked c provider i w)))
     (case stored of None \<Rightarrow> Return none
      | Some o' \<Rightarrow> record_unless L (wp_receipt_recorded o') c provider i (Some (wp_id o')) (reply o'))
     (done_reply (marked c provider i) S)"
proof (cases stored)
  case None
  then show ?thesis using assms(2) by (auto intro!: holds_Return I_stable)
next
  case (Some o')
  show ?thesis unfolding Some option.case option.inject
    by (rule record_unless_holds) (auto intro!: stable_conj stable_imp I_stable assms(1) marked_stable)
qed

end

section \<open>Resend\<close>

definition resend_addresses :: "hook_platform \<Rightarrow> json \<Rightarrow> string list" where
  "resend_addresses pf event =
     (if isResendInboundEvent event then map recipient_text (pi_to (parseResendInboundEvent (hp_now_text pf) event))
      else (case opt_prop (json_key event ''data'') ''from'' of
              Some (JStr t) \<Rightarrow> if t \<noteq> [] then [t] else [] | _ \<Rightarrow> []))"

lemma resend_event_header: "header_text (hq_header rq) ''svix-id'' \<noteq> [] \<Longrightarrow> resend_event_id rq v = header_text (hq_header rq) ''svix-id''"
  by (auto simp: resend_event_id_def header_text_def or_default_def split: option.splits)

lemma verified_header: "verifyResendSignature mac now body headers secret \<Longrightarrow> header_text headers ''svix-id'' \<noteq> []"
  by (auto simp: verifyResendSignature_def Let_def split: if_splits)

locale resend_contract = ledger_contract E "rd_ledger deps" I opened marked live + steps: resend_steps E deps
  for E :: "'w \<Rightarrow> 'w \<Rightarrow> bool" and deps :: "('w, 'c) resend_deps" and I opened marked live +
  fixes mail_in :: "'c \<Rightarrow> json \<Rightarrow> 'w \<Rightarrow> bool" and event_in :: "'c \<Rightarrow> string \<Rightarrow> 'w \<Rightarrow> bool"
  assumes mail_stable: "stable E (mail_in c v)" and event_stable: "stable E (event_in c i)"
    and mail_live: "mail_in c v w \<Longrightarrow> live c" and event_live: "event_in c i w \<Longrightarrow> live c"
    and inbound_law: "opened (map recipient_text (pi_to p)) c \<Longrightarrow> holds E I (rd_inbound deps c p i)
      (\<lambda>r w. \<forall>o'. r = Inr (Some o') \<longrightarrow> mail_in c (pi_provider_message_id p) w
        \<and> (wp_receipt_recorded o' \<longrightarrow> marked c ''resend'' i w))"
    and event_law: "holds E I (rd_event deps c e i)
      (\<lambda>r w. \<forall>o'. r = Inr (Some o') \<longrightarrow> event_in c i w \<and> (wp_receipt_recorded o' \<longrightarrow> marked c ''resend'' i w))"
begin

definition stored_in :: "hook_platform \<Rightarrow> json \<Rightarrow> string \<Rightarrow> 'c \<Rightarrow> 'w \<Rightarrow> bool" where
  "stored_in pf event i c w =
     (if isResendInboundEvent event then mail_in c (pi_provider_message_id (parseResendInboundEvent (hp_now_text pf) event)) w
      else event_in c i w)"

abbreviation resend_done :: "hook_platform \<Rightarrow> json \<Rightarrow> string \<Rightarrow> hook_error + hook_reply \<Rightarrow> 'w \<Rightarrow> bool" where
  "resend_done pf event i r w \<equiv> (\<forall>reply. r = Inr reply \<longrightarrow> acknowledged reply \<longrightarrow>
     (\<exists>c. opened (resend_addresses pf event) c \<and> live c \<and> marked c ''resend'' i w \<and> (\<not> is_duplicate reply \<longrightarrow> stored_in pf event i c w)))"

lemma done_weaken:
  assumes "holds E J p (done_reply (marked c ''resend'' i) (stored_in pf event i c))" and "opened (resend_addresses pf event) c"
  shows "holds E J p (resend_done pf event i)"
  proof (rule holds_weaken [OF assms(1)])
  fix r w assume d: "done_reply (marked c ''resend'' i) (stored_in pf event i c) r w"
  have "live c" if "stored_in pf event i c w"
    using that mail_live event_live by (auto simp: stored_in_def split: if_splits)
  with d assms(2) show "resend_done pf event i r w" by blast
qed

lemma found_holds:
  assumes "opened (resend_addresses pf event) c" and "live c" and "is_duplicate reply"
  shows "holds E (\<lambda>w. I w \<and> (Some x \<noteq> None \<longrightarrow> marked c ''resend'' i w)) (Return reply) (resend_done pf event i)"
  by (rule holds_Return) (use assms in \<open>auto intro!: stable_conj stable_imp I_stable marked_stable\<close>)

lemma inbound_holds:
  assumes "isResendInboundEvent event" and "header_text (hq_header rq) ''svix-id'' = i" and "i \<noteq> []"
  shows "holds E I (resend_inbound deps pf rq event) (resend_done pf event i)"
proof -
  let ?p = "parseResendInboundEvent (hp_now_text pf) event"
  have i: "resend_event_id rq v = i" for v using resend_event_header [of rq v] assms(2,3) by simp
  have a: "resend_addresses pf event = map recipient_text (pi_to ?p)" using assms(1) by (simp add: resend_addresses_def)
  have s: "mail_in c (pi_provider_message_id ?p) = stored_in pf event i c" for c
    using assms(1) by (simp add: stored_in_def fun_eq_iff)
  show ?thesis
    unfolding resend_inbound_def Let_def i if_not_P [OF assms(3)]
  proof (rule open_find_holds, goal_cases)
    case (1 c found)
    note op = 1(1) [folded a]
    show ?case
    proof (cases found)
      case (Some x)
      show ?thesis unfolding Some option.case by (rule found_holds [OF op]) (use 1(2) Some in simp_all)
    next
      case None
      have "holds E I (bind (rd_inbound deps c ?p i) (\<lambda>stored. case stored of
            None \<Rightarrow> Return (ignored_reply ''no destination scope for inbound recipients'' [(''message_id'', pi_provider_message_id ?p)])
          | Some o' \<Rightarrow> record_unless (rd_ledger deps) (wp_receipt_recorded o') c ''resend'' i (Some (wp_id o'))
              (ok_reply ((''id'', JStr (wp_id o')) # [(''message_id'', pi_provider_message_id ?p)]))))
          (resend_done pf event i)"
        by (rule holds_seq [OF inbound_law [OF 1(1), unfolded s] steps.inbound_R I_stable], simp_all)
          (rule done_weaken [OF outcome_holds op], simp_all add: mail_stable flip: s)
      then show ?thesis unfolding None option.case by (rule holds_pre) simp
    qed
  qed simp
qed

lemma delivery_holds:
  assumes "\<not> isResendInboundEvent event" and "header_text (hq_header rq) ''svix-id'' = i" and "i \<noteq> []"
  shows "holds E I (resend_delivery deps pf rq event) (resend_done pf event i)"
proof (cases "parseResendWebhook (hp_now_text pf) event i")
  case None
  then show ?thesis unfolding resend_delivery_def assms(2) None option.case by (intro holds_Return I_stable) simp
next
  case (Some e)
  let ?sender = "case opt_prop (json_key event ''data'') ''from'' of Some (JStr t) \<Rightarrow> t | _ \<Rightarrow> []"
  have i: "resend_event_id rq v = i" for v using resend_event_header [of rq v] assms(2,3) by simp
  have a: "resend_addresses pf event = (if ?sender \<noteq> [] then [?sender] else [])"
    using assms(1) by (simp add: resend_addresses_def split: option.split json.split)
  have s: "event_in c i = stored_in pf event i c" for c using assms(1) by (simp add: stored_in_def fun_eq_iff)
  show ?thesis
    unfolding resend_delivery_def assms(2) Some option.case Let_def i if_not_P [OF assms(3)]
  proof (rule open_find_holds, goal_cases)
    case (1 c found)
    note op = 1(1) [folded a]
    show ?case
    proof (cases found)
      case (Some x)
      show ?thesis unfolding Some option.case by (rule found_holds [OF op]) (use 1(2) Some in simp_all)
    next
      case None
      have "holds E I (bind (rd_event deps c e i) (\<lambda>stored. case stored of
            None \<Rightarrow> Return (unscoped_reply ''event'' e)
          | Some o' \<Rightarrow> record_unless (rd_ledger deps) (wp_receipt_recorded o') c ''resend'' i (Some (wp_id o'))
              (event_reply e (wp_id o')))) (resend_done pf event i)"
        by (rule holds_seq [OF event_law [of c e i, unfolded s] steps.event_R I_stable], simp_all)
          (rule done_weaken [OF outcome_holds op], simp_all add: event_stable flip: s)
      then show ?thesis unfolding None option.case by (rule holds_pre) simp
    qed
  qed simp
qed

lemma receive_holds:
  assumes "readJsonObject pf rq = Inr event"
  shows "holds E I (receiveResendEvent deps pf rq) (resend_done pf event (header_text (hq_header rq) ''svix-id''))"
  unfolding receiveResendEvent_def Let_def assms sum.case
  by (auto intro!: holds_Return I_stable inbound_holds delivery_holds simp: refused_unacknowledged dest: verified_header)

end

section \<open>SES\<close>

text \<open>The envelope addresses a verified message is scoped by, and the ingest it asks for.\<close>

definition is_confirmation :: "hook_request \<Rightarrow> json \<Rightarrow> bool" where
  "is_confirmation rq body \<longleftrightarrow> ses_message_type rq body = Some (JStr ''SubscriptionConfirmation'')
     \<and> text_prop body ''SubscribeURL'' \<noteq> None"

definition is_outcome :: "hook_platform \<Rightarrow> json \<Rightarrow> bool" where
  "is_outcome pf body \<longleftrightarrow>
     or_default (text_prop (innerSesNotification pf body) ''notificationType'') [] \<in> {''Bounce'', ''Complaint'', ''Delivery''}"

definition outcome_sender :: "hook_platform \<Rightarrow> json \<Rightarrow> string" where
  "outcome_sender pf body =
     or_default (text_prop (nullish_or (json_key (innerSesNotification pf body) ''mail'') (JObj [])) ''source'') []"

definition parsed_note :: "hook_platform \<Rightarrow> json \<Rightarrow> notification option" where
  "parsed_note pf body = (case parseSesNotification (hp_parse pf) (hp_decode pf)
     (or_default (text_prop body ''Message'') (json_text body)) of Inr n \<Rightarrow> n | Inl _ \<Rightarrow> None)"

definition ses_addresses :: "hook_platform \<Rightarrow> hook_request \<Rightarrow> json \<Rightarrow> string list" where
  "ses_addresses pf rq body =
     (if is_confirmation rq body then []
      else if is_outcome pf body then (if outcome_sender pf body \<noteq> [] then [outcome_sender pf body] else [])
      else (case parsed_note pf body of None \<Rightarrow> [] | Some note \<Rightarrow> or_default (nt_recipients note) []))"

definition note_request :: "inbound_source \<Rightarrow> notification \<Rightarrow> string \<Rightarrow> ses_request" where
  "note_request source note i =
     \<lparr> sr_bucket = or_default (is_bucket source) [], sr_prefix = is_prefix source, sr_region = is_region source,
       sr_object_key = map_option (dropWhile (\<lambda>x. x = CHR ''/'')) (nt_object_key note),
       sr_message_id = nt_message_id note, sr_recipients = or_default (nt_recipients note) [],
       sr_timestamp = nt_timestamp note, sr_event_id = i \<rparr>"

locale ses_contract = ledger_contract E "sd_ledger deps" I opened marked live + steps: ses_steps E deps
  for E :: "'w \<Rightarrow> 'w \<Rightarrow> bool" and deps :: "('w, 'c) ses_deps" and I opened marked live +
  fixes mail_in :: "ses_request \<Rightarrow> 'w \<Rightarrow> bool" and event_in :: "'c \<Rightarrow> string \<Rightarrow> 'w \<Rightarrow> bool"
  assumes mail_stable: "stable E (mail_in q)" and event_stable: "stable E (event_in c i)"
    and ingest_law: "holds E I (sd_ingest deps c q)
      (\<lambda>r w. \<forall>a. r = Inr a \<longrightarrow> se_errors a = [] \<longrightarrow> or_default (se_ignored a) [] = [] \<longrightarrow> mail_in q w
        \<and> (se_receipt_recorded a \<longrightarrow> marked c ''sns'' (sr_event_id q) w))"
    and event_law: "holds E I (sd_event deps c e i)
      (\<lambda>r w. \<forall>o'. r = Inr (Some o') \<longrightarrow> event_in c i w \<and> (wp_receipt_recorded o' \<longrightarrow> marked c ''sns'' i w))"
begin

definition stored_in :: "hook_platform \<Rightarrow> hook_request \<Rightarrow> json \<Rightarrow> string \<Rightarrow> 'c \<Rightarrow> 'w \<Rightarrow> bool" where
  "stored_in pf rq body i c w =
     (if is_confirmation rq body then True else if is_outcome pf body then event_in c i w
      else (case parsed_note pf body of None \<Rightarrow> True | Some note \<Rightarrow> mail_in (note_request (sd_source deps) note i) w))"

abbreviation ses_done :: "hook_platform \<Rightarrow> hook_request \<Rightarrow> json \<Rightarrow> string \<Rightarrow> hook_error + hook_reply \<Rightarrow> 'w \<Rightarrow> bool" where
  "ses_done pf rq body i r w \<equiv> (\<forall>reply. r = Inr reply \<longrightarrow> acknowledged reply \<longrightarrow>
     (\<exists>c. opened (ses_addresses pf rq body) c \<and> marked c ''sns'' i w \<and> (\<not> is_duplicate reply \<longrightarrow> stored_in pf rq body i c w)))"

lemma done_weaken:
  assumes "holds E J p (done_reply (marked c ''sns'' i) (stored_in pf rq body i c))" and "opened (ses_addresses pf rq body) c"
  shows "holds E J p (ses_done pf rq body i)"
  by (rule holds_weaken [OF assms(1)]) (use assms(2) in auto)

lemma seen_or:
  assumes "opened (ses_addresses pf rq body) c" and "holds E I p (ses_done pf rq body i)"
  shows "holds E (\<lambda>w. I w \<and> (found \<noteq> None \<longrightarrow> marked c ''sns'' i w))
     (if found \<noteq> None then Return (duplicate_reply i) else p) (ses_done pf rq body i)"
proof (cases "found = None")
  case True
  then show ?thesis using assms(2) by simp
next
  case False
  then show ?thesis using assms(1) by (auto intro!: holds_Return stable_conj I_stable marked_stable)
qed

lemma confirm_holds:
  assumes "is_confirmation rq body"
  shows "holds E I (ses_confirm deps pf body i u) (ses_done pf rq body i)"
proof (cases "isAwsSnsUrl (hp_url pf) u")
  case False
  then show ?thesis by (auto simp: ses_confirm_def refused_unacknowledged intro!: holds_Return I_stable)
next
  case True
  have a: "ses_addresses pf rq body = []" using assms by (simp add: ses_addresses_def)
  have s: "stored_in pf rq body i c w" for c w using assms by (simp add: stored_in_def)
  let ?rec = "\<lambda>c. bind (wl_record (sd_ledger deps) c ''sns'' i
      (Some (js_String (nullish_or (json_key body ''TopicArn'') (JStr []))))) (\<lambda>_. Return (ok_reply [(''confirmed'', JBool True)]))"
  have rec: "holds E I (?rec c) (ses_done pf rq body i)" if "opened (ses_addresses pf rq body) c" for c
    by (rule holds_seq [OF record_law record_R I_stable], simp_all)
      (rule holds_Return, use that s in \<open>auto intro!: stable_conj I_stable marked_stable\<close>)
  have any: "holds E I (sd_fetch_url deps u) (\<lambda>_ _. True)" by (simp add: holds_def)
  have "holds E I (bind (sd_fetch_url deps u) (\<lambda>_. ?rec c)) (ses_done pf rq body i)"
    if "opened (ses_addresses pf rq body) c" for c
    by (rule holds_seq [OF any steps.fetch_R I_stable], simp_all) (rule rec [OF that])
  then have "holds E I (bind (wl_open (sd_ledger deps) []) (\<lambda>c. bind (wl_find (sd_ledger deps) c ''sns'' i) (\<lambda>found.
      if found \<noteq> None then Return (duplicate_reply i) else bind (sd_fetch_url deps u) (\<lambda>_. ?rec c)))) (ses_done pf rq body i)"
    by (intro open_find_holds seen_or) (simp_all add: a)
  with True show ?thesis by (simp add: ses_confirm_def)
qed

lemma delivery_holds:
  assumes "\<not> is_confirmation rq body" and "is_outcome pf body"
  shows "holds E I (ses_delivery deps pf (innerSesNotification pf body) i) (ses_done pf rq body i)"
proof -
  have a: "ses_addresses pf rq body = (if outcome_sender pf body \<noteq> [] then [outcome_sender pf body] else [])"
    using assms by (simp add: ses_addresses_def)
  have s: "event_in c i = stored_in pf rq body i c" for c using assms by (simp add: stored_in_def fun_eq_iff)
  show ?thesis
    unfolding ses_delivery_def Let_def outcome_sender_def [symmetric]
  proof (rule open_find_holds, goal_cases)
    case (1 c found)
    note op = 1(1) [folded a]
    show ?case
    proof (rule seen_or [OF op], cases "parseSesWebhook (hp_now_text pf) (innerSesNotification pf body) i", goal_cases)
      case 1
      then show ?case by (auto intro!: holds_Return I_stable)
    next
      case (2 e)
      have "holds E I (bind (sd_event deps c e i) (\<lambda>stored. case stored of
            None \<Rightarrow> Return (unscoped_reply ''notification'' e)
          | Some o' \<Rightarrow> record_unless (sd_ledger deps) (wp_receipt_recorded o') c ''sns'' i (Some (wp_id o'))
              (event_reply e (wp_id o')))) (ses_done pf rq body i)"
        by (rule holds_seq [OF event_law [of c e i, unfolded s] steps.event_R I_stable], simp_all)
          (rule done_weaken [OF outcome_holds op], simp_all add: event_stable flip: s)
      then show ?case unfolding 2 option.case .
    qed
  qed simp
qed

lemma inbound_holds:
  assumes "\<not> is_confirmation rq body" and "\<not> is_outcome pf body" and "parsed_note pf body = Some note"
  shows "holds E I (ses_inbound deps note i) (ses_done pf rq body i)"
proof -
  let ?q = "note_request (sd_source deps) note i"
  have a: "ses_addresses pf rq body = or_default (nt_recipients note) []" using assms by (simp add: ses_addresses_def)
  have s: "mail_in ?q = stored_in pf rq body i c" for c using assms by (simp add: stored_in_def fun_eq_iff)
  have q: "sr_event_id ?q = i" by (simp add: note_request_def)
  have fin: "holds E (\<lambda>w. I w \<and> (se_errors result = [] \<longrightarrow> or_default (se_ignored result) [] = [] \<longrightarrow>
        mail_in ?q w \<and> (se_receipt_recorded result \<longrightarrow> marked c ''sns'' i w)))
      (ses_finish deps note key c i result) (ses_done pf rq body i)"
    if "opened (ses_addresses pf rq body) c" for c key result
  proof (cases "se_errors result = [] \<and> or_default (se_ignored result) [] = []")
    case True
    then show ?thesis unfolding ses_finish_def Let_def
      by (simp, intro done_weaken [OF record_unless_holds] that)
        (auto intro!: stable_conj stable_imp I_stable marked_stable mail_stable simp flip: s [of c])
  next
    case False
    then have "holds E I (ses_finish deps note key c i result) (ses_done pf rq body i)"
      by (auto simp: ses_finish_def Let_def intro!: holds_Raise holds_Return I_stable)
    then show ?thesis by (rule holds_pre) simp
  qed
  have ing: "holds E I (bind (sd_ingest deps c ?q) (ses_finish deps note key c i)) (ses_done pf rq body i)"
    if "opened (ses_addresses pf rq body) c" for c key
    by (rule holds_seq [OF ingest_law [of c ?q, unfolded q] steps.ingest_R I_stable], simp_all)
      (rule fin [OF that])
  show ?thesis unfolding ses_inbound_def Let_def note_request_def [of "sd_source deps", symmetric]
    by (intro open_find_holds seen_or) (auto simp: a intro!: holds_Return I_stable ing [unfolded a])
qed

lemma verified_holds:
  "holds E I (ses_verified deps pf rq body) (ses_done pf rq body (or_default (text_prop body ''MessageId'') []))"
proof -
  let ?i = "or_default (text_prop body ''MessageId'') []"
  have ret: "holds E I (Return reply) (ses_done pf rq body j)" if "\<not> acknowledged reply" for reply j
    by (rule holds_Return [OF I_stable]) (use that in auto)
  have inb: "holds E I (case parseSesNotification (hp_parse pf) (hp_decode pf) (or_default (text_prop body ''Message'') (json_text body)) of
        Inl e \<Rightarrow> Raise (Hook_Type e) | Inr None \<Rightarrow> Return (ignored_reply ''unrecognized notification'' [])
      | Inr (Some note) \<Rightarrow> ses_inbound deps note ?i) (ses_done pf rq body ?i)"
    if "\<not> is_confirmation rq body" "\<not> is_outcome pf body"
    using inbound_holds [OF that] by (auto simp: parsed_note_def intro!: ret holds_Raise I_stable split: sum.split option.split)
  show ?thesis unfolding ses_verified_def Let_def is_confirmation_def [symmetric] is_outcome_def [symmetric]
    by (auto intro!: ret confirm_holds delivery_holds inb simp: refused_unacknowledged)
qed

lemma receive_holds:
  assumes "readJsonObject pf rq = Inr body"
  shows "holds E I (receiveSesNotification deps pf rq) (ses_done pf rq body (or_default (text_prop body ''MessageId'') []))"
proof -
  let ?W = "ses_done pf rq body (or_default (text_prop body ''MessageId'') [])"
  have any: "holds E I (sd_verify deps body) (\<lambda>_ _. True)" by (simp add: holds_def)
  have "holds E I (bind (sd_verify deps body) (\<lambda>valid. if valid then ses_verified deps pf rq body
      else Return (hook_error_reply 401 ''Invalid SNS signature''))) ?W"
    by (rule holds_seq [OF any steps.verify_R I_stable]) (auto intro!: verified_holds holds_Return I_stable simp: refused_unacknowledged)
  then show ?thesis unfolding receiveSesNotification_def assms
    by (auto intro!: holds_Raise holds_Return I_stable simp: refused_unacknowledged dest: gate_refused split: sum.split option.split)
qed

end

end
