(* ===== verification/Webhook_Promises.thy ===== *)
theory Webhook_Promises
  imports Webhook_Contract
begin

text \<open>
  The self-hosted ledger and sinks keep the receivers' contracts, and what follows: an
  acknowledged event is recorded in every tenant of its envelope, a redelivery of a recorded
  event changes nothing, an event without a tenant is acknowledged without a trace, and
  inbound events of Resend without an id overwrite each other.
\<close>

section \<open>What may happen meanwhile\<close>

text \<open>
  \<open>hook_grows\<close>: routing stays as it is, receipts, events and the sources of messages stay.
  \<open>hook_env\<close> asks of the mailbox what the ingest worker relies on.
\<close>

definition mail_sources :: "mail_store \<Rightarrow> (string \<times> string option) set" where
  "mail_sources s = (\<lambda>m. (m_tenant m, m_source_id m)) ` set (messages (ms_db s))"

definition hook_grows :: "hook_world \<Rightarrow> hook_world \<Rightarrow> bool" where
  "hook_grows w w' \<longleftrightarrow> same_routing (ms_db (hw_mail w)) (hw_mail w') \<and> mail_sources (hw_mail w) \<subseteq> mail_sources (hw_mail w')
     \<and> set (hw_receipts w) \<subseteq> set (hw_receipts w') \<and> set (hw_events w) \<subseteq> set (hw_events w')"

definition hook_env :: "hook_world \<Rightarrow> hook_world \<Rightarrow> bool" where
  "hook_env w w' \<longleftrightarrow> extends (hw_mail w) (hw_mail w')
     \<and> set (hw_receipts w) \<subseteq> set (hw_receipts w') \<and> set (hw_events w) \<subseteq> set (hw_events w')"

lemma extends_sources: "extends s s' \<Longrightarrow> same_routing (ms_db s) s' \<and> mail_sources s \<subseteq> mail_sources s'"
proof
  assume e: "extends s s'"
  then show "same_routing (ms_db s) s'" by (simp add: extends_def)
  show "mail_sources s \<subseteq> mail_sources s'"
  proof
    fix x assume "x \<in> mail_sources s"
    then obtain m where m: "m \<in> set (messages (ms_db s))" "x = (m_tenant m, m_source_id m)" by (auto simp: mail_sources_def)
    obtain m' where "m' \<in> set (messages (ms_db s'))" "same_ident m m'" using extends_message [OF e m(1)] by blast
    with m(2) show "x \<in> mail_sources s'" by (auto simp: mail_sources_def same_ident_def intro!: image_eqI [of _ _ m'])
  qed
qed

lemma env_grows: "hook_env w w' \<Longrightarrow> hook_grows w w'"
  using extends_sources by (auto simp: hook_env_def hook_grows_def)

lemma receipt_grows: "hw_mail (fst (create_receipt f t provider i resource w)) = hw_mail w
    \<and> set (hw_receipts w) \<subseteq> set (hw_receipts (fst (create_receipt f t provider i resource w)))
    \<and> hw_events (fst (create_receipt f t provider i resource w)) = hw_events w"
  by (auto simp: create_receipt_def)

lemma insert_event_grows:
  "insert_event f t i inp w = (w', r) \<Longrightarrow> hw_mail w' = hw_mail w \<and> hw_receipts w' = hw_receipts w \<and> set (hw_events w) \<subseteq> set (hw_events w')"
  by (auto simp: insert_event_def split: option.splits if_splits)

lemma ensure_grows:
  "ensure_receipt f t provider i resource w = (w', r) \<Longrightarrow> hw_mail w' = hw_mail w
     \<and> set (hw_receipts w) \<subseteq> set (hw_receipts w') \<and> hw_events w' = hw_events w"
  using receipt_grows [of f t provider i resource w] by (auto simp: ensure_receipt_def split: if_splits)

lemma delivery_env: "hook_env w (fst (createWebhookDeliveryEvent sc f1 f2 provider i inp w))"
  using create_delivery_cases [of sc f1 f2 provider i inp w]
  by (auto simp: hook_env_def dest!: insert_event_grows ensure_grows)

interpretation env_steps: hook_writes hook_env
proof unfold_locales
  fix env bucket key recipients timestamp
  show "keeps (\<lambda>s s'. \<forall>w. hw_mail w = s \<longrightarrow> hook_env w (w\<lparr>hw_mail := s'\<rparr>)) (ingestS3Object env bucket key recipients timestamp)"
    by (rule keeps_mono [OF growth.ingest_keeps]) (simp add: hook_env_def)
qed (simp_all add: hook_env_def receipt_grows delivery_env [unfolded hook_env_def])

lemma upsert_sources:
  "same_routing (ms_db s) (fst (upsertMessage sc now fresh i s)) \<and> mail_sources s \<subseteq> mail_sources (fst (upsertMessage sc now fresh i s))"
proof -
  have u: "mail_sources (s\<lparr>ms_db := fst (update_message P (messageUpsertAssignments now i e) (ms_db s))\<rparr>) = mail_sources s" for P e
  proof -
    have "m_tenant (messageUpsertAssignments now i e m) = m_tenant m" "m_source_id (messageUpsertAssignments now i e m) = m_source_id m" for m
      by (simp_all add: messageUpsertAssignments_def)
    then have "(\<lambda>m. (m_tenant m, m_source_id m)) \<circ> (\<lambda>m. if P m then messageUpsertAssignments now i e m else m) = (\<lambda>m. (m_tenant m, m_source_id m))"
      by (simp add: fun_eq_iff)
    then show ?thesis by (simp add: mail_sources_def flip: image_comp set_map)
  qed
  have r: "routes (fst (update_message P f db)) = routes db" "tenants (fst (update_message P f db)) = tenants db" for P f db
    by (simp_all add: update_message_def)
  show ?thesis unfolding upsertMessage_def Let_def
    by (auto simp: u r simp del: update_message_tables split: option.split) (auto simp: mail_sources_def)
qed

lemma upsert_binds:
  assumes "upsertMessage sc now fresh i s = (s', Inr x)"
  shows "(sc_tenant sc, mi_source_id i) \<in> mail_sources s'"
proof (cases "find (\<lambda>m. m_tenant m = sc_tenant sc \<and> m_source_id m = mi_source_id i) (messages (ms_db s))")
  case None
  with assms have "messages (ms_db s') = messages (ms_db s) @ [message_of_input fresh now (sc_tenant sc) i]"
    by (auto simp: upsertMessage_def Let_def split: if_splits)
  then show ?thesis by (simp add: mail_sources_def message_of_input_def)
next
  case (Some m)
  then have "(sc_tenant sc, mi_source_id i) \<in> mail_sources s" by (force simp: mail_sources_def dest!: find_SomeD)
  with upsert_sources assms show ?thesis by (metis fst_conv subsetD)
qed

interpretation grow_steps: upsert_writes hook_grows
proof unfold_locales
  fix env bucket key recipients timestamp
  show "keeps (\<lambda>s s'. \<forall>w. hw_mail w = s \<longrightarrow> hook_grows w (w\<lparr>hw_mail := s'\<rparr>)) (ingestS3Object env bucket key recipients timestamp)"
    by (rule keeps_mono [OF growth.ingest_keeps]) (auto simp: hook_grows_def dest: extends_sources)
qed (use env_grows [OF delivery_env] upsert_sources in \<open>simp_all add: hook_grows_def receipt_grows\<close>)

section \<open>The self-hosted contract\<close>

definition scopes_of :: "db \<Rightarrow> string list \<Rightarrow> string list" where
  "scopes_of d addrs = map rg_tenant (rr_groups (resolveInboundRecipients d addrs))"

definition receipts_for :: "string list \<Rightarrow> string \<Rightarrow> string \<Rightarrow> hook_world \<Rightarrow> bool" where
  "receipts_for scopes provider i w \<longleftrightarrow> (\<forall>t \<in> set scopes. \<exists>r \<in> set (hw_receipts w). receipt_at t provider i r)"

definition events_for :: "string list \<Rightarrow> string \<Rightarrow> hook_world \<Rightarrow> bool" where
  "events_for scopes i w \<longleftrightarrow> (\<forall>t \<in> set scopes. \<exists>e \<in> set (hw_events w). event_at t i e)"

definition mail_for :: "string list \<Rightarrow> json \<Rightarrow> hook_world \<Rightarrow> bool" where
  "mail_for scopes v w \<longleftrightarrow> (\<forall>t \<in> set scopes. (t, Some (''resend:'' @ js_String v)) \<in> mail_sources (hw_mail w))"

lemma marks_nil [simp]: "receipts_for [] provider i w" "events_for [] i w" "mail_for [] v w"
  by (simp_all add: receipts_for_def events_for_def mail_for_def)

lemma marks_cons:
  "receipts_for (t # ts) provider i w \<longleftrightarrow> receipts_for [t] provider i w \<and> receipts_for ts provider i w"
  "events_for (t # ts) i w \<longleftrightarrow> events_for [t] i w \<and> events_for ts i w"
  "mail_for (t # ts) v w \<longleftrightarrow> mail_for [t] v w \<and> mail_for ts v w"
  by (simp_all add: receipts_for_def events_for_def mail_for_def)

abbreviation routed_by :: "db \<Rightarrow> hook_world \<Rightarrow> bool" where
  "routed_by d w \<equiv> same_routing d (hw_mail w)"

lemma routed_scopes: "routed_by d w \<Longrightarrow> resolveScopes addrs w = scopes_of d addrs"
  using resolve_cong [of "ms_db (hw_mail w)" d] by (simp add: resolveScopes_def scopes_of_def)

lemma step_holds:
  assumes "stable E P" and "\<And>w. E w (fst (f w))" and "\<And>w. P w \<Longrightarrow> R (snd (f w)) (fst (f w))"
    and "\<And>r. holds E (\<lambda>w. P w \<and> R r w) (k r) Q"
  shows "holds E P (call_with f k) Q"
  by (rule holds_call_with [where R = "\<lambda>r w. P w \<and> R r w"]) (use assms in \<open>auto simp: stable_def\<close>)

locale mount_env = hook_writes E for E :: "hook_world \<Rightarrow> hook_world \<Rightarrow> bool" +
  fixes d :: db
  assumes grows: "E w w' \<Longrightarrow> hook_grows w w'"
begin

lemma marks_stable:
  "stable E (\<lambda>w. routes (ms_db (hw_mail w)) = rt)" "stable E (\<lambda>w. tenants (ms_db (hw_mail w)) = tn)"
  "stable E (receipts_for c provider i)" "stable E (events_for c i)" "stable E (mail_for c v)"
  by (auto simp: stable_def receipts_for_def events_for_def mail_for_def hook_grows_def subset_iff dest!: grows) blast+

lemma open_holds: "holds E (routed_by d) (scopesFor addrs) (\<lambda>r w. \<forall>c. r = Inr c \<longrightarrow> c = scopes_of d addrs)"
proof (cases "addrs = []")
  case True
  then show ?thesis by (auto simp: scopesFor_def scopes_of_def intro!: holds_Return stable_conj marks_stable)
next
  case False
  have "holds E (routed_by d) (call_with (\<lambda>w. (w, resolveScopes addrs w)) Return) (\<lambda>r w. \<forall>c. r = Inr c \<longrightarrow> c = scopes_of d addrs)"
    by (rule step_holds [where R = "\<lambda>r w. r = scopes_of d addrs"])
      (auto intro!: holds_Return stable_conj marks_stable simp: same_R routed_scopes)
  with False show ?thesis by (simp add: scopesFor_def)
qed

lemma find_holds:
  "holds E (routed_by d) (ledger_find c provider i) (\<lambda>r w. \<forall>x. r = Inr (Some x) \<longrightarrow> c \<noteq> [] \<and> receipts_for c provider i w)"
proof -
  have "holds E (routed_by d) (find_loop provider i first c) (\<lambda>r w. \<forall>x. r = Inr (Some x) \<longrightarrow> receipts_for c provider i w)" for first
  proof (induction c arbitrary: first)
    case (Cons t ts)
    show ?case unfolding find_loop.simps
    proof (rule step_holds [where R = "\<lambda>row w. row \<noteq> None \<longrightarrow> receipts_for [t] provider i w"], goal_cases)
      case (3 w)
      then show ?case by (auto simp: find_receipt_def receipts_for_def dest!: find_SomeD)
    next
      case (4 row)
      show ?case
      proof (cases row)
        case (Some r)
        show ?thesis unfolding Some option.case
          by (rule holds_weaken [OF holds_frame [OF Cons.IH find_loop_keeps, where J = "\<lambda>w. routed_by d w \<and> receipts_for [t] provider i w"]])
            (auto intro!: stable_conj marks_stable simp: marks_cons [of t ts])
      qed (auto intro!: holds_Return stable_conj stable_imp marks_stable)
    qed (simp_all add: stable_conj marks_stable same_R)
  qed (auto intro!: holds_Return stable_conj marks_stable)
  then show ?thesis by (auto simp: ledger_find_def intro!: holds_Return stable_conj marks_stable)
qed

lemma record_holds:
  "holds E (routed_by d) (record_loop hm provider i resource n c) (\<lambda>r w. \<forall>x. r = Inr x \<longrightarrow> receipts_for c provider i w)"
proof (induction c arbitrary: n)
  case (Cons t ts)
  let ?rest = "record_loop hm provider i resource (Suc n) ts" and ?Q = "\<lambda>r w. \<forall>x. r = Inr x \<longrightarrow> receipts_for (t # ts) provider i w"
  have rest: "holds E (\<lambda>w. routed_by d w \<and> receipts_for [t] provider i w) ?rest ?Q"
    by (rule holds_weaken [OF holds_frame [OF Cons.IH record_keeps, where J = "\<lambda>w. routed_by d w \<and> receipts_for [t] provider i w"]])
      (auto intro!: stable_conj marks_stable simp: marks_cons [of t ts])
  have new: "holds E (routed_by d) (bind (store_call (create_receipt (hm_receipt_uuid hm n) t provider i resource)) (\<lambda>_. ?rest)) ?Q"
    unfolding store_call_def bind_call
  proof (rule step_holds [where R = "\<lambda>r w. (\<exists>x. r = Inr x) \<longrightarrow> receipts_for [t] provider i w"], goal_cases)
    case (2 w)
    then show ?case using receipt_R [of w "hm_receipt_uuid hm n" t provider i resource] by (auto split: prod.split sum.split)
  next
    case (3 w)
    then show ?case by (auto simp: create_receipt_def receipts_for_def receipt_at_def)
  next
    case (4 r)
    then show ?case by (cases r) (use rest in \<open>auto intro!: holds_Raise stable_conj marks_stable\<close>)
  qed (auto intro!: stable_conj marks_stable)
  show ?case unfolding record_loop.simps
  proof (rule step_holds [where R = "\<lambda>row w. row \<noteq> None \<longrightarrow> receipts_for [t] provider i w"], goal_cases)
    case (3 w)
    then show ?case by (auto simp: find_receipt_def receipts_for_def dest!: find_SomeD)
  next
    case (4 row)
    then show ?case using rest new by (cases row) simp_all
  qed (auto intro!: stable_conj marks_stable same_R)
qed (auto intro!: holds_Return stable_conj marks_stable)

lemma delivery_marks:
  assumes "createWebhookDeliveryEvent sc f1 f2 provider i inp w = (w', Inr x)"
  shows "receipts_for [sc_tenant sc] provider i w' \<and> events_for [sc_tenant sc] i w'"
proof -
  obtain w1 y where ev: "insert_event f1 (sc_tenant sc) i inp w = (w1, Inr y)"
    and re: "ensure_receipt f2 (sc_tenant sc) provider i (Some y) w1 = (w', Inr ())"
    using create_delivery_cases [of sc f1 f2 provider i inp w] assms by auto
  have "events_for [sc_tenant sc] i w1" using ev
    by (auto simp: insert_event_def events_for_def event_at_def split: option.splits if_splits dest!: find_SomeD)
  moreover have "receipts_for [sc_tenant sc] provider i w'" using re
    by (auto simp: ensure_receipt_def create_receipt_def receipts_for_def receipt_at_def split: if_splits)
  ultimately show ?thesis using ensure_grows [OF re] by (simp add: events_for_def)
qed

lemma event_loop_holds:
  "holds E (routed_by d) (event_loop hm provider e i n first c)
     (\<lambda>r w. \<forall>x. r = Inr x \<longrightarrow> receipts_for c provider i w \<and> events_for c i w)"
proof (induction c arbitrary: n first)
  case (Cons t ts)
  let ?Q = "\<lambda>r w. \<forall>x. r = Inr x \<longrightarrow> receipts_for (t # ts) provider i w \<and> events_for (t # ts) i w"
  let ?J = "\<lambda>w. routed_by d w \<and> receipts_for [t] provider i w \<and> events_for [t] i w"
  have rest: "holds E ?J (event_loop hm provider e i (Suc n) f ts) ?Q" for f
    by (rule holds_weaken [OF holds_frame [OF Cons.IH event_loop_keeps, where J = ?J]])
      (auto intro!: stable_conj marks_stable simp: marks_cons [of t ts])
  let ?c = "createWebhookDeliveryEvent (forTenant (hm_scope hm) t) (hm_uuid hm n) (hm_receipt_uuid hm n) provider i"
  have new: "holds E (routed_by d) (bind (store_call (?c inp)) (\<lambda>x. event_loop hm provider e i (Suc n) (f x) ts)) ?Q" for inp f
    unfolding store_call_def bind_call
  proof (rule step_holds [where R = "\<lambda>r w. (\<exists>x. r = Inr x) \<longrightarrow> receipts_for [t] provider i w \<and> events_for [t] i w"], goal_cases)
    case (2 w)
    then show ?case using event_R [of w "forTenant (hm_scope hm) t"] by (auto split: prod.split sum.split simp: prod_eq_iff)
  next
    case (3 w)
    then show ?case using delivery_marks [of "forTenant (hm_scope hm) t"] by (auto simp: forTenant_def split: prod.split sum.split)
  next
    case (4 r)
    then show ?case by (cases r) (use rest in \<open>auto intro!: holds_Raise stable_conj marks_stable\<close>)
  qed (auto intro!: stable_conj marks_stable)
  show ?case unfolding event_loop.simps Let_def
  proof (rule step_holds [where R = "\<lambda>_ _. True"], goal_cases)
    case (4 r)
    show ?case by (rule holds_pre [OF new]) simp
  qed (auto intro!: stable_conj marks_stable same_R)
qed (auto intro!: holds_Return stable_conj marks_stable)

lemma sink_holds:
  "holds E (routed_by d) (selfHostedDeliveryEventSink hm provider c e i)
     (\<lambda>r w. \<forall>o'. r = Inr (Some o') \<longrightarrow> (c \<noteq> [] \<and> events_for c i w) \<and> (wp_receipt_recorded o' \<longrightarrow> receipts_for c provider i w))"
proof (cases "c = []")
  case True
  then show ?thesis by (auto simp: selfHostedDeliveryEventSink_def intro!: holds_Return stable_conj marks_stable)
next
  case False
  have "holds E (routed_by d) (bind (event_loop hm provider e i 0 None c) (\<lambda>first. Return (persisted True first)))
     (\<lambda>r w. \<forall>o'. r = Inr (Some o') \<longrightarrow> (c \<noteq> [] \<and> events_for c i w) \<and> (wp_receipt_recorded o' \<longrightarrow> receipts_for c provider i w))"
    by (rule holds_seq [OF event_loop_holds event_loop_keeps])
      (use False in \<open>auto intro!: holds_Return stable_conj marks_stable\<close>)
  with False show ?thesis by (simp add: selfHostedDeliveryEventSink_def)
qed

end

sublocale mount_env \<subseteq> self_ledger: ledger_contract E "receipt_ledger hm" "routed_by d" "\<lambda>addrs c. c = scopes_of d addrs"
    "\<lambda>c provider i. receipts_for c provider i" "\<lambda>c. c \<noteq> []" for hm
  by unfold_locales
    (use open_holds find_holds record_holds in \<open>auto simp: receipt_ledger_def intro!: stable_conj marks_stable\<close>)

section \<open>Resend\<close>

locale grow_env = mount_env E d + upsert_writes E for E d
begin

lemma upsert_holds:
  "holds E (routed_by d) (resend_upsert hm p n g) (\<lambda>r w. \<forall>x. r = Inr x \<longrightarrow> mail_for [rg_tenant g] (pi_provider_message_id p) w)"
proof -
  have bad: "holds E (routed_by d) (store_call (\<lambda>w. (w, Inl e))) Q" if "\<And>e w. Q (Inl e) w" for e and Q :: "hook_error + string \<Rightarrow> hook_world \<Rightarrow> bool"
    unfolding store_call_def call_def
  proof (rule step_holds [where R = "\<lambda>r _. r = Inl (Hook_Store e)"], goal_cases)
    case (4 r)
    show ?case by (cases r) (auto simp: holds_def [of _ "\<lambda>_. False"] intro!: holds_Raise stable_conj marks_stable that)
  qed (auto intro!: stable_conj marks_stable same_R)
  have ok: "holds E (routed_by d) (bind (in_mail (call (upsertMessage (forTenant (hm_scope hm) (rg_tenant g)) (hp_now (hm_platform hm))
        (hm_uuid hm n) (resend_input hm p sender (rg_recipients g) received))) Hook_Store) (\<lambda>r. Return (m_id (fst r))))
      (\<lambda>r w. \<forall>x. r = Inr x \<longrightarrow> mail_for [rg_tenant g] (pi_provider_message_id p) w)" for sender received
    unfolding call_def embed_call_with bind_call_with
  proof (rule step_holds [where R = "\<lambda>r w. (\<exists>x. r = Inr x) \<longrightarrow> mail_for [rg_tenant g] (pi_provider_message_id p) w"], goal_cases)
    case (2 w)
    then show ?case using upsert_R by simp
  next
    case (3 w)
    have src: "mi_source_id (resend_input hm p sender rs received) = Some (''resend:'' @ js_String (pi_provider_message_id p))" for rs
      by (simp add: resend_input_def)
    show ?case
      using upsert_binds [of "forTenant (hm_scope hm) (rg_tenant g)" "hp_now (hm_platform hm)" "hm_uuid hm n"
          "resend_input hm p sender (rg_recipients g) received" "hw_mail w"]
      by (auto simp: mail_for_def src forTenant_def prod_eq_iff simp del: append_Cons)
  next
    case (4 r)
    then show ?case by (cases r) (auto intro!: holds_Raise holds_Return stable_conj stable_imp marks_stable)
  qed (auto intro!: stable_conj marks_stable)
  show ?thesis unfolding resend_upsert_def
    using bad ok by (auto intro!: holds_Raise stable_conj marks_stable split: sum.split option.split)
qed

lemma loop_holds:
  "holds E (routed_by d) (resend_loop hm p n first gs)
     (\<lambda>r w. \<forall>x. r = Inr x \<longrightarrow> mail_for (map rg_tenant gs) (pi_provider_message_id p) w)"
proof (induction gs arbitrary: n first)
  case (Cons g gs)
  let ?v = "pi_provider_message_id p"
  let ?J = "\<lambda>w. routed_by d w \<and> mail_for [rg_tenant g] ?v w"
  have rest: "holds E ?J (resend_loop hm p (Suc n) f gs) (\<lambda>r w. \<forall>x. r = Inr x \<longrightarrow> mail_for (map rg_tenant (g # gs)) ?v w)" for f
    by (rule holds_weaken [OF holds_frame [OF Cons.IH resend_loop_keeps, where J = ?J]])
      (auto intro!: stable_conj marks_stable simp: marks_cons [of "rg_tenant g" "map rg_tenant gs"])
  show ?case unfolding resend_loop.simps
  proof (rule holds_seq [OF upsert_holds upsert_keeps], goal_cases)
    case (4 a)
    show ?case by (rule holds_pre [OF rest]) simp
  qed (auto intro!: stable_conj marks_stable)
qed (auto intro!: holds_Return stable_conj marks_stable)

lemma inbound_holds:
  assumes "c = scopes_of d (map recipient_text (pi_to p))"
  shows "holds E (routed_by d) (selfHostedResendInboundSink hm c p i)
     (\<lambda>r w. \<forall>o'. r = Inr (Some o') \<longrightarrow> (c \<noteq> [] \<and> mail_for c (pi_provider_message_id p) w)
        \<and> (wp_receipt_recorded o' \<longrightarrow> receipts_for c ''resend'' i w))" (is "holds E ?I _ ?Q")
proof (cases "c = []")
  case True
  then show ?thesis by (auto simp: selfHostedResendInboundSink_def intro!: holds_Return stable_conj marks_stable)
next
  case False
  let ?route = "resolveInboundRecipients d (map recipient_text (pi_to p))"
  have tail: "holds E ?I (bind (resend_loop hm p 0 None (rr_groups ?route)) (\<lambda>first. Return (persisted False first))) ?Q"
    by (rule holds_seq [OF loop_holds resend_loop_keeps])
      (use False assms in \<open>auto intro!: holds_Return stable_conj marks_stable simp: scopes_of_def persisted_def split: if_splits\<close>)
  have "holds E ?I (call_with (\<lambda>w. (w, resolveInboundRecipients (ms_db (hw_mail w)) (map recipient_text (pi_to p)))) (\<lambda>route.
        bind (resend_loop hm p 0 None (rr_groups route)) (\<lambda>first. Return (persisted False first)))) ?Q"
  proof (rule step_holds [where R = "\<lambda>r _. r = ?route"], goal_cases)
    case (3 w)
    then show ?case using resolve_cong [of "ms_db (hw_mail w)" d] by simp
  next
    case (4 r)
    show ?case by (cases "r = ?route") (use tail in \<open>auto simp: holds_def\<close>)
  qed (auto intro!: stable_conj marks_stable same_R)
  with False show ?thesis by (simp add: selfHostedResendInboundSink_def)
qed

end

sublocale grow_env \<subseteq> self_resend: resend_contract E "mounted_resend hm" "routed_by d" "\<lambda>addrs c. c = scopes_of d addrs"
    "\<lambda>c provider i. receipts_for c provider i" "\<lambda>c. c \<noteq> []" "\<lambda>c v w. c \<noteq> [] \<and> mail_for c v w" "\<lambda>c i w. c \<noteq> [] \<and> events_for c i w" for hm
proof unfold_locales
  show "stable E (\<lambda>w. c \<noteq> [] \<and> mail_for c v w)" "stable E (\<lambda>w. c \<noteq> [] \<and> events_for c i w)" for c v i
    by (auto intro!: stable_conj marks_stable)
qed (use inbound_holds sink_holds open_holds find_holds record_holds in
    \<open>auto simp: mounted_resend_def receipt_ledger_def intro!: stable_conj marks_stable\<close>)

end
