(* ===== verification/Webhook_Outcomes.thy ===== *)
theory Webhook_Outcomes
  imports Webhook_Promises
begin

text \<open>
  What a provider may conclude from an answer of the webhook route: SES mail that is
  acknowledged is stored as the ingest worker stores it, an acknowledged event is recorded
  in every tenant of its envelope, and delivering it again changes nothing.
\<close>

section \<open>SES\<close>

lemma safe_mono:
  assumes "extends s s'" and "safe_to_delete env bucket key envelope s"
  shows "safe_to_delete env bucket key envelope s'"
proof -
  have r: "routes (ms_db s') = routes (ms_db s)" "tenants (ms_db s') = tenants (ms_db s)"
    and q: "q_source_id ` set (quarantine (ms_db s)) \<subseteq> q_source_id ` set (quarantine (ms_db s'))"
    using assms(1) by (auto simp: extends_def)
  note c = routing_cong [OF r, of env key envelope]
  let ?rs = "routing_envelope env (ms_db s) key envelope"
  have "\<exists>raw. ie_fetch env bucket key = Inr raw \<and> delivered t bucket key (ie_sha env raw) s'"
    if "x \<in> readable ?rs" "recipient_tenant (ms_db s) x = Some t" for x t
    using assms(2) that delivered_mono [OF assms(1)] unfolding safe_to_delete_def Let_def by meson
  moreover have "key \<in> q_source_id ` set (quarantine (ms_db s'))"
    if "readable ?rs = {} \<or> (\<exists>x \<in> readable ?rs. recipient_tenant (ms_db s) x = None)"
    using assms(2) that q unfolding safe_to_delete_def Let_def by (meson subsetD)
  ultimately show ?thesis using c by (simp add: safe_to_delete_def Let_def)
qed

definition mail_safe :: "hook_mount \<Rightarrow> prefix_mapping list \<Rightarrow> ses_request \<Rightarrow> hook_world \<Rightarrow> bool" where
  "mail_safe hm mappings q w \<longleftrightarrow> safe_to_delete ((hm_ingest hm)\<lparr>ie_prefixes := mappings\<rparr>) (sr_bucket q)
     (the (sr_object_key q)) (sr_recipients q) (hw_mail w)"

lemma mail_safe_stable: "stable hook_env (mail_safe hm mappings q)"
  unfolding stable_def mail_safe_def hook_env_def by (blast intro: safe_mono)

interpretation env_mount: mount_env hook_env d for d
  by unfold_locales (rule env_grows)

interpretation grow_mount: grow_env hook_grows d for d
  by unfold_locales

lemma answer_settled: "ingest_answer r = Inr a \<Longrightarrow> shouldDeleteIngestResult r \<and> \<not> se_receipt_recorded a"
  by (cases "ig_status r") (auto simp: ingest_answer_def shouldDeleteIngestResult_def split: if_splits)

lemma ses_ingest_holds:
  "holds hook_env (routed_by d) (selfHostedSesIngest hm mappings c q)
     (\<lambda>r w. \<forall>a. r = Inr a \<longrightarrow> se_errors a = [] \<longrightarrow> or_default (se_ignored a) [] = [] \<longrightarrow> mail_safe hm mappings q w
        \<and> (se_receipt_recorded a \<longrightarrow> receipts_for c ''sns'' (sr_event_id q) w))" (is "holds _ ?I _ ?Q")
proof (cases "or_default (sr_object_key q) [] = []")
  case True
  then show ?thesis
    by (auto simp: selfHostedSesIngest_def or_default_def intro!: holds_Return stable_conj env_mount.marks_stable)
next
  case False
  let ?env = "(hm_ingest hm)\<lparr>ie_prefixes := mappings\<rparr>"
  let ?p = "ingestS3Object ?env (sr_bucket q) (the (sr_object_key q)) (Some (sr_recipients q)) (sr_timestamp q)"
  have p: "holds hook_env ?I (in_mail ?p Hook_Type)
      (\<lambda>r w. \<forall>result. r = Inr result \<longrightarrow> shouldDeleteIngestResult result \<longrightarrow> mail_safe hm mappings q w)"
    by (rule holds_weaken [OF embed_holds [OF ingest_holds [of d], where E' = hook_env and get = hw_mail]])
      (auto simp: hook_env_def mail_safe_def or_default_def, case_tac qa, auto simp: or_default_def)
  have "holds hook_env ?I (bind (in_mail ?p Hook_Type) (\<lambda>r. case ingest_answer r of Inl e \<Rightarrow> Raise e | Inr a \<Rightarrow> Return a)) ?Q"
  proof (rule holds_bind [OF p])
    fix result
    have st: "stable hook_env (\<lambda>w. \<forall>x. Inr result = Inr x \<longrightarrow> shouldDeleteIngestResult x \<longrightarrow> mail_safe hm mappings q w)"
      using mail_safe_stable by (auto simp: stable_def)
    show "holds hook_env (\<lambda>w. \<forall>x. Inr result = Inr x \<longrightarrow> shouldDeleteIngestResult x \<longrightarrow> mail_safe hm mappings q w)
        (case ingest_answer result of Inl e \<Rightarrow> Raise e | Inr a \<Rightarrow> Return a) ?Q"
    proof (cases "ingest_answer result")
      case (Inr a)
      show ?thesis unfolding Inr sum.case by (rule holds_Return [OF st]) (use answer_settled [OF Inr] in auto)
    next
      case (Inl e)
      show ?thesis unfolding Inl sum.case by (rule holds_Raise [OF st]) simp
    qed
  qed simp
  with False show ?thesis by (simp add: selfHostedSesIngest_def)
qed

interpretation env_ses: ses_contract hook_env "mounted_ses hm mappings" "routed_by d" "\<lambda>addrs c. c = scopes_of d addrs"
    "\<lambda>c provider i. receipts_for c provider i" "\<lambda>c. c \<noteq> []" "mail_safe hm mappings" "\<lambda>c i w. c \<noteq> [] \<and> events_for c i w"
    for hm mappings d
proof unfold_locales
  show "stable hook_env (\<lambda>w. c \<noteq> [] \<and> events_for c i w)" for c i by (auto intro!: stable_conj env_mount.marks_stable)
qed (use ses_ingest_holds env_mount.sink_holds env_mount.open_holds env_mount.find_holds env_mount.record_holds in
    \<open>auto simp: mounted_ses_def receipt_ledger_def mail_safe_stable intro!: stable_conj env_mount.marks_stable\<close>)

section \<open>Acknowledged events\<close>

definition ses_stored :: "hook_mount \<Rightarrow> prefix_mapping list \<Rightarrow> hook_request \<Rightarrow> json \<Rightarrow> string \<Rightarrow> string list \<Rightarrow> hook_world \<Rightarrow> bool" where
  "ses_stored hm mappings rq body i scopes w \<longleftrightarrow> is_confirmation rq body
     \<or> (if is_outcome (hm_platform hm) body then events_for scopes i w
        else (\<forall>note. parsed_note (hm_platform hm) body = Some note \<longrightarrow>
          mail_safe hm mappings (note_request (selfHostedInboundSource (hp_vars (hm_platform hm))) note i) w))"

definition resend_stored :: "hook_mount \<Rightarrow> json \<Rightarrow> string \<Rightarrow> string list \<Rightarrow> hook_world \<Rightarrow> bool" where
  "resend_stored hm event i scopes w \<longleftrightarrow>
     (if isResendInboundEvent event
      then mail_for scopes (pi_provider_message_id (parseResendInboundEvent (hp_now_text (hm_platform hm)) event)) w
      else events_for scopes i w)"

lemma execs_Return: "execs E (Return a) w r w' \<Longrightarrow> r = Inr a"
proof -
  have "execs E p w r w' \<Longrightarrow> p = Return a \<Longrightarrow> r = Inr a" for p by (induction rule: execs.induct) simp_all
  then show "execs E (Return a) w r w' \<Longrightarrow> r = Inr a" by blast
qed

lemma env_ses_stored: "env_ses.stored_in hm mappings (hm_platform hm) rq body i c w \<Longrightarrow> ses_stored hm mappings rq body i c w"
  unfolding env_ses.stored_in_def by (auto simp: ses_stored_def mounted_ses_def split: if_splits option.splits)

text \<open>
  C5. An SES notification that is acknowledged, and not declared ignored, is recorded.  At its
  awaits other requests and workers may do anything that keeps the routes and tenants as they
  are, deletes no message, provenance record, receipt, event or quarantined source and leaves
  the ids, tenants and upstream keys of messages alone (\<open>hook_env\<close>).  In the state
  of the answer every tenant with a route for its envelope has the receipt of the SNS message, and unless the
  answer is that of a duplicate every such tenant has the delivery event, or, for inbound
  mail, the object is stored as the queue worker requires before it deletes a notification.
\<close>

theorem acknowledged_ses_recorded:
  assumes "execs hook_env (handleSelfHostedSesWebhook hm rq) w r w'" and "r = Inr reply" and "acknowledged reply"
  shows "\<exists>body mappings i scopes. readJsonObject (hm_platform hm) rq = Inr body
    \<and> parseInboundPrefixDomainMap (hm_le hm) (hp_parse (hm_platform hm))
        (hp_vars (hm_platform hm) ''EMAILS_INGEST_PREFIX_DOMAIN_MAP'') = Inr mappings
    \<and> i = or_default (text_prop body ''MessageId'') [] \<and> scopes = resolveScopes (ses_addresses (hm_platform hm) rq body) w'
    \<and> receipts_for scopes ''sns'' i w' \<and> (\<not> is_duplicate reply \<longrightarrow> ses_stored hm mappings rq body i scopes w')"
proof -
  have routed: "routed_by (ms_db (hw_mail w)) w'"
    by (rule execs_keeps_stable [OF assms(1) env_steps.ses_handler_keeps]) (auto intro!: stable_conj env_mount.marks_stable)
  obtain mappings where m: "parseInboundPrefixDomainMap (hm_le hm) (hp_parse (hm_platform hm))
      (hp_vars (hm_platform hm) ''EMAILS_INGEST_PREFIX_DOMAIN_MAP'') = Inr mappings"
    and x: "execs hook_env (receiveSesNotification (mounted_ses hm mappings) (hm_platform hm) rq) w r w'"
    using assms by (auto simp: handleSelfHostedSesWebhook_def refused_unacknowledged dest!: execs_Return split: sum.splits)
  obtain body where b: "readJsonObject (hm_platform hm) rq = Inr body"
    using x assms(2,3) by (cases "readJsonObject (hm_platform hm) rq")
      (auto simp: receiveSesNotification_def dest!: execs_Return read_refused refused_unacknowledged)
  from holdsD [OF env_ses.receive_holds [OF b, of "ms_db (hw_mail w)"] _ x] assms(2,3) b m
  show ?thesis
    by (auto simp: routed_scopes [OF routed] intro: env_ses_stored)
qed

text \<open>
  C6. A Resend event that is acknowledged, and not declared ignored, is recorded.  At its
  awaits other requests and workers may do anything that keeps the routes and tenants as they
  are and deletes no message, receipt or event (\<open>hook_grows\<close>).  The event has at least one tenant, in the state of the answer
  every tenant with a route for its envelope has the receipt of the signed event id, and
  unless the answer is that of a duplicate every such tenant has the message, or the delivery
  event.
\<close>

theorem acknowledged_resend_recorded:
  assumes "execs hook_grows (handleSelfHostedResendWebhook hm rq) w r w'" and "r = Inr reply" and "acknowledged reply"
  shows "\<exists>event i scopes. readJsonObject (hm_platform hm) rq = Inr event
    \<and> i = header_text (hq_header rq) ''svix-id'' \<and> scopes = resolveScopes (resend_addresses (hm_platform hm) event) w'
    \<and> scopes \<noteq> [] \<and> receipts_for scopes ''resend'' i w' \<and> (\<not> is_duplicate reply \<longrightarrow> resend_stored hm event i scopes w')"
proof -
  have routed: "routed_by (ms_db (hw_mail w)) w'"
    by (rule execs_keeps_stable [OF assms(1) grow_steps.resend_handler_keeps]) (auto intro!: stable_conj grow_mount.marks_stable)
  obtain event where b: "readJsonObject (hm_platform hm) rq = Inr event"
    using assms by (cases "readJsonObject (hm_platform hm) rq")
      (auto simp: handleSelfHostedResendWebhook_def receiveResendEvent_def dest!: execs_Return read_refused refused_unacknowledged)
  from holdsD [OF grow_mount.self_resend.receive_holds [OF b, of "ms_db (hw_mail w)" hm] _
      assms(1) [unfolded handleSelfHostedResendWebhook_def]] assms(2,3) b
  show ?thesis
    by (auto simp: routed_scopes [OF routed] grow_mount.self_resend.stored_in_def resend_stored_def split: if_splits)
qed

section \<open>Delivering again\<close>

lemma run_find_loop:
  assumes "receipts_for ts provider i w"
  shows "\<exists>x. run_alone (find_loop provider i first ts) w = (w, Inr (Some x))"
  using assms
proof (induction ts arbitrary: first)
  case (Cons t ts)
  then obtain r where r: "find_receipt t provider i w = Some r"
    by (cases "find_receipt t provider i w") (auto simp: receipts_for_def find_receipt_def find_None_iff)
  from Cons have "receipts_for ts provider i w" by (simp add: receipts_for_def)
  from Cons.IH [OF this] r show ?case by simp
qed simp

lemma run_seen:
  assumes "receipts_for (resolveScopes addrs w) provider i w" and "resolveScopes addrs w \<noteq> []"
  shows "\<exists>x. \<forall>k :: string list \<Rightarrow> string option option \<Rightarrow> (hook_world, hook_error, hook_reply) prog. run_alone (bind (scopesFor addrs) (\<lambda>c. bind (ledger_find c provider i) (k c))) w
     = run_alone (k (resolveScopes addrs w) (Some x)) w"
proof -
  have "addrs \<noteq> []" using assms(2) by (auto simp: resolveScopes_def)
  moreover obtain x where "run_alone (find_loop provider i None (resolveScopes addrs w)) w = (w, Inr (Some x))"
    using run_find_loop [OF assms(1)] by blast
  ultimately show ?thesis using assms(2)
    by (intro exI [of _ x]) (simp add: scopesFor_def bind_call_with run_bind ledger_find_def)
qed

lemma seen_delivery:
  assumes "header_text (hq_header rq) ''svix-id'' = i" and "i \<noteq> []" and "\<not> isResendInboundEvent event"
    and "parseResendWebhook (hp_now_text pf) event i = Some e"
    and "receipts_for (resolveScopes (resend_addresses pf event) w) ''resend'' i w"
    and "resolveScopes (resend_addresses pf event) w \<noteq> []" and "rd_ledger deps = receipt_ledger hm"
  shows "\<exists>x. run_alone (resend_delivery deps pf rq event) w = (w, Inr (found_reply x []))"
proof -
  let ?sender = "case opt_prop (json_key event ''data'') ''from'' of Some (JStr t) \<Rightarrow> t | _ \<Rightarrow> []"
  have a: "resend_addresses pf event = (if ?sender \<noteq> [] then [?sender] else [])"
    using assms(3) by (simp add: resend_addresses_def split: option.split json.split)
  have h: "resend_event_id rq v = i" for v using resend_event_header [of rq v] assms(1,2) by simp
  show ?thesis
    using run_seen [OF assms(5,6)] unfolding a
    by (auto simp: resend_delivery_def assms(1,2,4,7) Let_def h receipt_ledger_def)
qed

lemma seen_inbound:
  assumes "header_text (hq_header rq) ''svix-id'' = i" and "i \<noteq> []" and "isResendInboundEvent event"
    and "receipts_for (resolveScopes (resend_addresses pf event) w) ''resend'' i w"
    and "resolveScopes (resend_addresses pf event) w \<noteq> []" and "rd_ledger deps = receipt_ledger hm"
  shows "\<exists>x fs. run_alone (resend_inbound deps pf rq event) w = (w, Inr (found_reply x fs))"
proof -
  let ?p = "parseResendInboundEvent (hp_now_text pf) event"
  have a: "resend_addresses pf event = map recipient_text (pi_to ?p)" using assms(3) by (simp add: resend_addresses_def)
  have h: "resend_event_id rq v = i" for v using resend_event_header [of rq v] assms(1,2) by simp
  show ?thesis
    using run_seen [OF assms(4,5)] unfolding a
    by (auto simp: resend_inbound_def assms(2,6) Let_def h receipt_ledger_def) blast
qed

lemma found_status: "rp_status (found_reply x fs) = 200"
  by (simp add: found_reply_def ok_reply_def hook_json_def)

text \<open>The same mount at another time, perhaps with other collaborators.\<close>

definition later_clock :: "hook_mount \<Rightarrow> hook_mount \<Rightarrow> bool" where
  "later_clock hm hm' \<longleftrightarrow> hm_platform hm' = (hm_platform hm)\<lparr>hp_now := hp_now (hm_platform hm'), hp_now_text := hp_now_text (hm_platform hm')\<rparr>"

lemma later_reads: "readJsonObject (pf\<lparr>hp_now := n, hp_now_text := x\<rparr>) rq = readJsonObject pf rq"
  by (simp add: readJsonObject_def)

lemma later_addresses: "resend_addresses (pf\<lparr>hp_now := n, hp_now_text := x\<rparr>) event = resend_addresses pf event"
  by (simp add: resend_addresses_def parseResendInboundEvent_def Let_def cong: option.case_cong)

lemma later_parses: "parseResendWebhook now event i = None \<longleftrightarrow> parseResendWebhook now' event i = None"
  by (auto simp: parseResendWebhook_def Let_def split: option.splits)

text \<open>What an acknowledgement leaves in the state, and what a redelivery reads of it.\<close>

lemma acknowledged_event:
  assumes "execs hook_grows (handleSelfHostedResendWebhook hm rq) w (Inr reply) w'" and "acknowledged reply"
    and "readJsonObject (hm_platform hm) rq = Inr event"
  shows "or_default (hp_vars (hm_platform hm) ''RESEND_WEBHOOK_SECRET'') [] \<noteq> []"
    and "header_text (hq_header rq) ''svix-id'' \<noteq> []"
    and "isResendInboundEvent event \<or> parseResendWebhook (hp_now_text (hm_platform hm)) event (header_text (hq_header rq) ''svix-id'') \<noteq> None"
    and "receipts_for (resolveScopes (resend_addresses (hm_platform hm) event) w') ''resend'' (header_text (hq_header rq) ''svix-id'') w'"
proof -
  let ?pf = "hm_platform hm" and ?i = "header_text (hq_header rq) ''svix-id''" and ?d = "ms_db (hw_mail w)"
  let ?deps = "mounted_resend hm"
  have x: "execs hook_grows (receiveResendEvent ?deps ?pf rq) w (Inr reply) w'"
    using assms(1) by (simp add: handleSelfHostedResendWebhook_def)
  let ?ok = "verifyResendSignature (hp_mac ?pf) (hp_now ?pf) (hq_text rq) (hq_header rq) (or_default (rd_secret ?deps) [])"
  have v: "or_default (rd_secret ?deps) [] \<noteq> []" "?ok"
    using x assms(2,3) by (auto simp: receiveResendEvent_def Let_def refused_unacknowledged dest!: execs_Return split: if_splits)
  show "or_default (hp_vars ?pf ''RESEND_WEBHOOK_SECRET'') [] \<noteq> []" using v(1) by (simp add: mounted_resend_def)
  show "?i \<noteq> []" using verified_header [OF v(2)] .
  show "isResendInboundEvent event \<or> parseResendWebhook (hp_now_text ?pf) event ?i \<noteq> None"
  proof (rule ccontr)
    assume "\<not> ?thesis"
    then show False using x assms(2,3) v by (auto simp: receiveResendEvent_def Let_def resend_delivery_def dest!: execs_Return)
  qed
  have "routed_by ?d w'"
    by (rule execs_keeps_stable [OF assms(1) grow_steps.resend_handler_keeps]) (auto intro!: stable_conj grow_mount.marks_stable)
  then show "receipts_for (resolveScopes (resend_addresses ?pf event) w') ''resend'' ?i w'"
    using holdsD [OF grow_mount.self_resend.receive_holds [OF assms(3), of ?d hm] _ x] assms(2) by (auto simp: routed_scopes)
qed

text \<open>
  C7. Delivering an acknowledged Resend event again changes nothing.  Routes and tenants are
  fixed while the first delivery runs, and no message, receipt or event is deleted.  Between
  the two anything may run that deletes no receipt and leaves the envelope of the event with a
  tenant and with none it did not have.  Then a second delivery whose signature is still
  accepted, at its own time and with whatever fresh ids and collaborators, answers 200 as a
  duplicate and leaves the whole state as it is.
\<close>

theorem redelivered_event_is_duplicate:
  assumes "execs hook_grows (handleSelfHostedResendWebhook hm rq) w r w'" and "r = Inr reply" and "acknowledged reply"
    and "readJsonObject (hm_platform hm) rq = Inr event" and "set (hw_receipts w') \<subseteq> set (hw_receipts later)"
    and "set (resolveScopes (resend_addresses (hm_platform hm) event) later) \<subseteq> set (resolveScopes (resend_addresses (hm_platform hm) event) w')"
    and "resolveScopes (resend_addresses (hm_platform hm) event) later \<noteq> []"
    and "later_clock hm hm'" and "\<not> resend_forged hm' rq"
  shows "\<exists>again. run_alone (handleSelfHostedResendWebhook hm' rq) later = (later, Inr again)
    \<and> rp_status again = 200 \<and> is_duplicate again"
proof -
  let ?pf = "hm_platform hm" and ?pf' = "hm_platform hm'" and ?i = "header_text (hq_header rq) ''svix-id''"
  let ?deps = "mounted_resend hm'"
  have x: "execs hook_grows (handleSelfHostedResendWebhook hm rq) w (Inr reply) w'" using assms(1,2) by simp
  note ack = acknowledged_event [OF x assms(3,4)]
  obtain n t where pf: "?pf' = ?pf\<lparr>hp_now := n, hp_now_text := t\<rparr>" using assms(8) by (auto simp: later_clock_def)
  have b: "readJsonObject ?pf' rq = Inr event" and a: "resend_addresses ?pf' event = resend_addresses ?pf event"
    using assms(4) by (simp_all only: pf later_reads later_addresses)
  have sec: "or_default (rd_secret ?deps) [] \<noteq> []" using ack(1) by (simp add: mounted_resend_def pf)
  have ok: "verifyResendSignature (hp_mac ?pf') (hp_now ?pf') (hq_text rq) (hq_header rq) (or_default (rd_secret ?deps) [])"
    using assms(9) by (simp add: resend_forged_def mounted_resend_def)
  have s: "receipts_for (resolveScopes (resend_addresses ?pf' event) later) ''resend'' ?i later"
      "resolveScopes (resend_addresses ?pf' event) later \<noteq> []"
    using ack(4) assms(5-7) unfolding a receipts_for_def by (meson subsetD)+
  have l: "rd_ledger ?deps = receipt_ledger hm'" by (simp add: mounted_resend_def)
  have "\<exists>y fs. run_alone (if isResendInboundEvent event then resend_inbound ?deps ?pf' rq event else resend_delivery ?deps ?pf' rq event) later
      = (later, Inr (found_reply y fs))"
  proof (cases "isResendInboundEvent event")
    case True
    with seen_inbound [OF refl ack(2) True s l] show ?thesis by simp
  next
    case False
    have "parseResendWebhook (hp_now_text ?pf') event ?i \<noteq> None"
      using ack(3) False later_parses [of "hp_now_text ?pf" event ?i "hp_now_text ?pf'"] by simp
    then obtain e where e: "parseResendWebhook (hp_now_text ?pf') event ?i = Some e" by blast
    with seen_delivery [OF refl ack(2) False e s l] False show ?thesis by auto
  qed
  then show ?thesis
    using b sec ok by (auto simp: handleSelfHostedResendWebhook_def receiveResendEvent_def Let_def found_status)
qed

section \<open>Events without a tenant\<close>

lemma run_scopes: "run_alone (bind (scopesFor addrs) k) w = run_alone (k (resolveScopes addrs w)) w"
  by (simp add: scopesFor_def resolveScopes_def bind_call_with)

text \<open>
  A signed Resend event whose envelope has no tenant is answered 200 and leaves no trace:
  no receipt, no event and no message, so that the provider does not deliver it again and a
  domain claimed later does not receive it.
\<close>

theorem unscoped_event_acknowledged:
  assumes "readJsonObject (hm_platform hm) rq = Inr event" and "\<not> resend_forged hm rq"
    and "or_default (hp_vars (hm_platform hm) ''RESEND_WEBHOOK_SECRET'') [] \<noteq> []"
    and "isResendInboundEvent event \<or> parseResendWebhook (hp_now_text (hm_platform hm)) event (header_text (hq_header rq) ''svix-id'') \<noteq> None"
    and "resolveScopes (resend_addresses (hm_platform hm) event) w = []"
  shows "\<exists>reply. run_alone (handleSelfHostedResendWebhook hm rq) w = (w, Inr reply)
    \<and> rp_status reply = 200 \<and> json_key (rp_body reply) ''ignored'' \<noteq> None"
proof -
  let ?pf = "hm_platform hm" and ?i = "header_text (hq_header rq) ''svix-id''"
  let ?deps = "mounted_resend hm" and ?addrs = "resend_addresses (hm_platform hm) event"
  have v: "or_default (rd_secret ?deps) [] \<noteq> []"
      "verifyResendSignature (hp_mac ?pf) (hp_now ?pf) (hq_text rq) (hq_header rq) (or_default (rd_secret ?deps) [])"
    using assms(2,3) by (simp_all add: mounted_resend_def resend_forged_def)
  have i: "?i \<noteq> []" using verified_header [OF v(2)] .
  have h: "resend_event_id rq x = ?i" for x using resend_event_header [OF i] .
  have "\<exists>why fs. run_alone (if isResendInboundEvent event then resend_inbound ?deps ?pf rq event else resend_delivery ?deps ?pf rq event) w
      = (w, Inr (ignored_reply why fs))"
  proof (cases "isResendInboundEvent event")
    case True
    with assms(5) i show ?thesis
      by (auto simp: resend_inbound_def Let_def h run_scopes resend_addresses_def mounted_resend_def receipt_ledger_def
          ledger_find_def selfHostedResendInboundSink_def)
  next
    case False
    let ?sender = "case opt_prop (json_key event ''data'') ''from'' of Some (JStr t) \<Rightarrow> t | _ \<Rightarrow> []"
    have a: "(if ?sender \<noteq> [] then [?sender] else []) = ?addrs"
      using False by (simp add: resend_addresses_def split: option.split json.split)
    from False assms(4) obtain e where e: "parseResendWebhook (hp_now_text ?pf) event ?i = Some e" by auto
    show ?thesis
      using False i assms(5) unfolding resend_delivery_def e option.case Let_def h a
      by (auto simp: run_scopes mounted_resend_def receipt_ledger_def ledger_find_def selfHostedDeliveryEventSink_def unscoped_reply_def)
  qed
  then show ?thesis
    using assms(1) v by (auto simp: handleSelfHostedResendWebhook_def receiveResendEvent_def Let_def ignored_reply_def
        ok_reply_def hook_json_def json_key_def map_add_def split: option.split)
qed

section \<open>Inbound events without an id\<close>

lemma missing_email_id:
  assumes "opt_prop (json_key event ''data'') ''email_id'' \<in> {None, Some JNull}"
  shows "pi_provider_message_id (parseResendInboundEvent now event) = JStr []"
  using assms by (auto simp: parseResendInboundEvent_def Let_def nullish_or_def opt_prop_def json_key_def
      split: option.splits json.splits)

lemma upsert_row:
  fixes i sc
  defines "P \<equiv> \<lambda>m. m_tenant m = sc_tenant sc \<and> m_source_id m = mi_source_id i"
  assumes "upsertMessage sc now fresh i s = (s', Inr x)"
  shows "\<exists>m. find P (messages (ms_db s')) = Some m \<and> m_id m = m_id (fst x)"
    and "find P (messages (ms_db s)) = Some r \<Longrightarrow> m_id (fst x) = m_id r
      \<and> messages (ms_db s') = map (\<lambda>m. if P m then messageUpsertAssignments now i (message_of_input fresh now (sc_tenant sc) i) m else m) (messages (ms_db s))"
proof -
  let ?e = "message_of_input fresh now (sc_tenant sc) i"
  let ?f = "messageUpsertAssignments now i ?e"
  have f: "m_tenant (?f m) = m_tenant m" "m_source_id (?f m) = m_source_id m" "m_id (?f m) = m_id m" for m
    by (simp_all add: messageUpsertAssignments_def)
  then have fp: "P (?f m) = P m" for m by (simp add: P_def)
  have e: "P ?e" by (simp add: P_def message_of_input_def)
  show "find P (messages (ms_db s)) = Some r \<Longrightarrow> m_id (fst x) = m_id r
      \<and> messages (ms_db s') = map (\<lambda>m. if P m then ?f m else m) (messages (ms_db s))" for r
    using assms(2) f by (auto simp: upsertMessage_def Let_def P_def split: if_splits)
  show "\<exists>m. find P (messages (ms_db s')) = Some m \<and> m_id m = m_id (fst x)"
  proof (cases "find P (messages (ms_db s))")
    case None
    with assms(2) have "messages (ms_db s') = messages (ms_db s) @ [?e]" "fst x = ?e"
      by (auto simp: upsertMessage_def Let_def P_def split: if_splits)
    with None e show ?thesis by (simp add: find_append)
  next
    case (Some r)
    with assms(2) have m: "messages (ms_db s') = map (\<lambda>m. if P m then ?f m else m) (messages (ms_db s))" "m_id (fst x) = m_id r"
      using f by (auto simp: upsertMessage_def Let_def P_def split: if_splits)
    have "find P (messages (ms_db s')) = Some (?f r)"
      using Some fp by (simp add: m(1) find_map_same)
    with m(2) f show ?thesis by simp
  qed
qed

lemma run_resend_upsert:
  assumes "run_alone (resend_upsert hm p n g) w = (w', Inr x)"
  shows "\<exists>sender received y. x = m_id (fst y)
    \<and> upsertMessage (forTenant (hm_scope hm) (rg_tenant g)) (hp_now (hm_platform hm)) (hm_uuid hm n)
        (resend_input hm p sender (rg_recipients g) received) (hw_mail w) = (hw_mail w', Inr y)"
  using assms
  by (auto simp: resend_upsert_def run_bind call_def embed_call_with bind_call_with store_call_def prod_eq_iff
      split: sum.splits option.splits) blast

text \<open>
  Two different inbound events of Resend that carry no email id end in one message: the
  upsert of the second, for a tenant that has the first, finds the source of the first, so
  that it inserts nothing, answers with the id of the first and overwrites its text.
\<close>

theorem resend_event_without_id_overwrites:
  assumes "opt_prop (json_key event1 ''data'') ''email_id'' \<in> {None, Some JNull}"
    and "opt_prop (json_key event2 ''data'') ''email_id'' \<in> {None, Some JNull}"
    and "run_alone (resend_upsert hm (parseResendInboundEvent now1 event1) n1 g1) w = (w1, Inr i1)"
    and "run_alone (resend_upsert hm (parseResendInboundEvent now2 event2) n2 g2) w1 = (w2, Inr i2)"
    and "rg_tenant g1 = rg_tenant g2"
  shows "i2 = i1 \<and> length (messages (ms_db (hw_mail w2))) = length (messages (ms_db (hw_mail w1)))
    \<and> (\<forall>m \<in> set (messages (ms_db (hw_mail w2))). m_tenant m = rg_tenant g1 \<longrightarrow> m_source_id m = Some ''resend:''
         \<longrightarrow> m_to m = rg_recipients g2 \<and> m_subject m = text_column hm (pi_subject (parseResendInboundEvent now2 event2)))"
proof -
  let ?p1 = "parseResendInboundEvent now1 event1" and ?p2 = "parseResendInboundEvent now2 event2"
  let ?sc = "forTenant (hm_scope hm) (rg_tenant g1)"
  have src: "mi_source_id (resend_input hm ?p1 a b c) = Some ''resend:''" "mi_source_id (resend_input hm ?p2 a b c) = Some ''resend:''" for a b c
    by (simp_all add: resend_input_def missing_email_id [OF assms(1)] missing_email_id [OF assms(2)])
  obtain s1 r1 y1 where u1: "i1 = m_id (fst y1)" "upsertMessage ?sc (hp_now (hm_platform hm)) (hm_uuid hm n1)
      (resend_input hm ?p1 s1 (rg_recipients g1) r1) (hw_mail w) = (hw_mail w1, Inr y1)"
    using run_resend_upsert [OF assms(3)] by blast
  obtain s2 r2 y2 where u2: "i2 = m_id (fst y2)" "upsertMessage ?sc (hp_now (hm_platform hm)) (hm_uuid hm n2)
      (resend_input hm ?p2 s2 (rg_recipients g2) r2) (hw_mail w1) = (hw_mail w2, Inr y2)"
    using run_resend_upsert [OF assms(4)] assms(5) by auto
  let ?P = "\<lambda>m. m_tenant m = sc_tenant ?sc \<and> m_source_id m = Some ''resend:''"
  obtain m where m: "find ?P (messages (ms_db (hw_mail w1))) = Some m" "m_id m = i1"
    using upsert_row(1) [OF u1(2), unfolded src] u1(1) by auto
  note two = upsert_row(2) [OF u2(2), unfolded src, OF m(1)]
  show ?thesis
    using two m(2) u2(1)
    by (auto simp: forTenant_def messageUpsertAssignments_def given_def resend_input_def message_of_input_def or_default_def
        split: if_splits)
qed

end
