(* ===== verification/Webhook_Demo.thy ===== *)
theory Webhook_Demo
  imports Webhook_Outcomes
begin

text \<open>
  Runs of the webhook route on a mailbox with one tenant and one domain: a Resend message,
  a bounce through SNS, and requests that are refused.
\<close>

section \<open>A deployment\<close>

definition demo_mail_event :: json where
  "demo_mail_event = JObj [(''type'', JStr ''email.received''),
     (''data'', JObj [(''from'', JStr ''a@b.c''), (''to'', JArr [JStr ''r@c.d''])])]"

definition demo_bounce :: json where
  "demo_bounce = JObj [(''notificationType'', JStr ''Bounce''), (''mail'', JObj [(''source'', JStr ''r@c.d'')])]"

definition demo_sns :: json where
  "demo_sns = JObj [(''Type'', JStr ''Notification''), (''MessageId'', JStr ''e''), (''TopicArn'', JStr ''arn:aws:s:r:1''),
     (''Timestamp'', JStr ''0''), (''Message'', JStr ''m''), (''Signature'', JStr ''s''), (''SignatureVersion'', JStr ''1''),
     (''SigningCertURL'', JStr ''x'')]"

definition demo_vars :: "string \<Rightarrow> string option" where
  "demo_vars k = (if k = ''RESEND_WEBHOOK_SECRET'' then Some ''s'' else if k = ''EMAILS_SNS_TOPIC_ARNS'' then Some ''arn:aws:s:r:1''
     else if k = ''EMAILS_AWS_ACCOUNT_IDS'' then Some ''1'' else None)"

definition demo_platform :: hook_platform where
  "demo_platform = \<lparr> hp_parse = (\<lambda>t. if t = ''r'' then Some demo_mail_event else if t = ''s'' then Some demo_sns
       else if t = ''m'' then Some demo_bounce else None),
     hp_decode = (\<lambda>_. None), hp_vars = demo_vars, hp_mac = (\<lambda>_ _. Some ''h''), hp_url = (\<lambda>_. None), hp_now = 0,
     hp_now_text = ''0'' \<rparr>"

definition demo_verifier :: sns_verifier where
  "demo_verifier = \<lparr> sv_parse_url = (\<lambda>_. Some \<lparr> url_protocol = ''https:'', url_username = [], url_password = [], url_port = [],
       url_search = [], url_hash = [], url_hostname = ''sns.r.amazonaws.com'',
       url_pathname = ''/SimpleNotificationService-a.pem'', url_href = ''u'' \<rparr>),
     sv_rsa = (\<lambda>_ _ _ _. Some True), sv_fetch = (\<lambda>_. Some ''c''), sv_now = 0 \<rparr>"

definition demo_mount :: hook_mount where
  "demo_mount = \<lparr> hm_scope = \<lparr> sc_tenant = [], sc_atomic = True, sc_unsafe = False, sc_sha256 = (\<lambda>_. []) \<rparr>,
     hm_platform = demo_platform, hm_sns = demo_verifier, hm_ingest = one_worker, hm_le = (\<lambda>_ _. True),
     hm_text = (\<lambda>_. ''x''), hm_instant = (\<lambda>_. Some 0), hm_uuid = (\<lambda>_. ''i''), hm_receipt_uuid = (\<lambda>_. ''j''),
     hm_fetch_url = (\<lambda>_. None) \<rparr>"

definition demo_world :: hook_world where
  "demo_world = \<lparr> hw_mail = empty_box, hw_events = [], hw_receipts = [], hw_certs = [] \<rparr>"

definition demo_request :: "string \<Rightarrow> hook_request" where
  "demo_request t = \<lparr> hq_declared = None, hq_bytes = 1, hq_text = t,
     hq_header = (\<lambda>k. if k = ''svix-id'' then Some ''e'' else if k = ''svix-timestamp'' then Some ''x''
       else if k = ''svix-signature'' then Some ''v1,h'' else None) \<rparr>"

lemma hook_demo_fields [simp]:
  "hm_platform demo_mount = demo_platform" "hm_sns demo_mount = demo_verifier"
  "hm_scope demo_mount = \<lparr> sc_tenant = [], sc_atomic = True, sc_unsafe = False, sc_sha256 = (\<lambda>_. []) \<rparr>"
  "hm_text demo_mount v = ''x''" "hm_instant demo_mount v = Some 0" "hm_uuid demo_mount n = ''i''" "hm_receipt_uuid demo_mount n = ''j''"
  "hp_vars demo_platform = demo_vars" "hp_mac demo_platform k c = Some ''h''" "hp_now demo_platform = 0" "hp_now_text demo_platform = ''0''"
  "hw_mail demo_world = empty_box" "hw_events demo_world = []" "hw_receipts demo_world = []" "hw_certs demo_world = []"
  by (simp_all add: demo_mount_def demo_platform_def demo_world_def)

lemma demo_header: "header_text (hq_header (demo_request t)) ''svix-id'' = ''e''" "hq_header (demo_request t) ''svix-id'' = Some ''e''"
  by (simp_all add: demo_request_def header_text_def or_default_def)

lemma demo_signed: "verifyResendSignature (hp_mac demo_platform) 0 (hq_text (demo_request t)) (hq_header (demo_request t)) ''s''"
  by (simp add: verifyResendSignature_def demo_request_def header_text_def or_default_def svix_fresh_def
      svix_secret_def js_parse_int_def is_digit_def starts_with_text_def)

lemma run_scopesFor: "run_alone (scopesFor addrs) w = (w, Inr (resolveScopes addrs w))"
  using run_scopes [of addrs Return w] by simp

lemma demo_scopes: "resolveScopes [''r@c.d''] demo_world = [''t'']"
  by (simp add: resolveScopes_def demo_resolves)

lemma demo_reads: "readJsonObject demo_platform (demo_request ''r'') = Inr demo_mail_event"
    "readJsonObject demo_platform (demo_request ''s'') = Inr demo_sns"
  by (simp_all add: readJsonObject_def demo_request_def demo_platform_def demo_mail_event_def demo_sns_def)

section \<open>A Resend message\<close>

lemma demo_resend_event:
  "isResendInboundEvent demo_mail_event" "resend_addresses demo_platform demo_mail_event = [''r@c.d'']"
  by (simp_all add: isResendInboundEvent_def resend_addresses_def demo_mail_event_def json_key_def parseResendInboundEvent_def
      Let_def nullish_or_def resend_array_def recipient_text_def)

lemma demo_mail_sender: "resend_sender (parseResendInboundEvent ''0'' demo_mail_event) = Inr ''a@b.c''"
  by (simp add: resend_sender_def parseResendInboundEvent_def demo_mail_event_def json_key_def Let_def nullish_or_def)

lemma demo_resend_run:
  "\<exists>w' reply. run_alone (handleSelfHostedResendWebhook demo_mount (demo_request ''r'')) demo_world = (w', Inr reply)
     \<and> acknowledged reply \<and> hw_receipts w' \<noteq> []"
proof -
  let ?p = "parseResendInboundEvent ''0'' demo_mail_event"
  have to: "map recipient_text (pi_to ?p) = [''r@c.d'']" using demo_resend_event by (simp add: resend_addresses_def)
  have r: "resolveInboundRecipients (ms_db empty_box) [''r@c.d''] = \<lparr> rr_groups = [\<lparr> rg_tenant = ''t'', rg_recipients = [''r@c.d''] \<rparr>], rr_unresolved = [] \<rparr>"
    by (rule demo_resolves) simp_all
  obtain w1 where u: "run_alone (resend_upsert demo_mount ?p 0 \<lparr> rg_tenant = ''t'', rg_recipients = [''r@c.d''] \<rparr>) demo_world = (w1, Inr ''i'')"
      "hw_receipts w1 = []"
    by (simp add: resend_upsert_def demo_mail_sender run_bind call_def embed_call_with upsertMessage_def Let_def resend_input_def
        or_default_def row_violates_def message_of_input_def forTenant_def)
  have rec: "run_alone (record_loop demo_mount ''resend'' ''e'' res 0 [''t'']) w1
      = (w1\<lparr>hw_receipts := [\<lparr> wr_id = ''j'', wr_tenant = ''t'', wr_provider = ''resend'', wr_event_id = ''e'', wr_resource_id = res \<rparr>]\<rparr>, Inr ())" for res
    by (simp add: u(2) find_receipt_def store_call_def run_bind create_receipt_def)
  have f: "find_receipt ''t'' ''resend'' ''e'' demo_world = None" by (simp add: find_receipt_def)
  have sink: "run_alone (selfHostedResendInboundSink demo_mount [''t''] ?p ''e'') demo_world
      = (w1, Inr (Some \<lparr> wp_id = ''i'', wp_receipt_recorded = False \<rparr>))"
    using u(1) by (simp add: selfHostedResendInboundSink_def to r run_bind persisted_def or_default_def)
  have h: "resend_event_id (demo_request ''r'') v = ''e''" for v by (simp add: resend_event_id_def demo_header)
  have "\<exists>fs. run_alone (resend_inbound (mounted_resend demo_mount) demo_platform (demo_request ''r'') demo_mail_event) demo_world
      = (w1\<lparr>hw_receipts := [\<lparr> wr_id = ''j'', wr_tenant = ''t'', wr_provider = ''resend'', wr_event_id = ''e'', wr_resource_id = Some ''i'' \<rparr>]\<rparr>,
         Inr (ok_reply [(''id'', JStr ''i''), (''message_id'', fs)]))"
    by (simp add: resend_inbound_def Let_def h to mounted_resend_def receipt_ledger_def run_scopesFor demo_scopes run_bind
        ledger_find_def f sink record_unless_def rec del: record_loop.simps) blast
  then obtain w2 v where run: "run_alone (resend_inbound (mounted_resend demo_mount) demo_platform (demo_request ''r'') demo_mail_event) demo_world
      = (w2, Inr (ok_reply [(''id'', JStr ''i''), (''message_id'', v)]))" and w2: "hw_receipts w2 \<noteq> []" by force
  have "run_alone (handleSelfHostedResendWebhook demo_mount (demo_request ''r'')) demo_world
      = (w2, Inr (ok_reply [(''id'', JStr ''i''), (''message_id'', v)]))"
    using run demo_signed [of "''r''"]
    by (simp add: handleSelfHostedResendWebhook_def receiveResendEvent_def demo_reads Let_def demo_resend_event
        mounted_resend_def demo_vars_def or_default_def)
  with w2 show ?thesis by (simp add: acknowledged_def ok_reply_def hook_json_def json_key_def)
qed

section \<open>A bounce through SNS\<close>

lemma demo_envelope: "sns_envelope demo_verifier demo_sns \<noteq> None"
  by (simp add: sns_envelope_def demo_verifier_def demo_sns_def canonicalSnsMessage_def sns_fields_def json_key_def text_prop_def
      canonicalSnsCertificateUrl_def or_default_def sns_host_def sns_pem_path_def starts_with_text_def pem_char_def
      domain_alnum_def lower_char_def)

lemma demo_gate: "ses_gate (mounted_ses demo_mount mappings) demo_platform (demo_request ''s'') demo_sns = Inr None"
  by (simp add: ses_gate_def mounted_ses_def or_default_def verifySnsStructure_def demo_sns_def json_key_def starts_with_text_def
      snsPolicyFromEnv_def demo_vars_def env_items_def js_unique_def trim_by_def is_ws_def is_ws_unit_def Let_def
      snsMessageAllowed_def text_prop_def)

lemma demo_verified: "\<exists>cs. run_alone (sns_check demo_mount demo_sns) demo_world = (demo_world\<lparr>hw_certs := cs\<rparr>, Inr True)"
proof -
  obtain e where e: "sns_envelope demo_verifier demo_sns = Some e" using demo_envelope by blast
  have f: "fetched_certificate demo_verifier u = Some ''c''" for u by (simp add: fetched_certificate_def demo_verifier_def)
  have c: "\<exists>cs. check_signature demo_verifier e True ''c'' [] = (cs, True)"
    by (cases e) (simp add: check_signature_def demo_verifier_def)
  show ?thesis using c
    by (auto simp: sns_check_def verifyAwsSnsSignature_def e f embed_call_with getCachedCertificate_def or_default_def)
qed

lemma demo_bounce_event:
  "parseSesWebhook ''0'' demo_bounce ''e'' = Some \<lparr> we_provider_event_id = JStr ''e'', we_type = bounced, we_recipient = None,
     we_provider_message_id = None, we_occurred_at = JStr ''0'', we_metadata = demo_bounce \<rparr>"
  by (simp add: parseSesWebhook_def demo_bounce_def json_key_def opt_prop_def ses_type_def truthy_or_def Let_def first_element_def)

lemma demo_inner: "innerSesNotification demo_platform demo_sns = demo_bounce"
  by (simp add: innerSesNotification_def demo_sns_def text_prop_def json_key_def demo_platform_def demo_bounce_def)

lemma demo_bounce_texts: "text_prop demo_sns ''MessageId'' = Some ''e''" "text_prop demo_bounce ''notificationType'' = Some ''Bounce''"
    "text_prop (nullish_or (json_key demo_bounce ''mail'') (JObj [])) ''source'' = Some ''r@c.d''"
    "ses_message_type (demo_request ''s'') demo_sns = Some (JStr ''Notification'')"
  by (simp_all add: demo_sns_def demo_bounce_def text_prop_def json_key_def nullish_or_def ses_message_type_def)

lemma demo_ses_run:
  "\<exists>w' reply. run_alone (handleSelfHostedSesWebhook demo_mount (demo_request ''s'')) demo_world = (w', Inr reply)
     \<and> acknowledged reply \<and> hw_events w' \<noteq> []"
proof -
  obtain cs where v: "run_alone (sns_check demo_mount demo_sns) demo_world = (demo_world\<lparr>hw_certs := cs\<rparr>, Inr True)"
    using demo_verified by blast
  let ?w = "demo_world\<lparr>hw_certs := cs\<rparr>"
  let ?e = "\<lparr> we_provider_event_id = JStr ''e'', we_type = bounced, we_recipient = None,
     we_provider_message_id = None, we_occurred_at = JStr ''0'', we_metadata = demo_bounce \<rparr>"
  have sc: "resolveScopes [''r@c.d''] ?w = [''t'']" using demo_scopes by (simp add: resolveScopes_def)
  have f: "find_receipt ''t'' ''sns'' ''e'' ?w = None" by (simp add: find_receipt_def)
  have "\<exists>w2. createWebhookDeliveryEvent (forTenant (hm_scope demo_mount) ''t'') ''i'' ''j'' ''sns'' ''e'' (event_input demo_mount ?e None) ?w
      = (w2, Inr ''i'') \<and> hw_events w2 \<noteq> []"
    by (simp add: createWebhookDeliveryEvent_def forTenant_def insert_event_def event_input_def Let_def ensure_receipt_def create_receipt_def)
  then obtain w2 where c: "createWebhookDeliveryEvent (forTenant (hm_scope demo_mount) ''t'') ''i'' ''j'' ''sns'' ''e'' (event_input demo_mount ?e None) ?w
      = (w2, Inr ''i'')" "hw_events w2 \<noteq> []" by blast
  have sink: "run_alone (selfHostedDeliveryEventSink demo_mount ''sns'' [''t''] ?e ''e'') ?w
      = (w2, Inr (Some \<lparr> wp_id = ''i'', wp_receipt_recorded = True \<rparr>))"
    using c(1) by (simp add: selfHostedDeliveryEventSink_def run_bind store_call_def persisted_def or_default_def)
  have d: "run_alone (ses_delivery (mounted_ses demo_mount m) demo_platform demo_bounce ''e'') ?w = (w2, Inr (event_reply ?e ''i''))" for m
    by (simp add: ses_delivery_def demo_bounce_texts or_default_def Let_def mounted_ses_def receipt_ledger_def run_bind
        run_scopesFor sc ledger_find_def f demo_bounce_event sink record_unless_def)
  have sv: "sd_verify (mounted_ses demo_mount m) = sns_check demo_mount" for m by (simp add: mounted_ses_def)
  have r: "run_alone (receiveSesNotification (mounted_ses demo_mount m) demo_platform (demo_request ''s'')) demo_world
      = (w2, Inr (event_reply ?e ''i''))" for m
    using d v by (simp add: receiveSesNotification_def demo_reads demo_gate run_bind ses_verified_def Let_def or_default_def
        demo_bounce_texts demo_inner sv)
  have "parseInboundPrefixDomainMap le parse None = Inr []" for le parse
    by (simp add: parseInboundPrefixDomainMap_def)
  then have "run_alone (handleSelfHostedSesWebhook demo_mount (demo_request ''s'')) demo_world = (w2, Inr (event_reply ?e ''i''))"
    by (simp add: handleSelfHostedSesWebhook_def r demo_vars_def)
  with c(2) show ?thesis by (simp add: acknowledged_def event_reply_def ok_reply_def hook_json_def json_key_def)
qed

section \<open>The properties on these runs\<close>

lemma demo_ok: "hook_ok demo_world"
  using empty_box_ok by (simp add: hook_ok_def)

lemma webhooks_never_duplicate_witness:
  "hook_ok (fst (run_alone (handleSelfHostedResendWebhook demo_mount (demo_request ''r'')) demo_world))"
  using keeps_run [OF webhooks_never_duplicate [THEN conjunct2, of demo_mount "demo_request ''r''"], of demo_world] demo_ok by blast

lemma forged_webhook_changes_nothing_witness:
  "keeps_in (trusted_cache (\<lambda>_ _. True)) (\<lambda>w w'. hook_tables w' = hook_tables w \<and> trusted_cache (\<lambda>_ _. True) w')
     (the (webhook_route demo_mount SES_INBOUND_V1_WEBHOOK_PATH ''POST'' (demo_request ''m'')))"
proof -
  have paths: "SES_INBOUND_V1_WEBHOOK_PATH \<noteq> RESEND_INBOUND_V1_WEBHOOK_PATH"
    by (simp add: SES_INBOUND_V1_WEBHOOK_PATH_def RESEND_INBOUND_V1_WEBHOOK_PATH_def)
  obtain p where p: "webhook_route demo_mount SES_INBOUND_V1_WEBHOOK_PATH ''POST'' (demo_request ''m'') = Some p"
    by (simp add: webhook_route_def)
  have "\<not> snsMessageAllowed demo_bounce policy" if "snsPolicyFromEnv demo_vars = Inr policy" for policy
    using that by (auto simp: snsMessageAllowed_def demo_bounce_def text_prop_def json_key_def or_default_def
        snsPolicyFromEnv_def demo_vars_def env_items_def js_unique_def trim_by_def is_ws_def is_ws_unit_def Let_def)
  moreover have "readJsonObject demo_platform (demo_request ''m'') = Inr demo_bounce"
    by (simp add: readJsonObject_def demo_request_def demo_platform_def demo_bounce_def)
  ultimately have "ses_forged (\<lambda>_ _. True) demo_mount (demo_request ''m'') \<and> trusted_fetch (\<lambda>_ _. True) (hm_sns demo_mount)"
    by (auto simp: ses_forged_def trusted_fetch_def)
  with forged_webhook_changes_nothing [OF p, of "\<lambda>_ _. True"] paths p show ?thesis by simp
qed

lemma acknowledged_ses_recorded_witness:
  "\<exists>w' body i scopes. readJsonObject demo_platform (demo_request ''s'') = Inr body
     \<and> scopes = resolveScopes (ses_addresses demo_platform (demo_request ''s'') body) w' \<and> receipts_for scopes ''sns'' i w'"
proof -
  obtain w' reply where r: "run_alone (handleSelfHostedSesWebhook demo_mount (demo_request ''s'')) demo_world = (w', Inr reply)"
    "acknowledged reply" using demo_ses_run by blast
  have x: "execs hook_env (handleSelfHostedSesWebhook demo_mount (demo_request ''s'')) demo_world (Inr reply) w'"
    using execs_run [where E = hook_env and p = "handleSelfHostedSesWebhook demo_mount (demo_request ''s'')" and s = demo_world] r(1) by simp
  from acknowledged_ses_recorded [OF x refl r(2)] show ?thesis by auto
qed

lemma demo_resend_execs:
  obtains w' reply where "execs hook_grows (handleSelfHostedResendWebhook demo_mount (demo_request ''r'')) demo_world (Inr reply) w'"
    and "acknowledged reply"
proof -
  obtain w' reply where r: "run_alone (handleSelfHostedResendWebhook demo_mount (demo_request ''r'')) demo_world = (w', Inr reply)"
    "acknowledged reply" using demo_resend_run by blast
  have "execs hook_grows (handleSelfHostedResendWebhook demo_mount (demo_request ''r'')) demo_world (Inr reply) w'"
    using execs_run [where E = hook_grows and p = "handleSelfHostedResendWebhook demo_mount (demo_request ''r'')" and s = demo_world] r(1) by simp
  with r(2) show thesis by (rule that [rotated])
qed

lemma acknowledged_resend_recorded_witness:
  "\<exists>w' i scopes. scopes = resolveScopes [''r@c.d''] w' \<and> scopes \<noteq> [] \<and> receipts_for scopes ''resend'' i w'"
proof -
  obtain w' reply where r: "execs hook_grows (handleSelfHostedResendWebhook demo_mount (demo_request ''r'')) demo_world (Inr reply) w'"
    "acknowledged reply" by (rule demo_resend_execs)
  from acknowledged_resend_recorded [OF r(1) refl r(2)] show ?thesis
    by (auto simp: demo_reads demo_resend_event)
qed

lemma redelivered_event_is_duplicate_witness:
  "\<exists>w' again. run_alone (handleSelfHostedResendWebhook demo_mount (demo_request ''r'')) w' = (w', Inr again) \<and> is_duplicate again"
proof -
  obtain w' reply where r: "execs hook_grows (handleSelfHostedResendWebhook demo_mount (demo_request ''r'')) demo_world (Inr reply) w'"
    "acknowledged reply" by (rule demo_resend_execs)
  have e: "readJsonObject (hm_platform demo_mount) (demo_request ''r'') = Inr demo_mail_event" by (simp add: demo_reads)
  have s: "resolveScopes (resend_addresses (hm_platform demo_mount) demo_mail_event) w' \<noteq> []"
    using acknowledged_resend_recorded [OF r(1) refl r(2)] by (auto simp: demo_reads demo_resend_event)
  have f: "\<not> resend_forged demo_mount (demo_request ''r'')"
    using demo_signed by (simp add: resend_forged_def demo_vars_def or_default_def)
  have c: "later_clock demo_mount demo_mount" by (simp add: later_clock_def)
  from redelivered_event_is_duplicate [OF r(1) refl r(2) e subset_refl subset_refl s c f] show ?thesis by blast
qed

lemma unscoped_event_acknowledged_witness:
  "\<exists>reply. run_alone (handleSelfHostedResendWebhook demo_mount (demo_request ''r''))
       (demo_world\<lparr>hw_mail := empty_box\<lparr>ms_db := (ms_db empty_box)\<lparr>routes := []\<rparr>\<rparr>\<rparr>)
     = (demo_world\<lparr>hw_mail := empty_box\<lparr>ms_db := (ms_db empty_box)\<lparr>routes := []\<rparr>\<rparr>\<rparr>, Inr reply) \<and> rp_status reply = 200"
proof -
  let ?w = "demo_world\<lparr>hw_mail := empty_box\<lparr>ms_db := (ms_db empty_box)\<lparr>routes := []\<rparr>\<rparr>\<rparr>"
  have "recipient_tenant (ms_db (hw_mail ?w)) x = None" for x
    by (simp add: recipient_tenant_def tenant_for_def route_of_def split: option.split)
  then have "rr_groups (resolveInboundRecipients (ms_db (hw_mail ?w)) [''r@c.d'']) = []"
    using resolve_groups [of "ms_db (hw_mail ?w)" "[''r@c.d'']"] resolve_group_ne
    by (metis list.set_intros(1) neq_Nil_conv option.distinct(1))
  then have s: "resolveScopes [''r@c.d''] ?w = []" by (simp add: resolveScopes_def)
  have f: "\<not> resend_forged demo_mount (demo_request ''r'')"
    using demo_signed by (simp add: resend_forged_def demo_vars_def or_default_def)
  show ?thesis
    using unscoped_event_acknowledged [of demo_mount "demo_request ''r''" demo_mail_event ?w] f s demo_reads demo_resend_event
    by (auto simp: demo_vars_def or_default_def)
qed

lemma resend_event_without_id_overwrites_witness:
  "\<exists>w1 w2 i1 i2. run_alone (resend_upsert demo_mount (parseResendInboundEvent ''0'' demo_mail_event) 0
       \<lparr> rg_tenant = ''t'', rg_recipients = [''r@c.d''] \<rparr>) demo_world = (w1, Inr i1)
     \<and> run_alone (resend_upsert demo_mount (parseResendInboundEvent ''0'' demo_mail_event) 1
       \<lparr> rg_tenant = ''t'', rg_recipients = [''r@c.d''] \<rparr>) w1 = (w2, Inr i2) \<and> i2 = i1"
proof -
  let ?p = "parseResendInboundEvent ''0'' demo_mail_event" and ?g = "\<lparr> rg_tenant = ''t'', rg_recipients = [''r@c.d''] \<rparr>"
  have id0: "opt_prop (json_key demo_mail_event ''data'') ''email_id'' \<in> {None, Some JNull}"
    by (simp add: demo_mail_event_def json_key_def opt_prop_def)
  have src: "mi_source_id (resend_input demo_mount ?p a b c) = Some ''resend:''" for a b c
    by (simp add: resend_input_def missing_email_id [OF id0])
  have "\<exists>w1 e. run_alone (resend_upsert demo_mount ?p 0 ?g) demo_world = (w1, Inr ''i'') \<and> messages (ms_db (hw_mail w1)) = [e]
      \<and> m_tenant e = ''t'' \<and> m_source_id e = Some ''resend:''"
    by (simp add: resend_upsert_def demo_mail_sender run_bind call_def embed_call_with upsertMessage_def Let_def src
        or_default_def row_violates_def message_of_input_def forTenant_def)
  then obtain w1 e where one: "run_alone (resend_upsert demo_mount ?p 0 ?g) demo_world = (w1, Inr ''i'')"
    and e: "messages (ms_db (hw_mail w1)) = [e]" "m_tenant e = ''t''" "m_source_id e = Some ''resend:''" by blast
  have "\<exists>w2 i2. run_alone (resend_upsert demo_mount ?p 1 ?g) w1 = (w2, Inr i2)"
    by (simp add: resend_upsert_def demo_mail_sender run_bind call_def embed_call_with upsertMessage_def Let_def src
        or_default_def forTenant_def e)
  then obtain w2 i2 where two: "run_alone (resend_upsert demo_mount ?p 1 ?g) w1 = (w2, Inr i2)" by blast
  with resend_event_without_id_overwrites [OF id0 id0 one two] one show ?thesis by auto
qed

end
