(* ===== verification/Mailbox_Folders.thy ===== *)
theory Mailbox_Folders
  imports Store_Schema
begin

text \<open>
  What the mailbox views read of a message row: its list order and folder flags, the folder
  predicates of src/server/self-hosted/store.ts, and the address parser and folder slots of
  migration 0019 (src/server/self-hosted/migrations.ts).  The words the SQL compares with are
  ASCII, so \<open>lower\<close> may be the case folding of the prelude.
\<close>

section \<open>Order and flags of a row\<close>

definition sort_ts :: "message \<Rightarrow> int" where
  "sort_ts m = or_default (m_received_at m) (m_created_at m)"

definition is_out :: "message \<Rightarrow> bool" where
  "is_out m \<longleftrightarrow> js_lower (m_direction m) = ''outbound''"

definition is_arch :: "message \<Rightarrow> bool" where
  "is_arch m \<longleftrightarrow> ''archived'' \<in> set (m_labels m)"

definition is_spam :: "message \<Rightarrow> bool" where
  "is_spam m \<longleftrightarrow> ''spam'' \<in> set (m_labels m) \<or> js_lower (m_status m) = ''spam''"

definition is_trash :: "message \<Rightarrow> bool" where
  "is_trash m \<longleftrightarrow> ''trash'' \<in> set (m_labels m)"

section \<open>Folders\<close>

datatype message_folder = Inbox | Starred | Sent | Archived | Spam | Trash

fun FOLDER_PREDICATES :: "message_folder \<Rightarrow> (message \<Rightarrow> bool) list" where
  "FOLDER_PREDICATES Inbox =
     [\<lambda>m. \<not> is_out m, \<lambda>m. \<not> is_arch m, \<lambda>m. \<not> is_spam m, \<lambda>m. \<not> is_trash m]"
| "FOLDER_PREDICATES Starred =
     [m_is_starred, \<lambda>m. \<not> is_out m, \<lambda>m. \<not> is_arch m, \<lambda>m. \<not> is_spam m, \<lambda>m. \<not> is_trash m]"
| "FOLDER_PREDICATES Sent = [is_out]"
| "FOLDER_PREDICATES Archived =
     [is_arch, \<lambda>m. \<not> is_out m, \<lambda>m. \<not> is_spam m, \<lambda>m. \<not> is_trash m]"
| "FOLDER_PREDICATES Spam = [is_spam, \<lambda>m. \<not> is_out m]"
| "FOLDER_PREDICATES Trash = [is_trash, \<lambda>m. \<not> is_out m]"

definition in_folder :: "message_folder \<Rightarrow> message \<Rightarrow> bool" where
  "in_folder f m \<longleftrightarrow> (\<forall>p \<in> set (FOLDER_PREDICATES f). p m)"

text \<open>\<open>emails_folder_slots\<close> gives the names of the counters a row is counted in.\<close>

definition emails_folder_slots :: "message \<Rightarrow> string list" where
  "emails_folder_slots m =
     [''total'']
     @ (if is_out m then [''sent''] else [])
     @ (if \<not> is_out m \<and> \<not> is_arch m \<and> \<not> is_spam m \<and> \<not> is_trash m then [''inbox''] else [])
     @ (if \<not> is_out m \<and> \<not> is_arch m \<and> \<not> is_spam m \<and> \<not> is_trash m \<and> \<not> m_is_read m then [''unread''] else [])
     @ (if \<not> is_out m \<and> m_is_starred m \<and> \<not> is_arch m \<and> \<not> is_spam m \<and> \<not> is_trash m then [''starred''] else [])
     @ (if \<not> is_out m \<and> is_arch m \<and> \<not> is_spam m \<and> \<not> is_trash m then [''archived''] else [])
     @ (if \<not> is_out m \<and> is_spam m then [''spam''] else [])
     @ (if \<not> is_out m \<and> is_trash m then [''trash''] else [])"

text \<open>The slots are the folders of the row, and no slot comes twice.\<close>

lemma distinct_slots: "distinct (emails_folder_slots m)"
  by (simp add: emails_folder_slots_def)

lemma slots_are_folders:
  "''total'' \<in> set (emails_folder_slots m)"
  "''inbox'' \<in> set (emails_folder_slots m) \<longleftrightarrow> in_folder Inbox m"
  "''unread'' \<in> set (emails_folder_slots m) \<longleftrightarrow> in_folder Inbox m \<and> \<not> m_is_read m"
  "''starred'' \<in> set (emails_folder_slots m) \<longleftrightarrow> in_folder Starred m"
  "''sent'' \<in> set (emails_folder_slots m) \<longleftrightarrow> in_folder Sent m"
  "''archived'' \<in> set (emails_folder_slots m) \<longleftrightarrow> in_folder Archived m"
  "''spam'' \<in> set (emails_folder_slots m) \<longleftrightarrow> in_folder Spam m"
  "''trash'' \<in> set (emails_folder_slots m) \<longleftrightarrow> in_folder Trash m"
  unfolding emails_folder_slots_def in_folder_def by auto

section \<open>Addresses of a recipient text\<close>

definition ascii_alnum :: "char \<Rightarrow> bool" where
  "ascii_alnum c \<longleftrightarrow> (let n = of_char c :: nat in
     (48 \<le> n \<and> n \<le> 57) \<or> (65 \<le> n \<and> n \<le> 90) \<or> (97 \<le> n \<and> n \<le> 122))"

definition local_char :: "char \<Rightarrow> bool" where
  "local_char c \<longleftrightarrow> ascii_alnum c \<or> c \<in> set ''._%+-''"

definition domain_char :: "char \<Rightarrow> bool" where
  "domain_char c \<longleftrightarrow> ascii_alnum c \<or> c \<in> set ''.-''"

text \<open>\<open>substring(raw FROM '<([^<>]*)>')\<close>: the leftmost pair of brackets with none between.\<close>

fun angle_text :: "string \<Rightarrow> string option" where
  "angle_text [] = None"
| "angle_text (c # cs) =
     (if c = CHR ''<'' \<and> (\<exists>r. dropWhile (\<lambda>x. x \<notin> set ''<>'') cs = CHR ''>'' # r)
      then Some (takeWhile (\<lambda>x. x \<notin> set ''<>'') cs) else angle_text cs)"

text \<open>
  \<open>substring(s FROM '[A-Za-z0-9._%+-]+@[A-Za-z0-9.-]*[A-Za-z0-9]')\<close>: the leftmost match, and
  of those the longest.  A match that starts at a position takes the whole run of local
  characters, because the at sign is not one of them.
\<close>

definition address_here :: "string \<Rightarrow> string option" where
  "address_here s =
     (let name = takeWhile local_char s;
          host = rev (dropWhile (\<lambda>c. \<not> ascii_alnum c) (rev (takeWhile domain_char (tl (dropWhile local_char s)))))
      in if name \<noteq> [] \<and> dropWhile local_char s \<noteq> [] \<and> hd (dropWhile local_char s) = CHR ''@'' \<and> host \<noteq> []
         then Some (name @ CHR ''@'' # host) else None)"

fun address_in :: "string \<Rightarrow> string option" where
  "address_in [] = None"
| "address_in (c # cs) = (case address_here (c # cs) of Some a \<Rightarrow> Some a | None \<Rightarrow> address_in cs)"

definition emails_extract_address :: "string \<Rightarrow> string option" where
  "emails_extract_address raw =
     map_option js_lower (address_in
       (if CHR ''<'' \<in> set raw then (case angle_text raw of Some s \<Rightarrow> s | None \<Rightarrow> raw) else raw))"

text \<open>\<open>NULLIF(split_part(address, '@', 2), '')\<close>.\<close>

definition emails_extract_domain :: "string \<Rightarrow> string option" where
  "emails_extract_domain raw =
     (case emails_extract_address raw of
        None \<Rightarrow> None
      | Some a \<Rightarrow> (case split_on CHR ''@'' a of
          _ # d # _ \<Rightarrow> if d = [] then None else Some d
        | _ \<Rightarrow> None))"

text \<open>The domain is a function of the address, and every parsed address has one.\<close>

definition address_domain :: "string \<Rightarrow> string" where
  "address_domain a = tl (dropWhile (\<lambda>c. c \<noteq> CHR ''@'') a)"

lemma char_classes: "local_char c \<Longrightarrow> c \<noteq> CHR ''@''" "domain_char c \<Longrightarrow> c \<noteq> CHR ''@''"
  by (auto simp: local_char_def domain_char_def ascii_alnum_def)

lemma rev_dropWhile_rev:
  assumes "h = rev (dropWhile P (rev t))"
  shows "set h \<subseteq> set t" and "h \<noteq> [] \<Longrightarrow> \<not> P (last h)"
proof -
  show "set h \<subseteq> set t" using set_dropWhileD [of _ P "rev t"] by (auto simp: assms)
  show "\<not> P (last h)" if "h \<noteq> []" using that hd_dropWhile_not [of P "rev t"] by (simp add: assms last_rev)
qed

lemma address_here_shape:
  assumes "address_here s = Some a"
  shows "\<exists>name host. a = name @ CHR ''@'' # host \<and> name \<noteq> [] \<and> host \<noteq> []
    \<and> (\<forall>c \<in> set name. local_char c) \<and> (\<forall>c \<in> set host. domain_char c) \<and> ascii_alnum (last host)"
proof -
  define name where "name = takeWhile local_char s"
  define run where "run = takeWhile domain_char (tl (dropWhile local_char s))"
  define host where "host = rev (dropWhile (\<lambda>c. \<not> ascii_alnum c) (rev run))"
  have a: "a = name @ CHR ''@'' # host" "name \<noteq> []" "host \<noteq> []"
    using assms unfolding address_here_def Let_def name_def [symmetric] run_def [symmetric] host_def [symmetric]
    by (simp_all split: if_splits)
  have "\<forall>c \<in> set name. local_char c" "\<forall>c \<in> set run. domain_char c"
    unfolding name_def run_def by (meson set_takeWhileD)+
  with a rev_dropWhile_rev [OF host_def] show ?thesis by blast
qed

lemma address_in_shape: "address_in s = Some a \<Longrightarrow> \<exists>t. address_here t = Some a"
  by (induction s) (auto split: option.splits)

lemma lower_not_at: "c \<noteq> CHR ''@'' \<Longrightarrow> local_char c \<or> domain_char c \<Longrightarrow> lower_char c \<noteq> CHR ''@''"
proof -
  assume c: "c \<noteq> CHR ''@''" "local_char c \<or> domain_char c"
  show ?thesis
  proof
    assume l: "lower_char c = CHR ''@''"
    then have "(of_char (lower_char c) :: nat) = 64" by simp
    moreover have "(of_char c :: nat) < 256" by simp
    ultimately have "of_char c = (64 :: nat)" by (auto simp: lower_char_def Let_def mod_if split: if_splits)
    then have "of_char c = (of_char (CHR ''@'') :: nat)" by simp
    then show False using c(1) by (simp only: of_char_eq_iff)
  qed
qed

lemma extracted_shape:
  assumes "emails_extract_address raw = Some a"
  shows "emails_extract_domain raw = Some (address_domain a)" and "address_domain a \<noteq> []"
proof -
  obtain s b where b: "a = js_lower b" "address_here s = Some b"
    using assms by (auto simp: emails_extract_address_def dest!: address_in_shape)
  obtain name host where h: "b = name @ CHR ''@'' # host" "name \<noteq> []" "host \<noteq> []"
      "\<forall>c \<in> set name. local_char c" "\<forall>c \<in> set host. domain_char c"
    using address_here_shape [OF b(2)] by blast
  have n: "CHR ''@'' \<notin> set (js_lower name)" "CHR ''@'' \<notin> set (js_lower host)"
    using h(4,5) lower_not_at char_classes by (fastforce simp: js_lower_def)+
  have a: "a = js_lower name @ CHR ''@'' # js_lower host"
    using b h by (simp add: js_lower_def lower_char_def)
  have "\<forall>x \<in> set (js_lower name). x \<noteq> CHR ''@''" using n(1) by blast
  then have d: "address_domain a = js_lower host" by (simp add: address_domain_def a)
  show "address_domain a \<noteq> []" using d h(3) by simp
  show "emails_extract_domain raw = Some (address_domain a)"
    using h(3) by (simp add: emails_extract_domain_def assms d)
      (simp add: a split_on_append [OF n(1)] split_on_none [OF n(2)])
qed

lemma extract_domain_eq:
  "emails_extract_domain raw = map_option address_domain (emails_extract_address raw)"
proof (cases "emails_extract_address raw")
  case None then show ?thesis by (simp add: emails_extract_domain_def)
next
  case (Some a) then show ?thesis using extracted_shape [OF Some] by simp
qed

text \<open>A bare address and an address in brackets after a display name are read as written.\<close>

lemma address_here_whole:
  assumes "name \<noteq> []" "\<forall>c \<in> set name. local_char c" "\<forall>c \<in> set host. domain_char c" "host \<noteq> []" "ascii_alnum (last host)"
  shows "address_here (name @ CHR ''@'' # host) = Some (name @ CHR ''@'' # host)"
proof -
  have n: "\<not> local_char CHR ''@''" using char_classes(1) by blast
  have "takeWhile local_char (name @ CHR ''@'' # host) = name"
      "dropWhile local_char (name @ CHR ''@'' # host) = CHR ''@'' # host"
    using assms(2) n by (simp_all add: takeWhile_append2 dropWhile_append2)
  moreover have t: "takeWhile domain_char host = host" using takeWhile_eq_all_conv assms(3) by blast
  moreover have "rev (dropWhile (\<lambda>c. \<not> ascii_alnum c) (rev host)) = host"
    using assms(4,5) by (simp add: dropWhile_id hd_rev)
  ultimately have "tl (dropWhile local_char (name @ CHR ''@'' # host)) = host" by simp
  then show ?thesis
    using assms(1,4) \<open>takeWhile local_char _ = name\<close> \<open>dropWhile local_char _ = _\<close> \<open>rev _ = host\<close>
    unfolding address_here_def Let_def by (simp only: t) simp
qed

lemma extract_named:
  assumes "name \<noteq> []" "\<forall>c \<in> set name. local_char c" "\<forall>c \<in> set host. domain_char c" "host \<noteq> []" "ascii_alnum (last host)"
    and "CHR ''<'' \<notin> set display"
  shows "emails_extract_address (display @ ''<'' @ name @ ''@'' @ host @ ''>'') = Some (js_lower (name @ ''@'' @ host))"
    and "emails_extract_address (name @ ''@'' @ host) = Some (js_lower (name @ ''@'' @ host))"
proof -
  let ?a = "name @ CHR ''@'' # host"
  have plain: "\<forall>c \<in> set ?a. c \<notin> set ''<>''"
    using assms(2,3) by (auto simp: local_char_def domain_char_def ascii_alnum_def)
  have t: "takeWhile (\<lambda>x. x \<notin> set ''<>'') (?a @ [CHR ''>'']) = ?a"
      "dropWhile (\<lambda>x. x \<notin> set ''<>'') (?a @ [CHR ''>'']) = [CHR ''>'']"
    using takeWhile_append2 [of ?a "\<lambda>x. x \<notin> set ''<>''" "''>''"]
      dropWhile_append2 [of ?a "\<lambda>x. x \<notin> set ''<>''" "''>''"] plain by simp_all
  have "angle_text (display @ CHR ''<'' # ?a @ [CHR ''>'']) = Some ?a"
    using assms(6) by (induction display) (use t in auto)
  moreover have in_a: "address_in ?a = Some ?a"
    using address_here_whole [OF assms(1-5)] assms(1) by (cases name) simp_all
  ultimately show "emails_extract_address (display @ ''<'' @ name @ ''@'' @ host @ ''>'') = Some (js_lower (name @ ''@'' @ host))"
    by (simp add: emails_extract_address_def)
  have "CHR ''<'' \<notin> set ?a" using plain by fastforce
  with in_a show "emails_extract_address (name @ ''@'' @ host) = Some (js_lower (name @ ''@'' @ host))"
    by (simp add: emails_extract_address_def)
qed

end
