(* ===== verification/Keyset.thy ===== *)
theory Keyset
  imports Emails_Prelude
begin

text \<open>
  Keyset pagination.  A page holds the first \<open>limit\<close> rows after a cursor in the order of
  their keys, and a full page names the key of its last row as the next cursor.  The rows may
  change between two pages.
\<close>

section \<open>Pages\<close>

definition keyset_page :: "('k \<Rightarrow> 'k \<Rightarrow> bool) \<Rightarrow> ('r \<Rightarrow> 'k) \<Rightarrow> nat \<Rightarrow> 'r list \<Rightarrow> 'k option \<Rightarrow> 'r list" where
  "keyset_page before key limit rows cursor =
     take limit (stable_sort (\<lambda>x y. \<not> before (key y) (key x))
       (filter (\<lambda>r. case cursor of None \<Rightarrow> True | Some k \<Rightarrow> before k (key r)) rows))"

definition keyset_next :: "('r \<Rightarrow> 'k) \<Rightarrow> nat \<Rightarrow> 'r list \<Rightarrow> 'k option" where
  "keyset_next key limit page = (if length page = limit \<and> page \<noteq> [] then Some (key (last page)) else None)"

lemma keyset_page_in: "r \<in> set (keyset_page before key limit rows cursor) \<Longrightarrow> r \<in> set rows"
  by (auto simp: keyset_page_def dest: in_set_takeD)

text \<open>
  A scan reads one page of each state in turn and follows the cursors: the pages and whether
  the last one named no next page.
\<close>

fun keyset_scan :: "('k \<Rightarrow> 'k \<Rightarrow> bool) \<Rightarrow> ('r \<Rightarrow> 'k) \<Rightarrow> nat \<Rightarrow> 'r list list \<Rightarrow> 'k option \<Rightarrow> 'r list \<times> bool" where
  "keyset_scan before key limit [] cursor = ([], False)"
| "keyset_scan before key limit (rows # later) cursor =
     (let page = keyset_page before key limit rows cursor in
      case keyset_next key limit page of
        None \<Rightarrow> (page, True)
      | Some k \<Rightarrow> (case keyset_scan before key limit later (Some k) of (rest, complete) \<Rightarrow> (page @ rest, complete)))"

text \<open>
  The client of a paged listing: it asks for a page with the cursor of the last answer, one
  page of each state in turn.
\<close>

fun cursor_scan ::
    "(string option \<Rightarrow> 's \<Rightarrow> 'e + 'i list \<times> string option) \<Rightarrow> 's list \<Rightarrow> string option \<Rightarrow> 'e + 'i list \<times> bool" where
  "cursor_scan page [] cursor = Inr ([], False)"
| "cursor_scan page (s # later) cursor =
     (case page cursor s of
        Inl e \<Rightarrow> Inl e
      | Inr (items, None) \<Rightarrow> Inr (items, True)
      | Inr (items, Some c) \<Rightarrow>
          (case cursor_scan page later (Some c) of
             Inl e \<Rightarrow> Inl e
           | Inr (rest, complete) \<Rightarrow> Inr (items @ rest, complete)))"

text \<open>When every page is a keyset page and its cursor encodes the key, the scan is the keyset scan.\<close>

lemma cursor_scan_is_keyset:
  assumes "\<And>s c. s \<in> set states \<Longrightarrow> (\<forall>k. c = Some k \<longrightarrow> ok k) \<Longrightarrow>
      page (map_option enc c) s = Inr (map item (keyset_page before key limit (rows s) c),
        map_option enc (keyset_next key limit (keyset_page before key limit (rows s) c)))"
    and "\<And>s r. s \<in> set states \<Longrightarrow> r \<in> set (rows s) \<Longrightarrow> ok (key r)"
    and "\<forall>k. c = Some k \<longrightarrow> ok k"
  shows "cursor_scan page states (map_option enc c) =
    (case keyset_scan before key limit (map rows states) c of (rs, complete) \<Rightarrow> Inr (map item rs, complete))"
  using assms
proof (induction states arbitrary: c)
  case (Cons s later)
  let ?page = "keyset_page before key limit (rows s) c"
  have page: "page (map_option enc c) s = Inr (map item ?page, map_option enc (keyset_next key limit ?page))"
    using Cons.prems(1) [of s c] Cons.prems(3) by simp
  show ?case
  proof (cases "keyset_next key limit ?page")
    case None
    then show ?thesis by (simp add: page Let_def)
  next
    case (Some k)
    then have "?page \<noteq> []" "k = key (last ?page)" by (auto simp: keyset_next_def split: if_splits)
    then have "ok k" using Cons.prems(2) [of s] keyset_page_in [OF last_in_set] by fastforce
    then have "cursor_scan page later (map_option enc (Some k)) =
        (case keyset_scan before key limit (map rows later) (Some k) of (rs, complete) \<Rightarrow> Inr (map item rs, complete))"
      by (intro Cons.IH) (use Cons.prems in auto)
    then show ?thesis using Some by (simp add: page Let_def split: prod.split)
  qed
qed simp

section \<open>Exactly once\<close>

lemma count_distinct: "(\<And>x. count_list xs x \<le> 1) \<Longrightarrow> distinct xs"
proof (induction xs)
  case (Cons a xs)
  have "count_list xs x \<le> 1" for x using Cons.prems [of x] by (simp split: if_splits)
  moreover have "count_list xs a = 0" using Cons.prems [of a] by simp
  ultimately show ?case using Cons.IH by (simp add: count_list_0_iff)
qed simp

locale strict_order =
  fixes before :: "'k \<Rightarrow> 'k \<Rightarrow> bool"
  assumes irrefl: "\<not> before k k" and trans: "before a b \<Longrightarrow> before b c \<Longrightarrow> before a c"
    and total: "a \<noteq> b \<Longrightarrow> before a b \<or> before b a"
begin

text \<open>A nonempty finite set has exactly one first element.\<close>

lemma first_exists: "finite A \<Longrightarrow> A \<noteq> {} \<Longrightarrow> \<exists>a \<in> A. \<forall>b \<in> A. \<not> before b a"
proof (induction A rule: finite_ne_induct)
  case (insert x A)
  then obtain a where a: "a \<in> A" "\<forall>b \<in> A. \<not> before b a" by blast
  show ?case
  proof (cases "before x a")
    case True
    then have "\<forall>b \<in> A. \<not> before b x" using a(2) trans by blast
    then show ?thesis using irrefl by blast
  qed (use a in blast)
qed (use irrefl in blast)

lemma first_unique:
  "a \<in> A \<Longrightarrow> \<forall>b \<in> A. \<not> before b a \<Longrightarrow> c \<in> A \<Longrightarrow> \<forall>b \<in> A. \<not> before b c \<Longrightarrow> a = c"
  using total by blast

end

locale keyset = strict_order before for before :: "'k \<Rightarrow> 'k \<Rightarrow> bool" +
  fixes key :: "'r \<Rightarrow> 'k"
begin

abbreviation after :: "'k option \<Rightarrow> 'r \<Rightarrow> bool" where
  "after cursor r \<equiv> (case cursor of None \<Rightarrow> True | Some k \<Rightarrow> before k (key r))"

abbreviation ordered :: "'r list \<Rightarrow> bool" where
  "ordered \<equiv> sorted_wrt (\<lambda>x y. before (key x) (key y))"

lemma sorted_distinct:
  "sorted_wrt (\<lambda>x y. \<not> before (key y) (key x)) xs \<Longrightarrow> distinct (map key xs) \<Longrightarrow> ordered xs"
  by (induction xs) (use total in force)+

lemma distinct_keys_sort: "distinct (map key (stable_sort le xs)) = distinct (map key xs)"
proof -
  have "distinct (map key (insert_by le x ys)) \<longleftrightarrow> key x \<notin> key ` set ys \<and> distinct (map key ys)" for x ys
    by (induction ys) auto
  moreover have "stable_sort le (x # ys) = insert_by le x (stable_sort le ys)" for x ys by (simp add: stable_sort_def)
  ultimately show ?thesis by (induction xs) (simp_all add: stable_sort_def [of _ "[]"])
qed

lemma sort_ordered:
  assumes "distinct (map key xs)"
  shows "ordered (stable_sort (\<lambda>x y. \<not> before (key y) (key x)) xs)"
proof (rule sorted_distinct)
  show "sorted_wrt (\<lambda>x y. \<not> before (key y) (key x)) (stable_sort (\<lambda>x y. \<not> before (key y) (key x)) xs)"
  proof (rule sorted_stable_sort)
    show "transp (\<lambda>x y. \<not> before (key y) (key x))"
      using trans total irrefl unfolding transp_def by metis
    show "totalp (\<lambda>x y. \<not> before (key y) (key x))"
      using trans irrefl unfolding totalp_on_def by metis
  qed (simp add: reflp_def irrefl)
qed (use assms in \<open>simp add: distinct_keys_sort\<close>)

lemma page_facts:
  assumes "distinct (map key rows)"
  shows page_ordered: "ordered (keyset_page before key limit rows cursor)"
    and page_in: "r \<in> set (keyset_page before key limit rows cursor) \<Longrightarrow> r \<in> set rows \<and> after cursor r"
    and page_misses: "r \<in> set rows \<Longrightarrow> after cursor r \<Longrightarrow> r \<notin> set (keyset_page before key limit rows cursor)
      \<Longrightarrow> length (keyset_page before key limit rows cursor) = limit
        \<and> (\<forall>p \<in> set (keyset_page before key limit rows cursor). before (key p) (key r))"
proof -
  let ?all = "stable_sort (\<lambda>x y. \<not> before (key y) (key x)) (filter (after cursor) rows)"
  have all: "ordered ?all" by (rule sort_ordered) (use assms in \<open>simp add: distinct_map_filter\<close>)
  have split: "?all = keyset_page before key limit rows cursor @ drop limit ?all" by (simp add: keyset_page_def)
  show "ordered (keyset_page before key limit rows cursor)"
    using all by (simp add: keyset_page_def sorted_wrt_take)
  show "r \<in> set (keyset_page before key limit rows cursor) \<Longrightarrow> r \<in> set rows \<and> after cursor r"
    by (auto simp: keyset_page_def dest!: in_set_takeD)
  assume r: "r \<in> set rows" "after cursor r" "r \<notin> set (keyset_page before key limit rows cursor)"
  then have "r \<in> set ?all" by simp
  then have d: "r \<in> set (drop limit ?all)" using r(3) split by (metis Un_iff set_append)
  then have "limit < length ?all" by (cases "limit < length ?all") simp_all
  moreover have "before (key p) (key r)" if "p \<in> set (keyset_page before key limit rows cursor)" for p
    using all that d by (subst (asm) split) (auto simp: sorted_wrt_append)
  ultimately show "length (keyset_page before key limit rows cursor) = limit
      \<and> (\<forall>p \<in> set (keyset_page before key limit rows cursor). before (key p) (key r))"
    by (simp add: keyset_page_def)
qed

lemma last_before: "ordered xs \<Longrightarrow> x \<in> set xs \<Longrightarrow> x = last xs \<or> before (key x) (key (last xs))"
  by (induction xs) auto

text \<open>The rows of a scan come in order, so that none comes twice.\<close>

lemma scan_ordered:
  assumes "\<forall>rows \<in> set states. distinct (map key rows)"
  shows "ordered (fst (keyset_scan before key limit states cursor))
    \<and> (\<forall>r \<in> set (fst (keyset_scan before key limit states cursor)). after cursor r)"
  using assms
proof (induction states arbitrary: cursor)
  case (Cons rows later)
  let ?page = "keyset_page before key limit rows cursor"
  have p: "ordered ?page" "\<forall>r \<in> set ?page. after cursor r"
    using page_ordered [of rows limit cursor] page_in [of rows _ limit cursor] Cons.prems by auto
  show ?case
  proof (cases "keyset_next key limit ?page")
    case None
    then show ?thesis using p by (simp add: Let_def)
  next
    case (Some k)
    then have k: "?page \<noteq> []" "k = key (last ?page)" by (auto simp: keyset_next_def split: if_splits)
    obtain rest complete where s: "keyset_scan before key limit later (Some k) = (rest, complete)" by fastforce
    have ih: "ordered rest" "\<forall>r \<in> set rest. before k (key r)"
      using Cons.IH [of "Some k"] Cons.prems s by auto
    have "before (key x) (key y)" if "x \<in> set ?page" "y \<in> set rest" for x y
      using last_before [OF p(1) that(1)] ih(2) that(2) k(2) trans by metis
    moreover have "after cursor y" if "y \<in> set rest" for y
    proof (cases cursor)
      case (Some a)
      have "before a (key (last ?page))" using p(2) last_in_set [OF k(1)] Some by auto
      with ih(2) that k(2) Some show ?thesis using trans by auto
    qed simp
    ultimately have "ordered (?page @ rest)" "\<forall>r \<in> set (?page @ rest). after cursor r"
      using p ih by (auto simp only: sorted_wrt_append set_append)
    then show ?thesis using Some s by (simp add: Let_def)
  qed
qed simp

lemma scan_in: "r \<in> set (fst (keyset_scan before key limit states cursor)) \<Longrightarrow> \<exists>rows \<in> set states. r \<in> set rows"
proof (induction states arbitrary: cursor)
  case (Cons rows later)
  have "r \<in> set rows" if "r \<in> set (keyset_page before key limit rows cursor)"
    using that by (rule keyset_page_in)
  moreover have "\<exists>rows \<in> set later. r \<in> set rows" if "r \<in> set (fst (keyset_scan before key limit later c))" for c
    using Cons.IH that by blast
  ultimately show ?case using Cons.prems by (auto simp: Let_def split: option.splits prod.splits) (metis fst_conv)+
qed simp

text \<open>A complete scan has a row of every key that is there at each of its pages.\<close>

lemma scan_complete:
  assumes "\<forall>rows \<in> set states. distinct (map key rows)" and "\<forall>rows \<in> set states. k \<in> key ` set rows"
    and "snd (keyset_scan before key limit states cursor)"
    and "case cursor of None \<Rightarrow> True | Some c \<Rightarrow> before c k" and "0 < limit"
  shows "k \<in> key ` set (fst (keyset_scan before key limit states cursor))"
  using assms(1-4)
proof (induction states arbitrary: cursor)
  case (Cons rows later)
  let ?page = "keyset_page before key limit rows cursor"
  obtain r where r: "r \<in> set rows" "k = key r" using Cons.prems(2) by auto
  show ?case
  proof (cases "r \<in> set ?page")
    case True
    then show ?thesis using r(2) by (auto simp: Let_def split: option.split prod.split)
  next
    case False
    have "after cursor r" using Cons.prems(4) r(2) by (cases cursor) simp_all
    then have l: "length ?page = limit" "\<forall>p \<in> set ?page. before (key p) (key r)"
      using page_misses [of rows r cursor limit] Cons.prems(1) r(1) False by auto
    then have "?page \<noteq> []" using assms(5) by auto
    with l r(2) have nx: "keyset_next key limit ?page = Some (key (last ?page))" "before (key (last ?page)) k"
      by (simp_all add: keyset_next_def)
    obtain rest complete where s: "keyset_scan before key limit later (Some (key (last ?page))) = (rest, complete)" by fastforce
    have "k \<in> key ` set rest"
      using Cons.IH [of "Some (key (last ?page))"] Cons.prems nx s by (simp add: Let_def)
    then show ?thesis using nx s by (auto simp: Let_def)
  qed
qed simp

lemma ordered_keys: "ordered xs \<Longrightarrow> distinct (map key xs)"
  by (induction xs) (use irrefl in force)+

text \<open>A scan of rows that stay the same ends.\<close>

lemma scan_ends:
  assumes "distinct (map key rows)" and "0 < limit" and "length (filter (after cursor) rows) < n * limit"
  shows "snd (keyset_scan before key limit (replicate n rows) cursor)"
  using assms(3)
proof (induction n arbitrary: cursor)
  case (Suc n)
  let ?page = "keyset_page before key limit rows cursor" and ?m = "length (filter (after cursor) rows)"
  show ?case
  proof (cases "keyset_next key limit ?page")
    case None
    then show ?thesis by (simp add: Let_def)
  next
    case (Some k)
    then have k: "length ?page = limit" "?page \<noteq> []" "k = key (last ?page)" by (auto simp: keyset_next_def split: if_splits)
    note o = page_ordered [OF assms(1), of limit cursor] and i = page_in [OF assms(1), of _ limit cursor]
    have sub: "set ?page \<union> set (filter (after (Some k)) rows) \<subseteq> set (filter (after cursor) rows)"
      using i k(2,3) trans by (cases cursor) (auto dest: last_in_set)
    have disj: "set ?page \<inter> set (filter (after (Some k)) rows) = {}"
      using last_before [OF o] k(3) irrefl trans by (auto, metis)
    have c: "card (set ?page) = limit" "card (set (filter P rows)) = length (filter P rows)" for P
      using distinct_card [of ?page] distinct_card [of "filter P rows"] ordered_keys [OF o] assms(1) k(1)
      by (simp_all add: distinct_map)
    have "limit + length (filter (after (Some k)) rows) \<le> ?m"
      using card_mono [OF _ sub] card_Un_disjoint [OF _ _ disj] c by simp
    with Suc.prems have "length (filter (after (Some k)) rows) < n * limit" by simp
    from Suc.IH [OF this] show ?thesis
      using Some by (cases "keyset_scan before key limit (replicate n rows) (Some k)") (simp add: Let_def)
  qed
qed simp

text \<open>
  Rows are named by \<open>name\<close>, and rows with the same key have the same name.  A name whose rows
  keep their key while the scan runs comes at most once, nothing comes that is not there, and
  a complete scan has every such name that is there throughout.
\<close>

definition steady :: "('r \<Rightarrow> 'n) \<Rightarrow> 'r list list \<Rightarrow> 'n \<Rightarrow> bool" where
  "steady name states i \<longleftrightarrow> (\<forall>rows \<in> set states. \<forall>rows' \<in> set states. \<forall>r \<in> set rows. \<forall>r' \<in> set rows'.
     name r = i \<longrightarrow> name r' = i \<longrightarrow> key r = key r')"

lemma steadyD:
  "steady name states i \<Longrightarrow> rows \<in> set states \<Longrightarrow> rows' \<in> set states \<Longrightarrow> r \<in> set rows \<Longrightarrow> r' \<in> set rows'
   \<Longrightarrow> name r = i \<Longrightarrow> name r' = i \<Longrightarrow> key r = key r'"
  unfolding steady_def by blast

lemma count_named:
  "distinct (map key rs) \<Longrightarrow> \<forall>r \<in> set rs. \<forall>r' \<in> set rs. name r = i \<longrightarrow> name r' = i \<longrightarrow> key r = key r'
   \<Longrightarrow> count_list (map name rs) i \<le> 1"
proof (induction rs)
  case (Cons r rs)
  show ?case
  proof (cases "name r = i")
    case True
    have "i \<notin> set (map name rs)"
    proof
      assume "i \<in> set (map name rs)"
      then obtain r' where r': "r' \<in> set rs" "name r' = i" by auto
      have "r \<in> set (r # rs)" "r' \<in> set (r # rs)" using r'(1) by simp_all
      then have "key r = key r'" using True r'(2) Cons.prems(2) by blast
      then have "key r \<in> key ` set rs" using r'(1) by simp
      then show False using Cons.prems(1) by simp
    qed
    then have "count_list (map name rs) i = 0" by (rule count_notin)
    with True show ?thesis by simp
  next
    case False
    with Cons show ?thesis by simp
  qed
qed simp

lemma scan_steady:
  assumes "\<forall>rows \<in> set states. distinct (map key rows)" and "\<forall>r r'. key r = key r' \<longrightarrow> name r = name r'"
    and "keyset_scan before key limit states None = (rs, complete)" and "0 < limit" and "steady name states i"
  shows "count_list (map name rs) i \<le> 1"
    and "complete \<Longrightarrow> \<forall>rows \<in> set states. i \<in> name ` set rows \<Longrightarrow> count_list (map name rs) i = 1"
proof -
  have rs: "rs = fst (keyset_scan before key limit states None)" using assms(3) by simp
  have sub: "\<forall>r \<in> set rs. \<exists>rows \<in> set states. r \<in> set rows" unfolding rs using scan_in by blast
  have "distinct (map key rs)" using scan_ordered [OF assms(1)] unfolding rs by (blast intro: ordered_keys)
  then show one: "count_list (map name rs) i \<le> 1"
  proof (rule count_named, intro ballI impI)
    fix r r' assume "r \<in> set rs" "r' \<in> set rs" "name r = i" "name r' = i"
    then show "key r = key r'" using sub steadyD [OF assms(5)] by blast
  qed
  assume c: complete and all: "\<forall>rows \<in> set states. i \<in> name ` set rows"
  have "states \<noteq> []" using c assms(3) by auto
  then obtain rows0 r0 where r0: "rows0 \<in> set states" "r0 \<in> set rows0" "name r0 = i"
    using all by (metis imageE list.set_intros(1) neq_Nil_conv)
  have "key r0 \<in> key ` set rows" if rows: "rows \<in> set states" for rows
  proof -
    obtain r where r: "r \<in> set rows" "name r = i" using all rows by blast
    have "key r0 = key r" by (rule steadyD [OF assms(5) r0(1) rows r0(2) r(1) r0(3) r(2)])
    with r(1) show ?thesis by simp
  qed
  then have "key r0 \<in> key ` set rs" unfolding rs
    by (intro scan_complete [OF assms(1)]) (use c assms(3,4) in auto)
  then obtain r where r: "r \<in> set rs" "key r0 = key r" by blast
  have "name r0 = name r" using assms(2) r(2) by blast
  then have "name r = i" using r0(3) by simp
  with r(1) have "i \<in> set (map name rs)" by auto
  then have "count_list (map name rs) i \<noteq> 0" by (simp only: count_list_0_iff not_not)
  with one show "count_list (map name rs) i = 1" by simp
qed

lemma scan_from:
  "keyset_scan before key limit states None = (rs, complete) \<Longrightarrow> r \<in> set rs \<Longrightarrow> \<exists>rows \<in> set states. r \<in> set rows"
  using scan_in [of r limit states None] by simp

end

end
