(* ===== verification/Mailbox_Rollup.thy ===== *)
theory Mailbox_Rollup
  imports Mailbox_Folders Keyset
begin

text \<open>
  The two rollups of migration 0019 (src/server/self-hosted/migrations.ts): the rows of
  \<open>message_recipients\<close>, the counters of \<open>message_counters\<close>, the trigger that keeps both in
  step with the table of messages, and the backfill that first fills them.  The order of
  texts (the database's collation) is the parameter \<open>before\<close>.  Every statement of the
  store that writes messages writes rows, and a row keeps its tenant and id.
\<close>

section \<open>Recipient rows\<close>

record row_flags =
  fl_out :: bool
  fl_read :: bool
  fl_starred :: bool
  fl_arch :: bool
  fl_spam :: bool
  fl_trash :: bool
  fl_sort_ts :: int

datatype recipient_kind = Kind_To | Kind_Cc

record recipient_row =
  mr_tenant :: string
  mr_message :: string
  mr_email :: string
  mr_domain :: string
  mr_kind :: recipient_kind
  mr_flags :: row_flags
  mr_first :: bool

definition row_flags_of :: "message \<Rightarrow> row_flags" where
  "row_flags_of m = \<lparr> fl_out = is_out m, fl_read = m_is_read m, fl_starred = m_is_starred m,
     fl_arch = is_arch m, fl_spam = is_spam m, fl_trash = is_trash m, fl_sort_ts = sort_ts m \<rparr>"

abbreviation row_key :: "message \<Rightarrow> string \<times> string" where
  "row_key m \<equiv> (m_tenant m, m_id m)"

abbreviation recipient_key :: "recipient_row \<Rightarrow> string \<times> string \<times> string" where
  "recipient_key r \<equiv> (mr_tenant r, mr_message r, mr_email r)"

text \<open>The parsed addresses of a row, the \<open>to\<close> list first.\<close>

definition parsed_recipients :: "message \<Rightarrow> (string \<times> string \<times> recipient_kind) list" where
  "parsed_recipients m =
     concat (map (\<lambda>(v, k). case (emails_extract_address v, emails_extract_domain v) of
         (Some e, Some d) \<Rightarrow> [(e, d, k)] | _ \<Rightarrow> [])
       (map (\<lambda>v. (v, Kind_To)) (m_to m) @ map (\<lambda>v. (v, Kind_Cc)) (m_cc m)))"

text \<open>\<open>GROUP BY email, domain\<close>; the greatest of the kind texts is \<open>to\<close>.\<close>

definition grouped_recipients :: "message \<Rightarrow> (string \<times> string) list" where
  "grouped_recipients m = remdups (map (\<lambda>(e, d, k). (e, d)) (parsed_recipients m))"

definition max_kind :: "message \<Rightarrow> string \<Rightarrow> string \<Rightarrow> recipient_kind" where
  "max_kind m e d = (if (e, d, Kind_To) \<in> set (parsed_recipients m) then Kind_To else Kind_Cc)"

text \<open>\<open>row_number() OVER (PARTITION BY domain ORDER BY email) = 1\<close>.\<close>

definition recipient_rows :: "(string \<Rightarrow> string \<Rightarrow> bool) \<Rightarrow> message \<Rightarrow> recipient_row list" where
  "recipient_rows before m = map (\<lambda>(e, d).
     \<lparr> mr_tenant = m_tenant m, mr_message = m_id m, mr_email = e, mr_domain = d,
       mr_kind = max_kind m e d, mr_flags = row_flags_of m,
       mr_first = (\<forall>(e', d') \<in> set (grouped_recipients m). d' = d \<longrightarrow> \<not> before e' e) \<rparr>) (grouped_recipients m)"

text \<open>\<open>INSERT ... ON CONFLICT (tenant_id, message_id, email) DO UPDATE\<close>.\<close>

definition put_recipient :: "recipient_row list \<Rightarrow> recipient_row \<Rightarrow> recipient_row list" where
  "put_recipient rows r =
     (if recipient_key r \<in> recipient_key ` set rows
      then map (\<lambda>x. if recipient_key x = recipient_key r then r else x) rows else rows @ [r])"

section \<open>Counters\<close>

type_synonym counters = "string \<Rightarrow> string \<Rightarrow> int option"

definition bump_counters :: "string \<Rightarrow> string list \<Rightarrow> counters \<Rightarrow> counters" where
  "bump_counters tenant slots c = (\<lambda>t s.
     if t = tenant \<and> s \<in> set slots then Some (or_default (c t s) 0 + int (count_list slots s)) else c t s)"

definition drop_counters :: "string \<Rightarrow> string list \<Rightarrow> counters \<Rightarrow> counters" where
  "drop_counters tenant slots c = (\<lambda>t s.
     if t = tenant \<and> s \<in> set slots then map_option (\<lambda>v. max (v - int (count_list slots s)) 0) (c t s) else c t s)"

section \<open>The trigger\<close>

record mail_views =
  mb_messages :: "message list"
  mb_counters :: counters
  mb_recipients :: "recipient_row list"

definition empty_mailbox :: mail_views where
  "empty_mailbox = \<lparr> mb_messages = [], mb_counters = (\<lambda>_ _. None), mb_recipients = [] \<rparr>"

text \<open>The row before the statement and the row after it; \<open>None\<close> where there is none.\<close>

fun sync_counters :: "message option \<Rightarrow> message option \<Rightarrow> counters \<Rightarrow> counters" where
  "sync_counters None (Some new) c = bump_counters (m_tenant new) (emails_folder_slots new) c"
| "sync_counters (Some old) None c = drop_counters (m_tenant old) (emails_folder_slots old) c"
| "sync_counters (Some old) (Some new) c =
     (if emails_folder_slots old \<noteq> emails_folder_slots new \<or> m_tenant new \<noteq> m_tenant old
      then bump_counters (m_tenant new) (emails_folder_slots new)
             (drop_counters (m_tenant old) (emails_folder_slots old) c)
      else c)"
| "sync_counters None None c = c"

definition of_message :: "message \<Rightarrow> recipient_row \<Rightarrow> bool" where
  "of_message m r \<longleftrightarrow> mr_tenant r = m_tenant m \<and> mr_message r = m_id m"

fun sync_recipients ::
    "(string \<Rightarrow> string \<Rightarrow> bool) \<Rightarrow> message option \<Rightarrow> message option \<Rightarrow> recipient_row list \<Rightarrow> recipient_row list" where
  "sync_recipients before None (Some new) rows = foldl put_recipient rows (recipient_rows before new)"
| "sync_recipients before (Some old) (Some new) rows =
     (if m_to new \<noteq> m_to old \<or> m_cc new \<noteq> m_cc old \<or> m_tenant new \<noteq> m_tenant old
      then foldl put_recipient (filter (\<lambda>r. \<not> of_message old r) rows) (recipient_rows before new)
      else map (\<lambda>r. if of_message new r \<and> mr_flags r \<noteq> row_flags_of new then r\<lparr>mr_flags := row_flags_of new\<rparr> else r) rows)"
| "sync_recipients before _ None rows = rows"

definition emails_messages_rollup_sync ::
    "(string \<Rightarrow> string \<Rightarrow> bool) \<Rightarrow> message option \<Rightarrow> message option \<Rightarrow> mail_views \<Rightarrow> mail_views" where
  "emails_messages_rollup_sync before old new mb =
     mb\<lparr>mb_counters := sync_counters old new (mb_counters mb),
        mb_recipients := sync_recipients before old new (mb_recipients mb)\<rparr>"

text \<open>
  The writes of one row.  An insert of a taken id is refused by the primary key; a deleted
  message takes its recipient rows with it before the trigger runs.
\<close>

datatype row_write = Insert_Row message | Update_Row message | Delete_Row string string

fun write_row :: "(string \<Rightarrow> string \<Rightarrow> bool) \<Rightarrow> mail_views \<Rightarrow> row_write \<Rightarrow> mail_views" where
  "write_row before mb (Insert_Row m) =
     (if row_key m \<in> row_key ` set (mb_messages mb) then mb
      else emails_messages_rollup_sync before None (Some m) (mb\<lparr>mb_messages := mb_messages mb @ [m]\<rparr>))"
| "write_row before mb (Update_Row m) =
     (case find (\<lambda>x. row_key x = row_key m) (mb_messages mb) of
        None \<Rightarrow> mb
      | Some old \<Rightarrow> emails_messages_rollup_sync before (Some old) (Some m)
          (mb\<lparr>mb_messages := map (\<lambda>x. if row_key x = row_key m then m else x) (mb_messages mb)\<rparr>))"
| "write_row before mb (Delete_Row t i) =
     (case find (\<lambda>x. row_key x = (t, i)) (mb_messages mb) of
        None \<Rightarrow> mb
      | Some old \<Rightarrow> emails_messages_rollup_sync before (Some old) None
          (mb\<lparr>mb_messages := filter (\<lambda>x. row_key x \<noteq> (t, i)) (mb_messages mb),
              mb_recipients := filter (\<lambda>r. \<not> of_message old r) (mb_recipients mb)\<rparr>))"

definition write_rows :: "(string \<Rightarrow> string \<Rightarrow> bool) \<Rightarrow> row_write list \<Rightarrow> mail_views \<Rightarrow> mail_views" where
  "write_rows before ws mb = foldl (write_row before) mb ws"

section \<open>The backfill\<close>

text \<open>\<open>ON CONFLICT DO NOTHING\<close>; the counters of a tenant are counted anew.\<close>

definition add_recipient :: "recipient_row list \<Rightarrow> recipient_row \<Rightarrow> recipient_row list" where
  "add_recipient rows r = (if recipient_key r \<in> recipient_key ` set rows then rows else rows @ [r])"

definition slot_total :: "string \<Rightarrow> message list \<Rightarrow> string \<Rightarrow> int" where
  "slot_total t ms s = int (count_list (concat (map emails_folder_slots (filter (\<lambda>m. m_tenant m = t) ms))) s)"

definition backfill_tenant :: "(string \<Rightarrow> string \<Rightarrow> bool) \<Rightarrow> mail_views \<Rightarrow> string \<Rightarrow> mail_views" where
  "backfill_tenant before mb tenant =
     mb\<lparr>mb_recipients := foldl add_recipient (mb_recipients mb)
          (concat (map (recipient_rows before) (filter (\<lambda>m. m_tenant m = tenant) (mb_messages mb)))),
        mb_counters := (\<lambda>t s. if t = tenant
          then (if slot_total t (mb_messages mb) s = 0 then None else Some (slot_total t (mb_messages mb) s))
          else mb_counters mb t s)\<rparr>"

definition backfill :: "(string \<Rightarrow> string \<Rightarrow> bool) \<Rightarrow> string list \<Rightarrow> mail_views \<Rightarrow> mail_views" where
  "backfill before ts mb = foldl (backfill_tenant before) mb ts"

end
