(* ===== verification/Mailbox_Rollup_Facts.thy ===== *)
theory Mailbox_Rollup_Facts
  imports Mailbox_Rollup
begin

text \<open>
  The invariant of the rollups: the counters hold the number of messages of each slot and
  the recipient rows are those of the messages, each once.  Every row write keeps it, and
  the backfill of an empty rollup establishes it.
\<close>

section \<open>The invariant\<close>

definition slot_count :: "message list \<Rightarrow> string \<Rightarrow> string \<Rightarrow> nat" where
  "slot_count ms t s = length (filter (\<lambda>m. m_tenant m = t \<and> s \<in> set (emails_folder_slots m)) ms)"

definition counters_exact :: "mail_views \<Rightarrow> bool" where
  "counters_exact mb \<longleftrightarrow> (\<forall>t s. or_default (mb_counters mb t s) 0 = int (slot_count (mb_messages mb) t s))"

definition recipients_exact :: "(string \<Rightarrow> string \<Rightarrow> bool) \<Rightarrow> mail_views \<Rightarrow> bool" where
  "recipients_exact before mb \<longleftrightarrow> distinct (map recipient_key (mb_recipients mb))
     \<and> set (mb_recipients mb) = (\<Union>m \<in> set (mb_messages mb). set (recipient_rows before m))"

definition rolled_up :: "(string \<Rightarrow> string \<Rightarrow> bool) \<Rightarrow> mail_views \<Rightarrow> bool" where
  "rolled_up before mb \<longleftrightarrow> distinct (map row_key (mb_messages mb)) \<and> counters_exact mb \<and> recipients_exact before mb"

section \<open>Counters\<close>

lemma count_list_distinct: "distinct xs \<Longrightarrow> count_list xs s = (if s \<in> set xs then 1 else 0)"
  by (induction xs) (auto simp: count_list_0_iff)

lemma count_slots: "count_list (emails_folder_slots m) s = (if s \<in> set (emails_folder_slots m) then 1 else 0)"
  by (rule count_list_distinct [OF distinct_slots])

lemma slot_count_simps [simp]:
  "slot_count [] t s = 0"
  "slot_count (m # ms) t s = (if m_tenant m = t \<and> s \<in> set (emails_folder_slots m) then 1 else 0) + slot_count ms t s"
  "slot_count (xs @ ys) t s = slot_count xs t s + slot_count ys t s"
  by (simp_all add: slot_count_def)

lemma bump_exact:
  assumes "\<forall>t s. or_default (c t s) 0 = int (n t s)"
  shows "or_default (bump_counters (m_tenant m) (emails_folder_slots m) c t s) 0 = int (n t s + slot_count [m] t s)"
  using assms by (simp add: bump_counters_def count_slots) (simp add: or_default_def)

lemma drop_exact:
  assumes "\<forall>t s. or_default (c t s) 0 = int (n t s + slot_count [m] t s)"
  shows "or_default (drop_counters (m_tenant m) (emails_folder_slots m) c t s) 0 = int (n t s)"
proof -
  have "or_default (c t s) 0 = int (n t s + slot_count [m] t s)" using assms by blast
  then show ?thesis
    by (cases "c t s") (auto simp: drop_counters_def count_slots or_default_def)
qed

text \<open>The row at a key, and the rows beside it.\<close>

lemma found_row:
  assumes "distinct (map row_key ms)" and "find (\<lambda>x. row_key x = k) ms = Some old"
  obtains a b where "ms = a @ old # b" and "row_key old = k" and "\<forall>x \<in> set (a @ b). row_key x \<noteq> k"
proof -
  obtain a b where ab: "ms = a @ old # b" "row_key old = k"
    using find_SomeD [OF assms(2)] split_list by metis
  have "row_key old \<notin> row_key ` set (a @ b)" using assms(1) unfolding ab(1) by (simp add: image_Un)
  then have "\<forall>x \<in> set (a @ b). row_key x \<noteq> k" unfolding ab(2) by blast
  with ab that show thesis by blast
qed

lemma replace_row: "\<forall>x \<in> set xs. row_key x \<noteq> row_key m \<Longrightarrow> map (\<lambda>x. if row_key x = row_key m then m else x) xs = xs"
  by (induction xs) auto

section \<open>Recipient rows\<close>

lemma parsed_email: "(e, d, k) \<in> set (parsed_recipients m) \<Longrightarrow> d = address_domain e"
  by (auto simp: parsed_recipients_def extract_domain_eq split: option.splits dest: sym)

lemma grouped_domain: "(e, d) \<in> set (grouped_recipients m) \<Longrightarrow> d = address_domain e"
  by (auto simp: grouped_recipients_def dest: parsed_email)

lemma recipient_rows_of: "r \<in> set (recipient_rows before m) \<Longrightarrow>
    mr_tenant r = m_tenant m \<and> mr_message r = m_id m \<and> mr_flags r = row_flags_of m
      \<and> (mr_email r, mr_domain r) \<in> set (grouped_recipients m)"
  by (auto simp: recipient_rows_def)

lemma of_message_rows: "r \<in> set (recipient_rows before m) \<Longrightarrow> of_message m' r \<longleftrightarrow> row_key m' = row_key m"
  using recipient_rows_of [of r before m] by (auto simp: of_message_def)

lemma distinct_recipient_rows: "distinct (map recipient_key (recipient_rows before m))"
proof -
  have "inj_on fst (set (grouped_recipients m))"
    by (rule inj_onI) (metis grouped_domain prod.collapse)
  then have "distinct (map fst (grouped_recipients m))"
    by (simp add: distinct_map grouped_recipients_def)
  moreover have "map recipient_key (recipient_rows before m)
      = map (\<lambda>e. (m_tenant m, m_id m, e)) (map fst (grouped_recipients m))"
    by (auto simp: recipient_rows_def)
  ultimately show ?thesis by (simp add: distinct_map inj_on_def)
qed

lemma put_recipients:
  "distinct (map recipient_key (rows @ new)) \<Longrightarrow> foldl put_recipient rows new = rows @ new"
  "distinct (map recipient_key (rows @ new)) \<Longrightarrow> foldl add_recipient rows new = rows @ new"
  by (induction new arbitrary: rows) (simp_all add: put_recipient_def add_recipient_def)

lemma foreign_rows:
  assumes "recipients_exact before mb" and "row_key m \<notin> row_key ` set (mb_messages mb)"
  shows "\<forall>r \<in> set (mb_recipients mb). \<not> of_message m r"
  using assms by (auto simp: recipients_exact_def of_message_rows)

text \<open>Adding the rows of a message none of whose rows is there.\<close>

lemma added_rows:
  assumes "distinct (map recipient_key rows)" and "\<forall>r \<in> set rows. \<not> of_message m r"
  shows "distinct (map recipient_key (foldl put_recipient rows (recipient_rows before m)))
    \<and> set (foldl put_recipient rows (recipient_rows before m)) = set rows \<union> set (recipient_rows before m)"
proof -
  have "distinct (map recipient_key (rows @ recipient_rows before m))"
    using assms distinct_recipient_rows [of before m]
    by (auto simp: of_message_def dest: recipient_rows_of)
  then show ?thesis by (simp only: put_recipients(1)) simp
qed

text \<open>A message that changes neither list of recipients has the same rows with its new flags.\<close>

lemma refreshed_rows:
  assumes "m_to new = m_to old" "m_cc new = m_cc old" "row_key new = row_key old"
  shows "recipient_rows before new = map (\<lambda>r. r\<lparr>mr_flags := row_flags_of new\<rparr>) (recipient_rows before old)"
proof -
  have "parsed_recipients new = parsed_recipients old" using assms by (simp add: parsed_recipients_def)
  then have "grouped_recipients new = grouped_recipients old" "max_kind new = max_kind old"
    by (simp_all add: grouped_recipients_def max_kind_def fun_eq_iff)
  then show ?thesis using assms(3) by (auto simp: recipient_rows_def)
qed

section \<open>Every write keeps the rollups exact\<close>

lemma rolled_up_parts:
  assumes "distinct (map row_key ms)" and "\<And>t s. or_default (c t s) 0 = int (slot_count ms t s)"
    and "distinct (map recipient_key rs) \<and> set rs = (\<Union>m \<in> set ms. set (recipient_rows before m))"
  shows "rolled_up before (mb\<lparr>mb_messages := ms, mb_counters := c, mb_recipients := rs\<rparr>)"
  using assms by (simp add: rolled_up_def counters_exact_def recipients_exact_def)

lemma insert_keeps:
  assumes "rolled_up before mb" and "row_key m \<notin> row_key ` set (mb_messages mb)"
  shows "rolled_up before (emails_messages_rollup_sync before None (Some m) (mb\<lparr>mb_messages := mb_messages mb @ [m]\<rparr>))"
proof -
  have f: "\<forall>r \<in> set (mb_recipients mb). \<not> of_message m r"
    using assms foreign_rows [of before mb m] by (simp add: rolled_up_def)
  have "distinct (map row_key (mb_messages mb @ [m]))" using assms by (auto simp: rolled_up_def)
  moreover have "\<forall>t s. or_default (mb_counters mb t s) 0 = int (slot_count (mb_messages mb) t s)"
    using assms(1) by (simp add: rolled_up_def counters_exact_def)
  note bump_exact [OF this, of m]
  moreover have "distinct (map recipient_key (mb_recipients mb))"
      "set (mb_recipients mb) = (\<Union>m \<in> set (mb_messages mb). set (recipient_rows before m))"
    using assms(1) by (simp_all add: rolled_up_def recipients_exact_def)
  note added_rows [OF this(1) f, of before] this(2)
  ultimately show ?thesis
    by (simp add: rolled_up_def counters_exact_def recipients_exact_def emails_messages_rollup_sync_def Un_commute)
qed

lemma remaining_rows:
  assumes "recipients_exact before mb" and "mb_messages mb = a @ old # b" and "\<forall>x \<in> set (a @ b). row_key x \<noteq> row_key old"
  shows "distinct (map recipient_key (filter (\<lambda>r. \<not> of_message old r) (mb_recipients mb)))
    \<and> set (filter (\<lambda>r. \<not> of_message old r) (mb_recipients mb)) = (\<Union>m \<in> set (a @ b). set (recipient_rows before m))"
  using assms by (auto simp: recipients_exact_def distinct_map_filter of_message_rows)

lemma delete_keeps:
  assumes "rolled_up before mb" and "find (\<lambda>x. row_key x = (t, i)) (mb_messages mb) = Some old"
  shows "rolled_up before (emails_messages_rollup_sync before (Some old) None
    (mb\<lparr>mb_messages := filter (\<lambda>x. row_key x \<noteq> (t, i)) (mb_messages mb),
        mb_recipients := filter (\<lambda>r. \<not> of_message old r) (mb_recipients mb)\<rparr>))"
proof -
  have inv: "distinct (map row_key (mb_messages mb))" "recipients_exact before mb" "counters_exact mb"
    using assms(1) by (simp_all add: rolled_up_def)
  obtain a b where ab: "mb_messages mb = a @ old # b" "row_key old = (t, i)" "\<forall>x \<in> set (a @ b). row_key x \<noteq> (t, i)"
    using found_row [OF inv(1) assms(2)] .
  have left: "filter (\<lambda>x. row_key x \<noteq> (t, i)) (mb_messages mb) = a @ b" using ab by (auto simp: filter_id_conv)
  have "\<forall>t s. or_default (mb_counters mb t s) 0 = int (slot_count (a @ b) t s + slot_count [old] t s)"
    using inv(3) ab(1) by (simp add: counters_exact_def)
  note drop_exact [OF this]
  moreover have "distinct (map row_key (a @ b))" using inv(1) ab(1) by simp
  moreover have "\<forall>x \<in> set (a @ b). row_key x \<noteq> row_key old" using ab(2,3) by simp
  note remaining_rows [OF inv(2) ab(1) this]
  ultimately show ?thesis unfolding left emails_messages_rollup_sync_def
    using rolled_up_parts [of "a @ b" "drop_counters (m_tenant old) (emails_folder_slots old) (mb_counters mb)"
        "filter (\<lambda>r. \<not> of_message old r) (mb_recipients mb)" before mb] by simp
qed

lemma synced_counters:
  assumes "\<forall>t s. or_default (c t s) 0 = int (n t s + slot_count [old] t s)"
  shows "or_default (sync_counters (Some old) (Some new) c t s) 0 = int (n t s + slot_count [new] t s)"
proof (cases "emails_folder_slots old \<noteq> emails_folder_slots new \<or> m_tenant new \<noteq> m_tenant old")
  case True
  have "\<forall>t s. or_default (drop_counters (m_tenant old) (emails_folder_slots old) c t s) 0 = int (n t s)"
    using drop_exact [OF assms] by blast
  from bump_exact [OF this, of new] True show ?thesis by simp
qed (use assms in simp)

lemma synced_recipients:
  assumes "recipients_exact before mb" and "mb_messages mb = a @ old # b" and "\<forall>x \<in> set (a @ b). row_key x \<noteq> row_key old"
    and "row_key new = row_key old"
  shows "distinct (map recipient_key (sync_recipients before (Some old) (Some new) (mb_recipients mb)))
    \<and> set (sync_recipients before (Some old) (Some new) (mb_recipients mb))
        = (\<Union>m \<in> set (a @ new # b). set (recipient_rows before m))"
proof (cases "m_to new \<noteq> m_to old \<or> m_cc new \<noteq> m_cc old \<or> m_tenant new \<noteq> m_tenant old")
  case True
  let ?rest = "filter (\<lambda>r. \<not> of_message old r) (mb_recipients mb)"
  note rest = remaining_rows [OF assms(1-3)]
  have "\<forall>r \<in> set ?rest. \<not> of_message new r" using assms(4) by (auto simp: of_message_def)
  from added_rows [OF conjunct1 [OF rest] this, of before] True conjunct2 [OF rest] show ?thesis by auto
next
  case False
  define f where "f = (\<lambda>r. if of_message new r \<and> mr_flags r \<noteq> row_flags_of new then r\<lparr>mr_flags := row_flags_of new\<rparr> else r)"
  have dist: "distinct (map recipient_key (mb_recipients mb))"
    and rows: "set (mb_recipients mb) = (\<Union>m \<in> set (a @ old # b). set (recipient_rows before m))"
    using assms(1,2) by (simp_all add: recipients_exact_def)
  have other: "f ` set (recipient_rows before m) = set (recipient_rows before m)" if "m \<in> set (a @ b)" for m
    using that assms(3,4) by (auto simp: f_def image_def of_message_rows)
  have "f r = r\<lparr>mr_flags := row_flags_of new\<rparr>" if "r \<in> set (recipient_rows before old)" for r
    using of_message_rows [OF that, of new] assms(4) by (auto simp: f_def)
  then have "f ` set (recipient_rows before old) = set (recipient_rows before new)"
    using False assms(4) by (simp add: refreshed_rows [of new old before] image_def)
  with other have "(\<Union>m \<in> set (a @ old # b). f ` set (recipient_rows before m)) = (\<Union>m \<in> set (a @ new # b). set (recipient_rows before m))"
    by simp
  then have "f ` set (mb_recipients mb) = (\<Union>m \<in> set (a @ new # b). set (recipient_rows before m))"
    by (simp only: rows image_UN)
  moreover have "map recipient_key (map f (mb_recipients mb)) = map recipient_key (mb_recipients mb)" by (simp add: f_def)
  moreover have "sync_recipients before (Some old) (Some new) (mb_recipients mb) = map f (mb_recipients mb)"
    using False by (simp add: f_def)
  ultimately show ?thesis using dist by (metis set_map)
qed

lemma update_keeps:
  assumes "rolled_up before mb" and "find (\<lambda>x. row_key x = row_key m) (mb_messages mb) = Some old"
  shows "rolled_up before (emails_messages_rollup_sync before (Some old) (Some m)
    (mb\<lparr>mb_messages := map (\<lambda>x. if row_key x = row_key m then m else x) (mb_messages mb)\<rparr>))"
proof -
  have inv: "distinct (map row_key (mb_messages mb))" "recipients_exact before mb" "counters_exact mb"
    using assms(1) by (simp_all add: rolled_up_def)
  obtain a b where ab: "mb_messages mb = a @ old # b" "row_key old = row_key m" "\<forall>x \<in> set (a @ b). row_key x \<noteq> row_key m"
    using found_row [OF inv(1) assms(2)] .
  have rows: "map (\<lambda>x. if row_key x = row_key m then m else x) (mb_messages mb) = a @ m # b"
    using ab replace_row [of a m] replace_row [of b m] by simp
  have k: "\<forall>x \<in> set (a @ b). row_key x \<noteq> row_key old" using ab(2,3) by simp
  have "\<forall>t s. or_default (mb_counters mb t s) 0 = int (slot_count (a @ b) t s + slot_count [old] t s)"
    using inv(3) ab(1) by (simp add: counters_exact_def)
  from synced_counters [OF this, of m]
  have "or_default (sync_counters (Some old) (Some m) (mb_counters mb) t s) 0 = int (slot_count (a @ m # b) t s)" for t s
    by simp
  moreover have "distinct (map row_key (a @ m # b))" using inv(1) ab by simp
  ultimately show ?thesis unfolding rows emails_messages_rollup_sync_def
    using rolled_up_parts [OF _ _ synced_recipients [OF inv(2) ab(1) k ab(2) [symmetric]],
        of "sync_counters (Some old) (Some m) (mb_counters mb)" mb]
    by (simp del: sync_counters.simps sync_recipients.simps distinct_map map_append)
qed

lemma write_row_keeps: "rolled_up before mb \<Longrightarrow> rolled_up before (write_row before mb w)"
  using insert_keeps update_keeps delete_keeps by (cases w) (auto split: option.split)

lemma write_rows_keeps: "rolled_up before mb \<Longrightarrow> rolled_up before (write_rows before ws mb)"
  unfolding write_rows_def by (induction ws arbitrary: mb) (simp_all add: write_row_keeps)

lemma rolled_up_empty: "rolled_up before empty_mailbox"
  by (simp add: rolled_up_def counters_exact_def recipients_exact_def empty_mailbox_def or_default_def)

section \<open>The backfill\<close>

lemma slot_total_count: "slot_total t ms s = int (slot_count ms t s)"
  unfolding slot_total_def by (induction ms) (auto simp: count_list_append count_slots)

definition filled :: "(string \<Rightarrow> string \<Rightarrow> bool) \<Rightarrow> message list \<Rightarrow> string set \<Rightarrow> mail_views \<Rightarrow> bool" where
  "filled before ms D mb \<longleftrightarrow> mb_messages mb = ms
     \<and> (\<forall>t s. or_default (mb_counters mb t s) 0 = (if t \<in> D then int (slot_count ms t s) else 0))
     \<and> distinct (map recipient_key (mb_recipients mb))
     \<and> set (mb_recipients mb) = (\<Union>m \<in> {m \<in> set ms. m_tenant m \<in> D}. set (recipient_rows before m))"

lemma rows_of_messages_distinct:
  "distinct (map row_key ms) \<Longrightarrow> distinct (map recipient_key (concat (map (recipient_rows before) ms)))"
proof (induction ms)
  case (Cons m ms)
  have "recipient_key r \<noteq> recipient_key r'"
    if "r \<in> set (recipient_rows before m)" "r' \<in> set (recipient_rows before n)" "n \<in> set ms" for r r' n
  proof -
    have "row_key m \<noteq> row_key n" using Cons.prems that(3) by (auto simp: image_iff)
    then show ?thesis using recipient_rows_of [OF that(1)] recipient_rows_of [OF that(2)] by auto
  qed
  then show ?case using Cons distinct_recipient_rows [of before m] by fastforce
qed simp

lemma backfill_tenant_filled:
  assumes "filled before ms D mb" and "distinct (map row_key ms)" and "t \<notin> D"
  shows "filled before ms (insert t D) (backfill_tenant before mb t)"
proof -
  let ?new = "concat (map (recipient_rows before) (filter (\<lambda>m. m_tenant m = t) ms))"
  have f: "mb_messages mb = ms" "distinct (map recipient_key (mb_recipients mb))"
      "set (mb_recipients mb) = (\<Union>m \<in> {m \<in> set ms. m_tenant m \<in> D}. set (recipient_rows before m))"
    using assms(1) by (simp_all add: filled_def)
  have "mr_tenant r = t" if "r \<in> set ?new" for r using that by (auto dest: recipient_rows_of)
  moreover have "mr_tenant r \<in> D" if "r \<in> set (mb_recipients mb)" for r using that f(3) by (auto dest: recipient_rows_of)
  ultimately have "set (map recipient_key (mb_recipients mb)) \<inter> set (map recipient_key ?new) = {}" using assms(3) by auto
  moreover have "distinct (map recipient_key ?new)"
    by (rule rows_of_messages_distinct) (simp add: distinct_map_filter assms(2))
  ultimately have d: "distinct (map recipient_key (mb_recipients mb @ ?new))" using f(2) by (simp only: map_append distinct_append)
  have "set (mb_recipients mb @ ?new) = (\<Union>m \<in> {m \<in> set ms. m_tenant m \<in> insert t D}. set (recipient_rows before m))"
    using f(3) by auto
  with d put_recipients(2) [OF d] assms(1) show ?thesis
    by (simp add: filled_def backfill_tenant_def slot_total_count or_default_def del: map_append set_append)
qed

lemma backfill_exact:
  assumes "distinct (map row_key (mb_messages mb))" and "mb_recipients mb = []" and "mb_counters mb = (\<lambda>_ _. None)"
    and "distinct ts" and "\<forall>m \<in> set (mb_messages mb). m_tenant m \<in> set ts"
  shows "rolled_up before (backfill before ts mb)"
proof -
  have "filled before (mb_messages mb) (D \<union> set ts) (backfill before ts mb')"
    if "filled before (mb_messages mb) D mb'" "D \<inter> set ts = {}" for D mb'
    using that assms(4)
  proof (induction ts arbitrary: D mb')
    case (Cons t ts)
    have "filled before (mb_messages mb) (insert t D) (backfill_tenant before mb' t)"
      by (rule backfill_tenant_filled) (use Cons.prems assms(1) in auto)
    then have "filled before (mb_messages mb) (insert t D \<union> set ts) (backfill before ts (backfill_tenant before mb' t))"
      by (rule Cons.IH) (use Cons.prems in auto)
    then show ?case by (simp add: backfill_def)
  qed (simp add: backfill_def)
  moreover have "filled before (mb_messages mb) {} mb"
    using assms(2,3) by (simp add: filled_def or_default_def)
  ultimately have f: "filled before (mb_messages mb) (set ts) (backfill before ts mb)" by fastforce
  have "slot_count (mb_messages mb) t s = 0" if "t \<notin> set ts" for t s
    using that assms(5) by (auto simp: slot_count_def filter_empty_conv)
  moreover have "{m \<in> set (mb_messages mb). m_tenant m \<in> set ts} = set (mb_messages mb)" using assms(5) by auto
  ultimately show ?thesis using f assms(1)
    by (simp add: filled_def rolled_up_def counters_exact_def recipients_exact_def)
qed

end
