(* ===== verification/Mailbox_Counts.thy ===== *)
theory Mailbox_Counts
  imports Mailbox_Rollup_Facts "HOL-Library.Multiset"
begin

text \<open>
  \<open>messageCounts\<close> and \<open>listMailboxes\<close> of src/server/self-hosted/store.ts, which read the two
  rollups, and what they promise: the numbers that counting the messages themselves gives.
\<close>

section \<open>The list order\<close>

text \<open>\<open>ORDER BY sort_ts DESC, id DESC\<close> on the pairs of instant and id.\<close>

definition list_key :: "message \<Rightarrow> int \<times> string" where
  "list_key m = (sort_ts m, m_id m)"

definition newer :: "(string \<Rightarrow> string \<Rightarrow> bool) \<Rightarrow> int \<times> string \<Rightarrow> int \<times> string \<Rightarrow> bool" where
  "newer before a b \<longleftrightarrow> fst b < fst a \<or> (fst a = fst b \<and> before (snd b) (snd a))"


section \<open>Folder counts\<close>

record message_counts =
  mc_inbox :: int
  mc_unread :: int
  mc_starred :: int
  mc_sent :: int
  mc_archived :: int
  mc_spam :: int
  mc_trash :: int
  mc_total :: int
  mc_latest_received_at :: "int option"

definition sql_max :: "int list \<Rightarrow> int option" where
  "sql_max xs = (if xs = [] then None else Some (Max (set xs)))"

text \<open>The aggregates of both queries over \<open>message_recipients\<close>, on the flags of their rows.\<close>

definition count_flags :: "row_flags list \<Rightarrow> message_counts" where
  "count_flags xs =
     (let count = (\<lambda>p. int (length (filter p xs))) in
      \<lparr> mc_inbox = count (\<lambda>x. \<not> fl_out x \<and> \<not> fl_arch x \<and> \<not> fl_spam x \<and> \<not> fl_trash x),
        mc_unread = count (\<lambda>x. \<not> fl_out x \<and> \<not> fl_arch x \<and> \<not> fl_spam x \<and> \<not> fl_trash x \<and> \<not> fl_read x),
        mc_starred = count (\<lambda>x. \<not> fl_out x \<and> fl_starred x \<and> \<not> fl_arch x \<and> \<not> fl_spam x \<and> \<not> fl_trash x),
        mc_sent = count fl_out,
        mc_archived = count (\<lambda>x. \<not> fl_out x \<and> fl_arch x \<and> \<not> fl_spam x \<and> \<not> fl_trash x),
        mc_spam = count (\<lambda>x. \<not> fl_out x \<and> fl_spam x),
        mc_trash = count (\<lambda>x. \<not> fl_out x \<and> fl_trash x),
        mc_total = int (length xs),
        mc_latest_received_at = sql_max (map fl_sort_ts (filter (\<lambda>x. \<not> fl_out x) xs)) \<rparr>)"

definition domain_rows :: "string \<Rightarrow> string list \<Rightarrow> mail_views \<Rightarrow> recipient_row list" where
  "domain_rows t ds mb = filter (\<lambda>r. mr_tenant r = t \<and> mr_domain r \<in> set ds \<and> mr_first r) (mb_recipients mb)"

text \<open>\<open>GROUP BY message_id\<close> with \<open>bool_or\<close> of each flag and \<open>max\<close> of the instant.\<close>

definition bool_or_flags :: "row_flags list \<Rightarrow> row_flags" where
  "bool_or_flags xs = \<lparr> fl_out = (\<exists>x \<in> set xs. fl_out x), fl_read = (\<exists>x \<in> set xs. fl_read x),
     fl_starred = (\<exists>x \<in> set xs. fl_starred x), fl_arch = (\<exists>x \<in> set xs. fl_arch x),
     fl_spam = (\<exists>x \<in> set xs. fl_spam x), fl_trash = (\<exists>x \<in> set xs. fl_trash x),
     fl_sort_ts = Max (set (map fl_sort_ts xs)) \<rparr>"

definition per_message :: "recipient_row list \<Rightarrow> row_flags list" where
  "per_message rows = map (\<lambda>i. bool_or_flags (map mr_flags (filter (\<lambda>r. mr_message r = i) rows)))
     (remdups (map mr_message rows))"

definition normal_domains :: "string list option \<Rightarrow> string list" where
  "normal_domains ds = filter (\<lambda>d. d \<noteq> []) (map (\<lambda>d. js_lower (js_trim d)) (or_default ds []))"

definition messageCounts ::
    "(string \<Rightarrow> string \<Rightarrow> bool) \<Rightarrow> string \<Rightarrow> string list option \<Rightarrow> mail_views \<Rightarrow> message_counts" where
  "messageCounts before t wanted mb =
     (let ds = normal_domains wanted in
      if ds \<noteq> [] then
        (if length ds = 1 then count_flags (map mr_flags (domain_rows t ds mb))
         else count_flags (per_message (domain_rows t ds mb)))
      else
        (let counter = (\<lambda>k. or_default (mb_counters mb t k) 0);
             latest = keyset_page (newer before) list_key 1
               (filter (\<lambda>m. m_tenant m = t \<and> \<not> is_out m) (mb_messages mb)) None in
         \<lparr> mc_inbox = counter ''inbox'', mc_unread = counter ''unread'', mc_starred = counter ''starred'',
           mc_sent = counter ''sent'', mc_archived = counter ''archived'', mc_spam = counter ''spam'',
           mc_trash = counter ''trash'', mc_total = counter ''total'',
           mc_latest_received_at = (case latest of [] \<Rightarrow> None | m # _ \<Rightarrow> Some (sort_ts m)) \<rparr>))"

section \<open>Mailboxes\<close>

text \<open>The display name of an address is passed through and left out.\<close>

record mailbox_rollup =
  mx_id :: string
  mx_address :: string
  mx_status :: string
  mx_total :: int
  mx_unread :: int

definition listMailboxes ::
    "(string \<Rightarrow> string \<Rightarrow> bool) \<Rightarrow> string \<Rightarrow> address_row list \<Rightarrow> mail_views \<Rightarrow> mailbox_rollup list \<times> message_counts" where
  "listMailboxes before t as mb =
     (let inbound = (\<lambda>e. filter (\<lambda>r. mr_tenant r = t \<and> mr_email r = e \<and> mr_kind r = Kind_To \<and> \<not> fl_out (mr_flags r))
            (mb_recipients mb)) in
      (map (\<lambda>a. let rows = inbound (js_lower (a_email a)) in
          \<lparr> mx_id = a_id a, mx_address = a_email a, mx_status = a_status a,
            mx_total = int (length rows), mx_unread = int (length (filter (\<lambda>r. \<not> fl_read (mr_flags r)) rows)) \<rparr>)
        (stable_sort (\<lambda>a b. \<not> before (a_email b) (a_email a)) (filter (\<lambda>a. a_tenant a = t) as)),
       messageCounts before t None mb))"

section \<open>Counting the messages themselves\<close>

definition addressed :: "string list \<Rightarrow> message \<Rightarrow> bool" where
  "addressed ds m \<longleftrightarrow> ds = [] \<or> (\<exists>v \<in> set (m_to m @ m_cc m). \<exists>d \<in> set ds. emails_extract_domain v = Some d)"

definition tenant_mail :: "string \<Rightarrow> string list \<Rightarrow> message list \<Rightarrow> message list" where
  "tenant_mail t ds ms = filter (\<lambda>m. m_tenant m = t \<and> addressed ds m) ms"

definition folder_counts :: "message list \<Rightarrow> message_counts" where
  "folder_counts ms =
     (let count = (\<lambda>p. int (length (filter p ms))) in
      \<lparr> mc_inbox = count (in_folder Inbox), mc_unread = count (\<lambda>m. in_folder Inbox m \<and> \<not> m_is_read m),
        mc_starred = count (in_folder Starred), mc_sent = count (in_folder Sent),
        mc_archived = count (in_folder Archived), mc_spam = count (in_folder Spam),
        mc_trash = count (in_folder Trash), mc_total = int (length ms),
        mc_latest_received_at = sql_max (map sort_ts (filter (\<lambda>m. \<not> is_out m) ms)) \<rparr>)"

lemma in_folder_iff:
  "in_folder Inbox m \<longleftrightarrow> \<not> is_out m \<and> \<not> is_arch m \<and> \<not> is_spam m \<and> \<not> is_trash m"
  "in_folder Starred m \<longleftrightarrow> \<not> is_out m \<and> m_is_starred m \<and> \<not> is_arch m \<and> \<not> is_spam m \<and> \<not> is_trash m"
  "in_folder Sent m \<longleftrightarrow> is_out m"
  "in_folder Archived m \<longleftrightarrow> \<not> is_out m \<and> is_arch m \<and> \<not> is_spam m \<and> \<not> is_trash m"
  "in_folder Spam m \<longleftrightarrow> \<not> is_out m \<and> is_spam m"
  "in_folder Trash m \<longleftrightarrow> \<not> is_out m \<and> is_trash m"
  by (auto simp: in_folder_def)

lemma count_flags_of: "count_flags (map row_flags_of ms) = folder_counts ms"
proof -
  have "filter p (map row_flags_of ms) = map row_flags_of (filter (\<lambda>m. p (row_flags_of m)) ms)" for p
    by (simp add: filter_map comp_def)
  then show ?thesis
    by (simp add: count_flags_def folder_counts_def Let_def row_flags_of_def in_folder_iff [abs_def] comp_def conj_assoc)
qed

lemma count_flags_mset:
  assumes "mset xs = mset ys" shows "count_flags xs = count_flags ys"
proof -
  have l: "length (filter p xs) = length (filter p ys)" for p by (metis assms mset_filter size_mset)
  moreover have "length xs = length ys" using assms by (metis size_mset)
  moreover have "set xs = set ys" using assms by (metis set_mset_mset)
  then have "sql_max (map fl_sort_ts (filter p xs)) = sql_max (map fl_sort_ts (filter p ys))" for p
    using l [of p] by (auto simp: sql_max_def)
  ultimately show ?thesis by (simp add: count_flags_def Let_def)
qed

end
