(* ===== verification/Mailbox_List.thy ===== *)
theory Mailbox_List
  imports Mailbox_Counts Canonical_Json Send_Ledger Strict_Base64
begin

text \<open>
  \<open>listMessages\<close> of src/server/self-hosted/store.ts: the filters of the message list, its
  page cursors and its pages.  What the query and the cursor codec take from the database and
  the runtime is the record \<open>list_platform\<close>: case folding, the text of a jsonb value,
  white space and collation of the database, its text of an instant and the cast back, and
  the runtime's \<open>Date.parse\<close> and \<open>JSON.parse\<close> of UTF-8 bytes.
\<close>

record list_platform =
  lp_lower :: "string \<Rightarrow> string"
  lp_text :: "json \<Rightarrow> string"
  lp_space :: "char \<Rightarrow> bool"
  lp_before :: "string \<Rightarrow> string \<Rightarrow> bool"
  lp_ts_text :: "int \<Rightarrow> string"
  lp_timestamptz :: "string \<Rightarrow> int option"
  lp_date :: "string \<Rightarrow> int option"
  lp_json :: "nat list \<Rightarrow> json option"

section \<open>Literal terms in LIKE patterns\<close>

text \<open>\<open>text LIKE pattern ESCAPE '\'\<close>.\<close>

definition backslash :: char where
  "backslash = CHR 0x5C"

fun sql_like :: "string \<Rightarrow> string \<Rightarrow> bool" where
  "sql_like [] t = (t = [])"
| "sql_like (p # ps) t =
     (if p = CHR ''%'' then
        sql_like ps t \<or> (case t of [] \<Rightarrow> False | _ # cs \<Rightarrow> sql_like (p # ps) cs)
      else (case t of
          [] \<Rightarrow> False
        | c # cs \<Rightarrow>
            if p = backslash then (case ps of [] \<Rightarrow> False | q # qs \<Rightarrow> c = q \<and> sql_like qs cs)
            else (p = CHR ''_'' \<or> p = c) \<and> sql_like ps cs))"

declare sql_like.simps(2) [simp del]

definition escapeLikeMetacharacters :: "string \<Rightarrow> string" where
  "escapeLikeMetacharacters v =
     concat (map (\<lambda>c. if c \<in> {backslash, CHR ''%'', CHR ''_''} then [backslash, c] else [c]) v)"

definition likeContains :: "string \<Rightarrow> string" where
  "likeContains v = ''%'' @ escapeLikeMetacharacters (js_lower (js_trim v)) @ ''%''"

section \<open>Cursors\<close>

definition utf8 :: "string \<Rightarrow> nat list" where
  "utf8 s = concat (map (\<lambda>c. let n = of_char c in if n < 128 then [n] else [192 + n div 64, 128 + n mod 64]) s)"

text \<open>\<open>base64url\<close>: encoding has no padding; decoding takes both alphabets and skips the rest.\<close>

definition encode64url :: "nat list \<Rightarrow> string" where
  "encode64url bs = map (\<lambda>c. if c = CHR ''+'' then CHR ''-'' else if c = CHR ''/'' then CHR ''_'' else c)
     (filter (\<lambda>c. c \<noteq> CHR ''='') (encode64 bs))"

definition sextet_url :: "char \<Rightarrow> nat option" where
  "sextet_url c = (if c = CHR ''-'' then Some 62 else if c = CHR ''_'' then Some 63 else sextet c)"

definition decode64url :: "string \<Rightarrow> nat list" where
  "decode64url s = bytes_of (List.map_filter sextet_url s)"

definition encodeMessagesCursor :: "string \<Rightarrow> string \<Rightarrow> string" where
  "encodeMessagesCursor ts i = encode64url (utf8 (json_text (JObj [(''ts'', JStr ts), (''id'', JStr i)])))"

text \<open>\<open>CURSOR_TS_RE\<close>; \<open>d\<close> stands for a digit.\<close>

definition cursor_ts_ok :: "string \<Rightarrow> bool" where
  "cursor_ts_ok s = list_all2 (\<lambda>p c. if p = CHR ''d'' then 48 \<le> (of_char c :: nat) \<and> (of_char c :: nat) \<le> 57 else c = p)
     ''dddd-dd-ddTdd:dd:dd.ddddddZ'' s"

definition decodeMessagesCursor :: "list_platform \<Rightarrow> string \<Rightarrow> (string \<times> string) option" where
  "decodeMessagesCursor lp raw =
     (if raw = [] \<or> 512 < length raw then None
      else (case lp_json lp (decode64url raw) of
          None \<Rightarrow> None
        | Some parsed \<Rightarrow> (case (json_key parsed ''ts'', json_key parsed ''id'') of
            (Some (JStr ts), Some (JStr i)) \<Rightarrow>
              if i = [] \<or> \<not> cursor_ts_ok ts \<or> lp_date lp ts = None then None else Some (ts, i)
          | _ \<Rightarrow> None)))"

section \<open>Filters\<close>

datatype list_direction = List_Inbound | List_Outbound

record list_options =
  lo_limit :: "int option"
  lo_offset :: "int option"
  lo_direction :: "list_direction option"
  lo_to :: "string option"
  lo_from :: "string option"
  lo_subject :: "string option"
  lo_search :: "string option"
  lo_since :: "string option"
  lo_cursor :: "string option"
  lo_domains :: "string list option"
  lo_folder :: "message_folder option"

text \<open>An option whose trimmed text is empty sets no condition.\<close>

definition when_text :: "string option \<Rightarrow> (string \<Rightarrow> bool) \<Rightarrow> bool" where
  "when_text v p = (case v of None \<Rightarrow> True | Some s \<Rightarrow> js_trim s = [] \<or> p s)"

definition contains_term :: "list_platform \<Rightarrow> string \<Rightarrow> string \<Rightarrow> bool" where
  "contains_term lp text v = sql_like (likeContains v) (lp_lower lp text)"

text \<open>\<open>COALESCE(att ->> key, '')\<close>.\<close>

definition json_text_at :: "list_platform \<Rightarrow> json \<Rightarrow> string \<Rightarrow> string" where
  "json_text_at lp att k = (case json_key att k of
     None \<Rightarrow> [] | Some JNull \<Rightarrow> [] | Some (JStr s) \<Rightarrow> s | Some v \<Rightarrow> lp_text lp v)"

definition to_text :: "list_platform \<Rightarrow> message \<Rightarrow> string" where
  "to_text lp m = lp_text lp (JArr (map JStr (m_to m)))"

definition search_hit :: "list_platform \<Rightarrow> message \<Rightarrow> string \<Rightarrow> bool" where
  "search_hit lp m v \<longleftrightarrow>
     contains_term lp (join_texts '' '' [m_from m, to_text lp m, or_default (m_subject m) [], or_default (m_body_text m) []]) v
     \<or> (\<exists>att \<in> set (m_attachments m).
          contains_term lp (join_texts '' '' [json_text_at lp att ''filename'', json_text_at lp att ''content_type'']) v)"

text \<open>The conditions of the query but for the instant and the cursor.\<close>

definition list_where :: "list_platform \<Rightarrow> string \<Rightarrow> list_options \<Rightarrow> mail_views \<Rightarrow> message \<Rightarrow> bool" where
  "list_where lp t opts mb m \<longleftrightarrow>
     m_tenant m = t
     \<and> (lo_direction opts = Some List_Inbound \<longrightarrow> \<not> is_out m)
     \<and> (lo_direction opts = Some List_Outbound \<longrightarrow> is_out m)
     \<and> (case lo_folder opts of None \<Rightarrow> True | Some f \<Rightarrow> in_folder f m)
     \<and> when_text (lo_to opts) (contains_term lp (to_text lp m))
     \<and> when_text (lo_from opts) (contains_term lp (m_from m))
     \<and> when_text (lo_subject opts) (contains_term lp (or_default (m_subject m) []))
     \<and> when_text (lo_search opts) (search_hit lp m)
     \<and> (let ds = normal_domains (lo_domains opts) in ds = [] \<or>
          (\<exists>r \<in> set (mb_recipients mb). mr_tenant r = m_tenant m \<and> mr_message r = m_id m \<and> mr_domain r \<in> set ds))"

section \<open>Items\<close>

record list_item =
  li_id :: string
  li_direction :: string
  li_from :: string
  li_to :: "string list"
  li_cc :: "string list"
  li_subject :: "string option"
  li_status :: string
  li_provider_message_id :: "string option"
  li_message_id :: "string option"
  li_in_reply_to :: "string option"
  li_received_at :: "int option"
  li_is_read :: bool
  li_is_starred :: bool
  li_labels :: "string list"
  li_source_id :: "string option"
  li_send_state :: send_state
  li_send_started_at :: "int option"
  li_created_at :: int
  li_updated_at :: int
  li_snippet :: "string option"
  li_attachment_count :: nat
  li_policy_denial :: "string option"

text \<open>\<open>replace(/\s+/g, ' ')\<close> for a class of white space.\<close>

lemma dropWhile_shorter [termination_simp]: "length (dropWhile p xs) < Suc (length xs)"
  by (simp add: less_Suc_eq_le length_dropWhile_le)

fun collapse :: "(char \<Rightarrow> bool) \<Rightarrow> string \<Rightarrow> string" where
  "collapse ws [] = []"
| "collapse ws (c # cs) =
     (if ws c then CHR '' '' # collapse ws (dropWhile ws cs) else c # collapse ws cs)"

definition MESSAGE_SNIPPET_CHARS :: nat where
  "MESSAGE_SNIPPET_CHARS = 140"

text \<open>The snippet is cut in the query and normalized once more when the row is mapped.\<close>

definition snippet_of :: "list_platform \<Rightarrow> message \<Rightarrow> string option" where
  "snippet_of lp m =
     (let raw = take MESSAGE_SNIPPET_CHARS (collapse (lp_space lp) (or_default (m_body_text m) []));
          snippet = take MESSAGE_SNIPPET_CHARS (js_trim (collapse is_ws raw))
      in if snippet = [] then None else Some snippet)"

definition policyDenialOf :: "string option \<Rightarrow> string option" where
  "policyDenialOf v = (case v of None \<Rightarrow> None | Some s \<Rightarrow> if js_trim s = [] then None else Some (js_trim s))"

definition list_item_of :: "list_platform \<Rightarrow> message \<Rightarrow> list_item" where
  "list_item_of lp m =
     \<lparr> li_id = m_id m, li_direction = m_direction m, li_from = m_from m, li_to = m_to m, li_cc = m_cc m,
       li_subject = m_subject m, li_status = m_status m, li_provider_message_id = m_provider_message_id m,
       li_message_id = m_message_id m, li_in_reply_to = m_in_reply_to m, li_received_at = m_received_at m,
       li_is_read = m_is_read m, li_is_starred = m_is_starred m, li_labels = m_labels m,
       li_source_id = m_source_id m, li_send_state = m_send_state m, li_send_started_at = m_send_started_at m,
       li_created_at = m_created_at m, li_updated_at = m_updated_at m,
       li_snippet = snippet_of lp m, li_attachment_count = length (m_attachments m),
       li_policy_denial = policyDenialOf (case m_headers m ''policy_denial'' of
           None \<Rightarrow> None | Some JNull \<Rightarrow> None | Some (JStr s) \<Rightarrow> Some s | Some v \<Rightarrow> Some (lp_text lp v)) \<rparr>"

section \<open>Pages\<close>

text \<open>A bound parameter that the database cannot cast fails the statement.\<close>

definition cast_since :: "list_platform \<Rightarrow> string option \<Rightarrow> string + int option" where
  "cast_since lp v = (case v of
     None \<Rightarrow> Inr None
   | Some s \<Rightarrow> if js_trim s = [] then Inr None
       else (case lp_timestamptz lp (js_trim s) of None \<Rightarrow> Inl ''timestamptz'' | Some i \<Rightarrow> Inr (Some i)))"

definition cast_cursor :: "list_platform \<Rightarrow> (string \<times> string) option \<Rightarrow> string + (int \<times> string) option" where
  "cast_cursor lp v = (case v of
     None \<Rightarrow> Inr None
   | Some (ts, i) \<Rightarrow> (case lp_timestamptz lp ts of None \<Rightarrow> Inl ''timestamptz'' | Some n \<Rightarrow> Inr (Some (n, i))))"

definition after_cursor :: "list_platform \<Rightarrow> (int \<times> string) option \<Rightarrow> message \<Rightarrow> bool" where
  "after_cursor lp c m = (case c of
     None \<Rightarrow> True
   | Some (ts, i) \<Rightarrow> sort_ts m \<le> ts \<and> (sort_ts m < ts \<or> (sort_ts m = ts \<and> lp_before lp (m_id m) i)))"

definition since_ok :: "int option \<Rightarrow> message \<Rightarrow> bool" where
  "since_ok since m = (case since of None \<Rightarrow> True | Some i \<Rightarrow> i \<le> sort_ts m)"

definition list_page ::
    "list_platform \<Rightarrow> string \<Rightarrow> list_options \<Rightarrow> int option \<Rightarrow> (int \<times> string) option \<Rightarrow> mail_views \<Rightarrow> message list" where
  "list_page lp t opts since cursor mb =
     take (clampLimit (lo_limit opts)) (drop (if cursor = None then clampOffset (lo_offset opts) else 0)
       (stable_sort (\<lambda>x y. \<not> newer (lp_before lp) (list_key y) (list_key x))
         (filter (\<lambda>m. list_where lp t opts mb m \<and> since_ok since m \<and> after_cursor lp cursor m) (mb_messages mb))))"

definition listMessages ::
    "list_platform \<Rightarrow> string \<Rightarrow> list_options \<Rightarrow> mail_views \<Rightarrow> string + list_item list \<times> string option" where
  "listMessages lp t opts mb =
     (case cast_since lp (lo_since opts) of
        Inl e \<Rightarrow> Inl e
      | Inr since \<Rightarrow>
          (case cast_cursor lp (case lo_cursor opts of
                None \<Rightarrow> None | Some raw \<Rightarrow> if raw = [] then None else decodeMessagesCursor lp raw) of
             Inl e \<Rightarrow> Inl e
           | Inr cursor \<Rightarrow>
               (let rows = list_page lp t opts since cursor mb;
                    next_cursor = (if rows \<noteq> [] \<and> length rows = clampLimit (lo_limit opts)
                      then Some (encodeMessagesCursor (lp_ts_text lp (sort_ts (last rows))) (m_id (last rows))) else None)
                in Inr (map (list_item_of lp) rows, next_cursor))))"

text \<open>A client that follows the cursors, one page of each state of the mailbox in turn.\<close>

definition message_scan ::
    "list_platform \<Rightarrow> string \<Rightarrow> list_options \<Rightarrow> mail_views list \<Rightarrow> string option \<Rightarrow> string + list_item list \<times> bool" where
  "message_scan lp t opts = cursor_scan (\<lambda>cursor mb. listMessages lp t (opts\<lparr>lo_cursor := cursor\<rparr>) mb)"

end
