(* ===== verification/Attachment_List.thy ===== *)
theory Attachment_List
  imports Mailbox_List Attachment_Download Send_Request
begin

text \<open>
  \<open>listAttachments\<close> and \<open>listAttachmentsForMessageIds\<close> of src/server/self-hosted/store.ts: one
  metadata row per attachment of every message, with the database's own judgement whether the
  payload can be served.  \<open>decode\<close> and \<open>encode\<close> of the database are base64 as the platform's.
\<close>

section \<open>Sizes\<close>

text \<open>\<open>^(?:0|[1-9][0-9]*)$\<close>\<close>

definition canonical_decimal :: "string \<Rightarrow> bool" where
  "canonical_decimal s \<longleftrightarrow> s = ''0'' \<or> (s \<noteq> [] \<and> hd s \<noteq> CHR ''0'' \<and> (\<forall>c \<in> set s. is_digit c))"

abbreviation max_safe :: int where
  "max_safe \<equiv> 9007199254740991"

text \<open>A numeral above the safe integers reads as a number that is not safe either.\<close>

definition toSizeBytes :: "json option \<Rightarrow> int option" where
  "toSizeBytes v = (case v of
     Some (JNum n) \<Rightarrow> if 0 \<le> n \<and> n \<le> max_safe then Some n else None
   | Some (JStr s) \<Rightarrow> if canonical_decimal s \<and> digits_value s \<le> max_safe then Some (digits_value s) else None
   | _ \<Rightarrow> None)"

text \<open>
  jsonb keeps a numeral as it was written, so that \<open>3.0\<close> is not the text of \<open>3\<close>, and JSON.parse
  reads both as the same number.  \<open>m_attachments\<close> holds what JSON.parse reads; the database also
  knows the digits on the two sides of the point, where the size of an attachment is written
  with one.  A number with a fraction that JSON.parse keeps is a size to neither side, and no
  JSON value of the model.
\<close>

type_synonym pointed = "(string \<times> string) option"

definition numeral_text :: "int \<Rightarrow> pointed \<Rightarrow> string" where
  "numeral_text n fr = (case fr of None \<Rightarrow> int_text n | Some (whole, frac) \<Rightarrow> whole @ ''.'' @ frac)"

definition sql_size_bytes :: "json option \<Rightarrow> pointed \<Rightarrow> int option" where
  "sql_size_bytes v fr = (case v of
     Some (JNum n) \<Rightarrow>
       if canonical_decimal (numeral_text n fr) \<and> digits_value (numeral_text n fr) \<le> max_safe
       then Some (digits_value (numeral_text n fr)) else None
   | Some (JStr s) \<Rightarrow> if canonical_decimal s \<and> digits_value s \<le> max_safe then Some (digits_value s) else None
   | _ \<Rightarrow> None)"

section \<open>The inventory row\<close>

text \<open>\<open>att ->> key\<close> and \<open>jsonb_typeof(att -> key) = 'string'\<close>, both null where the key is missing.\<close>

definition json_text_opt :: "list_platform \<Rightarrow> json \<Rightarrow> string \<Rightarrow> string option" where
  "json_text_opt lp att k = (case json_key att k of
     None \<Rightarrow> None | Some JNull \<Rightarrow> None | Some (JStr s) \<Rightarrow> Some s | Some v \<Rightarrow> Some (lp_text lp v))"

definition json_is_string :: "json \<Rightarrow> string \<Rightarrow> bool option" where
  "json_is_string att k = map_option (\<lambda>v. case v of JStr _ \<Rightarrow> True | _ \<Rightarrow> False) (json_key att k)"

record attachment_row =
  ir_message_id :: string
  ir_index :: nat
  ir_filename :: "string option"
  ir_filename_is_string :: "bool option"
  ir_content_type :: "string option"
  ir_content_type_is_string :: "bool option"
  ir_size_raw :: "int option"
  ir_sha256 :: "string option"
  ir_content_available :: bool
  ir_direction :: string
  ir_received_at :: "int option"

definition sql_content_available :: "json \<Rightarrow> pointed \<Rightarrow> bool" where
  "sql_content_available att fr =
     (case (sql_size_bytes (json_key att ''size'') fr, json_key att ''content_base64'') of
        (Some n, Some (JStr payload)) \<Rightarrow>
          n \<le> MAX_ATTACHMENT_DOWNLOAD_BYTES
          \<and> int (length payload) \<le> (MAX_ATTACHMENT_DOWNLOAD_BYTES + 2) div 3 * 4
          \<and> length payload mod 4 = 0 \<and> base64_shape payload
          \<and> int (length (decode64 payload)) = n \<and> encode64 (decode64 payload) = payload
      | _ \<Rightarrow> False)"

definition attachment_row_of :: "list_platform \<Rightarrow> message \<Rightarrow> nat \<Rightarrow> json \<Rightarrow> pointed \<Rightarrow> attachment_row" where
  "attachment_row_of lp m i att fr =
     \<lparr> ir_message_id = m_id m, ir_index = i,
       ir_filename = json_text_opt lp att ''filename'', ir_filename_is_string = json_is_string att ''filename'',
       ir_content_type = json_text_opt lp att ''content_type'', ir_content_type_is_string = json_is_string att ''content_type'',
       ir_size_raw = sql_size_bytes (json_key att ''size'') fr, ir_sha256 = json_text_opt lp att ''sha256'',
       ir_content_available = sql_content_available att fr,
       ir_direction = m_direction m, ir_received_at = m_received_at m \<rparr>"

record inventory_item =
  ai_message_id :: string
  ai_index :: nat
  ai_filename :: "string option"
  ai_content_type :: "string option"
  ai_size_bytes :: "int option"
  ai_sha256 :: "string option"
  ai_content_available :: bool
  ai_direction :: string
  ai_received_at :: "int option"

text \<open>A \<open>bigint\<close> arrives as its text.\<close>

definition mapAttachmentInventoryRow :: "attachment_row \<Rightarrow> inventory_item" where
  "mapAttachmentInventoryRow row =
     (let size = toSizeBytes (map_option (\<lambda>n. JStr (int_text n)) (ir_size_raw row));
          only_string = (\<lambda>flag v. nullable (if flag = Some False then None else v));
          metadata = JObj [(''filename'', only_string (ir_filename_is_string row) (ir_filename row)),
            (''content_type'', only_string (ir_content_type_is_string row) (ir_content_type row)),
            (''size'', case size of None \<Rightarrow> JNull | Some n \<Rightarrow> JNum n)]
      in \<lparr> ai_message_id = ir_message_id row, ai_index = ir_index row, ai_filename = ir_filename row,
           ai_content_type = ir_content_type row, ai_size_bytes = size, ai_sha256 = ir_sha256 row,
           ai_content_available = (ir_content_available row \<and> \<not> isl (validateAttachmentMetadata (Some metadata) False)),
           ai_direction = ir_direction row, ai_received_at = ir_received_at row \<rparr>)"

section \<open>Metadata by message id\<close>

definition attachmentContentAvailable :: "(nat list \<Rightarrow> string) \<Rightarrow> json \<Rightarrow> bool" where
  "attachmentContentAvailable sha item =
     (case item of
        JObj fs \<Rightarrow>
          (case (toSizeBytes (json_key item ''size''), json_key item ''content_base64'') of
             (Some n, Some (JStr _)) \<Rightarrow>
               (case decodeAttachmentPayload sha (JObj [(''attachment'', JObj (fs @ [(''size'', JNum n)]))])
                   (Some MAX_ATTACHMENT_DOWNLOAD_BYTES) of
                  Inr (Available _ _ _ _ _) \<Rightarrow> True | _ \<Rightarrow> False)
           | _ \<Rightarrow> False)
      | _ \<Rightarrow> False)"

definition attField :: "json \<Rightarrow> string \<Rightarrow> string option" where
  "attField item k = (case json_key item k of
     None \<Rightarrow> None | Some JNull \<Rightarrow> None | Some v \<Rightarrow> Some (js_String v))"

record attachment_meta_item =
  am_index :: nat
  am_filename :: "string option"
  am_content_type :: "string option"
  am_size_bytes :: "int option"
  am_sha256 :: "string option"
  am_content_available :: bool

definition attachmentMetaOf :: "(nat list \<Rightarrow> string) \<Rightarrow> nat \<Rightarrow> json \<Rightarrow> attachment_meta_item" where
  "attachmentMetaOf sha i item =
     \<lparr> am_index = i, am_filename = attField item ''filename'', am_content_type = attField item ''content_type'',
       am_size_bytes = toSizeBytes (json_key item ''size''), am_sha256 = attField item ''sha256'',
       am_content_available = attachmentContentAvailable sha item \<rparr>"

definition listAttachmentsForMessageIds ::
    "(nat list \<Rightarrow> string) \<Rightarrow> string \<Rightarrow> string list \<Rightarrow> mail_views \<Rightarrow> (string \<times> attachment_meta_item list) list \<times> string list" where
  "listAttachmentsForMessageIds sha t ids mb =
     (let unique = js_unique ids;
          rows = filter (\<lambda>m. m_tenant m = t \<and> m_id m \<in> set unique) (mb_messages mb) in
      (map (\<lambda>m. (m_id m, map (\<lambda>(i, item). attachmentMetaOf sha i item) (enumerate 0 (m_attachments m)))) rows,
       filter (\<lambda>i. i \<notin> m_id ` set rows) unique))"

section \<open>Cursors and pages\<close>

abbreviation inventory_cursor_object :: "string \<Rightarrow> string \<Rightarrow> nat \<Rightarrow> json" where
  "inventory_cursor_object ts i n \<equiv> JObj [(''ts'', JStr ts), (''id'', JStr i), (''idx'', JNum (int n))]"

definition encodeAttachmentsCursor :: "string \<Rightarrow> string \<Rightarrow> nat \<Rightarrow> string" where
  "encodeAttachmentsCursor ts i n = encode64url (utf8 (json_text (inventory_cursor_object ts i n)))"

definition decodeAttachmentsCursor :: "list_platform \<Rightarrow> string \<Rightarrow> (string \<times> string \<times> nat) option" where
  "decodeAttachmentsCursor lp raw =
     (if raw = [] \<or> 512 < length raw then None
      else (case lp_json lp (decode64url raw) of
          None \<Rightarrow> None
        | Some parsed \<Rightarrow> (case (json_key parsed ''ts'', json_key parsed ''id'', json_key parsed ''idx'') of
            (Some (JStr ts), Some (JStr i), Some (JNum n)) \<Rightarrow>
              if i = [] \<or> \<not> cursor_ts_ok ts \<or> lp_date lp ts = None \<or> n < 0 then None else Some (ts, i, nat n)
          | _ \<Rightarrow> None)))"

record inventory_options =
  ao_limit :: "int option"
  ao_cursor :: "string option"
  ao_direction :: "list_direction option"
  ao_since :: "string option"

type_synonym inventory_position = "int \<times> string \<times> nat"

definition cast_inventory_cursor :: "list_platform \<Rightarrow> (string \<times> string \<times> nat) option \<Rightarrow> string + inventory_position option" where
  "cast_inventory_cursor lp v = (case v of
     None \<Rightarrow> Inr None
   | Some (ts, i, n) \<Rightarrow> (case lp_timestamptz lp ts of
       None \<Rightarrow> Inl ''timestamptz''
     | Some s \<Rightarrow> if 2 ^ 63 \<le> n then Inl ''bigint'' else Inr (Some (s, i, n))))"

text \<open>The lateral join, and the order \<open>sort_ts DESC, id DESC, index ASC\<close>.\<close>

definition attachment_rows :: "mail_views \<Rightarrow> (message \<times> nat \<times> json) list" where
  "attachment_rows mb = concat (map (\<lambda>m. map (Pair m) (enumerate 0 (m_attachments m))) (mb_messages mb))"

definition inventory_key :: "message \<times> nat \<times> json \<Rightarrow> inventory_position" where
  "inventory_key r = (sort_ts (fst r), m_id (fst r), fst (snd r))"

definition inventory_before :: "(string \<Rightarrow> string \<Rightarrow> bool) \<Rightarrow> inventory_position \<Rightarrow> inventory_position \<Rightarrow> bool" where
  "inventory_before before a b \<longleftrightarrow>
     fst b < fst a \<or> (fst a = fst b \<and> (before (fst (snd b)) (fst (snd a)) \<or> (fst (snd a) = fst (snd b) \<and> snd (snd a) < snd (snd b))))"

definition inventory_where :: "string \<Rightarrow> inventory_options \<Rightarrow> int option \<Rightarrow> message \<Rightarrow> bool" where
  "inventory_where t opts since m \<longleftrightarrow> m_tenant m = t
     \<and> (ao_direction opts = Some List_Inbound \<longrightarrow> \<not> is_out m)
     \<and> (ao_direction opts = Some List_Outbound \<longrightarrow> is_out m)
     \<and> since_ok since m"

definition after_inventory_cursor :: "list_platform \<Rightarrow> inventory_position option \<Rightarrow> message \<times> nat \<times> json \<Rightarrow> bool" where
  "after_inventory_cursor lp c r = (case c of
     None \<Rightarrow> True
   | Some (ts, i, n) \<Rightarrow> sort_ts (fst r) \<le> ts
       \<and> (sort_ts (fst r) < ts
         \<or> (sort_ts (fst r) = ts \<and> lp_before lp (m_id (fst r)) i)
         \<or> (sort_ts (fst r) = ts \<and> m_id (fst r) = i \<and> n < fst (snd r))))"

definition inventory_page ::
    "list_platform \<Rightarrow> string \<Rightarrow> inventory_options \<Rightarrow> int option \<Rightarrow> inventory_position option \<Rightarrow> mail_views \<Rightarrow> (message \<times> nat \<times> json) list" where
  "inventory_page lp t opts since cursor mb =
     take (clampLimit (ao_limit opts))
       (stable_sort (\<lambda>x y. \<not> inventory_before (lp_before lp) (inventory_key y) (inventory_key x))
         (filter (\<lambda>r. inventory_where t opts since (fst r) \<and> after_inventory_cursor lp cursor r) (attachment_rows mb)))"

definition inventory_item_of ::
    "list_platform \<Rightarrow> (message \<Rightarrow> nat \<Rightarrow> pointed) \<Rightarrow> message \<times> nat \<times> json \<Rightarrow> inventory_item" where
  "inventory_item_of lp fr r = (case r of (m, i, att) \<Rightarrow> mapAttachmentInventoryRow (attachment_row_of lp m i att (fr m i)))"

definition listAttachments ::
    "list_platform \<Rightarrow> (message \<Rightarrow> nat \<Rightarrow> pointed) \<Rightarrow> string \<Rightarrow> inventory_options \<Rightarrow> mail_views \<Rightarrow> string + inventory_item list \<times> string option" where
  "listAttachments lp fr t opts mb =
     (case cast_since lp (ao_since opts) of
        Inl e \<Rightarrow> Inl e
      | Inr since \<Rightarrow>
          (case cast_inventory_cursor lp (case ao_cursor opts of
                None \<Rightarrow> None | Some raw \<Rightarrow> if raw = [] then None else decodeAttachmentsCursor lp raw) of
             Inl e \<Rightarrow> Inl e
           | Inr cursor \<Rightarrow>
               (let rows = inventory_page lp t opts since cursor mb;
                    next_cursor = (if rows \<noteq> [] \<and> length rows = clampLimit (ao_limit opts)
                      then (case inventory_key (last rows) of (ts, i, n) \<Rightarrow> Some (encodeAttachmentsCursor (lp_ts_text lp ts) i n))
                      else None)
                in Inr (map (inventory_item_of lp fr) rows, next_cursor))))"

definition inventory_scan ::
    "list_platform \<Rightarrow> (message \<Rightarrow> nat \<Rightarrow> pointed) \<Rightarrow> string \<Rightarrow> inventory_options \<Rightarrow> mail_views list \<Rightarrow> string option \<Rightarrow> string + inventory_item list \<times> bool" where
  "inventory_scan lp fr t opts = cursor_scan (\<lambda>cursor mb. listAttachments lp fr t (opts\<lparr>ao_cursor := cursor\<rparr>) mb)"

end
