(* ===== verification/Mailbox_Counts_Facts.thy ===== *)
theory Mailbox_Counts_Facts
  imports Mailbox_Counts
begin

text \<open>
  The folder counts and the mailbox totals are exact: whatever rows were written, the
  numbers read from the rollups are those of the messages.
\<close>

section \<open>The list order is a strict order\<close>

locale collation = strict_order before for before :: "string \<Rightarrow> string \<Rightarrow> bool"
begin

lemma newer_order: "strict_order (newer before)"
proof
  show "\<not> newer before a a" for a by (simp add: newer_def irrefl)
  show "newer before a c" if "newer before a b" "newer before b c" for a b c
    using that by (auto simp: newer_def dest: trans)
  show "newer before a b \<or> newer before b a" if "a \<noteq> b" for a b
    using that total [of "snd a" "snd b"] by (cases a; cases b) (auto simp: newer_def)
qed

lemma one_first_row:
  assumes "(e, d) \<in> set (grouped_recipients m)"
  shows "\<exists>r \<in> set (recipient_rows before m). mr_domain r = d \<and> mr_first r"
proof -
  let ?A = "{e. (e, d) \<in> set (grouped_recipients m)}"
  have "finite ?A" by (rule finite_subset [of _ "fst ` set (grouped_recipients m)"]) force+
  with assms obtain a where a: "(a, d) \<in> set (grouped_recipients m)" "\<forall>b \<in> ?A. \<not> before b a"
    using first_exists [of ?A] by blast
  define r where "r = \<lparr> mr_tenant = m_tenant m, mr_message = m_id m, mr_email = a, mr_domain = d,
      mr_kind = max_kind m a d, mr_flags = row_flags_of m, mr_first = True \<rparr>"
  have "r \<in> set (recipient_rows before m)" unfolding recipient_rows_def set_map
  proof (rule image_eqI [OF _ a(1)])
    show "r = (case (a, d) of (e, d) \<Rightarrow>
     \<lparr> mr_tenant = m_tenant m, mr_message = m_id m, mr_email = e, mr_domain = d,
       mr_kind = max_kind m e d, mr_flags = row_flags_of m,
       mr_first = (\<forall>(e', d') \<in> set (grouped_recipients m). d' = d \<longrightarrow> \<not> before e' e) \<rparr>)"
      using a(2) by (auto simp: r_def)
  qed
  then show ?thesis by (force simp: r_def)
qed

lemma same_first_row:
  assumes "r \<in> set (recipient_rows before m)" "r' \<in> set (recipient_rows before m)"
    and "mr_domain r = mr_domain r'" "mr_first r" "mr_first r'"
  shows "mr_email r = mr_email r'"
proof (rule first_unique)
  let ?A = "{e. (e, mr_domain r) \<in> set (grouped_recipients m)}"
  show "mr_email r \<in> ?A" "mr_email r' \<in> ?A" using assms recipient_rows_of by (auto, metis)
  show "\<forall>b \<in> ?A. \<not> before b (mr_email r)" "\<forall>b \<in> ?A. \<not> before b (mr_email r')"
    using assms by (auto simp: recipient_rows_def)
qed

end

text \<open>The order of code points is a collation.\<close>

interpretation code_points: collation "(<) :: string \<Rightarrow> string \<Rightarrow> bool"
  by unfold_locales auto

section \<open>Rows of the messages of a tenant\<close>

lemma row_of_message:
  assumes "recipients_exact before mb"
  shows "r \<in> set (mb_recipients mb) \<longleftrightarrow> (\<exists>m \<in> set (mb_messages mb). r \<in> set (recipient_rows before m))"
  using assms by (auto simp: recipients_exact_def)

lemma tenant_message_unique:
  assumes "distinct (map row_key ms)" "m \<in> set ms" "m' \<in> set ms" "row_key m = row_key m'"
  shows "m = m'"
  using inj_onD [of row_key "set ms" m m'] assms by (simp add: distinct_map del: prod.inject)

lemma parsed_address:
  "(e, d, k) \<in> set (parsed_recipients m) \<longleftrightarrow> d = address_domain e
     \<and> (\<exists>v \<in> set (if k = Kind_To then m_to m else m_cc m). emails_extract_address v = Some e)"
  by (cases k) (auto simp: parsed_recipients_def extract_domain_eq split: option.splits dest: sym)

lemma grouped_address:
  "(e, d) \<in> set (grouped_recipients m) \<longleftrightarrow>
     d = address_domain e \<and> (\<exists>v \<in> set (m_to m @ m_cc m). emails_extract_address v = Some e)"
proof -
  have "(e, d) \<in> set (grouped_recipients m) \<longleftrightarrow> (\<exists>k. (e, d, k) \<in> set (parsed_recipients m))"
    by (force simp: grouped_recipients_def)
  also have "\<dots> \<longleftrightarrow> (e, d, Kind_To) \<in> set (parsed_recipients m) \<or> (e, d, Kind_Cc) \<in> set (parsed_recipients m)"
    by (metis recipient_kind.exhaust)
  finally show ?thesis by (auto simp: parsed_address)
qed

lemma addressed_group:
  "ds \<noteq> [] \<Longrightarrow> addressed ds m \<longleftrightarrow> (\<exists>e d. d \<in> set ds \<and> (e, d) \<in> set (grouped_recipients m))"
  by (auto simp: addressed_def grouped_address extract_domain_eq)

text \<open>The counted rows: every addressed message of the tenant has one, and they carry its flags.\<close>

lemma domain_row:
  assumes "rolled_up before mb" and "r \<in> set (domain_rows t ds mb)"
  obtains m where "m \<in> set (tenant_mail t ds (mb_messages mb))" and "mr_message r = m_id m"
    and "mr_flags r = row_flags_of m" and "r \<in> set (recipient_rows before m)"
proof -
  have r: "mr_tenant r = t" "mr_domain r \<in> set ds" "r \<in> set (mb_recipients mb)" using assms(2) by (auto simp: domain_rows_def)
  then obtain m where m: "m \<in> set (mb_messages mb)" "r \<in> set (recipient_rows before m)"
    using assms(1) row_of_message by (auto simp: rolled_up_def)
  note f = recipient_rows_of [OF m(2)]
  then have "addressed ds m" using r(2) addressed_group [of ds m] by fastforce
  with m f r that show thesis by (simp add: tenant_mail_def)
qed

lemma domain_row_exists:
  assumes "strict_order before" and "rolled_up before mb" and "ds \<noteq> []" and "m \<in> set (tenant_mail t ds (mb_messages mb))"
  shows "\<exists>r \<in> set (domain_rows t ds mb). mr_message r = m_id m \<and> mr_flags r = row_flags_of m"
proof -
  have m: "m \<in> set (mb_messages mb)" "m_tenant m = t" "addressed ds m" using assms(4) by (auto simp: tenant_mail_def)
  then obtain e d where "d \<in> set ds" "(e, d) \<in> set (grouped_recipients m)" using assms(3) addressed_group by blast
  then obtain r where r: "r \<in> set (recipient_rows before m)" "mr_domain r \<in> set ds" "mr_first r"
    using collation.one_first_row [OF collation.intro, OF assms(1)] by blast
  moreover have "r \<in> set (mb_recipients mb)" using r(1) m(1) assms(2) row_of_message by (auto simp: rolled_up_def)
  ultimately show ?thesis using recipient_rows_of [OF r(1)] m(2) by (auto simp: domain_rows_def)
qed

lemma tenant_ids: "distinct (map row_key ms) \<Longrightarrow> distinct (map m_id (tenant_mail t ds ms))"
  by (auto simp: distinct_map tenant_mail_def inj_on_def)

text \<open>A list with one entry of each message's id and flags counts as the messages do.\<close>

lemma flags_by_id:
  assumes "distinct (map row_key ms)" and "\<And>m. Q m \<Longrightarrow> m_tenant m = t" and "distinct (map fst xs)"
    and "\<And>i x. (i, x) \<in> set xs \<longleftrightarrow> (\<exists>m \<in> set (filter Q ms). i = m_id m \<and> x = row_flags_of m)"
  shows "mset (map snd xs) = mset (map row_flags_of (filter Q ms))"
proof -
  let ?ys = "map (\<lambda>m. (m_id m, row_flags_of m)) (filter Q ms)"
  have "distinct (map m_id (filter Q ms))" using assms(1,2) by (auto simp: distinct_map inj_on_def)
  then have "distinct ?ys" by (auto simp: distinct_map inj_on_def)
  moreover have "distinct xs" using assms(3) by (simp add: distinct_map)
  moreover have "set xs = set ?ys" using assms(4) by auto
  ultimately have "mset xs = mset ?ys" using set_eq_iff_mset_eq_distinct by blast
  then have "mset (map snd xs) = mset (map snd ?ys)" by (metis mset_map)
  then show ?thesis by (simp add: comp_def)
qed

lemma counts_by_id:
  assumes "distinct (map row_key ms)" and "distinct (map fst xs)"
    and "\<And>i x. (i, x) \<in> set xs \<longleftrightarrow> (\<exists>m \<in> set (tenant_mail t ds ms). i = m_id m \<and> x = row_flags_of m)"
  shows "count_flags (map snd xs) = folder_counts (tenant_mail t ds ms)"
proof -
  have "mset (map snd xs) = mset (map row_flags_of (tenant_mail t ds ms))"
    unfolding tenant_mail_def by (rule flags_by_id [OF assms(1) _ assms(2)]) (use assms(3) in \<open>auto simp: tenant_mail_def\<close>)
  from count_flags_mset [OF this] show ?thesis by (simp only: count_flags_of)
qed

lemma counted_ids:
  assumes "strict_order before" and "rolled_up before mb" and "ds \<noteq> []"
  shows "i \<in> mr_message ` set (domain_rows t ds mb) \<longleftrightarrow> (\<exists>m \<in> set (tenant_mail t ds (mb_messages mb)). i = m_id m)"
    and "(i, x) \<in> (\<lambda>r. (mr_message r, mr_flags r)) ` set (domain_rows t ds mb) \<longleftrightarrow>
      (\<exists>m \<in> set (tenant_mail t ds (mb_messages mb)). i = m_id m \<and> x = row_flags_of m)"
proof -
  have "\<exists>m \<in> set (tenant_mail t ds (mb_messages mb)). mr_message r = m_id m \<and> mr_flags r = row_flags_of m"
    if "r \<in> set (domain_rows t ds mb)" for r
    using domain_row [OF assms(2) that] by metis
  moreover note domain_row_exists [OF assms, of _ t]
  ultimately show "i \<in> mr_message ` set (domain_rows t ds mb) \<longleftrightarrow> (\<exists>m \<in> set (tenant_mail t ds (mb_messages mb)). i = m_id m)"
    and "(i, x) \<in> (\<lambda>r. (mr_message r, mr_flags r)) ` set (domain_rows t ds mb) \<longleftrightarrow>
      (\<exists>m \<in> set (tenant_mail t ds (mb_messages mb)). i = m_id m \<and> x = row_flags_of m)"
    unfolding image_iff by (metis, metis prod.inject)
qed

lemma single_domain_ids:
  assumes "strict_order before" and "rolled_up before mb"
  shows "distinct (map mr_message (domain_rows t [d] mb))"
proof -
  let ?rows = "domain_rows t [d] mb"
  have inv: "distinct (map row_key (mb_messages mb))" "distinct (map recipient_key (mb_recipients mb))"
    using assms(2) by (simp_all add: rolled_up_def recipients_exact_def)
  have keys: "distinct (map recipient_key ?rows)" using inv(2) by (simp add: domain_rows_def distinct_map_filter)
  have "mr_email r = mr_email r'" if r: "r \<in> set ?rows" "r' \<in> set ?rows" "mr_message r = mr_message r'" for r r'
  proof -
    obtain m where m: "m \<in> set (tenant_mail t [d] (mb_messages mb))" "mr_message r = m_id m" "r \<in> set (recipient_rows before m)"
      using domain_row [OF assms(2) r(1)] by metis
    obtain m' where m': "m' \<in> set (tenant_mail t [d] (mb_messages mb))" "mr_message r' = m_id m'" "r' \<in> set (recipient_rows before m')"
      using domain_row [OF assms(2) r(2)] by metis
    have "m = m'" by (rule tenant_message_unique [OF inv(1)]) (use m m' r(3) in \<open>auto simp: tenant_mail_def\<close>)
    moreover have "mr_domain r = mr_domain r'" "mr_first r" "mr_first r'" using r(1,2) by (auto simp: domain_rows_def)
    ultimately show ?thesis
      using collation.same_first_row [OF collation.intro, OF assms(1) m(3)] m'(3) by simp
  qed
  moreover have "mr_tenant r = t" if "r \<in> set ?rows" for r using that by (simp add: domain_rows_def)
  ultimately have "recipient_key r = recipient_key r'"
    if "r \<in> set ?rows" "r' \<in> set ?rows" "mr_message r = mr_message r'" for r r'
    using that by metis
  moreover have "inj_on recipient_key (set ?rows)" using keys by (simp only: distinct_map)
  ultimately have "inj_on mr_message (set ?rows)" unfolding inj_on_def by blast
  then show ?thesis using keys by (simp add: distinct_map)
qed

lemma single_domain_counts:
  assumes "strict_order before" and "rolled_up before mb"
  shows "count_flags (map mr_flags (domain_rows t [d] mb)) = folder_counts (tenant_mail t [d] (mb_messages mb))"
proof -
  let ?xs = "map (\<lambda>r. (mr_message r, mr_flags r)) (domain_rows t [d] mb)"
  have "distinct (map row_key (mb_messages mb))" using assms(2) by (simp add: rolled_up_def)
  moreover have "distinct (map fst ?xs)" using single_domain_ids [OF assms] by (simp add: comp_def)
  moreover have "(i, x) \<in> set ?xs \<longleftrightarrow> (\<exists>m \<in> set (tenant_mail t [d] (mb_messages mb)). i = m_id m \<and> x = row_flags_of m)" for i x
    using counted_ids(2) [OF assms, of "[d]" i x t] by (simp only: set_map) simp
  ultimately have "count_flags (map snd ?xs) = folder_counts (tenant_mail t [d] (mb_messages mb))" by (rule counts_by_id)
  then show ?thesis by (simp add: comp_def)
qed

lemma bool_or_same: "xs \<noteq> [] \<Longrightarrow> \<forall>x \<in> set xs. x = y \<Longrightarrow> bool_or_flags xs = y"
proof -
  assume "xs \<noteq> []" and all: "\<forall>x \<in> set xs. x = y"
  then have "set xs = {y}" by (cases xs) auto
  then show "bool_or_flags xs = y" by (simp add: bool_or_flags_def)
qed

lemma many_domain_counts:
  assumes "strict_order before" and "rolled_up before mb" and "ds \<noteq> []"
  shows "count_flags (per_message (domain_rows t ds mb)) = folder_counts (tenant_mail t ds (mb_messages mb))"
proof -
  let ?rows = "domain_rows t ds mb"
  define flags where "flags = (\<lambda>i. bool_or_flags (map mr_flags (filter (\<lambda>r. mr_message r = i) ?rows)))"
  let ?xs = "map (\<lambda>i. (i, flags i)) (remdups (map mr_message ?rows))"
  have inv: "distinct (map row_key (mb_messages mb))" using assms(2) by (simp add: rolled_up_def)
  have flags: "flags (m_id m) = row_flags_of m" if m: "m \<in> set (tenant_mail t ds (mb_messages mb))" for m
    unfolding flags_def
  proof (rule bool_or_same)
    show "map mr_flags (filter (\<lambda>r. mr_message r = m_id m) ?rows) \<noteq> []"
      using domain_row_exists [OF assms m] by (auto simp: filter_empty_conv)
    have "mr_flags r = row_flags_of m" if r: "r \<in> set ?rows" "mr_message r = m_id m" for r
    proof -
      obtain n where n: "n \<in> set (tenant_mail t ds (mb_messages mb))" "mr_message r = m_id n" "mr_flags r = row_flags_of n"
        using domain_row [OF assms(2) r(1)] by metis
      then have "n = m" using tenant_message_unique [OF inv] m r(2) by (auto simp: tenant_mail_def)
      with n show ?thesis by simp
    qed
    then show "\<forall>x \<in> set (map mr_flags (filter (\<lambda>r. mr_message r = m_id m) ?rows)). x = row_flags_of m" by auto
  qed
  have "i \<in> set (map mr_message ?rows) \<longleftrightarrow> (\<exists>m \<in> set (tenant_mail t ds (mb_messages mb)). i = m_id m)" for i
    using counted_ids(1) [OF assms, of i t] by simp
  then have "(i, x) \<in> set ?xs \<longleftrightarrow> (\<exists>m \<in> set (tenant_mail t ds (mb_messages mb)). i = m_id m \<and> x = row_flags_of m)" for i x
    using flags by (simp only: set_map [of "\<lambda>i. (i, flags i)"] set_remdups image_iff) (metis prod.inject)
  moreover have "distinct (map fst ?xs)" by (simp add: comp_def)
  ultimately show ?thesis
    using counts_by_id [OF inv, of ?xs] by (simp add: per_message_def flags_def comp_def)
qed

section \<open>Folder counts are exact\<close>

lemma latest_is_max:
  assumes "strict_order before" and "distinct (map m_id ms)"
  shows "(case keyset_page (newer before) list_key 1 ms None of [] \<Rightarrow> None | m # _ \<Rightarrow> Some (sort_ts m)) = sql_max (map sort_ts ms)"
proof -
  have k: "keyset (newer before)" by (rule keyset.intro [OF collation.newer_order [OF collation.intro, OF assms(1)]])
  have d: "distinct (map list_key ms)" using assms(2) by (auto simp: distinct_map list_key_def inj_on_def)
  let ?page = "keyset_page (newer before) list_key 1 ms None"
  have len: "length ?page = min 1 (length ms)" by (simp add: keyset_page_def)
  show ?thesis
  proof (cases "ms = []")
    case False
    then have "length ?page = 1" using len by (cases ms) simp_all
    then obtain m where p: "?page = [m]" by (cases ?page) simp_all
    have m: "m \<in> set ms" using keyset.page_in [OF k d, of m 1 None] p by simp
    have "sort_ts n \<le> sort_ts m" if "n \<in> set ms" for n
      using keyset.page_misses [OF k d that, of None 1] p by (cases "n = m") (auto simp: newer_def list_key_def)
    then have "Max (set (map sort_ts ms)) = sort_ts m" by (intro Max_eqI) (use m in auto)
    with p False show ?thesis by (simp add: sql_max_def)
  qed (use len in \<open>simp add: sql_max_def\<close>)
qed

lemma counter_counts:
  assumes "strict_order before" and "rolled_up before mb" and "normal_domains wanted = []"
  shows "messageCounts before t wanted mb = folder_counts (tenant_mail t [] (mb_messages mb))"
proof -
  have mail: "tenant_mail t [] ms = filter (\<lambda>m. m_tenant m = t) ms" for ms by (simp add: tenant_mail_def addressed_def)
  have c: "or_default (mb_counters mb t s) 0 = int (length (filter (\<lambda>m. s \<in> set (emails_folder_slots m)) (tenant_mail t [] (mb_messages mb))))" for s
    using assms(2) by (simp add: rolled_up_def counters_exact_def slot_count_def mail conj_commute)
  have "distinct (map m_id (tenant_mail t [] (mb_messages mb)))" using tenant_ids assms(2) by (simp add: rolled_up_def)
  then have "distinct (map m_id (filter (\<lambda>m. m_tenant m = t \<and> \<not> is_out m) (mb_messages mb)))"
    unfolding mail using distinct_map_filter [of m_id _ "\<lambda>m. \<not> is_out m"] by (metis filter_filter)
  note latest_is_max [OF assms(1) this]
  moreover have "filter (\<lambda>m. m_tenant m = t \<and> \<not> is_out m) (mb_messages mb)
      = filter (\<lambda>m. \<not> is_out m) (tenant_mail t [] (mb_messages mb))" by (simp add: mail conj_commute)
  ultimately show ?thesis
    by (simp add: messageCounts_def Let_def assms(3) c slots_are_folders folder_counts_def)
qed

lemma counts_of_rollup:
  assumes "strict_order before" and "rolled_up before mb"
  shows "messageCounts before t wanted mb = folder_counts (tenant_mail t (normal_domains wanted) (mb_messages mb))"
proof (cases "normal_domains wanted")
  case Nil then show ?thesis using counter_counts [OF assms Nil] by simp
next
  case (Cons d r)
  then show ?thesis
    using single_domain_counts [OF assms, of t d] many_domain_counts [OF assms, of "d # r" t]
    by (cases r) (simp_all add: messageCounts_def Let_def)
qed

section \<open>Mailbox totals are exact\<close>

definition mail_to :: "string \<Rightarrow> string \<Rightarrow> message list \<Rightarrow> message list" where
  "mail_to t e ms = filter (\<lambda>m. m_tenant m = t \<and> \<not> is_out m
     \<and> (\<exists>v \<in> set (m_to m). emails_extract_address v = Some e)) ms"

definition mailbox_of :: "string \<Rightarrow> message list \<Rightarrow> address_row \<Rightarrow> mailbox_rollup" where
  "mailbox_of t ms a =
     (let mail = mail_to t (js_lower (a_email a)) ms in
      \<lparr> mx_id = a_id a, mx_address = a_email a, mx_status = a_status a,
        mx_total = int (length mail), mx_unread = int (length (filter (\<lambda>m. \<not> m_is_read m) mail)) \<rparr>)"

lemma to_row:
  "(\<exists>r \<in> set (recipient_rows before m). mr_email r = e \<and> mr_kind r = Kind_To)
     \<longleftrightarrow> (\<exists>v \<in> set (m_to m). emails_extract_address v = Some e)"
proof -
  have "(e, address_domain e) \<in> set (grouped_recipients m)" if "(e, address_domain e, Kind_To) \<in> set (parsed_recipients m)"
    using that by (force simp: grouped_recipients_def)
  moreover have "(\<exists>r \<in> set (recipient_rows before m). mr_email r = e \<and> mr_kind r = Kind_To)
      \<longleftrightarrow> (\<exists>d. (e, d) \<in> set (grouped_recipients m) \<and> max_kind m e d = Kind_To)"
    by (auto simp: recipient_rows_def) force
  ultimately have "(\<exists>r \<in> set (recipient_rows before m). mr_email r = e \<and> mr_kind r = Kind_To)
      \<longleftrightarrow> (e, address_domain e, Kind_To) \<in> set (parsed_recipients m)"
    by (auto simp: max_kind_def grouped_address split: if_splits)
  then show ?thesis by (simp add: parsed_address)
qed

lemma inbound_flags:
  assumes "rolled_up before mb"
  shows "mset (map mr_flags (filter (\<lambda>r. mr_tenant r = t \<and> mr_email r = e \<and> mr_kind r = Kind_To \<and> \<not> fl_out (mr_flags r))
      (mb_recipients mb))) = mset (map row_flags_of (mail_to t e (mb_messages mb)))"
proof -
  let ?rows = "filter (\<lambda>r. mr_tenant r = t \<and> mr_email r = e \<and> mr_kind r = Kind_To \<and> \<not> fl_out (mr_flags r)) (mb_recipients mb)"
  let ?xs = "map (\<lambda>r. (mr_message r, mr_flags r)) ?rows"
  have inv: "distinct (map row_key (mb_messages mb))" "recipients_exact before mb" using assms by (simp_all add: rolled_up_def)
  have "inj_on recipient_key (set ?rows)" and d: "distinct ?rows"
    using inv(2) by (auto simp: recipients_exact_def distinct_map inj_on_def)
  then have "inj_on mr_message (set ?rows)" by (auto simp: inj_on_def)
  with d have ids: "distinct (map fst ?xs)" by (simp add: comp_def distinct_map)
  have "(i, x) \<in> set ?xs \<longleftrightarrow> (\<exists>m \<in> set (mail_to t e (mb_messages mb)). i = m_id m \<and> x = row_flags_of m)" for i x
  proof
    assume "(i, x) \<in> set ?xs"
    then obtain r where r: "r \<in> set ?rows" "i = mr_message r" "x = mr_flags r" by auto
    then obtain m where m: "m \<in> set (mb_messages mb)" "r \<in> set (recipient_rows before m)"
      using row_of_message [OF inv(2)] by auto
    moreover have "\<exists>v \<in> set (m_to m). emails_extract_address v = Some e"
      using to_row [of before m e] r(1) m(2) by auto
    ultimately have "m \<in> set (mail_to t e (mb_messages mb))"
      using recipient_rows_of [OF m(2)] r(1) by (simp add: mail_to_def row_flags_of_def)
    then show "\<exists>m \<in> set (mail_to t e (mb_messages mb)). i = m_id m \<and> x = row_flags_of m"
      using recipient_rows_of [OF m(2)] r(2,3) by auto
  next
    assume "\<exists>m \<in> set (mail_to t e (mb_messages mb)). i = m_id m \<and> x = row_flags_of m"
    then obtain m where m: "m \<in> set (mb_messages mb)" "m_tenant m = t" "\<not> is_out m" "i = m_id m" "x = row_flags_of m"
        "\<exists>v \<in> set (m_to m). emails_extract_address v = Some e" by (auto simp: mail_to_def)
    then obtain r where r: "r \<in> set (recipient_rows before m)" "mr_email r = e" "mr_kind r = Kind_To"
      using to_row [of before m e] by blast
    then have "r \<in> set ?rows"
      using m row_of_message [OF inv(2)] recipient_rows_of [OF r(1)] by (auto simp: row_flags_of_def)
    then have "(mr_message r, mr_flags r) \<in> set ?xs" by (simp only: set_map) (rule imageI)
    then show "(i, x) \<in> set ?xs" using m recipient_rows_of [OF r(1)] by simp
  qed
  then have "mset (map snd ?xs) = mset (map row_flags_of (mail_to t e (mb_messages mb)))"
    unfolding mail_to_def by (intro flags_by_id [OF inv(1) _ ids, of _ t]) (simp, blast)
  then show ?thesis by (simp add: comp_def)
qed

lemma mailboxes_of_rollup:
  assumes "strict_order before" and "rolled_up before mb"
  shows "listMailboxes before t as mb =
    (map (mailbox_of t (mb_messages mb)) (stable_sort (\<lambda>a b. \<not> before (a_email b) (a_email a)) (filter (\<lambda>a. a_tenant a = t) as)),
     folder_counts (tenant_mail t [] (mb_messages mb)))"
proof -
  have len: "length (filter (\<lambda>r. p (mr_flags r)) rows) = length (filter (\<lambda>m. p (row_flags_of m)) ms)"
    if e: "mset (map mr_flags rows) = mset (map row_flags_of ms)" for p rows ms
  proof -
    have "length (filter p (map mr_flags rows)) = length (filter p (map row_flags_of ms))"
      using e by (metis mset_filter size_mset)
    then show ?thesis by (simp add: filter_map comp_def)
  qed
  have "messageCounts before t None mb = folder_counts (tenant_mail t [] (mb_messages mb))"
    using counts_of_rollup [OF assms, of t None] by (simp add: normal_domains_def or_default_def)
  moreover note len [OF inbound_flags [OF assms(2)], of "\<lambda>x. \<not> fl_read x"] len [OF inbound_flags [OF assms(2)], of "\<lambda>x. True"]
  ultimately show ?thesis
    unfolding listMailboxes_def mailbox_of_def Let_def by (simp add: row_flags_of_def)
qed

end
