(* ===== verification/Mailbox_List_Facts.thy ===== *)
theory Mailbox_List_Facts
  imports Mailbox_List Mailbox_Counts_Facts
begin

text \<open>
  What the message list promises: a term is matched as the text the caller typed, a cursor
  reads back as what it was made of, and the pages of a scan are those of keyset pagination.
\<close>

section \<open>Terms are literal\<close>

lemma like_any: "sql_like (CHR ''%'' # ps) t \<longleftrightarrow> (\<exists>a b. t = a @ b \<and> sql_like ps b)"
proof (induction t)
  case Nil then show ?case by (subst sql_like.simps(2)) simp
next
  case (Cons c t)
  have "sql_like (CHR ''%'' # ps) (c # t) \<longleftrightarrow> sql_like ps (c # t) \<or> (\<exists>a b. t = a @ b \<and> sql_like ps b)"
    using Cons by (subst sql_like.simps(2)) simp
  also have "\<dots> \<longleftrightarrow> (\<exists>a b. c # t = a @ b \<and> sql_like ps b)" by (metis Cons_eq_append_conv append_Cons append_Nil)
  finally show ?case .
qed

lemma like_literal:
  "sql_like (escapeLikeMetacharacters v @ ps) t \<longleftrightarrow> (\<exists>r. t = v @ r \<and> sql_like ps r)"
proof (induction v arbitrary: t)
  case (Cons c v)
  have e: "escapeLikeMetacharacters (c # v) @ ps =
      (if c \<in> {backslash, CHR ''%'', CHR ''_''} then [backslash, c] else [c]) @ escapeLikeMetacharacters v @ ps"
    by (simp add: escapeLikeMetacharacters_def)
  have "backslash \<noteq> CHR ''%''" by (simp add: backslash_def)
  then have "sql_like (escapeLikeMetacharacters (c # v) @ ps) t \<longleftrightarrow>
      (\<exists>s. t = c # s \<and> sql_like (escapeLikeMetacharacters v @ ps) s)"
    unfolding e by (cases t; cases "c \<in> {backslash, CHR ''%'', CHR ''_''}") (auto simp: sql_like.simps(2))
  with Cons show ?case by auto
qed (simp add: escapeLikeMetacharacters_def)

lemma like_contains:
  "sql_like (likeContains v) t \<longleftrightarrow> (\<exists>a b. t = a @ js_lower (js_trim v) @ b)"
proof -
  have "sql_like ''%'' r" for r by (simp add: like_any)
  then show ?thesis unfolding likeContains_def by (auto simp: like_any like_literal)
qed

section \<open>Cursors read back\<close>

lemma encode64_chars:
  "\<forall>b \<in> set bs. b < 256 \<Longrightarrow> set (encode64 bs) \<subseteq> insert CHR ''='' (set alphabet)"
proof (induction bs rule: encode64.induct)
  have d: "n < 64 \<Longrightarrow> digit64 n \<in> set alphabet" for n by (simp add: digit64_def)
  { case (1 x y z bs) then show ?case using digits_small [of x y z] d by simp }
  { case (2 x y) then show ?case using digits_small [of x y 0] d by simp }
  { case (3 x) then show ?case using digits_small [of x 0 0] d by simp }
qed simp

lemma length_encode64_le: "length (encode64 bs) \<le> 4 * ((length bs + 2) div 3)"
proof (induction bs rule: encode64.induct)
  case (1 x y z bs)
  define q where "q = (length bs + 2) div 3"
  have "(length (x # y # z # bs) + 2) div 3 = q + 1" by (simp add: q_def)
  with 1 show ?case unfolding q_def [symmetric] by simp
qed simp_all

lemma decode_encode_url:
  assumes "\<forall>b \<in> set bs. b < 256" shows "decode64url (encode64url bs) = bs"
proof -
  have c: "c = CHR ''='' \<or> c \<in> set alphabet" if "c \<in> set (encode64 bs)" for c
    using encode64_chars [OF assms] that by auto
  define u where "u = (\<lambda>c. if c = CHR ''+'' then CHR ''-'' else if c = CHR ''/'' then CHR ''_'' else c)"
  have u: "sextet_url (u c) = sextet c" if "c \<in> set alphabet" for c
  proof -
    have "CHR ''-'' \<notin> set alphabet" "CHR ''_'' \<notin> set alphabet" by (simp_all add: alphabet_def)
    with that have "c \<noteq> CHR ''-''" "c \<noteq> CHR ''_''" by metis+
    moreover have "sextet CHR ''+'' = Some 62" "sextet CHR ''/'' = Some 63" by (simp_all add: sextet_def alphabet_def)
    ultimately show ?thesis by (simp add: sextet_url_def u_def)
  qed
  have "List.map_filter sextet_url (map u (filter (\<lambda>c. c \<noteq> CHR ''='') cs)) = List.map_filter sextet cs"
    if "\<forall>c \<in> set cs. c = CHR ''='' \<or> c \<in> set alphabet" for cs
    using that
  proof (induction cs)
    case (Cons c cs)
    then show ?case by (cases "c = CHR ''=''") (simp_all add: u split: option.split)
  qed simp
  then have "decode64url (encode64url bs) = decode64 (encode64 bs)"
    unfolding decode64url_def encode64url_def decode64_def u_def using c by simp
  then show ?thesis by (simp add: decode_encode [OF assms])
qed

lemma utf8_bytes_small: "\<forall>b \<in> set (utf8 s). b < 256"
proof -
  have "192 + of_char c div 64 < (256 :: nat)" for c
  proof -
    have "of_char c div 64 < (4 :: nat)" by (simp add: div_less_iff_less_mult)
    then show ?thesis by linarith
  qed
  moreover have "128 + of_char c mod 64 < (256 :: nat)" for c
  proof -
    have "of_char c mod 64 < (64 :: nat)" by (rule mod_less_divisor) simp
    then show ?thesis by linarith
  qed
  ultimately show ?thesis by (auto simp: utf8_def Let_def split: if_splits)
qed

text \<open>
  An id whose characters JSON prints as they are, such as a UUID.
\<close>

definition plain_char :: "char \<Rightarrow> bool" where
  "plain_char c \<longleftrightarrow> (let n = of_char c :: nat in 32 \<le> n \<and> n < 127 \<and> n \<noteq> 34 \<and> n \<noteq> 92)"

definition plain_id :: "string \<Rightarrow> bool" where
  "plain_id i \<longleftrightarrow> i \<noteq> [] \<and> length i \<le> 300 \<and> (\<forall>c \<in> set i. plain_char c)"

abbreviation cursor_object :: "string \<Rightarrow> string \<Rightarrow> json" where
  "cursor_object ts i \<equiv> JObj [(''ts'', JStr ts), (''id'', JStr i)]"

lemma plain_json: "\<forall>c \<in> set s. plain_char c \<Longrightarrow> json_string s = CHR 0x22 # s @ [CHR 0x22]"
proof -
  have "json_char c = [c]" if "plain_char c" for c using that by (auto simp: plain_char_def json_char_def Let_def)
  then have "\<forall>c \<in> set s. plain_char c \<Longrightarrow> concat (map json_char s) = s" by (induction s) auto
  moreover have "(of_char (CHR 0x22) :: nat) = 34" by simp
  then have "char_of (34 :: nat) = CHR 0x22" by (metis char_of_char)
  ultimately show "\<forall>c \<in> set s. plain_char c \<Longrightarrow> json_string s = CHR 0x22 # s @ [CHR 0x22]"
    by (simp add: json_string_def)
qed

lemma plain_utf8: "\<forall>c \<in> set s. (of_char c :: nat) < 128 \<Longrightarrow> length (utf8 s) = length s"
  by (induction s) (auto simp: utf8_def Let_def)

lemma pattern_chars:
  "list_all2 (\<lambda>p c. if p = q then D c else c = p) ps s \<Longrightarrow> \<forall>c \<in> set s. D c \<or> c \<in> set ps"
  by (induction rule: list_all2_induct) (auto split: if_splits)

text \<open>A cursor made of a plain id is within the length that decoding takes.\<close>

lemma encoded_length:
  assumes "\<forall>c \<in> set s. (of_char c :: nat) < 128" and "length s \<le> 380"
  shows "length (encode64url (utf8 s)) \<le> 512"
proof -
  have "length (utf8 s) \<le> 380" using plain_utf8 [OF assms(1)] assms(2) by simp
  then have "(length (utf8 s) + 2) div 3 \<le> (380 + 2) div 3" by (intro div_le_mono add_le_mono1)
  then have small: "4 * ((length (utf8 s) + 2) div 3) \<le> 512" by linarith
  have "length (encode64url (utf8 s)) \<le> length (encode64 (utf8 s))"
    unfolding encode64url_def by (simp only: length_map length_filter_le)
  also note length_encode64_le
  also note small
  finally show ?thesis .
qed

lemma plain_char_less: "plain_char c \<Longrightarrow> (of_char c :: nat) < 128"
  by (simp add: plain_char_def Let_def)

lemma cursor_ts_plain:
  assumes "cursor_ts_ok ts" shows "length ts = 27" and "\<forall>c \<in> set ts. plain_char c"
proof -
  show "length ts = 27" using assms by (auto simp: cursor_ts_ok_def dest: list_all2_lengthD)
  have "plain_char c" if "c \<in> set ''dddd-dd-ddTdd:dd:dd.ddddddZ''" for c using that by (auto simp: plain_char_def)
  moreover have "plain_char c" if "48 \<le> (of_char c :: nat) \<and> (of_char c :: nat) \<le> 57" for c
    using that by (simp add: plain_char_def Let_def)
  moreover note pattern_chars [OF assms [unfolded cursor_ts_ok_def]]
  ultimately show "\<forall>c \<in> set ts. plain_char c" by metis
qed

lemma cursor_keys:
  "json_string ''ts'' = CHR 0x22 # ''ts'' @ [CHR 0x22]" "json_string ''id'' = CHR 0x22 # ''id'' @ [CHR 0x22]"
  "json_string ''idx'' = CHR 0x22 # ''idx'' @ [CHR 0x22]"
  by (rule plain_json, simp add: plain_char_def)+

lemma cursor_length:
  assumes "plain_id i" and "cursor_ts_ok ts"
  shows "length (encodeMessagesCursor ts i) \<le> 512"
proof -
  note ts = cursor_ts_plain [OF assms(2)]
  have i: "length i \<le> 300" "\<forall>c \<in> set i. plain_char c" using assms(1) by (simp_all add: plain_id_def)
  have shape: "json_text (cursor_object ts i) = CHR ''{'' # CHR 0x22 # ''ts'' @ CHR 0x22 # CHR '':'' # CHR 0x22 # ts
      @ CHR 0x22 # CHR '','' # CHR 0x22 # ''id'' @ CHR 0x22 # CHR '':'' # CHR 0x22 # i @ CHR 0x22 # ''}''"
    by (simp add: cursor_keys plain_json [OF ts(2)] plain_json [OF i(2)])
  show ?thesis unfolding encodeMessagesCursor_def
  proof (rule encoded_length)
    show "\<forall>c \<in> set (json_text (cursor_object ts i)). (of_char c :: nat) < 128"
      using ts(2) i(2) plain_char_less unfolding shape by auto
    show "length (json_text (cursor_object ts i)) \<le> 380" using ts(1) i(1) unfolding shape by simp
  qed
qed

lemma cursor_roundtrip:
  assumes "plain_id i" and "cursor_ts_ok ts" and "lp_date lp ts \<noteq> None"
    and "lp_json lp (utf8 (json_text (cursor_object ts i))) = Some (cursor_object ts i)"
  shows "decodeMessagesCursor lp (encodeMessagesCursor ts i) = Some (ts, i)"
proof -
  have d: "decode64url (encodeMessagesCursor ts i) = utf8 (json_text (cursor_object ts i))"
    unfolding encodeMessagesCursor_def by (rule decode_encode_url [OF utf8_bytes_small])
  have "utf8 (json_text (cursor_object ts i)) \<noteq> []" by (simp add: utf8_def Let_def)
  then have "encodeMessagesCursor ts i \<noteq> []" using d by (auto simp: decode64url_def)
  moreover have "json_key (cursor_object ts i) ''ts'' = Some (JStr ts)" "json_key (cursor_object ts i) ''id'' = Some (JStr i)"
    by (simp_all add: json_key_def)
  ultimately show ?thesis using cursor_length [OF assms(1,2)] assms d by (auto simp: decodeMessagesCursor_def plain_id_def)
qed

section \<open>The pages of a scan\<close>

text \<open>The runtime and the database read back the cursor of a row as what it was made of.\<close>

definition reads_back :: "list_platform \<Rightarrow> message \<Rightarrow> bool" where
  "reads_back lp m \<longleftrightarrow> plain_id (m_id m)
     \<and> (let ts = lp_ts_text lp (sort_ts m) in cursor_ts_ok ts \<and> lp_date lp ts \<noteq> None
         \<and> lp_timestamptz lp ts = Some (sort_ts m)
         \<and> lp_json lp (utf8 (json_text (cursor_object ts (m_id m)))) = Some (cursor_object ts (m_id m)))"

definition list_cursor :: "list_platform \<Rightarrow> int \<times> string \<Rightarrow> string" where
  "list_cursor lp k = encodeMessagesCursor (lp_ts_text lp (fst k)) (snd k)"

definition listed :: "list_platform \<Rightarrow> string \<Rightarrow> list_options \<Rightarrow> int option \<Rightarrow> mail_views \<Rightarrow> message list" where
  "listed lp t opts since mb = filter (\<lambda>m. list_where lp t opts mb m \<and> since_ok since m) (mb_messages mb)"

lemma reads_cursor:
  "reads_back lp m \<Longrightarrow> list_cursor lp (list_key m) \<noteq> []
     \<and> cast_cursor lp (decodeMessagesCursor lp (list_cursor lp (list_key m))) = Inr (Some (list_key m))"
proof -
  assume r: "reads_back lp m"
  then have "decodeMessagesCursor lp (list_cursor lp (list_key m)) = Some (lp_ts_text lp (sort_ts m), m_id m)"
    unfolding list_cursor_def list_key_def fst_conv snd_conv
    by (intro cursor_roundtrip) (simp_all add: reads_back_def Let_def)
  then show ?thesis using r
    by (auto simp: decodeMessagesCursor_def cast_cursor_def list_key_def reads_back_def Let_def split: if_splits)
qed

lemma after_cursor_newer:
  "after_cursor lp c m = (case c of None \<Rightarrow> True | Some k \<Rightarrow> newer (lp_before lp) k (list_key m))"
  by (auto simp: after_cursor_def newer_def list_key_def split: option.split)

lemma page_is_keyset:
  assumes "clampOffset (lo_offset opts) = 0"
  shows "list_page lp t opts since c mb = keyset_page (newer (lp_before lp)) list_key (clampLimit (lo_limit opts)) (listed lp t opts since mb) c"
  using assms unfolding list_page_def keyset_page_def listed_def
  by (auto simp: after_cursor_newer conj_assoc intro!: arg_cong [of _ _ "\<lambda>p. take _ (stable_sort _ (filter p _))"])

lemma where_cursor [simp]: "list_where lp t (opts\<lparr>lo_cursor := c\<rparr>) = list_where lp t opts"
  by (simp add: list_where_def fun_eq_iff)

lemma listed_cursor [simp]: "listed lp t (opts\<lparr>lo_cursor := c\<rparr>) = listed lp t opts"
  by (simp add: listed_def fun_eq_iff)

lemma clampLimit_pos: "0 < clampLimit l"
  by (auto simp: clampLimit_def split: option.split)

definition list_cursor_ok :: "list_platform \<Rightarrow> int \<times> string \<Rightarrow> bool" where
  "list_cursor_ok lp k \<longleftrightarrow> list_cursor lp k \<noteq> []
     \<and> cast_cursor lp (decodeMessagesCursor lp (list_cursor lp k)) = Inr (Some k)"

lemma listMessages_page:
  assumes "clampOffset (lo_offset opts) = 0" and "cast_since lp (lo_since opts) = Inr since"
    and "\<forall>k. c = Some k \<longrightarrow> list_cursor_ok lp k"
  shows "listMessages lp t (opts\<lparr>lo_cursor := map_option (list_cursor lp) c\<rparr>) mb =
    Inr (map (list_item_of lp) (keyset_page (newer (lp_before lp)) list_key (clampLimit (lo_limit opts)) (listed lp t opts since mb) c),
      map_option (list_cursor lp) (keyset_next list_key (clampLimit (lo_limit opts))
        (keyset_page (newer (lp_before lp)) list_key (clampLimit (lo_limit opts)) (listed lp t opts since mb) c)))"
proof -
  let ?opts = "opts\<lparr>lo_cursor := map_option (list_cursor lp) c\<rparr>"
  have "cast_cursor lp (case lo_cursor ?opts of None \<Rightarrow> None | Some raw \<Rightarrow> if raw = [] then None else decodeMessagesCursor lp raw) = Inr c"
    using assms(3) by (cases c) (auto simp: cast_cursor_def list_cursor_ok_def)
  moreover have "list_page lp t ?opts since c mb =
      keyset_page (newer (lp_before lp)) list_key (clampLimit (lo_limit opts)) (listed lp t opts since mb) c"
    using page_is_keyset [of ?opts lp t since c mb] assms(1) by simp
  ultimately show ?thesis using assms(2)
    by (auto simp: listMessages_def keyset_next_def list_cursor_def list_key_def Let_def)
qed

lemma scan_is_keyset:
  assumes "clampOffset (lo_offset opts) = 0" and "cast_since lp (lo_since opts) = Inr since"
    and "\<forall>mb \<in> set mbs. \<forall>m \<in> set (mb_messages mb). m_tenant m = t \<longrightarrow> reads_back lp m"
  shows "message_scan lp t opts mbs None =
    (case keyset_scan (newer (lp_before lp)) list_key (clampLimit (lo_limit opts)) (map (listed lp t opts since) mbs) None of
       (rows, complete) \<Rightarrow> Inr (map (list_item_of lp) rows, complete))"
proof -
  have "list_cursor_ok lp (list_key m)" if "mb \<in> set mbs" "m \<in> set (listed lp t opts since mb)" for mb m
    using assms(3) that reads_cursor by (auto simp: listed_def list_where_def list_cursor_ok_def)
  then show ?thesis
    using cursor_scan_is_keyset [of mbs "list_cursor_ok lp" "\<lambda>cursor mb. listMessages lp t (opts\<lparr>lo_cursor := cursor\<rparr>) mb"
        "list_cursor lp" "list_item_of lp" "newer (lp_before lp)" list_key "clampLimit (lo_limit opts)" "listed lp t opts since" None]
      listMessages_page [OF assms(1,2)]
    by (simp add: message_scan_def)
qed

end
