(* ===== verification/Attachment_List_Facts.thy ===== *)
theory Attachment_List_Facts
  imports Attachment_List Mailbox_List_Facts
begin

text \<open>
  The attachment inventory: where the database's judgement of a size and a payload is that of
  the code, which the batch listing and the download share.
\<close>

section \<open>Sizes agree\<close>

lemma canonical_text: "canonical_decimal (nat_text n)"
proof (cases "n = 0")
  case True
  have "(of_char (CHR ''0'') :: nat) = 48" by simp
  then have "char_of (48 :: nat) = CHR ''0''" by (metis char_of_char)
  with True show ?thesis by (simp add: canonical_decimal_def nat_text.simps)
qed (use nat_text_lead nat_text_digits in \<open>simp add: canonical_decimal_def\<close>)

lemma negative_text: "n < 0 \<Longrightarrow> \<not> canonical_decimal (int_text n)"
  by (simp add: canonical_decimal_def int_text_def is_digit_def)

lemma int_text_value: "0 \<le> n \<Longrightarrow> canonical_decimal (int_text n) \<and> digits_value (int_text n) = n"
  by (simp add: int_text_def canonical_text digits_value_text)

lemma digits_value_nonneg: "\<forall>c \<in> set ds. is_digit c \<Longrightarrow> 0 \<le> digits_value ds"
proof (induction ds rule: rev_induct)
  case (snoc c ds)
  have "48 \<le> (of_char c :: nat)" using snoc.prems by (auto simp: is_digit_def)
  then have "48 \<le> int (of_char c)" by simp
  then have "48 \<le> (of_char c :: int)" by (simp only: of_nat_of_char)
  with snoc show ?case by (simp add: digits_value_snoc)
qed (simp add: digits_value_def)

lemma canonical_nonneg: "canonical_decimal s \<Longrightarrow> 0 \<le> digits_value s"
proof -
  have "\<forall>c \<in> set ''0''. is_digit c" by (simp add: is_digit_def)
  then show "canonical_decimal s \<Longrightarrow> 0 \<le> digits_value s"
    unfolding canonical_decimal_def using digits_value_nonneg by metis
qed

lemma pointed_text: "\<not> canonical_decimal (numeral_text n (Some (whole, frac)))"
proof -
  have "\<not> is_digit (CHR ''.'')" by (simp add: is_digit_def)
  moreover have "length (whole @ ''.'' @ frac) = 1 \<Longrightarrow> whole = []" by simp
  ultimately show ?thesis by (cases whole) (auto simp: numeral_text_def canonical_decimal_def)
qed

text \<open>The size of an attachment is a numeral that is stored with a point.\<close>

definition pointed_size :: "json \<Rightarrow> pointed \<Rightarrow> bool" where
  "pointed_size att fr \<longleftrightarrow> fr \<noteq> None \<and> (\<exists>n. json_key att ''size'' = Some (JNum n))"

lemma sql_size_is_size:
  "sql_size_bytes (json_key att ''size'') fr = (if pointed_size att fr then None else toSizeBytes (json_key att ''size''))"
proof (cases "json_key att ''size''")
  case (Some j)
  show ?thesis
  proof (cases j)
    case (JNum n)
    show ?thesis
    proof (cases fr)
      case None
      then show ?thesis using Some JNum int_text_value [of n] negative_text [of n]
        by (cases "0 \<le> n") (auto simp: sql_size_bytes_def toSizeBytes_def numeral_text_def pointed_size_def)
    next
      case (Some p)
      then show ?thesis using \<open>json_key att _ = _\<close> JNum pointed_text by (cases p) (simp add: sql_size_bytes_def pointed_size_def)
    qed
  qed (use Some in \<open>simp_all add: sql_size_bytes_def toSizeBytes_def pointed_size_def\<close>)
qed (simp add: sql_size_bytes_def toSizeBytes_def pointed_size_def)

lemma size_range: "toSizeBytes v = Some n \<Longrightarrow> 0 \<le> n \<and> n \<le> max_safe"
  by (auto simp: toSizeBytes_def canonical_nonneg split: option.splits json.splits if_splits)

lemma size_of_text: "toSizeBytes v = Some n \<Longrightarrow> toSizeBytes (Some (JStr (int_text n))) = Some n"
  using size_range [of v n] int_text_value [of n] by (simp add: toSizeBytes_def)

section \<open>The judgement of the database is the download's\<close>

lemma row_metadata:
  "nullable (if json_is_string att k = Some False then None else json_text_opt lp att k) =
     (case json_key att k of Some (JStr s) \<Rightarrow> JStr s | _ \<Rightarrow> JNull)"
  by (auto simp: json_is_string_def json_text_opt_def nullable_def split: option.split json.split)

lemma metadata_of:
  "validateAttachmentMetadata (Some (JObj fs)) False =
     (case validateAttachmentFilename (json_key (JObj fs) ''filename'') of
        Inl e \<Rightarrow> Inl e
      | Inr f \<Rightarrow> (case wellFormedText (json_key (JObj fs) ''content_type'') ''attachment content type'' 255 of
          Inl e \<Rightarrow> Inl e
        | Inr c \<Rightarrow> if \<not> download_type_ok c then Inl ''attachment content type must be a valid MIME type''
            else (case json_key (JObj fs) ''size'' of
                Some (JNum n) \<Rightarrow> if 0 \<le> n \<and> n \<le> max_safe
                  then Inr \<lparr> mt_filename = f, mt_content_type = c, mt_size = Some n \<rparr>
                  else Inl ''attachment size must be a non-negative integer''
              | _ \<Rightarrow> Inl ''attachment size must be a non-negative integer'')))"
  by (simp add: validateAttachmentMetadata_def json_object_def split: option.split json.split sum.split)

lemma string_or_null:
  "wellFormedText (Some (case v of Some (JStr s) \<Rightarrow> JStr s | _ \<Rightarrow> JNull)) l n = wellFormedText v l n"
  by (auto simp: wellFormedText_def split: option.split json.split)

definition metadata_ok :: "json \<Rightarrow> bool" where
  "metadata_ok att \<longleftrightarrow> (case (wellFormedText (json_key att ''filename'') ''attachment filename'' 1024,
       wellFormedText (json_key att ''content_type'') ''attachment content type'' 255) of
     (Inr _, Inr c) \<Rightarrow> download_type_ok c | _ \<Rightarrow> False)"

lemma row_metadata_ok:
  assumes "0 \<le> n \<and> n \<le> max_safe"
  shows "\<not> isl (validateAttachmentMetadata (Some (JObj [
      (''filename'', case json_key att ''filename'' of Some (JStr s) \<Rightarrow> JStr s | _ \<Rightarrow> JNull),
      (''content_type'', case json_key att ''content_type'' of Some (JStr s) \<Rightarrow> JStr s | _ \<Rightarrow> JNull),
      (''size'', JNum n)])) False) \<longleftrightarrow> metadata_ok att"
proof -
  let ?obj = "JObj [(''filename'', case json_key att ''filename'' of Some (JStr s) \<Rightarrow> JStr s | _ \<Rightarrow> JNull),
      (''content_type'', case json_key att ''content_type'' of Some (JStr s) \<Rightarrow> JStr s | _ \<Rightarrow> JNull), (''size'', JNum n)]"
  have "json_key ?obj ''filename'' = Some (case json_key att ''filename'' of Some (JStr s) \<Rightarrow> JStr s | _ \<Rightarrow> JNull)"
    "json_key ?obj ''content_type'' = Some (case json_key att ''content_type'' of Some (JStr s) \<Rightarrow> JStr s | _ \<Rightarrow> JNull)"
    "json_key ?obj ''size'' = Some (JNum n)" by (simp_all only: json_key_def json.case) simp_all
  then show ?thesis
    using assms unfolding metadata_of metadata_ok_def validateAttachmentFilename_def by (simp add: string_or_null split: sum.split)
qed

lemma item_metadata_ok:
  assumes "0 \<le> n \<and> n \<le> max_safe"
  shows "metadata_ok (JObj fs) \<Longrightarrow> \<exists>f c. validateAttachmentMetadata (Some (JObj (fs @ [(''size'', JNum n)]))) False
      = Inr \<lparr> mt_filename = f, mt_content_type = c, mt_size = Some n \<rparr>"
    and "\<not> metadata_ok (JObj fs) \<Longrightarrow> isl (validateAttachmentMetadata (Some (JObj (fs @ [(''size'', JNum n)]))) False)"
  using assms unfolding metadata_of metadata_ok_def validateAttachmentFilename_def
  by (auto simp: json_key_def split: sum.splits)

lemma decoded_payload:
  "\<not> isl (decodeCanonicalBase64 (Some (JStr p)) n MAX_ATTACHMENT_DOWNLOAD_BYTES) \<longleftrightarrow>
     n \<le> MAX_ATTACHMENT_DOWNLOAD_BYTES \<and> int (length p) \<le> (MAX_ATTACHMENT_DOWNLOAD_BYTES + 2) div 3 * 4
     \<and> length p mod 4 = 0 \<and> base64_shape p \<and> int (length (decode64 p)) = n \<and> encode64 (decode64 p) = p"
  by (auto simp: decodeCanonicalBase64_def Let_def)

lemma payload_decodes:
  assumes "0 \<le> n \<and> n \<le> max_safe"
  shows "(case decodeAttachmentPayload sha (JObj [(''attachment'', JObj (fs @ [(''size'', JNum n)]))]) (Some MAX_ATTACHMENT_DOWNLOAD_BYTES) of
       Inr (Available _ _ _ _ _) \<Rightarrow> True | _ \<Rightarrow> False)
    \<longleftrightarrow> metadata_ok (JObj fs) \<and> \<not> isl (decodeCanonicalBase64 (json_key (JObj fs) ''content_base64'') n MAX_ATTACHMENT_DOWNLOAD_BYTES)"
proof -
  let ?a = "JObj (fs @ [(''size'', JNum n)])"
  have "decodeAttachmentPayload sha (JObj [(''attachment'', ?a)]) (Some MAX_ATTACHMENT_DOWNLOAD_BYTES)
      = decode_available sha ?a MAX_ATTACHMENT_DOWNLOAD_BYTES"
    by (simp add: decodeAttachmentPayload_def normalizeAttachmentByteLimit_def or_default_def json_object_def json_key_def
        MAX_ATTACHMENT_DOWNLOAD_BYTES_def)
  moreover have "json_key ?a ''content_base64'' = json_key (JObj fs) ''content_base64''" by (simp add: json_key_def)
  ultimately show ?thesis
    using item_metadata_ok [OF assms, of fs]
    by (cases "metadata_ok (JObj fs)") (auto simp: decode_available_def isl_def split: sum.splits)
qed

lemma content_of_size:
  assumes size: "toSizeBytes (json_key att ''size'') = Some n" and plain: "\<not> pointed_size att (fr m i)"
  shows "ai_content_available (inventory_item_of lp fr (m, i, att)) = attachmentContentAvailable sha att"
proof -
  note r = size_range [OF size]
  obtain fs where fs: "att = JObj fs" using size by (cases att) (simp_all add: json_key_def toSizeBytes_def)
  have sql: "sql_size_bytes (json_key att ''size'') (fr m i) = Some n" using size plain by (simp add: sql_size_is_size)
  have left: "ai_content_available (inventory_item_of lp fr (m, i, att)) \<longleftrightarrow> sql_content_available att (fr m i) \<and> metadata_ok att"
    using row_metadata_ok [OF r, of att]
    by (simp add: inventory_item_of_def mapAttachmentInventoryRow_def attachment_row_of_def Let_def sql
        size_of_text [OF size] row_metadata)
  have "attachmentContentAvailable sha att \<longleftrightarrow> metadata_ok att \<and> sql_content_available att (fr m i)"
  proof (cases "\<exists>p. json_key att ''content_base64'' = Some (JStr p)")
    case True
    then obtain p where p: "json_key att ''content_base64'' = Some (JStr p)" by blast
    have "attachmentContentAvailable sha att \<longleftrightarrow> metadata_ok att
        \<and> \<not> isl (decodeCanonicalBase64 (Some (JStr p)) n MAX_ATTACHMENT_DOWNLOAD_BYTES)"
      using payload_decodes [OF r, of sha fs] p size by (simp add: attachmentContentAvailable_def fs)
    then show ?thesis unfolding decoded_payload by (simp add: sql_content_available_def sql p)
  qed (use fs size in \<open>auto simp: attachmentContentAvailable_def sql_content_available_def split: option.split json.split\<close>)
  with left show ?thesis by blast
qed

lemma content_without_size:
  "sql_size_bytes (json_key att ''size'') (fr m i) = None \<Longrightarrow> \<not> ai_content_available (inventory_item_of lp fr (m, i, att))"
  by (simp add: inventory_item_of_def mapAttachmentInventoryRow_def attachment_row_of_def Let_def sql_content_available_def)

lemma item_size: "ai_size_bytes (inventory_item_of lp fr (m, i, att)) = sql_size_bytes (json_key att ''size'') (fr m i)"
proof (cases "sql_size_bytes (json_key att ''size'') (fr m i)")
  case (Some n)
  then have "toSizeBytes (json_key att ''size'') = Some n" by (simp add: sql_size_is_size split: if_splits)
  then show ?thesis
    using Some size_of_text by (simp add: inventory_item_of_def mapAttachmentInventoryRow_def attachment_row_of_def Let_def)
qed (simp add: inventory_item_of_def mapAttachmentInventoryRow_def attachment_row_of_def Let_def toSizeBytes_def)

text \<open>
  C14. The inventory, which judges in SQL, and the batch listing, which parses the size and
  decodes the payload with the code of the download, give every stored attachment the same
  size and the same answer whether it has content, but for one case: where the size is a
  numeral stored with a decimal point that JSON.parse reads as an integer, as \<open>3.0\<close>, the
  inventory has no size and no content, whatever the batch listing has.
\<close>

theorem inventory_predicts_download:
  "ai_size_bytes (inventory_item_of lp fr (m, i, att))
      = (if pointed_size att (fr m i) then None else am_size_bytes (attachmentMetaOf sha i att))
   \<and> ai_content_available (inventory_item_of lp fr (m, i, att))
      = (\<not> pointed_size att (fr m i) \<and> am_content_available (attachmentMetaOf sha i att))"
proof
  show "ai_size_bytes (inventory_item_of lp fr (m, i, att))
      = (if pointed_size att (fr m i) then None else am_size_bytes (attachmentMetaOf sha i att))"
    by (simp add: item_size sql_size_is_size attachmentMetaOf_def)
  show "ai_content_available (inventory_item_of lp fr (m, i, att))
      = (\<not> pointed_size att (fr m i) \<and> am_content_available (attachmentMetaOf sha i att))"
  proof (cases "sql_size_bytes (json_key att ''size'') (fr m i)")
    case None
    then have "pointed_size att (fr m i) \<or> toSizeBytes (json_key att ''size'') = None" by (simp add: sql_size_is_size split: if_splits)
    then show ?thesis
      using content_without_size [where fr = fr and m = m and i = i, OF None] by (auto simp: attachmentMetaOf_def attachmentContentAvailable_def split: json.split)
  next
    case (Some n)
    then have "toSizeBytes (json_key att ''size'') = Some n" "\<not> pointed_size att (fr m i)"
      by (simp_all add: sql_size_is_size split: if_splits)
    from content_of_size [where fr = fr and m = m and i = i, OF this] this show ?thesis by (simp add: attachmentMetaOf_def)
  qed
qed

text \<open>The exception is no empty one: three bytes whose size is stored as \<open>3.0\<close>.\<close>

definition pointed_attachment :: json where
  "pointed_attachment = JObj [(''filename'', JStr ''a''), (''content_type'', JStr ''a/b''), (''size'', JNum 3), (''content_base64'', JStr ''AAAA'')]"

lemma pointed_attachment_differs:
  "am_content_available (attachmentMetaOf sha i pointed_attachment)
   \<and> \<not> ai_content_available (inventory_item_of lp (\<lambda>_ _. Some (''3'', ''0'')) (m, i, pointed_attachment))"
proof
  let ?fs = "[(''filename'', JStr ''a''), (''content_type'', JStr ''a/b''), (''size'', JNum 3), (''content_base64'', JStr ''AAAA'')]"
  have k: "json_key pointed_attachment ''size'' = Some (JNum 3)" "json_key pointed_attachment ''content_base64'' = Some (JStr ''AAAA'')"
    by (simp_all add: pointed_attachment_def json_key_def)
  have "metadata_ok pointed_attachment"
    by (simp add: metadata_ok_def pointed_attachment_def json_key_def wellFormedText_def download_type_ok_def
        unsafe_unit_def token_char_def is_alnum_def)
  moreover have "\<not> isl (decodeCanonicalBase64 (Some (JStr ''AAAA'')) 3 MAX_ATTACHMENT_DOWNLOAD_BYTES)"
  proof -
    have "base64_shape ''AAAA''" "decode64 ''AAAA'' = [0, 0, 0]" "encode64 [0, 0, 0] = ''AAAA''" by code_simp+
    then show ?thesis unfolding decoded_payload by (simp add: MAX_ATTACHMENT_DOWNLOAD_BYTES_def)
  qed
  ultimately show "am_content_available (attachmentMetaOf sha i pointed_attachment)"
    using payload_decodes [of 3 sha ?fs] k unfolding pointed_attachment_def
    by (simp add: attachmentMetaOf_def attachmentContentAvailable_def toSizeBytes_def)
next
  have "pointed_size pointed_attachment (Some (''3'', ''0''))" by (simp add: pointed_size_def pointed_attachment_def json_key_def)
  then show "\<not> ai_content_available (inventory_item_of lp (\<lambda>_ _. Some (''3'', ''0'')) (m, i, pointed_attachment))"
    by (intro content_without_size) (simp add: sql_size_is_size)
qed

end
