(* ===== verification/Mailbox_Promises.thy ===== *)
theory Mailbox_Promises
  imports Mailbox_List_Facts
begin

text \<open>
  The promises of the mailbox views: exact counts, complete listings, listings that agree
  with the counts, and literal search terms.
\<close>

section \<open>The pages of the message list\<close>

text \<open>The list order of the code points, as an interface of keyset pagination.\<close>

interpretation code_point_list: keyset "newer (<)" list_key
  by (rule keyset.intro [OF code_points.newer_order])

lemma list_keyset: "strict_order (lp_before lp) \<Longrightarrow> keyset (newer (lp_before lp))"
  by (rule keyset.intro [OF collation.newer_order [OF collation.intro]])

lemma listed_keys: "distinct (map row_key (mb_messages mb)) \<Longrightarrow> distinct (map list_key (listed lp t opts since mb))"
  by (auto simp: listed_def list_where_def distinct_map inj_on_def list_key_def)

text \<open>
  A message keeps its list instant while a scan runs: no write between the pages moves the
  received time of this message, as an import of the same source again does.
\<close>

definition steady_message :: "string \<Rightarrow> mail_views list \<Rightarrow> string \<Rightarrow> bool" where
  "steady_message t mbs i \<longleftrightarrow> (\<forall>mb \<in> set mbs. \<forall>mb' \<in> set mbs. \<forall>m \<in> set (mb_messages mb). \<forall>m' \<in> set (mb_messages mb').
     row_key m = (t, i) \<longrightarrow> row_key m' = (t, i) \<longrightarrow> sort_ts m = sort_ts m')"

lemma steady_messageD:
  "steady_message t mbs i \<Longrightarrow> mb \<in> set mbs \<Longrightarrow> mb' \<in> set mbs \<Longrightarrow> m \<in> set (mb_messages mb) \<Longrightarrow> m' \<in> set (mb_messages mb')
   \<Longrightarrow> row_key m = (t, i) \<Longrightarrow> row_key m' = (t, i) \<Longrightarrow> sort_ts m = sort_ts m'"
  unfolding steady_message_def by blast

lemma listed_in: "m \<in> set (listed lp t opts since mb) \<Longrightarrow> m \<in> set (mb_messages mb) \<and> m_tenant m = t"
  by (simp add: listed_def list_where_def)

lemma scan_rows:
  assumes "strict_order (lp_before lp)" and "\<forall>mb \<in> set mbs. distinct (map row_key (mb_messages mb))"
    and "keyset_scan (newer (lp_before lp)) list_key (clampLimit l) (map (listed lp t opts since) mbs) None = (rows, complete)"
  shows "\<forall>m \<in> set rows. \<exists>mb \<in> set mbs. m \<in> set (listed lp t opts since mb)"
    and "steady_message t mbs i \<Longrightarrow> count_list (map m_id rows) i \<le> 1"
    and "steady_message t mbs i \<Longrightarrow> complete \<Longrightarrow> \<forall>mb \<in> set mbs. i \<in> m_id ` set (listed lp t opts since mb)
      \<Longrightarrow> count_list (map m_id rows) i = 1"
proof -
  let ?states = "map (listed lp t opts since) mbs"
  note ks = list_keyset [OF assms(1)]
  show "\<forall>m \<in> set rows. \<exists>mb \<in> set mbs. m \<in> set (listed lp t opts since mb)"
    using keyset.scan_from [OF ks assms(3)] by simp
  have d: "\<forall>rows \<in> set ?states. distinct (map list_key rows)" using assms(2) listed_keys by auto
  have n: "\<forall>m m'. list_key m = list_key m' \<longrightarrow> m_id m = m_id m'" by (simp add: list_key_def)
  assume st: "steady_message t mbs i"
  have "keyset.steady list_key m_id ?states i"
    unfolding keyset.steady_def [OF ks] ball_simps set_map
  proof (intro ballI impI)
    fix mb mb' m m' assume mb: "mb \<in> set mbs" "mb' \<in> set mbs" and m: "m \<in> set (listed lp t opts since mb)" "m' \<in> set (listed lp t opts since mb')"
      and i: "m_id m = i" "m_id m' = i"
    then show "list_key m = list_key m'"
      using steady_messageD [OF st mb] listed_in [OF m(1)] listed_in [OF m(2)] by (simp add: list_key_def)
  qed
  note once = keyset.scan_steady [where name = m_id, OF ks d n assms(3) clampLimit_pos this]
  show "count_list (map m_id rows) i \<le> 1" by (rule once(1))
  show "count_list (map m_id rows) i = 1" if "complete" "\<forall>mb \<in> set mbs. i \<in> m_id ` set (listed lp t opts since mb)"
    using once(2) [OF that(1)] that(2) by simp
qed

text \<open>
  C9. A client that follows the cursors of the message list, without an offset, while rows are inserted, deleted
  and updated between the pages gets nothing but messages that were listed at one of them.  A
  message whose list instant is not moved meanwhile comes at most once, and exactly once if it
  was listed at every page and the last page has no cursor.  The ids are short plain texts,
  and the database and JSON.parse read back the cursors they printed.
\<close>

theorem listing_exactly_once:
  assumes "strict_order (lp_before lp)" and "clampOffset (lo_offset opts) = 0" and "cast_since lp (lo_since opts) = Inr since"
    and "\<forall>mb \<in> set mbs. distinct (map row_key (mb_messages mb))"
    and "\<forall>mb \<in> set mbs. \<forall>m \<in> set (mb_messages mb). m_tenant m = t \<longrightarrow> reads_back lp m"
  shows "\<exists>items complete. message_scan lp t opts mbs None = Inr (items, complete)
    \<and> (\<forall>x \<in> set items. \<exists>mb \<in> set mbs. \<exists>m \<in> set (listed lp t opts since mb). x = list_item_of lp m)
    \<and> (\<forall>i. steady_message t mbs i \<longrightarrow> count_list (map li_id items) i \<le> 1
        \<and> (complete \<longrightarrow> (\<forall>mb \<in> set mbs. \<exists>m \<in> set (listed lp t opts since mb). m_id m = i) \<longrightarrow> count_list (map li_id items) i = 1))"
proof -
  obtain rows complete where s:
    "keyset_scan (newer (lp_before lp)) list_key (clampLimit (lo_limit opts)) (map (listed lp t opts since) mbs) None = (rows, complete)"
    by fastforce
  let ?items = "map (list_item_of lp) rows"
  have ids: "map li_id ?items = map m_id rows" by (simp add: list_item_of_def)
  have "message_scan lp t opts mbs None = Inr (?items, complete)"
    using scan_is_keyset [OF assms(2,3,5)] s by simp
  moreover have "\<forall>x \<in> set ?items. \<exists>mb \<in> set mbs. \<exists>m \<in> set (listed lp t opts since mb). x = list_item_of lp m"
    using scan_rows(1) [OF assms(1,4) s] by fastforce
  moreover have "count_list (map li_id ?items) i \<le> 1
      \<and> (complete \<longrightarrow> (\<forall>mb \<in> set mbs. \<exists>m \<in> set (listed lp t opts since mb). m_id m = i) \<longrightarrow> count_list (map li_id ?items) i = 1)"
    if st: "steady_message t mbs i" for i
    unfolding ids
  proof (intro conjI impI)
    show "count_list (map m_id rows) i \<le> 1" by (rule scan_rows(2) [OF assms(1,4) s st])
    assume "complete" "\<forall>mb \<in> set mbs. \<exists>m \<in> set (listed lp t opts since mb). m_id m = i"
    then show "count_list (map m_id rows) i = 1" by (intro scan_rows(3) [OF assms(1,4) s st]) blast+
  qed
  ultimately show ?thesis by blast
qed

section \<open>Listings agree with the counts\<close>

definition folder_options :: "message_folder \<Rightarrow> string list option \<Rightarrow> int option \<Rightarrow> list_options" where
  "folder_options f ds limit = \<lparr> lo_limit = limit, lo_offset = None, lo_direction = None, lo_to = None, lo_from = None,
     lo_subject = None, lo_search = None, lo_since = None, lo_cursor = None, lo_domains = ds, lo_folder = Some f \<rparr>"

fun folder_number :: "message_folder \<Rightarrow> message_counts \<Rightarrow> int" where
  "folder_number Inbox c = mc_inbox c"
| "folder_number Starred c = mc_starred c"
| "folder_number Sent c = mc_sent c"
| "folder_number Archived c = mc_archived c"
| "folder_number Spam c = mc_spam c"
| "folder_number Trash c = mc_trash c"

lemma folder_number_counts: "folder_number f (folder_counts ms) = int (length (filter (in_folder f) ms))"
  by (cases f) (simp_all add: folder_counts_def Let_def)

lemma recipients_addressed:
  assumes "strict_order before" and "rolled_up before mb" and "m \<in> set (mb_messages mb)" and "ds \<noteq> []"
  shows "(\<exists>r \<in> set (mb_recipients mb). mr_tenant r = m_tenant m \<and> mr_message r = m_id m \<and> mr_domain r \<in> set ds) \<longleftrightarrow> addressed ds m"
proof -
  have inv: "distinct (map row_key (mb_messages mb))" "recipients_exact before mb" using assms(2) by (simp_all add: rolled_up_def)
  have "addressed ds m" if r: "r \<in> set (mb_recipients mb)" "mr_tenant r = m_tenant m" "mr_message r = m_id m" "mr_domain r \<in> set ds" for r
  proof -
    obtain n where n: "n \<in> set (mb_messages mb)" "r \<in> set (recipient_rows before n)" using r(1) row_of_message [OF inv(2)] by blast
    have "row_key n = row_key m" using recipient_rows_of [OF n(2)] r(2,3) by simp
    then have "n = m" by (rule tenant_message_unique [OF inv(1) n(1) assms(3)])
    then have "(mr_email r, mr_domain r) \<in> set (grouped_recipients m)" using recipient_rows_of [OF n(2)] by simp
    with r(4) show ?thesis unfolding addressed_group [OF assms(4)] by blast
  qed
  moreover have "\<exists>r \<in> set (mb_recipients mb). mr_tenant r = m_tenant m \<and> mr_message r = m_id m \<and> mr_domain r \<in> set ds"
    if a: "addressed ds m"
  proof -
    obtain e d where d: "d \<in> set ds" "(e, d) \<in> set (grouped_recipients m)" using a unfolding addressed_group [OF assms(4)] by blast
    then obtain r where r: "r \<in> set (recipient_rows before m)" "mr_domain r = d"
      using collation.one_first_row [OF collation.intro, OF assms(1) d(2)] by blast
    then have "r \<in> set (mb_recipients mb)" using row_of_message [OF inv(2)] assms(3) by blast
    moreover have "mr_tenant r = m_tenant m" "mr_message r = m_id m" using recipient_rows_of [OF r(1)] by simp_all
    ultimately show ?thesis using r(2) d(1) by (intro bexI [of _ r]) simp_all
  qed
  ultimately show ?thesis by blast
qed

lemma folder_listed:
  assumes "strict_order before" and "rolled_up before mb"
  shows "listed lp t (folder_options f ds limit) None mb = filter (in_folder f) (tenant_mail t (normal_domains ds) (mb_messages mb))"
proof -
  have "(list_where lp t (folder_options f ds limit) mb m \<and> since_ok None m)
      = (in_folder f m \<and> m_tenant m = t \<and> addressed (normal_domains ds) m)" if "m \<in> set (mb_messages mb)" for m
    using recipients_addressed [OF assms that, of "normal_domains ds"]
    by (cases "normal_domains ds = []")
      (auto simp: list_where_def folder_options_def when_text_def since_ok_def Let_def addressed_def [of "[]"])
  then show ?thesis unfolding listed_def tenant_mail_def by (auto intro!: filter_cong simp: conj_ac)
qed

text \<open>
  C11. After any writes, a client that pages through a folder, with or without a domain
  filter, reaches the last page, and has then got as many messages as the folder count says.
\<close>

theorem folder_listing_matches_count:
  assumes "strict_order (lp_before lp)" and "mb = write_rows (lp_before lp) ws empty_mailbox"
    and "\<forall>m \<in> set (mb_messages mb). m_tenant m = t \<longrightarrow> reads_back lp m"
    and "length (mb_messages mb) < n * clampLimit limit"
  shows "\<exists>items. message_scan lp t (folder_options f ds limit) (replicate n mb) None = Inr (items, True)
    \<and> distinct (map li_id items)
    \<and> int (length items) = folder_number f (messageCounts (lp_before lp) t ds mb)"
proof -
  let ?opts = "folder_options f ds limit" and ?rows = "listed lp t (folder_options f ds limit) None mb"
  have up: "rolled_up (lp_before lp) mb" using assms(2) write_rows_keeps rolled_up_empty by simp
  then have keys: "distinct (map row_key (mb_messages mb))" by (simp add: rolled_up_def)
  have steady: "steady_message t (replicate n mb) i" for i
    using tenant_message_unique [OF keys] by (auto simp: steady_message_def)
  obtain rows complete where s:
    "keyset_scan (newer (lp_before lp)) list_key (clampLimit limit) (map (listed lp t ?opts None) (replicate n mb)) None = (rows, complete)"
    by fastforce
  have "length (filter (\<lambda>r. True) ?rows) < n * clampLimit limit"
    unfolding listed_def using le_less_trans [OF length_filter_le assms(4)] by simp
  then have "length ?rows < n * clampLimit limit" by simp
  then have "snd (keyset_scan (newer (lp_before lp)) list_key (clampLimit limit) (replicate n ?rows) None)"
    by (intro keyset.scan_ends [OF list_keyset [OF assms(1)] listed_keys [OF keys] clampLimit_pos]) simp
  then have c: complete using s by simp
  have scan: "message_scan lp t ?opts (replicate n mb) None = Inr (map (list_item_of lp) rows, True)"
    using scan_is_keyset [of ?opts lp None "replicate n mb" t] assms(3) s c
    by (simp add: folder_options_def clampOffset_def cast_since_def)
  have k: "\<forall>mb' \<in> set (replicate n mb). distinct (map row_key (mb_messages mb'))" using keys by simp
  note all = scan_rows [OF assms(1) k s]
  have "0 < n" using c s by (cases n) simp_all
  then have r: "set (replicate n mb) = {mb}" by simp
  have one: "count_list (map m_id rows) i = 1" if "i \<in> m_id ` set ?rows" for i
    using all(3) [OF steady c] that unfolding r by simp
  have "m_id ` set rows \<subseteq> m_id ` set ?rows" using all(1) unfolding r by blast
  moreover have "m_id ` set ?rows \<subseteq> m_id ` set rows"
  proof
    fix i assume "i \<in> m_id ` set ?rows"
    then have "count_list (map m_id rows) i \<noteq> 0" using one by simp
    then show "i \<in> m_id ` set rows" by (simp only: count_list_0_iff not_not set_map)
  qed
  ultimately have ids: "m_id ` set rows = m_id ` set ?rows" by (rule subset_antisym)
  have "distinct (map m_id rows)" by (rule count_distinct) (rule all(2) [OF steady])
  note ids = ids this
  have "distinct (map m_id ?rows)"
    using keys by (auto simp: listed_def list_where_def distinct_map inj_on_def)
  then have "length rows = length ?rows" using ids by (metis distinct_card length_map set_map)
  moreover have "map li_id (map (list_item_of lp) rows) = map m_id rows" by (simp add: list_item_of_def)
  ultimately show ?thesis
    using scan ids(2) folder_listed [OF assms(1) up] counts_of_rollup [OF assms(1) up]
    by (simp add: folder_number_counts del: map_map)
qed

section \<open>The rollups are exact\<close>

text \<open>
  C10. After the backfill and any sequence of row writes, the folder counts, for the whole
  tenant and for any list of domains, and the totals of every mailbox are those that counting
  the tenant's messages gives.
\<close>

theorem rollups_exact:
  assumes "strict_order before" and "distinct (map row_key (mb_messages start))"
    and "mb_recipients start = []" and "mb_counters start = (\<lambda>_ _. None)"
    and "distinct ts" and "\<forall>m \<in> set (mb_messages start). m_tenant m \<in> set ts"
    and "mb = write_rows before ws (backfill before ts start)"
  shows "messageCounts before t wanted mb = folder_counts (tenant_mail t (normal_domains wanted) (mb_messages mb))
    \<and> listMailboxes before t as mb =
        (map (mailbox_of t (mb_messages mb)) (stable_sort (\<lambda>a b. \<not> before (a_email b) (a_email a)) (filter (\<lambda>a. a_tenant a = t) as)),
         folder_counts (tenant_mail t [] (mb_messages mb)))"
proof -
  have up: "rolled_up before mb"
    using backfill_exact [OF assms(2-6)] write_rows_keeps assms(7) by simp
  show ?thesis using counts_of_rollup [OF assms(1) up] mailboxes_of_rollup [OF assms(1) up] by blast
qed

section \<open>Search terms\<close>

text \<open>
  C12. A search term is matched as literal text: a message is found exactly when the case-folded
  trimmed term occurs in its joined sender, recipients, subject and body or in the joined name
  and type of one of its attachments, whatever wildcard characters the term has.
\<close>

theorem search_is_literal:
  "search_hit lp m v \<longleftrightarrow>
    (\<exists>shown \<in> insert (join_texts '' '' [m_from m, to_text lp m, or_default (m_subject m) [], or_default (m_body_text m) []])
        ((\<lambda>att. join_texts '' '' [json_text_at lp att ''filename'', json_text_at lp att ''content_type'']) ` set (m_attachments m)).
      \<exists>a b. lp_lower lp shown = a @ js_lower (js_trim v) @ b)"
  by (simp add: search_hit_def contains_term_def like_contains del: join_texts.simps)

section \<open>Rows of an earlier draft\<close>

lemma add_known: "\<forall>r \<in> set new. recipient_key r \<in> recipient_key ` set rows \<Longrightarrow> foldl add_recipient rows new = rows"
  by (induction new) (simp_all add: add_recipient_def)

text \<open>
  Recipient rows that an earlier draft of the migration left, to which the new column gives
  \<open>false\<close>, stay as they are in the backfill: no count for a domain has their messages.
\<close>

theorem draft_rows_stay_uncounted:
  assumes "mb_recipients mb = map (\<lambda>r. r\<lparr>mr_first := False\<rparr>) (concat (map (recipient_rows before) (mb_messages mb)))"
    and "normal_domains wanted \<noteq> []"
  shows "mc_total (messageCounts before t wanted (backfill before ts mb)) = 0"
proof -
  have "mb_recipients (backfill before ts mb') = mb_recipients mb \<and> mb_messages (backfill before ts mb') = mb_messages mb"
    if "mb_recipients mb' = mb_recipients mb" "mb_messages mb' = mb_messages mb" for mb'
    using that
  proof (induction ts arbitrary: mb')
    case (Cons tenant ts)
    have "foldl add_recipient (mb_recipients mb)
        (concat (map (recipient_rows before) (filter (\<lambda>m. m_tenant m = tenant) (mb_messages mb)))) = mb_recipients mb"
    proof (rule add_known, rule ballI)
      let ?f = "\<lambda>r. r\<lparr>mr_first := False\<rparr>"
      fix r assume "r \<in> set (concat (map (recipient_rows before) (filter (\<lambda>m. m_tenant m = tenant) (mb_messages mb))))"
      then have "?f r \<in> set (mb_recipients mb)" unfolding assms(1) by auto
      moreover have "recipient_key r = recipient_key (?f r)" by simp
      ultimately show "recipient_key r \<in> recipient_key ` set (mb_recipients mb)" by (rule rev_image_eqI)
    qed
    then show ?case using Cons by (simp add: backfill_def backfill_tenant_def)
  qed (simp add: backfill_def)
  then have "domain_rows t ds (backfill before ts mb) = []" for ds
    by (simp add: domain_rows_def assms(1) filter_empty_conv)
  then show ?thesis using assms(2) by (simp add: messageCounts_def Let_def count_flags_def per_message_def)
qed

end
