(* ===== verification/Attachment_List_Promises.thy ===== *)
theory Attachment_List_Promises
  imports Attachment_List_Facts Mailbox_Promises
begin

text \<open>A scan of the attachment inventory gives every attachment of a message that keeps its list
  instant once.\<close>

section \<open>Order and cursors\<close>

context collation begin

lemma inventory_order: "strict_order (inventory_before before)"
proof
  show "\<not> inventory_before before a a" for a by (simp add: inventory_before_def irrefl)
  show "inventory_before before a c" if "inventory_before before a b" "inventory_before before b c" for a b c
    using that by (auto simp: inventory_before_def dest: trans)
  show "inventory_before before a b \<or> inventory_before before b a" if "a \<noteq> b" for a b
    using that total [of "fst (snd a)" "fst (snd b)"] by (cases a; cases b) (auto simp: inventory_before_def)
qed

end

interpretation code_point_inventory: keyset "inventory_before (<)" inventory_key
  by (rule keyset.intro [OF code_points.inventory_order])

lemma inventory_keyset: "strict_order (lp_before lp) \<Longrightarrow> keyset (inventory_before (lp_before lp))"
  by (rule keyset.intro [OF collation.inventory_order [OF collation.intro]])

lemma digit_plain: "is_digit c \<Longrightarrow> plain_char c"
  by (simp add: is_digit_def plain_char_def Let_def)

lemma inventory_cursor_length:
  assumes "plain_id i" and "cursor_ts_ok ts" and "n < 1000"
  shows "length (encodeAttachmentsCursor ts i n) \<le> 512"
proof -
  note ts = cursor_ts_plain [OF assms(2)]
  have i: "length i \<le> 300" "\<forall>c \<in> set i. plain_char c" using assms(1) by (simp_all add: plain_id_def)
  have n: "length (nat_text n) \<le> 3" "\<forall>c \<in> set (nat_text n). plain_char c"
    using nat_text_short [OF assms(3)] nat_text_digits digit_plain by blast+
  have "json_text (JNum (int n)) = nat_text n" by (simp add: int_text_def)
  then have shape: "json_text (inventory_cursor_object ts i n) = CHR ''{'' # CHR 0x22 # ''ts'' @ CHR 0x22 # CHR '':'' # CHR 0x22 # ts
      @ CHR 0x22 # CHR '','' # CHR 0x22 # ''id'' @ CHR 0x22 # CHR '':'' # CHR 0x22 # i
      @ CHR 0x22 # CHR '','' # CHR 0x22 # ''idx'' @ CHR 0x22 # CHR '':'' # nat_text n @ ''}''"
    by (simp add: cursor_keys plain_json [OF ts(2)] plain_json [OF i(2)] del: json_text.simps(3))
  show ?thesis unfolding encodeAttachmentsCursor_def
  proof (rule encoded_length)
    show "\<forall>c \<in> set (json_text (inventory_cursor_object ts i n)). (of_char c :: nat) < 128"
      using ts(2) i(2) n(2) plain_char_less unfolding shape by auto
    show "length (json_text (inventory_cursor_object ts i n)) \<le> 380" using ts(1) i(1) n(1) unfolding shape by simp
  qed
qed

lemma inventory_cursor_roundtrip:
  assumes "plain_id i" and "cursor_ts_ok ts" and "n < 1000" and "lp_date lp ts \<noteq> None"
    and "lp_json lp (utf8 (json_text (inventory_cursor_object ts i n))) = Some (inventory_cursor_object ts i n)"
  shows "decodeAttachmentsCursor lp (encodeAttachmentsCursor ts i n) = Some (ts, i, n)"
proof -
  have d: "decode64url (encodeAttachmentsCursor ts i n) = utf8 (json_text (inventory_cursor_object ts i n))"
    unfolding encodeAttachmentsCursor_def by (rule decode_encode_url [OF utf8_bytes_small])
  have "utf8 (json_text (inventory_cursor_object ts i n)) \<noteq> []" by (simp add: utf8_def Let_def)
  then have "encodeAttachmentsCursor ts i n \<noteq> []" using d by (auto simp: decode64url_def)
  moreover have "json_key (inventory_cursor_object ts i n) ''ts'' = Some (JStr ts)"
      "json_key (inventory_cursor_object ts i n) ''id'' = Some (JStr i)"
      "json_key (inventory_cursor_object ts i n) ''idx'' = Some (JNum (int n))"
    by (simp_all add: json_key_def)
  ultimately show ?thesis using inventory_cursor_length [OF assms(1-3)] assms d
    by (auto simp: decodeAttachmentsCursor_def plain_id_def)
qed

section \<open>The pages of a scan\<close>

text \<open>The cursors of all attachments of a message read back as what they were made of.\<close>

definition inventory_reads_back :: "list_platform \<Rightarrow> message \<Rightarrow> bool" where
  "inventory_reads_back lp m \<longleftrightarrow> plain_id (m_id m) \<and> length (m_attachments m) \<le> 1000
     \<and> (let ts = lp_ts_text lp (sort_ts m) in cursor_ts_ok ts \<and> lp_date lp ts \<noteq> None
         \<and> lp_timestamptz lp ts = Some (sort_ts m)
         \<and> (\<forall>n < length (m_attachments m). lp_json lp (utf8 (json_text (inventory_cursor_object ts (m_id m) n)))
              = Some (inventory_cursor_object ts (m_id m) n)))"

definition inventory_cursor :: "list_platform \<Rightarrow> inventory_position \<Rightarrow> string" where
  "inventory_cursor lp k = (case k of (ts, i, n) \<Rightarrow> encodeAttachmentsCursor (lp_ts_text lp ts) i n)"

definition inventory_cursor_ok :: "list_platform \<Rightarrow> inventory_position \<Rightarrow> bool" where
  "inventory_cursor_ok lp k \<longleftrightarrow> inventory_cursor lp k \<noteq> []
     \<and> cast_inventory_cursor lp (decodeAttachmentsCursor lp (inventory_cursor lp k)) = Inr (Some k)"

definition inventoried :: "string \<Rightarrow> inventory_options \<Rightarrow> int option \<Rightarrow> mail_views \<Rightarrow> (message \<times> nat \<times> json) list" where
  "inventoried t opts since mb = filter (\<lambda>r. inventory_where t opts since (fst r)) (attachment_rows mb)"

lemma inventoried_in:
  "(m, n, att) \<in> set (inventoried t opts since mb) \<longleftrightarrow>
     m \<in> set (mb_messages mb) \<and> inventory_where t opts since m \<and> n < length (m_attachments m) \<and> att = m_attachments m ! n"
  by (auto simp: inventoried_def attachment_rows_def in_set_enumerate_eq image_iff)

lemma inventoried_message:
  "r \<in> set (inventoried t opts since mb) \<Longrightarrow> fst r \<in> set (mb_messages mb) \<and> m_tenant (fst r) = t"
  by (cases r) (simp add: inventoried_in inventory_where_def)

lemma inventory_reads_cursor:
  assumes "inventory_reads_back lp m" and "n < length (m_attachments m)"
  shows "inventory_cursor_ok lp (inventory_key (m, n, att))"
proof -
  have "decodeAttachmentsCursor lp (encodeAttachmentsCursor (lp_ts_text lp (sort_ts m)) (m_id m) n)
      = Some (lp_ts_text lp (sort_ts m), m_id m, n)"
    by (rule inventory_cursor_roundtrip) (use assms in \<open>simp_all add: inventory_reads_back_def Let_def\<close>)
  moreover have "n < 2 ^ 63" using assms by (simp add: inventory_reads_back_def)
  ultimately show ?thesis using assms(1)
    by (auto simp: inventory_cursor_ok_def inventory_cursor_def inventory_key_def decodeAttachmentsCursor_def
        cast_inventory_cursor_def inventory_reads_back_def Let_def split: if_splits)
qed

lemma after_inventory_newer:
  "after_inventory_cursor lp c r = (case c of None \<Rightarrow> True | Some k \<Rightarrow> inventory_before (lp_before lp) k (inventory_key r))"
  by (auto simp: after_inventory_cursor_def inventory_before_def inventory_key_def split: option.split)

lemma inventory_page_is_keyset:
  "inventory_page lp t opts since c mb =
     keyset_page (inventory_before (lp_before lp)) inventory_key (clampLimit (ao_limit opts)) (inventoried t opts since mb) c"
  unfolding inventory_page_def keyset_page_def inventoried_def by (simp add: after_inventory_newer)

lemma inventory_where_cursor [simp]: "inventory_where t (opts\<lparr>ao_cursor := c\<rparr>) = inventory_where t opts"
  by (simp add: inventory_where_def fun_eq_iff)

lemma listAttachments_page:
  assumes "cast_since lp (ao_since opts) = Inr since" and "\<forall>k. c = Some k \<longrightarrow> inventory_cursor_ok lp k"
  shows "listAttachments lp fr t (opts\<lparr>ao_cursor := map_option (inventory_cursor lp) c\<rparr>) mb =
    Inr (map (inventory_item_of lp fr) (keyset_page (inventory_before (lp_before lp)) inventory_key (clampLimit (ao_limit opts)) (inventoried t opts since mb) c),
      map_option (inventory_cursor lp) (keyset_next inventory_key (clampLimit (ao_limit opts))
        (keyset_page (inventory_before (lp_before lp)) inventory_key (clampLimit (ao_limit opts)) (inventoried t opts since mb) c)))"
proof -
  let ?opts = "opts\<lparr>ao_cursor := map_option (inventory_cursor lp) c\<rparr>"
  have "cast_inventory_cursor lp (case ao_cursor ?opts of None \<Rightarrow> None | Some raw \<Rightarrow> if raw = [] then None else decodeAttachmentsCursor lp raw) = Inr c"
    using assms(2) by (cases c) (auto simp: cast_inventory_cursor_def inventory_cursor_ok_def)
  moreover have "inventory_page lp t ?opts since c mb =
      keyset_page (inventory_before (lp_before lp)) inventory_key (clampLimit (ao_limit opts)) (inventoried t opts since mb) c"
    by (simp add: inventory_page_is_keyset inventoried_def)
  ultimately show ?thesis using assms(1)
    by (auto simp: listAttachments_def keyset_next_def inventory_cursor_def Let_def split: prod.split)
qed

lemma inventory_scan_is_keyset:
  assumes "cast_since lp (ao_since opts) = Inr since"
    and "\<forall>mb \<in> set mbs. \<forall>m \<in> set (mb_messages mb). m_tenant m = t \<longrightarrow> inventory_reads_back lp m"
  shows "inventory_scan lp fr t opts mbs None =
    (case keyset_scan (inventory_before (lp_before lp)) inventory_key (clampLimit (ao_limit opts)) (map (inventoried t opts since) mbs) None of
       (rows, complete) \<Rightarrow> Inr (map (inventory_item_of lp fr) rows, complete))"
proof -
  have "inventory_cursor_ok lp (inventory_key r)" if "mb \<in> set mbs" "r \<in> set (inventoried t opts since mb)" for mb r
    using assms(2) that inventory_reads_cursor by (cases r) (auto simp: inventoried_in inventory_where_def)
  then show ?thesis
    using cursor_scan_is_keyset [of mbs "inventory_cursor_ok lp" "\<lambda>cursor mb. listAttachments lp fr t (opts\<lparr>ao_cursor := cursor\<rparr>) mb"
        "inventory_cursor lp" "inventory_item_of lp fr" "inventory_before (lp_before lp)" inventory_key "clampLimit (ao_limit opts)"
        "inventoried t opts since" None]
      listAttachments_page [OF assms(1)]
    by (simp add: inventory_scan_def)
qed

section \<open>Every attachment once\<close>

definition attachment_name :: "message \<times> nat \<times> json \<Rightarrow> string \<times> nat" where
  "attachment_name r = (m_id (fst r), fst (snd r))"

lemma attachment_row_names:
  "map attachment_name (map (Pair m) (enumerate 0 (m_attachments m))) = map (Pair (m_id m)) [0..<length (m_attachments m)]"
proof -
  have "map attachment_name (map (Pair m) xs) = map (Pair (m_id m)) (map fst xs)" for xs :: "(nat \<times> json) list"
    by (induction xs) (simp_all add: attachment_name_def)
  then show ?thesis by (simp only: map_fst_enumerate add_0)
qed

lemma indexed_distinct: "distinct (map f ms) \<Longrightarrow> distinct (concat (map (\<lambda>m. map (Pair (f m)) [0..<k m]) ms))"
proof (induction ms)
  case (Cons m ms)
  have "distinct (map (Pair (f m)) [0..<k m])" by (simp add: distinct_map inj_on_def)
  moreover have "f m \<notin> f ` set ms" using Cons.prems by simp
  then have "set (map (Pair (f m)) [0..<k m]) \<inter> set (concat (map (\<lambda>m. map (Pair (f m)) [0..<k m]) ms)) = {}" by auto
  moreover have "distinct (concat (map (\<lambda>m. map (Pair (f m)) [0..<k m]) ms))" using Cons by simp
  ultimately show ?case unfolding list.map concat.simps distinct_append by blast
qed simp

lemma attachment_rows_distinct:
  assumes "distinct (map m_id ms)"
  shows "distinct (map attachment_name (concat (map (\<lambda>m. map (Pair m) (enumerate 0 (m_attachments m))) ms)))"
proof -
  have "map attachment_name (concat (map (\<lambda>m. map (Pair m) (enumerate 0 (m_attachments m))) ms))
      = concat (map (\<lambda>m. map (Pair (m_id m)) [0..<length (m_attachments m)]) ms)"
    unfolding map_concat list.map_comp comp_def by (simp only: attachment_row_names [unfolded list.map_comp comp_def])
  then show ?thesis using indexed_distinct [OF assms] by (simp only:)
qed

lemma inventoried_distinct:
  assumes "distinct (map row_key (mb_messages mb))"
  shows "distinct (map inventory_key (inventoried t opts since mb))"
proof -
  let ?p = "inventory_where t opts since"
  have "distinct (map m_id (filter ?p (mb_messages mb)))"
    using assms by (auto simp: inventory_where_def distinct_map inj_on_def)
  moreover have "inventoried t opts since mb = concat (map (\<lambda>m. map (Pair m) (enumerate 0 (m_attachments m))) (filter ?p (mb_messages mb)))"
  proof -
    have "filter (\<lambda>r. ?p (fst r)) (concat (map (\<lambda>m. map (Pair m) (enumerate 0 (m_attachments m))) ms))
        = concat (map (\<lambda>m. map (Pair m) (enumerate 0 (m_attachments m))) (filter ?p ms))" for ms
      by (induction ms) (auto simp: filter_map comp_def)
    then show ?thesis by (simp add: inventoried_def attachment_rows_def)
  qed
  ultimately have "distinct (map attachment_name (inventoried t opts since mb))" using attachment_rows_distinct by simp
  moreover have "attachment_name = snd \<circ> inventory_key" by (simp add: fun_eq_iff attachment_name_def inventory_key_def)
  ultimately have "distinct (map snd (map inventory_key (inventoried t opts since mb)))" by simp
  then show ?thesis by (simp only: distinct_map)
qed

definition item_position :: "inventory_item \<Rightarrow> string \<times> nat" where
  "item_position x = (ai_message_id x, ai_index x)"

lemma item_names: "item_position (inventory_item_of lp fr r) = attachment_name r"
  by (cases r) (simp add: item_position_def inventory_item_of_def mapAttachmentInventoryRow_def attachment_row_of_def attachment_name_def Let_def)

lemma attachment_listed:
  "m \<in> set (mb_messages mb) \<Longrightarrow> inventory_where t opts since m \<Longrightarrow> m_id m = i \<Longrightarrow> n < length (m_attachments m)
   \<Longrightarrow> (i, n) \<in> attachment_name ` set (inventoried t opts since mb)"
  by (rule image_eqI [of _ _ "(m, n, m_attachments m ! n)"]) (simp_all add: inventoried_in attachment_name_def)

lemma steady_attachment:
  assumes "strict_order (lp_before lp)" and st: "steady_message t mbs i"
  shows "keyset.steady inventory_key attachment_name (map (inventoried t opts since) mbs) (i, n)"
  unfolding keyset.steady_def [OF inventory_keyset [OF assms(1)]] ball_simps set_map
proof (intro ballI impI)
  fix mb mb' r r' assume mb: "mb \<in> set mbs" "mb' \<in> set mbs"
    and r: "r \<in> set (inventoried t opts since mb)" "r' \<in> set (inventoried t opts since mb')"
    and i: "attachment_name r = (i, n)" "attachment_name r' = (i, n)"
  have "sort_ts (fst r) = sort_ts (fst r')"
    by (rule steady_messageD [OF st mb])
      (use inventoried_message [OF r(1)] inventoried_message [OF r(2)] i in \<open>simp_all add: attachment_name_def\<close>)
  then show "inventory_key r = inventory_key r'" using i by (simp add: inventory_key_def attachment_name_def)
qed

text \<open>
  C13. A client that follows the cursors of the attachment inventory while rows are inserted,
  deleted and updated between the pages gets only rows of attachments that were there at one of
  them.  An attachment position of a message whose list instant is not moved meanwhile comes at
  most once, and exactly once if it was there at every page and the last page has no cursor.
  The ids are short plain texts, a message has at most 1000 attachments, and the database and
  JSON.parse read back the cursors they printed.
\<close>

theorem inventory_exactly_once:
  assumes "strict_order (lp_before lp)" and "cast_since lp (ao_since opts) = Inr since"
    and "\<forall>mb \<in> set mbs. distinct (map row_key (mb_messages mb))"
    and "\<forall>mb \<in> set mbs. \<forall>m \<in> set (mb_messages mb). m_tenant m = t \<longrightarrow> inventory_reads_back lp m"
  shows "\<exists>items complete. inventory_scan lp fr t opts mbs None = Inr (items, complete)
    \<and> (\<forall>x \<in> set items. \<exists>mb \<in> set mbs. \<exists>m \<in> set (mb_messages mb). inventory_where t opts since m
         \<and> (\<exists>n < length (m_attachments m). x = inventory_item_of lp fr (m, n, m_attachments m ! n)))
    \<and> (\<forall>i n. steady_message t mbs i \<longrightarrow> count_list (map item_position items) (i, n) \<le> 1
        \<and> (complete \<longrightarrow> (\<forall>mb \<in> set mbs. \<exists>m \<in> set (mb_messages mb). inventory_where t opts since m \<and> m_id m = i \<and> n < length (m_attachments m))
            \<longrightarrow> count_list (map item_position items) (i, n) = 1))"
proof -
  let ?states = "map (inventoried t opts since) mbs"
  obtain rows complete where s:
    "keyset_scan (inventory_before (lp_before lp)) inventory_key (clampLimit (ao_limit opts)) ?states None = (rows, complete)"
    by fastforce
  note ks = inventory_keyset [OF assms(1)]
  have d: "\<forall>rows \<in> set ?states. distinct (map inventory_key rows)" using assms(3) inventoried_distinct by auto
  have k: "\<forall>r r'. inventory_key r = inventory_key r' \<longrightarrow> attachment_name r = attachment_name r'"
    by (simp add: inventory_key_def attachment_name_def)
  let ?items = "map (inventory_item_of lp fr) rows"
  have names: "map item_position ?items = map attachment_name rows" by (simp add: item_names)
  have "inventory_scan lp fr t opts mbs None = Inr (?items, complete)"
    using inventory_scan_is_keyset [OF assms(2,4)] s by simp
  moreover have "\<exists>mb \<in> set mbs. \<exists>m \<in> set (mb_messages mb). inventory_where t opts since m
      \<and> (\<exists>n < length (m_attachments m). inventory_item_of lp fr r = inventory_item_of lp fr (m, n, m_attachments m ! n))"
    if "r \<in> set rows" for r
    using keyset.scan_from [OF ks s that] by (cases r) (fastforce simp: inventoried_in)
  moreover have "count_list (map item_position ?items) (i, n) \<le> 1
      \<and> (complete \<longrightarrow> (\<forall>mb \<in> set mbs. \<exists>m \<in> set (mb_messages mb). inventory_where t opts since m \<and> m_id m = i \<and> n < length (m_attachments m))
          \<longrightarrow> count_list (map item_position ?items) (i, n) = 1)"
    if st: "steady_message t mbs i" for i n
    unfolding names
  proof (intro conjI impI)
    note once = keyset.scan_steady [where name = attachment_name, OF ks d k s clampLimit_pos steady_attachment [OF assms(1) st, of opts since n]]
    show "count_list (map attachment_name rows) (i, n) \<le> 1" by (rule once(1))
    assume c: complete and all: "\<forall>mb \<in> set mbs. \<exists>m \<in> set (mb_messages mb). inventory_where t opts since m \<and> m_id m = i \<and> n < length (m_attachments m)"
    have "(i, n) \<in> attachment_name ` set (inventoried t opts since mb)" if "mb \<in> set mbs" for mb
      using all that attachment_listed by blast
    then show "count_list (map attachment_name rows) (i, n) = 1" using once(2) [OF c] by simp
  qed
  ultimately show ?thesis by (intro exI [of _ ?items] exI [of _ complete]) auto
qed

end
