(* ===== verification/Mailbox_Demo.thy ===== *)
theory Mailbox_Demo
  imports Mailbox_Promises
begin

text \<open>A mailbox with one message, and the promises of the mailbox views on it.\<close>

definition demo_mail :: message where
  "demo_mail = \<lparr> m_id = ''a1'', m_tenant = ''t'', m_direction = ''inbound'', m_from = ''x@y.z'',
     m_to = [''Bob <Bob@B.co>'', ''c@d.e''], m_cc = [], m_subject = Some ''hello'', m_body_text = None, m_body_html = None,
     m_status = ''received'', m_provider_message_id = None, m_message_id = None, m_in_reply_to = None,
     m_received_at = Some 7, m_is_read = False, m_is_starred = False, m_labels = [], m_headers = (\<lambda>_. None),
     m_attachments = [], m_source_id = None, m_key = None, m_payload_hash = None, m_send_state = SS_none,
     m_send_started_at = None, m_created_at = 9, m_updated_at = 9 \<rparr>"

definition demo_ts :: string where
  "demo_ts = ''1970-01-01T00:00:00.007000Z''"

definition demo_lp :: list_platform where
  "demo_lp = \<lparr> lp_lower = js_lower, lp_text = json_text, lp_space = is_ws, lp_before = (<),
     lp_ts_text = (\<lambda>_. demo_ts), lp_timestamptz = (\<lambda>s. if s = demo_ts then Some 7 else None),
     lp_date = (\<lambda>s. if s = demo_ts then Some 7 else None),
     lp_json = (\<lambda>b. if b = utf8 (json_text (cursor_object demo_ts ''a1'')) then Some (cursor_object demo_ts ''a1'') else None) \<rparr>"

definition demo_box :: mail_views where
  "demo_box = write_rows (<) [Insert_Row demo_mail] empty_mailbox"

lemma demo_order: "strict_order (lp_before demo_lp)"
  using code_points.strict_order_axioms by (simp add: demo_lp_def)

lemma demo_messages: "mb_messages demo_box = [demo_mail]"
  by (simp add: demo_box_def write_rows_def empty_mailbox_def emails_messages_rollup_sync_def)

lemma demo_reads_back: "reads_back demo_lp demo_mail"
proof -
  have "cursor_ts_ok demo_ts" by (simp add: cursor_ts_ok_def demo_ts_def)
  moreover have "plain_id ''a1''" by (simp add: plain_id_def plain_char_def)
  ultimately show ?thesis by (simp add: reads_back_def demo_lp_def demo_mail_def sort_ts_def or_default_def Let_def del: json_text.simps)
qed

theorem listing_exactly_once_witness:
  "\<exists>items complete. message_scan demo_lp ''t'' (folder_options Inbox None (Some 1)) [demo_box, demo_box] None = Inr (items, complete)
    \<and> count_list (map li_id items) ''a1'' \<le> 1 \<and> (complete \<longrightarrow> count_list (map li_id items) ''a1'' = 1)"
proof -
  have l: "demo_mail \<in> set (listed demo_lp ''t'' (folder_options Inbox None (Some 1)) None demo_box)"
    by (simp add: listed_def demo_messages list_where_def folder_options_def when_text_def normal_domains_def or_default_def
        since_ok_def in_folder_def is_out_def is_arch_def is_spam_def is_trash_def demo_mail_def js_lower_def lower_char_def)
  have "m_id demo_mail = ''a1''" by (simp add: demo_mail_def)
  with l have all: "\<forall>mb \<in> set [demo_box, demo_box]. \<exists>m \<in> set (listed demo_lp ''t'' (folder_options Inbox None (Some 1)) None mb). m_id m = ''a1''"
    by auto
  have "steady_message ''t'' [demo_box, demo_box] ''a1''" by (simp add: steady_message_def demo_messages)
  with all show ?thesis
    using listing_exactly_once [of demo_lp "folder_options Inbox None (Some 1)" None "[demo_box, demo_box]" "''t''"] demo_order
    by (simp add: demo_messages demo_reads_back folder_options_def clampOffset_def cast_since_def) blast
qed

theorem folder_listing_matches_count_witness:
  "\<exists>items. message_scan demo_lp ''t'' (folder_options Inbox (Some [''b.co'']) (Some 1)) (replicate 2 demo_box) None = Inr (items, True)
    \<and> distinct (map li_id items)
    \<and> int (length items) = folder_number Inbox (messageCounts (lp_before demo_lp) ''t'' (Some [''b.co'']) demo_box)"
  by (rule folder_listing_matches_count [OF demo_order, where ws = "[Insert_Row demo_mail]"])
    (simp_all add: demo_messages demo_reads_back clampLimit_def, simp add: demo_box_def demo_lp_def)

lemma lower_B: "lower_char (CHR ''B'') = CHR ''b''"
proof -
  have "(of_char (CHR ''b'') :: nat) = 98" by simp
  then have "char_of (98 :: nat) = CHR ''b''" by (metis char_of_char)
  then show ?thesis by (simp add: lower_char_def)
qed

theorem rollups_exact_witness:
  "mc_inbox (messageCounts (<) ''t'' (Some ['' B.co'']) (write_rows (<) [Insert_Row demo_mail] (backfill (<) [''t''] empty_mailbox))) = 1"
proof -
  let ?mb = "write_rows (<) [Insert_Row demo_mail] (backfill (<) [''t''] empty_mailbox)"
  have ms: "mb_messages ?mb = [demo_mail]"
    by (simp add: write_rows_def backfill_def backfill_tenant_def empty_mailbox_def emails_messages_rollup_sync_def)
  have "emails_extract_address ''Bob <Bob@B.co>'' = Some ''bob@b.co''"
    using extract_named(1) [of "''Bob''" "''B.co''" "''Bob ''"]
    by (simp add: local_char_def domain_char_def ascii_alnum_def js_lower_def lower_B) (simp add: lower_char_def)
  then have d: "emails_extract_domain ''Bob <Bob@B.co>'' = Some ''b.co''"
    by (simp add: extract_domain_eq address_domain_def)
  have n: "normal_domains (Some ['' B.co'']) = [''b.co'']"
    by (simp add: normal_domains_def or_default_def js_lower_def lower_B trim_by_def is_ws_def is_ws_unit_def)
      (simp add: lower_char_def)
  have "addressed [''b.co''] demo_mail" using d by (simp add: addressed_def demo_mail_def)
  then have "tenant_mail ''t'' [''b.co''] [demo_mail] = [demo_mail]" by (simp add: tenant_mail_def) (simp add: demo_mail_def)
  moreover have "in_folder Inbox demo_mail"
    by (simp add: in_folder_iff is_out_def is_arch_def is_spam_def is_trash_def demo_mail_def js_lower_def lower_char_def)
  moreover have "mb_messages empty_mailbox = []" "mb_recipients empty_mailbox = []" "mb_counters empty_mailbox = (\<lambda>_ _. None)"
    by (simp_all add: empty_mailbox_def)
  ultimately show ?thesis
    using rollups_exact [of "(<)" empty_mailbox "[''t'']" ?mb "[Insert_Row demo_mail]" "''t''" "Some ['' B.co'']" "[]"]
      code_points.strict_order_axioms
    by (simp add: ms n folder_counts_def)
qed

end
