(* ===== verification/Attachment_List_Demo.thy ===== *)
theory Attachment_List_Demo
  imports Attachment_List_Promises Mailbox_Demo
begin

text \<open>A mailbox whose message has an attachment, and a scan of its inventory one row a page.\<close>

definition attachment_mail :: message where
  "attachment_mail = demo_mail\<lparr>m_attachments := [JObj [(''filename'', JStr ''a.txt''), (''size'', JNum 3)]]\<rparr>"

definition attachment_lp :: list_platform where
  "attachment_lp = demo_lp\<lparr>lp_json := (\<lambda>b. if b = utf8 (json_text (inventory_cursor_object demo_ts ''a1'' 0))
     then Some (inventory_cursor_object demo_ts ''a1'' 0) else None)\<rparr>"

definition attachment_box :: mail_views where
  "attachment_box = write_rows (<) [Insert_Row attachment_mail] empty_mailbox"

lemma attachment_messages: "mb_messages attachment_box = [attachment_mail]"
  by (simp add: attachment_box_def write_rows_def empty_mailbox_def emails_messages_rollup_sync_def)

lemma attachment_reads_back: "inventory_reads_back attachment_lp attachment_mail"
proof -
  have "cursor_ts_ok demo_ts" by (simp add: cursor_ts_ok_def demo_ts_def)
  moreover have "plain_id ''a1''" by (simp add: plain_id_def plain_char_def)
  ultimately show ?thesis
    by (simp add: inventory_reads_back_def attachment_lp_def attachment_mail_def demo_lp_def demo_mail_def sort_ts_def
        or_default_def Let_def del: json_text.simps)
qed

theorem inventory_exactly_once_witness:
  "\<exists>items complete. inventory_scan attachment_lp (\<lambda>_ _. None) ''t'' \<lparr> ao_limit = Some 1, ao_cursor = None, ao_direction = Some List_Inbound, ao_since = None \<rparr>
      [attachment_box, attachment_box] None = Inr (items, complete)
    \<and> count_list (map item_position items) (''a1'', 0) \<le> 1
    \<and> (complete \<longrightarrow> count_list (map item_position items) (''a1'', 0) = 1)"
proof -
  let ?opts = "\<lparr> ao_limit = Some 1, ao_cursor = None, ao_direction = Some List_Inbound, ao_since = None \<rparr>"
  have listed: "inventory_where ''t'' ?opts None attachment_mail \<and> m_id attachment_mail = ''a1'' \<and> 0 < length (m_attachments attachment_mail)"
    by (simp add: inventory_where_def since_ok_def is_out_def attachment_mail_def demo_mail_def js_lower_def lower_char_def)
  have "strict_order (lp_before attachment_lp)" using demo_order by (simp add: attachment_lp_def)
  moreover have "cast_since attachment_lp (ao_since ?opts) = Inr None" by (simp add: cast_since_def)
  moreover have "\<forall>mb \<in> set [attachment_box, attachment_box]. distinct (map row_key (mb_messages mb))"
    by (simp add: attachment_messages)
  moreover have "\<forall>mb \<in> set [attachment_box, attachment_box]. \<forall>m \<in> set (mb_messages mb). m_tenant m = ''t'' \<longrightarrow> inventory_reads_back attachment_lp m"
    by (simp add: attachment_messages attachment_reads_back)
  ultimately obtain items complete where
      scan: "inventory_scan attachment_lp (\<lambda>_ _. None) ''t'' ?opts [attachment_box, attachment_box] None = Inr (items, complete)"
      and once: "\<forall>i n. steady_message ''t'' [attachment_box, attachment_box] i \<longrightarrow> count_list (map item_position items) (i, n) \<le> 1
        \<and> (complete \<longrightarrow> (\<forall>mb \<in> set [attachment_box, attachment_box]. \<exists>m \<in> set (mb_messages mb). inventory_where ''t'' ?opts None m
              \<and> m_id m = i \<and> n < length (m_attachments m)) \<longrightarrow> count_list (map item_position items) (i, n) = 1)"
    using inventory_exactly_once [of attachment_lp ?opts None "[attachment_box, attachment_box]" "''t''" "\<lambda>_ _. None"] by blast
  have "steady_message ''t'' [attachment_box, attachment_box] ''a1''" by (simp add: steady_message_def attachment_messages)
  moreover have "\<forall>mb \<in> set [attachment_box, attachment_box]. \<exists>m \<in> set (mb_messages mb). inventory_where ''t'' ?opts None m
      \<and> m_id m = ''a1'' \<and> 0 < length (m_attachments m)"
    using listed by (simp add: attachment_messages)
  ultimately have "count_list (map item_position items) (''a1'', 0) \<le> 1
      \<and> (complete \<longrightarrow> count_list (map item_position items) (''a1'', 0) = 1)" using once by blast
  with scan show ?thesis by blast
qed

end
