(* ===== verification/Spec2Isabelle.thy ===== *)
theory Spec2Isabelle
  imports Send_Protocol_Trace Send_Request_Facts Warming Outbound_Policy_Facts Auth_Guards
    Inbound_Once Attachment_Page Webhook_Demo Attachment_List_Demo
begin

text \<open>
  Verification development of the emails service, the TypeScript repository this library
  stands beside.  It models the self-hosted server (src/src/server/self-hosted) where its
  correctness is decided: the path of an outgoing message, from the JSON body to the
  provider call and the ledger that makes it happen at most once; the path of an incoming
  message, from the queue notification or the provider's webhook to the tenant's mailbox, and
  the repair of attachments whose payloads were not stored; and the identity service, from the credential of a request
  to the tenant it acts for.

  \<^bold>\<open>How code is rendered.\<close>  A row of a table is a record and a table a list of rows; a method
  of a store is a function from the store to the new store and a result, with SQL errors
  and exceptions as \<open>Inl\<close> of an error type and a transaction as \<open>tx_atomic\<close> (an error undoes
  its writes).  Strings are lists of characters, so code units above 255 are left out; numbers
  are \<open>int\<close> or \<open>nat\<close> where the code stays within the integers a double represents, and a number
  with a fraction is no JSON value of the model (Attachment_List keeps apart the numerals that
  jsonb stores with a point and JSON.parse reads as integers).  What the
  repository does not contain is a parameter: SHA-256, argon2, Ed25519, base64url and percent
  decoding, the verifier and minter of @hasna/contracts, the provider, the clock, random
  tokens and ids (a \<open>moment\<close> gives one call its clock, ids and secrets).

  \<^bold>\<open>Sending.\<close>
    \<^item> Emails_Prelude: lists, strings, maps and errors as JavaScript has them; Js_Text: numerals
      and \<open>String\<close>; Store_Schema: the rows of the mailbox store (columns that no modelled
      operation reads or writes are left out).
    \<^item> Email_Address (lib/email-address.ts): canonical sender addresses.  Strict_Base64,
      Send_Limits, Send_Request (service.ts and lib/send-attachment-limits.ts): the body of a send
      request, its canonical text and hash; Send_Request_Facts: what an accepted body is.
    \<^item> Outbound_Policy (store.ts, lib/send-preflight.ts): who may send from which address, send
      keys, suppression, quota and warming; Outbound_Policy_Facts: soundness of the gate, its
      frame, and agreement of the client's preview with it.  Warming (lib/warming.ts): the ramp.
    \<^item> Send_Ledger (store.ts): the fenced send intents and their tombstones.  Send_Ledger_Facts:
      tenant isolation, the schema, the fences of keys and intents, finality of sent rows.
    \<^item> Send_Handler (service.ts, sender.ts): the send route as a program that suspends at each
      awaited call.  Send_Protocol: the interleaving of any number of requests, crashes, lease
      expiries and operator actions as an inductive step relation, and the locale \<open>simulation\<close> that carries
      an invariant along it.  Send_Handler_Facts,
      Send_Protocol_Facts, Send_Protocol_Trace: at most one delivery per intent and key, honest
      answers, the handler's seven steps, and the concrete traces behind two findings.

  \<^bold>\<open>Inbound mail.\<close>
    \<^item> Await: asynchronous functions as resumptions, one atomic step per awaited call, run alone
      or with steps of others in between; invariants of every step and of every interleaving.
    \<^item> Canonical_Json and Inbound_Store (store.ts): the canonical text of JSON, routing of envelope
      recipients, the quarantine, provenance and the atomic insertion of an inbound message.
    \<^item> Inbound_Ingest (ingest-worker.ts, lib/inbound-realtime.ts): the prefix map, the notification
      parser and \<open>ingestS3Object\<close>.
    \<^item> Inbound_Routes: routing is a partition by active routes; the locale \<open>prefix_order\<close> says which
      collations make an accepted prefix map unambiguous.  Inbound_Facts: the locales
      \<open>target_writes\<close> and \<open>mailbox_writes\<close> lift a relation from the store's calls to the worker.
      Inbound_Delivery: a deleted notification is stored.  Inbound_Replay: mail goes only to
      routed tenants.  Inbound_Once: uniqueness, idempotent redelivery, when the handler throws.

  \<^bold>\<open>Webhooks.\<close>
    \<^item> Webhook_Events (lib/webhook-events.ts, lib/sns-signature.ts, lib/resend-inbound.ts): the Svix
      and SNS signature checks, the certificate cache, the parsers.  Webhook_Store (store.ts,
      migrations.ts): delivery events, receipts, the upsert of a message.
    \<^item> Webhook_Receivers (server/webhooks/receivers.ts): both receivers over an injected ledger and
      injected sinks.  Webhook_Mount (self-hosted/webhooks.ts, service.ts): the tenant-scoped ledger,
      the sinks into the mailbox, SES ingest through the worker's function, the route.
    \<^item> Webhook_Facts: the locales \<open>ses_steps\<close>, \<open>resend_steps\<close> and \<open>hook_writes\<close> lift a relation from
      what is injected to the receivers and from the writes of the store to the mount; the unique
      indexes hold.  Webhook_Trust: a request without a valid signature writes nothing.
    \<^item> Webhook_Contract: the locales \<open>ledger_contract\<close>, \<open>ses_contract\<close> and \<open>resend_contract\<close> say what
      a ledger and its sinks promise and derive what an acknowledgement means; Webhook_Promises:
      the self-hosted ledger keeps them; Webhook_Outcomes: acknowledged events are recorded, a
      redelivery changes nothing, and two behaviours behind findings.  Webhook_Demo: runs.

  \<^bold>\<open>Mailbox views.\<close>
    \<^item> Mailbox_Folders (store.ts, migrations.ts): folder predicates, folder slots and the parser of
      recipient addresses.  Mailbox_Rollup (migration 0019): recipient rows and counters, the
      trigger that maintains them row by row, the backfill; Mailbox_Rollup_Facts: every write keeps
      them exact.  Mailbox_Counts (store.ts): \<open>messageCounts\<close> and \<open>listMailboxes\<close>;
      Mailbox_Counts_Facts: they count the messages.
    \<^item> Keyset: the locales \<open>strict_order\<close> and \<open>keyset\<close>, pagination by keys while rows change.
      Mailbox_List (store.ts): filters, terms, cursors and pages of \<open>listMessages\<close>; Mailbox_List_Facts:
      terms are literal, cursors read back, a scan is one of Keyset.  Mailbox_Promises: complete
      listings, listings that agree with the counts.  Mailbox_Demo: a small mailbox.
    \<^item> Attachment_List (store.ts): the attachment inventory with the judgement of payloads made in
      SQL, and the batch listing.  Attachment_List_Facts: where the two agree.
      Attachment_List_Promises: complete scans.  Attachment_List_Demo: a message with an attachment.

  \<^bold>\<open>Attachment repair.\<close>
    \<^item> Repair_Store (store.ts): the bindings of a stored object and the compare-and-swap of its
      payloads.  Repair_Manifest: policy, manifest, inventory and request hash.  Repair_Ledger: runs,
      entries, leases, byte reservations and outcomes.
    \<^item> Repair_Ledger_Facts: the invariant of the ledger and that every operation keeps it.
      Repair_Ledger_Trace: histories of the ledger, what grants and records do over them.
      Repair_Runs and Repair_Promises: leases, attempts, budgets, reviews and replays of runs.
    \<^item> Attachment_Download (lib/attachment-download.ts): the decoding of a payload.
      Attachment_Repair (attachment-repair.ts): the repair of one object and the page loop.
      Attachment_Repair_Facts: a repair only fills verified payloads.  Attachment_Page: the locale
      \<open>ledger_client\<close>, what the page loop needs of its ledger, and its use on the model's ledger;
      a page among other workers.

  \<^bold>\<open>Identity.\<close>
    \<^item> Auth_Schema (migrations.ts): the tables with their keys, checks and foreign keys, and the
      transactions over them.  Auth_Password (auth/password.ts).  Auth_Store (auth/store.ts,
      auth/tokens.ts): one definition per method of \<open>AuthStore\<close>.
    \<^item> Auth_Store_Facts: the locale \<open>tx_relation\<close> of Auth_Schema (a relation every method keeps is
      kept by every history of methods) and the fading of tokens.  Auth_Accounts: well-formedness of the account
      tables under every history.  Auth_Lifecycle: password resets, invitations and sessions.
      Auth_Ownership: the last owner, grants of external principals, the lockout ladder.
    \<^item> Rate_Limit, Allowed_Email, Client_Ip, Idp_Token: the modules of the same names under
      auth/.  The limiter is refined against a log that forgets nothing.
    \<^item> Auth_Context and Auth_Service (auth/service.ts, keys.ts): the handlers as actions on the
      service state, and \<open>resolveRequestContext\<close>.  Auth_Routes: \<open>handleAuthRoutes\<close>.
    \<^item> Auth_Service_Facts: the locales \<open>action_relation\<close> and \<open>auth_invariant\<close> lift a relation from
      the store's methods to whole requests; who a resolved principal is; logging out.
      Auth_Guards: logins, what unauthenticated answers give away, changes of owners.

  \<^bold>\<open>Bounds.\<close>  Every recursion is structural or has a measure, except \<open>parse_notification\<close>, which
  follows the nesting of SNS envelopes with fuel: \<open>parseSesNotification\<close> starts it with more than
  the length of the body, and \<open>parse_notification_fuel\<close> in Inbound_Once shows that more fuel never
  changes the answer when a nested message is shorter than its envelope, as in JSON it is.  The page
  loop of the repair worker runs at most the page limit of 25 rounds.  The send
  handler answers after seven awaited calls, which Send_Handler_Facts proves.  In the identity service
  the calls of one handler run without other requests in between; the properties of the store
  itself hold for every sequence of its methods, so for every interleaving of transactions.

  \<^bold>\<open>Not modelled.\<close>  The other reads of the mailbox store (threads, the lists of
  domains and addresses, the sandbox, generic resources),
  the SQS and S3 loops around the ingest worker and its command-line canaries, writing downloaded
  attachments to disk, mail texts, response formatting of dates (instants stand
  as their milliseconds), the start-up configuration, row-level security, the client, the
  command line and the local SQLite mode.  The OpenAPI description and the response contracts are
  data about the routes.
\<close>

end
